(* ===== verification/Prelude.thy ===== *)
theory Prelude
  imports Main "HOL-Library.Multiset" "HOL-Library.Sublist"
begin

text \<open>
  What every other theory shares: the fact collections of the development, the list and
  option operations of ECMAScript the code is written with (\<open>findIndex\<close>, an
  out-of-range read, \<open>[...new Set(xs)]\<close>), their lemmas, and the three interfaces that
  several components rely on, stated as locales: a reducer that keeps an invariant, a
  codec whose decoder undoes its encoder, and a keyed store.
\<close>

named_theorems step_defs \<open>the definitions a state transition unfolds to\<close>
named_theorems inv_defs \<open>the definitions an invariant unfolds to\<close>
named_theorems js_eval \<open>equations that evaluate the base operations on concrete input\<close>

section \<open>Reading an array\<close>

text \<open>\<open>xs[i]\<close> with a number that is in range or not; \<open>None\<close> is \<open>undefined\<close>.\<close>

definition at :: "'a list \<Rightarrow> int \<Rightarrow> 'a option" where
  "at xs i = (if 0 \<le> i \<and> i < int (length xs) then Some (xs ! nat i) else None)"

lemma at_Some_iff: "at xs i = Some x \<longleftrightarrow> 0 \<le> i \<and> i < int (length xs) \<and> xs ! nat i = x"
  by (auto simp: at_def)

lemma at_None_iff: "at xs i = None \<longleftrightarrow> i < 0 \<or> int (length xs) \<le> i"
  by (auto simp: at_def)

lemma at_nat [simp]: "n < length xs \<Longrightarrow> at xs (int n) = Some (xs ! n)"
  by (simp add: at_def)

lemma at_Nil [simp]: "at [] i = None"
  by (simp add: at_def)

lemma at_in_set: "at xs i = Some x \<Longrightarrow> x \<in> set xs"
  by (auto simp: at_Some_iff)

text \<open>\<open>xs.findIndex(p)\<close>: the first position that satisfies \<open>p\<close>, or \<open>-1\<close>.\<close>

fun find_from :: "nat \<Rightarrow> ('a \<Rightarrow> bool) \<Rightarrow> 'a list \<Rightarrow> int" where
  "find_from n p [] = -1"
| "find_from n p (x # xs) = (if p x then int n else find_from (Suc n) p xs)"

definition find_index :: "('a \<Rightarrow> bool) \<Rightarrow> 'a list \<Rightarrow> int" where
  "find_index p xs = find_from 0 p xs"

lemma find_from_cases:
  "(find_from n p xs = -1 \<and> (\<forall>x \<in> set xs. \<not> p x)) \<or>
   (\<exists>k < length xs. find_from n p xs = int (n + k) \<and> p (xs ! k) \<and> (\<forall>j < k. \<not> p (xs ! j)))"
proof (induction xs arbitrary: n)
  case Nil
  then show ?case by simp
next
  case (Cons x xs)
  show ?case
  proof (cases "p x")
    case True
    then show ?thesis by (auto intro!: exI [of _ 0])
  next
    case False
    from Cons.IH [of "Suc n"] show ?thesis
    proof (elim disjE exE conjE)
      assume "find_from (Suc n) p xs = -1" and "\<forall>y \<in> set xs. \<not> p y"
      with False show ?thesis by simp
    next
      fix k
      assume k: "k < length xs" "find_from (Suc n) p xs = int (Suc n + k)" "p (xs ! k)"
        and before: "\<forall>j < k. \<not> p (xs ! j)"
      from before False have "\<forall>j < Suc k. \<not> p ((x # xs) ! j)"
        by (auto simp: less_Suc_eq_0_disj)
      with k False show ?thesis by (intro disjI2 exI [of _ "Suc k"]) simp
    qed
  qed
qed

lemma find_index_cases:
  obtains (absent) "find_index p xs = -1" "\<And>x. x \<in> set xs \<Longrightarrow> \<not> p x"
    | (found) k where "find_index p xs = int k" "k < length xs" "p (xs ! k)"
        "\<And>j. j < k \<Longrightarrow> \<not> p (xs ! j)"
  using find_from_cases [of 0 p xs] unfolding find_index_def by auto

lemma find_index_absent_iff: "find_index p xs = -1 \<longleftrightarrow> (\<forall>x \<in> set xs. \<not> p x)"
  by (cases rule: find_index_cases [of p xs]) (auto dest: nth_mem)

lemma find_from_map: "find_from n p (map f xs) = find_from n (\<lambda>x. p (f x)) xs"
  by (induction xs arbitrary: n) auto

lemma find_index_map: "find_index p (map f xs) = find_index (\<lambda>x. p (f x)) xs"
  by (simp add: find_index_def find_from_map)

section \<open>Sets made from arrays\<close>

text \<open>\<open>[...new Set(xs)]\<close> keeps the first occurrence of each element, in order.\<close>

definition uniq :: "'a list \<Rightarrow> 'a list" where
  "uniq xs = rev (remdups (rev xs))"

lemma set_uniq [simp]: "set (uniq xs) = set xs"
  by (simp add: uniq_def)

lemma distinct_uniq [simp]: "distinct (uniq xs)"
  by (simp add: uniq_def)

lemma uniq_id: "distinct xs \<Longrightarrow> uniq xs = xs"
  by (simp add: uniq_def distinct_remdups_id)

section \<open>Options\<close>

text \<open>\<open>a ?? b\<close> on a value that is absent or not.\<close>

fun orelse :: "'a option \<Rightarrow> 'a \<Rightarrow> 'a" where
  "orelse None d = d"
| "orelse (Some x) d = x"

lemma orelse_cases: "orelse a d = (case a of None \<Rightarrow> d | Some x \<Rightarrow> x)"
  by (cases a) auto

section \<open>Lists\<close>

lemma find_Some_iff_ex: "find p xs = Some x \<Longrightarrow> x \<in> set xs \<and> p x"
  by (auto simp: find_Some_iff)

lemma distinct_map_filter: "distinct (map f xs) \<Longrightarrow> distinct (map f (filter p xs))"
  by (induction xs) auto

lemma distinct_map_eq_nth:
  assumes "distinct (map f xs)" "i < length xs" "j < length xs" "f (xs ! i) = f (xs ! j)"
  shows "i = j"
  using assms by (auto simp: distinct_conv_nth)

lemma distinct_mapD:
  assumes "distinct (map f xs)" "x \<in> set xs" "y \<in> set xs" "f x = f y"
  shows "x = y"
  using assms by (auto simp: distinct_map inj_on_def)

lemma sum_list_if_count: "sum_list (map (\<lambda>x. if p x then 1 else 0) xs) = length (filter p xs)"
  by (induction xs) auto

lemma mset_swap_update:
  assumes "i < length xs" "j < length xs"
  shows "mset (xs[i := xs ! j, j := xs ! i]) = mset xs"
  using mset_swap [OF assms(2,1)] by (cases "i = j") (simp_all add: list_update_swap)

section \<open>Interfaces\<close>

text \<open>
  A reducer: a state, the events it receives, and an invariant each event keeps. The
  cockpit of a Run and the page of a Batch are reducers over server-sent events.
\<close>

locale reducer =
  fixes step :: "'s \<Rightarrow> 'e \<Rightarrow> 's"
    and inv :: "'s \<Rightarrow> bool"
  assumes step_inv: "inv s \<Longrightarrow> inv (step s e)"
begin

lemma run_inv: "inv s \<Longrightarrow> inv (foldl step s es)"
  by (induction es arbitrary: s) (auto intro: step_inv)

lemma run_prefix_inv: "inv s \<Longrightarrow> inv (foldl step s (take n es))"
  by (rule run_inv)

end

text \<open>A reducer that in addition keeps a measure of the state as it is (a frame property).\<close>

locale framed_reducer = reducer +
  fixes frame :: "'a \<Rightarrow> 'c"
  assumes step_frame: "frame (step s e) = frame s"
begin

lemma run_frame: "frame (foldl step s es) = frame s"
  by (induction es arbitrary: s) (auto simp: step_frame)

lemma run_inv_frame: "inv s \<Longrightarrow> inv (foldl step s es) \<and> frame (foldl step s es) = frame s"
  by (simp add: run_inv run_frame)

end

text \<open>
  A codec: what is encoded from a well-formed value decodes to it. Encodings of
  different well-formed values are then different.
\<close>

locale codec =
  fixes enc :: "'a \<Rightarrow> 'b"
    and dec :: "'b \<Rightarrow> 'a option"
    and ok :: "'a \<Rightarrow> bool"
  assumes dec_enc: "ok x \<Longrightarrow> dec (enc x) = Some x"
begin

lemma enc_inj: "ok x \<Longrightarrow> ok y \<Longrightarrow> enc x = enc y \<Longrightarrow> x = y"
  by (metis dec_enc option.inject)

lemma enc_inj_on: "inj_on enc {x. ok x}"
  by (rule inj_onI) (simp add: enc_inj)

end

text \<open>A codec whose decoder yields well-formed values only: decoding is then idempotent.\<close>

locale sound_codec = codec +
  assumes dec_ok: "dec y = Some x \<Longrightarrow> ok x"
begin

lemma dec_stable: "dec y = Some x \<Longrightarrow> dec (enc x) = Some x"
  by (rule dec_enc) (rule dec_ok)

lemma ok_iff: "ok x \<longleftrightarrow> (\<exists>y. dec y = Some x)"
  using dec_enc dec_ok by blast

end

end
