(* ===== verification/JsText.thy ===== *)
theory JsText
  imports Prelude
begin

text \<open>
  Strings and numbers of ECMAScript, as far as the code uses them.

  A string is modelled by its UTF-8 encoding, a list of 8-bit \<open>char\<close>s: the ASCII text
  the code compares, splits and searches for is the same list of characters, and a literal
  beyond ASCII is written by its bytes (the middle dot is \<open>CHR 0xC2, CHR 0xB7\<close>).
  Concatenation, equality, splitting at and searching for an ASCII character, and prefix
  tests commute with the encoding. Lengths and offsets count bytes, which are code units
  where the text is ASCII.

  A number is an integer or \<open>NaN\<close>. The numbers the modelled code computes with are
  counts, positions and milliseconds; fractions appear in two places only (a duration in
  tenths of a second, a share of a timeline), where the theories say how they are kept.
\<close>

section \<open>Characters\<close>

definition code :: "char \<Rightarrow> nat" where
  "code c = of_char c"

definition is_digit :: "char \<Rightarrow> bool" where
  "is_digit c \<longleftrightarrow> 48 \<le> code c \<and> code c \<le> 57"

definition is_lower :: "char \<Rightarrow> bool" where
  "is_lower c \<longleftrightarrow> 97 \<le> code c \<and> code c \<le> 122"

definition is_upper :: "char \<Rightarrow> bool" where
  "is_upper c \<longleftrightarrow> 65 \<le> code c \<and> code c \<le> 90"

definition digit_char :: "nat \<Rightarrow> char" where
  "digit_char d = char_of (48 + d)"

definition digit_val :: "char \<Rightarrow> nat" where
  "digit_val c = code c - 48"

lemma code_digit_char [simp]: "d < 10 \<Longrightarrow> code (digit_char d) = 48 + d"
  by (simp add: code_def digit_char_def)

lemma is_digit_digit_char [simp]: "d < 10 \<Longrightarrow> is_digit (digit_char d)"
  by (simp add: is_digit_def)

lemma digit_val_digit_char [simp]: "d < 10 \<Longrightarrow> digit_val (digit_char d) = d"
  by (simp add: digit_val_def)

lemma code_inject [simp]: "code c = code d \<longleftrightarrow> c = d"
  by (simp add: code_def)

section \<open>Decimal numerals\<close>

fun show_nat :: "nat \<Rightarrow> string" where
  "show_nat n = (if n < 10 then [digit_char n] else show_nat (n div 10) @ [digit_char (n mod 10)])"

declare show_nat.simps [simp del]

definition show_int :: "int \<Rightarrow> string" where
  "show_int i = (if i < 0 then ''-'' @ show_nat (nat (- i)) else show_nat (nat i))"

definition digits_val :: "string \<Rightarrow> nat" where
  "digits_val s = foldl (\<lambda>n c. 10 * n + digit_val c) 0 s"

lemma digits_val_zeros: "digits_val (replicate n (CHR ''0'') @ s) = digits_val s"
  by (induction n) (simp_all add: digits_val_def digit_val_def code_def)

lemma digits_val_snoc: "digits_val (s @ [c]) = 10 * digits_val s + digit_val c"
  by (simp add: digits_val_def)

lemma show_nat_nonempty [simp]: "show_nat n \<noteq> []"
  by (subst show_nat.simps) simp

lemma show_nat_digits: "c \<in> set (show_nat n) \<Longrightarrow> is_digit c"
proof (induction n rule: show_nat.induct)
  case (1 n)
  then show ?case
    by (subst (asm) (2) show_nat.simps) (auto split: if_splits)
qed

lemma digits_val_show_nat [simp]: "digits_val (show_nat n) = n"
proof (induction n rule: show_nat.induct)
  case (1 n)
  show ?case
  proof (cases "n < 10")
    case True
    then show ?thesis
      by (simp add: show_nat.simps [of n] digits_val_def)
  next
    case False
    with 1 have "digits_val (show_nat (n div 10)) = n div 10" by simp
    with False show ?thesis
      by (simp add: show_nat.simps [of n] digits_val_snoc)
  qed
qed

lemma show_nat_inject [simp]: "show_nat m = show_nat n \<longleftrightarrow> m = n"
  by (metis digits_val_show_nat)

text \<open>A numeral of decimal digits only: the test \<open>/^\d+$/\<close>.\<close>

definition all_digits :: "string \<Rightarrow> bool" where
  "all_digits s \<longleftrightarrow> s \<noteq> [] \<and> list_all is_digit s"

lemma all_digits_show_nat [simp]: "all_digits (show_nat n)"
  by (auto simp: all_digits_def list_all_iff dest: show_nat_digits)

text \<open>\<open>s.padStart(n, c)\<close>.\<close>

definition pad_start :: "nat \<Rightarrow> char \<Rightarrow> string \<Rightarrow> string" where
  "pad_start n c s = replicate (n - length s) c @ s"

section \<open>White space\<close>

text \<open>The white space of \<open>trim\<close> and \<open>\s\<close>, each character as its UTF-8 bytes.\<close>

definition white :: "string list" where
  "white =
     [[CHR 0x09], [CHR 0x0A], [CHR 0x0B], [CHR 0x0C], [CHR 0x0D], [CHR 0x20],
      [CHR 0xC2, CHR 0xA0], [CHR 0xE1, CHR 0x9A, CHR 0x80],
      [CHR 0xE2, CHR 0x80, CHR 0x80], [CHR 0xE2, CHR 0x80, CHR 0x81],
      [CHR 0xE2, CHR 0x80, CHR 0x82], [CHR 0xE2, CHR 0x80, CHR 0x83],
      [CHR 0xE2, CHR 0x80, CHR 0x84], [CHR 0xE2, CHR 0x80, CHR 0x85],
      [CHR 0xE2, CHR 0x80, CHR 0x86], [CHR 0xE2, CHR 0x80, CHR 0x87],
      [CHR 0xE2, CHR 0x80, CHR 0x88], [CHR 0xE2, CHR 0x80, CHR 0x89],
      [CHR 0xE2, CHR 0x80, CHR 0x8A], [CHR 0xE2, CHR 0x80, CHR 0xA8],
      [CHR 0xE2, CHR 0x80, CHR 0xA9], [CHR 0xE2, CHR 0x80, CHR 0xAF],
      [CHR 0xE2, CHR 0x81, CHR 0x9F], [CHR 0xE3, CHR 0x80, CHR 0x80],
      [CHR 0xEF, CHR 0xBB, CHR 0xBF]]"

text \<open>The length of the character of \<open>ws\<close> a string starts with, 0 when there is none.\<close>

definition lead :: "string list \<Rightarrow> string \<Rightarrow> nat" where
  "lead ws s = (case find (\<lambda>w. prefix w s) ws of None \<Rightarrow> 0 | Some w \<Rightarrow> length w)"

function strip :: "string list \<Rightarrow> string \<Rightarrow> string" where
  "strip ws s = (if s = [] \<or> lead ws s = 0 then s else strip ws (drop (lead ws s) s))"
  by pat_completeness auto
termination
  by (relation "measure (\<lambda>(ws, s). length s)") auto

declare strip.simps [simp del]

definition trim :: "string \<Rightarrow> string" where
  "trim s = rev (strip (map rev white) (rev (strip white s)))"

text \<open>\<open>s.split(/\s+/)\<close>: \<open>acc\<close> is the piece being read, in reverse.\<close>

function split_white :: "string \<Rightarrow> string \<Rightarrow> string list" where
  "split_white acc s =
     (case s of
        [] \<Rightarrow> [rev acc]
      | c # s' \<Rightarrow>
          if lead white s = 0 then split_white (c # acc) s'
          else rev acc # split_white [] (strip white s))"
  by pat_completeness auto

lemma strip_length: "length (strip ws s) \<le> length s"
proof (induction ws s rule: strip.induct)
  case (1 ws s)
  then show ?case
    by (subst strip.simps) (auto dest: le_trans)
qed

lemma strip_length_less:
  assumes "s \<noteq> []" and "lead ws s \<noteq> 0"
  shows "length (strip ws s) < length s"
proof -
  have "strip ws s = strip ws (drop (lead ws s) s)"
    using assms by (simp add: strip.simps [of ws s])
  moreover have "length (drop (lead ws s) s) < length s"
    using assms by (cases s) auto
  ultimately show ?thesis
    using strip_length [of ws "drop (lead ws s) s"] by (simp only: le_less_trans)
qed

termination split_white
  by (relation "measure (\<lambda>(acc, s). length s)")
    (use strip_length_less [of "_ # _"] in auto)

declare split_white.simps [simp del]

text \<open>Characters that start no white space: those of a cron expression, of an identifier.\<close>

definition solid :: "char \<Rightarrow> bool" where
  "solid c \<longleftrightarrow> 32 < code c \<and> code c < 128"

lemma lead_eq_0:
  assumes "\<forall>w \<in> set ws. \<exists>b t. w = b # t \<and> b \<noteq> c"
  shows "lead ws (c # s) = 0"
proof -
  have "find (\<lambda>w. prefix w (c # s)) ws = None"
    using assms by (auto simp: find_None_iff)
  then show ?thesis by (simp add: lead_def)
qed

lemma white_not_solid: "\<forall>w \<in> set white. \<exists>b t. w = b # t \<and> \<not> solid b"
  by (simp add: white_def solid_def code_def)

lemma rev_white_not_solid: "\<forall>w \<in> set (map rev white). \<exists>b t. w = b # t \<and> \<not> solid b"
  by (simp add: white_def solid_def code_def)

lemma lead_solid: "solid c \<Longrightarrow> lead white (c # s) = 0"
  by (rule lead_eq_0) (use white_not_solid in blast)

lemma lead_rev_solid: "solid c \<Longrightarrow> lead (map rev white) (c # s) = 0"
  by (rule lead_eq_0) (use rev_white_not_solid in blast)

lemma lead_space: "lead white (CHR '' '' # s) = 1"
  by (simp add: lead_def white_def)

lemma strip_solid: "solid c \<Longrightarrow> strip white (c # s) = c # s"
  by (simp add: strip.simps [of white "c # s"] lead_solid)

lemma strip_id: "lead ws s = 0 \<Longrightarrow> strip ws s = s"
  by (simp add: strip.simps [of ws s])

lemma trim_solid:
  assumes "s \<noteq> []" and "solid (hd s)" and "solid (last s)"
  shows "trim s = s"
proof -
  obtain c t where "s = c # t" using assms(1) by (cases s) auto
  with assms(2) have "strip white s = s" by (simp add: strip_solid)
  moreover obtain d u where "rev s = d # u" and "solid d"
    using assms by (cases "rev s") (auto simp flip: hd_rev)
  then have "strip (map rev white) (rev s) = rev s"
    by (simp add: strip_id lead_rev_solid)
  ultimately show ?thesis by (simp add: trim_def)
qed

lemma split_white_word:
  "list_all solid w \<Longrightarrow> split_white acc (w @ s) = split_white (rev w @ acc) s"
proof (induction w arbitrary: acc)
  case Nil
  then show ?case by simp
next
  case (Cons c w)
  then show ?case
    by (simp add: split_white.simps [of acc "c # w @ s"] lead_solid)
qed

lemma split_white_end: "split_white acc [] = [rev acc]"
  by (simp add: split_white.simps [of acc "[]"])

lemma split_white_space:
  "solid c \<Longrightarrow> split_white acc (CHR '' '' # c # s) = rev acc # split_white [] (c # s)"
  by (subst split_white.simps) (simp add: lead_space strip.simps [of white "CHR '' '' # c # s"] strip_solid)

section \<open>Splitting and joining\<close>

text \<open>\<open>s.split(c)\<close> at one character, and \<open>xs.join(sep)\<close>.\<close>

fun split_on :: "char \<Rightarrow> string \<Rightarrow> string list" where
  "split_on d [] = [[]]"
| "split_on d (c # s) =
     (if c = d then [] # split_on d s
      else (case split_on d s of [] \<Rightarrow> [[c]] | w # ws \<Rightarrow> (c # w) # ws))"

fun join :: "string \<Rightarrow> string list \<Rightarrow> string" where
  "join sep [] = []"
| "join sep [w] = w"
| "join sep (w # v # ws) = w @ sep @ join sep (v # ws)"

lemma join_nonempty [simp]: "w \<noteq> [] \<Longrightarrow> join sep (w # ws) \<noteq> []"
  by (cases ws) auto

lemma split_on_nonempty [simp]: "split_on d s \<noteq> []"
  by (induction s) (auto split: list.splits)

lemma split_on_plain: "d \<notin> set w \<Longrightarrow> split_on d w = [w]"
  by (induction w) auto

lemma split_on_append: "d \<notin> set w \<Longrightarrow> split_on d (w @ d # s) = w # split_on d s"
  by (induction w) auto

lemma split_on_join:
  "ws \<noteq> [] \<Longrightarrow> \<forall>w \<in> set ws. d \<notin> set w \<Longrightarrow> split_on d (join [d] ws) = ws"
  by (induction "[d]" ws rule: join.induct) (auto simp: split_on_plain split_on_append)

lemma join_split_on: "join [d] (split_on d s) = s"
proof (induction s)
  case Nil
  then show ?case by simp
next
  case (Cons c s)
  obtain w ws where "split_on d s = w # ws"
    using split_on_nonempty [of d s] by (cases "split_on d s") auto
  with Cons show ?case by (cases ws) auto
qed

lemma split_on_no_sep: "w \<in> set (split_on d s) \<Longrightarrow> d \<notin> set w"
  by (induction s arbitrary: w) (auto split: list.splits if_splits)

lemma set_join: "set (join sep ws) \<subseteq> set sep \<union> (\<Union>w \<in> set ws. set w)"
  by (induction sep ws rule: join.induct) auto

text \<open>Words without white space, joined by single spaces, are what \<open>split(/\s+/)\<close> gives back.\<close>

lemma split_white_join:
  "ws \<noteq> [] \<Longrightarrow> \<forall>w \<in> set ws. w \<noteq> [] \<and> list_all solid w \<Longrightarrow> split_white [] (join '' '' ws) = ws"
proof (induction "'' ''" ws rule: join.induct)
  case 1
  then show ?case by simp
next
  case (2 w)
  then show ?case
    using split_white_word [of w "[]" "[]"] by (simp add: split_white_end)
next
  case (3 w v ws)
  obtain c t where v: "v = c # t" and c: "solid c"
    using 3 by (cases v) auto
  have rest: "join '' '' (v # ws) = c # tl (join '' '' (v # ws))"
    by (cases ws) (simp_all add: v)
  have "split_white [] (join '' '' (w # v # ws)) = split_white (rev w) (CHR '' '' # join '' '' (v # ws))"
    using 3 split_white_word [of w "[]"] by simp
  also have "\<dots> = w # split_white [] (join '' '' (v # ws))"
    using split_white_space [OF c, of "rev w"] rest by (metis rev_rev_ident)
  finally show ?case using 3 by simp
qed

lemma trim_join:
  assumes "ws \<noteq> []" and "\<forall>w \<in> set ws. w \<noteq> [] \<and> list_all solid w"
  shows "trim (join '' '' ws) = join '' '' ws"
proof (rule trim_solid)
  from assms show "join '' '' ws \<noteq> []" by (cases ws) auto
  from assms show "solid (hd (join '' '' ws))"
    by (induction "'' ''" ws rule: join.induct) (auto simp: list_all_iff)
  from assms show "solid (last (join '' '' ws))"
    by (induction "'' ''" ws rule: join.induct) (auto simp: list_all_iff)
qed

section \<open>Lower case\<close>

text \<open>
  \<open>s.toLowerCase()\<close>. The ASCII letters, and the two characters beyond ASCII whose lower
  case holds an ASCII letter: the Kelvin sign (a \<open>k\<close>) and the capital I with dot above
  (an \<open>i\<close> and a combining dot). Every other character keeps its bytes.
\<close>

definition lower_char :: "char \<Rightarrow> char" where
  "lower_char c = (if is_upper c then char_of (code c + 32) else c)"

fun to_lower :: "string \<Rightarrow> string" where
  "to_lower [] = []"
| "to_lower (c # s) =
     (if c = CHR 0xE2 \<and> prefix [CHR 0x84, CHR 0xAA] s then CHR ''k'' # to_lower (drop 2 s)
      else if c = CHR 0xC4 \<and> prefix [CHR 0xB0] s
      then CHR ''i'' # CHR 0xCC # CHR 0x87 # to_lower (drop 1 s)
      else lower_char c # to_lower s)"

end
