(* ===== verification/JsValue.thy ===== *)
theory JsValue
  imports JsText "HOL-Library.Monad_Syntax"
begin

text \<open>
  Values of ECMAScript whose type the code does not know (\<open>unknown\<close>), numbers with
  \<open>NaN\<close>, \<open>JSON.stringify\<close> and \<open>Date.parse\<close>.

  An object is its own properties in the order they were added, with one entry per key;
  the properties it inherits from \<open>Object.prototype\<close> and the reordering of keys that
  look like array indices are not modelled. \<open>Date.parse\<close> reads the date time format of
  ECMAScript with an explicit offset, which is what the API sends; the result for any
  other text depends on the implementation or on its time zone, and the model gives
  \<open>NaN\<close>.
\<close>

section \<open>Numbers\<close>

datatype jsnum = NaN | Num int

fun num_add :: "jsnum \<Rightarrow> jsnum \<Rightarrow> jsnum" where
  "num_add (Num a) (Num b) = Num (a + b)"
| "num_add _ _ = NaN"

fun num_sub :: "jsnum \<Rightarrow> jsnum \<Rightarrow> jsnum" where
  "num_sub (Num a) (Num b) = Num (a - b)"
| "num_sub _ _ = NaN"

text \<open>\<open>Math.max(a, b)\<close>, \<open>Math.floor(a / k)\<close> and \<open>Math.ceil(a / k)\<close> for \<open>k > 0\<close>.\<close>

fun num_max :: "jsnum \<Rightarrow> jsnum \<Rightarrow> jsnum" where
  "num_max (Num a) (Num b) = Num (max a b)"
| "num_max _ _ = NaN"

fun num_floor :: "jsnum \<Rightarrow> int \<Rightarrow> jsnum" where
  "num_floor (Num a) k = Num (a div k)"
| "num_floor NaN k = NaN"

fun num_ceil :: "jsnum \<Rightarrow> int \<Rightarrow> jsnum" where
  "num_ceil (Num a) k = Num (- (- a div k))"
| "num_ceil NaN k = NaN"

text \<open>\<open>a % k\<close> takes the sign of \<open>a\<close>.\<close>

definition js_rem :: "int \<Rightarrow> int \<Rightarrow> int" where
  "js_rem a k = sgn a * (\<bar>a\<bar> mod \<bar>k\<bar>)"

fun num_rem :: "jsnum \<Rightarrow> int \<Rightarrow> jsnum" where
  "num_rem (Num a) k = Num (js_rem a k)"
| "num_rem NaN k = NaN"

text \<open>Every comparison with \<open>NaN\<close> is false.\<close>

fun num_less :: "jsnum \<Rightarrow> jsnum \<Rightarrow> bool" where
  "num_less (Num a) (Num b) \<longleftrightarrow> a < b"
| "num_less _ _ \<longleftrightarrow> False"

fun num_le :: "jsnum \<Rightarrow> jsnum \<Rightarrow> bool" where
  "num_le (Num a) (Num b) \<longleftrightarrow> a \<le> b"
| "num_le _ _ \<longleftrightarrow> False"

fun num_eq :: "jsnum \<Rightarrow> jsnum \<Rightarrow> bool" where
  "num_eq (Num a) (Num b) \<longleftrightarrow> a = b"
| "num_eq _ _ \<longleftrightarrow> False"

text \<open>\<open>String(n)\<close>.\<close>

fun show_num :: "jsnum \<Rightarrow> string" where
  "show_num NaN = ''NaN''"
| "show_num (Num i) = show_int i"

declare show_num.simps [simp del]

lemma show_num_nat: "0 \<le> k \<Longrightarrow> show_num (Num k) = show_nat (nat k)"
  by (simp add: show_num.simps show_int_def)

definition nonneg :: "jsnum \<Rightarrow> bool" where
  "nonneg n \<longleftrightarrow> (case n of NaN \<Rightarrow> True | Num i \<Rightarrow> 0 \<le> i)"

lemma nonneg_simps [simp]: "nonneg NaN" "nonneg (Num i) \<longleftrightarrow> 0 \<le> i"
  by (simp_all add: nonneg_def)

lemma nonneg_max [simp]: "nonneg (num_max (Num 0) n)"
  by (cases n) auto

lemma nonneg_add: "nonneg a \<Longrightarrow> nonneg b \<Longrightarrow> nonneg (num_add a b)"
  by (cases a; cases b) auto

section \<open>Values\<close>

datatype js =
    Undefined
  | Null
  | Bool bool
  | Number jsnum
  | Str string
  | Arr "js list"
  | Obj "(string \<times> js) list"

type_synonym fields = "(string \<times> js) list"

text \<open>\<open>o[key]\<close> on a \<open>Record of unknown values\<close>, and \<open>key in o\<close>.\<close>

definition field :: "fields \<Rightarrow> string \<Rightarrow> js" where
  "field ob k = (case map_of ob k of None \<Rightarrow> Undefined | Some v \<Rightarrow> v)"

definition has_key :: "fields \<Rightarrow> string \<Rightarrow> bool" where
  "has_key ob k \<longleftrightarrow> k \<in> fst ` set ob"

text \<open>\<open>{ ...o, [k]: v }\<close>: a key that is there keeps its place.\<close>

fun with_key :: "string \<Rightarrow> 'v \<Rightarrow> (string \<times> 'v) list \<Rightarrow> (string \<times> 'v) list" where
  "with_key k v [] = [(k, v)]"
| "with_key k v ((k', v') # ob) = (if k' = k then (k, v) # ob else (k', v') # with_key k v ob)"

lemma map_of_with_key [simp]: "map_of (with_key k v ob) = (map_of ob)(k \<mapsto> v)"
  by (induction ob) auto

lemma keys_with_key: "map fst (with_key k v ob) = (if k \<in> fst ` set ob then map fst ob else map fst ob @ [k])"
  by (induction ob) force+

lemma distinct_with_key: "distinct (map fst ob) \<Longrightarrow> distinct (map fst (with_key k v ob))"
  by (auto simp: keys_with_key)

lemma set_with_key: "fst ` set (with_key k v ob) = insert k (fst ` set ob)"
  unfolding set_map [symmetric] keys_with_key by auto

lemma field_with_key [simp]: "field (with_key k v ob) k' = (if k' = k then v else field ob k')"
  by (simp add: field_def)

lemma has_key_iff: "has_key ob k \<longleftrightarrow> map_of ob k \<noteq> None"
  by (auto simp: has_key_def map_of_eq_None_iff)

text \<open>The value of a type test: \<open>typeof v === "string"\<close>, \<open>"number"\<close>.\<close>

fun as_string :: "js \<Rightarrow> string option" where
  "as_string (Str s) = Some s"
| "as_string _ = None"

fun as_number :: "js \<Rightarrow> jsnum option" where
  "as_number (Number n) = Some n"
| "as_number _ = None"

section \<open>Numbers from text\<close>

text \<open>
  \<open>Number(s)\<close> of a text: blank text is 0 and a decimal numeral, with or
  without a sign, is its value. Any other text is \<open>NaN\<close> here, which leaves out the
  hexadecimal, binary, octal and exponent forms and \<open>Infinity\<close>.
\<close>

definition number_of_text :: "string \<Rightarrow> jsnum" where
  "number_of_text s =
     (let t = trim s in
      if t = [] then Num 0
      else if all_digits t then Num (int (digits_val t))
      else if hd t = CHR ''-'' \<and> all_digits (tl t) then Num (- int (digits_val (tl t)))
      else if hd t = CHR ''+'' \<and> all_digits (tl t) then Num (int (digits_val (tl t)))
      else NaN)"

lemma number_of_text_solid:
  assumes "solid (hd s)" and "solid (last s)" and "s \<noteq> []"
  shows "number_of_text s =
     (if all_digits s then Num (int (digits_val s))
      else if hd s = CHR ''-'' \<and> all_digits (tl s) then Num (- int (digits_val (tl s)))
      else if hd s = CHR ''+'' \<and> all_digits (tl s) then Num (int (digits_val (tl s)))
      else NaN)"
  using trim_solid [OF assms(3,1,2)] assms(3) by (simp add: number_of_text_def)

section \<open>JSON.stringify\<close>

definition hex_digit :: "nat \<Rightarrow> char" where
  "hex_digit d = (if d < 10 then char_of (48 + d) else char_of (87 + d))"

definition escape :: "char \<Rightarrow> string" where
  "escape c =
     (if c = CHR 0x22 then [CHR 0x5C, CHR 0x22]
      else if c = CHR 0x5C then [CHR 0x5C, CHR 0x5C]
      else if c = CHR 0x08 then [CHR 0x5C, CHR ''b'']
      else if c = CHR 0x0C then [CHR 0x5C, CHR ''f'']
      else if c = CHR 0x0A then [CHR 0x5C, CHR ''n'']
      else if c = CHR 0x0D then [CHR 0x5C, CHR ''r'']
      else if c = CHR 0x09 then [CHR 0x5C, CHR ''t'']
      else if code c < 32
      then [CHR 0x5C, CHR ''u'', CHR ''0'', CHR ''0'', hex_digit (code c div 16), hex_digit (code c mod 16)]
      else [c])"

definition quote :: "string \<Rightarrow> string" where
  "quote s = [CHR 0x22] @ concat (map escape s) @ [CHR 0x22]"

fun stringify :: "js \<Rightarrow> string option"
  and stringify_items :: "js list \<Rightarrow> string list"
  and stringify_entries :: "(string \<times> js) list \<Rightarrow> string list" where
  "stringify Undefined = None"
| "stringify Null = Some ''null''"
| "stringify (Bool b) = Some (if b then ''true'' else ''false'')"
| "stringify (Number NaN) = Some ''null''"
| "stringify (Number (Num i)) = Some (show_int i)"
| "stringify (Str s) = Some (quote s)"
| "stringify (Arr xs) = Some (''['' @ join '','' (stringify_items xs) @ '']'')"
| "stringify (Obj ob) = Some (''{'' @ join '','' (stringify_entries ob) @ ''}'')"
| "stringify_items [] = []"
| "stringify_items (x # xs) = orelse (stringify x) ''null'' # stringify_items xs"
| "stringify_entries [] = []"
| "stringify_entries ((k, v) # ob) =
     (case stringify v of
        None \<Rightarrow> stringify_entries ob
      | Some s \<Rightarrow> (quote k @ '':'' @ s) # stringify_entries ob)"

section \<open>Date.parse\<close>

text \<open>The days from 1970-01-01 to a date of the Gregorian calendar.\<close>

definition days_from_civil :: "int \<Rightarrow> int \<Rightarrow> int \<Rightarrow> int" where
  "days_from_civil y m d =
     (let y' = (if m \<le> 2 then y - 1 else y);
          era = y' div 400;
          yoe = y' - era * 400;
          doy = (153 * ((m + 9) mod 12) + 2) div 5 + d - 1;
          doe = yoe * 365 + yoe div 4 - yoe div 100 + doy
      in era * 146097 + doe - 719468)"

definition leap :: "int \<Rightarrow> bool" where
  "leap y \<longleftrightarrow> y mod 4 = 0 \<and> (y mod 100 \<noteq> 0 \<or> y mod 400 = 0)"

definition days_in_month :: "int \<Rightarrow> int \<Rightarrow> int" where
  "days_in_month y m =
     (if m = 2 then (if leap y then 29 else 28) else if m \<in> {4, 6, 9, 11} then 30 else 31)"

text \<open>The number of exactly \<open>n\<close> digits a text starts with, and the rest.\<close>

definition read_digits :: "nat \<Rightarrow> string \<Rightarrow> (int \<times> string) option" where
  "read_digits n s =
     (if length s \<ge> n \<and> list_all is_digit (take n s) then Some (int (digits_val (take n s)), drop n s)
      else None)"

definition read_char :: "char \<Rightarrow> string \<Rightarrow> string option" where
  "read_char c s = (case s of [] \<Rightarrow> None | d # s' \<Rightarrow> if c = d then Some s' else None)"

definition read_range :: "nat \<Rightarrow> int \<Rightarrow> int \<Rightarrow> string \<Rightarrow> (int \<times> string) option" where
  "read_range n lo hi s =
     do { (v, r) \<leftarrow> read_digits n s; if lo \<le> v \<and> v \<le> hi then Some (v, r) else None }"

text \<open>Seconds with a fraction of any length, of which the first three digits count.\<close>

definition read_fraction :: "string \<Rightarrow> (int \<times> string) option" where
  "read_fraction s =
     (case read_char (CHR ''.'') s of
        None \<Rightarrow> Some (0, s)
      | Some r \<Rightarrow>
          let ds = takeWhile is_digit r
          in if ds = [] then None
             else Some (int (digits_val (take 3 (ds @ ''00''))), dropWhile is_digit r))"

definition read_seconds :: "string \<Rightarrow> (int \<times> string) option" where
  "read_seconds s =
     (case read_char (CHR '':'') s of
        None \<Rightarrow> Some (0, s)
      | Some r \<Rightarrow>
          do { (sec, r) \<leftarrow> read_range 2 0 59 r; (ms, r) \<leftarrow> read_fraction r; Some (sec * 1000 + ms, r) })"

text \<open>The offset in minutes: \<open>Z\<close>, \<open>+HH:mm\<close> or \<open>-HH:mm\<close>.\<close>

definition read_offset :: "string \<Rightarrow> int option" where
  "read_offset s =
     (if s = ''Z'' then Some 0
      else case s of
        [] \<Rightarrow> None
      | c # r \<Rightarrow>
          do { (h, r) \<leftarrow> read_range 2 0 23 r;
               r \<leftarrow> read_char (CHR '':'') r;
               (m, r) \<leftarrow> read_range 2 0 59 r;
               if r \<noteq> [] then None
               else if c = CHR ''+'' then Some (h * 60 + m)
               else if c = CHR ''-'' then Some (- (h * 60 + m))
               else None })"

definition read_date_time :: "string \<Rightarrow> int option" where
  "read_date_time s =
     do { (y, r) \<leftarrow> read_digits 4 s;
          r \<leftarrow> read_char (CHR ''-'') r;
          (mo, r) \<leftarrow> read_range 2 1 12 r;
          r \<leftarrow> read_char (CHR ''-'') r;
          (d, r) \<leftarrow> read_range 2 1 (days_in_month y mo) r;
          r \<leftarrow> read_char (CHR ''T'') r;
          (h, r) \<leftarrow> read_range 2 0 23 r;
          r \<leftarrow> read_char (CHR '':'') r;
          (mi, r) \<leftarrow> read_range 2 0 59 r;
          (ms, r) \<leftarrow> read_seconds r;
          off \<leftarrow> read_offset r;
          Some ((days_from_civil y mo d * 1440 + h * 60 + mi - off) * 60000 + ms) }"

definition date_parse :: "string \<Rightarrow> jsnum" where
  "date_parse s = (case read_date_time s of None \<Rightarrow> NaN | Some ms \<Rightarrow> Num ms)"

end
