(* ===== verification/Recurrence.thy ===== *)
theory Recurrence
  imports JsValue
begin

text \<open>
  The recurrences of a Schedule and their cron expressions: \<open>lib/recurrence.ts\<close>.
  \<open>to_cron\<close> raises a \<open>RangeError\<close> (\<open>Inl\<close>) for a recurrence out of range; \<open>from_cron\<close>
  reads back the expressions that a recurrence of the form can express and gives \<open>None\<close>
  for every other. An abstract reading of cron expressions (\<open>cron_matches\<close>) and of
  recurrences (\<open>recurs_at\<close>) states what both mean as sets of minutes.
\<close>

section \<open>The code\<close>

datatype recurrence =
    EveryNMinutes jsnum
  | Hourly jsnum
  | Daily jsnum jsnum
  | Weekdays jsnum jsnum
  | Weekly "jsnum list" jsnum jsnum
  | Monthly jsnum jsnum jsnum

datatype range_error = RangeError string

fun in_range :: "jsnum \<Rightarrow> int \<Rightarrow> int \<Rightarrow> bool" where
  "in_range (Num v) lo hi \<longleftrightarrow> lo \<le> v \<and> v \<le> hi"
| "in_range NaN lo hi \<longleftrightarrow> False"

definition require_range :: "jsnum \<Rightarrow> int \<Rightarrow> int \<Rightarrow> string \<Rightarrow> range_error + unit" where
  "require_range v lo hi name =
     (if in_range v lo hi then Inr ()
      else Inl (RangeError (name @ '' must be a whole number from '' @ show_int lo @ '' to '' @ show_int hi)))"

definition require_time :: "jsnum \<Rightarrow> jsnum \<Rightarrow> range_error + unit" where
  "require_time hour minute =
     (case require_range hour 0 23 ''hour'' of
        Inl e \<Rightarrow> Inl e
      | Inr _ \<Rightarrow> require_range minute 0 59 ''minute'')"

fun require_weekdays :: "jsnum list \<Rightarrow> range_error + unit" where
  "require_weekdays [] = Inr ()"
| "require_weekdays (d # ds) =
     (case require_range d 0 6 ''weekday'' of Inl e \<Rightarrow> Inl e | Inr _ \<Rightarrow> require_weekdays ds)"

fun to_cron :: "recurrence \<Rightarrow> range_error + string" where
  "to_cron (EveryNMinutes n) =
     (case require_range n 1 59 ''minute interval'' of
        Inl e \<Rightarrow> Inl e
      | Inr _ \<Rightarrow> Inr (''*/'' @ show_num n @ '' * * * *''))"
| "to_cron (Hourly minute) =
     (case require_range minute 0 59 ''minute'' of
        Inl e \<Rightarrow> Inl e
      | Inr _ \<Rightarrow> Inr (show_num minute @ '' * * * *''))"
| "to_cron (Daily hour minute) =
     (case require_time hour minute of
        Inl e \<Rightarrow> Inl e
      | Inr _ \<Rightarrow> Inr (show_num minute @ '' '' @ show_num hour @ '' * * *''))"
| "to_cron (Weekdays hour minute) =
     (case require_time hour minute of
        Inl e \<Rightarrow> Inl e
      | Inr _ \<Rightarrow> Inr (show_num minute @ '' '' @ show_num hour @ '' * * 1-5''))"
| "to_cron (Weekly weekdays hour minute) =
     (case require_time hour minute of
        Inl e \<Rightarrow> Inl e
      | Inr _ \<Rightarrow>
          if weekdays = [] \<or> card (set weekdays) \<noteq> length weekdays
          then Inl (RangeError ''weekdays must contain distinct days'')
          else case require_weekdays weekdays of
                 Inl e \<Rightarrow> Inl e
               | Inr _ \<Rightarrow>
                   Inr (show_num minute @ '' '' @ show_num hour @ '' * * '' @ join '','' (map show_num weekdays)))"
| "to_cron (Monthly day hour minute) =
     (case require_time hour minute of
        Inl e \<Rightarrow> Inl e
      | Inr _ \<Rightarrow>
          case require_range day 1 31 ''day'' of
            Inl e \<Rightarrow> Inl e
          | Inr _ \<Rightarrow> Inr (show_num minute @ '' '' @ show_num hour @ '' '' @ show_num day @ '' * *''))"

definition parse_number :: "string \<Rightarrow> int \<Rightarrow> int \<Rightarrow> jsnum option" where
  "parse_number f lo hi =
     (if \<not> all_digits f then None
      else let v = Num (int (digits_val f)) in if in_range v lo hi then Some v else None)"

text \<open>The match of \<open>/^\*\/(\d+)$/\<close>, its group.\<close>

definition interval_match :: "string \<Rightarrow> string option" where
  "interval_match f = (if prefix ''*/'' f \<and> all_digits (drop 2 f) then Some (drop 2 f) else None)"

text \<open>The test \<open>/^(?:[0-6])(?:,[0-6])*$/\<close>.\<close>

definition weekday_list :: "string \<Rightarrow> bool" where
  "weekday_list f \<longleftrightarrow>
     list_all (\<lambda>w. case w of [c] \<Rightarrow> 48 \<le> code c \<and> code c \<le> 54 | _ \<Rightarrow> False) (split_on (CHR '','') f)"

definition from_fields :: "string \<Rightarrow> string \<Rightarrow> string \<Rightarrow> string \<Rightarrow> string \<Rightarrow> recurrence option" where
  "from_fields minute_f hour_f day_f month_f weekday_f =
     (if month_f \<noteq> ''*'' then None
      else if interval_match minute_f \<noteq> None \<and> hour_f = ''*'' \<and> day_f = ''*'' \<and> weekday_f = ''*''
      then map_option EveryNMinutes (parse_number (orelse (interval_match minute_f) []) 1 59)
      else (case parse_number minute_f 0 59 of
            None \<Rightarrow> None
          | Some minute \<Rightarrow>
             if hour_f = ''*'' \<and> day_f = ''*'' \<and> weekday_f = ''*'' then Some (Hourly minute)
             else case parse_number hour_f 0 23 of
                None \<Rightarrow> None
              | Some hour \<Rightarrow>
                 if day_f = ''*'' \<and> weekday_f = ''*'' then Some (Daily hour minute)
                 else if day_f = ''*'' \<and> weekday_f = ''1-5'' then Some (Weekdays hour minute)
                 else if day_f = ''*'' \<and> weekday_list weekday_f then
                   (let weekdays = map (\<lambda>w. Num (int (digits_val w))) (split_on (CHR '','') weekday_f)
                    in if card (set weekdays) \<noteq> length weekdays then None
                       else Some (Weekly weekdays hour minute))
                 else if weekday_f = ''*'' then
                   map_option (\<lambda>day. Monthly day hour minute) (parse_number day_f 1 31)
                 else None))"

definition from_cron :: "string \<Rightarrow> recurrence option" where
  "from_cron cron =
     (case split_white [] (trim cron) of
        [minute_f, hour_f, day_f, month_f, weekday_f] \<Rightarrow> from_fields minute_f hour_f day_f month_f weekday_f
      | _ \<Rightarrow> None)"

definition time_label :: "jsnum \<Rightarrow> jsnum \<Rightarrow> string" where
  "time_label hour minute =
     pad_start 2 (CHR ''0'') (show_num hour) @ '':'' @ pad_start 2 (CHR ''0'') (show_num minute)"

definition list_label :: "string list \<Rightarrow> string" where
  "list_label items =
     (if length items < 2 then (case items of [] \<Rightarrow> [] | x # _ \<Rightarrow> x)
      else join '', '' (butlast items) @ '' and '' @ last items)"

definition weekday_names :: "string list" where
  "weekday_names = [''Sunday'', ''Monday'', ''Tuesday'', ''Wednesday'', ''Thursday'', ''Friday'', ''Saturday'']"

definition weekday_name :: "jsnum \<Rightarrow> range_error + string" where
  "weekday_name day =
     (case (case day of NaN \<Rightarrow> None | Num d \<Rightarrow> at weekday_names d) of
        None \<Rightarrow> Inl (RangeError ''weekday must be from 0 to 6'')
      | Some name \<Rightarrow> Inr name)"

fun map_weekday_name :: "jsnum list \<Rightarrow> range_error + string list" where
  "map_weekday_name [] = Inr []"
| "map_weekday_name (d # ds) =
     (case weekday_name d of
        Inl e \<Rightarrow> Inl e
      | Inr name \<Rightarrow> (case map_weekday_name ds of Inl e \<Rightarrow> Inl e | Inr names \<Rightarrow> Inr (name # names)))"

fun humanize_recurrence :: "recurrence \<Rightarrow> range_error + string" where
  "humanize_recurrence (EveryNMinutes n) = Inr (''every '' @ show_num n @ '' minutes'')"
| "humanize_recurrence (Hourly minute) =
     Inr (''every hour at :'' @ pad_start 2 (CHR ''0'') (show_num minute))"
| "humanize_recurrence (Daily hour minute) = Inr (''every day at '' @ time_label hour minute)"
| "humanize_recurrence (Weekdays hour minute) = Inr (''every weekday at '' @ time_label hour minute)"
| "humanize_recurrence (Weekly weekdays hour minute) =
     (case map_weekday_name weekdays of
        Inl e \<Rightarrow> Inl e
      | Inr names \<Rightarrow> Inr (''every '' @ list_label names @ '' at '' @ time_label hour minute))"
| "humanize_recurrence (Monthly day hour minute) =
     Inr (''every month on day '' @ show_num day @ '' at '' @ time_label hour minute)"

definition humanize :: "string \<Rightarrow> range_error + string option" where
  "humanize cron =
     (case from_cron cron of
        None \<Rightarrow> Inr None
      | Some r \<Rightarrow> (case humanize_recurrence r of Inl e \<Rightarrow> Inl e | Inr s \<Rightarrow> Inr (Some s)))"

section \<open>What a recurrence and a cron expression mean\<close>

text \<open>
  The independent reading: a moment is its minute, hour, day of the month and weekday
  (0 is Sunday). \<open>recurs_at\<close> says when a recurrence fires; \<open>field_matches\<close> and
  \<open>cron_matches\<close> read the standard cron syntax: \<open>*\<close>, \<open>*/n\<close>, \<open>a-b\<close>, a comma list
  and a number, a moment matching when all five fields do. (Cron joins the two day fields by
  \<open>or\<close> when both are restricted; the expressions of this component restrict at most one.)
\<close>

record moment =
  mo_minute :: int
  mo_hour :: int
  mo_day :: int
  mo_month :: int
  mo_weekday :: int

fun recurs_at :: "recurrence \<Rightarrow> moment \<Rightarrow> bool" where
  "recurs_at (EveryNMinutes n) t \<longleftrightarrow> (\<exists>k. n = Num k \<and> mo_minute t mod k = 0)"
| "recurs_at (Hourly m) t \<longleftrightarrow> m = Num (mo_minute t)"
| "recurs_at (Daily h m) t \<longleftrightarrow> h = Num (mo_hour t) \<and> m = Num (mo_minute t)"
| "recurs_at (Weekdays h m) t \<longleftrightarrow>
     h = Num (mo_hour t) \<and> m = Num (mo_minute t) \<and> 1 \<le> mo_weekday t \<and> mo_weekday t \<le> 5"
| "recurs_at (Weekly ds h m) t \<longleftrightarrow>
     h = Num (mo_hour t) \<and> m = Num (mo_minute t) \<and> Num (mo_weekday t) \<in> set ds"
| "recurs_at (Monthly d h m) t \<longleftrightarrow>
     h = Num (mo_hour t) \<and> m = Num (mo_minute t) \<and> d = Num (mo_day t)"

definition item_matches :: "string \<Rightarrow> int \<Rightarrow> bool" where
  "item_matches f v \<longleftrightarrow>
     (if f = ''*'' then True
      else if prefix ''*/'' f then all_digits (drop 2 f) \<and> v mod int (digits_val (drop 2 f)) = 0
      else case split_on (CHR ''-'') f of
        [a] \<Rightarrow> all_digits a \<and> v = int (digits_val a)
      | [a, b] \<Rightarrow> all_digits a \<and> all_digits b \<and> int (digits_val a) \<le> v \<and> v \<le> int (digits_val b)
      | _ \<Rightarrow> False)"

definition field_matches :: "string \<Rightarrow> int \<Rightarrow> bool" where
  "field_matches f v \<longleftrightarrow> list_ex (\<lambda>item. item_matches item v) (split_on (CHR '','') f)"

definition cron_matches :: "string \<Rightarrow> moment \<Rightarrow> bool" where
  "cron_matches cron t \<longleftrightarrow>
     (case split_white [] (trim cron) of
        [mi, h, d, mo, wd] \<Rightarrow>
          field_matches mi (mo_minute t) \<and> field_matches h (mo_hour t) \<and> field_matches d (mo_day t)
          \<and> field_matches mo (mo_month t) \<and> field_matches wd (mo_weekday t)
      | _ \<Rightarrow> False)"

text \<open>A recurrence in range: what \<open>to_cron\<close> accepts.\<close>

fun in_bounds :: "recurrence \<Rightarrow> bool" where
  "in_bounds (EveryNMinutes n) \<longleftrightarrow> in_range n 1 59"
| "in_bounds (Hourly m) \<longleftrightarrow> in_range m 0 59"
| "in_bounds (Daily h m) \<longleftrightarrow> in_range h 0 23 \<and> in_range m 0 59"
| "in_bounds (Weekdays h m) \<longleftrightarrow> in_range h 0 23 \<and> in_range m 0 59"
| "in_bounds (Weekly ds h m) \<longleftrightarrow>
     in_range h 0 23 \<and> in_range m 0 59 \<and> ds \<noteq> [] \<and> distinct ds \<and> list_all (\<lambda>d. in_range d 0 6) ds"
| "in_bounds (Monthly d h m) \<longleftrightarrow> in_range h 0 23 \<and> in_range m 0 59 \<and> in_range d 1 31"

section \<open>Lemmas\<close>

lemma in_rangeE: "in_range v lo hi \<Longrightarrow> (\<And>k. v = Num k \<Longrightarrow> lo \<le> k \<Longrightarrow> k \<le> hi \<Longrightarrow> P) \<Longrightarrow> P"
  by (cases v) auto

lemma require_range_Inr: "require_range v lo hi name = Inr u \<longleftrightarrow> in_range v lo hi"
  by (simp add: require_range_def)

lemma require_time_Inr: "require_time h m = Inr u \<longleftrightarrow> in_range h 0 23 \<and> in_range m 0 59"
  by (simp add: require_time_def require_range_def)

lemma require_weekdays_Inr: "require_weekdays ds = Inr u \<longleftrightarrow> list_all (\<lambda>d. in_range d 0 6) ds"
  by (induction ds) (simp_all add: require_range_def)

lemma distinct_iff_card: "card (set xs) \<noteq> length xs \<longleftrightarrow> \<not> distinct xs"
  using card_distinct distinct_card by blast

text \<open>
  What \<open>to_cron\<close> gives, as the five fields it joins: the checks pass exactly for the
  recurrences in bounds.
\<close>

fun fields_of :: "recurrence \<Rightarrow> string list" where
  "fields_of (EveryNMinutes n) = [''*/'' @ show_num n, ''*'', ''*'', ''*'', ''*'']"
| "fields_of (Hourly m) = [show_num m, ''*'', ''*'', ''*'', ''*'']"
| "fields_of (Daily h m) = [show_num m, show_num h, ''*'', ''*'', ''*'']"
| "fields_of (Weekdays h m) = [show_num m, show_num h, ''*'', ''*'', ''1-5'']"
| "fields_of (Weekly ds h m) = [show_num m, show_num h, ''*'', ''*'', join '','' (map show_num ds)]"
| "fields_of (Monthly d h m) = [show_num m, show_num h, show_num d, ''*'', ''*'']"

lemma to_cron_Inr: "to_cron r = Inr c \<longleftrightarrow> in_bounds r \<and> c = join '' '' (fields_of r)"
proof (cases r)
  case (Weekly ds h m)
  then show ?thesis
    using require_time_Inr [of h m] require_weekdays_Inr [of ds]
    by (cases "require_time h m"; cases "require_weekdays ds")
      (auto simp: distinct_iff_card)
qed (auto simp: require_range_def require_time_def)

text \<open>Numerals: shown in digits, read back as they were.\<close>

lemma show_num_digits: "0 \<le> k \<Longrightarrow> all_digits (show_num (Num k))"
  by (simp add: show_num_nat)

lemma parse_number_show:
  "0 \<le> k \<Longrightarrow> parse_number (show_num (Num k)) lo hi = (if lo \<le> k \<and> k \<le> hi then Some (Num k) else None)"
  by (simp add: parse_number_def show_num_nat)

lemma parse_number_in_range: "parse_number f lo hi = Some v \<Longrightarrow> in_range v lo hi"
  by (auto simp: parse_number_def Let_def split: if_splits)

lemma parse_number_val:
  "parse_number f lo hi = Some v \<Longrightarrow> all_digits f \<and> v = Num (int (digits_val f))"
  by (auto simp: parse_number_def Let_def split: if_splits)

lemma digit_solid: "is_digit c \<Longrightarrow> solid c"
  by (simp add: is_digit_def solid_def)

lemma all_digits_solid: "all_digits f \<Longrightarrow> f \<noteq> [] \<and> list_all solid f"
  by (auto simp: all_digits_def list_all_iff digit_solid)

lemma all_digits_no: "all_digits f \<Longrightarrow> \<not> is_digit c \<Longrightarrow> c \<notin> set f"
  by (auto simp: all_digits_def list_all_iff)

lemma not_digits [simp]: "\<not> is_digit (CHR ''*'')" "\<not> is_digit (CHR '','')" "\<not> is_digit (CHR ''-'')"
    "\<not> is_digit (CHR ''/'')" "\<not> is_digit (CHR '' '')"
  by (simp_all add: is_digit_def code_def)

lemma all_digits_not_star: "all_digits f \<Longrightarrow> f \<noteq> ''*'' \<and> f \<noteq> ''1-5'' \<and> \<not> prefix ''*/'' f"
  by (auto simp: all_digits_def list_all_iff prefix_def)

lemma interval_match_digits: "all_digits f \<Longrightarrow> interval_match f = None"
  by (simp add: interval_match_def all_digits_not_star)

lemma interval_match_slash: "all_digits f \<Longrightarrow> interval_match (CHR ''*'' # CHR ''/'' # f) = Some f"
  by (simp add: interval_match_def)

lemma solid_star [simp]: "solid (CHR ''*'')" "solid (CHR ''/'')" "solid (CHR '','')" "solid (CHR ''-'')"
    "solid (CHR ''1'')" "solid (CHR ''5'')"
  by (simp_all add: solid_def code_def)

text \<open>The weekdays of a weekly recurrence.\<close>

lemma show_weekday: "in_range d 0 6 \<Longrightarrow> \<exists>k \<le> 6. d = Num (int k) \<and> show_num d = [digit_char k]"
proof (elim in_rangeE)
  fix k assume k: "d = Num k" "0 \<le> k" "k \<le> 6"
  then have "show_num d = [digit_char (nat k)]"
    by (simp add: show_num_nat show_nat.simps)
  with k show ?thesis by (intro exI [of _ "nat k"]) simp
qed

lemma join_solid: "list_all (list_all solid) ws \<Longrightarrow> list_all solid sep \<Longrightarrow> list_all solid (join sep ws)"
  by (induction sep ws rule: join.induct) auto

lemma join_weekdays_solid:
  assumes "list_all (\<lambda>d. in_range d 0 6) ds"
  shows "list_all solid (join '','' (map show_num ds))"
proof (rule join_solid)
  show "list_all (list_all solid) (map show_num ds)"
    using assms by (auto simp: list_all_iff digit_solid dest!: show_weekday)
qed simp

lemma split_weekdays:
  assumes "ds \<noteq> []" and "list_all (\<lambda>d. in_range d 0 6) ds"
  shows "split_on (CHR '','') (join '','' (map show_num ds)) = map show_num ds"
proof (rule split_on_join)
  show "\<forall>w \<in> set (map show_num ds). CHR '','' \<notin> set w"
  proof
    fix w assume "w \<in> set (map show_num ds)"
    with assms(2) obtain k where "k \<le> 6" "w = [digit_char k]"
      by (auto simp: list_all_iff dest!: show_weekday)
    then have "\<forall>c \<in> set w. is_digit c" by simp
    then show "CHR '','' \<notin> set w" using not_digits(2) by blast
  qed
qed (use assms in simp)

lemma weekday_list_weekdays:
  assumes "ds \<noteq> []" and "list_all (\<lambda>d. in_range d 0 6) ds"
  shows "weekday_list (join '','' (map show_num ds))"
  unfolding weekday_list_def split_weekdays [OF assms]
proof (unfold list_all_iff, intro ballI)
  fix w assume "w \<in> set (map show_num ds)"
  with assms(2) obtain k where "k \<le> 6" "w = [digit_char k]"
    by (auto simp: list_all_iff dest!: show_weekday)
  then show "case w of [c] \<Rightarrow> 48 \<le> code c \<and> code c \<le> 54 | _ \<Rightarrow> False"
    by simp
qed

lemma weekdays_val:
  assumes "list_all (\<lambda>d. in_range d 0 6) ds"
  shows "map ((\<lambda>w. Num (int (digits_val w))) \<circ> show_num) ds = ds"
  using assms by (induction ds) (auto dest!: show_weekday simp: digits_val_def)

lemma weekdays_not_star:
  assumes "ds \<noteq> []" and "list_all (\<lambda>d. in_range d 0 6) ds"
  shows "join '','' (map show_num ds) \<noteq> ''*''" and "join '','' (map show_num ds) \<noteq> ''1-5''"
  using weekday_list_weekdays [OF assms] by (auto simp: weekday_list_def code_def)

text \<open>\<open>from_cron\<close> sees the fields that \<open>to_cron\<close> joined.\<close>

lemma join_weekdays_nonempty:
  assumes "ds \<noteq> []" and "list_all (\<lambda>d. in_range d 0 6) ds"
  shows "join '','' (map show_num ds) \<noteq> []"
  using assms by (cases ds) (auto dest!: show_weekday)

lemma fields_of_solid: "in_bounds r \<Longrightarrow> \<forall>w \<in> set (fields_of r). w \<noteq> [] \<and> list_all solid w"
  by (cases r)
    (auto elim!: in_rangeE
      simp: all_digits_solid [OF show_num_digits] join_weekdays_solid join_weekdays_nonempty)

lemma fields_of_nonempty [simp]: "fields_of r \<noteq> []"
  by (cases r) auto

lemma split_fields_of:
  "in_bounds r \<Longrightarrow> split_white [] (trim (join '' '' (fields_of r))) = fields_of r"
  by (simp add: fields_of_solid trim_join split_white_join)

lemma from_fields_of:
  "in_bounds r \<Longrightarrow>
   (case fields_of r of [mi, h, d, mo, wd] \<Rightarrow> from_fields mi h d mo wd | _ \<Rightarrow> None) = Some r"
proof (cases r)
  case (Weekly ds h m)
  assume "in_bounds r"
  with Weekly show ?thesis
    by (auto elim!: in_rangeE
        simp: from_fields_def parse_number_show interval_match_digits [OF show_num_digits]
          all_digits_not_star [OF show_num_digits] weekdays_not_star weekday_list_weekdays
          split_weekdays weekdays_val Let_def distinct_card)
qed (auto elim!: in_rangeE
    simp: from_fields_def parse_number_show interval_match_digits interval_match_slash
      all_digits_not_star show_num_digits)

definition cron_of_recurrence :: "recurrence \<Rightarrow> string" where
  "cron_of_recurrence r = join '' '' (fields_of r)"

text \<open>Whatever \<open>from_cron\<close> reads is in bounds.\<close>

lemma weekday_pieces:
  assumes "weekday_list f" and "w \<in> set (split_on (CHR '','') f)"
  shows "\<exists>c. w = [c] \<and> is_digit c \<and> digit_val c \<le> 6"
proof -
  have "case w of [c] \<Rightarrow> 48 \<le> code c \<and> code c \<le> 54 | _ \<Rightarrow> False"
    using assms by (simp add: weekday_list_def list_all_iff)
  then obtain c where "w = [c]" "48 \<le> code c" "code c \<le> 54"
    by (cases w rule: list.exhaust; cases "tl w") auto
  then show ?thesis by (simp add: is_digit_def digit_val_def)
qed

lemma weekday_piece_val:
  assumes "weekday_list f" and "w \<in> set (split_on (CHR '','') f)"
  shows "digits_val w \<le> 6"
  using weekday_pieces [OF assms] by (auto simp: digits_val_def)

text \<open>The accepting branches of \<open>from_fields\<close>, one case each.\<close>

lemma from_fields_cases:
  assumes "from_fields mi h d mo wd = Some r"
  obtains
    (interval) ds n where "mo = ''*''" "h = ''*''" "d = ''*''" "wd = ''*''" "interval_match mi = Some ds"
      "parse_number ds 1 59 = Some n" "r = EveryNMinutes n"
  | (hourly) m where "mo = ''*''" "h = ''*''" "d = ''*''" "wd = ''*''" "parse_number mi 0 59 = Some m"
      "r = Hourly m"
  | (daily) m k where "mo = ''*''" "d = ''*''" "wd = ''*''" "parse_number mi 0 59 = Some m"
      "parse_number h 0 23 = Some k" "r = Daily k m"
  | (weekdays) m k where "mo = ''*''" "d = ''*''" "wd = ''1-5''" "parse_number mi 0 59 = Some m"
      "parse_number h 0 23 = Some k" "r = Weekdays k m"
  | (weekly) m k ds where "mo = ''*''" "d = ''*''" "weekday_list wd" "parse_number mi 0 59 = Some m"
      "parse_number h 0 23 = Some k" "ds = map (\<lambda>w. Num (int (digits_val w))) (split_on (CHR '','') wd)"
      "distinct ds" "r = Weekly ds k m"
  | (monthly) m k n where "mo = ''*''" "wd = ''*''" "parse_number mi 0 59 = Some m"
      "parse_number h 0 23 = Some k" "parse_number d 1 31 = Some n" "r = Monthly n k m"
proof -
  have mo: "mo = ''*''" using assms by (simp add: from_fields_def split: if_splits)
  consider (iv) ds where "interval_match mi = Some ds" "h = ''*''" "d = ''*''" "wd = ''*''"
    | (no_iv) "\<not> (interval_match mi \<noteq> None \<and> h = ''*'' \<and> d = ''*'' \<and> wd = ''*'')"
    by (cases "interval_match mi") auto
  then show ?thesis
  proof cases
    case iv
    with assms mo interval show ?thesis by (auto simp: from_fields_def)
  next
    case no_iv
    note eq = assms [unfolded from_fields_def if_not_P [OF no_iv]]
    obtain m where m: "parse_number mi 0 59 = Some m"
      using eq by (auto split: if_split_asm option.split_asm)
    show ?thesis
    proof (cases "h = ''*'' \<and> d = ''*'' \<and> wd = ''*''")
      case True
      with eq mo m hourly show ?thesis by simp
    next
      case False
      note eq = eq [unfolded m option.case if_not_P [OF False]]
      obtain k where k: "parse_number h 0 23 = Some k"
        using eq by (auto split: if_split_asm option.split_asm)
      show ?thesis
        using eq mo m k daily weekdays weekly monthly
        by (auto simp: Let_def distinct_iff_card split: if_split_asm)
    qed
  qed
qed

lemma from_fields_in_bounds: "from_fields mi h d mo wd = Some r \<Longrightarrow> in_bounds r"
  by (erule from_fields_cases)
    (auto simp: list_all_iff weekday_piece_val dest!: parse_number_in_range)

lemma from_cron_fields:
  "from_cron cron = Some r \<Longrightarrow>
   \<exists>mi h d mo wd. split_white [] (trim cron) = [mi, h, d, mo, wd] \<and> from_fields mi h d mo wd = Some r"
  by (auto simp: from_cron_def split: list.splits)

text \<open>The cron expressions of recurrences in bounds form a codec.\<close>

interpretation cron: sound_codec cron_of_recurrence from_cron in_bounds
proof
  fix r assume r: "in_bounds r"
  then show "from_cron (cron_of_recurrence r) = Some r"
    unfolding from_cron_def cron_of_recurrence_def split_fields_of [OF r] by (rule from_fields_of)
next
  fix c r assume "from_cron c = Some r"
  then show "in_bounds r" by (auto dest!: from_cron_fields from_fields_in_bounds)
qed

text \<open>Weekday names of a recurrence in bounds never raise.\<close>

lemma map_weekday_name_ok:
  "list_all (\<lambda>d. in_range d 0 6) ds \<Longrightarrow> \<exists>names. map_weekday_name ds = Inr names \<and> length names = length ds"
proof (induction ds)
  case (Cons d ds)
  then obtain k where "d = Num k" "0 \<le> k" "k \<le> 6" by (auto elim: in_rangeE)
  then have "\<exists>name. weekday_name d = Inr name"
    by (simp add: weekday_name_def at_def weekday_names_def)
  with Cons show ?case by auto
qed simp

text \<open>How the reading of the cron syntax sees the fields that \<open>from_cron\<close> accepts.\<close>

lemma field_star: "field_matches ''*'' v"
  by (simp add: field_matches_def item_matches_def)

lemma field_digits: "all_digits f \<Longrightarrow> field_matches f v \<longleftrightarrow> v = int (digits_val f)"
  by (simp add: field_matches_def item_matches_def split_on_plain all_digits_no all_digits_not_star)

lemma field_interval:
  "interval_match f = Some ds \<Longrightarrow> field_matches f v \<longleftrightarrow> v mod int (digits_val ds) = 0"
proof -
  assume "interval_match f = Some ds"
  then have f: "f = CHR ''*'' # CHR ''/'' # ds" and ds: "all_digits ds"
    by (auto simp: interval_match_def prefix_def split: if_splits)
  from ds have "CHR '','' \<notin> set ds" by (simp add: all_digits_no)
  then show ?thesis
    by (simp add: field_matches_def item_matches_def f ds split_on_plain)
qed

lemma field_weekdays:
  assumes "weekday_list f"
  shows "field_matches f v \<longleftrightarrow> v \<in> (\<lambda>w. int (digits_val w)) ` set (split_on (CHR '','') f)"
proof -
  have "item_matches w v \<longleftrightarrow> v = int (digits_val w)" if "w \<in> set (split_on (CHR '','') f)" for w
  proof -
    from weekday_pieces [OF assms that] have "all_digits w"
      by (auto simp: all_digits_def)
    then show ?thesis
      by (simp add: item_matches_def split_on_plain all_digits_no all_digits_not_star)
  qed
  then show ?thesis by (auto simp: field_matches_def list_ex_iff)
qed

lemma field_work_week: "field_matches ''1-5'' v \<longleftrightarrow> 1 \<le> v \<and> v \<le> 5"
  by (simp add: field_matches_def item_matches_def all_digits_def is_digit_def code_def
      digits_val_def digit_val_def)

lemma from_fields_meaning:
  assumes "from_fields mi h d mo wd = Some r"
  shows "recurs_at r t \<longleftrightarrow>
    field_matches mi (mo_minute t) \<and> field_matches h (mo_hour t) \<and> field_matches d (mo_day t)
    \<and> field_matches mo (mo_month t) \<and> field_matches wd (mo_weekday t)"
  using assms
  by (cases rule: from_fields_cases)
    (auto simp: field_star field_digits field_interval field_weekdays field_work_week dest!: parse_number_val)

lemma from_cron_reading: "from_cron cron = Some r \<Longrightarrow> cron_matches cron t \<longleftrightarrow> recurs_at r t"
  by (drule from_cron_fields) (auto simp: cron_matches_def from_fields_meaning)

section \<open>Properties\<close>

text \<open>C25. A recurrence in range is written as a cron expression and read back as the same
  recurrence: opening a saved Schedule shows the recurrence it was saved with.\<close>

theorem to_cron_from_cron: "to_cron r = Inr c \<Longrightarrow> from_cron c = Some r"
  using cron.dec_enc [of r] by (simp add: to_cron_Inr cron_of_recurrence_def)

theorem to_cron_from_cron_witness:
  "from_cron ''30 7 * * 1,3'' = Some (Weekly [Num 1, Num 3] (Num 7) (Num 30))"
  by (rule to_cron_from_cron) code_simp

text \<open>C30. \<open>from_cron\<close> keeps the meaning: a cron expression it accepts fires at exactly the
  moments its recurrence recurs at, and the expression \<open>to_cron\<close> writes for it is accepted too.\<close>

theorem from_cron_meaning:
  assumes "from_cron cron = Some r"
  shows "(cron_matches cron t \<longleftrightarrow> recurs_at r t) \<and>
    (\<exists>c. to_cron r = Inr c \<and> from_cron c = Some r \<and> (\<forall>u. cron_matches c u \<longleftrightarrow> recurs_at r u))"
proof
  from assms show "cron_matches cron t \<longleftrightarrow> recurs_at r t" by (rule from_cron_reading)
  have "in_bounds r" using assms by (rule cron.dec_ok)
  then have "to_cron r = Inr (cron_of_recurrence r)"
    by (simp add: to_cron_Inr cron_of_recurrence_def)
  moreover have "from_cron (cron_of_recurrence r) = Some r"
    using assms by (rule cron.dec_stable)
  ultimately show "\<exists>c. to_cron r = Inr c \<and> from_cron c = Some r \<and> (\<forall>u. cron_matches c u \<longleftrightarrow> recurs_at r u)"
    using from_cron_reading by blast
qed

theorem from_cron_meaning_witness:
  "cron_matches ''  05 007 * *   1-5 '' \<lparr>mo_minute = 5, mo_hour = 7, mo_day = 3, mo_month = 2, mo_weekday = 4\<rparr>"
proof -
  have h: "from_cron ''  05 007 * *   1-5 '' = Some (Weekdays (Num 7) (Num 5))" by code_simp
  show ?thesis unfolding from_cron_meaning [OF h, THEN conjunct1] by simp
qed

text \<open>\<open>to_cron\<close> raises exactly for the recurrences out of range, and \<open>humanize\<close> never
  raises: for any text it gives a sentence, or nothing when the text is no recurrence.\<close>

theorem to_cron_raises_iff:
  "((\<exists>e. to_cron r = Inl e) \<longleftrightarrow> \<not> in_bounds r) \<and>
   (\<exists>s. humanize cron = Inr s \<and> (s = None \<longleftrightarrow> from_cron cron = None))"
proof
  show "(\<exists>e. to_cron r = Inl e) \<longleftrightarrow> \<not> in_bounds r"
    using to_cron_Inr [of r] by (cases "to_cron r") auto
  show "\<exists>s. humanize cron = Inr s \<and> (s = None \<longleftrightarrow> from_cron cron = None)"
  proof (cases "from_cron cron")
    case None
    then show ?thesis by (simp add: humanize_def)
  next
    case (Some r)
    then have "in_bounds r" by (rule cron.dec_ok)
    then have "\<exists>s. humanize_recurrence r = Inr s"
      by (cases r) (auto dest!: map_weekday_name_ok)
    with Some show ?thesis by (auto simp: humanize_def)
  qed
qed

end
