(* ===== verification/ApiTypes.thy ===== *)
theory ApiTypes
  imports JsValue
begin

text \<open>
  The records and enumerations of the API that the modelled code reads and writes, from
  \<open>packages/api-client/src/generated/types.gen.ts\<close>. A nullable field is an \<open>option\<close>;
  a field that may be absent or null and that the code tests with \<open>??\<close> is an
  \<open>option\<close> too. Field names carry a prefix for their record. Counts, positions and
  milliseconds are integers.
\<close>

section \<open>Accounts and Organizations\<close>

datatype role = Owner | Admin | Member_role

record organization_membership =
  om_id :: string
  om_name :: string
  om_role :: role

record offered_membership =
  of_id :: string
  of_org_name :: string
  of_role :: role

record account =
  acc_id :: string
  acc_email :: string
  acc_display_name :: "string option"
  acc_orgs :: "organization_membership list"
  acc_invitations :: "offered_membership list"

record member =
  mb_user_id :: string
  mb_email :: string
  mb_display_name :: "string option"
  mb_role :: role

section \<open>Workflow documents\<close>

datatype candidate_kind =
  Kind_testid | Kind_role | Kind_placeholder | Kind_label | Kind_alt | Kind_text | Kind_title | Kind_css

record selector_candidate =
  sc_kind :: candidate_kind
  sc_value :: string
  sc_shadow_path :: "string list option"

record frame_hop =
  fh_index :: int
  fh_name :: "string option"
  fh_url :: "string option"

datatype unsupported_reason = Closed_shadow_root | Cross_origin_frame

record unsupported =
  un_reason :: unsupported_reason
  un_warning :: string

record target =
  tg_candidates :: "selector_candidate list"
  tg_frame :: "frame_hop list option"
  tg_unsupported :: "unsupported option"

record extract_field =
  xf_name :: string
  xf_sub_selector :: string
  xf_attribute :: "string option"

text \<open>
  What an optional field of a document holds: left out, \<open>null\<close>, or a value. The editor
  tells \<open>undefined\<close> from \<open>null\<close> in a Step's fields.
\<close>

datatype 'a opt_field = Absent | Nulled | Given 'a

datatype extract_payload =
    Scalar_extract target string "string opt_field"
  | List_extract target string "extract_field list"

datatype wait_payload = Duration_wait int | Element_wait target

record takeover_payload =
  tp_message :: "string opt_field"
  tp_timeout_ms :: "int opt_field"
  tp_success_check :: "target option"

text \<open>
  A Step is an envelope and the payload of its type. \<open>P_click\<close> carries the optional
  \<open>assertedNavigation\<close>.
\<close>

datatype step_payload =
    P_navigate string
  | P_click target "bool option"
  | P_type target string
  | P_select target string
  | P_download target
  | P_extract extract_payload
  | P_wait wait_payload
  | P_pause takeover_payload

record step =
  st_id :: string
  st_label :: string
  st_optional :: "bool option"
  st_disabled :: "bool option"
  st_screenshot :: "bool option"
  st_timeout_ms :: "int opt_field"
  st_payload :: step_payload

record variable =
  va_name :: string
  va_secret :: "bool option"
  va_secret_id :: "string option"
  va_secret_name :: "string option"

record workflow_document =
  wd_steps :: "step list option"
  wd_variables :: "variable list option"

datatype draft_state = Never_published | Unpublished_changes | In_sync

record step_ref =
  sf_id :: string
  sf_label :: string

record stranded_schedule_ref =
  ss_id :: string
  ss_name :: "string option"
  ss_cron :: string

record draft_comparison =
  dc_added :: "step_ref list"
  dc_changed :: "step_ref list"
  dc_removed :: "step_ref list"
  dc_state :: draft_state
  dc_latest_version :: "int option"
  dc_stranded_schedules :: "stranded_schedule_ref list"

record version_summary =
  vs_number :: int
  vs_created_at :: string

section \<open>Runs\<close>

datatype run_status = Queued | Running | Waiting_for_human | Succeeded | Failed | Cancelled

datatype failure_reason =
  Step_failed | Auth_challenge | Takeover_timeout | Takeover_abandoned | Run_timeout | Worker_lost
  | Missing_secret | Startup_failed

datatype run_trigger = Manual | Schedule | Batch | Test

datatype run_control_kind = Automation | Waiting | Human | Verifying

datatype artifact_kind = Screenshot | Trace | Download

datatype log_level = Debug | Info | Warning_level | Error_level

datatype step_result_status = Passed | Step_Failed | Step_Skipped

record run_record =
  rr_id :: string
  rr_workflow_id :: string
  rr_version_number :: "int option"
  rr_is_test :: bool
  rr_trigger :: run_trigger
  rr_status :: run_status
  rr_failure_reason :: "failure_reason option"
  rr_failure_detail :: "string option"
  rr_variables :: fields
  rr_worker_id :: "string option"
  rr_cancel_requested_at :: "string option"
  rr_pause_requested_at :: "string option"
  rr_takeover_deadline_at :: "string option"
  rr_auto_handback_disabled :: bool
  rr_queued_at :: string
  rr_started_at :: "string option"
  rr_ended_at :: "string option"

record step_result =
  sr_id :: string
  sr_step_id :: string
  sr_position :: int
  sr_status :: step_result_status
  sr_started_at :: "string option"
  sr_ended_at :: "string option"
  sr_matched_candidate_rank :: "int option"
  sr_candidate_count :: "int option"
  sr_completed_by_human :: bool
  sr_error_code :: "string option"
  sr_error_message :: "string option"
  sr_diagnostics :: "fields option"
  sr_extracted_value :: js

record control_interval =
  ci_id :: string
  ci_kind :: run_control_kind
  ci_started_at :: string
  ci_ended_at :: "string option"

record artifact =
  ar_id :: string
  ar_step_id :: "string option"
  ar_kind :: artifact_kind
  ar_filename :: string

record log_line =
  ll_seq :: int
  ll_step_id :: "string option"
  ll_level :: log_level
  ll_text :: string
  ll_at :: string

datatype consent_scope = Scope_organization | Scope_personal

record auth_state_candidate =
  ac_domain :: string
  ac_consent :: "consent_scope option"

record run_detail =
  rd_run :: run_record
  rd_step_results :: "step_result list"
  rd_control_intervals :: "control_interval list"
  rd_artifacts :: "artifact list"
  rd_auth_state_candidates :: "auth_state_candidate list"

section \<open>Batches\<close>

datatype batch_row_status = Row_queued | Row_running | Row_succeeded | Row_failed | Row_skipped | Row_cancelled

record attempt =
  at_id :: string
  at_status :: run_status
  at_failure_reason :: "string option"
  at_queued_at :: string
  at_started_at :: "string option"
  at_ended_at :: "string option"

record batch_row =
  br_index :: int
  br_variables :: fields
  br_status :: batch_row_status
  br_latest_run_id :: "string option"
  br_runs :: "attempt list"

record batch_stats =
  bs_queued :: nat
  bs_running :: nat
  bs_succeeded :: nat
  bs_failed :: nat
  bs_skipped :: nat
  bs_cancelled :: nat

record batch_record =
  bt_id :: string
  bt_name :: string
  bt_workflow_id :: string
  bt_created_at :: string
  bt_cancelled_at :: "string option"

record batch_detail =
  bd_batch :: batch_record
  bd_rows :: "batch_row list"
  bd_stats :: batch_stats
  bd_eta_seconds :: "int option"

section \<open>Schedules\<close>

datatype occurrence_reason = Overlap | Missed | Missing_values

record occurrence_record =
  oc_at :: string
  oc_reason :: occurrence_reason
  oc_blocking_run_id :: "string option"

text \<open>An entry of a Schedule's history: a Run, which alone has a \<open>run_id\<close>, or a hole.\<close>

datatype history_entry =
    Run_entry (he_at: string) (he_run_id: string) (he_status: run_status)
  | Occurrence_entry (he_at: string) (he_reason: occurrence_reason) (he_blocking: "string option")

section \<open>Enumerations are finite\<close>

instantiation run_status :: enum
begin

definition enum_run_status :: "run_status list" where
  "enum_run_status = [Queued, Running, Waiting_for_human, Succeeded, Failed, Cancelled]"

definition enum_all_run_status :: "(run_status \<Rightarrow> bool) \<Rightarrow> bool" where
  "enum_all_run_status p \<longleftrightarrow> list_all p [Queued, Running, Waiting_for_human, Succeeded, Failed, Cancelled]"

definition enum_ex_run_status :: "(run_status \<Rightarrow> bool) \<Rightarrow> bool" where
  "enum_ex_run_status p \<longleftrightarrow> list_ex p [Queued, Running, Waiting_for_human, Succeeded, Failed, Cancelled]"

instance
proof
  have all: "UNIV = set [Queued, Running, Waiting_for_human, Succeeded, Failed, Cancelled]"
    using run_status.exhaust by auto
  then show "UNIV = set (Enum.enum :: run_status list)"
    by (simp only: enum_run_status_def)
  show "distinct (Enum.enum :: run_status list)"
    by (simp add: enum_run_status_def)
  show "Enum.enum_all P \<longleftrightarrow> Ball UNIV P" for P :: "run_status \<Rightarrow> bool"
    unfolding enum_all_run_status_def all list_all_iff ..
  show "Enum.enum_ex P \<longleftrightarrow> Bex UNIV P" for P :: "run_status \<Rightarrow> bool"
    unfolding enum_ex_run_status_def all list_ex_iff ..
qed

end

instantiation role :: linorder
begin

text \<open>The authority of a role: a member below an admin below the owner.\<close>

fun rank_role :: "role \<Rightarrow> nat" where
  "rank_role Member_role = 0"
| "rank_role Admin = 1"
| "rank_role Owner = 2"

definition less_eq_role :: "role \<Rightarrow> role \<Rightarrow> bool" where
  "less_eq_role a b \<longleftrightarrow> rank_role a \<le> rank_role b"

definition less_role :: "role \<Rightarrow> role \<Rightarrow> bool" where
  "less_role a b \<longleftrightarrow> rank_role a < rank_role b"

instance
proof
  fix a b c :: role
  show "(a < b) = (a \<le> b \<and> \<not> b \<le> a)" "a \<le> a" "a \<le> b \<or> b \<le> a"
    by (auto simp: less_eq_role_def less_role_def)
  show "a \<le> b \<Longrightarrow> b \<le> c \<Longrightarrow> a \<le> c"
    by (auto simp: less_eq_role_def)
  show "a \<le> b \<Longrightarrow> b \<le> a \<Longrightarrow> a = b"
    by (cases a; cases b) (auto simp: less_eq_role_def)
qed

end

end
