(* ===== verification/Grid.thy ===== *)
theory Grid
  imports ApiTypes
begin

text \<open>
  The grid in which the inputs of a Run or of a Batch are typed, pasted or imported:
  \<open>components/value-grid/grid.ts\<close>. A column is a declared Variable; the cells of a secret
  Variable are locked, its value stays in the vault. A row is a map from column names to
  cell texts (the code never reads the order of its keys).
\<close>

section \<open>The code\<close>

record grid_column =
  gc_name :: string
  gc_secret :: bool
  gc_secret_name :: "string option"

type_synonym grid_row = "string \<rightharpoonup> string"

definition columns_of :: "variable list \<Rightarrow> grid_column list" where
  "columns_of variables =
     map (\<lambda>v. \<lparr>gc_name = va_name v, gc_secret = (va_secret v = Some True), gc_secret_name = va_secret_name v\<rparr>)
       variables"

definition locked_cell_label :: "grid_column \<Rightarrow> string" where
  "locked_cell_label column =
     (case gc_secret_name column of
        None \<Rightarrow> ''from vault''
      | Some name \<Rightarrow> ''from vault '' @ [CHR 0xC2, CHR 0xB7] @ '' '' @ name)"

definition empty_row :: "grid_column list \<Rightarrow> grid_row" where
  "empty_row columns =
     foldl (\<lambda>row column. if \<not> gc_secret column then row(gc_name column \<mapsto> []) else row) Map.empty columns"

definition blank_rows :: "grid_column list \<Rightarrow> nat \<Rightarrow> grid_row list" where
  "blank_rows columns n = replicate n (empty_row columns)"

definition set_cell :: "grid_row \<Rightarrow> grid_column list \<Rightarrow> string \<Rightarrow> string \<Rightarrow> grid_row" where
  "set_cell row columns name val =
     (case find (\<lambda>entry. gc_name entry = name) columns of
        None \<Rightarrow> row
      | Some column \<Rightarrow> if gc_secret column then row else row(name \<mapsto> val))"

text \<open>\<open>text.replaceAll("\r\n", "\n")\<close> and \<open>text.replaceAll("\r", "\n")\<close>.\<close>

fun crlf_to_lf :: "string \<Rightarrow> string" where
  "crlf_to_lf [] = []"
| "crlf_to_lf [c] = [c]"
| "crlf_to_lf (c # d # s) =
     (if c = CHR 0x0D \<and> d = CHR 0x0A then CHR 0x0A # crlf_to_lf s else c # crlf_to_lf (d # s))"

definition cr_to_lf :: "string \<Rightarrow> string" where
  "cr_to_lf s = map (\<lambda>c. if c = CHR 0x0D then CHR 0x0A else c) s"

definition parse_spreadsheet :: "string \<Rightarrow> string list list" where
  "parse_spreadsheet text =
     (let normalized = cr_to_lf (crlf_to_lf text);
          trimmed = (if suffix [CHR 0x0A] normalized then butlast normalized else normalized)
      in if trimmed = [] then [] else map (split_on (CHR 0x09)) (split_on (CHR 0x0A) trimmed))"

text \<open>The inner loop of \<open>applyPaste\<close>: the cells of one line, from column \<open>col\<close> on.\<close>

fun paste_cells :: "grid_column list \<Rightarrow> nat \<Rightarrow> grid_row \<Rightarrow> string list \<Rightarrow> grid_row" where
  "paste_cells columns col current [] = current"
| "paste_cells columns col current (val # cells) =
     paste_cells columns (Suc col)
       (case at columns (int col) of
          None \<Rightarrow> current
        | Some column \<Rightarrow> set_cell current columns (gc_name column) val)
       cells"

text \<open>\<open>while (next.length <= rowIndex) next.push(emptyRow(columns))\<close>.\<close>

definition pad_rows :: "grid_column list \<Rightarrow> nat \<Rightarrow> grid_row list \<Rightarrow> grid_row list" where
  "pad_rows columns row_index next_rows =
     next_rows @ replicate (Suc row_index - length next_rows) (empty_row columns)"

fun paste_rows ::
  "grid_column list \<Rightarrow> nat option \<Rightarrow> nat \<Rightarrow> nat \<Rightarrow> grid_row list \<Rightarrow> string list list \<Rightarrow> grid_row list" where
  "paste_rows columns cap row_index start_col next_rows [] = next_rows"
| "paste_rows columns cap row_index start_col next_rows (cells # table) =
     (if (case cap of None \<Rightarrow> False | Some k \<Rightarrow> k \<le> row_index) then next_rows
      else
        let padded = pad_rows columns row_index next_rows;
            current = orelse (at padded (int row_index)) (empty_row columns)
        in paste_rows columns cap (Suc row_index) start_col
             (padded[row_index := paste_cells columns start_col current cells]) table)"

definition apply_paste ::
  "grid_row list \<Rightarrow> grid_column list \<Rightarrow> nat \<Rightarrow> nat \<Rightarrow> string list list \<Rightarrow> nat option \<Rightarrow> grid_row list" where
  "apply_paste rows columns start_row start_col table fixed_row_count =
     (let next_rows = paste_rows columns fixed_row_count start_row start_col rows table
      in case fixed_row_count of None \<Rightarrow> next_rows | Some cap \<Rightarrow> take cap next_rows)"

fun scalar_value :: "js \<Rightarrow> string" where
  "scalar_value (Str s) = s"
| "scalar_value (Number n) = show_num n"
| "scalar_value (Bool b) = (if b then ''true'' else ''false'')"
| "scalar_value _ = []"

definition copied_row :: "grid_column list \<Rightarrow> fields \<Rightarrow> grid_row" where
  "copied_row columns past =
     foldl (\<lambda>row column.
         if gc_secret column then row
         else set_cell row columns (gc_name column) (scalar_value (field past (gc_name column))))
       (empty_row columns) columns"

definition apply_copied_batch :: "grid_column list \<Rightarrow> fields list \<Rightarrow> grid_row list" where
  "apply_copied_batch columns past_rows = map (copied_row columns) past_rows"

definition fill_every_row :: "grid_row list \<Rightarrow> grid_column list \<Rightarrow> string \<Rightarrow> string \<Rightarrow> grid_row list" where
  "fill_every_row rows columns name val = map (\<lambda>row. set_cell row columns name val) rows"

definition submitted_variables :: "grid_row \<Rightarrow> grid_column list \<Rightarrow> (string \<rightharpoonup> string)" where
  "submitted_variables row columns =
     foldl (\<lambda>vs column.
         if \<not> gc_secret column then vs(gc_name column \<mapsto> orelse (row (gc_name column)) []) else vs)
       Map.empty columns"

record row_count =
  rc_total :: nat
  rc_complete :: nat
  rc_missing :: nat

definition incomplete_row :: "string list \<Rightarrow> grid_row \<Rightarrow> bool" where
  "incomplete_row required row \<longleftrightarrow> list_ex (\<lambda>name. trim (orelse (row name) []) = []) required"

fun count_rows :: "string list \<Rightarrow> nat \<Rightarrow> nat \<Rightarrow> grid_row list \<Rightarrow> nat \<times> nat" where
  "count_rows required complete missing [] = (complete, missing)"
| "count_rows required complete missing (row # rows) =
     (if incomplete_row required row then count_rows required complete (Suc missing) rows
      else count_rows required (Suc complete) missing rows)"

definition row_counts :: "grid_row list \<Rightarrow> grid_column list \<Rightarrow> row_count" where
  "row_counts rows columns =
     (let required = map gc_name (filter (\<lambda>column. \<not> gc_secret column) columns);
          (complete, missing) = count_rows required 0 0 rows
      in \<lparr>rc_total = length rows, rc_complete = complete, rc_missing = missing\<rparr>)"

section \<open>The rows of a grid\<close>

text \<open>
  The contract that everything writing rows relies on: an empty row is well formed, and
  setting a cell keeps a row well formed. Rows built by any sequence of such writes are
  then well formed.
\<close>

locale row_store =
  fixes fresh :: "'r"
    and put :: "'r \<Rightarrow> string \<Rightarrow> string \<Rightarrow> 'r"
    and ok :: "'r \<Rightarrow> bool"
  assumes ok_fresh: "ok fresh"
    and ok_put: "ok r \<Longrightarrow> ok (put r name val)"
begin

lemma ok_puts: "ok r \<Longrightarrow> (\<And>r x. ok r \<Longrightarrow> ok (f r x)) \<Longrightarrow> ok (foldl f r xs)"
  by (induction xs arbitrary: r) auto

lemma ok_writes: "ok r \<Longrightarrow> ok (foldl (\<lambda>r x. put r (name x) (val x)) r xs)"
  by (rule ok_puts) (auto intro: ok_put)

lemma ok_writes_some:
  "ok r \<Longrightarrow> ok (foldl (\<lambda>r x. if p x then r else put r (name x) (val x)) r xs)"
  by (rule ok_puts) (auto intro: ok_put)

end

definition plain_names :: "grid_column list \<Rightarrow> string set" where
  "plain_names columns = gc_name ` {c \<in> set columns. \<not> gc_secret c}"

definition row_ok :: "grid_column list \<Rightarrow> grid_row \<Rightarrow> bool" where
  "row_ok columns row \<longleftrightarrow> dom row \<subseteq> plain_names columns"

lemma empty_row_aux:
  "foldl (\<lambda>row column. if \<not> gc_secret column then row(gc_name column \<mapsto> []) else row) m columns n =
   (if n \<in> plain_names columns then Some [] else m n)"
  by (induction columns arbitrary: m) (auto simp: plain_names_def)

lemma empty_row_eq: "empty_row columns n = (if n \<in> plain_names columns then Some [] else None)"
  by (simp add: empty_row_def empty_row_aux)

lemma dom_empty_row [simp]: "dom (empty_row columns) = plain_names columns"
  by (auto simp: dom_def empty_row_eq)

lemma row_ok_set_cell: "row_ok columns row \<Longrightarrow> row_ok columns (set_cell row columns name val)"
  by (auto simp: row_ok_def set_cell_def plain_names_def find_Some_iff split: option.splits)

interpretation grid: row_store "empty_row columns" "\<lambda>row. set_cell row columns" "row_ok columns"
  for columns
  by unfold_locales (simp add: row_ok_def, rule row_ok_set_cell)

lemma row_ok_paste_cells: "row_ok columns row \<Longrightarrow> row_ok columns (paste_cells columns col row cells)"
  by (induction columns col row cells rule: paste_cells.induct)
    (simp_all add: row_ok_set_cell split: option.splits)

lemma row_ok_copied: "row_ok columns (copied_row columns past)"
  unfolding copied_row_def by (intro grid.ok_writes_some grid.ok_fresh)

lemma rows_ok_pad:
  "list_all (row_ok columns) rows \<Longrightarrow> list_all (row_ok columns) (pad_rows columns i rows)"
  by (auto simp: pad_rows_def list_all_iff grid.ok_fresh)

lemma length_pad: "length (pad_rows columns i rows) = max (length rows) (Suc i)"
  by (simp add: pad_rows_def)

lemma at_pad [simp]: "at (pad_rows columns i rows) (int i) = Some (pad_rows columns i rows ! i)"
  by (rule at_nat) (simp add: length_pad)

lemma rows_ok_paste_rows:
  "list_all (row_ok columns) rows \<Longrightarrow> list_all (row_ok columns) (paste_rows columns cap r c rows table)"
proof (induction columns cap r c rows table rule: paste_rows.induct)
  case (2 columns cap r c rows cells table)
  let ?padded = "pad_rows columns r rows"
  have "list_all (row_ok columns) ?padded" using 2 by (simp add: rows_ok_pad)
  then have "list_all (row_ok columns) (?padded[r := paste_cells columns c (?padded ! r) cells])"
    by (auto simp: list_all_iff length_pad intro!: row_ok_paste_cells dest!: set_update_subset_insert [THEN subsetD])
  then show ?case using 2 by (simp add: Let_def)
qed simp


lemma plain_names_columns_of:
  "plain_names (columns_of vs) = va_name ` {v \<in> set vs. va_secret v \<noteq> Some True}"
  by (force simp: plain_names_def columns_of_def image_iff)

lemma submitted_aux:
  "foldl (\<lambda>vs column. if \<not> gc_secret column
      then vs(gc_name column \<mapsto> orelse (row (gc_name column)) []) else vs) m columns n =
   (if n \<in> plain_names columns then Some (orelse (row n) []) else m n)"
  by (induction columns arbitrary: m) (auto simp: plain_names_def)

lemma submitted_variables_eq:
  "submitted_variables row columns n =
     (if n \<in> plain_names columns then Some (orelse (row n) []) else None)"
  by (simp add: submitted_variables_def submitted_aux)

lemma dom_submitted: "dom (submitted_variables row columns) = plain_names columns"
  by (auto simp: dom_def submitted_variables_eq)

section \<open>Pasting\<close>

text \<open>How many lines of the table reach the grid: a grid whose rows are fixed takes no more.\<close>

definition paste_height :: "nat option \<Rightarrow> nat \<Rightarrow> string list list \<Rightarrow> nat" where
  "paste_height cap start_row table =
     (case cap of None \<Rightarrow> length table | Some k \<Rightarrow> min (length table) (k - start_row))"

lemma paste_rows_length:
  "length (paste_rows columns cap r c rows table) =
     (if paste_height cap r table = 0 then length rows else max (length rows) (r + paste_height cap r table))"
proof (induction columns cap r c rows table rule: paste_rows.induct)
  case (2 columns cap r c rows cells table)
  show ?case
  proof (cases "case cap of None \<Rightarrow> False | Some k \<Rightarrow> k \<le> r")
    case True
    then show ?thesis by (auto simp: paste_height_def split: option.splits)
  next
    case False
    then have h: "paste_height cap r (cells # table) = Suc (paste_height cap (Suc r) table)"
      by (auto simp: paste_height_def split: option.splits)
    show ?thesis using False 2 [OF False refl refl] by (auto simp: h length_pad Let_def)
  qed
qed (auto simp: paste_height_def split: option.splits)

lemma paste_rows_nth:
  "i < length (paste_rows columns cap r c rows table) \<Longrightarrow>
   paste_rows columns cap r c rows table ! i =
     (let base = (if i < length rows then rows ! i else empty_row columns)
      in if r \<le> i \<and> i < r + paste_height cap r table then paste_cells columns c base (table ! (i - r))
         else base)"
proof (induction columns cap r c rows table rule: paste_rows.induct)
  case (2 columns cap r c rows cells table)
  show ?case
  proof (cases "case cap of None \<Rightarrow> False | Some k \<Rightarrow> k \<le> r")
    case True
    then have "paste_height cap r (cells # table) = 0"
      by (auto simp: paste_height_def split: option.splits)
    with True 2 show ?thesis by (auto simp: Let_def)
  next
    case False
    then have h: "paste_height cap r (cells # table) = Suc (paste_height cap (Suc r) table)"
      by (auto simp: paste_height_def split: option.splits)
    have pad: "pad_rows columns r rows ! j = (if j < length rows then rows ! j else empty_row columns)"
      if "j < max (length rows) (Suc r)" for j
      using that by (auto simp: pad_rows_def nth_append)
    show ?thesis
      using False 2(2) 2(1) [OF False refl refl] pad
      by (auto simp: h length_pad Let_def nth_list_update Suc_diff_le)
  qed
qed (auto simp: paste_height_def Let_def split: option.splits)

lemma set_cell_distinct:
  assumes "distinct (map gc_name columns)" and "column \<in> set columns"
  shows "set_cell row columns (gc_name column) val =
    (if gc_secret column then row else row(gc_name column \<mapsto> val))"
proof -
  obtain k where "k < length columns" "columns ! k = column"
    using assms(2) by (auto simp: in_set_conv_nth)
  then have "find (\<lambda>e. gc_name e = gc_name column) columns = Some column"
    unfolding find_Some_iff using distinct_map_eq_nth [OF assms(1)]
    by (intro exI [of _ k]) (auto dest: less_trans)
  then show ?thesis by (simp add: set_cell_def)
qed

lemma paste_cells_nth:
  assumes "distinct (map gc_name columns)" and k: "k < length columns" and "\<not> gc_secret (columns ! k)"
  shows "paste_cells columns c row cells (gc_name (columns ! k)) =
    (if c \<le> k \<and> k < c + length cells then Some (cells ! (k - c)) else row (gc_name (columns ! k)))"
proof (induction cells arbitrary: c row)
  case (Cons val cells)
  show ?case
  proof (cases "c < length columns")
    case False
    then have "at columns (int c) = None" by (simp add: at_None_iff)
    with Cons False k show ?thesis by auto
  next
    case True
    then have at: "at columns (int c) = Some (columns ! c)" by simp
    have set: "set_cell row columns (gc_name (columns ! c)) val =
        (if gc_secret (columns ! c) then row else row(gc_name (columns ! c) \<mapsto> val))"
      using True by (intro set_cell_distinct assms(1)) simp
    have "gc_name (columns ! c) = gc_name (columns ! k) \<longleftrightarrow> c = k"
      using distinct_map_eq_nth [OF assms(1) True k] by auto
    with Cons assms(3) at set show ?thesis by (cases "c = k") (auto simp: Suc_diff_le)
  qed
qed auto

section \<open>Rendering a table as a spreadsheet copies it\<close>

definition render_spreadsheet :: "string \<Rightarrow> string list list \<Rightarrow> string" where
  "render_spreadsheet eol table = concat (map (\<lambda>cells. join [CHR 0x09] cells @ eol) table)"

definition is_eol :: "string \<Rightarrow> bool" where
  "is_eol eol \<longleftrightarrow> eol = [CHR 0x0A] \<or> eol = [CHR 0x0D] \<or> eol = [CHR 0x0D, CHR 0x0A]"

definition plain_cell :: "string \<Rightarrow> bool" where
  "plain_cell s \<longleftrightarrow> CHR 0x09 \<notin> set s \<and> CHR 0x0A \<notin> set s \<and> CHR 0x0D \<notin> set s"

definition plain_table :: "string list list \<Rightarrow> bool" where
  "plain_table table \<longleftrightarrow>
     table \<noteq> [[[]]] \<and> list_all (\<lambda>cells. cells \<noteq> [] \<and> list_all plain_cell cells) table"

lemma crlf_to_lf_no_cr: "CHR 0x0D \<notin> set s \<Longrightarrow> crlf_to_lf s = s"
  by (induction s rule: crlf_to_lf.induct) auto

lemma crlf_to_lf_no_lf: "CHR 0x0A \<notin> set s \<Longrightarrow> crlf_to_lf s = s"
  by (induction s rule: crlf_to_lf.induct) auto

lemma crlf_to_lf_line:
  "CHR 0x0D \<notin> set w \<Longrightarrow> crlf_to_lf (w @ CHR 0x0D # CHR 0x0A # s) = w @ CHR 0x0A # crlf_to_lf s"
proof (induction w)
  case (Cons c w)
  then show ?case by (cases "w @ CHR 0x0D # CHR 0x0A # s") auto
qed simp

lemma cr_to_lf_append: "cr_to_lf (s @ t) = cr_to_lf s @ cr_to_lf t"
  by (simp add: cr_to_lf_def)

lemma cr_to_lf_id: "CHR 0x0D \<notin> set s \<Longrightarrow> cr_to_lf s = s"
  by (auto simp: cr_to_lf_def intro!: map_idI)

lemma line_chars:
  assumes "list_all plain_cell cells"
  shows "CHR 0x0A \<notin> set (join [CHR 0x09] cells)" "CHR 0x0D \<notin> set (join [CHR 0x09] cells)"
  using set_join [of "[CHR 0x09]" cells] assms by (auto simp: list_all_iff plain_cell_def)

lemma render_Cons:
  "render_spreadsheet eol (cells # table) = join [CHR 0x09] cells @ eol @ render_spreadsheet eol table"
  by (simp add: render_spreadsheet_def)

lemma normalize_rendered:
  assumes "is_eol eol" and "list_all (list_all plain_cell) table"
  shows "cr_to_lf (crlf_to_lf (render_spreadsheet eol table)) = render_spreadsheet [CHR 0x0A] table"
  using assms(1) unfolding is_eol_def
proof (elim disjE)
  assume eol: "eol = [CHR 0x0A]"
  have "CHR 0x0D \<notin> set (render_spreadsheet [CHR 0x0A] table)"
    using assms(2) by (induction table) (auto simp: render_Cons line_chars, simp add: render_spreadsheet_def)
  then show ?thesis by (simp add: eol crlf_to_lf_no_cr cr_to_lf_id)
next
  assume eol: "eol = [CHR 0x0D]"
  have "CHR 0x0A \<notin> set (render_spreadsheet [CHR 0x0D] table)"
    using assms(2) by (induction table) (auto simp: render_Cons line_chars, simp add: render_spreadsheet_def)
  moreover have "cr_to_lf (render_spreadsheet [CHR 0x0D] table) = render_spreadsheet [CHR 0x0A] table"
    using assms(2)
    by (induction table) (simp_all add: render_Cons cr_to_lf_append cr_to_lf_id line_chars,
        simp_all add: render_spreadsheet_def cr_to_lf_def)
  ultimately show ?thesis by (simp add: eol crlf_to_lf_no_lf)
next
  assume eol: "eol = [CHR 0x0D, CHR 0x0A]"
  show ?thesis using assms(2)
    by (induction table) (simp_all add: eol render_Cons crlf_to_lf_line cr_to_lf_append cr_to_lf_id line_chars,
        simp_all add: render_spreadsheet_def cr_to_lf_def)
qed

lemma render_lines:
  "table \<noteq> [] \<Longrightarrow> render_spreadsheet [CHR 0x0A] table =
     join [CHR 0x0A] (map (join [CHR 0x09]) table) @ [CHR 0x0A]"
proof (induction table)
  case (Cons cells table)
  then show ?case by (cases table) (simp_all add: render_spreadsheet_def)
qed simp

lemma join_eq_Nil_iff: "join sep ws = [] \<and> sep \<noteq> [] \<longleftrightarrow> (ws = [] \<or> ws = [[]]) \<and> sep \<noteq> []"
  by (induction sep ws rule: join.induct) auto

lemma split_line:
  "cells \<noteq> [] \<Longrightarrow> list_all plain_cell cells \<Longrightarrow> split_on (CHR 0x09) (join [CHR 0x09] cells) = cells"
  by (rule split_on_join) (auto simp: list_all_iff plain_cell_def)

lemma parse_rendered:
  assumes "is_eol eol" and "plain_table table"
  shows "parse_spreadsheet (render_spreadsheet eol table) = table"
proof (cases "table = []")
  case True
  then show ?thesis
    by (simp add: parse_spreadsheet_def render_spreadsheet_def cr_to_lf_def suffix_def)
next
  case False
  let ?lines = "map (join [CHR 0x09]) table"
  have cells: "list_all (\<lambda>cells. cells \<noteq> [] \<and> list_all plain_cell cells) table" and "table \<noteq> [[[]]]"
    using assms(2) by (auto simp: plain_table_def)
  then have norm: "cr_to_lf (crlf_to_lf (render_spreadsheet eol table)) = join [CHR 0x0A] ?lines @ [CHR 0x0A]"
    using normalize_rendered [OF assms(1), of table] render_lines [OF False]
    by (simp add: list_all_iff)
  have "?lines \<noteq> [[]]"
    using \<open>table \<noteq> [[[]]]\<close> cells join_eq_Nil_iff [of "[CHR 0x09]"] by (cases table) auto
  then have "join [CHR 0x0A] ?lines \<noteq> []"
    using False join_eq_Nil_iff [of "[CHR 0x0A]" ?lines] by auto
  moreover have "split_on (CHR 0x0A) (join [CHR 0x0A] ?lines) = ?lines"
    using False cells line_chars(1) by (intro split_on_join) (auto simp: list_all_iff)
  moreover have "map (split_on (CHR 0x09)) ?lines = table"
    using cells by (auto simp: list_all_iff split_line intro!: map_idI)
  ultimately show ?thesis
    by (simp add: parse_spreadsheet_def norm suffix_def)
qed

interpretation spreadsheet: codec "render_spreadsheet eol" "\<lambda>text. Some (parse_spreadsheet text)"
    "\<lambda>table. is_eol eol \<and> plain_table table" for eol
  by unfold_locales (simp add: parse_rendered)

section \<open>Properties\<close>

text \<open>C10. No operation of the grid ever puts a value into the cell of a secret Variable: rows
  that hold plain cells only still do after a paste, a fill or a copied Batch, and what is
  submitted names exactly the plain Variables.\<close>

theorem grid_keeps_secrets_out:
  assumes "list_all (row_ok columns) rows"
  shows "list_all (row_ok columns) (apply_paste rows columns start_row start_col table cap) \<and>
    list_all (row_ok columns) (fill_every_row rows columns name val) \<and>
    list_all (row_ok columns) (apply_copied_batch columns past) \<and>
    list_all (row_ok columns) (blank_rows columns n) \<and>
    dom (submitted_variables row columns) = plain_names columns"
proof (intro conjI)
  show "list_all (row_ok columns) (apply_paste rows columns start_row start_col table cap)"
    using rows_ok_paste_rows [OF assms, of cap start_row start_col table]
    by (auto simp: apply_paste_def Let_def list_all_iff dest: in_set_takeD split: option.splits)
  show "list_all (row_ok columns) (fill_every_row rows columns name val)"
    using assms by (auto simp: fill_every_row_def list_all_iff intro: grid.ok_put)
  show "list_all (row_ok columns) (apply_copied_batch columns past)"
    by (simp add: apply_copied_batch_def list_all_iff row_ok_copied)
  show "list_all (row_ok columns) (blank_rows columns n)"
    by (simp add: blank_rows_def list_all_iff grid.ok_fresh)
qed (rule dom_submitted)

definition sample_columns :: "grid_column list" where
  "sample_columns =
     [\<lparr>gc_name = ''city'', gc_secret = False, gc_secret_name = None\<rparr>,
      \<lparr>gc_name = ''password'', gc_secret = True, gc_secret_name = Some ''pw''\<rparr>,
      \<lparr>gc_name = ''zip'', gc_secret = False, gc_secret_name = None\<rparr>]"

theorem grid_keeps_secrets_out_witness:
  "list_all (row_ok sample_columns)
     (apply_paste [] sample_columns 0 0 [[''Ghent'', ''hunter2'', ''9000'']] None)"
  using grid_keeps_secrets_out [of sample_columns "[]" 0 0 "[[''Ghent'', ''hunter2'', ''9000'']]" None]
  by simp

text \<open>A paste writes cell \<open>(i, k)\<close> of the grid from the cell of the table that lies on it,
  keeps every other cell, grows the grid to the last line pasted when its rows are not
  fixed, and never beyond the fixed number of rows.\<close>

theorem apply_paste_cells:
  assumes "distinct (map gc_name columns)" and "k < length columns" and "\<not> gc_secret (columns ! k)"
    and "i < length (apply_paste rows columns start_row start_col table cap)"
  shows "(apply_paste rows columns start_row start_col table cap ! i) (gc_name (columns ! k)) =
      (if start_row \<le> i \<and> i < start_row + length table \<and>
          start_col \<le> k \<and> k < start_col + length (table ! (i - start_row))
       then Some (table ! (i - start_row) ! (k - start_col))
       else if i < length rows then (rows ! i) (gc_name (columns ! k)) else Some []) \<and>
    length (apply_paste rows columns start_row start_col table cap) =
      (let height = paste_height cap start_row table;
           grown = (if height = 0 then length rows else max (length rows) (start_row + height))
       in case cap of None \<Rightarrow> grown | Some fixed \<Rightarrow> min fixed grown)"
proof
  let ?next = "paste_rows columns cap start_row start_col rows table"
  have i: "i < length ?next" and cap: "cap = Some fixed \<Longrightarrow> i < fixed" for fixed
    using assms(4) by (auto simp: apply_paste_def Let_def split: option.splits)
  then have below: "i < start_row + paste_height cap start_row table \<longleftrightarrow> i < start_row + length table"
    if "start_row \<le> i"
    using that by (auto simp: paste_height_def split: option.splits)
  have "apply_paste rows columns start_row start_col table cap ! i = ?next ! i"
    using cap by (auto simp: apply_paste_def Let_def split: option.splits)
  moreover have "empty_row columns (gc_name (columns ! k)) = Some []"
    using assms(2,3) by (auto simp: empty_row_eq plain_names_def)
  ultimately show "(apply_paste rows columns start_row start_col table cap ! i) (gc_name (columns ! k)) =
      (if start_row \<le> i \<and> i < start_row + length table \<and>
          start_col \<le> k \<and> k < start_col + length (table ! (i - start_row))
       then Some (table ! (i - start_row) ! (k - start_col))
       else if i < length rows then (rows ! i) (gc_name (columns ! k)) else Some [])"
    using paste_rows_nth [OF i] below by (auto simp: Let_def paste_cells_nth [OF assms(1-3)])
qed (auto simp: apply_paste_def paste_rows_length Let_def split: option.splits)

theorem apply_paste_cells_witness:
  "(apply_paste [empty_row sample_columns] sample_columns 0 0 [[''a''], [''b'', ''c'', ''d'']] (Some 2) ! 1) ''zip''
   = Some ''d''"
proof -
  have "1 < length (apply_paste [empty_row sample_columns] sample_columns 0 0
      [[''a''], [''b'', ''c'', ''d'']] (Some 2))"
    by (simp add: apply_paste_def paste_rows_length paste_height_def del: paste_rows.simps)
  from apply_paste_cells [OF _ _ _ this, of 2] show ?thesis
    by (simp add: sample_columns_def)
qed

text \<open>The counts under the grid: every row is complete or missing, never both, and a row is
  complete exactly when each plain Variable has a value that is not blank.\<close>

lemma count_rows_eq:
  "count_rows required c m rows =
     (c + length (filter (\<lambda>row. \<not> incomplete_row required row) rows),
      m + length (filter (incomplete_row required) rows))"
  by (induction required c m rows rule: count_rows.induct) auto

theorem row_counts_total:
  "rc_total (row_counts rows columns) =
     rc_complete (row_counts rows columns) + rc_missing (row_counts rows columns) \<and>
   rc_complete (row_counts rows columns) =
     length (filter (\<lambda>row. \<forall>v \<in> ran (submitted_variables row columns). trim v \<noteq> []) rows)"
proof
  let ?required = "map gc_name (filter (\<lambda>column. \<not> gc_secret column) columns)"
  have "set ?required = plain_names columns" by (auto simp: plain_names_def)
  then have "\<not> incomplete_row ?required row \<longleftrightarrow> (\<forall>v \<in> ran (submitted_variables row columns). trim v \<noteq> [])"
    for row
    by (auto simp: incomplete_row_def list_ex_iff ran_def submitted_variables_eq)
  then show "rc_complete (row_counts rows columns) =
      length (filter (\<lambda>row. \<forall>v \<in> ran (submitted_variables row columns). trim v \<noteq> []) rows)"
    by (simp add: row_counts_def count_rows_eq Let_def)
  show "rc_total (row_counts rows columns) =
      rc_complete (row_counts rows columns) + rc_missing (row_counts rows columns)"
    using sum_length_filter_compl [of "incomplete_row ?required" rows]
    by (simp add: row_counts_def count_rows_eq Let_def)
qed

text \<open>What a spreadsheet puts on the clipboard is read back cell by cell, whichever line
  ending it uses, as long as no cell holds a tab or a line break.\<close>

theorem parse_spreadsheet_rendered:
  "is_eol eol \<Longrightarrow> plain_table table \<Longrightarrow> parse_spreadsheet (render_spreadsheet eol table) = table"
  using spreadsheet.dec_enc [of eol table] by simp

theorem parse_spreadsheet_rendered_witness:
  "parse_spreadsheet (render_spreadsheet [CHR 0x0D, CHR 0x0A] [[''a'', []], [[], ''b c'']]) =
     [[''a'', []], [[], ''b c'']]"
  by (rule parse_spreadsheet_rendered) (simp_all add: is_eol_def plain_table_def plain_cell_def)

end
