(* ===== verification/Reconcile.thy ===== *)
theory Reconcile
  imports JsValue
begin

text \<open>
  Matching the headers of an imported table against the Variables of a workflow:
  \<open>lib/reconcile.ts\<close>. The \<open>Map\<close>s of the code are association lists in the order their keys
  were added. The text distance is proved to be the least number of single-character
  edits, and the matching to be injective, exact when it is confident, and never to
  touch a secret Variable.
\<close>

section \<open>The code\<close>

record reconcile_variable =
  rv_name :: string
  rv_secret :: "bool option"

record mapping_entry =
  me_variable_name :: string
  me_header :: "string option"
  me_suggested :: bool

record reconcile_result =
  rn_confident :: bool
  rn_mapping :: "mapping_entry list"
  rn_ignored_headers :: "string list"
  rn_dropped_secret_headers :: "string list"

text \<open>\<open>value.toLowerCase().replaceAll(/[^a-z0-9]/g, "")\<close>.\<close>

definition normalize :: "string \<Rightarrow> string" where
  "normalize s = filter (\<lambda>c. is_lower c \<or> is_digit c) (to_lower s)"

definition string_includes :: "string \<Rightarrow> string \<Rightarrow> bool" where
  "string_includes s t \<longleftrightarrow> list_ex (prefix t) (suffixes s)"

text \<open>The inner loop of \<open>levenshtein\<close> at row character \<open>c\<close>, from column \<open>j\<close> on.\<close>

fun lev_inner :: "char \<Rightarrow> string \<Rightarrow> nat \<Rightarrow> nat \<Rightarrow> nat list \<Rightarrow> nat list" where
  "lev_inner c [] j corner previous = previous"
| "lev_inner c (d # right) j corner previous =
     (let next_corner = previous ! (j + 1);
          substitution = (if c = d then 0 else 1)
      in lev_inner c right (j + 1) next_corner
           (previous[j + 1 := min (previous ! j + 1) (min (previous ! (j + 1) + 1) (corner + substitution))]))"

fun lev_outer :: "string \<Rightarrow> string \<Rightarrow> nat \<Rightarrow> nat list \<Rightarrow> nat list" where
  "lev_outer [] right i previous = previous"
| "lev_outer (c # left) right i previous =
     lev_outer left right (i + 1) (lev_inner c right 0 i (previous[0 := i + 1]))"

definition levenshtein :: "string \<Rightarrow> string \<Rightarrow> nat" where
  "levenshtein left right =
     (if left = right then 0
      else if length left = 0 then length right
      else if length right = 0 then length left
      else lev_outer left right 0 [0 ..< length right + 1] ! length right)"

definition is_near_match :: "string \<Rightarrow> string \<Rightarrow> bool" where
  "is_near_match left right =
     (if left = [] \<or> right = [] then False
      else if left = right then True
      else if string_includes left right \<or> string_includes right left then True
      else levenshtein left right \<le> 2)"

text \<open>\<open>exactByVariable.get(name)?.push(header)\<close>.\<close>

definition push_header :: "string \<Rightarrow> string \<Rightarrow> (string \<times> string list) list \<Rightarrow> (string \<times> string list) list" where
  "push_header name header m =
     (case map_of m name of None \<Rightarrow> m | Some hs \<Rightarrow> with_key name (hs @ [header]) m)"

text \<open>The loop over \<open>usable\<close> that fills \<open>exactByVariable\<close> and \<open>exactByHeader\<close>.\<close>

fun claim_headers ::
  "reconcile_variable list \<Rightarrow> string list \<Rightarrow>
   (string \<times> string list) list \<times> (string \<times> string list) list \<Rightarrow>
   (string \<times> string list) list \<times> (string \<times> string list) list" where
  "claim_headers plain [] acc = acc"
| "claim_headers plain (header # usable) (by_variable, by_header) =
     (let claimants = filter (\<lambda>v. normalize (rv_name v) = normalize header) plain
      in claim_headers plain usable
           (foldl (\<lambda>m v. push_header (rv_name v) header m) by_variable claimants,
            with_key header (map rv_name claimants) by_header))"

definition unique_exact ::
  "reconcile_variable list \<Rightarrow> (string \<times> string list) list \<Rightarrow> (string \<times> string list) list \<Rightarrow> (string \<times> string) list" where
  "unique_exact plain by_variable by_header =
     foldl (\<lambda>m v.
         case orelse (map_of by_variable (rv_name v)) [] of
           [header] \<Rightarrow>
             if length (orelse (map_of by_header header) []) = 1 then with_key (rv_name v) header m else m
         | _ \<Rightarrow> m)
       [] plain"

definition bump :: "string \<Rightarrow> (string \<times> nat) list \<Rightarrow> (string \<times> nat) list" where
  "bump header m = with_key header (orelse (map_of m header) 0 + 1) m"

definition suggest ::
  "(string \<times> string list) list \<Rightarrow> (string \<times> nat) list \<Rightarrow> mapping_entry \<Rightarrow> mapping_entry" where
  "suggest candidates claim_count entry =
     (if me_header entry \<noteq> None then entry
      else
        (case filter (\<lambda>header. orelse (map_of claim_count header) 0 = 1)
            (orelse (map_of candidates (me_variable_name entry)) []) of
           [header] \<Rightarrow> entry\<lparr>me_header := Some header, me_suggested := True\<rparr>
         | _ \<Rightarrow> entry))"

definition suggestions ::
  "string list \<Rightarrow> reconcile_variable list \<Rightarrow> (string \<times> string) list \<Rightarrow> mapping_entry list \<Rightarrow> mapping_entry list" where
  "suggestions usable plain exact mapping =
     (let taken = set (map snd exact);
          remaining = filter (\<lambda>header. header \<notin> taken) usable;
          unmatched = filter (\<lambda>v. map_of exact (rv_name v) = None) plain;
          candidates = foldl (\<lambda>m v. with_key (rv_name v)
              (filter (\<lambda>header. is_near_match (normalize header) (normalize (rv_name v))) remaining) m) [] unmatched;
          claim_count = foldl (\<lambda>m near. foldl (\<lambda>m header. bump header m) m near) [] (map snd candidates)
      in map (suggest candidates claim_count) mapping)"

definition reconcile :: "string list \<Rightarrow> reconcile_variable list \<Rightarrow> reconcile_result" where
  "reconcile headers variables =
     (let secrets = filter (\<lambda>v. rv_secret v = Some True) variables;
          plain = filter (\<lambda>v. rv_secret v \<noteq> Some True) variables;
          secret_normalized = set (map (\<lambda>v. normalize (rv_name v)) secrets);
          dropped = filter (\<lambda>header. normalize header \<in> secret_normalized) headers;
          usable = filter (\<lambda>header. normalize header \<notin> secret_normalized) headers;
          (by_variable, by_header) =
            claim_headers plain usable (foldl (\<lambda>m v. with_key (rv_name v) [] m) [] plain, []);
          exact = unique_exact plain by_variable by_header;
          header_claims_two = list_ex (\<lambda>header. length (orelse (map_of by_header header) []) > 1) usable;
          every_covered = list_all (\<lambda>v. map_of exact (rv_name v) \<noteq> None) plain;
          confident = (every_covered \<and> \<not> header_claims_two);
          mapping = map (\<lambda>v. \<lparr>me_variable_name = rv_name v, me_header = map_of exact (rv_name v),
              me_suggested = False\<rparr>) plain;
          mapping = (if confident then mapping else suggestions usable plain exact mapping);
          assigned = set (concat (map (\<lambda>entry. case me_header entry of None \<Rightarrow> [] | Some h \<Rightarrow> [h]) mapping))
      in \<lparr>rn_confident = confident, rn_mapping = mapping,
          rn_ignored_headers = filter (\<lambda>header. header \<notin> assigned) usable,
          rn_dropped_secret_headers = dropped\<rparr>)"

section \<open>The distance of two texts\<close>

text \<open>One edit: a character is inserted, deleted or replaced.\<close>

inductive edit1 :: "string \<Rightarrow> string \<Rightarrow> bool" where
  insert: "edit1 (u @ v) (u @ c # v)"
| delete: "edit1 (u @ c # v) (u @ v)"
| replace: "edit1 (u @ c # v) (u @ d # v)"

text \<open>The recursion the table of \<open>levenshtein\<close> tabulates.\<close>

fun edit_distance :: "string \<Rightarrow> string \<Rightarrow> nat" where
  "edit_distance [] ys = length ys"
| "edit_distance (x # xs) [] = Suc (length xs)"
| "edit_distance (x # xs) (y # ys) =
     min (edit_distance (x # xs) ys + 1)
       (min (edit_distance xs (y # ys) + 1) (edit_distance xs ys + (if x = y then 0 else 1)))"

lemma edit_distance_Nil [simp]: "edit_distance xs [] = length xs"
  by (cases xs) auto

lemma edit_distance_Cons_left: "edit_distance (x # xs) ys \<le> edit_distance xs ys + 1"
  by (cases ys) auto

lemma edit_distance_Cons_right: "edit_distance xs (y # ys) \<le> edit_distance xs ys + 1"
  by (cases xs) auto

lemma edit_distance_same [simp]: "edit_distance xs xs = 0"
  by (induction xs) auto

lemma edit_distance_both: "edit_distance (x # xs) (x # ys) \<le> edit_distance xs ys"
  by auto

lemma edit_distance_drop: "edit_distance xs ys \<le> edit_distance (x # xs) ys + 1"
proof (induction ys)
  case (Cons y ys)
  have "edit_distance xs (y # ys) \<le> edit_distance xs ys + 1" by (rule edit_distance_Cons_right)
  with Cons show ?case by (auto simp: min_def)
qed simp

text \<open>The distance to any third text changes by at most one with each edit.\<close>

lemma edit_distance_prefix:
  assumes "\<And>ys. edit_distance xs ys \<le> edit_distance xs' ys + 1"
  shows "edit_distance (x # xs) ys \<le> edit_distance (x # xs') ys + 1"
proof (induction ys)
  case Nil
  then show ?case using assms [of "[]"] by simp
next
  case (Cons y ys)
  then show ?case using assms [of ys] assms [of "y # ys"] by (auto simp: min_def)
qed

lemma edit_distance_replace: "edit_distance (c # xs) ys \<le> edit_distance (d # xs) ys + 1"
proof (induction ys)
  case (Cons y ys)
  then show ?case by (auto simp: min_def)
qed simp

lemma edit1_distance: "edit1 s t \<Longrightarrow> edit_distance s ys \<le> edit_distance t ys + 1"
proof (induction arbitrary: ys rule: edit1.induct)
  case (insert u v c)
  show ?case by (induction u arbitrary: ys) (simp_all add: edit_distance_drop [simplified] edit_distance_prefix [simplified])
next
  case (delete u c v)
  show ?case
    by (induction u arbitrary: ys)
      (simp_all add: edit_distance_Cons_left [simplified] edit_distance_prefix [simplified])
next
  case (replace u c v d)
  show ?case
    by (induction u arbitrary: ys)
      (simp_all add: edit_distance_replace [simplified] edit_distance_prefix [simplified])
qed

lemma edit_distance_lower: "(edit1 ^^ n) s t \<Longrightarrow> edit_distance s t \<le> n"
proof (induction n arbitrary: s)
  case (Suc n)
  then obtain s' where "edit1 s s'" "(edit1 ^^ n) s' t" by (metis relpowp_Suc_D2)
  with Suc.IH [of s'] edit1_distance [of s s' t] show ?case by simp
qed simp

lemma edit1_Cons: "edit1 s t \<Longrightarrow> edit1 (x # s) (x # t)"
  by (induction rule: edit1.induct) (metis append_Cons edit1.intros)+

lemma edits_Cons: "(edit1 ^^ n) s t \<Longrightarrow> (edit1 ^^ n) (x # s) (x # t)"
  by (induction n arbitrary: t) (auto intro: edit1_Cons)

lemma edits_insert: "(edit1 ^^ n) s t \<Longrightarrow> (edit1 ^^ Suc n) s (y # t)"
  using edit1.insert [of "[]" t y] by auto

lemma edits_delete: "(edit1 ^^ n) s t \<Longrightarrow> (edit1 ^^ Suc n) (x # s) t"
  using edit1.delete [of "[]" x s] by (intro relpowp_Suc_I2) auto

lemma edits_replace: "(edit1 ^^ n) s t \<Longrightarrow> (edit1 ^^ Suc n) (x # s) (y # t)"
  using edit1.replace [of "[]" x s y] edits_Cons [of n s t y] by (intro relpowp_Suc_I2) auto

lemma edits_upper: "(edit1 ^^ edit_distance s t) s t"
proof (induction s t rule: edit_distance.induct)
  case (1 ys)
  show ?case by (induction ys) (auto dest: edits_insert simp del: relpowp.simps, simp)
next
  case (2 x xs)
  have "(edit1 ^^ length zs) zs []" for zs
    by (induction zs) (auto dest: edits_delete simp del: relpowp.simps, simp)
  from this [of "x # xs"] show ?case by simp
next
  case (3 x xs y ys)
  then show ?case
    using edits_insert [of "edit_distance (x # xs) ys" "x # xs" ys y]
      edits_delete [of "edit_distance xs (y # ys)" xs "y # ys" x]
      edits_Cons [of "edit_distance xs ys" xs ys x] edits_replace [of "edit_distance xs ys" xs ys x y]
    by (auto simp: min_def simp del: relpowp.simps)
qed

lemma edit_distance_le_iff: "edit_distance s t \<le> n \<longleftrightarrow> (\<exists>k \<le> n. (edit1 ^^ k) s t)"
  using edits_upper [of s t] edit_distance_lower [of _ s t] by (meson le_trans)

lemma edit1_rev: "edit1 s t \<Longrightarrow> edit1 (rev s) (rev t)"
proof (induction rule: edit1.induct)
  case (insert u v c)
  then show ?case using edit1.insert [of "rev v" "rev u" c] by simp
next
  case (delete u c v)
  then show ?case using edit1.delete [of "rev v" c "rev u"] by simp
next
  case (replace u c v d)
  then show ?case using edit1.replace [of "rev v" c "rev u" d] by simp
qed

lemma edits_rev: "(edit1 ^^ n) s t \<Longrightarrow> (edit1 ^^ n) (rev s) (rev t)"
  by (induction n arbitrary: t) (auto intro: edit1_rev)

lemma edit_distance_rev: "edit_distance (rev s) (rev t) = edit_distance s t"
proof (rule antisym)
  show "edit_distance (rev s) (rev t) \<le> edit_distance s t"
    using edits_rev [OF edits_upper [of s t]] by (rule edit_distance_lower)
  show "edit_distance s t \<le> edit_distance (rev s) (rev t)"
    using edits_rev [OF edits_upper [of "rev s" "rev t"]] by (simp add: edit_distance_lower)
qed

text \<open>The table: entry \<open>j\<close> of row \<open>i\<close> is the distance of the prefixes of those lengths.\<close>

definition cell :: "string \<Rightarrow> string \<Rightarrow> nat \<Rightarrow> nat" where
  "cell u right j = edit_distance u (rev (take j right))"

lemma lev_inner_length [simp]: "length (lev_inner c right j corner previous) = length previous"
  by (induction c right j corner previous rule: lev_inner.induct) (auto simp: Let_def)

lemma cell_Suc:
  "j < length right \<Longrightarrow> cell (c # u) right (Suc j) =
     min (cell (c # u) right j + 1)
       (min (cell u right (Suc j) + 1) (cell u right j + (if c = right ! j then 0 else 1)))"
  by (simp add: cell_def take_Suc_conv_app_nth)

lemma lev_inner_cells:
  assumes "rest = drop j right" and "j \<le> length right" and "length previous = length right + 1"
    and "corner = cell u right j"
    and "\<And>k. k \<le> j \<Longrightarrow> previous ! k = cell (c # u) right k"
    and "\<And>k. j < k \<Longrightarrow> k \<le> length right \<Longrightarrow> previous ! k = cell u right k"
  shows "\<forall>k \<le> length right. lev_inner c rest j corner previous ! k = cell (c # u) right k"
  using assms
proof (induction c rest j corner previous rule: lev_inner.induct)
  case (1 c j corner previous)
  then show ?case by simp
next
  case (2 c d rest j corner previous)
  have "drop j right \<noteq> []" unfolding 2(2) [symmetric] by simp
  then have j: "j < length right" by simp
  have "d # rest = right ! j # drop (Suc j) right"
    unfolding 2(2) using j by (simp add: Cons_nth_drop_Suc)
  then have d: "d = right ! j" "rest = drop (j + 1) right" by simp_all
  let ?v = "min (previous ! j + 1) (min (previous ! (j + 1) + 1) (corner + (if c = d then 0 else 1)))"
  have v: "?v = cell (c # u) right (j + 1)"
    using 2(5-7) j d(1) by (simp add: cell_Suc)
  have "\<forall>k \<le> length right.
      lev_inner c rest (j + 1) (previous ! (j + 1)) (previous[j + 1 := ?v]) ! k = cell (c # u) right k"
    by (rule 2(1) [OF refl refl]) (use 2(4,6,7) j v d in \<open>auto simp: nth_list_update le_Suc_eq\<close>)
  then show ?case by (simp add: Let_def)
qed

lemma lev_outer_cells:
  assumes "length previous = length right + 1" and "i = length u"
    and "\<And>k. k \<le> length right \<Longrightarrow> previous ! k = cell u right k"
  shows "lev_outer left right i previous ! length right = edit_distance (rev left @ u) (rev right)"
  using assms
proof (induction left right i previous arbitrary: u rule: lev_outer.induct)
  case (1 right i previous)
  then show ?case by (simp add: cell_def)
next
  case (2 c left right i previous)
  let ?row = "lev_inner c right 0 i (previous[0 := i + 1])"
  have "cell u right 0 = i" using 2(3) by (simp add: cell_def)
  then have "\<forall>k \<le> length right. ?row ! k = cell (c # u) right k"
    using 2(2-4) by (intro lev_inner_cells [of _ _ _ _ _ u]) (auto simp: cell_def)
  then show ?case
    using 2(1) [of "c # u"] 2(2,3) by simp
qed

lemma levenshtein_edit_distance: "levenshtein left right = edit_distance left right"
proof -
  have "lev_outer left right 0 [0 ..< length right + 1] ! length right =
      edit_distance (rev left @ []) (rev right)"
    by (rule lev_outer_cells) (auto simp: cell_def nth_append simp del: upt_Suc)
  then show ?thesis by (auto simp: levenshtein_def edit_distance_rev simp del: upt_Suc)
qed


section \<open>What the maps of the code hold\<close>

lemma foldl_with_key_append:
  "distinct (map k vs) \<Longrightarrow> k ` set vs \<inter> fst ` set m = {} \<Longrightarrow>
   foldl (\<lambda>m v. with_key (k v) (g v) m) m vs = m @ map (\<lambda>v. (k v, g v)) vs"
proof (induction vs arbitrary: m)
  case (Cons v vs)
  have "with_key (k v) (g v) m = m @ [(k v, g v)]" if "k v \<notin> fst ` set m" for m
    using that by (induction m) auto
  with Cons show ?case by auto
qed simp

lemma map_of_foldl_with_key:
  "distinct (map k vs) \<Longrightarrow>
   map_of (foldl (\<lambda>m v. case f v of None \<Rightarrow> m | Some x \<Rightarrow> with_key (k v) x m) m vs) n =
     (case find (\<lambda>v. k v = n) vs of
        None \<Rightarrow> map_of m n
      | Some v \<Rightarrow> (case f v of None \<Rightarrow> map_of m n | Some x \<Rightarrow> Some x))"
proof (induction vs arbitrary: m)
  case (Cons v vs)
  have "find (\<lambda>w. k w = k v) vs = None" using Cons.prems by (auto simp: find_None_iff) (metis image_eqI)
  with Cons show ?case by (auto split: option.splits)
qed simp

lemma distinct_foldl_with_key:
  "distinct (map fst m) \<Longrightarrow>
   distinct (map fst (foldl (\<lambda>m v. case f v of None \<Rightarrow> m | Some x \<Rightarrow> with_key (k v) x m) m vs))"
  by (induction vs arbitrary: m) (auto simp: distinct_with_key split: option.splits)

lemma find_key:
  "distinct (map k vs) \<Longrightarrow> v \<in> set vs \<Longrightarrow> find (\<lambda>w. k w = k v) vs = Some v"
  by (induction vs) auto

lemma map_of_pushes:
  "distinct (map rv_name vs) \<Longrightarrow>
   map_of (foldl (\<lambda>m v. push_header (rv_name v) h m) m vs) n =
     (if n \<in> rv_name ` set vs then map_option (\<lambda>hs. hs @ [h]) (map_of m n) else map_of m n)"
proof (induction vs arbitrary: m)
  case (Cons v vs)
  have "map_of (push_header (rv_name v) h m) n =
      (if n = rv_name v then map_option (\<lambda>hs. hs @ [h]) (map_of m n) else map_of m n)" for n
    by (auto simp: push_header_def split: option.splits)
  with Cons show ?case by auto
qed simp

text \<open>The headers that normalize to the name of \<open>v\<close>, and the Variables a header matches.\<close>

definition headers_of :: "string list \<Rightarrow> reconcile_variable \<Rightarrow> string list" where
  "headers_of usable v = filter (\<lambda>header. normalize header = normalize (rv_name v)) usable"

definition claimants_of :: "reconcile_variable list \<Rightarrow> string \<Rightarrow> reconcile_variable list" where
  "claimants_of plain header = filter (\<lambda>v. normalize (rv_name v) = normalize header) plain"

lemma by_header_eq:
  "map_of (snd (claim_headers plain usable (bv, bh))) h =
     (if h \<in> set usable then Some (map rv_name (claimants_of plain h)) else map_of bh h)"
  by (induction usable arbitrary: bv bh) (auto simp: Let_def claimants_of_def)

lemma by_variable_eq:
  assumes "distinct (map rv_name plain)" and v: "v \<in> set plain"
  shows "map_of (fst (claim_headers plain usable (bv, bh))) (rv_name v) =
    map_option (\<lambda>hs. hs @ headers_of usable v) (map_of bv (rv_name v))"
proof (induction usable arbitrary: bv bh)
  case Nil
  then show ?case by (simp add: headers_of_def map_option.identity)
next
  case (Cons h usable)
  let ?claimants = "filter (\<lambda>w. normalize (rv_name w) = normalize h) plain"
  have "distinct (map rv_name ?claimants)" using assms(1) by (rule distinct_map_filter)
  moreover have "rv_name v \<in> rv_name ` set ?claimants \<longleftrightarrow> normalize (rv_name v) = normalize h"
    using v distinct_mapD [OF assms(1) v] by auto
  ultimately show ?case
    by (auto simp: Let_def Cons.IH map_of_pushes headers_of_def option.map_comp o_def)
qed

section \<open>The matching, stated directly\<close>

text \<open>An exact match: the one header that normalizes to the name, when it matches no other name.\<close>

definition exact_match :: "string list \<Rightarrow> reconcile_variable list \<Rightarrow> reconcile_variable \<Rightarrow> string option" where
  "exact_match usable plain v =
     (case headers_of usable v of
        [header] \<Rightarrow> if length (claimants_of plain header) = 1 then Some header else None
      | _ \<Rightarrow> None)"

definition unmatched :: "string list \<Rightarrow> reconcile_variable list \<Rightarrow> reconcile_variable list" where
  "unmatched usable plain = filter (\<lambda>v. exact_match usable plain v = None) plain"

definition near_headers :: "string list \<Rightarrow> reconcile_variable list \<Rightarrow> reconcile_variable \<Rightarrow> string list" where
  "near_headers usable plain v =
     filter (\<lambda>header. is_near_match (normalize header) (normalize (rv_name v)))
       (filter (\<lambda>header. \<forall>w \<in> set plain. exact_match usable plain w \<noteq> Some header) usable)"

definition suggested_match :: "string list \<Rightarrow> reconcile_variable list \<Rightarrow> reconcile_variable \<Rightarrow> string option" where
  "suggested_match usable plain v =
     (case filter (\<lambda>header. count_list (concat (map (near_headers usable plain) (unmatched usable plain))) header = 1)
        (near_headers usable plain v) of
        [header] \<Rightarrow> Some header
      | _ \<Rightarrow> None)"

definition confident_match :: "string list \<Rightarrow> reconcile_variable list \<Rightarrow> bool" where
  "confident_match usable plain \<longleftrightarrow>
     (\<forall>v \<in> set plain. exact_match usable plain v \<noteq> None) \<and>
     (\<forall>header \<in> set usable. length (claimants_of plain header) \<le> 1)"

definition match_entry :: "string list \<Rightarrow> reconcile_variable list \<Rightarrow> reconcile_variable \<Rightarrow> mapping_entry" where
  "match_entry usable plain v =
     (case exact_match usable plain v of
        Some header \<Rightarrow> \<lparr>me_variable_name = rv_name v, me_header = Some header, me_suggested = False\<rparr>
      | None \<Rightarrow>
          (case suggested_match usable plain v of
             Some header \<Rightarrow> \<lparr>me_variable_name = rv_name v, me_header = Some header, me_suggested = True\<rparr>
           | None \<Rightarrow> \<lparr>me_variable_name = rv_name v, me_header = None, me_suggested = False\<rparr>))"

definition plain_of :: "reconcile_variable list \<Rightarrow> reconcile_variable list" where
  "plain_of variables = filter (\<lambda>v. rv_secret v \<noteq> Some True) variables"

definition names_secret :: "reconcile_variable list \<Rightarrow> string \<Rightarrow> bool" where
  "names_secret variables header \<longleftrightarrow>
     (\<exists>v \<in> set variables. rv_secret v = Some True \<and> normalize (rv_name v) = normalize header)"

lemma exact_match_header: "exact_match usable plain v = Some h \<Longrightarrow>
    h \<in> set usable \<and> normalize h = normalize (rv_name v) \<and> length (claimants_of plain h) = 1"
proof -
  assume "exact_match usable plain v = Some h"
  then have "headers_of usable v = [h]" "length (claimants_of plain h) = 1"
    by (auto simp: exact_match_def split: list.splits if_splits)
  then show ?thesis by (auto simp: headers_of_def filter_eq_Cons_iff)
qed

lemma suggested_match_header: "suggested_match usable plain v = Some h \<Longrightarrow>
    h \<in> set (near_headers usable plain v) \<and>
    count_list (concat (map (near_headers usable plain) (unmatched usable plain))) h = 1"
  by (auto simp: suggested_match_def filter_eq_Cons_iff split: list.splits)

lemma bump_count: "orelse (map_of (foldl (\<lambda>m h. bump h m) m near) h) 0 =
    orelse (map_of m h) (0::nat) + count_list near h"
  by (induction near arbitrary: m) (auto simp: bump_def)

lemma claim_count: "orelse (map_of (foldl (\<lambda>m near. foldl (\<lambda>m h. bump h m) m near) m nears) h) 0 =
    orelse (map_of m h) (0::nat) + count_list (concat nears) h"
  by (induction nears arbitrary: m) (auto simp: bump_count count_list_append)


text \<open>Under distinct names the code computes exactly this matching.\<close>

lemma unique_exact_eq:
  assumes "distinct (map rv_name plain)"
    and "(bv, bh) = claim_headers plain usable (foldl (\<lambda>m v. with_key (rv_name v) [] m) [] plain, [])"
  shows "v \<in> set plain \<Longrightarrow> map_of (unique_exact plain bv bh) (rv_name v) = exact_match usable plain v"
    and "set (map snd (unique_exact plain bv bh)) = {h. \<exists>v \<in> set plain. exact_match usable plain v = Some h}"
    and "h \<in> set usable \<Longrightarrow> orelse (map_of bh h) [] = map rv_name (claimants_of plain h)"
proof -
  let ?start = "map (\<lambda>v. (rv_name v, [] :: string list)) plain"
  have "foldl (\<lambda>m v. with_key (rv_name v) [] m) [] plain = ?start"
    using foldl_with_key_append [OF assms(1), of "[]" "\<lambda>_. []"] by simp
  with assms(2) have claims: "claim_headers plain usable (?start, []) = (bv, bh)" by simp
  have bv: "bv = fst (claim_headers plain usable (?start, []))"
    and bh: "bh = snd (claim_headers plain usable (?start, []))"
    unfolding claims by simp_all
  show header: "orelse (map_of bh h) [] = map rv_name (claimants_of plain h)" if "h \<in> set usable" for h
    using that by (simp add: bh by_header_eq)
  have variable: "orelse (map_of bv (rv_name v)) [] = headers_of usable v" if "v \<in> set plain" for v
  proof -
    have "map_of ?start (rv_name v) = Some []"
      using that by (induction plain) auto
    then show ?thesis by (simp add: bv by_variable_eq [OF assms(1) that])
  qed
  let ?f = "\<lambda>v. case orelse (map_of bv (rv_name v)) [] of
      [header] \<Rightarrow> if length (orelse (map_of bh header) []) = 1 then Some header else None | _ \<Rightarrow> None"
  have f: "?f v = exact_match usable plain v" if "v \<in> set plain" for v
  proof (cases "headers_of usable v")
    case Nil
    then show ?thesis by (simp add: variable [OF that] exact_match_def)
  next
    case (Cons h hs)
    then have "h \<in> set usable" by (auto simp: headers_of_def filter_eq_Cons_iff)
    from header [OF this] show ?thesis
      by (simp add: variable [OF that] exact_match_def Cons split: list.split)
  qed
  have fold: "unique_exact plain bv bh =
      foldl (\<lambda>m v. case ?f v of None \<Rightarrow> m | Some x \<Rightarrow> with_key (rv_name v) x m) [] plain"
    unfolding unique_exact_def by (rule foldl_cong [OF refl refl]) (auto split: list.splits)
  show exact: "map_of (unique_exact plain bv bh) (rv_name v) = exact_match usable plain v"
    if "v \<in> set plain" for v
    unfolding fold map_of_foldl_with_key [OF assms(1)] find_key [OF assms(1) that]
    using f [OF that] by (auto split: option.splits)
  have "distinct (map fst (unique_exact plain bv bh))"
    unfolding fold by (rule distinct_foldl_with_key) simp
  then have "set (map snd (unique_exact plain bv bh)) = ran (map_of (unique_exact plain bv bh))"
    by (simp add: ran_distinct)
  also have "\<dots> = {h. \<exists>v \<in> set plain. exact_match usable plain v = Some h}"
  proof -
    have "n \<in> rv_name ` set plain" if "map_of (unique_exact plain bv bh) n = Some h" for n h
      using that unfolding fold map_of_foldl_with_key [OF assms(1)]
      by (auto simp: find_Some_iff split: option.splits)
    then show ?thesis using exact by (fastforce simp: ran_def)
  qed
  finally show "set (map snd (unique_exact plain bv bh)) = {h. \<exists>v \<in> set plain. exact_match usable plain v = Some h}" .
qed

lemma suggestions_eq:
  assumes "distinct (map rv_name plain)"
    and "\<And>v. v \<in> set plain \<Longrightarrow> map_of exact (rv_name v) = exact_match usable plain v"
    and "set (map snd exact) = {h. \<exists>v \<in> set plain. exact_match usable plain v = Some h}"
  shows "suggestions usable plain exact (map (\<lambda>v. \<lparr>me_variable_name = rv_name v,
      me_header = map_of exact (rv_name v), me_suggested = False\<rparr>) plain) = map (match_entry usable plain) plain"
proof -
  let ?near = "near_headers usable plain" and ?unmatched = "unmatched usable plain"
  have unmatched: "filter (\<lambda>v. map_of exact (rv_name v) = None) plain = ?unmatched"
    unfolding unmatched_def using assms(2) by (auto intro: filter_cong)
  have near: "filter (\<lambda>header. is_near_match (normalize header) (normalize (rv_name v)))
      (filter (\<lambda>header. header \<notin> set (map snd exact)) usable) = ?near v" for v
    unfolding near_headers_def assms(3) by (rule arg_cong [where f = "filter _"], rule filter_cong) auto
  let ?candidates = "map (\<lambda>v. (rv_name v, ?near v)) ?unmatched"
  have distinct: "distinct (map rv_name ?unmatched)"
    unfolding unmatched_def by (rule distinct_map_filter) (rule assms(1))
  then have candidates: "foldl (\<lambda>m v. with_key (rv_name v) (?near v) m) [] ?unmatched = ?candidates"
    by (simp add: foldl_with_key_append)
  have lookup: "map_of ?candidates (rv_name v) = Some (?near v)" if "v \<in> set ?unmatched" for v
    using that distinct by (simp add: map_of_eq_Some_iff o_def) 
  let ?cc = "foldl (\<lambda>m near. foldl (\<lambda>m header. bump header m) m near) [] (map snd ?candidates)"
  have entry: "suggest ?candidates ?cc \<lparr>me_variable_name = rv_name v,
      me_header = map_of exact (rv_name v), me_suggested = False\<rparr> = match_entry usable plain v"
    if v: "v \<in> set plain" for v
  proof (cases "exact_match usable plain v")
    case (Some h)
    with assms(2) [OF v] show ?thesis by (simp add: suggest_def match_entry_def)
  next
    case None
    then have "v \<in> set ?unmatched" using v by (simp add: unmatched_def)
    from lookup [OF this] None assms(2) [OF v] show ?thesis
      by (auto simp: suggest_def match_entry_def suggested_match_def claim_count o_def split: list.splits)
  qed
  show ?thesis
    unfolding suggestions_def Let_def unmatched near candidates using entry by simp
qed

lemma confident_entries:
  "confident_match usable plain \<Longrightarrow> v \<in> set plain \<Longrightarrow>
   match_entry usable plain v = \<lparr>me_variable_name = rv_name v, me_header = exact_match usable plain v, me_suggested = False\<rparr>"
  by (auto simp: confident_match_def match_entry_def split: option.splits)

lemma reconcile_eq:
  assumes "distinct (map rv_name (plain_of variables))"
  shows "reconcile headers variables =
    (let plain = plain_of variables;
         usable = filter (\<lambda>header. \<not> names_secret variables header) headers;
         mapping = map (match_entry usable plain) plain
     in \<lparr>rn_confident = confident_match usable plain, rn_mapping = mapping,
         rn_ignored_headers = filter (\<lambda>header. \<forall>entry \<in> set mapping. me_header entry \<noteq> Some header) usable,
         rn_dropped_secret_headers = filter (names_secret variables) headers\<rparr>)"
proof -
  define plain where "plain = plain_of variables"
  define usable where "usable = filter (\<lambda>header. \<not> names_secret variables header) headers"
  obtain bv bh where claims:
    "(bv, bh) = claim_headers plain usable (foldl (\<lambda>m v. with_key (rv_name v) [] m) [] plain, [])"
    by (metis surj_pair)
  note exact = unique_exact_eq [OF assms [folded plain_def] claims]
  let ?exact = "unique_exact plain bv bh"
  have secret: "normalize header \<in> set (map (\<lambda>v. normalize (rv_name v)) (filter (\<lambda>v. rv_secret v = Some True) variables))
      \<longleftrightarrow> names_secret variables header" for header
    by (force simp: names_secret_def image_iff)
  let ?confident = "list_all (\<lambda>v. map_of ?exact (rv_name v) \<noteq> None) plain \<and>
      \<not> list_ex (\<lambda>header. length (orelse (map_of bh header) []) > 1) usable"
  have confident: "?confident \<longleftrightarrow> confident_match usable plain"
    using exact(1,3) by (auto simp: list_all_iff list_ex_iff confident_match_def not_less)
  let ?initial = "map (\<lambda>v. \<lparr>me_variable_name = rv_name v, me_header = map_of ?exact (rv_name v),
              me_suggested = False\<rparr>) plain"
  have initial: "?initial = map (match_entry usable plain) plain" if "confident_match usable plain"
    using confident_entries [OF that] exact(1) by simp
  have mapping: "(if confident_match usable plain then ?initial else suggestions usable plain ?exact ?initial)
      = map (match_entry usable plain) plain"
    using initial suggestions_eq [OF assms [folded plain_def] exact(1,2)] by simp
  have assigned: "header \<notin> set (concat (map (\<lambda>entry. case me_header entry of None \<Rightarrow> [] | Some h \<Rightarrow> [h]) mapping))
      \<longleftrightarrow> (\<forall>entry \<in> set mapping. me_header entry \<noteq> Some header)" for header mapping
    by (auto split: option.splits)
  show ?thesis
    unfolding reconcile_def Let_def secret plain_of_def [symmetric] plain_def [symmetric] usable_def [symmetric]
      claims [symmetric] prod.case confident mapping assigned ..
qed


section \<open>Properties\<close>

text \<open>C38. \<open>levenshtein\<close> is the least number of single-character edits: it is at most \<open>n\<close> exactly
  when \<open>n\<close> or fewer insertions, deletions and replacements turn one text into the other.\<close>

theorem levenshtein_least_edits:
  "(levenshtein left right \<le> n) = (\<exists>k \<le> n. (edit1 ^^ k) left right)"
  by (simp add: levenshtein_edit_distance edit_distance_le_iff)

lemma match_entry_header:
  assumes "me_header (match_entry usable plain v) = Some h"
  shows "exact_match usable plain v = Some h \<or> exact_match usable plain v = None \<and> suggested_match usable plain v = Some h"
  using assms by (auto simp: match_entry_def split: option.splits)

lemma match_entry_usable:
  "me_header (match_entry usable plain v) = Some h \<Longrightarrow> h \<in> set usable"
  by (drule match_entry_header) (auto dest: exact_match_header suggested_match_header simp: near_headers_def)

lemma match_entry_name [simp]: "me_variable_name (match_entry usable plain v) = rv_name v"
  by (auto simp: match_entry_def split: option.splits)

lemma count_concat_two:
  assumes "distinct vs" "v \<in> set vs" "w \<in> set vs" "v \<noteq> w" "h \<in> set (g v)" "h \<in> set (g w)"
  shows "2 \<le> count_list (concat (map g vs)) h"
proof -
  have one: "1 \<le> count_list (concat (map g us)) h" if "u \<in> set us" "h \<in> set (g u)" for us u
  proof -
    have "h \<in> set (concat (map g us))" using that by auto
    then have "count_list (concat (map g us)) h \<noteq> 0" by (simp add: count_list_0_iff)
    then show ?thesis by simp
  qed
  show ?thesis
    using assms
  proof (induction vs)
    case (Cons u vs)
    then show ?case
      using one [of v vs] one [of w vs] one [of u "[u]"] by (auto simp: count_list_append)
  qed simp
qed

lemma match_entry_injective:
  assumes "distinct plain" "v \<in> set plain" "w \<in> set plain"
    and "me_header (match_entry usable plain v) = Some h" "me_header (match_entry usable plain w) = Some h"
  shows "v = w"
proof -
  have exact_exact: "x = y" if x: "x \<in> set plain" "exact_match usable plain x = Some h"
    and y: "y \<in> set plain" "exact_match usable plain y = Some h" for x y
  proof -
    have "x \<in> set (claimants_of plain h)" "y \<in> set (claimants_of plain h)"
      using x(1) y(1) exact_match_header [OF x(2)] exact_match_header [OF y(2)]
      by (auto simp: claimants_of_def)
    moreover have "length (claimants_of plain h) = 1" using exact_match_header [OF x(2)] by blast
    ultimately show ?thesis by (auto simp: length_Suc_conv)
  qed
  have exact_suggested: False if "x \<in> set plain" "exact_match usable plain x = Some h"
    "suggested_match usable plain y = Some h" for x y
    using suggested_match_header [OF that(3)] that(1,2) by (auto simp: near_headers_def)
  have suggested_suggested: "x = y" if x: "x \<in> set (unmatched usable plain)" "suggested_match usable plain x = Some h"
    and y: "y \<in> set (unmatched usable plain)" "suggested_match usable plain y = Some h" for x y
  proof (rule ccontr)
    assume "x \<noteq> y"
    then have "2 \<le> count_list (concat (map (near_headers usable plain) (unmatched usable plain))) h"
      using assms(1) x y suggested_match_header by (intro count_concat_two) (auto simp: unmatched_def)
    then show False using suggested_match_header [OF x(2)] by simp
  qed
  show ?thesis
    using match_entry_header [OF assms(4)] match_entry_header [OF assms(5)] assms(2,3)
      exact_exact exact_suggested suggested_suggested by (auto simp: unmatched_def)
qed

text \<open>C37. Whatever the headers and the Variables are, every plain Variable gets one entry of the
  mapping, in order; no two Variables get the same header; no header that names a secret
  Variable is ever mapped; and each header is mapped, ignored or dropped, never two of these.\<close>

theorem reconcile_partition:
  fixes headers :: "string list" and variables :: "reconcile_variable list"
  assumes "distinct (map rv_name variables)"
  defines "result \<equiv> reconcile headers variables"
  shows "map me_variable_name (rn_mapping result) = map rv_name (plain_of variables) \<and>
    distinct (filter (\<lambda>h. h \<noteq> None) (map me_header (rn_mapping result))) \<and>
    (\<forall>entry \<in> set (rn_mapping result). \<forall>header. me_header entry = Some header \<longrightarrow>
       header \<in> set headers \<and> \<not> names_secret variables header) \<and>
    (\<forall>header \<in> set headers.
       (header \<in> set (rn_dropped_secret_headers result) \<longleftrightarrow> names_secret variables header) \<and>
       (header \<in> set (rn_ignored_headers result) \<longleftrightarrow>
          \<not> names_secret variables header \<and> Some header \<notin> me_header ` set (rn_mapping result)))"
proof -
  define plain where "plain = plain_of variables"
  define usable where "usable = filter (\<lambda>header. \<not> names_secret variables header) headers"
  have distinct: "distinct (map rv_name plain)"
    unfolding plain_def plain_of_def by (rule distinct_map_filter) (rule assms(1))
  note result = reconcile_eq [OF distinct [unfolded plain_def], of headers, folded result_def,
      folded plain_def usable_def, unfolded Let_def]
  have mapping: "rn_mapping result = map (match_entry usable plain) plain" by (simp add: result)
  have "distinct (filter (\<lambda>h. h \<noteq> None) (map (\<lambda>v. me_header (match_entry usable plain v)) vs))"
    if "distinct vs" "set vs \<subseteq> set plain" for vs
    using that
  proof (induction vs)
    case (Cons v vs)
    have "w = v" if "w \<in> set vs" "me_header (match_entry usable plain v) = Some h"
      "me_header (match_entry usable plain w) = Some h" for w h
      using that Cons.prems distinct by (intro match_entry_injective) (auto simp: distinct_map)
    then have "Some h \<notin> (\<lambda>v. me_header (match_entry usable plain v)) ` set vs"
      if "me_header (match_entry usable plain v) = Some h" for h
      using that Cons.prems(1) by fastforce
    with Cons show ?case by (cases "me_header (match_entry usable plain v)") auto
  qed simp
  then have "distinct (filter (\<lambda>h. h \<noteq> None) (map me_header (rn_mapping result)))"
    using distinct by (simp add: mapping o_def distinct_map)
  moreover have "map me_variable_name (rn_mapping result) = map rv_name (plain_of variables)"
    by (simp add: mapping plain_def)
  moreover
  have "header \<in> set usable" if "entry \<in> set (rn_mapping result)" "me_header entry = Some header"
    for entry header
    using that match_entry_usable by (auto simp: mapping)
  then have "\<forall>entry \<in> set (rn_mapping result). \<forall>header. me_header entry = Some header \<longrightarrow>
       header \<in> set headers \<and> \<not> names_secret variables header"
    by (simp add: usable_def)
  moreover have "rn_dropped_secret_headers result = filter (names_secret variables) headers"
    and "rn_ignored_headers result =
      filter (\<lambda>header. \<forall>entry \<in> set (rn_mapping result). me_header entry \<noteq> Some header) usable"
    by (simp_all add: result)
  then have "\<forall>header \<in> set headers.
       (header \<in> set (rn_dropped_secret_headers result) \<longleftrightarrow> names_secret variables header) \<and>
       (header \<in> set (rn_ignored_headers result) \<longleftrightarrow>
          \<not> names_secret variables header \<and> Some header \<notin> me_header ` set (rn_mapping result))"
    by (auto simp: usable_def image_iff simp del: not_Some_eq)
  ultimately show ?thesis by blast
qed

theorem reconcile_partition_witness:
  "distinct (filter (\<lambda>h. h \<noteq> None) (map me_header (rn_mapping (reconcile [''cite'', ''zip'', ''Pass-Word'']
     [\<lparr>rv_name = ''city'', rv_secret = None\<rparr>, \<lparr>rv_name = ''password'', rv_secret = Some True\<rparr>]))))"
  using reconcile_partition [of "[\<lparr>rv_name = ''city'', rv_secret = None\<rparr>,
      \<lparr>rv_name = ''password'', rv_secret = Some True\<rparr>]" "[''cite'', ''zip'', ''Pass-Word'']"]
  by simp

text \<open>The import lands without asking exactly when each plain Variable has one header with
  its normalized name and no header matches two Variables; the mapping then holds these
  headers and no suggestion.\<close>

theorem reconcile_confident:
  fixes headers :: "string list" and variables :: "reconcile_variable list"
  assumes "distinct (map rv_name variables)"
  defines "plain \<equiv> plain_of variables"
    and "usable \<equiv> filter (\<lambda>header. \<not> names_secret variables header) headers"
  shows "rn_confident (reconcile headers variables) =
      ((\<forall>v \<in> set plain. length (headers_of usable v) = 1) \<and>
       (\<forall>header \<in> set usable. length (claimants_of plain header) \<le> 1)) \<and>
    (rn_confident (reconcile headers variables) \<longrightarrow>
       map (\<lambda>entry. (me_header entry, me_suggested entry)) (rn_mapping (reconcile headers variables)) =
       map (\<lambda>v. (Some (hd (headers_of usable v)), False)) plain)"
proof -
  have "distinct (map rv_name plain)"
    unfolding plain_def plain_of_def by (rule distinct_map_filter) (rule assms(1))
  note result = reconcile_eq [OF this [unfolded plain_def], of headers, folded plain_def usable_def,
      unfolded Let_def]
  have claimed: "v \<in> set (claimants_of plain h)" if "v \<in> set plain" "headers_of usable v = [h]" for v h
    using that by (auto simp: claimants_of_def headers_of_def filter_eq_Cons_iff)
  then have one: "length (claimants_of plain h) = 1"
    if "v \<in> set plain" "headers_of usable v = [h]" "length (claimants_of plain h) \<le> 1" for v h
    using that by (cases "claimants_of plain h") force+
  have in_usable: "h \<in> set usable" if "headers_of usable v = [h]" for v h
    using that by (auto simp: headers_of_def filter_eq_Cons_iff)
  have exact: "exact_match usable plain v = Some (hd (headers_of usable v)) \<and> length (headers_of usable v) = 1"
    if "exact_match usable plain v \<noteq> None" for v
    using that by (auto simp: exact_match_def split: list.splits if_splits)
  have "confident_match usable plain \<longleftrightarrow>
      (\<forall>v \<in> set plain. length (headers_of usable v) = 1) \<and>
      (\<forall>header \<in> set usable. length (claimants_of plain header) \<le> 1)"
    using exact one in_usable
    by (fastforce simp: confident_match_def exact_match_def length_Suc_conv split: list.splits)
  moreover have "map (\<lambda>entry. (me_header entry, me_suggested entry)) (map (match_entry usable plain) plain) =
       map (\<lambda>v. (Some (hd (headers_of usable v)), False)) plain" if "confident_match usable plain"
    using confident_entries [OF that] exact that by (auto simp: confident_match_def)
  ultimately show ?thesis by (simp add: result)
qed

theorem reconcile_confident_witness:
  "rn_confident (reconcile [''City'', ''zip_code'', ''notes'']
     [\<lparr>rv_name = ''city'', rv_secret = None\<rparr>, \<lparr>rv_name = ''zipCode'', rv_secret = Some False\<rparr>])"
proof -
  have distinct: "distinct (map rv_name [\<lparr>rv_name = ''city'', rv_secret = None\<rparr>, \<lparr>rv_name = ''zipCode'', rv_secret = Some False\<rparr>])"
    by simp
  have "normalize ''City'' = ''city''" "normalize ''city'' = ''city''"
      "normalize ''zip_code'' = ''zipcode''" "normalize ''zipCode'' = ''zipcode''" "normalize ''notes'' = ''notes''"
    by code_simp+
  then show ?thesis
    using reconcile_confident [OF distinct, of "[''City'', ''zip_code'', ''notes'']"]
    by (simp add: plain_of_def names_secret_def headers_of_def claimants_of_def)
qed

end
