(* ===== verification/Csv.thy ===== *)
theory Csv
  imports Grid Reconcile
begin

text \<open>
  Importing a CSV file into the grid: \<open>components/value-grid/csv-import.ts\<close>. The scanner is a
  state machine over the characters of the file; the lemmas show that it reads back every
  table written with quoted fields, for each delimiter and line ending, that the delimiter
  is found, and that the rows it lands in the grid hold the cells of the mapped columns.
\<close>

section \<open>The code\<close>

record parsed_csv =
  pc_headers :: "string list"
  pc_rows :: "string list list"

type_synonym import_assignment = mapping_entry

record matched_header =
  mh_variable_name :: string
  mh_header :: string

record summary_panel =
  su_dismissed :: bool
  su_matched :: "matched_header list"
  su_ignored_headers :: "string list"
  su_dropped_secret_headers :: "string list"
  su_parsed :: parsed_csv
  su_assignment :: "import_assignment list"

record strip_panel =
  st_headers :: "string list"
  st_assignment :: "import_assignment list"
  st_dropped_secret_headers :: "string list"
  st_parsed :: parsed_csv

datatype import_panel = Idle | Strip strip_panel | Summary summary_panel

datatype import_outcome = Landed "grid_row list" summary_panel | Stripped strip_panel

definition delimiters :: "char list" where
  "delimiters = [CHR '','', CHR 0x09, CHR '';'', CHR ''|'']"

text \<open>
  The loop of \<open>parseTable\<close>, from a position on: the quoting state, the field and the row
  being read, and the rows read so far. \<open>index += 1\<close> inside the body is the second
  character consumed by the patterns on the rest of the text.
\<close>

fun scan_table ::
  "char \<Rightarrow> bool \<Rightarrow> string \<Rightarrow> string list \<Rightarrow> string list list \<Rightarrow> string \<Rightarrow> string list list" where
  "scan_table delimiter quoted fld row rows [] =
     (if quoted \<or> fld \<noteq> [] \<or> row \<noteq> [] then rows @ [row @ [fld]] else rows)"
| "scan_table delimiter quoted fld row rows (c # s) =
     (if quoted then
        (if c = CHR 0x22 then
           (case s of
              d # s' \<Rightarrow>
                if d = CHR 0x22 then scan_table delimiter True (fld @ [CHR 0x22]) row rows s'
                else scan_table delimiter False fld row rows s
            | [] \<Rightarrow> scan_table delimiter False fld row rows [])
         else scan_table delimiter True (fld @ [c]) row rows s)
      else if c = CHR 0x22 then scan_table delimiter True fld row rows s
      else if c = delimiter then scan_table delimiter False [] (row @ [fld]) rows s
      else if c = CHR 0x0A then scan_table delimiter False [] [] (rows @ [row @ [fld]]) s
      else if c = CHR 0x0D then
        (case s of
           d # s' \<Rightarrow>
             if d = CHR 0x0A then scan_table delimiter False [] [] (rows @ [row @ [fld]]) s'
             else scan_table delimiter False [] [] (rows @ [row @ [fld]]) s
         | [] \<Rightarrow> scan_table delimiter False [] [] (rows @ [row @ [fld]]) [])
      else scan_table delimiter False (fld @ [c]) row rows s)"

definition parse_table :: "string \<Rightarrow> char \<Rightarrow> string list list" where
  "parse_table text delimiter = scan_table delimiter False [] [] [] text"

definition filled_row :: "string list \<Rightarrow> bool" where
  "filled_row row \<longleftrightarrow> list_ex (\<lambda>cell. cell \<noteq> []) row"

definition delimiter_score :: "string \<Rightarrow> char \<Rightarrow> int option" where
  "delimiter_score text delimiter =
     (let rows = take 10 (filter filled_row (parse_table text delimiter))
      in case rows of
           [] \<Rightarrow> None
         | first # _ \<Rightarrow>
             let width = length first;
                 consistent = list_all (\<lambda>row. length row = width) rows
             in Some (if consistent then int (width * length rows) else 0))"

definition sniff_delimiter :: "string \<Rightarrow> char" where
  "sniff_delimiter text =
     fst (foldl (\<lambda>(best, best_score) delimiter.
         case delimiter_score text delimiter of
           None \<Rightarrow> (best, best_score)
         | Some score \<Rightarrow> if score > best_score then (delimiter, score) else (best, best_score))
       (CHR '','', -1) delimiters)"

definition bom :: string where
  "bom = [CHR 0xEF, CHR 0xBB, CHR 0xBF]"

definition parse_csv :: "string \<Rightarrow> parsed_csv" where
  "parse_csv text =
     (let input = (if prefix bom text then drop (length bom) text else text);
          delimiter = sniff_delimiter input;
          table = filter filled_row (parse_table input delimiter);
          headers = (case table of [] \<Rightarrow> [] | first # _ \<Rightarrow> first);
          rows = map (\<lambda>row. map (\<lambda>index. orelse (at row (int index)) []) [0 ..< length headers]) (drop 1 table)
      in \<lparr>pc_headers = headers, pc_rows = rows\<rparr>)"

definition to_summary ::
  "parsed_csv \<Rightarrow> import_assignment list \<Rightarrow> string list \<Rightarrow> string list \<Rightarrow> summary_panel" where
  "to_summary parsed assignment ignored dropped =
     \<lparr>su_dismissed = False,
      su_matched = concat (map (\<lambda>entry. case me_header entry of
          None \<Rightarrow> []
        | Some header \<Rightarrow> [\<lparr>mh_variable_name = me_variable_name entry, mh_header = header\<rparr>]) assignment),
      su_ignored_headers = ignored, su_dropped_secret_headers = dropped,
      su_parsed = parsed, su_assignment = assignment\<rparr>"

text \<open>\<open>indexByHeader\<close>: the first position of each header.\<close>

fun index_headers :: "nat \<Rightarrow> string list \<Rightarrow> (string \<rightharpoonup> nat) \<Rightarrow> (string \<rightharpoonup> nat)" where
  "index_headers index [] m = m"
| "index_headers index (header # headers) m =
     index_headers (index + 1) headers (if m header = None then m(header \<mapsto> index) else m)"

definition import_cell ::
  "grid_column list \<Rightarrow> (string \<rightharpoonup> nat) \<Rightarrow> string list \<Rightarrow> grid_row \<Rightarrow> import_assignment \<Rightarrow> grid_row" where
  "import_cell columns index_by_header cells row entry =
     (case me_header entry of
        None \<Rightarrow> row
      | Some header \<Rightarrow>
          (case index_by_header header of
             None \<Rightarrow> row
           | Some index \<Rightarrow> set_cell row columns (me_variable_name entry) (orelse (at cells (int index)) [])))"

definition apply_import ::
  "parsed_csv \<Rightarrow> import_assignment list \<Rightarrow> grid_column list \<Rightarrow> nat option \<Rightarrow> grid_row list" where
  "apply_import parsed assignment columns fixed_row_count =
     (let index_by_header = index_headers 0 (pc_headers parsed) Map.empty;
          source = (case fixed_row_count of None \<Rightarrow> pc_rows parsed | Some n \<Rightarrow> take n (pc_rows parsed))
      in map (\<lambda>cells. foldl (import_cell columns index_by_header cells) (empty_row columns) assignment) source)"

definition begin_import ::
  "string \<Rightarrow> reconcile_variable list \<Rightarrow> grid_column list \<Rightarrow> nat option \<Rightarrow> import_outcome" where
  "begin_import text variables columns fixed_row_count =
     (let parsed = parse_csv text;
          result = reconcile (pc_headers parsed) variables
      in if rn_confident result then
           Landed (apply_import parsed (rn_mapping result) columns fixed_row_count)
             (to_summary parsed (rn_mapping result) (rn_ignored_headers result) (rn_dropped_secret_headers result))
         else
           Stripped \<lparr>st_headers = pc_headers parsed, st_assignment = rn_mapping result,
             st_dropped_secret_headers = rn_dropped_secret_headers result, st_parsed = parsed\<rparr>)"

definition confirm_import ::
  "strip_panel \<Rightarrow> grid_column list \<Rightarrow> nat option \<Rightarrow> grid_row list \<times> summary_panel" where
  "confirm_import panel columns fixed_row_count =
     (let assigned = set (concat (map (\<lambda>entry. case me_header entry of None \<Rightarrow> [] | Some h \<Rightarrow> [h]) (st_assignment panel)));
          ignored = filter (\<lambda>header. header \<notin> assigned \<and> header \<notin> set (st_dropped_secret_headers panel)) (st_headers panel)
      in (apply_import (st_parsed panel) (st_assignment panel) columns fixed_row_count,
          to_summary (st_parsed panel) (st_assignment panel) ignored (st_dropped_secret_headers panel)))"

definition assign_header :: "strip_panel \<Rightarrow> string \<Rightarrow> string option \<Rightarrow> strip_panel" where
  "assign_header panel variable_name header =
     panel\<lparr>st_assignment := map (\<lambda>entry.
         if me_variable_name entry = variable_name
         then entry\<lparr>me_header := header, me_suggested := False\<rparr> else entry) (st_assignment panel)\<rparr>"

definition dismiss_summary :: "summary_panel \<Rightarrow> summary_panel" where
  "dismiss_summary panel = panel\<lparr>su_dismissed := True\<rparr>"

definition reopen_summary :: "summary_panel \<Rightarrow> summary_panel" where
  "reopen_summary panel = panel\<lparr>su_dismissed := False\<rparr>"

definition strip_from_summary :: "summary_panel \<Rightarrow> strip_panel" where
  "strip_from_summary panel =
     \<lparr>st_headers = pc_headers (su_parsed panel), st_assignment = su_assignment panel,
      st_dropped_secret_headers = su_dropped_secret_headers panel, st_parsed = su_parsed panel\<rparr>"

definition mappable_headers :: "strip_panel \<Rightarrow> string list" where
  "mappable_headers panel =
     filter (\<lambda>header. header \<notin> set (st_dropped_secret_headers panel)) (st_headers panel)"

section \<open>Writing a table\<close>

text \<open>The writer the scanner is checked against: a field is quoted when it has to be.\<close>

definition plain_field :: "char \<Rightarrow> string \<Rightarrow> bool" where
  "plain_field delimiter s \<longleftrightarrow>
     delimiter \<notin> set s \<and> CHR 0x22 \<notin> set s \<and> CHR 0x0A \<notin> set s \<and> CHR 0x0D \<notin> set s"

definition double_quotes :: "string \<Rightarrow> string" where
  "double_quotes s = concat (map (\<lambda>c. if c = CHR 0x22 then [CHR 0x22, CHR 0x22] else [c]) s)"

definition write_field :: "char \<Rightarrow> string \<Rightarrow> string" where
  "write_field delimiter s =
     (if plain_field delimiter s then s else [CHR 0x22] @ double_quotes s @ [CHR 0x22])"

definition write_csv :: "char \<Rightarrow> string \<Rightarrow> string list list \<Rightarrow> string" where
  "write_csv delimiter eol table =
     concat (map (\<lambda>row. join [delimiter] (map (write_field delimiter) row) @ eol) table)"

lemma scan_plain:
  "plain_field d w \<Longrightarrow> scan_table d False fld row rows (w @ s) = scan_table d False (fld @ w) row rows s"
proof (induction w arbitrary: fld)
  case (Cons c w)
  then show ?case using Cons.IH [of "fld @ [c]"] by (auto simp: plain_field_def)
qed simp

lemma scan_quoted:
  "s = [] \<or> hd s \<noteq> CHR 0x22 \<Longrightarrow>
   scan_table d True fld row rows (double_quotes w @ CHR 0x22 # s) = scan_table d False (fld @ w) row rows s"
proof (induction w arbitrary: fld)
  case Nil
  then show ?case by (cases s) (auto simp: double_quotes_def)
next
  case (Cons c w)
  then have "scan_table d True (fld @ [c]) row rows (double_quotes w @ CHR 0x22 # s) =
      scan_table d False (fld @ c # w) row rows s" by simp
  then show ?case by (auto simp: double_quotes_def)
qed


definition is_delimiter :: "char \<Rightarrow> bool" where
  "is_delimiter d \<longleftrightarrow> d \<noteq> CHR 0x22 \<and> d \<noteq> CHR 0x0A \<and> d \<noteq> CHR 0x0D"

text \<open>A field written for \<open>d\<close>, read with \<open>d'\<close>.\<close>

lemma scan_field:
  assumes "s = [] \<or> hd s \<noteq> CHR 0x22" and "plain_field d w \<Longrightarrow> plain_field d' w"
  shows "scan_table d' False fld row rows (write_field d w @ s) = scan_table d' False (fld @ w) row rows s"
proof (cases "plain_field d w")
  case True
  with assms(2) show ?thesis by (simp add: write_field_def scan_plain)
next
  case False
  then show ?thesis using scan_quoted [OF assms(1)] by (simp add: write_field_def)
qed

lemma scan_eol:
  assumes "is_eol eol" and "is_delimiter d" and "eol = [CHR 0x0D] \<Longrightarrow> s = [] \<or> hd s \<noteq> CHR 0x0A"
  shows "scan_table d False fld row rows (eol @ s) = scan_table d False [] [] (rows @ [row @ [fld]]) s"
  using assms by (cases s) (auto simp: is_eol_def is_delimiter_def)

lemma eol_hd: "is_eol eol \<Longrightarrow> hd (eol @ s) \<noteq> CHR 0x22"
  by (auto simp: is_eol_def)

text \<open>A row, read with the delimiter it was written with, and with another one.\<close>

lemma scan_row:
  assumes d: "is_delimiter d" and eol: "is_eol eol" "eol = [CHR 0x0D] \<Longrightarrow> s = [] \<or> hd s \<noteq> CHR 0x0A"
  shows "row \<noteq> [] \<Longrightarrow>
    scan_table d False [] pre rows (join [d] (map (write_field d) row) @ eol @ s) =
      scan_table d False [] [] (rows @ [pre @ row]) s"
proof (induction row arbitrary: pre rule: induct_list012)
  case (2 w)
  then show ?case by (simp add: scan_field eol_hd [OF eol(1)] scan_eol [OF eol(1) d eol(2)])
next
  case (3 w v row)
  let ?rest = "join [d] (map (write_field d) (v # row)) @ eol @ s"
  have "scan_table d False [] pre rows (write_field d w @ d # ?rest) =
      scan_table d False [] (pre @ [w]) rows ?rest"
    using d by (subst scan_field) (auto simp: is_delimiter_def)
  then show ?case using 3(2) by simp
qed simp

lemma scan_row_other:
  assumes d: "is_delimiter d" "is_delimiter d'" "d \<noteq> d'"
    and eol: "is_eol eol" "eol = [CHR 0x0D] \<Longrightarrow> s = [] \<or> hd s \<noteq> CHR 0x0A"
  shows "row \<noteq> [] \<Longrightarrow> \<forall>w \<in> set row. plain_field d w \<longrightarrow> plain_field d' w \<Longrightarrow>
    scan_table d' False fld [] rows (join [d] (map (write_field d) row) @ eol @ s) =
      scan_table d' False [] [] (rows @ [[fld @ join [d] row]]) s"
proof (induction row arbitrary: fld rule: induct_list012)
  case (2 w)
  then show ?case by (simp add: scan_field eol_hd [OF eol(1)] scan_eol [OF eol(1) d(2) eol(2)])
next
  case (3 w v row)
  let ?rest = "join [d] (map (write_field d) (v # row)) @ eol @ s"
  have "scan_table d' False fld [] rows (write_field d w @ d # ?rest) =
      scan_table d' False (fld @ w @ [d]) [] rows ?rest"
    using d 3(4) by (subst scan_field) (auto simp: is_delimiter_def)
  also have "\<dots> = scan_table d' False [] [] (rows @ [[(fld @ w @ [d]) @ join [d] (v # row)]]) s"
    using 3(4) by (intro 3(2)) auto
  finally show ?case by simp
qed simp

lemma write_csv_Cons:
  "write_csv d eol (row # table) = join [d] (map (write_field d) row) @ eol @ write_csv d eol table"
  by (simp add: write_csv_def)

lemma write_field_hd: "write_field d w \<noteq> [] \<Longrightarrow> hd (write_field d w) \<noteq> CHR 0x0A"
  by (cases w) (auto simp: write_field_def plain_field_def)

lemma write_csv_hd:
  assumes "is_delimiter d" and "eol = [CHR 0x0D]"
  shows "write_csv d eol table = [] \<or> hd (write_csv d eol table) \<noteq> CHR 0x0A"
proof (cases table)
  case (Cons row table')
  have "hd (join [d] (map (write_field d) row) @ eol @ s) \<noteq> CHR 0x0A" for s
  proof (cases row)
    case (Cons w row')
    then show ?thesis
      using assms write_field_hd [of d w]
      by (cases row'; cases "write_field d w") (auto simp: is_delimiter_def)
  qed (simp add: assms(2))
  then show ?thesis by (simp add: Cons write_csv_Cons)
qed (simp add: write_csv_def)

lemma scan_csv:
  assumes "is_delimiter d" and "is_eol eol" and "list_all (\<lambda>row. row \<noteq> []) table"
  shows "scan_table d False [] [] rows (write_csv d eol table) = rows @ table"
  using assms(3)
proof (induction table arbitrary: rows)
  case (Cons row table)
  then show ?case
    using scan_row [OF assms(1,2) write_csv_hd [OF assms(1)], where row = row and pre = "[]" and rows = rows]
    by (simp add: write_csv_Cons)
qed (simp add: write_csv_def)

lemma scan_csv_other:
  assumes "is_delimiter d" "is_delimiter d'" "d \<noteq> d'" and "is_eol eol"
    and "list_all (\<lambda>row. row \<noteq> [] \<and> (\<forall>w \<in> set row. plain_field d w \<longrightarrow> plain_field d' w)) table"
  shows "scan_table d' False [] [] rows (write_csv d eol table) = rows @ map (\<lambda>row. [join [d] row]) table"
  using assms(5)
proof (induction table arbitrary: rows)
  case (Cons row table)
  then show ?case
    using scan_row_other [OF assms(1-4) write_csv_hd [OF assms(1)], where row = row and fld = "[]" and rows = rows]
    by (simp add: write_csv_Cons)
qed (simp add: write_csv_def)

interpretation csv: codec "write_csv d eol" "\<lambda>text. Some (parse_table text d)"
    "\<lambda>table. is_delimiter d \<and> is_eol eol \<and> list_all (\<lambda>row. row \<noteq> []) table" for d eol
  by unfold_locales (simp add: parse_table_def scan_csv)

section \<open>Finding the delimiter\<close>

text \<open>A table a delimiter can be found for: at least two columns, the same number in every row,
  no row without a value, and no other delimiter in a field that is written without quotes.\<close>

definition sniffable :: "char \<Rightarrow> nat \<Rightarrow> string list list \<Rightarrow> bool" where
  "sniffable d width table \<longleftrightarrow>
     d \<in> set delimiters \<and> 2 \<le> width \<and> table \<noteq> [] \<and>
     list_all (\<lambda>row. length row = width \<and> filled_row row \<and>
       list_all (\<lambda>w. plain_field d w \<longrightarrow> list_all (\<lambda>d'. d' = d \<or> d' \<notin> set w) delimiters) row) table"

lemma delimiters_ok: "d \<in> set delimiters \<Longrightarrow> is_delimiter d"
  by (auto simp: delimiters_def is_delimiter_def)

lemma join_two_nonempty: "2 \<le> length row \<Longrightarrow> join [d] row \<noteq> []"
  by (cases row rule: list.exhaust; cases "tl row") auto

lemma sniffable_rows:
  assumes "sniffable d width table"
  shows "list_all (\<lambda>row. row \<noteq> []) table" "filter filled_row table = table"
    "list_all (\<lambda>row. length row = width) table" "list_all (\<lambda>row. join [d] row \<noteq> []) table"
proof -
  show "list_all (\<lambda>row. row \<noteq> []) table" "list_all (\<lambda>row. length row = width) table"
    "filter filled_row table = table"
    using assms by (auto simp: sniffable_def list_all_iff intro: filter_True)
  then show "list_all (\<lambda>row. join [d] row \<noteq> []) table"
    using assms join_two_nonempty [of _ d] by (auto simp: sniffable_def list_all_iff)
qed

lemma scored_rows:
  assumes "table \<noteq> []" and "list_all (\<lambda>row. length row = width \<and> filled_row row) (parse_table text d)"
    and "parse_table text d = table"
  shows "delimiter_score text d = Some (int (width * min 10 (length table)))"
proof -
  have "filter filled_row (parse_table text d) = table"
    using assms(2) by (simp add: assms(3) list_all_iff)
  then have rows: "take 10 (filter filled_row (parse_table text d)) = take 10 table" by simp
  obtain first rest where table: "table = first # rest" using assms(1) by (cases table) auto
  have "length first = width" and "list_all (\<lambda>row. length row = width) (take 9 rest)"
    using assms(2) by (auto simp: assms(3) table list_all_iff dest: in_set_takeD)
  then show ?thesis
    unfolding delimiter_score_def rows by (simp add: table min_def distrib_left)
qed

lemma sniff_best:
  assumes "d \<in> set delimiters" and "1 \<le> b" and "b < a"
    and score: "\<And>d'. d' \<in> set delimiters \<Longrightarrow> delimiter_score text d' = Some (if d' = d then a else b)"
  shows "sniff_delimiter text = d"
proof -
  have "delimiter_score text (CHR '','') = Some (if CHR '','' = d then a else b)"
    "delimiter_score text (CHR 0x09) = Some (if CHR 0x09 = d then a else b)"
    "delimiter_score text (CHR '';'') = Some (if CHR '';'' = d then a else b)"
    "delimiter_score text (CHR ''|'') = Some (if CHR ''|'' = d then a else b)"
    by (rule score, simp add: delimiters_def)+
  then show ?thesis
    using assms(1-3) by (auto simp: sniff_delimiter_def delimiters_def)
qed

lemma sniffed:
  assumes "sniffable d width table" and "is_eol eol"
  shows "sniff_delimiter (write_csv d eol table) = d"
proof -
  let ?text = "write_csv d eol table" and ?n = "min 10 (length table)"
  have d: "d \<in> set delimiters" "2 \<le> width" "table \<noteq> []" using assms(1) by (auto simp: sniffable_def)
  have own: "delimiter_score ?text d = Some (int (width * ?n))"
    using scan_csv [OF delimiters_ok [OF d(1)] assms(2) sniffable_rows(1) [OF assms(1)], of "[]"] assms(1) d(3)
    by (intro scored_rows) (auto simp: parse_table_def sniffable_def list_all_iff)
  have other: "delimiter_score ?text d' = Some (int ?n)" if d': "d' \<in> set delimiters" "d' \<noteq> d" for d'
  proof -
    have "list_all (\<lambda>row. row \<noteq> [] \<and> (\<forall>w \<in> set row. plain_field d w \<longrightarrow> plain_field d' w)) table"
      using assms(1) d' sniffable_rows(1) [OF assms(1)]
      by (auto simp: sniffable_def list_all_iff plain_field_def)
    from scan_csv_other [OF delimiters_ok [OF d(1)] delimiters_ok [OF d'(1)] d'(2) [symmetric] assms(2) this, of "[]"]
    have "parse_table ?text d' = map (\<lambda>row. [join [d] row]) table" by (simp add: parse_table_def)
    then show ?thesis
      using scored_rows [of "map (\<lambda>row. [join [d] row]) table" 1 ?text d'] d(3) sniffable_rows(4) [OF assms(1)]
      by (auto simp: list_all_iff filled_row_def)
  qed
  have n: "1 \<le> ?n" using d(3) by (cases table) auto
  have "1 * ?n < width * ?n" using n d(2) by (intro mult_strict_right_mono) auto
  then have more: "int ?n < int (width * ?n)" by linarith
  show ?thesis
    using d(1) own other n more by (intro sniff_best [of d "int ?n" "int (width * ?n)"]) auto
qed

lemma parse_written:
  assumes "sniffable d (length headers) (headers # rows)" and "is_eol eol"
    and "text = bom @ write_csv d eol (headers # rows) \<or>
      text = write_csv d eol (headers # rows) \<and> \<not> prefix bom text"
  shows "parse_csv text = \<lparr>pc_headers = headers, pc_rows = rows\<rparr>"
proof -
  have "(if prefix bom text then drop (length bom) text else text) = write_csv d eol (headers # rows)"
    using assms(3) by auto
  moreover have "parse_table (write_csv d eol (headers # rows)) d = headers # rows"
    using scan_csv [OF delimiters_ok assms(2) sniffable_rows(1) [OF assms(1)], of d "[]"] assms(1)
    by (simp add: parse_table_def sniffable_def)
  moreover have "map (\<lambda>index. orelse (at row (int index)) []) [0 ..< length headers] = row"
    if "row \<in> set rows" for row
  proof -
    have "length row = length headers" using that assms(1) by (auto simp: sniffable_def list_all_iff)
    then show ?thesis by (intro nth_equalityI) auto
  qed
  ultimately show ?thesis
    using sniffable_rows(2) [OF assms(1)]
    by (simp add: parse_csv_def sniffed [OF assms(1,2)] Let_def map_idI)
qed


section \<open>Landing the rows\<close>

lemma index_headers_eq:
  "index_headers k headers m h =
     (case m h of Some i \<Rightarrow> Some i
      | None \<Rightarrow> (let i = find_from k (\<lambda>x. x = h) headers in if i = -1 then None else Some (nat i)))"
proof (induction k headers m rule: index_headers.induct)
  case (2 k x headers m)
  have "find_from (Suc k) (\<lambda>y. y = h) headers \<noteq> int k" for h
    using find_from_cases [of "Suc k" "\<lambda>y. y = h" headers] by auto
  with 2 show ?case by (auto split: option.splits simp: Let_def)
qed (auto split: option.splits)

text \<open>The text a row of the file holds under a header: the cell at the header's first position.\<close>

definition cell_under :: "string list \<Rightarrow> string list \<Rightarrow> string \<Rightarrow> string" where
  "cell_under headers cells header = orelse (at cells (find_index (\<lambda>h. h = header) headers)) []"

lemma index_headers_Some:
  "h \<in> set headers \<Longrightarrow> \<exists>i. index_headers 0 headers Map.empty h = Some i \<and> int i = find_index (\<lambda>x. x = h) headers"
  by (cases rule: find_index_cases [of "\<lambda>x. x = h" headers])
    (auto simp: index_headers_eq find_index_def [symmetric] Let_def)

lemma index_headers_None: "h \<notin> set headers \<Longrightarrow> index_headers 0 headers Map.empty h = None"
  by (cases rule: find_index_cases [of "\<lambda>x. x = h" headers])
    (auto simp: index_headers_eq find_index_def [symmetric] Let_def)

lemma import_cell_eq:
  "import_cell columns (index_headers 0 headers Map.empty) cells row entry =
     (case me_header entry of
        None \<Rightarrow> row
      | Some h \<Rightarrow> if h \<in> set headers then set_cell row columns (me_variable_name entry) (cell_under headers cells h) else row)"
proof (cases "me_header entry")
  case (Some h)
  then show ?thesis
    using index_headers_Some [of h headers] index_headers_None [of h headers]
    by (cases "h \<in> set headers") (auto simp: import_cell_def cell_under_def)
qed (simp add: import_cell_def)

lemma row_ok_import:
  "row_ok columns row \<Longrightarrow>
   row_ok columns (foldl (import_cell columns (index_headers 0 headers Map.empty) cells) row assignment)"
  by (rule grid.ok_puts) (auto simp: import_cell_eq intro: row_ok_set_cell split: option.splits)

lemma rows_ok_apply_import: "list_all (row_ok columns) (apply_import parsed assignment columns cap)"
  by (auto simp: apply_import_def list_all_iff Let_def intro!: row_ok_import grid.ok_fresh)

lemma length_apply_import:
  "length (apply_import parsed assignment columns cap) =
     (case cap of None \<Rightarrow> length (pc_rows parsed) | Some n \<Rightarrow> min n (length (pc_rows parsed)))"
  by (auto simp: apply_import_def Let_def split: option.splits)

lemma import_cells_other:
  "n \<notin> me_variable_name ` set assignment \<Longrightarrow>
   foldl (import_cell columns (index_headers 0 headers Map.empty) cells) row assignment n = row n"
proof (induction assignment arbitrary: row)
  case (Cons entry assignment)
  then have "import_cell columns (index_headers 0 headers Map.empty) cells row entry n = row n"
    by (auto simp: import_cell_eq set_cell_def split: option.splits)
  with Cons show ?case by simp
qed simp

lemma import_cells_nth:
  assumes "distinct (map gc_name columns)" "column \<in> set columns" "\<not> gc_secret column"
    and "distinct (map me_variable_name assignment)" "entry \<in> set assignment"
    and "me_variable_name entry = gc_name column"
  shows "foldl (import_cell columns (index_headers 0 headers Map.empty) cells) row assignment (gc_name column) =
    (case me_header entry of
       None \<Rightarrow> row (gc_name column)
     | Some h \<Rightarrow> if h \<in> set headers then Some (cell_under headers cells h) else row (gc_name column))"
  using assms(4-6)
proof (induction assignment arbitrary: row)
  case (Cons e assignment)
  show ?case
  proof (cases "e = entry")
    case True
    then have "gc_name column \<notin> me_variable_name ` set assignment" using Cons.prems by auto
    then have "foldl (import_cell columns (index_headers 0 headers Map.empty) cells) row (e # assignment) (gc_name column) =
        import_cell columns (index_headers 0 headers Map.empty) cells row entry (gc_name column)"
      using True import_cells_other by simp
    then show ?thesis
      using Cons.prems(3) set_cell_distinct [OF assms(1,2)] assms(3)
      unfolding import_cell_eq [of _ headers cells row entry] by (auto split: option.splits)
  next
    case False
    then have "me_variable_name e \<noteq> gc_name column" using Cons.prems by (metis distinct_mapD list.set_intros)
    then have "import_cell columns (index_headers 0 headers Map.empty) cells row e (gc_name column) = row (gc_name column)"
      by (auto simp: import_cell_eq set_cell_def split: option.splits)
    with Cons False show ?thesis by (auto split: option.splits)
  qed
qed simp

lemma apply_import_cell:
  assumes "distinct (map gc_name columns)" "column \<in> set columns" "\<not> gc_secret column"
    and "distinct (map me_variable_name assignment)" "entry \<in> set assignment"
    and "me_variable_name entry = gc_name column"
    and "i < length (apply_import parsed assignment columns cap)"
  shows "(apply_import parsed assignment columns cap ! i) (gc_name column) =
      (case me_header entry of
         None \<Rightarrow> Some []
       | Some h \<Rightarrow> if h \<in> set (pc_headers parsed)
           then Some (cell_under (pc_headers parsed) (pc_rows parsed ! i) h) else Some [])"
proof -
  have "empty_row columns (gc_name column) = Some []"
    using assms(2,3) by (auto simp: empty_row_eq plain_names_def)
  moreover have "i < length (pc_rows parsed)" and "cap = Some n \<Longrightarrow> i < n" for n
    using assms(7) by (auto simp: length_apply_import split: option.splits)
  then have "apply_import parsed assignment columns cap ! i =
      foldl (import_cell columns (index_headers 0 (pc_headers parsed) Map.empty) (pc_rows parsed ! i))
        (empty_row columns) assignment"
    using assms(7) by (auto simp: apply_import_def Let_def split: option.splits)
  ultimately show ?thesis
    by (simp add: import_cells_nth [OF assms(1-6)] split: option.split)
qed

section \<open>Properties\<close>

text \<open>The scanner reads back every table of non-empty rows, whatever its fields hold, when
  fields with a delimiter, a quote or a line break are quoted and quotes are doubled.\<close>

theorem parse_table_written:
  "is_delimiter d \<Longrightarrow> is_eol eol \<Longrightarrow> list_all (\<lambda>row. row \<noteq> []) table \<Longrightarrow>
   parse_table (write_csv d eol table) d = table"
  using csv.dec_enc [of d eol table] by simp

theorem parse_table_written_witness:
  "parse_table (write_csv (CHR '','') [CHR 0x0D] [[''a,b'', []], [[CHR 0x22, CHR 0x0A]]]) (CHR '','') =
     [[''a,b'', []], [[CHR 0x22, CHR 0x0A]]]"
  by (rule parse_table_written) (simp_all add: is_delimiter_def is_eol_def)



text \<open>A row of the file lands with the cell under the header its Variable is mapped to, the
  cells of the other plain Variables stay empty, no secret cell is written, and the grid
  takes no more rows than it has when they are fixed.\<close>

theorem apply_import_cells:
  assumes "distinct (map gc_name columns)" "column \<in> set columns" "\<not> gc_secret column"
    and "distinct (map me_variable_name assignment)" "entry \<in> set assignment"
    and "me_variable_name entry = gc_name column"
    and "i < length (apply_import parsed assignment columns cap)"
  shows "(apply_import parsed assignment columns cap ! i) (gc_name column) =
      (case me_header entry of
         None \<Rightarrow> Some []
       | Some h \<Rightarrow> if h \<in> set (pc_headers parsed)
           then Some (cell_under (pc_headers parsed) (pc_rows parsed ! i) h) else Some []) \<and>
    row_ok columns (apply_import parsed assignment columns cap ! i) \<and>
    length (apply_import parsed assignment columns cap) =
      (case cap of None \<Rightarrow> length (pc_rows parsed) | Some n \<Rightarrow> min n (length (pc_rows parsed)))"
  using apply_import_cell [OF assms] rows_ok_apply_import [of columns parsed assignment cap] assms(7)
  by (simp add: length_apply_import list_all_length)

theorem apply_import_cells_witness:
  "(apply_import \<lparr>pc_headers = [''a'', ''b''], pc_rows = [[''1'', ''2'']]\<rparr>
     [\<lparr>me_variable_name = ''zip'', me_header = Some ''b'', me_suggested = False\<rparr>] sample_columns None ! 0) ''zip''
   = Some ''2''"
  using apply_import_cells [of sample_columns "sample_columns ! 2"
      "[\<lparr>me_variable_name = ''zip'', me_header = Some ''b'', me_suggested = False\<rparr>]"
      "\<lparr>me_variable_name = ''zip'', me_header = Some ''b'', me_suggested = False\<rparr>" 0
      "\<lparr>pc_headers = [''a'', ''b''], pc_rows = [[''1'', ''2'']]\<rparr>" None]
  by (simp add: sample_columns_def length_apply_import cell_under_def find_index_def at_def)

text \<open>The panel of an import: confirming a strip lands the rows of its assignment and lists
  each of its headers as matched, ignored or dropped; going back gives the same strip, and
  hiding and reopening the summary changes nothing else.\<close>

theorem confirm_import_panel:
  assumes "st_headers panel = pc_headers (st_parsed panel)"
  shows "fst (confirm_import panel columns cap) = apply_import (st_parsed panel) (st_assignment panel) columns cap \<and>
    strip_from_summary (snd (confirm_import panel columns cap)) = panel \<and>
    reopen_summary (dismiss_summary (snd (confirm_import panel columns cap))) = snd (confirm_import panel columns cap) \<and>
    (\<forall>header \<in> set (st_headers panel).
       header \<in> set (su_ignored_headers (snd (confirm_import panel columns cap))) \<longleftrightarrow>
         header \<in> set (mappable_headers panel) \<and>
         header \<notin> mh_header ` set (su_matched (snd (confirm_import panel columns cap))))"
proof (intro conjI)
  let ?summary = "snd (confirm_import panel columns cap)"
  have "mh_header ` set (su_matched ?summary) = {h. \<exists>entry \<in> set (st_assignment panel). me_header entry = Some h}"
    by (force simp: confirm_import_def to_summary_def Let_def split: option.splits)
  moreover have "set (su_ignored_headers ?summary) =
      {h \<in> set (st_headers panel). (\<forall>entry \<in> set (st_assignment panel). me_header entry \<noteq> Some h) \<and>
        h \<notin> set (st_dropped_secret_headers panel)}"
    by (auto simp: confirm_import_def to_summary_def Let_def split: option.splits)
  ultimately show "\<forall>header \<in> set (st_headers panel). header \<in> set (su_ignored_headers ?summary) \<longleftrightarrow>
         header \<in> set (mappable_headers panel) \<and> header \<notin> mh_header ` set (su_matched ?summary)"
    by (auto simp: mappable_headers_def)
qed (use assms in \<open>simp_all add: confirm_import_def to_summary_def strip_from_summary_def
    dismiss_summary_def reopen_summary_def Let_def\<close>)

theorem confirm_import_panel_witness:
  "strip_from_summary (snd (confirm_import
     \<lparr>st_headers = [''a''], st_assignment = [], st_dropped_secret_headers = [],
       st_parsed = \<lparr>pc_headers = [''a''], pc_rows = []\<rparr>\<rparr> sample_columns None)) =
     \<lparr>st_headers = [''a''], st_assignment = [], st_dropped_secret_headers = [],
       st_parsed = \<lparr>pc_headers = [''a''], pc_rows = []\<rparr>\<rparr>"
  using confirm_import_panel [of "\<lparr>st_headers = [''a''], st_assignment = [], st_dropped_secret_headers = [],
       st_parsed = \<lparr>pc_headers = [''a''], pc_rows = []\<rparr>\<rparr>" sample_columns None] by simp

definition sample_variables :: "variable list" where
  "sample_variables =
     [\<lparr>va_name = ''city'', va_secret = None, va_secret_id = None, va_secret_name = None\<rparr>,
      \<lparr>va_name = ''password'', va_secret = Some True, va_secret_id = None, va_secret_name = None\<rparr>,
      \<lparr>va_name = ''zipCode'', va_secret = Some False, va_secret_id = None, va_secret_name = None\<rparr>]"

text \<open>A file whose headers cover the plain Variables lands by itself, and then each row holds,
  for each plain Variable, the cell under a header that normalizes to its name.\<close>

theorem begin_import_lands:
  fixes variables :: "variable list"
  assumes "distinct (map va_name variables)"
    and "sniffable d (length headers) (headers # file_rows)" and "is_eol eol"
    and "begin_import (bom @ write_csv d eol (headers # file_rows))
      (map (\<lambda>v. \<lparr>rv_name = va_name v, rv_secret = va_secret v\<rparr>) variables) (columns_of variables) None =
      Landed rows summary"
    and "v \<in> set variables" "va_secret v \<noteq> Some True" and "i < length file_rows"
  shows "length rows = length file_rows \<and>
    (\<exists>h \<in> set headers. normalize h = normalize (va_name v) \<and>
       (rows ! i) (va_name v) = Some (cell_under headers (file_rows ! i) h))"
proof -
  let ?vs = "map (\<lambda>v. \<lparr>rv_name = va_name v, rv_secret = va_secret v\<rparr>) variables"
  let ?v = "\<lparr>rv_name = va_name v, rv_secret = va_secret v\<rparr>"
  have parsed: "parse_csv (bom @ write_csv d eol (headers # file_rows)) = \<lparr>pc_headers = headers, pc_rows = file_rows\<rparr>"
    using parse_written [OF assms(2,3)] by blast
  have names: "distinct (map rv_name (plain_of ?vs))"
    unfolding plain_of_def using assms(1) by (intro distinct_map_filter) (simp add: o_def)
  let ?usable = "filter (\<lambda>header. \<not> names_secret ?vs header) headers"
  let ?mapping = "map (match_entry ?usable (plain_of ?vs)) (plain_of ?vs)"
  let ?parsed = "\<lparr>pc_headers = headers, pc_rows = file_rows\<rparr>"
  from assms(4) have confident: "confident_match ?usable (plain_of ?vs)"
    and rows: "rows = apply_import ?parsed ?mapping (columns_of variables) None"
    by (auto simp: begin_import_def parsed reconcile_eq [OF names] Let_def split: if_splits)
  have v: "?v \<in> set (plain_of ?vs)" using assms(5,6) by (force simp: plain_of_def)
  with confident obtain h where h: "exact_match ?usable (plain_of ?vs) ?v = Some h"
    by (auto simp: confident_match_def)
  then have entry: "me_header (match_entry ?usable (plain_of ?vs) ?v) = Some h" by (simp add: match_entry_def)
  from exact_match_header [OF h] have in_headers: "h \<in> set headers" "normalize h = normalize (va_name v)" by auto
  let ?column = "\<lparr>gc_name = va_name v, gc_secret = (va_secret v = Some True), gc_secret_name = va_secret_name v\<rparr>"
  have "(rows ! i) (gc_name ?column) =
      (case me_header (match_entry ?usable (plain_of ?vs) ?v) of
         None \<Rightarrow> Some []
       | Some h \<Rightarrow> if h \<in> set (pc_headers ?parsed)
           then Some (cell_under (pc_headers ?parsed) (pc_rows ?parsed ! i) h) else Some [])"
    unfolding rows
  proof (rule apply_import_cell)
    show "distinct (map gc_name (columns_of variables))" using assms(1) by (simp add: columns_of_def o_def)
    show "?column \<in> set (columns_of variables)" using assms(5) by (auto simp: columns_of_def)
    show "distinct (map me_variable_name ?mapping)" using names by (simp add: o_def)
    show "match_entry ?usable (plain_of ?vs) ?v \<in> set ?mapping" using v by simp
  qed (use assms(6,7) in \<open>simp_all add: length_apply_import\<close>)
  with entry in_headers show ?thesis by (auto simp: rows length_apply_import)
qed

theorem begin_import_lands_witness:
  "\<exists>rows summary h. begin_import (bom @ write_csv (CHR '','') [CHR 0x0A] [[''Zip Code'', ''City''], [''9000'', ''Gent'']])
      (map (\<lambda>v. \<lparr>rv_name = va_name v, rv_secret = va_secret v\<rparr>) sample_variables)
      (columns_of sample_variables) None = Landed rows summary \<and>
     normalize h = ''city'' \<and> (rows ! 0) ''city'' = Some (cell_under [''Zip Code'', ''City''] [''9000'', ''Gent''] h)"
proof -
  let ?text = "bom @ write_csv (CHR '','') [CHR 0x0A] [[''Zip Code'', ''City''], [''9000'', ''Gent'']]"
  let ?vs = "map (\<lambda>v. \<lparr>rv_name = va_name v, rv_secret = va_secret v\<rparr>) sample_variables"
  have sniffable: "sniffable (CHR '','') (length [''Zip Code'', ''City'']) ([''Zip Code'', ''City''] # [[''9000'', ''Gent'']])"
    by code_simp
  have distinct: "distinct (map va_name sample_variables)"
    and city: "sample_variables ! 0 \<in> set sample_variables" "va_secret (sample_variables ! 0) \<noteq> Some True"
    by (simp_all add: sample_variables_def)
  have eol: "is_eol [CHR 0x0A]" by (simp add: is_eol_def)
  have "rn_confident (reconcile (pc_headers (parse_csv ?text)) ?vs)" by code_simp
  then obtain rows summary where landed:
    "begin_import ?text ?vs (columns_of sample_variables) None = Landed rows summary"
    by (auto simp: begin_import_def Let_def)
  have "normalize (va_name (sample_variables ! 0)) = ''city''" "va_name (sample_variables ! 0) = ''city''"
    by code_simp+
  then show ?thesis
    using begin_import_lands [OF distinct sniffable eol landed city, of 0] landed by auto
qed

end
