(* ===== verification/RunEvents.thy ===== *)
theory RunEvents
  imports ApiTypes
begin

text \<open>
  The cockpit of a Run as a reducer over the server-sent events of the Run:
  \<open>app/(shell)/runs/[id]/events.ts\<close>. An event is its type and the JSON object it carries, of
  which nothing is known: every field is read through a type test. The casts of the code
  (\<open>as RunStatus\<close>) are not tests; the model reads the name of the member and says nothing of
  the value when it is no member (\<open>the None\<close>).
\<close>

section \<open>The code\<close>

record predicate_state =
  ps_met :: bool
  ps_grace_ends_at :: "string option"

record diagnostic_event =
  de_step_id :: string
  de_kind :: string
  de_detail :: string
  de_at :: string

record in_flight =
  if_step_id :: string
  if_position :: int
  if_started_at :: string

record cockpit_snapshot =
  cs_run :: run_record
  cs_step_results :: "step_result list"
  cs_intervals :: "control_interval list"
  cs_artifacts :: "artifact list"
  cs_logs :: "log_line list"
  cs_in_flight :: "in_flight option"
  cs_auth_state_candidates :: "auth_state_candidate list"
  cs_predicate :: "predicate_state option"
  cs_diagnostics :: "diagnostic_event list"

record run_event =
  re_type :: string
  re_data :: fields

definition empty_snapshot :: "run_record \<Rightarrow> cockpit_snapshot" where
  "empty_snapshot run =
     \<lparr>cs_run = run, cs_step_results = [], cs_intervals = [], cs_artifacts = [], cs_logs = [],
      cs_in_flight = None, cs_auth_state_candidates = [], cs_predicate = None, cs_diagnostics = []\<rparr>"

definition snapshot_from_detail :: "run_detail \<Rightarrow> log_line list \<Rightarrow> cockpit_snapshot" where
  "snapshot_from_detail detail logs =
     \<lparr>cs_run = rd_run detail, cs_step_results = rd_step_results detail,
      cs_intervals = rd_control_intervals detail, cs_artifacts = rd_artifacts detail, cs_logs = logs,
      cs_in_flight = None, cs_auth_state_candidates = rd_auth_state_candidates detail,
      cs_predicate = None, cs_diagnostics = []\<rparr>"

fun string_of :: "js \<Rightarrow> string" where
  "string_of (Str s) = s"
| "string_of _ = []"

text \<open>The numbers of an event come out of \<open>JSON.parse\<close>, which yields no \<open>NaN\<close>.\<close>

fun number_of :: "js \<Rightarrow> int" where
  "number_of (Number (Num i)) = i"
| "number_of _ = 0"

fun number_or_null :: "js \<Rightarrow> int option" where
  "number_or_null (Number (Num i)) = Some i"
| "number_or_null _ = None"

text \<open>The members of the enumerations by their names on the wire.\<close>

definition run_status_named :: "(string \<times> run_status) list" where
  "run_status_named =
     [(''queued'', Queued), (''running'', Running), (''waiting_for_human'', Waiting_for_human),
      (''succeeded'', Succeeded), (''failed'', Failed), (''cancelled'', Cancelled)]"

definition failure_reason_named :: "(string \<times> failure_reason) list" where
  "failure_reason_named =
     [(''step_failed'', Step_failed), (''auth_challenge'', Auth_challenge),
      (''takeover_timeout'', Takeover_timeout), (''takeover_abandoned'', Takeover_abandoned),
      (''run_timeout'', Run_timeout), (''worker_lost'', Worker_lost),
      (''missing_secret'', Missing_secret), (''startup_failed'', Startup_failed)]"

definition step_result_status_named :: "(string \<times> step_result_status) list" where
  "step_result_status_named = [(''passed'', Passed), (''failed'', Step_Failed), (''skipped'', Step_Skipped)]"

definition run_control_kind_named :: "(string \<times> run_control_kind) list" where
  "run_control_kind_named =
     [(''automation'', Automation), (''waiting'', Waiting), (''human'', Human), (''verifying'', Verifying)]"

definition log_level_named :: "(string \<times> log_level) list" where
  "log_level_named =
     [(''debug'', Debug), (''info'', Info), (''warning'', Warning_level), (''error'', Error_level)]"

text \<open>\<open>value as T\<close>.\<close>

definition cast :: "(string \<times> 'a) list \<Rightarrow> js \<Rightarrow> 'a" where
  "cast members v = the (as_string v \<bind> map_of members)"

definition append_diagnostic :: "cockpit_snapshot \<Rightarrow> fields \<Rightarrow> cockpit_snapshot" where
  "append_diagnostic state data =
     (let nxt = \<lparr>de_step_id = string_of (field data ''step_id''), de_kind = string_of (field data ''kind''),
          de_detail = string_of (field data ''detail''), de_at = string_of (field data ''at'')\<rparr>
      in if list_ex (\<lambda>item. de_step_id item = de_step_id nxt \<and> de_kind item = de_kind nxt \<and> de_at item = de_at nxt)
            (cs_diagnostics state)
         then state
         else state\<lparr>cs_diagnostics := cs_diagnostics state @ [nxt]\<rparr>)"

text \<open>\<open>state.inFlight?.stepId === stepId\<close>.\<close>

definition flying :: "cockpit_snapshot \<Rightarrow> string \<Rightarrow> in_flight option" where
  "flying state step_id =
     (case cs_in_flight state of
        Some flight \<Rightarrow> if if_step_id flight = step_id then Some flight else None
      | None \<Rightarrow> None)"

definition finished_result :: "cockpit_snapshot \<Rightarrow> fields \<Rightarrow> step_result" where
  "finished_result state data =
     (let step_id = string_of (field data ''step_id'');
          extracted = (case field data ''extracted_count'' of
              Number (Num n) \<Rightarrow> Arr (replicate (nat n) (Obj []))
            | _ \<Rightarrow> Null)
      in \<lparr>sr_id = ''live-'' @ step_id, sr_step_id = step_id,
          sr_position = (case flying state step_id of Some flight \<Rightarrow> if_position flight | None \<Rightarrow> 0),
          sr_status = cast step_result_status_named (field data ''status''),
          sr_started_at = Some (case flying state step_id of
              Some flight \<Rightarrow> if_started_at flight
            | None \<Rightarrow> string_of (field data ''at'')),
          sr_ended_at = Some (string_of (field data ''at'')),
          sr_matched_candidate_rank = number_or_null (field data ''matched_candidate_rank''),
          sr_candidate_count = number_or_null (field data ''candidate_count''),
          sr_completed_by_human = (field data ''completed_by_human'' = Bool True),
          sr_error_code = as_string (field data ''error_code''),
          sr_error_message = as_string (field data ''error_message''),
          sr_diagnostics = None,
          sr_extracted_value = extracted\<rparr>)"

definition finish_step :: "cockpit_snapshot \<Rightarrow> fields \<Rightarrow> cockpit_snapshot" where
  "finish_step state data =
     (let step_id = string_of (field data ''step_id'');
          without = filter (\<lambda>result. sr_step_id result \<noteq> step_id) (cs_step_results state)
      in state
           \<lparr>cs_in_flight := (if flying state step_id \<noteq> None then None else cs_in_flight state),
            cs_step_results := sort_key sr_position (without @ [finished_result state data])\<rparr>)"

text \<open>The map that closes the interval at the last index when it is open.\<close>

fun close_last :: "string \<Rightarrow> control_interval list \<Rightarrow> control_interval list" where
  "close_last ended [] = []"
| "close_last ended [interval] =
     [if ci_ended_at interval = None then interval\<lparr>ci_ended_at := Some ended\<rparr> else interval]"
| "close_last ended (interval # next # intervals) = interval # close_last ended (next # intervals)"

definition shift_control :: "cockpit_snapshot \<Rightarrow> fields \<Rightarrow> cockpit_snapshot" where
  "shift_control state data =
     (let at = string_of (field data ''at'');
          phase = cast run_control_kind_named (field data ''phase'');
          closed = close_last at (cs_intervals state)
      in state
           \<lparr>cs_predicate := (if phase = Automation then None else cs_predicate state),
            cs_intervals := closed @
              [\<lparr>ci_id = ''live-'' @ string_of (field data ''phase'') @ ''-'' @ at, ci_kind = phase,
                ci_started_at = at, ci_ended_at = None\<rparr>]\<rparr>)"

definition append_log :: "cockpit_snapshot \<Rightarrow> fields \<Rightarrow> cockpit_snapshot" where
  "append_log state data =
     (let seq = number_of (field data ''seq'')
      in if list_ex (\<lambda>line. ll_seq line = seq) (cs_logs state) then state
         else state\<lparr>cs_logs := cs_logs state @
           [\<lparr>ll_seq = seq, ll_step_id = as_string (field data ''step_id''),
             ll_level = (case as_string (field data ''level'') of
                 Some _ \<Rightarrow> cast log_level_named (field data ''level'')
               | None \<Rightarrow> Info),
             ll_text = string_of (field data ''text''), ll_at = string_of (field data ''at'')\<rparr>]\<rparr>)"

definition change_status :: "run_record \<Rightarrow> fields \<Rightarrow> run_record" where
  "change_status run data = run
     \<lparr>rr_status := cast run_status_named (field data ''status''),
      rr_failure_reason := (case as_string (field data ''failure_reason'') of
          Some _ \<Rightarrow> Some (cast failure_reason_named (field data ''failure_reason''))
        | None \<Rightarrow> rr_failure_reason run),
      rr_failure_detail := (case as_string (field data ''failure_detail'') of
          Some detail \<Rightarrow> Some detail
        | None \<Rightarrow> rr_failure_detail run),
      rr_ended_at := Some (string_of (field data ''at''))\<rparr>"

definition apply_run_event :: "cockpit_snapshot \<Rightarrow> run_event \<Rightarrow> cockpit_snapshot" where
  "apply_run_event state event =
     (let data = re_data event in
      if re_type event = ''step.started'' then
        state\<lparr>cs_in_flight := Some \<lparr>if_step_id = string_of (field data ''step_id''),
          if_position = number_of (field data ''position''), if_started_at = string_of (field data ''at'')\<rparr>\<rparr>
      else if re_type event = ''step.finished'' then finish_step state data
      else if re_type event = ''run.status'' then
        state\<lparr>cs_in_flight := None, cs_run := change_status (cs_run state) data\<rparr>
      else if re_type event = ''control'' then shift_control state data
      else if re_type event = ''log'' then append_log state data
      else if re_type event = ''predicate'' then
        state\<lparr>cs_predicate := Some \<lparr>ps_met = (field data ''met'' = Bool True),
          ps_grace_ends_at = as_string (field data ''grace_ends_at'')\<rparr>\<rparr>
      else if re_type event = ''diagnostic'' then append_diagnostic state data
      else state)"


lemmas event_defs = append_diagnostic_def finish_step_def shift_control_def append_log_def change_status_def Let_def

section \<open>The invariant of a snapshot\<close>

definition diagnostic_key :: "diagnostic_event \<Rightarrow> string \<times> string \<times> string" where
  "diagnostic_key d = (de_step_id d, de_kind d, de_at d)"

text \<open>
  Results in the order of their positions with one per Step, one log line per sequence
  number, one diagnostic per Step, kind and time, and no interval open but the last.
\<close>

definition cockpit_ok :: "cockpit_snapshot \<Rightarrow> bool" where
  "cockpit_ok state \<longleftrightarrow>
     sorted (map sr_position (cs_step_results state)) \<and>
     distinct (map sr_step_id (cs_step_results state)) \<and>
     distinct (map ll_seq (cs_logs state)) \<and>
     distinct (map diagnostic_key (cs_diagnostics state)) \<and>
     list_all (\<lambda>interval. ci_ended_at interval \<noteq> None) (butlast (cs_intervals state))"

lemma finished_result_step [simp]: "sr_step_id (finished_result state data) = string_of (field data ''step_id'')"
  by (simp add: finished_result_def Let_def)

lemma distinct_map_sort_key: "distinct (map f (sort_key k xs)) \<longleftrightarrow> distinct (map f xs)"
  by (metis mset_sort distinct_map distinct_sort set_sort)

lemma ok_finish_step: "cockpit_ok state \<Longrightarrow> cockpit_ok (finish_step state data)"
  by (auto simp: cockpit_ok_def finish_step_def Let_def distinct_map_sort_key intro: distinct_map_filter)

lemma close_last_Nil_iff [simp]: "close_last t xs = [] \<longleftrightarrow> xs = []"
  by (cases "(t, xs)" rule: close_last.cases) auto

lemma close_last_closed:
  "list_all (\<lambda>interval. ci_ended_at interval \<noteq> None) (butlast intervals) \<Longrightarrow>
   list_all (\<lambda>interval. ci_ended_at interval \<noteq> None) (close_last t intervals)"
  by (induction t intervals rule: close_last.induct) auto

lemma ok_shift_control: "cockpit_ok state \<Longrightarrow> cockpit_ok (shift_control state data)"
  by (auto simp: cockpit_ok_def shift_control_def Let_def butlast_append close_last_closed [simplified])

lemma ok_append_log: "cockpit_ok state \<Longrightarrow> cockpit_ok (append_log state data)"
  by (auto simp: cockpit_ok_def append_log_def Let_def list_ex_iff)

lemma ok_append_diagnostic: "cockpit_ok state \<Longrightarrow> cockpit_ok (append_diagnostic state data)"
  by (auto simp: cockpit_ok_def append_diagnostic_def Let_def list_ex_iff diagnostic_key_def)

lemma ok_frame: "cockpit_ok state \<Longrightarrow> cockpit_ok (state\<lparr>cs_in_flight := f, cs_run := r\<rparr>)"
  "cockpit_ok state \<Longrightarrow> cockpit_ok (state\<lparr>cs_in_flight := f\<rparr>)"
  "cockpit_ok state \<Longrightarrow> cockpit_ok (state\<lparr>cs_predicate := p\<rparr>)"
  by (simp_all add: cockpit_ok_def)

lemma ok_apply_run_event: "cockpit_ok state \<Longrightarrow> cockpit_ok (apply_run_event state event)"
  by (auto simp: apply_run_event_def Let_def
      intro: ok_finish_step ok_shift_control ok_append_log ok_append_diagnostic ok_frame)

text \<open>What no event changes: the Run's identity and inputs, its artifacts and saved logins.\<close>

definition cockpit_frame :: "cockpit_snapshot \<Rightarrow> string \<times> run_trigger \<times> fields \<times> string \<times> artifact list \<times> auth_state_candidate list" where
  "cockpit_frame state =
     (rr_id (cs_run state), rr_trigger (cs_run state), rr_variables (cs_run state), rr_queued_at (cs_run state),
      cs_artifacts state, cs_auth_state_candidates state)"

lemma frame_apply_run_event: "cockpit_frame (apply_run_event state event) = cockpit_frame state"
  by (simp add: cockpit_frame_def apply_run_event_def event_defs)

interpretation cockpit: framed_reducer apply_run_event cockpit_ok cockpit_frame
  by unfold_locales (simp_all add: ok_apply_run_event frame_apply_run_event)

section \<open>What a later event keeps\<close>

lemma logs_kept: "ll_seq ` set (cs_logs state) \<subseteq> ll_seq ` set (cs_logs (apply_run_event state event))"
  by (auto simp: apply_run_event_def event_defs)

lemma diagnostics_kept:
  "diagnostic_key ` set (cs_diagnostics state) \<subseteq> diagnostic_key ` set (cs_diagnostics (apply_run_event state event))"
  by (auto simp: apply_run_event_def event_defs)

lemma logs_kept_run: "ll_seq ` set (cs_logs state) \<subseteq> ll_seq ` set (cs_logs (foldl apply_run_event state es))"
proof (induction es arbitrary: state)
  case (Cons event es)
  show ?case using subset_trans [OF logs_kept Cons.IH] by simp
qed simp

lemma diagnostics_kept_run:
  "diagnostic_key ` set (cs_diagnostics state) \<subseteq>
   diagnostic_key ` set (cs_diagnostics (foldl apply_run_event state es))"
proof (induction es arbitrary: state)
  case (Cons event es)
  show ?case using subset_trans [OF diagnostics_kept Cons.IH] by simp
qed simp

lemma log_event:
  assumes "re_type event = ''log''"
  shows "apply_run_event state event = append_log state (re_data event)"
  using assms by (simp add: apply_run_event_def)

lemma diagnostic_event:
  assumes "re_type event = ''diagnostic''"
  shows "apply_run_event state event = append_diagnostic state (re_data event)"
  using assms by (simp add: apply_run_event_def)

lemma log_logged: "number_of (field data ''seq'') \<in> ll_seq ` set (cs_logs (append_log state data))"
  by (auto simp: append_log_def Let_def list_ex_iff intro: rev_image_eqI)

lemma log_again: "number_of (field data ''seq'') \<in> ll_seq ` set (cs_logs state) \<Longrightarrow> append_log state data = state"
  by (auto simp: append_log_def Let_def list_ex_iff)

definition key_of_data :: "fields \<Rightarrow> string \<times> string \<times> string" where
  "key_of_data data =
     (string_of (field data ''step_id''), string_of (field data ''kind''), string_of (field data ''at''))"

lemma diagnostic_noted: "key_of_data data \<in> diagnostic_key ` set (cs_diagnostics (append_diagnostic state data))"
  by (auto simp: append_diagnostic_def Let_def list_ex_iff key_of_data_def diagnostic_key_def intro: rev_image_eqI)

lemma diagnostic_again:
  "key_of_data data \<in> diagnostic_key ` set (cs_diagnostics state) \<Longrightarrow> append_diagnostic state data = state"
  by (auto simp: append_diagnostic_def Let_def list_ex_iff key_of_data_def diagnostic_key_def)

text \<open>Events between the start of a Step and its end that leave it in flight.\<close>

definition passes_over :: "string \<Rightarrow> run_event \<Rightarrow> bool" where
  "passes_over step_id event \<longleftrightarrow>
     re_type event \<noteq> ''step.started'' \<and> re_type event \<noteq> ''run.status'' \<and>
     (re_type event = ''step.finished'' \<longrightarrow> string_of (field (re_data event) ''step_id'') \<noteq> step_id)"

lemma flying_kept:
  "flying state step_id = Some flight \<Longrightarrow> passes_over step_id event \<Longrightarrow>
   flying (apply_run_event state event) step_id = Some flight"
  by (auto simp: apply_run_event_def event_defs passes_over_def flying_def split: option.splits if_splits)

lemma flying_kept_run:
  "flying state step_id = Some flight \<Longrightarrow> list_all (passes_over step_id) es \<Longrightarrow>
   flying (foldl apply_run_event state es) step_id = Some flight"
  by (induction es arbitrary: state) (auto intro: flying_kept)

lemma finish_event:
  assumes "re_type event = ''step.finished''"
  shows "apply_run_event state event = finish_step state (re_data event)"
  using assms by (simp add: apply_run_event_def)

lemma finished_in_results: "finished_result state data \<in> set (cs_step_results (finish_step state data))"
  by (simp add: finish_step_def Let_def)

section \<open>Properties\<close>

text \<open>C8. Whatever events arrive, in whatever order and with whatever fields, the snapshot keeps
  its invariant: results sorted by position with one per Step, log lines and diagnostics
  without duplicates, no open interval but the last; and no event changes the Run's
  identity, its inputs, its artifacts or the saved logins.\<close>

theorem cockpit_invariant:
  "cockpit_ok state \<Longrightarrow>
   cockpit_ok (foldl apply_run_event state events) \<and>
   cockpit_frame (foldl apply_run_event state events) = cockpit_frame state"
  by (rule cockpit.run_inv_frame)

definition sample_run :: run_record where
  "sample_run =
     \<lparr>rr_id = ''run-1'', rr_workflow_id = ''wf-1'', rr_version_number = None, rr_is_test = False,
      rr_trigger = Manual, rr_status = Running, rr_failure_reason = None, rr_failure_detail = None,
      rr_variables = [], rr_worker_id = None, rr_cancel_requested_at = None, rr_pause_requested_at = None,
      rr_takeover_deadline_at = None, rr_auto_handback_disabled = False, rr_queued_at = ''t0'',
      rr_started_at = None, rr_ended_at = None\<rparr>"

definition finished_event :: "string \<Rightarrow> string \<Rightarrow> run_event" where
  "finished_event step_id time =
     \<lparr>re_type = ''step.finished'',
      re_data = [(''step_id'', Str step_id), (''status'', Str ''passed''), (''at'', Str time)]\<rparr>"

definition started_event :: "string \<Rightarrow> int \<Rightarrow> string \<Rightarrow> run_event" where
  "started_event step_id position time =
     \<lparr>re_type = ''step.started'',
      re_data = [(''step_id'', Str step_id), (''position'', Number (Num position)), (''at'', Str time)]\<rparr>"

theorem cockpit_invariant_witness:
  "cockpit_ok (foldl apply_run_event (empty_snapshot sample_run)
     [started_event ''s1'' 3 ''t1'', finished_event ''s2'' ''t2'', finished_event ''s1'' ''t3''])"
  using cockpit_invariant [of "empty_snapshot sample_run"
      "[started_event ''s1'' 3 ''t1'', finished_event ''s2'' ''t2'', finished_event ''s1'' ''t3'']"]
  by (simp add: empty_snapshot_def cockpit_ok_def)

text \<open>A log line or a diagnostic that arrives again changes nothing, however many other events
  came in between.\<close>

theorem replay_is_ignored:
  fixes state :: cockpit_snapshot and events :: "run_event list"
  assumes "re_type event = ''log'' \<or> re_type event = ''diagnostic''"
  defines "seen \<equiv> foldl apply_run_event (apply_run_event state event) events"
  shows "apply_run_event seen event = seen"
  using assms(1)
proof
  assume log: "re_type event = ''log''"
  have "number_of (field (re_data event) ''seq'') \<in> ll_seq ` set (cs_logs seen)"
    unfolding seen_def log_event [OF log] by (rule subsetD [OF logs_kept_run log_logged])
  then show ?thesis by (simp add: log_event [OF log] log_again)
next
  assume diagnostic: "re_type event = ''diagnostic''"
  have "key_of_data (re_data event) \<in> diagnostic_key ` set (cs_diagnostics seen)"
    unfolding seen_def diagnostic_event [OF diagnostic]
    by (rule subsetD [OF diagnostics_kept_run diagnostic_noted])
  then show ?thesis by (simp add: diagnostic_event [OF diagnostic] diagnostic_again)
qed

theorem replay_is_ignored_witness:
  "length (cs_logs (foldl apply_run_event (empty_snapshot sample_run)
     [\<lparr>re_type = ''log'', re_data = [(''seq'', Number (Num 4))]\<rparr>, finished_event ''s2'' ''t2'',
      \<lparr>re_type = ''log'', re_data = [(''seq'', Number (Num 4))]\<rparr>])) = 1"
  using replay_is_ignored [of "\<lparr>re_type = ''log'', re_data = [(''seq'', Number (Num 4))]\<rparr>"
      "empty_snapshot sample_run" "[finished_event ''s2'' ''t2'']"]
  by (simp add: apply_run_event_def finished_event_def finish_step_def append_log_def empty_snapshot_def Let_def)

text \<open>The end of a Step that was announced takes its position and its start from the
  announcement, whatever passed in between.\<close>

theorem finish_of_started_step:
  assumes "list_all (passes_over step_id) events"
  shows "\<exists>result \<in> set (cs_step_results (foldl apply_run_event state
        (started_event step_id position start # events @ [finished_event step_id time]))).
      sr_step_id result = step_id \<and> sr_position result = position \<and>
      sr_started_at result = Some start \<and> sr_ended_at result = Some time"
proof -
  let ?before = "foldl apply_run_event (apply_run_event state (started_event step_id position start)) events"
  have "flying ?before step_id =
      Some \<lparr>if_step_id = step_id, if_position = position, if_started_at = start\<rparr>"
    using assms by (intro flying_kept_run)
      (simp_all add: apply_run_event_def started_event_def flying_def field_def)
  then have "sr_position (finished_result ?before (re_data (finished_event step_id time))) = position"
    "sr_started_at (finished_result ?before (re_data (finished_event step_id time))) = Some start"
    "sr_ended_at (finished_result ?before (re_data (finished_event step_id time))) = Some time"
    "sr_step_id (finished_result ?before (re_data (finished_event step_id time))) = step_id"
    by (simp_all add: finished_result_def finished_event_def field_def Let_def)
  moreover have "foldl apply_run_event state
      (started_event step_id position start # events @ [finished_event step_id time]) =
      finish_step ?before (re_data (finished_event step_id time))"
    by (simp add: finish_event finished_event_def)
  ultimately show ?thesis using finished_in_results by (intro bexI) auto
qed

theorem finish_of_started_step_witness:
  "\<exists>result \<in> set (cs_step_results (foldl apply_run_event (empty_snapshot sample_run)
      [started_event ''s1'' 3 ''t1'', finished_event ''s2'' ''t2'', finished_event ''s1'' ''t3''])).
    sr_step_id result = ''s1'' \<and> sr_position result = 3"
  using finish_of_started_step [of "''s1''" "[finished_event ''s2'' ''t2'']" "empty_snapshot sample_run" 3 "''t1''" "''t3''"]
  by (auto simp: passes_over_def finished_event_def field_def)

text \<open>The end of a Step whose start was not seen (the page was opened, or reconnected, while
  the Step ran: the stream replays nothing) lands at position 0 with a duration of zero,
  so in front of every result at a later position.\<close>

theorem finish_of_unseen_step:
  assumes "flying state step_id = None"
  shows "\<exists>result \<in> set (cs_step_results (apply_run_event state (finished_event step_id time))).
      sr_step_id result = step_id \<and> sr_position result = 0 \<and> sr_started_at result = sr_ended_at result \<and>
      (\<forall>i j. i < length (cs_step_results (apply_run_event state (finished_event step_id time))) \<longrightarrow>
         j < length (cs_step_results (apply_run_event state (finished_event step_id time))) \<longrightarrow>
         cs_step_results (apply_run_event state (finished_event step_id time)) ! i = result \<longrightarrow>
         0 < sr_position (cs_step_results (apply_run_event state (finished_event step_id time)) ! j) \<longrightarrow> i < j)"
proof -
  let ?after = "apply_run_event state (finished_event step_id time)"
  let ?result = "finished_result state (re_data (finished_event step_id time))"
  have after: "?after = finish_step state (re_data (finished_event step_id time))"
    by (simp add: finish_event finished_event_def)
  have "sr_step_id ?result = step_id" "sr_position ?result = 0" "sr_started_at ?result = sr_ended_at ?result"
    using assms by (simp_all add: finished_result_def finished_event_def field_def Let_def)
  moreover have "sorted (map sr_position (cs_step_results ?after))"
    by (simp add: after finish_step_def Let_def)
  then have "i < j" if "i < length (cs_step_results ?after)" "j < length (cs_step_results ?after)"
    "cs_step_results ?after ! i = ?result" "0 < sr_position (cs_step_results ?after ! j)" for i j
    using that \<open>sr_position ?result = 0\<close> sorted_nth_mono [of "map sr_position (cs_step_results ?after)" j i]
    by (cases "i < j") auto
  ultimately show ?thesis using finished_in_results by (auto simp: after intro!: bexI [of _ ?result])
qed

theorem finish_of_unseen_step_witness:
  "\<exists>result \<in> set (cs_step_results (apply_run_event (empty_snapshot sample_run) (finished_event ''s7'' ''t9''))).
    sr_step_id result = ''s7'' \<and> sr_position result = 0 \<and> sr_started_at result = sr_ended_at result"
  using finish_of_unseen_step [of "empty_snapshot sample_run" "''s7''" "''t9''"]
  by (auto simp: flying_def empty_snapshot_def)

text \<open>The status of the Run is what the last \<open>run.status\<close> event said, or what it was loaded
  with: no other event changes it, a \<open>control\<close> event that hands the Run to a human included.\<close>

theorem status_of_last_event:
  "rr_status (cs_run (foldl apply_run_event state events)) =
     (case filter (\<lambda>event. re_type event = ''run.status'') (rev events) of
        [] \<Rightarrow> rr_status (cs_run state)
      | event # _ \<Rightarrow> cast run_status_named (field (re_data event) ''status''))"
proof (induction events rule: rev_induct)
  case (snoc event events)
  then show ?case
    by (cases "re_type event = ''run.status''") (simp_all add: apply_run_event_def event_defs)
qed simp

end
