(* ===== verification/BatchEvents.thy ===== *)
theory BatchEvents
  imports ApiTypes
begin

text \<open>
  The page of a Batch as a reducer over its server-sent events:
  \<open>app/(shell)/batches/[id]/events.ts\<close>. Every event is checked before it is used: a status
  that is none, or a row that is not there, changes nothing. A row index that is no number
  becomes \<open>NaN\<close>, which passes both comparisons and then equals no position.
\<close>

section \<open>The code\<close>

record batch_snapshot =
  bs_batch :: batch_record
  bs_rows :: "batch_row list"
  bs_stats :: batch_stats
  bs_eta_seconds :: "int option"

record batch_event =
  be_type :: string
  be_data :: fields

definition batch_snapshot_from_detail :: "batch_detail \<Rightarrow> batch_snapshot" where
  "batch_snapshot_from_detail detail =
     \<lparr>bs_batch = bd_batch detail, bs_rows = bd_rows detail, bs_stats = bd_stats detail,
      bs_eta_seconds = bd_eta_seconds detail\<rparr>"

fun number_or_nan :: "js \<Rightarrow> jsnum" where
  "number_or_nan (Number n) = n"
| "number_or_nan _ = NaN"

fun text_of :: "js \<Rightarrow> string" where
  "text_of (Str s) = s"
| "text_of _ = []"

definition status_of :: "js \<Rightarrow> batch_row_status option" where
  "status_of v =
     (if v = Str ''queued'' then Some Row_queued
      else if v = Str ''running'' then Some Row_running
      else if v = Str ''succeeded'' then Some Row_succeeded
      else if v = Str ''failed'' then Some Row_failed
      else if v = Str ''skipped'' then Some Row_skipped
      else if v = Str ''cancelled'' then Some Row_cancelled
      else None)"

fun run_status_of :: "batch_row_status \<Rightarrow> run_status" where
  "run_status_of Row_skipped = Cancelled"
| "run_status_of Row_cancelled = Cancelled"
| "run_status_of Row_queued = Queued"
| "run_status_of Row_running = Running"
| "run_status_of Row_succeeded = Succeeded"
| "run_status_of Row_failed = Failed"

definition attempt_from :: "string \<Rightarrow> batch_row_status \<Rightarrow> string \<Rightarrow> attempt option \<Rightarrow> attempt" where
  "attempt_from rid row_status time previous =
     (let run_status = run_status_of row_status;
          terminal = (run_status = Succeeded \<or> run_status = Failed \<or> run_status = Cancelled)
      in \<lparr>at_id = rid, at_status = run_status,
          at_failure_reason = previous \<bind> at_failure_reason,
          at_queued_at = orelse (map_option at_queued_at previous) time,
          at_started_at = (case previous \<bind> at_started_at of
              Some started \<Rightarrow> Some started
            | None \<Rightarrow> if row_status = Row_queued then None else Some time),
          at_ended_at = (if terminal then Some (orelse (previous \<bind> at_ended_at) time) else None)\<rparr>)"

definition apply_row :: "batch_row \<Rightarrow> batch_row_status \<Rightarrow> string option \<Rightarrow> string \<Rightarrow> batch_row" where
  "apply_row row status run_id time =
     (case run_id of
        None \<Rightarrow> row\<lparr>br_status := status\<rparr>
      | Some rid \<Rightarrow>
          (let existing = find_index (\<lambda>attempt. at_id attempt = rid) (br_runs row);
               next_attempt = attempt_from rid status time (if existing = -1 then None else at (br_runs row) existing);
               runs = (if existing = -1 then br_runs row @ [next_attempt]
                       else map (\<lambda>(attempt_index, attempt). if int attempt_index = existing then next_attempt else attempt)
                         (enumerate 0 (br_runs row)))
           in row\<lparr>br_status := status, br_latest_run_id := Some rid, br_runs := runs\<rparr>))"

definition no_stats :: batch_stats where
  "no_stats = \<lparr>bs_queued = 0, bs_running = 0, bs_succeeded = 0, bs_failed = 0, bs_skipped = 0, bs_cancelled = 0\<rparr>"

fun count_status :: "batch_stats \<Rightarrow> batch_row_status \<Rightarrow> batch_stats" where
  "count_status stats Row_queued = stats\<lparr>bs_queued := bs_queued stats + 1\<rparr>"
| "count_status stats Row_running = stats\<lparr>bs_running := bs_running stats + 1\<rparr>"
| "count_status stats Row_succeeded = stats\<lparr>bs_succeeded := bs_succeeded stats + 1\<rparr>"
| "count_status stats Row_failed = stats\<lparr>bs_failed := bs_failed stats + 1\<rparr>"
| "count_status stats Row_skipped = stats\<lparr>bs_skipped := bs_skipped stats + 1\<rparr>"
| "count_status stats Row_cancelled = stats\<lparr>bs_cancelled := bs_cancelled stats + 1\<rparr>"

definition stats_from_rows :: "batch_row list \<Rightarrow> batch_stats" where
  "stats_from_rows rows = foldl (\<lambda>stats row. count_status stats (br_status row)) no_stats rows"

definition apply_batch_event :: "batch_snapshot \<Rightarrow> batch_event \<Rightarrow> batch_snapshot" where
  "apply_batch_event state event =
     (if be_type event \<noteq> ''batch.row'' then state
      else
        (let index = number_or_nan (field (be_data event) ''row_index'')
         in case status_of (field (be_data event) ''status'') of
              None \<Rightarrow> state
            | Some status \<Rightarrow>
                if num_less index (Num 0) \<or> num_le (Num (int (length (bs_rows state)))) index then state
                else
                  (let time = text_of (field (be_data event) ''at'');
                       run_id = as_string (field (be_data event) ''run_id'');
                       rows = map (\<lambda>(row_index, row). if num_eq (Num (int row_index)) index
                            then apply_row row status run_id time else row)
                          (enumerate 0 (bs_rows state))
                   in state\<lparr>bs_rows := rows, bs_stats := stats_from_rows rows\<rparr>)))"

definition batch_is_live :: "batch_row list \<Rightarrow> bool" where
  "batch_is_live rows \<longleftrightarrow> list_ex (\<lambda>row. br_status row = Row_queued \<or> br_status row = Row_running) rows"

section \<open>Rows\<close>

lemma map_enumerate_update:
  "map (\<lambda>(i, x). if i = k then y else x) (enumerate 0 xs) = xs[k := y]"
  by (rule nth_equalityI) (auto simp: nth_enumerate_eq nth_list_update)

lemma map_enumerate_at:
  "map (\<lambda>(i, x). if num_eq (Num (int i)) index then f x else x) (enumerate 0 xs) =
     (case index of
        NaN \<Rightarrow> xs
      | Num k \<Rightarrow> if 0 \<le> k \<and> k < int (length xs) then xs[nat k := f (xs ! nat k)] else xs)"
  by (rule nth_equalityI)
    (auto simp: nth_enumerate_eq nth_list_update split: jsnum.splits)

lemma map_enumerate_same: "map (\<lambda>(i, x). x) (enumerate 0 xs) = xs"
  by (rule nth_equalityI) (auto simp: nth_enumerate_eq)

text \<open>A row, whose attempts have distinct ids and hold its latest Run.\<close>

definition batch_row_ok :: "batch_row \<Rightarrow> bool" where
  "batch_row_ok row \<longleftrightarrow>
     distinct (map at_id (br_runs row)) \<and>
     (\<forall>rid. br_latest_run_id row = Some rid \<longrightarrow> rid \<in> at_id ` set (br_runs row))"

lemma attempt_from_id [simp]: "at_id (attempt_from rid status time previous) = rid"
  by (simp add: attempt_from_def Let_def)

lemma apply_row_known:
  assumes "find_index (\<lambda>attempt. at_id attempt = rid) (br_runs row) = int k" and "k < length (br_runs row)"
  shows "apply_row row status (Some rid) time = row\<lparr>br_status := status, br_latest_run_id := Some rid,
    br_runs := (br_runs row)[k := attempt_from rid status time (Some (br_runs row ! k))]\<rparr>"
  using assms by (simp add: apply_row_def Let_def map_enumerate_update)

lemma apply_row_fresh:
  assumes "find_index (\<lambda>attempt. at_id attempt = rid) (br_runs row) = -1"
  shows "apply_row row status (Some rid) time = row\<lparr>br_status := status, br_latest_run_id := Some rid,
    br_runs := br_runs row @ [attempt_from rid status time None]\<rparr>"
  using assms by (simp add: apply_row_def Let_def)

lemma apply_row_cases:
  obtains (unnamed) "run_id = None"
    | (fresh) rid where "run_id = Some rid" "rid \<notin> at_id ` set (br_runs row)"
        "find_index (\<lambda>attempt. at_id attempt = rid) (br_runs row) = -1"
    | (known) rid k where "run_id = Some rid" "k < length (br_runs row)" "at_id (br_runs row ! k) = rid"
        "find_index (\<lambda>attempt. at_id attempt = rid) (br_runs row) = int k"
proof (cases run_id)
  case None
  then show thesis by (rule unnamed)
next
  case (Some rid)
  show thesis
  proof (cases rule: find_index_cases [of "\<lambda>attempt. at_id attempt = rid" "br_runs row"])
    case absent
    with Some show thesis by (intro fresh [of rid]) auto
  next
    case (found k)
    with Some show thesis by (intro known [of rid k]) auto
  qed
qed

lemma apply_row_None: "apply_row row status None time = row\<lparr>br_status := status\<rparr>"
  by (simp add: apply_row_def)

lemma apply_row_status [simp]: "br_status (apply_row row status run_id time) = status"
  by (cases rule: apply_row_cases [where run_id = run_id and row = row])
    (auto simp: apply_row_None apply_row_fresh apply_row_known)

lemma apply_row_index [simp]: "br_index (apply_row row status run_id time) = br_index row"
  "br_variables (apply_row row status run_id time) = br_variables row"
  by (cases rule: apply_row_cases [where run_id = run_id and row = row],
      auto simp: apply_row_None apply_row_fresh apply_row_known)+

lemma updated_ids:
  "k < length runs \<Longrightarrow> at_id (runs ! k) = rid \<Longrightarrow>
   map at_id (runs[k := attempt_from rid status time previous]) = map at_id runs"
  by (simp add: map_update list_update_same_conv)

lemma batch_row_ok_apply_row: "batch_row_ok row \<Longrightarrow> batch_row_ok (apply_row row status run_id time)"
proof (cases rule: apply_row_cases [where run_id = run_id and row = row])
  case (known rid k)
  assume ok: "batch_row_ok row"
  have "rid \<in> at_id ` set (br_runs row)" using known(2,3) nth_mem by fastforce
  then show ?thesis
    using ok updated_ids [OF known(2,3), of status time "Some (br_runs row ! k)"]
    by (simp add: batch_row_ok_def known(1) apply_row_known [OF known(4,2)] flip: set_map)
qed (auto simp: batch_row_ok_def apply_row_None apply_row_fresh)

lemma attempt_again:
  "attempt_from rid status time (Some (attempt_from rid status time previous)) = attempt_from rid status time previous"
  by (auto simp: attempt_from_def Let_def split: option.splits)

lemma apply_row_again:
  "apply_row (apply_row row status run_id time) status run_id time = apply_row row status run_id time"
proof (cases rule: apply_row_cases [where run_id = run_id and row = row])
  case unnamed
  then show ?thesis by (simp add: apply_row_None)
next
  case (fresh rid)
  let ?row = "apply_row row status run_id time"
  have runs: "br_runs ?row = br_runs row @ [attempt_from rid status time None]"
    by (simp add: fresh(1) apply_row_fresh [OF fresh(3)])
  have "find_index (\<lambda>attempt. at_id attempt = rid) (br_runs ?row) = int (length (br_runs row))"
  proof (cases rule: find_index_cases [where p = "\<lambda>attempt. at_id attempt = rid" and xs = "br_runs ?row"])
    case absent
    from absent(2) [of "attempt_from rid status time None"] have False by (simp add: runs)
    then show ?thesis ..
  next
    case (found k)
    then show ?thesis using fresh(2) by (auto simp: runs nth_append split: if_splits)
  qed
  from apply_row_known [OF this, of status time] show ?thesis
    by (simp add: fresh(1) apply_row_fresh [OF fresh(3)] attempt_again nth_append)
next
  case (known rid k)
  let ?row = "apply_row row status run_id time"
  have runs: "br_runs ?row = (br_runs row)[k := attempt_from rid status time (Some (br_runs row ! k))]"
    by (simp add: known(1) apply_row_known [OF known(4,2)])
  have "find_index (\<lambda>attempt. at_id attempt = rid) (br_runs ?row) = int k"
    using known(4) updated_ids [OF known(2,3), of status time "Some (br_runs row ! k)"]
      find_index_map [of "\<lambda>x. x = rid" at_id] unfolding runs by metis
  from apply_row_known [OF this, of status time] show ?thesis
    using known(2) by (simp add: known(1) apply_row_known [OF known(4,2)] attempt_again)
qed


section \<open>Snapshots\<close>

definition stats_total :: "batch_stats \<Rightarrow> nat" where
  "stats_total stats =
     bs_queued stats + bs_running stats + bs_succeeded stats + bs_failed stats + bs_skipped stats + bs_cancelled stats"

lemma count_status_total: "stats_total (count_status stats status) = stats_total stats + 1"
  by (cases status) (simp_all add: stats_total_def)

lemma count_status_fields:
  "bs_queued (count_status stats status) = bs_queued stats + (if status = Row_queued then 1 else 0)"
  "bs_running (count_status stats status) = bs_running stats + (if status = Row_running then 1 else 0)"
  "bs_succeeded (count_status stats status) = bs_succeeded stats + (if status = Row_succeeded then 1 else 0)"
  "bs_failed (count_status stats status) = bs_failed stats + (if status = Row_failed then 1 else 0)"
  "bs_skipped (count_status stats status) = bs_skipped stats + (if status = Row_skipped then 1 else 0)"
  "bs_cancelled (count_status stats status) = bs_cancelled stats + (if status = Row_cancelled then 1 else 0)"
  by (cases status; simp)+

lemma stats_fold_total: "stats_total (foldl (\<lambda>stats row. count_status stats (br_status row)) stats rows) = stats_total stats + length rows"
  by (induction rows arbitrary: stats) (auto simp: count_status_total)

lemma stats_fold_live:
  "bs_queued (foldl (\<lambda>stats row. count_status stats (br_status row)) stats rows) =
     bs_queued stats + length (filter (\<lambda>row. br_status row = Row_queued) rows)"
  "bs_running (foldl (\<lambda>stats row. count_status stats (br_status row)) stats rows) =
     bs_running stats + length (filter (\<lambda>row. br_status row = Row_running) rows)"
  by (induction rows arbitrary: stats) (auto simp: count_status_fields)

lemma stats_from_rows_total: "stats_total (stats_from_rows rows) = length rows"
  by (simp add: stats_from_rows_def stats_fold_total) (simp add: stats_total_def no_stats_def)

lemma stats_live: "bs_queued (stats_from_rows rows) + bs_running (stats_from_rows rows) = 0 \<longleftrightarrow> \<not> batch_is_live rows"
  by (auto simp: stats_from_rows_def stats_fold_live no_stats_def batch_is_live_def list_ex_iff filter_empty_conv)

definition batch_ok :: "batch_snapshot \<Rightarrow> bool" where
  "batch_ok state \<longleftrightarrow>
     bs_stats state = stats_from_rows (bs_rows state) \<and> list_all batch_row_ok (bs_rows state)"

definition batch_frame :: "batch_snapshot \<Rightarrow> batch_record \<times> int option \<times> (int \<times> fields) list" where
  "batch_frame state =
     (bs_batch state, bs_eta_seconds state, map (\<lambda>row. (br_index row, br_variables row)) (bs_rows state))"

text \<open>An event that reaches a row, and what it does.\<close>

definition reaches :: "batch_snapshot \<Rightarrow> batch_event \<Rightarrow> nat \<Rightarrow> batch_row_status \<Rightarrow> bool" where
  "reaches state event k status \<longleftrightarrow>
     be_type event = ''batch.row'' \<and> status_of (field (be_data event) ''status'') = Some status \<and>
     field (be_data event) ''row_index'' = Number (Num (int k)) \<and> k < length (bs_rows state)"

lemma number_or_nan_Num: "number_or_nan v = Num k \<longleftrightarrow> v = Number (Num k)"
  by (cases v) auto

lemma apply_batch_event_cases:
  obtains (ignored) "\<And>k status. \<not> reaches state event k status" "apply_batch_event state event = state"
    | (recounted) "\<And>k status. \<not> reaches state event k status"
        "apply_batch_event state event = state\<lparr>bs_stats := stats_from_rows (bs_rows state)\<rparr>"
    | (applied) k status where "reaches state event k status"
        "apply_batch_event state event =
          (let rows = (bs_rows state)[k := apply_row (bs_rows state ! k) status
              (as_string (field (be_data event) ''run_id'')) (text_of (field (be_data event) ''at''))]
           in state\<lparr>bs_rows := rows, bs_stats := stats_from_rows rows\<rparr>)"
proof (cases "be_type event = ''batch.row''")
  case False
  then show thesis by (intro ignored) (auto simp: reaches_def apply_batch_event_def)
next
  case row: True
  show thesis
  proof (cases "status_of (field (be_data event) ''status'')")
    case None
    then show thesis by (intro ignored) (auto simp: reaches_def apply_batch_event_def Let_def)
  next
    case (Some status)
    show thesis
    proof (cases "number_or_nan (field (be_data event) ''row_index'')")
      case NaN
      then show thesis using row Some
        by (intro recounted; cases state) (auto simp: reaches_def apply_batch_event_def Let_def map_enumerate_same)
    next
      case (Num i)
      show thesis
      proof (cases "0 \<le> i \<and> i < int (length (bs_rows state))")
        case True
        then have "i = int (nat i)" "nat i < length (bs_rows state)" by auto
        then have "reaches state event (nat i) status"
          using row Some Num by (simp add: reaches_def number_or_nan_Num)
        then show thesis using row Some Num True
          by (intro applied [of "nat i" status]) (auto simp: apply_batch_event_def Let_def
              map_enumerate_at [where index = "Num i", simplified])
      next
        case False
        then show thesis using row Some Num
          by (intro ignored) (auto simp: reaches_def apply_batch_event_def Let_def)
      qed
    qed
  qed
qed

lemma batch_ok_step: "batch_ok state \<Longrightarrow> batch_ok (apply_batch_event state event)"
  by (cases rule: apply_batch_event_cases [where state = state and event = event])
    (auto simp: batch_ok_def Let_def reaches_def list_all_length nth_list_update batch_row_ok_apply_row)

lemma batch_frame_step: "batch_frame (apply_batch_event state event) = batch_frame state"
proof (cases rule: apply_batch_event_cases [where state = state and event = event])
  case (applied k status)
  then show ?thesis
    by (simp add: batch_frame_def Let_def reaches_def map_update list_update_same_conv)
qed (auto simp: batch_frame_def)

interpretation batch: framed_reducer apply_batch_event batch_ok batch_frame
  by unfold_locales (simp_all add: batch_ok_step batch_frame_step)

lemma apply_batch_event_again:
  "apply_batch_event (apply_batch_event state event) event = apply_batch_event state event"
proof (cases rule: apply_batch_event_cases [where state = state and event = event])
  case ignored
  then show ?thesis by simp
next
  case recounted
  let ?state = "apply_batch_event state event"
  have "\<not> reaches ?state event k status" for k status using recounted by (simp add: reaches_def)
  then show ?thesis
    by (cases rule: apply_batch_event_cases [where state = ?state and event = event])
      (auto simp: recounted(2))
next
  case (applied k status)
  let ?state = "apply_batch_event state event"
  have here: "reaches ?state event k status" using applied by (simp add: reaches_def Let_def)
  show ?thesis
  proof (cases rule: apply_batch_event_cases [where state = ?state and event = event])
    case (applied k' status')
    then have "k' = k" "status' = status" using here by (auto simp: reaches_def)
    with applied \<open>reaches state event k status\<close> show ?thesis
      by (simp add: \<open>apply_batch_event state event = _\<close> Let_def reaches_def apply_row_again)
  qed (use here in auto)
qed

section \<open>Properties\<close>

text \<open>C9. The page of a Batch stays consistent under every sequence of events: the statistics
  are those of the rows and add up to their number, each row's attempts have distinct ids
  and hold its latest Run, and no event adds, drops or reorders a row or changes its inputs.\<close>

theorem batch_invariant:
  assumes "batch_ok state"
  shows "batch_ok (foldl apply_batch_event state events) \<and>
    batch_frame (foldl apply_batch_event state events) = batch_frame state \<and>
    stats_total (bs_stats (foldl apply_batch_event state events)) = length (bs_rows state)"
proof -
  have ok: "batch_ok (foldl apply_batch_event state events)"
    and frame: "batch_frame (foldl apply_batch_event state events) = batch_frame state"
    using batch.run_inv_frame [OF assms] by auto
  have "length (bs_rows (foldl apply_batch_event state events)) = length (bs_rows state)"
    using arg_cong [OF frame, of "\<lambda>(_, _, rows). length rows"] by (simp add: batch_frame_def)
  then show ?thesis using ok frame by (simp add: batch_ok_def stats_from_rows_total)
qed

definition sample_batch :: batch_snapshot where
  "sample_batch =
     \<lparr>bs_batch = \<lparr>bt_id = ''b'', bt_name = ''b'', bt_workflow_id = ''w'', bt_created_at = ''t'', bt_cancelled_at = None\<rparr>,
      bs_rows = [\<lparr>br_index = 0, br_variables = [], br_status = Row_queued, br_latest_run_id = None, br_runs = []\<rparr>,
        \<lparr>br_index = 1, br_variables = [], br_status = Row_queued, br_latest_run_id = None, br_runs = []\<rparr>],
      bs_stats = \<lparr>bs_queued = 2, bs_running = 0, bs_succeeded = 0, bs_failed = 0, bs_skipped = 0, bs_cancelled = 0\<rparr>,
      bs_eta_seconds = None\<rparr>"

definition row_event :: "int \<Rightarrow> string \<Rightarrow> string \<Rightarrow> string \<Rightarrow> batch_event" where
  "row_event index status rid time =
     \<lparr>be_type = ''batch.row'', be_data = [(''row_index'', Number (Num index)), (''status'', Str status),
       (''run_id'', Str rid), (''at'', Str time)]\<rparr>"

lemma sample_batch_ok: "batch_ok sample_batch"
  by (simp add: sample_batch_def batch_ok_def batch_row_ok_def stats_from_rows_def no_stats_def)

theorem batch_invariant_witness:
  "stats_total (bs_stats (foldl apply_batch_event sample_batch
     [row_event 1 ''running'' ''r1'' ''t1'', row_event 7 ''failed'' ''r2'' ''t2'', row_event 1 ''failed'' ''r1'' ''t3''])) = 2"
  using batch_invariant [OF sample_batch_ok, of "[row_event 1 ''running'' ''r1'' ''t1'',
      row_event 7 ''failed'' ''r2'' ''t2'', row_event 1 ''failed'' ''r1'' ''t3'']"]
  by (simp add: sample_batch_def)

text \<open>An event that arrives twice in a row has the effect of arriving once.\<close>

theorem batch_event_idempotent:
  "apply_batch_event (apply_batch_event state event) event = apply_batch_event state event"
  by (rule apply_batch_event_again)

text \<open>An event changes the row it names and no other: the row gets the status, and its attempt
  with the event's Run the status of that Run; the attempt keeps when it was queued and
  started and why it failed, and has an end exactly when its Run is over.\<close>

theorem batch_event_row:
  assumes "reaches state event k status"
  shows "(\<forall>j < length (bs_rows state). j \<noteq> k \<longrightarrow>
      bs_rows (apply_batch_event state event) ! j = bs_rows state ! j) \<and>
    br_status (bs_rows (apply_batch_event state event) ! k) = status \<and>
    (\<forall>rid. as_string (field (be_data event) ''run_id'') = Some rid \<longrightarrow>
       br_latest_run_id (bs_rows (apply_batch_event state event) ! k) = Some rid \<and>
       (\<exists>attempt \<in> set (br_runs (bs_rows (apply_batch_event state event) ! k)).
          at_id attempt = rid \<and> at_status attempt = run_status_of status \<and>
          (at_ended_at attempt \<noteq> None \<longleftrightarrow> run_status_of status \<in> {Succeeded, Failed, Cancelled}) \<and>
          (\<forall>old \<in> set (br_runs (bs_rows state ! k)). at_id old = rid \<longrightarrow> batch_row_ok (bs_rows state ! k) \<longrightarrow>
             at_queued_at attempt = at_queued_at old \<and> at_failure_reason attempt = at_failure_reason old \<and>
             (at_started_at old \<noteq> None \<longrightarrow> at_started_at attempt = at_started_at old))))"
proof -
  let ?row = "bs_rows state ! k" and ?time = "text_of (field (be_data event) ''at'')"
  let ?new = "apply_row ?row status (as_string (field (be_data event) ''run_id'')) ?time"
  have k: "k < length (bs_rows state)" using assms by (simp add: reaches_def)
  have rows: "bs_rows (apply_batch_event state event) = (bs_rows state)[k := ?new]"
  proof (cases rule: apply_batch_event_cases [where state = state and event = event])
    case (applied k' status')
    moreover have "k' = k" "status' = status" using applied(1) assms by (auto simp: reaches_def)
    ultimately show ?thesis by (simp add: Let_def)
  qed (use assms in auto)
  have attempt: "br_latest_run_id ?new = Some rid \<and> (\<exists>attempt \<in> set (br_runs ?new).
          at_id attempt = rid \<and> at_status attempt = run_status_of status \<and>
          (at_ended_at attempt \<noteq> None \<longleftrightarrow> run_status_of status \<in> {Succeeded, Failed, Cancelled}) \<and>
          (\<forall>old \<in> set (br_runs ?row). at_id old = rid \<longrightarrow> batch_row_ok ?row \<longrightarrow>
             at_queued_at attempt = at_queued_at old \<and> at_failure_reason attempt = at_failure_reason old \<and>
             (at_started_at old \<noteq> None \<longrightarrow> at_started_at attempt = at_started_at old)))"
    if "as_string (field (be_data event) ''run_id'') = Some rid" for rid
  proof (cases rule: apply_row_cases [where run_id = "Some rid" and row = ?row])
    case (fresh rid')
    then show ?thesis
      by (auto simp: that apply_row_fresh attempt_from_def Let_def)
  next
    case (known rid' n)
    let ?attempt = "attempt_from rid status ?time (Some (br_runs ?row ! n))"
    have new: "br_latest_run_id ?new = Some rid" "?attempt \<in> set (br_runs ?new)"
      using known by (simp_all add: that apply_row_known set_update_memI)
    have "old = br_runs ?row ! n" if "old \<in> set (br_runs ?row)" "at_id old = rid" "batch_row_ok ?row" for old
      using that known(1-3) distinct_mapD [of at_id "br_runs ?row" old "br_runs ?row ! n"]
      by (simp add: batch_row_ok_def)
    then show ?thesis
      using new by (intro conjI bexI [of _ ?attempt]) (auto simp: attempt_from_def Let_def split: option.splits)
  qed simp
  show ?thesis
    unfolding rows using k attempt by simp
qed

theorem batch_event_row_witness:
  "br_status (bs_rows (apply_batch_event sample_batch (row_event 1 ''skipped'' ''r1'' ''t1'')) ! 1) = Row_skipped"
  using batch_event_row [of sample_batch "row_event 1 ''skipped'' ''r1'' ''t1''" 1 Row_skipped]
  by (simp add: reaches_def row_event_def sample_batch_def status_of_def field_def)

text \<open>The stream of a Batch is listened to exactly while its statistics show a row queued or
  running.\<close>

theorem batch_is_live_iff_stats:
  assumes "batch_ok state"
  shows "batch_is_live (bs_rows (foldl apply_batch_event state events)) =
    (bs_queued (bs_stats (foldl apply_batch_event state events)) +
     bs_running (bs_stats (foldl apply_batch_event state events)) > 0)"
  using batch.run_inv [OF assms, of events]
    stats_live [of "bs_rows (foldl apply_batch_event state events)"]
  by (auto simp: batch_ok_def)

theorem batch_is_live_iff_stats_witness:
  "batch_is_live (bs_rows sample_batch)"
  using batch_is_live_iff_stats [OF sample_batch_ok, of "[]"]
  by (simp add: sample_batch_def)

end
