(* ===== verification/Durations.thy ===== *)
theory Durations
  imports ApiTypes
begin

text \<open>
  How the application writes a length of time: \<open>lib/duration.ts\<close>, \<open>lib/relative-time.ts\<close> and the
  countdown of \<open>lib/attention.ts\<close>. Times are whole milliseconds or \<open>NaN\<close>. The tenths of a
  second are exact: for each number of milliseconds below a minute the floating point
  expression \<open>Math.round(ms / 1000 * 10) / 10\<close> is the nearest tenth, halves rounded up,
  which is what the model computes. \<open>Intl.RelativeTimeFormat\<close> is a parameter.
\<close>

section \<open>The code\<close>

text \<open>\<open>String(k / 10)\<close> for a number of tenths.\<close>

definition show_tenths :: "nat \<Rightarrow> string" where
  "show_tenths k = (if k mod 10 = 0 then show_nat (k div 10) else show_nat (k div 10) @ ''.'' @ show_nat (k mod 10))"

text \<open>\<open>trimmed(ms / SECOND)\<close>.\<close>

definition trimmed :: "int \<Rightarrow> string" where
  "trimmed ms = show_tenths (nat ((ms + 50) div 100))"

fun duration :: "jsnum \<Rightarrow> string" where
  "duration NaN = ''NaN min NaN s''"
| "duration (Num ms) =
     (if ms < 1000 then show_int ms @ '' ms''
      else if ms < 60000 then trimmed ms @ '' s''
      else
        (let minutes = ms div 60000;
             seconds = trimmed (ms - minutes * 60000)
         in if seconds = ''0'' then show_int minutes @ '' min''
            else show_int minutes @ '' min '' @ seconds @ '' s''))"

datatype time_unit = Year | Month | Day | Hour | Minute | Second

definition units :: "(time_unit \<times> int) list" where
  "units =
     [(Year, 365 * 24 * 60 * 60), (Month, 30 * 24 * 60 * 60), (Day, 24 * 60 * 60), (Hour, 60 * 60),
      (Minute, 60), (Second, 1)]"

text \<open>The loop over \<open>UNITS\<close>, on the elapsed milliseconds.\<close>

fun relative_unit :: "(int \<Rightarrow> time_unit \<Rightarrow> string) \<Rightarrow> int \<Rightarrow> (time_unit \<times> int) list \<Rightarrow> string" where
  "relative_unit format ms [] = ''just now''"
| "relative_unit format ms ((u, len) # us) =
     (if 1 \<le> ms div (1000 * len) then format (- (ms div (1000 * len))) u else relative_unit format ms us)"

definition relative_time :: "(int \<Rightarrow> time_unit \<Rightarrow> string) \<Rightarrow> string \<Rightarrow> jsnum \<Rightarrow> string" where
  "relative_time format when now =
     (case num_sub now (date_parse when) of
        NaN \<Rightarrow> ''just now''
      | Num ms \<Rightarrow> if ms < 10 * 1000 then ''just now'' else relative_unit format ms units)"

definition format_deadline :: "string \<Rightarrow> jsnum \<Rightarrow> string" where
  "format_deadline deadline now =
     (let remaining = num_ceil (num_sub (date_parse deadline) now) 1000
      in if num_le remaining (Num 0) then ''the deadline has passed''
         else
           (let hours = num_floor remaining 3600;
                minutes = num_floor (num_rem remaining 3600) 60;
                seconds = num_rem remaining 60
            in join '':'' (map (\<lambda>part. pad_start 2 (CHR ''0'') (show_num part)) [hours, minutes, seconds])))"

section \<open>Reading a duration back\<close>

text \<open>The length a text written by \<open>duration\<close> stands for, in milliseconds.\<close>

definition tenths_of :: "string \<Rightarrow> nat" where
  "tenths_of s =
     (case split_on (CHR ''.'') s of
        [whole] \<Rightarrow> 10 * digits_val whole
      | [whole, tenth] \<Rightarrow> 10 * digits_val whole + digits_val tenth
      | _ \<Rightarrow> 0)"

definition duration_ms :: "string \<Rightarrow> int" where
  "duration_ms text =
     (case split_on (CHR '' '') text of
        [n, u] \<Rightarrow>
          if u = ''ms'' then int (digits_val n)
          else if u = ''s'' then 100 * int (tenths_of n)
          else 60000 * int (digits_val n)
      | [m, _, s, _] \<Rightarrow> 60000 * int (digits_val m) + 100 * int (tenths_of s)
      | _ \<Rightarrow> 0)"

lemma no_dot: "CHR ''.'' \<notin> set (show_nat n)"
  using show_nat_digits [of "CHR ''.''" n] by (auto simp: is_digit_def code_def)

lemma no_space: "CHR '' '' \<notin> set (show_nat n)"
  using show_nat_digits [of "CHR '' ''" n] by (auto simp: is_digit_def code_def)

lemma no_space_tenths: "CHR '' '' \<notin> set (show_tenths k)"
  using no_space by (auto simp: show_tenths_def)

lemma tenths_of_show: "tenths_of (show_tenths k) = k"
proof (cases "k mod 10 = 0")
  case True
  then show ?thesis by (simp add: show_tenths_def tenths_of_def split_on_plain no_dot) presburger
next
  case False
  have "split_on (CHR ''.'') (show_nat (k div 10) @ CHR ''.'' # show_nat (k mod 10)) =
      [show_nat (k div 10), show_nat (k mod 10)]"
    by (simp add: split_on_append split_on_plain no_dot)
  with False show ?thesis by (simp add: show_tenths_def tenths_of_def)
qed

lemma show_nat_eq_zero: "show_nat n = ''0'' \<longleftrightarrow> n = 0"
proof -
  have "show_nat 0 = ''0''" by code_simp
  then show ?thesis by (metis show_nat_inject)
qed

lemma show_tenths_eq_zero: "show_tenths k = ''0'' \<longleftrightarrow> k = 0"
proof
  assume "show_tenths k = ''0''"
  then have "tenths_of (show_tenths k) = tenths_of ''0''" by simp
  moreover have "tenths_of ''0'' = 0" by code_simp
  ultimately show "k = 0" by (simp add: tenths_of_show)
qed (simp add: show_tenths_def show_nat_eq_zero)

lemma duration_ms_duration:
  assumes "0 \<le> ms"
  shows "duration_ms (duration (Num ms)) = (if ms < 1000 then ms else 100 * ((ms + 50) div 100))"
proof (cases "ms < 1000")
  case True
  have "split_on (CHR '' '') (show_nat (nat ms) @ CHR '' '' # ''ms'') = [show_nat (nat ms), ''ms'']"
    by (simp add: split_on_append no_space)
  with True assms show ?thesis by (simp add: duration_ms_def show_int_def)
next
  case big: False
  show ?thesis
  proof (cases "ms < 60000")
    case True
    have "split_on (CHR '' '') (trimmed ms @ CHR '' '' # ''s'') = [trimmed ms, ''s'']"
      by (simp add: split_on_append trimmed_def no_space_tenths)
    with True big show ?thesis by (simp add: duration_ms_def trimmed_def tenths_of_show)
  next
    case False
    define m where "m = ms div 60000"
    define r where "r = ms - m * 60000"
    have r: "0 \<le> r" "r < 60000" and m: "0 \<le> m" and ms: "ms = 60000 * m + r"
      using False by (auto simp: r_def m_def minus_div_mult_eq_mod)
    have rounded: "100 * ((ms + 50) div 100) = 60000 * m + 100 * ((r + 50) div 100)"
    proof -
      have "ms + 50 = (r + 50) + (600 * m) * 100" using ms by simp
      then have "(ms + 50) div 100 = 600 * m + (r + 50) div 100"
        using div_mult_self1 [of 100 "r + 50" "600 * m"] by simp
      then show ?thesis by simp
    qed
    have "0 \<le> (r + 50) div 100" using r by simp
    then have zero: "trimmed r = ''0'' \<longleftrightarrow> (r + 50) div 100 = 0"
      by (simp add: trimmed_def show_tenths_eq_zero)
    have "split_on (CHR '' '') (show_nat (nat m) @ CHR '' '' # ''min'') = [show_nat (nat m), ''min'']"
      by (simp add: split_on_append no_space)
    moreover have "split_on (CHR '' '') (show_nat (nat m) @ CHR '' '' # ''min'' @ CHR '' '' # trimmed r @ CHR '' '' # ''s'') =
        [show_nat (nat m), ''min'', trimmed r, ''s'']"
      by (simp add: split_on_append no_space trimmed_def no_space_tenths)
    ultimately show ?thesis
      using False big m r zero
      by (simp add: rounded Let_def duration_ms_def show_int_def tenths_of_show
          flip: m_def r_def) (simp add: trimmed_def tenths_of_show)
  qed
qed

section \<open>Properties\<close>

text \<open>A duration is written to the millisecond below a second and to the nearest tenth of a
  second above it, and nothing else is lost: the text stands for that length again.\<close>

theorem duration_rounds_to_tenth:
  "0 \<le> ms \<Longrightarrow>
   duration_ms (duration (Num ms)) = (if ms < 1000 then ms else 100 * ((ms + 50) div 100))"
  by (rule duration_ms_duration)

theorem duration_rounds_to_tenth_witness:
  "duration_ms (duration (Num 92250)) = 92300 \<and> duration (Num 119960) = ''1 min 60 s''"
  using duration_rounds_to_tenth [of 92250] by (simp, code_simp)

end
