(* ===== verification/Steps.thy ===== *)
theory Steps
  imports Durations
begin

text \<open>
  The Steps of a workflow document and the edits of the editor:
  \<open>app/(shell)/workflows/[id]/editor/\<close> \<open>steps.ts\<close>, \<open>edits.ts\<close>, \<open>selectors.ts\<close>, \<open>badges.ts\<close> and
  \<open>drift.ts\<close>. An edit returns a new document; the document it started from is unchanged. The
  random id of a new Step is an argument.
\<close>

section \<open>Steps\<close>

datatype step_type =
  Navigate | Click | Type_text | Select | Download_file | Extract | Wait_step | Pause_for_takeover

fun type_of :: "step_payload \<Rightarrow> step_type" where
  "type_of (P_navigate _) = Navigate"
| "type_of (P_click _ _) = Click"
| "type_of (P_type _ _) = Type_text"
| "type_of (P_select _ _) = Select"
| "type_of (P_download _) = Download_file"
| "type_of (P_extract _) = Extract"
| "type_of (P_wait _) = Wait_step"
| "type_of (P_pause _) = Pause_for_takeover"

fun step_type_label :: "step_type \<Rightarrow> string" where
  "step_type_label Navigate = ''Go to a page''"
| "step_type_label Click = ''Click''"
| "step_type_label Type_text = ''Type''"
| "step_type_label Select = ''Choose from a list''"
| "step_type_label Download_file = ''Download a file''"
| "step_type_label Extract = ''Extract a value''"
| "step_type_label Wait_step = ''Wait''"
| "step_type_label Pause_for_takeover = ''Pause for a person''"

fun targets_of_payload :: "step_payload \<Rightarrow> target list" where
  "targets_of_payload (P_wait (Element_wait t)) = [t]"
| "targets_of_payload (P_wait (Duration_wait _)) = []"
| "targets_of_payload (P_pause p) = (case tp_success_check p of Some t \<Rightarrow> [t] | None \<Rightarrow> [])"
| "targets_of_payload (P_navigate _) = []"
| "targets_of_payload (P_click t _) = [t]"
| "targets_of_payload (P_type t _) = [t]"
| "targets_of_payload (P_select t _) = [t]"
| "targets_of_payload (P_download t) = [t]"
| "targets_of_payload (P_extract (Scalar_extract t _ _)) = [t]"
| "targets_of_payload (P_extract (List_extract t _ _)) = [t]"

definition targets_of :: "step \<Rightarrow> target list" where
  "targets_of step = targets_of_payload (st_payload step)"

definition addable_step_types :: "step_type list" where
  "addable_step_types =
     [Navigate, Click, Type_text, Select, Download_file, Extract, Wait_step, Pause_for_takeover]"

definition default_wait_ms :: int where
  "default_wait_ms = 1000"

definition empty_target :: target where
  "empty_target = \<lparr>tg_candidates = [], tg_frame = None, tg_unsupported = None\<rparr>"

fun blank_payload :: "step_type \<Rightarrow> step_payload" where
  "blank_payload Navigate = P_navigate []"
| "blank_payload Click = P_click empty_target None"
| "blank_payload Type_text = P_type empty_target []"
| "blank_payload Select = P_select empty_target []"
| "blank_payload Download_file = P_download empty_target"
| "blank_payload Extract = P_extract (Scalar_extract empty_target [] Absent)"
| "blank_payload Wait_step = P_wait (Duration_wait default_wait_ms)"
| "blank_payload Pause_for_takeover =
     P_pause \<lparr>tp_message = Absent, tp_timeout_ms = Absent, tp_success_check = None\<rparr>"

definition blank_step :: "string \<Rightarrow> step_type \<Rightarrow> step" where
  "blank_step fresh_id t =
     \<lparr>st_id = fresh_id, st_label = step_type_label t, st_optional = Some False, st_disabled = Some False,
      st_screenshot = None, st_timeout_ms = Absent, st_payload = blank_payload t\<rparr>"

datatype wait_mode = Duration_mode | Element_mode

fun wait_mode_of :: "wait_payload \<Rightarrow> wait_mode" where
  "wait_mode_of (Duration_wait _) = Duration_mode"
| "wait_mode_of (Element_wait _) = Element_mode"

definition with_wait_mode :: "step \<Rightarrow> wait_mode \<Rightarrow> step" where
  "with_wait_mode step mode =
     (case st_payload step of
        P_wait p \<Rightarrow>
          if wait_mode_of p = mode then step
          else if mode = Element_mode then step\<lparr>st_payload := P_wait (Element_wait empty_target)\<rparr>
          else step\<lparr>st_payload := P_wait (Duration_wait default_wait_ms)\<rparr>
      | _ \<Rightarrow> step)"

definition interpolated_value :: "step \<Rightarrow> string option" where
  "interpolated_value step =
     (case st_payload step of P_navigate url \<Rightarrow> Some url | P_type _ val \<Rightarrow> Some val | _ \<Rightarrow> None)"

definition with_interpolated_value :: "step \<Rightarrow> string \<Rightarrow> step" where
  "with_interpolated_value step val =
     (case st_payload step of
        P_navigate _ \<Rightarrow> step\<lparr>st_payload := P_navigate val\<rparr>
      | P_type t _ \<Rightarrow> step\<lparr>st_payload := P_type t val\<rparr>
      | _ \<Rightarrow> step)"

lemma with_interpolated_value_id [simp]: "st_id (with_interpolated_value step val) = st_id step"
  by (simp add: with_interpolated_value_def split: step_payload.split)

lemma with_interpolated_value_value [simp]:
  "interpolated_value step = Some v \<Longrightarrow> interpolated_value (with_interpolated_value step val) = Some val"
  by (auto simp: interpolated_value_def with_interpolated_value_def split: step_payload.splits)

lemma with_interpolated_value_none [simp]:
  "interpolated_value step = None \<Longrightarrow> with_interpolated_value step val = step"
  by (auto simp: interpolated_value_def with_interpolated_value_def split: step_payload.splits)

lemma with_interpolated_value_targets [simp]:
  "targets_of (with_interpolated_value step val) = targets_of step"
  by (auto simp: targets_of_def with_interpolated_value_def split: step_payload.splits)

section \<open>Edits of the list of Steps\<close>

datatype direction = Up | Down

definition steps_of :: "workflow_document \<Rightarrow> step list" where
  "steps_of document = orelse (wd_steps document) []"

text \<open>\<open>steps[at]\<close> reads \<open>undefined\<close> at \<open>-1\<close> and past the end.\<close>

definition with_step_moved :: "workflow_document \<Rightarrow> string \<Rightarrow> direction \<Rightarrow> workflow_document" where
  "with_step_moved document ident direction =
     (let steps = steps_of document;
          here = find_index (\<lambda>step. st_id step = ident) steps;
          there = (if direction = Up then here - 1 else here + 1)
      in case (at steps here, at steps there) of
           (Some moving, Some displaced) \<Rightarrow>
             document\<lparr>wd_steps := Some (steps[nat here := displaced, nat there := moving])\<rparr>
         | _ \<Rightarrow> document)"

definition with_step_deleted :: "workflow_document \<Rightarrow> string \<Rightarrow> workflow_document" where
  "with_step_deleted document ident =
     document\<lparr>wd_steps := Some (filter (\<lambda>step. st_id step \<noteq> ident) (steps_of document))\<rparr>"

definition with_step_added :: "workflow_document \<Rightarrow> step \<Rightarrow> workflow_document" where
  "with_step_added document step = document\<lparr>wd_steps := Some (steps_of document @ [step])\<rparr>"

definition with_step_replaced :: "workflow_document \<Rightarrow> step \<Rightarrow> workflow_document" where
  "with_step_replaced document step =
     document\<lparr>wd_steps := Some (map (\<lambda>existing. if st_id existing = st_id step then step else existing)
       (steps_of document))\<rparr>"

lemma steps_of_updated [simp]: "steps_of (document\<lparr>wd_steps := Some steps\<rparr>) = steps"
  by (simp add: steps_of_def)

lemma with_step_moved_at:
  assumes "find_index (\<lambda>step. st_id step = ident) (steps_of document) = int i"
    and "(if direction = Up then int i - 1 else int i + 1) = int j"
    and "i < length (steps_of document)" "j < length (steps_of document)"
  shows "with_step_moved document ident direction =
    document\<lparr>wd_steps := Some ((steps_of document)[i := steps_of document ! j, j := steps_of document ! i])\<rparr>"
  unfolding with_step_moved_def Let_def assms(1,2) using assms(3,4) by simp

text \<open>A move swaps two neighbours, or changes nothing.\<close>

lemma with_step_moved_cases:
  obtains (stays) "with_step_moved document ident direction = document"
      "(\<forall>step \<in> set (steps_of document). st_id step \<noteq> ident) \<or>
       (direction = Up \<and> steps_of document \<noteq> [] \<and> st_id (hd (steps_of document)) = ident) \<or>
       (direction = Down \<and> steps_of document \<noteq> [] \<and> st_id (last (steps_of document)) = ident)"
    | (moves) i j where "i < length (steps_of document)" "j < length (steps_of document)"
      "st_id (steps_of document ! i) = ident" "\<forall>k < i. st_id (steps_of document ! k) \<noteq> ident"
      "(direction = Up \<longrightarrow> Suc j = i) \<and> (direction = Down \<longrightarrow> j = Suc i)"
      "with_step_moved document ident direction =
        document\<lparr>wd_steps := Some ((steps_of document)[i := steps_of document ! j, j := steps_of document ! i])\<rparr>"
proof (cases rule: find_index_cases [of "\<lambda>step. st_id step = ident" "steps_of document"])
  case absent
  then show thesis by (intro stays) (auto simp: with_step_moved_def at_def)
next
  case (found k)
  let ?steps = "steps_of document"
  let ?there = "if direction = Up then int k - 1 else int k + 1"
  show thesis
  proof (cases "at ?steps ?there")
    case None
    then have "k = 0 \<and> direction = Up \<or> Suc k = length ?steps \<and> direction = Down"
      using found(2) by (cases direction) (auto simp: at_None_iff)
    then have "(direction = Up \<and> ?steps \<noteq> [] \<and> st_id (hd ?steps) = ident) \<or>
        (direction = Down \<and> ?steps \<noteq> [] \<and> st_id (last ?steps) = ident)"
    proof
      assume "Suc k = length ?steps \<and> direction = Down"
      moreover from this have "last ?steps = ?steps ! k" using last_conv_nth [of ?steps] by (metis diff_Suc_1 list.size(3) nat.simps(3))
      ultimately show ?thesis using found by auto
    qed (use found in \<open>auto simp: hd_conv_nth\<close>)
    then show thesis using None found
      by (intro stays) (auto simp: with_step_moved_def Let_def)
  next
    case (Some displaced)
    define j where "j = nat ?there"
    have j: "?there = int j" "j < length ?steps" "?steps ! j = displaced"
      using Some by (auto simp: at_Some_iff j_def)
    then have "(direction = Up \<longrightarrow> Suc j = k) \<and> (direction = Down \<longrightarrow> j = Suc k)"
      by (cases direction) auto
    moreover have "with_step_moved document ident direction =
        document\<lparr>wd_steps := Some (?steps[k := ?steps ! j, j := ?steps ! k])\<rparr>"
      using found j by (intro with_step_moved_at) auto
    ultimately show thesis using found j(2) by (intro moves [of k j]) auto
  qed
qed

lemma mset_steps_moved: "mset (steps_of (with_step_moved document ident direction)) = mset (steps_of document)"
  by (cases rule: with_step_moved_cases [of document ident direction]) (simp_all add: mset_swap_update)

lemma set_steps_moved: "set (steps_of (with_step_moved document ident direction)) = set (steps_of document)"
  by (metis mset_steps_moved set_mset_mset)

lemma moved_frame: "wd_variables (with_step_moved document ident direction) = wd_variables document"
  by (cases rule: with_step_moved_cases [of document ident direction]) simp_all

lemma distinct_ids_moved:
  "distinct (map st_id (steps_of (with_step_moved document ident direction))) \<longleftrightarrow>
   distinct (map st_id (steps_of document))"
proof -
  have "mset (map st_id (steps_of (with_step_moved document ident direction))) = mset (map st_id (steps_of document))"
    by (simp add: mset_steps_moved)
  then show ?thesis by (metis mset_eq_imp_distinct_iff)
qed

fun opposite :: "direction \<Rightarrow> direction" where
  "opposite Up = Down"
| "opposite Down = Up"

lemma swapped_back:
  "i < length xs \<Longrightarrow> j < length xs \<Longrightarrow>
   (xs[i := xs ! j, j := xs ! i])[j := xs[i := xs ! j, j := xs ! i] ! i, i := xs[i := xs ! j, j := xs ! i] ! j] = xs"
  by (rule nth_equalityI) (auto simp: nth_list_update)

lemma moved_back:
  assumes "distinct (map st_id (steps_of document))"
    and "with_step_moved document ident direction \<noteq> document"
  shows "with_step_moved (with_step_moved document ident direction) ident (opposite direction) =
    document\<lparr>wd_steps := Some (steps_of document)\<rparr>"
proof (cases rule: with_step_moved_cases [of document ident direction])
  case (moves i j)
  let ?steps = "steps_of document"
  let ?moved = "?steps[i := ?steps ! j, j := ?steps ! i]"
  have ij: "i \<noteq> j" using moves(5) by (cases direction) auto
  have distinct: "distinct (map st_id ?moved)"
    using assms(1) distinct_ids_moved [of document ident direction] moves(6) by simp
  have here: "j < length ?moved" "st_id (?moved ! j) = ident" using moves(2,3) by simp_all
  have "find_index (\<lambda>step. st_id step = ident) ?moved = int j"
  proof (cases rule: find_index_cases [of "\<lambda>step. st_id step = ident" ?moved])
    case absent
    then show ?thesis using here nth_mem by blast
  next
    case (found k)
    then have "k = j" using here distinct_map_eq_nth [OF distinct, of k j] by simp
    with found show ?thesis by simp
  qed
  moreover have "(if opposite direction = Up then int j - 1 else int j + 1) = int i"
    using moves(5) by (cases direction) auto
  ultimately have "with_step_moved (document\<lparr>wd_steps := Some ?moved\<rparr>) ident (opposite direction) =
      (document\<lparr>wd_steps := Some ?moved\<rparr>)\<lparr>wd_steps := Some (?moved[j := ?moved ! i, i := ?moved ! j])\<rparr>"
    using moves(1,2) with_step_moved_at [of ident "document\<lparr>wd_steps := Some ?moved\<rparr>" j "opposite direction" i]
    by simp
  also have "?moved[j := ?moved ! i, i := ?moved ! j] = ?steps"
    using moves(1,2) by (rule swapped_back)
  finally show ?thesis by (simp add: moves(6))
qed (use assms(2) in simp)


section \<open>How a Step finds its element\<close>

datatype tone = Neutral | Accent | Wait_tone | Human_tone | Ok_tone | Bad_tone

datatype target_health = Healthy | Fragile | Unsupported_health string

definition health_of :: "target \<Rightarrow> target_health" where
  "health_of t =
     (case tg_unsupported t of
        Some u \<Rightarrow> Unsupported_health (un_warning u)
      | None \<Rightarrow>
          if tg_candidates t = [] \<or> list_all (\<lambda>candidate. sc_kind candidate = Kind_css) (tg_candidates t)
          then Fragile else Healthy)"

fun sealed :: "target_health \<Rightarrow> bool" where
  "sealed (Unsupported_health _) = True"
| "sealed _ = False"

definition target_health_of :: "step \<Rightarrow> target_health" where
  "target_health_of step =
     (let targets = targets_of step in
      if targets = [] then Healthy
      else
        (let healths = map health_of targets in
         case find sealed healths of
           Some health \<Rightarrow> health
         | None \<Rightarrow> if list_ex (\<lambda>health. health = Fragile) healths then Fragile else Healthy))"

definition fragile_warning :: string where
  "fragile_warning =
     ''Only where this element sat on the page was recorded. A layout change will lose it. '' @
     ''Re-pick it to record a better way of finding it.''"

definition empty_warning :: string where
  "empty_warning = ''no selectors: pick an element''"

definition drift_warning :: string where
  "drift_warning =
     ''Recent Runs found this element through a lower-ranked selector. Re-pick or edit the candidates.''"

record step_badge =
  sb_key :: string
  sb_label :: string
  sb_tone :: tone
  sb_title :: string

definition health_badges :: "step \<Rightarrow> step_badge list" where
  "health_badges step =
     (case target_health_of step of
        Unsupported_health warning \<Rightarrow>
          [\<lparr>sb_key = ''unsupported'', sb_label = ''unsupported'', sb_tone = Bad_tone, sb_title = warning\<rparr>]
      | Fragile \<Rightarrow>
          if list_ex (\<lambda>t. tg_candidates t = []) (targets_of step)
          then [\<lparr>sb_key = ''fragile'', sb_label = ''no selectors'', sb_tone = Wait_tone, sb_title = empty_warning\<rparr>]
          else [\<lparr>sb_key = ''fragile'', sb_label = ''fragile'', sb_tone = Wait_tone, sb_title = fragile_warning\<rparr>]
      | Healthy \<Rightarrow> [])"

definition step_badges :: "step \<Rightarrow> int \<Rightarrow> bool \<Rightarrow> step_badge list" where
  "step_badges step workflow_default_ms drifted =
     (if st_optional step = Some True
      then [\<lparr>sb_key = ''optional'', sb_label = ''optional'', sb_tone = Neutral,
        sb_title = ''If the element never appears, the Run skips this Step instead of failing.''\<rparr>] else []) @
     (if st_disabled step = Some True
      then [\<lparr>sb_key = ''off'', sb_label = ''off'', sb_tone = Neutral,
        sb_title = ''Stays in the Workflow and does not run.''\<rparr>] else []) @
     (case st_timeout_ms step of
        Given ms \<Rightarrow>
          [\<lparr>sb_key = ''timeout'', sb_label = duration (Num ms), sb_tone = Neutral,
            sb_title = ''This Step waits '' @ duration (Num ms) @ '' rather than the workflow default of '' @
              duration (Num workflow_default_ms) @ ''.''\<rparr>]
      | _ \<Rightarrow> []) @
     health_badges step @
     (if drifted
      then [\<lparr>sb_key = ''drift'', sb_label = ''drifting'', sb_tone = Wait_tone, sb_title = drift_warning\<rparr>] else [])"

section \<open>Selectors\<close>

definition candidate_kinds :: "candidate_kind list" where
  "candidate_kinds =
     [Kind_testid, Kind_role, Kind_placeholder, Kind_label, Kind_alt, Kind_text, Kind_title, Kind_css]"

definition selector_health_copy :: "target_health \<Rightarrow> nat \<Rightarrow> string" where
  "selector_health_copy health n =
     (case health of
        Unsupported_health warning \<Rightarrow> warning
      | _ \<Rightarrow>
          if n = 0 then empty_warning
          else if health = Fragile then ''fragile: only position-based selectors''
          else show_nat n @ '' '' @ (if n = 1 then ''way'' else ''ways'') @ '' to find it, verified when recorded'')"

definition selector_health_tone :: "target_health \<Rightarrow> nat \<Rightarrow> tone" where
  "selector_health_tone health n =
     (if sealed health then Bad_tone else if health = Fragile \<or> n = 0 then Wait_tone else Ok_tone)"

definition candidate_kind_tone :: "candidate_kind \<Rightarrow> tone" where
  "candidate_kind_tone kind = (if kind = Kind_css then Wait_tone else Accent)"

text \<open>\<open>candidates.filter((_, at) => at !== index)\<close>.\<close>

definition without_index :: "'a list \<Rightarrow> int \<Rightarrow> 'a list" where
  "without_index xs index = map snd (filter (\<lambda>(k, _). int k \<noteq> index) (enumerate 0 xs))"

definition with_candidate_moved_to_top :: "selector_candidate list \<Rightarrow> int \<Rightarrow> selector_candidate list" where
  "with_candidate_moved_to_top candidates index =
     (case at candidates index of
        None \<Rightarrow> candidates
      | Some moving \<Rightarrow> if index = 0 then candidates else moving # without_index candidates index)"

definition with_candidate_removed :: "selector_candidate list \<Rightarrow> int \<Rightarrow> selector_candidate list" where
  "with_candidate_removed candidates index =
     (case at candidates index of None \<Rightarrow> candidates | Some _ \<Rightarrow> without_index candidates index)"

definition with_candidate_added :: "selector_candidate list \<Rightarrow> selector_candidate \<Rightarrow> selector_candidate list" where
  "with_candidate_added candidates candidate = candidates @ [candidate]"

definition with_candidates :: "target \<Rightarrow> selector_candidate list \<Rightarrow> target" where
  "with_candidates t candidates = t\<lparr>tg_candidates := candidates\<rparr>"

definition repick_refusal :: "bool \<Rightarrow> string option" where
  "repick_refusal unsaved =
     (if unsaved then Some ''Save or discard your editor changes before re-picking.'' else None)"

section \<open>Drift\<close>

record ranked_result =
  rk_step_id :: string
  rk_matched_candidate_rank :: "int option"

definition is_drifted :: "int option \<Rightarrow> bool" where
  "is_drifted rank = (case rank of None \<Rightarrow> False | Some r \<Rightarrow> 0 < r)"

definition drifted_step_ids :: "ranked_result list \<Rightarrow> string set" where
  "drifted_step_ids results = set (map rk_step_id (filter (\<lambda>r. is_drifted (rk_matched_candidate_rank r)) results))"

lemma without_index_eq: "k < length xs \<Longrightarrow> without_index xs (int k) = take k xs @ drop (Suc k) xs"
proof -
  have "map snd (filter (\<lambda>(j, _). int j \<noteq> int k) (enumerate n xs)) =
      (if n \<le> k \<and> k < n + length xs then take (k - n) xs @ drop (Suc (k - n)) xs else xs)" for n
    by (induction xs arbitrary: n) (auto simp: Suc_diff_le Suc_diff_Suc take_Cons' not_le Suc_le_eq le_less)
  then show "k < length xs \<Longrightarrow> ?thesis" by (simp add: without_index_def)
qed

section \<open>Properties\<close>

text \<open>Moving a Step reorders the Steps and does nothing else: the same Steps remain, it moves by
  one place or not at all, and moving it back restores the document.\<close>

theorem step_moved_permutes:
  assumes "distinct (map st_id (steps_of document))"
  shows "mset (steps_of (with_step_moved document ident direction)) = mset (steps_of document) \<and>
    wd_variables (with_step_moved document ident direction) = wd_variables document \<and>
    (with_step_moved document ident direction \<noteq> document \<longrightarrow>
       steps_of (with_step_moved (with_step_moved document ident direction) ident (opposite direction)) =
       steps_of document)"
  using moved_back [OF assms, of ident direction] by (auto simp: mset_steps_moved moved_frame)

theorem step_moved_permutes_witness:
  "map st_id (steps_of (with_step_moved
     \<lparr>wd_steps = Some [blank_step ''a'' Click, blank_step ''b'' Extract, blank_step ''c'' Navigate], wd_variables = None\<rparr>
     ''c'' Up)) = [''a'', ''c'', ''b''] \<and>
   mset (steps_of (with_step_moved
     \<lparr>wd_steps = Some [blank_step ''a'' Click, blank_step ''b'' Extract, blank_step ''c'' Navigate], wd_variables = None\<rparr>
     ''c'' Up)) = {#blank_step ''a'' Click, blank_step ''b'' Extract, blank_step ''c'' Navigate#}"
proof -
  let ?document = "\<lparr>wd_steps = Some [blank_step ''a'' Click, blank_step ''b'' Extract, blank_step ''c'' Navigate],
    wd_variables = None\<rparr>"
  have "distinct (map st_id (steps_of ?document))" by (simp add: steps_of_def blank_step_def)
  from step_moved_permutes [OF this, of "''c''" Up] show ?thesis
    by (simp add: steps_of_def) (simp add: with_step_moved_def steps_of_def find_index_def blank_step_def at_def Let_def)
qed

text \<open>Moving a candidate to the top keeps the candidates and puts it first; removing one drops
  exactly that one; an index that is not there changes nothing.\<close>

theorem candidate_edits:
  "mset (with_candidate_moved_to_top candidates index) = mset candidates \<and>
   (\<forall>moving. at candidates index = Some moving \<longrightarrow>
      hd (with_candidate_moved_to_top candidates index) = moving \<and>
      mset (with_candidate_removed candidates index) = mset candidates - {#moving#} \<and>
      with_candidate_moved_to_top candidates index = moving # with_candidate_removed candidates index) \<and>
   (at candidates index = None \<longrightarrow>
      with_candidate_moved_to_top candidates index = candidates \<and>
      with_candidate_removed candidates index = candidates)"
proof (cases "at candidates index")
  case None
  then show ?thesis by (simp add: with_candidate_moved_to_top_def with_candidate_removed_def)
next
  case (Some moving)
  then obtain k where k: "index = int k" "k < length candidates" "candidates ! k = moving"
    by (auto simp: at_Some_iff intro: that [of "nat index"])
  have removed: "with_candidate_removed candidates index = take k candidates @ drop (Suc k) candidates"
    using Some k by (simp add: with_candidate_removed_def without_index_eq)
  have split: "candidates = take k candidates @ moving # drop (Suc k) candidates"
    using k id_take_nth_drop by blast
  then have "mset candidates = add_mset moving (mset (with_candidate_removed candidates index))"
    unfolding removed by (metis mset_append mset.simps(2) union_mset_add_mset_right)
  moreover have "with_candidate_moved_to_top candidates index = moving # with_candidate_removed candidates index"
  proof (cases "k = 0")
    case True
    then show ?thesis using Some k split unfolding removed by (simp add: with_candidate_moved_to_top_def)
  next
    case False
    then show ?thesis using Some k by (simp add: with_candidate_moved_to_top_def with_candidate_removed_def)
  qed
  ultimately show ?thesis using Some by simp
qed

text \<open>A Step is marked as unsupported when its element is out of reach, and otherwise as fragile
  exactly when its element was recorded by position only (or not at all): a Step without an
  element never is.\<close>

theorem health_badge_tells:
  "(\<exists>badge \<in> set (step_badges step default_ms drifted). sb_key badge = ''unsupported'') =
     (\<exists>t \<in> set (targets_of step). tg_unsupported t \<noteq> None) \<and>
   (\<exists>badge \<in> set (step_badges step default_ms drifted). sb_key badge = ''fragile'') =
     ((\<forall>t \<in> set (targets_of step). tg_unsupported t = None) \<and>
      (\<exists>t \<in> set (targets_of step). \<forall>c \<in> set (tg_candidates t). sc_kind c = Kind_css))"
proof -
  have other: "(\<exists>badge \<in> set (step_badges step default_ms drifted). sb_key badge = key) \<longleftrightarrow>
      (\<exists>badge \<in> set (health_badges step). sb_key badge = key)"
    if "key = ''unsupported'' \<or> key = ''fragile''" for key
    using that by (auto simp: step_badges_def split: opt_field.splits if_splits)
  have seal: "sealed (health_of t) \<longleftrightarrow> tg_unsupported t \<noteq> None" for t
    by (auto simp: health_of_def split: option.splits)
  have frail: "health_of t = Fragile \<longleftrightarrow> tg_unsupported t = None \<and> (\<forall>c \<in> set (tg_candidates t). sc_kind c = Kind_css)" for t
    by (auto simp: health_of_def list_all_iff split: option.splits)
  show ?thesis
  proof (cases "find sealed (map health_of (targets_of step))")
    case None
    then have unsealed: "\<forall>t \<in> set (targets_of step). tg_unsupported t = None" by (auto simp: find_None_iff seal)
    have "target_health_of step = (if \<exists>t \<in> set (targets_of step). health_of t = Fragile then Fragile else Healthy)"
      using None by (force simp: target_health_of_def Let_def list_ex_iff)
    then show ?thesis
      using unsealed by (simp add: other health_badges_def frail)
  next
    case (Some health)
    then have "sealed health" "health \<in> set (map health_of (targets_of step))"
      using find_Some_iff_ex by metis+
    then obtain t where t: "t \<in> set (targets_of step)" "health = health_of t" by auto
    moreover from t \<open>sealed health\<close> have "tg_unsupported t \<noteq> None" using seal by simp
    moreover obtain warning where "health = Unsupported_health warning"
      using \<open>sealed health\<close> by (cases health) auto
    ultimately have t: "t \<in> set (targets_of step)" "tg_unsupported t \<noteq> None" "health = Unsupported_health warning"
      by simp_all
    then have "targets_of step \<noteq> []" by auto
    with Some t show ?thesis by (auto simp: other health_badges_def target_health_of_def Let_def)
  qed
qed

end
