(* ===== verification/References.thy ===== *)
theory References
  imports JsText
begin

text \<open>
  References to Variables inside a text: the regular expression
  \<open>/\{\{\s*([A-Za-z_][A-Za-z0-9_-]*)\s*\}\}/g\<close> of \<open>editor/variables.ts\<close>, as a scanner. The white space,
  the name and the braces of a match are disjoint sets of characters, so the expression
  never has to give back what it has read, and the scanner needs no backtracking. The
  lemmas say how a text is cut by its references and what remains of them when texts are
  put together.
\<close>

section \<open>The scanner\<close>

definition name_start :: "char \<Rightarrow> bool" where
  "name_start c \<longleftrightarrow> is_lower c \<or> is_upper c \<or> c = CHR ''_''"

definition name_char :: "char \<Rightarrow> bool" where
  "name_char c \<longleftrightarrow> name_start c \<or> is_digit c \<or> c = CHR ''-''"

text \<open>\<open>/^[A-Za-z_][A-Za-z0-9_-]*$/\<close>.\<close>

definition variable_name :: "string \<Rightarrow> bool" where
  "variable_name s \<longleftrightarrow> s \<noteq> [] \<and> name_start (hd s) \<and> list_all name_char s"

text \<open>A match at the start of a text: the name, and the text after the match.\<close>

definition reference_at :: "string \<Rightarrow> (string \<times> string) option" where
  "reference_at s =
     (if prefix ''{{'' s then
        (let s1 = strip white (drop 2 s);
             name = takeWhile name_char s1;
             s2 = strip white (dropWhile name_char s1)
         in if variable_name name \<and> prefix ''}}'' s2 then Some (name, drop 2 s2) else None)
      else None)"

text \<open>A text, cut into the matches and the characters between them.\<close>

datatype piece = Chr char | Ref string string

lemma reference_at_shorter: "reference_at s = Some (name, rest) \<Longrightarrow> length rest < length s"
proof -
  assume a: "reference_at s = Some (name, rest)"
  let ?s1 = "strip white (drop 2 s)"
  let ?s2 = "strip white (dropWhile name_char ?s1)"
  have p: "prefix ''{{'' s" and rest: "rest = drop 2 ?s2"
    using a by (auto simp: reference_at_def Let_def split: if_splits)
  have "length rest \<le> length ?s2" by (simp add: rest)
  also have "\<dots> \<le> length (dropWhile name_char ?s1)" by (rule strip_length)
  also have "\<dots> \<le> length ?s1" by (rule length_dropWhile_le)
  also have "\<dots> \<le> length (drop 2 s)" by (rule strip_length)
  also have "\<dots> < length s" using p by (auto simp: prefix_def)
  finally show ?thesis .
qed

function match_all :: "string \<Rightarrow> piece list" where
  "match_all s =
     (case reference_at s of
        Some (name, rest) \<Rightarrow> Ref (take (length s - length rest) s) name # match_all rest
      | None \<Rightarrow> (case s of [] \<Rightarrow> [] | c # t \<Rightarrow> Chr c # match_all t))"
  by pat_completeness auto
termination
  by (relation "measure length") (auto dest: reference_at_shorter)

declare match_all.simps [simp del]

text \<open>What is found, and the text itself again.\<close>

fun piece_text :: "piece \<Rightarrow> string" where
  "piece_text (Chr c) = [c]"
| "piece_text (Ref found name) = found"

fun piece_name :: "piece \<Rightarrow> string list" where
  "piece_name (Chr c) = []"
| "piece_name (Ref found name) = [name]"

definition names_in :: "string \<Rightarrow> string list" where
  "names_in s = concat (map piece_name (match_all s))"

text \<open>\<open>s.replace(REFERENCE, f)\<close>.\<close>

definition replace_references :: "(string \<Rightarrow> string \<Rightarrow> string) \<Rightarrow> string \<Rightarrow> string" where
  "replace_references f s =
     concat (map (\<lambda>p. case p of Chr c \<Rightarrow> [c] | Ref found name \<Rightarrow> f found name) (match_all s))"

text \<open>\<open>`{{${name}}}`\<close>.\<close>

definition reference_text :: "string \<Rightarrow> string" where
  "reference_text name = ''{{'' @ name @ ''}}''"

section \<open>Reading up to a brace\<close>

definition brace :: "char \<Rightarrow> bool" where
  "brace d \<longleftrightarrow> d = CHR ''{'' \<or> d = CHR ''}''"

lemma brace_simps [simp]: "brace (CHR ''{'')" "brace (CHR ''}'')"
  by (simp_all add: brace_def)

lemma white_no_brace: "brace d \<Longrightarrow> w \<in> set white \<Longrightarrow> d \<notin> set w"
  by (auto simp: white_def brace_def)

lemma prefix_stop: "d \<notin> set w \<Longrightarrow> prefix w (v @ d # x) \<longleftrightarrow> prefix w v"
proof (induction w arbitrary: v)
  case (Cons c w)
  then show ?case by (cases v) auto
qed simp

lemma lead_brace: "brace d \<Longrightarrow> lead white (v @ d # x) = lead white v"
proof -
  assume d: "brace d"
  have "find (\<lambda>w. prefix w (v @ d # x)) ws = find (\<lambda>w. prefix w v) ws" if "set ws \<subseteq> set white" for ws
    using that d by (induction ws) (auto simp: prefix_stop white_no_brace)
  then show ?thesis by (simp add: lead_def)
qed

lemma lead_le: "lead ws s \<le> length s"
  by (auto simp: lead_def find_Some_iff prefix_length_le split: option.splits)

lemma strip_brace: "brace d \<Longrightarrow> strip white (v @ d # x) = strip white v @ d # x"
proof (induction v rule: measure_induct_rule [of length])
  case (less v)
  show ?case
  proof (cases "lead white v = 0")
    case True
    then show ?thesis
      using less(2) by (subst strip.simps, subst (2) strip.simps) (simp add: lead_brace)
  next
    case False
    then have "v \<noteq> []" using lead_le [of white v] by auto
    then have shorter: "length (drop (lead white v) v) < length v" using False by simp
    moreover have "drop (lead white v) (v @ d # x) = drop (lead white v) v @ d # x"
      using lead_le [of white v] by simp
    moreover have "strip white (v @ d # x) = strip white (drop (lead white v) (v @ d # x))"
      using False less(2) by (subst strip.simps) (simp add: lead_brace)
    moreover have "strip white v = strip white (drop (lead white v) v)"
      using False \<open>v \<noteq> []\<close> by (subst strip.simps) simp
    ultimately show ?thesis using less(1) [OF shorter less(2)] by simp
  qed
qed

lemma strip_Nil [simp]: "strip ws [] = []"
  by (simp add: strip.simps [of ws "[]"])

lemma not_name_char_brace: "brace d \<Longrightarrow> \<not> name_char d"
  by (auto simp: name_char_def name_start_def is_lower_def is_upper_def is_digit_def code_def brace_def)

lemma takeWhile_brace: "brace d \<Longrightarrow> takeWhile name_char (v @ d # x) = takeWhile name_char v"
  by (induction v) (auto simp: not_name_char_brace)

lemma dropWhile_brace: "brace d \<Longrightarrow> dropWhile name_char (v @ d # x) = dropWhile name_char v @ d # x"
  by (induction v) (auto simp: not_name_char_brace)

text \<open>What stands between the braces of a match.\<close>

definition inner :: "string \<Rightarrow> string \<Rightarrow> bool" where
  "inner u name \<longleftrightarrow>
     variable_name name \<and> takeWhile name_char (strip white u) = name \<and>
     strip white (dropWhile name_char (strip white u)) = []"

lemma suffix_strip: "suffix (strip ws s) s"
proof (induction ws s rule: strip.induct)
  case (1 ws s)
  then show ?case
    by (subst strip.simps) (auto intro: suffix_order.trans suffix_drop)
qed

lemma reference_at_iff:
  "reference_at s = Some (name, rest) \<longleftrightarrow> (\<exists>u. s = ''{{'' @ u @ ''}}'' @ rest \<and> inner u name)"
proof
  assume a: "reference_at s = Some (name, rest)"
  then obtain t where s: "s = ''{{'' @ t" by (auto simp: reference_at_def Let_def prefix_def split: if_splits)
  let ?s1 = "strip white t"
  let ?s2 = "strip white (dropWhile name_char ?s1)"
  from a s have name: "variable_name name" "takeWhile name_char ?s1 = name" and s2: "?s2 = ''}}'' @ rest"
    by (auto simp: reference_at_def Let_def prefix_def split: if_splits)
  have "suffix ?s2 t"
    by (meson suffix_strip suffix_dropWhile suffix_order.trans)
  then obtain u where t: "t = u @ CHR ''}'' # CHR ''}'' # rest" by (auto simp: suffix_def s2)
  from name(2) have "takeWhile name_char (strip white u) = name"
    by (simp add: t strip_brace takeWhile_brace)
  moreover from s2 have "strip white (dropWhile name_char (strip white u)) = []"
    by (simp add: t strip_brace dropWhile_brace)
  ultimately show "\<exists>u. s = ''{{'' @ u @ ''}}'' @ rest \<and> inner u name"
    using name(1) s t by (auto simp: inner_def)
next
  assume "\<exists>u. s = ''{{'' @ u @ ''}}'' @ rest \<and> inner u name"
  then show "reference_at s = Some (name, rest)"
    by (auto simp: reference_at_def inner_def Let_def strip_brace takeWhile_brace dropWhile_brace)
qed

text \<open>A reference that starts before two braces ends before them.\<close>

lemma reference_at_brace:
  assumes "v \<noteq> []"
  shows "reference_at (v @ CHR ''{'' # CHR ''{'' # x) =
    map_option (\<lambda>(name, rest). (name, rest @ CHR ''{'' # CHR ''{'' # x)) (reference_at v)"
proof (cases "prefix ''{{'' v")
  case True
  then obtain u where v: "v = CHR ''{'' # CHR ''{'' # u" by (auto simp: prefix_def)
  let ?y = "CHR ''{'' # x"
  let ?s2 = "strip white (dropWhile name_char (strip white u))"
  have "prefix ''}}'' (?s2 @ CHR ''{'' # ?y) \<longleftrightarrow> prefix ''}}'' ?s2" by (rule prefix_stop) simp
  moreover have "drop 2 (?s2 @ CHR ''{'' # ?y) = drop 2 ?s2 @ CHR ''{'' # ?y" if "prefix ''}}'' ?s2"
    using prefix_length_le [OF that] by simp
  ultimately show ?thesis
    by (simp add: v reference_at_def Let_def strip_brace takeWhile_brace dropWhile_brace)
next
  case False
  show ?thesis
  proof (cases "v = ''{''")
    case True
    have "strip white (CHR ''{'' # x) = CHR ''{'' # x" using strip_brace [of "CHR ''{''" "[]" x] by simp
    then show ?thesis
      by (simp add: True reference_at_def Let_def variable_name_def not_name_char_brace)
  next
    case not_single: False
    then have "\<not> prefix ''{{'' (v @ CHR ''{'' # CHR ''{'' # x)"
      using False assms by (cases v; cases "tl v") auto
    with False show ?thesis by (simp add: reference_at_def)
  qed
qed

lemma reference_at_Nil [simp]: "reference_at [] = None"
  by (simp add: reference_at_def)

lemma match_all_Nil [simp]: "match_all [] = []"
  by (simp add: match_all.simps [of "[]"])

lemma match_all_Chr: "reference_at (c # t) = None \<Longrightarrow> match_all (c # t) = Chr c # match_all t"
  by (simp add: match_all.simps [of "c # t"])

lemma match_all_Ref:
  assumes "inner u name"
  shows "match_all (''{{'' @ u @ ''}}'' @ rest) = Ref (''{{'' @ u @ ''}}'') name # match_all rest"
proof -
  define found where "found = ''{{'' @ u @ ''}}''"
  have "reference_at (found @ rest) = Some (name, rest)"
    using assms reference_at_iff [of "found @ rest"] by (auto simp: found_def)
  then have "match_all (found @ rest) = Ref found name # match_all rest"
    by (subst match_all.simps) simp
  then show ?thesis by (simp add: found_def)
qed

text \<open>Induction over the pieces of a text.\<close>

lemma pieces_induct [case_names Nil Chr Ref]:
  assumes "P []"
    and "\<And>c t. reference_at (c # t) = None \<Longrightarrow> P t \<Longrightarrow> P (c # t)"
    and "\<And>u name rest. inner u name \<Longrightarrow> P rest \<Longrightarrow> P (''{{'' @ u @ ''}}'' @ rest)"
  shows "P s"
proof (induction s rule: measure_induct_rule [of length])
  case (less s)
  show ?case
  proof (cases "reference_at s")
    case None
    then show ?thesis using assms(1,2) less by (cases s) auto
  next
    case (Some found)
    obtain name rest where found: "found = (name, rest)" by (cases found)
    then obtain u where u: "s = ''{{'' @ u @ ''}}'' @ rest" "inner u name"
      using Some reference_at_iff by blast
    then show ?thesis using assms(3) less by simp
  qed
qed

lemma match_all_text: "concat (map piece_text (match_all s)) = s"
  by (induction s rule: pieces_induct) (simp_all only: match_all_Nil match_all_Chr match_all_Ref, simp_all)

text \<open>A text before two braces is scanned on its own.\<close>

lemma match_all_brace:
  "match_all (v @ CHR ''{'' # CHR ''{'' # x) = match_all v @ match_all (CHR ''{'' # CHR ''{'' # x)"
proof (induction v rule: pieces_induct)
  case (Chr c t)
  then have "reference_at (c # t @ CHR ''{'' # CHR ''{'' # x) = None"
    using reference_at_brace [of "c # t" x] by simp
  with Chr show ?case by (simp add: match_all_Chr)
next
  case (Ref u name rest)
  then show ?case
    using match_all_Ref [OF Ref(1), of "rest @ CHR ''{'' # CHR ''{'' # x"] match_all_Ref [OF Ref(1), of rest] by simp
qed simp

lemma match_all_split:
  assumes "inner u name"
  shows "match_all (v @ ''{{'' @ u @ ''}}'' @ rest) =
    match_all v @ Ref (''{{'' @ u @ ''}}'') name # match_all rest"
  using match_all_brace [of v "u @ ''}}'' @ rest"] match_all_Ref [OF assms, of rest] by simp

text \<open>A text is literal up to its first reference.\<close>

lemma first_reference:
  obtains (literal) "match_all s = map Chr s"
    | (reference) v u name rest where "s = v @ ''{{'' @ u @ ''}}'' @ rest" "inner u name" "match_all v = map Chr v"
proof (induction s arbitrary: thesis rule: pieces_induct)
  case Nil
  then show ?case by simp
next
  case (Chr c t)
  show ?case
  proof (rule Chr(2))
    assume "match_all t = map Chr t"
    then show thesis using Chr(1,3) by (simp add: match_all_Chr)
  next
    fix v u name rest
    assume t: "t = v @ ''{{'' @ u @ ''}}'' @ rest" "inner u name" "match_all v = map Chr v"
    have "reference_at (c # v) = None"
      using Chr(1) reference_at_brace [of "c # v" "u @ ''}}'' @ rest"] by (simp add: t(1))
    then have "match_all (c # v) = map Chr (c # v)" using t(3) by (simp add: match_all_Chr)
    then show thesis using Chr(4) [of "c # v" u rest name] t by simp
  qed
next
  case (Ref u name rest)
  then show ?case using Ref(4) [of "[]" u rest name] by simp
qed

section \<open>Replacing references\<close>

text \<open>A replacement that writes a reference for each reference.\<close>

definition writes :: "(string \<Rightarrow> string \<Rightarrow> string) \<Rightarrow> (string \<Rightarrow> string) \<Rightarrow> bool" where
  "writes f g \<longleftrightarrow> (\<forall>u name. inner u name \<longrightarrow>
     (\<exists>u'. f (''{{'' @ u @ ''}}'') name = ''{{'' @ u' @ ''}}'' \<and> inner u' (g name)))"

definition replace_piece :: "(string \<Rightarrow> string \<Rightarrow> string) \<Rightarrow> (string \<Rightarrow> string) \<Rightarrow> piece \<Rightarrow> piece" where
  "replace_piece f g p = (case p of Chr c \<Rightarrow> Chr c | Ref found name \<Rightarrow> Ref (f found name) (g name))"

lemma replace_references_literal: "match_all s = map Chr s \<Longrightarrow> replace_references f s = s"
  by (simp add: replace_references_def o_def)

lemma replace_references_split:
  assumes "inner u name"
  shows "replace_references f (v @ ''{{'' @ u @ ''}}'' @ rest) =
    replace_references f v @ f (''{{'' @ u @ ''}}'') name @ replace_references f rest"
  by (simp add: replace_references_def match_all_split [OF assms, simplified])

lemma match_all_replaced:
  assumes "writes f g"
  shows "match_all (replace_references f s) = map (replace_piece f g) (match_all s)"
proof (induction s rule: measure_induct_rule [of length])
  case (less s)
  show ?case
  proof (cases rule: first_reference [of s])
    case literal
    then show ?thesis by (simp add: replace_references_literal replace_piece_def o_def)
  next
    case (reference v u name rest)
    from assms reference(2) obtain u' where u': "f (''{{'' @ u @ ''}}'') name = ''{{'' @ u' @ ''}}''" "inner u' (g name)"
      unfolding writes_def by blast
    have "replace_references f s = v @ ''{{'' @ u' @ ''}}'' @ replace_references f rest"
      using reference replace_references_split [OF reference(2), of f v rest] u'(1)
      by (simp add: replace_references_literal)
    then have "match_all (replace_references f s) = map Chr v @ Ref (''{{'' @ u' @ ''}}'') (g name) # match_all (replace_references f rest)"
      using match_all_split [OF u'(2), of v "replace_references f rest"] reference(3) by simp
    also have "match_all (replace_references f rest) = map (replace_piece f g) (match_all rest)"
      using less reference(1) by simp
    also have "map Chr v @ Ref (''{{'' @ u' @ ''}}'') (g name) # map (replace_piece f g) (match_all rest) =
        map (replace_piece f g) (match_all s)"
      using match_all_split [OF reference(2), of v rest] reference(1,3) u'(1)
      by (simp add: replace_piece_def o_def)
    finally show ?thesis .
  qed
qed

lemma names_replaced: "writes f g \<Longrightarrow> names_in (replace_references f s) = map g (names_in s)"
  by (simp add: names_in_def match_all_replaced map_concat o_def)
    (rule arg_cong [where f = concat], auto simp: replace_piece_def split: piece.splits)

section \<open>Written references\<close>

lemma variable_name_inner: "variable_name name \<Longrightarrow> inner name name"
proof -
  assume name: "variable_name name"
  then obtain c t where c: "name = c # t" "name_start c" by (cases name) (auto simp: variable_name_def)
  then have "solid c"
    by (auto simp: name_start_def solid_def is_lower_def is_upper_def code_def)
  then have stripped: "strip white name = name" by (simp add: c strip_solid)
  have taken: "takeWhile name_char name = name" and dropped: "dropWhile name_char name = []"
    using name by (simp_all add: variable_name_def list_all_iff)
  show ?thesis unfolding inner_def stripped taken dropped using name by simp
qed

lemma names_in_Nil [simp]: "names_in [] = []"
  by (simp add: names_in_def)

lemma names_in_split:
  assumes "inner u name"
  shows "names_in (v @ ''{{'' @ u @ ''}}'' @ rest) = names_in v @ name # names_in rest"
  by (simp add: names_in_def match_all_split [OF assms, simplified])

lemma names_in_reference:
  assumes "variable_name name"
  shows "names_in (v @ reference_text name @ rest) = names_in v @ name # names_in rest"
  using names_in_split [OF variable_name_inner [OF assms], of v rest] by (simp add: reference_text_def)

lemma names_are_names: "name \<in> set (names_in s) \<Longrightarrow> variable_name name"
proof (induction s rule: pieces_induct)
  case (Chr c t)
  then show ?case by (simp add: names_in_def match_all_Chr)
next
  case (Ref u n rest)
  then show ?case using names_in_split [OF Ref(1), of "[]" rest] by (auto simp: inner_def)
qed simp


section \<open>Parts of a text\<close>

lemma inner_no_brace: "inner u name \<Longrightarrow> brace d \<Longrightarrow> d \<notin> set u"
  by (auto simp: inner_def strip_brace dropWhile_brace dest!: split_list)

lemma names_closed: "names_in s \<noteq> [] \<Longrightarrow> \<exists>v w. s = v @ ''}}'' @ w"
proof (induction s rule: pieces_induct)
  case (Chr c t)
  then obtain v w where "t = v @ ''}}'' @ w" by (auto simp: names_in_def match_all_Chr)
  then have "c # t = (c # v) @ ''}}'' @ w" by simp
  then show ?case by blast
next
  case (Ref u name rest)
  show ?case by (rule exI [of _ "''{{'' @ u"]) auto
qed simp

lemma count_list_take: "count_list (take n xs) x \<le> count_list xs x"
  by (induction xs arbitrary: n) (auto simp: take_Cons split: nat.splits)

text \<open>A reference that is cut off is none.\<close>

lemma names_in_cut:
  assumes "inner u name" and "n < length (''{{'' @ u @ ''}}'')"
  shows "names_in (take n (''{{'' @ u @ ''}}'')) = []"
proof (rule ccontr)
  assume "names_in (take n (''{{'' @ u @ ''}}'')) \<noteq> []"
  then obtain v w where vw: "take n (''{{'' @ u @ ''}}'') = v @ ''}}'' @ w" using names_closed by blast
  have "take n (''{{'' @ u @ ''}}'') = take n (''{{'' @ u @ ''}'')"
    using assms(2) by (simp add: take_Cons' numeral_2_eq_2)
  then have "count_list (v @ ''}}'' @ w) (CHR ''}'') \<le> count_list (''{{'' @ u @ ''}'') (CHR ''}'')"
    using count_list_take vw by metis
  moreover have "count_list u (CHR ''}'') = 0"
    using inner_no_brace [OF assms(1)] by (simp add: count_list_0_iff)
  ultimately show False by (simp add: count_list_append)
qed

lemma names_in_take: "set (names_in (take n s)) \<subseteq> set (names_in s)"
proof (induction s arbitrary: n rule: pieces_induct)
  case (Chr c t)
  show ?case
  proof (cases n)
    case (Suc m)
    have "reference_at (c # take m t) = None"
    proof (rule ccontr)
      assume "reference_at (c # take m t) \<noteq> None"
      then obtain name rest u where "c # take m t = ''{{'' @ u @ ''}}'' @ rest" "inner u name"
        using reference_at_iff by fastforce
      then have "c # t = ''{{'' @ u @ ''}}'' @ rest @ drop m t"
        by (metis append.assoc append_Cons append_take_drop_id)
      then have "reference_at (c # t) = Some (name, rest @ drop m t)"
        using \<open>inner u name\<close> reference_at_iff by blast
      with Chr(1) show False by simp
    qed
    then show ?thesis using Chr by (simp add: Suc names_in_def match_all_Chr)
  qed simp
next
  case (Ref u name rest)
  define found where "found = ''{{'' @ u @ ''}}''"
  have whole: "''{{'' @ u @ ''}}'' @ r = found @ r" for r by (simp add: found_def)
  show ?case
  proof (cases "n < length found")
    case True
    then have "take n (found @ rest) = take n found" by simp
    moreover have "names_in (take n found) = []"
      using names_in_cut [OF Ref(1), of n] True by (simp only: found_def)
    ultimately have "names_in (take n (found @ rest)) = []" by metis
    then show ?thesis unfolding whole by simp
  next
    case False
    then have "take n (found @ rest) = found @ take (n - length found) rest" by simp
    then show ?thesis
      using names_in_split [OF Ref(1), of "[]"] Ref(2) [of "n - length found"]
      unfolding whole append_Nil names_in_Nil by auto
  qed
qed simp

lemma names_in_skip:
  "(\<And>q'. suffix q' q \<Longrightarrow> q' \<noteq> [] \<Longrightarrow> \<not> prefix ''{{'' (q' @ rest)) \<Longrightarrow> names_in (q @ rest) = names_in rest"
proof (induction q)
  case (Cons c q)
  have "\<not> prefix ''{{'' (c # q @ rest)" using Cons.prems [of "c # q"] by simp
  then have "reference_at (c # q @ rest) = None" unfolding reference_at_def by (rule if_not_P)
  moreover have "names_in (q @ rest) = names_in rest"
    using Cons.prems by (intro Cons.IH) (auto simp: suffix_Cons)
  ultimately show ?case by (simp add: names_in_def match_all_Chr)
qed simp

lemma names_in_drop: "set (names_in (drop n s)) \<subseteq> set (names_in s)"
proof (induction s arbitrary: n rule: pieces_induct)
  case (Chr c t)
  then show ?case by (cases n) (auto simp: names_in_def match_all_Chr)
next
  case (Ref u name rest)
  define found where "found = ''{{'' @ u @ ''}}''"
  have whole: "''{{'' @ u @ ''}}'' @ r = found @ r" for r by (simp add: found_def)
  have names: "set (names_in rest) \<subseteq> set (names_in (found @ rest))"
    using names_in_split [OF Ref(1), of "[]" rest] unfolding append_Nil whole by auto
  show ?case
  proof (cases "n = 0 \<or> length found \<le> n")
    case True
    then show ?thesis
    proof
      assume "length found \<le> n"
      then have "drop n (found @ rest) = drop (n - length found) rest" by simp
      then show ?thesis using Ref(2) names unfolding whole by (metis subset_trans)
    qed simp
  next
    case False
    then have n: "0 < n" "n < length found" by auto
    let ?w = "u @ ''}}''"
    have w: "CHR ''{'' \<notin> set ?w" using inner_no_brace [OF Ref(1)] by simp
    have "\<not> prefix ''{{'' (q' @ rest)" if q': "suffix q' (drop n found)" "q' \<noteq> []" for q'
    proof -
      from n obtain m where "n = Suc m" by (cases n) auto
      then have "drop n found = drop m (CHR ''{'' # ?w)" by (simp add: found_def)
      then have "suffix q' (CHR ''{'' # ?w)"
        using q'(1) suffix_drop [of m "CHR ''{'' # ?w"] suffix_order.trans by metis
      then have "q' = CHR ''{'' # ?w \<or> suffix q' ?w" by (simp add: suffix_Cons)
      then show ?thesis
      proof
        assume "q' = CHR ''{'' # ?w"
        then show ?thesis using w by (cases u) auto
      next
        assume "suffix q' ?w"
        then have "hd q' \<in> set ?w" using q'(2) set_mono_suffix hd_in_set by blast
        then show ?thesis using w q'(2) by (cases q') auto
      qed
    qed
    then have "names_in (drop n found @ rest) = names_in rest" by (rule names_in_skip)
    moreover have "drop n (found @ rest) = drop n found @ rest" using n(2) by simp
    ultimately show ?thesis unfolding whole using names by simp
  qed
qed simp

end
