(* ===== verification/Variables.thy ===== *)
theory Variables
  imports Steps References
begin

text \<open>
  The Variables of a workflow document: \<open>app/(shell)/workflows/[id]/editor/\<close> \<open>variables.ts\<close> and
  \<open>summary.ts\<close>. Positions in a text (a caret, a selected span) are counted in bytes of UTF-8, not in
  UTF-16 units; inside ASCII text they are the same.
\<close>

section \<open>The code\<close>

record variable_row =
  vw_name :: string
  vw_secret :: bool
  vw_used_by :: "string list"
  vw_secret_id :: "string option"
  vw_secret_name :: "string option"

record vault_secret =
  vt_id :: string
  vt_name :: string

definition variables_of :: "workflow_document \<Rightarrow> variable list" where
  "variables_of document = orelse (wd_variables document) []"

definition references_of :: "step \<Rightarrow> string list" where
  "references_of step =
     (case interpolated_value step of None \<Rightarrow> [] | Some val \<Rightarrow> uniq (names_in val))"

definition variable_rows :: "workflow_document \<Rightarrow> variable_row list" where
  "variable_rows document =
     map (\<lambda>v. \<lparr>vw_name = va_name v, vw_secret = (va_secret v = Some True),
         vw_used_by = map st_id (filter (\<lambda>step. va_name v \<in> set (references_of step)) (steps_of document)),
         vw_secret_id = va_secret_id v, vw_secret_name = va_secret_name v\<rparr>)
       (variables_of document)"

record undeclared_row =
  uw_name :: string
  uw_used_by :: "string list"

definition undeclared_names :: "string \<Rightarrow> string list \<Rightarrow> string list" where
  "undeclared_names val declared = filter (\<lambda>name. name \<notin> set declared) (uniq (names_in val))"

definition note_use :: "string \<Rightarrow> (string \<times> string list) list \<Rightarrow> string \<Rightarrow> (string \<times> string list) list" where
  "note_use step_id found name =
     (case map_of found name of
        None \<Rightarrow> found @ [(name, [step_id])]
      | Some used_by \<Rightarrow> with_key name (used_by @ [step_id]) found)"

definition undeclared_rows :: "workflow_document \<Rightarrow> undeclared_row list" where
  "undeclared_rows document =
     (let declared = map va_name (variables_of document);
          found = foldl (\<lambda>found step. case interpolated_value step of
              None \<Rightarrow> found
            | Some val \<Rightarrow> foldl (note_use (st_id step)) found (undeclared_names val declared))
            [] (steps_of document)
      in map (\<lambda>(name, used_by). \<lparr>uw_name = name, uw_used_by = used_by\<rparr>) found)"

definition declaration_refusal :: "workflow_document \<Rightarrow> string \<Rightarrow> string option" where
  "declaration_refusal document name =
     (if \<not> variable_name name
      then Some ''A name starts with a letter or an underscore, and holds letters, digits, - and _.''
      else if list_ex (\<lambda>v. va_name v = name) (variables_of document)
      then Some (''This Workflow already declares '' @ name @ ''.'')
      else None)"

definition with_variable_declared :: "workflow_document \<Rightarrow> variable \<Rightarrow> workflow_document" where
  "with_variable_declared document v = document\<lparr>wd_variables := Some (variables_of document @ [v])\<rparr>"

definition deletion_refusal :: "workflow_document \<Rightarrow> string \<Rightarrow> string option" where
  "deletion_refusal document name =
     (let used = (case find (\<lambda>row. vw_name row = name) (variable_rows document) of
          None \<Rightarrow> [] | Some row \<Rightarrow> vw_used_by row)
      in if length used = 0 then None
         else Some ((if length used = 1 then ''1 Step still uses'' else show_nat (length used) @ '' Steps still use'') @
           '' {{'' @ name @ ''}}. Change those values first.''))"

definition with_variable_deleted :: "workflow_document \<Rightarrow> string \<Rightarrow> workflow_document" where
  "with_variable_deleted document name =
     document\<lparr>wd_variables := Some (filter (\<lambda>v. va_name v \<noteq> name) (variables_of document))\<rparr>"

definition rename_reference :: "string \<Rightarrow> string \<Rightarrow> string \<Rightarrow> string \<Rightarrow> string" where
  "rename_reference from_name to_name found name = (if name = from_name then reference_text to_name else found)"

definition rename_in_step :: "string \<Rightarrow> string \<Rightarrow> step \<Rightarrow> step" where
  "rename_in_step from_name to_name step =
     (case interpolated_value step of
        None \<Rightarrow> step
      | Some val \<Rightarrow>
          if from_name \<notin> set (references_of step) then step
          else with_interpolated_value step (replace_references (rename_reference from_name to_name) val))"

definition with_variable_renamed :: "workflow_document \<Rightarrow> string \<Rightarrow> string \<Rightarrow> workflow_document" where
  "with_variable_renamed document from_name to_name =
     document
       \<lparr>wd_variables := Some (map (\<lambda>v. if va_name v = from_name then v\<lparr>va_name := to_name\<rparr> else v) (variables_of document)),
        wd_steps := Some (map (rename_in_step from_name to_name) (steps_of document))\<rparr>"

definition with_variable_secret :: "workflow_document \<Rightarrow> string \<Rightarrow> bool \<Rightarrow> workflow_document" where
  "with_variable_secret document name secret =
     document\<lparr>wd_variables := Some (map (\<lambda>v.
         if va_name v \<noteq> name then v
         else if secret then v\<lparr>va_secret := Some True\<rparr>
         else \<lparr>va_name = va_name v, va_secret = Some False, va_secret_id = None, va_secret_name = None\<rparr>)
       (variables_of document))\<rparr>"

definition bound_secret_name :: "variable \<Rightarrow> vault_secret list \<Rightarrow> string option" where
  "bound_secret_name v vault =
     (case va_secret_id v of
        None \<Rightarrow> va_secret_name v
      | Some ident \<Rightarrow>
          (case find (\<lambda>entry. vt_id entry = ident) vault of
             Some live \<Rightarrow> Some (vt_name live)
           | None \<Rightarrow> va_secret_name v))"

definition with_secret_bound :: "workflow_document \<Rightarrow> string \<Rightarrow> vault_secret \<Rightarrow> workflow_document" where
  "with_secret_bound document name secret =
     document\<lparr>wd_variables := Some (map (\<lambda>v.
         if va_name v = name
         then v\<lparr>va_secret := Some True, va_secret_id := Some (vt_id secret), va_secret_name := Some (vt_name secret)\<rparr>
         else v) (variables_of document))\<rparr>"

definition with_reference_inserted :: "string \<Rightarrow> string \<Rightarrow> int \<Rightarrow> string" where
  "with_reference_inserted val name place =
     (let caret = nat (min (max place 0) (int (length val)))
      in take caret val @ reference_text name @ drop caret val)"

definition with_literal_made_variable ::
  "workflow_document \<Rightarrow> string \<Rightarrow> variable \<Rightarrow> nat \<Rightarrow> nat \<Rightarrow> workflow_document" where
  "with_literal_made_variable document step_id v span_from span_to =
     (let declared = with_variable_declared document v in
      declared\<lparr>wd_steps := Some (map (\<lambda>step.
          case interpolated_value step of
            None \<Rightarrow> step
          | Some val \<Rightarrow>
              if st_id step \<noteq> step_id then step
              else with_interpolated_value step (take span_from val @ reference_text (va_name v) @ drop span_to val))
        (steps_of declared))\<rparr>)"

definition secret_names :: "workflow_document \<Rightarrow> string set" where
  "secret_names document = set (map va_name (filter (\<lambda>v. va_secret v = Some True) (variables_of document)))"

section \<open>A Step as a sentence\<close>

datatype segment = Text string | Variable_segment string | Target_segment string bool

text \<open>The loop over the matches: the text read since the last match, and the segments so far.\<close>

fun interpolate_pieces :: "string \<Rightarrow> piece list \<Rightarrow> segment list" where
  "interpolate_pieces read [] = (if read \<noteq> [] then [Text read] else [])"
| "interpolate_pieces read (Chr c # ps) = interpolate_pieces (read @ [c]) ps"
| "interpolate_pieces read (Ref found name # ps) =
     (if read \<noteq> [] then [Text read] else []) @ Variable_segment name # interpolate_pieces [] ps"

definition interpolated :: "string \<Rightarrow> segment list" where
  "interpolated val = interpolate_pieces [] (match_all val)"

fun join_segments :: "segment list \<Rightarrow> segment option list \<Rightarrow> segment list" where
  "join_segments sentence [] = sentence"
| "join_segments sentence (None # parts) = join_segments sentence parts"
| "join_segments sentence (Some part # parts) =
     (if part = Text [] then join_segments sentence parts
      else
        (case (sentence, part) of
           ([], _) \<Rightarrow> join_segments [part] parts
         | (_, Text s) \<Rightarrow>
             (case last sentence of
                Text t \<Rightarrow> join_segments (butlast sentence @ [Text (t @ s)]) parts
              | _ \<Rightarrow> join_segments (sentence @ [part]) parts)
         | _ \<Rightarrow> join_segments (sentence @ [part]) parts))"

definition joined :: "segment option list \<Rightarrow> segment list" where
  "joined parts = join_segments [] parts"

definition target_token :: "target \<Rightarrow> string \<times> bool" where
  "target_token t =
     (case find (\<lambda>candidate. sc_kind candidate \<noteq> Kind_css) (tg_candidates t) of
        Some spoken \<Rightarrow> (sc_value spoken, False)
      | None \<Rightarrow>
          (case tg_candidates t of
             first # _ \<Rightarrow> (sc_value first, True)
           | [] \<Rightarrow> (''the element'', False)))"

definition element_of :: "step \<Rightarrow> segment option" where
  "element_of step =
     (case targets_of step of
        t # _ \<Rightarrow> Some (Target_segment (fst (target_token t)) (snd (target_token t)))
      | [] \<Rightarrow> None)"

definition summarize :: "step \<Rightarrow> segment list" where
  "summarize step =
     (case st_payload step of
        P_navigate url \<Rightarrow> joined (Some (Text ''Go to '') # map Some (interpolated url))
      | P_click _ _ \<Rightarrow> joined [Some (Text ''Click ''), element_of step]
      | P_type _ val \<Rightarrow>
          joined (Some (Text ''Type '') # map Some (interpolated val) @ [Some (Text '' into ''), element_of step])
      | P_select _ val \<Rightarrow> joined [Some (Text (''Choose '' @ val @ '' in '')), element_of step]
      | P_download _ \<Rightarrow> joined [Some (Text ''Download the file from ''), element_of step]
      | P_extract (Scalar_extract _ output attribute) \<Rightarrow>
          joined [Some (Text (''Extract '' @ output @ '' from '')), element_of step,
            (case attribute of
               Absent \<Rightarrow> None
             | Nulled \<Rightarrow> Some (Text '', its null attribute'')
             | Given a \<Rightarrow> Some (Text ('', its '' @ a @ '' attribute'')))]
      | P_extract (List_extract _ output _) \<Rightarrow>
          joined [Some (Text (''Extract a list of '' @ output @ '' from '')), element_of step, None]
      | P_wait (Duration_wait ms) \<Rightarrow> joined [Some (Text (''Wait '' @ duration (Num ms)))]
      | P_wait (Element_wait _) \<Rightarrow>
          joined [Some (Text ''Wait for ''), element_of step, Some (Text '' to appear'')]
      | P_pause p \<Rightarrow>
          joined [Some (Text
            (case tp_message p of
               Absent \<Rightarrow> ''Pause for a person to take over''
             | Nulled \<Rightarrow> ''Pause and ask: '' @ [CHR 0xE2, CHR 0x80, CHR 0x9C] @ ''null'' @ [CHR 0xE2, CHR 0x80, CHR 0x9D]
             | Given message \<Rightarrow>
                 if message = [] then ''Pause for a person to take over''
                 else ''Pause and ask: '' @ [CHR 0xE2, CHR 0x80, CHR 0x9C] @ message @ [CHR 0xE2, CHR 0x80, CHR 0x9D]))])"

fun segment_text :: "segment \<Rightarrow> string" where
  "segment_text (Text s) = s"
| "segment_text (Variable_segment name) = reference_text name"
| "segment_text (Target_segment s _) = s"

definition sentence_of :: "step \<Rightarrow> string" where
  "sentence_of step = concat (map segment_text (summarize step))"


section \<open>Documents and the names they leave undeclared\<close>

text \<open>
  A document whose Step ids and Variable names are distinct, and whose references are declared but
  for the names in \<open>loose\<close>. A closed document has none.
\<close>

definition document_keeps :: "string set \<Rightarrow> workflow_document \<Rightarrow> bool" where
  "document_keeps loose document \<longleftrightarrow>
     distinct (map st_id (steps_of document)) \<and>
     distinct (map va_name (variables_of document)) \<and>
     (\<forall>step \<in> set (steps_of document). set (references_of step) \<subseteq> va_name ` set (variables_of document) \<union> loose)"

definition document_closed :: "workflow_document \<Rightarrow> bool" where
  "document_closed document \<longleftrightarrow> document_keeps {} document"

lemma document_keeps_mono: "document_keeps loose document \<Longrightarrow> loose \<subseteq> loose' \<Longrightarrow> document_keeps loose' document"
  by (fastforce simp: document_keeps_def)

lemma references_of_set:
  "set (references_of step) = (case interpolated_value step of None \<Rightarrow> {} | Some val \<Rightarrow> set (names_in val))"
  by (simp add: references_of_def split: option.split)

lemma documents_updated [simp]:
  "variables_of (document\<lparr>wd_variables := Some vs\<rparr>) = vs"
  "variables_of (document\<lparr>wd_steps := s\<rparr>) = variables_of document"
  "steps_of (document\<lparr>wd_variables := v\<rparr>) = steps_of document"
  "variables_of (document\<lparr>wd_variables := Some vs, wd_steps := s\<rparr>) = vs"
  "steps_of (document\<lparr>wd_variables := v, wd_steps := Some ss\<rparr>) = ss"
  by (simp_all add: variables_of_def steps_of_def)

lemma writes_rename:
  "variable_name to_name \<Longrightarrow>
   writes (rename_reference from_name to_name) (\<lambda>name. if name = from_name then to_name else name)"
  unfolding writes_def rename_reference_def reference_text_def
  using variable_name_inner by auto

lemma rename_in_step_id [simp]: "st_id (rename_in_step from_name to_name step) = st_id step"
  by (simp add: rename_in_step_def split: option.split)

lemma rename_in_step_references:
  assumes "variable_name to_name"
  shows "set (references_of (rename_in_step from_name to_name step)) =
    (\<lambda>name. if name = from_name then to_name else name) ` set (references_of step)"
proof (cases "from_name \<in> set (references_of step)")
  case True
  then obtain val where val: "interpolated_value step = Some val"
    by (auto simp: references_of_set split: option.splits)
  show ?thesis
    using True val names_replaced [OF writes_rename [OF assms], of from_name val]
    by (simp add: rename_in_step_def references_of_set)
next
  case False
  then have "rename_in_step from_name to_name step = step"
    by (simp add: rename_in_step_def split: option.split)
  with False show ?thesis by (auto simp: image_iff)
qed

lemma blank_step_references: "set (references_of (blank_step fresh t)) = {}"
  by (cases t) (simp_all add: references_of_set interpolated_value_def blank_step_def)

lemma deletion_refusal_None:
  assumes "distinct (map va_name (variables_of document))"
  shows "deletion_refusal document name = None \<longleftrightarrow>
    name \<notin> va_name ` set (variables_of document) \<or>
    (\<forall>step \<in> set (steps_of document). name \<notin> set (references_of step))"
proof (cases "name \<in> va_name ` set (variables_of document)")
  case True
  then obtain v where v: "v \<in> set (variables_of document)" "va_name v = name" by auto
  let ?row = "\<lambda>v. \<lparr>vw_name = va_name v, vw_secret = (va_secret v = Some True),
         vw_used_by = map st_id (filter (\<lambda>step. va_name v \<in> set (references_of step)) (steps_of document)),
         vw_secret_id = va_secret_id v, vw_secret_name = va_secret_name v\<rparr>"
  have "find (\<lambda>row. vw_name row = name) (map ?row vs) = Some (?row v)"
    if "distinct (map va_name vs)" "v \<in> set vs" for vs
    using that v(2) by (induction vs) auto
  then have "find (\<lambda>row. vw_name row = name) (variable_rows document) = Some (?row v)"
    using assms v(1) by (simp add: variable_rows_def)
  with True v(2) show ?thesis by (auto simp: deletion_refusal_def Let_def filter_empty_conv)
next
  case False
  then have "find (\<lambda>row. vw_name row = name) (variable_rows document) = None"
    by (auto simp: variable_rows_def find_None_iff)
  with False show ?thesis by (simp add: deletion_refusal_def)
qed

lemma declaration_refusal_None:
  "declaration_refusal document name = None \<longleftrightarrow>
   variable_name name \<and> name \<notin> va_name ` set (variables_of document)"
  by (auto simp: declaration_refusal_def list_ex_iff)

section \<open>The edits the editor makes\<close>

text \<open>
  Each edit with the condition the editor checks before it makes it: a new Step has a new
  id, a name is declared or taken by a rename of a declared Variable only when
  \<open>declarationRefusal\<close> lets it, a name that the dialog lists as undeclared is declared as it is,
  and a Variable is deleted only when \<open>deletionRefusal\<close> does. A Step is replaced by whatever its
  form makes of it: a value that refers to an undeclared name is only warned of. The set is the
  names that such a value left undeclared when it was typed.
\<close>

inductive edit :: "workflow_document \<Rightarrow> string set \<Rightarrow> workflow_document \<Rightarrow> bool" where
  move: "edit document {} (with_step_moved document ident direction)"
| drop_step: "edit document {} (with_step_deleted document ident)"
| add: "fresh \<notin> st_id ` set (steps_of document) \<Longrightarrow> edit document {} (with_step_added document (blank_step fresh t))"
| replace: "edit document
    (set (undeclared_names (orelse (interpolated_value step) []) (map va_name (variables_of document))))
    (with_step_replaced document step)"
| declare_variable: "declaration_refusal document (va_name v) = None \<Longrightarrow> edit document {} (with_variable_declared document v)"
| declare_undeclared: "row \<in> set (undeclared_rows document) \<Longrightarrow> va_name v = uw_name row \<Longrightarrow>
    edit document {} (with_variable_declared document v)"
| drop_variable: "deletion_refusal document name = None \<Longrightarrow> edit document {} (with_variable_deleted document name)"
| rename: "from_name \<in> va_name ` set (variables_of document) \<Longrightarrow> declaration_refusal document to_name = None \<Longrightarrow>
    edit document {} (with_variable_renamed document from_name to_name)"
| keep_secret: "edit document {} (with_variable_secret document name secret)"
| bind: "edit document {} (with_secret_bound document name vault_entry)"
| make_variable: "declaration_refusal document (va_name v) = None \<Longrightarrow>
    edit document {} (with_literal_made_variable document step_id v span_from span_to)"

inductive edits :: "workflow_document \<Rightarrow> string set \<Rightarrow> workflow_document \<Rightarrow> bool" where
  none: "edits document {} document"
| more: "edits document typed document' \<Longrightarrow> edit document' typed' document'' \<Longrightarrow>
    edits document (typed \<union> typed') document''"

lemma keeps_moved:
  "document_keeps loose document \<Longrightarrow> document_keeps loose (with_step_moved document ident direction)"
  using moved_frame [of document ident direction]
  by (simp add: document_keeps_def distinct_ids_moved set_steps_moved variables_of_def)

lemma keeps_step_deleted: "document_keeps loose document \<Longrightarrow> document_keeps loose (with_step_deleted document ident)"
  by (auto simp: document_keeps_def with_step_deleted_def intro: distinct_map_filter)

lemma keeps_added:
  "document_keeps loose document \<Longrightarrow> fresh \<notin> st_id ` set (steps_of document) \<Longrightarrow>
   document_keeps loose (with_step_added document (blank_step fresh t))"
  by (auto simp: document_keeps_def with_step_added_def blank_step_references)
    (auto simp: blank_step_def)

lemma keeps_replaced:
  assumes "document_keeps loose document"
  shows "document_keeps
    (loose \<union> set (undeclared_names (orelse (interpolated_value step) []) (map va_name (variables_of document))))
    (with_step_replaced document step)" (is "document_keeps (_ \<union> ?typed) _")
proof -
  have "set (references_of step) \<subseteq> va_name ` set (variables_of document) \<union> ?typed"
    by (auto simp: references_of_set undeclared_names_def split: option.splits)
  moreover have "st_id (if st_id existing = st_id step then step else existing) = st_id existing" for existing
    by simp
  ultimately show ?thesis
    using assms by (fastforce simp: document_keeps_def with_step_replaced_def o_def)
qed

lemma keeps_declared:
  "document_keeps loose document \<Longrightarrow> va_name v \<notin> va_name ` set (variables_of document) \<Longrightarrow>
   document_keeps loose (with_variable_declared document v)"
  by (fastforce simp: document_keeps_def with_variable_declared_def)

lemma keeps_deleted:
  assumes "document_keeps loose document" and "deletion_refusal document name = None"
  shows "document_keeps loose (with_variable_deleted document name)"
proof -
  from assms have "name \<notin> va_name ` set (variables_of document) \<or>
      (\<forall>step \<in> set (steps_of document). name \<notin> set (references_of step))"
    by (simp add: deletion_refusal_None document_keeps_def)
  then show ?thesis
    using assms(1) by (fastforce simp: document_keeps_def with_variable_deleted_def intro: distinct_map_filter)
qed

lemma keeps_renamed:
  assumes "document_keeps loose document" and "declaration_refusal document to_name = None"
    and "from_name \<in> va_name ` set (variables_of document)"
  shows "document_keeps loose (with_variable_renamed document from_name to_name)"
proof -
  let ?rename = "\<lambda>name. if name = from_name then to_name else name"
  let ?vs = "variables_of document"
  have to: "variable_name to_name" "to_name \<notin> va_name ` set ?vs"
    using assms(2) by (simp_all add: declaration_refusal_None)
  have names: "map va_name (map (\<lambda>v. if va_name v = from_name then v\<lparr>va_name := to_name\<rparr> else v) vs) =
      map ?rename (map va_name vs)" for vs
    by (induction vs) auto
  have "inj_on ?rename (set (map va_name ?vs))" using to(2) by (auto simp: inj_on_def)
  then have "distinct (map ?rename (map va_name ?vs))"
    using assms(1) by (simp add: document_keeps_def distinct_map del: map_map)
  moreover have "map st_id (map (rename_in_step from_name to_name) (steps_of document)) = map st_id (steps_of document)"
    by simp
  moreover have "set (references_of (rename_in_step from_name to_name step)) \<subseteq> set (map ?rename (map va_name ?vs)) \<union> loose"
    if "step \<in> set (steps_of document)" for step
  proof -
    have "set (references_of step) \<subseteq> set (map va_name ?vs) \<union> loose"
      using assms(1) that by (simp add: document_keeps_def)
    moreover have "?rename ` loose \<subseteq> set (map ?rename (map va_name ?vs)) \<union> loose"
      using assms(3) by (auto simp: image_iff)
    ultimately show ?thesis
      unfolding rename_in_step_references [OF to(1)] set_map [of ?rename] by blast
  qed
  moreover have "distinct (map st_id (steps_of document))" using assms(1) by (simp add: document_keeps_def)
  ultimately show ?thesis
    unfolding document_keeps_def set_map [symmetric, of va_name] with_variable_renamed_def documents_updated names
    by (auto simp: o_def)
qed

lemma keeps_variables_mapped:
  assumes "document_keeps loose document" and "\<And>v. va_name (f v) = va_name v"
  shows "document_keeps loose (document\<lparr>wd_variables := Some (map f (variables_of document))\<rparr>)"
  using assms by (simp add: document_keeps_def o_def image_image)

lemma keeps_literal:
  assumes "document_keeps loose document" and "declaration_refusal document (va_name v) = None"
  shows "document_keeps loose (with_literal_made_variable document step_id v span_from span_to)"
proof -
  let ?new = "\<lambda>step. case interpolated_value step of None \<Rightarrow> step | Some val \<Rightarrow>
      if st_id step \<noteq> step_id then step
      else with_interpolated_value step (take span_from val @ reference_text (va_name v) @ drop span_to val)"
  have name: "variable_name (va_name v)" "va_name v \<notin> va_name ` set (variables_of document)"
    using assms(2) by (simp_all add: declaration_refusal_None)
  have ids: "st_id (?new step) = st_id step" for step by (simp split: option.split)
  have "set (references_of (?new step)) \<subseteq> insert (va_name v) (set (references_of step))" for step
  proof (cases "interpolated_value step")
    case (Some val)
    then show ?thesis
      using names_in_reference [OF name(1), of "take span_from val" "drop span_to val"]
        names_in_take [of span_from val] names_in_drop [of span_to val]
      by (auto simp: references_of_set)
  qed auto
  moreover have "document_keeps loose (with_variable_declared document v)" using assms(1) name(2) by (rule keeps_declared)
  ultimately show ?thesis
    by (force simp: document_keeps_def with_literal_made_variable_def with_variable_declared_def Let_def o_def ids)
qed

lemma undeclared_rows_used:
  "(\<exists>row \<in> set (undeclared_rows document). uw_name row = name \<and> step_id \<in> set (uw_used_by row)) =
      (name \<notin> va_name ` set (variables_of document) \<and>
       (\<exists>step \<in> set (steps_of document). st_id step = step_id \<and> name \<in> set (references_of step)))"
proof -
  let ?declared = "map va_name (variables_of document)"
  let ?uses = "\<lambda>found n i. \<exists>u. map_of found n = Some u \<and> i \<in> set u"
  let ?scan = "\<lambda>found step. case interpolated_value step of
              None \<Rightarrow> found
            | Some val \<Rightarrow> foldl (note_use (st_id step)) found (undeclared_names val ?declared)"
  have used: "?uses (note_use s found n) m i \<longleftrightarrow> ?uses found m i \<or> m = n \<and> i = s" for s found n m i
    by (auto simp: note_use_def map_add_def split: option.splits)
  have keys: "distinct (map fst found) \<Longrightarrow> distinct (map fst (note_use s found n))" for s found n
    by (auto simp: note_use_def distinct_with_key map_of_eq_None_iff split: option.splits)
  have used_all: "?uses (foldl (note_use s) found ns) m i \<longleftrightarrow> ?uses found m i \<or> m \<in> set ns \<and> i = s" for s found ns m i
    by (induction ns arbitrary: found) (auto simp: used)
  have notes_keys: "distinct (map fst found) \<Longrightarrow> distinct (map fst (foldl (note_use s) found ns))" for s found ns
    by (induction ns arbitrary: found) (auto simp: keys)
  have scanned: "?uses (foldl ?scan found steps) m i \<longleftrightarrow> ?uses found m i \<or>
      (m \<notin> set ?declared \<and> (\<exists>step \<in> set steps. st_id step = i \<and> m \<in> set (references_of step)))" for found steps m i
    by (induction steps arbitrary: found)
      (auto simp: used_all undeclared_names_def references_of_set split: option.split)
  have scanned_keys: "distinct (map fst found) \<Longrightarrow> distinct (map fst (foldl ?scan found steps))" for found steps
    by (induction steps arbitrary: found) (auto simp: notes_keys split: option.split)
  have "(\<exists>row \<in> set (undeclared_rows document). uw_name row = name \<and> step_id \<in> set (uw_used_by row)) \<longleftrightarrow>
      ?uses (foldl ?scan [] (steps_of document)) name step_id"
    using scanned_keys [of "[]" "steps_of document"]
    by (force simp: undeclared_rows_def Let_def map_of_eq_Some_iff)
  then show ?thesis
    by (simp add: scanned)
qed

lemma undeclared_rows_undeclared:
  assumes "row \<in> set (undeclared_rows document)"
  shows "uw_name row \<notin> va_name ` set (variables_of document)"
proof -
  let ?declared = "map va_name (variables_of document)"
  let ?scan = "\<lambda>found step. case interpolated_value step of
              None \<Rightarrow> found
            | Some val \<Rightarrow> foldl (note_use (st_id step)) found (undeclared_names val ?declared)"
  have noted: "fst ` set (note_use s found n) = insert n (fst ` set found)" for s found n
    by (auto simp: note_use_def set_with_key map_of_eq_None_iff image_iff split: option.splits
        dest!: map_of_SomeD)
  have noted_all: "fst ` set (foldl (note_use s) found ns) = set ns \<union> fst ` set found" for s found ns
    by (induction ns arbitrary: found) (auto simp: noted)
  have "fst ` set (foldl ?scan found steps) \<subseteq> fst ` set found \<union> - set ?declared" for found steps
  proof (induction steps arbitrary: found)
    case (Cons step steps)
    have "fst ` set (?scan found step) \<subseteq> fst ` set found \<union> - set ?declared"
      by (auto simp: noted_all undeclared_names_def split: option.split)
    with Cons [of "?scan found step"] show ?case by auto
  qed simp
  from this [of "[]" "steps_of document"] show ?thesis
    using assms by (force simp: undeclared_rows_def Let_def)
qed

lemma edit_keeps: "edit document typed document' \<Longrightarrow> document_keeps loose document \<Longrightarrow> document_keeps (loose \<union> typed) document'"
proof (induction rule: edit.induct)
  case (keep_secret document name secret)
  then have "document_keeps loose (with_variable_secret document name secret)"
    unfolding with_variable_secret_def by (rule keeps_variables_mapped) auto
  then show ?case by simp
next
  case (bind document name vault_entry)
  then have "document_keeps loose (with_secret_bound document name vault_entry)"
    unfolding with_secret_bound_def by (rule keeps_variables_mapped) auto
  then show ?case by simp
qed (simp_all add: keeps_moved keeps_step_deleted keeps_added keeps_replaced keeps_declared keeps_deleted
    keeps_renamed keeps_literal declaration_refusal_None undeclared_rows_undeclared)

section \<open>Properties\<close>

text \<open>C12. Whatever edits the editor makes in whatever order, Step ids and Variable names stay
  distinct, and the only references left undeclared are those that already were and the
  undeclared names somebody typed: no other edit leaves a reference dangling.\<close>

theorem edits_keep_references:
  assumes "edits document typed document'" and "document_keeps loose document"
  shows "document_keeps (loose \<union> typed) document'"
  using assms
proof (induction rule: edits.induct)
  case (more document typed document' typed' document'')
  then show ?case using edit_keeps [of document' typed' document'' "loose \<union> typed"] by (simp add: Un_assoc)
qed simp

definition sample_document :: workflow_document where
  "sample_document =
     \<lparr>wd_steps = Some [(blank_step ''s1'' Navigate)\<lparr>st_payload := P_navigate ''https://x/{{ city }}''\<rparr>],
      wd_variables = Some [\<lparr>va_name = ''city'', va_secret = None, va_secret_id = None, va_secret_name = None\<rparr>]\<rparr>"

lemma sample_document_closed: "document_keeps {} sample_document"
  by code_simp

theorem edits_keep_references_witness:
  "document_closed (with_step_moved (with_variable_renamed sample_document ''city'' ''town'') ''s1'' Up)"
proof -
  have "declaration_refusal sample_document ''town'' = None"
    and "''city'' \<in> va_name ` set (variables_of sample_document)" by code_simp+
  then have "edit sample_document {} (with_variable_renamed sample_document ''city'' ''town'')"
    by (intro edit.rename)
  from edits_keep_references [OF edits.more [OF edits.more [OF edits.none this] edit.move] sample_document_closed]
  show ?thesis
    by (simp add: document_closed_def)
qed

text \<open>Renaming a Variable renames exactly its references: each Step refers to the same
  Variables as before under their new names, and nothing else of the text changes.\<close>

theorem rename_renames_references:
  assumes "variable_name to_name"
  shows "match_all (replace_references (rename_reference from_name to_name) val) =
      map (\<lambda>piece. case piece of
          Chr c \<Rightarrow> Chr c
        | Ref found name \<Rightarrow> if name = from_name then Ref (reference_text to_name) to_name else Ref found name)
        (match_all val) \<and>
    (\<forall>step. set (references_of (rename_in_step from_name to_name step)) =
      (\<lambda>name. if name = from_name then to_name else name) ` set (references_of step))"
proof
  have "replace_piece (rename_reference from_name to_name) (\<lambda>name. if name = from_name then to_name else name) piece =
      (case piece of
          Chr c \<Rightarrow> Chr c
        | Ref found name \<Rightarrow> if name = from_name then Ref (reference_text to_name) to_name else Ref found name)"
    for piece
    by (simp add: replace_piece_def rename_reference_def split: piece.split)
  then show "match_all (replace_references (rename_reference from_name to_name) val) =
      map (\<lambda>piece. case piece of
          Chr c \<Rightarrow> Chr c
        | Ref found name \<Rightarrow> if name = from_name then Ref (reference_text to_name) to_name else Ref found name)
        (match_all val)"
    using match_all_replaced [OF writes_rename [OF assms], of from_name val] by simp
qed (simp add: rename_in_step_references [OF assms])

theorem rename_renames_references_witness:
  "match_all (replace_references (rename_reference ''a'' ''bee'') ''{{{ a }}{{b}}'') =
     [Chr (CHR ''{''), Ref ''{{bee}}'' ''bee'', Ref ''{{b}}'' ''b'']"
proof -
  have name: "variable_name ''bee''" by code_simp
  have "match_all ''{{{ a }}{{b}}'' = [Chr (CHR ''{''), Ref ''{{ a }}'' ''a'', Ref ''{{b}}'' ''b'']" by code_simp
  then show ?thesis
    using rename_renames_references [OF name, of "''a''" "''{{{ a }}{{b}}''"]
    by (simp add: reference_text_def)
qed


text \<open>The dialog of the Variables tells the truth: the undeclared names it lists are exactly
  those some Step refers to and no Variable declares, each with the Steps that use it, and
  a Variable can be deleted exactly when no Step refers to it.\<close>

theorem undeclared_rows_tell:
  assumes "distinct (map va_name (variables_of document))"
  shows "(\<exists>row \<in> set (undeclared_rows document). uw_name row = name \<and> step_id \<in> set (uw_used_by row)) =
      (name \<notin> va_name ` set (variables_of document) \<and>
       (\<exists>step \<in> set (steps_of document). st_id step = step_id \<and> name \<in> set (references_of step))) \<and>
    (name \<in> va_name ` set (variables_of document) \<longrightarrow>
       (deletion_refusal document name = None) =
       (\<forall>step \<in> set (steps_of document). name \<notin> set (references_of step)))"
  by (simp_all add: undeclared_rows_used deletion_refusal_None [OF assms])

theorem undeclared_rows_tell_witness:
  "\<exists>row \<in> set (undeclared_rows (with_variable_deleted sample_document ''city'')).
     uw_name row = ''city'' \<and> ''s1'' \<in> set (uw_used_by row)"
proof -
  have "distinct (map va_name (variables_of (with_variable_deleted sample_document ''city'')))" by code_simp
  moreover have "''city'' \<notin> va_name ` set (variables_of (with_variable_deleted sample_document ''city''))" by code_simp
  moreover have "\<exists>step \<in> set (steps_of (with_variable_deleted sample_document ''city'')).
      st_id step = ''s1'' \<and> ''city'' \<in> set (references_of step)" by code_simp
  ultimately show ?thesis
    using undeclared_rows_tell [of "with_variable_deleted sample_document ''city''" "''city''" "''s1''"] by blast
qed

lemma interpolate_pieces_text:
  "concat (map segment_text (interpolate_pieces read ps)) =
   read @ concat (map (\<lambda>p. case p of Chr c \<Rightarrow> [c] | Ref found name \<Rightarrow> reference_text name) ps)"
  by (induction read ps rule: interpolate_pieces.induct) auto

lemma join_segments_text:
  "concat (map segment_text (join_segments sentence parts)) =
   concat (map segment_text sentence) @ concat (map (\<lambda>part. case part of None \<Rightarrow> [] | Some p \<Rightarrow> segment_text p) parts)"
proof (induction sentence parts rule: join_segments.induct)
  case (3 sentence part parts)
  show ?case
  proof (cases "part = Text []")
    case True
    then show ?thesis using 3(1) by simp
  next
    case False
    show ?thesis
    proof (cases sentence rule: rev_cases)
      case Nil
      then show ?thesis using False 3(2) by simp
    next
      case (snoc init end_segment)
      then show ?thesis using False 3
        by (cases part; cases end_segment; cases init) auto
    qed
  qed
qed auto

text \<open>No two texts stand next to each other, and none is empty.\<close>

fun is_text :: "segment \<Rightarrow> bool" where
  "is_text (Text _) = True"
| "is_text _ = False"

definition tidy :: "segment list \<Rightarrow> bool" where
  "tidy segments \<longleftrightarrow> Text [] \<notin> set segments \<and> successively (\<lambda>p q. \<not> (is_text p \<and> is_text q)) segments"

lemma tidy_snoc:
  "tidy (segments @ [part]) \<longleftrightarrow>
   tidy segments \<and> part \<noteq> Text [] \<and> (segments = [] \<or> \<not> (is_text (last segments) \<and> is_text part))"
  by (auto simp: tidy_def successively_append_iff)

lemma tidy_snoc2:
  "tidy (segments @ [e, part]) \<longleftrightarrow> tidy (segments @ [e]) \<and> part \<noteq> Text [] \<and> \<not> (is_text e \<and> is_text part)"
  using tidy_snoc [of "segments @ [e]" part] by simp

lemma join_segments_snoc:
  "part \<noteq> Text [] \<Longrightarrow> join_segments (init @ [e]) (Some part # parts) =
     join_segments (if is_text e \<and> is_text part then init @ [Text (segment_text e @ segment_text part)]
       else (init @ [e]) @ [part]) parts"
  by (cases part; cases e; cases init) auto

lemma join_segments_tidy: "tidy sentence \<Longrightarrow> tidy (join_segments sentence parts)"
proof (induction parts arbitrary: sentence)
  case (Cons p parts)
  show ?case
  proof (cases "p = None \<or> p = Some (Text [])")
    case True
    then show ?thesis using Cons by auto
  next
    case False
    then obtain part where p: "p = Some part" "part \<noteq> Text []" by auto
    show ?thesis
    proof (cases sentence rule: rev_cases)
      case Nil
      then show ?thesis using p Cons.IH [of "[part]"] by (simp add: tidy_def)
    next
      case (snoc init e)
      let ?next = "if is_text e \<and> is_text part then init @ [Text (segment_text e @ segment_text part)]
        else (init @ [e]) @ [part]"
      have "is_text e \<Longrightarrow> segment_text e \<noteq> []" using Cons.prems snoc by (cases e) (auto simp: tidy_snoc)
      then have "tidy ?next" using Cons.prems p(2) unfolding snoc
        using tidy_snoc2 [of "[]"] by (auto simp: tidy_snoc tidy_snoc2)
      then show ?thesis unfolding snoc p(1) join_segments_snoc [OF p(2)] by (rule Cons.IH)
    qed
  qed
qed simp

lemma joined_text: "concat (map segment_text (joined parts)) =
    concat (map (\<lambda>part. case part of None \<Rightarrow> [] | Some p \<Rightarrow> segment_text p) parts)"
  by (simp add: joined_def join_segments_text)

lemma joined_tidy: "tidy (joined parts)"
  unfolding joined_def by (rule join_segments_tidy) (simp add: tidy_def)

lemma interpolated_text:
  "concat (map segment_text (interpolated val)) = replace_references (\<lambda>found name. reference_text name) val"
  by (simp add: interpolated_def interpolate_pieces_text replace_references_def)

text \<open>The sentence of a Step reads its value back with each reference in its plain form, its
  segments hold no empty text and no two texts in a row.\<close>

theorem sentence_reads_value:
  "tidy (summarize step) \<and>
   (\<forall>url. st_payload step = P_navigate url \<longrightarrow>
      sentence_of step = ''Go to '' @ replace_references (\<lambda>found name. reference_text name) url) \<and>
   (\<forall>t val. st_payload step = P_type t val \<longrightarrow>
      sentence_of step = ''Type '' @ replace_references (\<lambda>found name. reference_text name) val @
        '' into '' @ fst (target_token t))"
proof (intro conjI allI impI)
  show "tidy (summarize step)"
    by (auto simp: summarize_def joined_tidy split: step_payload.split extract_payload.split wait_payload.split)
  show "sentence_of step = ''Go to '' @ replace_references (\<lambda>found name. reference_text name) url"
    if "st_payload step = P_navigate url" for url
    using that by (simp add: sentence_of_def summarize_def joined_text o_def interpolated_text)
  show "sentence_of step = ''Type '' @ replace_references (\<lambda>found name. reference_text name) val @
        '' into '' @ fst (target_token t)"
    if "st_payload step = P_type t val" for t val
    using that by (simp add: sentence_of_def summarize_def joined_text o_def interpolated_text element_of_def targets_of_def)
qed

theorem sentence_reads_value_witness:
  "sentence_of ((blank_step ''s1'' Navigate)\<lparr>st_payload := P_navigate ''https://x/{{ city }}''\<rparr>) = ''Go to https://x/{{city}}''"
proof -
  have "replace_references (\<lambda>found name. reference_text name) ''https://x/{{ city }}'' = ''https://x/{{city}}''"
    by code_simp
  then show ?thesis
    using sentence_reads_value [of "(blank_step ''s1'' Navigate)\<lparr>st_payload := P_navigate ''https://x/{{ city }}''\<rparr>"]
    by simp
qed

text \<open>A field the editor has cleared holds \<open>null\<close>, which the sentence takes for a text.\<close>

lemma sentence_of_cleared_attribute:
  "st_payload step = P_extract (Scalar_extract t output Nulled) \<Longrightarrow>
   sentence_of step = ''Extract '' @ output @ '' from '' @ fst (target_token t) @ '', its null attribute''"
  by (simp add: sentence_of_def summarize_def joined_text element_of_def targets_of_def)

end
