(* ===== verification/RunPresentation.thy ===== *)
theory RunPresentation
  imports Complex_Main Steps
begin

text \<open>
  What the page of a Run shows: \<open>app/(shell)/runs/[id]/presentation.ts\<close> and \<open>runs/presentation.ts\<close>. A time
  is a number of milliseconds or \<open>NaN\<close>; the present is an argument. The shares of the timeline
  are exact fractions in place of floating point numbers (\<open>None\<close> is \<open>NaN\<close>). \<open>toISOString\<close>
  raises for a time that is \<open>NaN\<close>, which is an error of the model.
\<close>

section \<open>Clocks and counts\<close>

definition clock :: "jsnum \<Rightarrow> string" where
  "clock ms =
     (let whole = num_max (Num 0) (num_floor ms 1000);
          minutes = num_floor whole 60;
          seconds = num_rem whole 60
      in show_num minutes @ '':'' @ pad_start 2 (CHR ''0'') (show_num seconds))"

fun is_terminal :: "run_status \<Rightarrow> bool" where
  "is_terminal Succeeded = True"
| "is_terminal Failed = True"
| "is_terminal Cancelled = True"
| "is_terminal _ = False"

datatype lifecycle_state =
  Run_state run_status | Cancelling | Skipped_state | Missed_state | Paused_state

definition chip_state :: "run_record \<Rightarrow> lifecycle_state" where
  "chip_state run =
     (if is_terminal (rr_status run) then Run_state (rr_status run)
      else if rr_cancel_requested_at run \<noteq> None then Cancelling
      else Run_state (rr_status run))"

definition drifted_count :: "step_result list \<Rightarrow> nat" where
  "drifted_count results = length (filter (\<lambda>r. is_drifted (sr_matched_candidate_rank r)) results)"

definition warning_sign :: string where
  "warning_sign = [CHR 0xE2, CHR 0x9A, CHR 0xA0]"

definition middle_dot :: string where
  "middle_dot = [CHR 0xC2, CHR 0xB7]"

definition check_mark :: string where
  "check_mark = [CHR 0xE2, CHR 0x9C, CHR 0x93]"

definition drift_chip_label :: "int \<Rightarrow> string option" where
  "drift_chip_label n =
     (if n \<le> 0 then None
      else if n = 1 then Some (warning_sign @ '' 1 step drifted'')
      else Some (warning_sign @ '' '' @ show_int n @ '' steps drifted''))"

definition drift_badge_label :: "int \<Rightarrow> int \<Rightarrow> string" where
  "drift_badge_label rank n = ''found on candidate '' @ show_int (rank + 1) @ ''/'' @ show_int n"

datatype candidate_fate = Died | Matched | Untried

definition candidate_fates :: "int \<Rightarrow> int option \<Rightarrow> candidate_fate list" where
  "candidate_fates n matched_rank =
     map (\<lambda>rank. case matched_rank of
         None \<Rightarrow> Died
       | Some matched \<Rightarrow>
           if int rank < matched then Died else if int rank = matched then Matched else Untried)
       [0 ..< nat n]"

definition repick_href :: "string \<Rightarrow> string \<Rightarrow> string" where
  "repick_href workflow_id step_id = ''/workflows/'' @ workflow_id @ ''/editor?repick='' @ step_id"

fun extracted_count :: "js \<Rightarrow> nat" where
  "extracted_count Null = 0"
| "extracted_count Undefined = 0"
| "extracted_count (Arr xs) = length xs"
| "extracted_count _ = 1"

definition record_count :: "step_result list \<Rightarrow> nat" where
  "record_count results = foldl (\<lambda>whole result. whole + extracted_count (sr_extracted_value result)) 0 results"

definition download_count :: "artifact list \<Rightarrow> nat" where
  "download_count artifacts = length (filter (\<lambda>a. ar_kind a = Download) artifacts)"

datatype date_error = Invalid_date

definition elapsed_ms :: "run_record \<Rightarrow> jsnum \<Rightarrow> date_error + jsnum" where
  "elapsed_ms run now =
     (let start = orelse (rr_started_at run) (rr_queued_at run)
      in case rr_ended_at run of
           Some ended \<Rightarrow> Inr (num_max (Num 0) (num_sub (date_parse ended) (date_parse start)))
         | None \<Rightarrow>
             (case now of
                NaN \<Rightarrow> Inl Invalid_date
              | Num ms \<Rightarrow> Inr (num_max (Num 0) (num_sub (Num ms) (date_parse start)))))"

fun failure_reason_name :: "failure_reason \<Rightarrow> string" where
  "failure_reason_name Step_failed = ''step_failed''"
| "failure_reason_name Auth_challenge = ''auth_challenge''"
| "failure_reason_name Takeover_timeout = ''takeover_timeout''"
| "failure_reason_name Takeover_abandoned = ''takeover_abandoned''"
| "failure_reason_name Run_timeout = ''run_timeout''"
| "failure_reason_name Worker_lost = ''worker_lost''"
| "failure_reason_name Missing_secret = ''missing_secret''"
| "failure_reason_name Startup_failed = ''startup_failed''"

definition dotted :: string where
  "dotted = '' '' @ middle_dot @ '' ''"

definition terminal_banner ::
  "run_record \<Rightarrow> step_result list \<Rightarrow> artifact list \<Rightarrow> nat \<Rightarrow> date_error + string option" where
  "terminal_banner run results artifacts total_steps =
     (case rr_status run of
        Succeeded \<Rightarrow>
          (case elapsed_ms run (date_parse (orelse (rr_ended_at run) (orelse (rr_started_at run) (rr_queued_at run)))) of
             Inl e \<Rightarrow> Inl e
           | Inr elapsed \<Rightarrow>
               (let passed = length (filter (\<lambda>r. sr_status r = Passed) results);
                    records = record_count results;
                    files = download_count artifacts
                in Inr (Some (''succeeded in '' @ clock elapsed @ dotted @ show_nat passed @ '' of '' @
                     show_nat total_steps @ '' steps'' @ dotted @ show_nat records @ '' records'' @ dotted @
                     show_nat files @ '' download'' @ (if files = 1 then [] else ''s'')))))
      | Failed \<Rightarrow>
          (let failed = find (\<lambda>r. sr_status r = Step_Failed) results;
               skipped = length (filter (\<lambda>r. sr_status r = Step_Skipped) results);
               step_no = (case failed of None \<Rightarrow> ''?'' | Some r \<Rightarrow> show_int (sr_position r + 1));
               reason = (case rr_failure_reason run of None \<Rightarrow> ''failed'' | Some r \<Rightarrow> failure_reason_name r)
           in Inr (Some (''failed at step '' @ step_no @ dotted @ reason @ dotted @ ''remaining '' @
                show_nat skipped @ '' steps skipped'')))
      | Cancelled \<Rightarrow>
          (case elapsed_ms run (date_parse (orelse (rr_ended_at run) (rr_queued_at run))) of
             Inl e \<Rightarrow> Inl e
           | Inr elapsed \<Rightarrow>
               (let kept = length (filter (\<lambda>r. sr_status r \<noteq> Step_Skipped) results)
                in Inr (Some (''cancelled in '' @ clock elapsed @ dotted @ show_nat kept @ '' of '' @
                     show_nat total_steps @ '' steps''))))
      | _ \<Rightarrow> Inr None)"

definition has_target_failure :: "step_result \<Rightarrow> bool" where
  "has_target_failure result \<longleftrightarrow>
     sr_status result = Step_Failed \<and> sr_error_code result = Some ''no_candidate_resolved''"

definition offers_repick :: "run_record \<Rightarrow> step_result list \<Rightarrow> bool" where
  "offers_repick run results \<longleftrightarrow>
     rr_status run = Failed \<and> rr_failure_reason run = Some Step_failed \<and> list_ex has_target_failure results"

definition cancelling_band :: "int \<Rightarrow> string" where
  "cancelling_band step_number = ''cancelling: waiting for step '' @ show_int step_number @ '' to reach a boundary''"

section \<open>Running again\<close>

record prefill_variable =
  pv_name :: string
  pv_secret :: bool
  pv_value :: string

fun prefill_value :: "js \<Rightarrow> string" where
  "prefill_value (Str s) = s"
| "prefill_value (Number n) = show_num n"
| "prefill_value (Bool b) = (if b then ''true'' else ''false'')"
| "prefill_value Undefined = []"
| "prefill_value Null = []"
| "prefill_value v = orelse (stringify v) []"

definition run_again_values :: "variable list \<Rightarrow> fields \<Rightarrow> prefill_variable list" where
  "run_again_values declared stored =
     map (\<lambda>v. let secret = (va_secret v = Some True)
       in \<lparr>pv_name = va_name v, pv_secret = secret,
           pv_value = (if secret then [] else prefill_value (field stored (va_name v)))\<rparr>) declared"

section \<open>The timeline\<close>

record timeline_segment =
  ts_kind :: run_control_kind
  ts_flex :: "rat option"
  ts_duration_ms :: jsnum

datatype marker_label = Marker_paused | Marker_took_control | Marker_handed_back | Marker_resumed

record timeline_marker =
  tm_label :: marker_label
  tm_at :: "rat option"

definition interval_ms :: "control_interval \<Rightarrow> jsnum \<Rightarrow> jsnum" where
  "interval_ms interval now =
     (let start = date_parse (ci_started_at interval);
          ending = (case ci_ended_at interval of None \<Rightarrow> now | Some t \<Rightarrow> date_parse t)
      in num_max (Num 0) (num_sub ending start))"

text \<open>\<open>a / b\<close> for \<open>b\<close> that is not zero.\<close>

fun ratio :: "jsnum \<Rightarrow> jsnum \<Rightarrow> rat option" where
  "ratio (Num a) (Num b) = Some (of_int a / of_int b)"
| "ratio _ _ = None"

fun marker_for :: "run_control_kind \<Rightarrow> marker_label" where
  "marker_for Waiting = Marker_paused"
| "marker_for Human = Marker_took_control"
| "marker_for Verifying = Marker_handed_back"
| "marker_for Automation = Marker_resumed"

definition marker_gap :: rat where
  "marker_gap = 6 / 100"

definition far_enough :: "timeline_marker \<Rightarrow> timeline_marker \<Rightarrow> bool" where
  "far_enough previous marker \<longleftrightarrow>
     (case (tm_at previous, tm_at marker) of
        (Some p, Some m) \<Rightarrow> marker_gap \<le> m - p
      | _ \<Rightarrow> False)"

definition spaced_out :: "timeline_marker list \<Rightarrow> timeline_marker list" where
  "spaced_out markers =
     foldl (\<lambda>kept marker. if kept = [] \<or> far_enough (last kept) marker then kept @ [marker] else kept) [] markers"

text \<open>The loop over the intervals: the position, the time elapsed before it, and the markers.\<close>

fun markers_from ::
  "jsnum \<Rightarrow> nat \<Rightarrow> jsnum \<Rightarrow> (run_control_kind \<times> jsnum) list \<Rightarrow> timeline_marker list" where
  "markers_from whole index elapsed [] = []"
| "markers_from whole index elapsed ((kind, ms) # rest) =
     (if 0 < index
      then [\<lparr>tm_label = marker_for kind, tm_at = (if whole = Num 0 then Some 0 else ratio elapsed whole)\<rparr>]
      else []) @
     markers_from whole (index + 1) (num_add elapsed ms) rest"

definition timeline :: "control_interval list \<Rightarrow> jsnum \<Rightarrow> timeline_segment list \<times> timeline_marker list" where
  "timeline intervals now =
     (let durations = map (\<lambda>interval. interval_ms interval now) intervals;
          whole = foldl num_add (Num 0) durations;
          segments = map (\<lambda>(interval, ms). \<lparr>ts_kind = ci_kind interval,
              ts_flex = (if whole = Num 0 then Some (1 / of_nat (max (length intervals) 1)) else ratio ms whole),
              ts_duration_ms = ms\<rparr>) (zip intervals durations);
          markers = markers_from whole 0 (Num 0) (zip (map ci_kind intervals) durations)
      in (segments, spaced_out markers))"

definition time_with_you_ms :: "control_interval list \<Rightarrow> jsnum \<Rightarrow> jsnum" where
  "time_with_you_ms intervals now =
     foldl (\<lambda>sum interval. num_add sum (interval_ms interval now)) (Num 0)
       (filter (\<lambda>interval. ci_kind interval \<noteq> Automation) intervals)"

definition steps_done_label :: "step_result list \<Rightarrow> nat \<Rightarrow> string" where
  "steps_done_label results total_steps =
     show_nat (length (filter (\<lambda>r. sr_status r = Passed \<or> sr_status r = Step_Failed) results)) @
     '' / '' @ show_nat total_steps"


section \<open>The rail\<close>

record rail_badge =
  rb_key :: string
  rb_label :: string
  rb_tone :: tone

definition plural :: "nat \<Rightarrow> string" where
  "plural n = (if n = 1 then [] else ''s'')"

definition step_rail_badges :: "step_result \<Rightarrow> artifact list \<Rightarrow> rail_badge list" where
  "step_rail_badges result artifacts =
     (let records = extracted_count (sr_extracted_value result);
          files = length (filter (\<lambda>a. ar_step_id a = Some (sr_step_id result) \<and> ar_kind a = Download) artifacts)
      in (case (sr_matched_candidate_rank result, sr_candidate_count result) of
            (Some rank, Some n) \<Rightarrow>
              if is_drifted (Some rank)
              then [\<lparr>rb_key = ''drift'', rb_label = drift_badge_label rank n, rb_tone = Wait_tone\<rparr>] else []
          | _ \<Rightarrow> []) @
         (if sr_completed_by_human result
          then [\<lparr>rb_key = ''human'', rb_label = ''completed by you'' @ dotted @ ''verified '' @ check_mark,
            rb_tone = Human_tone\<rparr>] else []) @
         (if has_target_failure result
          then [\<lparr>rb_key = ''selector'', rb_label = ''selector failure'', rb_tone = Bad_tone\<rparr>] else []) @
         (if sr_status result = Step_Skipped
          then [\<lparr>rb_key = ''skipped'', rb_label = ''skipped'', rb_tone = Neutral\<rparr>] else []) @
         (if 0 < records
          then [\<lparr>rb_key = ''records'', rb_label = show_nat records @ '' record'' @ plural records,
            rb_tone = Neutral\<rparr>] else []) @
         (if 0 < files
          then [\<lparr>rb_key = ''files'', rb_label = show_nat files @ '' file'' @ plural files,
            rb_tone = Neutral\<rparr>] else []))"

record step_expansion =
  sx_error :: "(string \<times> string) option"
  sx_candidates :: "(candidate_kind \<times> string \<times> candidate_fate) list"
  sx_screenshots :: "artifact list"
  sx_extracted :: js
  sx_logs :: "log_line list"
  sx_repick_href :: "string option"

definition step_expansion_of ::
  "string \<Rightarrow> step \<Rightarrow> step_result option \<Rightarrow> artifact list \<Rightarrow> log_line list \<Rightarrow> step_expansion" where
  "step_expansion_of workflow_id step result artifacts logs =
     (let target = (case targets_of step of [] \<Rightarrow> None | t # _ \<Rightarrow> Some t);
          declared = (case target of None \<Rightarrow> [] | Some t \<Rightarrow> tg_candidates t);
          n = orelse (result \<bind> sr_candidate_count) (int (length declared));
          fates = candidate_fates n (result \<bind> sr_matched_candidate_rank);
          failed = (case result of None \<Rightarrow> False | Some r \<Rightarrow> sr_status r = Step_Failed)
      in \<lparr>sx_error = (if failed then
             (case result \<bind> sr_error_code of
                None \<Rightarrow> None
              | Some err \<Rightarrow> Some (err, orelse (result \<bind> sr_error_message) [])) else None),
          sx_candidates = map (\<lambda>(index, c). (sc_kind c, sc_value c, orelse (Prelude.at fates (int index)) Untried))
            (enumerate 0 declared),
          sx_screenshots = filter (\<lambda>a. ar_step_id a = Some (st_id step) \<and> ar_kind a = Screenshot) artifacts,
          sx_extracted = (case result of None \<Rightarrow> Null
            | Some r \<Rightarrow> if sr_extracted_value r = Undefined then Null else sr_extracted_value r),
          sx_logs = filter (\<lambda>line. ll_step_id line = Some (st_id step)) logs,
          sx_repick_href = map_option (\<lambda>_. repick_href workflow_id (st_id step)) target\<rparr>)"

definition control_band_label :: "run_control_kind \<Rightarrow> jsnum \<Rightarrow> bool \<Rightarrow> string" where
  "control_band_label kind ms finished =
     (case kind of
        Waiting \<Rightarrow> ''waiting for you: '' @ clock ms
      | Human \<Rightarrow> ''you were in control: '' @ clock ms
      | _ \<Rightarrow>
          if finished
          then ''verifying the success check: '' @ clock ms @ dotted @ ''passed, automation resumed''
          else ''verifying the success check: '' @ clock ms)"

datatype rail_item =
    Step_item (ri_position: nat) (ri_step: step) (ri_result: "step_result option") (ri_in_flight: bool)
      (ri_duration_ms: "jsnum option") (ri_badges: "rail_badge list")
  | Control_item (ri_phase: run_control_kind) (ri_band_ms: jsnum) (ri_label: string)

text \<open>\<open>new Map(results.map((result) => [result.step_id, result]))\<close>: the last result of a Step wins.\<close>

definition result_of :: "step_result list \<Rightarrow> string \<Rightarrow> step_result option" where
  "result_of results step_id = map_of (rev (map (\<lambda>r. (sr_step_id r, r)) results)) step_id"

definition step_duration_ms :: "step_result option \<Rightarrow> string option \<Rightarrow> jsnum \<Rightarrow> jsnum option" where
  "step_duration_ms result flight_started now =
     (case (result \<bind> sr_started_at, orelse (result \<bind> sr_ended_at) []) of
        (Some started, c # cs) \<Rightarrow> Some (num_max (Num 0) (num_sub (date_parse (c # cs)) (date_parse started)))
      | _ \<Rightarrow>
          (case flight_started of
             Some started \<Rightarrow> Some (num_max (Num 0) (num_sub now (date_parse started)))
           | None \<Rightarrow> None))"

fun band_index_from :: "jsnum \<Rightarrow> (string \<Rightarrow> step_result option) \<Rightarrow> nat \<Rightarrow> step list \<Rightarrow> nat" where
  "band_index_from start results index [] = index"
| "band_index_from start results index (step # steps) =
     (case results (st_id step) \<bind> sr_started_at of
        Some started \<Rightarrow>
          if num_less start (date_parse started) then index
          else band_index_from start results (index + 1) steps
      | None \<Rightarrow> band_index_from start results (index + 1) steps)"

definition band_index :: "control_interval \<Rightarrow> step list \<Rightarrow> (string \<Rightarrow> step_result option) \<Rightarrow> nat" where
  "band_index interval steps results = band_index_from (date_parse (ci_started_at interval)) results 0 steps"

definition control_bands_before ::
  "control_interval list \<Rightarrow> step list \<Rightarrow> (string \<Rightarrow> step_result option) \<Rightarrow> nat \<Rightarrow> jsnum \<Rightarrow> rail_item list" where
  "control_bands_before intervals steps results index now =
     map (\<lambda>interval. let ms = interval_ms interval now
         in Control_item (ci_kind interval) ms (control_band_label (ci_kind interval) ms (ci_ended_at interval \<noteq> None)))
       (filter (\<lambda>interval. ci_kind interval \<noteq> Automation \<and> band_index interval steps results = index) intervals)"

text \<open>The Step in flight is given as its id and its start.\<close>

definition rail_items ::
  "step list \<Rightarrow> step_result list \<Rightarrow> artifact list \<Rightarrow> control_interval list \<Rightarrow> (string \<times> string) option \<Rightarrow> jsnum \<Rightarrow>
   rail_item list" where
  "rail_items steps results artifacts intervals in_flight now =
     (let by_id = result_of results
      in concat (map (\<lambda>(index, step).
           let result = by_id (st_id step);
               flying = (case in_flight of Some (flight_id, _) \<Rightarrow> flight_id = st_id step | None \<Rightarrow> False)
           in control_bands_before intervals steps by_id index now @
             [Step_item index step result flying
                (step_duration_ms result (if flying then map_option snd in_flight else None) now)
                (case result of None \<Rightarrow> [] | Some r \<Rightarrow> step_rail_badges r artifacts)])
           (enumerate 0 steps)) @
         control_bands_before intervals steps by_id (length steps) now)"

definition pane_placeholder :: "run_status \<Rightarrow> bool \<Rightarrow> string" where
  "pane_placeholder status cancelling =
     (if cancelling \<and> \<not> is_terminal status then ''cancelling: waiting for a Step boundary''
      else if status = Queued then ''queued: waiting for a Worker''
      else if status = Waiting_for_human then ''waiting for you: the browser is held''
      else if is_terminal status then ''session ended: the browser closed''
      else ''view only: automation in control'')"

fun trigger_label :: "run_trigger \<Rightarrow> string" where
  "trigger_label Test = ''test''"
| "trigger_label Schedule = ''schedule''"
| "trigger_label Batch = ''batch''"
| "trigger_label Manual = ''manual''"

definition version_label :: "run_record \<Rightarrow> string" where
  "version_label run =
     (case rr_version_number run of
        None \<Rightarrow> ''test''
      | Some v \<Rightarrow> if rr_is_test run then ''test'' else ''v'' @ show_int v)"

definition current_step_number :: "int option \<Rightarrow> step_result list \<Rightarrow> int" where
  "current_step_number in_flight_position results =
     (case in_flight_position of
        Some p \<Rightarrow> p + 1
      | None \<Rightarrow>
          (let last_result = foldl (\<lambda>found result.
               case found of
                 None \<Rightarrow> Some result
               | Some best \<Rightarrow> if sr_position result > sr_position best then Some result else Some best) None results
           in orelse (map_option sr_position last_result) 0 + 1))"

section \<open>The output\<close>

record output_table =
  ot_columns :: "string list"
  ot_rows :: "string list list"

fun is_plain_object :: "js \<Rightarrow> bool" where
  "is_plain_object (Obj _) = True"
| "is_plain_object _ = False"

fun fields_of_object :: "js \<Rightarrow> fields" where
  "fields_of_object (Obj ob) = ob"
| "fields_of_object _ = []"

text \<open>\<open>columnsOf\<close>: every key, at its first appearance.\<close>

definition output_columns :: "fields list \<Rightarrow> string list" where
  "output_columns records =
     foldl (\<lambda>columns row. foldl (\<lambda>columns key. if key \<in> set columns then columns else columns @ [key])
       columns (map fst row)) [] records"

definition output_table_of :: "js \<Rightarrow> output_table option" where
  "output_table_of assembled =
     (case assembled of
        Arr xs \<Rightarrow>
          if list_all is_plain_object xs \<and> xs \<noteq> [] then
            (let records = map fields_of_object xs;
                 columns = output_columns records
             in Some \<lparr>ot_columns = columns,
                  ot_rows = map (\<lambda>row. map (\<lambda>column. prefill_value (field row column)) columns) records\<rparr>)
          else None
      | Obj ob \<Rightarrow>
          (let columns = map fst ob
           in if columns = [] then None
              else Some \<lparr>ot_columns = columns, ot_rows = [map (\<lambda>column. prefill_value (field ob column)) columns]\<rparr>)
      | _ \<Rightarrow> None)"

section \<open>The list of Runs\<close>

datatype list_kind = Loading | Empty_list | Filtered | Rows

definition has_list_filter :: "(string \<rightharpoonup> string) \<Rightarrow> bool" where
  "has_list_filter filters \<longleftrightarrow> orelse (filters ''status'') [] \<noteq> [] \<or> orelse (filters ''trigger'') [] \<noteq> []"

definition list_kind_of :: "bool \<Rightarrow> nat \<Rightarrow> (string \<rightharpoonup> string) \<Rightarrow> list_kind" where
  "list_kind_of loaded item_count filters =
     (if \<not> loaded \<and> item_count = 0 then Loading
      else if 0 < item_count then Rows
      else if has_list_filter filters then Filtered else Empty_list)"

definition run_columns :: "string list" where
  "run_columns = [''status'', ''workflow'', ''trigger'', ''started'', ''duration'', ''id'', ''action'']"

definition run_columns_of :: "string option \<Rightarrow> string list" where
  "run_columns_of workflow_id =
     (case workflow_id of None \<Rightarrow> run_columns | Some _ \<Rightarrow> filter (\<lambda>column. column \<noteq> ''workflow'') run_columns)"

definition run_href :: "string \<Rightarrow> string" where
  "run_href ident = ''/runs/'' @ ident"

datatype row_action = Take_control | Open_run

definition row_action_of :: "run_status \<Rightarrow> row_action" where
  "row_action_of status = (if status = Waiting_for_human then Take_control else Open_run)"

definition run_duration_ms :: "string option \<Rightarrow> string option \<Rightarrow> jsnum \<Rightarrow> jsnum option" where
  "run_duration_ms started ended now =
     (case started of
        None \<Rightarrow> None
      | Some start \<Rightarrow>
          (let ending = (case ended of None \<Rightarrow> now | Some t \<Rightarrow> date_parse t)
           in case num_sub ending (date_parse start) of
                NaN \<Rightarrow> None
              | Num ms \<Rightarrow> Some (Num (max 0 ms))))"

definition short_run_id :: "string \<Rightarrow> string" where
  "short_run_id ident = hd (split_on (CHR ''-'') ident)"


section \<open>Sums of times\<close>

lemma num_add_NaN_right: "foldl num_add NaN xs = NaN"
  by (induction xs) auto

lemma sum_of_times: "foldl num_add (Num a) (map Num ns) = Num (a + sum_list ns)"
  by (induction ns arbitrary: a) auto

lemma sum_is_number: "foldl num_add (Num a) ds = Num s \<Longrightarrow> \<exists>ns. ds = map Num ns \<and> s = a + sum_list ns"
proof (induction ds arbitrary: a)
  case (Cons d ds)
  then obtain n where d: "d = Num n" by (cases d) (auto simp: num_add_NaN_right)
  with Cons.prems have "foldl num_add (Num (a + n)) ds = Num s" by simp
  from Cons.IH [OF this] obtain ns where "ds = map Num ns" "s = a + n + sum_list ns" by auto
  then show ?case using d by (intro exI [of _ "n # ns"]) simp
qed simp

lemma interval_ms_nonneg: "interval_ms interval now = Num n \<Longrightarrow> 0 \<le> n"
  using nonneg_max by (metis interval_ms_def nonneg_simps(2))

lemma sum_of_shares:
  "t \<noteq> 0 \<Longrightarrow> sum_list (map (\<lambda>n. of_int n / of_int t) ns) = (of_int (sum_list ns) / of_int t :: rat)"
  by (induction ns) (auto simp: add_divide_distrib)

section \<open>Markers\<close>

definition in_unit :: "rat option \<Rightarrow> bool" where
  "in_unit x \<longleftrightarrow> (case x of None \<Rightarrow> False | Some r \<Rightarrow> 0 \<le> r \<and> r \<le> 1)"

lemma markers_in_unit:
  "0 \<le> e \<Longrightarrow> \<forall>n \<in> set ns. 0 \<le> n \<Longrightarrow> e + sum_list ns \<le> t \<Longrightarrow> 0 \<le> t \<Longrightarrow>
   \<forall>marker \<in> set (markers_from (Num t) index (Num e) (zip kinds (map Num ns))). in_unit (tm_at marker)"
proof (induction kinds arbitrary: index e ns)
  case (Cons kind kinds)
  show ?case
  proof (cases ns)
    case (Cons n ms)
    have rest: "0 \<le> sum_list ms" using Cons.prems Cons by (intro sum_list_nonneg) auto
    have "in_unit (if t = 0 then Some 0 else Some (of_int e / of_int t))"
      using Cons.prems Cons rest by (auto simp: in_unit_def divide_le_eq)
    moreover have "\<forall>marker \<in> set (markers_from (Num t) (index + 1) (Num (e + n)) (zip kinds (map Num ms))). in_unit (tm_at marker)"
      using Cons.prems Cons by (intro Cons.IH) auto
    ultimately show ?thesis by (auto simp: Cons)
  qed simp
qed simp

lemma spaced_out_snoc:
  "foldl (\<lambda>kept marker. if kept = [] \<or> far_enough (last kept) marker then kept @ [marker] else kept) kept markers = ks \<Longrightarrow>
   successively far_enough kept \<Longrightarrow> successively far_enough ks \<and> set ks \<subseteq> set kept \<union> set markers"
proof (induction markers arbitrary: kept)
  case (Cons marker markers)
  let ?kept = "if kept = [] \<or> far_enough (last kept) marker then kept @ [marker] else kept"
  have "successively far_enough ?kept" using Cons.prems(2) by (auto simp: successively_append_iff)
  then have "successively far_enough ks \<and> set ks \<subseteq> set ?kept \<union> set markers"
    using Cons.prems(1) by (intro Cons.IH) auto
  then show ?case by (auto split: if_splits)
qed auto

lemma spaced_out_spaced: "successively far_enough (spaced_out markers)" "set (spaced_out markers) \<subseteq> set markers"
  using spaced_out_snoc [OF refl, of "[]" markers] by (auto simp: spaced_out_def)

section \<open>Bands\<close>

lemma band_index_le: "band_index_from start results index steps \<le> index + length steps"
  by (induction start results index steps rule: band_index_from.induct) (auto split: option.splits)

lemma count_upt: "count_list [0 ..< n] k = (if k < n then 1 else 0)"
  by (induction n) (auto simp: count_list_append)

lemma filter_by_key:
  assumes "\<forall>x \<in> set xs. f x < n"
  shows "mset (concat (map (\<lambda>i. filter (\<lambda>x. f x = i) xs) [0 ..< n])) = mset xs"
  using assms
proof (induction xs)
  case Nil
  have "concat (map (\<lambda>i. []) ks) = []" for ks :: "nat list" by (induction ks) auto
  then show ?case by simp
next
  case (Cons x xs)
  have "mset (concat (map (\<lambda>i. filter (\<lambda>y. f y = i) (x # xs)) ks)) =
      mset (concat (map (\<lambda>i. filter (\<lambda>y. f y = i) xs) ks)) + replicate_mset (count_list ks (f x)) x" for ks
    by (induction ks) (auto simp: ac_simps)
  moreover have "count_list [0 ..< n] (f x) = 1" using Cons.prems by (simp add: count_upt)
  ultimately show ?case using Cons by simp
qed

fun is_step_item :: "rail_item \<Rightarrow> bool" where
  "is_step_item (Step_item _ _ _ _ _ _) = True"
| "is_step_item (Control_item _ _ _) = False"

definition band_of :: "jsnum \<Rightarrow> control_interval \<Rightarrow> rail_item" where
  "band_of now interval =
     (let ms = interval_ms interval now
      in Control_item (ci_kind interval) ms (control_band_label (ci_kind interval) ms (ci_ended_at interval \<noteq> None)))"


lemma bands_before_eq:
  "control_bands_before intervals steps results index now =
     map (band_of now) (filter (\<lambda>interval. band_index interval steps results = index)
       (filter (\<lambda>interval. ci_kind interval \<noteq> Automation) intervals))"
  by (simp add: control_bands_before_def band_of_def conj_commute)

lemma no_step_items: "filter is_step_item (control_bands_before intervals steps results index now) = []"
  "filter (\<lambda>item. \<not> is_step_item item) (control_bands_before intervals steps results index now) =
     control_bands_before intervals steps results index now"
  by (auto simp: control_bands_before_def Let_def filter_empty_conv filter_id_conv)

lemma rail_steps:
  "map (\<lambda>item. (ri_position item, ri_step item)) (filter is_step_item
     (rail_items steps results artifacts intervals in_flight now)) = enumerate 0 steps"
proof -
  let ?part = "\<lambda>(index, step). control_bands_before intervals steps (result_of results) index now @
             [Step_item index step (result_of results (st_id step))
                (case in_flight of Some (flight_id, _) \<Rightarrow> flight_id = st_id step | None \<Rightarrow> False)
                (step_duration_ms (result_of results (st_id step))
                  (if (case in_flight of Some (flight_id, _) \<Rightarrow> flight_id = st_id step | None \<Rightarrow> False)
                   then map_option snd in_flight else None) now)
                (case result_of results (st_id step) of None \<Rightarrow> [] | Some r \<Rightarrow> step_rail_badges r artifacts)]"
  have "map (\<lambda>item. (ri_position item, ri_step item)) (filter is_step_item (concat (map ?part ps))) = ps" for ps
    by (induction ps) (auto simp: no_step_items)
  then show ?thesis by (simp add: rail_items_def Let_def no_step_items)
qed

lemma rail_bands:
  "mset (filter (\<lambda>item. \<not> is_step_item item) (rail_items steps results artifacts intervals in_flight now)) =
   mset (map (band_of now) (filter (\<lambda>interval. ci_kind interval \<noteq> Automation) intervals))"
proof -
  let ?bands = "\<lambda>index. control_bands_before intervals steps (result_of results) index now"
  let ?held = "filter (\<lambda>interval. ci_kind interval \<noteq> Automation) intervals"
  let ?at = "\<lambda>index. filter (\<lambda>interval. band_index interval steps (result_of results) = index) ?held"
  let ?part = "\<lambda>(index, step). ?bands index @
             [Step_item index step (result_of results (st_id step))
                (case in_flight of Some (flight_id, _) \<Rightarrow> flight_id = st_id step | None \<Rightarrow> False)
                (step_duration_ms (result_of results (st_id step))
                  (if (case in_flight of Some (flight_id, _) \<Rightarrow> flight_id = st_id step | None \<Rightarrow> False)
                   then map_option snd in_flight else None) now)
                (case result_of results (st_id step) of None \<Rightarrow> [] | Some r \<Rightarrow> step_rail_badges r artifacts)]"
  have "filter (\<lambda>item. \<not> is_step_item item) (concat (map ?part ps)) = concat (map ?bands (map fst ps))" for ps
    by (induction ps) (auto simp: no_step_items)
  from this [of "enumerate 0 steps", unfolded map_fst_enumerate]
  have "filter (\<lambda>item. \<not> is_step_item item) (rail_items steps results artifacts intervals in_flight now) =
      concat (map ?bands [0 ..< Suc (length steps)])"
    by (simp add: rail_items_def Let_def no_step_items)
  also have "\<dots> = map (band_of now) (concat (map ?at [0 ..< Suc (length steps)]))"
    by (simp only: bands_before_eq map_concat map_map o_def)
  also have "mset \<dots> = image_mset (band_of now) (mset ?held)"
    using filter_by_key [of ?held "\<lambda>interval. band_index interval steps (result_of results)" "Suc (length steps)"]
      band_index_le [of _ "result_of results" 0 steps]
    by (simp add: band_index_def less_Suc_eq_le del: upt_Suc)
  finally show ?thesis by simp
qed

section \<open>Properties\<close>

text \<open>The timeline of a Run: when every time is a date, the shares of the segments are not
  negative and add up to one, the markers lie on the bar, and no two of them are closer
  than the gap their labels need.\<close>

theorem timeline_shares:
  assumes "intervals \<noteq> []"
    and "foldl num_add (Num 0) (map (\<lambda>interval. interval_ms interval now) intervals) = Num whole"
  shows "(\<exists>shares. map ts_flex (fst (timeline intervals now)) = map Some shares \<and>
      sum_list shares = 1 \<and> (\<forall>share \<in> set shares. 0 \<le> share)) \<and>
    (\<forall>marker \<in> set (snd (timeline intervals now)). in_unit (tm_at marker)) \<and>
    successively far_enough (snd (timeline intervals now))"
proof (intro conjI)
  obtain ns where ns: "map (\<lambda>interval. interval_ms interval now) intervals = map Num ns" "whole = sum_list ns"
    using sum_is_number [OF assms(2)] by auto
  have len: "length ns = length intervals" using arg_cong [OF ns(1), of length] by simp
  have nonneg: "\<forall>n \<in> set ns. 0 \<le> n"
  proof
    fix n
    assume "n \<in> set ns"
    then have "Num n \<in> set (map (\<lambda>interval. interval_ms interval now) intervals)" by (simp add: ns(1) image_iff)
    then show "0 \<le> n" using interval_ms_nonneg by auto
  qed
  have sum: "foldl num_add (Num 0) (map Num ns) = Num whole" by (simp add: sum_of_times ns(2))
  let ?shares = "if whole = 0 then map (\<lambda>n. 1 / of_nat (length ns)) ns else map (\<lambda>n. of_int n / of_int whole) ns :: rat list"
  have flex: "map ts_flex (fst (timeline intervals now)) = map Some ?shares"
    using len assms(1)
    by (auto simp: timeline_def Let_def ns(1) sum max_def o_def split_beta intro!: nth_equalityI)
  have "sum_list ?shares = 1"
    using len assms(1) sum_of_shares [of whole ns] by (auto simp: ns(2) sum_list_triv)
  moreover have "\<forall>share \<in> set ?shares. 0 \<le> share"
    using nonneg sum_list_nonneg [of ns] by (auto simp: ns(2))
  ultimately show "\<exists>shares. map ts_flex (fst (timeline intervals now)) = map Some shares \<and>
      sum_list shares = 1 \<and> (\<forall>share \<in> set shares. 0 \<le> share)"
    using flex by blast
  have "0 \<le> sum_list ns" using nonneg by (intro sum_list_nonneg) auto
  then show "\<forall>marker \<in> set (snd (timeline intervals now)). in_unit (tm_at marker)"
    using markers_in_unit [of 0 ns whole 0 "map ci_kind intervals"] nonneg spaced_out_spaced(2)
    by (auto simp: timeline_def Let_def ns(1) sum) (use ns(2) in blast)
  show "successively far_enough (snd (timeline intervals now))"
    by (simp add: timeline_def Let_def spaced_out_spaced)
qed

definition sample_intervals :: "control_interval list" where
  "sample_intervals =
     [\<lparr>ci_id = ''i1'', ci_kind = Automation, ci_started_at = ''2026-08-25T12:00:00Z'', ci_ended_at = Some ''2026-08-25T12:01:00Z''\<rparr>,
      \<lparr>ci_id = ''i2'', ci_kind = Human, ci_started_at = ''2026-08-25T12:01:00Z'', ci_ended_at = Some ''2026-08-25T12:03:00Z''\<rparr>]"

theorem timeline_shares_witness:
  "\<exists>shares. map ts_flex (fst (timeline sample_intervals NaN)) = map Some shares \<and> sum_list shares = 1"
proof -
  have "foldl num_add (Num 0) (map (\<lambda>interval. interval_ms interval NaN) sample_intervals) = Num 180000"
    by code_simp
  moreover have "sample_intervals \<noteq> []" by (simp add: sample_intervals_def)
  ultimately show ?thesis using timeline_shares [of sample_intervals NaN 180000] by blast
qed

text \<open>The rail of a Run shows every Step once, in the order of the workflow, and every interval
  in which a person had the Run once, as a band before the first Step that started after it.\<close>

theorem rail_is_complete:
  "map (\<lambda>item. (ri_position item, ri_step item)) (filter is_step_item
     (rail_items steps results artifacts intervals in_flight now)) = enumerate 0 steps \<and>
   mset (filter (\<lambda>item. \<not> is_step_item item) (rail_items steps results artifacts intervals in_flight now)) =
   mset (map (band_of now) (filter (\<lambda>interval. ci_kind interval \<noteq> Automation) intervals))"
  by (simp only: rail_steps rail_bands)

end
