(* ===== verification/Pane.thy ===== *)
theory Pane
  imports RunPresentation
begin

text \<open>
  The pane with the browser of a Run, and the lock that lets one tab at a time hold it:
  \<open>app/(shell)/runs/[id]/pane.ts\<close> and \<open>use-takeover-lock.ts\<close>. The lock is an entry of \<open>localStorage\<close>,
  shared by the tabs, and a view of it in each tab that is read again when the tab is told
  of a change. The tabs and the storage are one transition system.
\<close>

section \<open>The pane\<close>

definition low_countdown_ms :: int where
  "low_countdown_ms = 5 * 60 * 1000"

datatype pane_frame = Frame_none | Frame_view_only | Frame_interactive | Frame_ended
datatype pane_highlight = Highlight_none | Highlight_wait | Highlight_human

record pane_input =
  pi_status :: run_status
  pi_cancelling :: bool
  pi_phase :: "run_control_kind option"
  pi_we_hold_control :: bool
  pi_held_elsewhere :: bool
  pi_unmet_handback :: bool
  pi_worker_id :: "string option"

record pane_view =
  pw_frame :: pane_frame
  pw_highlight :: pane_highlight
  pw_caption :: "string option"
  pw_identity :: "string option"
  pw_show_waiting_card :: bool
  pw_show_control_bar :: bool
  pw_show_unmet_choice :: bool
  pw_show_held_note :: bool
  pw_held_note :: "string option"
  pw_unmet_keep :: string
  pw_unmet_give_up :: string

definition base_view :: pane_view where
  "base_view =
     \<lparr>pw_frame = Frame_none, pw_highlight = Highlight_none, pw_caption = None, pw_identity = None,
      pw_show_waiting_card = False, pw_show_control_bar = False, pw_show_unmet_choice = False,
      pw_show_held_note = False, pw_held_note = None, pw_unmet_keep = ''keep control and finish it'',
      pw_unmet_give_up = ''give up: fail the run''\<rparr>"

definition pane_view_of :: "pane_input \<Rightarrow> pane_view" where
  "pane_view_of input =
     (let status = pi_status input in
      if pi_cancelling input \<and> \<not> is_terminal status then
        base_view\<lparr>pw_caption := Some ''cancelling: waiting for a Step boundary''\<rparr>
      else if is_terminal status then
        base_view\<lparr>pw_frame := Frame_ended, pw_caption := Some ''session ended: the browser closed''\<rparr>
      else if status = Queued then
        base_view\<lparr>pw_caption := Some ''queued: waiting for a Worker''\<rparr>
      else if status = Waiting_for_human \<and> pi_unmet_handback input then
        base_view\<lparr>pw_frame := Frame_view_only, pw_highlight := Highlight_wait, pw_show_unmet_choice := True\<rparr>
      else if status = Waiting_for_human \<and> pi_we_hold_control input then
        base_view\<lparr>pw_frame := Frame_interactive, pw_highlight := Highlight_human, pw_show_control_bar := True,
          pw_identity := Some (''You are controlling this browser'' @
            (case pi_worker_id input of
               Some (c # cs) \<Rightarrow> dotted @ (c # cs)
             | _ \<Rightarrow> []))\<rparr>
      else if status = Waiting_for_human \<and> pi_held_elsewhere input then
        base_view\<lparr>pw_frame := Frame_view_only, pw_highlight := Highlight_human, pw_show_held_note := True,
          pw_held_note := Some ''Control is held in another tab.''\<rparr>
      else if status = Waiting_for_human then
        base_view\<lparr>pw_frame := Frame_view_only, pw_highlight := Highlight_wait,
          pw_show_waiting_card := (pi_phase input \<noteq> Some Verifying)\<rparr>
      else
        base_view\<lparr>pw_frame := Frame_view_only, pw_caption := Some ''view only: automation in control''\<rparr>)"

fun is_pause :: "step \<Rightarrow> bool" where
  "is_pause step = (case st_payload step of P_pause _ \<Rightarrow> True | _ \<Rightarrow> False)"

definition waiting_step :: "step list \<Rightarrow> step_result list \<Rightarrow> string option \<Rightarrow> step option" where
  "waiting_step steps results in_flight =
     (case in_flight of
        Some flight_id \<Rightarrow>
          (case find (\<lambda>step. st_id step = flight_id) steps of
             Some flying \<Rightarrow> if is_pause flying then Some flying else None
           | None \<Rightarrow> None)
      | None \<Rightarrow>
          (let finished = set (map sr_step_id results)
           in find (\<lambda>step. st_id step \<notin> finished \<and> is_pause step) steps))"

definition waiting_reason :: "step option \<Rightarrow> bool \<Rightarrow> string" where
  "waiting_reason pause pause_requested =
     (let message = (case pause of
          Some step \<Rightarrow> (case st_payload step of
              P_pause p \<Rightarrow> (case tp_message p of Given m \<Rightarrow> m | _ \<Rightarrow> [])
            | _ \<Rightarrow> [])
        | None \<Rightarrow> [])
      in if message \<noteq> [] then message
         else if pause_requested then ''A pause was requested.''
         else ''This Run is waiting for you.'')"

record countdown_state =
  cd_remaining_ms :: jsnum
  cd_label :: string
  cd_low :: bool

definition countdown_state_of :: "string option \<Rightarrow> jsnum \<Rightarrow> countdown_state option" where
  "countdown_state_of deadline_at now =
     (case deadline_at of
        None \<Rightarrow> None
      | Some deadline \<Rightarrow>
          (let remaining = num_max (Num 0) (num_sub (date_parse deadline) now)
           in Some \<lparr>cd_remaining_ms = remaining, cd_label = clock remaining @ '' left'',
                cd_low = num_le remaining (Num low_countdown_ms)\<rparr>))"

datatype predicate_met = Met | Unmet | No_check

record predicate_line =
  pl_state :: predicate_met
  pl_grace :: "string option"
  pl_offer_stay :: bool
  pl_offer_hand_back_now :: bool

definition predicate_line_of ::
  "bool \<Rightarrow> bool option \<Rightarrow> string option \<Rightarrow> bool \<Rightarrow> jsnum \<Rightarrow> bool \<Rightarrow> predicate_line" where
  "predicate_line_of has_check met_now grace_ends_at auto_handback_disabled now controlling =
     (if \<not> has_check then
        \<lparr>pl_state = No_check, pl_grace = None, pl_offer_stay = False, pl_offer_hand_back_now = False\<rparr>
      else
        (let met = (met_now = Some True);
             grace_open = (met \<and> controlling \<and> \<not> auto_handback_disabled \<and> grace_ends_at \<noteq> None);
             remaining = (if grace_open
               then num_max (Num 0) (num_ceil (num_sub (date_parse (orelse grace_ends_at [])) now) 1000)
               else Num 0)
         in \<lparr>pl_state = (if met then Met else Unmet),
             pl_grace = (if grace_open then Some (''handing back in '' @ show_num remaining @ ''s'') else None),
             pl_offer_stay = grace_open,
             pl_offer_hand_back_now = (grace_open \<or> (met \<and> controlling))\<rparr>))"

definition challenge_banner :: "string \<Rightarrow> (string \<times> string) option" where
  "challenge_banner kind =
     (if kind \<noteq> ''suspected_challenge'' then None
      else Some (''This step may be blocked by a challenge.'', ''pause run & take over''))"

record consent_prompt =
  cp_domain :: string
  cp_question :: string
  cp_scopes :: "consent_scope list"

definition consent_prompts :: "auth_state_candidate list \<Rightarrow> run_trigger \<Rightarrow> consent_prompt list" where
  "consent_prompts candidates trigger =
     (let personal = (trigger = Manual \<or> trigger = Test)
      in map (\<lambda>candidate. \<lparr>cp_domain = ac_domain candidate,
            cp_question = ''Keep this login for '' @ ac_domain candidate @ ''?'',
            cp_scopes = (if personal then [Scope_organization, Scope_personal] else [Scope_organization])\<rparr>)
           (filter (\<lambda>candidate. ac_consent candidate = None) candidates))"

definition current_phase :: "control_interval list \<Rightarrow> run_control_kind option" where
  "current_phase intervals =
     (case find (\<lambda>interval. ci_ended_at interval = None) (rev intervals) of
        Some interval \<Rightarrow> Some (ci_kind interval)
      | None \<Rightarrow> if intervals = [] then None else Some (ci_kind (last intervals)))"

definition vnc_socket_url :: "string \<Rightarrow> string \<Rightarrow> string \<Rightarrow> string" where
  "vnc_socket_url ws_path protocol host =
     (if protocol = ''https:'' then ''wss:'' else ''ws:'') @ ''//'' @ host @ ws_path"

section \<open>The lock\<close>

record takeover_lock =
  tl_tab_id :: string
  tl_at :: js

definition held_elsewhere :: "takeover_lock option \<Rightarrow> string \<Rightarrow> bool" where
  "held_elsewhere lock tab_id \<longleftrightarrow> (case lock of None \<Rightarrow> False | Some l \<Rightarrow> tl_tab_id l \<noteq> tab_id)"

text \<open>An entry of the storage: text that is no JSON, or a JSON value.\<close>

datatype stored = Unparsable | Parsed js

text \<open>\<open>readLock\<close>: reading a property of \<open>null\<close> raises, which is caught.\<close>

definition read_lock :: "stored option \<Rightarrow> takeover_lock option" where
  "read_lock raw =
     (case raw of
        Some (Parsed (Obj ob)) \<Rightarrow>
          (case field ob ''tabId'' of
             Str tab_id \<Rightarrow> Some \<lparr>tl_tab_id = tab_id, tl_at = field ob ''at''\<rparr>
           | _ \<Rightarrow> None)
      | _ \<Rightarrow> None)"

definition write_lock :: "takeover_lock \<Rightarrow> stored" where
  "write_lock lock = Parsed (Obj [(''tabId'', Str (tl_tab_id lock)), (''at'', tl_at lock)])"

lemma read_write_lock: "read_lock (Some (write_lock lock)) = Some lock"
  by (simp add: read_lock_def write_lock_def field_def)

text \<open>The state of the hook in one tab, and of all tabs with the entry of one Run.\<close>

record tab_state =
  tb_tab_id :: string
  tb_lock :: "takeover_lock option"

record lock_world =
  lw_entry :: "stored option"
  lw_tabs :: "nat \<Rightarrow> tab_state"

definition seen_held_elsewhere :: "tab_state \<Rightarrow> bool" where
  "seen_held_elsewhere tab \<longleftrightarrow> tb_tab_id tab \<noteq> [] \<and> held_elsewhere (tb_lock tab) (tb_tab_id tab)"

definition mount :: "string \<Rightarrow> nat \<Rightarrow> lock_world \<Rightarrow> lock_world" where
  "mount tab_id i w =
     w\<lparr>lw_tabs := (lw_tabs w)(i := \<lparr>tb_tab_id = tab_id, tb_lock = read_lock (lw_entry w)\<rparr>)\<rparr>"

definition claim :: "string \<Rightarrow> nat \<Rightarrow> lock_world \<Rightarrow> lock_world" where
  "claim now_iso i w =
     (let tab = lw_tabs w i in
      if tb_tab_id tab = [] then w
      else
        (let nxt = \<lparr>tl_tab_id = tb_tab_id tab, tl_at = Str now_iso\<rparr>
         in w\<lparr>lw_entry := Some (write_lock nxt), lw_tabs := (lw_tabs w)(i := tab\<lparr>tb_lock := Some nxt\<rparr>)\<rparr>))"

definition release :: "nat \<Rightarrow> lock_world \<Rightarrow> lock_world" where
  "release i w =
     (let tab = lw_tabs w i in
      case read_lock (lw_entry w) of
        None \<Rightarrow> w
      | Some current \<Rightarrow>
          if tl_tab_id current \<noteq> tb_tab_id tab then w
          else w\<lparr>lw_entry := None, lw_tabs := (lw_tabs w)(i := tab\<lparr>tb_lock := None\<rparr>)\<rparr>)"

text \<open>A storage event or a message of the channel reaches a tab.\<close>

definition hear :: "nat \<Rightarrow> lock_world \<Rightarrow> lock_world" where
  "hear i w = w\<lparr>lw_tabs := (lw_tabs w)(i := (lw_tabs w i)\<lparr>tb_lock := read_lock (lw_entry w)\<rparr>)\<rparr>"

text \<open>The steps of the system; \<open>ids\<close> are the random ids of the tabs.\<close>

inductive lock_step :: "(nat \<Rightarrow> string) \<Rightarrow> lock_world \<Rightarrow> lock_world \<Rightarrow> bool" for ids where
  mounts: "lock_step ids w (mount (ids i) i w)"
| claims: "lock_step ids w (claim now_iso i w)"
| releases: "lock_step ids w (release i w)"
| hears: "lock_step ids w (hear i w)"

inductive_cases lock_stepE: "lock_step ids w w'"

definition opened :: "stored option \<Rightarrow> lock_world" where
  "opened entry = \<lparr>lw_entry = entry, lw_tabs = \<lambda>_. \<lparr>tb_tab_id = [], tb_lock = None\<rparr>\<rparr>"

text \<open>A tab that is mounted has its own id.\<close>

definition own_ids :: "(nat \<Rightarrow> string) \<Rightarrow> lock_world \<Rightarrow> bool" where
  "own_ids ids w \<longleftrightarrow> (\<forall>i. tb_tab_id (lw_tabs w i) = [] \<or> tb_tab_id (lw_tabs w i) = ids i)"

lemma own_ids_step: "lock_step ids w w' \<Longrightarrow> own_ids ids w \<Longrightarrow> own_ids ids w'"
  by (induction rule: lock_step.induct)
    (auto simp: own_ids_def mount_def claim_def release_def hear_def Let_def split: option.splits)

lemma own_ids_reachable: "(lock_step ids)\<^sup>*\<^sup>* (opened entry) w \<Longrightarrow> own_ids ids w"
proof (induction rule: rtranclp_induct)
  case base
  then show ?case by (simp add: own_ids_def opened_def)
next
  case (step w w')
  show ?case using step(2,3) by (rule own_ids_step)
qed

text \<open>Who holds the Run.\<close>

definition holder :: "lock_world \<Rightarrow> string option" where
  "holder w = map_option tl_tab_id (read_lock (lw_entry w))"

lemma holder_step:
  "lock_step ids w w' \<Longrightarrow> holder w' \<noteq> holder w \<Longrightarrow>
   (\<exists>i now_iso. w' = claim now_iso i w \<and> holder w' = Some (tb_tab_id (lw_tabs w i))) \<or>
   (\<exists>i. w' = release i w \<and> holder w = Some (tb_tab_id (lw_tabs w i)) \<and> holder w' = None)"
proof (erule lock_stepE)
  fix i now_iso
  assume "holder w' \<noteq> holder w" and w': "w' = claim now_iso i w"
  then have "holder w' = Some (tb_tab_id (lw_tabs w i))"
    by (auto simp: holder_def claim_def Let_def read_write_lock split: if_splits)
  with w' show ?thesis by blast
next
  fix i
  assume "holder w' \<noteq> holder w" and w': "w' = release i w"
  then have "holder w = Some (tb_tab_id (lw_tabs w i)) \<and> holder w' = None"
    by (auto simp: holder_def release_def Let_def read_lock_def split: option.splits if_splits)
  with w' show ?thesis by blast
qed (auto simp: holder_def mount_def hear_def)

section \<open>Properties\<close>

text \<open>The browser of a Run is interactive exactly when the Run waits for a human, is not being
  cancelled, has no refused hand-back and this tab holds it; and of the card, the bar, the
  choice and the note at most one is shown, each only while the Run waits for a human.\<close>

theorem pane_interactive_iff:
  "(pw_frame (pane_view_of input) = Frame_interactive) =
     (pi_status input = Waiting_for_human \<and> \<not> pi_cancelling input \<and> \<not> pi_unmet_handback input \<and>
      pi_we_hold_control input) \<and>
   length (filter (\<lambda>b. b) [pw_show_waiting_card (pane_view_of input), pw_show_control_bar (pane_view_of input),
     pw_show_unmet_choice (pane_view_of input), pw_show_held_note (pane_view_of input)]) \<le> 1 \<and>
   (pw_show_control_bar (pane_view_of input) = (pw_frame (pane_view_of input) = Frame_interactive)) \<and>
   (pi_status input \<noteq> Waiting_for_human \<longrightarrow>
      pw_highlight (pane_view_of input) = Highlight_none \<and> \<not> pw_show_waiting_card (pane_view_of input))"
proof -
  show ?thesis
    by (cases "pi_status input") (simp_all add: pane_view_of_def base_view_def Let_def)
qed

text \<open>C39. The lock changes hands only by a claim, which always succeeds, or by the release of the
  tab that holds it: the release of any other tab leaves the holder as it is. A tab that
  has heard of the last change sees the Run as held elsewhere exactly when another tab
  holds it.\<close>

theorem takeover_lock_safety:
  assumes "(lock_step ids)\<^sup>*\<^sup>* (opened entry) w" and "inj ids" and "\<And>i. ids i \<noteq> []"
  shows "(\<forall>w'. lock_step ids w w' \<longrightarrow> holder w' \<noteq> holder w \<longrightarrow>
      (\<exists>i now_iso. w' = claim now_iso i w \<and> holder w' = Some (ids i)) \<or>
      (\<exists>i. w' = release i w \<and> holder w = Some (tb_tab_id (lw_tabs w i)) \<and> holder w' = None)) \<and>
    (\<forall>i j. holder w = Some (ids j) \<longrightarrow> i \<noteq> j \<longrightarrow> release i w = w) \<and>
    (\<forall>i now_iso. tb_tab_id (lw_tabs w i) \<noteq> [] \<longrightarrow> holder (claim now_iso i w) = Some (ids i)) \<and>
    (\<forall>i j. tb_tab_id (lw_tabs w i) \<noteq> [] \<longrightarrow> holder w = Some (ids j) \<longrightarrow>
      (seen_held_elsewhere (lw_tabs (hear i w) i) \<longleftrightarrow> i \<noteq> j))"
proof -
  have own: "tb_tab_id (lw_tabs w i) = [] \<or> tb_tab_id (lw_tabs w i) = ids i" for i
    using own_ids_reachable [OF assms(1)] by (simp add: own_ids_def)
  have claimed: "holder (claim now_iso i w) = Some (ids i)" if "tb_tab_id (lw_tabs w i) \<noteq> []" for i now_iso
    using that own [of i] by (auto simp: claim_def holder_def Let_def read_write_lock)
  have distinct: "tb_tab_id (lw_tabs w i) \<noteq> ids j" if "i \<noteq> j" for i j
    using own [of i] assms(2,3) that by (metis injD)
  have "(\<exists>i now_iso. w' = claim now_iso i w \<and> holder w' = Some (ids i)) \<or>
      (\<exists>i. w' = release i w \<and> holder w = Some (tb_tab_id (lw_tabs w i)) \<and> holder w' = None)"
    if "lock_step ids w w'" "holder w' \<noteq> holder w" for w'
    using holder_step [OF that]
  proof (elim disjE exE conjE)
    fix i now_iso
    assume w': "w' = claim now_iso i w"
    with that(2) have "tb_tab_id (lw_tabs w i) \<noteq> []" by (auto simp: claim_def Let_def)
    then show ?thesis using w' claimed by blast
  qed blast
  moreover have "release i w = w" if "holder w = Some (ids j)" "i \<noteq> j" for i j
    using that distinct [of i j] by (auto simp: release_def holder_def Let_def)
  moreover have "seen_held_elsewhere (lw_tabs (hear i w) i) \<longleftrightarrow> i \<noteq> j"
    if "tb_tab_id (lw_tabs w i) \<noteq> []" "holder w = Some (ids j)" for i j
    using that own [of i] distinct [of i j]
    by (auto simp: seen_held_elsewhere_def hear_def held_elsewhere_def holder_def)
  ultimately show ?thesis using claimed by blast
qed

theorem takeover_lock_safety_witness:
  "release 1 (claim ''t'' 0 (mount ''A'' 0 (opened None))) = claim ''t'' 0 (mount ''A'' 0 (opened None))"
proof -
  let ?ids = "\<lambda>i :: nat. replicate (Suc i) (CHR ''A'')"
  let ?w = "claim ''t'' 0 (mount ''A'' 0 (opened None))"
  have "lock_step ?ids (opened None) (mount ''A'' 0 (opened None))"
    using lock_step.mounts [of ?ids "opened None" 0] by simp
  moreover have "lock_step ?ids (mount ''A'' 0 (opened None)) ?w" by (rule lock_step.claims)
  ultimately have "(lock_step ?ids)\<^sup>*\<^sup>* (opened None) ?w" by simp
  moreover have "inj ?ids" by (rule injI) (metis length_replicate nat.inject)
  moreover have "?ids i \<noteq> []" for i by simp
  moreover have "holder ?w = Some (?ids 0)"
    by (simp add: holder_def claim_def mount_def read_write_lock Let_def)
  ultimately show ?thesis
    using takeover_lock_safety [of ?ids None ?w] by (metis zero_neq_one)
qed

end
