(* ===== verification/Urls.thy ===== *)
theory Urls
  imports JsValue
begin

text \<open>
  What the code uses of URLs: \<open>encodeURIComponent\<close>, \<open>replaceAll\<close> with a string,
  \<open>URLSearchParams\<close> (its parser, its serializer and its list of pairs) and the way a
  browser reads the target of a navigation. These are operations of the platform, as the
  URL Standard gives them; the two encoders are interpreted as codecs of one decoder.
\<close>

section \<open>Percent encoding\<close>

definition hex_upper :: "nat \<Rightarrow> char" where
  "hex_upper d = (if d < 10 then char_of (48 + d) else char_of (55 + d))"

definition hex_value :: "char \<Rightarrow> nat option" where
  "hex_value c =
     (if is_digit c then Some (code c - 48)
      else if 65 \<le> code c \<and> code c \<le> 70 then Some (code c - 55)
      else if 97 \<le> code c \<and> code c \<le> 102 then Some (code c - 87)
      else None)"

definition percent :: "char \<Rightarrow> string" where
  "percent c = [CHR ''%'', hex_upper (code c div 16), hex_upper (code c mod 16)]"

fun percent_decode :: "string \<Rightarrow> string" where
  "percent_decode [] = []"
| "percent_decode (c # a # b # s) =
     (if c = CHR ''%'' then
        (case (hex_value a, hex_value b) of
           (Some x, Some y) \<Rightarrow> char_of (16 * x + y) # percent_decode s
         | _ \<Rightarrow> c # percent_decode (a # b # s))
      else c # percent_decode (a # b # s))"
| "percent_decode (c # s) = c # percent_decode s"

text \<open>A value of a query is decoded after each \<open>+\<close> is read as a space.\<close>

definition plus_to_space :: "char \<Rightarrow> char" where
  "plus_to_space c = (if c = CHR ''+'' then CHR '' '' else c)"

definition form_decode :: "string \<Rightarrow> string" where
  "form_decode s = percent_decode (map plus_to_space s)"

lemma code_char_of [simp]: "n < 256 \<Longrightarrow> code (char_of n) = n"
  by (simp add: code_def)

lemma code_less: "code c < 256"
  by (simp add: code_def)

lemma hex_value_upper: "d < 16 \<Longrightarrow> hex_value (hex_upper d) = Some d"
  by (auto simp: hex_value_def hex_upper_def is_digit_def)

lemma hex_upper_range: "d < 16 \<Longrightarrow> 48 \<le> code (hex_upper d) \<and> code (hex_upper d) \<le> 70"
  by (simp add: hex_upper_def)

lemma hex_upper_not: "d < 16 \<Longrightarrow> code c < 48 \<or> 70 < code c \<Longrightarrow> hex_upper d \<noteq> c"
  using hex_upper_range [of d] by auto

lemma hex_upper_inject: "d < 16 \<Longrightarrow> e < 16 \<Longrightarrow> hex_upper d = hex_upper e \<longleftrightarrow> d = e"
  by (metis hex_value_upper option.inject)

lemma code_div_16 [simp]: "code c div 16 < 16"
  using code_less [of c] by simp

text \<open>How an encoder writes one character, when \<open>form_decode\<close> is to read it back.\<close>

definition decodable :: "(char \<Rightarrow> string) \<Rightarrow> bool" where
  "decodable enc \<longleftrightarrow>
     (\<forall>c. enc c = percent c \<or> enc c = [c] \<and> c \<noteq> CHR ''%'' \<and> c \<noteq> CHR ''+'' \<or>
          enc c = ''+'' \<and> c = CHR '' '')"

lemma plus_to_space_hex: "d < 16 \<Longrightarrow> plus_to_space (hex_upper d) = hex_upper d"
  using hex_upper_range [of d] by (auto simp: plus_to_space_def code_def)

lemma plus_to_space_percent: "map plus_to_space (percent c) = percent c"
  by (simp add: percent_def plus_to_space_hex) (simp add: plus_to_space_def)

lemma char_of_code: "char_of (code c) = c"
  by (simp add: code_def)

lemma percent_decode_percent: "percent_decode (percent c @ s) = c # percent_decode s"
  by (simp add: percent_def hex_value_upper char_of_code)

lemma percent_decode_plain: "c \<noteq> CHR ''%'' \<Longrightarrow> percent_decode (c # s) = c # percent_decode s"
proof (cases s)
  case (Cons a t)
  then show "c \<noteq> CHR ''%'' \<Longrightarrow> ?thesis" by (cases t) auto
qed simp

lemma form_decode_encoded:
  assumes "decodable enc"
  shows "form_decode (concat (map enc s)) = s"
proof (induction s)
  case Nil
  then show ?case by (simp add: form_decode_def)
next
  case (Cons c s)
  from assms consider "enc c = percent c"
    | "enc c = [c]" "c \<noteq> CHR ''%''" "c \<noteq> CHR ''+''"
    | "enc c = ''+''" "c = CHR '' ''"
    unfolding decodable_def by blast
  then show ?case
    using Cons
    by cases
      (simp_all add: form_decode_def plus_to_space_percent percent_decode_percent
        percent_decode_plain plus_to_space_def)
qed

text \<open>\<open>encodeURIComponent\<close> keeps these characters and escapes every other byte of the text.\<close>

definition uri_safe :: "char \<Rightarrow> bool" where
  "uri_safe c \<longleftrightarrow> is_digit c \<or> is_upper c \<or> is_lower c \<or> c \<in> set ''-_.!~*()'' \<or> c = CHR 0x27"

definition uri_char :: "char \<Rightarrow> string" where
  "uri_char c = (if uri_safe c then [c] else percent c)"

definition encode_uri_component :: "string \<Rightarrow> string" where
  "encode_uri_component s = concat (map uri_char s)"

text \<open>The serializer of \<open>URLSearchParams\<close> (\<open>application/x-www-form-urlencoded\<close>).\<close>

definition form_safe :: "char \<Rightarrow> bool" where
  "form_safe c \<longleftrightarrow> is_digit c \<or> is_upper c \<or> is_lower c \<or> c \<in> set ''*-._''"

definition form_char :: "char \<Rightarrow> string" where
  "form_char c = (if c = CHR '' '' then ''+'' else if form_safe c then [c] else percent c)"

definition form_encode :: "string \<Rightarrow> string" where
  "form_encode s = concat (map form_char s)"

lemma uri_safe_plain: "uri_safe c \<Longrightarrow> c \<notin> set ''%+&=?#/''"
  by (auto simp: uri_safe_def is_digit_def is_upper_def is_lower_def code_def)

lemma form_safe_plain: "form_safe c \<Longrightarrow> c \<notin> set ''%+&=?#/''"
  by (auto simp: form_safe_def is_digit_def is_upper_def is_lower_def code_def)

lemma decodable_uri: "decodable uri_char"
  using uri_safe_plain by (auto simp: decodable_def uri_char_def)

lemma decodable_form: "decodable form_char"
  using form_safe_plain by (auto simp: decodable_def form_char_def)

interpretation uri: codec encode_uri_component "\<lambda>s. Some (form_decode s)" "\<lambda>_. True"
  by unfold_locales (simp add: encode_uri_component_def form_decode_encoded decodable_uri)

interpretation form: codec form_encode "\<lambda>s. Some (form_decode s)" "\<lambda>_. True"
  by unfold_locales (simp add: form_encode_def form_decode_encoded decodable_form)

lemma percent_chars: "x \<in> set (percent c) \<Longrightarrow> x \<notin> set ''+&=?#/''"
proof -
  assume "x \<in> set (percent c)"
  then consider "x = CHR ''%''" | "48 \<le> code x \<and> code x \<le> 70 \<and> x \<in> range hex_upper \<and> (\<exists>d < 16. x = hex_upper d)"
    using hex_upper_range by (force simp: percent_def)
  then show ?thesis
  proof cases
    case 2
    then obtain d where "d < 16" "x = hex_upper d" by blast
    then have "is_digit x \<or> is_upper x"
      by (auto simp: hex_upper_def is_digit_def is_upper_def)
    then show ?thesis by (auto simp: is_digit_def is_upper_def code_def)
  qed auto
qed

lemma form_encode_chars: "x \<in> set (form_encode s) \<Longrightarrow> x \<notin> set ''&=?#''"
  using percent_chars form_safe_plain
  by (fastforce simp: form_encode_def form_char_def split: if_splits)

section \<open>replaceAll\<close>

text \<open>\<open>s.replaceAll(pat, rep)\<close> for a non-empty \<open>pat\<close>: from the left, without overlaps.\<close>

function replace_all :: "string \<Rightarrow> string \<Rightarrow> string \<Rightarrow> string" where
  "replace_all pat rep s =
     (case s of
        [] \<Rightarrow> []
      | c # t \<Rightarrow>
          if pat \<noteq> [] \<and> prefix pat s then rep @ replace_all pat rep (drop (length pat) s)
          else c # replace_all pat rep t)"
  by pat_completeness auto
termination
  by (relation "measure (\<lambda>(pat, rep, s). length s)") auto

declare replace_all.simps [simp del]

lemma replace_all_Nil [simp]: "replace_all pat rep [] = []"
  by (simp add: replace_all.simps)

lemma replace_all_skip: "\<not> prefix pat (c # t) \<Longrightarrow> replace_all pat rep (c # t) = c # replace_all pat rep t"
  by (simp add: replace_all.simps [of pat rep "c # t"])

lemma replace_all_hit:
  assumes "pat \<noteq> []"
  shows "replace_all pat rep (pat @ t) = rep @ replace_all pat rep t"
proof -
  obtain c u where s: "pat @ t = c # u"
    using assms by (cases pat) auto
  then have "prefix pat (c # u)" "drop (length pat) (c # u) = t"
    by (metis prefixI, metis append_eq_conv_conj)
  with s assms show ?thesis
    by (simp add: replace_all.simps [of pat rep "c # u"])
qed

section \<open>The query of a URL\<close>

text \<open>\<open>s.slice(0, i)\<close> and \<open>s.slice(i + 1)\<close> around the first \<open>c\<close>; all of \<open>s\<close> when there is none.\<close>

fun before :: "char \<Rightarrow> string \<Rightarrow> string" where
  "before c [] = []"
| "before c (d # s) = (if d = c then [] else d # before c s)"

fun after :: "char \<Rightarrow> string \<Rightarrow> string" where
  "after c [] = []"
| "after c (d # s) = (if d = c then s else after c s)"

lemma before_append [simp]: "c \<notin> set s \<Longrightarrow> before c (s @ c # t) = s"
  by (induction s) auto

lemma before_id [simp]: "c \<notin> set s \<Longrightarrow> before c s = s"
  by (induction s) auto

lemma after_id: "c \<notin> set s \<Longrightarrow> after c s = []"
  by (induction s) auto

lemma after_append [simp]: "c \<notin> set s \<Longrightarrow> after c (s @ c # t) = t"
  by (induction s) auto

type_synonym params = "(string \<times> string) list"

text \<open>\<open>location.search\<close> of a URL of the app, without its question mark.\<close>

definition query_of :: "string \<Rightarrow> string" where
  "query_of url = after (CHR ''?'') (before (CHR ''#'') url)"

text \<open>\<open>new URLSearchParams(query)\<close>, \<open>get\<close>, \<open>delete\<close>, \<open>set\<close> and \<open>toString\<close>.\<close>

definition parse_pair :: "string \<Rightarrow> string \<times> string" where
  "parse_pair piece = (form_decode (before (CHR ''='') piece), form_decode (after (CHR ''='') piece))"

definition parse_params :: "string \<Rightarrow> params" where
  "parse_params query = map parse_pair (filter (\<lambda>piece. piece \<noteq> []) (split_on (CHR ''&'') query))"

definition params_get :: "params \<Rightarrow> string \<Rightarrow> string option" where
  "params_get ps name = map_of ps name"

definition params_delete :: "params \<Rightarrow> string \<Rightarrow> params" where
  "params_delete ps name = filter (\<lambda>p. fst p \<noteq> name) ps"

text \<open>\<open>set\<close> writes the value at the first pair of that name, drops the others, or appends.\<close>

fun params_set :: "params \<Rightarrow> string \<Rightarrow> string \<Rightarrow> params" where
  "params_set [] name v = [(name, v)]"
| "params_set ((n, w) # ps) name v =
     (if n = name then (name, v) # params_delete ps name else (n, w) # params_set ps name v)"

definition show_pair :: "string \<times> string \<Rightarrow> string" where
  "show_pair p = form_encode (fst p) @ ''='' @ form_encode (snd p)"

definition show_params :: "params \<Rightarrow> string" where
  "show_params ps = join ''&'' (map show_pair ps)"

lemma parse_show_pair: "parse_pair (show_pair p) = p"
proof -
  have no: "CHR ''='' \<notin> set (form_encode (fst p))"
    using form_encode_chars by fastforce
  show ?thesis
    using form.dec_enc by (simp add: parse_pair_def show_pair_def no)
qed

lemma show_pair_chars: "CHR ''&'' \<notin> set (show_pair p)" "CHR ''#'' \<notin> set (show_pair p)" "show_pair p \<noteq> []"
  using form_encode_chars by (fastforce simp: show_pair_def)+

lemma parse_show_params: "parse_params (show_params ps) = ps"
proof (cases "ps = []")
  case False
  then have "split_on (CHR ''&'') (show_params ps) = map show_pair ps"
    unfolding show_params_def using show_pair_chars(1) by (intro split_on_join) auto
  moreover have "filter (\<lambda>piece. piece \<noteq> []) (map show_pair ps) = map show_pair ps"
    using show_pair_chars(3) by (induction ps) auto
  ultimately show ?thesis
    using False by (simp add: parse_params_def comp_def parse_show_pair)
qed (simp add: parse_params_def show_params_def)

interpretation params: codec show_params "\<lambda>s. Some (parse_params s)" "\<lambda>_. True"
  by unfold_locales (simp add: parse_show_params)

lemma params_get_delete: "params_get (params_delete ps k) n = (if n = k then None else params_get ps n)"
  by (induction ps) (auto simp: params_get_def params_delete_def)

lemma params_get_set: "params_get (params_set ps k v) n = (if n = k then Some v else params_get ps n)"
proof (induction ps)
  case (Cons p ps)
  obtain m w where "p = (m, w)" by force
  with Cons show ?case
    using params_get_delete [of ps k n] by (auto simp: params_get_def)
qed (simp add: params_get_def)

section \<open>The target of a navigation\<close>

text \<open>
  A browser drops the control characters and spaces around a URL and every tab, line feed
  and carriage return in it; then two slashes (either way round) at its start name a host.
\<close>

definition url_dropped :: "char \<Rightarrow> bool" where
  "url_dropped c \<longleftrightarrow> c \<in> {CHR 0x09, CHR 0x0A, CHR 0x0D}"

definition url_blank :: "char \<Rightarrow> bool" where
  "url_blank c \<longleftrightarrow> code c \<le> 32"

definition url_clean :: "string \<Rightarrow> string" where
  "url_clean s = filter (\<lambda>c. \<not> url_dropped c) (rev (dropWhile url_blank (rev (dropWhile url_blank s))))"

definition slashed :: "char \<Rightarrow> bool" where
  "slashed c \<longleftrightarrow> c = CHR ''/'' \<or> c = CHR 0x5C"

text \<open>Whether a URL that starts with a slash names a host of its own.\<close>

definition names_host :: "string \<Rightarrow> bool" where
  "names_host s = (case url_clean s of a # b # _ \<Rightarrow> slashed a \<and> slashed b | _ \<Rightarrow> False)"

end
