(* ===== verification/Gate.thy ===== *)
theory Gate
  imports Urls ApiTypes
begin

text \<open>
  Who may see which page (\<open>lib/gate.ts\<close>), what the client does with a refused request
  (\<open>lib/api.ts\<close>), how a visitor leaves (\<open>lib/identity.ts\<close>), which section the
  navigation marks (\<open>nav.ts\<close>) and which Organization is active
  (\<open>lib/active-org.ts\<close>). The router, the cache and the API are what the effects are
  handed to.
\<close>

section \<open>The gate\<close>

datatype gate = Render | Redirect string

definition sign_in_path :: string where
  "sign_in_path = ''/signin''"

definition home_path :: string where
  "home_path = ''/workflows''"

definition account_path :: string where
  "account_path = ''/settings/account''"

definition invitations_path :: string where
  "invitations_path = ''/settings/organization/invitations''"

text \<open>\<open>indexOf("?")\<close> and \<open>slice\<close>: the part before the first question mark.\<close>

definition path_of :: "string \<Rightarrow> string" where
  "path_of pathname = before (CHR ''?'') pathname"

definition is_auth_route :: "string \<Rightarrow> bool" where
  "is_auth_route path \<longleftrightarrow> path = sign_in_path"

definition is_own_path :: "string \<Rightarrow> bool" where
  "is_own_path candidate \<longleftrightarrow>
     prefix ''/'' candidate \<and> \<not> prefix ''//'' candidate \<and> \<not> prefix [CHR ''/'', CHR 0x5C] candidate"

definition encode_carried_path :: "string \<Rightarrow> string" where
  "encode_carried_path path = replace_all ''%2F'' ''/'' (encode_uri_component path)"

definition sign_in_path_for :: "string \<Rightarrow> string" where
  "sign_in_path_for wanted = sign_in_path @ ''?next='' @ encode_carried_path wanted"

definition resolve_gate :: "account option \<Rightarrow> role option \<Rightarrow> string \<Rightarrow> gate" where
  "resolve_gate me active_org_role pathname =
     (let path = path_of pathname in
      if me = None then
        (if is_auth_route path then Render else Redirect (sign_in_path_for pathname))
      else if is_auth_route path then Redirect home_path
      else if path = invitations_path \<and> active_org_role = Some Member_role then Redirect account_path
      else Render)"

definition landing_after_sign_in :: "string option \<Rightarrow> string" where
  "landing_after_sign_in next_path =
     (case next_path of
        None \<Rightarrow> home_path
      | Some p \<Rightarrow>
          if p = [] \<or> \<not> is_own_path p \<or> is_auth_route (path_of p) then home_path else p)"

section \<open>What the client does with a response\<close>

definition current_path :: "string \<Rightarrow> string \<Rightarrow> string" where
  "current_path pathname search = pathname @ search"

text \<open>The navigation a response causes, if any.\<close>

definition unauthorized_redirect :: "int \<Rightarrow> string \<Rightarrow> string option" where
  "unauthorized_redirect status here =
     (if status = 401 then
        (case resolve_gate None None here of Redirect to \<Rightarrow> Some to | Render \<Rightarrow> None)
      else None)"

text \<open>\<open>String(v)\<close>.\<close>

fun string_of_js :: "js \<Rightarrow> string" and item_strings :: "js list \<Rightarrow> string list" where
  "string_of_js Undefined = ''undefined''"
| "string_of_js Null = ''null''"
| "string_of_js (Bool b) = (if b then ''true'' else ''false'')"
| "string_of_js (Number n) = show_num n"
| "string_of_js (Str s) = s"
| "string_of_js (Arr xs) = join '','' (item_strings xs)"
| "string_of_js (Obj ob) = ''[object Object]''"
| "item_strings [] = []"
| "item_strings (x # xs) =
     (case x of Undefined \<Rightarrow> [] | Null \<Rightarrow> [] | _ \<Rightarrow> string_of_js x) # item_strings xs"

text \<open>The code of a refusal; \<open>None\<close> as the body is one that is not JSON.\<close>

definition refusal_code :: "js option \<Rightarrow> string option" where
  "refusal_code body =
     (case body of
        Some (Obj ob) \<Rightarrow> if has_key ob ''code'' then Some (string_of_js (field ob ''code'')) else None
      | _ \<Rightarrow> None)"

definition membership_lapsed :: "int \<Rightarrow> js option \<Rightarrow> bool" where
  "membership_lapsed status body \<longleftrightarrow> status = 403 \<and> refusal_code body = Some ''not_a_member''"

section \<open>Leaving\<close>

datatype leaving = Clear_cache | Navigate string

definition let_go :: "leaving list" where
  "let_go = [Clear_cache, Navigate sign_in_path]"

text \<open>A deletion that is refused raises, and nothing is let go.\<close>

definition delete_account_and_leave :: "'e option \<Rightarrow> 'e + leaving list" where
  "delete_account_and_leave error = (case error of Some e \<Rightarrow> Inl e | None \<Rightarrow> Inr let_go)"

section \<open>The navigation\<close>

definition is_current_section :: "string \<Rightarrow> string \<Rightarrow> bool" where
  "is_current_section pathname destination =
     (let path = before (CHR ''?'') pathname
      in path = destination \<or> prefix (destination @ ''/'') path)"

section \<open>The active Organization\<close>

definition orgs_of :: "account option \<Rightarrow> organization_membership list" where
  "orgs_of me = (case me of None \<Rightarrow> [] | Some a \<Rightarrow> acc_orgs a)"

definition active_organization ::
    "account option \<Rightarrow> string option \<Rightarrow> organization_membership option" where
  "active_organization me remembered =
     (let orgs = orgs_of me in
      case find (\<lambda>org. Some (om_id org) = remembered) orgs of
        Some org \<Rightarrow> Some org
      | None \<Rightarrow> at orgs 0)"

definition offers_a_switcher :: "account option \<Rightarrow> bool" where
  "offers_a_switcher me \<longleftrightarrow> 1 < length (orgs_of me)"

section \<open>The path that is carried through sign-in\<close>

definition carried_char :: "char \<Rightarrow> string" where
  "carried_char c = (if c = CHR ''/'' then ''/'' else uri_char c)"

lemma hex_pair_not_slash:
  assumes "c \<noteq> CHR ''/''"
  shows "\<not> (hex_upper (code c div 16) = CHR ''2'' \<and> hex_upper (code c mod 16) = CHR ''F'')"
proof
  assume eq: "hex_upper (code c div 16) = CHR ''2'' \<and> hex_upper (code c mod 16) = CHR ''F''"
  have "CHR ''2'' = hex_upper 2" "CHR ''F'' = hex_upper 15"
    by code_simp+
  with eq have "hex_upper (code c div 16) = hex_upper 2" "hex_upper (code c mod 16) = hex_upper 15"
    by simp_all
  then have "code c div 16 = 2" "code c mod 16 = 15"
    by (simp_all add: hex_upper_inject)
  then have "code c = code (CHR ''/'')"
    using div_mult_mod_eq [of "code c" 16] by (simp add: code_def)
  then have "c = CHR ''/''" by (rule code_inject [THEN iffD1])
  with assms show False by contradiction
qed

lemma replace_skips_percent:
  assumes "c \<noteq> CHR ''/''"
  shows "replace_all ''%2F'' ''/'' (percent c @ s) = percent c @ replace_all ''%2F'' ''/'' s"
proof -
  have hex: "hex_upper d \<noteq> CHR ''%''" if "d < 16" for d
    using that by (rule hex_upper_not) (simp add: code_def)
  show ?thesis
    using hex_pair_not_slash [OF assms] hex [of "code c div 16"] hex [of "code c mod 16"]
    by (auto simp: percent_def replace_all_skip)
qed

lemma percent_slash: "percent (CHR ''/'') = ''%2F''"
  by code_simp

lemma encode_carried_path_chars: "encode_carried_path p = concat (map carried_char p)"
proof (induction p)
  case Nil
  then show ?case by (simp add: encode_carried_path_def encode_uri_component_def)
next
  case (Cons c p)
  then have IH: "replace_all ''%2F'' ''/'' (concat (map uri_char p)) = concat (map carried_char p)"
    by (simp add: encode_carried_path_def encode_uri_component_def)
  consider "c = CHR ''/''" | "c \<noteq> CHR ''/''" "uri_safe c" | "c \<noteq> CHR ''/''" "\<not> uri_safe c"
    by blast
  then have "replace_all ''%2F'' ''/'' (uri_char c @ concat (map uri_char p)) =
      carried_char c @ concat (map carried_char p)"
  proof cases
    case 1
    moreover have "\<not> uri_safe (CHR ''/'')" using uri_safe_plain by fastforce
    ultimately show ?thesis
      using replace_all_hit [of "''%2F''" "''/''"] IH
      by (simp add: uri_char_def carried_char_def percent_slash)
  next
    case 2
    then have "c \<noteq> CHR ''%''" using uri_safe_plain by fastforce
    with 2 IH show ?thesis
      by (simp add: uri_char_def carried_char_def replace_all_skip)
  next
    case 3
    with IH show ?thesis
      by (simp add: uri_char_def carried_char_def replace_skips_percent)
  qed
  then show ?case
    by (simp add: encode_carried_path_def encode_uri_component_def)
qed

lemma decodable_carried: "decodable carried_char"
  using decodable_uri by (auto simp: decodable_def carried_char_def)

interpretation carried: codec encode_carried_path "\<lambda>s. Some (form_decode s)" "\<lambda>_. True"
  by unfold_locales (simp add: encode_carried_path_chars form_decode_encoded decodable_carried)

lemma carried_chars: "x \<in> set (encode_carried_path p) \<Longrightarrow> x \<notin> set ''&=?#''"
  using percent_chars uri_safe_plain
  by (fastforce simp: encode_carried_path_chars carried_char_def uri_char_def split: if_splits)

lemma next_of_sign_in_path: "params_get (parse_params (query_of (sign_in_path_for p))) ''next'' = Some p"
proof -
  have no: "x \<notin> set (encode_carried_path p)" if "x \<in> set ''&=?#''" for x
    using carried_chars that by blast
  have "query_of (sign_in_path_for p) = ''next='' @ encode_carried_path p"
    by (simp add: query_of_def sign_in_path_for_def sign_in_path_def no)
  moreover have "split_on (CHR ''&'') (''next='' @ encode_carried_path p) = [''next='' @ encode_carried_path p]"
    by (rule split_on_plain) (simp add: no)
  moreover have "form_decode ''next'' = ''next''"
    by (simp add: form_decode_def plus_to_space_def)
  ultimately show ?thesis
    using carried.dec_enc by (simp add: params_get_def parse_params_def parse_pair_def no)
qed

lemma path_of_sign_in_path_for: "path_of (sign_in_path_for p) = sign_in_path"
  by (simp add: path_of_def sign_in_path_for_def sign_in_path_def)

lemmas gate_paths = sign_in_path_def home_path_def account_path_def invitations_path_def

text \<open>A visitor who is sent to sign in lands, once signed in, where they were going: the path is
  carried through the query of the sign-in page and read back unchanged, whatever
  characters it holds; what is not a path of the app lands on the Workflows.\<close>

theorem carried_path_returns:
  assumes "\<not> is_auth_route (path_of p)"
  shows "\<exists>to. resolve_gate None role p = Redirect to \<and> path_of to = sign_in_path \<and>
     landing_after_sign_in (params_get (parse_params (query_of to)) ''next'') =
       (if is_own_path p then p else home_path)"
proof -
  have "landing_after_sign_in (Some p) = (if is_own_path p then p else home_path)"
    using assms by (auto simp: landing_after_sign_in_def is_own_path_def)
  then show ?thesis
    using assms by (simp add: resolve_gate_def next_of_sign_in_path path_of_sign_in_path_for)
qed

theorem carried_path_returns_witness:
  "\<exists>to. resolve_gate None None ''/runs?status=failed&q=a+b'' = Redirect to \<and> path_of to = sign_in_path \<and>
     landing_after_sign_in (params_get (parse_params (query_of to)) ''next'') = ''/runs?status=failed&q=a+b''"
proof -
  have auth: "\<not> is_auth_route (path_of ''/runs?status=failed&q=a+b'')"
    and own: "is_own_path ''/runs?status=failed&q=a+b''"
    by (simp_all add: is_auth_route_def path_of_def sign_in_path_def is_own_path_def)
  show ?thesis
    using carried_path_returns [OF auth, of None] own by simp
qed

text \<open>The gate settles: the page a redirect leads to is rendered for the same visitor, so no
  visitor is sent round in circles; and the page after sign-in is rendered too, unless it
  is the one page a member is kept out of.\<close>

theorem gate_settles:
  assumes "resolve_gate me active_role p = Redirect to"
  shows "resolve_gate me active_role to = Render \<and>
     (resolve_gate (Some a) active_role (landing_after_sign_in nxt) = Render \<or>
      path_of (landing_after_sign_in nxt) = invitations_path \<and> active_role = Some Member_role)"
proof -
  have "path_of home_path = home_path" "path_of account_path = account_path"
    by (simp_all add: path_of_def gate_paths)
  with assms have "resolve_gate me active_role to = Render"
    by (auto simp: resolve_gate_def Let_def is_auth_route_def path_of_sign_in_path_for
        gate_paths split: if_splits)
  moreover have "\<not> is_auth_route (path_of (landing_after_sign_in nxt))"
    by (auto simp: landing_after_sign_in_def is_auth_route_def path_of_def gate_paths
        split: option.splits)
  ultimately show ?thesis
    by (auto simp: resolve_gate_def Let_def)
qed

definition sample_account :: account where
  "sample_account = \<lparr>acc_id = ''u1'', acc_email = ''ada@example.com'', acc_display_name = None,
     acc_orgs = [], acc_invitations = []\<rparr>"

theorem gate_settles_witness:
  "resolve_gate None None ''/signin?next=/runs'' = Render \<and>
   resolve_gate (Some sample_account) None (landing_after_sign_in (Some ''/runs'')) = Render"
proof -
  have "encode_carried_path ''/runs'' = ''/runs''"
    by (simp add: encode_carried_path_chars carried_char_def uri_char_def uri_safe_def is_lower_def code_def)
  then have "resolve_gate None None ''/runs'' = Redirect ''/signin?next=/runs''"
    by (simp add: resolve_gate_def is_auth_route_def path_of_def sign_in_path_def sign_in_path_for_def)
  from gate_settles [OF this, of sample_account "Some ''/runs''"] show ?thesis by blast
qed

lemma own_path_names_no_host:
  assumes "is_own_path p" and "\<forall>c \<in> set p. \<not> url_dropped c"
  shows "\<not> names_host p"
proof -
  obtain s where p: "p = CHR ''/'' # s"
    using assms(1) by (auto simp: is_own_path_def prefix_def)
  have "url_clean p = rev (dropWhile url_blank (rev p))"
  proof -
    have "dropWhile url_blank p = p"
      by (simp add: p url_blank_def code_def)
    moreover have "filter (\<lambda>c. \<not> url_dropped c) (rev (dropWhile url_blank (rev p))) =
        rev (dropWhile url_blank (rev p))"
      using assms(2) by (intro filter_True) (auto dest: set_dropWhileD)
    ultimately show ?thesis by (simp add: url_clean_def)
  qed
  moreover have "prefix (rev (dropWhile url_blank (rev p))) p"
    using suffix_dropWhile [of url_blank "rev p"] by (simp add: suffix_to_prefix)
  ultimately have "prefix (url_clean p) p" by simp
  then show ?thesis
    using assms(1) p
    by (auto simp: names_host_def is_own_path_def slashed_def prefix_def split: list.splits)
qed

text \<open>A \<open>next\<close> that holds no tab, line feed or carriage return never leads to another
  host. With one of them it can: the browser drops the character, and the two slashes
  around it name a host (the witness).\<close>

theorem landing_stays_here:
  assumes "\<And>n c. nxt = Some n \<Longrightarrow> c \<in> set n \<Longrightarrow> \<not> url_dropped c"
  shows "\<not> names_host (landing_after_sign_in nxt)"
proof -
  have "\<not> names_host home_path"
    by (rule own_path_names_no_host) (simp_all add: gate_paths is_own_path_def url_dropped_def)
  then show ?thesis
    using assms own_path_names_no_host
    by (auto simp: landing_after_sign_in_def split: option.splits)
qed

theorem landing_stays_here_witness:
  "\<not> names_host (landing_after_sign_in (Some ''//evil.example/x'')) \<and>
   landing_after_sign_in (Some [CHR ''/'', CHR 0x09, CHR ''/'', CHR ''e'']) = [CHR ''/'', CHR 0x09, CHR ''/'', CHR ''e''] \<and>
   names_host (landing_after_sign_in (Some [CHR ''/'', CHR 0x09, CHR ''/'', CHR ''e'']))"
proof (intro conjI)
  show "\<not> names_host (landing_after_sign_in (Some ''//evil.example/x''))"
    by (rule landing_stays_here) (auto simp: url_dropped_def)
  show lands: "landing_after_sign_in (Some [CHR ''/'', CHR 0x09, CHR ''/'', CHR ''e'']) =
      [CHR ''/'', CHR 0x09, CHR ''/'', CHR ''e'']"
    by (simp add: landing_after_sign_in_def is_own_path_def is_auth_route_def path_of_def sign_in_path_def)
  show "names_host (landing_after_sign_in (Some [CHR ''/'', CHR 0x09, CHR ''/'', CHR ''e'']))"
    unfolding lands by (simp add: names_host_def url_clean_def url_blank_def url_dropped_def slashed_def code_def)
qed

text \<open>The active Organization is one of the visitor's: the remembered one while they belong to it.\<close>

lemma active_organization_member:
  "active_organization me remembered = Some org \<Longrightarrow> org \<in> set (orgs_of me)"
  by (auto simp: active_organization_def Let_def at_in_set split: option.splits dest: find_Some_iff_ex)

lemma active_organization_remembered:
  assumes "org \<in> set (orgs_of me)" and "distinct (map om_id (orgs_of me))"
  shows "active_organization me (Some (om_id org)) = Some org"
proof (cases "find (\<lambda>o'. Some (om_id o') = Some (om_id org)) (orgs_of me)")
  case None
  with assms(1) show ?thesis by (auto simp: find_None_iff)
next
  case (Some org')
  then have "org' = org"
    using assms distinct_mapD [OF assms(2)] by (auto dest!: find_Some_iff_ex)
  with Some show ?thesis by (simp add: active_organization_def)
qed

lemma active_organization_None: "active_organization me remembered = None \<longleftrightarrow> orgs_of me = []"
  by (auto simp: active_organization_def Let_def at_def split: option.splits dest: find_Some_iff_ex)

end
