(* ===== verification/Preferences.thy ===== *)
theory Preferences
  imports Urls RunPresentation
begin

text \<open>
  What the app remembers in the browser and shows around every page: the choice of an
  Organization and of a theme (\<open>lib/active-org.ts\<close>, \<open>lib/theme.ts\<close>), the labels of
  the states (\<open>lib/labels.ts\<close>), the attention counts (\<open>lib/attention.ts\<close>) and the
  filters of a list in its URL (\<open>lib/cursor-list.ts\<close>, \<open>hooks/use-cursor-list.ts\<close>).

  The local storage is a map from keys to strings; \<open>None\<close> in place of it is a page that is
  rendered on the server, where there is no storage. The callbacks that watch a choice are
  known by a name, and a choice returns the ones it calls.
\<close>

type_synonym storage = "string \<Rightarrow> string option"

section \<open>A choice that is remembered\<close>

text \<open>
  Both choices have one interface: a choice is written to the storage under one key and read
  back from it, and no other key is touched.
\<close>

locale choice_store =
  fixes store :: "'c \<Rightarrow> storage \<Rightarrow> storage"
    and recall :: "storage \<Rightarrow> 'c"
    and key :: string
  assumes recall_store: "recall (store c st) = c"
    and store_other: "k \<noteq> key \<Longrightarrow> store c st k = st k"
    and recall_key: "st key = st' key \<Longrightarrow> recall st = recall st'"
begin

lemma recall_last: "recall (foldl (\<lambda>st c. store c st) st (cs @ [c])) = c"
  by (simp add: recall_store)

lemma writes_other: "k \<noteq> key \<Longrightarrow> foldl (\<lambda>st c. store c st) st cs k = st k"
  by (induction cs arbitrary: st) (simp_all add: store_other)

lemma recall_unrelated: "k \<noteq> key \<Longrightarrow> recall (st(k := v)) = recall st"
  by (rule recall_key) simp

end

subsection \<open>The Organization\<close>

definition active_organization_key :: string where
  "active_organization_key = ''step-by-step:active-organization''"

definition remembered_organization :: "storage option \<Rightarrow> string option" where
  "remembered_organization browser =
     (case browser of None \<Rightarrow> None | Some st \<Rightarrow> st active_organization_key)"

definition store_organization :: "string option \<Rightarrow> storage \<Rightarrow> storage" where
  "store_organization org_id st =
     (case org_id of
        None \<Rightarrow> st(active_organization_key := None)
      | Some i \<Rightarrow> st(active_organization_key := Some i))"

definition remember_organization :: "string option \<Rightarrow> storage option \<Rightarrow> storage option" where
  "remember_organization org_id browser = map_option (store_organization org_id) browser"

definition organization_choice :: "storage option \<Rightarrow> string option" where
  "organization_choice browser = remembered_organization browser"

definition choose_organization ::
    "string option \<Rightarrow> storage option \<Rightarrow> string list \<Rightarrow> storage option \<times> string list" where
  "choose_organization org_id browser watchers = (remember_organization org_id browser, watchers)"

text \<open>The set of watchers keeps the order they were added in, and each of them once.\<close>

definition watch :: "string \<Rightarrow> string list \<Rightarrow> string list" where
  "watch watcher watchers = (if watcher \<in> set watchers then watchers else watchers @ [watcher])"

definition unwatch :: "string \<Rightarrow> string list \<Rightarrow> string list" where
  "unwatch watcher watchers = filter (\<lambda>w. w \<noteq> watcher) watchers"

lemma watch_distinct: "distinct ws \<Longrightarrow> distinct (watch w ws)"
  by (simp add: watch_def)

lemma unwatch_watch: "w \<notin> set ws \<Longrightarrow> unwatch w (watch w ws) = ws"
  by (induction ws) (auto simp: watch_def unwatch_def)

interpretation organization:
  choice_store store_organization "\<lambda>st. remembered_organization (Some st)" active_organization_key
  by unfold_locales (auto simp: store_organization_def remembered_organization_def split: option.splits)

subsection \<open>The theme\<close>

datatype theme_choice = System_choice | Light_choice | Dark_choice

datatype theme = Light | Dark

definition theme_key :: string where
  "theme_key = ''step-by-step:theme''"

definition theme_choices :: "(theme_choice \<times> string) list" where
  "theme_choices =
     [(System_choice, ''Match the system''), (Light_choice, ''Light''), (Dark_choice, ''Dark'')]"

text \<open>The value a choice is stored as, and \<open>isThemeChoice\<close>, which reads it.\<close>

fun theme_choice_value :: "theme_choice \<Rightarrow> string" where
  "theme_choice_value System_choice = ''system''"
| "theme_choice_value Light_choice = ''light''"
| "theme_choice_value Dark_choice = ''dark''"

definition as_theme_choice :: "string option \<Rightarrow> theme_choice option" where
  "as_theme_choice v =
     (if v = Some ''system'' then Some System_choice
      else if v = Some ''light'' then Some Light_choice
      else if v = Some ''dark'' then Some Dark_choice
      else None)"

definition resolve_theme :: "theme_choice \<Rightarrow> bool \<Rightarrow> theme" where
  "resolve_theme choice system_prefers_dark =
     (case choice of
        System_choice \<Rightarrow> if system_prefers_dark then Dark else Light
      | Light_choice \<Rightarrow> Light
      | Dark_choice \<Rightarrow> Dark)"

definition remembered_theme :: "storage option \<Rightarrow> theme_choice" where
  "remembered_theme browser =
     orelse (as_theme_choice (case browser of None \<Rightarrow> None | Some st \<Rightarrow> st theme_key)) System_choice"

definition store_theme :: "theme_choice \<Rightarrow> storage \<Rightarrow> storage" where
  "store_theme choice st =
     (if choice = System_choice then st(theme_key := None)
      else st(theme_key := Some (theme_choice_value choice)))"

definition remember_theme :: "theme_choice \<Rightarrow> storage option \<Rightarrow> storage option" where
  "remember_theme choice browser = map_option (store_theme choice) browser"

text \<open>The classes of the document's root: whether it has \<open>dark\<close>. There is none on the server.\<close>

definition apply_theme :: "theme \<Rightarrow> bool option \<Rightarrow> bool option" where
  "apply_theme theme root_class = map_option (\<lambda>_. theme = Dark) root_class"

definition choose_theme ::
    "theme_choice \<Rightarrow> storage option \<Rightarrow> bool option \<Rightarrow> bool \<Rightarrow> string list \<Rightarrow>
     storage option \<times> bool option \<times> string list" where
  "choose_theme choice browser root_class system_prefers_dark watchers =
     (remember_theme choice browser, apply_theme (resolve_theme choice system_prefers_dark) root_class, watchers)"

text \<open>The script of the document's head, which runs before the first paint.\<close>

definition theme_boot :: "string option \<Rightarrow> bool \<Rightarrow> bool" where
  "theme_boot c matches \<longleftrightarrow> c = Some ''dark'' \<or> c \<noteq> Some ''light'' \<and> matches"

interpretation theme: choice_store store_theme "\<lambda>st. remembered_theme (Some st)" theme_key
proof
  show "remembered_theme (Some (store_theme c st)) = c" for c st
    by (cases c) (simp_all add: remembered_theme_def store_theme_def as_theme_choice_def)
qed (simp_all add: store_theme_def remembered_theme_def)

text \<open>
  A page that follows the theme: what is stored, what the system prefers and what the root
  wears. A tab chooses, the system changes its mind, or another tab writes to the storage
  (with no key when it clears it); \<open>followTheme\<close> listens to the last two.
\<close>

record theme_page =
  tm_stored :: storage
  tm_system_dark :: bool
  tm_root_dark :: bool

datatype theme_event =
    Choose_theme theme_choice
  | System_prefers bool
  | Storage_event "string option" "string option"

definition sync_theme :: "theme_page \<Rightarrow> theme_page" where
  "sync_theme page = page\<lparr>tm_root_dark :=
     orelse (apply_theme (resolve_theme (remembered_theme (Some (tm_stored page))) (tm_system_dark page))
       (Some (tm_root_dark page))) False\<rparr>"

fun follow_theme :: "theme_page \<Rightarrow> theme_event \<Rightarrow> theme_page" where
  "follow_theme page (Choose_theme choice) =
     (case choose_theme choice (Some (tm_stored page)) (Some (tm_root_dark page)) (tm_system_dark page) [] of
        (stored, root_class, _) \<Rightarrow>
          page\<lparr>tm_stored := orelse stored (tm_stored page), tm_root_dark := orelse root_class False\<rparr>)"
| "follow_theme page (System_prefers dark) = sync_theme (page\<lparr>tm_system_dark := dark\<rparr>)"
| "follow_theme page (Storage_event key v) =
     (let page' = page\<lparr>tm_stored :=
        (case key of None \<Rightarrow> (\<lambda>_. None) | Some k \<Rightarrow> (tm_stored page)(k := v))\<rparr>
      in if key = None \<or> key = Some theme_key then sync_theme page' else page')"

definition boot_page :: "storage \<Rightarrow> bool \<Rightarrow> theme_page" where
  "boot_page stored system_dark =
     \<lparr>tm_stored = stored, tm_system_dark = system_dark,
      tm_root_dark = theme_boot (stored theme_key) system_dark\<rparr>"

definition theme_ok :: "theme_page \<Rightarrow> bool" where
  "theme_ok page \<longleftrightarrow> tm_root_dark page =
     (resolve_theme (remembered_theme (Some (tm_stored page))) (tm_system_dark page) = Dark)"

lemma theme_boot_resolves:
  "theme_boot (stored theme_key) dark = (resolve_theme (remembered_theme (Some stored)) dark = Dark)"
  by (auto simp: theme_boot_def resolve_theme_def remembered_theme_def as_theme_choice_def)

lemma theme_ok_sync: "theme_ok (sync_theme page)"
  by (simp add: theme_ok_def sync_theme_def apply_theme_def)

interpretation theme_pages: reducer follow_theme theme_ok
proof
  fix page ev
  assume ok: "theme_ok page"
  show "theme_ok (follow_theme page ev)"
  proof (cases ev)
    case (Choose_theme c)
    then show ?thesis
      using theme.recall_store [of c "tm_stored page"]
      by (simp add: theme_ok_def choose_theme_def remember_theme_def apply_theme_def)
  next
    case (System_prefers d)
    then show ?thesis by (simp add: theme_ok_sync)
  next
    case (Storage_event key v)
    show ?thesis
    proof (cases "key = None \<or> key = Some theme_key")
      case True
      with Storage_event show ?thesis by (simp add: Let_def theme_ok_sync)
    next
      case False
      with Storage_event ok theme.recall_unrelated show ?thesis
        by (auto simp: theme_ok_def)
    qed
  qed
qed

text \<open>The page always wears the theme its choice resolves to: from the first paint, which the
  boot script decides from the stored text alone, through every choice, every change of
  the system and every write of another tab, in any order; and a choice of the theme is
  never lost to another one but the next.\<close>

theorem theme_follows:
  "tm_root_dark (foldl follow_theme (boot_page stored dark) events) =
     (resolve_theme (remembered_theme (Some (tm_stored (foldl follow_theme (boot_page stored dark) events))))
        (tm_system_dark (foldl follow_theme (boot_page stored dark) events)) = Dark) \<and>
   remembered_theme (Some (tm_stored (follow_theme page (Choose_theme choice)))) = choice \<and>
   remembered_organization (Some (tm_stored (follow_theme page (Choose_theme choice)))) =
     remembered_organization (Some (tm_stored page))"
proof -
  have "theme_ok (boot_page stored dark)"
    by (simp add: theme_ok_def boot_page_def theme_boot_resolves)
  from theme_pages.run_inv [OF this, of events]
  have "theme_ok (foldl follow_theme (boot_page stored dark) events)" .
  moreover have "theme_key \<noteq> active_organization_key"
    by (simp add: theme_key_def active_organization_key_def)
  ultimately show ?thesis
    using theme.recall_store theme.store_other
    by (simp add: theme_ok_def choose_theme_def remember_theme_def remembered_organization_def)
qed

section \<open>Labels\<close>

fun lifecycle_label :: "lifecycle_state \<Rightarrow> string" where
  "lifecycle_label (Run_state Queued) = ''queued''"
| "lifecycle_label (Run_state Running) = ''running''"
| "lifecycle_label (Run_state Waiting_for_human) = ''needs you''"
| "lifecycle_label (Run_state Succeeded) = ''succeeded''"
| "lifecycle_label (Run_state Failed) = ''failed''"
| "lifecycle_label Cancelling = ''cancelling''"
| "lifecycle_label (Run_state Cancelled) = ''cancelled''"
| "lifecycle_label Skipped_state = ''skipped''"
| "lifecycle_label Missed_state = ''missed''"
| "lifecycle_label Paused_state = ''paused''"

fun lifecycle_tone :: "lifecycle_state \<Rightarrow> tone" where
  "lifecycle_tone (Run_state Running) = Accent"
| "lifecycle_tone (Run_state Waiting_for_human) = Wait_tone"
| "lifecycle_tone (Run_state Succeeded) = Ok_tone"
| "lifecycle_tone (Run_state Failed) = Bad_tone"
| "lifecycle_tone _ = Neutral"

definition is_live_state :: "lifecycle_state \<Rightarrow> bool" where
  "is_live_state state \<longleftrightarrow> state = Run_state Running \<or> state = Run_state Waiting_for_human"

text \<open>No two states share a label, and the live ones are those with a tone of their own.\<close>

lemma lifecycle_label_inject: "lifecycle_label s = lifecycle_label t \<longleftrightarrow> s = t"
  by (cases s rule: lifecycle_label.cases; cases t rule: lifecycle_label.cases) simp_all

lemma live_states_toned:
  "is_live_state s \<longleftrightarrow> lifecycle_tone s = Accent \<or> lifecycle_tone s = Wait_tone"
  by (cases s rule: lifecycle_tone.cases) (simp_all add: is_live_state_def)

section \<open>Attention\<close>

record attention_counts =
  at_waiting_count :: int
  at_running_count :: int
  at_queued_count :: int

definition attention_message :: "int \<Rightarrow> string \<Rightarrow> string" where
  "attention_message waiting_count run_label =
     (if waiting_count = 1 then run_label @ '' is waiting for you''
      else show_int waiting_count @ '' Runs are waiting for you. The soonest is '' @ run_label)"

text \<open>The polling interval, \<open>None\<close> when the page is hidden.\<close>

definition attention_refetch_interval :: "bool \<Rightarrow> int option" where
  "attention_refetch_interval visible = (if visible then Some 10000 else None)"

datatype count_tone = Tone_waiting | Tone_in_flight

definition runs_badge :: "attention_counts \<Rightarrow> int \<times> count_tone" where
  "runs_badge counts =
     (at_waiting_count counts + at_running_count counts + at_queued_count counts,
      if 0 < at_waiting_count counts then Tone_waiting else Tone_in_flight)"

definition attention_key :: "string list" where
  "attention_key = [''attention'']"

definition runs_key :: "string list" where
  "runs_key = [''/api/runs'']"

text \<open>The query keys a change of a Run invalidates.\<close>

definition invalidate_run_state :: "string list list" where
  "invalidate_run_state = [attention_key, runs_key]"

section \<open>Filters in the URL\<close>

definition page_size :: int where
  "page_size = 25"

definition url_filter_keys :: "string list" where
  "url_filter_keys = [''status'', ''trigger'']"

record 'a cursor_page =
  cp_items :: "'a list"
  cp_next_cursor :: "string option"

definition rows_of :: "'a cursor_page list option \<Rightarrow> 'a list" where
  "rows_of pages = concat (map cp_items (orelse pages []))"

text \<open>The cursor of the next page, \<open>None\<close> after the last.\<close>

definition next_page_param :: "'a cursor_page \<Rightarrow> string option" where
  "next_page_param last_page = cp_next_cursor last_page"

definition cursor_list_key :: "string \<Rightarrow> string \<Rightarrow> params \<Rightarrow> string \<times> string \<times> params" where
  "cursor_list_key path org_id filters = (path, org_id, filters)"

fun filters_from_search :: "params \<Rightarrow> string list \<Rightarrow> params" where
  "filters_from_search search [] = []"
| "filters_from_search search (key # keys) =
     (case params_get search key of
        None \<Rightarrow> filters_from_search search keys
      | Some v \<Rightarrow>
          if v = [] then filters_from_search search keys
          else (key, v) # filters_from_search search keys)"

definition mirror_filter :: "params \<Rightarrow> params \<Rightarrow> string \<Rightarrow> params" where
  "mirror_filter filters search key =
     (let search' = params_delete search key in
      case map_of filters key of
        None \<Rightarrow> search'
      | Some v \<Rightarrow> if v = [] then search' else params_set search' key v)"

definition mirrored_params :: "params \<Rightarrow> params \<Rightarrow> string list \<Rightarrow> params" where
  "mirrored_params current filters keys =
     foldl (mirror_filter filters) (parse_params (show_params current)) keys"

definition with_mirrored_filters :: "params \<Rightarrow> params \<Rightarrow> string list \<Rightarrow> string" where
  "with_mirrored_filters current filters keys =
     (let encoded = show_params (mirrored_params current filters keys)
      in if encoded = [] then [] else ''?'' @ encoded)"

text \<open>\<open>setFilter\<close> of the list: the page is replaced by the one with the changed filters.\<close>

definition changed_filters :: "params \<Rightarrow> string \<Rightarrow> string \<Rightarrow> params" where
  "changed_filters filters key v =
     (if v = [] then filter (\<lambda>p. fst p \<noteq> key) filters else with_key key v filters)"

definition set_filter :: "string \<Rightarrow> params \<Rightarrow> params \<Rightarrow> string list \<Rightarrow> string \<Rightarrow> string \<Rightarrow> string" where
  "set_filter pathname search filters keys key v =
     pathname @ with_mirrored_filters search (changed_filters filters key v) keys"

lemma params_get_mirror_filter:
  "params_get (mirror_filter filters search key) k =
     (if k = key then (case map_of filters key of None \<Rightarrow> None | Some v \<Rightarrow> if v = [] then None else Some v)
      else params_get search k)"
  by (auto simp: mirror_filter_def Let_def params_get_set params_get_delete split: option.splits)

lemma params_get_mirrored:
  "params_get (foldl (mirror_filter filters) search keys) k =
     (if k \<in> set keys
      then (case map_of filters k of None \<Rightarrow> None | Some v \<Rightarrow> if v = [] then None else Some v)
      else params_get search k)"
  by (induction keys arbitrary: search) (auto simp: params_get_mirror_filter)

lemma map_of_filters_from_search:
  "map_of (filters_from_search search keys) k =
     (if k \<in> set keys then (case params_get search k of Some v \<Rightarrow> if v = [] then None else Some v | None \<Rightarrow> None)
      else None)"
  by (induction keys) (auto split: option.splits)

lemma map_of_changed_filters:
  "map_of (changed_filters filters key v) k =
     (if k = key then (if v = [] then None else Some v) else map_of filters k)"
proof -
  have "map_of (filter (\<lambda>p. fst p \<noteq> key) fs) k = (if k = key then None else map_of fs k)" for fs :: params
    by (induction fs) auto
  from this [of filters] show ?thesis by (auto simp: changed_filters_def)
qed

lemma show_params_empty: "show_params ps = [] \<longleftrightarrow> ps = []"
  using parse_show_params [of ps] by (auto simp: show_params_def parse_params_def)

lemma query_of_set_filter:
  assumes "CHR ''?'' \<notin> set pathname" and "CHR ''#'' \<notin> set pathname"
  shows "parse_params (query_of (set_filter pathname search filters keys key v)) =
    mirrored_params search (changed_filters filters key v) keys"
proof -
  let ?fs = "changed_filters filters key v"
  have shown: "CHR ''#'' \<notin> set (show_params ps)" for ps
    using set_join [of "''&''" "map show_pair ps"] show_pair_chars(2) by (fastforce simp: show_params_def)
  show ?thesis
  proof (cases "show_params (mirrored_params search ?fs keys) = []")
    case True
    then have "query_of (set_filter pathname search filters keys key v) = after (CHR ''?'') pathname"
      using assms(2) by (simp add: set_filter_def with_mirrored_filters_def query_of_def)
    also have "\<dots> = []"
      using assms(1) by (induction pathname) auto
    finally show ?thesis
      using True by (simp add: show_params_empty parse_params_def)
  next
    case False
    then have "query_of (set_filter pathname search filters keys key v) =
        show_params (mirrored_params search ?fs keys)"
      using assms(1,2) shown
      by (simp add: set_filter_def with_mirrored_filters_def query_of_def)
    then show ?thesis by (simp add: parse_show_params)
  qed
qed

lemma filters_after_set_filter:
  assumes "CHR ''?'' \<notin> set pathname" and "CHR ''#'' \<notin> set pathname" and "key \<in> set keys"
    and "\<And>k w. map_of filters k = Some w \<Longrightarrow> w \<noteq> []"
  shows "map_of (filters_from_search (parse_params (query_of (set_filter pathname search filters keys key v))) keys) =
    (map_of filters |` set keys)(key := if v = [] then None else Some v)"
  unfolding query_of_set_filter [OF assms(1,2)] mirrored_params_def parse_show_params
  using assms(3,4)
  by (auto simp: fun_eq_iff map_of_filters_from_search params_get_mirrored map_of_changed_filters restrict_map_def
      split: option.splits)

lemma query_after_set_filter:
  assumes "CHR ''?'' \<notin> set pathname" and "CHR ''#'' \<notin> set pathname" and "k \<notin> set keys"
  shows "params_get (parse_params (query_of (set_filter pathname search filters keys key v))) k = params_get search k"
  unfolding query_of_set_filter [OF assms(1,2)] mirrored_params_def parse_show_params
  using assms(3) by (simp add: params_get_mirrored)

text \<open>The filters of a list survive in its URL: after a filter is set, the query of the page that
  replaces this one reads back as exactly the filters with that one changed (or dropped,
  for the empty value), and every other parameter of the query keeps its value.\<close>

theorem set_filter_reads_back:
  assumes "CHR ''?'' \<notin> set pathname" and "CHR ''#'' \<notin> set pathname"
    and "set (map fst filters) \<subseteq> set keys" and "key \<in> set keys"
    and "\<And>k w. map_of filters k = Some w \<Longrightarrow> w \<noteq> []"
  shows "map_of (filters_from_search (parse_params (query_of (set_filter pathname search filters keys key v))) keys) =
      (map_of filters)(key := if v = [] then None else Some v) \<and>
    (k \<notin> set keys \<longrightarrow>
      params_get (parse_params (query_of (set_filter pathname search filters keys key v))) k =
      params_get search k)"
proof -
  have "map_of filters k = None" if "k \<notin> set keys" for k
    using assms(3) that by (force simp: map_of_eq_None_iff)
  then have "map_of filters |` set keys = map_of filters"
    by (auto simp: restrict_map_def)
  then show ?thesis
    using filters_after_set_filter [OF assms(1,2,4,5)] query_after_set_filter [OF assms(1,2)] by simp
qed

theorem set_filter_reads_back_witness:
  "map_of (filters_from_search (parse_params (query_of
      (set_filter ''/runs'' [(''q'', ''a b''), (''status'', ''failed'')] [(''status'', ''failed'')]
        url_filter_keys ''trigger'' ''test''))) url_filter_keys) =
     [''status'' \<mapsto> ''failed'', ''trigger'' \<mapsto> ''test''] \<and>
   params_get (parse_params (query_of
      (set_filter ''/runs'' [(''q'', ''a b''), (''status'', ''failed'')] [(''status'', ''failed'')]
        url_filter_keys ''trigger'' ''test''))) ''q'' = Some ''a b''"
proof -
  have filters: "\<And>k w. map_of [(''status'', ''failed'')] k = Some w \<Longrightarrow> w \<noteq> []"
    subgoal for k w by (cases w) (simp_all split: if_splits)
    done
  have "''q'' \<notin> set url_filter_keys"
    by (simp add: url_filter_keys_def)
  with set_filter_reads_back [of "''/runs''" "[(''status'', ''failed'')]" url_filter_keys "''trigger''"
      "[(''q'', ''a b''), (''status'', ''failed'')]" "''test''" "''q''", OF _ _ _ _ filters]
  show ?thesis
    by (simp add: url_filter_keys_def params_get_def fun_upd_def fun_eq_iff)
qed

end
