(* ===== verification/Connection.thy ===== *)
theory Connection
  imports Preferences
begin

text \<open>
  The connection to the browser extension: the messages both sides post to the page
  (\<open>lib/extension-protocol.ts\<close>), the probe that asks for the version of the extension and
  the comparison with the least version supported (\<open>lib/extension-connection.ts\<close>). The
  extension is the sender of the messages, which may hold anything.
\<close>

section \<open>Messages\<close>

datatype extension_message_type =
    Extension_ready | Connect_accepted | Recording_pending_accepted | Recording_token_expired
  | Recording_finished | Repick_candidates

definition extension_channel :: string where
  "extension_channel = ''step-by-step''"

definition extension_message_type_named :: "js \<Rightarrow> extension_message_type option" where
  "extension_message_type_named v = map_of
     [(Str ''extension-ready'', Extension_ready), (Str ''connect-accepted'', Connect_accepted),
      (Str ''recording-pending-accepted'', Recording_pending_accepted),
      (Str ''recording-token-expired'', Recording_token_expired),
      (Str ''recording-finished'', Recording_finished), (Str ''repick-candidates'', Repick_candidates)] v"

record extension_message =
  em_type :: extension_message_type
  em_version :: string
  em_session_id :: "string option"
  em_step_id :: "string option"
  em_candidates :: "js list option"

definition version_of_message :: "fields \<Rightarrow> string" where
  "version_of_message message = orelse (as_string (field message ''version'')) []"

text \<open>
  \<open>typeof data === "object"\<close> holds of an array too, which has none of the properties that
  are read. \<open>candidates\<close> is cast to its type: whatever the array holds is passed on.
\<close>

definition read_extension_message :: "js \<Rightarrow> extension_message option" where
  "read_extension_message data =
     (case data of
        Obj message \<Rightarrow>
          if field message ''channel'' \<noteq> Str extension_channel then None
          else (case extension_message_type_named (field message ''type'') of
            None \<Rightarrow> None
          | Some t \<Rightarrow>
              if t = Extension_ready \<or> t = Connect_accepted
              then Some \<lparr>em_type = t, em_version = version_of_message message,
                em_session_id = None, em_step_id = None, em_candidates = None\<rparr>
              else if t = Repick_candidates then
                (case (field message ''sessionId'', field message ''stepId'', field message ''candidates'') of
                   (Str session, Str step, Arr candidates) \<Rightarrow>
                     Some \<lparr>em_type = t, em_version = version_of_message message,
                       em_session_id = Some session, em_step_id = Some step, em_candidates = Some candidates\<rparr>
                 | _ \<Rightarrow> None)
              else
                (case field message ''sessionId'' of
                   Str session \<Rightarrow>
                     Some \<lparr>em_type = t, em_version = version_of_message message,
                       em_session_id = Some session, em_step_id = None, em_candidates = None\<rparr>
                 | _ \<Rightarrow> None))
      | _ \<Rightarrow> None)"

definition probe_message :: fields where
  "probe_message = [(''channel'', Str extension_channel), (''type'', Str ''connection-probe'')]"

definition handshake_message :: "string \<Rightarrow> string \<Rightarrow> fields" where
  "handshake_message nonce instance_origin =
     [(''channel'', Str extension_channel), (''type'', Str ''connect-handshake''),
      (''nonce'', Str nonce), (''instanceOrigin'', Str instance_origin)]"

record pending_recording =
  pr_session_id :: string
  pr_token :: string
  pr_backend_origin :: string
  pr_workflow_id :: string
  pr_workflow_name :: string
  pr_variables :: "js list"
  pr_secrets :: "js list"

definition recording_pending_message :: "pending_recording \<Rightarrow> fields" where
  "recording_pending_message recording =
     [(''channel'', Str extension_channel), (''type'', Str ''recording-pending''),
      (''sessionId'', Str (pr_session_id recording)), (''token'', Str (pr_token recording)),
      (''backendOrigin'', Str (pr_backend_origin recording)), (''workflowId'', Str (pr_workflow_id recording)),
      (''workflowName'', Str (pr_workflow_name recording)), (''variables'', Arr (pr_variables recording)),
      (''secrets'', Arr (pr_secrets recording)), (''mode'', Str ''record'')]"

definition recording_token_message :: "string \<Rightarrow> string \<Rightarrow> fields" where
  "recording_token_message session_id token =
     [(''channel'', Str extension_channel), (''type'', Str ''recording-token''),
      (''sessionId'', Str session_id), (''token'', Str token)]"

record pending_repick =
  pp_session_id :: string
  pp_token :: string
  pp_backend_origin :: string
  pp_workflow_id :: string
  pp_workflow_name :: string
  pp_step_id :: string

definition repick_pending_message :: "pending_repick \<Rightarrow> fields" where
  "repick_pending_message repick =
     [(''channel'', Str extension_channel), (''type'', Str ''recording-pending''),
      (''sessionId'', Str (pp_session_id repick)), (''token'', Str (pp_token repick)),
      (''backendOrigin'', Str (pp_backend_origin repick)), (''workflowId'', Str (pp_workflow_id repick)),
      (''workflowName'', Str (pp_workflow_name repick)), (''stepId'', Str (pp_step_id repick)),
      (''mode'', Str ''repick'')]"

text \<open>The type of a message decides what its reader may rely on.\<close>

definition message_ok :: "extension_message \<Rightarrow> bool" where
  "message_ok m \<longleftrightarrow>
     (em_session_id m = None \<longleftrightarrow> em_type m = Extension_ready \<or> em_type m = Connect_accepted) \<and>
     (em_step_id m \<noteq> None \<longleftrightarrow> em_type m = Repick_candidates) \<and>
     (em_candidates m \<noteq> None \<longleftrightarrow> em_type m = Repick_candidates)"

lemma read_extension_message_ok: "read_extension_message data = Some m \<Longrightarrow> message_ok m"
  by (auto simp: read_extension_message_def message_ok_def split: js.splits option.splits if_splits)

lemma read_extension_message_channel:
  "read_extension_message data = Some m \<Longrightarrow>
   \<exists>message. data = Obj message \<and> field message ''channel'' = Str extension_channel \<and>
     extension_message_type_named (field message ''type'') = Some (em_type m)"
  by (auto simp: read_extension_message_def split: js.splits option.splits if_splits)

section \<open>The probe\<close>

text \<open>
  What the page hears: a message, with whether its source and its origin are the page's own,
  or the end of the time. The probe is pending until it settles, and then hears nothing.
\<close>

datatype heard = Heard (from_page: bool) (from_origin: bool) (heard_data: js) | Timed_out

datatype probe = Pending | Settled "string option"

definition answer_of :: "heard \<Rightarrow> string option" where
  "answer_of ev =
     (case ev of
        Timed_out \<Rightarrow> None
      | Heard source_ok origin_ok data \<Rightarrow>
          if \<not> source_ok \<or> \<not> origin_ok then None
          else (case read_extension_message data of
            None \<Rightarrow> None
          | Some m \<Rightarrow> if em_version m = [] then None else Some (em_version m)))"

text \<open>What ends the wait.\<close>

definition settles :: "heard \<Rightarrow> bool" where
  "settles ev \<longleftrightarrow> ev = Timed_out \<or> answer_of ev \<noteq> None"

fun probe_step :: "probe \<Rightarrow> heard \<Rightarrow> probe" where
  "probe_step (Settled v) ev = Settled v"
| "probe_step Pending Timed_out = Settled None"
| "probe_step Pending (Heard s og data) =
     (case answer_of (Heard s og data) of None \<Rightarrow> Pending | Some v \<Rightarrow> Settled (Some v))"

definition probe_extension :: "heard list \<Rightarrow> probe" where
  "probe_extension events = foldl probe_step Pending events"

text \<open>The messages the page itself posts, which its own listeners hear too.\<close>

definition own_messages :: "string \<Rightarrow> string \<Rightarrow> pending_recording \<Rightarrow> pending_repick \<Rightarrow> fields list" where
  "own_messages a b recording repick =
     [probe_message, handshake_message a b, recording_pending_message recording,
      recording_token_message a b, repick_pending_message repick]"

lemma own_messages_unread:
  "message \<in> set (own_messages a b recording repick) \<Longrightarrow> read_extension_message (Obj message) = None"
  by (auto simp: own_messages_def read_extension_message_def field_def extension_message_type_named_def
      probe_message_def handshake_message_def recording_pending_message_def
      recording_token_message_def repick_pending_message_def)

lemma settled_stays: "foldl probe_step (Settled v) events = Settled v"
  by (induction events) simp_all

text \<open>The probe settles once, on what decides it first: the first message of the page's own window
  and origin that reads as one of the extension with a version, or the end of the time. What
  the page posts itself never does, whatever it holds.\<close>

theorem probe_settles_on_first:
  "probe_extension events =
     (case find settles events of
        None \<Rightarrow> Pending | Some ev \<Rightarrow> Settled (answer_of ev)) \<and>
   answer_of (Heard s og (Obj (own_messages a b recording repick ! (n mod 5)))) = None"
proof
  show "probe_extension events =
      (case find settles events of
        None \<Rightarrow> Pending | Some ev \<Rightarrow> Settled (answer_of ev))"
    unfolding probe_extension_def
  proof (induction events)
    case (Cons ev events)
    show ?case
    proof (cases ev)
      case (Heard s og data)
      then show ?thesis
        using Cons settled_stays by (cases "answer_of ev") (auto simp: settles_def)
    qed (simp add: settled_stays answer_of_def settles_def)
  qed simp
  have "own_messages a b recording repick ! (n mod 5) \<in> set (own_messages a b recording repick)"
    by (rule nth_mem) (simp add: own_messages_def)
  from own_messages_unread [OF this] show "answer_of (Heard s og (Obj (own_messages a b recording repick ! (n mod 5)))) = None"
    by (simp add: answer_of_def)
qed

section \<open>Versions\<close>

definition version_parts :: "string \<Rightarrow> jsnum list" where
  "version_parts version = map number_of_text (split_on (CHR ''.'') version)"

definition part_at :: "jsnum list \<Rightarrow> nat \<Rightarrow> jsnum" where
  "part_at parts index = (if index < length parts then parts ! index else Num 0)"

text \<open>\<open>left !== right\<close> holds of \<open>NaN\<close> and itself.\<close>

fun compare_parts :: "jsnum list \<Rightarrow> jsnum list \<Rightarrow> nat list \<Rightarrow> bool" where
  "compare_parts actual required [] = True"
| "compare_parts actual required (index # indices) =
     (if \<not> num_eq (part_at actual index) (part_at required index)
      then num_less (part_at required index) (part_at actual index)
      else compare_parts actual required indices)"

definition version_at_least :: "string \<Rightarrow> string \<Rightarrow> bool" where
  "version_at_least version minimum =
     (let actual = version_parts version; required = version_parts minimum
      in compare_parts actual required [0..<max (length actual) (length required)])"

datatype connection_state = Connected | Not_connected | Out_of_date

definition connection_state_of :: "string option \<Rightarrow> string \<Rightarrow> connection_state" where
  "connection_state_of version minimum_supported =
     (case version of
        None \<Rightarrow> Not_connected
      | Some v \<Rightarrow> if version_at_least v minimum_supported then Connected else Out_of_date)"

fun connection_label :: "connection_state \<Rightarrow> string" where
  "connection_label Connected = ''extension connected''"
| "connection_label Not_connected = ''extension not connected''"
| "connection_label Out_of_date = ''extension out of date''"

text \<open>A version of numbers only, and its number at each place (0 beyond its end).\<close>

definition numeric :: "string \<Rightarrow> bool" where
  "numeric version \<longleftrightarrow> NaN \<notin> set (version_parts version)"

definition place :: "string \<Rightarrow> nat \<Rightarrow> int" where
  "place version k = (case part_at (version_parts version) k of Num i \<Rightarrow> i | NaN \<Rightarrow> 0)"

text \<open>The order of versions: at the first place where they differ, the greater number wins.\<close>

definition precedes :: "(nat \<Rightarrow> int) \<Rightarrow> (nat \<Rightarrow> int) \<Rightarrow> bool" where
  "precedes a b \<longleftrightarrow> (\<exists>k. a k < b k \<and> (\<forall>j < k. a j = b j))"

lemma part_at_numeric: "numeric v \<Longrightarrow> part_at (version_parts v) k = Num (place v k)"
proof -
  assume "numeric v"
  then have "part_at (version_parts v) k \<noteq> NaN"
    by (auto simp: numeric_def part_at_def dest: nth_mem)
  then show ?thesis by (simp add: place_def split: jsnum.splits)
qed

lemma place_beyond: "length (version_parts v) \<le> k \<Longrightarrow> place v k = 0"
  by (simp add: place_def part_at_def)

lemma compare_parts_numeric:
  assumes "numeric v" and "numeric m"
  shows "compare_parts (version_parts v) (version_parts m) [i..<n] \<longleftrightarrow>
    \<not> (\<exists>k. i \<le> k \<and> k < n \<and> place v k < place m k \<and> (\<forall>j. i \<le> j \<and> j < k \<longrightarrow> place v j = place m j))"
proof (induction "n - i" arbitrary: i)
  case 0
  then show ?case by auto
next
  case (Suc d)
  then have upt: "[i..<n] = i # [Suc i..<n]" by (simp add: upt_conv_Cons)
  have IH: "compare_parts (version_parts v) (version_parts m) [Suc i..<n] \<longleftrightarrow>
      \<not> (\<exists>k. Suc i \<le> k \<and> k < n \<and> place v k < place m k \<and> (\<forall>j. Suc i \<le> j \<and> j < k \<longrightarrow> place v j = place m j))"
    using Suc by simp
  consider "place v i < place m i" | "place m i < place v i" | "place v i = place m i"
    by linarith
  then show ?case
  proof cases
    case 1
    then show ?thesis
      using upt Suc.hyps(2) by (auto simp: part_at_numeric assms intro!: exI [of _ i])
  next
    case 2
    then have "\<not> (\<exists>k. i \<le> k \<and> k < n \<and> place v k < place m k \<and> (\<forall>j. i \<le> j \<and> j < k \<longrightarrow> place v j = place m j))"
      by (metis le_neq_implies_less less_irrefl not_less_iff_gr_or_eq order_refl)
    with 2 upt show ?thesis by (simp add: part_at_numeric assms)
  next
    case 3
    then have "(\<exists>k. i \<le> k \<and> k < n \<and> place v k < place m k \<and> (\<forall>j. i \<le> j \<and> j < k \<longrightarrow> place v j = place m j)) \<longleftrightarrow>
        (\<exists>k. Suc i \<le> k \<and> k < n \<and> place v k < place m k \<and> (\<forall>j. Suc i \<le> j \<and> j < k \<longrightarrow> place v j = place m j))"
      by (metis Suc_le_eq le_neq_implies_less less_irrefl order_less_imp_le)
    with 3 IH upt show ?thesis by (simp add: part_at_numeric assms)
  qed
qed

lemma version_at_least_numeric:
  assumes "numeric v" and "numeric m"
  shows "version_at_least v m \<longleftrightarrow> \<not> precedes (place v) (place m)"
proof -
  let ?n = "max (length (version_parts v)) (length (version_parts m))"
  have "place v k = place m k" if "?n \<le> k" for k
    using that place_beyond by simp
  then have "precedes (place v) (place m) \<longleftrightarrow>
      (\<exists>k. 0 \<le> k \<and> k < ?n \<and> place v k < place m k \<and> (\<forall>j. 0 \<le> j \<and> j < k \<longrightarrow> place v j = place m j))"
    unfolding precedes_def by (metis le0 less_irrefl not_le)
  then show ?thesis
    using compare_parts_numeric [OF assms, of 0 ?n] by (simp add: version_at_least_def Let_def)
qed

lemma precedes_asym: "precedes a b \<Longrightarrow> \<not> precedes b a"
  unfolding precedes_def by (metis less_irrefl linorder_neqE_nat order_less_not_sym)

lemma precedes_cotrans:
  assumes "precedes a c"
  shows "precedes a b \<or> precedes b c"
proof -
  from assms obtain k where k: "a k < c k" "\<And>j. j < k \<Longrightarrow> a j = c j"
    by (auto simp: precedes_def)
  show ?thesis
  proof (cases "\<exists>j \<le> k. a j \<noteq> b j")
    case True
    define j where "j = (LEAST j. a j \<noteq> b j)"
    from True obtain i where i: "i \<le> k" "a i \<noteq> b i" by blast
    from i(2) have differ: "a j \<noteq> b j" unfolding j_def by (rule LeastI)
    have "j \<le> i" unfolding j_def using i(2) by (rule Least_le)
    with i(1) have le: "j \<le> k" by simp
    have same: "\<forall>i < j. a i = b i"
      unfolding j_def using not_less_Least by blast
    show ?thesis
    proof (cases "a j < b j")
      case True
      with same show ?thesis by (auto simp: precedes_def)
    next
      case False
      with differ have "b j < a j" by simp
      moreover have "a j \<le> c j" using k le by (cases "j = k") auto
      moreover have "\<forall>i < j. b i = c i" using same k le by auto
      ultimately have "b j < c j \<and> (\<forall>i < j. b i = c i)" by simp
      then show ?thesis unfolding precedes_def by blast
    qed
  next
    case False
    with k show ?thesis by (auto simp: precedes_def)
  qed
qed

lemmas version_eval =
  version_at_least_def version_parts_def number_of_text_solid solid_def code_def all_digits_def
  is_digit_def digits_val_def digit_val_def part_at_def numeric_def numeral_2_eq_2

text \<open>Versions made of numbers are compared as versions: the first place where they differ
  decides, a missing place counts as 0, and the comparison is a total preorder, so an
  extension that is recent enough for one minimum is for every lower one.\<close>

theorem versions_are_ordered:
  assumes "numeric v" and "numeric m" and "numeric l"
  shows "version_at_least v m = (\<not> precedes (place v) (place m)) \<and>
     (version_at_least v m \<or> version_at_least m v) \<and>
     (version_at_least v m \<and> version_at_least m l \<longrightarrow>
        connection_state_of (Some v) l = Connected)"
  using precedes_asym [of "place v" "place m"] precedes_cotrans [of "place v" "place l" "place m"]
  by (auto simp: version_at_least_numeric assms connection_state_of_def)

theorem versions_are_ordered_witness:
  "connection_state_of (Some ''1.10'') ''1.2.0'' = Connected \<and>
   connection_state_of (Some ''1.2.0-beta'') ''1.2.0'' = Out_of_date"
proof -
  have n: "numeric ''1.10''" "numeric ''1.9''" "numeric ''1.2.0''"
    and ge: "version_at_least ''1.10'' ''1.9''" "version_at_least ''1.9'' ''1.2.0''"
    and beta: "\<not> version_at_least ''1.2.0-beta'' ''1.2.0''"
    by (simp_all add: version_eval)
  from versions_are_ordered [OF n] ge beta show ?thesis
    by (simp add: connection_state_of_def)
qed

end
