(* ===== verification/BatchPresentation.thy ===== *)
theory BatchPresentation
  imports BatchEvents RunPresentation
begin

text \<open>
  What the page of a Batch shows (\<open>batches/[id]/presentation.ts\<close>) and the list of Batches
  of a Workflow (\<open>workflows/[id]/batches/presentation.ts\<close>): the counts and the progress
  bar, the callout of a row that waits, the output table, and the banner that asks for the
  value of a Variable the queued rows have none for.
\<close>

section \<open>Counts and progress\<close>

record stats_view =
  sv_done :: nat
  sv_total :: nat
  sv_succeeded :: nat
  sv_failed :: nat
  sv_queued :: nat
  sv_skipped :: nat

definition skipped_like :: "batch_row_status \<Rightarrow> bool" where
  "skipped_like status \<longleftrightarrow> status = Row_skipped \<or> status = Row_cancelled"

text \<open>The loop, over the four counters.\<close>

definition tally_row :: "nat \<times> nat \<times> nat \<times> nat \<Rightarrow> batch_row \<Rightarrow> nat \<times> nat \<times> nat \<times> nat" where
  "tally_row t row =
     (case t of (succeeded, failed, queued, skipped) \<Rightarrow>
        if br_status row = Row_succeeded then (succeeded + 1, failed, queued, skipped)
        else if br_status row = Row_failed then (succeeded, failed + 1, queued, skipped)
        else if br_status row = Row_queued then (succeeded, failed, queued + 1, skipped)
        else if skipped_like (br_status row) then (succeeded, failed, queued, skipped + 1)
        else (succeeded, failed, queued, skipped))"

definition stats_view_of :: "batch_row list \<Rightarrow> stats_view" where
  "stats_view_of rows =
     (case foldl tally_row (0, 0, 0, 0) rows of (succeeded, failed, queued, skipped) \<Rightarrow>
        \<lparr>sv_done = succeeded + failed, sv_total = length rows, sv_succeeded = succeeded,
         sv_failed = failed, sv_queued = queued, sv_skipped = skipped\<rparr>)"

datatype progress_tone = Progress_ok | Progress_bad | Progress_accent | Progress_neutral | Progress_muted

record progress_segment =
  ps_key :: string
  ps_count :: nat
  ps_tone :: progress_tone

definition progress_segments :: "batch_stats \<Rightarrow> progress_segment list" where
  "progress_segments stats =
     [\<lparr>ps_key = ''succeeded'', ps_count = bs_succeeded stats, ps_tone = Progress_ok\<rparr>,
      \<lparr>ps_key = ''failed'', ps_count = bs_failed stats, ps_tone = Progress_bad\<rparr>,
      \<lparr>ps_key = ''running'', ps_count = bs_running stats, ps_tone = Progress_accent\<rparr>,
      \<lparr>ps_key = ''skipped'', ps_count = bs_skipped stats + bs_cancelled stats, ps_tone = Progress_neutral\<rparr>,
      \<lparr>ps_key = ''queued'', ps_count = bs_queued stats, ps_tone = Progress_muted\<rparr>]"

definition live_row_index :: "batch_row list \<Rightarrow> int option" where
  "live_row_index rows =
     (let index = find_index (\<lambda>row. br_status row = Row_running) rows
      in if index = -1 then None else Some index)"

definition eta_label :: "int option \<Rightarrow> string option" where
  "eta_label seconds = map_option (\<lambda>s. duration (Num (s * 1000)) @ '' left'') seconds"

text \<open>The state of a row's chip: its status as a state of the lifecycle.\<close>

fun row_state :: "batch_row_status \<Rightarrow> lifecycle_state" where
  "row_state Row_queued = Run_state Queued"
| "row_state Row_running = Run_state Running"
| "row_state Row_succeeded = Run_state Succeeded"
| "row_state Row_failed = Run_state Failed"
| "row_state Row_skipped = Skipped_state"
| "row_state Row_cancelled = Run_state Cancelled"

definition row_chip_state :: "batch_row \<Rightarrow> run_status option \<Rightarrow> lifecycle_state" where
  "row_chip_state row live_run_status =
     (if live_run_status = Some Waiting_for_human then Run_state Waiting_for_human
      else row_state (br_status row))"

definition row_duration_ms :: "batch_row \<Rightarrow> int \<Rightarrow> jsnum option" where
  "row_duration_ms row now =
     (case Prelude.at (br_runs row) (int (length (br_runs row)) - 1) of
        None \<Rightarrow> None
      | Some latest \<Rightarrow>
          (case at_started_at latest of
             None \<Rightarrow> None
           | Some started \<Rightarrow>
               let finish = (case at_ended_at latest of None \<Rightarrow> Num now | Some e \<Rightarrow> date_parse e)
               in Some (num_max (Num 0) (num_sub finish (date_parse started)))))"

definition variable_columns :: "batch_row list \<Rightarrow> string list" where
  "variable_columns rows =
     foldl (\<lambda>columns row. foldl (\<lambda>columns key. if key \<in> set columns then columns else columns @ [key])
       columns (map fst (br_variables row))) [] rows"

definition batch_run_href :: "string \<Rightarrow> string" where
  "batch_run_href run_id = ''/runs/'' @ run_id"

definition failure_words :: "(string \<times> string) list" where
  "failure_words =
     [(''step_failed'', ''A Step failed. A selector missed, an action errored, or the Step timed out.''),
      (''takeover_timeout'', ''The waiting-for-you deadline passed.''),
      (''auth_challenge'', ''A Step failed while an authentication challenge was on the page.''),
      (''takeover_abandoned'', ''Control was abandoned.''),
      (''run_timeout'', ''The Run timed out.''),
      (''worker_lost'', ''The Worker was lost.''),
      (''missing_secret'', ''A Secret this Workflow needs is missing.''),
      (''startup_failed'', ''The Run failed to start.'')]"

definition failure_reason_words :: "string option \<Rightarrow> string" where
  "failure_reason_words reason =
     (case reason of
        None \<Rightarrow> ''This row failed.''
      | Some r \<Rightarrow> orelse (map_of failure_words r) ''This row failed.'')"

section \<open>A row that waits\<close>

record stalled_input =
  si_row_index :: int
  si_queued_count :: int
  si_deadline_at :: string
  si_now :: int

record stalled_callout =
  sc_title :: string
  sc_sequential :: string
  sc_timeout :: string
  sc_countdown :: string
  sc_take_over :: string
  sc_skip :: string

definition take_over_label :: "int \<Rightarrow> string" where
  "take_over_label display_row = ''Take over row '' @ show_int display_row"

definition countdown_label :: "string \<Rightarrow> int \<Rightarrow> string" where
  "countdown_label deadline_at now =
     (let remaining = num_max (Num 0) (num_floor (num_sub (date_parse deadline_at) (Num now)) 1000)
      in show_num (num_floor remaining 60) @ '':'' @
         pad_start 2 (CHR ''0'') (show_num (num_rem remaining 60)) @ '' left'')"

definition stalled_callout_of :: "stalled_input option \<Rightarrow> stalled_callout option" where
  "stalled_callout_of stalled = map_option (\<lambda>input.
     let display = si_row_index input + 1 in
     \<lparr>sc_title = ''Row '' @ show_int display @ '' is waiting for you'',
      sc_sequential = ''Rows run one at a time. The other '' @ show_int (si_queued_count input) @
        '' rows stay queued until this one is dealt with.'',
      sc_timeout = ''If the deadline passes, this row fails and the Batch moves on.'',
      sc_countdown = countdown_label (si_deadline_at input) (si_now input),
      sc_take_over = take_over_label display,
      sc_skip = ''Skip this row''\<rparr>) stalled"

section \<open>The output\<close>

text \<open>\<open>JSON.stringify\<close> of an array or an object is never \<open>undefined\<close>.\<close>

fun cell_of :: "js \<Rightarrow> string" where
  "cell_of Null = []"
| "cell_of Undefined = []"
| "cell_of (Str s) = s"
| "cell_of (Number n) = show_num n"
| "cell_of (Bool b) = (if b then ''true'' else ''false'')"
| "cell_of v = orelse (stringify v) []"

fun array_cells :: "js \<Rightarrow> js list" where
  "array_cells (Arr cells) = cells"
| "array_cells _ = []"

definition output_cell :: "js list \<Rightarrow> nat \<Rightarrow> string" where
  "output_cell cells index = cell_of (orelse (Prelude.at cells (int index)) Undefined)"

definition batch_output_table :: "js \<Rightarrow> output_table option" where
  "batch_output_table assembled =
     (case assembled of
        Obj ob \<Rightarrow>
          (case (field ob ''columns'', field ob ''rows'') of
             (Arr columns, Arr rows) \<Rightarrow>
               if \<not> list_all (\<lambda>c. as_string c \<noteq> None) columns then None
               else if columns = [] then None
               else Some \<lparr>ot_columns = map (\<lambda>c. orelse (as_string c) []) columns,
                 ot_rows = map (\<lambda>row. map (output_cell (array_cells row)) [0..<length columns]) rows\<rparr>
           | _ \<Rightarrow> None)
      | _ \<Rightarrow> None)"

definition variable_cell :: "js \<Rightarrow> string" where
  "variable_cell v = cell_of v"

section \<open>A Variable the queued rows have no value for\<close>

definition has_variable_value :: "fields \<Rightarrow> string \<Rightarrow> bool" where
  "has_variable_value variables name \<longleftrightarrow>
     has_key variables name \<and>
     field variables name \<noteq> Null \<and> field variables name \<noteq> Undefined \<and> field variables name \<noteq> Str []"

record running_drift_banner =
  rd_name :: string
  rd_queued_count :: nat
  rd_title :: string
  rd_fill :: string
  rd_run_as_is :: string
  rd_cancel_rest :: string

definition lacks_value :: "string \<Rightarrow> batch_row \<Rightarrow> bool" where
  "lacks_value name row \<longleftrightarrow> br_status row = Row_queued \<and> \<not> has_variable_value (br_variables row) name"

fun running_drift_banner_of ::
    "batch_row list \<Rightarrow> variable list \<Rightarrow> string set \<Rightarrow> running_drift_banner option" where
  "running_drift_banner_of rows [] dismissed = None"
| "running_drift_banner_of rows (variable # latest) dismissed =
     (if va_secret variable = Some True \<or> va_name variable \<in> dismissed
      then running_drift_banner_of rows latest dismissed
      else
        (let queued_count = length (filter (lacks_value (va_name variable)) rows) in
         if queued_count = 0 then running_drift_banner_of rows latest dismissed
         else Some \<lparr>rd_name = va_name variable, rd_queued_count = queued_count,
           rd_title = show_nat queued_count @ '' queued rows have no value for '' @ va_name variable,
           rd_fill = ''Fill the queued rows'', rd_run_as_is = ''Run them as they are'',
           rd_cancel_rest = ''Cancel the rest''\<rparr>))"

definition fill_rows_body :: "string \<Rightarrow> string \<Rightarrow> string \<times> string" where
  "fill_rows_body name v = (name, v)"

definition apply_queued_fill :: "batch_row list \<Rightarrow> string \<Rightarrow> string \<Rightarrow> batch_row list" where
  "apply_queued_fill rows name v =
     map (\<lambda>row. if br_status row \<noteq> Row_queued \<or> has_variable_value (br_variables row) name then row
        else row\<lparr>br_variables := with_key name (Str v) (br_variables row)\<rparr>) rows"

definition dismiss_variable :: "string set \<Rightarrow> string \<Rightarrow> string set" where
  "dismiss_variable dismissed name = insert name dismissed"

section \<open>The list of Batches\<close>

definition batch_href :: "string \<Rightarrow> string" where
  "batch_href i = ''/batches/'' @ i"

definition batch_list_kind :: "bool \<Rightarrow> nat \<Rightarrow> list_kind" where
  "batch_list_kind loaded item_count =
     (if \<not> loaded \<and> item_count = 0 then Loading else if 0 < item_count then Rows else Empty_list)"

definition row_count_label :: "nat \<Rightarrow> string" where
  "row_count_label n = (if n = 1 then ''1 row'' else show_nat n @ '' rows'')"

section \<open>What the page shows\<close>

lemma tally_fold:
  "foldl tally_row (a, b, c, d) rows =
     (a + length (filter (\<lambda>row. br_status row = Row_succeeded) rows),
      b + length (filter (\<lambda>row. br_status row = Row_failed) rows),
      c + length (filter (\<lambda>row. br_status row = Row_queued) rows),
      d + length (filter (\<lambda>row. skipped_like (br_status row)) rows))"
  by (induction rows arbitrary: a b c d) (auto simp: tally_row_def skipped_like_def)

lemma stats_fold_fields:
  "bs_queued (foldl (\<lambda>s row. count_status s (br_status row)) stats rows) =
     bs_queued stats + length (filter (\<lambda>row. br_status row = Row_queued) rows)"
  "bs_running (foldl (\<lambda>s row. count_status s (br_status row)) stats rows) =
     bs_running stats + length (filter (\<lambda>row. br_status row = Row_running) rows)"
  "bs_succeeded (foldl (\<lambda>s row. count_status s (br_status row)) stats rows) =
     bs_succeeded stats + length (filter (\<lambda>row. br_status row = Row_succeeded) rows)"
  "bs_failed (foldl (\<lambda>s row. count_status s (br_status row)) stats rows) =
     bs_failed stats + length (filter (\<lambda>row. br_status row = Row_failed) rows)"
  "bs_skipped (foldl (\<lambda>s row. count_status s (br_status row)) stats rows) +
   bs_cancelled (foldl (\<lambda>s row. count_status s (br_status row)) stats rows) =
     bs_skipped stats + bs_cancelled stats + length (filter (\<lambda>row. skipped_like (br_status row)) rows)"
  by (induction rows arbitrary: stats) (auto simp: count_status_fields skipped_like_def)

lemma row_partition:
  "length (filter (\<lambda>row. br_status row = Row_succeeded) rows) +
   length (filter (\<lambda>row. br_status row = Row_failed) rows) +
   length (filter (\<lambda>row. br_status row = Row_running) rows) +
   length (filter (\<lambda>row. skipped_like (br_status row)) rows) +
   length (filter (\<lambda>row. br_status row = Row_queued) rows) = length rows"
proof (induction rows)
  case (Cons row rows)
  then show ?case by (cases "br_status row") (simp_all add: skipped_like_def)
qed simp

text \<open>The progress bar and the counts above it agree, whatever the rows: the segments add up to
  the number of rows, and each count shown is that of its segment; what the counts leave
  out is exactly the rows that run.\<close>

theorem progress_adds_up:
  "sum_list (map ps_count (progress_segments (stats_from_rows rows))) = length rows \<and>
   map ps_count (progress_segments (stats_from_rows rows)) =
     [sv_succeeded (stats_view_of rows), sv_failed (stats_view_of rows),
      sv_total (stats_view_of rows) - (sv_done (stats_view_of rows) + sv_queued (stats_view_of rows) +
        sv_skipped (stats_view_of rows)),
      sv_skipped (stats_view_of rows), sv_queued (stats_view_of rows)]"
  using row_partition [of rows]
  by (simp add: progress_segments_def stats_from_rows_def stats_fold_fields no_stats_def
      stats_view_of_def tally_fold)

lemma batch_output_rectangular:
  "batch_output_table v = Some t \<Longrightarrow>
   ot_columns t \<noteq> [] \<and> (\<forall>row \<in> set (ot_rows t). length row = length (ot_columns t))"
  by (auto simp: batch_output_table_def Let_def split: js.splits if_splits)

section \<open>The banner and its answers\<close>

text \<open>The Variables of the banner: those it would name, one after the other.\<close>

definition wanting :: "batch_row list \<Rightarrow> variable list \<Rightarrow> string set \<Rightarrow> variable list" where
  "wanting rows latest dismissed =
     filter (\<lambda>v. va_secret v \<noteq> Some True \<and> va_name v \<notin> dismissed \<and> (\<exists>row \<in> set rows. lacks_value (va_name v) row))
       latest"

lemma banner_wanting:
  "map_option rd_name (running_drift_banner_of rows latest dismissed) =
     (case wanting rows latest dismissed of [] \<Rightarrow> None | v # _ \<Rightarrow> Some (va_name v))"
proof (induction latest)
  case (Cons v latest)
  have "length (filter (lacks_value (va_name v)) rows) = 0 \<longleftrightarrow> \<not> (\<exists>row \<in> set rows. lacks_value (va_name v) row)"
    by (auto simp: filter_empty_conv)
  with Cons show ?case by (auto simp: wanting_def Let_def)
qed (simp add: wanting_def)

lemma has_value_with_key:
  "v \<noteq> [] \<Longrightarrow> has_variable_value (with_key name (Str v) variables) k \<longleftrightarrow>
     k = name \<or> has_variable_value variables k"
  by (auto simp: has_variable_value_def has_key_iff)

lemma lacks_after_fill:
  assumes "v \<noteq> []"
  shows "(\<exists>row \<in> set (apply_queued_fill rows name v). lacks_value k row) \<longleftrightarrow>
    k \<noteq> name \<and> (\<exists>row \<in> set rows. lacks_value k row)"
proof -
  have "lacks_value k (if br_status row \<noteq> Row_queued \<or> has_variable_value (br_variables row) name then row
      else row\<lparr>br_variables := with_key name (Str v) (br_variables row)\<rparr>) \<longleftrightarrow>
    k \<noteq> name \<and> lacks_value k row" for row
    using assms by (auto simp: lacks_value_def has_value_with_key)
  then show ?thesis
    unfolding apply_queued_fill_def set_map bex_simps(7) by blast
qed

lemma wanting_after_fill:
  "v \<noteq> [] \<Longrightarrow> wanting (apply_queued_fill rows name v) latest dismissed =
     filter (\<lambda>x. va_name x \<noteq> name) (wanting rows latest dismissed)"
  by (auto simp: wanting_def lacks_after_fill intro!: filter_cong)

lemma wanting_after_dismissal:
  "wanting rows latest (dismiss_variable dismissed name) =
     filter (\<lambda>x. va_name x \<noteq> name) (wanting rows latest dismissed)"
  by (auto simp: wanting_def dismiss_variable_def intro!: filter_cong)

text \<open>
  One answer to the banner: the queued rows are filled with a value, or run as they are,
  which dismisses the Variable.
\<close>

definition answer_banner ::
    "variable list \<Rightarrow> batch_row list \<times> string set \<Rightarrow> string option \<Rightarrow> batch_row list \<times> string set" where
  "answer_banner latest page answer =
     (case page of (rows, dismissed) \<Rightarrow>
        (case running_drift_banner_of rows latest dismissed of
           None \<Rightarrow> (rows, dismissed)
         | Some banner \<Rightarrow>
             (case answer of
                Some v \<Rightarrow> (apply_queued_fill rows (rd_name banner) v, dismissed)
              | None \<Rightarrow> (rows, dismiss_variable dismissed (rd_name banner)))))"

lemma answer_shrinks:
  assumes "answer \<noteq> Some []" and "answer_banner latest (rows, dismissed) answer = (rows', dismissed')"
  shows "length (wanting rows' latest dismissed') \<le> length (wanting rows latest dismissed) - 1"
proof (cases "running_drift_banner_of rows latest dismissed")
  case None
  then have "wanting rows latest dismissed = []"
    using banner_wanting [of rows latest dismissed] by (simp split: list.splits)
  with None assms show ?thesis by (simp add: answer_banner_def)
next
  case (Some banner)
  then obtain v vs where w: "wanting rows latest dismissed = v # vs" "va_name v = rd_name banner"
    using banner_wanting [of rows latest dismissed] by (auto split: list.splits)
  have "wanting rows' latest dismissed' = filter (\<lambda>x. va_name x \<noteq> rd_name banner) (v # vs)"
    using assms Some w(1)
    by (cases answer) (auto simp: answer_banner_def wanting_after_fill wanting_after_dismissal)
  then show ?thesis using w by (simp add: length_filter_le)
qed

lemma answers_shrink:
  assumes "\<forall>answer \<in> set answers. answer \<noteq> Some []"
    and "foldl (answer_banner latest) (rows, dismissed) answers = (rows', dismissed')"
  shows "length (wanting rows' latest dismissed') \<le> length (wanting rows latest dismissed) - length answers"
  using assms
proof (induction answers arbitrary: rows dismissed)
  case (Cons answer answers)
  obtain rows1 dismissed1 where one: "answer_banner latest (rows, dismissed) answer = (rows1, dismissed1)"
    by force
  with Cons have "length (wanting rows' latest dismissed') \<le>
      length (wanting rows1 latest dismissed1) - length answers" by simp
  moreover have "length (wanting rows1 latest dismissed1) \<le> length (wanting rows latest dismissed) - 1"
    using Cons.prems(1) one by (intro answer_shrinks [of answer]) auto
  ultimately show ?case by simp
qed simp

text \<open>The banner ends: answered once per Variable of the latest Version, with a value or with a
  dismissal, in any mix, it is gone. A value goes into the queued rows that have none and
  nowhere else.\<close>

theorem banner_is_answered:
  assumes "\<forall>answer \<in> set answers. answer \<noteq> Some []" and "length latest \<le> length answers"
  shows "(case foldl (answer_banner latest) (rows, dismissed) answers of
       (rows', dismissed') \<Rightarrow> running_drift_banner_of rows' latest dismissed' = None) \<and>
     (\<forall>i < length rows. apply_queued_fill rows name v ! i =
        (if lacks_value name (rows ! i)
         then (rows ! i)\<lparr>br_variables := with_key name (Str v) (br_variables (rows ! i))\<rparr>
         else rows ! i))"
proof
  obtain rows' dismissed' where page: "foldl (answer_banner latest) (rows, dismissed) answers = (rows', dismissed')"
    by force
  have "length (wanting rows latest dismissed) \<le> length latest"
    by (simp add: wanting_def)
  with answers_shrink [OF assms(1) page] assms(2) have "wanting rows' latest dismissed' = []"
    by simp
  then have "running_drift_banner_of rows' latest dismissed' = None"
    using banner_wanting [of rows' latest dismissed'] by simp
  then show "case foldl (answer_banner latest) (rows, dismissed) answers of
      (rows', dismissed') \<Rightarrow> running_drift_banner_of rows' latest dismissed' = None"
    by (simp add: page)
  show "\<forall>i < length rows. apply_queued_fill rows name v ! i =
      (if lacks_value name (rows ! i)
       then (rows ! i)\<lparr>br_variables := with_key name (Str v) (br_variables (rows ! i))\<rparr> else rows ! i)"
    by (auto simp: apply_queued_fill_def lacks_value_def)
qed

theorem banner_is_answered_witness:
  "running_drift_banner_of (bs_rows sample_batch)
     [\<lparr>va_name = ''city'', va_secret = None, va_secret_id = None, va_secret_name = None\<rparr>] {} \<noteq> None \<and>
   (case foldl (answer_banner [\<lparr>va_name = ''city'', va_secret = None, va_secret_id = None, va_secret_name = None\<rparr>])
      (bs_rows sample_batch, {}) [Some ''Oslo''] of
      (rows', dismissed') \<Rightarrow> running_drift_banner_of rows'
        [\<lparr>va_name = ''city'', va_secret = None, va_secret_id = None, va_secret_name = None\<rparr>] dismissed' = None)"
  using banner_is_answered [of "[Some ''Oslo'']"
      "[\<lparr>va_name = ''city'', va_secret = None, va_secret_id = None, va_secret_name = None\<rparr>]" "bs_rows sample_batch" "{}"]
  by (simp add: sample_batch_def Let_def lacks_value_def has_variable_value_def has_key_def)

end
