(* ===== verification/NewBatch.thy ===== *)
theory NewBatch
  imports Csv Durations
begin

text \<open>
  The page that creates a Batch: the state of \<open>workflows/[id]/batches/new/page.tsx\<close> and the
  handlers that change it, with the functions of \<open>batches/new/creation.ts\<close> and the edits of
  the grid (\<open>components/value-grid/value-grid.tsx\<close>). The page is as it is once the Workflow
  and its Version have loaded; what the API answers (the Variables of the latest Version, a
  past Batch) arrives in the events. The mutations' pending and error flags, which only
  disable buttons and show messages, are left out.
\<close>

section \<open>Creation\<close>

definition months :: "string list" where
  "months = [''Jan'', ''Feb'', ''Mar'', ''Apr'', ''May'', ''Jun'', ''Jul'', ''Aug'', ''Sep'', ''Oct'', ''Nov'', ''Dec'']"

text \<open>A local date: its day, its month counted from 0, its year.\<close>

type_synonym local_date = "int \<times> int \<times> int"

definition calendar_date :: "local_date \<Rightarrow> string" where
  "calendar_date now =
     (case now of (day, month, year) \<Rightarrow>
        show_int day @ '' '' @ orelse (at months month) [] @ '' '' @ show_int year)"

definition dot_sign :: string where
  "dot_sign = [CHR '' '', CHR 0xC2, CHR 0xB7, CHR '' '']"

definition default_batch_name :: "string \<Rightarrow> local_date \<Rightarrow> string" where
  "default_batch_name workflow_name now = workflow_name @ dot_sign @ calendar_date now"

definition rerun_batch_name :: "string \<Rightarrow> string \<Rightarrow> string" where
  "rerun_batch_name workflow_name batch_name = workflow_name @ dot_sign @ ''rerun of '' @ batch_name"

definition sequential_eta :: "nat \<Rightarrow> int option \<Rightarrow> string" where
  "sequential_eta n median_ms =
     (case median_ms of
        None \<Rightarrow> show_nat n @ '' Runs, one at a time''
      | Some ms \<Rightarrow> ''about '' @ duration (Num (ms * int n)))"

definition progress_href :: "string \<Rightarrow> string" where
  "progress_href batch_id = ''/batches/'' @ batch_id"

record create_batch =
  cb_name :: string
  cb_run_incomplete_rows :: bool
  cb_rows :: "(string \<rightharpoonup> string) list"

definition create_body :: "string \<Rightarrow> grid_row list \<Rightarrow> grid_column list \<Rightarrow> bool \<Rightarrow> create_batch" where
  "create_body name rows columns run_incomplete_rows =
     \<lparr>cb_name = name, cb_run_incomplete_rows = run_incomplete_rows,
      cb_rows = map (\<lambda>row. submitted_variables row columns) rows\<rparr>"

definition added_variables :: "string list \<Rightarrow> variable list \<Rightarrow> variable list" where
  "added_variables baseline_names latest =
     filter (\<lambda>v. va_secret v \<noteq> Some True \<and> va_name v \<notin> set baseline_names) latest"

definition merge_variables :: "variable list \<Rightarrow> variable list \<Rightarrow> variable list" where
  "merge_variables current added =
     current @ filter (\<lambda>v. va_name v \<notin> set (map va_name current)) added"

record creation_drift_banner =
  cd_name :: string
  cd_title :: string
  cd_offer :: string

definition creation_drift_banner_of :: "variable list \<Rightarrow> creation_drift_banner option" where
  "creation_drift_banner_of added =
     map_option (\<lambda>first. \<lparr>cd_name = va_name first, cd_title = ''This Workflow now needs '' @ va_name first,
       cd_offer = ''Give every row the same value''\<rparr>) (at added 0)"

definition submit_blocked_by_drift :: "variable list \<Rightarrow> bool" where
  "submit_blocked_by_drift added \<longleftrightarrow> 0 < length added"

section \<open>The edits of the grid\<close>

definition initial_rows :: "variable list \<Rightarrow> nat \<Rightarrow> grid_row list" where
  "initial_rows variables n = blank_rows (columns_of variables) n"

definition type_cell :: "grid_row list \<Rightarrow> grid_column list \<Rightarrow> nat \<Rightarrow> string \<Rightarrow> string \<Rightarrow> grid_row list" where
  "type_cell rows columns row_index name typed =
     map (\<lambda>(entry, index). if index = row_index then set_cell entry columns name typed else entry)
       (zip rows [0..<length rows])"

text \<open>A paste of a single value is left to the input.\<close>

definition paste_at ::
    "grid_row list \<Rightarrow> grid_column list \<Rightarrow> nat \<Rightarrow> nat \<Rightarrow> string \<Rightarrow> nat option \<Rightarrow> grid_row list" where
  "paste_at rows columns row col text fixed_row_count =
     (if CHR 0x09 \<notin> set text \<and> CHR 0x0A \<notin> set text \<and> CHR 0x0D \<notin> set text then rows
      else apply_paste rows columns row col (parse_spreadsheet text) fixed_row_count)"

definition add_row :: "grid_row list \<Rightarrow> grid_column list \<Rightarrow> grid_row list" where
  "add_row rows columns = rows @ [empty_row columns]"

section \<open>The page\<close>

record creation_page =
  cr_declared :: "variable list"
  cr_rows :: "grid_row list"
  cr_name :: "string option"
  cr_run_incomplete :: bool
  cr_added :: "variable list"
  cr_fill_value :: string
  cr_import_panel :: import_panel
  cr_baseline_names :: "string list"

abbreviation cr_columns :: "creation_page \<Rightarrow> grid_column list" where
  "cr_columns page \<equiv> columns_of (cr_declared page)"

definition load_page :: "variable list \<Rightarrow> creation_page" where
  "load_page loaded =
     \<lparr>cr_declared = loaded, cr_rows = initial_rows loaded 1, cr_name = None, cr_run_incomplete = False,
      cr_added = [], cr_fill_value = [], cr_import_panel = Idle,
      cr_baseline_names = map va_name (filter (\<lambda>v. va_secret v \<noteq> Some True) loaded)\<rparr>"

text \<open>What a look at the latest Version does, on focus and before a submission.\<close>

definition note_drift :: "variable list \<Rightarrow> creation_page \<Rightarrow> creation_page" where
  "note_drift latest page =
     (let upcoming = added_variables (cr_baseline_names page) latest in
      if 0 < length upcoming
      then page\<lparr>cr_added := upcoming, cr_declared := merge_variables (cr_declared page) upcoming\<rparr>
      else page)"

definition fill_added :: "creation_page \<Rightarrow> creation_page" where
  "fill_added page =
     (case creation_drift_banner_of (cr_added page) of
        None \<Rightarrow> page
      | Some banner \<Rightarrow>
          page\<lparr>cr_rows := fill_every_row (cr_rows page) (cr_columns page) (cd_name banner) (cr_fill_value page),
            cr_baseline_names := cr_baseline_names page @ [cd_name banner],
            cr_added := filter (\<lambda>v. va_name v \<noteq> cd_name banner) (cr_added page),
            cr_fill_value := []\<rparr>)"

definition as_reconciled :: "variable list \<Rightarrow> reconcile_variable list" where
  "as_reconciled variables = map (\<lambda>v. \<lparr>rv_name = va_name v, rv_secret = va_secret v\<rparr>) variables"

definition land_csv :: "string \<Rightarrow> creation_page \<Rightarrow> creation_page" where
  "land_csv text page =
     (case begin_import text (as_reconciled (cr_declared page)) (cr_columns page) None of
        Landed rows panel \<Rightarrow> page\<lparr>cr_rows := rows, cr_import_panel := Summary panel\<rparr>
      | Stripped panel \<Rightarrow> page\<lparr>cr_import_panel := Strip panel\<rparr>)"

definition confirm_panel :: "creation_page \<Rightarrow> creation_page" where
  "confirm_panel page =
     (case cr_import_panel page of
        Strip panel \<Rightarrow>
          (case confirm_import panel (cr_columns page) None of
             (rows, summary) \<Rightarrow> page\<lparr>cr_rows := rows, cr_import_panel := Summary summary\<rparr>)
      | _ \<Rightarrow> page)"

definition change_panel :: "(import_panel \<Rightarrow> import_panel) \<Rightarrow> creation_page \<Rightarrow> creation_page" where
  "change_panel f page = page\<lparr>cr_import_panel := f (cr_import_panel page)\<rparr>"

fun assign_in_panel :: "string \<Rightarrow> string option \<Rightarrow> import_panel \<Rightarrow> import_panel" where
  "assign_in_panel name header (Strip panel) = Strip (assign_header panel name header)"
| "assign_in_panel name header panel = panel"

fun dismiss_panel :: "import_panel \<Rightarrow> import_panel" where
  "dismiss_panel (Summary panel) = Summary (dismiss_summary panel)"
| "dismiss_panel panel = panel"

fun reopen_panel :: "import_panel \<Rightarrow> import_panel" where
  "reopen_panel (Summary panel) = Summary (reopen_summary panel)"
| "reopen_panel panel = panel"

fun remap_panel :: "import_panel \<Rightarrow> import_panel" where
  "remap_panel (Summary panel) = Strip (strip_from_summary panel)"
| "remap_panel panel = panel"

definition copy_batch :: "string \<Rightarrow> string \<Rightarrow> fields list \<Rightarrow> creation_page \<Rightarrow> creation_page" where
  "copy_batch workflow_name batch_name past page =
     page\<lparr>cr_rows := apply_copied_batch (cr_columns page) past,
       cr_name := Some (rerun_batch_name workflow_name batch_name)\<rparr>"

datatype page_event =
    Typed nat string string
  | Pasted nat nat string
  | Row_added
  | Focused "variable list"
  | Fill_typed string
  | Fill_asked
  | Csv_picked string
  | Header_assigned string "string option"
  | Import_confirmed
  | Summary_dismissed
  | Summary_reopened
  | Mapping_reopened
  | Batch_copied string string "fields list"
  | Name_typed string
  | Ticked bool

fun page_step :: "creation_page \<Rightarrow> page_event \<Rightarrow> creation_page" where
  "page_step page (Typed row name typed) =
     page\<lparr>cr_rows := type_cell (cr_rows page) (cr_columns page) row name typed\<rparr>"
| "page_step page (Pasted row col text) =
     page\<lparr>cr_rows := paste_at (cr_rows page) (cr_columns page) row col text None\<rparr>"
| "page_step page Row_added = page\<lparr>cr_rows := add_row (cr_rows page) (cr_columns page)\<rparr>"
| "page_step page (Focused latest) = note_drift latest page"
| "page_step page (Fill_typed v) = page\<lparr>cr_fill_value := v\<rparr>"
| "page_step page Fill_asked = (if trim (cr_fill_value page) = [] then page else fill_added page)"
| "page_step page (Csv_picked text) = land_csv text page"
| "page_step page (Header_assigned name header) = change_panel (assign_in_panel name header) page"
| "page_step page Import_confirmed = confirm_panel page"
| "page_step page Summary_dismissed = change_panel dismiss_panel page"
| "page_step page Summary_reopened = change_panel reopen_panel page"
| "page_step page Mapping_reopened = change_panel remap_panel page"
| "page_step page (Batch_copied workflow_name batch_name past) = copy_batch workflow_name batch_name past page"
| "page_step page (Name_typed name) = page\<lparr>cr_name := Some name\<rparr>"
| "page_step page (Ticked ticked) = page\<lparr>cr_run_incomplete := ticked\<rparr>"

text \<open>
  A submission looks at the latest Version first, and sends a body unless a Variable was
  added since. The button is disabled when there are no rows.
\<close>

definition submit ::
    "string \<Rightarrow> local_date \<Rightarrow> variable list \<Rightarrow> creation_page \<Rightarrow> creation_page \<times> create_batch option" where
  "submit workflow_name now latest page =
     (if cr_rows page = [] then (page, None)
      else
        (let page' = note_drift latest page in
         if submit_blocked_by_drift (added_variables (cr_baseline_names page) latest) then (page', None)
         else (page', Some (create_body (orelse (cr_name page) (default_batch_name workflow_name now))
           (cr_rows page) (cr_columns page) (cr_run_incomplete page)))))"

section \<open>No value for a Secret\<close>

definition page_ok :: "creation_page \<Rightarrow> bool" where
  "page_ok page \<longleftrightarrow> list_all (row_ok (cr_columns page)) (cr_rows page)"

lemma row_ok_more:
  "row_ok (columns_of vs) row \<Longrightarrow> row_ok (columns_of (merge_variables vs added)) row"
  by (auto simp: row_ok_def plain_names_columns_of merge_variables_def)

lemma rows_ok_type:
  assumes "list_all (row_ok columns) rows"
  shows "list_all (row_ok columns) (type_cell rows columns k name v)"
proof -
  have "row_ok columns entry \<and> row_ok columns (set_cell entry columns name v)"
    if "(entry, index) \<in> set (zip rows [0..<length rows])" for entry index
    using assms set_zip_leftD [OF that] row_ok_set_cell by (simp add: list_all_iff)
  then show ?thesis
    by (auto simp: type_cell_def list_all_iff)
qed

lemma rows_ok_paste:
  "list_all (row_ok columns) rows \<Longrightarrow> list_all (row_ok columns) (paste_at rows columns r c text cap)"
  using rows_ok_paste_rows [of columns rows cap r c "parse_spreadsheet text"]
  by (auto simp: paste_at_def apply_paste_def Let_def list_all_iff dest: in_set_takeD split: option.splits)

lemma rows_ok_fill:
  "list_all (row_ok columns) rows \<Longrightarrow> list_all (row_ok columns) (fill_every_row rows columns name v)"
  by (auto simp: fill_every_row_def list_all_iff intro: row_ok_set_cell)

lemma rows_ok_copied: "list_all (row_ok columns) (apply_copied_batch columns past)"
  by (simp add: apply_copied_batch_def list_all_iff row_ok_copied)

lemma page_ok_note: "page_ok page \<Longrightarrow> page_ok (note_drift latest page)"
  by (auto simp: page_ok_def note_drift_def Let_def list_all_iff intro: row_ok_more)

lemma page_ok_land: "page_ok page \<Longrightarrow> page_ok (land_csv text page)"
  by (auto simp: page_ok_def land_csv_def begin_import_def Let_def rows_ok_apply_import split: if_splits)

lemma page_ok_confirm: "page_ok page \<Longrightarrow> page_ok (confirm_panel page)"
  by (auto simp: page_ok_def confirm_panel_def confirm_import_def Let_def rows_ok_apply_import
      split: import_panel.splits)

lemma page_ok_fill: "page_ok page \<Longrightarrow> page_ok (fill_added page)"
  by (auto simp: page_ok_def fill_added_def rows_ok_fill split: option.splits)

interpretation page: reducer page_step page_ok
proof
  fix page :: creation_page and ev
  assume ok: "page_ok page"
  then have rows: "list_all (row_ok (cr_columns page)) (cr_rows page)" by (simp add: page_ok_def)
  from ok rows show "page_ok (page_step page ev)"
    by (cases ev)
      (simp_all add: page_ok_note page_ok_land page_ok_confirm page_ok_fill change_panel_def,
        simp_all add: page_ok_def rows_ok_type rows_ok_paste rows_ok_copied copy_batch_def add_row_def
          grid.ok_fresh)
qed

lemma load_page_ok: "page_ok (load_page loaded)"
  by (simp add: page_ok_def load_page_def initial_rows_def blank_rows_def list_all_iff grid.ok_fresh)


definition city :: variable where
  "city = \<lparr>va_name = ''city'', va_secret = None, va_secret_id = None, va_secret_name = None\<rparr>"

definition zip_code :: variable where
  "zip_code = \<lparr>va_name = ''zip'', va_secret = None, va_secret_id = None, va_secret_name = None\<rparr>"

definition filled_page :: creation_page where
  "filled_page = foldl page_step (load_page [city])
     [Typed 0 ''city'' ''Oslo'', Focused [city, zip_code], Fill_typed ''0150'', Fill_asked]"

lemma filled_page_submits:
  "\<exists>body. submit ''W'' (1, 0, 2025) [city, zip_code] filled_page = (filled_page, Some body) \<and>
     (\<forall>row \<in> set (cb_rows body). row ''zip'' = Some ''0150'')"
proof -
  have "trim ''0150'' = ''0150''"
    by (rule trim_solid) (simp_all add: solid_def code_def)
  then show ?thesis
    by (simp add: filled_page_def submit_def load_page_def note_drift_def fill_added_def Let_def
        added_variables_def merge_variables_def creation_drift_banner_of_def city_def zip_code_def at_def
        submit_blocked_by_drift_def create_body_def initial_rows_def blank_rows_def columns_of_def
        empty_row_def type_cell_def fill_every_row_def set_cell_def submitted_variables_def)
qed


section \<open>The drift is settled\<close>

text \<open>Every banner answered with the same value: it is typed, and the fill is asked for.\<close>

definition answer_drift :: "string \<Rightarrow> creation_page \<Rightarrow> creation_page" where
  "answer_drift v page = foldl page_step page [Fill_typed v, Fill_asked]"

lemma answer_drift_Cons:
  assumes "trim v \<noteq> []" and "cr_added page = x # xs"
  shows "answer_drift v page =
    page\<lparr>cr_rows := fill_every_row (cr_rows page) (cr_columns page) (va_name x) v,
      cr_baseline_names := cr_baseline_names page @ [va_name x],
      cr_added := filter (\<lambda>y. va_name y \<noteq> va_name x) xs, cr_fill_value := []\<rparr>"
  using assms by (simp add: answer_drift_def fill_added_def creation_drift_banner_of_def at_def)

lemma answer_drift_Nil:
  assumes "cr_added page = []"
  shows "cr_rows (answer_drift v page) = cr_rows page \<and> cr_added (answer_drift v page) = [] \<and>
    cr_baseline_names (answer_drift v page) = cr_baseline_names page \<and>
    cr_declared (answer_drift v page) = cr_declared page"
  using assms by (simp add: answer_drift_def fill_added_def creation_drift_banner_of_def)

lemma answer_drift_declared: "cr_declared (answer_drift v page) = cr_declared page"
  by (simp add: answer_drift_def fill_added_def split: option.splits)

lemma find_columns_of: "find (\<lambda>c. gc_name c = n) (columns_of vs) =
   map_option (\<lambda>v. \<lparr>gc_name = va_name v, gc_secret = (va_secret v = Some True), gc_secret_name = va_secret_name v\<rparr>)
     (find (\<lambda>v. va_name v = n) vs)"
  by (induction vs) (auto simp: columns_of_def)

text \<open>Whether the grid writes under a name: its first declaration is a plain Variable.\<close>

definition writable :: "variable list \<Rightarrow> string \<Rightarrow> bool" where
  "writable declared n \<longleftrightarrow> (\<exists>v. find (\<lambda>v. va_name v = n) declared = Some v \<and> va_secret v \<noteq> Some True)"

lemma fill_writable:
  "writable declared n \<Longrightarrow>
   fill_every_row rows (columns_of declared) n v = map (\<lambda>row. row(n \<mapsto> v)) rows"
  by (auto simp: writable_def fill_every_row_def set_cell_def find_columns_of)

lemma answers_settle:
  assumes "trim v \<noteq> []" and "length (cr_added page) \<le> k"
    and "\<forall>x \<in> set (cr_added page). writable (cr_declared page) (va_name x)"
  shows "cr_added ((answer_drift v ^^ k) page) = [] \<and>
    set (cr_baseline_names ((answer_drift v ^^ k) page)) =
      set (cr_baseline_names page) \<union> va_name ` set (cr_added page) \<and>
    cr_rows ((answer_drift v ^^ k) page) =
      map (\<lambda>row n. if n \<in> va_name ` set (cr_added page) then Some v else row n) (cr_rows page)"
  using assms
proof (induction k arbitrary: page)
  case 0
  then show ?case by simp
next
  case (Suc k)
  show ?case
  proof (cases "cr_added page")
    case Nil
    then show ?thesis
      using Suc.IH [of "answer_drift v page"] answer_drift_Nil [OF Nil, of v] assms(1)
      by (simp add: funpow_swap1)
  next
    case (Cons x xs)
    let ?page = "answer_drift v page"
    have page: "cr_added ?page = filter (\<lambda>y. va_name y \<noteq> va_name x) xs"
      "cr_declared ?page = cr_declared page"
      "cr_baseline_names ?page = cr_baseline_names page @ [va_name x]"
      "cr_rows ?page = map (\<lambda>row. row(va_name x \<mapsto> v)) (cr_rows page)"
      using answer_drift_Cons [OF assms(1) Cons] Suc.prems(3) Cons by (simp_all add: fill_writable)
    have "length (cr_added ?page) \<le> k"
      using Suc.prems(2) Cons le_trans [OF length_filter_le]
      by (simp add: page)
    from Suc.IH [OF assms(1) this] Suc.prems(3) Cons
    show ?thesis by (auto simp: page funpow_swap1 fun_eq_iff)
  qed
qed

lemma find_append: "find P (xs @ ys) = (case find P xs of None \<Rightarrow> find P ys | Some x \<Rightarrow> Some x)"
  by (induction xs) auto

lemma find_filter_name:
  "find (\<lambda>v. va_name v = n) (filter (\<lambda>v. va_name v \<notin> A) vs) =
     (if n \<in> A then None else find (\<lambda>v. va_name v = n) vs)"
  by (induction vs) auto

lemma added_writable:
  assumes "x \<in> set (added_variables baseline latest)"
    and "\<forall>d \<in> set declared. va_secret d = Some True \<longrightarrow> va_name d \<noteq> va_name x"
  shows "writable (merge_variables declared (added_variables baseline latest)) (va_name x)"
proof (cases "find (\<lambda>v. va_name v = va_name x) declared")
  case None
  then have fresh: "va_name x \<notin> va_name ` set declared"
    by (auto simp: find_None_iff)
  obtain y where y: "find (\<lambda>v. va_name v = va_name x) (added_variables baseline latest) = Some y"
    using assms(1) by (cases "find (\<lambda>v. va_name v = va_name x) (added_variables baseline latest)")
      (auto simp: find_None_iff)
  then have "va_secret y \<noteq> Some True"
    by (auto dest!: find_Some_iff_ex simp: added_variables_def)
  with y fresh None show ?thesis
    by (simp add: writable_def merge_variables_def find_append find_filter_name)
next
  case (Some d)
  then have "d \<in> set declared" "va_name d = va_name x" by (auto dest: find_Some_iff_ex)
  with assms(2) Some show ?thesis
    by (auto simp: writable_def merge_variables_def find_append)
qed

text \<open>A Workflow that gained Variables holds a Batch up only until they are answered: after a look
  at the latest Version, answering the banner once for each added Variable gives every row
  the value, and the submission then sends it. A Variable that was a Secret before is left
  out by the hypothesis: it is still locked on the page, and its value would be dropped.\<close>

theorem creation_drift_settles:
  assumes "trim v \<noteq> []" and "cr_rows page \<noteq> []" and "added_variables (cr_baseline_names page) latest \<noteq> []"
    and "\<forall>d \<in> set (cr_declared page). va_secret d = Some True \<longrightarrow>
      va_name d \<notin> va_name ` set (added_variables (cr_baseline_names page) latest)"
  shows "\<exists>page' body.
    submit workflow_name now latest
      ((answer_drift v ^^ length latest) (page_step page (Focused latest))) = (page', Some body) \<and>
    length (cb_rows body) = length (cr_rows page) \<and>
    (\<forall>row \<in> set (cb_rows body). \<forall>x \<in> set (added_variables (cr_baseline_names page) latest).
       row (va_name x) = Some v)"
proof -
  let ?added = "added_variables (cr_baseline_names page) latest"
  define noted where "noted = note_drift latest page"
  define answered where "answered = (answer_drift v ^^ length latest) noted"
  have noted: "cr_added noted = ?added" "cr_declared noted = merge_variables (cr_declared page) ?added"
    "cr_rows noted = cr_rows page" "cr_baseline_names noted = cr_baseline_names page"
    using assms(3) by (simp_all add: noted_def note_drift_def Let_def)
  have writable: "\<forall>x \<in> set (cr_added noted). writable (cr_declared noted) (va_name x)"
    unfolding noted using assms(4) by (intro ballI added_writable) auto
  have "length (cr_added noted) \<le> length latest"
    by (simp add: noted added_variables_def)
  from answers_settle [OF assms(1) this writable]
  have settled: "set (cr_baseline_names answered) = set (cr_baseline_names page) \<union> va_name ` set ?added"
    "cr_rows answered = map (\<lambda>row n. if n \<in> va_name ` set ?added then Some v else row n) (cr_rows page)"
    by (simp_all add: answered_def noted)
  have declared: "cr_declared ((answer_drift v ^^ k) noted) = cr_declared noted" for k
    by (induction k) (simp_all add: answer_drift_declared)
  have "added_variables (cr_baseline_names answered) latest = []"
    unfolding settled(1) by (auto simp: added_variables_def settled(1) filter_empty_conv)
  moreover have "cr_rows answered \<noteq> []" using settled(2) assms(2) by simp
  ultimately obtain body where body: "submit workflow_name now latest answered = (answered, Some body)"
    "cb_rows body = map (\<lambda>row. submitted_variables row (cr_columns answered)) (cr_rows answered)"
    by (simp add: submit_def Let_def submit_blocked_by_drift_def note_drift_def create_body_def)
  have plain: "va_name x \<in> plain_names (cr_columns answered)" if "x \<in> set ?added" for x
  proof -
    have "writable (cr_declared answered) (va_name x)"
      using writable that noted(1) declared by (simp add: answered_def)
    then show ?thesis
      by (force simp: writable_def plain_names_columns_of image_iff dest!: find_Some_iff_ex)
  qed
  show ?thesis
    using body plain settled(2)
    by (auto simp: answered_def noted_def submitted_variables_eq)
qed

theorem creation_drift_settles_witness:
  "\<exists>page' body. submit ''W'' (1, 0, 2025) [city, zip_code]
      ((answer_drift ''0150'' ^^ 2) (page_step (load_page [city]) (Focused [city, zip_code]))) = (page', Some body) \<and>
    (\<forall>row \<in> set (cb_rows body). row ''zip'' = Some ''0150'')"
proof -
  have "trim ''0150'' = ''0150''"
    by (rule trim_solid) (simp_all add: solid_def code_def)
  then show ?thesis
    using creation_drift_settles [of "''0150''" "load_page [city]" "[city, zip_code]" "''W''" "(1, 0, 2025)"]
    by (simp add: load_page_def city_def zip_code_def added_variables_def initial_rows_def blank_rows_def
        numeral_2_eq_2 del: funpow.simps) blast
qed

text \<open>What happens to a Variable that was a Secret: it is asked for, filled, and dropped.\<close>

lemma formerly_secret_is_dropped:
  fixes pin :: variable
  defines "pin \<equiv> \<lparr>va_name = ''pin'', va_secret = Some True, va_secret_id = None, va_secret_name = None\<rparr>"
  shows "\<exists>page' body. submit ''W'' (1, 0, 2025) [pin\<lparr>va_secret := None\<rparr>]
      (answer_drift ''42'' (page_step (load_page [pin]) (Focused [pin\<lparr>va_secret := None\<rparr>]))) = (page', Some body) \<and>
    cb_rows body = [Map.empty]"
proof -
  have "trim ''42'' = ''42''"
    by (rule trim_solid) (simp_all add: solid_def code_def)
  then show ?thesis
    by (simp add: pin_def answer_drift_def submit_def load_page_def note_drift_def fill_added_def Let_def
        added_variables_def merge_variables_def creation_drift_banner_of_def at_def
        submit_blocked_by_drift_def create_body_def initial_rows_def blank_rows_def columns_of_def
        empty_row_def fill_every_row_def set_cell_def submitted_variables_def)
qed

end
