(* ===== verification/Workflows.thy ===== *)
theory Workflows
  imports Gate Recurrence Grid Steps
begin

text \<open>
  A Workflow around its editor: its tabs and Versions and the guard on leaving the editor
  (\<open>workflows/[id]/tabs.ts\<close>, \<open>versions.ts\<close>, \<open>editor/leave.ts\<close>), publishing
  (\<open>publish.ts\<close>), what its list and its actions say (\<open>workflows/draft-state.ts\<close>,
  \<open>actions.ts\<close>, \<open>list.ts\<close>, \<open>messages.ts\<close>) and the start of a Run
  (\<open>start-run.ts\<close>, \<open>use-start-run.ts\<close>).
\<close>

section \<open>Tabs\<close>

record workflow_tab =
  wt_label :: string
  wt_segment :: string

definition editor_tab :: workflow_tab where
  "editor_tab = \<lparr>wt_label = ''Editor'', wt_segment = ''editor''\<rparr>"

definition workflow_tabs :: "workflow_tab list" where
  "workflow_tabs =
     [editor_tab,
      \<lparr>wt_label = ''Runs'', wt_segment = ''runs''\<rparr>,
      \<lparr>wt_label = ''Schedules'', wt_segment = ''schedules''\<rparr>,
      \<lparr>wt_label = ''Batches'', wt_segment = ''batches''\<rparr>]"

definition workflow_path :: "string \<Rightarrow> string" where
  "workflow_path workflow_id = ''/workflows/'' @ workflow_id"

definition tab_path :: "string \<Rightarrow> workflow_tab \<Rightarrow> string" where
  "tab_path workflow_id tab = ''/workflows/'' @ workflow_id @ ''/'' @ wt_segment tab"

definition new_batch_path :: "string \<Rightarrow> string" where
  "new_batch_path workflow_id = ''/workflows/'' @ workflow_id @ ''/batches/new''"

definition new_schedule_path :: "string \<Rightarrow> string" where
  "new_schedule_path workflow_id = ''/workflows/'' @ workflow_id @ ''/schedules/new''"

definition edit_schedule_path :: "string \<Rightarrow> string \<Rightarrow> string" where
  "edit_schedule_path workflow_id schedule_id = ''/workflows/'' @ workflow_id @ ''/schedules/'' @ schedule_id"

text \<open>The pieces of a path, the query left out; the first is the text before its first slash.\<close>

definition path_parts :: "string \<Rightarrow> string list" where
  "path_parts pathname = split_on (CHR ''/'') (before (CHR ''?'') pathname)"

definition tab_at :: "string \<Rightarrow> workflow_tab option" where
  "tab_at pathname =
     (let parts = path_parts pathname in
      if at parts 1 \<noteq> Some ''workflows'' \<or> orelse (at parts 2) [] = [] then None
      else if orelse (at parts 3) [] = [] then Some editor_tab
      else find (\<lambda>tab. Some (wt_segment tab) = at parts 3) workflow_tabs)"

section \<open>Versions\<close>

record version_choice =
  vc_label :: string
  vc_version :: "int option"
  vc_published_at :: "string option"
  vc_open :: bool

definition version_choices :: "version_summary list \<Rightarrow> int option \<Rightarrow> version_choice list" where
  "version_choices versions viewing =
     \<lparr>vc_label = ''Draft'', vc_version = None, vc_published_at = None, vc_open = (viewing = None)\<rparr> #
     map (\<lambda>v. \<lparr>vc_label = ''v'' @ show_int (vs_number v), vc_version = Some (vs_number v),
            vc_published_at = Some (vs_created_at v), vc_open = (viewing = Some (vs_number v))\<rparr>)
       (sort_key (\<lambda>v. - vs_number v) versions)"

definition version_path :: "string \<Rightarrow> int option \<Rightarrow> string" where
  "version_path workflow_id version =
     tab_path workflow_id editor_tab @
     (case version of None \<Rightarrow> [] | Some v \<Rightarrow> ''?version='' @ show_int v)"

definition viewed_version :: "string option \<Rightarrow> int option" where
  "viewed_version param =
     (case param of
        None \<Rightarrow> None
      | Some p \<Rightarrow> (case number_of_text p of Num n \<Rightarrow> if 1 \<le> n then Some n else None | NaN \<Rightarrow> None))"

definition restore_consequence :: "int \<Rightarrow> draft_state \<Rightarrow> string" where
  "restore_consequence version state =
     (let name = ''v'' @ show_int version;
          replaced =
            (if state = Unpublished_changes
             then ''Restoring '' @ name @ '' replaces the Draft, including changes no Version carries yet.''
             else ''Restoring '' @ name @ '' replaces the Draft with what '' @ name @ '' holds.'')
      in replaced @ '' Nothing that runs changes until you publish.'')"

section \<open>Leaving the editor\<close>

definition workflow_id_at :: "string \<Rightarrow> string option" where
  "workflow_id_at pathname =
     (let parts = path_parts pathname in
      if at parts 1 \<noteq> Some ''workflows'' \<or> orelse (at parts 2) [] = [] then None else at parts 2)"

definition leaves_this_editor :: "string \<Rightarrow> string \<Rightarrow> bool" where
  "leaves_this_editor source dest \<longleftrightarrow>
     \<not> (workflow_id_at source \<noteq> None \<and> workflow_id_at source = workflow_id_at dest \<and>
        tab_at dest = Some editor_tab)"

definition should_ask_before_leave :: "bool \<Rightarrow> string \<Rightarrow> string option \<Rightarrow> bool" where
  "should_ask_before_leave unsaved source dest =
     (if \<not> unsaved then False
      else if tab_at source \<noteq> Some editor_tab then False
      else (case dest of None \<Rightarrow> True | Some d \<Rightarrow> leaves_this_editor source d))"

section \<open>Publishing\<close>

datatype diff_key = Key_added | Key_changed | Key_removed

record diff_section =
  ds_key :: diff_key
  ds_heading :: string
  ds_steps :: "step_ref list"

record publish_plan =
  pp_number :: int
  pp_sections :: "diff_section list"
  pp_note :: "string option"
  pp_worth_publishing :: bool
  pp_warning :: "string option"

definition join_names :: "string list \<Rightarrow> string" where
  "join_names names =
     (if length names = 1 then names ! 0
      else if length names = 2 then names ! 0 @ '' and '' @ names ! 1
      else join '', '' (butlast names) @ '', and '' @ (if names = [] then ''undefined'' else last names))"

text \<open>\<open>humanize\<close> never raises, and \<open>??\<close> falls back to the expression itself.\<close>

definition schedule_label :: "stranded_schedule_ref \<Rightarrow> string" where
  "schedule_label schedule =
     (case ss_name schedule of
        Some n \<Rightarrow>
          if n \<noteq> [] then n
          else (case humanize (ss_cron schedule) of Inr (Some s) \<Rightarrow> s | _ \<Rightarrow> ss_cron schedule)
      | None \<Rightarrow> (case humanize (ss_cron schedule) of Inr (Some s) \<Rightarrow> s | _ \<Rightarrow> ss_cron schedule))"

definition stranded_warning :: "stranded_schedule_ref list \<Rightarrow> string option" where
  "stranded_warning schedules =
     (if schedules = [] then None
      else Some (join_names (map schedule_label schedules) @ '' will stop firing until '' @
        (if length schedules = 1 then ''its'' else ''their'') @ '' values are set.''))"

definition show_version :: "int option \<Rightarrow> string" where
  "show_version v = (case v of None \<Rightarrow> ''null'' | Some n \<Rightarrow> show_int n)"

definition publish_note :: "draft_comparison \<Rightarrow> diff_section list \<Rightarrow> string option" where
  "publish_note comparison sections =
     (if dc_state comparison = In_sync
      then Some (''Nothing has changed since v'' @ show_version (dc_latest_version comparison) @
        ''. Publishing again would mint a Version identical to it.'')
      else if sections \<noteq> [] then None
      else if dc_latest_version comparison = None
      then Some ''This Workflow has no Steps yet. Publishing mints a Version that does nothing.''
      else Some (''No Step was added, removed, or changed. What moved is the order of the Steps, '' @
        ''or the Variables they stand on.''))"

definition publish_plan_of :: "draft_comparison \<Rightarrow> publish_plan" where
  "publish_plan_of comparison =
     (let sections = filter (\<lambda>s. 0 < length (ds_steps s))
        [\<lparr>ds_key = Key_added, ds_heading = ''Added'', ds_steps = dc_added comparison\<rparr>,
         \<lparr>ds_key = Key_changed, ds_heading = ''Changed'', ds_steps = dc_changed comparison\<rparr>,
         \<lparr>ds_key = Key_removed, ds_heading = ''Removed'', ds_steps = dc_removed comparison\<rparr>]
      in \<lparr>pp_number = orelse (dc_latest_version comparison) 0 + 1, pp_sections = sections,
          pp_note = publish_note comparison sections,
          pp_worth_publishing = (dc_state comparison \<noteq> In_sync),
          pp_warning = stranded_warning (dc_stranded_schedules comparison)\<rparr>)"

section \<open>The list and its actions\<close>

definition no_published_version :: string where
  "no_published_version = ''Publish a Version before this Workflow can run.''"

fun draft_state_badge :: "draft_state \<Rightarrow> int option \<Rightarrow> string \<times> tone" where
  "draft_state_badge Never_published v = (''not published yet'', Neutral)"
| "draft_state_badge Unpublished_changes v = (''unpublished changes'', Wait_tone)"
| "draft_state_badge In_sync v =
     (''in sync with v'' @ (case v of None \<Rightarrow> [] | Some n \<Rightarrow> show_int n), Ok_tone)"

definition refusal_to_run :: "draft_state \<Rightarrow> string option" where
  "refusal_to_run state = (if state = Never_published then Some no_published_version else None)"

record workflow_action =
  wa_key :: string
  wa_label :: string
  wa_needs_a_version :: bool
  wa_destructive :: bool

definition run_action :: workflow_action where
  "run_action = \<lparr>wa_key = ''run'', wa_label = ''Run'', wa_needs_a_version = True, wa_destructive = False\<rparr>"

definition new_batch_action :: workflow_action where
  "new_batch_action =
     \<lparr>wa_key = ''new-batch'', wa_label = ''New batch'', wa_needs_a_version = True, wa_destructive = False\<rparr>"

definition new_schedule_action :: workflow_action where
  "new_schedule_action =
     \<lparr>wa_key = ''new-schedule'', wa_label = ''New schedule'', wa_needs_a_version = True, wa_destructive = False\<rparr>"

definition overflow_actions :: "workflow_action list" where
  "overflow_actions =
     [new_batch_action, new_schedule_action,
      \<lparr>wa_key = ''duplicate'', wa_label = ''Duplicate'', wa_needs_a_version = False, wa_destructive = False\<rparr>,
      \<lparr>wa_key = ''rename'', wa_label = ''Rename'', wa_needs_a_version = False, wa_destructive = False\<rparr>,
      \<lparr>wa_key = ''delete'', wa_label = ''Delete'', wa_needs_a_version = False, wa_destructive = True\<rparr>]"

definition disabled_reason :: "workflow_action \<Rightarrow> draft_state \<Rightarrow> string option" where
  "disabled_reason action state = (if wa_needs_a_version action then refusal_to_run state else None)"

definition search_and_sort_from :: int where
  "search_and_sort_from = 40"

definition offers_search_and_sort :: "int \<Rightarrow> bool \<Rightarrow> bool" where
  "offers_search_and_sort loaded searching \<longleftrightarrow> searching \<or> search_and_sort_from \<le> loaded"

definition sort_options :: "(string \<times> string) list" where
  "sort_options = [(''activity'', ''Last active''), (''name'', ''Name''), (''created'', ''Newest'')]"

definition named_counts :: "(int \<times> string) list \<Rightarrow> string option" where
  "named_counts items =
     (let named = map (\<lambda>(n, noun). show_int n @ '' '' @ noun @ (if n = 1 then [] else ''s''))
        (filter (\<lambda>(n, _). 0 < n) items)
      in if named = [] then None else Some (join '' and '' named))"

definition deletion_consequence :: "int option \<Rightarrow> int option \<Rightarrow> int option \<Rightarrow> string" where
  "deletion_consequence published_version schedule_count run_count =
     (let versions = orelse published_version 0;
          also_versions =
            (if 0 < versions
             then '' and its '' @ show_int versions @ '' published Version'' @ (if versions = 1 then [] else ''s'')
             else []);
          cascade = named_counts [(orelse schedule_count 0, ''Schedule''), (orelse run_count 0, ''Run'')];
          also_cascade = (case cascade of None \<Rightarrow> [] | Some c \<Rightarrow> '' '' @ c @ '' will be deleted.'')
      in ''Its Draft'' @ also_versions @ '' will be deleted.'' @ also_cascade @ '' This cannot be undone.'')"

definition schedule_indicator :: "int \<Rightarrow> string option \<Rightarrow> string option" where
  "schedule_indicator n label =
     (if n = 0 then None
      else if n = 1 then Some (orelse label ''1 schedule'')
      else Some (show_int n @ '' schedules''))"

section \<open>Starting a Run\<close>

definition needs_value_grid :: "variable list \<Rightarrow> bool" where
  "needs_value_grid variables \<longleftrightarrow> 0 < length variables"

definition start_body :: "grid_row \<Rightarrow> grid_column list \<Rightarrow> (string \<rightharpoonup> string)" where
  "start_body row columns = submitted_variables row columns"

text \<open>
  The hook: the dialog that is open, the refusal it set and the error of its mutation, with \<open>'e\<close>
  the errors of the API. A handler returns the Run it asks for, if any, or the page it goes
  to; asking for a Run clears the error of the mutation.
\<close>

record 'e start_state =
  sx_dialog :: "(string \<times> variable list) option"
  sx_refusal :: "'e option"
  sx_error :: "'e option"

datatype start_effect = No_effect | Start_run string "string \<rightharpoonup> string" | Go_to string

definition shown_refusal :: "'e start_state \<Rightarrow> 'e option" where
  "shown_refusal state = (case sx_error state of Some e \<Rightarrow> Some e | None \<Rightarrow> sx_refusal state)"

definition ask_for_run ::
    "string \<Rightarrow> (string \<rightharpoonup> string) \<Rightarrow> 'e start_state \<Rightarrow> start_effect \<times> 'e start_state" where
  "ask_for_run workflow_id variables state = (Start_run workflow_id variables, state\<lparr>sx_error := None\<rparr>)"

text \<open>\<open>begin\<close> until the Version is asked for: whether it is, and the state then.\<close>

definition begin_run :: "int option \<Rightarrow> 'e start_state \<Rightarrow> bool \<times> 'e start_state" where
  "begin_run published_version state =
     (if published_version = None then (False, state) else (True, state\<lparr>sx_refusal := None\<rparr>))"

definition version_answered ::
    "string \<Rightarrow> 'e + variable list \<Rightarrow> 'e start_state \<Rightarrow> start_effect \<times> 'e start_state" where
  "version_answered workflow_id answer state =
     (case answer of
        Inl e \<Rightarrow> (No_effect, state\<lparr>sx_refusal := Some e\<rparr>)
      | Inr variables \<Rightarrow>
          if \<not> needs_value_grid variables then ask_for_run workflow_id Map.empty state
          else (No_effect, state\<lparr>sx_dialog := Some (workflow_id, variables)\<rparr>))"

definition start_from_grid ::
    "string \<Rightarrow> variable list \<Rightarrow> grid_row \<Rightarrow> 'e start_state \<Rightarrow> start_effect \<times> 'e start_state" where
  "start_from_grid workflow_id variables row state =
     ask_for_run workflow_id (start_body row (columns_of variables)) state"

definition run_answered :: "'e + string \<Rightarrow> 'e start_state \<Rightarrow> start_effect \<times> 'e start_state" where
  "run_answered answer state =
     (case answer of
        Inl e \<Rightarrow> (No_effect, state\<lparr>sx_refusal := Some e, sx_error := Some e\<rparr>)
      | Inr run_id \<Rightarrow>
          (Go_to (''/runs/'' @ run_id), state\<lparr>sx_dialog := None, sx_refusal := None, sx_error := None\<rparr>))"

definition close_dialog :: "'e start_state \<Rightarrow> 'e start_state" where
  "close_dialog state = state\<lparr>sx_dialog := None, sx_refusal := None, sx_error := None\<rparr>"

text \<open>
  A refused start stays shown after another Workflow is begun, until a Run is asked for: \<open>begin\<close>
  clears the refusal the hook set and not the error of the mutation.
\<close>

lemma begin_keeps_refusal:
  "shown_refusal (snd (begin_run (Some v) (snd (run_answered (Inl e) state)))) = Some e"
  by (simp add: begin_run_def run_answered_def shown_refusal_def)

lemma started_run_is_plain:
  "dom (start_body row (columns_of variables)) = va_name ` {v \<in> set variables. va_secret v \<noteq> Some True}"
  by (simp add: start_body_def dom_submitted plain_names_columns_of)

section \<open>Paths and their readers\<close>

text \<open>An id as it stands in a path: not empty, with no character that a path or a query is cut at.\<close>

definition plain_id :: "string \<Rightarrow> bool" where
  "plain_id i \<longleftrightarrow> i \<noteq> [] \<and> (\<forall>c \<in> set i. c \<notin> set ''/?#'')"

lemma path_parts_workflow:
  assumes "plain_id i" and "CHR ''?'' \<notin> set rest"
  shows "path_parts (''/workflows/'' @ i @ ''/'' @ rest @ (if q then CHR ''?'' # query else [])) =
    [] # ''workflows'' # i # split_on (CHR ''/'') rest"
proof -
  have i: "CHR ''?'' \<notin> set i" "CHR ''/'' \<notin> set i" using assms(1) by (auto simp: plain_id_def)
  have "before (CHR ''?'') (''/workflows/'' @ i @ ''/'' @ rest @ (if q then CHR ''?'' # query else [])) =
      ''/workflows/'' @ i @ ''/'' @ rest"
  proof (cases q)
    case True
    have "CHR ''?'' \<notin> set (''/workflows/'' @ i @ ''/'' @ rest)" using i assms(2) by simp
    from before_append [OF this, of query] True show ?thesis by simp
  next
    case False
    then show ?thesis using i assms(2) by simp
  qed
  moreover have "split_on (CHR ''/'') (i @ CHR ''/'' # rest) = i # split_on (CHR ''/'') rest"
    by (rule split_on_append [OF i(2)])
  ultimately show ?thesis
    by (simp add: path_parts_def)
qed

lemma at_simps: "at (x # xs) 1 = at xs 0" "at (x # y # xs) 2 = at xs 0" "at (x # y # z # xs) 3 = at xs 0"
  "at (x # xs) 0 = Some x"
  by (auto simp: at_def)

lemma segment_plain: "tab \<in> set workflow_tabs \<Longrightarrow> CHR ''?'' \<notin> set (wt_segment tab) \<and> CHR ''/'' \<notin> set (wt_segment tab)"
  unfolding workflow_tabs_def editor_tab_def by (simp, elim disjE; simp)

lemma find_tab:
  "tab \<in> set workflow_tabs \<Longrightarrow> find (\<lambda>t. wt_segment t = wt_segment tab) workflow_tabs = Some tab"
  unfolding workflow_tabs_def editor_tab_def by (simp, elim disjE; simp)

lemma tab_at_tab_path:
  assumes "plain_id i" and "tab \<in> set workflow_tabs"
  shows "tab_at (tab_path i tab @ (if q then CHR ''?'' # query else [])) = Some tab \<and>
    workflow_id_at (tab_path i tab @ (if q then CHR ''?'' # query else [])) = Some i"
proof -
  have seg: "wt_segment tab \<noteq> []"
    using assms(2) unfolding workflow_tabs_def editor_tab_def by (simp, elim disjE; simp)
  have "path_parts (tab_path i tab @ (if q then CHR ''?'' # query else [])) = [[], ''workflows'', i, wt_segment tab]"
    using path_parts_workflow [OF assms(1), of "wt_segment tab" q query] segment_plain [OF assms(2)]
    by (simp add: tab_path_def split_on_plain)
  then show ?thesis
    using assms seg find_tab [OF assms(2)]
    by (simp add: tab_at_def workflow_id_at_def at_simps plain_id_def)
qed

lemma editor_in_tabs: "editor_tab \<in> set workflow_tabs"
  by (simp add: workflow_tabs_def)

lemma version_path_at:
  "plain_id i \<Longrightarrow> tab_at (version_path i v) = Some editor_tab \<and> workflow_id_at (version_path i v) = Some i"
  using tab_at_tab_path [OF _ editor_in_tabs, of i False] 
    tab_at_tab_path [OF _ editor_in_tabs, of i True "''version='' @ show_int (the v)"]
  by (cases v) (simp_all add: version_path_def)

text \<open>The editor asks before its unsaved changes are lost, and only then: leaving the page, or
  for a path of the app that is not this Workflow's editor, it asks; between the Versions of
  the same Workflow it does not. The tab of every path the app builds is read back.\<close>

theorem leave_is_asked:
  assumes "plain_id i" and "plain_id j" and "tab \<in> set workflow_tabs"
  shows "should_ask_before_leave unsaved (version_path i v) None = unsaved \<and>
    should_ask_before_leave unsaved (version_path i v) (Some (version_path j w)) = (unsaved \<and> i \<noteq> j) \<and>
    should_ask_before_leave unsaved (version_path i v) (Some (tab_path j tab)) =
      (unsaved \<and> (i \<noteq> j \<or> tab \<noteq> editor_tab)) \<and>
    should_ask_before_leave unsaved (version_path i v) (Some home_path) = unsaved \<and>
    tab_at (tab_path j tab) = Some tab"
proof -
  have "tab_at home_path = None"
    by (simp add: tab_at_def path_parts_def home_path_def at_def)
  then show ?thesis
    using version_path_at [OF assms(1), of v] version_path_at [OF assms(2), of w]
      tab_at_tab_path [OF assms(2,3), of False]
    by (auto simp: should_ask_before_leave_def leaves_this_editor_def)
qed

theorem leave_is_asked_witness:
  "should_ask_before_leave True ''/workflows/w1/editor'' (Some ''/workflows/w1/editor?version=3'') = False \<and>
   should_ask_before_leave True ''/workflows/w1/editor'' (Some ''/workflows'') = True"
proof -
  have i: "plain_id ''w1''" by (simp add: plain_id_def)
  have d: "show_nat 3 = ''3''" by code_simp
  show ?thesis
    using leave_is_asked [OF i i editor_in_tabs, of True None "Some 3"]
    by (simp add: version_path_def tab_path_def editor_tab_def home_path_def show_int_def d)
qed

lemma show_nat_solid: "list_all solid (show_nat n)"
  using show_nat_digits [of _ n] by (force simp: list_all_iff is_digit_def solid_def)

lemma number_of_show_nat: "number_of_text (show_nat n) = Num (int n)"
proof -
  have "solid (hd (show_nat n))" "solid (last (show_nat n))"
    using show_nat_solid [of n] by (simp_all add: list_all_iff)
  then show ?thesis by (simp add: number_of_text_solid)
qed

text \<open>The Version that a link of the editor opens is the one the editor shows: the path of a
  Version is read back as that Version, and the path of the Draft as the Draft; a parameter
  that is no positive whole number opens the Draft.\<close>

theorem version_path_reads_back:
  assumes "plain_id i" and "\<And>n. v = Some n \<Longrightarrow> 1 \<le> n"
  shows "viewed_version (params_get (parse_params (query_of (version_path i v))) ''version'') = v"
proof -
  have i: "CHR ''?'' \<notin> set (tab_path i editor_tab)" "CHR ''#'' \<notin> set (tab_path i editor_tab)"
    using assms(1) by (auto simp: tab_path_def editor_tab_def plain_id_def)
  show ?thesis
  proof (cases v)
    case None
    have "after (CHR ''?'') (tab_path i editor_tab) = []"
      using i(1) by (induction "tab_path i editor_tab") (auto simp: after_id)
    with None i show ?thesis
      by (simp add: version_path_def query_of_def parse_params_def params_get_def viewed_version_def)
  next
    case (Some n)
    then have n: "1 \<le> n" using assms(2) by simp
    let ?d = "show_nat (nat n)"
    have d: "c \<in> set ?d \<Longrightarrow> is_digit c" for c by (rule show_nat_digits)
    have "\<not> is_digit (CHR ''#'')" "\<not> is_digit (CHR ''&'')" "\<not> is_digit (CHR ''='')" "\<not> is_digit (CHR ''%'')"
      "\<not> is_digit (CHR ''+'')"
      by (simp_all add: is_digit_def code_def)
    with d have no: "CHR ''#'' \<notin> set ?d" "CHR ''&'' \<notin> set ?d" "CHR ''='' \<notin> set ?d"
      "\<forall>c \<in> set ?d. c \<noteq> CHR ''%'' \<and> c \<noteq> CHR ''+''"
      by blast+
    have query: "query_of (version_path i v) = ''version='' @ ?d"
      using Some n i no by (simp add: version_path_def query_of_def show_int_def)
    have plain: "form_decode s = s" if "\<forall>c \<in> set s. c \<noteq> CHR ''%'' \<and> c \<noteq> CHR ''+''" for s
      using that by (induction s) (auto simp: form_decode_def plus_to_space_def percent_decode_plain)
    have "form_decode ?d = ?d"
      using no(4) by (rule plain)
    moreover have "form_decode ''version'' = ''version''" by (rule plain) simp
    moreover have "split_on (CHR ''&'') (''version='' @ ?d) = [''version='' @ ?d]"
      by (rule split_on_plain) (simp add: no)
    ultimately have "params_get (parse_params (query_of (version_path i v))) ''version'' = Some ?d"
      unfolding query by (simp add: parse_params_def parse_pair_def params_get_def)
    then show ?thesis using Some n by (simp add: viewed_version_def number_of_show_nat)
  qed
qed

theorem version_path_reads_back_witness:
  "viewed_version (params_get (parse_params (query_of (version_path ''w1'' (Some 12)))) ''version'') = Some 12 \<and>
   viewed_version (Some ''0'') = None"
proof
  show "viewed_version (params_get (parse_params (query_of (version_path ''w1'' (Some 12)))) ''version'') = Some 12"
    by (rule version_path_reads_back) (simp_all add: plain_id_def)
  show "viewed_version (Some ''0'') = None"
    by code_simp
qed

text \<open>The menu lists the Draft, then each Version once, newest first, and opens one of them.\<close>

lemma version_choices_sorted:
  "sorted_wrt (\<lambda>a b. the (vc_version b) \<le> the (vc_version a)) (tl (version_choices versions viewing)) \<and>
   mset (map (\<lambda>c. the (vc_version c)) (tl (version_choices versions viewing))) = mset (map vs_number versions)"
proof
  have "sorted (map (\<lambda>v. - vs_number v) (sort_key (\<lambda>v. - vs_number v) versions))"
    by (rule sorted_sort_key)
  then show "sorted_wrt (\<lambda>a b. the (vc_version b) \<le> the (vc_version a)) (tl (version_choices versions viewing))"
    by (simp add: version_choices_def sorted_map sorted_wrt_map)
  show "mset (map (\<lambda>c. the (vc_version c)) (tl (version_choices versions viewing))) = mset (map vs_number versions)"
    by (simp add: version_choices_def comp_def mset_map)
qed

lemma publish_plan_sections:
  "map ds_steps (pp_sections (publish_plan_of c)) =
     filter (\<lambda>steps. steps \<noteq> []) [dc_added c, dc_changed c, dc_removed c] \<and>
   (pp_warning (publish_plan_of c) = None \<longleftrightarrow> dc_stranded_schedules c = [])"
  by (simp add: publish_plan_of_def Let_def stranded_warning_def)

end
