(* ===== verification/Schedules.thy ===== *)
theory Schedules
  imports Recurrence NewBatch Workflows
begin

text \<open>
  The Schedules of a Workflow: what the form of a Schedule is made of
  (\<open>workflows/[id]/schedules/creation.ts\<close>, \<open>messages.ts\<close>), the form itself
  as a state machine (\<open>schedule-form.tsx\<close>), and what the list of Schedules shows
  (\<open>schedules/presentation.ts\<close>).

  Dates are shown by the browser (\<open>Intl.DateTimeFormat\<close>) and time zones come from it: both
  are arguments of the definitions.
\<close>

section \<open>The recurrence of the form\<close>

datatype recurrence_mode = Sentence recurrence | Raw_cron string

record preset =
  pr_id :: string
  pr_label :: string
  pr_recurrence :: recurrence

definition presets :: "preset list" where
  "presets =
     [\<lparr>pr_id = ''hourly'', pr_label = ''hourly'', pr_recurrence = Hourly (Num 0)\<rparr>,
      \<lparr>pr_id = ''every15'', pr_label = ''every 15 min'', pr_recurrence = EveryNMinutes (Num 15)\<rparr>,
      \<lparr>pr_id = ''daily09'', pr_label = ''daily 09:00'', pr_recurrence = Daily (Num 9) (Num 0)\<rparr>,
      \<lparr>pr_id = ''weekdays09'', pr_label = ''weekdays 09:00'', pr_recurrence = Weekdays (Num 9) (Num 0)\<rparr>,
      \<lparr>pr_id = ''mondays0730'', pr_label = ''Mondays 07:30'',
        pr_recurrence = Weekly [Num 1] (Num 7) (Num 30)\<rparr>,
      \<lparr>pr_id = ''firstOfMonth'', pr_label = ''1st of month'',
        pr_recurrence = Monthly (Num 1) (Num 0) (Num 0)\<rparr>]"

definition apply_preset :: "string \<Rightarrow> recurrence option" where
  "apply_preset i = map_option pr_recurrence (find (\<lambda>p. pr_id p = i) presets)"

fun cron_of :: "recurrence_mode \<Rightarrow> range_error + string" where
  "cron_of (Raw_cron cron) = Inr cron"
| "cron_of (Sentence r) = to_cron r"

definition write_cron_instead :: "string \<Rightarrow> recurrence_mode" where
  "write_cron_instead cron = Raw_cron cron"

definition open_existing :: "string \<Rightarrow> recurrence_mode" where
  "open_existing cron = (case from_cron cron of None \<Rightarrow> Raw_cron cron | Some r \<Rightarrow> Sentence r)"

definition default_timezone :: "string option \<Rightarrow> string list \<Rightarrow> string \<Rightarrow> string" where
  "default_timezone browser_zone known_zones instance_default =
     (case browser_zone of
        Some zone \<Rightarrow> if zone \<in> set known_zones then zone else instance_default
      | None \<Rightarrow> instance_default)"

definition zone_options :: "string list \<Rightarrow> string \<Rightarrow> string list" where
  "zone_options known current = (if current \<in> set known then known else current # known)"

definition occurrence_label ::
    "(string \<Rightarrow> string \<Rightarrow> string) \<Rightarrow> string \<Rightarrow> string \<Rightarrow> string \<Rightarrow> string \<times> string option" where
  "occurrence_label format_in_zone moment schedule_tz viewer_tz =
     (format_in_zone moment schedule_tz,
      if schedule_tz = viewer_tz then None else Some (format_in_zone moment viewer_tz))"

datatype recurrence_kind = K_every | K_hourly | K_daily | K_weekdays | K_weekly | K_monthly

fun kind_of :: "recurrence \<Rightarrow> recurrence_kind" where
  "kind_of (EveryNMinutes n) = K_every"
| "kind_of (Hourly m) = K_hourly"
| "kind_of (Daily h m) = K_daily"
| "kind_of (Weekdays h m) = K_weekdays"
| "kind_of (Weekly ds h m) = K_weekly"
| "kind_of (Monthly d h m) = K_monthly"

definition frequency_options :: "(recurrence_kind \<times> string) list" where
  "frequency_options =
     [(K_every, ''every few minutes''), (K_hourly, ''every hour''), (K_daily, ''every day''),
      (K_weekdays, ''every weekday''), (K_weekly, ''every week''), (K_monthly, ''every month'')]"

definition weekday_options :: "(int \<times> string) list" where
  "weekday_options =
     [(0, ''Sunday''), (1, ''Monday''), (2, ''Tuesday''), (3, ''Wednesday''), (4, ''Thursday''),
      (5, ''Friday''), (6, ''Saturday'')]"

definition minute_intervals :: "int list" where
  "minute_intervals = [5, 10, 15, 20, 30]"

fun clock_of :: "recurrence \<Rightarrow> jsnum \<times> jsnum" where
  "clock_of (EveryNMinutes n) = (Num 9, Num 0)"
| "clock_of (Hourly m) = (Num 0, m)"
| "clock_of (Daily h m) = (h, m)"
| "clock_of (Weekdays h m) = (h, m)"
| "clock_of (Weekly ds h m) = (h, m)"
| "clock_of (Monthly d h m) = (h, m)"

fun with_frequency :: "recurrence \<Rightarrow> recurrence_kind \<Rightarrow> recurrence" where
  "with_frequency current K_every =
     EveryNMinutes (case current of EveryNMinutes n \<Rightarrow> n | _ \<Rightarrow> Num 15)"
| "with_frequency current K_hourly = Hourly (snd (clock_of current))"
| "with_frequency current K_daily = Daily (fst (clock_of current)) (snd (clock_of current))"
| "with_frequency current K_weekdays = Weekdays (fst (clock_of current)) (snd (clock_of current))"
| "with_frequency current K_weekly =
     Weekly (case current of Weekly ds h m \<Rightarrow> ds | _ \<Rightarrow> [Num 1])
       (fst (clock_of current)) (snd (clock_of current))"
| "with_frequency current K_monthly =
     Monthly (case current of Monthly d h m \<Rightarrow> d | _ \<Rightarrow> Num 1)
       (fst (clock_of current)) (snd (clock_of current))"

definition clock_value :: "recurrence \<Rightarrow> string" where
  "clock_value r =
     (let (hour, minute) = clock_of r
      in pad_start 2 (CHR ''0'') (show_num hour) @ '':'' @ pad_start 2 (CHR ''0'') (show_num minute))"

fun with_clock :: "recurrence \<Rightarrow> jsnum \<Rightarrow> jsnum \<Rightarrow> recurrence" where
  "with_clock (EveryNMinutes n) hour minute = EveryNMinutes n"
| "with_clock (Hourly m) hour minute = Hourly minute"
| "with_clock (Daily h m) hour minute = Daily hour minute"
| "with_clock (Weekdays h m) hour minute = Weekdays hour minute"
| "with_clock (Weekly ds h m) hour minute = Weekly ds hour minute"
| "with_clock (Monthly d h m) hour minute = Monthly d hour minute"

text \<open>The handler of the time input: \<open>value.split(":").map(Number)\<close>, a missing part being 0.\<close>

definition clock_typed :: "recurrence \<Rightarrow> string \<Rightarrow> recurrence" where
  "clock_typed current typed =
     (let parts = map number_of_text (split_on (CHR '':'') typed)
      in with_clock current (orelse (at parts 0) (Num 0)) (orelse (at parts 1) (Num 0)))"

section \<open>The values of the form\<close>

record past_run =
  ru_trigger :: run_trigger
  ru_variables :: "fields option"

definition last_non_test_variables :: "past_run list \<Rightarrow> fields option" where
  "last_non_test_variables runs =
     (case find (\<lambda>r. ru_trigger r \<noteq> Test) runs of None \<Rightarrow> None | Some r \<Rightarrow> ru_variables r)"

definition empty_variable_names :: "grid_row \<Rightarrow> grid_column list \<Rightarrow> string list" where
  "empty_variable_names row columns =
     map gc_name
       (filter (\<lambda>column. \<not> gc_secret column \<and> trim (orelse (row (gc_name column)) []) = []) columns)"

record schedule_body =
  sb_cron :: string
  sb_timezone :: string
  sb_enabled :: bool
  sb_variables :: "string \<rightharpoonup> string"
  sb_name :: "string option"

definition schedule_body_of ::
    "string \<Rightarrow> string \<Rightarrow> bool \<Rightarrow> (string \<rightharpoonup> string) \<Rightarrow> string \<Rightarrow> schedule_body" where
  "schedule_body_of cron timezone enabled variables name =
     (let trimmed = trim name in
      \<lparr>sb_cron = cron, sb_timezone = timezone, sb_enabled = enabled, sb_variables = variables,
       sb_name = (if trimmed = [] then None else Some trimmed)\<rparr>)"

definition schedules_href :: "string \<Rightarrow> string" where
  "schedules_href workflow_id = ''/workflows/'' @ workflow_id @ ''/schedules''"

definition empty_value_message :: "string list \<Rightarrow> string" where
  "empty_value_message names =
     (case names of
        [] \<Rightarrow> []
      | [name] \<Rightarrow> name @ '' has no value. A Schedule cannot be saved without it.''
      | _ \<Rightarrow> join '', '' names @ '' have no values. A Schedule cannot be saved without them.'')"

section \<open>The form\<close>

record schedule_form =
  sf_mode :: "recurrence_mode option"
  sf_timezone :: "string option"
  sf_rows :: "grid_row list option"
  sf_name :: string
  sf_enabled :: bool
  sf_attempted :: bool

definition initial_form :: schedule_form where
  "initial_form =
     \<lparr>sf_mode = None, sf_timezone = None, sf_rows = None, sf_name = [], sf_enabled = True,
      sf_attempted = False\<rparr>"

record saved_schedule =
  sv_cron :: string
  sv_timezone :: string
  sv_variables :: fields
  sv_name :: "string option"
  sv_enabled :: bool

text \<open>
  What the form reads at a render: the Schedule it edits, if it edits one, and what its queries
  hold, each \<open>None\<close> until it is answered.
\<close>

record form_data =
  fd_schedule_id :: "string option"
  fd_existing :: "saved_schedule option"
  fd_default_timezone :: "string option"
  fd_variables :: "variable list option"
  fd_runs :: "past_run list option"
  fd_browser_zone :: "string option"
  fd_known_zones :: "string list"

definition load_mode :: "form_data \<Rightarrow> schedule_form \<Rightarrow> schedule_form" where
  "load_mode d s =
     (if sf_mode s \<noteq> None then s
      else if fd_schedule_id d \<noteq> None then
        (case fd_existing d of None \<Rightarrow> s | Some saved \<Rightarrow> s\<lparr>sf_mode := Some (open_existing (sv_cron saved))\<rparr>)
      else (case apply_preset ''daily09'' of None \<Rightarrow> s | Some r \<Rightarrow> s\<lparr>sf_mode := Some (Sentence r)\<rparr>))"

definition load_timezone :: "form_data \<Rightarrow> schedule_form \<Rightarrow> schedule_form" where
  "load_timezone d s =
     (if sf_timezone s \<noteq> None then s
      else if fd_schedule_id d \<noteq> None then
        (case fd_existing d of None \<Rightarrow> s | Some saved \<Rightarrow> s\<lparr>sf_timezone := Some (sv_timezone saved)\<rparr>)
      else (case fd_default_timezone d of
              None \<Rightarrow> s
            | Some zone \<Rightarrow>
                s\<lparr>sf_timezone := Some (default_timezone (fd_browser_zone d) (fd_known_zones d) zone)\<rparr>))"

definition load_rows :: "form_data \<Rightarrow> schedule_form \<Rightarrow> schedule_form" where
  "load_rows d s =
     (case fd_variables d of
        None \<Rightarrow> s
      | Some variables \<Rightarrow>
          if sf_rows s \<noteq> None then s
          else if fd_schedule_id d \<noteq> None then
            (case fd_existing d of
               None \<Rightarrow> s
             | Some saved \<Rightarrow>
                 s\<lparr>sf_rows := Some (apply_copied_batch (columns_of variables) [sv_variables saved]),
                   sf_name := orelse (sv_name saved) [], sf_enabled := sv_enabled saved\<rparr>)
          else s\<lparr>sf_rows := Some (initial_rows variables 1)\<rparr>)"

definition load_form :: "form_data \<Rightarrow> schedule_form \<Rightarrow> schedule_form" where
  "load_form d s = load_rows d (load_timezone d (load_mode d s))"

text \<open>What a render computes; \<open>Inl\<close> is an exception that takes the page down.\<close>

definition form_cron :: "schedule_form \<Rightarrow> range_error + string" where
  "form_cron s = (case sf_mode s of None \<Rightarrow> Inr [] | Some mode \<Rightarrow> cron_of mode)"

definition form_columns :: "form_data \<Rightarrow> grid_column list" where
  "form_columns d = columns_of (orelse (fd_variables d) [])"

definition form_row :: "schedule_form \<Rightarrow> grid_row" where
  "form_row s = orelse (at (orelse (sf_rows s) []) 0) Map.empty"

definition form_missing :: "form_data \<Rightarrow> schedule_form \<Rightarrow> string list" where
  "form_missing d s = empty_variable_names (form_row s) (form_columns d)"

definition empty_note :: "form_data \<Rightarrow> schedule_form \<Rightarrow> string option" where
  "empty_note d s =
     (if sf_attempted s \<and> 0 < length (form_missing d s) then Some (empty_value_message (form_missing d s))
      else None)"

text \<open>The form is shown once its values are loaded.\<close>

definition form_shown :: "form_data \<Rightarrow> schedule_form \<Rightarrow> bool" where
  "form_shown d s \<longleftrightarrow>
     fd_variables d \<noteq> None \<and> sf_mode s \<noteq> None \<and> sf_timezone s \<noteq> None \<and> sf_rows s \<noteq> None"

datatype form_event =
    Press_preset preset
  | Type_cron string
  | Back_to_sentence
  | Write_cron
  | Choose_frequency recurrence_kind
  | Choose_interval string
  | Choose_weekday string
  | Choose_day string
  | Type_clock string
  | Choose_timezone string
  | Fill_from_last_run
  | Change_rows "grid_row list"
  | Type_name string
  | Tick_enabled bool
  | Press_save

text \<open>A control of the sentence changes the recurrence that is shown.\<close>

definition change_sentence :: "(recurrence \<Rightarrow> recurrence) \<Rightarrow> schedule_form \<Rightarrow> schedule_form" where
  "change_sentence f s =
     (case sf_mode s of Some (Sentence r) \<Rightarrow> s\<lparr>sf_mode := Some (Sentence (f r))\<rparr> | _ \<Rightarrow> s)"

fun with_weekday :: "jsnum \<Rightarrow> recurrence \<Rightarrow> recurrence" where
  "with_weekday day (Weekly ds h m) = Weekly [day] h m"
| "with_weekday day r = r"

fun with_day :: "jsnum \<Rightarrow> recurrence \<Rightarrow> recurrence" where
  "with_day day (Monthly d h m) = Monthly day h m"
| "with_day day r = r"

fun form_step :: "form_data \<Rightarrow> schedule_form \<Rightarrow> form_event \<Rightarrow> schedule_form" where
  "form_step d s (Press_preset p) = s\<lparr>sf_mode := Some (Sentence (pr_recurrence p))\<rparr>"
| "form_step d s (Type_cron typed) = s\<lparr>sf_mode := Some (write_cron_instead typed)\<rparr>"
| "form_step d s Back_to_sentence =
     (case sf_mode s of Some (Raw_cron cron) \<Rightarrow> s\<lparr>sf_mode := Some (open_existing cron)\<rparr> | _ \<Rightarrow> s)"
| "form_step d s Write_cron =
     (case form_cron s of Inr cron \<Rightarrow> s\<lparr>sf_mode := Some (write_cron_instead cron)\<rparr> | Inl _ \<Rightarrow> s)"
| "form_step d s (Choose_frequency kind) = change_sentence (\<lambda>r. with_frequency r kind) s"
| "form_step d s (Choose_interval v) = change_sentence (\<lambda>_. EveryNMinutes (number_of_text v)) s"
| "form_step d s (Choose_weekday v) = change_sentence (with_weekday (number_of_text v)) s"
| "form_step d s (Choose_day v) = change_sentence (with_day (number_of_text v)) s"
| "form_step d s (Type_clock typed) = change_sentence (\<lambda>r. clock_typed r typed) s"
| "form_step d s (Choose_timezone zone) = s\<lparr>sf_timezone := Some zone\<rparr>"
| "form_step d s Fill_from_last_run =
     (case last_non_test_variables (orelse (fd_runs d) []) of
        None \<Rightarrow> s
      | Some past \<Rightarrow> s\<lparr>sf_rows := Some (apply_copied_batch (form_columns d) [past])\<rparr>)"
| "form_step d s (Change_rows rows) = s\<lparr>sf_rows := Some rows\<rparr>"
| "form_step d s (Type_name typed) = s\<lparr>sf_name := typed\<rparr>"
| "form_step d s (Tick_enabled ticked) = s\<lparr>sf_enabled := ticked\<rparr>"
| "form_step d s Press_save = s\<lparr>sf_attempted := True\<rparr>"

text \<open>What pressing the button sends, if anything.\<close>

definition submit_form :: "form_data \<Rightarrow> schedule_form \<Rightarrow> schedule_body option" where
  "submit_form d s =
     (if 0 < length (form_missing d s) then None
      else case (form_cron s, sf_timezone s) of
        (Inr cron, Some timezone) \<Rightarrow>
          Some (schedule_body_of cron timezone (sf_enabled s)
            (submitted_variables (form_row s) (form_columns d)) (sf_name s))
      | _ \<Rightarrow> None)"

text \<open>
  The values a control can give: a \<open>select\<close> one of its options, which hold their numbers as
  text, a time input nothing or an hour and a minute of two digits each.
\<close>

definition time_input_value :: "string \<Rightarrow> bool" where
  "time_input_value v \<longleftrightarrow>
     v = [] \<or> list_ex (\<lambda>h. list_ex (\<lambda>m. v = clock_value (Daily (Num h) (Num m))) [0..59]) [0..23]"

definition shown_kind :: "schedule_form \<Rightarrow> recurrence_kind option" where
  "shown_kind s = (case sf_mode s of Some (Sentence r) \<Rightarrow> Some (kind_of r) | _ \<Rightarrow> None)"

fun offered :: "form_data \<Rightarrow> schedule_form \<Rightarrow> form_event \<Rightarrow> bool" where
  "offered d s (Press_preset p) \<longleftrightarrow> form_shown d s \<and> p \<in> set presets"
| "offered d s (Type_cron typed) \<longleftrightarrow>
     form_shown d s \<and> (case sf_mode s of Some (Raw_cron _) \<Rightarrow> True | _ \<Rightarrow> False)"
| "offered d s Back_to_sentence \<longleftrightarrow>
     form_shown d s \<and> (case sf_mode s of Some (Raw_cron cron) \<Rightarrow> from_cron cron \<noteq> None | _ \<Rightarrow> False)"
| "offered d s (Choose_frequency kind) \<longleftrightarrow> form_shown d s \<and> shown_kind s \<noteq> None"
| "offered d s (Choose_interval v) \<longleftrightarrow>
     form_shown d s \<and> shown_kind s = Some K_every \<and> v \<in> set (map show_int minute_intervals)"
| "offered d s (Choose_weekday v) \<longleftrightarrow>
     form_shown d s \<and> shown_kind s = Some K_weekly \<and> v \<in> set (map (show_int \<circ> fst) weekday_options)"
| "offered d s (Choose_day v) \<longleftrightarrow>
     form_shown d s \<and> shown_kind s = Some K_monthly \<and> v \<in> set (map show_int [1..31])"
| "offered d s (Type_clock v) \<longleftrightarrow>
     form_shown d s \<and> shown_kind s \<noteq> None \<and> shown_kind s \<noteq> Some K_every \<and> time_input_value v"
| "offered d s Fill_from_last_run \<longleftrightarrow>
     form_shown d s \<and> last_non_test_variables (orelse (fd_runs d) []) \<noteq> None"
| "offered d s e \<longleftrightarrow> form_shown d s"

inductive form_reachable :: "schedule_form \<Rightarrow> bool" where
  opened: "form_reachable initial_form"
| answered: "form_reachable s \<Longrightarrow> form_reachable (load_form d s)"
| acted: "form_reachable s \<Longrightarrow> offered d s e \<Longrightarrow> form_reachable (form_step d s e)"

section \<open>The list of Schedules\<close>

datatype schedule_column = Col_enabled | Col_workflow | Col_recurrence | Col_next_due | Col_last_run | Col_note

definition schedule_columns :: "schedule_column list" where
  "schedule_columns = [Col_enabled, Col_workflow, Col_recurrence, Col_next_due, Col_last_run, Col_note]"

definition schedule_columns_of :: "string option \<Rightarrow> schedule_column list" where
  "schedule_columns_of workflow_id =
     (if workflow_id = None then schedule_columns else filter (\<lambda>c. c \<noteq> Col_workflow) schedule_columns)"

definition has_list_filter :: "(string \<times> string) list \<Rightarrow> bool" where
  "has_list_filter filters \<longleftrightarrow> list_ex (\<lambda>(k, v). k \<noteq> ''workflow_id'' \<and> v \<noteq> []) filters"

datatype schedule_list_kind = List_loading | List_empty | List_filtered | List_rows

definition schedule_list_kind_of :: "bool \<Rightarrow> nat \<Rightarrow> (string \<times> string) list \<Rightarrow> schedule_list_kind" where
  "schedule_list_kind_of loaded item_count filters =
     (if \<not> loaded \<and> item_count = 0 then List_loading
      else if 0 < item_count then List_rows
      else if has_list_filter filters then List_filtered else List_empty)"

definition recurrence_headline :: "string \<Rightarrow> range_error + string" where
  "recurrence_headline cron =
     (case humanize cron of Inl e \<Rightarrow> Inl e | Inr said \<Rightarrow> Inr (orelse said cron))"

datatype occurrence_reason = Overlap | Missed | Missing_values

record occurrence_record =
  oc_reason :: occurrence_reason
  oc_blocking_run_id :: "string option"

definition hole_story :: "occurrence_reason \<Rightarrow> string list \<Rightarrow> string" where
  "hole_story reason variable_names =
     (case reason of
        Overlap \<Rightarrow> ''The previous Run was still running.''
      | Missed \<Rightarrow> ''The instance was not running. Missed Occurrences are never run late.''
      | Missing_values \<Rightarrow>
          (case variable_names of
             [] \<Rightarrow> ''This Workflow now needs a Variable this Schedule has no value for.''
           | [named] \<Rightarrow> ''This Workflow now needs '' @ named @ '', and this Schedule has no value for it.''
           | _ \<Rightarrow> ''This Workflow now needs '' @ join '', '' variable_names @
                  '', and this Schedule has no value for them.''))"

definition note_of :: "occurrence_record option \<Rightarrow> string list \<Rightarrow> string" where
  "note_of latest variable_names =
     (case latest of None \<Rightarrow> [] | Some l \<Rightarrow> hole_story (oc_reason l) variable_names)"

datatype hole_hatch = Hatch_prevented | Hatch_missed | Hatch_missing_values

fun hatch_of :: "occurrence_reason \<Rightarrow> hole_hatch" where
  "hatch_of Overlap = Hatch_prevented"
| "hatch_of Missed = Hatch_missed"
| "hatch_of Missing_values = Hatch_missing_values"

text \<open>What the API lists as the past of a Schedule: a Run, or an Occurrence that started none.\<close>

datatype history_entry =
    Run_entry string string run_status
  | Occurrence_entry string occurrence_reason "string option"

datatype strip_mark =
    Mark_run string string run_status
  | Mark_hole occurrence_reason string "string option"
  | Mark_due string
  | Mark_paused

fun to_strip_mark :: "history_entry \<Rightarrow> strip_mark" where
  "to_strip_mark (Run_entry moment run_id status) = Mark_run moment run_id status"
| "to_strip_mark (Occurrence_entry moment reason blocking) = Mark_hole reason moment blocking"

definition strip_marks :: "history_entry list \<Rightarrow> string list \<Rightarrow> bool \<Rightarrow> strip_mark list" where
  "strip_marks history next_occurrences paused =
     (let past = map to_strip_mark history
      in if paused then past @ [Mark_paused] else past @ map Mark_due next_occurrences)"

datatype history_item =
    Item_run string string run_status
  | Item_occurrence string occurrence_reason "string option"

definition history_items :: "history_entry list \<Rightarrow> history_item list" where
  "history_items history =
     map (\<lambda>e. case e of Run_entry moment run_id status \<Rightarrow> Item_run moment run_id status
            | Occurrence_entry moment reason blocking \<Rightarrow> Item_occurrence moment reason blocking) history"

definition schedule_run_href :: "string \<Rightarrow> string" where
  "schedule_run_href run_id = ''/runs/'' @ run_id"

record overlap_banner =
  ob_story :: string
  ob_blocking_run_id :: string
  ob_open_href :: string
  ob_open_label :: string
  ob_run_now_label :: string

definition overlap_banner_of :: "occurrence_record \<Rightarrow> overlap_banner option" where
  "overlap_banner_of latest =
     (case oc_blocking_run_id latest of
        None \<Rightarrow> None
      | Some run_id \<Rightarrow>
          if oc_reason latest \<noteq> Overlap then None
          else Some \<lparr>ob_story = hole_story Overlap [], ob_blocking_run_id = run_id,
            ob_open_href = schedule_run_href run_id, ob_open_label = ''Open the Run that blocked it'',
            ob_run_now_label = ''Run it now instead''\<rparr>)"

datatype schedule_state = State_active | State_paused | State_needs_values

record needs_values_banner =
  nv_names :: "string list"
  nv_set_values_href :: string
  nv_set_values_label :: string

definition needs_values_banner_of ::
    "schedule_state \<Rightarrow> string list \<Rightarrow> string \<Rightarrow> string \<Rightarrow> needs_values_banner option" where
  "needs_values_banner_of state names workflow_id schedule_id =
     (if state \<noteq> State_needs_values then None
      else Some \<lparr>nv_names = names, nv_set_values_href = edit_schedule_path workflow_id schedule_id,
        nv_set_values_label = ''Set values''\<rparr>)"

section \<open>Lemmas\<close>

lemma in_bounds_presets: "p \<in> set presets \<Longrightarrow> in_bounds (pr_recurrence p)"
  unfolding presets_def by (simp, elim disjE; simp)

lemma in_bounds_apply_preset: "apply_preset i = Some r \<Longrightarrow> in_bounds r"
  by (auto simp: apply_preset_def intro!: in_bounds_presets dest!: find_Some_iff_ex)

lemma clock_of_in_bounds:
  "in_bounds r \<Longrightarrow> in_range (fst (clock_of r)) 0 23 \<and> in_range (snd (clock_of r)) 0 59"
  by (cases r) auto

lemma in_bounds_with_frequency: "in_bounds r \<Longrightarrow> in_bounds (with_frequency r kind)"
  using clock_of_in_bounds [of r] by (cases kind; cases r) auto

lemma in_bounds_with_clock:
  "in_bounds r \<Longrightarrow> in_range h 0 23 \<Longrightarrow> in_range m 0 59 \<Longrightarrow> in_bounds (with_clock r h m)"
  by (cases r) auto

lemma in_bounds_with_weekday: "in_bounds r \<Longrightarrow> in_range d 0 6 \<Longrightarrow> in_bounds (with_weekday d r)"
  by (cases r) auto

lemma in_bounds_with_day: "in_bounds r \<Longrightarrow> in_range d 1 31 \<Longrightarrow> in_bounds (with_day d r)"
  by (cases r) auto

text \<open>Two digits are read back as the number they show.\<close>

lemma padded_digits:
  "all_digits (pad_start 2 (CHR ''0'') (show_nat n)) \<and> digits_val (pad_start 2 (CHR ''0'') (show_nat n)) = n"
  using show_nat_digits [of _ n]
  by (auto simp: pad_start_def all_digits_def list_all_iff digits_val_zeros is_digit_def code_def)

lemma number_of_digits: "all_digits s \<Longrightarrow> number_of_text s = Num (int (digits_val s))"
  using all_digits_solid [of s] by (simp add: number_of_text_solid list_all_iff)

lemma number_of_show_int: "0 \<le> k \<Longrightarrow> number_of_text (show_int k) = Num k"
  using number_of_show_nat [of "nat k"] by (simp add: show_int_def)

lemma split_clock_value:
  assumes "clock_of r = (Num h, Num m)" and "0 \<le> h" and "0 \<le> m"
  shows "map number_of_text (split_on (CHR '':'') (clock_value r)) = [Num h, Num m]"
proof -
  let ?h = "pad_start 2 (CHR ''0'') (show_nat (nat h))" and ?m = "pad_start 2 (CHR ''0'') (show_nat (nat m))"
  have colon: "\<not> is_digit (CHR '':'')" by (simp add: is_digit_def code_def)
  have no: "CHR '':'' \<notin> set ?h" "CHR '':'' \<notin> set ?m"
    using padded_digits [of "nat h"] padded_digits [of "nat m"] all_digits_no [OF _ colon] by blast+
  have "split_on (CHR '':'') (clock_value r) = [?h, ?m]"
    using assms split_on_append [OF no(1), of ?m] split_on_plain [OF no(2)]
    by (simp add: clock_value_def show_num_nat)
  then show ?thesis
    using assms padded_digits [of "nat h"] padded_digits [of "nat m"] by (simp add: number_of_digits)
qed

lemma clock_typed_value:
  assumes "clock_of r = (Num h, Num m)" and "0 \<le> h" and "0 \<le> m"
  shows "clock_typed q (clock_value r) = with_clock q (Num h) (Num m)"
  using split_clock_value [OF assms] by (simp add: clock_typed_def at_def)

lemma clock_typed_empty: "clock_typed q [] = with_clock q (Num 0) (Num 0)"
proof -
  have "number_of_text [] = Num 0" by code_simp
  then show ?thesis by (simp add: clock_typed_def at_def)
qed

lemma in_bounds_clock_typed:
  assumes "time_input_value v" and "in_bounds r"
  shows "in_bounds (clock_typed r v)"
proof (cases "v = []")
  case True
  with assms show ?thesis by (simp add: clock_typed_empty in_bounds_with_clock)
next
  case False
  with assms(1) obtain h m where "0 \<le> h" "h \<le> 23" "0 \<le> m" "m \<le> 59" "v = clock_value (Daily (Num h) (Num m))"
    by (auto simp: time_input_value_def list_ex_iff)
  with assms(2) show ?thesis by (simp add: clock_typed_value [of _ h m] in_bounds_with_clock)
qed

section \<open>The form keeps a recurrence in bounds\<close>

definition mode_ok :: "recurrence_mode \<Rightarrow> bool" where
  "mode_ok mode \<longleftrightarrow> (case mode of Sentence r \<Rightarrow> in_bounds r | Raw_cron _ \<Rightarrow> True)"

definition form_ok :: "schedule_form \<Rightarrow> bool" where
  "form_ok s \<longleftrightarrow> (case sf_mode s of None \<Rightarrow> True | Some mode \<Rightarrow> mode_ok mode)"

lemma mode_ok_simps [simp]: "mode_ok (Raw_cron c)" "mode_ok (Sentence r) \<longleftrightarrow> in_bounds r"
  by (simp_all add: mode_ok_def)

lemma mode_ok_open_existing [simp]: "mode_ok (open_existing cron)"
  using cron.dec_ok [of cron] by (simp add: open_existing_def split: option.splits)

lemma sf_mode_load: "sf_mode (load_form d s) = sf_mode (load_mode d s)"
  by (simp add: load_form_def load_rows_def load_timezone_def split: option.splits)

lemma form_ok_load: "form_ok s \<Longrightarrow> form_ok (load_form d s)"
proof -
  have "apply_preset i = Some r \<Longrightarrow> mode_ok (Sentence r)" for i r
    by (simp add: in_bounds_apply_preset)
  then show "form_ok s \<Longrightarrow> form_ok (load_form d s)"
    unfolding form_ok_def sf_mode_load load_mode_def by (simp split: option.splits)
qed

lemma form_ok_change:
  "form_ok s \<Longrightarrow> (\<And>r. shown_kind s = Some (kind_of r) \<Longrightarrow> in_bounds r \<Longrightarrow> in_bounds (f r)) \<Longrightarrow> form_ok (change_sentence f s)"
  by (auto simp: form_ok_def change_sentence_def shown_kind_def split: option.splits recurrence_mode.splits)

lemma chosen_number:
  assumes "v \<in> set (map show_int ks)" and "\<And>k. k \<in> set ks \<Longrightarrow> lo \<le> k \<and> k \<le> hi" and "0 \<le> lo"
  shows "in_range (number_of_text v) lo hi"
proof -
  obtain k where k: "k \<in> set ks" "v = show_int k" using assms(1) by auto
  with assms(2) [OF k(1)] assms(3) show ?thesis by (simp add: number_of_show_int)
qed

lemma form_ok_step: "form_ok s \<Longrightarrow> offered d s e \<Longrightarrow> form_ok (form_step d s e)"
proof (induction d s e rule: offered.induct)
  case (1 d s p)
  then show ?case by (simp add: form_ok_def in_bounds_presets)
next
  case (2 d s typed)
  then show ?case by (simp add: form_ok_def write_cron_instead_def)
next
  case (3 d s)
  then show ?case by (auto simp: form_ok_def split: option.splits recurrence_mode.splits)
next
  case (4 d s kind)
  then show ?case by (simp add: form_ok_change in_bounds_with_frequency)
next
  case (5 d s v)
  have "in_range (number_of_text v) 5 30"
    by (rule chosen_number [of _ minute_intervals]) (use 5 in \<open>auto simp: minute_intervals_def\<close>)
  then have "in_range (number_of_text v) 1 59" by (auto elim!: in_rangeE)
  with 5 show ?case by (simp add: form_ok_change)
next
  case (6 d s v)
  have "in_range (number_of_text v) 0 6"
    by (rule chosen_number [of _ "map fst weekday_options"]) (use 6 in \<open>auto simp: weekday_options_def\<close>)
  with 6 show ?case by (simp add: form_ok_change in_bounds_with_weekday)
next
  case (7 d s v)
  have "in_range (number_of_text v) 1 31"
    by (rule chosen_number [of _ "[1..31]"]) (use 7 in \<open>simp_all del: upto_rec_numeral\<close>)
  with 7 show ?case by (simp add: form_ok_change in_bounds_with_day)
next
  case (8 d s v)
  then show ?case by (simp add: form_ok_change in_bounds_clock_typed)
next
  case (9 d s)
  then show ?case by (auto simp: form_ok_def split: option.splits)
qed (auto simp: form_ok_def write_cron_instead_def split: option.splits sum.splits)

lemma form_reachable_ok: "form_reachable s \<Longrightarrow> form_ok s"
  by (induction rule: form_reachable.induct) (simp_all add: form_ok_load form_ok_step, simp add: form_ok_def initial_form_def)

lemma humanize_recurrence_total: "in_bounds r \<Longrightarrow> \<exists>said. humanize_recurrence r = Inr said"
  by (cases r) (auto dest!: map_weekday_name_ok)

lemma humanize_total: "\<exists>said. humanize cron = Inr said"
  using cron.dec_ok [of cron] humanize_recurrence_total
  by (auto simp: humanize_def split: option.splits) fastforce

text \<open>The values copied from a Run or from the Schedule itself.\<close>

lemma copied_aux:
  assumes "distinct (map gc_name columns)" and "set cs \<subseteq> set columns"
  shows "foldl (\<lambda>row column.
         if gc_secret column then row
         else set_cell row columns (gc_name column) (scalar_value (field past (gc_name column)))) row0 cs n =
    (if n \<in> plain_names cs then Some (scalar_value (field past n)) else row0 n)"
  using assms(2)
proof (induction cs arbitrary: row0)
  case (Cons c cs)
  then have "set_cell row columns (gc_name c) val = (if gc_secret c then row else row(gc_name c \<mapsto> val))" for row val
    by (intro set_cell_distinct assms(1)) simp
  with Cons show ?case by (auto simp: plain_names_def)
qed (simp add: plain_names_def)

lemma copied_row_eq:
  assumes "distinct (map gc_name columns)"
  shows "copied_row columns past n =
    (if n \<in> plain_names columns then Some (scalar_value (field past n)) else None)"
  unfolding copied_row_def copied_aux [OF assms order_refl] by (simp add: empty_row_eq)

lemma empty_variable_names_Nil:
  "empty_variable_names row columns = [] \<longleftrightarrow>
   (\<forall>n \<in> plain_names columns. trim (orelse (row n) []) \<noteq> [])"
  by (auto simp: empty_variable_names_def filter_empty_conv plain_names_def)

lemma trim_Nil: "trim [] = []"
  by code_simp

lemma names_columns_of: "map gc_name (columns_of vs) = map va_name vs"
  by (simp add: columns_of_def comp_def)

lemma form_cron_reading:
  assumes "form_ok s"
  shows "\<exists>cron. form_cron s = Inr cron \<and>
    (case sf_mode s of None \<Rightarrow> cron = [] | Some (Raw_cron c) \<Rightarrow> cron = c | Some (Sentence r) \<Rightarrow> from_cron cron = Some r)"
proof (cases "sf_mode s")
  case (Some mode)
  show ?thesis
  proof (cases mode)
    case (Sentence r)
    with assms Some have "in_bounds r" by (simp add: form_ok_def)
    then have "to_cron r = Inr (cron_of_recurrence r) \<and> from_cron (cron_of_recurrence r) = Some r"
      by (simp add: to_cron_Inr cron_of_recurrence_def [symmetric] cron.dec_enc)
    with Sentence Some show ?thesis by (simp add: form_cron_def)
  qed (simp add: Some form_cron_def)
qed (simp add: form_cron_def)

lemma open_existing_reading:
  "\<exists>cron'. cron_of (open_existing cron) = Inr cron' \<and> open_existing cron' = open_existing cron \<and>
    (\<forall>t. cron_matches cron' t \<longleftrightarrow> cron_matches cron t)"
proof (cases "from_cron cron")
  case None
  then show ?thesis by (simp add: open_existing_def)
next
  case (Some r)
  then have "to_cron r = Inr (cron_of_recurrence r)"
    using cron.dec_ok by (simp add: to_cron_Inr cron_of_recurrence_def)
  with Some show ?thesis
    using from_cron_reading [OF Some] from_cron_reading [OF cron.dec_stable [OF Some]] cron.dec_stable [OF Some]
    by (simp add: open_existing_def)
qed

section \<open>Properties\<close>

text \<open>C28. Whatever its user does and whenever its data arrive, the form of a Schedule never raises:
  the cron expression of every state it reaches is there, its sentence can be said, and the
  expression of a sentence reads back as that sentence, so writing cron instead and going
  back loses nothing.\<close>

theorem schedule_form_never_raises:
  assumes "form_reachable s"
  shows "\<exists>cron said. form_cron s = Inr cron \<and> humanize cron = Inr said \<and>
    (case sf_mode s of Some (Sentence r) \<Rightarrow> open_existing cron = Sentence r | _ \<Rightarrow> True)"
proof -
  obtain cron where cron: "form_cron s = Inr cron"
    and reads: "case sf_mode s of None \<Rightarrow> cron = [] | Some (Raw_cron c) \<Rightarrow> cron = c | Some (Sentence r) \<Rightarrow> from_cron cron = Some r"
    using form_cron_reading [OF form_reachable_ok [OF assms]] by blast
  obtain said where "humanize cron = Inr said" using humanize_total by blast
  with cron reads show ?thesis
    by (intro exI [of _ cron] exI [of _ said]) (auto simp: open_existing_def split: option.splits recurrence_mode.splits)
qed

definition new_form_data :: form_data where
  "new_form_data =
     \<lparr>fd_schedule_id = None, fd_existing = None, fd_default_timezone = Some ''UTC'',
      fd_variables = Some [\<lparr>va_name = ''city'', va_secret = None, va_secret_id = None, va_secret_name = None\<rparr>],
      fd_runs = Some [], fd_browser_zone = Some ''Europe/Zagreb'', fd_known_zones = [''Europe/Zagreb'']\<rparr>"

definition new_form :: schedule_form where
  "new_form = load_form new_form_data initial_form"

theorem schedule_form_never_raises_witness:
  "form_reachable (form_step new_form_data new_form (Type_clock [])) \<and>
   (\<exists>cron said. form_cron (form_step new_form_data new_form (Type_clock [])) = Inr cron \<and>
     humanize cron = Inr said)"
proof -
  have "form_reachable new_form"
    unfolding new_form_def by (intro form_reachable.intros)
  moreover have "offered new_form_data new_form (Type_clock [])" by code_simp
  ultimately have r: "form_reachable (form_step new_form_data new_form (Type_clock []))"
    by (rule form_reachable.acted)
  then show ?thesis using schedule_form_never_raises [OF r] by blast
qed

text \<open>Opening a saved Schedule and saving it again keeps when it fires, whatever cron
  expression it was saved with: one that a sentence can say becomes the sentence's own
  expression, which matches the same moments and opens the same way, and any other stays
  as it was written.\<close>

theorem opening_keeps_the_occurrences:
  "\<exists>cron'. cron_of (open_existing cron) = Inr cron' \<and> open_existing cron' = open_existing cron \<and>
    (\<forall>t. cron_matches cron' t \<longleftrightarrow> cron_matches cron t)"
  by (rule open_existing_reading)

text \<open>What the form sends is complete: it refuses exactly when a Variable that is not secret has
  a blank value; otherwise it sends a value for each of those Variables and for no other, none
  blank and each the one in the grid, the chosen time zone, and an expression that fires when
  the sentence says.\<close>

theorem saved_schedule_is_complete:
  assumes "form_reachable s" and "form_shown d s"
  shows "(submit_form d s = None \<longleftrightarrow> (\<exists>n \<in> plain_names (form_columns d). trim (orelse (form_row s n) []) = [])) \<and>
    (\<forall>body. submit_form d s = Some body \<longrightarrow>
      dom (sb_variables body) = plain_names (form_columns d) \<and>
      (\<forall>n v. sb_variables body n = Some v \<longrightarrow> trim v \<noteq> [] \<and> form_row s n = Some v) \<and>
      sf_timezone s = Some (sb_timezone body) \<and>
      (\<forall>r t. sf_mode s = Some (Sentence r) \<longrightarrow> cron_matches (sb_cron body) t = recurs_at r t))"
proof -
  obtain cron where cron: "form_cron s = Inr cron"
    and reads: "case sf_mode s of None \<Rightarrow> cron = [] | Some (Raw_cron c) \<Rightarrow> cron = c | Some (Sentence r) \<Rightarrow> from_cron cron = Some r"
    using form_cron_reading [OF form_reachable_ok [OF assms(1)]] by blast
  obtain zone where zone: "sf_timezone s = Some zone" using assms(2) by (auto simp: form_shown_def)
  let ?row = "form_row s" and ?columns = "form_columns d"
  have submit: "submit_form d s =
      (if form_missing d s \<noteq> [] then None
       else Some (schedule_body_of cron zone (sf_enabled s) (submitted_variables ?row ?columns) (sf_name s)))"
    by (simp add: submit_form_def cron zone)
  have missing: "form_missing d s = [] \<longleftrightarrow> (\<forall>n \<in> plain_names ?columns. trim (orelse (?row n) []) \<noteq> [])"
    by (simp add: form_missing_def empty_variable_names_Nil)
  have kept: "submitted_variables ?row ?columns n = Some v \<Longrightarrow> form_missing d s = [] \<Longrightarrow>
      trim v \<noteq> [] \<and> ?row n = Some v" for n v
    unfolding missing by (cases "?row n") (auto simp: submitted_variables_eq trim_Nil split: if_splits)
  have "sf_mode s = Some (Sentence r) \<Longrightarrow> cron_matches cron t = recurs_at r t" for r t
    using reads by (simp add: from_cron_reading)
  then show ?thesis
    using submit missing kept zone by (auto simp: schedule_body_of_def Let_def dom_submitted)
qed

theorem saved_schedule_is_complete_witness:
  "submit_form new_form_data new_form = None \<and> form_reachable new_form"
proof -
  have r: "form_reachable new_form" unfolding new_form_def by (intro form_reachable.intros)
  have shown: "form_shown new_form_data new_form" by code_simp
  have "''city'' \<in> plain_names (form_columns new_form_data)"
    by (force simp: form_columns_def plain_names_columns_of new_form_data_def)
  moreover have "trim (orelse (form_row new_form ''city'') []) = []" by code_simp
  ultimately show ?thesis using saved_schedule_is_complete [OF r shown] r by blast
qed


definition saved_sample :: saved_schedule where
  "saved_sample =
     \<lparr>sv_cron = ''0  9 * * 1,3'', sv_timezone = ''UTC'', sv_variables = [(''city'', Str ''Split'')],
      sv_name = Some ''Weekly'', sv_enabled = False\<rparr>"

definition saved_form_data :: form_data where
  "saved_form_data = new_form_data\<lparr>fd_schedule_id := Some ''s1'', fd_existing := Some saved_sample\<rparr>"


text \<open>The time that the form shows is the time it has: typing the shown time leaves the
  recurrence as it is, choosing the frequency that is chosen does too, and choosing another
  keeps the minute, the hour where it has one, and a recurrence that can be saved.\<close>

theorem clock_round_trip:
  assumes "in_bounds r"
  shows "clock_typed r (clock_value r) = r \<and> with_frequency r (kind_of r) = r \<and>
    in_bounds (with_frequency r kind) \<and> kind_of (with_frequency r kind) = kind \<and>
    (kind_of r \<noteq> K_every \<and> kind \<noteq> K_every \<and> kind \<noteq> K_hourly \<longrightarrow>
      clock_value (with_frequency r kind) = clock_value r)"
proof -
  obtain h m where hm: "clock_of r = (Num h, Num m)" "0 \<le> h" "0 \<le> m"
    using clock_of_in_bounds [OF assms] by (cases "clock_of r") (auto elim!: in_rangeE)
  have "with_clock r (Num h) (Num m) = r" using hm(1) by (cases r) auto
  moreover have "with_frequency r (kind_of r) = r" by (cases r) auto
  moreover have "kind_of (with_frequency r kind) = kind" by (cases kind) auto
  moreover have "kind \<noteq> K_every \<Longrightarrow> kind \<noteq> K_hourly \<Longrightarrow> clock_of (with_frequency r kind) = clock_of r"
    by (cases kind) auto
  ultimately show ?thesis
    using clock_typed_value [OF hm, of r] in_bounds_with_frequency [OF assms, of kind]
    by (simp add: clock_value_def)
qed

theorem clock_round_trip_witness:
  "clock_typed (Weekly [Num 1] (Num 7) (Num 30)) (clock_value (Weekly [Num 1] (Num 7) (Num 30))) =
     Weekly [Num 1] (Num 7) (Num 30) \<and>
   clock_value (Daily (Num 7) (Num 30)) = clock_value (Weekly [Num 1] (Num 7) (Num 30))"
  using clock_round_trip [of "Weekly [Num 1] (Num 7) (Num 30)" K_daily] by simp

text \<open>The strip of a Schedule has one mark for each entry of its past, then what comes: that it is
  paused, or when it is due. A hole has a story and a Run has a status.\<close>

lemma strip_marks_past:
  "take (length history) (strip_marks history nexts paused) = map to_strip_mark history \<and>
   drop (length history) (strip_marks history nexts paused) = (if paused then [Mark_paused] else map Mark_due nexts) \<and>
   length (history_items history) = length history"
  by (simp add: strip_marks_def history_items_def Let_def)

lemma overlap_banner_iff:
  "overlap_banner_of latest \<noteq> None \<longleftrightarrow> oc_reason latest = Overlap \<and> oc_blocking_run_id latest \<noteq> None"
  by (simp add: overlap_banner_of_def split: option.splits)

end
