(* ===== verification/Recording.thy ===== *)
theory Recording
  imports References Gate
begin

text \<open>
  The pure part of the browser extension (\<open>apps/extension/src/lib\<close>): the messages it accepts from a page and
  the judgement of a handshake (\<open>handshake.js\<close>), the address of an instance (\<open>instance.js\<close>),
  and what a recording becomes when it is saved (\<open>recording.js\<close>). The URL parser of the
  browser is an argument of what uses it: it gives the protocol, the origin and the host
  name of a text that is a URL.
\<close>

section \<open>Values of messages\<close>

text \<open>\<open>value?.key\<close>: a value that is not an object has none of the keys that are read.\<close>

definition attr :: "js \<Rightarrow> string \<Rightarrow> js" where
  "attr v key = (case v of Obj ob \<Rightarrow> field ob key | _ \<Rightarrow> Undefined)"

lemma attr_Obj [simp]: "attr (Obj ob) key = field ob key"
  by (simp add: attr_def)

fun is_string :: "js \<Rightarrow> bool" where
  "is_string (Str s) = True"
| "is_string _ = False"

fun is_array :: "js \<Rightarrow> bool" where
  "is_array (Arr xs) = True"
| "is_array _ = False"

definition the_text :: "js \<Rightarrow> string" where
  "the_text v = orelse (as_string v) []"

definition the_array :: "js \<Rightarrow> js list" where
  "the_array v = (case v of Arr xs \<Rightarrow> xs | _ \<Rightarrow> [])"

lemma is_string_iff: "is_string v \<longleftrightarrow> (\<exists>s. v = Str s)"
  by (cases v) auto

lemma is_array_iff: "is_array v \<longleftrightarrow> (\<exists>xs. v = Arr xs)"
  by (cases v) auto

lemma the_simps [simp]: "the_text (Str s) = s" "the_array (Arr xs) = xs"
  by (simp_all add: the_text_def the_array_def)

section \<open>Handshakes\<close>

definition channel :: string where
  "channel = ''step-by-step''"

definition handshake_type :: string where
  "handshake_type = ''connect-handshake''"

text \<open>32 random bytes, each written with two hexadecimal digits.\<close>

definition mint_nonce :: "nat list \<Rightarrow> string" where
  "mint_nonce bytes = concat (map (\<lambda>b. [hex_digit (b div 16), hex_digit (b mod 16)]) bytes)"

definition read_handshake :: "js \<Rightarrow> (string \<times> string) option" where
  "read_handshake data =
     (if attr data ''channel'' \<noteq> Str channel \<or> attr data ''type'' \<noteq> Str handshake_type then None
      else case (attr data ''nonce'', attr data ''instanceOrigin'') of
        (Str nonce, Str origin) \<Rightarrow> Some (nonce, origin)
      | _ \<Rightarrow> None)"

definition is_protocol_message :: "js \<Rightarrow> bool" where
  "is_protocol_message data \<longleftrightarrow> attr data ''channel'' = Str channel"

record sender =
  sn_id :: "string option"
  sn_tab :: "int option"
  sn_frame :: "int option"
  sn_origin :: "string option"
  sn_url :: "string option"

record connect_attempt =
  at_origin :: string
  at_nonce :: string
  at_tab :: int
  at_opened :: int

datatype handshake_refusal =
    No_attempt | Not_our_sender | Not_a_tab | Not_the_top_frame | Not_the_connected_tab
  | Wrong_origin | Malformed | Wrong_nonce

definition judge_handshake ::
    "js \<Rightarrow> sender option \<Rightarrow> connect_attempt option \<Rightarrow> string \<Rightarrow> handshake_refusal + string" where
  "judge_handshake message from_sender pending extension_id =
     (case pending of
        None \<Rightarrow> Inl No_attempt
      | Some a \<Rightarrow>
          (case from_sender of
             None \<Rightarrow> Inl Not_our_sender
           | Some s \<Rightarrow>
               if sn_id s \<noteq> Some extension_id then Inl Not_our_sender
               else if sn_tab s = None then Inl Not_a_tab
               else if sn_frame s \<noteq> Some 0 then Inl Not_the_top_frame
               else if sn_tab s \<noteq> Some (at_tab a) then Inl Not_the_connected_tab
               else if sn_origin s \<noteq> Some (at_origin a) then Inl Wrong_origin
               else (case read_handshake message of
                  None \<Rightarrow> Inl Malformed
                | Some (nonce, origin) \<Rightarrow>
                    if Some origin \<noteq> sn_origin s then Inl Wrong_origin
                    else if nonce \<noteq> at_nonce a then Inl Wrong_nonce
                    else Inr (at_origin a))))"

section \<open>The address of an instance\<close>

record url_parts =
  ur_protocol :: string
  ur_origin :: string
  ur_hostname :: string

type_synonym url_parser = "string \<Rightarrow> url_parts option"

datatype address_problem = Empty_address | Unsupported_scheme | Malformed_address

text \<open>The tests \<open>/^[a-z][a-z0-9+.-]*:\/\//i\<close> and \<open>/^[a-z][a-z0-9+.-]*:(?!\d)/i\<close>.\<close>

definition is_letter :: "char \<Rightarrow> bool" where
  "is_letter c \<longleftrightarrow> (65 \<le> code c \<and> code c \<le> 90) \<or> (97 \<le> code c \<and> code c \<le> 122)"

definition scheme_char :: "char \<Rightarrow> bool" where
  "scheme_char c \<longleftrightarrow> is_letter c \<or> is_digit c \<or> c \<in> set ''+.-''"

definition after_scheme :: "string \<Rightarrow> string option" where
  "after_scheme text =
     (case text of
        [] \<Rightarrow> None
      | c # _ \<Rightarrow>
          if is_letter c \<and> prefix '':'' (dropWhile scheme_char text)
          then Some (drop 1 (dropWhile scheme_char text)) else None)"

definition names_a_scheme :: "string \<Rightarrow> bool" where
  "names_a_scheme text \<longleftrightarrow> (case after_scheme text of None \<Rightarrow> False | Some rest \<Rightarrow> prefix ''//'' rest)"

definition scheme_without_an_authority :: "string \<Rightarrow> bool" where
  "scheme_without_an_authority text \<longleftrightarrow>
     \<not> names_a_scheme text \<and>
     (case after_scheme text of None \<Rightarrow> False | Some rest \<Rightarrow> rest = [] \<or> \<not> is_digit (hd rest))"

definition read_instance_url :: "url_parser \<Rightarrow> string \<Rightarrow> address_problem + string" where
  "read_instance_url parse typed =
     (let text = trim typed in
      if text = [] then Inl Empty_address
      else if scheme_without_an_authority text then Inl Unsupported_scheme
      else case parse (if names_a_scheme text then text else ''https://'' @ text) of
        None \<Rightarrow> Inl Malformed_address
      | Some u \<Rightarrow>
          if ur_protocol u \<noteq> ''http:'' \<and> ur_protocol u \<noteq> ''https:'' then Inl Unsupported_scheme
          else Inr (ur_origin u))"

definition origin_pattern :: "string \<Rightarrow> string" where
  "origin_pattern origin = origin @ ''/*''"

section \<open>What a recording becomes\<close>

record capture_choice =
  ch_domain :: string
  ch_checked :: bool
  ch_personal :: bool
  ch_organization_saved_at :: "string option"
  ch_personal_saved_at :: "string option"

text \<open>The options of the API: a domain and when a login for it was saved, if it was.\<close>

definition capture_choices :: "(string \<times> string option \<times> string option) list \<Rightarrow> capture_choice list" where
  "capture_choices options =
     map (\<lambda>(domain, organization_saved_at, personal_saved_at).
         \<lparr>ch_domain = domain, ch_checked = False, ch_personal = False,
          ch_organization_saved_at = organization_saved_at, ch_personal_saved_at = personal_saved_at\<rparr>) options"

definition replacement_hint :: "(string \<Rightarrow> string) \<Rightarrow> capture_choice \<Rightarrow> bool \<Rightarrow> string" where
  "replacement_hint format_date choice personal =
     (case (if personal then ch_personal_saved_at choice else ch_organization_saved_at choice) of
        None \<Rightarrow> []
      | Some timestamp \<Rightarrow>
          if personal then ''replaces your login saved on '' @ format_date timestamp
          else ''replaces the login saved on '' @ format_date timestamp)"

record recorded_step =
  rd_id :: string
  rd_type :: string
  rd_label :: string
  rd_payload :: fields
  rd_needs_secret :: bool

record binding =
  bi_step_id :: string
  bi_name :: "string option"
  bi_secret :: "(js \<times> js) option"

definition name_of :: "fields \<Rightarrow> js" where
  "name_of variable = field variable ''name''"

definition declared_map :: "fields list \<Rightarrow> js \<Rightarrow> fields option" where
  "declared_map variables = map_of (rev (map (\<lambda>v. (name_of v, v)) variables))"

definition chosen_secret :: "binding \<Rightarrow> (string \<times> string) option" where
  "chosen_secret b =
     (case bi_secret b of
        Some (Str ident, Str name) \<Rightarrow> if ident = [] \<or> name = [] then None else Some (ident, name)
      | _ \<Rightarrow> None)"

definition bound_variable :: "fields option \<Rightarrow> string \<Rightarrow> string \<times> string \<Rightarrow> fields" where
  "bound_variable existing name secret =
     with_key ''secretName'' (Str (snd secret)) (with_key ''secretId'' (Str (fst secret))
       (with_key ''secret'' (Bool True) (orelse existing [(''name'', Str name)])))"

text \<open>
  One password Step: the Variable it is bound to, or the error that is raised. \<open>declared\<close> and
  \<open>bound\<close> are the two maps the loop fills.
\<close>

definition bind_step ::
    "(string \<rightharpoonup> binding) \<Rightarrow> (js \<Rightarrow> fields option) \<Rightarrow> (string \<times> fields) list \<Rightarrow> recorded_step \<Rightarrow>
     string + (string \<times> fields)" where
  "bind_step by_step declared bound step =
     (let name = (case by_step (rd_id step) of
          None \<Rightarrow> [] | Some b \<Rightarrow> (case bi_name b of None \<Rightarrow> [] | Some n \<Rightarrow> trim n)) in
      if name = [] then Inl ''Bind every password Step before saving.''
      else if \<not> variable_name name then Inl ''Choose a valid Variable name.''
      else case chosen_secret (the (by_step (rd_id step))) of
        None \<Rightarrow> Inl ''Choose or create a Secret for every password Step.''
      | Some secret \<Rightarrow>
          (let existing = declared (Str name) in
           if (case existing of None \<Rightarrow> False | Some v \<Rightarrow> field v ''secret'' \<noteq> Bool True)
           then Inl ''A password Step needs a secret Variable.''
           else
             (let variable = bound_variable existing name secret in
              if (case map_of bound name of
                    None \<Rightarrow> False
                  | Some previous \<Rightarrow> field previous ''secretId'' \<noteq> field variable ''secretId'')
              then Inl ''One secret Variable cannot use two Secrets.''
              else Inr (name, variable))))"

text \<open>The Step without its marker, its value a reference to the Variable.\<close>

definition referring :: "recorded_step \<Rightarrow> string \<Rightarrow> recorded_step" where
  "referring step name =
     step\<lparr>rd_payload := with_key ''value'' (Str (reference_text name)) (rd_payload step), rd_needs_secret := False\<rparr>"

fun bind_steps ::
    "(string \<rightharpoonup> binding) \<Rightarrow> (js \<Rightarrow> fields option) \<Rightarrow> (string \<times> fields) list \<Rightarrow> recorded_step list \<Rightarrow>
     string + (recorded_step list \<times> (js \<Rightarrow> fields option) \<times> (string \<times> fields) list)" where
  "bind_steps by_step declared bound [] = Inr ([], declared, bound)"
| "bind_steps by_step declared bound (step # steps) =
     (if \<not> rd_needs_secret step then
        (case bind_steps by_step declared bound steps of
           Inl e \<Rightarrow> Inl e
         | Inr (rest, d, b) \<Rightarrow> Inr (step # rest, d, b))
      else case bind_step by_step declared bound step of
        Inl e \<Rightarrow> Inl e
      | Inr (name, variable) \<Rightarrow>
          (case bind_steps by_step (declared(Str name \<mapsto> variable)) (with_key name variable bound) steps of
             Inl e \<Rightarrow> Inl e
           | Inr (rest, d, b) \<Rightarrow> Inr (referring step name # rest, d, b)))"

record recorded_document =
  dm_steps :: "recorded_step list"
  dm_variables :: "fields list"

definition bindings_by_step :: "binding list \<Rightarrow> (string \<rightharpoonup> binding)" where
  "bindings_by_step bindings = map_of (rev (map (\<lambda>b. (bi_step_id b, b)) bindings))"

definition bind_secret_steps ::
    "recorded_step list \<Rightarrow> binding list \<Rightarrow> fields list \<Rightarrow> string + recorded_document" where
  "bind_secret_steps steps bindings variables =
     (case bind_steps (bindings_by_step bindings) (declared_map variables) [] steps of
        Inl e \<Rightarrow> Inl e
      | Inr (bound_steps, declared, bound) \<Rightarrow>
          Inr \<lparr>dm_steps = bound_steps,
            dm_variables = map (\<lambda>v. orelse (declared (name_of v)) []) variables @
              filter (\<lambda>v. name_of v \<notin> name_of ` set variables) (map snd bound)\<rparr>)"

text \<open>The pattern of a whole site; an address and a name with no dot have no subdomains.\<close>

definition is_address :: "string \<Rightarrow> bool" where
  "is_address domain \<longleftrightarrow>
     (let parts = split_on (CHR ''.'') domain in
      length parts = 4 \<and> list_all (\<lambda>p. all_digits p \<and> length p \<le> 3) parts)"

definition site_pattern :: "string \<Rightarrow> string" where
  "site_pattern domain =
     (if is_address domain \<or> CHR ''.'' \<notin> set domain then ''*://'' @ domain @ ''/*''
      else ''*://*.'' @ domain @ ''/*'')"

definition fragile :: "js list \<Rightarrow> bool" where
  "fragile candidates \<longleftrightarrow> candidates = [] \<or> list_all (\<lambda>c. attr c ''kind'' = Str ''css'') candidates"

definition navigate_step :: "url_parser \<Rightarrow> string \<Rightarrow> string \<Rightarrow> recorded_step" where
  "navigate_step parse fresh url =
     \<lparr>rd_id = fresh, rd_type = ''navigate'',
      rd_label = ''Navigate to '' @ (case parse url of None \<Rightarrow> [] | Some u \<Rightarrow> ur_hostname u),
      rd_payload = [(''url'', Str url)], rd_needs_secret = False\<rparr>"

record accepted_recording =
  pe_session_id :: string
  pe_token :: string
  pe_backend_origin :: string
  pe_workflow_id :: string
  pe_workflow_name :: string

datatype pending_mode = To_record "js list" "js list" | To_repick string

definition read_pending_recording :: "js \<Rightarrow> (accepted_recording \<times> pending_mode) option" where
  "read_pending_recording message =
     (if list_all (\<lambda>key. is_string (attr message key))
        [''sessionId'', ''token'', ''backendOrigin'', ''workflowId'', ''workflowName''] then
        (let pending = \<lparr>pe_session_id = the_text (attr message ''sessionId''), pe_token = the_text (attr message ''token''),
               pe_backend_origin = the_text (attr message ''backendOrigin''),
               pe_workflow_id = the_text (attr message ''workflowId''),
               pe_workflow_name = the_text (attr message ''workflowName'')\<rparr> in
         if attr message ''mode'' = Str ''record'' then
           (if \<not> is_array (attr message ''variables'') \<or> \<not> is_array (attr message ''secrets'') then None
            else Some (pending, To_record (the_array (attr message ''variables'')) (the_array (attr message ''secrets''))))
         else if attr message ''mode'' = Str ''repick'' then
           (if \<not> is_string (attr message ''stepId'') \<or> attr message ''stepId'' = Str [] then None
            else Some (pending, To_repick (the_text (attr message ''stepId''))))
         else None)
      else None)"

section \<open>Logins\<close>

definition belongs_to_domain :: "url_parser \<Rightarrow> string \<Rightarrow> string \<Rightarrow> bool" where
  "belongs_to_domain parse origin domain \<longleftrightarrow>
     (case parse origin of
        None \<Rightarrow> False
      | Some u \<Rightarrow> ur_hostname u = domain \<or> suffix (CHR ''.'' # domain) (ur_hostname u))"

definition chrome_cookie :: "fields \<Rightarrow> fields" where
  "chrome_cookie cookie =
     (let kept = filter (\<lambda>(k, _). k \<noteq> ''expirationDate'' \<and> k \<noteq> ''sameSite'') cookie;
          dated = (case field cookie ''expirationDate'' of
            Number n \<Rightarrow> with_key ''expires'' (Number n) kept | _ \<Rightarrow> kept)
      in (case map_of [(Str ''lax'', ''Lax''), (Str ''strict'', ''Strict''), (Str ''no_restriction'', ''None'')]
             (field cookie ''sameSite'') of
            None \<Rightarrow> dated
          | Some said \<Rightarrow> with_key ''sameSite'' (Str said) dated))"

definition cookie_key :: "fields \<Rightarrow> string" where
  "cookie_key cookie =
     join '':'' [string_of_js (field cookie ''storeId''),
       (case attr (field cookie ''partitionKey'') ''topLevelSite'' of
          Undefined \<Rightarrow> [] | Null \<Rightarrow> [] | v \<Rightarrow> string_of_js v),
       string_of_js (field cookie ''domain''), string_of_js (field cookie ''path''),
       string_of_js (field cookie ''name'')]"

text \<open>\<open>[...new Map(cookies.map((c) => [key(c), c])).values()]\<close>.\<close>

definition distinct_cookies :: "fields list \<Rightarrow> fields list" where
  "distinct_cookies cookies = map snd (foldl (\<lambda>found c. with_key (cookie_key c) c found) [] cookies)"

section \<open>Lemmas\<close>

text \<open>What a password Step is bound to, when its binding names a Variable and a Secret.\<close>

definition binding_of :: "(string \<rightharpoonup> binding) \<Rightarrow> recorded_step \<Rightarrow> (string \<times> string \<times> string) option" where
  "binding_of by_step step =
     (case by_step (rd_id step) of
        None \<Rightarrow> None
      | Some b \<Rightarrow>
          (case bi_name b of
             None \<Rightarrow> None
           | Some n \<Rightarrow>
               if \<not> variable_name (trim n) then None
               else map_option (\<lambda>secret. (trim n, secret)) (chosen_secret b)))"

lemma field_bound_variable:
  "field (bound_variable existing name secret) ''secret'' = Bool True"
  "field (bound_variable existing name secret) ''secretId'' = Str (fst secret)"
  "field (bound_variable existing name secret) ''secretName'' = Str (snd secret)"
  "name_of (bound_variable existing name secret) = (case existing of None \<Rightarrow> Str name | Some v \<Rightarrow> name_of v)"
  by (simp_all add: bound_variable_def name_of_def field_def split: option.split)

lemma variable_name_nonempty: "variable_name n \<Longrightarrow> n \<noteq> []"
  by (simp add: variable_name_def)

lemma bind_step_Inr:
  "bind_step by_step declared bound step = Inr (name, variable) \<longleftrightarrow>
   (\<exists>secret. binding_of by_step step = Some (name, secret) \<and>
     variable = bound_variable (declared (Str name)) name secret \<and>
     (\<forall>v. declared (Str name) = Some v \<longrightarrow> field v ''secret'' = Bool True) \<and>
     (\<forall>p. map_of bound name = Some p \<longrightarrow> field p ''secretId'' = Str (fst secret)))"
proof (cases "binding_of by_step step")
  case None
  then show ?thesis
    by (cases "by_step (rd_id step)"; cases "bi_name (the (by_step (rd_id step)))")
      (auto simp: binding_of_def bind_step_def Let_def split: if_splits option.splits)
next
  case (Some found)
  then obtain n secret b m where b: "by_step (rd_id step) = Some b" "bi_name b = Some m" "n = trim m"
      "variable_name n" "chosen_secret b = Some secret" "found = (n, secret)"
    by (cases "by_step (rd_id step)"; cases "bi_name (the (by_step (rd_id step)))")
      (auto simp: binding_of_def split: if_splits)
  let ?plain = "\<lambda>e. case e of None \<Rightarrow> False | Some v \<Rightarrow> field v ''secret'' \<noteq> Bool True"
  let ?taken = "case map_of bound n of None \<Rightarrow> False | Some p \<Rightarrow> field p ''secretId'' \<noteq> Str (fst secret)"
  have "bind_step by_step declared bound step =
      (if ?plain (declared (Str n)) then Inl ''A password Step needs a secret Variable.''
       else if ?taken then Inl ''One secret Variable cannot use two Secrets.''
       else Inr (n, bound_variable (declared (Str n)) n secret))"
    using b variable_name_nonempty [OF b(4)] by (simp add: bind_step_def Let_def field_bound_variable cong: option.case_cong)
  moreover have "?plain e \<longleftrightarrow> \<not> (\<forall>v. e = Some v \<longrightarrow> field v ''secret'' = Bool True)" for e
    by (simp split: option.split)
  moreover have "?taken \<longleftrightarrow> \<not> (\<forall>p. map_of bound n = Some p \<longrightarrow> field p ''secretId'' = Str (fst secret))"
    by (simp split: option.split)
  ultimately show ?thesis using Some b(6) by auto
qed

text \<open>The two maps agree: a bound Variable is declared as it is bound, and is secret.\<close>

definition maps_agree :: "(js \<Rightarrow> fields option) \<Rightarrow> (string \<times> fields) list \<Rightarrow> bool" where
  "maps_agree declared bound \<longleftrightarrow>
     (\<forall>k v. declared k = Some v \<longrightarrow> name_of v = k) \<and> distinct (map fst bound) \<and>
     (\<forall>n v. map_of bound n = Some v \<longrightarrow> declared (Str n) = Some v \<and> field v ''secret'' = Bool True)"

lemma maps_agree_step:
  assumes "maps_agree declared bound" and "bind_step by_step declared bound step = Inr (name, variable)"
  shows "maps_agree (declared(Str name \<mapsto> variable)) (with_key name variable bound)"
proof -
  from assms obtain secret where v: "variable = bound_variable (declared (Str name)) name secret"
    by (auto simp: bind_step_Inr)
  have old: "\<And>k v. declared k = Some v \<Longrightarrow> name_of v = k"
      "\<And>n v. map_of bound n = Some v \<Longrightarrow> declared (Str n) = Some v \<and> field v ''secret'' = Bool True"
    using assms(1) by (simp_all add: maps_agree_def)
  have "name_of variable = Str name"
    using old(1) [of "Str name"] by (simp add: v field_bound_variable split: option.split)
  moreover have "field variable ''secret'' = Bool True" by (simp add: v field_bound_variable)
  moreover have "distinct (map fst (with_key name variable bound))"
    using assms(1) by (simp add: maps_agree_def distinct_with_key)
  ultimately show ?thesis
    unfolding maps_agree_def using old by simp
qed

definition bound_as :: "(string \<rightharpoonup> binding) \<Rightarrow> (string \<times> fields) list \<Rightarrow> recorded_step \<Rightarrow> recorded_step \<Rightarrow> bool" where
  "bound_as by_step bound step saved \<longleftrightarrow>
     (if rd_needs_secret step
      then \<exists>name secret v. binding_of by_step step = Some (name, secret) \<and> saved = referring step name \<and>
        map_of bound name = Some v \<and> field v ''secretId'' = Str (fst secret)
      else saved = step)"

lemma bind_steps_bound:
  "bind_steps by_step declared bound steps = Inr (saved, declared', bound') \<Longrightarrow> maps_agree declared bound \<Longrightarrow>
   maps_agree declared' bound' \<and> list_all2 (bound_as by_step bound') steps saved \<and>
   (\<forall>n p. map_of bound n = Some p \<longrightarrow> (\<exists>v. map_of bound' n = Some v \<and> field v ''secretId'' = field p ''secretId'')) \<and>
   (\<forall>k. (\<forall>n. k = Str n \<longrightarrow> map_of bound' n = None) \<longrightarrow> declared' k = declared k)"
proof (induction by_step declared bound steps arbitrary: saved declared' bound' rule: bind_steps.induct)
  case (2 by_step declared bound step steps)
  show ?case
  proof (cases "rd_needs_secret step")
    case False
    with 2(3) obtain rest where "bind_steps by_step declared bound steps = Inr (rest, declared', bound')"
      and saved: "saved = step # rest"
      by (auto split: sum.splits)
    from 2(1) [OF False this(1) 2(4)] show ?thesis using False saved by (simp add: bound_as_def)
  next
    case True
    with 2(3) obtain name variable rest where bind: "bind_step by_step declared bound step = Inr (name, variable)"
      and rest: "bind_steps by_step (declared(Str name \<mapsto> variable)) (with_key name variable bound) steps =
        Inr (rest, declared', bound')" and saved: "saved = referring step name # rest"
      by (auto split: sum.splits)
    have agree: "maps_agree (declared(Str name \<mapsto> variable)) (with_key name variable bound)"
      by (rule maps_agree_step [OF 2(4) bind])
    note IH = 2(2) [OF _ bind refl rest agree]
    obtain secret where secret: "binding_of by_step step = Some (name, secret)"
      and var: "variable = bound_variable (declared (Str name)) name secret"
      and same: "\<And>p. map_of bound name = Some p \<Longrightarrow> field p ''secretId'' = Str (fst secret)"
      using bind by (auto simp: bind_step_Inr)
    have later: "\<exists>v. map_of bound' n = Some v \<and> field v ''secretId'' = field p ''secretId''"
      if "map_of (with_key name variable bound) n = Some p" for n p
      using IH True that by auto
    have this_one: "\<exists>v. map_of bound' name = Some v \<and> field v ''secretId'' = Str (fst secret)"
      using later [of name variable] var by (simp add: field_bound_variable)
    have "\<exists>v. map_of bound' n = Some v \<and> field v ''secretId'' = field p ''secretId''"
      if "map_of bound n = Some p" for n p
      using that this_one same later [of n p] by (cases "n = name") auto
    moreover have "declared' k = declared k" if "\<forall>n. k = Str n \<longrightarrow> map_of bound' n = None" for k
      using IH True that this_one by auto
    moreover have "bound_as by_step bound' step (referring step name)"
      using True secret this_one by (cases secret) (auto simp: bound_as_def)
    ultimately show ?thesis using IH True saved by auto
  qed
qed simp

text \<open>Which bindings fit: every password Step has one, no two use one name for two Secrets.\<close>

definition binding_fits ::
    "(string \<rightharpoonup> binding) \<Rightarrow> (js \<Rightarrow> fields option) \<Rightarrow> (string \<times> fields) list \<Rightarrow> recorded_step list \<Rightarrow>
     recorded_step \<Rightarrow> bool" where
  "binding_fits by_step declared bound steps step \<longleftrightarrow>
     (\<exists>name secret. binding_of by_step step = Some (name, secret) \<and>
       (\<forall>v. declared (Str name) = Some v \<longrightarrow> field v ''secret'' = Bool True) \<and>
       (\<forall>p. map_of bound name = Some p \<longrightarrow> field p ''secretId'' = Str (fst secret)) \<and>
       (\<forall>other \<in> set steps. \<forall>secret'. rd_needs_secret other \<longrightarrow>
          binding_of by_step other = Some (name, secret') \<longrightarrow> fst secret' = fst secret))"

definition bindings_fit ::
    "(string \<rightharpoonup> binding) \<Rightarrow> (js \<Rightarrow> fields option) \<Rightarrow> (string \<times> fields) list \<Rightarrow> recorded_step list \<Rightarrow> bool" where
  "bindings_fit by_step declared bound steps \<longleftrightarrow>
     (\<forall>step \<in> set steps. rd_needs_secret step \<longrightarrow> binding_fits by_step declared bound steps step)"

lemma bindings_fit_Cons:
  assumes "rd_needs_secret step"
  shows "bindings_fit by_step declared bound (step # steps) \<longleftrightarrow>
    (\<exists>name variable. bind_step by_step declared bound step = Inr (name, variable) \<and>
      bindings_fit by_step (declared(Str name \<mapsto> variable)) (with_key name variable bound) steps)"
    (is "?left \<longleftrightarrow> ?right")
proof
  assume left: ?left
  then have "binding_fits by_step declared bound (step # steps) step"
    using assms by (simp add: bindings_fit_def)
  then obtain name secret where b: "binding_of by_step step = Some (name, secret)"
    and plain: "\<forall>v. declared (Str name) = Some v \<longrightarrow> field v ''secret'' = Bool True"
    and taken: "\<forall>p. map_of bound name = Some p \<longrightarrow> field p ''secretId'' = Str (fst secret)"
    unfolding binding_fits_def by blast
  define variable where "variable = bound_variable (declared (Str name)) name secret"
  have v: "field variable ''secret'' = Bool True" "field variable ''secretId'' = Str (fst secret)"
    by (simp_all add: variable_def field_bound_variable)
  have bind: "bind_step by_step declared bound step = Inr (name, variable)"
    unfolding bind_step_Inr variable_def using b plain taken by blast
  have "binding_fits by_step (declared(Str name \<mapsto> variable)) (with_key name variable bound) steps other"
    if other: "other \<in> set steps" "rd_needs_secret other" for other
  proof -
    have "binding_fits by_step declared bound (step # steps) other"
      using left other by (simp add: bindings_fit_def)
    then obtain n sec where o: "binding_of by_step other = Some (n, sec)"
      "\<forall>v. declared (Str n) = Some v \<longrightarrow> field v ''secret'' = Bool True"
      "\<forall>p. map_of bound n = Some p \<longrightarrow> field p ''secretId'' = Str (fst sec)"
      "\<forall>o2 \<in> set (step # steps). \<forall>sec'. rd_needs_secret o2 \<longrightarrow>
        binding_of by_step o2 = Some (n, sec') \<longrightarrow> fst sec' = fst sec"
      unfolding binding_fits_def by blast
    show ?thesis
    proof (cases "n = name")
      case True
      then have "fst secret = fst sec" using bspec [OF o(4), of step] assms b by simp
      with o True v show ?thesis by (simp add: binding_fits_def)
    next
      case False
      with o show ?thesis by (simp add: binding_fits_def)
    qed
  qed
  with bind show ?right by (auto simp: bindings_fit_def)
next
  assume ?right
  then obtain name variable where bind: "bind_step by_step declared bound step = Inr (name, variable)"
    and fit: "bindings_fit by_step (declared(Str name \<mapsto> variable)) (with_key name variable bound) steps" by blast
  from bind obtain secret where b: "binding_of by_step step = Some (name, secret)"
    and v: "variable = bound_variable (declared (Str name)) name secret"
    and plain: "\<forall>v. declared (Str name) = Some v \<longrightarrow> field v ''secret'' = Bool True"
    and taken: "\<forall>p. map_of bound name = Some p \<longrightarrow> field p ''secretId'' = Str (fst secret)"
    unfolding bind_step_Inr by blast
  have ident: "field variable ''secretId'' = Str (fst secret)" by (simp add: v field_bound_variable)
  have later: "\<exists>n sec. binding_of by_step other = Some (n, sec) \<and>
      (\<forall>v. declared (Str n) = Some v \<longrightarrow> field v ''secret'' = Bool True) \<and>
      (\<forall>p. map_of bound n = Some p \<longrightarrow> field p ''secretId'' = Str (fst sec)) \<and>
      (n = name \<longrightarrow> fst sec = fst secret) \<and>
      (\<forall>o2 \<in> set steps. \<forall>sec'. rd_needs_secret o2 \<longrightarrow> binding_of by_step o2 = Some (n, sec') \<longrightarrow> fst sec' = fst sec)"
    if other: "other \<in> set steps" "rd_needs_secret other" for other
  proof -
    have "binding_fits by_step (declared(Str name \<mapsto> variable)) (with_key name variable bound) steps other"
      using fit other by (simp add: bindings_fit_def)
    then obtain n sec where o: "binding_of by_step other = Some (n, sec)"
      "\<forall>v. (declared(Str name \<mapsto> variable)) (Str n) = Some v \<longrightarrow> field v ''secret'' = Bool True"
      "\<forall>p. map_of (with_key name variable bound) n = Some p \<longrightarrow> field p ''secretId'' = Str (fst sec)"
      "\<forall>o2 \<in> set steps. \<forall>sec'. rd_needs_secret o2 \<longrightarrow> binding_of by_step o2 = Some (n, sec') \<longrightarrow> fst sec' = fst sec"
      unfolding binding_fits_def by blast
    have same: "n = name \<Longrightarrow> fst sec = fst secret" using o(3) ident by simp
    have "(\<forall>v. declared (Str n) = Some v \<longrightarrow> field v ''secret'' = Bool True) \<and>
        (\<forall>p. map_of bound n = Some p \<longrightarrow> field p ''secretId'' = Str (fst sec))"
    proof (cases "n = name")
      case True
      with plain taken same show ?thesis by simp
    next
      case False
      with o(2,3) show ?thesis by simp
    qed
    with o(1,4) same show ?thesis by blast
  qed
  have mine: "fst sec' = fst secret"
    if "o2 \<in> set (step # steps)" "rd_needs_secret o2" "binding_of by_step o2 = Some (name, sec')" for o2 sec'
  proof (cases "o2 = step")
    case True
    with that(3) b show ?thesis by simp
  next
    case False
    with that later [of o2] show ?thesis by auto
  qed
  have "binding_fits by_step declared bound (step # steps) step"
    unfolding binding_fits_def using b plain taken mine by blast
  moreover have "binding_fits by_step declared bound (step # steps) other"
    if other: "other \<in> set steps" "rd_needs_secret other" for other
  proof -
    from later [OF other] obtain n sec where o: "binding_of by_step other = Some (n, sec)"
      "\<forall>v. declared (Str n) = Some v \<longrightarrow> field v ''secret'' = Bool True"
      "\<forall>p. map_of bound n = Some p \<longrightarrow> field p ''secretId'' = Str (fst sec)"
      "n = name \<longrightarrow> fst sec = fst secret"
      "\<forall>o2 \<in> set steps. \<forall>sec'. rd_needs_secret o2 \<longrightarrow> binding_of by_step o2 = Some (n, sec') \<longrightarrow> fst sec' = fst sec"
      by blast
    have "fst sec' = fst sec" if "binding_of by_step step = Some (n, sec')" for sec'
      using that b o(4) by simp
    with o(5) have "\<forall>o2 \<in> set (step # steps). \<forall>sec'. rd_needs_secret o2 \<longrightarrow>
        binding_of by_step o2 = Some (n, sec') \<longrightarrow> fst sec' = fst sec"
      unfolding list.set(2) by blast
    with o(1-3) show ?thesis unfolding binding_fits_def by blast
  qed
  ultimately show ?left by (simp add: bindings_fit_def)
qed

lemma bind_steps_fit:
  "(\<exists>r. bind_steps by_step declared bound steps = Inr r) \<longleftrightarrow> bindings_fit by_step declared bound steps"
proof (induction by_step declared bound steps rule: bind_steps.induct)
  case (1 by_step declared bound)
  then show ?case by (simp add: bindings_fit_def)
next
  case (2 by_step declared bound step steps)
  show ?case
  proof (cases "rd_needs_secret step")
    case False
    then have "bindings_fit by_step declared bound (step # steps) \<longleftrightarrow> bindings_fit by_step declared bound steps"
      by (simp add: bindings_fit_def binding_fits_def)
    then show ?thesis using 2(1) [OF False] False by (auto split: sum.splits)
  next
    case True
    show ?thesis
    proof (cases "bind_step by_step declared bound step")
      case (Inl e)
      with True show ?thesis by (simp add: bindings_fit_Cons)
    next
      case (Inr found)
      obtain name variable where found: "found = (name, variable)" by (cases found)
      let ?next = "bind_steps by_step (declared(Str name \<mapsto> variable)) (with_key name variable bound) steps"
      have "(\<exists>r. bind_steps by_step declared bound (step # steps) = Inr r) \<longleftrightarrow> (\<exists>r. ?next = Inr r)"
        using True Inr found by (cases ?next) auto
      moreover have "(\<exists>r. ?next = Inr r) \<longleftrightarrow>
          bindings_fit by_step (declared(Str name \<mapsto> variable)) (with_key name variable bound) steps"
        using 2(2) [OF _ Inr] True found by (simp add: fun_upd_def)
      ultimately show ?thesis
        unfolding bindings_fit_Cons [OF True] using Inr found by simp
    qed
  qed
qed

lemma declared_map_name: "declared_map variables k = Some v \<Longrightarrow> name_of v = k \<and> v \<in> set variables"
  by (auto simp: declared_map_def dest!: map_of_SomeD)

lemma declared_map_Some: "v \<in> set variables \<Longrightarrow> \<exists>u. declared_map variables (name_of v) = Some u"
  by (cases "declared_map variables (name_of v)") (auto simp: declared_map_def map_of_eq_None_iff image_iff)

lemma declared_map_distinct:
  assumes "distinct (map name_of variables)" and "v \<in> set variables"
  shows "declared_map variables (name_of v) = Some v"
proof -
  have "distinct (map fst (map (\<lambda>v. (name_of v, v)) variables))" using assms(1) by (simp add: comp_def)
  then have "distinct (map fst (rev (map (\<lambda>v. (name_of v, v)) variables)))"
    by (simp only: rev_map [symmetric] distinct_rev)
  then show ?thesis using assms(2) by (simp add: declared_map_def)
qed

lemma maps_agree_start: "maps_agree (declared_map variables) []"
  by (simp add: maps_agree_def declared_map_name)

text \<open>The Variables of the document, from the two maps that the loop has filled.\<close>

lemma bound_variables:
  assumes agree: "maps_agree declared bound"
    and rest: "\<forall>k. (\<forall>n. k = Str n \<longrightarrow> map_of bound n = None) \<longrightarrow> declared k = declared_map variables k"
  defines "vars \<equiv> map (\<lambda>v. orelse (declared (name_of v)) []) variables @
      filter (\<lambda>v. name_of v \<notin> name_of ` set variables) (map snd bound)"
  shows "map name_of (take (length variables) vars) = map name_of variables"
    and "distinct (map name_of variables) \<Longrightarrow> distinct (map name_of vars)"
    and "map_of bound n = Some v \<Longrightarrow> v \<in> set vars \<and> name_of v = Str n"
proof -
  have names: "declared k = Some v \<Longrightarrow> name_of v = k" for k v
    using agree by (simp add: maps_agree_def)
  have bound: "map_of bound n = Some v \<Longrightarrow> declared (Str n) = Some v" for n v
    using agree by (simp add: maps_agree_def)
  have old: "\<exists>u. declared (name_of v) = Some u \<and> name_of u = name_of v" if v: "v \<in> set variables" for v
  proof (cases "\<exists>n u. name_of v = Str n \<and> map_of bound n = Some u")
    case True
    then obtain n u where "name_of v = Str n" "map_of bound n = Some u" by blast
    with bound names show ?thesis by fastforce
  next
    case False
    then have "declared (name_of v) = declared_map variables (name_of v)"
      using rest by (metis option.exhaust)
    with declared_map_Some [OF v] names show ?thesis by auto
  qed
  have same: "map name_of (map (\<lambda>v. orelse (declared (name_of v)) []) variables) = map name_of variables"
    by (auto dest!: old)
  then show "map name_of (take (length variables) vars) = map name_of variables" by (simp add: vars_def)
  have name_bound: "map (\<lambda>v. name_of v) (map snd bound) = map Str (map fst bound)"
  proof -
    have "name_of v = Str n" if "(n, v) \<in> set bound" for n v
      using agree that names bound by (auto simp: maps_agree_def)
    then show ?thesis by (auto simp: split_beta)
  qed
  have "distinct (map name_of (map snd bound))"
    using agree unfolding name_bound by (simp add: maps_agree_def distinct_map inj_on_def)
  then have "distinct (map name_of (filter (\<lambda>v. name_of v \<notin> name_of ` set variables) (map snd bound)))"
    by (rule distinct_map_filter)
  moreover have "set (map name_of variables) \<inter>
      set (map name_of (filter (\<lambda>v. name_of v \<notin> name_of ` set variables) (map snd bound))) = {}"
  proof (rule equals0I)
    fix x assume "x \<in> set (map name_of variables) \<inter>
      set (map name_of (filter (\<lambda>v. name_of v \<notin> name_of ` set variables) (map snd bound)))"
    then obtain v where "x \<in> name_of ` set variables" "name_of v \<notin> name_of ` set variables" "x = name_of v"
      unfolding set_map set_filter by blast
    then show False by (simp only:)
  qed
  ultimately show "distinct (map name_of variables) \<Longrightarrow> distinct (map name_of vars)"
    unfolding vars_def map_append distinct_append same by blast
  show "map_of bound n = Some v \<Longrightarrow> v \<in> set vars \<and> name_of v = Str n"
  proof
    assume v: "map_of bound n = Some v"
    then show n: "name_of v = Str n" using bound names by blast
    show "v \<in> set vars"
    proof (cases "name_of v \<in> name_of ` set variables")
      case True
      then obtain u where "u \<in> set variables" "name_of u = name_of v" by force
      moreover have "orelse (declared (name_of v)) [] = v" using bound [OF v] n by simp
      ultimately show ?thesis by (force simp: vars_def)
    next
      case False
      with v show ?thesis by (force simp: vars_def dest: map_of_SomeD)
    qed
  qed
qed

section \<open>Properties\<close>

text \<open>A recording is saved with no password in it: each password Step refers to a secret
  Variable of the document that is bound to the Secret chosen for the Step, by exactly one
  reference, every other Step is as it was recorded, the Variables the Workflow had keep their
  names and places, and no name is declared twice.\<close>

theorem recording_is_bound:
  assumes "bind_secret_steps steps bindings variables = Inr doc"
  shows "list_all2 (\<lambda>step saved.
      if rd_needs_secret step
      then \<exists>name secret. \<exists>v \<in> set (dm_variables doc).
        binding_of (bindings_by_step bindings) step = Some (name, secret) \<and> saved = referring step name \<and>
        names_in (the_text (field (rd_payload saved) ''value'')) = [name] \<and>
        name_of v = Str name \<and> field v ''secret'' = Bool True \<and> field v ''secretId'' = Str (fst secret)
      else saved = step) steps (dm_steps doc) \<and>
    map name_of (take (length variables) (dm_variables doc)) = map name_of variables \<and>
    (distinct (map name_of variables) \<longrightarrow> distinct (map name_of (dm_variables doc)))"
proof -
  let ?by = "bindings_by_step bindings"
  from assms obtain declared bound where
    run: "bind_steps ?by (declared_map variables) [] steps = Inr (dm_steps doc, declared, bound)"
    and vars: "dm_variables doc = map (\<lambda>v. orelse (declared (name_of v)) []) variables @
        filter (\<lambda>v. name_of v \<notin> name_of ` set variables) (map snd bound)"
    by (auto simp: bind_secret_steps_def split: sum.splits)
  note done_all = bind_steps_bound [OF run maps_agree_start]
  then have agree: "maps_agree declared bound" by blast
  have rest: "\<forall>k. (\<forall>n. k = Str n \<longrightarrow> map_of bound n = None) \<longrightarrow> declared k = declared_map variables k"
    using done_all by blast
  note parts = bound_variables [OF agree rest, folded vars]
  have "if rd_needs_secret step
      then \<exists>name secret. \<exists>v \<in> set (dm_variables doc).
        binding_of ?by step = Some (name, secret) \<and> saved = referring step name \<and>
        names_in (the_text (field (rd_payload saved) ''value'')) = [name] \<and>
        name_of v = Str name \<and> field v ''secret'' = Bool True \<and> field v ''secretId'' = Str (fst secret)
      else saved = step" if "bound_as ?by bound step saved" for step saved
  proof (cases "rd_needs_secret step")
    case True
    with that obtain name secret v where b: "binding_of ?by step = Some (name, secret)"
      "saved = referring step name" "map_of bound name = Some v" "field v ''secretId'' = Str (fst secret)"
      unfolding bound_as_def by auto
    have "variable_name name" using b(1) by (auto simp: binding_of_def split: option.splits if_splits)
    from names_in_reference [OF this, of "[]" "[]"] have "names_in (reference_text name) = [name]" by simp
    then have "names_in (the_text (field (rd_payload saved) ''value'')) = [name]" by (simp add: b(2) referring_def)
    moreover have "field v ''secret'' = Bool True" using agree b(3) by (simp add: maps_agree_def)
    ultimately show ?thesis using True b parts(3) [OF b(3)] by auto
  qed (use that in \<open>simp add: bound_as_def\<close>)
  with done_all parts(1,2) show ?thesis by (blast intro: list_all2_mono)
qed

definition password_step :: "string \<Rightarrow> recorded_step" where
  "password_step ident =
     \<lparr>rd_id = ident, rd_type = ''type'', rd_label = ''Type into Password'', rd_payload = [(''value'', Str [])],
      rd_needs_secret = True\<rparr>"

definition password_binding :: binding where
  "password_binding =
     \<lparr>bi_step_id = ''p1'', bi_name = Some '' pass '', bi_secret = Some (Str ''s7'', Str ''Mail'')\<rparr>"

theorem recording_is_bound_witness:
  "\<exists>doc. bind_secret_steps [password_step ''p1''] [password_binding] [[(''name'', Str ''city'')]] = Inr doc \<and>
     map name_of (take 1 (dm_variables doc)) = [Str ''city''] \<and> distinct (map name_of (dm_variables doc))"
proof -
  obtain doc where doc: "bind_secret_steps [password_step ''p1''] [password_binding] [[(''name'', Str ''city'')]] = Inr doc"
    by (cases "bind_secret_steps [password_step ''p1''] [password_binding] [[(''name'', Str ''city'')]]") (code_simp, simp)
  show ?thesis using recording_is_bound [OF doc] doc by (auto simp: name_of_def field_def)
qed

text \<open>A recording can be saved exactly when every password Step is bound to a Variable with a valid
  name and to a chosen Secret, none of those Variables is declared as plain, and no Variable
  stands for two Secrets.\<close>

theorem recording_binds_iff:
  "(\<exists>doc. bind_secret_steps steps bindings variables = Inr doc) =
   bindings_fit (bindings_by_step bindings) (declared_map variables) [] steps"
proof -
  have "(\<exists>doc. bind_secret_steps steps bindings variables = Inr doc) \<longleftrightarrow>
      (\<exists>r. bind_steps (bindings_by_step bindings) (declared_map variables) [] steps = Inr r)"
    by (auto simp: bind_secret_steps_def split: sum.splits)
  then show ?thesis by (simp only: bind_steps_fit)
qed

end
