(* ===== verification/RecordingWorker.thy ===== *)
theory RecordingWorker
  imports Recording
begin

text \<open>
  The recording that the browser extension keeps (\<open>apps/extension/src/service-worker.js\<close>): the
  page that asks for it, its start, the Steps that are assembled from what the page reports,
  the navigations and downloads, its end, and what saving it sends. The answers of the browser
  and of the API are inputs; a fresh id is an argument.

  A handler reads the stored recording, waits, and writes back what it made of its copy. A body
  here is that function from the copy to what is written (\<open>None\<close> is a recording that is removed)
  with the effects in their order; the last section interleaves bodies.
\<close>

section \<open>State\<close>

datatype recording_state = Pending_recording | Recording_now | Ended_recording

datatype recording_mode = Record_mode | Repick_mode string

record active_recording =
  ac_state :: recording_state
  ac_mode :: recording_mode
  ac_app_tab :: "int option"
  ac_tab :: "int option"
  ac_session :: string
  ac_token :: string
  ac_origin :: string
  ac_workflow_id :: string
  ac_workflow_name :: string
  ac_variables :: "js list"
  ac_secrets :: "js list"
  ac_steps :: "recorded_step list"
  ac_hosts :: "string list"
  ac_storage :: "(string \<times> js \<times> js) list"
  ac_choices :: "capture_choice list"
  ac_seq :: nat
  ac_routed_at :: "int option"
  ac_click :: "(string \<times> int) option"
  ac_expired :: bool
  ac_ended :: "(string \<times> string) option"

datatype recorder_effect =
    Send_checkpoint nat "recorded_step list"
  | Attach_debugger int
  | Detach_debugger int
  | Inject_recorder int
  | Warn_page int string
  | Broadcast string string fields

definition accessibility_wait_ms :: int where
  "accessibility_wait_ms = 750"

definition download_window_ms :: int where
  "download_window_ms = 5000"

definition routed_claim_ms :: int where
  "routed_claim_ms = 700"

definition intent_lifetime_ms :: int where
  "intent_lifetime_ms = 2 * 60 * 1000"

definition fragile_target_warning :: string where
  "fragile_target_warning =
     ''Only where this element sits on the page could be recorded. A layout change will lose it. The step was recorded anyway.''"

section \<open>The page asks for a recording\<close>

definition pending_recording :: "accepted_recording \<Rightarrow> pending_mode \<Rightarrow> int option \<Rightarrow> active_recording" where
  "pending_recording p mode app_tab =
     \<lparr>ac_state = Pending_recording,
      ac_mode = (case mode of To_repick step_id \<Rightarrow> Repick_mode step_id | To_record _ _ \<Rightarrow> Record_mode),
      ac_app_tab = app_tab, ac_tab = None, ac_session = pe_session_id p, ac_token = pe_token p,
      ac_origin = pe_backend_origin p, ac_workflow_id = pe_workflow_id p,
      ac_workflow_name = pe_workflow_name p,
      ac_variables = (case mode of To_record variables _ \<Rightarrow> variables | To_repick _ \<Rightarrow> []),
      ac_secrets = (case mode of To_record _ secrets \<Rightarrow> secrets | To_repick _ \<Rightarrow> []),
      ac_steps = [], ac_hosts = [], ac_storage = [], ac_choices = [], ac_seq = 0, ac_routed_at = None,
      ac_click = None, ac_expired = False, ac_ended = None\<rparr>"

datatype page_reply =
    Page_ignored
  | Page_refused "string option"
  | Pending_accepted string
  | Token_accepted
  | Token_is_expired string
  | Nothing_expired

definition from_connected_page :: "string option \<Rightarrow> string \<Rightarrow> sender \<Rightarrow> bool" where
  "from_connected_page held extension_id s \<longleftrightarrow>
     held \<noteq> None \<and> sn_id s = Some extension_id \<and> sn_frame s = Some 0 \<and> sn_origin s = held"

definition accept_pending :: "string \<Rightarrow> sender \<Rightarrow> js \<Rightarrow> active_recording option \<Rightarrow>
    page_reply \<times> active_recording option" where
  "accept_pending held s message current =
     (case current of
        Some a \<Rightarrow>
          if ac_state a \<noteq> Pending_recording then (Page_refused (Some ''recording-in-progress''), current)
          else (case read_pending_recording message of
            None \<Rightarrow> (Page_refused None, current)
          | Some (p, mode) \<Rightarrow>
              if pe_backend_origin p \<noteq> held then (Page_refused None, current)
              else (Pending_accepted (pe_session_id p), Some (pending_recording p mode (sn_tab s))))
      | None \<Rightarrow>
          (case read_pending_recording message of
            None \<Rightarrow> (Page_refused None, current)
          | Some (p, mode) \<Rightarrow>
              if pe_backend_origin p \<noteq> held then (Page_refused None, current)
              else (Pending_accepted (pe_session_id p), Some (pending_recording p mode (sn_tab s)))))"

definition renew_token :: "js \<Rightarrow> active_recording option \<Rightarrow>
    page_reply \<times> active_recording option \<times> recorder_effect list" where
  "renew_token message current =
     (case current of
        None \<Rightarrow> (Page_refused None, current, [])
      | Some a \<Rightarrow>
          if attr message ''sessionId'' \<noteq> Str (ac_session a) \<or> \<not> is_string (attr message ''token'')
          then (Page_refused None, current, [])
          else
            (Token_accepted, Some (a\<lparr>ac_token := the_text (attr message ''token''), ac_expired := False\<rparr>),
             if 0 < ac_seq a then [Send_checkpoint (ac_seq a) (ac_steps a)] else []))"

definition accept_recording_page_message ::
    "string option \<Rightarrow> string \<Rightarrow> sender \<Rightarrow> js \<Rightarrow> active_recording option \<Rightarrow>
     page_reply \<times> active_recording option \<times> recorder_effect list" where
  "accept_recording_page_message held extension_id s message current =
     (if \<not> from_connected_page held extension_id s then (Page_ignored, current, [])
      else if attr message ''type'' = Str ''recording-status'' then
        ((case current of
            Some a \<Rightarrow> if ac_expired a then Token_is_expired (ac_session a) else Nothing_expired
          | None \<Rightarrow> Nothing_expired), current, [])
      else if attr message ''type'' = Str ''recording-pending'' then
        (let (reply, next) = accept_pending (orelse held []) s message current in (reply, next, []))
      else if attr message ''type'' = Str ''recording-token'' then renew_token message current
      else (Page_ignored, current, []))"

section \<open>The start\<close>

record start_intent =
  si_tab :: int
  si_url :: string
  si_announced :: int

definition announce_recording_start :: "js \<Rightarrow> int \<Rightarrow> start_intent option" where
  "announce_recording_start message now =
     (case (attr message ''targetTabId'', attr message ''targetUrl'') of
        (Number (Num tab), Str url) \<Rightarrow> Some \<lparr>si_tab = tab, si_url = url, si_announced = now\<rparr>
      | _ \<Rightarrow> None)"

text \<open>The intent that is taken, and the one that is left. \<open>origins\<close> are the grants, if a grant is the cause.\<close>

definition take_recording_intent ::
    "url_parser \<Rightarrow> int \<Rightarrow> string list option \<Rightarrow> start_intent option \<Rightarrow> start_intent option \<times> start_intent option" where
  "take_recording_intent parse now origins stored =
     (case stored of
        None \<Rightarrow> (None, None)
      | Some intent \<Rightarrow>
          if intent_lifetime_ms < now - si_announced intent then (None, None)
          else (case parse (si_url intent) of
            None \<Rightarrow> (None, stored)
          | Some u \<Rightarrow>
              if (case origins of None \<Rightarrow> False | Some granted \<Rightarrow> origin_pattern (ur_origin u) \<notin> set granted)
              then (None, stored) else (Some intent, None)))"

datatype start_refusal = No_pending_recording | Wrong_instance | Target_gone | Instance_tab | Not_permitted

text \<open>\<open>tab_url\<close> is the address the browser gives for the tab now, \<open>permitted\<close> its answer for the origin.\<close>

definition start_recording ::
    "url_parser \<Rightarrow> string \<Rightarrow> string option \<Rightarrow> string option \<Rightarrow> bool \<Rightarrow> start_intent \<Rightarrow> active_recording option \<Rightarrow>
     start_refusal + active_recording \<times> recorder_effect list" where
  "start_recording parse fresh held tab_url permitted intent current =
     (case current of
        None \<Rightarrow> Inl No_pending_recording
      | Some a \<Rightarrow>
          if ac_state a \<noteq> Pending_recording then Inl No_pending_recording
          else if held \<noteq> Some (ac_origin a) then Inl Wrong_instance
          else if tab_url \<noteq> Some (si_url intent) then Inl Target_gone
          else if ac_app_tab a = Some (si_tab intent) then Inl Instance_tab
          else if \<not> permitted then Inl Not_permitted
          else Inr (a\<lparr>ac_tab := Some (si_tab intent), ac_state := Recording_now,
              ac_hosts := [case parse (si_url intent) of None \<Rightarrow> [] | Some u \<Rightarrow> ur_hostname u],
              ac_steps := (if ac_mode a = Record_mode then [navigate_step parse fresh (si_url intent)] else ac_steps a)\<rparr>,
            [Attach_debugger (si_tab intent), Inject_recorder (si_tab intent)]))"

section \<open>What the page reports\<close>

definition accept_recorder_message :: "string \<Rightarrow> sender \<Rightarrow> js \<Rightarrow> active_recording option \<Rightarrow> bool" where
  "accept_recorder_message extension_id s message current \<longleftrightarrow>
     (case current of
        None \<Rightarrow> False
      | Some a \<Rightarrow>
          ac_state a = Recording_now \<and> sn_id s = Some extension_id \<and> sn_tab s = ac_tab a \<and>
          sn_frame s \<noteq> None \<and> is_string (attr message ''correlation'') \<and> is_string (attr message ''pageLoad'') \<and>
          prefix (the_text (attr message ''pageLoad'') @ '':'') (the_text (attr message ''correlation'')))"

text \<open>The role that the accessibility tree gave, and the reason it found the target sealed off.\<close>

record prefetched =
  pf_role :: "js option"
  pf_unsupported :: "js option"

text \<open>
  \<open>queryAccessibility\<close>: the role candidate of the element of a correlation, from the answers of the debugger, each
  \<open>None\<close> when the command fails: whether the element is found, the kinds of its shadow
  roots, the role and name of its first node that counts, and how many nodes have both.
\<close>

definition closed_shadow_warning :: string where
  "closed_shadow_warning =
     ''This part of the page is sealed off, so the workflow may not be able to use it later. The step was recorded anyway.''"

definition sealed_off :: js where
  "sealed_off = Obj [(''reason'', Str ''closed-shadow-root''), (''warning'', Str closed_shadow_warning)]"

definition role_candidate :: "string \<Rightarrow> string \<Rightarrow> js" where
  "role_candidate role name =
     Obj [(''kind'', Str ''role''), (''value'', Str (role @ ''[name='' @ orelse (stringify (Str name)) [] @ '']''))]"

definition query_accessibility ::
    "int \<Rightarrow> bool option \<Rightarrow> string list option \<Rightarrow> (js \<times> js) option \<Rightarrow> nat option \<Rightarrow>
     prefetched option \<times> recorder_effect list" where
  "query_accessibility tab found roots node matches =
     (if found \<noteq> Some True then (None, [])
      else case roots of
        None \<Rightarrow> (None, [])
      | Some kinds \<Rightarrow>
          (let sealed = (if ''closed'' \<in> set kinds then Some sealed_off else None);
               warned = (if ''closed'' \<in> set kinds then [Warn_page tab closed_shadow_warning] else [])
           in (case node of
                 None \<Rightarrow> None
               | Some (Str role, Str name) \<Rightarrow>
                   if trim name = [] then Some \<lparr>pf_role = None, pf_unsupported = sealed\<rparr>
                   else (case matches of
                     None \<Rightarrow> None
                   | Some n \<Rightarrow>
                       Some \<lparr>pf_role = (if n = 1 then Some (role_candidate role name) else None), pf_unsupported = sealed\<rparr>)
               | Some _ \<Rightarrow> Some \<lparr>pf_role = None, pf_unsupported = sealed\<rparr>, warned)))"

text \<open>\<open>armExtract\<close>: what the recorded page is armed with, when the popup asks for it.\<close>

definition arm_extract :: "js \<Rightarrow> active_recording option \<Rightarrow> fields option" where
  "arm_extract message current =
     (if current = None \<or> attr message ''mode'' \<notin> {Str ''scalar'', Str ''list''} then None
      else case attr message ''outputName'' of
        Str name \<Rightarrow>
          if trim name = [] then None
          else Some ([(''outputName'', Str name), (''mode'', attr message ''mode'')] @
            (if is_string (attr message ''attribute'') then [(''attribute'', attr message ''attribute'')] else []) @
            (if attr message ''mode'' = Str ''list'' \<and> is_array (attr message ''fields'')
             then [(''fields'', attr message ''fields'')] else []))
      | _ \<Rightarrow> None)"

definition all_candidates :: "js \<Rightarrow> prefetched option \<Rightarrow> js list" where
  "all_candidates message found =
     (let candidates = the_array (attr message ''candidates'') in
      case Option.bind found pf_role of
        None \<Rightarrow> candidates
      | Some role \<Rightarrow>
          (case candidates of
             [] \<Rightarrow> [role]
           | c # cs \<Rightarrow> if attr c ''kind'' = Str ''testid'' then c # role # cs else role # c # cs))"

fun nullish :: "js \<Rightarrow> bool" where
  "nullish Undefined = True"
| "nullish Null = True"
| "nullish _ = False"

definition unsupported_of :: "js \<Rightarrow> prefetched option \<Rightarrow> js option" where
  "unsupported_of message found =
     (if \<not> nullish (attr message ''unsupported'') then Some (attr message ''unsupported'')
      else Option.bind found pf_unsupported)"

definition step_label :: "js \<Rightarrow> string" where
  "step_label message =
     (let description = (case attr message ''description'' of Str s \<Rightarrow> if s = [] then ''element'' else s | _ \<Rightarrow> ''element'')
      in (if attr message ''event'' = Str ''type'' then ''Type into ''
          else if attr message ''event'' = Str ''select'' then ''Select ''
          else if attr message ''event'' = Str ''extract'' then ''Extract ''
          else ''Click '') @ description)"

definition spread :: "fields \<Rightarrow> fields \<Rightarrow> fields" where
  "spread ob extra = foldl (\<lambda>acc (k, v). with_key k v acc) ob extra"

definition step_payload_of :: "js \<Rightarrow> js list \<Rightarrow> js option \<Rightarrow> fields" where
  "step_payload_of message candidates unsupported =
     (let target = [(''candidates'', Arr candidates)] @
            (case unsupported of None \<Rightarrow> [] | Some u \<Rightarrow> [(''unsupported'', u)]);
          base = [(''target'', Obj target)] @
            (if attr message ''event'' \<in> {Str ''type'', Str ''select''}
             then [(''value'', if nullish (attr message ''value'') then Str [] else attr message ''value'')] else [])
      in case attr message ''extract'' of
           Obj extract \<Rightarrow> if attr message ''event'' = Str ''extract'' then spread base extract else base
         | _ \<Rightarrow> base)"

definition assembled_step :: "string \<Rightarrow> js \<Rightarrow> prefetched option \<Rightarrow> recorded_step" where
  "assembled_step fresh message found =
     \<lparr>rd_id = fresh, rd_type = the_text (attr message ''event''), rd_label = step_label message,
      rd_payload = step_payload_of message (all_candidates message found) (unsupported_of message found),
      rd_needs_secret = (attr message ''needsSecret'' = Bool True)\<rparr>"

definition asserting :: "recorded_step \<Rightarrow> recorded_step" where
  "asserting step = step\<lparr>rd_payload := with_key ''assertedNavigation'' (Bool True) (rd_payload step)\<rparr>"

definition last_type :: "recorded_step list \<Rightarrow> string option" where
  "last_type steps = (if steps = [] then None else Some (rd_type (last steps)))"

definition checkpoint :: "active_recording \<Rightarrow> active_recording \<times> recorder_effect list" where
  "checkpoint a = (let a' = a\<lparr>ac_seq := Suc (ac_seq a)\<rparr> in (a', [Send_checkpoint (ac_seq a') (ac_steps a')]))"

text \<open>Whether the interaction takes the place of the routing that was recorded just before it.\<close>

definition claims_routing :: "active_recording \<Rightarrow> int \<Rightarrow> js \<Rightarrow> bool" where
  "claims_routing a now message \<longleftrightarrow>
     attr message ''event'' = Str ''click'' \<and>
     (case ac_routed_at a of None \<Rightarrow> False | Some routed \<Rightarrow> now - routed < routed_claim_ms) \<and>
     last_type (ac_steps a) = Some ''navigate''"

definition with_interaction :: "string \<Rightarrow> int \<Rightarrow> js \<Rightarrow> prefetched option \<Rightarrow> active_recording \<Rightarrow> active_recording" where
  "with_interaction fresh now message found a =
     (let step = assembled_step fresh message found;
          steps = (if claims_routing a now message then butlast (ac_steps a) @ [asserting step]
                   else ac_steps a @ [step])
      in a\<lparr>ac_steps := steps, ac_routed_at := None,
           ac_click := (if attr message ''event'' = Str ''click'' then Some (fresh, now) else ac_click a)\<rparr>)"

text \<open>The picked candidates are told to the page that asked, before the recording is removed.\<close>

definition complete_repick :: "int \<Rightarrow> string \<Rightarrow> js list \<Rightarrow> active_recording \<Rightarrow> recorder_effect list" where
  "complete_repick tab step_id candidates a =
     [Broadcast ''repick-candidates'' (ac_session a) [(''stepId'', Str step_id), (''candidates'', Arr candidates)],
      Detach_debugger tab]"

definition assemble_interaction ::
    "int \<Rightarrow> string \<Rightarrow> int \<Rightarrow> js \<Rightarrow> prefetched option \<Rightarrow> active_recording \<Rightarrow>
     active_recording option \<times> recorder_effect list" where
  "assemble_interaction tab fresh now message found a =
     (if ac_tab a \<noteq> Some tab then (Some a, [])
      else
        (let candidates = all_candidates message found;
             warned = (if unsupported_of message found = None \<and> fragile candidates
                       then [Warn_page tab fragile_target_warning] else []) in
         case ac_mode a of
           Repick_mode step_id \<Rightarrow> (None, warned @ complete_repick tab step_id candidates a)
         | Record_mode \<Rightarrow>
             (let (a', sent) = checkpoint (with_interaction fresh now message found a)
              in (Some a', warned @ sent))))"

section \<open>Navigations, downloads, hosts\<close>

definition record_navigation ::
    "url_parser \<Rightarrow> string \<Rightarrow> int \<Rightarrow> int \<Rightarrow> string \<Rightarrow> string \<Rightarrow> bool \<Rightarrow> active_recording \<Rightarrow>
     active_recording \<times> recorder_effect list" where
  "record_navigation parse fresh now tab url transition_type routed a =
     (if ac_tab a \<noteq> Some tab then (a, [])
      else case ac_mode a of
        Repick_mode _ \<Rightarrow> (a, [Inject_recorder tab])
      | Record_mode \<Rightarrow>
          (let moved =
             (if last_type (ac_steps a) = Some ''click'' \<and> transition_type \<in> {''link'', ''form_submit''}
              then a\<lparr>ac_steps := butlast (ac_steps a) @ [asserting (last (ac_steps a))], ac_routed_at := None\<rparr>
              else a\<lparr>ac_steps := ac_steps a @ [navigate_step parse fresh url],
                     ac_routed_at := (if routed then Some now else None)\<rparr>);
             (a', sent) = checkpoint moved
           in (a', sent @ [Inject_recorder tab])))"

definition as_download :: "recorded_step \<Rightarrow> recorded_step" where
  "as_download step =
     step\<lparr>rd_type := ''download'',
       rd_label := (if prefix ''Click '' (rd_label step) then ''Download '' @ drop 6 (rd_label step) else rd_label step),
       rd_payload := [(''target'', field (rd_payload step) ''target'')]\<rparr>"

definition record_recent_click_as_download ::
    "int \<Rightarrow> active_recording \<Rightarrow> active_recording \<times> recorder_effect list" where
  "record_recent_click_as_download now a =
     (case ac_click a of
        None \<Rightarrow> (a, [])
      | Some (ident, clicked) \<Rightarrow>
          if ac_state a \<noteq> Recording_now \<or> download_window_ms < now - clicked then (a, [])
          else (case find (\<lambda>s. rd_id s = ident) (ac_steps a) of
            None \<Rightarrow> (a, [])
          | Some step \<Rightarrow>
              if rd_type step \<noteq> ''click'' then (a, [])
              else checkpoint (a\<lparr>ac_steps := list_update (ac_steps a)
                  (nat (find_index (\<lambda>s. rd_id s = ident) (ac_steps a))) (as_download step), ac_click := None\<rparr>)))"

definition add_host :: "string \<Rightarrow> string list \<Rightarrow> string list" where
  "add_host host hosts = (if host \<in> set hosts then hosts else hosts @ [host])"

definition remember_visited_host :: "url_parser \<Rightarrow> int \<Rightarrow> string \<Rightarrow> active_recording \<Rightarrow> active_recording" where
  "remember_visited_host parse tab url a =
     (if ac_tab a \<noteq> Some tab \<or> \<not> prefix ''http'' url then a
      else case parse url of None \<Rightarrow> a | Some u \<Rightarrow> a\<lparr>ac_hosts := add_host (ur_hostname u) (ac_hosts a)\<rparr>)"

text \<open>What the frames of the page answered: their origin, local and session storage.\<close>

definition keep_snapshot :: "url_parser \<Rightarrow> active_recording \<Rightarrow> string \<times> js \<times> js \<Rightarrow> active_recording" where
  "keep_snapshot parse a snapshot =
     (let (origin, local, session) = snapshot in
      if \<not> prefix ''http'' origin then a
      else let a' = a\<lparr>ac_storage := with_key origin
               (if nullish local then Arr [] else local, if nullish session then Arr [] else session) (ac_storage a)\<rparr>
           in case parse origin of None \<Rightarrow> a' | Some u \<Rightarrow> a'\<lparr>ac_hosts := add_host (ur_hostname u) (ac_hosts a')\<rparr>)"

definition capture_open_frame_storage ::
    "url_parser \<Rightarrow> (string \<times> js \<times> js) list \<Rightarrow> active_recording \<Rightarrow> active_recording" where
  "capture_open_frame_storage parse snapshots a =
     (if ac_state a \<noteq> Recording_now \<or> ac_tab a = None then a
      else foldl (keep_snapshot parse) a snapshots)"

section \<open>The end\<close>

text \<open>What the API answers to a request, if it can be reached.\<close>

datatype 'a api_answer = Unreachable | Unauthorized | Refused int "string option" | Answered 'a

definition mark_token_expired :: "active_recording \<Rightarrow> active_recording \<times> recorder_effect list" where
  "mark_token_expired a = (a\<lparr>ac_expired := True\<rparr>, [Broadcast ''recording-token-expired'' (ac_session a) []])"

text \<open>The logins the API offers to keep, for the hosts that were visited.\<close>

definition load_auth_choices ::
    "(string \<times> string option \<times> string option) list api_answer \<Rightarrow> active_recording \<Rightarrow>
     capture_choice list \<times> active_recording \<times> recorder_effect list" where
  "load_auth_choices answer a =
     (if ac_hosts a = [] then ([], a, [])
      else case answer of
        Unauthorized \<Rightarrow> (let (a', sent) = mark_token_expired a in ([], a', sent))
      | Answered options \<Rightarrow> (capture_choices options, a, [])
      | _ \<Rightarrow> ([], a, []))"

definition end_recording ::
    "string \<Rightarrow> string \<Rightarrow> (string \<times> string option \<times> string option) list api_answer \<Rightarrow> active_recording \<Rightarrow>
     active_recording \<times> recorder_effect list" where
  "end_recording reason ended_at answer a =
     (let (choices, a', sent) = load_auth_choices answer a
      in (a'\<lparr>ac_choices := choices, ac_state := Ended_recording, ac_ended := Some (reason, ended_at)\<rparr>, sent))"

definition detach_effects :: "active_recording \<Rightarrow> recorder_effect list" where
  "detach_effects a = (case ac_tab a of None \<Rightarrow> [] | Some tab \<Rightarrow> [Detach_debugger tab])"

text \<open>The copy is the one that is read after the storage of the frames was captured.\<close>

definition stop_recording ::
    "string \<Rightarrow> (string \<times> string option \<times> string option) list api_answer \<Rightarrow> active_recording \<Rightarrow>
     active_recording option \<times> recorder_effect list" where
  "stop_recording ended_at answer a =
     (case ac_mode a of
        Repick_mode _ \<Rightarrow> (None, if ac_state a = Recording_now then detach_effects a else [])
      | Record_mode \<Rightarrow>
          if ac_state a = Recording_now
          then (let (a', sent) = end_recording ''stopped'' ended_at answer a in (Some a', sent @ detach_effects a))
          else (Some a, []))"

definition discard_recording :: "active_recording \<Rightarrow> active_recording option \<times> recorder_effect list" where
  "discard_recording a = (None, if ac_state a = Recording_now then detach_effects a else [])"

definition end_recording_after_detach ::
    "int \<Rightarrow> string \<Rightarrow> (string \<times> string option \<times> string option) list api_answer \<Rightarrow> active_recording \<Rightarrow>
     active_recording option \<times> recorder_effect list" where
  "end_recording_after_detach tab ended_at answer a =
     (if ac_tab a \<noteq> Some tab \<or> ac_state a \<noteq> Recording_now then (Some a, [])
      else case ac_mode a of
        Repick_mode _ \<Rightarrow> (None, [])
      | Record_mode \<Rightarrow>
          (let (a', sent) = end_recording ''debugger-detached'' ended_at answer a in (Some a', sent)))"

section \<open>Saving\<close>

datatype save_refusal =
    Not_ended | Cannot_reach | Token_has_expired | Save_refused | Name_is_taken | Needs_secret string | Login_not_permitted

text \<open>A binding as the popup asks for it, with the Secret to create when it names none.\<close>

record asked_binding =
  ab_binding :: binding
  ab_create :: "(string \<times> string) option"

definition refused_creation :: "int \<Rightarrow> string option \<Rightarrow> save_refusal" where
  "refused_creation status said =
     (if status = 409 \<and> said = Some ''name_taken'' then Name_is_taken else Save_refused)"

text \<open>\<open>create\<close> is the answer to the creation of a Secret of a name and a value: its id and name.\<close>

fun resolve_recording_secrets ::
    "(string \<Rightarrow> string \<Rightarrow> (js \<times> js) api_answer) \<Rightarrow> asked_binding list \<Rightarrow> save_refusal + binding list" where
  "resolve_recording_secrets create [] = Inr []"
| "resolve_recording_secrets create (asked # rest) =
     (case (bi_secret (ab_binding asked), ab_create asked) of
        (Some (Str _, _), _) \<Rightarrow> map_sum id ((#) (ab_binding asked)) (resolve_recording_secrets create rest)
      | (_, None) \<Rightarrow> map_sum id ((#) (ab_binding asked)) (resolve_recording_secrets create rest)
      | (_, Some (name, val)) \<Rightarrow>
          (case create name val of
             Unreachable \<Rightarrow> Inl Cannot_reach
           | Unauthorized \<Rightarrow> Inl Token_has_expired
           | Refused status said \<Rightarrow> Inl (refused_creation status said)
           | Answered secret \<Rightarrow>
               map_sum id ((#) ((ab_binding asked)\<lparr>bi_secret := Some secret\<rparr>)) (resolve_recording_secrets create rest)))"

record login_capture =
  lc_domain :: string
  lc_personal :: bool
  lc_cookies :: "fields list"
  lc_origins :: "(string \<times> js) list"
  lc_session_storage :: "(string \<times> js) list"

text \<open>The cookies of the browser, for a domain and for an origin.\<close>

definition login_capture_of ::
    "url_parser \<Rightarrow> (string \<Rightarrow> fields list) \<Rightarrow> (string \<Rightarrow> fields list) \<Rightarrow> active_recording \<Rightarrow> capture_choice \<Rightarrow>
     login_capture" where
  "login_capture_of parse domain_cookies origin_cookies a choice =
     (let origins = filter (\<lambda>(origin, _). belongs_to_domain parse origin (ch_domain choice)) (ac_storage a);
          cookies = distinct_cookies (domain_cookies (ch_domain choice) @
            concat (map (\<lambda>(origin, _). origin_cookies origin) origins))
      in \<lparr>lc_domain = ch_domain choice, lc_personal = ch_personal choice,
          lc_cookies = map chrome_cookie cookies,
          lc_origins = map (\<lambda>(origin, local, _). (origin, local)) origins,
          lc_session_storage = map (\<lambda>(origin, _, session). (origin, session)) origins\<rparr>)"

definition upload_auth_states ::
    "(string \<Rightarrow> bool) \<Rightarrow> (capture_choice \<Rightarrow> login_capture) \<Rightarrow> (login_capture list \<Rightarrow> unit api_answer) \<Rightarrow>
     capture_choice list \<Rightarrow> save_refusal option" where
  "upload_auth_states permitted capture upload selected =
     (if list_ex (\<lambda>choice. \<not> permitted (site_pattern (ch_domain choice))) selected then Some Login_not_permitted
      else case upload (map capture selected) of
        Unreachable \<Rightarrow> Some Cannot_reach
      | Unauthorized \<Rightarrow> Some Token_has_expired
      | Refused _ _ \<Rightarrow> Some Save_refused
      | Answered _ \<Rightarrow> None)"

definition fields_of_js :: "js \<Rightarrow> fields" where
  "fields_of_js v = (case v of Obj ob \<Rightarrow> ob | _ \<Rightarrow> [])"

text \<open>A refusal: the token of the recording is marked when that is the reason.\<close>

definition refuse_save ::
    "save_refusal \<Rightarrow> active_recording \<Rightarrow> save_refusal option \<times> active_recording option \<times> recorder_effect list" where
  "refuse_save refusal a =
     (if refusal = Token_has_expired
      then (let (a', sent) = mark_token_expired a in (Some refusal, Some a', sent))
      else (Some refusal, Some a, []))"

text \<open>
  The whole of a save: the refusal, if it fails, the recording that is kept, and what is
  broadcast. \<open>finalize\<close> is the answer to the document that is sent.
\<close>

definition finalize_recording ::
    "(string \<Rightarrow> string \<Rightarrow> (js \<times> js) api_answer) \<Rightarrow> (capture_choice list \<Rightarrow> save_refusal option) \<Rightarrow>
     (recorded_document \<Rightarrow> unit api_answer) \<Rightarrow> asked_binding list \<Rightarrow> capture_choice list \<Rightarrow> active_recording \<Rightarrow>
     save_refusal option \<times> active_recording option \<times> recorder_effect list" where
  "finalize_recording create upload finalize bindings selections a =
     (if ac_state a \<noteq> Ended_recording then (Some Not_ended, Some a, [])
      else case resolve_recording_secrets create bindings of
        Inl refusal \<Rightarrow> refuse_save refusal a
      | Inr resolved \<Rightarrow>
          (case bind_secret_steps (ac_steps a) resolved (map fields_of_js (ac_variables a)) of
             Inl message \<Rightarrow> refuse_save (Needs_secret message) a
           | Inr document \<Rightarrow>
               (let selected = filter ch_checked selections in
                case (if selected = [] then None else upload selected) of
                  Some refusal \<Rightarrow> refuse_save refusal a
                | None \<Rightarrow>
                    (case finalize document of
                       Unreachable \<Rightarrow> refuse_save Cannot_reach a
                     | Unauthorized \<Rightarrow> refuse_save Token_has_expired a
                     | Refused _ _ \<Rightarrow> refuse_save Save_refused a
                     | Answered _ \<Rightarrow> (None, None, [Broadcast ''recording-finished'' (ac_session a) []])))))"

section \<open>Interleaved handlers\<close>

text \<open>
  What a body may make of its copy. The ids of new Steps are fresh.
\<close>

inductive body :: "active_recording \<Rightarrow> active_recording option \<Rightarrow> bool" where
  renewed: "body a (fst (snd (renew_token message (Some a))))"
| started: "start_recording parse fresh held tab_url permitted intent (Some a) = Inr (a', sent) \<Longrightarrow> body a (Some a')"
| assembled: "fresh \<notin> rd_id ` set (ac_steps a) \<Longrightarrow> body a (fst (assemble_interaction tab fresh now message found a))"
| navigated: "fresh \<notin> rd_id ` set (ac_steps a) \<Longrightarrow>
    body a (Some (fst (record_navigation parse fresh now tab url transition_type routed a)))"
| downloaded: "body a (Some (fst (record_recent_click_as_download now a)))"
| visited: "body a (Some (remember_visited_host parse tab url a))"
| captured: "body a (Some (capture_open_frame_storage parse snapshots a))"
| stopped: "body a (fst (stop_recording ended_at answer a))"
| discarded: "body a (fst (discard_recording a))"
| detached: "body a (fst (end_recording_after_detach tab ended_at answer a))"
| marked: "body a (Some (fst (mark_token_expired a)))"
| saved: "body a (fst (snd (finalize_recording create upload finalize bindings selections a)))"

text \<open>
  The stored recording and the copies that handlers have read and not yet written. A handler
  may read at any moment and write its result at any later one, whatever was written between.
\<close>

inductive interleaved :: "active_recording option \<Rightarrow> active_recording list \<Rightarrow> bool" where
  empty: "interleaved None []"
| read: "interleaved (Some a) copies \<Longrightarrow> interleaved (Some a) (a # copies)"
| written: "interleaved stored copies \<Longrightarrow> a \<in> set copies \<Longrightarrow> body a result \<Longrightarrow>
    interleaved result (remove1 a copies)"
| asked: "interleaved stored copies \<Longrightarrow> current = None \<or> current \<in> Some ` set copies \<Longrightarrow>
    snd (accept_pending held s message current) = result \<Longrightarrow> interleaved result copies"

text \<open>
  What holds of every recording: one that records a Workflow opens the page it began on first, one
  that re-picks an element records no Step, a routing that waits to be claimed is the last
  Step and not the first, and no two Steps share an id.
\<close>

definition recording_ok :: "active_recording \<Rightarrow> bool" where
  "recording_ok a \<longleftrightarrow>
     (ac_state a = Pending_recording \<longrightarrow> ac_steps a = [] \<and> ac_tab a = None \<and> ac_routed_at a = None \<and> ac_click a = None) \<and>
     (ac_mode a = Record_mode \<and> ac_state a \<noteq> Pending_recording \<longrightarrow>
        ac_steps a \<noteq> [] \<and> rd_type (hd (ac_steps a)) = ''navigate'') \<and>
     (ac_mode a \<noteq> Record_mode \<longrightarrow> ac_steps a = []) \<and>
     (ac_routed_at a \<noteq> None \<longrightarrow> 2 \<le> length (ac_steps a) \<and> last_type (ac_steps a) = Some ''navigate'') \<and>
     distinct (map rd_id (ac_steps a))"

lemma recording_ok_pending: "recording_ok (pending_recording p mode tab)"
  by (simp add: recording_ok_def pending_recording_def)

lemma recording_ok_frame:
  assumes "recording_ok a" and "ac_steps a' = ac_steps a" and "ac_state a' = ac_state a" and "ac_mode a' = ac_mode a"
    and "ac_tab a' = ac_tab a" and "ac_routed_at a' = ac_routed_at a" and "ac_click a' = ac_click a"
  shows "recording_ok a'"
  using assms by (simp add: recording_ok_def)

lemma recording_ok_ended:
  assumes "recording_ok a" and "ac_state a = Recording_now"
    and "ac_steps a' = ac_steps a" and "ac_state a' = Ended_recording" and "ac_mode a' = ac_mode a"
    and "ac_routed_at a' = ac_routed_at a"
  shows "recording_ok a'"
  using assms by (simp add: recording_ok_def)

lemma end_recording_frame:
  "ac_steps (fst (end_recording reason ended_at answer a)) = ac_steps a"
  "ac_state (fst (end_recording reason ended_at answer a)) = Ended_recording"
  "ac_mode (fst (end_recording reason ended_at answer a)) = ac_mode a"
  "ac_routed_at (fst (end_recording reason ended_at answer a)) = ac_routed_at a"
  by (simp_all add: end_recording_def load_auth_choices_def mark_token_expired_def Let_def split: api_answer.split)

lemma end_recording_ok:
  "recording_ok a \<Longrightarrow> ac_state a = Recording_now \<Longrightarrow> recording_ok (fst (end_recording reason ended_at answer a))"
  by (erule recording_ok_ended) (simp_all add: end_recording_frame)

lemma asserting_simps [simp]: "rd_id (asserting s) = rd_id s" "rd_type (asserting s) = rd_type s"
  by (simp_all add: asserting_def)

lemma recording_ok_assembled:
  assumes ok: "recording_ok a" and tab: "ac_tab a = Some tab" and mode: "ac_mode a = Record_mode"
    and fresh: "fresh \<notin> rd_id ` set (ac_steps a)"
  shows "recording_ok (with_interaction fresh now message found a)"
proof -
  have state: "ac_state a \<noteq> Pending_recording" using ok tab by (auto simp: recording_ok_def)
  with ok mode have steps: "ac_steps a \<noteq> []" "rd_type (hd (ac_steps a)) = ''navigate''" "distinct (map rd_id (ac_steps a))"
    by (simp_all add: recording_ok_def)
  have step: "rd_id (assembled_step fresh message found) = fresh" by (simp add: assembled_step_def)
  show ?thesis
  proof (cases "claims_routing a now message")
    case True
    then have "2 \<le> length (ac_steps a)"
      using ok by (auto simp: claims_routing_def recording_ok_def split: option.splits)
    then obtain x y ys where xs: "ac_steps a = x # y # ys" by (cases "ac_steps a"; cases "tl (ac_steps a)") auto
    then have "butlast (ac_steps a) \<noteq> []" "hd (butlast (ac_steps a)) = x" by simp_all
    moreover have "distinct (map rd_id (butlast (ac_steps a)))"
      using steps(3) by (simp add: map_butlast distinct_butlast)
    moreover have "fresh \<notin> rd_id ` set (butlast (ac_steps a))" using fresh by (auto dest: in_set_butlastD)
    ultimately show ?thesis
      using True state mode steps(2) xs step
      by (simp add: recording_ok_def with_interaction_def Let_def) blast
  next
    case False
    then show ?thesis
      using state mode steps fresh step by (simp add: recording_ok_def with_interaction_def Let_def)
  qed
qed

lemma recording_ok_checkpoint: "recording_ok a \<Longrightarrow> recording_ok (fst (checkpoint a))"
  by (rule recording_ok_frame) (simp_all add: checkpoint_def Let_def)

lemma recording_ok_navigated:
  assumes ok: "recording_ok a" and fresh: "fresh \<notin> rd_id ` set (ac_steps a)"
  shows "recording_ok (fst (record_navigation parse fresh now tab url transition_type routed a))"
proof (cases "ac_tab a = Some tab \<and> ac_mode a = Record_mode")
  case False
  then have "fst (record_navigation parse fresh now tab url transition_type routed a) = a"
    by (simp add: record_navigation_def split: recording_mode.split)
  with ok show ?thesis by simp
next
  case True
  have state: "ac_state a \<noteq> Pending_recording" using ok True by (auto simp: recording_ok_def)
  with ok True have steps: "ac_steps a \<noteq> []" "rd_type (hd (ac_steps a)) = ''navigate''" "distinct (map rd_id (ac_steps a))"
    by (simp_all add: recording_ok_def)
  let ?asserted = "a\<lparr>ac_steps := butlast (ac_steps a) @ [asserting (last (ac_steps a))], ac_routed_at := None\<rparr>"
  let ?pushed = "a\<lparr>ac_steps := ac_steps a @ [navigate_step parse fresh url], ac_routed_at := (if routed then Some now else None)\<rparr>"
  have "recording_ok ?asserted"
  proof -
    have ids: "map rd_id (butlast (ac_steps a) @ [asserting (last (ac_steps a))]) = map rd_id (ac_steps a)"
    proof -
      obtain ys y where "ac_steps a = ys @ [y]" using steps(1) by (cases "ac_steps a" rule: rev_cases) auto
      then show ?thesis by simp
    qed
    have "rd_type (hd (butlast (ac_steps a) @ [asserting (last (ac_steps a))])) = rd_type (hd (ac_steps a))"
      using steps(1) by (cases "ac_steps a"; cases "tl (ac_steps a)") auto
    then show ?thesis using True state steps ids by (simp add: recording_ok_def)
  qed
  moreover have "recording_ok ?pushed"
  proof -
    obtain x xs where "ac_steps a = x # xs" using steps(1) by (cases "ac_steps a") auto
    then show ?thesis
      using True state steps fresh by (simp add: recording_ok_def navigate_step_def last_type_def) blast
  qed
  moreover have "fst (record_navigation parse fresh now tab url transition_type routed a) = fst (checkpoint ?asserted) \<or>
      fst (record_navigation parse fresh now tab url transition_type routed a) = fst (checkpoint ?pushed)"
    using True by (simp add: record_navigation_def Let_def split_beta)
  ultimately show ?thesis by (metis recording_ok_checkpoint)
qed

lemma recording_ok_downloaded:
  assumes ok: "recording_ok a"
  shows "recording_ok (fst (record_recent_click_as_download now a))"
proof (cases "fst (record_recent_click_as_download now a) = a")
  case False
  then obtain ident clicked step where click: "ac_click a = Some (ident, clicked)" "ac_state a = Recording_now"
    "find (\<lambda>s. rd_id s = ident) (ac_steps a) = Some step" "rd_type step = ''click''"
    by (auto simp: record_recent_click_as_download_def split: option.splits if_splits)
  let ?p = "\<lambda>s. rd_id s = ident"
  let ?k = "nat (find_index ?p (ac_steps a))"
  let ?a = "a\<lparr>ac_steps := list_update (ac_steps a) ?k (as_download step), ac_click := None\<rparr>"
  obtain i where i: "i < length (ac_steps a)" "ac_steps a ! i = step" "rd_id step = ident"
    using find_Some_iff_ex [OF click(3)] by (auto simp: in_set_conv_nth)
  have k: "?k < length (ac_steps a)" "rd_id (ac_steps a ! ?k) = ident"
    using i nth_mem [OF i(1)] by (cases rule: find_index_cases [of ?p "ac_steps a"]; force)+
  have "distinct (map rd_id (ac_steps a))" using ok by (simp add: recording_ok_def)
  from distinct_map_eq_nth [OF this k(1) i(1)] i k have ki: "?k = i" by simp
  have "map rd_id (list_update (ac_steps a) i (as_download step)) = map rd_id (ac_steps a)"
    using i by (simp add: map_update as_download_def list_update_same_conv)
  moreover have "rd_type (hd (list_update (ac_steps a) i (as_download step))) = ''navigate''"
    if "rd_type (hd (ac_steps a)) = ''navigate''"
  proof -
    have "i \<noteq> 0"
    proof
      assume "i = 0"
      with that click(4) i show False by (cases "ac_steps a") auto
    qed
    then show ?thesis using that i by (cases "ac_steps a"; cases i) auto
  qed
  moreover have "last_type (list_update (ac_steps a) i (as_download step)) = Some ''navigate''"
    if "last_type (ac_steps a) = Some ''navigate''"
  proof -
    have "ac_steps a \<noteq> []" using i by auto
    then have "i \<noteq> length (ac_steps a) - 1" using that click(4) i by (auto simp: last_type_def last_conv_nth)
    then show ?thesis using that i by (auto simp: last_type_def last_list_update)
  qed
  ultimately have "recording_ok ?a" using ok click(2) ki i by (auto simp: recording_ok_def)
  moreover have "fst (record_recent_click_as_download now a) = fst (checkpoint ?a)"
    using False click by (auto simp: record_recent_click_as_download_def split: if_splits)
  ultimately show ?thesis by (simp add: recording_ok_checkpoint)
qed (simp add: ok)

lemma add_hosts_frame:
  "ac_steps (remember_visited_host parse tab url a) = ac_steps a"
  "ac_state (remember_visited_host parse tab url a) = ac_state a"
  "ac_mode (remember_visited_host parse tab url a) = ac_mode a"
  "ac_tab (remember_visited_host parse tab url a) = ac_tab a"
  "ac_routed_at (remember_visited_host parse tab url a) = ac_routed_at a"
  "ac_click (remember_visited_host parse tab url a) = ac_click a"
  by (simp_all add: remember_visited_host_def split: option.split)

lemma keep_snapshot_frame:
  "ac_steps (keep_snapshot parse a s) = ac_steps a" "ac_state (keep_snapshot parse a s) = ac_state a"
  "ac_mode (keep_snapshot parse a s) = ac_mode a" "ac_tab (keep_snapshot parse a s) = ac_tab a"
  "ac_routed_at (keep_snapshot parse a s) = ac_routed_at a" "ac_click (keep_snapshot parse a s) = ac_click a"
  by (cases s; simp add: keep_snapshot_def Let_def split: option.split)+

lemma keep_snapshot_ok: "recording_ok a \<Longrightarrow> recording_ok (keep_snapshot parse a s)"
  by (erule recording_ok_frame) (simp_all add: keep_snapshot_frame)

lemma recording_ok_captured: "recording_ok a \<Longrightarrow> recording_ok (capture_open_frame_storage parse snapshots a)"
proof -
  have "recording_ok a \<Longrightarrow> recording_ok (foldl (keep_snapshot parse) a snapshots)" for a
    by (induction snapshots arbitrary: a) (simp_all add: keep_snapshot_ok)
  then show "recording_ok a \<Longrightarrow> recording_ok (capture_open_frame_storage parse snapshots a)"
    by (simp add: capture_open_frame_storage_def)
qed

text \<open>Saving keeps the recording as it is, but for the mark of its token, or removes it.\<close>

lemma finalize_cases:
  obtains (done_saved) "finalize_recording create upload finalize bindings selections a =
      (None, None, [Broadcast ''recording-finished'' (ac_session a) []])"
    | (kept) refusal where "finalize_recording create upload finalize bindings selections a = (Some refusal, Some a, [])"
    | (marked) "finalize_recording create upload finalize bindings selections a =
        (Some Token_has_expired, Some (a\<lparr>ac_expired := True\<rparr>), [Broadcast ''recording-token-expired'' (ac_session a) []])"
  by (cases "finalize_recording create upload finalize bindings selections a")
    (fastforce simp: finalize_recording_def refuse_save_def mark_token_expired_def Let_def
      split: if_splits sum.splits option.splits api_answer.splits)

lemma recording_ok_started:
  assumes "recording_ok a" and "start_recording parse fresh held tab_url permitted intent (Some a) = Inr (a', sent)"
  shows "recording_ok a'"
  using assms
  by (auto simp: start_recording_def recording_ok_def navigate_step_def split: if_splits)

lemma body_ok: "body a result \<Longrightarrow> recording_ok a \<Longrightarrow> pred_option recording_ok result"
proof (induction rule: body.induct)
  case (renewed a message)
  then show ?case
    by (auto simp: renew_token_def intro: recording_ok_frame)
next
  case (started parse fresh held tab_url permitted intent a a' sent)
  then show ?case by (simp add: recording_ok_started)
next
  case (assembled fresh a tab now message found)
  then show ?case
    by (auto simp: assemble_interaction_def Let_def split_beta recording_ok_assembled recording_ok_checkpoint
        split: recording_mode.split)
next
  case (navigated fresh a parse now tab url transition_type routed)
  then show ?case by (simp add: recording_ok_navigated)
next
  case (downloaded a now)
  then show ?case by (simp add: recording_ok_downloaded)
next
  case (visited a parse tab url)
  then show ?case by (auto simp: add_hosts_frame intro: recording_ok_frame)
next
  case (captured a parse snapshots)
  then show ?case by (simp add: recording_ok_captured)
next
  case (stopped a ended_at answer)
  then show ?case
    using end_recording_ok [of a "''stopped''" ended_at answer]
    by (auto simp: stop_recording_def split_beta split: recording_mode.split)
next
  case (discarded a)
  then show ?case by (simp add: discard_recording_def)
next
  case (detached a tab ended_at answer)
  then show ?case
    using end_recording_ok [of a "''debugger-detached''" ended_at answer]
    by (auto simp: end_recording_after_detach_def split_beta split: recording_mode.split)
next
  case (marked a)
  then show ?case by (auto simp: mark_token_expired_def intro: recording_ok_frame)
next
  case (saved a create upload finalize bindings selections)
  then show ?case
    by (cases rule: finalize_cases [of create upload finalize bindings selections a])
      (auto intro: recording_ok_frame)
qed

lemma accept_pending_ok:
  "snd (accept_pending held s message current) = result \<Longrightarrow> pred_option recording_ok current \<Longrightarrow>
   pred_option recording_ok result"
  by (auto simp: accept_pending_def recording_ok_pending split: option.splits if_splits)

lemma interleaved_ok:
  "interleaved stored copies \<Longrightarrow> pred_option recording_ok stored \<and> list_all recording_ok copies"
proof (induction rule: interleaved.induct)
  case (written stored copies a result)
  then show ?case
    using body_ok [of a result] by (auto simp: list_all_iff dest: notin_set_remove1 set_remove1_subset [THEN subsetD])
next
  case (asked stored copies current held s message result)
  then have "pred_option recording_ok current" by (auto simp: list_all_iff)
  with asked show ?case using accept_pending_ok by blast
qed simp_all

section \<open>Properties\<close>


definition sample_parser :: url_parser where
  "sample_parser text =
     (if prefix ''https://shop.test'' text
      then Some \<lparr>ur_protocol = ''https:'', ur_origin = ''https://shop.test'', ur_hostname = ''shop.test''\<rparr> else None)"

definition sample_pending :: active_recording where
  "sample_pending = pending_recording
     \<lparr>pe_session_id = ''r1'', pe_token = ''t'', pe_backend_origin = ''https://sbs.test'', pe_workflow_id = ''w1'',
      pe_workflow_name = ''Orders''\<rparr> (To_record [] []) (Some 3)"

definition sample_message :: js where
  "sample_message = Obj
     [(''channel'', Str channel), (''type'', Str ''recording-pending''), (''sessionId'', Str ''r1''), (''token'', Str ''t''),
      (''backendOrigin'', Str ''https://sbs.test''), (''workflowId'', Str ''w1''), (''workflowName'', Str ''Orders''),
      (''variables'', Arr []), (''secrets'', Arr []), (''mode'', Str ''record'')]"

definition sample_sender :: sender where
  "sample_sender = \<lparr>sn_id = Some ''ext'', sn_tab = Some 3, sn_frame = Some 0, sn_origin = Some ''https://sbs.test'', sn_url = None\<rparr>"

definition sample_started :: active_recording where
  "sample_started = sample_pending\<lparr>ac_tab := Some 7, ac_state := Recording_now, ac_hosts := [''shop.test''],
     ac_steps := [navigate_step sample_parser ''s1'' ''https://shop.test/cart'']\<rparr>"

lemma read_sample:
  "read_pending_recording sample_message = Some (\<lparr>pe_session_id = ''r1'', pe_token = ''t'',
      pe_backend_origin = ''https://sbs.test'', pe_workflow_id = ''w1'', pe_workflow_name = ''Orders''\<rparr>, To_record [] [])"
  by code_simp

lemma sample_interleaved: "interleaved (Some sample_started) []"
proof -
  have "snd (accept_pending ''https://sbs.test'' sample_sender sample_message None) = Some sample_pending"
    by (simp add: accept_pending_def read_sample sample_sender_def sample_pending_def)
  then have "interleaved (Some sample_pending) []"
    by (rule interleaved.asked [OF interleaved.empty disjI1 [OF refl]])
  then have "interleaved (Some sample_pending) [sample_pending]" by (rule interleaved.read)
  moreover have "\<exists>sent. start_recording sample_parser ''s1'' (Some ''https://sbs.test'') (Some ''https://shop.test/cart'') True
      \<lparr>si_tab = 7, si_url = ''https://shop.test/cart'', si_announced = 0\<rparr> (Some sample_pending) = Inr (sample_started, sent)"
    by (simp add: start_recording_def sample_pending_def pending_recording_def sample_started_def sample_parser_def prefix_def)
  then have "body sample_pending (Some sample_started)" by (elim exE) (rule body.started)
  ultimately show ?thesis using interleaved.written [of "Some sample_pending" "[sample_pending]"] by simp
qed


text \<open>A save either succeeds, and then the API has taken a document in which no Step waits
  for a Secret, and the recording is removed, or it fails and the recording is kept with every
  Step, so that it can be saved again.\<close>

theorem failed_save_keeps_recording:
  "case finalize_recording create upload finalize bindings selections a of
     (refusal, kept, sent) \<Rightarrow>
       (case kept of
          Some a' \<Rightarrow> refusal \<noteq> None \<and> a' \<in> {a, a\<lparr>ac_expired := True\<rparr>}
        | None \<Rightarrow> refusal = None \<and> ac_state a = Ended_recording \<and>
            (\<exists>resolved document. resolve_recording_secrets create bindings = Inr resolved \<and>
              bind_secret_steps (ac_steps a) resolved (map fields_of_js (ac_variables a)) = Inr document \<and>
              finalize document = Answered () \<and> (filter ch_checked selections \<noteq> [] \<longrightarrow> upload (filter ch_checked selections) = None)))"
proof (cases rule: finalize_cases [of create upload finalize bindings selections a])
  case done_saved
  then have "ac_state a = Ended_recording \<and>
            (\<exists>resolved document. resolve_recording_secrets create bindings = Inr resolved \<and>
              bind_secret_steps (ac_steps a) resolved (map fields_of_js (ac_variables a)) = Inr document \<and>
              finalize document = Answered () \<and> (filter ch_checked selections \<noteq> [] \<longrightarrow> upload (filter ch_checked selections) = None))"
    by (auto simp: finalize_recording_def refuse_save_def mark_token_expired_def Let_def
      split: if_splits sum.splits option.splits api_answer.splits)
  with done_saved show ?thesis by simp
qed auto

theorem failed_save_keeps_recording_witness:
  "fst (snd (finalize_recording (\<lambda>_ _. Unreachable) (\<lambda>_. None) (\<lambda>_. Unauthorized) [] []
     (sample_started\<lparr>ac_state := Ended_recording\<rparr>))) \<noteq> None"
proof -
  let ?r = "finalize_recording (\<lambda>_ _. Unreachable) (\<lambda>_. None) (\<lambda>_. Unauthorized) [] []
     (sample_started\<lparr>ac_state := Ended_recording\<rparr>)"
  show ?thesis
    using failed_save_keeps_recording [where create = "\<lambda>_ _. Unreachable" and upload = "\<lambda>_. None"
      and finalize = "\<lambda>_. Unauthorized" and bindings = "[]" and selections = "[]"
      and a = "sample_started\<lparr>ac_state := Ended_recording\<rparr>"]
    by (cases ?r) (auto split: option.splits)
qed

definition told :: "active_recording \<Rightarrow> active_recording \<times> recorder_effect list \<Rightarrow> bool" where
  "told a result \<longleftrightarrow>
     (case result of (a', sent) \<Rightarrow>
        (if ac_steps a' = ac_steps a then ac_seq a \<le> ac_seq a'
         else ac_seq a' = Suc (ac_seq a) \<and> Send_checkpoint (ac_seq a') (ac_steps a') \<in> set sent))"

text \<open>The API is told of every Step: a handler that changes the Steps of a recording sends them
  all, as they are stored, under the next number.\<close>

theorem steps_are_checkpointed:
  "told a (record_navigation parse fresh now tab url transition_type routed a) \<and>
   told a (record_recent_click_as_download now a) \<and>
   (case assemble_interaction tab fresh now message found a of
      (Some a', sent) \<Rightarrow> told a (a', sent) | (None, sent) \<Rightarrow> ac_mode a \<noteq> Record_mode)"
proof -
  have sent: "told a (checkpoint b)" if "ac_seq b = ac_seq a" for b
    using that by (simp add: told_def checkpoint_def Let_def)
  have "told a (record_navigation parse fresh now tab url transition_type routed a)"
    by (auto simp: record_navigation_def told_def checkpoint_def Let_def split: recording_mode.split)
  moreover have "told a (record_recent_click_as_download now a)"
    by (auto simp: record_recent_click_as_download_def sent told_def Let_def split: option.split)
      (auto simp: checkpoint_def Let_def)
  moreover have "case assemble_interaction tab fresh now message found a of
      (Some a', sent) \<Rightarrow> told a (a', sent) | (None, sent) \<Rightarrow> ac_mode a \<noteq> Record_mode"
    by (auto simp: assemble_interaction_def told_def checkpoint_def with_interaction_def Let_def split: recording_mode.split)
  ultimately show ?thesis by blast
qed

section \<open>What interleaving loses\<close>

text \<open>
  The interaction that is being assembled when its user stops or discards the recording has read
  its copy before: what it writes is that copy, recording again, and the stop or the discard is
  lost. The assembly waits up to \<open>accessibility_wait_ms\<close>, and neither the stop nor the discard
  goes through the queue of events.
\<close>

theorem late_interaction_undoes_stop:
  assumes "interleaved (Some a) copies" and "ac_mode a = Record_mode" and "ac_state a = Recording_now"
    and "ac_tab a = Some tab" and "fresh \<notin> rd_id ` set (ac_steps a)"
  shows "(\<exists>ended. fst (stop_recording ended_at answer a) = Some ended \<and> ac_state ended = Ended_recording \<and>
      interleaved (Some ended) (a # copies)) \<and>
    fst (discard_recording a) = None \<and> interleaved None (a # copies) \<and>
    (\<exists>again. fst (assemble_interaction tab fresh now message found a) = Some again \<and>
      interleaved (Some again) copies \<and> ac_state again = Recording_now)"
proof -
  let ?again = "fst (checkpoint (with_interaction fresh now message found a))"
  have both: "interleaved (Some a) (a # a # copies)" by (intro interleaved.read assms(1))
  obtain ended where ended: "fst (stop_recording ended_at answer a) = Some ended" "ac_state ended = Ended_recording"
    using assms(2,3) end_recording_frame(2) [of "''stopped''" ended_at answer a]
    by (auto simp: stop_recording_def split_beta)
  have stop: "interleaved (Some ended) (a # copies)"
    using interleaved.written [OF both _ body.stopped [of a ended_at answer]] ended(1) by simp
  have gone: "interleaved None (a # copies)"
    using interleaved.written [OF both _ body.discarded [of a]] by (simp add: discard_recording_def)
  have again: "fst (assemble_interaction tab fresh now message found a) = Some ?again"
    using assms(2,4) by (simp add: assemble_interaction_def Let_def split_beta)
  then have "interleaved (Some ?again) copies"
    using interleaved.written [OF gone _ body.assembled [OF assms(5), of tab now message found]] by simp
  moreover have "ac_state ?again = Recording_now"
    using assms(3) by (simp add: checkpoint_def with_interaction_def Let_def)
  ultimately show ?thesis using ended stop gone again by (simp add: discard_recording_def)
qed

text \<open>A navigation of the tab is recorded after the recording ended, too: the handler looks at the
  tab of the recording and not at its state.\<close>

theorem navigation_after_stop_is_recorded:
  assumes "ac_state a = Ended_recording" and "ac_mode a = Record_mode" and "ac_tab a = Some tab"
    and "last_type (ac_steps a) \<noteq> Some ''click''"
  shows "ac_steps (fst (record_navigation parse fresh now tab url transition_type routed a)) =
      ac_steps a @ [navigate_step parse fresh url] \<and>
    ac_state (fst (record_navigation parse fresh now tab url transition_type routed a)) = Ended_recording"
  using assms by (simp add: record_navigation_def checkpoint_def Let_def)

end
