(* ===== verification/ConnectWorker.thy ===== *)
theory ConnectWorker
  imports RecordingWorker Connection
begin

text \<open>
  How the browser extension connects to an instance (\<open>apps/extension/src/service-worker.js\<close>): the
  messages it answers, the address its user typed, the page it opens and the handshake of that
  page, the connect code, and what the connection lets a page ask. The browser's answers
  (a permission, a new tab, the clock) and the API's are inputs; the URL parser is an argument.
\<close>

section \<open>State\<close>

datatype connect_way = By_page | By_code

record connect_intent =
  in_origin :: js
  in_how :: connect_way
  in_code :: string
  in_announced :: int

record connect_state =
  cn_connection :: "string option"
  cn_attempt :: "connect_attempt option"
  cn_intent :: "connect_intent option"
  cn_address :: string

definition attempt_lifetime_ms :: int where
  "attempt_lifetime_ms = 5 * 60 * 1000"

definition code_length_limit :: nat where
  "code_length_limit = 64"

section \<open>Messages\<close>

definition from_our_own_surfaces :: "string \<Rightarrow> string \<Rightarrow> sender \<Rightarrow> bool" where
  "from_our_own_surfaces extension_id extension_url s \<longleftrightarrow>
     sn_id s = Some extension_id \<and> prefix extension_url (orelse (sn_url s) [])"

datatype route = To_probe | To_handshake | To_recording_page | To_recorder | To_surface js | Ignored

text \<open>Which handler a message reaches: the surfaces of the extension are its popup's own pages.\<close>

definition route_of :: "string \<Rightarrow> string \<Rightarrow> js \<Rightarrow> sender \<Rightarrow> route" where
  "route_of extension_id extension_url message s =
     (if is_protocol_message message then
        (if attr message ''type'' = Str ''connection-probe'' then To_probe
         else if attr message ''type'' = Str handshake_type then To_handshake
         else To_recording_page)
      else if attr message ''type'' \<in> {Str ''recorder-ax'', Str ''recorder-event''} then To_recorder
      else if \<not> from_our_own_surfaces extension_id extension_url s then Ignored
      else To_surface (attr message ''type''))"

definition answer_probe :: "string \<Rightarrow> js \<Rightarrow> sender \<Rightarrow> connect_state \<Rightarrow> bool" where
  "answer_probe extension_id message s c \<longleftrightarrow>
     cn_connection c \<noteq> None \<and> sn_id s = Some extension_id \<and> sn_frame s = Some 0 \<and>
     sn_origin s = cn_connection c \<and> as_string (attr message ''instanceOrigin'') = cn_connection c"

section \<open>The connect page\<close>

text \<open>The attempt that is pending now; one that is too old is forgotten when it is read.\<close>

definition read_attempt :: "int \<Rightarrow> connect_state \<Rightarrow> connect_attempt option \<times> connect_state" where
  "read_attempt now c =
     (case cn_attempt c of
        None \<Rightarrow> (None, c)
      | Some a \<Rightarrow> if attempt_lifetime_ms < now - at_opened a then (None, c\<lparr>cn_attempt := None\<rparr>) else (Some a, c))"

definition accept_handshake :: "string \<Rightarrow> int \<Rightarrow> js \<Rightarrow> sender \<Rightarrow> connect_state \<Rightarrow> bool \<times> connect_state" where
  "accept_handshake extension_id now message s c =
     (let (pending, c') = read_attempt now c in
      case judge_handshake message (Some s) pending extension_id of
        Inl _ \<Rightarrow> (False, c')
      | Inr origin \<Rightarrow> (True, c'\<lparr>cn_connection := Some origin, cn_attempt := None\<rparr>))"

section \<open>Intents\<close>

definition announce :: "js \<Rightarrow> int \<Rightarrow> connect_state \<Rightarrow> connect_state" where
  "announce message now c =
     c\<lparr>cn_intent := Some \<lparr>in_origin = attr message ''origin'',
         in_how = (if attr message ''how'' = Str ''code'' then By_code else By_page),
         in_code = orelse (as_string (attr message ''code'')) [], in_announced = now\<rparr>\<rparr>"

definition forget_intent :: "connect_state \<Rightarrow> connect_state" where
  "forget_intent c = c\<lparr>cn_intent := None\<rparr>"

definition unanswered :: "int \<Rightarrow> connect_state \<Rightarrow> bool" where
  "unanswered now c \<longleftrightarrow>
     (case cn_intent c of None \<Rightarrow> False | Some i \<Rightarrow> now - in_announced i \<le> intent_lifetime_ms)"

definition remember_address :: "js \<Rightarrow> connect_state \<Rightarrow> connect_state" where
  "remember_address address c = c\<lparr>cn_address := orelse (as_string address) []\<rparr>"

definition take_intent :: "int \<Rightarrow> string list option \<Rightarrow> connect_state \<Rightarrow> connect_intent option \<times> connect_state" where
  "take_intent now origins c =
     (case cn_intent c of
        None \<Rightarrow> (None, c)
      | Some i \<Rightarrow>
          if intent_lifetime_ms < now - in_announced i then (None, c\<lparr>cn_intent := None\<rparr>)
          else if (case origins of None \<Rightarrow> False
              | Some granted \<Rightarrow> origin_pattern (string_of_js (in_origin i)) \<notin> set granted) then (None, c)
          else (Some i, c\<lparr>cn_intent := None\<rparr>))"

definition canonical :: "url_parser \<Rightarrow> js \<Rightarrow> string option" where
  "canonical parse origin =
     (case origin of
        Str text \<Rightarrow> if read_instance_url parse text = Inr text then Some text else None
      | _ \<Rightarrow> None)"

datatype connect_refusal = Late | Not_an_instance | Not_allowed | Bad_code | Out_of_reach

text \<open>The page is opened in the tab that the browser gives, with the nonce in its address.\<close>

definition open_the_connect_page ::
    "url_parser \<Rightarrow> (string \<Rightarrow> bool) \<Rightarrow> string \<Rightarrow> int \<Rightarrow> int \<Rightarrow> js \<Rightarrow> connect_state \<Rightarrow>
     (connect_refusal + string) \<times> connect_state" where
  "open_the_connect_page parse permitted nonce tab now origin c =
     (case canonical parse origin of
        None \<Rightarrow> (Inl Not_an_instance, c)
      | Some asked \<Rightarrow>
          if \<not> permitted asked then (Inl Not_allowed, c)
          else (Inr (asked @ ''/connect?nonce='' @ encode_uri_component nonce),
                c\<lparr>cn_attempt := Some \<lparr>at_origin = asked, at_nonce = nonce, at_tab = tab, at_opened = now\<rparr>\<rparr>))"

definition spend_connect_code ::
    "url_parser \<Rightarrow> (string \<Rightarrow> bool) \<Rightarrow> (string \<Rightarrow> string \<Rightarrow> unit api_answer) \<Rightarrow> js \<Rightarrow> string \<Rightarrow> connect_state \<Rightarrow>
     (connect_refusal + string) \<times> connect_state" where
  "spend_connect_code parse permitted spend origin typed c =
     (case canonical parse origin of
        None \<Rightarrow> (Inl Not_an_instance, c)
      | Some asked \<Rightarrow>
          if trim typed = [] \<or> code_length_limit < length typed then (Inl Bad_code, c)
          else if \<not> permitted asked then (Inl Not_allowed, c)
          else (case spend asked (trim typed) of
            Unreachable \<Rightarrow> (Inl Out_of_reach, c)
          | Unauthorized \<Rightarrow> (Inl Bad_code, c)
          | Refused _ _ \<Rightarrow> (Inl Out_of_reach, c)
          | Answered _ \<Rightarrow> (Inr asked, c\<lparr>cn_connection := Some asked, cn_attempt := None\<rparr>)))"

text \<open>\<open>finishConnect\<close>: the intent is taken and done, by the page or by the code.\<close>

definition finish_connect ::
    "url_parser \<Rightarrow> (string \<Rightarrow> bool) \<Rightarrow> (string \<Rightarrow> string \<Rightarrow> unit api_answer) \<Rightarrow> string \<Rightarrow> int \<Rightarrow> int \<Rightarrow>
     string list option \<Rightarrow> connect_state \<Rightarrow> (connect_refusal + string) \<times> connect_state" where
  "finish_connect parse permitted spend nonce tab now origins c =
     (let (taken, c') = take_intent now origins c in
      case taken of
        None \<Rightarrow> (Inl Late, c')
      | Some i \<Rightarrow>
          (case in_how i of
             By_code \<Rightarrow> spend_connect_code parse permitted spend (in_origin i) (in_code i) c'
           | By_page \<Rightarrow> open_the_connect_page parse permitted nonce tab now (in_origin i) c'))"

definition disconnect :: "connect_state \<Rightarrow> connect_state" where
  "disconnect c = c\<lparr>cn_connection := None, cn_attempt := None, cn_intent := None\<rparr>"

section \<open>Steps\<close>

datatype connect_event =
    Handshake_heard int js sender
  | Announced js int
  | Forgotten
  | Address_typed js
  | Connect_finished "string \<Rightarrow> bool" "string \<Rightarrow> string \<Rightarrow> unit api_answer" string int int "string list option"
  | Disconnected

fun connect_step :: "url_parser \<Rightarrow> string \<Rightarrow> connect_state \<Rightarrow> connect_event \<Rightarrow> connect_state" where
  "connect_step parse extension_id c (Handshake_heard now message s) = snd (accept_handshake extension_id now message s c)"
| "connect_step parse extension_id c (Announced message now) = announce message now c"
| "connect_step parse extension_id c Forgotten = forget_intent c"
| "connect_step parse extension_id c (Address_typed address) = remember_address address c"
| "connect_step parse extension_id c (Connect_finished permitted spend nonce tab now origins) =
     snd (finish_connect parse permitted spend nonce tab now origins c)"
| "connect_step parse extension_id c Disconnected = disconnect c"

definition unconnected :: connect_state where
  "unconnected = \<lparr>cn_connection = None, cn_attempt = None, cn_intent = None, cn_address = []\<rparr>"

section \<open>Lemmas\<close>

text \<open>Only addresses in their canonical form are attempted or kept.\<close>

definition connect_ok :: "url_parser \<Rightarrow> connect_state \<Rightarrow> bool" where
  "connect_ok parse c \<longleftrightarrow>
     (\<forall>origin. cn_connection c = Some origin \<longrightarrow> read_instance_url parse origin = Inr origin) \<and>
     (\<forall>a. cn_attempt c = Some a \<longrightarrow> read_instance_url parse (at_origin a) = Inr (at_origin a))"

lemma canonical_Some: "canonical parse origin = Some text \<longleftrightarrow> origin = Str text \<and> read_instance_url parse text = Inr text"
  by (auto simp: canonical_def split: js.splits if_splits)

lemma judge_handshake_Inr:
  "judge_handshake message (Some s) pending extension_id = Inr origin \<longleftrightarrow>
   (\<exists>a. pending = Some a \<and> origin = at_origin a \<and> sn_id s = Some extension_id \<and> sn_tab s = Some (at_tab a) \<and>
     sn_frame s = Some 0 \<and> sn_origin s = Some (at_origin a) \<and>
     read_handshake message = Some (at_nonce a, at_origin a))"
  by (auto simp: judge_handshake_def split: option.splits if_splits)

lemma read_attempt_cases:
  obtains (gone) "read_attempt now c = (None, c\<lparr>cn_attempt := None\<rparr>)"
    | (pending) a where "read_attempt now c = (Some a, c)" "cn_attempt c = Some a" "now - at_opened a \<le> attempt_lifetime_ms"
proof (cases "cn_attempt c")
  case None
  then have "read_attempt now c = (None, c\<lparr>cn_attempt := None\<rparr>)" by (simp add: read_attempt_def)
  then show ?thesis by (rule gone)
next
  case (Some a)
  then show ?thesis
    using gone pending [of a] by (cases "attempt_lifetime_ms < now - at_opened a") (simp_all add: read_attempt_def)
qed

lemma connect_ok_step: "connect_ok parse c \<Longrightarrow> connect_ok parse (connect_step parse extension_id c e)"
proof (cases e)
  case (Handshake_heard now message s)
  assume ok: "connect_ok parse c"
  show ?thesis
  proof (cases rule: read_attempt_cases [of now c])
    case gone
    with ok Handshake_heard show ?thesis
      by (simp add: accept_handshake_def judge_handshake_def connect_ok_def)
  next
    case (pending a)
    show ?thesis
    proof (cases "judge_handshake message (Some s) (Some a) extension_id")
      case (Inl refusal)
      with ok Handshake_heard pending show ?thesis by (simp add: accept_handshake_def)
    next
      case (Inr origin)
      then have "origin = at_origin a" unfolding judge_handshake_Inr by auto
      with Inr ok Handshake_heard pending show ?thesis by (simp add: accept_handshake_def connect_ok_def)
    qed
  qed
next
  case (Connect_finished permitted spend nonce tab now origins)
  assume ok: "connect_ok parse c"
  obtain taken c' where t: "take_intent now origins c = (taken, c')" by (cases "take_intent now origins c")
  then have same: "cn_connection c' = cn_connection c" "cn_attempt c' = cn_attempt c"
    by (auto simp: take_intent_def split: option.splits if_splits)
  have "connect_ok parse (snd (open_the_connect_page parse permitted nonce tab now origin c'))" for origin
    using ok same by (auto simp: open_the_connect_page_def connect_ok_def canonical_Some split: option.splits)
  moreover have "connect_ok parse (snd (spend_connect_code parse permitted spend origin typed c'))" for origin typed
    using ok same
    by (auto simp: spend_connect_code_def connect_ok_def canonical_Some split: option.splits api_answer.splits)
  ultimately show ?thesis
    using Connect_finished ok same t
    by (auto simp: finish_connect_def connect_ok_def split: option.splits connect_way.splits)
qed (auto simp: connect_ok_def announce_def forget_intent_def remember_address_def disconnect_def)

interpretation connecting: reducer "connect_step parse extension_id" "connect_ok parse" for parse extension_id
  by unfold_locales (rule connect_ok_step)

lemma finish_connect_connects:
  assumes "cn_connection (snd (finish_connect parse permitted spend nonce tab now origins c)) = Some origin"
    and "cn_connection c \<noteq> Some origin"
  shows "\<exists>i. cn_intent c = Some i \<and> now - in_announced i \<le> intent_lifetime_ms \<and> in_how i = By_code \<and>
    in_origin i = Str origin \<and> permitted origin \<and> spend origin (trim (in_code i)) = Answered () \<and>
    cn_attempt (snd (finish_connect parse permitted spend nonce tab now origins c)) = None"
proof -
  obtain taken c' where t: "take_intent now origins c = (taken, c')" by (cases "take_intent now origins c")
  then have same: "cn_connection c' = cn_connection c" "cn_attempt c' = cn_attempt c"
    by (auto simp: take_intent_def split: option.splits if_splits)
  have page: "cn_connection (snd (open_the_connect_page parse permitted nonce tab now asked c')) = cn_connection c" for asked
    by (simp add: open_the_connect_page_def same split: option.split)
  obtain i where i: "taken = Some i" "in_how i = By_code"
    and connects: "cn_connection (snd (spend_connect_code parse permitted spend (in_origin i) (in_code i) c')) = Some origin"
    and result: "snd (finish_connect parse permitted spend nonce tab now origins c) =
      snd (spend_connect_code parse permitted spend (in_origin i) (in_code i) c')"
    using assms t same page by (auto simp: finish_connect_def split: option.splits connect_way.splits)
  have "cn_intent c = Some i" "now - in_announced i \<le> intent_lifetime_ms"
    using t i by (auto simp: take_intent_def split: option.splits if_splits)
  moreover have spent: "canonical parse (in_origin i) = Some origin \<and> permitted origin \<and>
      spend origin (trim (in_code i)) = Answered () \<and>
      cn_attempt (snd (spend_connect_code parse permitted spend (in_origin i) (in_code i) c')) = None"
    using connects assms(2) same
    by (auto simp: spend_connect_code_def split: option.splits if_splits api_answer.splits)
  moreover have "in_origin i = Str origin" using spent by (simp add: canonical_Some)
  ultimately show ?thesis using i(2) result by auto
qed

lemma accept_handshake_connects:
  assumes "cn_connection (snd (accept_handshake extension_id now message s c)) = Some origin"
    and "cn_connection c \<noteq> Some origin"
  shows "\<exists>a. cn_attempt c = Some a \<and> at_origin a = origin \<and> now - at_opened a \<le> attempt_lifetime_ms \<and>
    sn_id s = Some extension_id \<and> sn_tab s = Some (at_tab a) \<and> sn_frame s = Some 0 \<and> sn_origin s = Some origin \<and>
    read_handshake message = Some (at_nonce a, origin) \<and>
    cn_attempt (snd (accept_handshake extension_id now message s c)) = None"
proof (cases rule: read_attempt_cases [of now c])
  case gone
  with assms show ?thesis by (simp add: accept_handshake_def judge_handshake_def)
next
  case (pending a)
  show ?thesis
  proof (cases "judge_handshake message (Some s) (Some a) extension_id")
    case (Inl refusal)
    with assms pending show ?thesis by (simp add: accept_handshake_def)
  next
    case (Inr found)
    then have "found = at_origin a \<and> sn_id s = Some extension_id \<and> sn_tab s = Some (at_tab a) \<and>
        sn_frame s = Some 0 \<and> sn_origin s = Some (at_origin a) \<and>
        read_handshake message = Some (at_nonce a, at_origin a)"
      unfolding judge_handshake_Inr by auto
    with Inr assms pending show ?thesis by (auto simp: accept_handshake_def)
  qed
qed

section \<open>Properties\<close>

text \<open>C32. The extension connects to an origin in two ways only: by the handshake of the top frame of
  the very tab it opened, on that origin, within the lifetime of the attempt and with the nonce
  that was put in the tab's address; or by a code that the API took, for an origin its user
  announced and allowed. Either way the attempt is used up, and what is connected is an
  address in its canonical form.\<close>

theorem connection_is_earned:
  assumes "cn_connection (connect_step parse extension_id c e) = Some origin" and "cn_connection c \<noteq> Some origin"
    and "c = foldl (connect_step parse extension_id) unconnected past"
  shows "((\<exists>now message s a. e = Handshake_heard now message s \<and> cn_attempt c = Some a \<and> at_origin a = origin \<and>
        now - at_opened a \<le> attempt_lifetime_ms \<and> sn_id s = Some extension_id \<and>
        sn_tab s = Some (at_tab a) \<and> sn_frame s = Some 0 \<and> sn_origin s = Some origin \<and>
        read_handshake message = Some (at_nonce a, origin)) \<or>
      (\<exists>permitted spend nonce tab now origins i. e = Connect_finished permitted spend nonce tab now origins \<and>
        cn_intent c = Some i \<and> now - in_announced i \<le> intent_lifetime_ms \<and> in_how i = By_code \<and>
        in_origin i = Str origin \<and> permitted origin \<and> spend origin (trim (in_code i)) = Answered ())) \<and>
    cn_attempt (connect_step parse extension_id c e) = None \<and> read_instance_url parse origin = Inr origin"
proof -
  have "connect_ok parse c"
    unfolding assms(3) by (rule connecting.run_inv) (simp add: connect_ok_def unconnected_def)
  then have canonical: "read_instance_url parse origin = Inr origin"
    using connect_ok_step [of parse c extension_id e] assms(1) by (simp add: connect_ok_def)
  show ?thesis
  proof (cases e)
    case (Handshake_heard now message s)
    with accept_handshake_connects [of extension_id now message s c origin] assms(1,2) canonical show ?thesis by auto
  next
    case (Connect_finished permitted spend nonce tab now origins)
    with finish_connect_connects [of parse permitted spend nonce tab now origins c origin] assms(1,2) canonical
    show ?thesis by auto
  qed (use assms(1,2) in \<open>auto simp: announce_def forget_intent_def remember_address_def disconnect_def\<close>)
qed

definition instance_parser :: url_parser where
  "instance_parser text =
     (if prefix ''https://sbs.test'' text
      then Some \<lparr>ur_protocol = ''https:'', ur_origin = ''https://sbs.test'', ur_hostname = ''sbs.test''\<rparr> else None)"

definition waiting_state :: connect_state where
  "waiting_state = foldl (connect_step instance_parser ''ext'') unconnected
     [Announced (Obj [(''origin'', Str ''https://sbs.test''), (''how'', Str ''page'')]) 0,
      Connect_finished (\<lambda>_. True) (\<lambda>_ _. Unreachable) ''ab12'' 5 10 None]"

definition good_handshake :: connect_event where
  "good_handshake = Handshake_heard 20
     (Obj [(''channel'', Str channel), (''type'', Str handshake_type), (''nonce'', Str ''ab12''),
       (''instanceOrigin'', Str ''https://sbs.test'')])
     \<lparr>sn_id = Some ''ext'', sn_tab = Some 5, sn_frame = Some 0, sn_origin = Some ''https://sbs.test'', sn_url = None\<rparr>"

theorem connection_is_earned_witness:
  "cn_connection (connect_step instance_parser ''ext'' waiting_state good_handshake) = Some ''https://sbs.test'' \<and>
   cn_attempt (connect_step instance_parser ''ext'' waiting_state good_handshake) = None"
proof -
  have c: "cn_connection (connect_step instance_parser ''ext'' waiting_state good_handshake) = Some ''https://sbs.test''"
    by code_simp
  moreover have "cn_connection waiting_state \<noteq> Some ''https://sbs.test''" by code_simp
  ultimately show ?thesis
    using connection_is_earned [OF c _ waiting_state_def] by blast
qed

end
