(* ===== verification/Bridge.thy ===== *)
theory Bridge
  imports ConnectWorker
begin

text \<open>
  The script that the extension runs in a page of its instance
  (\<open>apps/extension/src/lib/page-bridge.js\<close>): what of the page's messages reaches the service worker, and
  what of its answers and broadcasts the page is posted; and the page that hands the nonce
  over (\<open>apps/web/app/connect\<close>). The properties put the web application's side
  (\<open>Connection\<close>), the bridge and the service worker together.
\<close>

section \<open>The bridge\<close>

text \<open>
  A message that the page hears, with whether its source is the page's window and its origin the
  page's own: what is sent to the service worker.
\<close>

definition bridge_forward :: "string \<Rightarrow> bool \<Rightarrow> bool \<Rightarrow> js \<Rightarrow> js option" where
  "bridge_forward own source_ok origin_ok message =
     (if \<not> source_ok \<or> \<not> origin_ok then None
      else if attr message ''channel'' \<noteq> Str channel then None
      else if attr message ''type'' = Str ''connection-probe'' then
        Some (Obj [(''channel'', Str channel), (''type'', Str ''connection-probe''), (''instanceOrigin'', Str own)])
      else if attr message ''type'' = Str handshake_type then
        (case attr message ''nonce'' of
           Str nonce \<Rightarrow>
             if attr message ''instanceOrigin'' \<noteq> Str own then None
             else Some (Obj [(''channel'', Str channel), (''type'', Str handshake_type), (''nonce'', Str nonce),
               (''instanceOrigin'', Str own)])
         | _ \<Rightarrow> None)
      else if attr message ''type'' \<in> {Str ''recording-pending'', Str ''recording-token''} then
        (if attr message ''backendOrigin'' \<noteq> Undefined \<and> attr message ''backendOrigin'' \<noteq> Str own then None
         else Some message)
      else None)"

text \<open>What the page is posted: the answer to a probe, to another message, and a broadcast.\<close>

definition post_probe_reply :: "bool \<Rightarrow> string \<Rightarrow> js option" where
  "post_probe_reply is_connected version =
     (if is_connected
      then Some (Obj [(''channel'', Str channel), (''type'', Str ''extension-ready''), (''version'', Str version)])
      else None)"

definition post_reply :: "string \<Rightarrow> bool \<Rightarrow> string option \<Rightarrow> string option \<Rightarrow> js option" where
  "post_reply version accepted reply_type session =
     (if \<not> accepted then None
      else Some (Obj ([(''channel'', Str channel), (''type'', Str (orelse reply_type ''connect-accepted'')),
          (''version'', Str version)] @
        (case session of None \<Rightarrow> [] | Some i \<Rightarrow> [(''sessionId'', Str i)]))))"

text \<open>The answer of the service worker to the page of an instance, as the bridge reads it.\<close>

fun accepted_reply :: "page_reply \<Rightarrow> bool \<times> string option \<times> string option" where
  "accepted_reply (Pending_accepted session) = (True, Some ''recording-pending-accepted'', Some session)"
| "accepted_reply Token_accepted = (True, None, None)"
| "accepted_reply _ = (False, None, None)"

fun post_status_reply :: "string \<Rightarrow> page_reply \<Rightarrow> js option" where
  "post_status_reply version (Token_is_expired session) =
     Some (Obj [(''channel'', Str channel), (''type'', Str ''recording-token-expired''), (''version'', Str version),
       (''sessionId'', Str session)])"
| "post_status_reply version _ = None"

definition post_broadcast :: "string \<Rightarrow> js \<Rightarrow> js option" where
  "post_broadcast version message =
     (if attr message ''type'' \<in> {Str ''recording-token-expired'', Str ''recording-finished'', Str ''repick-candidates''}
      then Some (Obj ([(''channel'', Str channel), (''type'', attr message ''type''), (''version'', Str version),
          (''sessionId'', attr message ''sessionId'')] @
        (if is_string (attr message ''stepId'') then [(''stepId'', attr message ''stepId'')] else []) @
        (if is_array (attr message ''candidates'') then [(''candidates'', attr message ''candidates'')] else [])))
      else None)"

text \<open>A broadcast of the service worker as the message its tabs are sent.\<close>

definition broadcast_message :: "string \<Rightarrow> string \<Rightarrow> fields \<Rightarrow> js" where
  "broadcast_message kind session extra = Obj ([(''type'', Str kind), (''sessionId'', Str session)] @ extra)"

section \<open>The connect page\<close>

datatype connect_screen = Waiting_for_extension | Screen_connected string | Opened_by_hand

fun connect_headline :: "connect_screen \<Rightarrow> string" where
  "connect_headline Waiting_for_extension = ''Connecting your extension'' @ [CHR 0xE2, CHR 0x80, CHR 0xA6]"
| "connect_headline (Screen_connected version) = ''Your extension is connected''"
| "connect_headline Opened_by_hand = ''Connect your extension''"

definition screen_opened :: "string option \<Rightarrow> connect_screen" where
  "screen_opened nonce = (case nonce of None \<Rightarrow> Opened_by_hand | Some _ \<Rightarrow> Waiting_for_extension)"

text \<open>
  What the page posts when it is shown, and, on a message it hears from its own window and
  origin, what it posts and what it shows then. Opened without a nonce it neither posts nor hears.
\<close>

definition hand_over :: "string option \<Rightarrow> string \<Rightarrow> fields list" where
  "hand_over nonce origin = (case nonce of None \<Rightarrow> [] | Some n \<Rightarrow> [handshake_message n origin])"

definition screen_hears :: "string option \<Rightarrow> string \<Rightarrow> heard \<Rightarrow> connect_screen \<Rightarrow> connect_screen \<times> fields list" where
  "screen_hears nonce origin ev shown =
     (case ev of
        Heard source_ok origin_ok data \<Rightarrow>
          if nonce = None \<or> \<not> source_ok \<or> \<not> origin_ok then (shown, [])
          else (case read_extension_message data of
            None \<Rightarrow> (shown, [])
          | Some said \<Rightarrow>
              (if em_type said = Connect_accepted then Screen_connected (em_version said) else shown,
               if em_type said = Extension_ready then hand_over nonce origin else []))
      | Timed_out \<Rightarrow> (shown, []))"

text \<open>The time that a code expires is \<open>NaN\<close> when it is no date; \<open>Math.round\<close> takes halves up.\<close>

definition code_lifetime :: "jsnum \<Rightarrow> int \<Rightarrow> string" where
  "code_lifetime expires now =
     (case expires of
        NaN \<Rightarrow> ''This code has expired. Show a new one.''
      | Num e \<Rightarrow>
          (let left = (2 * (e - now) + 60000) div 120000 in
           if left \<le> 0 then ''This code has expired. Show a new one.''
           else if left = 1 then ''This code works once, and for one more minute.''
           else ''This code works once, and for the next '' @ show_int left @ '' minutes.''))"

definition code_refusal :: "js \<Rightarrow> string" where
  "code_refusal error =
     (if attr error ''code'' = Str ''bad_code'' then ''That code is no longer valid. Show a new one.''
      else ''The code could not be shown. Try again in a moment.'')"

section \<open>Lemmas\<close>

lemma channels_agree: "channel = extension_channel"
  by (simp add: channel_def extension_channel_def)

definition page_of :: "string \<Rightarrow> string \<Rightarrow> int \<Rightarrow> sender" where
  "page_of extension_id origin tab =
     \<lparr>sn_id = Some extension_id, sn_tab = Some tab, sn_frame = Some 0, sn_origin = Some origin, sn_url = None\<rparr>"

lemma pending_message_fields:
  "field (recording_pending_message r) ''channel'' = Str channel"
  "field (recording_pending_message r) ''type'' = Str ''recording-pending''"
  "field (recording_pending_message r) ''backendOrigin'' = Str (pr_backend_origin r)"
  "field (repick_pending_message p) ''channel'' = Str channel"
  "field (repick_pending_message p) ''type'' = Str ''recording-pending''"
  "field (repick_pending_message p) ''backendOrigin'' = Str (pp_backend_origin p)"
  by (simp_all add: recording_pending_message_def repick_pending_message_def field_def channels_agree)

lemma read_pending_message:
  "read_pending_recording (Obj (recording_pending_message r)) =
     Some (\<lparr>pe_session_id = pr_session_id r, pe_token = pr_token r, pe_backend_origin = pr_backend_origin r,
       pe_workflow_id = pr_workflow_id r, pe_workflow_name = pr_workflow_name r\<rparr>,
       To_record (pr_variables r) (pr_secrets r))"
  by (simp add: read_pending_recording_def recording_pending_message_def field_def)

lemma read_repick_message:
  "read_pending_recording (Obj (repick_pending_message p)) =
     (if pp_step_id p = [] then None
      else Some (\<lparr>pe_session_id = pp_session_id p, pe_token = pp_token p, pe_backend_origin = pp_backend_origin p,
       pe_workflow_id = pp_workflow_id p, pe_workflow_name = pp_workflow_name p\<rparr>, To_repick (pp_step_id p)))"
  by (simp add: read_pending_recording_def repick_pending_message_def field_def)

lemma encoded_plain: "x \<in> set (encode_uri_component s) \<Longrightarrow> x \<notin> set ''+&=?#/''"
proof -
  assume "x \<in> set (encode_uri_component s)"
  then obtain c where "x \<in> set (uri_char c)" by (auto simp: encode_uri_component_def)
  then show ?thesis
    using uri_safe_plain [of c] percent_chars [of x c] by (auto simp: uri_char_def split: if_splits)
qed

section \<open>Properties\<close>

text \<open>A recording that the web application asks for reaches the extension as it was asked: the
  message its page posts passes the bridge of that page, and the service worker that is
  connected to that origin stores a pending recording with the same session, token, Workflow,
  Variables and Secrets, unless one is going on; the page is answered for that session in a
  message that the web application reads. A page of another origin reaches nothing.\<close>

theorem pending_recording_crosses:
  assumes "current = None \<or> (\<exists>a. current = Some a \<and> ac_state a = Pending_recording)"
  shows "bridge_forward own True True (Obj (recording_pending_message r)) =
      (if pr_backend_origin r = own then Some (Obj (recording_pending_message r)) else None) \<and>
    accept_recording_page_message (Some (pr_backend_origin r)) extension_id
        (page_of extension_id (pr_backend_origin r) tab) (Obj (recording_pending_message r)) current =
      (Pending_accepted (pr_session_id r),
       Some (pending_recording \<lparr>pe_session_id = pr_session_id r, pe_token = pr_token r,
         pe_backend_origin = pr_backend_origin r, pe_workflow_id = pr_workflow_id r,
         pe_workflow_name = pr_workflow_name r\<rparr> (To_record (pr_variables r) (pr_secrets r)) (Some tab)), []) \<and>
    (origin \<noteq> pr_backend_origin r \<longrightarrow>
      accept_recording_page_message (Some (pr_backend_origin r)) extension_id
        (page_of extension_id origin tab) (Obj (recording_pending_message r)) current = (Page_ignored, current, [])) \<and>
    (case accepted_reply (Pending_accepted (pr_session_id r)) of (accepted, reply_type, session) \<Rightarrow>
      map_option em_session_id (Option.bind (post_reply version accepted reply_type session) read_extension_message) =
        Some (Some (pr_session_id r)))"
proof (intro conjI)
  show "bridge_forward own True True (Obj (recording_pending_message r)) =
      (if pr_backend_origin r = own then Some (Obj (recording_pending_message r)) else None)"
    by (simp add: bridge_forward_def pending_message_fields handshake_type_def)
  have type_neq: "Str ''recording-pending'' \<noteq> Str ''recording-status''" by simp
  show "accept_recording_page_message (Some (pr_backend_origin r)) extension_id
        (page_of extension_id (pr_backend_origin r) tab) (Obj (recording_pending_message r)) current =
      (Pending_accepted (pr_session_id r),
       Some (pending_recording \<lparr>pe_session_id = pr_session_id r, pe_token = pr_token r,
         pe_backend_origin = pr_backend_origin r, pe_workflow_id = pr_workflow_id r,
         pe_workflow_name = pr_workflow_name r\<rparr> (To_record (pr_variables r) (pr_secrets r)) (Some tab)), [])"
    using assms
    by (auto simp: accept_recording_page_message_def from_connected_page_def page_of_def pending_message_fields
        accept_pending_def read_pending_message)
  show "origin \<noteq> pr_backend_origin r \<longrightarrow>
      accept_recording_page_message (Some (pr_backend_origin r)) extension_id
        (page_of extension_id origin tab) (Obj (recording_pending_message r)) current = (Page_ignored, current, [])"
    by (simp add: accept_recording_page_message_def from_connected_page_def page_of_def)
  show "case accepted_reply (Pending_accepted (pr_session_id r)) of (accepted, reply_type, session) \<Rightarrow>
      map_option em_session_id (Option.bind (post_reply version accepted reply_type session) read_extension_message) =
        Some (Some (pr_session_id r))"
    by (simp add: post_reply_def read_extension_message_def field_def channels_agree extension_message_type_named_def)
qed

definition sample_request :: pending_recording where
  "sample_request = \<lparr>pr_session_id = ''s1'', pr_token = ''t'', pr_backend_origin = ''https://sbs.test'',
     pr_workflow_id = ''w1'', pr_workflow_name = ''Orders'', pr_variables = [], pr_secrets = []\<rparr>"

theorem pending_recording_crosses_witness:
  "bridge_forward ''https://sbs.test'' True True (Obj (recording_pending_message sample_request)) =
     Some (Obj (recording_pending_message sample_request)) \<and>
   fst (accept_recording_page_message (Some ''https://sbs.test'') ''ext'' (page_of ''ext'' ''https://sbs.test'' 5)
       (Obj (recording_pending_message sample_request)) None) = Pending_accepted ''s1''"
  using pending_recording_crosses [of None "''https://sbs.test''" sample_request "''ext''" 5]
  by (simp add: sample_request_def)

lemma nonce_reads_back:
  assumes "CHR ''?'' \<notin> set origin" and "CHR ''#'' \<notin> set origin"
  shows "params_get (parse_params (query_of (origin @ ''/connect?nonce='' @ encode_uri_component nonce))) ''nonce'' =
    Some nonce"
proof -
  let ?e = "encode_uri_component nonce"
  have no: "CHR ''#'' \<notin> set ?e" "CHR ''&'' \<notin> set ?e" "CHR ''='' \<notin> set ?e"
    using encoded_plain [of _ nonce] by fastforce+
  have "before (CHR ''#'') (origin @ ''/connect?nonce='' @ ?e) = origin @ ''/connect?nonce='' @ ?e"
    by (rule before_id) (simp add: assms no)
  moreover have "after (CHR ''?'') ((origin @ ''/connect'') @ CHR ''?'' # ''nonce='' @ ?e) = ''nonce='' @ ?e"
    by (rule after_append) (simp add: assms)
  ultimately have query: "query_of (origin @ ''/connect?nonce='' @ ?e) = ''nonce='' @ ?e"
    by (simp add: query_of_def)
  have "split_on (CHR ''&'') (''nonce='' @ ?e) = [''nonce='' @ ?e]"
    by (rule split_on_plain) (simp add: no)
  moreover have "form_decode ''nonce'' = ''nonce''"
    by code_simp
  moreover have "form_decode ?e = nonce"
    using uri.dec_enc [of nonce] by simp
  ultimately show ?thesis
    unfolding query by (simp add: parse_params_def parse_pair_def params_get_def)
qed

text \<open>C36. The page that the extension opens connects it: the nonce in its address is the one the page
  hands over, the bridge of that page lets it through, the service worker takes it within the
  lifetime of the attempt and is connected to the instance from then on, and the page is
  told so and says it. The nonce is spent: the same message a second time is refused.\<close>

theorem opened_page_connects:
  assumes "open_the_connect_page parse permitted nonce tab opened (Str origin) c = (Inr url, c')"
    and "CHR ''?'' \<notin> set origin" and "CHR ''#'' \<notin> set origin"
    and "now - opened \<le> attempt_lifetime_ms"
  shows "\<exists>forwarded c''. (let heard_nonce = params_get (parse_params (query_of url)) ''nonce'' in
      screen_opened heard_nonce = Waiting_for_extension \<and>
      map (\<lambda>m. bridge_forward origin True True (Obj m)) (hand_over heard_nonce origin) = [Some forwarded] \<and>
      accept_handshake extension_id now forwarded (page_of extension_id origin tab) c' = (True, c'') \<and>
      cn_connection c'' = Some origin \<and>
      fst (accept_handshake extension_id now forwarded (page_of extension_id origin tab) c'') = False \<and>
      (case post_reply version True None None of None \<Rightarrow> False
       | Some said \<Rightarrow> fst (screen_hears heard_nonce origin (Heard True True said) Waiting_for_extension) =
           Screen_connected version))"
proof -
  from assms(1) have url: "url = origin @ ''/connect?nonce='' @ encode_uri_component nonce"
    and c': "cn_attempt c' = Some \<lparr>at_origin = origin, at_nonce = nonce, at_tab = tab, at_opened = opened\<rparr>"
    by (auto simp: open_the_connect_page_def canonical_Some split: option.splits if_splits)
  let ?message = "Obj [(''channel'', Str channel), (''type'', Str handshake_type), (''nonce'', Str nonce),
      (''instanceOrigin'', Str origin)]"
  let ?c = "c'\<lparr>cn_connection := Some origin, cn_attempt := None\<rparr>"
  have read: "params_get (parse_params (query_of url)) ''nonce'' = Some nonce"
    unfolding url by (rule nonce_reads_back) (rule assms(2,3))+
  have forwards: "bridge_forward origin True True (Obj (handshake_message nonce origin)) = Some ?message"
    by (simp add: bridge_forward_def handshake_message_def field_def channels_agree handshake_type_def)
  have accepts: "accept_handshake extension_id now ?message (page_of extension_id origin tab) c' = (True, ?c)"
    using c' assms(4)
    by (simp add: accept_handshake_def read_attempt_def judge_handshake_def read_handshake_def page_of_def field_def
        handshake_type_def)
  have spent: "fst (accept_handshake extension_id now ?message (page_of extension_id origin tab) ?c) = False"
    by (simp add: accept_handshake_def read_attempt_def judge_handshake_def)
  have told: "case post_reply version True None None of None \<Rightarrow> False
       | Some said \<Rightarrow> fst (screen_hears (Some nonce) origin (Heard True True said) Waiting_for_extension) =
           Screen_connected version"
    by (simp add: post_reply_def screen_hears_def read_extension_message_def field_def channels_agree
        extension_message_type_named_def version_of_message_def)
  show ?thesis
    by (intro exI [of _ ?message] exI [of _ ?c])
      (simp add: Let_def read screen_opened_def hand_over_def forwards accepts spent told del: attr_Obj)
qed

theorem opened_page_connects_witness:
  "\<exists>url c' forwarded c''. open_the_connect_page instance_parser (\<lambda>_. True) ''ab12'' 5 10 (Str ''https://sbs.test'') unconnected =
      (Inr url, c') \<and>
    accept_handshake ''ext'' 20 forwarded (page_of ''ext'' ''https://sbs.test'' 5) c' = (True, c'') \<and>
    cn_connection c'' = Some ''https://sbs.test''"
proof -
  have "\<exists>url c'. open_the_connect_page instance_parser (\<lambda>_. True) ''ab12'' 5 10 (Str ''https://sbs.test'') unconnected =
      (Inr url, c')"
  proof -
    have "canonical instance_parser (Str ''https://sbs.test'') = Some ''https://sbs.test''" by code_simp
    then show ?thesis by (simp add: open_the_connect_page_def)
  qed
  then obtain url c' where opened: "open_the_connect_page instance_parser (\<lambda>_. True) ''ab12'' 5 10 (Str ''https://sbs.test'') unconnected =
      (Inr url, c')" by blast
  moreover have "(20::int) - 10 \<le> attempt_lifetime_ms" by (simp add: attempt_lifetime_ms_def)
  ultimately show ?thesis
    using opened_page_connects [OF opened, of 20 "''ext''" "''1.0.0''"] by (auto simp: Let_def)
qed

text \<open>
  What the extension tells the pages of its instance is read there as it was told: a recording
  that is over, a token that expired, the candidates of a re-pick.
\<close>

lemma broadcasts_are_read:
  assumes "kind \<in> {''recording-token-expired'', ''recording-finished''}"
  shows "map_option (\<lambda>m. (em_version m, em_session_id m))
      (Option.bind (post_broadcast version (broadcast_message kind session extra)) read_extension_message) =
    Some (version, Some session)"
  using assms
  by (auto simp: post_broadcast_def broadcast_message_def read_extension_message_def field_def channels_agree
      extension_message_type_named_def version_of_message_def)

lemma repick_broadcast_is_read:
  "Option.bind (post_broadcast version (broadcast_message ''repick-candidates'' session
       [(''stepId'', Str step), (''candidates'', Arr candidates)])) read_extension_message =
     Some \<lparr>em_type = Repick_candidates, em_version = version, em_session_id = Some session,
       em_step_id = Some step, em_candidates = Some candidates\<rparr>"
  by (simp add: post_broadcast_def broadcast_message_def read_extension_message_def field_def channels_agree
      extension_message_type_named_def version_of_message_def)

end
