(* ===== verification/RecorderContent.thy ===== *)
theory RecorderContent
  imports Bridge
begin

text \<open>
  The script that the extension runs in the recorded page
  (\<open>apps/extension/src/recorder-content.js\<close>): the candidates by which an element is found again, and the
  messages on presses, clicks, changes and frames. A page is the list of its elements in document order,
  each at its address (the indices of the children from the document element down) with an
  identity; what the page's own scripts do to it is an event. Local names are CSS identifiers.
\<close>

section \<open>Elements\<close>

datatype element_kind = Input_element string | Textarea_element | Select_element | Frame_element bool | Other_element

text \<open>
  \<open>dn_labels\<close> are the texts of the labels of a control, \<open>dn_label_texts\<close> the text nodes right in the
  first of them. A frame has with it whether its document is out of reach.
\<close>

record dom_node =
  dn_ref :: nat
  dn_name :: string
  dn_kind :: element_kind
  dn_attributes :: "(string \<times> string) list"
  dn_text :: string
  dn_value :: string
  dn_labels :: "string list"
  dn_label_texts :: "string list"

type_synonym address = "nat list"
type_synonym element = "address \<times> dom_node"
type_synonym dom = "element list"

definition attribute :: "dom_node \<Rightarrow> string \<Rightarrow> string option" where
  "attribute n name = map_of (dn_attributes n) name"

definition attribute_text :: "dom_node \<Rightarrow> string \<Rightarrow> string" where
  "attribute_text n name = orelse (attribute n name) []"

definition is_password :: "dom_node \<Rightarrow> bool" where
  "is_password n \<longleftrightarrow> dn_kind n = Input_element ''password''"

definition is_input :: "dom_node \<Rightarrow> bool" where
  "is_input n \<longleftrightarrow> (case dn_kind n of Input_element _ \<Rightarrow> True | _ \<Rightarrow> False)"

text \<open>\<open>value.replace(/\s+/g, " ").trim()\<close>.\<close>

definition normalized :: "string \<Rightarrow> string" where
  "normalized s = trim (join '' '' (split_white [] s))"

section \<open>Selectors\<close>

text \<open>\<open>CSS.escape\<close>: the characters before, and the one that is escaped.\<close>

definition hex_escape :: "char \<Rightarrow> string" where
  "hex_escape c = CHR 0x5C # (if code c < 16 then [] else [hex_digit (code c div 16)]) @ [hex_digit (code c mod 16)] @ '' ''"

definition escape_char :: "string \<Rightarrow> char \<Rightarrow> string" where
  "escape_char earlier c =
     (if code c = 0 then [CHR 0xEF, CHR 0xBF, CHR 0xBD]
      else if code c < 32 \<or> code c = 127 \<or> (is_digit c \<and> (earlier = [] \<or> earlier = ''-'')) then hex_escape c
      else if 128 \<le> code c \<or> is_letter c \<or> is_digit c \<or> c \<in> set ''-_'' then [c]
      else [CHR 0x5C, c])"

definition selector_escaped :: "string \<Rightarrow> string" where
  "selector_escaped s =
     (if s = ''-'' then [CHR 0x5C, CHR ''-'']
      else concat (map (\<lambda>i. escape_char (take i s) (s ! i)) [0..<length s]))"

datatype css_part = Css_part (part_name: string) (part_index: "nat option")

datatype css_selector = By_id string | By_path "css_part list"

fun part_text :: "css_part \<Rightarrow> string" where
  "part_text (Css_part name None) = name"
| "part_text (Css_part name (Some n)) = name @ '':nth-of-type('' @ show_nat n @ '')''"

fun css_text :: "css_selector \<Rightarrow> string" where
  "css_text (By_id i) = ''#'' @ selector_escaped i"
| "css_text (By_path parts) = join '' > '' (map part_text parts)"

text \<open>The elements with the same parent and local name as the one at an address, in order.\<close>

definition children_of :: "dom \<Rightarrow> address \<Rightarrow> element list" where
  "children_of page parent = filter (\<lambda>(a, n). a \<noteq> [] \<and> butlast a = parent) page"

definition namesakes :: "dom \<Rightarrow> address \<Rightarrow> string \<Rightarrow> element list" where
  "namesakes page a name = (if a = [] then [] else filter (\<lambda>(_, n). dn_name n = name) (children_of page (butlast a)))"

text \<open>What a selector selects: \<open>:nth-of-type\<close> counts the siblings of the same name up to the element.\<close>

definition part_selects :: "dom \<Rightarrow> css_part \<Rightarrow> address \<Rightarrow> bool" where
  "part_selects page part a \<longleftrightarrow>
     (case map_of page a of
        None \<Rightarrow> False
      | Some n \<Rightarrow>
          dn_name n = part_name part \<and>
          (case part_index part of
             None \<Rightarrow> True
           | Some k \<Rightarrow> 0 < k \<and> map fst (take 1 (drop (k - 1) (namesakes page a (dn_name n)))) = [a]))"

text \<open>The parts from the last to the first: each but the last has to select the parent.\<close>

fun chain_selects :: "dom \<Rightarrow> css_part list \<Rightarrow> address \<Rightarrow> bool" where
  "chain_selects page [] a = False"
| "chain_selects page [part] a = part_selects page part a"
| "chain_selects page (part # up # ups) a =
     (part_selects page part a \<and> a \<noteq> [] \<and> chain_selects page (up # ups) (butlast a))"

fun selects :: "dom \<Rightarrow> css_selector \<Rightarrow> element \<Rightarrow> bool" where
  "selects page (By_id i) (a, n) \<longleftrightarrow> attribute n ''id'' = Some i"
| "selects page (By_path parts) (a, n) \<longleftrightarrow> chain_selects page (rev parts) a"

definition the_only :: "element list \<Rightarrow> element \<Rightarrow> bool" where
  "the_only matches e \<longleftrightarrow> length matches = 1 \<and> dn_ref (snd (hd matches)) = dn_ref (snd e)"

definition unique_match :: "dom \<Rightarrow> (element \<Rightarrow> bool) \<Rightarrow> element \<Rightarrow> bool" where
  "unique_match page test e \<longleftrightarrow> the_only (filter test page) e"

section \<open>Candidates\<close>

definition part_of :: "dom \<Rightarrow> address \<Rightarrow> dom_node \<Rightarrow> css_part" where
  "part_of page a n =
     (let siblings = namesakes page a (dn_name n) in
      Css_part (dn_name n)
        (if 1 < length siblings
         then Some (nat (find_index (\<lambda>e. dn_ref (snd e) = dn_ref n) siblings + 1)) else None))"

text \<open>The loop of \<open>cssPath\<close>, from the element up to the document element.\<close>

function path_from :: "dom \<Rightarrow> element \<Rightarrow> address \<Rightarrow> css_part list \<Rightarrow> css_part list" where
  "path_from page e current parts =
     (if current = [] then parts
      else case map_of page current of
        None \<Rightarrow> parts
      | Some n \<Rightarrow>
          let longer = part_of page current n # parts
          in if unique_match page (selects page (By_path longer)) e then longer
             else path_from page e (butlast current) longer)"
  by pat_completeness auto
termination by (relation "measure (\<lambda>(page, e, current, parts). length current)") auto

declare path_from.simps [simp del]

definition css_path :: "dom \<Rightarrow> element \<Rightarrow> css_selector" where
  "css_path page e =
     (let ident = attribute_text (snd e) ''id'' in
      if ident \<noteq> [] \<and> unique_match page (selects page (By_id ident)) e then By_id ident
      else By_path (path_from page e (fst e) []))"

definition has_attribute :: "string \<Rightarrow> string \<Rightarrow> element \<Rightarrow> bool" where
  "has_attribute name v e \<longleftrightarrow> attribute (snd e) name = Some v"

definition label_text :: "dom_node \<Rightarrow> string" where
  "label_text n = normalized (join '' '' (dn_labels n))"

definition is_control :: "element \<Rightarrow> bool" where
  "is_control e \<longleftrightarrow> dn_name (snd e) \<in> {''input'', ''textarea'', ''select'', ''button''}"

text \<open>The text of the element itself, and that of an element it is compared with.\<close>

definition own_text :: "dom_node \<Rightarrow> string" where
  "own_text n = normalized
     (if dn_text n \<noteq> [] then dn_text n else if is_input n \<and> \<not> is_password n then dn_value n else [])"

definition compared_text :: "dom_node \<Rightarrow> string" where
  "compared_text n = normalized (if dn_text n \<noteq> [] then dn_text n else if is_input n then dn_value n else [])"

definition attribute_candidate :: "dom \<Rightarrow> element \<Rightarrow> string \<Rightarrow> string \<Rightarrow> (string \<times> string) list" where
  "attribute_candidate page e name kind =
     (let v = attribute_text (snd e) name
      in if v \<noteq> [] \<and> unique_match page (has_attribute name v) e then [(kind, v)] else [])"

definition label_candidate :: "dom \<Rightarrow> element \<Rightarrow> (string \<times> string) list" where
  "label_candidate page e =
     (let label = label_text (snd e)
      in if label \<noteq> [] \<and> unique_match page (\<lambda>m. is_control m \<and> label_text (snd m) = label) e
         then [(''label'', label)] else [])"

definition aria_candidate :: "dom \<Rightarrow> element \<Rightarrow> (string \<times> string) list" where
  "aria_candidate page e =
     map (\<lambda>(kind, v). (kind, normalized v)) (attribute_candidate page e ''aria-label'' ''label'')"

definition text_candidate :: "dom \<Rightarrow> element \<Rightarrow> (string \<times> string) list" where
  "text_candidate page e =
     (let text = own_text (snd e)
      in if text \<noteq> [] \<and> length text \<le> 120 \<and>
           unique_match page (\<lambda>m. dn_name (snd m) = dn_name (snd e) \<and> compared_text (snd m) = text) e
         then [(''text'', text)] else [])"

definition css_candidate :: "dom \<Rightarrow> element \<Rightarrow> (string \<times> string) list" where
  "css_candidate page e =
     (let css = css_path page e
      in if css_text css \<noteq> [] \<and> unique_match page (selects page css) e then [(''css'', css_text css)] else [])"

definition candidates_for :: "dom \<Rightarrow> element \<Rightarrow> (string \<times> string) list" where
  "candidates_for page e =
     attribute_candidate page e ''data-testid'' ''testid'' @
     attribute_candidate page e ''placeholder'' ''placeholder'' @
     label_candidate page e @ aria_candidate page e @
     attribute_candidate page e ''alt'' ''alt'' @
     text_candidate page e @
     attribute_candidate page e ''title'' ''title'' @
     css_candidate page e"

definition control_description :: "dom_node \<Rightarrow> string" where
  "control_description n =
     (let label = (if dn_labels n = [] then [] else normalized (join '' '' (dn_label_texts n)));
          placeholder = (if is_input n \<or> dn_kind n = Textarea_element then attribute_text n ''placeholder'' else [])
      in if label \<noteq> [] then label else if placeholder \<noteq> [] then placeholder else ''field'')"

section \<open>Finding the element\<close>

function closest :: "dom \<Rightarrow> (dom_node \<Rightarrow> bool) \<Rightarrow> address \<Rightarrow> element option" where
  "closest page test a =
     (case map_of page a of
        None \<Rightarrow> None
      | Some n \<Rightarrow> if test n then Some (a, n) else if a = [] then None else closest page test (butlast a))"
  by pat_completeness auto
termination by (relation "measure (\<lambda>(page, test, a). length a)") auto

declare closest.simps [simp del]

definition in_warning :: "dom_node \<Rightarrow> bool" where
  "in_warning n \<longleftrightarrow> attribute n ''data-step-by-step-warning'' \<noteq> None"

definition acts :: "dom_node \<Rightarrow> bool" where
  "acts n \<longleftrightarrow> dn_name n \<in> {''a'', ''button'', ''input'', ''select'', ''textarea'', ''summary'', ''label''} \<or>
     attribute n ''role'' \<noteq> None \<or> attribute n ''onclick'' \<noteq> None"

text \<open>The target of an event is an element of the page, or something else (the document, a text).\<close>

definition actionable :: "dom \<Rightarrow> address option \<Rightarrow> element option" where
  "actionable page target =
     (case target of
        None \<Rightarrow> None
      | Some a \<Rightarrow>
          if closest page in_warning a \<noteq> None then None
          else (case closest page acts a of
             Some e \<Rightarrow> Some e
           | None \<Rightarrow> map_option (Pair a) (map_of page a)))"

section \<open>State\<close>

record pressed =
  pd_serial :: nat
  pd_correlation :: string
  pd_ref :: nat
  pd_url :: string
  pd_candidates :: "(string \<times> string) list"
  pd_description :: string

record recorder_page =
  rp_dom :: dom
  rp_url :: string
  rp_sequence :: nat
  rp_extract :: "js option"
  rp_presses :: nat
  rp_press :: "pressed option"
  rp_warned :: "nat set"

definition correlation_attribute :: string where
  "correlation_attribute = ''data-step-by-step-correlation''"

definition set_attribute :: "nat \<Rightarrow> string \<Rightarrow> string \<Rightarrow> dom \<Rightarrow> dom" where
  "set_attribute ref name v page =
     map (\<lambda>(a, n). (a, if dn_ref n = ref then n\<lparr>dn_attributes := with_key name v (dn_attributes n)\<rparr> else n)) page"

definition correlation_for :: "string \<Rightarrow> element \<Rightarrow> recorder_page \<Rightarrow> string \<times> recorder_page" where
  "correlation_for page_load e p =
     (let found = attribute_text (snd e) correlation_attribute in
      if found \<noteq> [] then (found, p)
      else
        (let seq = Suc (rp_sequence p); minted = page_load @ '':'' @ show_nat seq
         in (minted, p\<lparr>rp_sequence := seq,
               rp_dom := set_attribute (dn_ref (snd e)) correlation_attribute minted (rp_dom p)\<rparr>)))"

text \<open>The box of a warning, with its text and its button: the last child of the document element.\<close>

definition plain_node :: "nat \<Rightarrow> string \<Rightarrow> (string \<times> string) list \<Rightarrow> string \<Rightarrow> dom_node" where
  "plain_node ref name attributes text =
     \<lparr>dn_ref = ref, dn_name = name, dn_kind = Other_element, dn_attributes = attributes, dn_text = text, dn_value = [],
      dn_labels = [], dn_label_texts = []\<rparr>"

definition warning_box :: "string \<Rightarrow> nat \<Rightarrow> nat \<Rightarrow> dom" where
  "warning_box warning fresh k =
     [([k], plain_node fresh ''div'' [(''data-step-by-step-warning'', ''unsupported''), (''role'', ''alert'')] warning),
      ([k, 0], plain_node (fresh + 1) ''span'' [] warning),
      ([k, 1], plain_node (fresh + 2) ''button'' [(''type'', ''button''), (''aria-label'', ''Dismiss this warning'')] []),
      ([k, 1, 0], plain_node (fresh + 3) ''svg''
         [(''viewBox'', ''0 0 16 16''), (''width'', ''14''), (''height'', ''14''), (''fill'', ''none''),
          (''stroke'', ''currentColor''), (''stroke-width'', ''1.5''), (''stroke-linecap'', ''round''),
          (''aria-hidden'', ''true'')] []),
      ([k, 1, 0, 0], plain_node (fresh + 4) ''path'' [(''d'', ''M4 4l8 8M12 4l-8 8'')] [])]"

definition show_warning :: "string \<Rightarrow> nat \<Rightarrow> dom \<Rightarrow> dom" where
  "show_warning warning fresh page =
     (if list_ex (\<lambda>e. has_attribute ''data-step-by-step-warning'' ''unsupported'' e \<and> dn_text (snd e) = warning) page
      then page else page @ warning_box warning fresh (length (children_of page [])))"

definition dismiss_warning :: "address \<Rightarrow> dom \<Rightarrow> dom" where
  "dismiss_warning box page = filter (\<lambda>(a, n). \<not> prefix box a) page"

definition candidates_value :: "(string \<times> string) list \<Rightarrow> js" where
  "candidates_value candidates =
     Arr (map (\<lambda>(kind, v). Obj [(''kind'', Str kind), (''value'', Str v)]) candidates)"

definition recorder_event :: "string \<Rightarrow> string \<Rightarrow> string \<Rightarrow> (string \<times> string) list \<Rightarrow> string \<Rightarrow> fields \<Rightarrow> js" where
  "recorder_event kind correlation page_load candidates description extra =
     Obj ([(''type'', Str ''recorder-event''), (''event'', Str kind), (''correlation'', Str correlation),
        (''pageLoad'', Str page_load), (''candidates'', candidates_value candidates),
        (''description'', Str description)] @ extra)"

definition recorder_ax :: "string \<Rightarrow> string \<Rightarrow> js" where
  "recorder_ax correlation page_load =
     Obj [(''type'', Str ''recorder-ax''), (''correlation'', Str correlation), (''pageLoad'', Str page_load)]"

definition text_description :: "dom_node \<Rightarrow> string" where
  "text_description n = take 120 (normalized (dn_text n))"

section \<open>Events\<close>

definition on_press :: "string \<Rightarrow> address option \<Rightarrow> int \<Rightarrow> recorder_page \<Rightarrow> recorder_page \<times> js list" where
  "on_press page_load target button p =
     (case actionable (rp_dom p) target of
        None \<Rightarrow> (p, [])
      | Some e \<Rightarrow>
          (let (correlation, p') = correlation_for page_load e p; sent = [recorder_ax correlation page_load] in
           if button \<noteq> 0 then (p', sent)
           else (p'\<lparr>rp_presses := Suc (rp_presses p'),
                 rp_press := Some \<lparr>pd_serial = rp_presses p', pd_correlation = correlation, pd_ref = dn_ref (snd e),
                   pd_url = rp_url p', pd_candidates = candidates_for (rp_dom p') e,
                   pd_description = text_description (snd e)\<rparr>\<rparr>, sent)))"

text \<open>The timer of a press: it says something only when the press became no click and did something.\<close>

definition on_press_timer :: "string \<Rightarrow> nat \<Rightarrow> recorder_page \<Rightarrow> recorder_page \<times> js list" where
  "on_press_timer page_load serial p =
     (case rp_press p of
        None \<Rightarrow> (p, [])
      | Some pressed \<Rightarrow>
          if pd_serial pressed \<noteq> serial then (p, [])
          else if rp_url p = pd_url pressed \<and> pd_ref pressed \<in> (dn_ref \<circ> snd) ` set (rp_dom p)
          then (p\<lparr>rp_press := None\<rparr>, [])
          else (p\<lparr>rp_press := None\<rparr>,
                [recorder_event ''click'' (pd_correlation pressed) page_load (pd_candidates pressed)
                   (pd_description pressed) []]))"

definition on_focus :: "string \<Rightarrow> address option \<Rightarrow> recorder_page \<Rightarrow> recorder_page \<times> js list" where
  "on_focus page_load target p =
     (case actionable (rp_dom p) target of
        None \<Rightarrow> (p, [])
      | Some e \<Rightarrow> (let (correlation, p') = correlation_for page_load e p in (p', [recorder_ax correlation page_load])))"

definition on_click :: "string \<Rightarrow> address option \<Rightarrow> recorder_page \<Rightarrow> recorder_page \<times> js list" where
  "on_click page_load target p =
     (let p = p\<lparr>rp_press := None\<rparr> in
      case actionable (rp_dom p) target of
        None \<Rightarrow> (p, [])
      | Some e \<Rightarrow>
          (let (correlation, p') = correlation_for page_load e (p\<lparr>rp_extract := None\<rparr>)
           in (p', [recorder_event (if rp_extract p = None then ''click'' else ''extract'') correlation page_load
                (candidates_for (rp_dom p') e) (text_description (snd e))
                (case rp_extract p of None \<Rightarrow> [] | Some armed \<Rightarrow> [(''extract'', armed)])])))"

definition on_change :: "string \<Rightarrow> address option \<Rightarrow> recorder_page \<Rightarrow> recorder_page \<times> js list" where
  "on_change page_load target p =
     (case Option.bind target (\<lambda>a. map_option (Pair a) (map_of (rp_dom p) a)) of
        None \<Rightarrow> (p, [])
      | Some e \<Rightarrow>
          if \<not> is_input (snd e) \<and> dn_kind (snd e) \<notin> {Textarea_element, Select_element} then (p, [])
          else if dn_kind (snd e) \<in> {Input_element ''button'', Input_element ''checkbox'', Input_element ''radio'',
              Input_element ''submit''} then (p, [])
          else
            (let (correlation, p') = correlation_for page_load e p
             in (p', [recorder_event (if dn_kind (snd e) = Select_element then ''select'' else ''type'') correlation
                  page_load (candidates_for (rp_dom p') e) (control_description (snd e))
                  [(''value'', Str (if is_password (snd e) then [] else dn_value (snd e))),
                   (''needsSecret'', Bool (is_password (snd e)))]])))"

definition unreachable_warning :: string where
  "unreachable_warning =
     ''The workflow can'' @ [CHR 0x27] @
     ''t reach this embedded part of the page later. The step was recorded anyway.''"

definition cross_origin_frame :: js where
  "cross_origin_frame = Obj [(''reason'', Str ''cross-origin-frame''), (''warning'', Str unreachable_warning)]"

text \<open>
  The interval: the frame that has the focus, the first time that it is out of reach. \<open>fresh\<close> are
  the identities that the elements of the warning get.
\<close>

definition on_tick :: "string \<Rightarrow> address option \<Rightarrow> nat \<Rightarrow> recorder_page \<Rightarrow> recorder_page \<times> js list" where
  "on_tick page_load active fresh p =
     (case Option.bind active (\<lambda>a. map_option (Pair a) (map_of (rp_dom p) a)) of
        None \<Rightarrow> (p, [])
      | Some e \<Rightarrow>
          if dn_kind (snd e) \<noteq> Frame_element True \<or> dn_ref (snd e) \<in> rp_warned p then (p, [])
          else
            (let warned = p\<lparr>rp_warned := insert (dn_ref (snd e)) (rp_warned p),
                   rp_dom := show_warning unreachable_warning fresh (rp_dom p)\<rparr>;
                 (correlation, p') = correlation_for page_load e warned;
                 title = attribute_text (snd e) ''title''
             in (p', [recorder_event ''click'' correlation page_load (candidates_for (rp_dom p') e)
                  (if title = [] then ''embedded action'' else title) [(''unsupported'', cross_origin_frame)]])))"

text \<open>\<open>Page_changed\<close> is what the page's own scripts and the browser do between two events.\<close>

datatype page_event =
    Press "address option" int
  | Press_timer nat
  | Focus "address option"
  | Click "address option"
  | Change "address option"
  | Tick "address option" nat
  | Armed js
  | Warned string nat
  | Dismissed address
  | Page_changed dom string

fun page_step :: "string \<Rightarrow> recorder_page \<Rightarrow> page_event \<Rightarrow> recorder_page \<times> js list" where
  "page_step page_load p (Press target button) = on_press page_load target button p"
| "page_step page_load p (Press_timer serial) = on_press_timer page_load serial p"
| "page_step page_load p (Focus target) = on_focus page_load target p"
| "page_step page_load p (Click target) = on_click page_load target p"
| "page_step page_load p (Change target) = on_change page_load target p"
| "page_step page_load p (Tick active fresh) = on_tick page_load active fresh p"
| "page_step page_load p (Armed extract) = (p\<lparr>rp_extract := (if extract = Null then None else Some extract)\<rparr>, [])"
| "page_step page_load p (Warned warning fresh) = (p\<lparr>rp_dom := show_warning warning fresh (rp_dom p)\<rparr>, [])"
| "page_step page_load p (Dismissed box) = (p\<lparr>rp_dom := dismiss_warning box (rp_dom p)\<rparr>, [])"
| "page_step page_load p (Page_changed page url) = (p\<lparr>rp_dom := page, rp_url := url\<rparr>, [])"

section \<open>What a candidate names\<close>

text \<open>A page as a browser holds it: every parent is there, no address and no identity is there twice.\<close>

definition page_ok :: "dom \<Rightarrow> bool" where
  "page_ok page \<longleftrightarrow> distinct (map fst page) \<and> distinct (map (dn_ref \<circ> snd) page) \<and>
     list_all (\<lambda>(a, n). (a \<noteq> [] \<longrightarrow> butlast a \<in> fst ` set page) \<and> dn_name n \<noteq> []) page"

lemma page_ok_D:
  assumes "page_ok page"
  shows "distinct (map fst page)" "distinct (map (dn_ref \<circ> snd) page)" "distinct page"
    and "\<And>a n. (a, n) \<in> set page \<Longrightarrow> a \<noteq> [] \<Longrightarrow> butlast a \<in> fst ` set page"
    and "\<And>a n. (a, n) \<in> set page \<Longrightarrow> dn_name n \<noteq> []"
    and "\<And>a n. (a, n) \<in> set page \<Longrightarrow> map_of page a = Some n"
  using assms by (auto simp: page_ok_def list_all_iff distinct_map)

lemma the_only_iff:
  assumes "distinct (map (dn_ref \<circ> snd) page)" and "e \<in> set page"
  shows "unique_match page test e \<longleftrightarrow> filter test page = [e]"
proof
  assume "unique_match page test e"
  then obtain x where x: "filter test page = [x]" "dn_ref (snd x) = dn_ref (snd e)"
    by (auto simp: unique_match_def the_only_def length_Suc_conv)
  then have "x \<in> set page" by (metis filter_is_subset in_mono list.set_intros(1))
  with x assms have "x = e"
    using inj_onD [of "dn_ref \<circ> snd" "set page" x e] by (simp add: distinct_map)
  with x show "filter test page = [e]" by simp
qed (simp add: unique_match_def the_only_def)

lemma filter_single: "distinct xs \<Longrightarrow> x \<in> set xs \<Longrightarrow> (\<And>y. y \<in> set xs \<Longrightarrow> P y \<longleftrightarrow> y = x) \<Longrightarrow> filter P xs = [x]"
proof (induction xs)
  case (Cons y ys)
  show ?case
  proof (cases "y = x")
    case True
    moreover have "filter P ys = []" using Cons.prems True by (auto simp: filter_empty_conv)
    ultimately show ?thesis using Cons.prems by simp
  next
    case False
    with Cons show ?thesis by auto
  qed
qed simp

text \<open>The test that a candidate stands for.\<close>

inductive stands_for :: "dom \<Rightarrow> element \<Rightarrow> string \<times> string \<Rightarrow> (element \<Rightarrow> bool) \<Rightarrow> bool" where
  by_attribute: "(name, kind) \<in> {(''data-testid'', ''testid''), (''placeholder'', ''placeholder''), (''alt'', ''alt''),
      (''title'', ''title'')} \<Longrightarrow> stands_for page e (kind, v) (has_attribute name v)"
| by_label: "stands_for page e (''label'', v) (\<lambda>m. is_control m \<and> label_text (snd m) = v)"
| by_aria: "normalized raw = v \<Longrightarrow> stands_for page e (''label'', v) (has_attribute ''aria-label'' raw)"
| by_text: "stands_for page e (''text'', v) (\<lambda>m. dn_name (snd m) = dn_name (snd e) \<and> compared_text (snd m) = v)"
| by_css: "css_text css = v \<Longrightarrow> stands_for page e (''css'', v) (selects page css)"

lemma attribute_candidate_stands:
  "c \<in> set (attribute_candidate page e name kind) \<Longrightarrow>
   \<exists>v. c = (kind, v) \<and> attribute_text (snd e) name = v \<and> v \<noteq> [] \<and> unique_match page (has_attribute name v) e"
  by (auto simp: attribute_candidate_def Let_def split: if_splits)

lemma attribute_stands:
  assumes "c \<in> set (attribute_candidate page e name kind)"
    and "(name, kind) \<in> {(''data-testid'', ''testid''), (''placeholder'', ''placeholder''), (''alt'', ''alt''),
      (''title'', ''title'')}"
  shows "\<exists>test. stands_for page e c test \<and> unique_match page test e"
  using attribute_candidate_stands [OF assms(1)] by_attribute [OF assms(2)] by blast

lemma label_stands:
  "c \<in> set (label_candidate page e) \<Longrightarrow> \<exists>test. stands_for page e c test \<and> unique_match page test e"
  by (auto simp: label_candidate_def Let_def split: if_splits intro: by_label)

lemma aria_stands:
  assumes "c \<in> set (aria_candidate page e)"
  shows "\<exists>test. stands_for page e c test \<and> unique_match page test e"
proof -
  from assms obtain kind v where c: "c = (kind, normalized v)"
      "(kind, v) \<in> set (attribute_candidate page e ''aria-label'' ''label'')"
    by (auto simp: aria_candidate_def)
  from attribute_candidate_stands [OF c(2)] c(1) show ?thesis by (auto intro: by_aria)
qed

lemma text_stands:
  "c \<in> set (text_candidate page e) \<Longrightarrow> \<exists>test. stands_for page e c test \<and> unique_match page test e"
  by (auto simp: text_candidate_def Let_def split: if_splits intro: by_text)

lemma css_stands:
  "c \<in> set (css_candidate page e) \<Longrightarrow> \<exists>test. stands_for page e c test \<and> unique_match page test e"
  by (auto simp: css_candidate_def Let_def split: if_splits intro: by_css)

lemma candidates_stand:
  assumes "c \<in> set (candidates_for page e)"
  shows "\<exists>test. stands_for page e c test \<and> unique_match page test e"
  using assms unfolding candidates_for_def set_append
  by (elim UnE) (erule label_stands aria_stands text_stands css_stands | rule attribute_stands, assumption, simp)+

section \<open>The path of an element\<close>

text \<open>The parts of the whole path, from below the document element down.\<close>

function whole_path :: "dom \<Rightarrow> address \<Rightarrow> css_part list" where
  "whole_path page a =
     (if a = [] then []
      else case map_of page a of
        None \<Rightarrow> []
      | Some n \<Rightarrow> whole_path page (butlast a) @ [part_of page a n])"
  by pat_completeness auto
termination by (relation "measure (\<lambda>(page, a). length a)") auto

declare whole_path.simps [simp del]

lemma namesakes_in: "m \<in> set (namesakes page a name) \<longleftrightarrow>
    a \<noteq> [] \<and> m \<in> set page \<and> fst m \<noteq> [] \<and> butlast (fst m) = butlast a \<and> dn_name (snd m) = name"
  by (auto simp: namesakes_def children_of_def)

lemma namesakes_cong: "butlast a = butlast b \<Longrightarrow> a \<noteq> [] \<Longrightarrow> b \<noteq> [] \<Longrightarrow> namesakes page a name = namesakes page b name"
  by (simp add: namesakes_def)

lemma namesake_position:
  assumes "page_ok page" and "(a, n) \<in> set page" and "a \<noteq> []"
  obtains k where "find_index (\<lambda>e. dn_ref (snd e) = dn_ref n) (namesakes page a (dn_name n)) = int k"
    and "k < length (namesakes page a (dn_name n))" and "namesakes page a (dn_name n) ! k = (a, n)"
proof (cases rule: find_index_cases [of "\<lambda>e. dn_ref (snd e) = dn_ref n" "namesakes page a (dn_name n)"])
  case absent
  have "(a, n) \<in> set (namesakes page a (dn_name n))" using assms by (simp add: namesakes_in)
  with absent(2) show ?thesis by fastforce
next
  case (found k)
  then have "namesakes page a (dn_name n) ! k \<in> set (namesakes page a (dn_name n))" by simp
  then have "namesakes page a (dn_name n) ! k \<in> set page" by (simp only: namesakes_in)
  with found(3) page_ok_D(2) [OF assms(1)] assms(2) have "namesakes page a (dn_name n) ! k = (a, n)"
    unfolding distinct_map by (metis comp_apply inj_onD snd_conv)
  with found that show ?thesis by blast
qed

lemma part_selects_iff:
  assumes "page_ok page" and "(a, n) \<in> set page" and "a \<noteq> []" and "(b, m) \<in> set page" and "b \<noteq> []"
    and "butlast b = butlast a"
  shows "part_selects page (part_of page a n) b \<longleftrightarrow> b = a"
proof -
  let ?S = "namesakes page a (dn_name n)"
  note look = page_ok_D(6) [OF assms(1)]
  obtain k where k: "find_index (\<lambda>e. dn_ref (snd e) = dn_ref n) ?S = int k" "k < length ?S" "?S ! k = (a, n)"
    using namesake_position [OF assms(1-3)] by blast
  have same: "namesakes page b (dn_name n) = ?S"
    using namesakes_cong assms(3,5,6) by blast
  show ?thesis
  proof (cases "1 < length ?S")
    case True
    then have part: "part_of page a n = Css_part (dn_name n) (Some (Suc k))"
      using k(1) by (simp add: part_of_def Let_def nat_add_distrib)
    have "map fst (take 1 (drop k ?S)) = [a]"
      using k(2,3) by (simp add: take_Suc_conv_app_nth [of 0] hd_drop_conv_nth flip: Cons_nth_drop_Suc)
    then show ?thesis
      using look [OF assms(4)] look [OF assms(2)] same
      by (auto simp: part part_selects_def)
  next
    case False
    then have part: "part_of page a n = Css_part (dn_name n) None" by (simp add: part_of_def)
    have "b = a" if "dn_name m = dn_name n"
    proof -
      have "(b, m) \<in> set ?S" using that assms by (simp add: namesakes_in)
      moreover have "?S = [(a, n)]" using False k(2,3) by (cases ?S) auto
      ultimately show ?thesis by simp
    qed
    then show ?thesis
      using look [OF assms(4)] look [OF assms(2)] by (auto simp: part part_selects_def)
  qed
qed

lemma whole_path_selects:
  assumes "page_ok page" and "(a, n) \<in> set page" and "a \<noteq> []" and "(b, m) \<in> set page"
    and "filter (\<lambda>e. dn_name (snd e) = ''body'') page = [([k], bd)]" and "hd a = k"
  shows "chain_selects page (rev (whole_path page a)) b \<longleftrightarrow> b = a"
  using assms
proof (induction "length a" arbitrary: a n b m)
  case (Suc d)
  note look = page_ok_D(6) [OF Suc.prems(1)]
  have only: "e \<in> set page \<and> dn_name (snd e) = ''body'' \<longleftrightarrow> e = ([k], bd)" for e
    using arg_cong [OF Suc.prems(5), of set] by auto
  then have body: "e \<in> set page \<Longrightarrow> dn_name (snd e) = ''body'' \<Longrightarrow> e = ([k], bd)" for e by blast
  from only have here: "([k], bd) \<in> set page \<and> dn_name bd = ''body''" by (metis snd_conv)
  show ?case
  proof (cases "butlast a = []")
    case True
    then have a: "a = [k]" using Suc.prems(3,6) by (cases a) (auto split: if_splits)
    then have n: "n = bd" using here look [of "[k]" bd] look [OF Suc.prems(2)] by simp
    have path: "whole_path page a = [part_of page a n]"
      using a n here look [of "[k]" bd] by (simp add: whole_path.simps [of page "[k]"] whole_path.simps [of page "[]"])
    have "part_selects page (part_of page a n) b \<Longrightarrow> dn_name m = ''body''"
      using look [OF Suc.prems(4)] here n by (simp add: part_selects_def part_of_def Let_def)
    then have "part_selects page (part_of page a n) b \<Longrightarrow> b = a" using body [OF Suc.prems(4)] a by simp
    moreover have "part_selects page (part_of page a n) a"
      using part_selects_iff [OF Suc.prems(1-3) Suc.prems(2,3)] by simp
    ultimately show ?thesis unfolding path by auto
  next
    case False
    obtain p where p: "(butlast a, p) \<in> set page"
      using page_ok_D(4) [OF Suc.prems(1,2,3)] by force
    have hd: "hd (butlast a) = k" using False Suc.prems(6) by (cases a) auto
    have split: "whole_path page a = whole_path page (butlast a) @ [part_of page a n]"
      using look [OF Suc.prems(2)] Suc.prems(3) by (simp add: whole_path.simps [of page a])
    have ne: "whole_path page (butlast a) \<noteq> []"
      using look [OF p] False by (simp add: whole_path.simps [of page "butlast a"])
    then obtain up ups where up: "rev (whole_path page (butlast a)) = up # ups" by (cases "rev (whole_path page (butlast a))") auto
    have IH: "chain_selects page (up # ups) b' \<longleftrightarrow> b' = butlast a" if "(b', m') \<in> set page" for b' m'
      using Suc.hyps(1) [of "butlast a" p b' m'] Suc.hyps(2) Suc.prems(1,5) p False hd that up by simp
    have "chain_selects page (rev (whole_path page a)) b \<longleftrightarrow>
        part_selects page (part_of page a n) b \<and> b \<noteq> [] \<and> butlast b = butlast a"
    proof (cases "b = []")
      case False
      then obtain m' where "(butlast b, m') \<in> set page"
        using page_ok_D(4) [OF Suc.prems(1,4)] by force
      with IH show ?thesis by (simp add: split up)
    qed (simp add: split up)
    then show ?thesis
      using part_selects_iff [OF Suc.prems(1-3), of b m] Suc.prems(3,4) by blast
  qed
qed simp

lemma path_from_ends:
  assumes "page_ok page" and "current \<in> fst ` set page" and "whole_path page a = whole_path page current @ parts"
  shows "unique_match page (selects page (By_path (path_from page e current parts))) e \<or>
    path_from page e current parts = whole_path page a"
  using assms
proof (induction "length current" arbitrary: current parts)
  case 0
  then show ?case by (simp add: path_from.simps [of page e "[]"] whole_path.simps [of page "[]"])
next
  case (Suc d)
  then have ne: "current \<noteq> []" by auto
  from Suc.prems(2) obtain n where n: "(current, n) \<in> set page" by force
  let ?longer = "part_of page current n # parts"
  have up: "butlast current \<in> fst ` set page" using page_ok_D(4) [OF Suc.prems(1) n ne] .
  have "whole_path page a = whole_path page (butlast current) @ ?longer"
    using Suc.prems(3) ne page_ok_D(6) [OF Suc.prems(1) n] by (simp add: whole_path.simps [of page current])
  then have "unique_match page (selects page (By_path (path_from page e (butlast current) ?longer))) e \<or>
      path_from page e (butlast current) ?longer = whole_path page a"
    using Suc.hyps Suc.prems(1) up by simp
  then show ?case
    using ne page_ok_D(6) [OF Suc.prems(1) n] by (simp add: path_from.simps [of page e current] Let_def)
qed

lemma part_text_nonempty: "part_name part \<noteq> [] \<Longrightarrow> part_text part \<noteq> []"
  by (cases part rule: part_text.cases) auto

lemma join_has_word: "w \<in> set ws \<Longrightarrow> w \<noteq> [] \<Longrightarrow> join sep ws \<noteq> []"
  by (induction sep ws rule: join.induct) auto

lemma path_text_nonempty: "chain_selects page (rev parts) a \<Longrightarrow> page_ok page \<Longrightarrow> css_text (By_path parts) \<noteq> []"
proof -
  assume sel: "chain_selects page (rev parts) a" and ok: "page_ok page"
  then obtain part ups where parts: "rev parts = part # ups" by (cases "rev parts") auto
  have "part_selects page part a" using sel unfolding parts by (cases ups) auto
  then obtain n where "map_of page a = Some n" "dn_name n = part_name part"
    by (auto simp: part_selects_def split: option.splits)
  then have "part_name part \<noteq> []" using page_ok_D(5) [OF ok] map_of_SomeD by metis
  moreover have "part \<in> set parts" using parts by (metis list.set_intros(1) set_rev)
  ultimately show ?thesis
    using part_text_nonempty join_has_word [of "part_text part" "map part_text parts"] by simp
qed

lemma css_path_finds:
  assumes "page_ok page" and "e \<in> set page" and "fst e \<noteq> []"
    and "filter (\<lambda>e. dn_name (snd e) = ''body'') page = [([k], bd)]" and "hd (fst e) = k"
  shows "unique_match page (selects page (css_path page e)) e"
proof -
  obtain a n where e: "e = (a, n)" by (cases e)
  have "selects page (By_path (whole_path page a)) m \<longleftrightarrow> m = e" if "m \<in> set page" for m
  proof -
    obtain b l where m: "m = (b, l)" by (cases m)
    then have "selects page (By_path (whole_path page a)) m \<longleftrightarrow> b = a"
      using whole_path_selects [OF assms(1) _ _ _ assms(4), of a n b l] that assms(2,3,5) e by simp
    moreover have "b = a \<longleftrightarrow> m = e"
      using page_ok_D(6) [OF assms(1), of b l] page_ok_D(6) [OF assms(1), of a n] that assms(2) m e by auto
    ultimately show ?thesis by simp
  qed
  then have "filter (selects page (By_path (whole_path page a))) page = [e]"
    using filter_single [OF page_ok_D(3) [OF assms(1)] assms(2)] by blast
  then have whole: "unique_match page (selects page (By_path (whole_path page a))) e"
    using the_only_iff [OF page_ok_D(2) [OF assms(1)] assms(2)] by simp
  have "unique_match page (selects page (By_path (path_from page e a []))) e"
    using path_from_ends [OF assms(1), of a a "[]" e] whole assms(2) e by force
  then show ?thesis using e by (simp add: css_path_def Let_def)
qed

lemma css_text_of_match: "unique_match page (selects page css) e \<Longrightarrow> page_ok page \<Longrightarrow> css_text css \<noteq> []"
proof (cases css)
  case (By_path parts)
  assume "unique_match page (selects page css) e" and ok: "page_ok page"
  then obtain m where "m \<in> set page" "selects page css m"
    unfolding unique_match_def the_only_def by (metis filter_empty_conv length_0_conv zero_neq_one)
  with By_path ok show ?thesis using path_text_nonempty by (cases m) auto
qed simp

section \<open>Properties\<close>

text \<open>C35. What is recorded of an element names it: each candidate stands for a test that this element
  of the page alone passes, and an element of the body always has a candidate, so a Step is never
  recorded without a way back to its element.\<close>

theorem candidates_name_their_element:
  assumes "page_ok page" and "e \<in> set page" and "fst e \<noteq> []"
    and "filter (\<lambda>e. dn_name (snd e) = ''body'') page = [([k], bd)]" and "hd (fst e) = k"
  shows "candidates_for page e \<noteq> [] \<and>
    list_all (\<lambda>c. \<exists>test. stands_for page e c test \<and> filter test page = [e]) (candidates_for page e)"
proof
  have "css_candidate page e \<noteq> []"
    using css_path_finds [OF assms] css_text_of_match assms(1) by (simp add: css_candidate_def Let_def)
  then show "candidates_for page e \<noteq> []" by (simp add: candidates_for_def)
  show "list_all (\<lambda>c. \<exists>test. stands_for page e c test \<and> filter test page = [e]) (candidates_for page e)"
    unfolding list_all_iff the_only_iff [OF page_ok_D(2) [OF assms(1)] assms(2), symmetric]
    by (intro ballI candidates_stand)
qed

definition sample_input :: "nat \<Rightarrow> string \<Rightarrow> string \<Rightarrow> dom_node" where
  "sample_input ref type v =
     \<lparr>dn_ref = ref, dn_name = ''input'', dn_kind = Input_element type, dn_attributes = [], dn_text = [], dn_value = v,
      dn_labels = [], dn_label_texts = []\<rparr>"

definition sample_page :: "string \<Rightarrow> string \<Rightarrow> dom" where
  "sample_page typed password =
     [([], plain_node 0 ''html'' [] []), ([0], plain_node 1 ''body'' [] []),
      ([0, 0], sample_input 2 ''text'' typed), ([0, 1], sample_input 3 ''password'' password)]"

theorem candidates_name_their_element_witness:
  "candidates_for (sample_page ''ada'' ''pw'') ([0, 1], sample_input 3 ''password'' ''pw'') \<noteq> []"
proof -
  have "page_ok (sample_page ''ada'' ''pw'')"
    by (simp add: page_ok_def sample_page_def plain_node_def sample_input_def)
  moreover have "([0, 1], sample_input 3 ''password'' ''pw'') \<in> set (sample_page ''ada'' ''pw'')"
    by (simp add: sample_page_def)
  moreover have "filter (\<lambda>e. dn_name (snd e) = ''body'') (sample_page ''ada'' ''pw'') = [([0], plain_node 1 ''body'' [] [])]"
    by (simp add: sample_page_def plain_node_def sample_input_def)
  ultimately show ?thesis
    using candidates_name_their_element [of "sample_page ''ada'' ''pw''" "([0, 1], sample_input 3 ''password'' ''pw'')" 0
        "plain_node 1 ''body'' [] []"] by simp
qed

section \<open>Runs\<close>

text \<open>A step that also says something, and what all that it says is like.\<close>

fun run_out :: "('s \<Rightarrow> 'e \<Rightarrow> 's \<times> 'm list) \<Rightarrow> 's \<Rightarrow> 'e list \<Rightarrow> 's \<times> 'm list" where
  "run_out step s [] = (s, [])"
| "run_out step s (e # es) =
     (let (s', sent) = step s e; (s'', later) = run_out step s' es in (s'', sent @ later))"

locale reporter =
  fixes step :: "'s \<Rightarrow> 'e \<Rightarrow> 's \<times> 'm list"
    and inv :: "'s \<Rightarrow> bool"
    and allowed :: "'e \<Rightarrow> bool"
    and good :: "'m \<Rightarrow> bool"
  assumes step_inv: "inv s \<Longrightarrow> allowed e \<Longrightarrow> inv (fst (step s e))"
    and step_good: "inv s \<Longrightarrow> allowed e \<Longrightarrow> list_all good (snd (step s e))"
begin

lemma run_reports: "inv s \<Longrightarrow> list_all allowed es \<Longrightarrow> inv (fst (run_out step s es)) \<and> list_all good (snd (run_out step s es))"
proof (induction es arbitrary: s)
  case (Cons e es)
  then show ?case
    using step_inv [of s e] step_good [of s e] Cons.IH [of "fst (step s e)"]
    by (simp add: Let_def split_beta)
qed simp

end

text \<open>Two steppers that say the same, one on a view of what the other sees.\<close>

locale viewed_reporter = reporter +
  fixes seen :: "'a \<Rightarrow> 'a"
    and seen_event :: "'b \<Rightarrow> 'b"
  assumes step_seen: "inv s \<Longrightarrow> allowed e \<Longrightarrow>
    step (seen s) (seen_event e) = (seen (fst (step s e)), snd (step s e))"
begin

lemma run_seen: "inv s \<Longrightarrow> list_all allowed es \<Longrightarrow>
    run_out step (seen s) (map seen_event es) = (seen (fst (run_out step s es)), snd (run_out step s es))"
proof (induction es arbitrary: s)
  case (Cons e es)
  then show ?case
    using step_inv [of s e] step_seen [of s e] Cons.IH [of "fst (step s e)"]
    by (simp add: Let_def split_beta)
qed simp

end

section \<open>Passwords\<close>

definition masked :: "dom_node \<Rightarrow> dom_node" where
  "masked n = (if is_password n then n\<lparr>dn_value := []\<rparr> else n)"

definition masked_element :: "element \<Rightarrow> element" where
  "masked_element e = (fst e, masked (snd e))"

definition masked_dom :: "dom \<Rightarrow> dom" where
  "masked_dom page = map masked_element page"

definition masked_page :: "recorder_page \<Rightarrow> recorder_page" where
  "masked_page p = p\<lparr>rp_dom := masked_dom (rp_dom p)\<rparr>"

fun masked_event :: "page_event \<Rightarrow> page_event" where
  "masked_event (Page_changed page url) = Page_changed (masked_dom page) url"
| "masked_event e = e"

text \<open>
  Only inputs are called so, they hold no text, and no other input shows what a password is.
\<close>

definition inputs_plain :: "dom \<Rightarrow> bool" where
  "inputs_plain page \<longleftrightarrow>
     list_all (\<lambda>e. (dn_name (snd e) = ''input'' \<longleftrightarrow> is_input (snd e)) \<and> (is_input (snd e) \<longrightarrow> dn_text (snd e) = [])) page"

definition passwords_apart :: "dom \<Rightarrow> bool" where
  "passwords_apart page \<longleftrightarrow> inputs_plain page \<and>
     list_all (\<lambda>m. is_input (snd m) \<and> \<not> is_password (snd m) \<and> own_text (snd m) \<noteq> [] \<longrightarrow>
       list_all (\<lambda>w. is_password (snd w) \<longrightarrow> normalized (dn_value (snd w)) \<noteq> own_text (snd m)) page) page"

lemma masked_simps [simp]:
  "dn_ref (masked n) = dn_ref n" "dn_name (masked n) = dn_name n" "dn_kind (masked n) = dn_kind n"
  "dn_text (masked n) = dn_text n" "attribute (masked n) name = attribute n name"
  "attribute_text (masked n) name = attribute_text n name" "label_text (masked n) = label_text n"
  "is_input (masked n) = is_input n" "is_password (masked n) = is_password n" "own_text (masked n) = own_text n"
  "control_description (masked n) = control_description n" "text_description (masked n) = text_description n"
  "in_warning (masked n) = in_warning n" "acts (masked n) = acts n"
  by (simp_all add: masked_def attribute_def attribute_text_def label_text_def is_input_def is_password_def own_text_def
      control_description_def text_description_def in_warning_def acts_def Let_def)

lemma masked_element_simps [simp]: "fst (masked_element e) = fst e" "snd (masked_element e) = masked (snd e)"
  "masked_element (a, n) = (a, masked n)"
  by (simp_all add: masked_element_def)

lemma masked_lookup [simp]: "map_of (masked_dom page) a = map_option masked (map_of page a)"
  by (induction page) (auto simp: masked_dom_def masked_element_def)

lemma unique_match_masked:
  assumes "\<And>m. m \<in> set page \<Longrightarrow> test' (masked_element m) = test m"
  shows "unique_match (masked_dom page) test' (masked_element e) = unique_match page test e"
proof -
  have "filter test' (masked_dom page) = map masked_element (filter test page)"
    using assms by (simp add: masked_dom_def filter_map comp_def cong: filter_cong)
  then show ?thesis
    by (cases "filter test page") (simp_all add: unique_match_def the_only_def)
qed

lemma children_masked [simp]: "children_of (masked_dom page) a = map masked_element (children_of page a)"
  by (simp add: children_of_def masked_dom_def filter_map comp_def case_prod_unfold)

lemma namesakes_masked [simp]: "namesakes (masked_dom page) a name = map masked_element (namesakes page a name)"
  by (simp add: namesakes_def filter_map comp_def case_prod_unfold)

lemma part_of_masked [simp]: "part_of (masked_dom page) a (masked n) = part_of page a n"
  by (simp add: part_of_def Let_def find_index_map)

lemma part_selects_masked [simp]: "part_selects (masked_dom page) part a = part_selects page part a"
  by (auto simp: part_selects_def drop_map take_map comp_def split: option.splits)

lemma chain_selects_masked [simp]: "chain_selects (masked_dom page) parts a = chain_selects page parts a"
  by (induction page parts a rule: chain_selects.induct) simp_all

lemma selects_masked [simp]: "selects (masked_dom page) css (masked_element m) = selects page css m"
  by (cases css; cases m) (simp_all add: masked_element_def)

lemma path_from_masked [simp]: "path_from (masked_dom page) (masked_element e) current parts = path_from page e current parts"
proof (induction page e current parts rule: path_from.induct)
  case (1 page e current parts)
  then show ?case
    by (subst (1 2) path_from.simps) (auto simp: Let_def unique_match_masked split: option.splits)
qed

lemma css_path_masked [simp]: "css_path (masked_dom page) (masked_element e) = css_path page e"
  by (simp add: css_path_def Let_def unique_match_masked)

lemma closest_masked:
  assumes "\<And>n. test (masked n) = test n"
  shows "closest (masked_dom page) test a = map_option masked_element (closest page test a)"
proof (induction a rule: length_induct)
  case (1 a)
  then show ?case
    by (subst (1 2) closest.simps) (auto simp: assms split: option.splits)
qed

lemma passwords_apart_D:
  assumes "passwords_apart page" and "m \<in> set page"
  shows "dn_name (snd m) = ''input'' \<longleftrightarrow> is_input (snd m)" and "is_input (snd m) \<Longrightarrow> dn_text (snd m) = []"
    and "is_password (snd m) \<Longrightarrow> e \<in> set page \<Longrightarrow> is_input (snd e) \<Longrightarrow> \<not> is_password (snd e) \<Longrightarrow>
      own_text (snd e) \<noteq> [] \<Longrightarrow> normalized (dn_value (snd m)) \<noteq> own_text (snd e)"
  using assms by (auto simp: passwords_apart_def inputs_plain_def list_all_iff)

lemma normalized_Nil [simp]: "normalized [] = []"
  by (simp add: normalized_def split_white_end trim_def strip.simps)

lemma is_password_input: "is_password n \<Longrightarrow> is_input n"
  by (simp add: is_password_def is_input_def)

lemma compared_text_masked:
  assumes "passwords_apart page" and "m \<in> set page" and "e \<in> set page" and "own_text (snd e) \<noteq> []"
    and "dn_name (snd m) = dn_name (snd e)"
  shows "compared_text (masked (snd m)) = own_text (snd e) \<longleftrightarrow> compared_text (snd m) = own_text (snd e)"
proof (cases "is_password (snd m)")
  case True
  then have input: "is_input (snd m)" by (rule is_password_input)
  then have "is_input (snd e)" using passwords_apart_D(1) [OF assms(1)] assms(2,3,5) by metis
  moreover have "\<not> is_password (snd e)"
    using assms(4) calculation passwords_apart_D(2) [OF assms(1,3)] by (auto simp: own_text_def)
  ultimately have "normalized (dn_value (snd m)) \<noteq> own_text (snd e)"
    using passwords_apart_D(3) [OF assms(1,2) True assms(3)] assms(4) by blast
  moreover have "dn_text (snd m) = []" using passwords_apart_D(2) [OF assms(1,2) input] .
  ultimately show ?thesis using True input assms(4) by (simp add: compared_text_def masked_def is_input_def)
qed (simp add: masked_def)

lemma has_attribute_masked [simp]: "has_attribute name v (masked_element e) = has_attribute name v e"
  by (simp add: has_attribute_def)

text \<open>The element that an event is about, with the attributes it had before.\<close>

definition in_page :: "element \<Rightarrow> dom \<Rightarrow> bool" where
  "in_page e page \<longleftrightarrow> (\<exists>attributes. (fst e, (snd e)\<lparr>dn_attributes := attributes\<rparr>) \<in> set page)"

lemma in_page_self: "e \<in> set page \<Longrightarrow> in_page e page"
  unfolding in_page_def by (rule exI [of _ "dn_attributes (snd e)"]) simp

lemma own_text_attributes [simp]: "own_text (n\<lparr>dn_attributes := attributes\<rparr>) = own_text n"
  by (simp add: own_text_def is_input_def is_password_def)

lemma candidates_masked:
  assumes "passwords_apart page" and "in_page e page"
  shows "candidates_for (masked_dom page) (masked_element e) = candidates_for page e"
proof -
  from assms(2) obtain attributes where here: "(fst e, (snd e)\<lparr>dn_attributes := attributes\<rparr>) \<in> set page"
    by (auto simp: in_page_def)
  have attr: "attribute_candidate (masked_dom page) (masked_element e) name kind = attribute_candidate page e name kind" for name kind
    by (simp add: attribute_candidate_def Let_def unique_match_masked)
  have label: "label_candidate (masked_dom page) (masked_element e) = label_candidate page e"
    by (simp add: label_candidate_def Let_def unique_match_masked is_control_def)
  have own: "text_candidate (masked_dom page) (masked_element e) = text_candidate page e"
  proof (cases "own_text (snd e) = []")
    case False
    have "unique_match (masked_dom page)
        (\<lambda>m. dn_name (snd m) = dn_name (snd e) \<and> compared_text (snd m) = own_text (snd e)) (masked_element e) =
      unique_match page (\<lambda>m. dn_name (snd m) = dn_name (snd e) \<and> compared_text (snd m) = own_text (snd e)) e"
      by (rule unique_match_masked) (use compared_text_masked [OF assms(1) _ here] False in auto)
    then show ?thesis by (simp add: text_candidate_def Let_def)
  qed (simp add: text_candidate_def)
  have css: "css_candidate (masked_dom page) (masked_element e) = css_candidate page e"
    by (simp add: css_candidate_def Let_def unique_match_masked)
  show ?thesis by (simp add: candidates_for_def attr label own css aria_candidate_def)
qed

lemma set_attribute_masked [simp]: "set_attribute ref name v (masked_dom page) = masked_dom (set_attribute ref name v page)"
  by (auto simp: set_attribute_def masked_dom_def masked_element_def masked_def is_password_def split_beta)

lemma map_keeps_passwords_apart:
  assumes "passwords_apart page" and "\<And>e. e \<in> set page \<Longrightarrow> \<exists>attributes. snd (f e) = (snd e)\<lparr>dn_attributes := attributes\<rparr>"
  shows "passwords_apart (map f page)"
proof -
  have same: "dn_name (snd (f e)) = dn_name (snd e)" "is_input (snd (f e)) = is_input (snd e)"
    "is_password (snd (f e)) = is_password (snd e)" "dn_text (snd (f e)) = dn_text (snd e)"
    "own_text (snd (f e)) = own_text (snd e)" "dn_value (snd (f e)) = dn_value (snd e)" if "e \<in> set page" for e
    using assms(2) [OF that] by (auto simp: is_input_def is_password_def)
  show ?thesis
    using assms(1) same by (auto simp: passwords_apart_def inputs_plain_def list_all_iff)
qed

lemma node_attributes: "\<exists>attributes. n = n\<lparr>dn_attributes := attributes\<rparr>" for n :: dom_node
  by (rule exI [of _ "dn_attributes n"]) simp

lemma set_attribute_apart: "passwords_apart page \<Longrightarrow> passwords_apart (set_attribute ref name v page)"
  unfolding set_attribute_def
  by (rule map_keeps_passwords_apart, assumption) (auto simp: split_beta node_attributes)

lemma set_attribute_in_page: "e \<in> set page \<Longrightarrow> in_page e (set_attribute ref name v page)"
proof -
  assume "e \<in> set page"
  then have "(\<lambda>(a, n). (a, if dn_ref n = ref then n\<lparr>dn_attributes := with_key name v (dn_attributes n)\<rparr> else n)) e
      \<in> set (set_attribute ref name v page)"
    by (force simp: set_attribute_def)
  then show ?thesis
    by (cases "dn_ref (snd e) = ref") (auto simp: in_page_def split_beta intro: in_page_self [unfolded in_page_def])
qed

lemma warning_box_plain:
  "m \<in> set (warning_box warning fresh k) \<Longrightarrow> \<not> is_input (snd m) \<and> dn_name (snd m) \<noteq> ''input'' \<and> masked_element m = m"
  by (auto simp: warning_box_def plain_node_def is_input_def masked_def is_password_def)

lemma show_warning_masked [simp]: "show_warning warning fresh (masked_dom page) = masked_dom (show_warning warning fresh page)"
proof -
  have "map masked_element (warning_box warning fresh k) = warning_box warning fresh k" for k
    using warning_box_plain by (auto intro: map_idI)
  moreover have "list_ex (\<lambda>e. has_attribute ''data-step-by-step-warning'' ''unsupported'' e \<and> dn_text (snd e) = warning)
      (masked_dom page) =
    list_ex (\<lambda>e. has_attribute ''data-step-by-step-warning'' ''unsupported'' e \<and> dn_text (snd e) = warning) page"
    by (simp add: masked_dom_def list_ex_iff)
  moreover have "length (children_of (masked_dom page) []) = length (children_of page [])" by simp
  moreover have "masked_dom (page @ box) = masked_dom page @ map masked_element box" for box
    by (simp add: masked_dom_def)
  ultimately show ?thesis by (simp only: show_warning_def split: if_split) simp
qed

lemma show_warning_apart: "passwords_apart page \<Longrightarrow> passwords_apart (show_warning warning fresh page)"
  using warning_box_plain is_password_input
  by (fastforce simp: show_warning_def passwords_apart_def inputs_plain_def list_all_iff)

lemma dismiss_warning_masked [simp]: "dismiss_warning box (masked_dom page) = masked_dom (dismiss_warning box page)"
  by (simp add: dismiss_warning_def masked_dom_def filter_map comp_def case_prod_unfold)

lemma passwords_apart_subset: "passwords_apart page \<Longrightarrow> set page' \<subseteq> set page \<Longrightarrow> passwords_apart page'"
  unfolding passwords_apart_def inputs_plain_def list_all_iff by (meson subsetD)

lemma dismiss_warning_apart: "passwords_apart page \<Longrightarrow> passwords_apart (dismiss_warning box page)"
  by (rule passwords_apart_subset) (auto simp: dismiss_warning_def)

definition event_apart :: "page_event \<Rightarrow> bool" where
  "event_apart ev \<longleftrightarrow> (case ev of Page_changed page url \<Rightarrow> passwords_apart page | _ \<Rightarrow> True)"

definition page_apart :: "recorder_page \<Rightarrow> bool" where
  "page_apart p \<longleftrightarrow> passwords_apart (rp_dom p)"

lemma correlation_for_masked:
  "correlation_for page_load (masked_element e) (masked_page p) =
     (fst (correlation_for page_load e p), masked_page (snd (correlation_for page_load e p)))"
  by (simp add: correlation_for_def masked_page_def Let_def)

lemma correlation_for_apart: "page_apart p \<Longrightarrow> page_apart (snd (correlation_for page_load e p))"
  by (simp add: correlation_for_def page_apart_def Let_def set_attribute_apart)

lemma correlation_for_in_page: "e \<in> set (rp_dom p) \<Longrightarrow> in_page e (rp_dom (snd (correlation_for page_load e p)))"
  by (simp add: correlation_for_def Let_def set_attribute_in_page in_page_self)

lemma actionable_masked: "actionable (masked_dom page) target = map_option masked_element (actionable page target)"
  by (auto simp: actionable_def closest_masked option.map_comp comp_def split: option.splits)

lemma closest_in: "closest page test a = Some e \<Longrightarrow> e \<in> set page"
proof (induction a rule: length_induct)
  case (1 a)
  from 1(2) have "(case map_of page a of
        None \<Rightarrow> None
      | Some n \<Rightarrow> if test n then Some (a, n) else if a = [] then None else closest page test (butlast a)) = Some e"
    by (simp add: closest.simps [of page test a])
  moreover have "a \<noteq> [] \<Longrightarrow> closest page test (butlast a) = Some e \<Longrightarrow> e \<in> set page"
    using 1(1) [rule_format, of "butlast a"] by simp
  ultimately show ?case by (auto split: option.splits if_splits dest: map_of_SomeD)
qed

lemma actionable_in: "actionable page target = Some e \<Longrightarrow> e \<in> set page"
  by (auto simp: actionable_def closest_in dest: map_of_SomeD split: option.splits if_splits)

lemma masked_page_simps [simp]:
  "rp_dom (masked_page p) = masked_dom (rp_dom p)" "rp_extract (masked_page p) = rp_extract p"
  "rp_press (masked_page p) = rp_press p" "rp_url (masked_page p) = rp_url p" "rp_presses (masked_page p) = rp_presses p"
  "rp_warned (masked_page p) = rp_warned p"
  "(masked_page p)\<lparr>rp_press := x\<rparr> = masked_page (p\<lparr>rp_press := x\<rparr>)"
  "(masked_page p)\<lparr>rp_presses := k\<rparr> = masked_page (p\<lparr>rp_presses := k\<rparr>)"
  "(masked_page p)\<lparr>rp_url := u\<rparr> = masked_page (p\<lparr>rp_url := u\<rparr>)"
  "(masked_page p)\<lparr>rp_extract := ex\<rparr> = masked_page (p\<lparr>rp_extract := ex\<rparr>)"
  "(masked_page p)\<lparr>rp_warned := w\<rparr> = masked_page (p\<lparr>rp_warned := w\<rparr>)"
  "(masked_page p)\<lparr>rp_dom := masked_dom page\<rparr> = masked_page (p\<lparr>rp_dom := page\<rparr>)"
  by (simp_all add: masked_page_def)

lemma handled_masked:
  assumes "page_apart p" and "e \<in> set (rp_dom p)"
  shows "candidates_for (masked_dom (rp_dom (snd (correlation_for page_load e p)))) (masked_element e) =
    candidates_for (rp_dom (snd (correlation_for page_load e p))) e"
  using correlation_for_apart [OF assms(1)] correlation_for_in_page [OF assms(2)]
  by (intro candidates_masked) (simp_all add: page_apart_def)

lemma on_press_masked:
  assumes "page_apart p"
  shows "on_press page_load target button (masked_page p) =
      (masked_page (fst (on_press page_load target button p)), snd (on_press page_load target button p)) \<and>
    page_apart (fst (on_press page_load target button p))"
proof (cases "actionable (rp_dom p) target")
  case (Some e)
  then show ?thesis
    using handled_masked [OF assms actionable_in [OF Some]] correlation_for_apart [OF assms, of page_load e]
    by (simp add: on_press_def actionable_masked correlation_for_masked split_beta Let_def page_apart_def)
qed (simp add: on_press_def actionable_masked assms)

lemma on_click_masked:
  assumes "page_apart p"
  shows "on_click page_load target (masked_page p) =
      (masked_page (fst (on_click page_load target p)), snd (on_click page_load target p)) \<and>
    page_apart (fst (on_click page_load target p))"
proof (cases "actionable (rp_dom p) target")
  case (Some e)
  let ?p = "p\<lparr>rp_press := None, rp_extract := None\<rparr>"
  have p: "page_apart ?p" "e \<in> set (rp_dom ?p)" using assms actionable_in [OF Some] by (simp_all add: page_apart_def)
  show ?thesis
    using handled_masked [OF p] correlation_for_apart [OF p(1)] Some
    by (simp add: on_click_def actionable_masked correlation_for_masked split_beta Let_def)
qed (use assms in \<open>simp add: on_click_def actionable_masked page_apart_def\<close>)

lemma on_change_masked:
  assumes "page_apart p"
  shows "on_change page_load target (masked_page p) =
      (masked_page (fst (on_change page_load target p)), snd (on_change page_load target p)) \<and>
    page_apart (fst (on_change page_load target p))"
proof (cases "Option.bind target (\<lambda>a. map_option (Pair a) (map_of (rp_dom p) a))")
  case None
  then have "Option.bind target (\<lambda>a. map_option (Pair a) (map_of (masked_dom (rp_dom p)) a)) = None"
    by (auto simp: bind_eq_None_conv)
  with None assms show ?thesis by (simp add: on_change_def)
next
  case (Some e)
  then have e: "e \<in> set (rp_dom p)" by (auto simp: bind_eq_Some_conv dest: map_of_SomeD)
  have seen: "Option.bind target (\<lambda>a. map_option (Pair a) (map_of (masked_dom (rp_dom p)) a)) = Some (masked_element e)"
    using Some by (auto simp: bind_eq_Some_conv)
  have v: "\<not> is_password (snd e) \<Longrightarrow> dn_value (masked (snd e)) = dn_value (snd e)"
    by (simp add: masked_def)
  show ?thesis
    using handled_masked [OF assms e] correlation_for_apart [OF assms, of page_load e] assms Some seen v
    by (simp add: on_change_def correlation_for_masked split_beta Let_def)
qed

lemma on_tick_masked:
  assumes "page_apart p"
  shows "on_tick page_load active fresh (masked_page p) =
      (masked_page (fst (on_tick page_load active fresh p)), snd (on_tick page_load active fresh p)) \<and>
    page_apart (fst (on_tick page_load active fresh p))"
proof (cases "Option.bind active (\<lambda>a. map_option (Pair a) (map_of (rp_dom p) a))")
  case None
  then have "Option.bind active (\<lambda>a. map_option (Pair a) (map_of (masked_dom (rp_dom p)) a)) = None"
    by (auto simp: bind_eq_None_conv)
  with None assms show ?thesis by (simp add: on_tick_def)
next
  case (Some e)
  let ?p = "p\<lparr>rp_warned := insert (dn_ref (snd e)) (rp_warned p),
      rp_dom := show_warning unreachable_warning fresh (rp_dom p)\<rparr>"
  have "e \<in> set (rp_dom p)" using Some by (auto simp: bind_eq_Some_conv dest: map_of_SomeD)
  then have p: "page_apart ?p" "e \<in> set (rp_dom ?p)"
    using assms by (simp_all add: page_apart_def show_warning_apart) (simp add: show_warning_def)
  have seen: "Option.bind active (\<lambda>a. map_option (Pair a) (map_of (masked_dom (rp_dom p)) a)) = Some (masked_element e)"
    using Some by (auto simp: bind_eq_Some_conv)
  show ?thesis
    using handled_masked [OF p] correlation_for_apart [OF p(1)] assms Some seen
    by (simp add: on_tick_def correlation_for_masked split_beta Let_def)
qed

lemma page_step_masked:
  assumes "page_apart p" and "event_apart ev"
  shows "page_step page_load (masked_page p) (masked_event ev) =
      (masked_page (fst (page_step page_load p ev)), snd (page_step page_load p ev)) \<and>
    page_apart (fst (page_step page_load p ev))"
proof (cases ev)
  case (Press_timer serial)
  have "(dn_ref \<circ> snd) ` set (masked_dom (rp_dom p)) = (dn_ref \<circ> snd) ` set (rp_dom p)"
    by (force simp: masked_dom_def)
  with Press_timer assms show ?thesis
    by (simp add: on_press_timer_def page_apart_def split: option.split)
next
  case (Focus target)
  then show ?thesis
    using assms(1)
    by (simp add: on_focus_def actionable_masked correlation_for_masked split_beta correlation_for_apart split: option.split)
qed (use assms on_press_masked on_click_masked on_change_masked on_tick_masked in
    \<open>simp_all add: page_apart_def event_apart_def show_warning_apart dismiss_warning_apart\<close>)

interpretation hiding: viewed_reporter "page_step page_load" page_apart event_apart "\<lambda>_. True" masked_page masked_event
  for page_load
  by unfold_locales (use page_step_masked in \<open>auto simp: list_all_iff\<close>)

text \<open>C31. Whatever happens in a recorded page, what its recorder sends is what it would send if every
  password field were empty, as long as no other input shows what a password is; and the
  Step that a change of a password field becomes has no value and asks for a Secret.\<close>

theorem passwords_stay_in_page:
  assumes "passwords_apart (rp_dom p)" and "list_all event_apart events"
  shows "snd (run_out (page_step page_load) (masked_page p) (map masked_event events)) =
      snd (run_out (page_step page_load) p events) \<and>
    (map_of (rp_dom p) a = Some n \<and> is_password n \<longrightarrow>
      (\<exists>message. snd (on_change page_load (Some a) p) = [message] \<and>
        rd_needs_secret (assembled_step fresh message found) \<and>
        field (rd_payload (assembled_step fresh message found)) ''value'' = Str []))"
proof
  show "snd (run_out (page_step page_load) (masked_page p) (map masked_event events)) =
      snd (run_out (page_step page_load) p events)"
    using hiding.run_seen [of p events] assms by (simp add: page_apart_def)
  show "map_of (rp_dom p) a = Some n \<and> is_password n \<longrightarrow>
      (\<exists>message. snd (on_change page_load (Some a) p) = [message] \<and>
        rd_needs_secret (assembled_step fresh message found) \<and>
        field (rd_payload (assembled_step fresh message found)) ''value'' = Str [])"
    by (auto simp: on_change_def split_beta is_password_def is_input_def assembled_step_def step_payload_of_def
        recorder_event_def field_def Let_def)
qed

theorem passwords_stay_in_page_witness:
  "snd (run_out (page_step ''p'') (masked_page \<lparr>rp_dom = sample_page ''ada'' ''pw'', rp_url = ''u'', rp_sequence = 0,
      rp_extract = None, rp_presses = 0, rp_press = None, rp_warned = {}\<rparr>) [Focus (Some [0, 1]), Change (Some [0, 1])]) =
   snd (run_out (page_step ''p'') \<lparr>rp_dom = sample_page ''ada'' ''pw'', rp_url = ''u'', rp_sequence = 0,
      rp_extract = None, rp_presses = 0, rp_press = None, rp_warned = {}\<rparr> [Focus (Some [0, 1]), Change (Some [0, 1])])"
proof -
  have "passwords_apart (sample_page ''ada'' ''pw'')" by code_simp
  then show ?thesis
    using passwords_stay_in_page [of "\<lparr>rp_dom = sample_page ''ada'' ''pw'', rp_url = ''u'', rp_sequence = 0,
        rp_extract = None, rp_presses = 0, rp_press = None, rp_warned = {}\<rparr>" "[Focus (Some [0, 1]), Change (Some [0, 1])]"
        "''p''" "[]" undefined undefined undefined]
    by (simp add: event_apart_def)
qed

text \<open>
  The exception: a text field that shows just what a password is loses its candidate, because
  the recorder compares the two.
\<close>

lemma password_told_by_coincidence:
  "text_candidate (sample_page ''hunter2'' ''hunter2'') ([0, 0], sample_input 2 ''text'' ''hunter2'') = [] \<and>
   text_candidate (sample_page ''hunter2'' ''other'') ([0, 0], sample_input 2 ''text'' ''hunter2'') =
     [(''text'', ''hunter2'')]"
  by code_simp

text \<open>
  A field is recorded with the text that was typed into it as one of the candidates it is found
  by, although the field is empty when the Step is run again.
\<close>

lemma typed_text_is_a_candidate:
  assumes "is_input n" and "\<not> is_password n" and "dn_text n = []" and "normalized (dn_value n) \<noteq> []"
    and "length (normalized (dn_value n)) \<le> 120"
    and "filter (\<lambda>m. dn_name (snd m) = dn_name n \<and> compared_text (snd m) = normalized (dn_value n)) page = [(a, n)]"
  shows "(''text'', normalized (dn_value n)) \<in> set (candidates_for page (a, n)) \<and>
    (\<forall>m. is_input m \<and> dn_text m = [] \<and> dn_value m = [] \<longrightarrow> compared_text m \<noteq> normalized (dn_value n))"
  using assms by (auto simp: candidates_for_def text_candidate_def own_text_def compared_text_def unique_match_def the_only_def)

section \<open>Messages that the service worker takes\<close>

definition marked_by :: "string \<Rightarrow> string \<Rightarrow> bool" where
  "marked_by page_load correlation \<longleftrightarrow> prefix (page_load @ '':'') correlation"

definition dom_marked :: "string \<Rightarrow> dom \<Rightarrow> bool" where
  "dom_marked page_load page \<longleftrightarrow>
     list_all (\<lambda>e. attribute_text (snd e) correlation_attribute = [] \<or>
       marked_by page_load (attribute_text (snd e) correlation_attribute)) page"

definition page_marked :: "string \<Rightarrow> recorder_page \<Rightarrow> bool" where
  "page_marked page_load p \<longleftrightarrow>
     dom_marked page_load (rp_dom p) \<and> pred_option (\<lambda>d. marked_by page_load (pd_correlation d)) (rp_press p)"

definition event_marked :: "string \<Rightarrow> page_event \<Rightarrow> bool" where
  "event_marked page_load ev \<longleftrightarrow> (case ev of Page_changed page url \<Rightarrow> dom_marked page_load page | _ \<Rightarrow> True)"

definition message_marked :: "string \<Rightarrow> js \<Rightarrow> bool" where
  "message_marked page_load message \<longleftrightarrow>
     attr message ''type'' \<in> {Str ''recorder-ax'', Str ''recorder-event''} \<and>
     attr message ''pageLoad'' = Str page_load \<and> attr message ''channel'' = Undefined \<and>
     (\<exists>correlation. attr message ''correlation'' = Str correlation \<and> marked_by page_load correlation)"

lemma message_marked_simps [simp]:
  "message_marked page_load (recorder_ax correlation page_load) = marked_by page_load correlation"
  "message_marked page_load (recorder_event kind correlation page_load candidates description extra) =
     (marked_by page_load correlation \<and> field extra ''channel'' = Undefined)"
  by (auto simp: message_marked_def recorder_ax_def recorder_event_def field_def)

lemma no_channel [simp]:
  "field [] ''channel'' = Undefined" "field [(''extract'', x)] ''channel'' = Undefined"
  "field [(''value'', x), (''needsSecret'', y)] ''channel'' = Undefined" "field [(''unsupported'', x)] ''channel'' = Undefined"
  by (simp_all add: field_def)

lemma marked_append [simp]: "marked_by page_load (page_load @ CHR '':'' # s)"
  by (simp add: marked_by_def)

lemma attribute_text_with_key:
  "attribute_text (n\<lparr>dn_attributes := with_key name v (dn_attributes n)\<rparr>) name' =
     (if name' = name then v else attribute_text n name')"
  by (simp add: attribute_text_def attribute_def)

lemma correlation_for_marked:
  assumes "e \<in> set (rp_dom p)" and "dom_marked page_load (rp_dom p)"
  shows "marked_by page_load (fst (correlation_for page_load e p)) \<and>
    dom_marked page_load (rp_dom (snd (correlation_for page_load e p))) \<and>
    rp_press (snd (correlation_for page_load e p)) = rp_press p"
  using assms
  by (fastforce simp: correlation_for_def Let_def dom_marked_def list_all_iff set_attribute_def attribute_text_with_key)

lemma show_warning_marked: "dom_marked page_load page \<Longrightarrow> dom_marked page_load (show_warning warning fresh page)"
  by (auto simp: dom_marked_def show_warning_def warning_box_def plain_node_def attribute_text_def attribute_def
      correlation_attribute_def)

lemma looked_up_in: "Option.bind target (\<lambda>a. map_option (Pair a) (map_of page a)) = Some e \<Longrightarrow> e \<in> set page"
  by (auto simp: bind_eq_Some_conv dest: map_of_SomeD)

lemma page_step_marked:
  assumes "page_marked page_load p" and "event_marked page_load ev"
  shows "page_marked page_load (fst (page_step page_load p ev)) \<and>
    list_all (message_marked page_load) (snd (page_step page_load p ev))"
proof (cases ev)
  case (Press target button)
  show ?thesis
  proof (cases "actionable (rp_dom p) target")
    case (Some e)
    with Press assms correlation_for_marked [OF actionable_in [OF Some], of page_load] show ?thesis
      by (simp add: on_press_def page_marked_def split_beta Let_def)
  qed (use Press assms in \<open>simp add: on_press_def\<close>)
next
  case (Focus target)
  show ?thesis
  proof (cases "actionable (rp_dom p) target")
    case (Some e)
    with Focus assms correlation_for_marked [OF actionable_in [OF Some], of page_load] show ?thesis
      by (simp add: on_focus_def page_marked_def split_beta)
  qed (use Focus assms in \<open>simp add: on_focus_def\<close>)
next
  case (Click target)
  show ?thesis
  proof (cases "actionable (rp_dom p) target")
    case (Some e)
    with Click assms correlation_for_marked [of e "p\<lparr>rp_press := None, rp_extract := None\<rparr>" page_load] actionable_in [OF Some]
    show ?thesis by (simp add: on_click_def page_marked_def split_beta Let_def split: option.split)
  qed (use Click assms in \<open>simp add: on_click_def page_marked_def\<close>)
next
  case (Change target)
  show ?thesis
  proof (cases "Option.bind target (\<lambda>a. map_option (Pair a) (map_of (rp_dom p) a))")
    case (Some e)
    with Change assms correlation_for_marked [OF looked_up_in [OF Some], of page_load] show ?thesis
      by (simp add: on_change_def page_marked_def split_beta)
  qed (use Change assms in \<open>simp add: on_change_def\<close>)
next
  case (Tick active fresh)
  show ?thesis
  proof (cases "Option.bind active (\<lambda>a. map_option (Pair a) (map_of (rp_dom p) a))")
    case (Some e)
    let ?p = "p\<lparr>rp_warned := insert (dn_ref (snd e)) (rp_warned p),
        rp_dom := show_warning unreachable_warning fresh (rp_dom p)\<rparr>"
    have "e \<in> set (rp_dom ?p)" using looked_up_in [OF Some] by (simp add: show_warning_def)
    with Tick Some assms correlation_for_marked [of e ?p page_load] show_warning_marked show ?thesis
      by (simp add: on_tick_def page_marked_def split_beta Let_def)
  qed (use Tick assms in \<open>simp add: on_tick_def\<close>)
next
  case (Dismissed box)
  with assms show ?thesis by (auto simp: page_marked_def dom_marked_def dismiss_warning_def list_all_iff)
qed (use assms in \<open>auto simp: page_marked_def event_marked_def show_warning_marked on_press_timer_def split: option.splits\<close>)

interpretation marking: reporter "page_step page_load" "page_marked page_load" "event_marked page_load" "message_marked page_load"
  for page_load
  by unfold_locales (use page_step_marked in blast)+

text \<open>The service worker takes every message that the recorder of the page sends while its recording
  goes on: each carries the page load it comes from, and a correlation that this load gave out.\<close>

theorem recorder_messages_are_taken:
  assumes "dom_marked page_load (rp_dom p)" and "rp_press p = None" and "list_all (event_marked page_load) events"
    and "ac_state a = Recording_now" and "sn_id s = Some extension_id" and "sn_tab s = ac_tab a" and "sn_frame s \<noteq> None"
  shows "list_all (\<lambda>message. accept_recorder_message extension_id s message (Some a) \<and>
      route_of extension_id extension_url message s = To_recorder)
    (snd (run_out (page_step page_load) p events))"
proof -
  have "list_all (message_marked page_load) (snd (run_out (page_step page_load) p events))"
    using marking.run_reports [of page_load p events] assms(1-3) by (simp add: page_marked_def)
  moreover have "accept_recorder_message extension_id s message (Some a)" if "message_marked page_load message" for message
    using that assms(4-) by (auto simp: message_marked_def accept_recorder_message_def marked_by_def)
  moreover have "route_of extension_id extension_url message s = To_recorder" if "message_marked page_load message" for message
    using that by (auto simp: message_marked_def route_of_def is_protocol_message_def)
  ultimately show ?thesis by (simp add: list_all_iff)
qed

definition sample_recorder :: recorder_page where
  "sample_recorder = \<lparr>rp_dom = sample_page ''ada'' ''pw'', rp_url = ''u'', rp_sequence = 0, rp_extract = None,
     rp_presses = 0, rp_press = None, rp_warned = {}\<rparr>"

theorem recorder_messages_are_taken_witness:
  "list_all (\<lambda>message. route_of ''ext'' ''chrome-extension://ext/'' message
        \<lparr>sn_id = Some ''ext'', sn_tab = Some 7, sn_frame = Some 0, sn_origin = None, sn_url = None\<rparr> = To_recorder)
    (snd (run_out (page_step ''p'') sample_recorder [Press (Some [0, 0]) 0, Click (Some [0, 0]), Change (Some [0, 0])])) \<and>
   length (snd (run_out (page_step ''p'') sample_recorder [Press (Some [0, 0]) 0, Click (Some [0, 0]), Change (Some [0, 0])])) = 3"
proof
  have p: "dom_marked ''p'' (rp_dom sample_recorder)" "rp_press sample_recorder = None"
    by code_simp+
  have events: "list_all (event_marked ''p'') [Press (Some [0, 0]) 0, Click (Some [0, 0]), Change (Some [0, 0])]"
    by (simp add: event_marked_def)
  let ?a = "(pending_recording \<lparr>pe_session_id = ''s'', pe_token = ''t'', pe_backend_origin = ''b'', pe_workflow_id = ''w'',
      pe_workflow_name = ''n''\<rparr> (To_record [] []) None)\<lparr>ac_state := Recording_now, ac_tab := Some 7\<rparr>"
  show "list_all (\<lambda>message. route_of ''ext'' ''chrome-extension://ext/'' message
        \<lparr>sn_id = Some ''ext'', sn_tab = Some 7, sn_frame = Some 0, sn_origin = None, sn_url = None\<rparr> = To_recorder)
    (snd (run_out (page_step ''p'') sample_recorder [Press (Some [0, 0]) 0, Click (Some [0, 0]), Change (Some [0, 0])]))"
    using recorder_messages_are_taken [OF p events, of ?a
        "\<lparr>sn_id = Some ''ext'', sn_tab = Some 7, sn_frame = Some 0, sn_origin = None, sn_url = None\<rparr>" "''ext''"
        "''chrome-extension://ext/''"]
    by (simp add: list_all_iff)
  show "length (snd (run_out (page_step ''p'') sample_recorder
      [Press (Some [0, 0]) 0, Click (Some [0, 0]), Change (Some [0, 0])])) = 3"
    by code_simp
qed

section \<open>Extracting\<close>

lemma extract_attrs:
  "attr (recorder_event kind correlation page_load candidates description [(''extract'', x)]) ''event'' = Str kind"
  "attr (recorder_event kind correlation page_load candidates description [(''extract'', x)]) ''extract'' = x"
  by (simp_all add: recorder_event_def field_def)

lemma extract_payload:
  "step_payload_of (recorder_event ''extract'' correlation page_load candidates description [(''extract'', Obj extract)])
     found unsupported = spread [(''target'', Obj ([(''candidates'', Arr found)] @
       (case unsupported of None \<Rightarrow> [] | Some u \<Rightarrow> [(''unsupported'', u)])))] extract"
  by (simp add: step_payload_of_def extract_attrs Let_def)

lemma field_one: "field [(key, x)] key' = (if key' = key then x else Undefined)"
  by (simp add: field_def)

text \<open>What the extension is asked to extract is what the next click on the page records, once: that
  click becomes a Step that extracts the element under the asked output, in the asked mode, and
  the click after it is a click again.\<close>

theorem armed_click_extracts:
  assumes "arm_extract request (Some a) = Some extract" and "actionable (rp_dom p) target = Some e"
  shows "\<exists>message. snd (on_click page_load target (fst (page_step page_load p (Armed (Obj extract))))) = [message] \<and>
    rd_type (assembled_step fresh message found) = ''extract'' \<and>
    field (rd_payload (assembled_step fresh message found)) ''outputName'' = attr request ''outputName'' \<and>
    field (rd_payload (assembled_step fresh message found)) ''mode'' = attr request ''mode'' \<and>
    field (rd_payload (assembled_step fresh message found)) ''target'' \<noteq> Undefined \<and>
    rp_extract (fst (on_click page_load target (fst (page_step page_load p (Armed (Obj extract)))))) = None"
proof -
  obtain name rest where asked: "extract = [(''outputName'', Str name), (''mode'', attr request ''mode'')] @ rest"
    and name: "attr request ''outputName'' = Str name"
    and rest: "fst ` set rest \<subseteq> {''attribute'', ''fields''}" "distinct (map fst rest)"
    using assms(1) by (auto simp: arm_extract_def split: js.splits if_splits)
  have keep: "rp_extract (snd (correlation_for page_load e p')) = rp_extract p'" for p'
    by (simp add: correlation_for_def Let_def)
  have spread: "field (spread base extract) key = (case map_of (rev extract) key of None \<Rightarrow> field base key | Some v \<Rightarrow> v)" for base key
    unfolding spread_def
    by (induction "extract" rule: rev_induct) (auto simp: split_beta)
  have only: "(key, x) \<in> set rest \<Longrightarrow> key = ''attribute'' \<or> key = ''fields''" for key x
    using rest(1) by force
  have rev: "map_of (rev extract) ''outputName'' = Some (Str name)" "map_of (rev extract) ''mode'' = Some (attr request ''mode'')"
    "map_of (rev extract) ''target'' = None"
    using only unfolding asked by (auto simp: map_of_eq_None_iff map_add_def split: option.splits dest!: map_of_SomeD dest: only)
  show ?thesis
    using assms(2) name keep
    by (simp add: on_click_def split_beta assembled_step_def extract_payload spread rev extract_attrs field_one)
qed

theorem armed_click_extracts_witness:
  "\<exists>message. snd (on_click ''p'' (Some [0, 0]) (fst (page_step ''p'' sample_recorder
      (Armed (Obj [(''outputName'', Str ''total''), (''mode'', Str ''scalar'')]))))) = [message] \<and>
    rd_type (assembled_step ''s1'' message None) = ''extract'' \<and>
    field (rd_payload (assembled_step ''s1'' message None)) ''outputName'' = Str ''total''"
proof -
  let ?a = "pending_recording \<lparr>pe_session_id = ''s'', pe_token = ''t'', pe_backend_origin = ''b'', pe_workflow_id = ''w'',
      pe_workflow_name = ''n''\<rparr> (To_record [] []) None"
  have armed: "arm_extract (Obj [(''mode'', Str ''scalar''), (''outputName'', Str ''total'')]) (Some ?a) =
      Some [(''outputName'', Str ''total''), (''mode'', Str ''scalar'')]"
  proof -
    have "trim ''total'' \<noteq> []" by code_simp
    then show ?thesis by (simp add: arm_extract_def field_def)
  qed
  have "\<exists>e. actionable (rp_dom sample_recorder) (Some [0, 0]) = Some e"
  proof -
    have "actionable (rp_dom sample_recorder) (Some [0, 0]) \<noteq> None" by code_simp
    then show ?thesis by blast
  qed
  then obtain e where "actionable (rp_dom sample_recorder) (Some [0, 0]) = Some e" ..
  from armed_click_extracts [OF armed this, of "''p''" "''s1''" None] show ?thesis
    by (auto simp: field_def)
qed

end
