(* ===== verification/StepForm.thy ===== *)
theory StepForm
  imports Variables
begin

text \<open>
  The form of a Step in the editor (\<open>app/(shell)/workflows/[id]/editor/\<close> \<open>step-form.tsx\<close>,
  \<open>step-card.tsx\<close>, \<open>selector-panel.tsx\<close>, \<open>value-fld.tsx\<close>): what each control makes of the Step, with
  the reading and showing of a length of time; and the columns of a test run (\<open>test-run.ts\<close>).
\<close>

section \<open>Lengths of time\<close>

text \<open>
  \<open>Number(text)\<close> of the text of a number field, which is empty or a decimal: its digits as an
  integer and the power of ten they are multiplied by.
\<close>

definition read_exponent :: "string \<Rightarrow> int option" where
  "read_exponent text =
     (case text of
        [] \<Rightarrow> Some 0
      | c # s \<Rightarrow>
          if c \<notin> {CHR ''e'', CHR ''E''} then None
          else if all_digits s then Some (int (digits_val s))
          else if s \<noteq> [] \<and> hd s = CHR ''+'' \<and> all_digits (tl s) then Some (int (digits_val (tl s)))
          else if s \<noteq> [] \<and> hd s = CHR ''-'' \<and> all_digits (tl s) then Some (- int (digits_val (tl s)))
          else None)"

definition read_decimal :: "string \<Rightarrow> (int \<times> int) option" where
  "read_decimal text =
     (let negative = prefix ''-'' text; unsigned = (if negative then tl text else text);
          whole = takeWhile is_digit unsigned; rest = dropWhile is_digit unsigned;
          fraction = (if prefix ''.'' rest then takeWhile is_digit (tl rest) else []);
          ending = (if prefix ''.'' rest then dropWhile is_digit (tl rest) else rest)
      in if whole = [] \<and> fraction = [] then None
         else map_option (\<lambda>e. ((if negative then - 1 else 1) * int (digits_val (whole @ fraction)), e - int (length fraction)))
           (read_exponent ending))"

text \<open>
  \<open>Math.round(seconds * 1000)\<close> of \<open>m * 10^e\<close> seconds. The product is exact here; the double that the
  browser rounds differs from it by less than a part in \<open>2^50\<close>, which a text of at most three decimals
  never shows.
\<close>

definition rounded_ms :: "int \<Rightarrow> int \<Rightarrow> int" where
  "rounded_ms m e =
     (if 0 \<le> e + 3 then m * 10 ^ nat (e + 3) else (2 * m + 10 ^ nat (- (e + 3))) div (2 * 10 ^ nat (- (e + 3))))"

definition milliseconds_typed :: "string \<Rightarrow> int option" where
  "milliseconds_typed text =
     (case read_decimal text of
        None \<Rightarrow> None
      | Some (m, e) \<Rightarrow> if m \<le> 0 then None else Some (rounded_ms m e))"

text \<open>\<open>String(value / 1000)\<close>: at most three decimals, none of them a last zero.\<close>

definition thousandths :: "nat \<Rightarrow> string" where
  "thousandths r =
     (if r = 0 then []
      else CHR ''.'' # (if r mod 100 = 0 then show_nat (r div 100)
        else if r mod 10 = 0 then pad_start 2 (CHR ''0'') (show_nat (r div 10))
        else pad_start 3 (CHR ''0'') (show_nat r)))"

definition shown_seconds :: "int option \<Rightarrow> string" where
  "shown_seconds ms =
     (case ms of
        None \<Rightarrow> []
      | Some v \<Rightarrow> (if v < 0 then ''-'' else []) @ show_nat (nat \<bar>v\<bar> div 1000) @ thousandths (nat \<bar>v\<bar> mod 1000))"

section \<open>The element of a Step\<close>

datatype target_edit = Candidate_to_top int | Candidate_removed int | Candidate_typed candidate_kind string

fun edit_target :: "target_edit \<Rightarrow> target \<Rightarrow> target" where
  "edit_target (Candidate_to_top index) t = with_candidates t (with_candidate_moved_to_top (tg_candidates t) index)"
| "edit_target (Candidate_removed index) t = with_candidates t (with_candidate_removed (tg_candidates t) index)"
| "edit_target (Candidate_typed kind text) t =
     (if trim text = [] then t
      else with_candidates t (with_candidate_added (tg_candidates t)
        \<lparr>sc_kind = kind, sc_value = trim text, sc_shadow_path = None\<rparr>))"

text \<open>The target that the panel of a payload edits, and the payload with another one.\<close>

fun with_target :: "(target \<Rightarrow> target) \<Rightarrow> step_payload \<Rightarrow> step_payload" where
  "with_target f (P_click t asserted) = P_click (f t) asserted"
| "with_target f (P_type t val) = P_type (f t) val"
| "with_target f (P_select t val) = P_select (f t) val"
| "with_target f (P_download t) = P_download (f t)"
| "with_target f (P_extract (Scalar_extract t name attribute)) = P_extract (Scalar_extract (f t) name attribute)"
| "with_target f (P_extract (List_extract t name columns)) = P_extract (List_extract (f t) name columns)"
| "with_target f (P_wait (Element_wait t)) = P_wait (Element_wait (f t))"
| "with_target f (P_pause p) = P_pause (p\<lparr>tp_success_check := map_option f (tp_success_check p)\<rparr>)"
| "with_target f p = p"

section \<open>The controls\<close>

definition blank_to_null :: "string \<Rightarrow> string opt_field" where
  "blank_to_null typed = (if typed = [] then Nulled else Given typed)"

definition null_or :: "int option \<Rightarrow> int opt_field" where
  "null_or ms = (case ms of None \<Rightarrow> Nulled | Some v \<Rightarrow> Given v)"

definition replaced_at :: "extract_field list \<Rightarrow> int \<Rightarrow> extract_field \<Rightarrow> extract_field list" where
  "replaced_at columns place fld = map (\<lambda>(k, existing). if int k = place then fld else existing) (enumerate 0 columns)"

definition blank_field :: extract_field where
  "blank_field = \<lparr>xf_name = [], xf_sub_selector = [], xf_attribute = None\<rparr>"

fun asserting_payload :: "bool \<Rightarrow> step_payload \<Rightarrow> step_payload" where
  "asserting_payload b (P_click t _) = P_click t (Some b)"
| "asserting_payload b p = p"

fun with_text_typed :: "string \<Rightarrow> step_payload \<Rightarrow> step_payload" where
  "with_text_typed text (P_navigate _) = P_navigate text"
| "with_text_typed text (P_type t _) = P_type t text"
| "with_text_typed text (P_select t _) = P_select t text"
| "with_text_typed text p = p"

text \<open>Choosing the mode again rebuilds the payload: of what was there, the element and the name remain.\<close>

datatype extract_mode = Scalar_mode | List_mode

fun extract_target :: "extract_payload \<Rightarrow> target" where
  "extract_target (Scalar_extract t _ _) = t"
| "extract_target (List_extract t _ _) = t"

fun extract_name :: "extract_payload \<Rightarrow> string" where
  "extract_name (Scalar_extract _ name _) = name"
| "extract_name (List_extract _ name _) = name"

fun with_extract_mode :: "extract_mode \<Rightarrow> extract_payload \<Rightarrow> extract_payload" where
  "with_extract_mode Scalar_mode p = Scalar_extract (extract_target p) (extract_name p) Absent"
| "with_extract_mode List_mode p = List_extract (extract_target p) (extract_name p) [blank_field]"

datatype extract_edit =
    Output_named string
  | Mode_chosen extract_mode
  | Attribute_typed string
  | Field_named int string
  | Field_selector_typed int string
  | Field_attribute_typed int string
  | Field_removed int
  | Field_added

definition edit_field :: "(extract_field \<Rightarrow> extract_field) \<Rightarrow> int \<Rightarrow> extract_field list \<Rightarrow> extract_field list" where
  "edit_field f place columns = (case at columns place of None \<Rightarrow> columns | Some fld \<Rightarrow> replaced_at columns place (f fld))"

text \<open>\<open>Remove\<close> is disabled on the only field of a list.\<close>

fun edit_extract :: "extract_edit \<Rightarrow> extract_payload \<Rightarrow> extract_payload" where
  "edit_extract (Output_named name) (Scalar_extract t _ attribute) = Scalar_extract t name attribute"
| "edit_extract (Output_named name) (List_extract t _ columns) = List_extract t name columns"
| "edit_extract (Mode_chosen mode) p = with_extract_mode mode p"
| "edit_extract (Attribute_typed text) (Scalar_extract t name _) = Scalar_extract t name (blank_to_null text)"
| "edit_extract (Field_named place text) (List_extract t name columns) =
     List_extract t name (edit_field (\<lambda>f. f\<lparr>xf_name := text\<rparr>) place columns)"
| "edit_extract (Field_selector_typed place text) (List_extract t name columns) =
     List_extract t name (edit_field (\<lambda>f. f\<lparr>xf_sub_selector := text\<rparr>) place columns)"
| "edit_extract (Field_attribute_typed place text) (List_extract t name columns) =
     List_extract t name (edit_field (\<lambda>f. f\<lparr>xf_attribute := (if text = [] then None else Some text)\<rparr>) place columns)"
| "edit_extract (Field_removed place) (List_extract t name columns) =
     List_extract t name (if length columns = 1 then columns else without_index columns place)"
| "edit_extract Field_added (List_extract t name columns) = List_extract t name (columns @ [blank_field])"
| "edit_extract _ p = p"

datatype takeover_edit = Message_typed string | Give_up_typed string | Check_removed

fun edit_takeover :: "takeover_edit \<Rightarrow> takeover_payload \<Rightarrow> takeover_payload" where
  "edit_takeover (Message_typed text) p = p\<lparr>tp_message := blank_to_null text\<rparr>"
| "edit_takeover (Give_up_typed text) p = p\<lparr>tp_timeout_ms := null_or (milliseconds_typed text)\<rparr>"
| "edit_takeover Check_removed p = p\<lparr>tp_success_check := None\<rparr>"

fun with_duration_typed :: "string \<Rightarrow> step_payload \<Rightarrow> step_payload" where
  "with_duration_typed text (P_wait (Duration_wait _)) = P_wait (Duration_wait (orelse (milliseconds_typed text) 1))"
| "with_duration_typed text p = p"

text \<open>Every control of a Step's card and form. A control that its payload does not show changes nothing.\<close>

datatype form_edit =
    Label_typed string
  | Switched
  | Screenshot_toggled
  | Optional_ticked bool
  | Disabled_ticked bool
  | Timeout_typed string
  | Text_typed string
  | Asserted_ticked bool
  | Target_edited target_edit
  | Extract_edited extract_edit
  | Wait_mode_chosen wait_mode
  | Duration_typed string
  | Takeover_edited takeover_edit

fun edit_step :: "form_edit \<Rightarrow> step \<Rightarrow> step" where
  "edit_step (Label_typed text) step = step\<lparr>st_label := text\<rparr>"
| "edit_step Switched step = step\<lparr>st_disabled := Some (st_disabled step \<noteq> Some True)\<rparr>"
| "edit_step Screenshot_toggled step = step\<lparr>st_screenshot := Some (st_screenshot step \<noteq> Some True)\<rparr>"
| "edit_step (Optional_ticked b) step = step\<lparr>st_optional := Some b\<rparr>"
| "edit_step (Disabled_ticked b) step = step\<lparr>st_disabled := Some b\<rparr>"
| "edit_step (Timeout_typed text) step = step\<lparr>st_timeout_ms := null_or (milliseconds_typed text)\<rparr>"
| "edit_step (Text_typed text) step = step\<lparr>st_payload := with_text_typed text (st_payload step)\<rparr>"
| "edit_step (Asserted_ticked b) step = step\<lparr>st_payload := asserting_payload b (st_payload step)\<rparr>"
| "edit_step (Target_edited e) step = step\<lparr>st_payload := with_target (edit_target e) (st_payload step)\<rparr>"
| "edit_step (Extract_edited e) step =
     (case st_payload step of P_extract p \<Rightarrow> step\<lparr>st_payload := P_extract (edit_extract e p)\<rparr> | _ \<Rightarrow> step)"
| "edit_step (Wait_mode_chosen mode) step = with_wait_mode step mode"
| "edit_step (Duration_typed text) step = step\<lparr>st_payload := with_duration_typed text (st_payload step)\<rparr>"
| "edit_step (Takeover_edited e) step =
     (case st_payload step of P_pause p \<Rightarrow> step\<lparr>st_payload := P_pause (edit_takeover e p)\<rparr> | _ \<Rightarrow> step)"

section \<open>A value and its Variables\<close>

text \<open>The caret or selection that a value field remembers, and whether its value is being made a Variable.\<close>

record value_field =
  vf_from :: nat
  vf_to :: nat
  vf_converting :: bool

definition opened_field :: "string \<Rightarrow> value_field" where
  "opened_field val = \<lparr>vf_from = length val, vf_to = length val, vf_converting = False\<rparr>"

definition selected :: "value_field \<Rightarrow> string \<Rightarrow> nat \<times> nat" where
  "selected fld val =
     (if vf_from fld < vf_to fld \<and> vf_to fld \<le> length val then (vf_from fld, vf_to fld) else (0, length val))"

definition value_typed :: "(nat \<times> nat) option \<Rightarrow> string \<Rightarrow> value_field \<Rightarrow> value_field" where
  "value_typed selection text fld =
     (case selection of
        None \<Rightarrow> fld\<lparr>vf_from := length text, vf_to := length text\<rparr>
      | Some (a, b) \<Rightarrow> fld\<lparr>vf_from := a, vf_to := b\<rparr>)"

definition reference_chosen :: "string \<Rightarrow> value_field \<Rightarrow> string \<Rightarrow> string" where
  "reference_chosen name fld val = with_reference_inserted val name (int (vf_from fld))"

definition literal_of :: "value_field \<Rightarrow> string \<Rightarrow> string" where
  "literal_of fld val = (case selected fld val of (a, b) \<Rightarrow> take (b - a) (drop a val))"

text \<open>The form that makes the selection a Variable: its refusal, or the new Variable and the span.\<close>

definition convert_submitted ::
    "variable list \<Rightarrow> string \<Rightarrow> bool \<Rightarrow> value_field \<Rightarrow> string \<Rightarrow> string + (variable \<times> nat \<times> nat)" where
  "convert_submitted variables name secret fld val =
     (case declaration_refusal \<lparr>wd_steps = None, wd_variables = Some variables\<rparr> name of
        Some refusal \<Rightarrow> Inl refusal
      | None \<Rightarrow> Inr (\<lparr>va_name = name, va_secret = Some secret, va_secret_id = None, va_secret_name = None\<rparr>,
          selected fld val))"

definition undeclared_hint :: "string list \<Rightarrow> string" where
  "undeclared_hint names =
     join '', '' (map reference_text names) @ (if length names = 1 then '' is not declared.'' else '' are not declared.'')"

section \<open>Test runs\<close>

record test_run_field =
  tf_name :: string
  tf_secret :: bool

definition test_run_fields :: "variable list \<Rightarrow> test_run_field list" where
  "test_run_fields variables = map (\<lambda>v. \<lparr>tf_name = va_name v, tf_secret = (va_secret v = Some True)\<rparr>) variables"

definition test_run_body :: "(string \<times> string) list \<Rightarrow> test_run_field list \<Rightarrow> (string \<times> string) list" where
  "test_run_body values columns =
     foldl (\<lambda>body fld. if tf_secret fld then body
        else with_key (tf_name fld) (orelse (map_of values (tf_name fld)) []) body) [] columns"

definition test_run_refusal :: "bool \<Rightarrow> string option" where
  "test_run_refusal unsaved =
     (if unsaved then Some ''Save or discard your editor changes before a test run.'' else None)"

section \<open>Reading a length of time back\<close>

lemma digits_val_append: "digits_val (s @ t) = digits_val s * 10 ^ length t + digits_val t"
proof (induction t rule: rev_induct)
  case (snoc c t)
  then show ?case by (simp add: digits_val_snoc flip: append_assoc)
qed (simp add: digits_val_def)

lemma show_nat_digit: "c \<in> set (show_nat n) \<Longrightarrow> is_digit c"
  by (rule show_nat_digits)

lemma length_show_nat_step: "length (show_nat n) = (if n < 10 then 1 else Suc (length (show_nat (n div 10))))"
  by (subst show_nat.simps) simp

lemma length_show_nat: "n < 10 \<Longrightarrow> length (show_nat n) = 1" "10 \<le> n \<Longrightarrow> n < 100 \<Longrightarrow> length (show_nat n) = 2"
  "100 \<le> n \<Longrightarrow> n < 1000 \<Longrightarrow> length (show_nat n) = 3"
proof -
  show one: "n < 10 \<Longrightarrow> length (show_nat n) = 1" for n by (simp add: length_show_nat_step [of n])
  show two: "10 \<le> n \<Longrightarrow> n < 100 \<Longrightarrow> length (show_nat n) = 2" for n
    using one [of "n div 10"] by (simp add: length_show_nat_step [of n] less_mult_imp_div_less)
  show "100 \<le> n \<Longrightarrow> n < 1000 \<Longrightarrow> length (show_nat n) = 3"
    using two [of "n div 10"] div_le_mono [of 100 n 10]
    by (simp add: length_show_nat_step [of n] less_mult_imp_div_less)
qed

text \<open>The decimals of a remainder: digits only, and what they are worth.\<close>

lemma thousandths_digits:
  assumes "0 < r" and "r < 1000"
  obtains d where "thousandths r = CHR ''.'' # d" "list_all is_digit d" "d \<noteq> []" "length d \<le> 3"
    and "digits_val d * 10 ^ (3 - length d) = r"
proof -
  have digit: "is_digit (CHR ''0'')" by (simp add: is_digit_def code_def)
  consider "r mod 100 = 0" | "r mod 100 \<noteq> 0" "r mod 10 = 0" | "r mod 10 \<noteq> 0" by blast
  then show thesis
  proof cases
    case 1
    then obtain q where "r = 100 * q" by auto
    with assms have "0 < r div 100" "r div 100 < 10" by simp_all
    then show thesis
      using 1 assms that [of "show_nat (r div 100)"] length_show_nat(1) [of "r div 100"] show_nat_digit
      by (auto simp: thousandths_def list_all_iff)
  next
    case 2
    let ?d = "pad_start 2 (CHR ''0'') (show_nat (r div 10))"
    from 2(2) obtain q where q: "r = 10 * q" by auto
    have "r div 10 < 100" using assms by (simp add: less_mult_imp_div_less)
    then have len: "length ?d = 2"
      using length_show_nat(1,2) [of "r div 10"] by (cases "r div 10 < 10") (simp_all add: pad_start_def)
    have "digits_val ?d * 10 = r" by (simp add: pad_start_def digits_val_zeros q)
    with len show thesis
      using 2 assms digit show_nat_digit
      by (intro that [of ?d]) (auto simp: thousandths_def list_all_iff pad_start_def)
  next
    case 3
    let ?d = "pad_start 3 (CHR ''0'') (show_nat r)"
    have ne: "r mod 100 \<noteq> 0"
    proof
      assume "r mod 100 = 0"
      then obtain q where "r = 10 * (10 * q)" by auto
      with 3 show False by simp
    qed
    have len: "length ?d = 3"
      using length_show_nat [of r] assms
      by (cases "r < 10"; cases "r < 100") (simp_all add: pad_start_def)
    have "digits_val ?d = r" by (simp add: pad_start_def digits_val_zeros)
    with len show thesis
      using 3 ne assms digit show_nat_digit
      by (intro that [of ?d]) (auto simp: thousandths_def list_all_iff pad_start_def)
  qed
qed

lemma take_digits:
  assumes "list_all is_digit d" and "s = [] \<or> \<not> is_digit (hd s)"
  shows "takeWhile is_digit (d @ s) = d \<and> dropWhile is_digit (d @ s) = s"
  using assms by (induction d) (cases s; auto)+

lemma rounded_ms_exact: "k \<le> 3 \<Longrightarrow> rounded_ms m (- int k) = m * 10 ^ (3 - k)"
  by (simp add: rounded_ms_def nat_diff_distrib flip: of_nat_diff)

lemma read_shown:
  assumes "0 < ms"
  shows "\<exists>m k. read_decimal (shown_seconds (Some ms)) = Some (m, - int k) \<and> k \<le> 3 \<and> m * 10 ^ (3 - k) = ms"
proof -
  let ?w = "nat ms div 1000" and ?r = "nat ms mod 1000"
  have shown: "shown_seconds (Some ms) = show_nat ?w @ thousandths ?r"
    using assms by (simp add: shown_seconds_def)
  have digits: "list_all is_digit (show_nat ?w)" using show_nat_digit by (simp add: list_all_iff)
  have plain: "\<not> prefix ''-'' (show_nat ?w @ s)" for s
  proof -
    have "is_digit (hd (show_nat ?w))" by (rule show_nat_digit [OF hd_in_set]) simp
    then show ?thesis by (cases "show_nat ?w") (auto simp: is_digit_def code_def)
  qed
  show ?thesis
  proof (cases "?r = 0")
    case True
    then have "nat ms = ?w * 1000" by (metis add.right_neutral div_mult_mod_eq)
    then have exact: "ms = int ?w * 1000" using assms by (metis int_nat_eq less_imp_le of_nat_mult of_nat_numeral)
    have tail: "takeWhile is_digit (show_nat ?w) = show_nat ?w" "dropWhile is_digit (show_nat ?w) = []"
      using take_digits [OF digits, of "[]"] by simp_all
    have "read_decimal (shown_seconds (Some ms)) = Some (int ?w, - int 0)"
      using plain [of "[]"]
      by (simp add: tail shown True thousandths_def read_decimal_def Let_def read_exponent_def)
    then show ?thesis using exact by (intro exI [of _ "int ?w"] exI [of _ 0]) simp
  next
    case False
    then obtain d where d: "thousandths ?r = CHR ''.'' # d" "list_all is_digit d" "length d \<le> 3"
        "digits_val d * 10 ^ (3 - length d) = ?r"
      using thousandths_digits [of ?r] by auto
    have dot: "\<not> is_digit (CHR ''.'')" by (simp add: is_digit_def code_def)
    have tail: "takeWhile is_digit d = d" "dropWhile is_digit d = []"
      using take_digits [OF d(2), of "[]"] by simp_all
    have "read_decimal (shown_seconds (Some ms)) = Some (int (digits_val (show_nat ?w @ d)), - int (length d))"
      using take_digits [OF digits, of "CHR ''.'' # d"] dot plain [of "CHR ''.'' # d"]
      by (simp add: tail shown d(1) read_decimal_def Let_def read_exponent_def)
    moreover have "int (digits_val (show_nat ?w @ d)) * 10 ^ (3 - length d) = ms"
    proof -
      have "10 ^ length d * 10 ^ (3 - length d) = (1000 :: nat)"
        using d(3) by (simp flip: power_add)
      then have "digits_val (show_nat ?w @ d) * 10 ^ (3 - length d) = ?w * 1000 + ?r"
        using d(4) by (simp add: digits_val_append distrib_right mult.assoc)
      then have "int (digits_val (show_nat ?w @ d) * 10 ^ (3 - length d)) = ms" using assms by simp
      then show ?thesis by simp
    qed
    ultimately show ?thesis
      using d(3) by (intro exI [of _ "int (digits_val (show_nat ?w @ d))"] exI [of _ "length d"]) simp
  qed
qed

lemma rounded_ms_nonneg: "0 < m \<Longrightarrow> 0 \<le> rounded_ms m e"
  by (auto simp: rounded_ms_def intro!: pos_imp_zdiv_nonneg_iff [THEN iffD2])

lemma milliseconds_typed_nonneg: "milliseconds_typed text = Some ms \<Longrightarrow> 0 \<le> ms"
  using rounded_ms_nonneg by (auto simp: milliseconds_typed_def split: option.splits if_splits)

section \<open>Edits of a Step\<close>

fun extract_ok :: "extract_payload \<Rightarrow> bool" where
  "extract_ok (Scalar_extract _ _ _) = True"
| "extract_ok (List_extract _ _ columns) = (columns \<noteq> [])"

fun given_nonneg :: "int opt_field \<Rightarrow> bool" where
  "given_nonneg (Given ms) = (0 \<le> ms)"
| "given_nonneg _ = True"

fun payload_ok :: "step_payload \<Rightarrow> bool" where
  "payload_ok (P_extract p) = extract_ok p"
| "payload_ok (P_wait (Duration_wait ms)) = (0 \<le> ms)"
| "payload_ok (P_pause p) = given_nonneg (tp_timeout_ms p)"
| "payload_ok _ = True"

definition step_ok :: "step \<Rightarrow> bool" where
  "step_ok step \<longleftrightarrow> payload_ok (st_payload step) \<and> given_nonneg (st_timeout_ms step)"

lemma null_or_nonneg: "given_nonneg (null_or (milliseconds_typed text))"
  using milliseconds_typed_nonneg by (auto simp: null_or_def split: option.split)

lemma orelse_typed_nonneg: "0 \<le> orelse (milliseconds_typed text) 1"
  using milliseconds_typed_nonneg by (cases "milliseconds_typed text") auto

lemma edit_field_length: "length (edit_field f place columns) = length columns"
  by (simp add: edit_field_def replaced_at_def split: option.split)

lemma edit_field_Nil [simp]: "edit_field f place columns = [] \<longleftrightarrow> columns = []"
  by (metis edit_field_length length_0_conv)

lemma without_index_length: "length xs - 1 \<le> length (without_index xs place)"
proof (cases "0 \<le> place \<and> nat place < length xs")
  case True
  then show ?thesis using without_index_eq [of "nat place" xs] by simp
next
  case False
  then have "filter (\<lambda>(k, _). int k \<noteq> place) (enumerate 0 xs) = enumerate 0 xs"
    by (auto simp: filter_id_conv in_set_enumerate_eq)
  then show ?thesis by (simp add: without_index_def)
qed

lemma edit_extract_ok: "extract_ok p \<Longrightarrow> extract_ok (edit_extract e p)"
proof (induction e p rule: edit_extract.induct)
  case (3 mode p)
  then show ?case by (cases mode) simp_all
next
  case (8 place t name columns)
  then show ?case
    using without_index_length [of columns place] by (cases columns) auto
qed simp_all

lemma edit_takeover_ok: "given_nonneg (tp_timeout_ms p) \<Longrightarrow> given_nonneg (tp_timeout_ms (edit_takeover e p))"
  by (cases e) (simp_all add: null_or_nonneg)

lemma with_target_keeps [simp]: "type_of (with_target f p) = type_of p" "payload_ok (with_target f p) = payload_ok p"
  by (induction f p rule: with_target.induct) auto

lemma with_text_keeps [simp]: "type_of (with_text_typed text p) = type_of p" "payload_ok (with_text_typed text p) = payload_ok p"
  by (induction "text" p rule: with_text_typed.induct) auto

lemma asserting_keeps [simp]: "type_of (asserting_payload b p) = type_of p" "payload_ok (asserting_payload b p) = payload_ok p"
  by (induction b p rule: asserting_payload.induct) auto

lemma with_duration_keeps [simp]: "type_of (with_duration_typed text p) = type_of p"
  "payload_ok p \<Longrightarrow> payload_ok (with_duration_typed text p)"
  by (induction "text" p rule: with_duration_typed.induct) (auto simp: orelse_typed_nonneg)

lemma edit_step_ok: "step_ok step \<Longrightarrow> step_ok (edit_step e step)"
  by (cases e)
    (auto simp: step_ok_def null_or_nonneg orelse_typed_nonneg edit_extract_ok edit_takeover_ok with_wait_mode_def
      default_wait_ms_def split: step_payload.split wait_payload.split)

lemma edit_step_frame:
  "(st_id (edit_step e step), type_of (st_payload (edit_step e step))) = (st_id step, type_of (st_payload step))"
  by (cases e) (auto simp: with_wait_mode_def split: step_payload.split wait_payload.split)

interpretation form_edits: framed_reducer "\<lambda>step e. edit_step e step" step_ok "\<lambda>step. (st_id step, type_of (st_payload step))"
  by unfold_locales (simp_all only: edit_step_ok edit_step_frame)

section \<open>Properties\<close>

text \<open>C23. Whatever is done in the form of a Step, it stays the Step it was: its id and its type do not
  change, a list extraction keeps a field, and no length of time is negative. A new Step starts so.\<close>

theorem form_keeps_the_step:
  assumes "step_ok step"
  shows "step_ok (foldl (\<lambda>step e. edit_step e step) step es) \<and>
    st_id (foldl (\<lambda>step e. edit_step e step) step es) = st_id step \<and>
    type_of (st_payload (foldl (\<lambda>step e. edit_step e step) step es)) = type_of (st_payload step) \<and>
    step_ok (blank_step fresh t)"
proof -
  have "step_ok (blank_step fresh t)"
    by (cases t) (simp_all add: step_ok_def blank_step_def default_wait_ms_def)
  with form_edits.run_inv_frame [OF assms, of es] show ?thesis by simp
qed

theorem form_keeps_the_step_witness:
  "step_ok (foldl (\<lambda>step e. edit_step e step) (blank_step ''s1'' Extract)
     [Extract_edited (Mode_chosen List_mode), Extract_edited (Field_removed 0), Timeout_typed ''1.5''])"
proof -
  have "step_ok (blank_step ''s1'' Extract)" by (simp add: step_ok_def blank_step_def)
  from form_keeps_the_step [OF this] show ?thesis by blast
qed

text \<open>A length of time that the form shows is read back as it is; what it reads is never negative.
  It can be zero, though the API takes no zero: 0.0004 seconds are rounded to it. And a 0 that
  is typed first is taken away again, so 0.5 cannot be typed from the left.\<close>

theorem shown_seconds_read_back:
  assumes "0 < ms" and "milliseconds_typed text = Some typed"
  shows "milliseconds_typed (shown_seconds (Some ms)) = Some ms \<and> 0 \<le> typed \<and>
    milliseconds_typed ''0.0004'' = Some 0 \<and> shown_seconds (milliseconds_typed ''0'') = []"
proof (intro conjI)
  obtain m k where mk: "read_decimal (shown_seconds (Some ms)) = Some (m, - int k)" "k \<le> 3" "m * 10 ^ (3 - k) = ms"
    using read_shown [OF assms(1)] by blast
  have "0 < m" using mk(3) assms(1) by (metis zero_less_mult_pos2 zero_less_numeral zero_less_power)
  then show "milliseconds_typed (shown_seconds (Some ms)) = Some ms"
    using mk rounded_ms_exact by (simp add: milliseconds_typed_def)
  show "0 \<le> typed" using milliseconds_typed_nonneg assms(2) .
  show "milliseconds_typed ''0.0004'' = Some 0" by code_simp
  show "shown_seconds (milliseconds_typed ''0'') = []" by code_simp
qed

theorem shown_seconds_read_back_witness:
  "milliseconds_typed (shown_seconds (Some 1250)) = Some 1250"
proof -
  have "milliseconds_typed ''2'' = Some 2000" by code_simp
  from shown_seconds_read_back [OF _ this, of 1250] show ?thesis by simp
qed

text \<open>Making a Variable of a value keeps what the value says: the span it replaces lies in the value,
  the Step then refers to the new Variable, which is declared, and the literal put back in the place of the
  reference gives the value as it was.\<close>

theorem made_variable_stands_for_literal:
  assumes "convert_submitted (variables_of document) name secret fld val = Inr (v, a, b)"
    and "step \<in> set (steps_of document)" and "interpolated_value step = Some val"
  shows "a \<le> b \<and> b \<le> length val \<and> take a val @ literal_of fld val @ drop b val = val \<and>
    v \<in> set (variables_of (with_literal_made_variable document (st_id step) v a b)) \<and> va_name v = name \<and>
    name \<notin> va_name ` set (variables_of document) \<and>
    (\<exists>step' \<in> set (steps_of (with_literal_made_variable document (st_id step) v a b)).
      st_id step' = st_id step \<and> interpolated_value step' = Some (take a val @ reference_text name @ drop b val))"
proof -
  from assms(1) have v: "va_name v = name" and span: "selected fld val = (a, b)"
    and "declaration_refusal \<lparr>wd_steps = None, wd_variables = Some (variables_of document)\<rparr> name = None"
    by (auto simp: convert_submitted_def split: option.splits)
  then have new: "name \<notin> va_name ` set (variables_of document)"
    by (simp add: declaration_refusal_None variables_of_def)
  from span have ab: "a \<le> b" "b \<le> length val" by (auto simp: selected_def split: if_splits)
  then have whole: "take a val @ literal_of fld val @ drop b val = val"
    using span by (simp add: literal_of_def) (metis append_take_drop_id drop_drop le_add_diff_inverse2 take_add)
  let ?step = "with_interpolated_value step (take a val @ reference_text name @ drop b val)"
  have "?step \<in> set (steps_of (with_literal_made_variable document (st_id step) v a b))"
    using assms(2,3) v
    by (auto simp: with_literal_made_variable_def with_variable_declared_def Let_def image_iff intro!: bexI [of _ step])
  moreover have "v \<in> set (variables_of (with_literal_made_variable document (st_id step) v a b))"
    by (simp add: with_literal_made_variable_def with_variable_declared_def Let_def)
  ultimately show ?thesis using ab whole v new assms(3) by (intro conjI bexI [of _ ?step]) simp_all
qed

theorem made_variable_stands_for_literal_witness:
  "take 5 ''acme GmbH'' @ literal_of \<lparr>vf_from = 5, vf_to = 9, vf_converting = True\<rparr> ''acme GmbH'' @ drop 9 ''acme GmbH'' =
     ''acme GmbH''"
proof -
  let ?step = "with_interpolated_value (blank_step ''s1'' Type_text) ''acme GmbH''"
  let ?v = "\<lparr>va_name = ''form'', va_secret = Some False, va_secret_id = None, va_secret_name = None\<rparr>"
  have "convert_submitted (variables_of \<lparr>wd_steps = Some [?step], wd_variables = None\<rparr>) ''form'' False
      \<lparr>vf_from = 5, vf_to = 9, vf_converting = True\<rparr> ''acme GmbH'' = Inr (?v, 5, 9)"
    by code_simp
  moreover have "interpolated_value ?step = Some ''acme GmbH''"
    by (simp add: with_interpolated_value_def interpolated_value_def blank_step_def)
  ultimately show ?thesis
    using made_variable_stands_for_literal [of "\<lparr>wd_steps = Some [?step], wd_variables = None\<rparr>" "''form''" False
        "\<lparr>vf_from = 5, vf_to = 9, vf_converting = True\<rparr>" "''acme GmbH''" ?v 5 9 ?step]
    by (simp add: steps_of_def)
qed

lemma with_key_new: "k \<notin> fst ` set ob \<Longrightarrow> with_key k v ob = ob @ [(k, v)]"
  by (induction ob) auto

text \<open>A test run sends a value for every plain Variable, in order, and for no other name.\<close>

lemma test_run_body_plain:
  assumes "distinct (map va_name variables)"
  shows "test_run_body values (test_run_fields variables) =
    map (\<lambda>v. (va_name v, orelse (map_of values (va_name v)) [])) (filter (\<lambda>v. va_secret v \<noteq> Some True) variables)"
  using assms
proof (induction variables rule: rev_induct)
  case (snoc v vs)
  have "va_name v \<notin> fst ` set (map (\<lambda>v. (va_name v, orelse (map_of values (va_name v)) [])) (filter (\<lambda>v. va_secret v \<noteq> Some True) vs))"
    using snoc.prems by auto
  then have "with_key (va_name v) x (map (\<lambda>v. (va_name v, orelse (map_of values (va_name v)) []))
      (filter (\<lambda>v. va_secret v \<noteq> Some True) vs)) =
    map (\<lambda>v. (va_name v, orelse (map_of values (va_name v)) [])) (filter (\<lambda>v. va_secret v \<noteq> Some True) vs) @ [(va_name v, x)]" for x
    by (rule with_key_new)
  with snoc show ?case by (simp add: test_run_body_def test_run_fields_def)
qed (simp add: test_run_body_def test_run_fields_def)

end
