(* ===== verification/Mutations.thy ===== *)
theory Mutations
  imports JsValue
begin

text \<open>
  Calls of the API that change something, as the pages keep them (\<open>useMutation\<close>), and the reading of
  the error that such a call is refused with.
\<close>

text \<open>
  A call of the API that changes something. It is pending until its answer has been dealt with,
  which includes the queries it invalidates.
\<close>

datatype 'a mutation = Idle | Asked 'a | Settling | Refused js

fun pending :: "'a mutation \<Rightarrow> bool" where
  "pending (Asked _) = True"
| "pending Settling = True"
| "pending _ = False"

fun refused_with :: "'a mutation \<Rightarrow> js option" where
  "refused_with (Refused error) = Some error"
| "refused_with _ = None"

definition settled :: "'a mutation \<Rightarrow> 'a mutation" where
  "settled m = (case m of Settling \<Rightarrow> Idle | _ \<Rightarrow> m)"

text \<open>\<open>said?.code\<close>: a value without properties has none.\<close>

fun said :: "js \<Rightarrow> string \<Rightarrow> js" where
  "said (Obj error) key = field error key"
| "said _ key = Undefined"

text \<open>
  The sentence for an error: by its code in a table, or the one for the others. A code that is
  no string is in no table.
\<close>

definition refusal_from :: "(js \<times> string) list \<Rightarrow> string \<Rightarrow> js \<Rightarrow> string" where
  "refusal_from refusals unknown error = orelse (map_of refusals (said error ''code'')) unknown"

text \<open>The answer to a call without anything to wait for: no error, or the error.\<close>

fun answered :: "js option \<Rightarrow> 'a mutation" where
  "answered None = Idle"
| "answered (Some error) = Refused error"

text \<open>Only a call that is pending waits for an answer; what has settled is not pending.\<close>

lemma pending_iff: "pending m \<longleftrightarrow> m = Settling \<or> (\<exists>x. m = Asked x)"
  by (cases m) auto

lemma settled_simps [simp]: "settled Settling = Idle" "settled (Asked x) = Asked x" "settled Idle = Idle"
  "settled (Refused e) = Refused e"
  by (simp_all add: settled_def)

lemma answered_simps [simp]: "\<not> pending (answered answer)" "refused_with (answered answer) = answer"
  by (cases answer; simp)+

lemma refusal_from_cases: "refusal_from refusals unknown error \<in> insert unknown (snd ` set refusals)"
  by (cases "map_of refusals (said error ''code'')") (auto simp: refusal_from_def dest: map_of_SomeD intro: rev_image_eqI)

end
