(* ===== verification/Editor.thy ===== *)
theory Editor
  imports StepForm Workflows Connection Mutations
begin

text \<open>
  The editor of a Workflow (\<open>app/(shell)/workflows/[id]/editor/page.tsx\<close>, \<open>variables-dialog.tsx\<close>,
  \<open>messages.ts\<close>, \<open>repick-dialog.tsx\<close>, \<open>restore-dialog.tsx\<close>): the state of the page as a record, what a person does
  in it and what arrives from the API and from the extension as events, and the calls it makes as
  effects. A control that is not shown or is disabled does nothing when its event arrives.
\<close>

section \<open>Refusals\<close>

definition save_refusals :: "(js \<times> string) list" where
  "save_refusals =
     [(Str ''duplicate_step_id'', ''Two Steps carry the same id, so the Draft was not saved.''),
      (Str ''undeclared_variable'',
        ''A value uses a Variable this Workflow does not declare, so the Draft was not saved.''),
      (Str ''duplicate_variable_name'', ''Two Variables carry the same name, so the Draft was not saved.''),
      (Str ''unknown_step_type'',
        ''A Step here is of a type this instance cannot run, so the Draft was not saved.''),
      (Str ''malformed_payload'',
        ''A Step here is not filled in the way its type needs, so the Draft was not saved.''),
      (Str ''workflow_not_found'', ''That Workflow is gone. Somebody deleted it, or it was never here.'')]"

definition unknown_save_refusal :: string where
  "unknown_save_refusal = ''The Draft was not saved. Try again in a moment.''"

definition save_refusal :: "js \<Rightarrow> string" where
  "save_refusal error =
     (let sentence = orelse (map_of save_refusals (said error ''code'')) unknown_save_refusal;
          detail = (if sentence = unknown_save_refusal then [] else orelse (as_string (said error ''message'')) [])
      in if detail = [] then sentence else sentence @ '': '' @ detail)"

definition read_refusals :: "(js \<times> string) list" where
  "read_refusals =
     [(Str ''version_not_found'', ''That Version is not here. The version dropdown lists the ones that are.''),
      (Str ''workflow_not_found'', ''That Workflow is gone. Somebody deleted it, or it was never here.'')]"

definition read_refusal :: "js \<Rightarrow> string" where
  "read_refusal error =
     refusal_from read_refusals ''This document could not be loaded. Try again in a moment.'' error"

definition not_ready :: js where
  "not_ready = Obj [(''message'', Str ''The connected extension is not ready.'')]"

text \<open>What the page says then is not the text of that error, which has no code.\<close>

lemma not_ready_is_unknown: "read_refusal not_ready = ''This document could not be loaded. Try again in a moment.''"
  by (simp add: read_refusal_def refusal_from_def not_ready_def field_def read_refusals_def)

section \<open>The page\<close>

record repick =
  rk_session_id :: string
  rk_token :: string
  rk_step_id :: string
  rk_old :: "selector_candidate list"
  rk_next :: "js list option"

text \<open>
  A recording session that was asked for: what the page needs when the API answers. Without a vault
  in the cache the Secrets are loaded first.
\<close>

record session_request =
  rq_extension :: string
  rq_workflow_name :: string
  rq_variables :: "variable list"
  rq_secrets :: "vault_secret list option"

record repick_request =
  rr_workflow_name :: string
  rr_step_id :: string
  rr_old :: "selector_candidate list"
  rr_latest :: bool

record editor =
  ed_draft :: "workflow_document option"
  ed_version :: "workflow_document option"
  ed_viewing :: "int option"
  ed_edited :: "workflow_document option"
  ed_expanded :: "string option"
  ed_repairing :: "string option"
  ed_testing :: bool
  ed_variables_open :: bool
  ed_highlighted :: "string option"
  ed_restoring :: "int option"
  ed_note :: "string option"
  ed_repick :: "repick option"
  ed_save :: "workflow_document mutation"
  ed_recording :: "session_request mutation"
  ed_repicks :: "repick_request list"
  ed_repick_error :: "js option"
  ed_confirm :: "repick mutation"
  ed_restore :: "int mutation"
  ed_extension :: "string option"
  ed_connected :: bool
  ed_workflow_name :: "string option"
  ed_vault :: "vault_secret list option"
  ed_drifted :: "string list"

definition opened_editor :: "int option \<Rightarrow> editor" where
  "opened_editor viewing =
     \<lparr>ed_draft = None, ed_version = None, ed_viewing = viewing, ed_edited = None, ed_expanded = None, ed_repairing = None,
      ed_testing = False, ed_variables_open = False, ed_highlighted = None, ed_restoring = None, ed_note = None,
      ed_repick = None, ed_save = Idle, ed_recording = Idle, ed_repicks = [], ed_repick_error = None,
      ed_confirm = Idle, ed_restore = Idle, ed_extension = None, ed_connected = False, ed_workflow_name = None,
      ed_vault = None, ed_drifted = []\<rparr>"

definition ed_unsaved :: "editor \<Rightarrow> bool" where
  "ed_unsaved s \<longleftrightarrow> ed_edited s \<noteq> None"

definition read_only :: "editor \<Rightarrow> bool" where
  "read_only s \<longleftrightarrow> ed_viewing s \<noteq> None"

definition shown_document :: "editor \<Rightarrow> workflow_document option" where
  "shown_document s =
     (if read_only s then ed_version s else if ed_edited s \<noteq> None then ed_edited s else ed_draft s)"

text \<open>The Steps that are lit while a Variable is looked for.\<close>

definition usages :: "editor \<Rightarrow> workflow_document \<Rightarrow> string set" where
  "usages s document =
     (case find (\<lambda>row. Some (vw_name row) = ed_highlighted s) (variable_rows document) of
        Some row \<Rightarrow> set (vw_used_by row)
      | None \<Rightarrow> (case find (\<lambda>row. Some (uw_name row) = ed_highlighted s) (undeclared_rows document) of
          Some row \<Rightarrow> set (uw_used_by row)
        | None \<Rightarrow> {}))"

definition highlight_text :: "editor \<Rightarrow> workflow_document \<Rightarrow> string option" where
  "highlight_text s document =
     (case ed_highlighted s of
        None \<Rightarrow> None
      | Some name \<Rightarrow> Some
          (if usages s document = {} then ''Nothing uses '' @ reference_text name @ '' any more.''
           else ''The steps that use '' @ reference_text name @ '' are lit below.''))"

section \<open>Effects\<close>

datatype query = Draft_query | Workflow_query | Workflows_query | Secrets_query

datatype editor_effect =
    Put_draft workflow_document
  | Load_secrets
  | Create_session string
  | Create_repick string string
  | Renew_session string string
  | Post_fields fields
  | Finalize_repick string string "js list"
  | Restore_version int
  | Refetch "query list"
  | Push_path string

text \<open>A Variable as it is passed to the extension; a property that is absent or null is left out.\<close>

definition variable_value :: "variable \<Rightarrow> js" where
  "variable_value v = Obj ([(''name'', Str (va_name v))] @
     (case va_secret v of None \<Rightarrow> [] | Some b \<Rightarrow> [(''secret'', Bool b)]) @
     (case va_secret_id v of None \<Rightarrow> [] | Some i \<Rightarrow> [(''secretId'', Str i)]) @
     (case va_secret_name v of None \<Rightarrow> [] | Some n \<Rightarrow> [(''secretName'', Str n)]))"

definition secret_value :: "vault_secret \<Rightarrow> js" where
  "secret_value secret = Obj [(''id'', Str (vt_id secret)), (''name'', Str (vt_name secret))]"


section \<open>Edits of the document\<close>

datatype document_event =
    Step_added string step_type
  | Step_edited string form_edit
  | Step_converted string string bool value_field
  | Step_moved string direction
  | Step_deleted string
  | Variable_renamed string string
  | Variable_deleted string
  | Variable_ticked string bool
  | Secret_chosen string string
  | Undeclared_declared string bool
  | Variable_declared string bool

text \<open>A step is found by the id of its card. Some controls are in its form, which an expanded card shows.\<close>

definition the_step :: "workflow_document \<Rightarrow> string \<Rightarrow> step option" where
  "the_step document ident = find (\<lambda>step. st_id step = ident) (steps_of document)"

fun on_card :: "form_edit \<Rightarrow> bool" where
  "on_card (Label_typed _) = True"
| "on_card Switched = True"
| "on_card Screenshot_toggled = True"
| "on_card _ = False"

definition new_variable :: "string \<Rightarrow> bool \<Rightarrow> variable" where
  "new_variable name secret = \<lparr>va_name = name, va_secret = Some secret, va_secret_id = None, va_secret_name = None\<rparr>"

definition the_row :: "workflow_document \<Rightarrow> string \<Rightarrow> variable_row option" where
  "the_row document name = find (\<lambda>row. vw_name row = name) (variable_rows document)"

text \<open>The document that \<open>setEdited\<close> is called with, if the event calls it.\<close>

fun edited_document :: "editor \<Rightarrow> document_event \<Rightarrow> workflow_document \<Rightarrow> workflow_document option" where
  "edited_document s (Step_added fresh t) document =
     (if t \<in> set addable_step_types then Some (with_step_added document (blank_step fresh t)) else None)"
| "edited_document s (Step_edited ident e) document =
     (case the_step document ident of
        None \<Rightarrow> None
      | Some step \<Rightarrow>
          if on_card e \<or> ed_expanded s = Some ident then Some (with_step_replaced document (edit_step e step)) else None)"
| "edited_document s (Step_converted ident name secret fld) document =
     (case the_step document ident \<bind> interpolated_value of
        None \<Rightarrow> None
      | Some val \<Rightarrow>
          if ed_expanded s \<noteq> Some ident \<or> \<not> vf_converting fld then None
          else (case convert_submitted (variables_of document) name secret fld val of
            Inl _ \<Rightarrow> None
          | Inr (v, a, b) \<Rightarrow> Some (with_literal_made_variable document ident v a b)))"
| "edited_document s (Step_moved ident direction) document =
     (let place = find_index (\<lambda>step. st_id step = ident) (steps_of document) in
      if place < 0 \<or> (direction = Up \<and> place = 0) \<or> (direction = Down \<and> place = int (length (steps_of document)) - 1)
      then None else Some (with_step_moved document ident direction))"
| "edited_document s (Step_deleted ident) document =
     (case the_step document ident of None \<Rightarrow> None | Some _ \<Rightarrow> Some (with_step_deleted document ident))"
| "edited_document s (Variable_renamed name typed) document =
     (if \<not> ed_variables_open s \<or> the_row document name = None \<or> typed = name \<or> declaration_refusal document typed \<noteq> None
      then None else Some (with_variable_renamed document name typed))"
| "edited_document s (Variable_deleted name) document =
     (if \<not> ed_variables_open s \<or> the_row document name = None \<or> deletion_refusal document name \<noteq> None
      then None else Some (with_variable_deleted document name))"
| "edited_document s (Variable_ticked name secret) document =
     (if \<not> ed_variables_open s \<or> the_row document name = None then None
      else Some (with_variable_secret document name secret))"
| "edited_document s (Secret_chosen name ident) document =
     (case (the_row document name, find (\<lambda>secret. vt_id secret = ident) (orelse (ed_vault s) [])) of
        (Some row, Some picked) \<Rightarrow>
          if ed_variables_open s \<and> vw_secret row then Some (with_secret_bound document name picked) else None
      | _ \<Rightarrow> None)"
| "edited_document s (Undeclared_declared name secret) document =
     (if \<not> ed_variables_open s \<or> find (\<lambda>row. uw_name row = name) (undeclared_rows document) = None then None
      else Some (with_variable_declared document (new_variable name secret)))"
| "edited_document s (Variable_declared name secret) document =
     (if \<not> ed_variables_open s \<or> declaration_refusal document name \<noteq> None then None
      else Some (with_variable_declared document (new_variable name secret)))"

text \<open>A Step that is added is expanded.\<close>

definition edit_document :: "document_event \<Rightarrow> editor \<Rightarrow> editor" where
  "edit_document e s =
     (case shown_document s of
        None \<Rightarrow> s
      | Some document \<Rightarrow>
          if read_only s then s
          else (case edited_document s e document of
            None \<Rightarrow> s
          | Some document' \<Rightarrow>
              (case e of Step_added fresh _ \<Rightarrow> s\<lparr>ed_edited := Some document', ed_expanded := Some fresh\<rparr>
               | _ \<Rightarrow> s\<lparr>ed_edited := Some document'\<rparr>)))"

section \<open>Recording and picking again\<close>

text \<open>\<open>Start recording\<close>, with the answer to its question; then the call, once there are Secrets to send.\<close>

definition start_recording :: "bool \<Rightarrow> editor \<Rightarrow> editor \<times> editor_effect list" where
  "start_recording confirmed s =
     (case shown_document s of
        None \<Rightarrow> (s, [])
      | Some document \<Rightarrow>
          if read_only s \<or> \<not> ed_connected s \<or> pending (ed_recording s) then (s, [])
          else if ed_unsaved s then
            (s\<lparr>ed_note := Some ''Save or discard your editor changes before recording.''\<rparr>, [])
          else if steps_of document \<noteq> [] \<and> \<not> confirmed then (s, [])
          else (case (ed_extension s, ed_workflow_name s) of
            (Some extension, Some name) \<Rightarrow>
              (s\<lparr>ed_recording := Asked \<lparr>rq_extension = extension, rq_workflow_name = name,
                  rq_variables = variables_of document, rq_secrets = ed_vault s\<rparr>\<rparr>,
               [if ed_vault s = None then Load_secrets else Create_session extension])
          | _ \<Rightarrow> (s\<lparr>ed_recording := Refused not_ready\<rparr>, [])))"

definition secrets_answered :: "js + vault_secret list \<Rightarrow> editor \<Rightarrow> editor \<times> editor_effect list" where
  "secrets_answered answer s =
     (case ed_recording s of
        Asked request \<Rightarrow>
          if rq_secrets request \<noteq> None then (s, [])
          else (case answer of
            Inl error \<Rightarrow> (s\<lparr>ed_recording := Refused error\<rparr>, [])
          | Inr secrets \<Rightarrow> (s\<lparr>ed_recording := Asked (request\<lparr>rq_secrets := Some secrets\<rparr>)\<rparr>,
              [Create_session (rq_extension request)]))
      | _ \<Rightarrow> (s, []))"

definition session_answered ::
    "string \<Rightarrow> string \<Rightarrow> js + string \<times> string \<Rightarrow> editor \<Rightarrow> editor \<times> editor_effect list" where
  "session_answered origin workflow_id answer s =
     (case ed_recording s of
        Asked request \<Rightarrow>
          (case (answer, rq_secrets request) of
             (_, None) \<Rightarrow> (s, [])
           | (Inl error, _) \<Rightarrow> (s\<lparr>ed_recording := Refused error\<rparr>, [])
           | (Inr (session_id, token), Some secrets) \<Rightarrow>
               (s\<lparr>ed_recording := Idle,
                  ed_note := Some ''Ready in the extension. Open the first page, then confirm from its popup.''\<rparr>,
                [Post_fields (recording_pending_message
                   \<lparr>pr_session_id = session_id, pr_token = token, pr_backend_origin = origin, pr_workflow_id = workflow_id,
                    pr_workflow_name = rq_workflow_name request, pr_variables = map variable_value (rq_variables request),
                    pr_secrets = map secret_value secrets\<rparr>)]))
      | _ \<Rightarrow> (s, []))"

definition first_candidates :: "step \<Rightarrow> selector_candidate list" where
  "first_candidates step = (case targets_of step of [] \<Rightarrow> [] | target # _ \<Rightarrow> tg_candidates target)"

definition start_repick :: "string \<Rightarrow> editor \<Rightarrow> editor \<times> editor_effect list" where
  "start_repick ident s =
     (case shown_document s \<bind> (\<lambda>document. the_step document ident) of
        None \<Rightarrow> (s, [])
      | Some step \<Rightarrow>
          if read_only s \<or> \<not> ed_connected s \<or> ed_expanded s \<noteq> Some ident then (s, [])
          else (case repick_refusal (ed_unsaved s) of
            Some refusal \<Rightarrow> (s\<lparr>ed_note := Some refusal\<rparr>, [])
          | None \<Rightarrow>
              (case (ed_extension s, ed_workflow_name s) of
                 (Some extension, Some name) \<Rightarrow>
                   (s\<lparr>ed_repicks := map (\<lambda>r. r\<lparr>rr_latest := False\<rparr>) (ed_repicks s) @
                       [\<lparr>rr_workflow_name = name, rr_step_id = ident, rr_old = first_candidates step, rr_latest = True\<rparr>],
                      ed_repick_error := None\<rparr>,
                    [Create_repick extension ident])
               | _ \<Rightarrow> (s\<lparr>ed_repicks := map (\<lambda>r. r\<lparr>rr_latest := False\<rparr>) (ed_repicks s),
                      ed_repick_error := Some not_ready\<rparr>, []))))"

text \<open>The answer to one of the calls that are pending; only the last one asked for shows its error.\<close>

definition repick_answered ::
    "string \<Rightarrow> string \<Rightarrow> nat \<Rightarrow> js + string \<times> string \<Rightarrow> editor \<Rightarrow> editor \<times> editor_effect list" where
  "repick_answered origin workflow_id k answer s =
     (case Prelude.at (ed_repicks s) (int k) of
        None \<Rightarrow> (s, [])
      | Some request \<Rightarrow>
          let left = s\<lparr>ed_repicks := take k (ed_repicks s) @ drop (Suc k) (ed_repicks s)\<rparr> in
          (case answer of
             Inl error \<Rightarrow> (if rr_latest request then left\<lparr>ed_repick_error := Some error\<rparr> else left, [])
           | Inr (session_id, token) \<Rightarrow>
               (left\<lparr>ed_repick := Some \<lparr>rk_session_id = session_id, rk_token = token, rk_step_id = rr_step_id request,
                     rk_old = rr_old request, rk_next = None\<rparr>,
                   ed_note := Some (''Ready in the extension. Open the page that has the element, '' @
                     ''then confirm from its popup and click it.'')\<rparr>,
                [Post_fields (repick_pending_message
                   \<lparr>pp_session_id = session_id, pp_token = token, pp_backend_origin = origin, pp_workflow_id = workflow_id,
                    pp_workflow_name = rr_workflow_name request, pp_step_id = rr_step_id request\<rparr>)])))"

definition repick_shown :: "editor \<Rightarrow> bool" where
  "repick_shown s \<longleftrightarrow> (case ed_repick s of None \<Rightarrow> False | Some r \<Rightarrow> rk_next r \<noteq> None)"

definition confirm_repick :: "editor \<Rightarrow> editor \<times> editor_effect list" where
  "confirm_repick s =
     (case ed_repick s of
        None \<Rightarrow> (s, [])
      | Some r \<Rightarrow> (case rk_next r of
          None \<Rightarrow> (s, [])
        | Some candidates \<Rightarrow>
            if pending (ed_confirm s) then (s, [])
            else (s\<lparr>ed_confirm := Asked r\<rparr>, [Finalize_repick (rk_session_id r) (rk_token r) candidates])))"

definition refetched :: "query list" where
  "refetched = [Draft_query, Workflow_query, Workflows_query]"

definition confirm_answered :: "js option \<Rightarrow> editor \<Rightarrow> editor \<times> editor_effect list" where
  "confirm_answered answer s =
     (case (ed_confirm s, answer) of
        (Asked _, Some error) \<Rightarrow> (s\<lparr>ed_confirm := Refused error\<rparr>, [])
      | (Asked _, None) \<Rightarrow>
          (s\<lparr>ed_confirm := Settling, ed_repick := None, ed_edited := None,
             ed_note := Some (''The Step'' @ [CHR 0x27] @ ''s selectors were replaced.'')\<rparr>, [Refetch refetched])
      | _ \<Rightarrow> (s, []))"

section \<open>What the extension says\<close>

definition page_heard :: "heard \<Rightarrow> editor \<Rightarrow> editor \<times> editor_effect list" where
  "page_heard ev s =
     (case ev of
        Timed_out \<Rightarrow> (s, [])
      | Heard source_ok origin_ok data \<Rightarrow>
          if \<not> source_ok \<or> \<not> origin_ok then (s, [])
          else (case read_extension_message data of
            None \<Rightarrow> (s, [])
          | Some message \<Rightarrow>
              if em_type message = Repick_candidates \<and> em_candidates message \<noteq> None then
                (s\<lparr>ed_repick := map_option (\<lambda>r. if Some (rk_session_id r) = em_session_id message
                     then r\<lparr>rk_next := em_candidates message\<rparr> else r) (ed_repick s)\<rparr>, [])
              else if em_type message = Recording_finished then
                (s\<lparr>ed_note := Some ''Recording saved to the Draft.''\<rparr>, [Refetch (refetched @ [Secrets_query])])
              else if em_type message = Recording_token_expired then
                (case (em_session_id message, ed_extension s) of
                   (Some session_id, Some extension) \<Rightarrow> (s, [Renew_session extension session_id])
                 | _ \<Rightarrow> (s, []))
              else (s, [])))"

definition renew_answered :: "js + string \<times> string \<Rightarrow> editor \<Rightarrow> editor \<times> editor_effect list" where
  "renew_answered answer s =
     (case answer of
        Inl error \<Rightarrow> (s\<lparr>ed_note := Some (read_refusal error)\<rparr>, [])
      | Inr (session_id, token) \<Rightarrow>
          (s\<lparr>ed_note := Some ''Recording resumed with every captured Step intact.''\<rparr>,
           [Post_fields (recording_token_message session_id token)]))"

section \<open>Saving and restoring\<close>

definition press_save :: "editor \<Rightarrow> editor \<times> editor_effect list" where
  "press_save s =
     (case ed_edited s of
        None \<Rightarrow> (s, [])
      | Some document \<Rightarrow>
          if read_only s \<or> pending (ed_save s) then (s, [])
          else (s\<lparr>ed_save := Asked document\<rparr>, [Put_draft document]))"

definition save_answered :: "js option \<Rightarrow> editor \<Rightarrow> editor \<times> editor_effect list" where
  "save_answered answer s =
     (case (ed_save s, answer) of
        (Asked _, Some error) \<Rightarrow> (s\<lparr>ed_save := Refused error\<rparr>, [])
      | (Asked _, None) \<Rightarrow> (s\<lparr>ed_save := Settling, ed_edited := None\<rparr>, [Refetch refetched])
      | _ \<Rightarrow> (s, []))"

definition press_discard :: "editor \<Rightarrow> editor" where
  "press_discard s = (if read_only s \<or> pending (ed_save s) then s else s\<lparr>ed_edited := None\<rparr>)"

definition confirm_restore :: "editor \<Rightarrow> editor \<times> editor_effect list" where
  "confirm_restore s =
     (case ed_restoring s of
        None \<Rightarrow> (s, [])
      | Some number \<Rightarrow> if pending (ed_restore s) then (s, []) else (s\<lparr>ed_restore := Asked number\<rparr>, [Restore_version number]))"

definition restore_answered :: "js option \<Rightarrow> editor \<Rightarrow> editor \<times> editor_effect list" where
  "restore_answered answer s =
     (case (ed_restore s, answer) of
        (Asked _, Some error) \<Rightarrow> (s\<lparr>ed_restore := Refused error\<rparr>, [])
      | (Asked _, None) \<Rightarrow> (s\<lparr>ed_restore := Settling, ed_restoring := None, ed_edited := None\<rparr>, [Refetch refetched])
      | _ \<Rightarrow> (s, []))"

section \<open>The events of the page\<close>

datatype editor_event =
    Edited document_event
  | Card_toggled string
  | Drift_repaired string
  | Variables_opened bool
  | Usages_shown string
  | Highlight_done
  | Save_pressed
  | Discard_pressed
  | Save_answered "js option"
  | Save_settled
  | Record_pressed bool
  | Secrets_answered "js + vault_secret list"
  | Session_answered "js + string \<times> string"
  | Repick_pressed string
  | Repick_answered nat "js + string \<times> string"
  | Repick_confirmed
  | Repick_closed
  | Confirm_answered "js option"
  | Confirm_settled
  | Page_heard heard
  | Renew_answered "js + string \<times> string"
  | Test_pressed
  | Test_opened bool
  | Restore_pressed
  | Restore_confirmed
  | Restore_closed
  | Restore_answered "js option"
  | Restore_settled
  | Navigated "int option" "workflow_document option"
  | Draft_loaded workflow_document
  | Version_loaded int workflow_document
  | Workflow_loaded string
  | Vault_loaded "vault_secret list"
  | Drift_loaded "string list"
  | Connection_changed "string option" bool

definition toggle_card :: "string \<Rightarrow> editor \<Rightarrow> editor" where
  "toggle_card ident s =
     (if ed_expanded s = Some ident
      then s\<lparr>ed_expanded := None, ed_repairing := (if ed_repairing s = Some ident then None else ed_repairing s)\<rparr>
      else s\<lparr>ed_expanded := Some ident\<rparr>)"

definition press_test :: "editor \<Rightarrow> editor" where
  "press_test s =
     (if read_only s then s
      else (case test_run_refusal (ed_unsaved s) of
        Some blocked \<Rightarrow> s\<lparr>ed_note := Some blocked\<rparr>
      | None \<Rightarrow> s\<lparr>ed_testing := True\<rparr>))"

definition used_names :: "workflow_document \<Rightarrow> string list" where
  "used_names document =
     map vw_name (filter (\<lambda>row. vw_used_by row \<noteq> []) (variable_rows document)) @ map uw_name (undeclared_rows document)"

text \<open>Without a document the page shows only that it could not be loaded. What arrives is taken all the same.\<close>

fun editor_step :: "string \<Rightarrow> string \<Rightarrow> editor \<Rightarrow> editor_event \<Rightarrow> editor \<times> editor_effect list" where
  "editor_step origin workflow_id s (Edited e) = (edit_document e s, [])"
| "editor_step origin workflow_id s (Card_toggled ident) =
     (if shown_document s \<bind> (\<lambda>document. the_step document ident) = None then s else toggle_card ident s, [])"
| "editor_step origin workflow_id s (Drift_repaired ident) =
     (if shown_document s \<bind> (\<lambda>document. the_step document ident) = None \<or> ident \<notin> set (ed_drifted s) then s
      else s\<lparr>ed_expanded := Some ident, ed_repairing := Some ident\<rparr>, [])"
| "editor_step origin workflow_id s (Variables_opened b) =
     (if shown_document s = None then s else s\<lparr>ed_variables_open := b\<rparr>, [])"
| "editor_step origin workflow_id s (Usages_shown name) =
     (case shown_document s of
        None \<Rightarrow> s
      | Some document \<Rightarrow>
          if ed_variables_open s \<and> \<not> read_only s \<and> name \<in> set (used_names document)
          then s\<lparr>ed_variables_open := False, ed_highlighted := Some name\<rparr> else s, [])"
| "editor_step origin workflow_id s Highlight_done = (s\<lparr>ed_highlighted := None\<rparr>, [])"
| "editor_step origin workflow_id s Save_pressed = press_save s"
| "editor_step origin workflow_id s Discard_pressed = (press_discard s, [])"
| "editor_step origin workflow_id s (Save_answered answer) = save_answered answer s"
| "editor_step origin workflow_id s Save_settled = (s\<lparr>ed_save := settled (ed_save s)\<rparr>, [])"
| "editor_step origin workflow_id s (Record_pressed confirmed) = start_recording confirmed s"
| "editor_step origin workflow_id s (Secrets_answered answer) = secrets_answered answer s"
| "editor_step origin workflow_id s (Session_answered answer) = session_answered origin workflow_id answer s"
| "editor_step origin workflow_id s (Repick_pressed ident) = start_repick ident s"
| "editor_step origin workflow_id s (Repick_answered k answer) = repick_answered origin workflow_id k answer s"
| "editor_step origin workflow_id s Repick_confirmed = confirm_repick s"
| "editor_step origin workflow_id s Repick_closed = (if repick_shown s then s\<lparr>ed_repick := None\<rparr> else s, [])"
| "editor_step origin workflow_id s (Confirm_answered answer) = confirm_answered answer s"
| "editor_step origin workflow_id s Confirm_settled = (s\<lparr>ed_confirm := settled (ed_confirm s)\<rparr>, [])"
| "editor_step origin workflow_id s (Page_heard ev) = page_heard ev s"
| "editor_step origin workflow_id s (Renew_answered answer) = renew_answered answer s"
| "editor_step origin workflow_id s Test_pressed = (if shown_document s = None then s else press_test s, [])"
| "editor_step origin workflow_id s (Test_opened b) = (if ed_testing s then s\<lparr>ed_testing := b\<rparr> else s, [])"
| "editor_step origin workflow_id s Restore_pressed = (if shown_document s = None \<or> \<not> read_only s then s else s\<lparr>ed_restoring := ed_viewing s\<rparr>, [])"
| "editor_step origin workflow_id s Restore_confirmed = confirm_restore s"
| "editor_step origin workflow_id s Restore_closed = (s\<lparr>ed_restoring := None\<rparr>, [])"
| "editor_step origin workflow_id s (Restore_answered answer) = restore_answered answer s"
| "editor_step origin workflow_id s Restore_settled =
     (s\<lparr>ed_restore := settled (ed_restore s)\<rparr>,
      case ed_restore s of Settling \<Rightarrow> [Push_path (version_path workflow_id None)] | _ \<Rightarrow> [])"
| "editor_step origin workflow_id s (Navigated viewing cached) = (s\<lparr>ed_viewing := viewing, ed_version := cached\<rparr>, [])"
| "editor_step origin workflow_id s (Draft_loaded document) = (s\<lparr>ed_draft := Some document\<rparr>, [])"
| "editor_step origin workflow_id s (Version_loaded number document) =
     (if ed_viewing s = Some number then s\<lparr>ed_version := Some document\<rparr> else s, [])"
| "editor_step origin workflow_id s (Workflow_loaded name) = (s\<lparr>ed_workflow_name := Some name\<rparr>, [])"
| "editor_step origin workflow_id s (Vault_loaded secrets) = (s\<lparr>ed_vault := Some secrets\<rparr>, [])"
| "editor_step origin workflow_id s (Drift_loaded idents) = (s\<lparr>ed_drifted := idents\<rparr>, [])"
| "editor_step origin workflow_id s (Connection_changed extension live) =
     (s\<lparr>ed_extension := extension, ed_connected := live\<rparr>, [])"

definition next_editor :: "string \<Rightarrow> string \<Rightarrow> editor \<Rightarrow> editor_event \<Rightarrow> editor" where
  "next_editor origin workflow_id s e = fst (editor_step origin workflow_id s e)"

definition effects_of :: "string \<Rightarrow> string \<Rightarrow> editor \<Rightarrow> editor_event \<Rightarrow> editor_effect list" where
  "effects_of origin workflow_id s e = snd (editor_step origin workflow_id s e)"

section \<open>Leaving with changes\<close>

text \<open>
  A click on the page, as its listener sees it: the link it is in, and where that leads in this origin
  (\<open>None\<close> for another origin or no address).
\<close>

record page_click =
  pk_prevented :: bool
  pk_button :: int
  pk_modified :: bool
  pk_link :: "string option"
  pk_elsewhere :: bool
  pk_leads_to :: "string option"

definition click_asks :: "bool \<Rightarrow> string \<Rightarrow> page_click \<Rightarrow> bool" where
  "click_asks unsaved here click \<longleftrightarrow>
     unsaved \<and> \<not> pk_prevented click \<and> pk_button click = 0 \<and> \<not> pk_modified click \<and> \<not> pk_elsewhere click \<and>
     (case pk_link click of
        None \<Rightarrow> False
      | Some href \<Rightarrow> href \<noteq> [] \<and> \<not> prefix ''#'' href \<and>
          (case pk_leads_to click of None \<Rightarrow> False | Some path \<Rightarrow> should_ask_before_leave True here (Some path)))"

definition unload_asks :: "bool \<Rightarrow> string \<Rightarrow> bool" where
  "unload_asks unsaved here \<longleftrightarrow> unsaved \<and> should_ask_before_leave True here None"

section \<open>What is saved\<close>

text \<open>Ids are drawn at random; that they differ from those in the document is what the page relies on.\<close>

definition drawn_fresh :: "editor \<Rightarrow> editor_event \<Rightarrow> bool" where
  "drawn_fresh s e =
     (case (e, shown_document s) of
        (Edited (Step_added fresh _), Some document) \<Rightarrow> fresh \<notin> st_id ` set (steps_of document)
      | _ \<Rightarrow> True)"

fun drafts_in :: "editor_event \<Rightarrow> workflow_document set" where
  "drafts_in (Draft_loaded document) = {document}"
| "drafts_in _ = {}"

text \<open>A page that has been given the Drafts, with whatever happened in whatever order.\<close>

inductive editor_reached :: "string \<Rightarrow> string \<Rightarrow> workflow_document set \<Rightarrow> editor \<Rightarrow> bool"
    for origin workflow_id where
  opened: "editor_reached origin workflow_id {} (opened_editor viewing)"
| happened: "editor_reached origin workflow_id drafts s \<Longrightarrow> drawn_fresh s e \<Longrightarrow>
    editor_reached origin workflow_id (drafts \<union> drafts_in e) (next_editor origin workflow_id s e)"

definition edited_from :: "workflow_document set \<Rightarrow> workflow_document \<Rightarrow> bool" where
  "edited_from drafts document \<longleftrightarrow> (\<exists>draft \<in> drafts. \<exists>typed. edits draft typed document)"

definition editor_holds :: "workflow_document set \<Rightarrow> editor \<Rightarrow> bool" where
  "editor_holds drafts s \<longleftrightarrow>
     (\<forall>document. ed_draft s = Some document \<longrightarrow> document \<in> drafts) \<and>
     (\<forall>document. ed_edited s = Some document \<longrightarrow> edited_from drafts document)"

lemma edited_from_mono: "edited_from drafts document \<Longrightarrow> drafts \<subseteq> drafts' \<Longrightarrow> edited_from drafts' document"
  by (auto simp: edited_from_def)

lemma edited_from_draft: "document \<in> drafts \<Longrightarrow> edited_from drafts document"
  using edits.none by (auto simp: edited_from_def)

lemma edited_from_edit: "edited_from drafts document \<Longrightarrow> edit document typed document' \<Longrightarrow> edited_from drafts document'"
  unfolding edited_from_def by (blast intro: edits.more)

lemma the_step_in: "the_step document ident = Some step \<Longrightarrow> step \<in> set (steps_of document) \<and> st_id step = ident"
  unfolding the_step_def by (drule find_Some_iff_ex) simp

lemma the_row_in: "the_row document name = Some row \<Longrightarrow> row \<in> set (variable_rows document) \<and> vw_name row = name"
  unfolding the_row_def by (drule find_Some_iff_ex) simp

lemma the_row_declared: "the_row document name \<noteq> None \<Longrightarrow> name \<in> va_name ` set (variables_of document)"
  using the_row_in by (fastforce simp: variable_rows_def)

lemma declaration_refusal_variables:
  "declaration_refusal \<lparr>wd_steps = None, wd_variables = Some (variables_of document)\<rparr> name = declaration_refusal document name"
  by (simp add: declaration_refusal_def variables_of_def)

lemma convert_submitted_Inr:
  "convert_submitted variables name secret fld val = Inr (v, a, b) \<Longrightarrow>
   va_name v = name \<and> declaration_refusal \<lparr>wd_steps = None, wd_variables = Some variables\<rparr> name = None"
  by (auto simp: convert_submitted_def split: option.splits)

text \<open>Whatever the page makes of its document is one of the edits of the library.\<close>

lemma edited_document_edit:
  assumes "edited_document s e document = Some document'"
    and "\<And>fresh t. e = Step_added fresh t \<Longrightarrow> fresh \<notin> st_id ` set (steps_of document)"
  shows "\<exists>typed. edit document typed document'"
  using assms
proof (induction s e document rule: edited_document.induct)
  case (1 s fresh t document)
  then show ?case using edit.add [of fresh document t] by (auto split: if_splits)
next
  case (2 s ident e document)
  then show ?case using edit.replace by (fastforce split: option.splits if_splits)
next
  case (3 s ident name secret fld document)
  then obtain val v a b where "convert_submitted (variables_of document) name secret fld val = Inr (v, a, b)"
      and made: "document' = with_literal_made_variable document ident v a b"
    by (auto split: option.splits if_splits sum.splits)
  then have "declaration_refusal document (va_name v) = None"
    by (auto dest!: convert_submitted_Inr simp: declaration_refusal_variables)
  then show ?case unfolding made using edit.make_variable by blast
next
  case (4 s ident direction document)
  then have "document' = with_step_moved document ident direction" by (simp add: Let_def split: if_splits)
  then show ?case using edit.move by blast
next
  case (5 s ident document)
  then have "document' = with_step_deleted document ident" by (simp split: option.splits)
  then show ?case using edit.drop_step by blast
next
  case (6 s name typed document)
  then have "the_row document name \<noteq> None" "declaration_refusal document typed = None"
    "document' = with_variable_renamed document name typed" by (simp_all split: if_splits)
  then show ?case using edit.rename [OF the_row_declared] by blast
next
  case (7 s name document)
  then have "deletion_refusal document name = None" "document' = with_variable_deleted document name"
    by (simp_all split: if_splits)
  then show ?case using edit.drop_variable by blast
next
  case (8 s name secret document)
  then have "document' = with_variable_secret document name secret" by (simp split: if_splits)
  then show ?case using edit.keep_secret by blast
next
  case (9 s name ident document)
  then obtain picked where "document' = with_secret_bound document name picked"
    by (auto split: option.splits if_splits)
  then show ?case using edit.bind by blast
next
  case (10 s name secret document)
  then obtain row where "row \<in> set (undeclared_rows document)" "va_name (new_variable name secret) = uw_name row"
    "document' = with_variable_declared document (new_variable name secret)"
    by (auto simp: new_variable_def dest!: find_Some_iff_ex split: if_splits)
  then show ?case using edit.declare_undeclared by blast
next
  case (11 s name secret document)
  then have "declaration_refusal document (va_name (new_variable name secret)) = None"
    "document' = with_variable_declared document (new_variable name secret)"
    by (simp_all add: new_variable_def split: if_splits)
  then show ?case using edit.declare_variable by blast
qed

lemma shown_edited: "shown_document s = Some document \<Longrightarrow> \<not> read_only s \<Longrightarrow> editor_holds drafts s \<Longrightarrow> edited_from drafts document"
  using edited_from_draft by (auto simp: shown_document_def editor_holds_def split: if_splits)

lemma edited_document_cong:
  "ed_expanded s = ed_expanded s' \<Longrightarrow> ed_variables_open s = ed_variables_open s' \<Longrightarrow> ed_vault s = ed_vault s' \<Longrightarrow>
   edited_document s e document = edited_document s' e document"
  by (induction s e document rule: edited_document.induct) (simp_all cong: option.case_cong)

lemma edit_document_shown:
  "shown_document s = Some document \<Longrightarrow> \<not> read_only s \<Longrightarrow> edited_document s e document = Some document' \<Longrightarrow>
   \<exists>expanded. edit_document e s = s\<lparr>ed_edited := Some document', ed_expanded := expanded\<rparr>"
  by (cases e) (auto simp: edit_document_def intro: exI [of _ "ed_expanded s"])

lemma edit_document_read_only: "read_only s \<Longrightarrow> edit_document e s = s"
  by (simp add: edit_document_def split: option.split)

lemma edit_document_frame:
  "ed_draft (edit_document e s) = ed_draft s" "ed_save (edit_document e s) = ed_save s"
  "ed_viewing (edit_document e s) = ed_viewing s" "ed_testing (edit_document e s) = ed_testing s"
  "ed_recording (edit_document e s) = ed_recording s"
  by (auto simp: edit_document_def split: option.split document_event.split)

lemma edit_document_edited:
  "ed_edited (edit_document e s) = Some document \<Longrightarrow>
   ed_edited s = Some document \<or>
   (\<not> read_only s \<and> (\<exists>shown. shown_document s = Some shown \<and> edited_document s e shown = Some document))"
  by (auto simp: edit_document_def split: option.splits document_event.splits if_splits)

lemma edit_document_holds:
  assumes "editor_holds drafts s" and "drawn_fresh s (Edited e)"
  shows "editor_holds drafts (edit_document e s)"
proof -
  have "edited_from drafts document" if "ed_edited (edit_document e s) = Some document" for document
    using edit_document_edited [OF that]
  proof (elim disjE conjE exE)
    fix shown
    assume shown: "\<not> read_only s" "shown_document s = Some shown" "edited_document s e shown = Some document"
    have "fresh \<notin> st_id ` set (steps_of shown)" if "e = Step_added fresh t" for fresh t
      using assms(2) shown(2) that by (simp add: drawn_fresh_def)
    then obtain typed where "edit shown typed document" using edited_document_edit [OF shown(3)] by blast
    then show ?thesis using edited_from_edit [OF shown_edited [OF shown(2,1) assms(1)]] by blast
  qed (use assms(1) in \<open>simp add: editor_holds_def\<close>)
  then show ?thesis using assms(1) by (simp add: editor_holds_def edit_document_frame)
qed

text \<open>No event but an edit and the loading of a Draft puts a document into the page.\<close>

lemmas page_defs = start_recording_def secrets_answered_def session_answered_def start_repick_def repick_answered_def
  confirm_repick_def confirm_answered_def page_heard_def renew_answered_def press_save_def save_answered_def
  press_discard_def confirm_restore_def restore_answered_def toggle_card_def press_test_def

lemmas page_splits = option.splits if_splits mutation.splits sum.splits prod.splits heard.splits

lemma step_keeps_documents:
  assumes "\<forall>d. e \<noteq> Edited d" and "\<forall>document. e \<noteq> Draft_loaded document"
  shows "ed_draft (next_editor origin workflow_id s e) = ed_draft s \<and>
    ed_edited (next_editor origin workflow_id s e) \<in> {ed_edited s, None}"
  using assms unfolding next_editor_def
  by (cases e) (simp_all add: page_defs Let_def split: page_splits)

lemma step_holds:
  assumes "editor_holds drafts s" and "drawn_fresh s e"
  shows "editor_holds (drafts \<union> drafts_in e) (next_editor origin workflow_id s e)"
proof -
  have more: "editor_holds (drafts \<union> drafts_in e) s"
    using assms(1) edited_from_mono [of drafts] by (fastforce simp: editor_holds_def)
  consider (edited) d where "e = Edited d" | (draft) document where "e = Draft_loaded document"
    | (other) "\<forall>d. e \<noteq> Edited d" "\<forall>document. e \<noteq> Draft_loaded document" by blast
  then show ?thesis
  proof cases
    case (edited d)
    then show ?thesis using edit_document_holds [OF more, of d] assms(2) by (simp add: next_editor_def)
  next
    case (draft document)
    then show ?thesis using more by (simp add: editor_holds_def next_editor_def)
  next
    case other
    from step_keeps_documents [OF other, of origin workflow_id s] more show ?thesis
      by (auto simp: editor_holds_def)
  qed
qed

lemma reached_holds: "editor_reached origin workflow_id drafts s \<Longrightarrow> editor_holds drafts s"
proof (induction rule: editor_reached.induct)
  case (opened viewing)
  then show ?case by (simp add: editor_holds_def opened_editor_def)
next
  case (happened drafts s e)
  then show ?case by (intro step_holds)
qed

lemma edits_keep: "edits document typed document' \<Longrightarrow> document_keeps loose document \<Longrightarrow> document_keeps (loose \<union> typed) document'"
proof (induction rule: edits.induct)
  case (more document typed document' typed' document'')
  then show ?case using edit_keeps [of document' typed' document'' "loose \<union> typed"] by (simp add: Un_assoc)
qed simp

lemma put_draft_pressed:
  "Put_draft document \<in> set (effects_of origin workflow_id s e) \<Longrightarrow>
   e = Save_pressed \<and> ed_edited s = Some document \<and> \<not> read_only s \<and> \<not> pending (ed_save s)"
  unfolding effects_of_def by (cases e) (simp_all add: page_defs Let_def split: page_splits)

section \<open>Properties\<close>

text \<open>C1. What the page saves is one of the Drafts that the API gave it with edits of the library made to it: it is put
  only when Save is pressed with changes and no Version open, its Step ids and Variable names are as distinct
  as the Draft's were, and a reference it leaves undeclared was so in the Draft or was typed.\<close>

theorem saved_draft_is_edited_draft:
  assumes "editor_reached origin workflow_id drafts s"
    and "Put_draft document \<in> set (effects_of origin workflow_id s e)"
    and "\<forall>draft \<in> drafts. document_keeps loose draft"
  shows "e = Save_pressed \<and> \<not> read_only s \<and> ed_edited s = Some document \<and>
    (\<exists>draft \<in> drafts. \<exists>typed. edits draft typed document \<and> document_keeps (loose \<union> typed) document)"
proof -
  note put = put_draft_pressed [OF assms(2)]
  then obtain draft typed where "draft \<in> drafts" "edits draft typed document"
    using reached_holds [OF assms(1)] by (auto simp: editor_holds_def edited_from_def)
  with edits_keep assms(3) put show ?thesis by blast
qed

text \<open>A page that was given a Draft, in which a Step was added.\<close>

definition sample_events :: "editor_event list" where
  "sample_events = [Draft_loaded sample_document, Edited (Step_added ''s2'' step_type.Navigate)]"

definition sample_editor :: editor where
  "sample_editor = foldl (next_editor ''https://sbs.test'' ''w1'') (opened_editor None) sample_events"

lemma sample_reached: "editor_reached ''https://sbs.test'' ''w1'' {sample_document} sample_editor"
proof -
  let ?next = "next_editor ''https://sbs.test'' ''w1''"
  have "drawn_fresh (opened_editor None) (Draft_loaded sample_document)" by (simp add: drawn_fresh_def)
  from editor_reached.happened [OF editor_reached.opened this, of "''https://sbs.test''" "''w1''"]
  have loaded: "editor_reached ''https://sbs.test'' ''w1'' {sample_document} (?next (opened_editor None) (Draft_loaded sample_document))"
    by simp
  have "drawn_fresh (?next (opened_editor None) (Draft_loaded sample_document)) (Edited (Step_added ''s2'' step_type.Navigate))"
    by (simp add: drawn_fresh_def next_editor_def shown_document_def opened_editor_def read_only_def sample_document_def
        steps_of_def blank_step_def)
  from editor_reached.happened [OF loaded this] show ?thesis by (simp add: sample_editor_def sample_events_def)
qed

theorem saved_draft_is_edited_draft_witness:
  "\<exists>document. Put_draft document \<in> set (effects_of ''https://sbs.test'' ''w1'' sample_editor Save_pressed) \<and>
     distinct (map st_id (steps_of document))"
proof -
  obtain document where document: "ed_edited sample_editor = Some document" "\<not> read_only sample_editor" "\<not> pending (ed_save sample_editor)"
    by (simp add: sample_editor_def sample_events_def next_editor_def edit_document_def shown_document_def opened_editor_def
        read_only_def addable_step_types_def)
  then have put: "Put_draft document \<in> set (effects_of ''https://sbs.test'' ''w1'' sample_editor Save_pressed)"
    by (simp add: effects_of_def press_save_def)
  from saved_draft_is_edited_draft [OF sample_reached put] sample_document_closed
  obtain typed where "document_keeps ({} \<union> typed) document" by blast
  with put show ?thesis by (auto simp: document_keeps_def)
qed

text \<open>A Version that is open is only read: whatever is done or arrives, what was edited of the Draft stays or is
  dropped by an answer, no Draft is put, nothing is picked again and no test Run opens.\<close>

theorem open_version_is_only_read:
  assumes "read_only s"
  shows "ed_edited (next_editor origin workflow_id s e) \<in> {ed_edited s, None} \<and>
    Put_draft document \<notin> set (effects_of origin workflow_id s e) \<and>
    Create_repick extension ident \<notin> set (effects_of origin workflow_id s e) \<and>
    (ed_testing (next_editor origin workflow_id s e) \<longrightarrow> ed_testing s) \<and>
    (pending (ed_recording (next_editor origin workflow_id s e)) \<longrightarrow> pending (ed_recording s))"
proof (intro conjI)
  show "ed_edited (next_editor origin workflow_id s e) \<in> {ed_edited s, None}"
  proof (cases "\<exists>d. e = Edited d")
    case True
    then show ?thesis using assms by (auto simp: next_editor_def edit_document_read_only)
  next
    case False
    then show ?thesis
      using step_keeps_documents [of e origin workflow_id s]
      by (cases "\<exists>document. e = Draft_loaded document") (auto simp: next_editor_def)
  qed
  show "Put_draft document \<notin> set (effects_of origin workflow_id s e)"
    using put_draft_pressed assms by blast
  show "Create_repick extension ident \<notin> set (effects_of origin workflow_id s e)"
    using assms unfolding effects_of_def by (cases e) (simp_all add: page_defs Let_def split: page_splits)
  show "ed_testing (next_editor origin workflow_id s e) \<longrightarrow> ed_testing s"
    using assms unfolding next_editor_def
    by (cases e) (simp_all add: page_defs Let_def edit_document_frame split: page_splits)
  show "pending (ed_recording (next_editor origin workflow_id s e)) \<longrightarrow> pending (ed_recording s)"
    using assms unfolding next_editor_def
    by (cases e) (simp_all add: page_defs Let_def edit_document_frame split: page_splits)
qed

theorem open_version_is_only_read_witness:
  "ed_edited (next_editor ''https://sbs.test'' ''w1'' (sample_editor\<lparr>ed_viewing := Some 2\<rparr>) Save_pressed)
     \<in> {ed_edited sample_editor, None}"
proof -
  have "read_only (sample_editor\<lparr>ed_viewing := Some 2\<rparr>)" by (simp add: read_only_def)
  from open_version_is_only_read [OF this] show ?thesis by simp
qed

text \<open>C19. A recording, a pick of an element and a test Run are started only with nothing unsaved and no Version
  open, so that they work on the Draft as it is saved; a recording also only after the button that
  starts it was pressed, with a connected extension, and confirmed when there are Steps that it replaces.\<close>

theorem work_starts_from_saved:
  assumes "ed_testing (next_editor origin workflow_id s e) \<and> \<not> ed_testing s \<or>
      Create_repick extension ident \<in> set (effects_of origin workflow_id s e) \<or>
      pending (ed_recording (next_editor origin workflow_id s e)) \<and> \<not> pending (ed_recording s)"
  shows "ed_edited s = None \<and> \<not> read_only s \<and>
    (pending (ed_recording (next_editor origin workflow_id s e)) \<and> \<not> pending (ed_recording s) \<longrightarrow>
      (\<exists>confirmed document. e = Record_pressed confirmed \<and> ed_connected s \<and> ed_draft s = Some document \<and>
        (steps_of document = [] \<or> confirmed)))"
proof -
  have recorded: "ed_edited s = None \<and> \<not> read_only s \<and>
      (\<exists>confirmed document. e = Record_pressed confirmed \<and> ed_connected s \<and> ed_draft s = Some document \<and>
        (steps_of document = [] \<or> confirmed))"
    if "pending (ed_recording (next_editor origin workflow_id s e))" "\<not> pending (ed_recording s)"
    using that unfolding next_editor_def
    by (cases e) (auto simp: page_defs Let_def edit_document_frame shown_document_def ed_unsaved_def split: page_splits)
  have picked: "ed_edited s = None \<and> \<not> read_only s"
    if "Create_repick extension ident \<in> set (effects_of origin workflow_id s e)"
    using that unfolding effects_of_def
    by (cases e) (simp_all add: page_defs Let_def repick_refusal_def ed_unsaved_def split: page_splits)
  have tested: "ed_edited s = None \<and> \<not> read_only s"
    if "ed_testing (next_editor origin workflow_id s e)" "\<not> ed_testing s"
    using that unfolding next_editor_def
    by (cases e) (simp_all add: page_defs Let_def edit_document_frame test_run_refusal_def ed_unsaved_def split: page_splits)
  show ?thesis using assms recorded picked tested by blast
qed

theorem work_starts_from_saved_witness:
  "\<not> read_only (opened_editor None\<lparr>ed_draft := Some sample_document\<rparr>)"
proof -
  let ?s = "opened_editor None\<lparr>ed_draft := Some sample_document\<rparr>"
  have "ed_testing (next_editor ''https://sbs.test'' ''w1'' ?s Test_pressed) \<and> \<not> ed_testing ?s"
    by (simp add: next_editor_def press_test_def shown_document_def opened_editor_def read_only_def ed_unsaved_def
        test_run_refusal_def)
  from work_starts_from_saved [OF disjI1 [OF this]] show ?thesis by blast
qed

text \<open>A Draft that could not be saved is still there: the edits stay, the page says why, and pressing Save again
  puts the same document. Once it was saved and the Draft is loaded anew, the page shows that
  Draft, and nothing is unsaved.\<close>

theorem save_is_answered:
  assumes "ed_save s = Asked document" and "\<not> read_only s" and "ed_edited s = Some document"
  shows "(let failed = next_editor origin workflow_id s (Save_answered (Some error)) in
      shown_document failed = Some document \<and> refused_with (ed_save failed) = Some error \<and>
      effects_of origin workflow_id failed Save_pressed = [Put_draft document]) \<and>
    (let saved = next_editor origin workflow_id s (Save_answered None);
         loaded = next_editor origin workflow_id (next_editor origin workflow_id saved (Draft_loaded document')) Save_settled in
      Refetch [Draft_query, Workflow_query, Workflows_query] \<in> set (effects_of origin workflow_id s (Save_answered None)) \<and>
      shown_document loaded = Some document' \<and> \<not> ed_unsaved loaded \<and> \<not> pending (ed_save loaded) \<and>
      effects_of origin workflow_id loaded Save_pressed = [])"
  using assms by (simp add: next_editor_def effects_of_def save_answered_def press_save_def shown_document_def read_only_def
      ed_unsaved_def refetched_def Let_def)

theorem save_is_answered_witness:
  "shown_document (next_editor ''https://sbs.test'' ''w1''
     (opened_editor None\<lparr>ed_edited := Some sample_document, ed_save := Asked sample_document\<rparr>)
     (Save_answered (Some Null))) = Some sample_document"
proof -
  let ?s = "opened_editor None\<lparr>ed_edited := Some sample_document, ed_save := Asked sample_document\<rparr>"
  have "ed_save ?s = Asked sample_document" "\<not> read_only ?s" "ed_edited ?s = Some sample_document"
    by (simp_all add: opened_editor_def read_only_def)
  from save_is_answered [OF this] show ?thesis by (simp add: Let_def)
qed

text \<open>An edit that is made while a Draft is being saved is lost when the answer comes: what was put is the document
  of before the edit, and afterwards nothing is unsaved. An edit that is made after the answer,
  before the Draft is loaded anew, starts from the Draft of before the save: saving it
  undoes what was saved.\<close>

theorem edits_around_a_save_are_lost:
  assumes "ed_edited s = Some document" and "\<not> read_only s" and "\<not> pending (ed_save s)"
    and "edited_document s e document = Some document'"
    and "ed_draft s = Some stale" and "edited_document s e stale = Some document''"
  shows "(let asked = next_editor origin workflow_id s Save_pressed; changed = next_editor origin workflow_id asked (Edited e);
         answered = next_editor origin workflow_id changed (Save_answered None) in
      effects_of origin workflow_id s Save_pressed = [Put_draft document] \<and>
      ed_edited changed = Some document' \<and> \<not> ed_unsaved answered \<and> shown_document answered = Some stale) \<and>
    (let saved = next_editor origin workflow_id (next_editor origin workflow_id s Save_pressed) (Save_answered None);
         changed = next_editor origin workflow_id saved (Edited e);
         loaded = next_editor origin workflow_id (next_editor origin workflow_id changed (Draft_loaded document)) Save_settled in
      effects_of origin workflow_id loaded Save_pressed = [Put_draft document''])"
proof -
  let ?asked = "s\<lparr>ed_save := Asked document\<rparr>" and ?saved = "s\<lparr>ed_save := Settling, ed_edited := None\<rparr>"
  have press: "press_save s = (?asked, [Put_draft document])" using assms(1-3) by (simp add: press_save_def)
  have same: "edited_document ?asked e = edited_document s e" "edited_document ?saved e = edited_document s e"
    by (rule ext, rule edited_document_cong; simp)+
  have shown: "shown_document ?asked = Some document" "shown_document ?saved = Some stale"
      "\<not> read_only ?asked" "\<not> read_only ?saved"
    using assms(1,2,5) by (simp_all add: shown_document_def read_only_def)
  obtain x where "edit_document e ?asked = ?asked\<lparr>ed_edited := Some document', ed_expanded := x\<rparr>"
    using edit_document_shown [OF shown(1,3)] assms(4) same by metis
  moreover obtain y where "edit_document e ?saved = ?saved\<lparr>ed_edited := Some document'', ed_expanded := y\<rparr>"
    using edit_document_shown [OF shown(2,4)] assms(6) same by metis
  ultimately show ?thesis
    using assms(2,5) press by (simp add: next_editor_def effects_of_def save_answered_def press_save_def shown_document_def
        read_only_def ed_unsaved_def Let_def)
qed

text \<open>A Step is deleted while the Draft with a new Step is being saved.\<close>

theorem edits_around_a_save_are_lost_witness:
  "(let s = sample_editor; e = Edited (Step_deleted ''s1'');
        answered = foldl (next_editor ''https://sbs.test'' ''w1'') s [Save_pressed, e, Save_answered None]
    in shown_document answered = Some sample_document)"
proof -
  let ?document = "with_step_added sample_document (blank_step ''s2'' step_type.Navigate)"
  have s: "sample_editor = opened_editor None\<lparr>ed_draft := Some sample_document, ed_edited := Some ?document, ed_expanded := Some ''s2''\<rparr>"
    by (simp add: sample_editor_def sample_events_def next_editor_def edit_document_def shown_document_def opened_editor_def
        read_only_def addable_step_types_def)
  have "ed_edited sample_editor = Some ?document" "\<not> read_only sample_editor" "\<not> pending (ed_save sample_editor)"
    "ed_draft sample_editor = Some sample_document"
    by (simp_all add: s opened_editor_def read_only_def)
  moreover have "edited_document sample_editor (Step_deleted ''s1'') ?document = Some (with_step_deleted ?document ''s1'')"
    "edited_document sample_editor (Step_deleted ''s1'') sample_document = Some (with_step_deleted sample_document ''s1'')"
    by (simp_all add: the_step_def with_step_added_def sample_document_def steps_of_def blank_step_def)
  ultimately show ?thesis
    using edits_around_a_save_are_lost [of sample_editor ?document "Step_deleted ''s1''" "with_step_deleted ?document ''s1''"
        sample_document "with_step_deleted sample_document ''s1''" "''https://sbs.test''" "''w1''"]
    by (simp add: Let_def)
qed

text \<open>
  A recording or a pick that is asked for with nothing unsaved can still meet edits: a recording that the
  extension has saved is overwritten by the edits made meanwhile, and confirming a pick drops them.
\<close>

lemma recording_meets_edits:
  assumes "ed_edited s = Some document" and "\<not> read_only s" and "\<not> pending (ed_save s)"
  shows "effects_of origin workflow_id (next_editor origin workflow_id s (Draft_loaded recorded)) Save_pressed = [Put_draft document]"
  using assms by (simp add: effects_of_def next_editor_def press_save_def read_only_def)

lemma pick_drops_edits:
  assumes "ed_confirm s = Asked r"
  shows "ed_edited (next_editor origin workflow_id s (Confirm_answered None)) = None"
  using assms by (simp add: next_editor_def confirm_answered_def)

end
