(* ===== verification/Streams.thy ===== *)
theory Streams
  imports Main
begin

text \<open>
  The streams of server-sent events (\<open>runs/[id]/use-run-stream.ts\<close>, \<open>batches/[id]/use-batch-stream.ts\<close>): a
  stream is read while what it tells of goes on. When it ends the page fetches what it shows, waits a
  second and opens the stream again. The API replays nothing.
\<close>

datatype stream = Stream_off | Stream_open | Stream_refetching | Stream_pausing

definition stream_ended :: "stream \<Rightarrow> stream" where
  "stream_ended st = (if st = Stream_open then Stream_refetching else st)"

definition stream_fetched :: "stream \<Rightarrow> stream" where
  "stream_fetched st = (if st = Stream_refetching then Stream_pausing else st)"

definition second_passed :: "stream \<Rightarrow> stream" where
  "second_passed st = (if st = Stream_pausing then Stream_open else st)"

text \<open>The effect of the hook: it depends on whether there is something to listen to.\<close>

definition follow_stream :: "bool \<Rightarrow> bool \<Rightarrow> stream \<Rightarrow> stream" where
  "follow_stream was_live live st = (if live = was_live then st else if live then Stream_open else Stream_off)"

lemma stream_off_iff [simp]:
  "stream_ended st = Stream_off \<longleftrightarrow> st = Stream_off" "stream_fetched st = Stream_off \<longleftrightarrow> st = Stream_off"
  "second_passed st = Stream_off \<longleftrightarrow> st = Stream_off"
  by (simp_all add: stream_ended_def stream_fetched_def second_passed_def)

lemma follow_stream_simps [simp]:
  "follow_stream live live st = st" "follow_stream False True st = Stream_open" "follow_stream True False st = Stream_off"
  by (simp_all add: follow_stream_def)

lemma follow_stream_live:
  "(st = Stream_off \<longleftrightarrow> \<not> was_live) \<Longrightarrow> follow_stream was_live live st = Stream_off \<longleftrightarrow> \<not> live"
  by (auto simp: follow_stream_def)

text \<open>
  A page with such a stream: what is published while the stream is not open does not reach it. So after a
  fetch for a new connection nothing is heard before the second has passed.
\<close>

locale streamed_page =
  fixes "next" :: "'s \<Rightarrow> 'e \<Rightarrow> 's"
    and publish :: "'p \<Rightarrow> 'e"
    and stream_of :: "'s \<Rightarrow> stream"
  assumes unheard: "stream_of s \<noteq> Stream_open \<Longrightarrow> next s (publish p) = s"
begin

lemma unheard_run: "stream_of s \<noteq> Stream_open \<Longrightarrow> foldl next s (map publish ps) = s"
  by (induction ps) (simp_all add: unheard)

end

end
