(* ===== verification/Cockpit.thy ===== *)
theory Cockpit
  imports Pane RunEvents Mutations Streams Workflows
begin

text \<open>
  The page of a Run (\<open>app/(shell)/runs/[id]/page.tsx\<close>) with its pane (\<open>pane-panel.tsx\<close>), its stream of events
  (\<open>use-run-stream.ts\<close>) and the dialog that runs it again (\<open>run-again-dialog.tsx\<close>), as one state machine: what is
  done in it, what the API answers and what the Run publishes are its events.
\<close>

section \<open>Refusals\<close>

definition run_refusals :: "(js \<times> string) list" where
  "run_refusals =
     [(Str ''run_not_found'', ''That Run is gone. Somebody deleted it, or it was never here.''),
      (Str ''run_terminal'', ''That Run has already finished.''),
      (Str ''run_active'', ''A Run that is still going cannot be deleted.''),
      (Str ''missing_secret'', ''A Secret this Workflow needs is missing.''),
      (Str ''no_published_version'', no_published_version),
      (Str ''not_a_member'', ''You are no longer a member of that Organization.''),
      (Str ''already_held'', ''Control is held in another tab.''),
      (Str ''not_waiting'', ''This Run is not waiting for a person.''),
      (Str ''not_held'', ''This tab does not hold control.''),
      (Str ''not_a_candidate'', ''That domain was not reported as a new login.''),
      (Str ''no_starter'', ''A Scheduled or Batch Run can only keep a login for the Organization.'')]"

definition run_refusal :: "js \<Rightarrow> string" where
  "run_refusal = refusal_from run_refusals ''Something went wrong. Try again in a moment.''"

section \<open>The page\<close>

datatype drawer = Logs_drawer | Output_drawer | Artifacts_drawer

record cockpit =
  cg_loaded :: "(run_detail \<times> log_line list) option"
  cg_live :: "cockpit_snapshot option"
  cg_load_error :: "js option"
  cg_stream :: stream
  cg_confirming :: bool
  cg_run_again :: bool
  cg_drawer :: drawer
  cg_expanded :: "string option"
  cg_we_hold :: bool
  cg_unmet :: bool
  cg_already_held :: bool
  cg_pending_handback :: bool
  cg_held_elsewhere :: bool
  cg_dismissed :: "(string \<times> string) list"
  cg_take_over :: "unit mutation"
  cg_hand_back :: "unit mutation"
  cg_stay :: "unit mutation"
  cg_give_up :: "unit mutation"
  cg_pause :: "unit mutation"
  cg_consent :: "(string \<times> consent_scope) mutation"
  cg_cancel :: "unit mutation"

definition opened_cockpit :: cockpit where
  "opened_cockpit =
     \<lparr>cg_loaded = None, cg_live = None, cg_load_error = None, cg_stream = Stream_off, cg_confirming = False, cg_run_again = False,
      cg_drawer = Logs_drawer, cg_expanded = None, cg_we_hold = False, cg_unmet = False, cg_already_held = False,
      cg_pending_handback = False, cg_held_elsewhere = False, cg_dismissed = [], cg_take_over = Idle,
      cg_hand_back = Idle, cg_stay = Idle, cg_give_up = Idle, cg_pause = Idle, cg_consent = Idle, cg_cancel = Idle\<rparr>"

definition status_of :: "cockpit \<Rightarrow> run_status option" where
  "status_of s = map_option (\<lambda>snapshot. rr_status (cs_run snapshot)) (cg_live s)"

definition cancelling_now :: "cockpit_snapshot \<Rightarrow> bool" where
  "cancelling_now snapshot \<longleftrightarrow>
     chip_state (cs_run snapshot) = Cancelling \<and> \<not> is_terminal (rr_status (cs_run snapshot))"

definition pane_input_of :: "cockpit \<Rightarrow> cockpit_snapshot \<Rightarrow> pane_input" where
  "pane_input_of s snapshot =
     \<lparr>pi_status = rr_status (cs_run snapshot), pi_cancelling = cancelling_now snapshot,
      pi_phase = current_phase (cs_intervals snapshot), pi_we_hold_control = cg_we_hold s,
      pi_held_elsewhere = (cg_held_elsewhere s \<or> cg_already_held s), pi_unmet_handback = cg_unmet s,
      pi_worker_id = rr_worker_id (cs_run snapshot)\<rparr>"

text \<open>The pane that is shown, if there is a page to show it in.\<close>

definition shown_pane :: "cockpit \<Rightarrow> pane_view option" where
  "shown_pane s =
     (if cg_load_error s \<noteq> None then None
      else map_option (\<lambda>snapshot. pane_view_of (pane_input_of s snapshot)) (cg_live s))"

definition pane_shows :: "(pane_view \<Rightarrow> bool) \<Rightarrow> cockpit \<Rightarrow> bool" where
  "pane_shows p s \<longleftrightarrow> (case shown_pane s of None \<Rightarrow> False | Some view \<Rightarrow> p view)"

text \<open>The line of the success check, of the Step that the Run waits at.\<close>

definition check_line :: "step list \<Rightarrow> jsnum \<Rightarrow> cockpit \<Rightarrow> cockpit_snapshot \<Rightarrow> predicate_line" where
  "check_line steps now s snapshot =
     predicate_line_of
       (case waiting_step steps (cs_step_results snapshot) (map_option if_step_id (cs_in_flight snapshot)) of
          None \<Rightarrow> False
        | Some step \<Rightarrow> (case st_payload step of P_pause p \<Rightarrow> tp_success_check p \<noteq> None | _ \<Rightarrow> False))
       (map_option ps_met (cs_predicate snapshot)) (cs_predicate snapshot \<bind> ps_grace_ends_at)
       (rr_auto_handback_disabled (cs_run snapshot)) now (pw_show_control_bar (pane_view_of (pane_input_of s snapshot)))"

definition check_offers :: "(predicate_line \<Rightarrow> bool) \<Rightarrow> step list \<Rightarrow> jsnum \<Rightarrow> cockpit \<Rightarrow> bool" where
  "check_offers p steps now s \<longleftrightarrow>
     pane_shows (\<lambda>view. pw_show_control_bar view \<or> pw_show_waiting_card view) s \<and>
     (case cg_live s of None \<Rightarrow> False | Some snapshot \<Rightarrow> p (check_line steps now s snapshot))"

text \<open>The warnings that a Step may be blocked, but for those that were dismissed.\<close>

definition challenge_key :: "diagnostic_event \<Rightarrow> string \<times> string" where
  "challenge_key item = (de_step_id item, de_kind item)"

definition challenges :: "cockpit \<Rightarrow> diagnostic_event list" where
  "challenges s =
     (case cg_live s of
        None \<Rightarrow> []
      | Some snapshot \<Rightarrow>
          if rr_status (cs_run snapshot) = Running \<and> \<not> cancelling_now snapshot
          then filter (\<lambda>item. challenge_key item \<notin> set (cg_dismissed s) \<and> challenge_banner (de_kind item) \<noteq> None)
            (cs_diagnostics snapshot)
          else [])"

text \<open>The document that was run: the one in the Run, or the published Version once it is there.\<close>

definition document_of :: "workflow_document option \<Rightarrow> workflow_document option \<Rightarrow> workflow_document" where
  "document_of snapshot published =
     (case snapshot of
        Some document \<Rightarrow> document
      | None \<Rightarrow> orelse published \<lparr>wd_steps = Some [], wd_variables = Some []\<rparr>)"

section \<open>Events\<close>

datatype refetch = For_reconnect | For_cancel | For_candidates

datatype cockpit_effect =
    Refetch_run refetch
  | Take_over_run
  | Hand_back_run
  | Abandon_takeover
  | Hold_takeover
  | Pause_run
  | Consent_to string consent_scope
  | Cancel_run
  | Invalidate_runs
  | Claim_lock
  | Release_lock
  | Pause_a_second

datatype cockpit_event =
    Run_loaded run_detail "log_line list"
  | Run_unreadable js
  | Published run_event
  | Stream_ended
  | Second_passed
  | Refetched refetch "js + run_detail \<times> log_line list"
  | Lock_heard bool
  | Take_over_pressed
  | Take_over_answered "js option"
  | Keep_control_pressed
  | Hand_back_pressed
  | Hand_back_now_pressed
  | Hand_back_answered "js option"
  | Give_up_pressed
  | Give_up_answered "js option"
  | Stay_pressed
  | Stay_answered "js option"
  | Pause_pressed
  | Pause_answered string "js option"
  | Consent_pressed string consent_scope
  | Consent_answered "js option"
  | Challenge_dismissed string string
  | Cancel_asked
  | Cancel_kept
  | Cancel_confirmed
  | Cancel_answered "js option"
  | Run_again_opened bool
  | Drawer_chosen drawer
  | Step_toggled string
  | Left

definition with_live :: "(cockpit_snapshot \<Rightarrow> cockpit_snapshot) \<Rightarrow> cockpit \<Rightarrow> cockpit" where
  "with_live f s = s\<lparr>cg_live := map_option f (cg_live s)\<rparr>"

text \<open>
  An event of the stream. A change of control that follows the hand-back of this tab tells
  how it ended, and has the saved logins fetched.
\<close>

definition hear_published :: "run_event \<Rightarrow> cockpit \<Rightarrow> cockpit \<times> cockpit_effect list" where
  "hear_published event s =
     (if cg_stream s \<noteq> Stream_open then (s, [])
      else
        (let phase = field (re_data event) ''phase'';
             ours = (re_type event = ''control'' \<and> cg_pending_handback s);
             unmet = (ours \<and> phase = Str ''waiting''); over = (ours \<and> phase = Str ''automation'')
         in (with_live (\<lambda>snapshot. apply_run_event snapshot event)
               (s\<lparr>cg_unmet := (unmet \<or> cg_unmet s), cg_pending_handback := (cg_pending_handback s \<and> \<not> unmet \<and> \<not> over)\<rparr>),
             if unmet \<or> over then [Refetch_run For_candidates] else [])))"

definition end_stream :: "cockpit \<Rightarrow> cockpit \<times> cockpit_effect list" where
  "end_stream s =
     (s\<lparr>cg_stream := stream_ended (cg_stream s)\<rparr>,
      if cg_stream s = Stream_open then [Refetch_run For_reconnect] else [])"

text \<open>
  A fetch that fails leaves what the query had loaded before in its result, beside the error.
\<close>

definition fetched :: "js + run_detail \<times> log_line list \<Rightarrow> cockpit \<Rightarrow> cockpit" where
  "fetched answer s =
     (case answer of
        Inl error \<Rightarrow> s\<lparr>cg_load_error := Some error\<rparr>
      | Inr load \<Rightarrow> s\<lparr>cg_loaded := Some load, cg_load_error := None\<rparr>)"

definition snapshot_of :: "run_detail \<times> log_line list \<Rightarrow> cockpit_snapshot" where
  "snapshot_of load = snapshot_from_detail (fst load) (snd load)"

definition show_loaded :: "cockpit \<Rightarrow> cockpit" where
  "show_loaded s = (case cg_loaded s of None \<Rightarrow> s | Some load \<Rightarrow> s\<lparr>cg_live := Some (snapshot_of load)\<rparr>)"

definition refetched_run :: "refetch \<Rightarrow> js + run_detail \<times> log_line list \<Rightarrow> cockpit \<Rightarrow> cockpit \<times> cockpit_effect list" where
  "refetched_run purpose answer s =
     (let s' = fetched answer s in
      case purpose of
        For_candidates \<Rightarrow>
          (case cg_loaded s' of
             None \<Rightarrow> s'
           | Some (detail, _) \<Rightarrow>
               with_live (\<lambda>snapshot. snapshot\<lparr>cs_auth_state_candidates := rd_auth_state_candidates detail\<rparr>) s', [])
      | For_cancel \<Rightarrow> ((show_loaded s')\<lparr>cg_cancel := settled (cg_cancel s)\<rparr>, [])
      | For_reconnect \<Rightarrow>
          ((show_loaded s')\<lparr>cg_stream := stream_fetched (cg_stream s)\<rparr>,
           if cg_stream s = Stream_refetching then [Pause_a_second] else []))"

definition error_code :: "js \<Rightarrow> string option" where
  "error_code error = as_string (said error ''code'')"

text \<open>Every call of the pane tells the page its error.\<close>

definition note_error :: "js option \<Rightarrow> cockpit \<Rightarrow> cockpit" where
  "note_error answer s =
     (if answer \<bind> error_code = Some ''already_held'' then s\<lparr>cg_already_held := True\<rparr> else s)"

definition take_over :: "cockpit \<Rightarrow> cockpit \<times> cockpit_effect list" where
  "take_over s = (if pending (cg_take_over s) then (s, []) else (s\<lparr>cg_take_over := Asked ()\<rparr>, [Take_over_run]))"

definition took_over :: "js option \<Rightarrow> cockpit \<Rightarrow> cockpit \<times> cockpit_effect list" where
  "took_over answer s =
     (if \<not> pending (cg_take_over s) then (s, [])
      else (let s' = s\<lparr>cg_take_over := answered answer\<rparr> in
        case answer of
          None \<Rightarrow> (s'\<lparr>cg_already_held := False, cg_unmet := False, cg_we_hold := True\<rparr>, [Claim_lock])
        | Some _ \<Rightarrow> (note_error answer s', [])))"

definition released :: "cockpit \<Rightarrow> cockpit" where
  "released s = s\<lparr>cg_pending_handback := cg_we_hold s, cg_we_hold := False\<rparr>"

definition hand_back :: "cockpit \<Rightarrow> cockpit \<times> cockpit_effect list" where
  "hand_back s = (if pending (cg_hand_back s) then (s, []) else (s\<lparr>cg_hand_back := Asked ()\<rparr>, [Hand_back_run]))"

definition handed_back :: "js option \<Rightarrow> cockpit \<Rightarrow> cockpit \<times> cockpit_effect list" where
  "handed_back answer s =
     (if \<not> pending (cg_hand_back s) then (s, [])
      else (let s' = s\<lparr>cg_hand_back := answered answer\<rparr> in
        case answer of None \<Rightarrow> (released s', [Release_lock]) | Some _ \<Rightarrow> (note_error answer s', [])))"

definition gave_up :: "js option \<Rightarrow> cockpit \<Rightarrow> cockpit \<times> cockpit_effect list" where
  "gave_up answer s =
     (if \<not> pending (cg_give_up s) then (s, [])
      else (let s' = s\<lparr>cg_give_up := answered answer\<rparr> in
        case answer of None \<Rightarrow> (released s', [Release_lock]) | Some _ \<Rightarrow> (note_error answer s', [])))"

definition stayed :: "js option \<Rightarrow> cockpit \<Rightarrow> cockpit" where
  "stayed answer s =
     (if \<not> pending (cg_stay s) then s
      else (let s' = s\<lparr>cg_stay := answered answer\<rparr> in
        case answer of
          None \<Rightarrow> with_live (\<lambda>snapshot. snapshot\<lparr>cs_run := (cs_run snapshot)\<lparr>rr_auto_handback_disabled := True\<rparr>\<rparr>) s'
        | Some _ \<Rightarrow> note_error answer s'))"

definition paused :: "string \<Rightarrow> js option \<Rightarrow> cockpit \<Rightarrow> cockpit" where
  "paused now_iso answer s =
     (if \<not> pending (cg_pause s) then s
      else (let s' = s\<lparr>cg_pause := answered answer\<rparr> in
        case answer of
          None \<Rightarrow> with_live (\<lambda>snapshot. snapshot\<lparr>cs_run := (cs_run snapshot)\<lparr>rr_pause_requested_at :=
            Some (orelse (rr_pause_requested_at (cs_run snapshot)) now_iso)\<rparr>\<rparr>) s'
        | Some _ \<Rightarrow> note_error answer s'))"

definition consented :: "js option \<Rightarrow> cockpit \<Rightarrow> cockpit" where
  "consented answer s =
     (case cg_consent s of
        Asked (domain, scope) \<Rightarrow>
          (let s' = s\<lparr>cg_consent := answered answer\<rparr> in
           case answer of
             None \<Rightarrow> with_live (\<lambda>snapshot. snapshot\<lparr>cs_auth_state_candidates :=
               map (\<lambda>candidate. if ac_domain candidate = domain then candidate\<lparr>ac_consent := Some scope\<rparr> else candidate)
                 (cs_auth_state_candidates snapshot)\<rparr>) s'
           | Some _ \<Rightarrow> note_error answer s')
      | _ \<Rightarrow> s)"

definition consent_offered :: "string \<Rightarrow> consent_scope \<Rightarrow> cockpit_snapshot \<Rightarrow> bool" where
  "consent_offered domain scope snapshot \<longleftrightarrow>
     list_ex (\<lambda>prompt. cp_domain prompt = domain \<and> scope \<in> set (cp_scopes prompt))
       (consent_prompts (cs_auth_state_candidates snapshot) (rr_trigger (cs_run snapshot)))"

definition cancel_answered :: "js option \<Rightarrow> cockpit \<Rightarrow> cockpit \<times> cockpit_effect list" where
  "cancel_answered answer s =
     (case cg_cancel s of
        Asked _ \<Rightarrow>
          (case answer of
             None \<Rightarrow> (s\<lparr>cg_cancel := Settling, cg_confirming := False\<rparr>, [Invalidate_runs, Refetch_run For_cancel])
           | Some error \<Rightarrow> (s\<lparr>cg_cancel := Refused error\<rparr>, []))
      | _ \<Rightarrow> (s, []))"

text \<open>
  The buttons are there when the pane shows them and their call is not pending. The lock of the tab is
  claimed and released in the storage that the tabs share.
\<close>

fun handle :: "step list \<Rightarrow> jsnum \<Rightarrow> cockpit \<Rightarrow> cockpit_event \<Rightarrow> cockpit \<times> cockpit_effect list" where
  "handle steps now s (Run_loaded detail logs) =
     (let s' = fetched (Inr (detail, logs)) s in if cg_live s = None then show_loaded s' else s', [])"
| "handle steps now s (Run_unreadable error) = (s\<lparr>cg_load_error := Some error\<rparr>, [])"
| "handle steps now s (Published event) = hear_published event s"
| "handle steps now s Stream_ended = end_stream s"
| "handle steps now s Second_passed =
     (s\<lparr>cg_stream := second_passed (cg_stream s)\<rparr>, [])"
| "handle steps now s (Refetched purpose answer) = refetched_run purpose answer s"
| "handle steps now s (Lock_heard elsewhere) = (s\<lparr>cg_held_elsewhere := elsewhere\<rparr>, [])"
| "handle steps now s Take_over_pressed =
     (if pane_shows pw_show_waiting_card s then take_over s else (s, []))"
| "handle steps now s (Take_over_answered answer) = took_over answer s"
| "handle steps now s Keep_control_pressed =
     (if pane_shows pw_show_unmet_choice s \<and> \<not> pending (cg_take_over s) then take_over (s\<lparr>cg_unmet := False\<rparr>) else (s, []))"
| "handle steps now s Hand_back_pressed =
     (if pane_shows pw_show_control_bar s then hand_back s else (s, []))"
| "handle steps now s Hand_back_now_pressed =
     (if check_offers pl_offer_hand_back_now steps now s then hand_back s else (s, []))"
| "handle steps now s (Hand_back_answered answer) = handed_back answer s"
| "handle steps now s Give_up_pressed =
     (if pane_shows pw_show_unmet_choice s \<and> \<not> pending (cg_give_up s)
      then (s\<lparr>cg_give_up := Asked ()\<rparr>, [Abandon_takeover]) else (s, []))"
| "handle steps now s (Give_up_answered answer) = gave_up answer s"
| "handle steps now s Stay_pressed =
     (if check_offers pl_offer_stay steps now s \<and> \<not> pending (cg_stay s)
      then (s\<lparr>cg_stay := Asked ()\<rparr>, [Hold_takeover]) else (s, []))"
| "handle steps now s (Stay_answered answer) = (stayed answer s, [])"
| "handle steps now s Pause_pressed =
     (if challenges s \<noteq> [] \<and> cg_load_error s = None \<and> \<not> pending (cg_pause s)
      then (s\<lparr>cg_pause := Asked ()\<rparr>, [Pause_run]) else (s, []))"
| "handle steps now s (Pause_answered now_iso answer) = (paused now_iso answer s, [])"
| "handle steps now s (Consent_pressed domain scope) =
     (case cg_live s of
        None \<Rightarrow> (s, [])
      | Some snapshot \<Rightarrow>
          if consent_offered domain scope snapshot \<and> cg_load_error s = None \<and> \<not> pending (cg_consent s)
          then (s\<lparr>cg_consent := Asked (domain, scope)\<rparr>, [Consent_to domain scope]) else (s, []))"
| "handle steps now s (Consent_answered answer) = (consented answer s, [])"
| "handle steps now s (Challenge_dismissed step_id kind) = (s\<lparr>cg_dismissed := cg_dismissed s @ [(step_id, kind)]\<rparr>, [])"
| "handle steps now s Cancel_asked =
     (case status_of s of
        None \<Rightarrow> (s, [])
      | Some status \<Rightarrow> (if is_terminal status then s else s\<lparr>cg_confirming := True\<rparr>, []))"
| "handle steps now s Cancel_kept = (s\<lparr>cg_confirming := False\<rparr>, [])"
| "handle steps now s Cancel_confirmed =
     (case cg_live s of
        None \<Rightarrow> (s, [])
      | Some snapshot \<Rightarrow>
          if cg_confirming s \<and> \<not> cancelling_now snapshot \<and> \<not> is_terminal (rr_status (cs_run snapshot)) \<and>
            cg_load_error s = None \<and> \<not> pending (cg_cancel s)
          then (s\<lparr>cg_cancel := Asked ()\<rparr>, [Cancel_run]) else (s, []))"
| "handle steps now s (Cancel_answered answer) = cancel_answered answer s"
| "handle steps now s (Run_again_opened b) =
     (case status_of s of
        None \<Rightarrow> (s, [])
      | Some status \<Rightarrow> (if b \<and> \<not> is_terminal status then s else s\<lparr>cg_run_again := b\<rparr>, []))"
| "handle steps now s (Drawer_chosen d) = (s\<lparr>cg_drawer := d\<rparr>, [])"
| "handle steps now s (Step_toggled ident) =
     (s\<lparr>cg_expanded := (if cg_expanded s = Some ident then None else Some ident)\<rparr>, [])"
| "handle steps now s Left = (s, [Release_lock])"

text \<open>
  The effects that follow the status: what this tab holds is forgotten when the status changes to
  one that does not wait, and the stream is opened or closed when the Run starts or stops to go on.
\<close>

definition goes_on :: "cockpit \<Rightarrow> bool" where
  "goes_on s \<longleftrightarrow> (case status_of s of None \<Rightarrow> False | Some status \<Rightarrow> \<not> is_terminal status)"

definition follow_status :: "cockpit \<Rightarrow> cockpit \<Rightarrow> cockpit" where
  "follow_status old s =
     (let held = (if status_of s \<noteq> status_of old \<and> status_of s \<noteq> Some Waiting_for_human
          then s\<lparr>cg_we_hold := False, cg_unmet := False, cg_already_held := False\<rparr> else s)
      in held\<lparr>cg_stream := follow_stream (goes_on old) (goes_on s) (cg_stream s)\<rparr>)"

definition cockpit_step :: "step list \<Rightarrow> jsnum \<Rightarrow> cockpit \<Rightarrow> cockpit_event \<Rightarrow> cockpit \<times> cockpit_effect list" where
  "cockpit_step steps now s e = (case handle steps now s e of (s', effects) \<Rightarrow> (follow_status s s', effects))"

definition next_cockpit :: "step list \<Rightarrow> jsnum \<Rightarrow> cockpit \<Rightarrow> cockpit_event \<Rightarrow> cockpit" where
  "next_cockpit steps now s e = fst (cockpit_step steps now s e)"

definition cockpit_effects :: "step list \<Rightarrow> jsnum \<Rightarrow> cockpit \<Rightarrow> cockpit_event \<Rightarrow> cockpit_effect list" where
  "cockpit_effects steps now s e = snd (cockpit_step steps now s e)"

section \<open>Running again\<close>

text \<open>The dialog: its values when it is opened, what is typed, and what it sends.\<close>

definition again_opened :: "variable list \<Rightarrow> fields \<Rightarrow> (string \<times> string) list" where
  "again_opened declared stored = map (\<lambda>row. (pv_name row, pv_value row)) (run_again_values declared stored)"

definition again_typed :: "string \<Rightarrow> string \<Rightarrow> (string \<times> string) list \<Rightarrow> (string \<times> string) list" where
  "again_typed name val values = with_key name val values"

definition again_body :: "variable list \<Rightarrow> fields \<Rightarrow> (string \<times> string) list \<Rightarrow> (string \<times> string) list" where
  "again_body declared stored values =
     foldl (\<lambda>body row. if pv_secret row then body
        else with_key (pv_name row) (orelse (map_of values (pv_name row)) []) body) [] (run_again_values declared stored)"

section \<open>The invariant\<close>

text \<open>
  Snapshots are well-formed, and the stream is off exactly while there is no Run or one that has ended.
\<close>

definition page_ok :: "cockpit \<Rightarrow> bool" where
  "page_ok s \<longleftrightarrow>
     pred_option cockpit_ok (cg_live s) \<and> pred_option (\<lambda>load. cockpit_ok (snapshot_of load)) (cg_loaded s) \<and>
     (cg_stream s \<noteq> Stream_off \<longleftrightarrow> goes_on s)"

fun load_ok :: "cockpit_event \<Rightarrow> bool" where
  "load_ok (Run_loaded detail logs) = cockpit_ok (snapshot_from_detail detail logs)"
| "load_ok (Refetched purpose (Inr load)) = cockpit_ok (snapshot_of load)"
| "load_ok _ = True"

lemmas cockpit_defs = hear_published_def end_stream_def refetched_run_def fetched_def show_loaded_def note_error_def
  take_over_def took_over_def released_def hand_back_def handed_back_def gave_up_def stayed_def paused_def consented_def
  cancel_answered_def with_live_def

lemmas cockpit_splits = option.splits if_splits mutation.splits sum.splits prod.splits refetch.splits

definition snapshots_ok :: "cockpit \<Rightarrow> bool" where
  "snapshots_ok s \<longleftrightarrow>
     pred_option cockpit_ok (cg_live s) \<and> pred_option (\<lambda>load. cockpit_ok (snapshot_of load)) (cg_loaded s)"

lemma ok_snapshot_frame:
  "cockpit_ok snapshot \<Longrightarrow> cockpit_ok (snapshot\<lparr>cs_run := r\<rparr>)"
  "cockpit_ok snapshot \<Longrightarrow> cockpit_ok (snapshot\<lparr>cs_auth_state_candidates := c\<rparr>)"
  by (simp_all add: cockpit_ok_def)

lemma snapshots_handled: "snapshots_ok s \<Longrightarrow> load_ok e \<Longrightarrow> snapshots_ok (fst (handle steps now s e))"
  unfolding snapshots_ok_def
  by (cases e) (auto simp: cockpit_defs Let_def snapshot_of_def ok_snapshot_frame ok_apply_run_event option.pred_map
      option.pred_set split: cockpit_splits)

text \<open>A handler opens no stream that is off and closes none.\<close>

lemma stream_handled: "cg_stream (fst (handle steps now s e)) = Stream_off \<longleftrightarrow> cg_stream s = Stream_off"
  by (cases e) (auto simp: cockpit_defs Let_def split: cockpit_splits)

lemma followed [simp]:
  "cg_live (follow_status old s) = cg_live s" "cg_loaded (follow_status old s) = cg_loaded s"
  "cg_load_error (follow_status old s) = cg_load_error s" "cg_held_elsewhere (follow_status old s) = cg_held_elsewhere s"
  "cg_take_over (follow_status old s) = cg_take_over s" "status_of (follow_status old s) = status_of s"
  "goes_on (follow_status old s) = goes_on s"
  by (simp_all add: follow_status_def Let_def status_of_def goes_on_def)

lemma followed_stream: "cg_stream (follow_status old s) = follow_stream (goes_on old) (goes_on s) (cg_stream s)"
  by (simp add: follow_status_def Let_def)

lemma next_cockpit_eq: "next_cockpit steps now s e = follow_status s (fst (handle steps now s e))"
  by (simp add: next_cockpit_def cockpit_step_def split_beta)

lemma cockpit_effects_eq: "cockpit_effects steps now s e = snd (handle steps now s e)"
  by (simp add: cockpit_effects_def cockpit_step_def split_beta)

lemma page_ok_step:
  assumes "page_ok s" and "load_ok e"
  shows "page_ok (next_cockpit steps now s e)"
proof -
  have "snapshots_ok (next_cockpit steps now s e)"
    using snapshots_handled [of s e steps now] assms by (simp add: next_cockpit_eq snapshots_ok_def page_ok_def)
  moreover have "cg_stream (next_cockpit steps now s e) \<noteq> Stream_off \<longleftrightarrow> goes_on (next_cockpit steps now s e)"
    using stream_handled [of steps now s e] assms(1) follow_stream_live [of "cg_stream (fst (handle steps now s e))" "goes_on s"]
    by (auto simp: next_cockpit_eq followed_stream page_ok_def)
  ultimately show ?thesis by (simp add: page_ok_def snapshots_ok_def)
qed

definition checked_step :: "step list \<Rightarrow> cockpit \<Rightarrow> jsnum \<times> cockpit_event \<Rightarrow> cockpit" where
  "checked_step steps s moment = (if load_ok (snd moment) then next_cockpit steps (fst moment) s (snd moment) else s)"

text \<open>The reducer of the page, over the events whose loaded Runs are well-formed.\<close>

interpretation page: reducer "checked_step steps" page_ok for steps
  by unfold_locales (simp add: checked_step_def page_ok_step)

lemma checked_run: "list_all (\<lambda>moment. load_ok (snd moment)) moments \<Longrightarrow>
  foldl (checked_step steps) s moments = foldl (\<lambda>s moment. next_cockpit steps (fst moment) s (snd moment)) s moments"
  by (induction moments arbitrary: s) (simp_all add: checked_step_def)

lemma follow_status_same [simp]: "follow_status s s = s"
  by (simp add: follow_status_def follow_stream_def)

interpretation run_page: streamed_page "next_cockpit steps now" Published cg_stream for steps now
  by unfold_locales (simp add: next_cockpit_eq hear_published_def)

text \<open>What the pane shows of control, it shows of a Run that waits.\<close>

lemma pane_shows_waiting:
  "pane_shows pw_show_waiting_card s \<Longrightarrow> status_of s = Some Waiting_for_human \<and> \<not> cg_we_hold s \<and> \<not> cg_unmet s"
  "pane_shows pw_show_unmet_choice s \<Longrightarrow> status_of s = Some Waiting_for_human \<and> cg_unmet s"
  "pane_shows pw_show_control_bar s \<Longrightarrow> status_of s = Some Waiting_for_human \<and> cg_we_hold s"
  "pane_shows (\<lambda>view. pw_frame view = Frame_interactive) s \<Longrightarrow> status_of s = Some Waiting_for_human \<and> cg_we_hold s"
  by (auto simp: pane_shows_def shown_pane_def pane_view_of_def base_view_def pane_input_of_def status_of_def Let_def
      split: option.splits if_splits)

lemma follow_we_hold: "cg_we_hold (follow_status old s) \<Longrightarrow> cg_we_hold s"
  by (simp add: follow_status_def Let_def split: if_splits)

lemma held_by_answer:
  "cg_we_hold (fst (handle steps now s e)) \<Longrightarrow> \<not> cg_we_hold s \<Longrightarrow>
   e = Take_over_answered None \<and> pending (cg_take_over s) \<and> snd (handle steps now s e) = [Claim_lock]"
  by (cases e) (auto simp: cockpit_defs Let_def split: cockpit_splits)

lemma take_over_offered:
  "Take_over_run \<in> set (snd (handle steps now s e)) \<Longrightarrow>
   (pane_shows pw_show_waiting_card s \<or> pane_shows pw_show_unmet_choice s) \<and> \<not> pending (cg_take_over s)"
  by (cases e) (auto simp: cockpit_defs Let_def split: cockpit_splits)

section \<open>Properties\<close>

text \<open>C2. Whatever the page of a Run goes through, in whatever order, every snapshot it shows is well-formed (results
  sorted with one per Step, one log line per number, no interval open but the last), provided
  the Runs that were loaded are, and its stream is off exactly while there is no Run that goes on.\<close>

theorem page_of_run_stays_sound:
  assumes "list_all (\<lambda>moment. load_ok (snd moment)) moments"
  shows "page_ok (foldl (\<lambda>s moment. next_cockpit steps (fst moment) s (snd moment)) opened_cockpit moments)"
proof -
  have "page_ok opened_cockpit" by (simp add: page_ok_def opened_cockpit_def goes_on_def status_of_def)
  from page.run_inv [OF this, of steps moments] show ?thesis by (simp add: checked_run [OF assms])
qed

definition sample_run :: "run_status \<Rightarrow> run_record" where
  "sample_run status =
     \<lparr>rr_id = ''r1'', rr_workflow_id = ''w1'', rr_version_number = Some 1, rr_is_test = False, rr_trigger = Manual,
      rr_status = status, rr_failure_reason = None, rr_failure_detail = None, rr_variables = [], rr_worker_id = None,
      rr_cancel_requested_at = None, rr_pause_requested_at = None, rr_takeover_deadline_at = None,
      rr_auto_handback_disabled = False, rr_queued_at = [], rr_started_at = None, rr_ended_at = None\<rparr>"

definition sample_detail :: "run_status \<Rightarrow> run_detail" where
  "sample_detail status =
     \<lparr>rd_run = sample_run status, rd_step_results = [], rd_control_intervals = [], rd_artifacts = [],
      rd_auth_state_candidates = []\<rparr>"

lemma sample_detail_ok: "cockpit_ok (snapshot_from_detail (sample_detail status) [])"
  by (simp add: cockpit_ok_def snapshot_from_detail_def sample_detail_def)

theorem page_of_run_stays_sound_witness:
  "page_ok (foldl (\<lambda>s moment. next_cockpit [] (fst moment) s (snd moment)) opened_cockpit
     [(Num 0, Run_loaded (sample_detail Waiting_for_human) []), (Num 1, Take_over_pressed),
      (Num 2, Take_over_answered None), (Num 3, Stream_ended)])"
  by (rule page_of_run_stays_sound) (simp add: sample_detail_ok)


text \<open>A tab that takes over a Run that waits.\<close>

definition waiting_page :: cockpit where
  "waiting_page = opened_cockpit\<lparr>cg_loaded := Some (sample_detail Waiting_for_human, []),
     cg_live := Some (snapshot_from_detail (sample_detail Waiting_for_human) []), cg_stream := Stream_open\<rparr>"

lemma waiting_page_reached:
  "waiting_page = next_cockpit [] (Num 0) opened_cockpit (Run_loaded (sample_detail Waiting_for_human) [])"
  by (simp add: waiting_page_def next_cockpit_eq follow_status_def opened_cockpit_def fetched_def show_loaded_def
      status_of_def goes_on_def snapshot_of_def snapshot_from_detail_def sample_detail_def sample_run_def Let_def)


text \<open>The page does not see the end of a wait: when the Run of which this tab holds the browser goes on by itself (its
  success check was met), the change of control reaches the page and its phase is automation,
  and yet the pane stays interactive with its bar, the lock stays claimed, and in a tab
  that holds nothing the card stays that says the Run is waiting.\<close>

theorem end_of_wait_is_not_seen:
  assumes "cg_live s = Some snapshot" and "rr_status (cs_run snapshot) = Waiting_for_human"
    and "cg_stream s = Stream_open" and "cg_load_error s = None" and "\<not> cancelling_now snapshot" and "\<not> cg_unmet s"
    and "re_type event = ''control''" and "field (re_data event) ''phase'' = Str ''automation''"
  shows "(\<exists>after. cg_live (next_cockpit steps now s (Published event)) = Some after \<and>
      current_phase (cs_intervals after) = Some Automation) \<and>
    status_of (next_cockpit steps now s (Published event)) = Some Waiting_for_human \<and>
    Release_lock \<notin> set (cockpit_effects steps now s (Published event)) \<and>
    (cg_we_hold s \<longrightarrow> pane_shows (\<lambda>view. pw_frame view = Frame_interactive \<and> pw_show_control_bar view)
      (next_cockpit steps now s (Published event))) \<and>
    (\<not> cg_we_hold s \<and> \<not> cg_held_elsewhere s \<and> \<not> cg_already_held s \<longrightarrow>
      pane_shows pw_show_waiting_card (next_cockpit steps now s (Published event)))"
proof -
  let ?after = "apply_run_event snapshot event"
  have after: "?after = shift_control snapshot (re_data event)" using assms(7) by (simp add: apply_run_event_def Let_def)
  have phase: "cast run_control_kind_named (Str ''automation'') = Automation"
    by (simp add: cast_def run_control_kind_named_def)
  have current: "current_phase (cs_intervals ?after) = Some Automation"
    using assms(8) phase by (simp add: after shift_control_def Let_def current_phase_def)
  have run: "cs_run ?after = cs_run snapshot" by (simp add: after shift_control_def Let_def)
  have status: "status_of s = Some Waiting_for_human" using assms(1,2) by (simp add: status_of_def)
  obtain pending where handled: "hear_published event s =
      (with_live (\<lambda>snapshot. apply_run_event snapshot event) (s\<lparr>cg_unmet := False, cg_pending_handback := pending\<rparr>),
       if cg_pending_handback s then [Refetch_run For_candidates] else [])"
    using assms(3,6,7,8) by (simp add: hear_published_def Let_def)
  let ?s = "next_cockpit steps now s (Published event)"
  have s': "?s = s\<lparr>cg_unmet := False, cg_pending_handback := pending, cg_live := Some ?after\<rparr>"
    using assms(1) status run
    by (simp add: next_cockpit_eq handled with_live_def follow_status_def Let_def status_of_def goes_on_def)
  show ?thesis
    using assms(1,2,4,5) current run
    by (simp add: s' cockpit_effects_eq handled status_of_def pane_shows_def shown_pane_def pane_input_of_def
        pane_view_of_def base_view_def Let_def cancelling_now_def)
qed

theorem end_of_wait_is_not_seen_witness:
  "pane_shows (\<lambda>view. pw_frame view = Frame_interactive \<and> pw_show_control_bar view)
     (next_cockpit [] (Num 0) (waiting_page\<lparr>cg_we_hold := True\<rparr>)
       (Published \<lparr>re_type = ''control'', re_data = [(''phase'', Str ''automation'')]\<rparr>))"
proof -
  let ?snapshot = "snapshot_from_detail (sample_detail Waiting_for_human) []"
  have "rr_status (cs_run ?snapshot) = Waiting_for_human" "\<not> cancelling_now ?snapshot"
    by (simp_all add: snapshot_from_detail_def sample_detail_def sample_run_def cancelling_now_def chip_state_def)
  from end_of_wait_is_not_seen [OF _ this(1) _ _ this(2), of "waiting_page\<lparr>cg_we_hold := True\<rparr>"
      "\<lparr>re_type = ''control'', re_data = [(''phase'', Str ''automation'')]\<rparr>" "[]" "Num 0"]
  show ?thesis by (simp add: waiting_page_def opened_cockpit_def field_def)
qed

text \<open>A hand-back whose success check is not met is told as such when the answer to the hand-back comes before the
  change of control: the choice between going on and giving up is shown. In the other order the page
  takes the change for somebody else's: the choice is not shown, and the saved logins are not fetched.\<close>

theorem unmet_hand_back_is_told:
  assumes "cg_live s = Some snapshot" and "rr_status (cs_run snapshot) = Waiting_for_human"
    and "cg_stream s = Stream_open" and "cg_load_error s = None" and "\<not> cancelling_now snapshot"
    and "\<not> cg_unmet s" and "cg_we_hold s" and "\<not> cg_pending_handback s" and "pending (cg_hand_back s)"
    and "re_type event = ''control''" and "field (re_data event) ''phase'' = Str ''waiting''"
  shows "pane_shows pw_show_unmet_choice
      (foldl (next_cockpit steps now) s [Hand_back_answered None, Published event]) \<and>
    \<not> pane_shows pw_show_unmet_choice
      (foldl (next_cockpit steps now) s [Published event, Hand_back_answered None]) \<and>
    cg_pending_handback (foldl (next_cockpit steps now) s [Published event, Hand_back_answered None])"
proof -
  let ?after = "apply_run_event snapshot event"
  have run: "cs_run ?after = cs_run snapshot"
    using assms(10) by (simp add: apply_run_event_def shift_control_def Let_def)
  have frame: "status_of s = Some Waiting_for_human" "goes_on s" using assms(1,2) by (simp_all add: status_of_def goes_on_def)
  have quiet: "next_cockpit steps now s (Published event) = s\<lparr>cg_live := Some ?after\<rparr>"
    using assms frame run by (simp add: next_cockpit_eq hear_published_def with_live_def follow_status_def status_of_def
        goes_on_def Let_def)
  have answered: "next_cockpit steps now s (Hand_back_answered None) =
      s\<lparr>cg_hand_back := Idle, cg_pending_handback := True, cg_we_hold := False\<rparr>" (is "_ = ?answered")
    using assms frame by (simp add: next_cockpit_eq handed_back_def released_def follow_status_def status_of_def goes_on_def
        Let_def)
  have told: "next_cockpit steps now ?answered (Published event) =
      ?answered\<lparr>cg_live := Some ?after, cg_unmet := True, cg_pending_handback := False\<rparr>"
    using assms frame run by (simp add: next_cockpit_eq hear_published_def with_live_def follow_status_def status_of_def
        goes_on_def Let_def)
  have late: "next_cockpit steps now (s\<lparr>cg_live := Some ?after\<rparr>) (Hand_back_answered None) =
      s\<lparr>cg_live := Some ?after, cg_hand_back := Idle, cg_pending_handback := True, cg_we_hold := False\<rparr>"
    using assms frame run by (simp add: next_cockpit_eq handed_back_def released_def follow_status_def status_of_def
        goes_on_def Let_def)
  show ?thesis
    using assms run by (simp add: quiet answered told late pane_shows_def shown_pane_def pane_input_of_def pane_view_of_def
        base_view_def cancelling_now_def Let_def)
qed

theorem unmet_hand_back_is_told_witness:
  "pane_shows pw_show_unmet_choice (foldl (next_cockpit [] (Num 0))
     (waiting_page\<lparr>cg_we_hold := True, cg_hand_back := Asked ()\<rparr>)
     [Hand_back_answered None, Published \<lparr>re_type = ''control'', re_data = [(''phase'', Str ''waiting'')]\<rparr>])"
proof -
  let ?snapshot = "snapshot_from_detail (sample_detail Waiting_for_human) []"
  have "rr_status (cs_run ?snapshot) = Waiting_for_human" "\<not> cancelling_now ?snapshot"
    by (simp_all add: snapshot_from_detail_def sample_detail_def sample_run_def cancelling_now_def chip_state_def)
  from unmet_hand_back_is_told [OF _ this(1) _ _ this(2), of "waiting_page\<lparr>cg_we_hold := True, cg_hand_back := Asked ()\<rparr>"
      "\<lparr>re_type = ''control'', re_data = [(''phase'', Str ''waiting'')]\<rparr>" "[]" "Num 0"]
  show ?thesis by (simp add: waiting_page_def opened_cockpit_def field_def)
qed

text \<open>When its stream ends the page fetches the Run before it opens the stream again, a second later: whatever the
  Run publishes in between is missed. If the fetch fails, the page goes back to the Run as it
  was loaded last, without what was published since.\<close>

theorem reconnecting_misses_events:
  assumes "cg_stream s = Stream_refetching" and "goes_on s" and "goes_on (show_loaded (fetched answer s))"
  shows "foldl (next_cockpit steps now) (next_cockpit steps now s (Refetched For_reconnect answer)) (map Published events) =
      next_cockpit steps now s (Refetched For_reconnect answer) \<and>
    cg_stream (next_cockpit steps now s (Refetched For_reconnect answer)) = Stream_pausing \<and>
    (\<forall>load error. cg_loaded s = Some load \<and> answer = Inl error \<longrightarrow>
      cg_live (next_cockpit steps now s (Refetched For_reconnect answer)) = Some (snapshot_of load)) \<and>
    (\<forall>load. answer = Inr load \<longrightarrow>
      cg_live (next_cockpit steps now s (Refetched For_reconnect answer)) = Some (snapshot_of load))"
proof -
  let ?s = "next_cockpit steps now s (Refetched For_reconnect answer)"
  have s': "?s = follow_status s ((show_loaded (fetched answer s))\<lparr>cg_stream := Stream_pausing\<rparr>)"
    using assms(1) by (simp add: next_cockpit_eq refetched_run_def stream_fetched_def Let_def)
  have "goes_on ((show_loaded (fetched answer s))\<lparr>cg_stream := Stream_pausing\<rparr>)"
    using assms(3) by (simp add: goes_on_def status_of_def)
  then have stream: "cg_stream ?s = Stream_pausing" using assms(1,2) by (simp add: s' followed_stream follow_stream_def)
  moreover have "foldl (next_cockpit steps now) ?s (map Published events) = ?s"
    by (rule run_page.unheard_run) (simp add: stream)
  moreover have "cg_live ?s = cg_live (show_loaded (fetched answer s))" by (simp add: s')
  ultimately show ?thesis by (auto simp: fetched_def show_loaded_def split: sum.splits)
qed

theorem reconnecting_misses_events_witness:
  "let s = next_cockpit [] (Num 0) (waiting_page\<lparr>cg_stream := Stream_refetching\<rparr>) (Refetched For_reconnect (Inl Null))
   in next_cockpit [] (Num 0) s (Published \<lparr>re_type = ''run.status'', re_data = [(''status'', Str ''succeeded'')]\<rparr>) = s"
proof -
  let ?s = "waiting_page\<lparr>cg_stream := Stream_refetching\<rparr>"
  have "goes_on ?s" "goes_on (show_loaded (fetched (Inl Null) ?s))"
    by (simp_all add: waiting_page_def opened_cockpit_def goes_on_def status_of_def fetched_def show_loaded_def snapshot_of_def
        snapshot_from_detail_def sample_detail_def sample_run_def)
  from reconnecting_misses_events [OF _ this, of "[]" "Num 0" "[\<lparr>re_type = ''run.status'', re_data = [(''status'', Str ''succeeded'')]\<rparr>]"]
  show ?thesis by (simp add: Let_def)
qed

text \<open>The answer to a cancellation is followed by a fetch: what was published while it was under way is undone by it.\<close>

lemma cancelling_undoes_events:
  assumes "cg_stream s = Stream_open" and "cg_live s \<noteq> None"
  shows "cg_live (foldl (next_cockpit steps now) s [Published event, Refetched For_cancel (Inr load)]) = Some (snapshot_of load)"
  using assms by (simp add: next_cockpit_eq refetched_run_def fetched_def show_loaded_def Let_def)

lemma again_body_map:
  "map_of (again_body declared stored values) name =
     (if \<exists>v \<in> set declared. va_name v = name \<and> va_secret v \<noteq> Some True
      then Some (orelse (map_of values name) []) else None)"
proof -
  have "map_of (foldl (\<lambda>body row. if pv_secret row then body
        else with_key (pv_name row) (orelse (map_of values (pv_name row)) []) body) body (run_again_values declared stored)) name =
      (if \<exists>v \<in> set declared. va_name v = name \<and> va_secret v \<noteq> Some True
       then Some (orelse (map_of values name) []) else map_of body name)" for body
    by (induction declared arbitrary: body) (auto simp: run_again_values_def Let_def)
  then show ?thesis by (simp add: again_body_def)
qed

lemma again_typed_other:
  "name \<notin> fst ` set typed \<Longrightarrow>
   map_of (foldl (\<lambda>values (name, val). again_typed name val values) vals typed) name = map_of vals name"
  by (induction typed arbitrary: vals) (auto simp: again_typed_def)

lemma again_opened_plain:
  assumes "distinct (map va_name declared)" and "v \<in> set declared" and "va_secret v \<noteq> Some True"
  shows "map_of (again_opened declared stored) (va_name v) = Some (prefill_value (field stored (va_name v)))"
  using assms by (induction declared) (auto simp: again_opened_def run_again_values_def Let_def image_iff)

text \<open>A Run that is started again is sent a value for every plain Variable its Workflow declares and for nothing
  else: the text typed for it or else the one the Run had; whatever was typed, no Secret is sent.\<close>

theorem run_again_is_plain:
  assumes "distinct (map va_name declared)"
  shows "(let body = again_body declared stored (foldl (\<lambda>values (name, val). again_typed name val values)
        (again_opened declared stored) typed) in
      dom (map_of body) = va_name ` {v \<in> set declared. va_secret v \<noteq> Some True} \<and>
      (\<forall>v \<in> set declared. va_secret v \<noteq> Some True \<longrightarrow> va_name v \<notin> fst ` set typed \<longrightarrow>
        map_of body (va_name v) = Some (prefill_value (field stored (va_name v)))))"
proof -
  let ?typed = "foldl (\<lambda>values (name, val). again_typed name val values) (again_opened declared stored) typed"
  have "map_of (again_body declared stored ?typed) (va_name v) = Some (prefill_value (field stored (va_name v)))"
    if "v \<in> set declared" "va_secret v \<noteq> Some True" "va_name v \<notin> fst ` set typed" for v
    using again_typed_other [OF that(3), of "again_opened declared stored"]
      again_opened_plain [OF assms that(1) that(2), of stored] that(1,2)
    by (auto simp: again_body_map)
  moreover have "dom (map_of (again_body declared stored ?typed)) = va_name ` {v \<in> set declared. va_secret v \<noteq> Some True}"
    by (auto simp: again_body_map dom_def image_iff)
  ultimately show ?thesis by (simp add: Let_def)
qed

theorem run_again_is_plain_witness:
  "map_of (again_body [\<lparr>va_name = ''city'', va_secret = None, va_secret_id = None, va_secret_name = None\<rparr>,
       \<lparr>va_name = ''pin'', va_secret = Some True, va_secret_id = None, va_secret_name = None\<rparr>]
     [(''city'', Str ''Lille''), (''pin'', Str ''1234'')] [(''city'', ''Lille''), (''pin'', ''typed'')]) ''pin'' = None"
proof -
  let ?declared = "[\<lparr>va_name = ''city'', va_secret = None, va_secret_id = None, va_secret_name = None\<rparr>,
       \<lparr>va_name = ''pin'', va_secret = Some True, va_secret_id = None, va_secret_name = None\<rparr>]"
  let ?stored = "[(''city'', Str ''Lille''), (''pin'', Str ''1234'')]"
  have "distinct (map va_name ?declared)" by simp
  from run_again_is_plain [OF this, of ?stored "[(''pin'', ''typed'')]"]
  have "''pin'' \<notin> dom (map_of (again_body ?declared ?stored
      (foldl (\<lambda>values (name, val). again_typed name val values) (again_opened ?declared ?stored) [(''pin'', ''typed'')])))"
    by (auto simp: Let_def)
  moreover have "foldl (\<lambda>values (name, val). again_typed name val values) (again_opened ?declared ?stored) [(''pin'', ''typed'')] =
      [(''city'', ''Lille''), (''pin'', ''typed'')]"
    by (simp add: again_typed_def again_opened_def run_again_values_def field_def)
  ultimately show ?thesis by (simp add: domIff)
qed

end
