(* ===== verification/BatchPage.thy ===== *)
theory BatchPage
  imports BatchEvents BatchPresentation Mutations Streams
begin

text \<open>
  The page of a Batch (\<open>app/(shell)/batches/[id]/page.tsx\<close>, \<open>messages.ts\<close>): its rows as they go on, the banner of
  a Variable the queued rows have no value for, the callout of a row that waits, and what is done about them.
\<close>

section \<open>Refusals\<close>

definition batch_refusals :: "(js \<times> string) list" where
  "batch_refusals =
     [(Str ''batch_not_found'', ''That Batch is gone. Somebody deleted it, or it was never here.''),
      (Str ''not_a_member'', ''You are no longer a member of that Organization.''),
      (Str ''not_waiting'', ''This row is not waiting for a person.''),
      (Str ''run_terminal'', ''That Run has already finished.''),
      (Str ''already_held'', ''Control is held in another tab.'')]"

definition batch_refusal :: "js \<Rightarrow> string" where
  "batch_refusal = refusal_from batch_refusals ''Something went wrong. Try again in a moment.''"

section \<open>The output of a row\<close>

text \<open>The output of a Run is brought to the form of the output of a Batch: its columns and its rows.\<close>

definition as_batch_output :: "string list \<Rightarrow> fields list \<Rightarrow> js" where
  "as_batch_output columns records =
     Obj [(''columns'', Arr (map Str columns)),
       (''rows'', Arr (map (\<lambda>row. Arr (map (\<lambda>column. field row column) columns)) records))]"

fun coerce_run_output :: "js \<Rightarrow> js" where
  "coerce_run_output (Arr xs) =
     (if list_all is_plain_object xs
      then (let records = map fields_of_object xs in as_batch_output (output_columns records) records)
      else Arr xs)"
| "coerce_run_output (Obj ob) =
     (case field ob ''columns'' of Arr _ \<Rightarrow> Obj ob | _ \<Rightarrow> as_batch_output (map fst ob) [ob])"
| "coerce_run_output v = v"

section \<open>The page\<close>

datatype batch_tab = Rows_tab | Output_tab

record batch_page =
  bp_loaded :: "batch_detail option"
  bp_live :: "batch_snapshot option"
  bp_load_error :: "js option"
  bp_stream :: stream
  bp_latest :: "variable list"
  bp_runs :: "string \<rightharpoonup> run_status"
  bp_tab :: batch_tab
  bp_action_error :: "string option"
  bp_dismissed :: "string set"
  bp_fill_value :: string
  bp_skip :: "int mutation"
  bp_rerun :: "int mutation"
  bp_take_over :: "string mutation"
  bp_fill :: "(string \<times> string) mutation"
  bp_cancel :: "unit mutation"

definition opened_batch :: batch_page where
  "opened_batch =
     \<lparr>bp_loaded = None, bp_live = None, bp_load_error = None, bp_stream = Stream_off, bp_latest = [], bp_runs = Map.empty,
      bp_tab = Rows_tab, bp_action_error = None, bp_dismissed = {}, bp_fill_value = [], bp_skip = Idle, bp_rerun = Idle,
      bp_take_over = Idle, bp_fill = Idle, bp_cancel = Idle\<rparr>"

text \<open>What the page shows, while it shows its rows.\<close>

definition shown_rows :: "batch_page \<Rightarrow> batch_row list option" where
  "shown_rows s =
     (if bp_load_error s \<noteq> None \<or> bp_tab s \<noteq> Rows_tab then None else map_option bs_rows (bp_live s))"

definition shown_drift :: "batch_page \<Rightarrow> running_drift_banner option" where
  "shown_drift s = (shown_rows s \<bind> (\<lambda>rows. running_drift_banner_of rows (bp_latest s) (bp_dismissed s)))"

definition live_row :: "batch_row list \<Rightarrow> batch_row option" where
  "live_row rows = (live_row_index rows \<bind> Prelude.at rows)"

text \<open>The row that waits, with its Run: by the status of the Run as it was loaded.\<close>

definition stalled_row :: "batch_page \<Rightarrow> (int \<times> string) option" where
  "stalled_row s =
     (case shown_rows s of
        None \<Rightarrow> None
      | Some rows \<Rightarrow>
          (case (live_row_index rows, live_row rows \<bind> br_latest_run_id) of
             (Some index, Some run_id) \<Rightarrow> if bp_runs s run_id = Some Waiting_for_human then Some (index, run_id) else None
           | _ \<Rightarrow> None))"

definition batch_goes_on :: "batch_page \<Rightarrow> bool" where
  "batch_goes_on s \<longleftrightarrow> (case bp_live s of None \<Rightarrow> False | Some snapshot \<Rightarrow> batch_is_live (bs_rows snapshot))"

datatype batch_refetch = Reconnecting | After_skip | After_rerun | After_fill | After_cancel

datatype batch_effect =
    Refetch_batch batch_refetch
  | Skip_row int
  | Rerun_row int
  | Take_over_row string
  | Fill_rows "string \<times> string"
  | Cancel_batch
  | Invalidate_run_state
  | Go_to_run string
  | Await_a_second

datatype batch_page_event =
    Batch_loaded batch_detail
  | Batch_unreadable js
  | Latest_loaded "variable list"
  | Run_seen string run_status
  | Row_published batch_event
  | Batch_stream_ended
  | Batch_second_passed
  | Batch_refetched batch_refetch "js + batch_detail"
  | Batch_tab_chosen batch_tab
  | Fill_typed string
  | Fill_pressed
  | Fill_answered "js option"
  | As_they_are_pressed
  | Cancel_rest_pressed
  | Cancel_rest_answered "js option"
  | Row_take_over_pressed
  | Row_take_over_answered "js option"
  | Row_take_over_settled
  | Skip_pressed
  | Skip_answered "js option"
  | Rerun_pressed int
  | Rerun_answered "js option"

definition batch_fetched :: "js + batch_detail \<Rightarrow> batch_page \<Rightarrow> batch_page" where
  "batch_fetched answer s =
     (case answer of
        Inl error \<Rightarrow> s\<lparr>bp_load_error := Some error\<rparr>
      | Inr detail \<Rightarrow> s\<lparr>bp_loaded := Some detail, bp_load_error := None\<rparr>)"

definition show_batch :: "batch_page \<Rightarrow> batch_page" where
  "show_batch s =
     (case bp_loaded s of None \<Rightarrow> s | Some detail \<Rightarrow> s\<lparr>bp_live := Some (batch_snapshot_from_detail detail)\<rparr>)"

definition batch_refetched :: "batch_refetch \<Rightarrow> js + batch_detail \<Rightarrow> batch_page \<Rightarrow> batch_page \<times> batch_effect list" where
  "batch_refetched purpose answer s =
     (let s' = show_batch (batch_fetched answer s) in
      case purpose of
        Reconnecting \<Rightarrow> (s'\<lparr>bp_stream := stream_fetched (bp_stream s)\<rparr>,
          if bp_stream s = Stream_refetching then [Await_a_second] else [])
      | After_skip \<Rightarrow> (s'\<lparr>bp_skip := settled (bp_skip s)\<rparr>, [])
      | After_rerun \<Rightarrow> (s'\<lparr>bp_rerun := settled (bp_rerun s)\<rparr>, [])
      | After_fill \<Rightarrow> (s'\<lparr>bp_fill := settled (bp_fill s)\<rparr>, [])
      | After_cancel \<Rightarrow> (s'\<lparr>bp_cancel := settled (bp_cancel s)\<rparr>, []))"

definition refused_action :: "js \<Rightarrow> batch_page \<Rightarrow> batch_page" where
  "refused_action error s = s\<lparr>bp_action_error := Some (batch_refusal error)\<rparr>"

definition fill_answered :: "js option \<Rightarrow> batch_page \<Rightarrow> batch_page \<times> batch_effect list" where
  "fill_answered answer s =
     (case (bp_fill s, answer) of
        (Asked _, Some error) \<Rightarrow> (refused_action error (s\<lparr>bp_fill := Refused error\<rparr>), [])
      | (Asked (name, val), None) \<Rightarrow>
          (s\<lparr>bp_fill := Settling, bp_action_error := None, bp_fill_value := [],
             bp_live := map_option (\<lambda>snapshot. snapshot\<lparr>bs_rows := apply_queued_fill (bs_rows snapshot) name val\<rparr>) (bp_live s)\<rparr>,
           [Refetch_batch After_fill])
      | _ \<Rightarrow> (s, []))"

definition cancel_rest_answered :: "js option \<Rightarrow> batch_page \<Rightarrow> batch_page \<times> batch_effect list" where
  "cancel_rest_answered answer s =
     (case (bp_cancel s, answer) of
        (Asked _, Some error) \<Rightarrow> (refused_action error (s\<lparr>bp_cancel := Refused error\<rparr>), [])
      | (Asked _, None) \<Rightarrow> (s\<lparr>bp_cancel := Settling, bp_action_error := None\<rparr>, [Invalidate_run_state, Refetch_batch After_cancel])
      | _ \<Rightarrow> (s, []))"

definition skip_answered :: "js option \<Rightarrow> batch_page \<Rightarrow> batch_page \<times> batch_effect list" where
  "skip_answered answer s =
     (case (bp_skip s, answer) of
        (Asked _, Some error) \<Rightarrow> (refused_action error (s\<lparr>bp_skip := Refused error\<rparr>), [])
      | (Asked _, None) \<Rightarrow> (s\<lparr>bp_skip := Settling, bp_action_error := None\<rparr>, [Invalidate_run_state, Refetch_batch After_skip])
      | _ \<Rightarrow> (s, []))"

definition rerun_answered :: "js option \<Rightarrow> batch_page \<Rightarrow> batch_page \<times> batch_effect list" where
  "rerun_answered answer s =
     (case (bp_rerun s, answer) of
        (Asked _, Some error) \<Rightarrow> (refused_action error (s\<lparr>bp_rerun := Refused error\<rparr>), [])
      | (Asked _, None) \<Rightarrow> (s\<lparr>bp_rerun := Settling, bp_action_error := None\<rparr>, [Invalidate_run_state, Refetch_batch After_rerun])
      | _ \<Rightarrow> (s, []))"

definition row_take_over_answered :: "js option \<Rightarrow> batch_page \<Rightarrow> batch_page \<times> batch_effect list" where
  "row_take_over_answered answer s =
     (case (bp_take_over s, answer) of
        (Asked _, Some error) \<Rightarrow> (refused_action error (s\<lparr>bp_take_over := Refused error\<rparr>), [])
      | (Asked run_id, None) \<Rightarrow> (s\<lparr>bp_take_over := Settling, bp_action_error := None\<rparr>, [Invalidate_run_state, Go_to_run run_id])
      | _ \<Rightarrow> (s, []))"

text \<open>What a row opens to: the Run that is live, the reason of a failure with the offer to run the row again, the
  output, or the text that the row has not run yet.\<close>

datatype row_panel =
    Live_panel string
  | Failed_panel string
  | Output_panel string
  | Unrun_panel

definition row_panel_of :: "batch_row list \<Rightarrow> batch_row \<Rightarrow> row_panel" where
  "row_panel_of rows row =
     (case (live_row_index rows = Some (br_index row), br_latest_run_id row, br_status row) of
        (True, Some run_id, _) \<Rightarrow> Live_panel run_id
      | (_, _, Row_failed) \<Rightarrow>
          Failed_panel (failure_reason_words (if br_runs row = [] then None else at_failure_reason (last (br_runs row))))
      | (_, Some run_id, Row_succeeded) \<Rightarrow> Output_panel run_id
      | _ \<Rightarrow> Unrun_panel)"

fun offers_rerun :: "row_panel \<Rightarrow> bool" where
  "offers_rerun (Failed_panel _) = True"
| "offers_rerun _ = False"

definition rerun_offered :: "int \<Rightarrow> batch_row list \<Rightarrow> bool" where
  "rerun_offered index rows \<longleftrightarrow> list_ex (\<lambda>row. br_index row = index \<and> offers_rerun (row_panel_of rows row)) rows"

text \<open>The last lines of the log of the row that is live, each with its time since the Run began.\<close>

definition tail_start :: "run_record \<Rightarrow> jsnum" where
  "tail_start run = date_parse (orelse (rr_started_at run) (rr_queued_at run))"

definition log_tail :: "run_record \<Rightarrow> log_line list \<Rightarrow> (string \<times> string) list" where
  "log_tail run logs =
     map (\<lambda>line. (if tail_start run = NaN then [] else clock (num_sub (date_parse (ll_at line)) (tail_start run)), ll_text line))
       (drop (length logs - 8) logs)"

fun handle_batch :: "batch_page \<Rightarrow> batch_page_event \<Rightarrow> batch_page \<times> batch_effect list" where
  "handle_batch s (Batch_loaded detail) =
     (let s' = batch_fetched (Inr detail) s in if bp_live s = None then show_batch s' else s', [])"
| "handle_batch s (Batch_unreadable error) = (s\<lparr>bp_load_error := Some error\<rparr>, [])"
| "handle_batch s (Latest_loaded variables) = (s\<lparr>bp_latest := variables\<rparr>, [])"
| "handle_batch s (Run_seen run_id status) = (s\<lparr>bp_runs := (bp_runs s)(run_id \<mapsto> status)\<rparr>, [])"
| "handle_batch s (Row_published event) =
     (if bp_stream s = Stream_open
      then s\<lparr>bp_live := map_option (\<lambda>snapshot. apply_batch_event snapshot event) (bp_live s)\<rparr> else s, [])"
| "handle_batch s Batch_stream_ended =
     (s\<lparr>bp_stream := stream_ended (bp_stream s)\<rparr>, if bp_stream s = Stream_open then [Refetch_batch Reconnecting] else [])"
| "handle_batch s Batch_second_passed = (s\<lparr>bp_stream := second_passed (bp_stream s)\<rparr>, [])"
| "handle_batch s (Batch_refetched purpose answer) = batch_refetched purpose answer s"
| "handle_batch s (Batch_tab_chosen tab) = (s\<lparr>bp_tab := tab\<rparr>, [])"
| "handle_batch s (Fill_typed text) = (if shown_drift s = None then s else s\<lparr>bp_fill_value := text\<rparr>, [])"
| "handle_batch s Fill_pressed =
     (case shown_drift s of
        None \<Rightarrow> (s, [])
      | Some banner \<Rightarrow>
          if trim (bp_fill_value s) = [] \<or> pending (bp_fill s) then (s, [])
          else (s\<lparr>bp_fill := Asked (rd_name banner, bp_fill_value s)\<rparr>, [Fill_rows (fill_rows_body (rd_name banner) (bp_fill_value s))]))"
| "handle_batch s (Fill_answered answer) = fill_answered answer s"
| "handle_batch s As_they_are_pressed =
     (case shown_drift s of
        None \<Rightarrow> s
      | Some banner \<Rightarrow> s\<lparr>bp_dismissed := dismiss_variable (bp_dismissed s) (rd_name banner)\<rparr>, [])"
| "handle_batch s Cancel_rest_pressed =
     (if shown_drift s = None \<or> pending (bp_cancel s) then (s, []) else (s\<lparr>bp_cancel := Asked ()\<rparr>, [Cancel_batch]))"
| "handle_batch s (Cancel_rest_answered answer) = cancel_rest_answered answer s"
| "handle_batch s Row_take_over_pressed =
     (case stalled_row s of
        None \<Rightarrow> (s, [])
      | Some (_, run_id) \<Rightarrow>
          if pending (bp_take_over s) then (s, []) else (s\<lparr>bp_take_over := Asked run_id\<rparr>, [Take_over_row run_id]))"
| "handle_batch s (Row_take_over_answered answer) = row_take_over_answered answer s"
| "handle_batch s Row_take_over_settled = (s\<lparr>bp_take_over := settled (bp_take_over s)\<rparr>, [])"
| "handle_batch s Skip_pressed =
     (case stalled_row s of
        None \<Rightarrow> (s, [])
      | Some (index, _) \<Rightarrow>
          if pending (bp_skip s) then (s, []) else (s\<lparr>bp_skip := Asked index\<rparr>, [Skip_row index]))"
| "handle_batch s (Skip_answered answer) = skip_answered answer s"
| "handle_batch s (Rerun_pressed index) =
     (case shown_rows s of
        None \<Rightarrow> (s, [])
      | Some rows \<Rightarrow>
          if rerun_offered index rows \<and> \<not> pending (bp_rerun s)
          then (s\<lparr>bp_rerun := Asked index\<rparr>, [Rerun_row index]) else (s, []))"
| "handle_batch s (Rerun_answered answer) = rerun_answered answer s"

definition batch_step :: "batch_page \<Rightarrow> batch_page_event \<Rightarrow> batch_page \<times> batch_effect list" where
  "batch_step s e =
     (case handle_batch s e of (s', effects) \<Rightarrow>
        (s'\<lparr>bp_stream := follow_stream (batch_goes_on s) (batch_goes_on s') (bp_stream s')\<rparr>, effects))"

definition next_batch :: "batch_page \<Rightarrow> batch_page_event \<Rightarrow> batch_page" where
  "next_batch s e = fst (batch_step s e)"

definition batch_effects :: "batch_page \<Rightarrow> batch_page_event \<Rightarrow> batch_effect list" where
  "batch_effects s e = snd (batch_step s e)"

section \<open>The invariant\<close>

definition batch_page_ok :: "batch_page \<Rightarrow> bool" where
  "batch_page_ok s \<longleftrightarrow>
     pred_option batch_ok (bp_live s) \<and>
     pred_option (\<lambda>detail. batch_ok (batch_snapshot_from_detail detail)) (bp_loaded s) \<and>
     (bp_stream s = Stream_off \<longleftrightarrow> \<not> batch_goes_on s)"

fun batch_load_ok :: "batch_page_event \<Rightarrow> bool" where
  "batch_load_ok (Batch_loaded detail) = batch_ok (batch_snapshot_from_detail detail)"
| "batch_load_ok (Batch_refetched purpose (Inr detail)) = batch_ok (batch_snapshot_from_detail detail)"
| "batch_load_ok _ = True"

lemmas batch_page_defs = batch_refetched_def batch_fetched_def show_batch_def refused_action_def fill_answered_def
  cancel_rest_answered_def skip_answered_def rerun_answered_def row_take_over_answered_def

lemmas batch_page_splits = option.splits if_splits mutation.splits sum.splits prod.splits batch_refetch.splits

lemma ok_queued_fill:
  assumes "batch_ok snapshot"
  shows "batch_ok (snapshot\<lparr>bs_rows := apply_queued_fill (bs_rows snapshot) name val\<rparr>)"
proof -
  have "stats_from_rows (map f rows) = stats_from_rows rows" if "\<And>row. br_status (f row) = br_status row" for f rows
    by (simp add: stats_from_rows_def foldl_map that)
  moreover have "list_all batch_row_ok (apply_queued_fill rows name val)" if "list_all batch_row_ok rows" for rows
    using that by (auto simp: apply_queued_fill_def list_all_iff batch_row_ok_def)
  ultimately show ?thesis using assms by (simp add: batch_ok_def apply_queued_fill_def)
qed

definition batch_loads_ok :: "batch_page \<Rightarrow> bool" where
  "batch_loads_ok s \<longleftrightarrow>
     pred_option batch_ok (bp_live s) \<and>
     pred_option (\<lambda>detail. batch_ok (batch_snapshot_from_detail detail)) (bp_loaded s)"

lemma batch_loads_handled: "batch_loads_ok s \<Longrightarrow> batch_load_ok e \<Longrightarrow> batch_loads_ok (fst (handle_batch s e))"
  unfolding batch_loads_ok_def
  by (cases e) (auto simp: batch_page_defs Let_def ok_queued_fill batch_ok_step option.pred_map option.pred_set
      split: batch_page_splits)

lemma batch_stream_handled: "bp_stream (fst (handle_batch s e)) = Stream_off \<longleftrightarrow> bp_stream s = Stream_off"
  by (cases e) (auto simp: batch_page_defs Let_def split: batch_page_splits)

lemma next_batch_eq:
  "next_batch s e = (fst (handle_batch s e))
     \<lparr>bp_stream := follow_stream (batch_goes_on s) (batch_goes_on (fst (handle_batch s e))) (bp_stream (fst (handle_batch s e)))\<rparr>"
  by (simp add: next_batch_def batch_step_def split_beta)

lemma batch_effects_eq: "batch_effects s e = snd (handle_batch s e)"
  by (simp add: batch_effects_def batch_step_def split_beta)

lemma batch_page_ok_step:
  assumes "batch_page_ok s" and "batch_load_ok e"
  shows "batch_page_ok (next_batch s e)"
proof -
  have "batch_loads_ok (fst (handle_batch s e))"
    using batch_loads_handled assms by (simp add: batch_loads_ok_def batch_page_ok_def)
  moreover have "bp_stream (next_batch s e) = Stream_off \<longleftrightarrow> \<not> batch_goes_on (fst (handle_batch s e))"
    using batch_stream_handled [of s e] assms(1)
      follow_stream_live [of "bp_stream (fst (handle_batch s e))" "batch_goes_on s" "batch_goes_on (fst (handle_batch s e))"]
    by (simp add: next_batch_eq batch_page_ok_def)
  ultimately show ?thesis by (simp add: next_batch_eq batch_page_ok_def batch_loads_ok_def batch_goes_on_def)
qed

definition checked_batch_step :: "batch_page \<Rightarrow> batch_page_event \<Rightarrow> batch_page" where
  "checked_batch_step s e = (if batch_load_ok e then next_batch s e else s)"

interpretation batch_page: reducer checked_batch_step batch_page_ok
  by unfold_locales (simp add: checked_batch_step_def batch_page_ok_step)

interpretation batch_page_stream: streamed_page next_batch Row_published bp_stream
  by unfold_locales (simp add: next_batch_eq)

lemma checked_batch_run: "list_all batch_load_ok es \<Longrightarrow> foldl checked_batch_step s es = foldl next_batch s es"
  by (induction es arbitrary: s) (simp_all add: checked_batch_step_def)

text \<open>The Variable that the banner names: a plain one that a queued row has no value for.\<close>

lemma banner_names:
  "running_drift_banner_of rows latest dismissed = Some banner \<Longrightarrow>
   \<exists>v \<in> set latest. va_name v = rd_name banner \<and> va_secret v \<noteq> Some True \<and> va_name v \<notin> dismissed \<and>
     (\<exists>row \<in> set rows. lacks_value (va_name v) row)"
proof -
  assume banner: "running_drift_banner_of rows latest dismissed = Some banner"
  then obtain v vs where w: "wanting rows latest dismissed = v # vs" "va_name v = rd_name banner"
    using banner_wanting [of rows latest dismissed] by (auto split: list.splits)
  then have "v \<in> set (wanting rows latest dismissed)" by simp
  then show ?thesis using w(2) by (intro bexI [of _ v]) (auto simp: wanting_def)
qed

section \<open>Properties\<close>

text \<open>C13. Whatever the page of a Batch goes through, the rows it shows are well-formed, their statistics are those of the
  rows, also after the rows were filled ahead of the answer, and its stream is off exactly while no
  row is queued or runs.\<close>

theorem page_of_batch_stays_sound:
  assumes "list_all batch_load_ok es"
  shows "batch_page_ok (foldl next_batch opened_batch es)"
proof -
  have "batch_page_ok opened_batch" by (simp add: batch_page_ok_def opened_batch_def batch_goes_on_def)
  from batch_page.run_inv [OF this, of es] show ?thesis by (simp add: checked_batch_run [OF assms])
qed

definition queued_detail :: batch_detail where
  "queued_detail =
     \<lparr>bd_batch = \<lparr>bt_id = ''b1'', bt_name = ''Invoices'', bt_workflow_id = ''w1'', bt_created_at = [], bt_cancelled_at = None\<rparr>,
      bd_rows = [\<lparr>br_index = 0, br_variables = [], br_status = Row_queued, br_latest_run_id = None, br_runs = []\<rparr>],
      bd_stats = no_stats\<lparr>bs_queued := 1\<rparr>, bd_eta_seconds = None\<rparr>"

lemma queued_detail_ok: "batch_ok (batch_snapshot_from_detail queued_detail)"
  by (simp add: batch_ok_def batch_snapshot_from_detail_def queued_detail_def stats_from_rows_def no_stats_def
      batch_row_ok_def)

theorem page_of_batch_stays_sound_witness:
  "batch_page_ok (foldl next_batch opened_batch
     [Batch_loaded queued_detail, Fill_typed ''Lille'', Batch_stream_ended, Batch_refetched Reconnecting (Inl Null)])"
  by (rule page_of_batch_stays_sound) (simp add: queued_detail_ok)

text \<open>Rows are filled only for the Variable that the banner names, which is a plain one that some queued row has no value
  for. But what was typed for it stays when it is dismissed: the banner then names the next Variable,
  with the text that was typed for the one before, and fills that Variable with it.\<close>

theorem fill_is_of_the_banner:
  assumes "shown_drift s = Some banner" and "trim (bp_fill_value s) \<noteq> []" and "\<not> pending (bp_fill s)"
  shows "batch_effects s Fill_pressed = [Fill_rows (rd_name banner, bp_fill_value s)] \<and>
    (\<exists>v \<in> set (bp_latest s). va_name v = rd_name banner \<and> va_secret v \<noteq> Some True \<and>
      (\<exists>row \<in> set (orelse (shown_rows s) []). lacks_value (va_name v) row)) \<and>
    (\<forall>banner'. shown_drift (next_batch s As_they_are_pressed) = Some banner' \<longrightarrow>
      rd_name banner' \<noteq> rd_name banner \<and>
      batch_effects (next_batch s As_they_are_pressed) Fill_pressed = [Fill_rows (rd_name banner', bp_fill_value s)])"
proof (intro conjI allI impI)
  show "batch_effects s Fill_pressed = [Fill_rows (rd_name banner, bp_fill_value s)]"
    using assms by (simp add: batch_effects_eq fill_rows_body_def)
  obtain rows where rows: "shown_rows s = Some rows" "running_drift_banner_of rows (bp_latest s) (bp_dismissed s) = Some banner"
    using assms(1) by (auto simp: shown_drift_def bind_eq_Some_conv)
  then show "\<exists>v \<in> set (bp_latest s). va_name v = rd_name banner \<and> va_secret v \<noteq> Some True \<and>
      (\<exists>row \<in> set (orelse (shown_rows s) []). lacks_value (va_name v) row)"
    using banner_names [OF rows(2)] by auto
  fix banner'
  let ?s = "next_batch s As_they_are_pressed"
  assume shown: "shown_drift ?s = Some banner'"
  have s': "?s = s\<lparr>bp_dismissed := insert (rd_name banner) (bp_dismissed s)\<rparr>"
    using assms(1) by (simp add: next_batch_eq dismiss_variable_def batch_goes_on_def)
  then have "running_drift_banner_of rows (bp_latest s) (insert (rd_name banner) (bp_dismissed s)) = Some banner'"
    using shown rows(1) by (auto simp: shown_drift_def shown_rows_def split: if_splits)
  from banner_names [OF this] show "rd_name banner' \<noteq> rd_name banner" by auto
  have "bp_fill_value ?s = bp_fill_value s" "bp_fill ?s = bp_fill s" by (simp_all add: s')
  then show "batch_effects ?s Fill_pressed = [Fill_rows (rd_name banner', bp_fill_value s)]"
    using shown assms(2,3) by (simp add: batch_effects_eq fill_rows_body_def)
qed

definition two_gaps :: batch_page where
  "two_gaps = opened_batch
     \<lparr>bp_live := Some (batch_snapshot_from_detail queued_detail),
      bp_latest := [\<lparr>va_name = ''city'', va_secret = None, va_secret_id = None, va_secret_name = None\<rparr>,
        \<lparr>va_name = ''zip'', va_secret = None, va_secret_id = None, va_secret_name = None\<rparr>],
      bp_fill_value := ''Lille''\<rparr>"

theorem fill_is_of_the_banner_witness:
  "batch_effects (next_batch two_gaps As_they_are_pressed) Fill_pressed = [Fill_rows (''zip'', ''Lille'')]"
proof -
  have "shown_drift two_gaps = Some (the (shown_drift two_gaps)) \<and> rd_name (the (shown_drift two_gaps)) = ''city''"
    by code_simp
  moreover have "shown_drift (next_batch two_gaps As_they_are_pressed) =
        Some (the (shown_drift (next_batch two_gaps As_they_are_pressed))) \<and>
      rd_name (the (shown_drift (next_batch two_gaps As_they_are_pressed))) = ''zip''"
    by code_simp
  moreover have "trim (bp_fill_value two_gaps) \<noteq> [] \<and> \<not> pending (bp_fill two_gaps) \<and> bp_fill_value two_gaps = ''Lille''"
    by code_simp
  ultimately show ?thesis
    using fill_is_of_the_banner [of two_gaps "the (shown_drift two_gaps)"] by metis
qed

text \<open>The output of a row, for the table of the Batch and for the table of the Run.\<close>

lemma prefill_is_cell: "prefill_value v = cell_of v"
  by (cases v) simp_all

lemma table_of_batch_output:
  "batch_output_table (as_batch_output columns records) =
     (if columns = [] then None
      else Some \<lparr>ot_columns = columns, ot_rows = map (\<lambda>row. map (\<lambda>column. cell_of (field row column)) columns) records\<rparr>)"
proof -
  have "map (\<lambda>i. output_cell (map (\<lambda>column. field row column) columns) i) [0..<length columns] =
      map (\<lambda>column. cell_of (field row column)) columns" for row
    by (rule nth_equalityI) (simp_all add: output_cell_def Prelude.at_nat)
  then show ?thesis
    by (simp add: batch_output_table_def as_batch_output_def field_def list_all_iff comp_def)
qed

text \<open>The table that the page of a Batch shows under a finished row is the one that the page of its Run shows, unless it
  has no column: the detour through the form of a Batch's output changes neither columns nor cells. Only
  an output that is one object with an array under \<open>columns\<close> is taken for a Batch's output instead.\<close>

theorem row_shows_the_output_of_its_run:
  assumes "\<forall>ob xs. v = Obj ob \<longrightarrow> field ob ''columns'' \<noteq> Arr xs"
  shows "batch_output_table (coerce_run_output v) =
    (output_table_of v \<bind> (\<lambda>t. if ot_columns t = [] then None else Some t))"
proof (cases v)
  case (Arr xs)
  have none: "output_columns [] = []" by (simp add: output_columns_def)
  show ?thesis
  proof (cases "list_all is_plain_object xs")
    case True
    then show ?thesis
      by (cases "xs = []") (simp_all add: Arr output_table_of_def table_of_batch_output prefill_is_cell Let_def none)
  next
    case False
    then show ?thesis by (simp add: Arr output_table_of_def batch_output_table_def)
  qed
next
  case (Obj ob)
  then have "coerce_run_output v = as_batch_output (map fst ob) [ob]"
    using assms by (auto split: js.splits)
  then show ?thesis using Obj by (simp add: output_table_of_def table_of_batch_output prefill_is_cell Let_def)
qed (simp_all add: output_table_of_def batch_output_table_def)

theorem row_shows_the_output_of_its_run_witness:
  "batch_output_table (coerce_run_output (Arr [Obj [(''name'', Str ''Ada'')], Obj [(''age'', Bool True)]])) =
     Some \<lparr>ot_columns = [''name'', ''age''], ot_rows = [[''Ada'', []], [[], ''true'']]\<rparr>"
  using row_shows_the_output_of_its_run [of "Arr [Obj [(''name'', Str ''Ada'')], Obj [(''age'', Bool True)]]"]
  by (simp add: output_table_of_def Let_def output_columns_def field_def)

text \<open>A row that was skipped while it waited did run, and the API runs it again: the page says that it has not run yet and
  does not offer it.\<close>

lemma skipped_row_is_said_unrun:
  "br_status row = Row_skipped \<Longrightarrow> live_row_index rows \<noteq> Some (br_index row) \<Longrightarrow>
   row_panel_of rows row = Unrun_panel \<and> \<not> offers_rerun (row_panel_of rows row)"
  by (simp add: row_panel_of_def split: option.split)

text \<open>The callout of a row that waits goes by the status of its Run as it was loaded: no event of the Batch changes it.\<close>

lemma events_do_not_tell_who_waits: "bp_runs (next_batch s (Row_published event)) = bp_runs s"
  by (simp add: next_batch_eq)

end
