(* ===== verification/WorkflowPages.thy ===== *)
theory WorkflowPages
  imports Workflows Mutations
begin

text \<open>
  The page that lists the Workflows (\<open>app/(shell)/workflows/page.tsx\<close>, \<open>queries.ts\<close>, \<open>name-dialog.tsx\<close>,
  \<open>delete-dialog.tsx\<close>, \<open>workflow-row.tsx\<close>) and the frame around the pages of one Workflow
  (\<open>workflows/[id]/layout.tsx\<close>, \<open>publish-dialog.tsx\<close>). The hook that starts a Run is the one of the theory
  \<open>Workflows\<close>; the answers of the API and the state of the queries are inputs.
\<close>

section \<open>Refusals\<close>

definition workflow_refusals :: "(js \<times> string) list" where
  "workflow_refusals =
     [(Str ''workflow_not_found'', ''That Workflow is gone. Somebody deleted it, or it was never here.''),
      (Str ''no_published_version'', no_published_version),
      (Str ''missing_secret'', ''A Secret this Workflow needs is missing.''),
      (Str ''bad_cursor'', ''That page is no longer where it was. Reload the list.''),
      (Str ''not_a_member'', ''You are no longer a member of that Organization.''),
      (Str ''run_active'', ''A Run of this Workflow is still going. Wait for it to finish, or cancel it, then try again.'')]"

definition workflow_refusal :: "js \<Rightarrow> string" where
  "workflow_refusal = refusal_from workflow_refusals ''Something went wrong. Try again in a moment.''"

section \<open>A Workflow in the list\<close>

record workflow_summary =
  ws_id :: string
  ws_name :: string
  ws_draft_state :: draft_state
  ws_published_version :: "int option"
  ws_schedule_count :: "int option"
  ws_schedule_label :: "string option"
  ws_run_count :: "int option"

definition row_subline :: "string option \<Rightarrow> workflow_summary \<Rightarrow> string" where
  "row_subline last_run workflow =
     orelse last_run ''never run'' @
     (case schedule_indicator (orelse (ws_schedule_count workflow) 0) (ws_schedule_label workflow) of
        None \<Rightarrow> []
      | Some told \<Rightarrow> '' '' @ [CHR 0xC2, CHR 0xB7] @ '' '' @ told)"

text \<open>The actions of a row: the one on the button and those of its menu, as far as they are not disabled.\<close>

definition row_actions :: "workflow_summary \<Rightarrow> workflow_action list" where
  "row_actions workflow = filter (\<lambda>action. disabled_reason action (ws_draft_state workflow) = None) (run_action # overflow_actions)"

section \<open>The dialogs\<close>

datatype open_dialog = No_dialog | New_dialog | Rename_dialog workflow_summary | Delete_dialog workflow_summary

text \<open>The text of the dialog that names a Workflow is set anew whenever it is opened.\<close>

definition name_when_opened :: "open_dialog \<Rightarrow> string" where
  "name_when_opened dialog = (case dialog of Rename_dialog workflow \<Rightarrow> ws_name workflow | _ \<Rightarrow> [])"

type_synonym list_key = "string \<times> string"

record listed =
  li_rows :: "workflow_summary list option"
  li_next :: "string option"
  li_error :: "js option"
  li_fetching_more :: bool

definition not_listed :: listed where
  "not_listed = \<lparr>li_rows = None, li_next = None, li_error = None, li_fetching_more = False\<rparr>"

record workflows_page =
  wl_q :: string
  wl_sort :: string
  wl_lists :: "list_key \<Rightarrow> listed"
  wl_dialog :: open_dialog
  wl_name :: string
  wl_create :: "string mutation"
  wl_rename :: "(string \<times> string) mutation"
  wl_duplicate :: "string mutation"
  wl_remove :: "string mutation"
  wl_start :: "js start_state"
  wl_starting :: bool

definition opened_workflows :: workflows_page where
  "opened_workflows =
     \<lparr>wl_q = [], wl_sort = ''activity'', wl_lists = (\<lambda>_. not_listed), wl_dialog = No_dialog, wl_name = [], wl_create = Idle,
      wl_rename = Idle, wl_duplicate = Idle, wl_remove = Idle,
      wl_start = \<lparr>sx_dialog = None, sx_refusal = None, sx_error = None\<rparr>, wl_starting = False\<rparr>"

definition shown_list :: "workflows_page \<Rightarrow> listed" where
  "shown_list s = wl_lists s (wl_q s, wl_sort s)"

definition shown_workflows :: "workflows_page \<Rightarrow> workflow_summary list" where
  "shown_workflows s = orelse (li_rows (shown_list s)) []"

definition list_pending :: "listed \<Rightarrow> bool" where
  "list_pending l \<longleftrightarrow> li_rows l = None \<and> li_error l = None"

definition searches :: "workflows_page \<Rightarrow> bool" where
  "searches s \<longleftrightarrow> wl_q s \<noteq> []"

definition search_shown :: "workflows_page \<Rightarrow> bool" where
  "search_shown s \<longleftrightarrow> offers_search_and_sort (int (length (shown_workflows s))) (searches s)"

datatype list_body = No_match string | Nothing_shown | First_run_panel | Workflow_rows "workflow_summary list"

definition body_of :: "workflows_page \<Rightarrow> list_body" where
  "body_of s =
     (if shown_workflows s \<noteq> [] then Workflow_rows (shown_workflows s)
      else if searches s then No_match (wl_q s)
      else if list_pending (shown_list s) then Nothing_shown else First_run_panel)"

fun first_some :: "'a option list \<Rightarrow> 'a option" where
  "first_some [] = None"
| "first_some (Some x # _) = Some x"
| "first_some (None # rest) = first_some rest"

definition page_refusal :: "workflows_page \<Rightarrow> string option" where
  "page_refusal s =
     map_option workflow_refusal
       (first_some [li_error (shown_list s), refused_with (wl_duplicate s), shown_refusal (wl_start s)])"

definition dialog_refusal :: "workflows_page \<Rightarrow> string option" where
  "dialog_refusal s =
     map_option workflow_refusal
       (case wl_dialog s of
          New_dialog \<Rightarrow> refused_with (wl_create s)
        | Rename_dialog _ \<Rightarrow> refused_with (wl_rename s)
        | Delete_dialog _ \<Rightarrow> refused_with (wl_remove s)
        | No_dialog \<Rightarrow> None)"

section \<open>What is done on the page\<close>

datatype refresh_after = After_create string | After_rename | After_duplicate | After_remove

datatype workflows_effect =
    Create_workflow string
  | Rename_workflow string string
  | Duplicate_workflow string
  | Delete_workflow string
  | Refresh_lists refresh_after
  | Load_more list_key "string option"
  | Load_version string int
  | Ask_run string "string \<rightharpoonup> string"
  | Push string

datatype workflows_event =
    List_answered list_key "js + (workflow_summary list \<times> string option)"
  | Search_typed string
  | Sort_chosen string
  | More_pressed
  | New_pressed
  | Action_chosen workflow_action workflow_summary
  | Dialog_closed
  | Dialog_name_typed string
  | Name_submitted
  | Delete_confirmed
  | Create_answered "js + string"
  | Rename_answered "js option"
  | Duplicate_answered "js option"
  | Remove_answered "js option"
  | Lists_refreshed refresh_after
  | Version_answered string "js + variable list"
  | Grid_submitted grid_row
  | Run_answered "js + string"
  | Start_closed

definition open_with :: "open_dialog \<Rightarrow> workflows_page \<Rightarrow> workflows_page" where
  "open_with dialog s = s\<lparr>wl_dialog := dialog, wl_name := name_when_opened dialog\<rparr>"

definition start_effects :: "start_effect \<times> js start_state \<Rightarrow> workflows_page \<Rightarrow> workflows_page \<times> workflows_effect list" where
  "start_effects answer s =
     (case fst answer of
        No_effect \<Rightarrow> (s\<lparr>wl_start := snd answer\<rparr>, [])
      | Start_run ident variables \<Rightarrow> (s\<lparr>wl_start := snd answer, wl_starting := True\<rparr>, [Ask_run ident variables])
      | Go_to path \<Rightarrow> (s\<lparr>wl_start := snd answer\<rparr>, [Push path]))"

definition act_on :: "workflow_action \<Rightarrow> workflow_summary \<Rightarrow> workflows_page \<Rightarrow> workflows_page \<times> workflows_effect list" where
  "act_on action workflow s =
     (if wa_key action = ''rename'' then (open_with (Rename_dialog workflow) s, [])
      else if wa_key action = ''delete'' then (open_with (Delete_dialog workflow) s, [])
      else if wa_key action = ''duplicate''
      then (s\<lparr>wl_duplicate := Asked (ws_id workflow)\<rparr>, [Duplicate_workflow (ws_id workflow)])
      else if wa_key action = ''new-batch'' then (s, [Push (new_batch_path (ws_id workflow))])
      else if wa_key action = ''new-schedule'' then (s, [Push (new_schedule_path (ws_id workflow))])
      else if wa_key action = ''run'' then
        (case ws_published_version workflow of
           None \<Rightarrow> (s, [])
         | Some n \<Rightarrow>
             (s\<lparr>wl_start := snd (begin_run (Some n) (wl_start s))\<rparr>, [Load_version (ws_id workflow) n]))
      else (s, []))"

definition submit_name :: "workflows_page \<Rightarrow> workflows_page \<times> workflows_effect list" where
  "submit_name s =
     (let name = trim (wl_name s) in
      case wl_dialog s of
        New_dialog \<Rightarrow>
          if pending (wl_create s) \<or> name = [] then (s, [])
          else (s\<lparr>wl_create := Asked name\<rparr>, [Create_workflow name])
      | Rename_dialog workflow \<Rightarrow>
          if pending (wl_rename s) \<or> name = [] then (s, [])
          else (s\<lparr>wl_rename := Asked (ws_id workflow, name)\<rparr>, [Rename_workflow (ws_id workflow) name])
      | _ \<Rightarrow> (s, []))"

definition listing :: "js + (workflow_summary list \<times> string option) \<Rightarrow> listed \<Rightarrow> listed" where
  "listing answer l =
     (case answer of
        Inl error \<Rightarrow> l\<lparr>li_error := Some error, li_fetching_more := False\<rparr>
      | Inr (rows, cursor) \<Rightarrow> \<lparr>li_rows = Some rows, li_next = cursor, li_error = None, li_fetching_more = False\<rparr>)"

fun workflows_step :: "workflows_page \<Rightarrow> workflows_event \<Rightarrow> workflows_page \<times> workflows_effect list" where
  "workflows_step s (List_answered key answer) =
     (s\<lparr>wl_lists := (wl_lists s)(key := listing answer (wl_lists s key))\<rparr>, [])"
| "workflows_step s (Search_typed q) = (if search_shown s then s\<lparr>wl_q := q\<rparr> else s, [])"
| "workflows_step s (Sort_chosen order) =
     (if search_shown s \<and> order \<in> fst ` set sort_options then s\<lparr>wl_sort := order\<rparr> else s, [])"
| "workflows_step s More_pressed =
     (if li_next (shown_list s) = None \<or> li_fetching_more (shown_list s) then (s, [])
      else (s\<lparr>wl_lists := (wl_lists s)((wl_q s, wl_sort s) := (shown_list s)\<lparr>li_fetching_more := True\<rparr>)\<rparr>,
        [Load_more (wl_q s, wl_sort s) (li_next (shown_list s))]))"
| "workflows_step s New_pressed = (open_with New_dialog s, [])"
| "workflows_step s (Action_chosen action workflow) =
     (if workflow \<in> set (shown_workflows s) \<and> action \<in> set (row_actions workflow) then act_on action workflow s else (s, []))"
| "workflows_step s Dialog_closed = (s\<lparr>wl_dialog := No_dialog\<rparr>, [])"
| "workflows_step s (Dialog_name_typed name) = (s\<lparr>wl_name := name\<rparr>, [])"
| "workflows_step s Name_submitted = submit_name s"
| "workflows_step s Delete_confirmed =
     (case wl_dialog s of
        Delete_dialog workflow \<Rightarrow>
          if pending (wl_remove s) then (s, [])
          else (s\<lparr>wl_remove := Asked (ws_id workflow)\<rparr>, [Delete_workflow (ws_id workflow)])
      | _ \<Rightarrow> (s, []))"
| "workflows_step s (Create_answered answer) =
     (case (wl_create s, answer) of
        (Asked _, Inl error) \<Rightarrow> (s\<lparr>wl_create := Refused error\<rparr>, [])
      | (Asked _, Inr ident) \<Rightarrow> (s\<lparr>wl_create := Settling, wl_dialog := No_dialog\<rparr>, [Refresh_lists (After_create ident)])
      | _ \<Rightarrow> (s, []))"
| "workflows_step s (Rename_answered answer) =
     (case (wl_rename s, answer) of
        (Asked _, Some error) \<Rightarrow> (s\<lparr>wl_rename := Refused error\<rparr>, [])
      | (Asked _, None) \<Rightarrow> (s\<lparr>wl_rename := Settling, wl_dialog := No_dialog\<rparr>, [Refresh_lists After_rename])
      | _ \<Rightarrow> (s, []))"
| "workflows_step s (Duplicate_answered answer) =
     (case (wl_duplicate s, answer) of
        (Asked _, Some error) \<Rightarrow> (s\<lparr>wl_duplicate := Refused error\<rparr>, [])
      | (Asked _, None) \<Rightarrow> (s\<lparr>wl_duplicate := Settling\<rparr>, [Refresh_lists After_duplicate])
      | _ \<Rightarrow> (s, []))"
| "workflows_step s (Remove_answered answer) =
     (case (wl_remove s, answer) of
        (Asked _, Some error) \<Rightarrow> (s\<lparr>wl_remove := Refused error\<rparr>, [])
      | (Asked _, None) \<Rightarrow> (s\<lparr>wl_remove := Settling, wl_dialog := No_dialog\<rparr>, [Refresh_lists After_remove])
      | _ \<Rightarrow> (s, []))"
| "workflows_step s (Lists_refreshed purpose) =
     (case purpose of
        After_create ident \<Rightarrow>
          if wl_create s = Settling then (s\<lparr>wl_create := Idle\<rparr>, [Push (tab_path ident editor_tab)]) else (s, [])
      | After_rename \<Rightarrow> (s\<lparr>wl_rename := settled (wl_rename s)\<rparr>, [])
      | After_duplicate \<Rightarrow> (s\<lparr>wl_duplicate := settled (wl_duplicate s)\<rparr>, [])
      | After_remove \<Rightarrow> (s\<lparr>wl_remove := settled (wl_remove s)\<rparr>, []))"
| "workflows_step s (Version_answered ident answer) = start_effects (version_answered ident answer (wl_start s)) s"
| "workflows_step s (Grid_submitted row) =
     (case sx_dialog (wl_start s) of
        None \<Rightarrow> (s, [])
      | Some (ident, variables) \<Rightarrow>
          if wl_starting s then (s, []) else start_effects (start_from_grid ident variables row (wl_start s)) s)"
| "workflows_step s (Run_answered answer) = start_effects (run_answered answer (wl_start s)) (s\<lparr>wl_starting := False\<rparr>)"
| "workflows_step s Start_closed = (s\<lparr>wl_start := close_dialog (wl_start s)\<rparr>, [])"

section \<open>The frame of a Workflow\<close>

text \<open>The comparison with the published Version is loaded when the dialog is opened; one that was loaded before is
  shown until then.\<close>

record workflow_frame =
  wf_workflow :: "workflow_summary option"
  wf_error :: "js option"
  wf_viewing :: "int option"
  wf_renaming :: bool
  wf_name :: string
  wf_deleting :: bool
  wf_publishing :: bool
  wf_comparison :: "draft_comparison option"
  wf_diff_error :: "js option"
  wf_rename :: "string mutation"
  wf_duplicate :: "unit mutation"
  wf_publish :: "unit mutation"
  wf_remove :: "unit mutation"
  wf_start :: "js start_state"
  wf_starting :: bool

definition opened_frame :: "int option \<Rightarrow> workflow_frame" where
  "opened_frame viewing =
     \<lparr>wf_workflow = None, wf_error = None, wf_viewing = viewing, wf_renaming = False, wf_name = [], wf_deleting = False,
      wf_publishing = False, wf_comparison = None, wf_diff_error = None, wf_rename = Idle, wf_duplicate = Idle, wf_publish = Idle,
      wf_remove = Idle, wf_start = \<lparr>sx_dialog = None, sx_refusal = None, sx_error = None\<rparr>, wf_starting = False\<rparr>"

datatype frame_effect =
    Load_comparison
  | Publish_version
  | Refresh_published
  | Ask_rename string
  | Refresh_renamed
  | Ask_duplicate
  | Refresh_copied string
  | Remove_workflow
  | Refresh_removed
  | Ask_version string int
  | Ask_frame_run string "string \<rightharpoonup> string"
  | Leave_to string

datatype frame_event =
    Workflow_answered "js + workflow_summary"
  | Comparison_answered "js + draft_comparison"
  | Frame_action workflow_action
  | Publish_opened
  | Publish_closed
  | Publish_confirmed
  | Publish_answered "js option"
  | Published_refreshed
  | Frame_name_typed string
  | Frame_name_submitted
  | Renaming_closed
  | Frame_rename_answered "js option"
  | Renamed_refreshed
  | Frame_duplicate_answered "js + string"
  | Copied_refreshed string
  | Removal_closed
  | Removal_confirmed
  | Removal_answered "js option"
  | Removal_refreshed
  | Frame_version_answered string "js + variable list"
  | Frame_grid_submitted grid_row
  | Frame_run_answered "js + string"
  | Frame_start_closed

definition frame_draft_state :: "workflow_frame \<Rightarrow> draft_state" where
  "frame_draft_state s = (case wf_workflow s of None \<Rightarrow> Never_published | Some workflow \<Rightarrow> ws_draft_state workflow)"

definition frame_name :: "workflow_frame \<Rightarrow> string" where
  "frame_name s = (case wf_workflow s of None \<Rightarrow> [] | Some workflow \<Rightarrow> ws_name workflow)"

definition publish_refusal :: "workflow_frame \<Rightarrow> string option" where
  "publish_refusal s =
     (if wf_viewing s = None then None else Some ''Publishing publishes the Draft. Open the Draft to publish it.'')"

definition shown_plan :: "workflow_frame \<Rightarrow> publish_plan option" where
  "shown_plan s = (if wf_publishing s then map_option publish_plan_of (wf_comparison s) else None)"

definition frame_start_effects :: "start_effect \<times> js start_state \<Rightarrow> workflow_frame \<Rightarrow> workflow_frame \<times> frame_effect list" where
  "frame_start_effects answer s =
     (case fst answer of
        No_effect \<Rightarrow> (s\<lparr>wf_start := snd answer\<rparr>, [])
      | Start_run ident variables \<Rightarrow> (s\<lparr>wf_start := snd answer, wf_starting := True\<rparr>, [Ask_frame_run ident variables])
      | Go_to path \<Rightarrow> (s\<lparr>wf_start := snd answer\<rparr>, [Leave_to path]))"

definition frame_act :: "string \<Rightarrow> workflow_action \<Rightarrow> workflow_frame \<Rightarrow> workflow_frame \<times> frame_effect list" where
  "frame_act ident action s =
     (if wa_key action = ''rename'' then (s\<lparr>wf_renaming := True, wf_name := frame_name s\<rparr>, [])
      else if wa_key action = ''delete'' then (s\<lparr>wf_deleting := True\<rparr>, [])
      else if wa_key action = ''duplicate'' then (s\<lparr>wf_duplicate := Asked ()\<rparr>, [Ask_duplicate])
      else if wa_key action = ''new-batch'' then (s, [Leave_to (new_batch_path ident)])
      else if wa_key action = ''new-schedule'' then (s, [Leave_to (new_schedule_path ident)])
      else if wa_key action = ''run'' then
        (case wf_workflow s of
           None \<Rightarrow> (s, [])
         | Some workflow \<Rightarrow>
             (case ws_published_version workflow of
                None \<Rightarrow> (s, [])
              | Some n \<Rightarrow> (s\<lparr>wf_start := snd (begin_run (Some n) (wf_start s))\<rparr>, [Ask_version (ws_id workflow) n])))
      else (s, []))"

text \<open>While the dialog that renames is open, its text is set anew when the name of the Workflow changes.\<close>

definition workflow_answered :: "js + workflow_summary \<Rightarrow> workflow_frame \<Rightarrow> workflow_frame" where
  "workflow_answered answer s =
     (case answer of
        Inl error \<Rightarrow> s\<lparr>wf_error := Some error\<rparr>
      | Inr workflow \<Rightarrow>
          s\<lparr>wf_workflow := Some workflow, wf_error := None,
            wf_name := (if wf_renaming s \<and> ws_name workflow \<noteq> frame_name s then ws_name workflow else wf_name s)\<rparr>)"

fun frame_step :: "string \<Rightarrow> workflow_frame \<Rightarrow> frame_event \<Rightarrow> workflow_frame \<times> frame_effect list" where
  "frame_step ident s (Workflow_answered answer) = (workflow_answered answer s, [])"
| "frame_step ident s (Comparison_answered answer) =
     (case answer of
        Inl error \<Rightarrow> (s\<lparr>wf_diff_error := Some error\<rparr>, [])
      | Inr comparison \<Rightarrow> (s\<lparr>wf_comparison := Some comparison, wf_diff_error := None\<rparr>, []))"
| "frame_step ident s (Frame_action action) =
     (if action \<in> set (run_action # overflow_actions) \<and> disabled_reason action (frame_draft_state s) = None
      then frame_act ident action s else (s, []))"
| "frame_step ident s Publish_opened =
     (if publish_refusal s \<noteq> None then (s, []) else (s\<lparr>wf_publishing := True\<rparr>, [Load_comparison]))"
| "frame_step ident s Publish_closed = (s\<lparr>wf_publishing := False\<rparr>, [])"
| "frame_step ident s Publish_confirmed =
     (case shown_plan s of
        None \<Rightarrow> (s, [])
      | Some plan \<Rightarrow>
          if pending (wf_publish s) \<or> \<not> pp_worth_publishing plan then (s, [])
          else (s\<lparr>wf_publish := Asked ()\<rparr>, [Publish_version]))"
| "frame_step ident s (Publish_answered answer) =
     (case (wf_publish s, answer) of
        (Asked _, Some error) \<Rightarrow> (s\<lparr>wf_publish := Refused error\<rparr>, [])
      | (Asked _, None) \<Rightarrow> (s\<lparr>wf_publish := Settling, wf_publishing := False\<rparr>, [Refresh_published])
      | _ \<Rightarrow> (s, []))"
| "frame_step ident s Published_refreshed = (s\<lparr>wf_publish := settled (wf_publish s)\<rparr>, [])"
| "frame_step ident s (Frame_name_typed name) = (s\<lparr>wf_name := name\<rparr>, [])"
| "frame_step ident s Frame_name_submitted =
     (if \<not> wf_renaming s \<or> pending (wf_rename s) \<or> trim (wf_name s) = [] then (s, [])
      else (s\<lparr>wf_rename := Asked (trim (wf_name s))\<rparr>, [Ask_rename (trim (wf_name s))]))"
| "frame_step ident s Renaming_closed = (s\<lparr>wf_renaming := False\<rparr>, [])"
| "frame_step ident s (Frame_rename_answered answer) =
     (case (wf_rename s, answer) of
        (Asked _, Some error) \<Rightarrow> (s\<lparr>wf_rename := Refused error\<rparr>, [])
      | (Asked _, None) \<Rightarrow> (s\<lparr>wf_rename := Settling, wf_renaming := False\<rparr>, [Refresh_renamed])
      | _ \<Rightarrow> (s, []))"
| "frame_step ident s Renamed_refreshed = (s\<lparr>wf_rename := settled (wf_rename s)\<rparr>, [])"
| "frame_step ident s (Frame_duplicate_answered answer) =
     (case (wf_duplicate s, answer) of
        (Asked _, Inl error) \<Rightarrow> (s\<lparr>wf_duplicate := Refused error\<rparr>, [])
      | (Asked _, Inr copy) \<Rightarrow> (s\<lparr>wf_duplicate := Settling\<rparr>, [Refresh_copied copy])
      | _ \<Rightarrow> (s, []))"
| "frame_step ident s (Copied_refreshed copy) =
     (if wf_duplicate s = Settling then (s\<lparr>wf_duplicate := Idle\<rparr>, [Leave_to (tab_path copy editor_tab)]) else (s, []))"
| "frame_step ident s Removal_closed = (s\<lparr>wf_deleting := False\<rparr>, [])"
| "frame_step ident s Removal_confirmed =
     (if \<not> wf_deleting s \<or> wf_workflow s = None \<or> pending (wf_remove s) then (s, [])
      else (s\<lparr>wf_remove := Asked ()\<rparr>, [Remove_workflow]))"
| "frame_step ident s (Removal_answered answer) =
     (case (wf_remove s, answer) of
        (Asked _, Some error) \<Rightarrow> (s\<lparr>wf_remove := Refused error\<rparr>, [])
      | (Asked _, None) \<Rightarrow> (s\<lparr>wf_remove := Settling, wf_deleting := False\<rparr>, [Refresh_removed])
      | _ \<Rightarrow> (s, []))"
| "frame_step ident s Removal_refreshed =
     (if wf_remove s = Settling then (s\<lparr>wf_remove := Idle\<rparr>, [Leave_to ''/workflows'']) else (s, []))"
| "frame_step ident s (Frame_version_answered workflow answer) =
     frame_start_effects (version_answered workflow answer (wf_start s)) s"
| "frame_step ident s (Frame_grid_submitted row) =
     (case sx_dialog (wf_start s) of
        None \<Rightarrow> (s, [])
      | Some (workflow, variables) \<Rightarrow>
          if wf_starting s then (s, [])
          else frame_start_effects (start_from_grid workflow variables row (wf_start s)) s)"
| "frame_step ident s (Frame_run_answered answer) =
     frame_start_effects (run_answered answer (wf_start s)) (s\<lparr>wf_starting := False\<rparr>)"
| "frame_step ident s Frame_start_closed = (s\<lparr>wf_start := close_dialog (wf_start s)\<rparr>, [])"

definition frame_refusal :: "workflow_frame \<Rightarrow> string option" where
  "frame_refusal s =
     map_option workflow_refusal
       (first_some [wf_error s, refused_with (wf_duplicate s), refused_with (wf_remove s), shown_refusal (wf_start s)])"

definition publish_dialog_refusal :: "workflow_frame \<Rightarrow> string option" where
  "publish_dialog_refusal s = map_option workflow_refusal (first_some [wf_diff_error s, refused_with (wf_publish s)])"

section \<open>What is asked of the API\<close>

lemma row_actions_keys:
  "action \<in> set (row_actions workflow) \<longleftrightarrow>
     action \<in> set (run_action # overflow_actions)
       \<and> (wa_needs_a_version action \<longrightarrow> ws_draft_state workflow \<noteq> Never_published)"
  by (auto simp: row_actions_def disabled_reason_def refusal_to_run_def)

text \<open>The actions that need a Version are the ones that start something.\<close>

lemma needs_a_version_iff:
  assumes "action \<in> set (run_action # overflow_actions)"
  shows "wa_needs_a_version action \<longleftrightarrow> wa_key action \<in> {''run'', ''new-batch'', ''new-schedule''}"
  using assms by (auto simp: run_action_def overflow_actions_def new_batch_action_def new_schedule_action_def)

lemma start_effects_only: "snd (start_effects answer s) \<in> {[]} \<union> range (\<lambda>(i, v). [Ask_run i v]) \<union> range (\<lambda>p. [Push p])"
  by (auto simp: start_effects_def split: start_effect.splits)

lemma act_on_effects:
  "snd (act_on action workflow s) \<in>
     {[], [Duplicate_workflow (ws_id workflow)], [Push (new_batch_path (ws_id workflow))], [Push (new_schedule_path (ws_id workflow))]}
       \<union> (\<lambda>n. [Load_version (ws_id workflow) n]) ` set_option (ws_published_version workflow)"
  by (auto simp: act_on_def split: option.splits)

lemma act_on_dialog:
  "wl_dialog (fst (act_on action workflow s)) =
     (if wa_key action = ''rename'' then Rename_dialog workflow
      else if wa_key action = ''delete'' then Delete_dialog workflow else wl_dialog s)"
  by (auto simp: act_on_def open_with_def split: option.splits)

lemma start_effects_dialog [simp]: "wl_dialog (fst (start_effects answer s)) = wl_dialog s"
  by (simp add: start_effects_def split: start_effect.splits)

lemma start_effects_requests [simp]:
  "Create_workflow n \<notin> set (snd (start_effects answer s))" "Rename_workflow i n \<notin> set (snd (start_effects answer s))"
  "Delete_workflow i \<notin> set (snd (start_effects answer s))" "Load_version i v \<notin> set (snd (start_effects answer s))"
  by (simp_all add: start_effects_def split: start_effect.splits)

lemma act_on_requests [simp]:
  "Create_workflow n \<notin> set (snd (act_on action w s))" "Rename_workflow i n \<notin> set (snd (act_on action w s))"
  "Delete_workflow i \<notin> set (snd (act_on action w s))"
  by (simp_all add: act_on_def split: option.splits)

lemma delete_asked_only:
  assumes "Delete_workflow i \<in> set (snd (workflows_step s ev))"
  shows "ev = Delete_confirmed \<and> (\<exists>w. wl_dialog s = Delete_dialog w \<and> ws_id w = i)"
  using assms
  by (cases "(s, ev)" rule: workflows_step.cases)
    (auto simp: submit_name_def Let_def split: if_splits open_dialog.splits mutation.splits sum.splits option.splits refresh_after.splits)

lemma delete_dialog_opened:
  assumes "wl_dialog (fst (workflows_step s ev)) = Delete_dialog w"
  shows "(wl_dialog s = Delete_dialog w \<and> ev \<noteq> Dialog_closed)
      \<or> (\<exists>action. ev = Action_chosen action w \<and> wa_key action = ''delete'' \<and> w \<in> set (shown_workflows s))"
  using assms
  by (cases "(s, ev)" rule: workflows_step.cases)
    (auto simp: submit_name_def Let_def act_on_dialog open_with_def
      split: if_splits open_dialog.splits mutation.splits sum.splits option.splits refresh_after.splits)

definition workflows_after :: "workflows_event list \<Rightarrow> workflows_page" where
  "workflows_after evs = fold (\<lambda>ev s. fst (workflows_step s ev)) evs opened_workflows"

lemma delete_dialog_chosen:
  assumes "wl_dialog (workflows_after evs) = Delete_dialog w"
  shows "\<exists>earlier action later. evs = earlier @ Action_chosen action w # later \<and> wa_key action = ''delete''
           \<and> w \<in> set (shown_workflows (workflows_after earlier)) \<and> Dialog_closed \<notin> set later"
  using assms
proof (induction evs rule: rev_induct)
  case Nil
  then show ?case by (simp add: workflows_after_def opened_workflows_def)
next
  case (snoc ev evs)
  have "wl_dialog (fst (workflows_step (workflows_after evs) ev)) = Delete_dialog w"
    using snoc.prems by (simp add: workflows_after_def)
  from delete_dialog_opened [OF this] show ?case
  proof
    assume "wl_dialog (workflows_after evs) = Delete_dialog w \<and> ev \<noteq> Dialog_closed"
    then obtain earlier action later where "evs = earlier @ Action_chosen action w # later" "wa_key action = ''delete''"
      "w \<in> set (shown_workflows (workflows_after earlier))" "Dialog_closed \<notin> set (later @ [ev])"
      using snoc.IH by auto
    then show ?thesis by (metis append_Cons append_assoc)
  qed (metis append_Nil2 list.set(1) empty_iff)
qed

text \<open>A Workflow is deleted from the list only by confirming the dialog that names it: at some moment before, the
  action Delete was chosen on its row while the row was in the list, and the dialog was not closed since.\<close>

theorem deletion_is_confirmed:
  assumes "Delete_workflow i \<in> set (snd (workflows_step (workflows_after evs) ev))"
  shows "ev = Delete_confirmed \<and>
    (\<exists>earlier action w later. evs = earlier @ Action_chosen action w # later \<and> wa_key action = ''delete'' \<and> ws_id w = i
       \<and> w \<in> set (shown_workflows (workflows_after earlier)) \<and> Dialog_closed \<notin> set later)"
proof -
  obtain w where "ev = Delete_confirmed" "wl_dialog (workflows_after evs) = Delete_dialog w" "ws_id w = i"
    using delete_asked_only [OF assms] by blast
  with delete_dialog_chosen show ?thesis by blast
qed

lemma act_on_loads:
  assumes "Load_version i n \<in> set (snd (act_on action w s))"
  shows "wa_key action = ''run'' \<and> i = ws_id w \<and> ws_published_version w = Some n"
  using assms by (auto simp: act_on_def split: if_splits option.splits)

lemma loads_offered:
  assumes "Load_version i n \<in> set (snd (workflows_step s ev))"
  shows "\<exists>w \<in> set (shown_workflows s). ws_id w = i \<and> ws_published_version w = Some n \<and> ws_draft_state w \<noteq> Never_published"
proof -
  obtain action w where chosen: "ev = Action_chosen action w" "w \<in> set (shown_workflows s)" "action \<in> set (row_actions w)"
    and loads: "Load_version i n \<in> set (snd (act_on action w s))"
    using assms
    by (cases "(s, ev)" rule: workflows_step.cases)
      (auto simp: submit_name_def Let_def split: if_splits open_dialog.splits mutation.splits sum.splits option.splits refresh_after.splits)
  from chosen(3) act_on_loads [OF loads] have "ws_draft_state w \<noteq> Never_published"
    using needs_a_version_iff [of action] unfolding row_actions_keys by auto
  with chosen(2) act_on_loads [OF loads] show ?thesis by auto
qed

lemma names_submitted:
  "Create_workflow n \<in> set (snd (workflows_step s ev)) \<Longrightarrow> n \<noteq> [] \<and> n = trim (wl_name s) \<and> wl_dialog s = New_dialog"
  "Rename_workflow i n \<in> set (snd (workflows_step s ev)) \<Longrightarrow>
     n \<noteq> [] \<and> n = trim (wl_name s) \<and> (\<exists>w. wl_dialog s = Rename_dialog w \<and> ws_id w = i)"
  by (cases "(s, ev)" rule: workflows_step.cases;
      auto simp: submit_name_def Let_def split: if_splits open_dialog.splits mutation.splits sum.splits option.splits refresh_after.splits)+

text \<open>What a name asks for is trimmed and not empty, and what starts from a row needs a published Version: the page
  asks for the Version that the row shows, of a Workflow that is not one that was never published.\<close>

theorem list_asks_what_is_offered:
  assumes "asked \<in> set (snd (workflows_step s ev))"
  shows "(\<forall>name. asked = Create_workflow name \<longrightarrow> name \<noteq> [] \<and> name = trim (wl_name s) \<and> wl_dialog s = New_dialog)
    \<and> (\<forall>i name. asked = Rename_workflow i name \<longrightarrow>
         name \<noteq> [] \<and> name = trim (wl_name s) \<and> (\<exists>w. wl_dialog s = Rename_dialog w \<and> ws_id w = i))
    \<and> (\<forall>i n. asked = Load_version i n \<longrightarrow>
         (\<exists>w \<in> set (shown_workflows s). ws_id w = i \<and> ws_published_version w = Some n \<and> ws_draft_state w \<noteq> Never_published))"
  using assms names_submitted loads_offered by blast

definition invoices_row :: workflow_summary where
  "invoices_row =
     \<lparr>ws_id = ''w1'', ws_name = ''Invoices'', ws_draft_state = In_sync, ws_published_version = Some 2, ws_schedule_count = Some 0,
      ws_schedule_label = None, ws_run_count = Some 3\<rparr>"

definition listed_invoices :: "workflows_event list" where
  "listed_invoices = [List_answered ([], ''activity'') (Inr ([invoices_row], None))]"

definition delete_action :: workflow_action where
  "delete_action = overflow_actions ! 4"

lemma sample_actions:
  "delete_action \<in> set (row_actions invoices_row)" "run_action \<in> set (row_actions invoices_row)" "wa_key delete_action = ''delete''"
  by (simp_all add: row_actions_keys delete_action_def overflow_actions_def invoices_row_def)

lemma sample_listed: "shown_workflows (workflows_after listed_invoices) = [invoices_row]"
  by (simp add: workflows_after_def listed_invoices_def shown_workflows_def shown_list_def opened_workflows_def listing_def)

lemma sample_confirms:
  "Delete_workflow ''w1'' \<in> set (snd (workflows_step
     (workflows_after (listed_invoices @ [Action_chosen delete_action invoices_row])) Delete_confirmed))"
  using sample_actions
  by (simp add: workflows_after_def listed_invoices_def shown_workflows_def shown_list_def opened_workflows_def listing_def
      act_on_def open_with_def, simp add: invoices_row_def)

theorem deletion_is_confirmed_witness:
  "\<exists>earlier action w later. listed_invoices @ [Action_chosen delete_action invoices_row] = earlier @ Action_chosen action w # later
     \<and> wa_key action = ''delete'' \<and> ws_id w = ''w1'' \<and> w \<in> set (shown_workflows (workflows_after earlier))
     \<and> Dialog_closed \<notin> set later"
  using deletion_is_confirmed [OF sample_confirms] by blast

lemma sample_runs:
  "Load_version ''w1'' 2 \<in> set (snd (workflows_step (workflows_after listed_invoices) (Action_chosen run_action invoices_row)))"
  using sample_actions sample_listed
  by (simp add: act_on_def, simp add: invoices_row_def run_action_def)

theorem list_asks_what_is_offered_witness:
  "\<exists>w \<in> set (shown_workflows (workflows_after listed_invoices)).
     ws_id w = ''w1'' \<and> ws_published_version w = Some 2 \<and> ws_draft_state w \<noteq> Never_published"
  using list_asks_what_is_offered [OF sample_runs] by blast

section \<open>What the list tells\<close>

text \<open>While a search is loading the page says that nothing matches it, whatever the search finds when it is answered;
  and a list that could not be loaded is shown as if no Workflow had been made.\<close>

theorem search_denies_before_it_knows:
  assumes "search_shown s" and "q \<noteq> []" and "wl_lists s (q, wl_sort s) = not_listed" and "rows \<noteq> []"
  shows "body_of (fst (workflows_step s (Search_typed q))) = No_match q
    \<and> body_of (fst (workflows_step (fst (workflows_step s (Search_typed q))) (List_answered (q, wl_sort s) (Inr (rows, cursor)))))
           = Workflow_rows rows
    \<and> body_of (fst (workflows_step opened_workflows (List_answered ([], ''activity'') (Inl error)))) = First_run_panel"
  using assms
  by (simp_all add: body_of_def shown_workflows_def shown_list_def searches_def not_listed_def listing_def
      list_pending_def opened_workflows_def)

theorem search_denies_before_it_knows_witness:
  "body_of (fst (workflows_step (opened_workflows\<lparr>wl_q := ''inv''\<rparr>) (Search_typed ''invoice''))) = No_match ''invoice''"
proof -
  have "search_shown (opened_workflows\<lparr>wl_q := ''inv''\<rparr>)"
    by (simp add: search_shown_def searches_def offers_search_and_sort_def)
  then show ?thesis
    using search_denies_before_it_knows [of "opened_workflows\<lparr>wl_q := ''inv''\<rparr>" "''invoice''" "[invoices_row]"]
    by (simp add: opened_workflows_def)
qed

text \<open>A refusal outlives its dialog: when the deletion of one Workflow was refused and its dialog closed, the dialog
  that asks about another one opens with the refusal of the first.\<close>

theorem refusal_meets_the_next_workflow:
  assumes "wl_dialog s = Delete_dialog w" and "\<not> pending (wl_remove s)"
    and "w' \<in> set (shown_workflows s)" and "action \<in> set (row_actions w')" and "wa_key action = ''delete''"
  shows "let s' = fold (\<lambda>ev s. fst (workflows_step s ev))
                    [Delete_confirmed, Remove_answered (Some error), Dialog_closed, Action_chosen action w'] s
         in wl_dialog s' = Delete_dialog w' \<and> dialog_refusal s' = Some (workflow_refusal error)"
  using assms
  by (simp add: Let_def act_on_def open_with_def dialog_refusal_def shown_workflows_def shown_list_def)

theorem refusal_meets_the_next_workflow_witness:
  "let s' = fold (\<lambda>ev s. fst (workflows_step s ev))
              [Delete_confirmed, Remove_answered (Some (Obj [(''code'', Str ''run_active'')])), Dialog_closed,
               Action_chosen delete_action invoices_row]
              (open_with (Delete_dialog (invoices_row\<lparr>ws_id := ''w0''\<rparr>)) (workflows_after listed_invoices))
   in wl_dialog s' = Delete_dialog invoices_row
     \<and> dialog_refusal s' = Some (workflow_refusal (Obj [(''code'', Str ''run_active'')]))"
proof (rule refusal_meets_the_next_workflow [of _ "invoices_row\<lparr>ws_id := ''w0''\<rparr>"])
  let ?s = "open_with (Delete_dialog (invoices_row\<lparr>ws_id := ''w0''\<rparr>)) (workflows_after listed_invoices)"
  show "wl_dialog ?s = Delete_dialog (invoices_row\<lparr>ws_id := ''w0''\<rparr>)" by (simp add: open_with_def)
  show "\<not> pending (wl_remove ?s)"
    by (simp add: open_with_def workflows_after_def listed_invoices_def opened_workflows_def)
  show "invoices_row \<in> set (shown_workflows ?s)"
    using sample_listed by (simp add: open_with_def shown_workflows_def shown_list_def)
qed (simp_all add: sample_actions)

section \<open>The frame\<close>

text \<open>The dialog that publishes can be confirmed on a comparison loaded at an earlier time, before the new one arrives:
  what is published is the Draft as it is now.\<close>

theorem publishing_on_an_older_comparison:
  assumes "wf_viewing s = None" and "wf_comparison s = Some comparison"
    and "pp_worth_publishing (publish_plan_of comparison)" and "\<not> pending (wf_publish s)"
  shows "snd (frame_step ident s Publish_opened) = [Load_comparison]
    \<and> snd (frame_step ident (fst (frame_step ident s Publish_opened)) Publish_confirmed) = [Publish_version]"
  using assms by (simp_all add: publish_refusal_def shown_plan_def)

definition sample_frame :: workflow_frame where
  "sample_frame =
     (opened_frame None)\<lparr>wf_workflow := Some invoices_row,
       wf_comparison := Some \<lparr>dc_added = [], dc_changed = [], dc_removed = [], dc_state = Unpublished_changes,
         dc_latest_version = Some 2, dc_stranded_schedules = []\<rparr>\<rparr>"

lemma sample_frame_publishes:
  "wf_viewing sample_frame = None" "\<not> pending (wf_publish sample_frame)"
  "pp_worth_publishing (publish_plan_of (the (wf_comparison sample_frame)))"
  by (simp_all add: sample_frame_def opened_frame_def publish_plan_of_def)

theorem publishing_on_an_older_comparison_witness:
  "snd (frame_step ''w1'' (fst (frame_step ''w1'' sample_frame Publish_opened)) Publish_confirmed) = [Publish_version]"
proof -
  have "wf_comparison sample_frame = Some (the (wf_comparison sample_frame))" by (simp add: sample_frame_def)
  with sample_frame_publishes publishing_on_an_older_comparison [of sample_frame] show ?thesis by blast
qed

text \<open>The frame publishes only the Draft and only what its dialog shows as worth it, renames to a name that is trimmed
  and not empty, and loads and removes only what it has loaded.\<close>

theorem frame_asks_what_is_offered:
  assumes "asked \<in> set (snd (frame_step ident s ev))"
  shows "(asked = Publish_version \<longrightarrow> (\<exists>plan. shown_plan s = Some plan \<and> pp_worth_publishing plan))
    \<and> (asked = Load_comparison \<longrightarrow> wf_viewing s = None)
    \<and> (\<forall>name. asked = Ask_rename name \<longrightarrow> name \<noteq> [] \<and> name = trim (wf_name s))
    \<and> (asked = Remove_workflow \<longrightarrow> wf_deleting s \<and> wf_workflow s \<noteq> None)
    \<and> (\<forall>i n. asked = Ask_version i n \<longrightarrow>
         (\<exists>w. wf_workflow s = Some w \<and> ws_id w = i \<and> ws_published_version w = Some n \<and> ws_draft_state w \<noteq> Never_published))"
  using assms
  by (cases "(ident, s, ev)" rule: frame_step.cases)
    (auto simp: frame_act_def publish_refusal_def frame_start_effects_def disabled_reason_def refusal_to_run_def frame_draft_state_def
        run_action_def overflow_actions_def new_batch_action_def new_schedule_action_def
      split: if_splits mutation.splits sum.splits option.splits start_effect.splits)

lemma sample_frame_asks: "Publish_version \<in> set (snd (frame_step ''w1'' (sample_frame\<lparr>wf_publishing := True\<rparr>) Publish_confirmed))"
  using sample_frame_publishes by (simp add: shown_plan_def, simp add: sample_frame_def opened_frame_def)

theorem frame_asks_what_is_offered_witness:
  "\<exists>plan. shown_plan (sample_frame\<lparr>wf_publishing := True\<rparr>) = Some plan \<and> pp_worth_publishing plan"
  using frame_asks_what_is_offered [OF sample_frame_asks] by blast

text \<open>A name that is being typed into the dialog of the frame is lost when the Workflow is loaded again and was renamed
  meanwhile.\<close>

theorem renamed_elsewhere_replaces_what_is_typed:
  assumes "wf_renaming s" and "ws_name w \<noteq> frame_name s"
  shows "wf_name (fst (frame_step ident (fst (frame_step ident s (Frame_name_typed typed))) (Workflow_answered (Inr w)))) = ws_name w"
  using assms by (simp add: workflow_answered_def frame_name_def)

theorem renamed_elsewhere_replaces_what_is_typed_witness:
  "wf_name (fst (frame_step ''w1''
     (fst (frame_step ''w1'' (sample_frame\<lparr>wf_renaming := True\<rparr>) (Frame_name_typed ''Invoices 2026'')))
     (Workflow_answered (Inr (invoices_row\<lparr>ws_name := ''Bills''\<rparr>))))) = ''Bills''"
  using renamed_elsewhere_replaces_what_is_typed [of "sample_frame\<lparr>wf_renaming := True\<rparr>" "invoices_row\<lparr>ws_name := ''Bills''\<rparr>"]
  by (simp add: frame_name_def sample_frame_def invoices_row_def)

end
