(* ===== verification/Organization.thy ===== *)
theory Organization
  imports ApiTypes Mutations Gate
begin

text \<open>
  The settings of an Organization and of an account: \<open>app/(shell)/settings/organization\<close> (its name, its owner, its
  members, its invitations, its end), \<open>settings/account\<close> and \<open>settings/sections.ts\<close>. The rules by which the
  API changes Memberships (\<open>accounts/members.py\<close>, \<open>orgs.py\<close>, \<open>invitations.py\<close>, \<open>deletion.py\<close>) are
  modelled as well, as what the controls of the pages are measured against.
\<close>

section \<open>Refusals\<close>

definition unknown_settings_refusal :: string where
  "unknown_settings_refusal = ''Something went wrong. Try again in a moment.''"

definition organization_refusals :: "(js \<times> string) list" where
  "organization_refusals =
     [(Str ''not_a_member'', ''You are no longer a member of that Organization.''),
      (Str ''not_an_admin'', ''Only an owner or an admin can do that.''),
      (Str ''not_the_owner'', ''Only the owner can hand the Organization on.''),
      (Str ''is_owner'', ''The owner's place cannot be changed or ended. Hand it on first.''),
      (Str ''member_not_found'', ''That person is no longer in this Organization.''),
      (Str ''confirmation_mismatch'', ''That is not this Organization's name.'')]"

definition organization_refusal :: "js \<Rightarrow> string" where
  "organization_refusal = refusal_from organization_refusals unknown_settings_refusal"

definition invitation_refusals :: "(js \<times> string) list" where
  "invitation_refusals =
     [(Str ''already_member'', ''That address is already in this Organization.''),
      (Str ''already_invited'', ''That address already has an Invitation standing. Revoke it before inviting them again.''),
      (Str ''not_an_admin'', ''Only an owner or an admin can manage Invitations.''),
      (Str ''not_a_member'', ''You are no longer a member of that Organization.''),
      (Str ''invitation_not_found'', ''That Invitation is no longer standing. It was revoked, taken, or it expired.'')]"

definition invitation_refusal :: "js \<Rightarrow> string" where
  "invitation_refusal = refusal_from invitation_refusals unknown_settings_refusal"

definition account_refusals :: "(js \<times> string) list" where
  "account_refusals =
     [(Str ''sole_owner'', ''You still own an Organization. Hand it on to somebody else, or delete it, and then this account can go.''),
      (Str ''confirmation_mismatch'', ''That is not this account's email address.'')]"

definition account_refusal :: "js \<Rightarrow> string" where
  "account_refusal = refusal_from account_refusals unknown_settings_refusal"

section \<open>What a role may do\<close>

definition may_rename :: "role \<Rightarrow> bool" where
  "may_rename viewer_role \<longleftrightarrow> viewer_role \<noteq> Member_role"

definition may_end :: "role \<Rightarrow> bool" where
  "may_end viewer_role \<longleftrightarrow> viewer_role = Owner"

definition name_confirms :: "string \<Rightarrow> string \<Rightarrow> bool" where
  "name_confirms typed name \<longleftrightarrow> trim typed = trim name"

definition ending_consequence :: "string \<Rightarrow> string" where
  "ending_consequence org_name =
     ''Everything in '' @ org_name @ '' goes with it: every Workflow and Run, every pending Invitation, and everybody's Membership. The people keep their accounts and their other Organizations. This cannot be undone.''"

record member_controls =
  mc_change_role :: bool
  mc_remove :: bool
  mc_leave :: bool
  mc_make_owner :: bool

definition no_controls :: member_controls where
  "no_controls = \<lparr>mc_change_role = False, mc_remove = False, mc_leave = False, mc_make_owner = False\<rparr>"

definition member_controls_of :: "role \<Rightarrow> string \<Rightarrow> member \<Rightarrow> member_controls" where
  "member_controls_of viewer_role viewer_id row =
     (if mb_role row = Owner then no_controls
      else if mb_user_id row = viewer_id then no_controls\<lparr>mc_leave := (viewer_role \<noteq> Owner)\<rparr>
      else if viewer_role = Member_role then no_controls
      else \<lparr>mc_change_role = True, mc_remove = True, mc_leave = False, mc_make_owner = (viewer_role = Owner)\<rparr>)"

definition member_label :: "member \<Rightarrow> string" where
  "member_label row =
     (case mb_display_name row of
        Some name \<Rightarrow> if name = [] then mb_email row else name @ '' ('' @ mb_email row @ '')''
      | None \<Rightarrow> mb_email row)"

definition transfer_consequence :: "member \<Rightarrow> string \<Rightarrow> string" where
  "transfer_consequence row org_name =
     member_label row @ '' becomes the owner of '' @ org_name @ '', and you become an admin. Only the new owner can hand it back.''"

text \<open>The navigation of the settings: the page of the Invitations is for those who manage them.\<close>

definition settings_groups :: "(string \<times> (string \<times> string) list) list" where
  "settings_groups =
     [(''Account'', [(''Account'', ''/settings/account''), (''Browser extension'', ''/settings/extension'')]),
      (''Organization'', [(''General'', ''/settings/organization''), (''Members'', ''/settings/organization/members''),
        (''Invitations'', invitations_path)]),
      (''Vault'', [(''Secrets'', ''/settings/secrets''), (''Saved logins'', ''/settings/logins'')])]"

definition settings_nav :: "role option \<Rightarrow> (string \<times> (string \<times> string) list) list" where
  "settings_nav viewer_role =
     (let manages = (viewer_role = Some Owner \<or> viewer_role = Some Admin) in
      map (\<lambda>(label, sections). (label, filter (\<lambda>(_, path). manages \<or> path \<noteq> invitations_path) sections)) settings_groups)"

definition section_paths :: "(string \<times> (string \<times> string) list) list \<Rightarrow> string list" where
  "section_paths groups = concat (map (\<lambda>(_, sections). map snd sections) groups)"

section \<open>The name of an Organization, and its end\<close>

record name_card =
  nc_org :: organization_membership
  nc_name :: string
  nc_rename :: "(string \<times> string) mutation"

definition opened_name :: "organization_membership \<Rightarrow> name_card" where
  "opened_name org = \<lparr>nc_org = org, nc_name = om_name org, nc_rename = Idle\<rparr>"

datatype name_event =
    Org_given organization_membership
  | Name_typed string
  | Rename_pressed
  | Rename_answered "js option"
  | Rename_settled

text \<open>The card keeps its state when it is given another Organization; the requests that are sent are returned.\<close>

fun name_step :: "name_card \<Rightarrow> name_event \<Rightarrow> name_card \<times> (string \<times> string) list" where
  "name_step s (Org_given org) = (s\<lparr>nc_org := org\<rparr>, [])"
| "name_step s (Name_typed typed) = (if may_rename (om_role (nc_org s)) then s\<lparr>nc_name := typed\<rparr> else s, [])"
| "name_step s Rename_pressed =
     (if \<not> may_rename (om_role (nc_org s)) \<or> pending (nc_rename s) \<or> trim (nc_name s) = [] \<or> nc_name s = om_name (nc_org s)
      then (s, [])
      else (s\<lparr>nc_rename := Asked (om_id (nc_org s), nc_name s)\<rparr>, [(om_id (nc_org s), nc_name s)]))"
| "name_step s (Rename_answered answer) =
     (case (nc_rename s, answer) of
        (Asked _, Some error) \<Rightarrow> (s\<lparr>nc_rename := Refused error\<rparr>, [])
      | (Asked _, None) \<Rightarrow> (s\<lparr>nc_rename := Settling\<rparr>, [])
      | _ \<Rightarrow> (s, []))"
| "name_step s Rename_settled = (s\<lparr>nc_rename := settled (nc_rename s)\<rparr>, [])"

definition end_offered :: "organization_membership \<Rightarrow> string \<Rightarrow> bool" where
  "end_offered org typed \<longleftrightarrow> may_end (om_role org) \<and> name_confirms typed (om_name org)"

section \<open>Handing the Organization on\<close>

record hand_card =
  hc_org :: organization_membership
  hc_viewer :: string
  hc_members :: "member list"
  hc_chosen :: string
  hc_confirming :: bool
  hc_hand :: "member mutation"

definition opened_hand :: "organization_membership \<Rightarrow> string \<Rightarrow> hand_card" where
  "opened_hand org viewer =
     \<lparr>hc_org = org, hc_viewer = viewer, hc_members = [], hc_chosen = [], hc_confirming = False, hc_hand = Idle\<rparr>"

definition eligible :: "hand_card \<Rightarrow> member list" where
  "eligible s = filter (\<lambda>m. mc_make_owner (member_controls_of (om_role (hc_org s)) (hc_viewer s) m)) (hc_members s)"

definition handing_to :: "hand_card \<Rightarrow> member option" where
  "handing_to s = find (\<lambda>m. mb_user_id m = hc_chosen s) (eligible s)"

datatype hand_event =
    Members_given "member list"
  | Hand_org_given organization_membership
  | Successor_chosen string
  | Hand_pressed
  | Hand_cancelled
  | Hand_confirmed
  | Hand_answered "js option"
  | Hand_settled

fun hand_step :: "hand_card \<Rightarrow> hand_event \<Rightarrow> hand_card \<times> (string \<times> string) list" where
  "hand_step s (Members_given members) = (s\<lparr>hc_members := members\<rparr>, [])"
| "hand_step s (Hand_org_given org) = (s\<lparr>hc_org := org\<rparr>, [])"
| "hand_step s (Successor_chosen user_id) =
     (if user_id = [] \<or> user_id \<in> mb_user_id ` set (eligible s)
      then s\<lparr>hc_confirming := False, hc_chosen := user_id\<rparr> else s, [])"
| "hand_step s Hand_pressed = (if handing_to s = None then s else s\<lparr>hc_confirming := True\<rparr>, [])"
| "hand_step s Hand_cancelled = (s\<lparr>hc_confirming := False\<rparr>, [])"
| "hand_step s Hand_confirmed =
     (case handing_to s of
        None \<Rightarrow> (s, [])
      | Some m \<Rightarrow>
          if \<not> may_end (om_role (hc_org s)) \<or> \<not> hc_confirming s \<or> pending (hc_hand s) then (s, [])
          else (s\<lparr>hc_hand := Asked m\<rparr>, [(om_id (hc_org s), mb_user_id m)]))"
| "hand_step s (Hand_answered answer) =
     (case (hc_hand s, answer) of
        (Asked _, Some error) \<Rightarrow> (s\<lparr>hc_hand := Refused error\<rparr>, [])
      | (Asked _, None) \<Rightarrow> (s\<lparr>hc_hand := Settling, hc_confirming := False, hc_chosen := []\<rparr>, [])
      | _ \<Rightarrow> (s, []))"
| "hand_step s Hand_settled = (s\<lparr>hc_hand := settled (hc_hand s)\<rparr>, [])"

section \<open>Two requests on one page\<close>

text \<open>
  The page of the members changes roles and ends Memberships, the page of the Invitations sends and withdraws
  them: each shows the refusal of its first request, or else of its second.
\<close>

record ('a, 'b) two_requests =
  tr_first :: "'a mutation"
  tr_second :: "'b mutation"

definition shown_refusal :: "(js \<Rightarrow> string) \<Rightarrow> ('a, 'b) two_requests \<Rightarrow> string option" where
  "shown_refusal sentence s =
     map_option sentence (case refused_with (tr_first s) of Some error \<Rightarrow> Some error | None \<Rightarrow> refused_with (tr_second s))"

datatype ('a, 'b) request_event =
    First_asked 'a
  | First_answered "js option"
  | First_settled
  | Second_asked 'b
  | Second_answered "js option"
  | Second_settled

fun request_step :: "('a, 'b) two_requests \<Rightarrow> ('a, 'b) request_event \<Rightarrow> ('a, 'b) two_requests" where
  "request_step s (First_asked x) = (if pending (tr_first s) then s else s\<lparr>tr_first := Asked x\<rparr>)"
| "request_step s (First_answered answer) =
     (case (tr_first s, answer) of
        (Asked _, Some error) \<Rightarrow> s\<lparr>tr_first := Refused error\<rparr>
      | (Asked _, None) \<Rightarrow> s\<lparr>tr_first := Settling\<rparr>
      | _ \<Rightarrow> s)"
| "request_step s First_settled = s\<lparr>tr_first := settled (tr_first s)\<rparr>"
| "request_step s (Second_asked x) = (if pending (tr_second s) then s else s\<lparr>tr_second := Asked x\<rparr>)"
| "request_step s (Second_answered answer) =
     (case (tr_second s, answer) of
        (Asked _, Some error) \<Rightarrow> s\<lparr>tr_second := Refused error\<rparr>
      | (Asked _, None) \<Rightarrow> s\<lparr>tr_second := Settling\<rparr>
      | _ \<Rightarrow> s)"
| "request_step s Second_settled = s\<lparr>tr_second := settled (tr_second s)\<rparr>"

text \<open>What the page of the members offers for a member, and what the page of the Invitations sends.\<close>

definition role_offered :: "role \<Rightarrow> string \<Rightarrow> member list \<Rightarrow> string \<Rightarrow> bool" where
  "role_offered viewer_role viewer_id members user_id \<longleftrightarrow>
     list_ex (\<lambda>m. mb_user_id m = user_id \<and> mc_change_role (member_controls_of viewer_role viewer_id m)) members"

definition end_of_membership_offered :: "role \<Rightarrow> string \<Rightarrow> member list \<Rightarrow> string \<Rightarrow> string option" where
  "end_of_membership_offered viewer_role viewer_id members user_id =
     (case find (\<lambda>m. mb_user_id m = user_id) members of
        None \<Rightarrow> None
      | Some m \<Rightarrow>
          (let controls = member_controls_of viewer_role viewer_id m in
           if mc_remove controls \<or> mc_leave controls then Some (if mc_leave controls then ''Leave'' else ''Remove'') else None))"

record invitation_form =
  if_email :: string
  if_role :: role

definition email_typed :: "string \<Rightarrow> invitation_form \<Rightarrow> invitation_form" where
  "email_typed typed form = form\<lparr>if_email := trim typed\<rparr>"

definition invitation_offered :: "bool \<Rightarrow> invitation_form \<Rightarrow> bool" where
  "invitation_offered sending form \<longleftrightarrow> \<not> sending \<and> if_email form \<noteq> []"

section \<open>The account\<close>

definition email_confirms :: "string \<Rightarrow> string \<Rightarrow> bool" where
  "email_confirms typed email \<longleftrightarrow> to_lower (trim typed) = to_lower (trim email)"

definition owned_organizations :: "account option \<Rightarrow> organization_membership list" where
  "owned_organizations me = filter (\<lambda>org. om_role org = Owner) (case me of None \<Rightarrow> [] | Some a \<Rightarrow> acc_orgs a)"

definition sole_owner_explanation :: "organization_membership list \<Rightarrow> string" where
  "sole_owner_explanation owned =
     ''You are the owner of '' @ join '', '' (map om_name owned) @
     ''. An Organization has exactly one owner, so hand each one on to another member, or delete it, before deleting this account.''"

definition account_ending_consequence :: string where
  "account_ending_consequence =
     ''Deleting this account ends every session on every browser, leaves every Organization you are in, and removes your account for good. This cannot be undone.''"

definition saved_display_name :: "string \<Rightarrow> string option" where
  "saved_display_name typed = (if trim typed = [] then None else Some (trim typed))"

definition display_name_offered :: "account \<Rightarrow> string \<Rightarrow> bool" where
  "display_name_offered me typed \<longleftrightarrow> trim typed \<noteq> orelse (acc_display_name me) []"

definition account_end_offered :: "account \<Rightarrow> string \<Rightarrow> bool" where
  "account_end_offered me typed \<longleftrightarrow> owned_organizations (Some me) = [] \<and> email_confirms typed (acc_email me)"

section \<open>The rules of the API\<close>

type_synonym memberships = "string \<rightharpoonup> role"

datatype assignable_role = As_admin | As_member

fun role_of :: "assignable_role \<Rightarrow> role" where
  "role_of As_admin = Admin"
| "role_of As_member = Member_role"

definition managing :: "memberships \<Rightarrow> string \<Rightarrow> string option" where
  "managing ms caller =
     (case ms caller of
        None \<Rightarrow> Some ''not_a_member''
      | Some Member_role \<Rightarrow> Some ''not_an_admin''
      | Some _ \<Rightarrow> None)"

definition api_set_role :: "memberships \<Rightarrow> string \<Rightarrow> string \<Rightarrow> assignable_role \<Rightarrow> string + memberships" where
  "api_set_role ms caller user_id asked =
     (case managing ms caller of
        Some refusal \<Rightarrow> Inl refusal
      | None \<Rightarrow>
          (case ms user_id of
             None \<Rightarrow> Inl ''member_not_found''
           | Some Owner \<Rightarrow> Inl ''is_owner''
           | Some _ \<Rightarrow> Inr (ms(user_id \<mapsto> role_of asked))))"

definition api_remove :: "memberships \<Rightarrow> string \<Rightarrow> string \<Rightarrow> string + memberships" where
  "api_remove ms caller user_id =
     (case ms caller of
        None \<Rightarrow> Inl ''not_a_member''
      | Some held \<Rightarrow>
          if user_id \<noteq> caller \<and> held = Member_role then Inl ''not_an_admin''
          else (case ms user_id of
            None \<Rightarrow> Inl ''member_not_found''
          | Some Owner \<Rightarrow> Inl ''is_owner''
          | Some _ \<Rightarrow> Inr (ms(user_id := None))))"

definition api_transfer :: "memberships \<Rightarrow> string \<Rightarrow> string \<Rightarrow> string + memberships" where
  "api_transfer ms caller user_id =
     (case ms caller of
        None \<Rightarrow> Inl ''not_a_member''
      | Some held \<Rightarrow>
          if held \<noteq> Owner then Inl ''not_the_owner''
          else if user_id = caller then Inr ms
          else (case ms user_id of
            None \<Rightarrow> Inl ''member_not_found''
          | Some _ \<Rightarrow> Inr (ms(user_id \<mapsto> Owner, caller \<mapsto> Admin))))"

text \<open>An Invitation that is accepted adds a Membership, unless there is one.\<close>

definition api_accept :: "memberships \<Rightarrow> string \<Rightarrow> assignable_role \<Rightarrow> memberships" where
  "api_accept ms user_id offered = (if ms user_id = None then ms(user_id \<mapsto> role_of offered) else ms)"

definition api_end_account :: "memberships \<Rightarrow> string \<Rightarrow> string + memberships" where
  "api_end_account ms user_id = (if ms user_id = Some Owner then Inl ''sole_owner'' else Inr (ms(user_id := None)))"

datatype membership_event =
    Role_set string string assignable_role
  | Member_removed string string
  | Ownership_transferred string string
  | Invitation_accepted string assignable_role
  | Account_ended string

definition accepted :: "memberships \<Rightarrow> string + memberships \<Rightarrow> memberships" where
  "accepted ms answer = (case answer of Inl _ \<Rightarrow> ms | Inr ms' \<Rightarrow> ms')"

fun membership_step :: "memberships \<Rightarrow> membership_event \<Rightarrow> memberships" where
  "membership_step ms (Role_set caller user_id asked) = accepted ms (api_set_role ms caller user_id asked)"
| "membership_step ms (Member_removed caller user_id) = accepted ms (api_remove ms caller user_id)"
| "membership_step ms (Ownership_transferred caller user_id) = accepted ms (api_transfer ms caller user_id)"
| "membership_step ms (Invitation_accepted user_id offered) = api_accept ms user_id offered"
| "membership_step ms (Account_ended user_id) = accepted ms (api_end_account ms user_id)"

definition api_create_organization :: "string \<Rightarrow> memberships" where
  "api_create_organization user_id = [user_id \<mapsto> Owner]"

section \<open>Lemmas\<close>

definition owned_by :: "memberships \<Rightarrow> string \<Rightarrow> bool" where
  "owned_by ms u \<longleftrightarrow> (\<forall>v. ms v = Some Owner \<longleftrightarrow> v = u)"

definition one_owner :: "memberships \<Rightarrow> bool" where
  "one_owner ms \<longleftrightarrow> (\<exists>u. owned_by ms u)"

text \<open>The owner after a step.\<close>

fun next_owner :: "memberships \<Rightarrow> string \<Rightarrow> membership_event \<Rightarrow> string" where
  "next_owner ms u (Ownership_transferred caller user_id) = (if caller = u \<and> ms user_id \<noteq> None then user_id else u)"
| "next_owner ms u _ = u"

lemma role_of_assignable [simp]: "role_of asked \<noteq> Owner"
  by (cases asked) simp_all

text \<open>What an accepted request changes: the place of somebody who is not the owner, or the owner.\<close>

lemma api_set_role_Inr:
  "api_set_role ms caller user_id asked = Inr ms' \<Longrightarrow> ms user_id \<noteq> Some Owner \<and> ms' = ms(user_id \<mapsto> role_of asked)"
  by (auto simp: api_set_role_def split: option.splits role.splits)

lemma api_remove_Inr: "api_remove ms caller user_id = Inr ms' \<Longrightarrow> ms user_id \<noteq> Some Owner \<and> ms' = ms(user_id := None)"
  by (auto simp: api_remove_def split: option.splits role.splits if_splits)

lemma api_transfer_Inr:
  "api_transfer ms caller user_id = Inr ms' \<Longrightarrow>
   ms caller = Some Owner \<and>
   ms' = (if user_id = caller then ms else ms(user_id \<mapsto> Owner, caller \<mapsto> Admin)) \<and> (user_id = caller \<or> ms user_id \<noteq> None)"
  by (auto simp: api_transfer_def split: option.splits if_splits)

lemma owned_by_other: "owned_by ms u \<Longrightarrow> ms v \<noteq> Some Owner \<Longrightarrow> r \<noteq> Some Owner \<Longrightarrow> owned_by (ms(v := r)) u"
  by (auto simp: owned_by_def)

lemma owned_by_handed: "owned_by ms u \<Longrightarrow> v \<noteq> u \<Longrightarrow> owned_by (ms(v \<mapsto> Owner, u \<mapsto> Admin)) v"
  by (auto simp: owned_by_def)

lemma owned_by_step:
  assumes "owned_by ms u"
  shows "owned_by (membership_step ms e) (next_owner ms u e)"
proof (cases e)
  case (Role_set caller user_id asked)
  show ?thesis
  proof (cases "api_set_role ms caller user_id asked")
    case (Inl refusal)
    then show ?thesis using Role_set assms by (simp add: accepted_def)
  next
    case (Inr ms')
    from api_set_role_Inr [OF this] have "owned_by ms' u" using owned_by_other [OF assms, of user_id "Some (role_of asked)"] by simp
    then show ?thesis using Role_set Inr by (simp add: accepted_def)
  qed
next
  case (Member_removed caller user_id)
  show ?thesis
  proof (cases "api_remove ms caller user_id")
    case (Inl refusal)
    then show ?thesis using Member_removed assms by (simp add: accepted_def)
  next
    case (Inr ms')
    from api_remove_Inr [OF this] have "owned_by ms' u" using owned_by_other [OF assms, of user_id "None"] by simp
    then show ?thesis using Member_removed Inr by (simp add: accepted_def)
  qed
next
  case (Ownership_transferred caller user_id)
  show ?thesis
  proof (cases "api_transfer ms caller user_id")
    case (Inl refusal)
    have owner: "ms u = Some Owner" using assms unfolding owned_by_def by blast
    have "caller \<noteq> u \<or> ms user_id = None"
    proof (rule ccontr)
      assume "\<not> ?thesis"
      then obtain held where "caller = u" "ms user_id = Some held" by auto
      then show False using Inl owner by (simp add: api_transfer_def split: if_splits)
    qed
    then show ?thesis using Ownership_transferred Inl assms by (auto simp: accepted_def)
  next
    case (Inr ms')
    from api_transfer_Inr [OF this] have t: "ms caller = Some Owner"
      "ms' = (if user_id = caller then ms else ms(user_id \<mapsto> Owner, caller \<mapsto> Admin))" "user_id = caller \<or> ms user_id \<noteq> None"
      by blast+
    have u: "caller = u" using t(1) assms unfolding owned_by_def by blast
    show ?thesis
    proof (cases "user_id = u")
      case True
      then show ?thesis using Ownership_transferred Inr t u assms by (simp add: accepted_def)
    next
      case False
      then show ?thesis
        using Ownership_transferred Inr t u owned_by_handed [OF assms False] by (auto simp: accepted_def)
    qed
  qed
next
  case (Invitation_accepted user_id offered)
  then show ?thesis using assms owned_by_other [OF assms] by (simp add: api_accept_def)
next
  case (Account_ended user_id)
  then show ?thesis using assms owned_by_other [OF assms] by (simp add: api_end_account_def accepted_def)
qed

lemma one_owner_step: "one_owner ms \<Longrightarrow> one_owner (membership_step ms e)"
  unfolding one_owner_def using owned_by_step by blast

interpretation organization: reducer membership_step one_owner
  by unfold_locales (rule one_owner_step)

section \<open>Properties\<close>

text \<open>C21. The controls that the pages offer for a member are those that the API accepts from the viewer, no more and no
  less, as long as the page shows the Memberships as they are: the API refuses what is not offered. The one
  exception is that an admin could change the own role.\<close>

theorem offered_controls_are_accepted:
  assumes "ms viewer = Some viewer_role" and "ms (mb_user_id row) = Some (mb_role row)"
  shows "(mc_change_role (member_controls_of viewer_role viewer row) \<longleftrightarrow>
      mb_user_id row \<noteq> viewer \<and> (\<forall>asked. \<not> isl (api_set_role ms viewer (mb_user_id row) asked))) \<and>
    (mc_remove (member_controls_of viewer_role viewer row) \<longleftrightarrow>
      mb_user_id row \<noteq> viewer \<and> \<not> isl (api_remove ms viewer (mb_user_id row))) \<and>
    (mc_leave (member_controls_of viewer_role viewer row) \<longleftrightarrow>
      mb_user_id row = viewer \<and> \<not> isl (api_remove ms viewer (mb_user_id row))) \<and>
    (mc_make_owner (member_controls_of viewer_role viewer row) \<longleftrightarrow>
      mb_user_id row \<noteq> viewer \<and> \<not> isl (api_transfer ms viewer (mb_user_id row)) \<and> mb_role row \<noteq> Owner)"
proof (cases "mb_user_id row = viewer")
  case True
  then have "mb_role row = viewer_role" using assms by simp
  then show ?thesis using True assms(1)
    by (cases viewer_role) (simp_all add: member_controls_of_def no_controls_def api_remove_def)
next
  case False
  then show ?thesis using assms
    by (cases viewer_role; cases "mb_role row")
      (simp_all add: member_controls_of_def no_controls_def api_set_role_def managing_def api_remove_def api_transfer_def)
qed

theorem offered_controls_are_accepted_witness:
  "\<not> isl (api_transfer [''u1'' \<mapsto> Owner, ''u2'' \<mapsto> Member_role] ''u1'' ''u2'')"
  using offered_controls_are_accepted [of "[''u1'' \<mapsto> Owner, ''u2'' \<mapsto> Member_role]" "''u1''" Owner
      "\<lparr>mb_user_id = ''u2'', mb_email = ''b@sbs.test'', mb_display_name = None, mb_role = Member_role\<rparr>"]
  by (simp add: member_controls_of_def)


text \<open>The owner's place is asked to be handed on only after somebody was chosen and the question that names them was
  confirmed; who is named is a member that the API accepts as the next owner. Choosing somebody else
  takes the question back.\<close>

theorem handing_on_is_confirmed:
  assumes "snd (hand_step s e) = [(org_id, user_id)]"
  shows "e = Hand_confirmed \<and> hc_confirming s \<and> org_id = om_id (hc_org s) \<and> user_id = hc_chosen s \<and>
    (\<exists>m \<in> set (hc_members s). mb_user_id m = user_id \<and> handing_to s = Some m \<and>
      (\<forall>ms. ms (hc_viewer s) = Some (om_role (hc_org s)) \<and> ms user_id = Some (mb_role m) \<longrightarrow>
        \<not> isl (api_transfer ms (hc_viewer s) user_id))) \<and>
    \<not> hc_confirming (fst (hand_step s (Successor_chosen [])))"
proof -
  obtain m where m: "e = Hand_confirmed" "handing_to s = Some m" "hc_confirming s" "may_end (om_role (hc_org s))"
      "org_id = om_id (hc_org s)" "user_id = mb_user_id m"
    using assms by (cases e) (auto split: option.splits mutation.splits if_splits)
  from m(2) have e: "m \<in> set (eligible s)" "mb_user_id m = hc_chosen s"
    unfolding handing_to_def find_Some_iff by (metis nth_mem, metis)
  then have "m \<in> set (hc_members s)" "om_role (hc_org s) = Owner"
    using m(4) by (auto simp: eligible_def may_end_def)
  moreover have "\<not> isl (api_transfer ms (hc_viewer s) user_id)"
    if "ms (hc_viewer s) = Some (om_role (hc_org s))" "ms user_id = Some (mb_role m)" for ms
    using that calculation(2) by (auto simp: api_transfer_def)
  ultimately show ?thesis using m e by auto
qed

definition two_members :: hand_card where
  "two_members = (opened_hand \<lparr>om_id = ''o1'', om_name = ''Acme'', om_role = Owner\<rparr> ''u1'')
     \<lparr>hc_members := [\<lparr>mb_user_id = ''u1'', mb_email = ''a@sbs.test'', mb_display_name = None, mb_role = Owner\<rparr>,
        \<lparr>mb_user_id = ''u2'', mb_email = ''b@sbs.test'', mb_display_name = None, mb_role = Admin\<rparr>],
      hc_chosen := ''u2'', hc_confirming := True\<rparr>"

theorem handing_on_is_confirmed_witness: "handing_to two_members \<noteq> None \<and> hc_chosen two_members = ''u2''"
proof -
  have "snd (hand_step two_members Hand_confirmed) = [(''o1'', ''u2'')]" by code_simp
  from handing_on_is_confirmed [OF this] show ?thesis by auto
qed

text \<open>The card with the name of the Organization keeps the name of the one before when another is made the active one:
  its button, which was disabled, is enabled, and pressing it gives the new Organization the name of the
  old one.\<close>

theorem switching_keeps_the_name:
  assumes "may_rename (om_role other)" and "om_name other \<noteq> om_name org" and "trim (om_name org) \<noteq> []"
  shows "snd (name_step (opened_name org) Rename_pressed) = [] \<and>
    snd (name_step (fst (name_step (opened_name org) (Org_given other))) Rename_pressed) = [(om_id other, om_name org)]"
  using assms by (simp add: opened_name_def)

theorem switching_keeps_the_name_witness:
  "snd (name_step (fst (name_step (opened_name \<lparr>om_id = ''o1'', om_name = ''Acme'', om_role = Owner\<rparr>)
     (Org_given \<lparr>om_id = ''o2'', om_name = ''Globex'', om_role = Admin\<rparr>))) Rename_pressed) = [(''o2'', ''Acme'')]"
proof -
  have "trim ''Acme'' \<noteq> []" by code_simp
  then show ?thesis
    using switching_keeps_the_name [of "\<lparr>om_id = ''o2'', om_name = ''Globex'', om_role = Admin\<rparr>"
        "\<lparr>om_id = ''o1'', om_name = ''Acme'', om_role = Owner\<rparr>"]
    unfolding may_rename_def organization_membership.simps by blast
qed

text \<open>On the pages of the members and of the Invitations a refusal of the first kind of request stays until that kind is asked
  again: what the other kind is refused with is not shown, and its success does not take the text away.\<close>

theorem older_refusal_hides_newer:
  assumes "tr_first s = Refused error" and "\<not> pending (tr_second s)"
  shows "shown_refusal sentence (foldl request_step s [Second_asked x, Second_answered answer, Second_settled]) = Some (sentence error)"
  using assms by (cases answer) (simp_all add: shown_refusal_def)

theorem older_refusal_hides_newer_witness:
  "shown_refusal organization_refusal (foldl request_step
     (\<lparr>tr_first = Refused (Obj [(''code'', Str ''is_owner'')]), tr_second = Idle\<rparr> :: (member, string) two_requests)
     [Second_asked ''u1'', Second_answered None, Second_settled]) =
   Some ''The owner's place cannot be changed or ended. Hand it on first.''"
  using older_refusal_hides_newer [of "\<lparr>tr_first = Refused (Obj [(''code'', Str ''is_owner'')]), tr_second = Idle\<rparr> :: (member, string) two_requests"
      "Obj [(''code'', Str ''is_owner'')]" organization_refusal "''u1''" None]
  by (simp add: organization_refusal_def refusal_from_def organization_refusals_def field_def)

text \<open>The navigation names the pages that the gate lets the role see.\<close>

lemma navigation_fits_gate:
  "section_paths (settings_nav (Some viewer_role)) =
     filter (\<lambda>path. resolve_gate (Some me) (Some viewer_role) path = Render) (section_paths settings_groups)"
  by (cases viewer_role)
    (simp_all add: section_paths_def settings_nav_def settings_groups_def invitations_path_def resolve_gate_def
      is_auth_route_def path_of_def sign_in_path_def)

text \<open>What confirms the end of an Organization on the page confirms it for the API, which keeps names without spaces around them.\<close>

lemma confirmation_agrees: "trim name = name \<Longrightarrow> name_confirms typed name \<longleftrightarrow> trim typed = name"
  by (simp add: name_confirms_def)

end
