(* ===== verification/SecretsPage.thy ===== *)
theory SecretsPage
  imports ApiTypes Mutations Durations
begin

text \<open>
  The vault in the settings (\<open>settings/secrets/page.tsx\<close>, \<open>usage.ts\<close>, \<open>reveal.ts\<close>): a row for each Secret, with its
  edit, the member's own value, its end, and the value that is shown for a while.
\<close>

section \<open>Which Workflows use a Secret\<close>

definition middle_dot_text :: string where
  "middle_dot_text = '' '' @ [CHR 0xC2, CHR 0xB7] @ '' ''"

definition used_by_summary :: "string list \<Rightarrow> string" where
  "used_by_summary names =
     (let how_many = ''used by '' @ show_nat (length names) @ '' workflow'' @ (if length names = 1 then [] else ''s'')
      in if names = [] then how_many else how_many @ middle_dot_text @ join '', '' names)"

definition delete_consequence :: "string \<Rightarrow> string list \<Rightarrow> string" where
  "delete_consequence secret_name names =
     (case names of
        [] \<Rightarrow> ''No Workflow uses it.''
      | [name] \<Rightarrow> name @ '' uses it.''
      | _ \<Rightarrow> join '', '' names @ '' use it.'') @
     '' '' @ secret_name @ '' and every member's Personal Override will be deleted.''"

section \<open>A value that is shown for a while\<close>

definition reveal_duration_ms :: int where
  "reveal_duration_ms = 30000"

text \<open>The timer is set anew only when the value that is kept changes.\<close>

record reveal_box =
  rv_shown :: "string option"
  rv_masked_at :: "int option"
  rv_request :: "unit mutation"

definition closed_box :: reveal_box where
  "closed_box = \<lparr>rv_shown = None, rv_masked_at = None, rv_request = Idle\<rparr>"

datatype reveal_event =
    Reveal_pressed
  | Reveal_answered "js + string"
  | Time_passed

fun reveal_step :: "reveal_box \<Rightarrow> int \<times> reveal_event \<Rightarrow> reveal_box" where
  "reveal_step s (now, Reveal_pressed) = (if pending (rv_request s) then s else s\<lparr>rv_request := Asked ()\<rparr>)"
| "reveal_step s (now, Reveal_answered answer) =
     (case (rv_request s, answer) of
        (Asked _, Inl error) \<Rightarrow> s\<lparr>rv_request := Refused error\<rparr>
      | (Asked _, Inr revealed) \<Rightarrow>
          (let s' = s\<lparr>rv_request := Idle\<rparr> in
           if rv_shown s = Some revealed then s'
           else s'\<lparr>rv_shown := Some revealed, rv_masked_at := Some (now + reveal_duration_ms)\<rparr>)
      | _ \<Rightarrow> s)"
| "reveal_step s (now, Time_passed) =
     (case rv_masked_at s of
        None \<Rightarrow> s
      | Some due \<Rightarrow> if due \<le> now then s\<lparr>rv_shown := None, rv_masked_at := None\<rparr> else s)"

definition reveal_button :: "reveal_box \<Rightarrow> string" where
  "reveal_button s = (if rv_shown s = None then ''Reveal'' else ''Reveal again'')"

section \<open>Creating a Secret\<close>

record create_form =
  cf_name :: string
  cf_value :: string
  cf_create :: "(string \<times> string) mutation"

definition blank_form :: create_form where
  "blank_form = \<lparr>cf_name = [], cf_value = [], cf_create = Idle\<rparr>"

definition press_create :: "create_form \<Rightarrow> create_form \<times> (string \<times> string) option" where
  "press_create s =
     (if pending (cf_create s) \<or> trim (cf_name s) = [] \<or> cf_value s = [] then (s, None)
      else (s\<lparr>cf_create := Asked (cf_name s, cf_value s)\<rparr>, Some (cf_name s, cf_value s)))"

definition create_answered :: "js option \<Rightarrow> create_form \<Rightarrow> create_form" where
  "create_answered answer s =
     (case (cf_create s, answer) of
        (Asked _, Some error) \<Rightarrow> s\<lparr>cf_create := Refused error\<rparr>
      | (Asked _, None) \<Rightarrow> s\<lparr>cf_name := [], cf_value := [], cf_create := Settling\<rparr>
      | _ \<Rightarrow> s)"

definition create_text :: "create_form \<Rightarrow> string option" where
  "create_text s = (if refused_with (cf_create s) = None then None else Some ''That name is already in use.'')"

section \<open>A row\<close>

record secret_summary =
  ss_id :: string
  ss_name :: string
  ss_updated_at :: string
  ss_override :: "string option"
  ss_used_by :: "string list"

record secret_row =
  sr_secret :: secret_summary
  sr_editing :: bool
  sr_confirming :: bool
  sr_name :: string
  sr_value :: string
  sr_own_value :: string
  sr_change :: "unit mutation"
  sr_remove :: "unit mutation"
  sr_set_own :: "unit mutation"
  sr_clear_own :: "unit mutation"

definition opened_row :: "secret_summary \<Rightarrow> secret_row" where
  "opened_row secret =
     \<lparr>sr_secret = secret, sr_editing = False, sr_confirming = False, sr_name = ss_name secret, sr_value = [], sr_own_value = [],
      sr_change = Idle, sr_remove = Idle, sr_set_own = Idle, sr_clear_own = Idle\<rparr>"

datatype row_effect =
    Update_secret string "string option" "string option"
  | Delete_secret string
  | Set_override string string
  | Delete_override string
  | Refetch_secrets

datatype row_event =
    Secret_given secret_summary
  | Edit_pressed
  | Name_typed string
  | Value_typed string
  | Change_pressed
  | Change_answered "js option"
  | Change_settled
  | Own_typed string
  | Own_pressed
  | Own_answered "js option"
  | Own_settled
  | Clear_pressed
  | Clear_answered "js option"
  | Clear_settled
  | Delete_pressed
  | Delete_cancelled
  | Delete_confirmed
  | Delete_answered "js option"
  | Delete_settled

definition given :: "bool \<Rightarrow> string \<Rightarrow> string option" where
  "given asked v = (if asked then Some v else None)"

definition change_body :: "secret_row \<Rightarrow> string option \<times> string option" where
  "change_body s = (given (sr_name s \<noteq> ss_name (sr_secret s)) (sr_name s), given (sr_value s \<noteq> []) (sr_value s))"

text \<open>The form of the edit is not submitted without a name, which its input requires.\<close>

definition change_offered :: "secret_row \<Rightarrow> bool" where
  "change_offered s \<longleftrightarrow>
     sr_editing s \<and> \<not> pending (sr_change s) \<and> sr_name s \<noteq> [] \<and> (sr_value s \<noteq> [] \<or> sr_name s \<noteq> ss_name (sr_secret s))"

definition answer_to :: "unit mutation \<Rightarrow> js option \<Rightarrow> unit mutation" where
  "answer_to m answer = (case answer of Some error \<Rightarrow> Refused error | None \<Rightarrow> Settling)"

definition is_asked :: "unit mutation \<Rightarrow> bool" where
  "is_asked m \<longleftrightarrow> m = Asked ()"

fun row_step :: "secret_row \<Rightarrow> row_event \<Rightarrow> secret_row \<times> row_effect list" where
  "row_step s (Secret_given secret) = (s\<lparr>sr_secret := secret\<rparr>, [])"
| "row_step s Edit_pressed = (s\<lparr>sr_editing := True\<rparr>, [])"
| "row_step s (Name_typed typed) = (if sr_editing s then s\<lparr>sr_name := typed\<rparr> else s, [])"
| "row_step s (Value_typed typed) = (if sr_editing s then s\<lparr>sr_value := typed\<rparr> else s, [])"
| "row_step s Change_pressed =
     (if change_offered s
      then (s\<lparr>sr_change := Asked ()\<rparr>, [Update_secret (ss_id (sr_secret s)) (fst (change_body s)) (snd (change_body s))])
      else (s, []))"
| "row_step s (Change_answered answer) =
     (if \<not> is_asked (sr_change s) then (s, [])
      else if answer = None
      then (s\<lparr>sr_change := Settling, sr_editing := False, sr_value := []\<rparr>, [Refetch_secrets])
      else (s\<lparr>sr_change := answer_to (sr_change s) answer\<rparr>, []))"
| "row_step s Change_settled = (s\<lparr>sr_change := settled (sr_change s)\<rparr>, [])"
| "row_step s (Own_typed typed) = (s\<lparr>sr_own_value := typed\<rparr>, [])"
| "row_step s Own_pressed =
     (if pending (sr_set_own s) \<or> sr_own_value s = [] then (s, [])
      else (s\<lparr>sr_set_own := Asked ()\<rparr>, [Set_override (ss_id (sr_secret s)) (sr_own_value s)]))"
| "row_step s (Own_answered answer) =
     (if \<not> is_asked (sr_set_own s) then (s, [])
      else if answer = None then (s\<lparr>sr_set_own := Settling, sr_own_value := []\<rparr>, [Refetch_secrets])
      else (s\<lparr>sr_set_own := answer_to (sr_set_own s) answer\<rparr>, []))"
| "row_step s Own_settled = (s\<lparr>sr_set_own := settled (sr_set_own s)\<rparr>, [])"
| "row_step s Clear_pressed =
     (if ss_override (sr_secret s) = None \<or> pending (sr_clear_own s) then (s, [])
      else (s\<lparr>sr_clear_own := Asked ()\<rparr>, [Delete_override (ss_id (sr_secret s))]))"
| "row_step s (Clear_answered answer) =
     (if \<not> is_asked (sr_clear_own s) then (s, [])
      else (s\<lparr>sr_clear_own := answer_to (sr_clear_own s) answer\<rparr>, if answer = None then [Refetch_secrets] else []))"
| "row_step s Clear_settled = (s\<lparr>sr_clear_own := settled (sr_clear_own s)\<rparr>, [])"
| "row_step s Delete_pressed = (s\<lparr>sr_confirming := True\<rparr>, [])"
| "row_step s Delete_cancelled = (s\<lparr>sr_confirming := False\<rparr>, [])"
| "row_step s Delete_confirmed =
     (if \<not> sr_confirming s \<or> pending (sr_remove s) then (s, [])
      else (s\<lparr>sr_remove := Asked ()\<rparr>, [Delete_secret (ss_id (sr_secret s))]))"
| "row_step s (Delete_answered answer) =
     (if \<not> is_asked (sr_remove s) then (s, [])
      else (s\<lparr>sr_remove := answer_to (sr_remove s) answer\<rparr>, if answer = None then [Refetch_secrets] else []))"
| "row_step s Delete_settled = (s\<lparr>sr_remove := settled (sr_remove s)\<rparr>, [])"

text \<open>What a row shows; \<open>moment\<close> is the text of a moment.\<close>

record row_view =
  rw_title :: string
  rw_updated :: string
  rw_uses :: string
  rw_edit_form :: "(string \<times> string \<times> bool) option"
  rw_own_line :: string
  rw_own_label :: string
  rw_own_button :: "string \<times> bool"
  rw_clear :: "bool option"
  rw_delete_question :: "(string \<times> string \<times> bool) option"

definition row_view_of :: "(string \<Rightarrow> string) \<Rightarrow> secret_row \<Rightarrow> row_view" where
  "row_view_of moment s =
     \<lparr>rw_title = ss_name (sr_secret s),
      rw_updated = ''Updated '' @ moment (ss_updated_at (sr_secret s)),
      rw_uses = used_by_summary (ss_used_by (sr_secret s)),
      rw_edit_form =
        (if sr_editing s
         then Some (sr_name s, sr_value s, \<not> (pending (sr_change s) \<or> sr_value s = [] \<and> sr_name s = ss_name (sr_secret s)))
         else None),
      rw_own_line =
        (case ss_override (sr_secret s) of
           None \<Rightarrow> ''Use my own value''
         | Some updated_at \<Rightarrow> ''Using your own value'' @ middle_dot_text @ ''updated '' @ moment updated_at),
      rw_own_label = (if ss_override (sr_secret s) = None then ''Your value'' else ''Replace your value''),
      rw_own_button =
        (if ss_override (sr_secret s) = None then ''Use my own value'' else ''Update'',
         \<not> (pending (sr_set_own s) \<or> sr_own_value s = [])),
      rw_clear = (if ss_override (sr_secret s) = None then None else Some (\<not> pending (sr_clear_own s))),
      rw_delete_question =
        (if sr_confirming s
         then Some (''Delete '' @ ss_name (sr_secret s) @ ''?'',
           delete_consequence (ss_name (sr_secret s)) (ss_used_by (sr_secret s)), \<not> pending (sr_remove s))
         else None)\<rparr>"

section \<open>Lemmas\<close>

text \<open>A value is shown as long as its timer runs, which an answer with that value started.\<close>

definition box_ok :: "(int \<times> reveal_event) list \<Rightarrow> reveal_box \<Rightarrow> bool" where
  "box_ok past s \<longleftrightarrow>
     (case (rv_shown s, rv_masked_at s) of
        (None, None) \<Rightarrow> True
      | (Some revealed, Some due) \<Rightarrow> (due - reveal_duration_ms, Reveal_answered (Inr revealed)) \<in> set past
      | _ \<Rightarrow> False)"

lemma box_ok_step: "box_ok past s \<Longrightarrow> box_ok (past @ [e]) (reveal_step s e)"
proof (cases e)
  case (Pair now event)
  assume ok: "box_ok past s"
  show ?thesis
    by (cases event) (use ok Pair in \<open>auto simp: box_ok_def Let_def split: option.splits mutation.splits sum.splits if_splits\<close>)
qed

lemma box_ok_run: "box_ok past s \<Longrightarrow> box_ok (past @ es) (foldl reveal_step s es)"
proof (induction es arbitrary: past s)
  case (Cons e es)
  from Cons.IH [OF box_ok_step [OF Cons.prems, of e]] show ?case by simp
qed simp

lemma mask_due: "rv_masked_at (reveal_step s (now, Time_passed)) = Some due \<Longrightarrow> now < due"
  by (auto split: option.splits if_splits)

section \<open>Properties\<close>

text \<open>C33. A value that is still shown after the timer was looked at was the answer to a request at most thirty seconds ago:
  it is masked again whatever else is done. Revealing the same value again does not show it for
  longer.\<close>

theorem revealed_for_thirty_seconds:
  assumes "rv_shown (foldl reveal_step closed_box (es @ [(now, Time_passed)])) = Some revealed"
  shows "(\<exists>t. (t, Reveal_answered (Inr revealed)) \<in> set es \<and> now < t + reveal_duration_ms) \<and>
    rv_masked_at (foldl reveal_step closed_box (es @ [(now, Time_passed), (now, Reveal_pressed), (now, Reveal_answered (Inr revealed))])) =
      rv_masked_at (foldl reveal_step closed_box (es @ [(now, Time_passed)]))"
proof -
  let ?s = "foldl reveal_step closed_box (es @ [(now, Time_passed)])"
  have "box_ok [] closed_box" by (simp add: box_ok_def closed_box_def)
  from box_ok_run [OF this, of "es @ [(now, Time_passed)]"] have "box_ok (es @ [(now, Time_passed)]) ?s" by simp
  then obtain due where due: "rv_masked_at ?s = Some due"
      "(due - reveal_duration_ms, Reveal_answered (Inr revealed)) \<in> set (es @ [(now, Time_passed)])"
    using assms by (auto simp: box_ok_def split: option.splits)
  have "now < due" using due(1) mask_due [of "foldl reveal_step closed_box es" now due] by simp
  then have "\<exists>t. (t, Reveal_answered (Inr revealed)) \<in> set es \<and> now < t + reveal_duration_ms"
    using due(2) by (intro exI [of _ "due - reveal_duration_ms"]) auto
  moreover have "rv_masked_at (reveal_step (reveal_step ?s (now, Reveal_pressed)) (now, Reveal_answered (Inr revealed))) = rv_masked_at ?s"
    using assms by (cases "rv_request ?s") auto
  ultimately show ?thesis by simp
qed

theorem revealed_for_thirty_seconds_witness:
  "rv_shown (foldl reveal_step closed_box ([(0, Reveal_pressed), (100, Reveal_answered (Inr ''s3cret''))] @ [(30000, Time_passed)])) =
     Some ''s3cret'' \<and>
   (\<exists>t. (t, Reveal_answered (Inr ''s3cret'')) \<in> set [(0, Reveal_pressed), (100, Reveal_answered (Inr ''s3cret''))] \<and>
     30000 < t + reveal_duration_ms)"
proof -
  have shown: "rv_shown (foldl reveal_step closed_box
      ([(0, Reveal_pressed), (100, Reveal_answered (Inr ''s3cret''))] @ [(30000, Time_passed)])) = Some ''s3cret''"
    by code_simp
  then show ?thesis using revealed_for_thirty_seconds [OF shown] by blast
qed

text \<open>What a row asks of the API is asked for by the press that offers it: a change has a name or a value to change, as the
  API demands, and leaves out what stays; a member's own value is not empty; a Secret goes only after
  its question was confirmed.\<close>

theorem row_asks_what_is_offered:
  assumes "effect \<in> set (snd (row_step s e))"
  shows "case effect of
      Update_secret ident name val \<Rightarrow>
        e = Change_pressed \<and> ident = ss_id (sr_secret s) \<and> (name \<noteq> None \<or> val \<noteq> None) \<and>
        name \<noteq> Some (ss_name (sr_secret s)) \<and> name \<noteq> Some [] \<and> val \<noteq> Some []
    | Delete_secret ident \<Rightarrow> e = Delete_confirmed \<and> ident = ss_id (sr_secret s) \<and> sr_confirming s
    | Set_override ident val \<Rightarrow> e = Own_pressed \<and> ident = ss_id (sr_secret s) \<and> val \<noteq> []
    | Delete_override ident \<Rightarrow> e = Clear_pressed \<and> ident = ss_id (sr_secret s) \<and> ss_override (sr_secret s) \<noteq> None
    | Refetch_secrets \<Rightarrow> True"
  using assms by (cases e) (auto simp: change_offered_def change_body_def given_def split: if_splits)

definition mail_secret :: secret_summary where
  "mail_secret = \<lparr>ss_id = ''k1'', ss_name = ''mail'', ss_updated_at = [], ss_override = None, ss_used_by = []\<rparr>"

theorem row_asks_what_is_offered_witness:
  "\<exists>name val. Update_secret ''k1'' name val \<in>
      set (snd (row_step ((opened_row mail_secret)\<lparr>sr_editing := True, sr_value := ''x''\<rparr>) Change_pressed)) \<and>
    name \<noteq> Some ''mail'' \<and> val \<noteq> Some []"
proof -
  have "Update_secret ''k1'' None (Some ''x'') \<in>
      set (snd (row_step ((opened_row mail_secret)\<lparr>sr_editing := True, sr_value := ''x''\<rparr>) Change_pressed))"
    by (simp add: change_offered_def change_body_def given_def opened_row_def mail_secret_def)
  from row_asks_what_is_offered [OF this] this show ?thesis
    by (intro exI [of _ None] exI [of _ "Some ''x''"]) simp
qed

text \<open>A row is opened with the name that the Secret has then, and keeps it when the Secret is renamed elsewhere: giving the
  Secret a new value afterwards gives it its old name back.\<close>

theorem renaming_elsewhere_is_undone:
  assumes "ss_name renamed \<noteq> ss_name secret" and "ss_name secret \<noteq> []" and "val \<noteq> []"
  shows "snd (row_step (foldl (\<lambda>s e. fst (row_step s e)) (opened_row secret) [Secret_given renamed, Edit_pressed, Value_typed val])
      Change_pressed) = [Update_secret (ss_id renamed) (Some (ss_name secret)) (Some val)]"
  using assms by (simp add: opened_row_def change_offered_def change_body_def given_def)

theorem renaming_elsewhere_is_undone_witness:
  "snd (row_step (foldl (\<lambda>s e. fst (row_step s e)) (opened_row mail_secret)
      [Secret_given (mail_secret\<lparr>ss_name := ''post''\<rparr>), Edit_pressed, Value_typed ''x'']) Change_pressed) =
   [Update_secret ''k1'' (Some ''mail'') (Some ''x'')]"
  using renaming_elsewhere_is_undone [of "mail_secret\<lparr>ss_name := ''post''\<rparr>" mail_secret "''x''"] by (simp add: mail_secret_def)

text \<open>A row does not tell that the API refused: after the refusal of a change, of a value of one's own, of clearing it or of
  a deletion it shows what it showed before the button was pressed, whatever the reason. The form that creates
  a Secret tells every refusal as a name that is taken.\<close>

theorem refusals_of_a_row_are_not_told:
  assumes "(e, e') \<in> {(Change_pressed, Change_answered (Some error)), (Own_pressed, Own_answered (Some error)),
      (Clear_pressed, Clear_answered (Some error)), (Delete_confirmed, Delete_answered (Some error))}"
    and "snd (row_step s e) \<noteq> []"
  shows "row_view_of moment (fst (row_step (fst (row_step s e)) e')) = row_view_of moment s \<and>
    snd (row_step (fst (row_step s e)) e') = [] \<and>
    create_text (create_answered (Some error) (form\<lparr>cf_create := Asked asked\<rparr>)) = Some ''That name is already in use.''"
proof -
  have form: "create_text (create_answered (Some error) (form\<lparr>cf_create := Asked asked\<rparr>)) = Some ''That name is already in use.''"
    by (simp add: create_text_def create_answered_def split: prod.split)
  consider "e = Change_pressed" "e' = Change_answered (Some error)" | "e = Own_pressed" "e' = Own_answered (Some error)"
    | "e = Clear_pressed" "e' = Clear_answered (Some error)" | "e = Delete_confirmed" "e' = Delete_answered (Some error)"
    using assms(1) by auto
  then show ?thesis
  proof cases
    case 1
    then have "change_offered s" using assms(2) by (simp split: if_splits)
    then show ?thesis using 1 form by (simp add: row_view_of_def is_asked_def answer_to_def change_offered_def)
  next
    case 2
    then have "\<not> pending (sr_set_own s)" "sr_own_value s \<noteq> []" using assms(2) by (simp_all split: if_splits)
    then show ?thesis using 2 form by (simp add: row_view_of_def is_asked_def answer_to_def)
  next
    case 3
    then have "\<not> pending (sr_clear_own s)" "ss_override (sr_secret s) \<noteq> None" using assms(2) by (simp_all split: if_splits)
    then show ?thesis using 3 form by (simp add: row_view_of_def is_asked_def answer_to_def)
  next
    case 4
    then have "\<not> pending (sr_remove s)" "sr_confirming s" using assms(2) by (simp_all split: if_splits)
    then show ?thesis using 4 form by (simp add: row_view_of_def is_asked_def answer_to_def)
  qed
qed

theorem refusals_of_a_row_are_not_told_witness:
  "row_view_of id (fst (row_step (fst (row_step ((opened_row mail_secret)\<lparr>sr_own_value := ''x''\<rparr>) Own_pressed)) (Own_answered (Some Null)))) =
   row_view_of id ((opened_row mail_secret)\<lparr>sr_own_value := ''x''\<rparr>)"
  using refusals_of_a_row_are_not_told [where e = Own_pressed and e' = "Own_answered (Some Null)" and error = Null
      and s = "(opened_row mail_secret)\<lparr>sr_own_value := ''x''\<rparr>" and moment = id]
  by (simp add: opened_row_def)

end
