(* ===== verification/Popup.thy ===== *)
theory Popup
  imports RecordingWorker ConnectWorker
begin

text \<open>
  The popup of the extension (\<open>src/apps/extension/src/popup.js\<close>): what it shows of an answer of the service worker,
  its form to connect, and the form in which an ended recording is reviewed and saved. The answers of the
  service worker and of the browser's permission prompt are inputs; what it asks of them is returned.
\<close>

section \<open>Texts\<close>

fun address_problem_text :: "address_problem \<Rightarrow> string" where
  "address_problem_text Empty_address = ''Enter the address of your Step by Step instance.''"
| "address_problem_text Malformed_address = ''That does not look like a web address.''"
| "address_problem_text Unsupported_scheme = ''An instance is reached over http or https.''"

definition declined_text :: string where
  "declined_text =
     ''Step by Step needs Chrome's permission for that address earlier it can connect. Try again, and choose Allow.''"

definition popup_refusals :: "(string \<times> string) list" where
  "popup_refusals =
     [(''not-permitted'', ''Chrome did not allow this extension to work on that address.''),
      (''instance-tab'', ''This is the Step by Step tab. Open the first page of the task in another tab, then start recording from there.''),
      (''target-gone'', ''That tab could not be recorded. Keep it open and try again.''),
      (''login-not-permitted'', ''Nothing was saved. Copying a login needs Chrome's permission for the whole site. Save again, and choose Allow.''),
      (''not-an-instance'', ''That does not look like a web address.''),
      (''bad-code'', ''That code is not valid any more. Show a new one in the app.''),
      (''unreachable'', ''That address did not answer. Check it, and that the instance is running.''),
      (''failed'', ''Something went wrong. Try again.'')]"

definition refusal_text :: "string \<Rightarrow> string" where
  "refusal_text reason = orelse (map_of popup_refusals reason) []"

definition refusal_or :: "string \<Rightarrow> string \<Rightarrow> string" where
  "refusal_or reason fallback = orelse (map_of popup_refusals reason) fallback"

definition ellipsis_text :: string where
  "ellipsis_text = [CHR 0xE2, CHR 0x80, CHR 0xA6]"

text \<open>The reasons that the service worker gives.\<close>

fun start_reason :: "start_refusal \<Rightarrow> string" where
  "start_reason No_pending_recording = ''no-pending-recording''"
| "start_reason Wrong_instance = ''wrong-instance''"
| "start_reason Target_gone = ''target-gone''"
| "start_reason Instance_tab = ''instance-tab''"
| "start_reason Not_permitted = ''not-permitted''"

fun connect_reason :: "connect_refusal \<Rightarrow> string option" where
  "connect_reason Late = None"
| "connect_reason Not_an_instance = Some ''not-an-instance''"
| "connect_reason Not_allowed = Some ''not-permitted''"
| "connect_reason Bad_code = Some ''bad-code''"
| "connect_reason Out_of_reach = Some ''unreachable''"

fun save_reason :: "save_refusal \<Rightarrow> string" where
  "save_reason Not_ended = ''not-ended''"
| "save_reason Cannot_reach = ''unreachable''"
| "save_reason Token_has_expired = ''token-expired''"
| "save_reason Save_refused = ''refused''"
| "save_reason Name_is_taken = ''name-taken''"
| "save_reason (Needs_secret _) = ''needs-secret''"
| "save_reason Login_not_permitted = ''login-not-permitted''"

fun save_message :: "save_refusal \<Rightarrow> string option" where
  "save_message Name_is_taken = Some ''That Secret name is already used. Rename it or pick the existing Secret.''"
| "save_message (Needs_secret message) = Some message"
| "save_message _ = None"

section \<open>What is shown of the service worker\<close>

record shown_state =
  sh_connection :: "string option"
  sh_version :: string
  sh_unanswered :: bool
  sh_address :: string
  sh_recording :: "active_recording option"

text \<open>The answer to \<open>connection\<close>: the state of both handlers of the service worker.\<close>

definition connection_answer :: "string \<Rightarrow> int \<Rightarrow> connect_state \<Rightarrow> active_recording option \<Rightarrow> shown_state" where
  "connection_answer version now c recording =
     \<lparr>sh_connection = cn_connection c, sh_version = version, sh_unanswered = unanswered now c,
      sh_address = cn_address c, sh_recording = recording\<rparr>"

datatype panel = Connected_panel | Connect_panel | Pending_panel | Active_panel | Save_panel

fun panel_shown :: "panel \<Rightarrow> shown_state \<Rightarrow> bool" where
  "panel_shown Connected_panel answer \<longleftrightarrow> sh_connection answer \<noteq> None \<and> sh_recording answer = None"
| "panel_shown Connect_panel answer \<longleftrightarrow> sh_connection answer = None"
| "panel_shown Pending_panel answer \<longleftrightarrow> map_option ac_state (sh_recording answer) = Some Pending_recording"
| "panel_shown Active_panel answer \<longleftrightarrow> map_option ac_state (sh_recording answer) = Some Recording_now"
| "panel_shown Save_panel answer \<longleftrightarrow> map_option ac_state (sh_recording answer) = Some Ended_recording"

datatype tone = Tone_neutral | Tone_ok | Tone_wait | Tone_accent | Tone_info | Tone_bad

record badge =
  bg_label :: string
  bg_tone :: tone
  bg_live :: bool

fun recording_badge :: "recording_state \<Rightarrow> badge" where
  "recording_badge Pending_recording = \<lparr>bg_label = ''Ready'', bg_tone = Tone_wait, bg_live = False\<rparr>"
| "recording_badge Recording_now = \<lparr>bg_label = ''Recording'', bg_tone = Tone_accent, bg_live = True\<rparr>"
| "recording_badge Ended_recording = \<lparr>bg_label = ''Needs review'', bg_tone = Tone_wait, bg_live = False\<rparr>"

definition badge_of :: "shown_state \<Rightarrow> badge" where
  "badge_of answer =
     (case sh_recording answer of
        Some a \<Rightarrow> recording_badge (ac_state a)
      | None \<Rightarrow>
          if sh_connection answer \<noteq> None then \<lparr>bg_label = ''Connected'', bg_tone = Tone_ok, bg_live = False\<rparr>
          else \<lparr>bg_label = ''Not connected'', bg_tone = Tone_neutral, bg_live = False\<rparr>)"

definition is_repick :: "active_recording \<Rightarrow> bool" where
  "is_repick a \<longleftrightarrow> ac_mode a \<noteq> Record_mode"

text \<open>The verb, the hint and the button of the panel of a recording that waits, and of one that records.\<close>

definition pending_texts :: "active_recording \<Rightarrow> string \<times> string \<times> string" where
  "pending_texts a =
     (if is_repick a
      then (''Ready to re-pick'', ''Open the page that has the element in this window, then confirm here.'', ''Pick an element in this tab'')
      else (''Ready to record'', ''Open the first page of the task in this window, then confirm here.'', ''Start recording this tab''))"

definition active_texts :: "active_recording \<Rightarrow> string \<times> string \<times> string" where
  "active_texts a =
     (if is_repick a
      then (''Pick an element on'', ''The editor will show the new selectors beside the old ones.'', ''Cancel'')
      else (''Recording'', ''Complete the task in this tab, then stop to review every Step.'', ''Stop and review''))"

definition save_summary :: "active_recording \<Rightarrow> string" where
  "save_summary a = show_nat (length (ac_steps a)) @ '' Steps captured.''"

text \<open>The names that are suggested for a Variable: those of the secret Variables.\<close>

definition suggested_names :: "active_recording \<Rightarrow> string list" where
  "suggested_names a =
     map (\<lambda>v. string_of_js (attr v ''name'')) (filter (\<lambda>v. attr v ''secret'' = Bool True) (ac_variables a))"

section \<open>The form of a save\<close>

text \<open>
  A row for a Step that needs a Secret: the options of its list, each a value and the name of the Secret it
  stands for, the one that is chosen, and what is typed.
\<close>

record binding_row =
  bw_step :: string
  bw_label :: string
  bw_options :: "(string \<times> string option) list"
  bw_chosen :: nat
  bw_variable :: string
  bw_secret_name :: string
  bw_secret_value :: string

definition secret_options :: "js list \<Rightarrow> (string \<times> string option) list" where
  "secret_options secrets =
     (''''  , None) # map (\<lambda>secret. (string_of_js (attr secret ''id''), Some (string_of_js (attr secret ''name'')))) secrets @
     [(''new'', None)]"

definition blank_row :: "js list \<Rightarrow> recorded_step \<Rightarrow> binding_row" where
  "blank_row secrets step =
     \<lparr>bw_step = rd_id step, bw_label = rd_label step, bw_options = secret_options secrets, bw_chosen = 0,
      bw_variable = [], bw_secret_name = [], bw_secret_value = []\<rparr>"

definition blank_rows :: "active_recording \<Rightarrow> binding_row list" where
  "blank_rows a = map (blank_row (ac_secrets a)) (filter rd_needs_secret (ac_steps a))"

definition blank_choice :: "capture_choice \<Rightarrow> capture_choice" where
  "blank_choice choice = choice\<lparr>ch_checked := False, ch_personal := False\<rparr>"

definition blank_choices :: "active_recording \<Rightarrow> capture_choice list" where
  "blank_choices a = map blank_choice (ac_choices a)"

definition chosen_option :: "binding_row \<Rightarrow> string \<times> string option" where
  "chosen_option row = (if bw_chosen row < length (bw_options row) then bw_options row ! bw_chosen row else ([], None))"

definition creates_secret :: "binding_row \<Rightarrow> bool" where
  "creates_secret row \<longleftrightarrow> fst (chosen_option row) = ''new''"

definition row_binding :: "binding_row \<Rightarrow> asked_binding" where
  "row_binding row =
     (let (ident, name) = chosen_option row in
      if ident = ''new'' then
        \<lparr>ab_binding = \<lparr>bi_step_id = bw_step row, bi_name = Some (bw_variable row), bi_secret = None\<rparr>,
         ab_create = Some (bw_secret_name row, bw_secret_value row)\<rparr>
      else
        \<lparr>ab_binding = \<lparr>bi_step_id = bw_step row, bi_name = Some (bw_variable row),
           bi_secret = (if ident = [] then None else Some (Str ident, Str (orelse name [])))\<rparr>,
         ab_create = None\<rparr>)"

text \<open>Of a choice only the domain, whether it is checked and for whom are sent.\<close>

definition sent_choice :: "capture_choice \<Rightarrow> capture_choice" where
  "sent_choice choice = choice\<lparr>ch_organization_saved_at := None, ch_personal_saved_at := None\<rparr>"

definition choice_hint :: "(string \<Rightarrow> string) \<Rightarrow> capture_choice \<Rightarrow> string" where
  "choice_hint format_date choice = (if ch_checked choice then replacement_hint format_date choice (ch_personal choice) else [])"

section \<open>The popup\<close>

record popup =
  pp_last :: "shown_state option"
  pp_address :: string
  pp_code :: string
  pp_fallback :: bool
  pp_note :: "string \<times> tone"
  pp_rows :: "binding_row list"
  pp_choices :: "capture_choice list"
  pp_target :: "(int \<times> string) option"

definition opened_popup :: popup where
  "opened_popup =
     \<lparr>pp_last = None, pp_address = [], pp_code = [], pp_fallback = False, pp_note = ([], Tone_info), pp_rows = [],
      pp_choices = [], pp_target = None\<rparr>"

text \<open>What a permission is asked for.\<close>

datatype purpose =
    For_connection
  | For_recording
  | For_saving "asked_binding list" "capture_choice list"

datatype popup_effect =
    Ask_connection
  | Announce_connect string connect_way string
  | Request_sites purpose "string list"
  | Ask_declined
  | Ask_finish_connect
  | Remember_address string
  | Announce_start int string
  | Ask_finish_start
  | Ask_stop
  | Ask_discard
  | Ask_disconnect
  | Ask_finalize "asked_binding list" "capture_choice list"

datatype connect_landing = Landed_late | Landed_opened | Landed_connected | Landed_refused "string option"

datatype popup_event =
    Tab_found "(int \<times> string) option"
  | First_answer shown_state
  | Connection_answered shown_state
  | Storage_changed
  | Address_edited string
  | Code_edited string
  | Connect_pressed connect_way
  | Permission_answered purpose bool
  | Ask_failed
  | Connect_landed connect_landing
  | Start_pressed
  | Start_landed "start_refusal option"
  | Stop_pressed
  | Discard_pressed bool
  | Recording_dropped
  | Disconnect_pressed
  | Row_edited nat "string option" "string option" "string option"
  | Secret_chosen nat nat
  | Choice_checked nat bool
  | Choice_destined nat bool
  | Save_pressed
  | Save_landed "save_refusal option"

definition say :: "string \<Rightarrow> tone \<Rightarrow> popup \<Rightarrow> popup" where
  "say sentence tone s = s\<lparr>pp_note := (sentence, tone)\<rparr>"

definition declined :: "popup \<Rightarrow> popup" where
  "declined s = say declined_text Tone_wait (s\<lparr>pp_fallback := True\<rparr>)"

definition short_address :: "url_parser \<Rightarrow> string \<Rightarrow> string" where
  "short_address parse typed = (case read_instance_url parse typed of Inr origin \<Rightarrow> origin | Inl _ \<Rightarrow> trim typed)"

definition render_save :: "shown_state \<Rightarrow> popup \<Rightarrow> popup" where
  "render_save answer s =
     (case sh_recording answer of
        Some a \<Rightarrow>
          if ac_state a = Ended_recording then s\<lparr>pp_rows := blank_rows a, pp_choices := blank_choices a\<rparr> else s
      | None \<Rightarrow> s)"

definition token_expired :: "shown_state \<Rightarrow> bool" where
  "token_expired answer \<longleftrightarrow> (case sh_recording answer of None \<Rightarrow> False | Some a \<Rightarrow> ac_expired a)"

definition show_state :: "shown_state \<Rightarrow> popup \<Rightarrow> popup" where
  "show_state answer s =
     (let s' = render_save answer (s\<lparr>pp_last := Some answer\<rparr>) in
      if sh_connection answer \<noteq> None
      then say (if token_expired answer then ''Open this Workflow in the app to resume.'' else []) Tone_wait s'
      else if sh_unanswered answer then declined s' else s')"

definition popup_shows :: "panel \<Rightarrow> popup \<Rightarrow> bool" where
  "popup_shows p s \<longleftrightarrow> (case pp_last s of None \<Rightarrow> False | Some answer \<Rightarrow> panel_shown p answer)"

definition press_connect :: "url_parser \<Rightarrow> connect_way \<Rightarrow> popup \<Rightarrow> popup \<times> popup_effect list" where
  "press_connect parse way s =
     (case read_instance_url parse (pp_address s) of
        Inl problem \<Rightarrow> (say (address_problem_text problem) Tone_bad s, [])
      | Inr origin \<Rightarrow>
          (say [] Tone_info s,
           [Announce_connect origin way (pp_code s), Request_sites For_connection [origin_pattern origin]]))"

definition landed :: "url_parser \<Rightarrow> connect_landing \<Rightarrow> popup \<Rightarrow> popup \<times> popup_effect list" where
  "landed parse answer s =
     (case answer of
        Landed_late \<Rightarrow> (s, [Ask_connection])
      | Landed_opened \<Rightarrow>
          (say (''Waiting for '' @ short_address parse (pp_address s) @ '' to hand the connection over'' @ ellipsis_text) Tone_info s, [])
      | Landed_connected \<Rightarrow> (s, [Ask_connection])
      | Landed_refused reason \<Rightarrow>
          (say (refusal_or (orelse reason []) (refusal_text ''failed'')) Tone_bad (s\<lparr>pp_fallback := (reason = Some ''bad-code'' \<or> pp_fallback s)\<rparr>), []))"

text \<open>The tab that the popup was opened on: only a page of the web is recorded.\<close>

definition press_start :: "url_parser \<Rightarrow> popup \<Rightarrow> popup \<times> popup_effect list" where
  "press_start parse s =
     (case pp_target s of
        Some (tab, url) \<Rightarrow>
          if prefix ''http:'' url \<or> prefix ''https:'' url then
            (case parse url of
               None \<Rightarrow> (s, [])
             | Some u \<Rightarrow> (s, [Announce_start tab url, Request_sites For_recording [origin_pattern (ur_origin u)]]))
          else (say ''Open the first web page you want to record, then try again.'' Tone_wait s, [])
      | None \<Rightarrow> (say ''Open the first web page you want to record, then try again.'' Tone_wait s, []))"

definition start_landed :: "start_refusal option \<Rightarrow> popup \<Rightarrow> popup \<times> popup_effect list" where
  "start_landed refusal s =
     (case refusal of
        None \<Rightarrow> (s, [Ask_connection])
      | Some r \<Rightarrow> (say (refusal_or (start_reason r) (refusal_text ''target-gone'')) Tone_bad s, [Ask_connection]))"

definition press_save :: "popup \<Rightarrow> popup \<times> popup_effect list" where
  "press_save s =
     (let bindings = map row_binding (pp_rows s);
          selections = map sent_choice (pp_choices s);
          sites = map (site_pattern \<circ> ch_domain) (filter ch_checked selections)
      in if sites = [] then (s, [Ask_finalize bindings selections])
         else (s, [Request_sites (For_saving bindings selections) sites]))"

definition save_landed :: "save_refusal option \<Rightarrow> popup \<Rightarrow> popup \<times> popup_effect list" where
  "save_landed refusal s =
     (case refusal of
        None \<Rightarrow> (s, [Ask_connection])
      | Some r \<Rightarrow>
          (say (orelse (save_message r) (refusal_or (save_reason r) ''The recording could not be saved.'')) Tone_bad s, []))"

definition permission_answered :: "purpose \<Rightarrow> bool \<Rightarrow> popup \<Rightarrow> popup \<times> popup_effect list" where
  "permission_answered purpose granted s =
     (case purpose of
        For_connection \<Rightarrow> if granted then (s, [Ask_finish_connect]) else (declined s, [Ask_declined])
      | For_recording \<Rightarrow>
          if granted then (s, [Ask_finish_start])
          else (say ''Nothing was recorded because Chrome did not grant access to this site.'' Tone_bad s, [])
      | For_saving bindings selections \<Rightarrow>
          if granted then (s, [Ask_finalize bindings selections])
          else (say (refusal_text ''login-not-permitted'') Tone_bad s, []))"

text \<open>Pressing \<open>Disconnect\<close> shows the popup without a connection earlier the service worker answers.\<close>

definition press_disconnect :: "popup \<Rightarrow> popup \<times> popup_effect list" where
  "press_disconnect s =
     (show_state \<lparr>sh_connection = None, sh_version = (case pp_last s of None \<Rightarrow> [] | Some answer \<Rightarrow> sh_version answer),
          sh_unanswered = False, sh_address = [], sh_recording = None\<rparr> s, [Ask_disconnect])"

definition edit_row :: "string option \<Rightarrow> string option \<Rightarrow> string option \<Rightarrow> binding_row \<Rightarrow> binding_row" where
  "edit_row variable name val row =
     row\<lparr>bw_variable := orelse variable (bw_variable row),
        bw_secret_name := (if creates_secret row then orelse name (bw_secret_name row) else bw_secret_name row),
        bw_secret_value := (if creates_secret row then orelse val (bw_secret_value row) else bw_secret_value row)\<rparr>"

definition choose_secret :: "nat \<Rightarrow> binding_row \<Rightarrow> binding_row" where
  "choose_secret spot row = (if spot < length (bw_options row) then row\<lparr>bw_chosen := spot\<rparr> else row)"

definition changed_at :: "nat \<Rightarrow> ('a \<Rightarrow> 'a) \<Rightarrow> 'a list \<Rightarrow> 'a list" where
  "changed_at i f xs = (if i < length xs then xs[i := f (xs ! i)] else xs)"

definition on_panel :: "panel \<Rightarrow> popup \<Rightarrow> popup \<times> popup_effect list \<Rightarrow> popup \<times> popup_effect list" where
  "on_panel p s result = (if popup_shows p s then result else (s, []))"

fun popup_step :: "url_parser \<Rightarrow> popup \<Rightarrow> popup_event \<Rightarrow> popup \<times> popup_effect list" where
  "popup_step parse s (Tab_found target) = (s\<lparr>pp_target := target\<rparr>, [])"
| "popup_step parse s (First_answer answer) = ((show_state answer s)\<lparr>pp_address := sh_address answer\<rparr>, [])"
| "popup_step parse s (Connection_answered answer) = (show_state answer s, [])"
| "popup_step parse s Storage_changed = (s, [Ask_connection])"
| "popup_step parse s (Address_edited text) = on_panel Connect_panel s (s\<lparr>pp_address := text\<rparr>, [Remember_address text])"
| "popup_step parse s (Code_edited text) = on_panel Connect_panel s (s\<lparr>pp_code := text\<rparr>, [])"
| "popup_step parse s (Connect_pressed way) = on_panel Connect_panel s (press_connect parse way s)"
| "popup_step parse s (Permission_answered purpose granted) = permission_answered purpose granted s"
| "popup_step parse s Ask_failed = (say (refusal_text ''failed'') Tone_bad s, [])"
| "popup_step parse s (Connect_landed answer) = landed parse answer s"
| "popup_step parse s Start_pressed = on_panel Pending_panel s (press_start parse s)"
| "popup_step parse s (Start_landed refusal) = start_landed refusal s"
| "popup_step parse s Stop_pressed = on_panel Active_panel s (s, [Ask_stop])"
| "popup_step parse s (Discard_pressed confirmed) = on_panel Save_panel s (s, if confirmed then [Ask_discard] else [])"
| "popup_step parse s Recording_dropped = (s, [Ask_connection])"
| "popup_step parse s Disconnect_pressed = on_panel Connected_panel s (press_disconnect s)"
| "popup_step parse s (Row_edited i variable name val) =
     on_panel Save_panel s (s\<lparr>pp_rows := changed_at i (edit_row variable name val) (pp_rows s)\<rparr>, [])"
| "popup_step parse s (Secret_chosen i spot) =
     on_panel Save_panel s (s\<lparr>pp_rows := changed_at i (choose_secret spot) (pp_rows s)\<rparr>, [])"
| "popup_step parse s (Choice_checked i checked) =
     on_panel Save_panel s (s\<lparr>pp_choices := changed_at i (ch_checked_update (\<lambda>_. checked)) (pp_choices s)\<rparr>, [])"
| "popup_step parse s (Choice_destined i personal) =
     on_panel Save_panel s (s\<lparr>pp_choices := changed_at i (\<lambda>choice. if ch_checked choice then choice\<lparr>ch_personal := personal\<rparr> else choice)
        (pp_choices s)\<rparr>, [])"
| "popup_step parse s Save_pressed = on_panel Save_panel s (press_save s)"
| "popup_step parse s (Save_landed refusal) = save_landed refusal s"

definition next_popup :: "url_parser \<Rightarrow> popup \<Rightarrow> popup_event \<Rightarrow> popup" where
  "next_popup parse s e = fst (popup_step parse s e)"

definition popup_effects :: "url_parser \<Rightarrow> popup \<Rightarrow> popup_event \<Rightarrow> popup_effect list" where
  "popup_effects parse s e = snd (popup_step parse s e)"

section \<open>The invariant\<close>

text \<open>The form that is shown belongs to the recording that is shown, whatever was done in it.\<close>

definition recording_shown :: "popup \<Rightarrow> active_recording option" where
  "recording_shown s = (pp_last s \<bind> sh_recording)"

definition form_fits :: "active_recording \<Rightarrow> popup \<Rightarrow> bool" where
  "form_fits a s \<longleftrightarrow>
     map bw_step (pp_rows s) = map rd_id (filter rd_needs_secret (ac_steps a)) \<and>
     (\<forall>row \<in> set (pp_rows s). bw_options row = secret_options (ac_secrets a) \<and> bw_chosen row < length (secret_options (ac_secrets a))) \<and>
     map ch_domain (pp_choices s) = map ch_domain (ac_choices a)"

definition popup_ok :: "popup \<Rightarrow> bool" where
  "popup_ok s \<longleftrightarrow>
     (\<forall>a. recording_shown s = Some a \<and> ac_state a = Ended_recording \<longrightarrow> form_fits a s)"

lemma changed_at_map:
  "(\<And>x. g (f x) = g x) \<Longrightarrow> map g (changed_at i f xs) = map g xs"
  by (simp add: changed_at_def map_update list_update_same_conv)

lemma in_changed_at: "x \<in> set (changed_at i f xs) \<Longrightarrow> x \<in> set xs \<or> (\<exists>y \<in> set xs. x = f y)"
  by (auto simp: changed_at_def split: if_splits dest!: set_update_subset_insert [THEN subsetD])

lemma edit_row_frame [simp]:
  "bw_step (edit_row variable name val row) = bw_step row"
  "bw_options (edit_row variable name val row) = bw_options row"
  "bw_chosen (edit_row variable name val row) = bw_chosen row"
  by (simp_all add: edit_row_def)

lemma choose_secret_frame [simp]:
  "bw_step (choose_secret spot row) = bw_step row" "bw_options (choose_secret spot row) = bw_options row"
  "bw_chosen row < length (bw_options row) \<Longrightarrow> bw_chosen (choose_secret spot row) < length (bw_options row)"
  by (simp_all add: choose_secret_def)

lemma say_frame [simp]:
  "pp_last (say sentence tone s) = pp_last s" "pp_rows (say sentence tone s) = pp_rows s"
  "pp_choices (say sentence tone s) = pp_choices s" "pp_last (declined s) = pp_last s" "pp_rows (declined s) = pp_rows s"
  "pp_choices (declined s) = pp_choices s"
  by (simp_all add: say_def declined_def)

lemma popup_ok_frame:
  "popup_ok s \<Longrightarrow> pp_last s' = pp_last s \<Longrightarrow> pp_rows s' = pp_rows s \<Longrightarrow> pp_choices s' = pp_choices s \<Longrightarrow> popup_ok s'"
  unfolding popup_ok_def form_fits_def recording_shown_def by auto

lemma secret_options_nonempty [simp]: "secret_options secrets \<noteq> []"
  by (simp add: secret_options_def)

lemma blank_form_fits: "form_fits a (s\<lparr>pp_rows := blank_rows a, pp_choices := blank_choices a\<rparr>)"
  by (auto simp: form_fits_def blank_rows_def blank_row_def blank_choices_def blank_choice_def)

lemma show_state_ok: "popup_ok (show_state answer s)"
proof -
  have "form_fits a s'" if "pp_rows s' = blank_rows a" "pp_choices s' = blank_choices a" for a s'
    using blank_form_fits [of a s'] that by (simp add: form_fits_def)
  then show ?thesis
    by (auto simp: popup_ok_def show_state_def render_save_def recording_shown_def Let_def split: option.splits)
qed

lemma popup_ok_rows:
  assumes "popup_ok s" and "\<And>row. bw_step (f row) = bw_step row" and "\<And>row. bw_options (f row) = bw_options row"
    and "\<And>row. bw_chosen row < length (bw_options row) \<Longrightarrow> bw_chosen (f row) < length (bw_options row)"
  shows "popup_ok (s\<lparr>pp_rows := changed_at i f (pp_rows s)\<rparr>)"
  using assms(1) unfolding popup_ok_def form_fits_def recording_shown_def
  by (auto simp: changed_at_map [where g = bw_step and f = f, OF assms(2)] assms(3) dest!: in_changed_at) (metis assms(4))

lemma popup_ok_choices:
  assumes "popup_ok s" and "\<And>choice. ch_domain (f choice) = ch_domain choice"
  shows "popup_ok (s\<lparr>pp_choices := changed_at i f (pp_choices s)\<rparr>)"
  using assms(1) unfolding popup_ok_def form_fits_def recording_shown_def
  by (auto simp: changed_at_map [where g = ch_domain and f = f, OF assms(2)])

lemmas popup_defs = on_panel_def press_connect_def landed_def press_start_def start_landed_def press_save_def save_landed_def
  permission_answered_def press_disconnect_def

lemmas popup_splits = option.splits sum.splits prod.splits purpose.splits connect_landing.splits if_splits

lemma popup_ok_step: "popup_ok s \<Longrightarrow> popup_ok (next_popup parse s e)"
  unfolding next_popup_def
  by (cases e)
    (auto simp: popup_defs Let_def popup_ok_rows popup_ok_choices show_state_ok split: popup_splits intro: popup_ok_frame popup_ok_frame [OF show_state_ok])

interpretation popup: reducer "next_popup parse" popup_ok for parse
  by unfold_locales (rule popup_ok_step)

text \<open>Where a row's Secret comes from.\<close>

lemma row_binding_step [simp]: "bi_step_id (ab_binding (row_binding row)) = bw_step row"
  by (simp add: row_binding_def Let_def split: prod.split)

lemma row_binding_create: "ab_create (row_binding row) = (if creates_secret row then Some (bw_secret_name row, bw_secret_value row) else None)"
  by (simp add: row_binding_def creates_secret_def Let_def split: prod.split)

lemma created_has_no_secret: "creates_secret row \<Longrightarrow> bi_secret (ab_binding (row_binding row)) = None"
  by (cases "chosen_option row") (simp add: row_binding_def creates_secret_def)

definition row_filled :: "binding_row \<Rightarrow> bool" where
  "row_filled row \<longleftrightarrow>
     variable_name (trim (bw_variable row)) \<and>
     (case chosen_option row of
        (ident, Some name) \<Rightarrow> ident \<noteq> [] \<and> ident \<noteq> ''new'' \<and> name \<noteq> []
      | (_, None) \<Rightarrow> False)"

lemma row_filled_binding:
  assumes "row_filled row"
  obtains ident name where "row_binding row = \<lparr>ab_binding = \<lparr>bi_step_id = bw_step row, bi_name = Some (bw_variable row),
      bi_secret = Some (Str ident, Str name)\<rparr>, ab_create = None\<rparr>" "ident \<noteq> []" "name \<noteq> []"
proof -
  obtain ident name where "chosen_option row = (ident, Some name)" "ident \<noteq> []" "ident \<noteq> ''new''" "name \<noteq> []"
    using assms by (auto simp: row_filled_def split: prod.splits option.splits)
  then show ?thesis by (intro that [of ident name]) (simp_all add: row_binding_def)
qed

lemma resolved_filled:
  "\<forall>row \<in> set rows. row_filled row \<Longrightarrow>
   resolve_recording_secrets create (map row_binding rows) = Inr (map (ab_binding \<circ> row_binding) rows)"
proof (induction rows)
  case (Cons row rows)
  then have "row_filled row" by simp
  then show ?case by (rule row_filled_binding) (use Cons in simp)
qed simp

text \<open>The rows as the service worker finds them: by the id of their Step.\<close>

lemma bindings_by_row:
  assumes "distinct (map bw_step rows)" and "row \<in> set rows"
  shows "bindings_by_step (map (ab_binding \<circ> row_binding) rows) (bw_step row) = Some (ab_binding (row_binding row))"
proof -
  have "map_of (rev (map (\<lambda>row. (bw_step row, ab_binding (row_binding row))) rows)) (bw_step row) =
      Some (ab_binding (row_binding row))"
    using assms by (intro map_of_is_SomeI) (auto simp: rev_map [symmetric] comp_def distinct_rev)
  then show ?thesis by (simp add: bindings_by_step_def comp_def)
qed

lemma filled_rows_fit:
  assumes "map bw_step rows = map rd_id (filter rd_needs_secret steps)" and "distinct (map rd_id steps)"
    and "\<forall>row \<in> set rows. row_filled row \<and> declared (Str (trim (bw_variable row))) = None"
    and "distinct (map (trim \<circ> bw_variable) rows)"
  shows "bindings_fit (bindings_by_step (map (ab_binding \<circ> row_binding) rows)) declared [] steps"
proof -
  let ?by = "bindings_by_step (map (ab_binding \<circ> row_binding) rows)"
  have ids: "distinct (map bw_step rows)"
    using assms(1,2) by (metis distinct_map_filter)
  have row_of: "\<exists>row \<in> set rows. bw_step row = rd_id step \<and>
      (\<exists>secret. binding_of ?by step = Some (trim (bw_variable row), secret))"
    if step: "step \<in> set steps" "rd_needs_secret step" for step
  proof -
    have "rd_id step \<in> set (map bw_step rows)" using step by (auto simp: assms(1))
    then obtain row where row: "row \<in> set rows" "bw_step row = rd_id step" by auto
    then have filled: "row_filled row" using assms(3) by blast
    from filled obtain ident name where "row_binding row = \<lparr>ab_binding = \<lparr>bi_step_id = bw_step row, bi_name = Some (bw_variable row),
        bi_secret = Some (Str ident, Str name)\<rparr>, ab_create = None\<rparr>" "ident \<noteq> []" "name \<noteq> []" by (rule row_filled_binding)
    then have "binding_of ?by step = Some (trim (bw_variable row), ident, name)"
      using bindings_by_row [OF ids row(1)] row(2) filled
      by (auto simp: binding_of_def chosen_secret_def row_filled_def dest: variable_name_nonempty)
    with row show ?thesis by blast
  qed
  show ?thesis unfolding bindings_fit_def binding_fits_def
  proof (intro ballI impI)
    fix step assume "step \<in> set steps" "rd_needs_secret step"
    from row_of [OF this] obtain row secret where row: "row \<in> set rows" "bw_step row = rd_id step"
      "binding_of ?by step = Some (trim (bw_variable row), secret)" by blast
    have "fst secret' = fst secret"
      if other: "other \<in> set steps" "rd_needs_secret other" "binding_of ?by other = Some (trim (bw_variable row), secret')"
      for other secret'
    proof -
      from row_of [OF other(1,2)] obtain row' where row': "row' \<in> set rows" "bw_step row' = rd_id other"
        "trim (bw_variable row') = trim (bw_variable row)" using other(3) by auto
      then have "row' = row" using row(1) assms(4) by (auto simp: distinct_map inj_on_def)
      then have "rd_id other = rd_id step" using row(2) row'(2) by simp
      then have "binding_of ?by other = binding_of ?by step" by (simp add: binding_of_def)
      then show ?thesis using row(3) other(3) by simp
    qed
    then show "\<exists>name secret. binding_of ?by step = Some (name, secret) \<and>
        (\<forall>v. declared (Str name) = Some v \<longrightarrow> field v ''secret'' = Bool True) \<and>
        (\<forall>p. map_of [] name = Some p \<longrightarrow> field p ''secretId'' = Str (fst secret)) \<and>
        (\<forall>other\<in>set steps. \<forall>secret'. rd_needs_secret other \<longrightarrow>
          binding_of ?by other = Some (name, secret') \<longrightarrow> fst secret' = fst secret)"
      using row assms(3) by (intro exI [of _ "trim (bw_variable row)"] exI [of _ secret]) auto
  qed
qed

lemma resolved_taken:
  "\<forall>row \<in> set rows. creates_secret row \<longrightarrow>
     create (bw_secret_name row) (bw_secret_value row) = Refused 409 (Some ''name_taken'') \<Longrightarrow>
   \<exists>row \<in> set rows. creates_secret row \<Longrightarrow>
   resolve_recording_secrets create (map row_binding rows) = Inl Name_is_taken"
proof (induction rows)
  case (Cons row rows)
  show ?case
  proof (cases "creates_secret row")
    case True
    then obtain b where "row_binding row = b" "bi_secret (ab_binding b) = None"
        "ab_create b = Some (bw_secret_name row, bw_secret_value row)"
      by (simp add: row_binding_create created_has_no_secret)
    then show ?thesis using Cons.prems(1) True by (simp add: refused_creation_def)
  next
    case False
    then have "ab_create (row_binding row) = None" by (simp add: row_binding_create)
    then show ?thesis using Cons False by (auto split: option.split js.split)
  qed
qed simp

text \<open>What is asked for, by event.\<close>

lemma asked_to_save:
  "Ask_finalize bindings selections \<in> set (popup_effects parse s e) \<Longrightarrow>
   e = Permission_answered (For_saving bindings selections) True \<or>
   e = Save_pressed \<and> popup_shows Save_panel s \<and> filter ch_checked selections = []"
  unfolding popup_effects_def
  by (cases e) (auto simp: popup_defs Let_def split: popup_splits)

lemma asked_for_logins:
  "Request_sites (For_saving bindings selections) sites \<in> set (popup_effects parse s e) \<Longrightarrow>
   sites = map (site_pattern \<circ> ch_domain) (filter ch_checked selections)"
  unfolding popup_effects_def
  by (cases e) (auto simp: popup_defs Let_def split: popup_splits)

section \<open>Properties\<close>

text \<open>C20. When every row of the form of an ended recording has a Variable of its own, not yet declared, and one of the
  Secrets, and no login is checked, pressing Save asks for a save that goes through: whatever was done in
  the popup before, the service worker finds a binding for every Step that needs one.\<close>

theorem filled_form_is_saved:
  assumes "recording_shown (foldl (next_popup parse) opened_popup es) = Some a"
    and "ac_state a = Ended_recording" and "distinct (map rd_id (ac_steps a))"
    and "\<forall>row \<in> set (pp_rows (foldl (next_popup parse) opened_popup es)). row_filled row \<and>
      declared_map (map fields_of_js (ac_variables a)) (Str (trim (bw_variable row))) = None"
    and "distinct (map (trim \<circ> bw_variable) (pp_rows (foldl (next_popup parse) opened_popup es)))"
    and "\<forall>choice \<in> set (pp_choices (foldl (next_popup parse) opened_popup es)). \<not> ch_checked choice"
    and "\<forall>document. finalize document = Answered ()"
  shows "\<exists>bindings selections.
    popup_effects parse (foldl (next_popup parse) opened_popup es) Save_pressed = [Ask_finalize bindings selections] \<and>
    finalize_recording create upload finalize bindings selections a =
      (None, None, [Broadcast ''recording-finished'' (ac_session a) []])"
proof -
  let ?s = "foldl (next_popup parse) opened_popup es"
  have "popup_ok opened_popup" by (simp add: popup_ok_def recording_shown_def opened_popup_def)
  from popup.run_inv [OF this, of parse es] have fits: "form_fits a ?s"
    using assms(1,2) by (simp add: popup_ok_def)
  have none: "filter ch_checked (map sent_choice (pp_choices ?s)) = []"
    using assms(6) by (auto simp: filter_empty_conv sent_choice_def)
  have "popup_shows Save_panel ?s"
    using assms(1,2) by (auto simp: popup_shows_def recording_shown_def bind_eq_Some_conv)
  then have asked: "popup_effects parse ?s Save_pressed =
      [Ask_finalize (map row_binding (pp_rows ?s)) (map sent_choice (pp_choices ?s))]"
    using none by (simp add: popup_effects_def on_panel_def press_save_def Let_def)
  have "bindings_fit (bindings_by_step (map (ab_binding \<circ> row_binding) (pp_rows ?s)))
      (declared_map (map fields_of_js (ac_variables a))) [] (ac_steps a)"
    using fits assms(3,4,5) by (intro filled_rows_fit) (auto simp: form_fits_def)
  then obtain doc where doc: "bind_secret_steps (ac_steps a) (map (ab_binding \<circ> row_binding) (pp_rows ?s))
      (map fields_of_js (ac_variables a)) = Inr doc"
    unfolding recording_binds_iff [symmetric] by blast
  have "resolve_recording_secrets create (map row_binding (pp_rows ?s)) = Inr (map (ab_binding \<circ> row_binding) (pp_rows ?s))"
    using assms(4) by (intro resolved_filled) blast
  then show ?thesis
    using asked doc none assms(2,7) by (intro exI) (auto simp: finalize_recording_def)
qed

text \<open>A recording with one password, reviewed in the popup.\<close>

definition reviewed :: active_recording where
  "reviewed = sample_started
     \<lparr>ac_state := Ended_recording, ac_steps := [password_step ''p1''],
      ac_secrets := [Obj [(''id'', Str ''k1''), (''name'', Str ''Login'')]], ac_variables := [],
      ac_choices := [\<lparr>ch_domain = ''sbs.test'', ch_checked = False, ch_personal = False,
        ch_organization_saved_at = None, ch_personal_saved_at = None\<rparr>]\<rparr>"

definition review_events :: "nat \<Rightarrow> popup_event list" where
  "review_events choice =
     [First_answer (connection_answer ''1.0'' 0 (unconnected\<lparr>cn_connection := Some ''https://sbs.test''\<rparr>) (Some reviewed)),
      Row_edited 0 (Some ''pin'') None None, Secret_chosen 0 choice]"

lemmas review_defs = review_events_def next_popup_def show_state_def render_save_def connection_answer_def unconnected_def
  reviewed_def opened_popup_def say_def blank_rows_def blank_row_def blank_choices_def blank_choice_def secret_options_def
  on_panel_def popup_shows_def changed_at_def edit_row_def choose_secret_def recording_shown_def token_expired_def
  password_step_def field_def Let_def

theorem filled_form_is_saved_witness:
  "\<exists>bindings selections.
    popup_effects sample_parser (foldl (next_popup sample_parser) opened_popup (review_events 1)) Save_pressed =
      [Ask_finalize bindings selections] \<and>
    finalize_recording (\<lambda>_ _. Unreachable) (\<lambda>_. None) (\<lambda>_. Answered ()) bindings selections reviewed =
      (None, None, [Broadcast ''recording-finished'' (ac_session reviewed) []])"
proof (rule filled_form_is_saved)
  let ?s = "foldl (next_popup sample_parser) opened_popup (review_events 1)"
  show "recording_shown ?s = Some reviewed" by (simp add: review_defs)
  show "ac_state reviewed = Ended_recording" "distinct (map rd_id (ac_steps reviewed))" by (simp_all add: reviewed_def)
  have rows: "pp_rows ?s = [\<lparr>bw_step = ''p1'', bw_label = rd_label (password_step ''p1''),
      bw_options = [([], None), (''k1'', Some ''Login''), (''new'', None)], bw_chosen = 1, bw_variable = ''pin'',
      bw_secret_name = [], bw_secret_value = []\<rparr>]"
    by (simp add: review_defs)
  have "variable_name (trim ''pin'')" by code_simp
  then show "\<forall>row \<in> set (pp_rows ?s). row_filled row \<and>
      declared_map (map fields_of_js (ac_variables reviewed)) (Str (trim (bw_variable row))) = None"
    unfolding rows by (simp add: row_filled_def chosen_option_def declared_map_def reviewed_def)
  show "distinct (map (trim \<circ> bw_variable) (pp_rows ?s))" unfolding rows by simp
  show "\<forall>choice \<in> set (pp_choices ?s). \<not> ch_checked choice" by (simp add: review_defs)
qed simp

text \<open>A save with logins is asked of the service worker only once the browser granted the sites that were asked for,
  which are those of the checked logins: with that grant the copying of the logins is not refused for
  want of a permission.\<close>

theorem logins_are_permitted_first:
  assumes "Ask_finalize bindings selections \<in> set (popup_effects parse s e)"
    and "filter ch_checked selections \<noteq> []"
  shows "e = Permission_answered (For_saving bindings selections) True \<and>
    (Request_sites (For_saving bindings selections) sites \<in> set (popup_effects parse s' e') \<and>
      (\<forall>site \<in> set sites. permitted site) \<longrightarrow>
      upload_auth_states permitted capture upload (filter ch_checked selections) \<noteq> Some Login_not_permitted)"
proof (intro conjI impI)
  show "e = Permission_answered (For_saving bindings selections) True"
    using asked_to_save [OF assms(1)] assms(2) by blast
  assume "Request_sites (For_saving bindings selections) sites \<in> set (popup_effects parse s' e') \<and>
      (\<forall>site \<in> set sites. permitted site)"
  then have "\<forall>choice \<in> set (filter ch_checked selections). permitted (site_pattern (ch_domain choice))"
    using asked_for_logins by fastforce
  then have "\<not> list_ex (\<lambda>choice. \<not> permitted (site_pattern (ch_domain choice))) (filter ch_checked selections)"
    by (simp add: list_ex_iff)
  then show "upload_auth_states permitted capture upload (filter ch_checked selections) \<noteq> Some Login_not_permitted"
    by (simp add: upload_auth_states_def split: api_answer.split)
qed

theorem logins_are_permitted_first_witness:
  "upload_auth_states (\<lambda>site. site = ''*://*.sbs.test/*'') (\<lambda>_. undefined) (\<lambda>_. Answered ())
     [(hd (ac_choices reviewed))\<lparr>ch_checked := True\<rparr>] \<noteq> Some Login_not_permitted"
proof -
  let ?choice = "(hd (ac_choices reviewed))\<lparr>ch_checked := True\<rparr>"
  let ?s = "opened_popup\<lparr>pp_last := Some (connection_answer ''1.0'' 0 unconnected (Some reviewed)), pp_choices := [?choice]\<rparr>"
  have "Ask_finalize [] [?choice] \<in> set (popup_effects sample_parser ?s (Permission_answered (For_saving [] [?choice]) True))"
    by (simp add: popup_effects_def permission_answered_def)
  moreover have "Request_sites (For_saving [] [?choice]) [''*://*.sbs.test/*''] \<in> set (popup_effects sample_parser ?s Save_pressed)"
    by (simp add: popup_effects_def press_save_def review_defs sent_choice_def site_pattern_def is_address_def)
  ultimately show ?thesis
    using logins_are_permitted_first [of "[]" "[?choice]" sample_parser ?s "Permission_answered (For_saving [] [?choice]) True"]
    by fastforce
qed

text \<open>Why a recording could not be started is not to be read: the popup says it and asks for the state, and the answer,
  while the browser is connected, empties the line again.\<close>

theorem refused_start_is_not_told:
  assumes "sh_connection answer \<noteq> None" and "\<not> token_expired answer"
  shows "pp_note (next_popup parse s (Start_landed (Some refusal))) =
      (refusal_or (start_reason refusal) (refusal_text ''target-gone''), Tone_bad) \<and>
    popup_effects parse s (Start_landed (Some refusal)) = [Ask_connection] \<and>
    pp_note (next_popup parse (next_popup parse s (Start_landed (Some refusal))) (Connection_answered answer)) = ([], Tone_wait)"
  using assms
  by (auto simp: next_popup_def popup_effects_def start_landed_def show_state_def say_def Let_def)

theorem refused_start_is_not_told_witness:
  "pp_note (next_popup sample_parser (next_popup sample_parser opened_popup (Start_landed (Some Instance_tab)))
     (Connection_answered (connection_answer ''1.0'' 0 (unconnected\<lparr>cn_connection := Some ''https://sbs.test''\<rparr>) (Some sample_pending))))
   = ([], Tone_wait)"
  using refused_start_is_not_told [of "connection_answer ''1.0'' 0 (unconnected\<lparr>cn_connection := Some ''https://sbs.test''\<rparr>)
      (Some sample_pending)" sample_parser opened_popup Instance_tab]
  by (simp add: connection_answer_def token_expired_def sample_pending_def pending_recording_def)

text \<open>What was typed in the form of a save is lost when the token of the recording is renewed, and when it is found to
  be too old: the stored recording changes, the popup asks for the state, and draws the form anew.\<close>

theorem renewed_token_empties_the_form:
  assumes "ac_state a = Ended_recording"
    and "renew_token message (Some a) = (Token_accepted, Some a', sent) \<or> a' = fst (mark_token_expired a)"
  shows "popup_effects parse s Storage_changed = [Ask_connection] \<and>
    (let s' = next_popup parse (next_popup parse s Storage_changed)
           (Connection_answered (connection_answer version now c (Some a')))
     in pp_rows s' = blank_rows a \<and> pp_choices s' = blank_choices a \<and>
        list_all (\<lambda>row. bw_variable row = [] \<and> bw_secret_value row = []) (pp_rows s'))"
proof -
  have same: "ac_state a' = Ended_recording" "blank_rows a' = blank_rows a" "blank_choices a' = blank_choices a"
    using assms by (auto simp: renew_token_def mark_token_expired_def blank_rows_def blank_choices_def split: if_splits)
  have "list_all (\<lambda>row. bw_variable row = [] \<and> bw_secret_value row = []) (blank_rows a)"
    by (simp add: blank_rows_def blank_row_def list_all_iff)
  then show ?thesis
    using same by (simp add: next_popup_def popup_effects_def show_state_def render_save_def connection_answer_def Let_def
      say_def declined_def)
qed

theorem renewed_token_empties_the_form_witness:
  "pp_rows (next_popup sample_parser (next_popup sample_parser
     (foldl (next_popup sample_parser) opened_popup (review_events 1)) Storage_changed)
     (Connection_answered (connection_answer ''1.0'' 0 unconnected (Some (fst (mark_token_expired reviewed)))))) = blank_rows reviewed"
  using renewed_token_empties_the_form [of reviewed Null "fst (mark_token_expired reviewed)" "[]"]
  by (simp add: Let_def reviewed_def)

text \<open>A save that creates a Secret and is then refused for its bindings cannot be repeated as it stands: the form keeps the
  row that creates the Secret, and the API, which has it now, refuses the name.\<close>

theorem retried_save_is_refused:
  assumes "fst (finalize_recording create upload finalize (map row_binding (pp_rows s)) selections a) = Some (Needs_secret message)"
    and "\<exists>row \<in> set (pp_rows s). creates_secret row"
    and "\<forall>row \<in> set (pp_rows s). creates_secret row \<longrightarrow>
      create' (bw_secret_name row) (bw_secret_value row) = Refused 409 (Some ''name_taken'')"
  shows "fst (snd (finalize_recording create upload finalize (map row_binding (pp_rows s)) selections a)) = Some a \<and>
    pp_rows (next_popup parse s (Save_landed (Some (Needs_secret message)))) = pp_rows s \<and>
    fst (finalize_recording create' upload' finalize' (map row_binding (pp_rows s)) selections a) = Some Name_is_taken"
proof -
  have kept: "ac_state a = Ended_recording \<and>
      fst (snd (finalize_recording create upload finalize (map row_binding (pp_rows s)) selections a)) = Some a"
    using assms(1) by (auto simp: finalize_recording_def refuse_save_def Let_def split: sum.splits option.splits api_answer.splits if_splits prod.splits)
  have "resolve_recording_secrets create' (map row_binding (pp_rows s)) = Inl Name_is_taken"
    using assms(2,3) by (intro resolved_taken) auto
  then have "fst (finalize_recording create' upload' finalize' (map row_binding (pp_rows s)) selections a) = Some Name_is_taken"
    using kept by (simp add: finalize_recording_def refuse_save_def)
  moreover have "pp_rows (next_popup parse s (Save_landed (Some (Needs_secret message)))) = pp_rows s"
    by (simp add: next_popup_def save_landed_def)
  ultimately show ?thesis using kept by blast
qed

theorem retried_save_is_refused_witness:
  "fst (finalize_recording (\<lambda>_ _. Refused 409 (Some ''name_taken'')) (\<lambda>_. None) (\<lambda>_. Answered ())
     (map row_binding [(blank_row (ac_secrets reviewed) (password_step ''p1''))\<lparr>bw_chosen := 2, bw_secret_name := ''Mail''\<rparr>])
     [] reviewed) = Some Name_is_taken"
proof -
  let ?row = "(blank_row (ac_secrets reviewed) (password_step ''p1''))\<lparr>bw_chosen := 2, bw_secret_name := ''Mail''\<rparr>"
  let ?s = "opened_popup\<lparr>pp_rows := [?row]\<rparr>"
  have creates: "creates_secret ?row"
    by (simp add: creates_secret_def chosen_option_def review_defs)
  moreover have "fst (finalize_recording (\<lambda>_ _. Answered (Str ''k2'', Str ''Mail'')) (\<lambda>_. None) (\<lambda>_. Answered ())
      (map row_binding (pp_rows ?s)) [] reviewed) = Some (Needs_secret ''Bind every password Step before saving.'')"
    by code_simp
  ultimately show ?thesis
    using retried_save_is_refused [of "\<lambda>_ _. Answered (Str ''k2'', Str ''Mail'')" "\<lambda>_. None" "\<lambda>_. Answered ()" ?s "[]" reviewed
      "''Bind every password Step before saving.''" "\<lambda>_ _. Refused 409 (Some ''name_taken'')" sample_parser "\<lambda>_. None" "\<lambda>_. Answered ()"]
    by simp
qed

end
