(* ===== verification/Sse.thy ===== *)
theory Sse
  imports RunEvents BatchEvents
begin

text \<open>
  The reader of server-sent events of the API client (\<open>packages/api-client/src/generated/core/serverSentEvents.gen.ts\<close>), what
  the hooks of the pages hand on of it (\<open>runs/[id]/use-run-stream.ts\<close>, \<open>batches/[id]/use-batch-stream.ts\<close>), and the frames
  that the API writes (\<open>fan_out\<close> in \<open>runs/routes.py\<close>). \<open>JSON.parse\<close> is an argument, \<open>None\<close> where it throws: its numbers
  need not be whole. No statement supposes anything of it.
\<close>

section \<open>Cutting a text into frames\<close>

abbreviation "LF \<equiv> CHR 0x0A"
abbreviation "CR \<equiv> CHR 0x0D"

text \<open>\<open>buffer.replace(/\r\n?/g, '\n')\<close>\<close>

fun newlines :: "string \<Rightarrow> string" where
  "newlines [] = []"
| "newlines [c] = [if c = CR then LF else c]"
| "newlines (c # d # s) =
     (if c = CR then LF # (if d = LF then newlines s else newlines (d # s)) else c # newlines (d # s))"

text \<open>\<open>buffer.split('\n\n')\<close>\<close>

fun split_blank :: "string \<Rightarrow> string list" where
  "split_blank [] = [[]]"
| "split_blank [c] = [[c]]"
| "split_blank (c # d # s) =
     (if c = LF \<and> d = LF then [] # split_blank s
      else (case split_blank (d # s) of [] \<Rightarrow> [[c]] | piece # pieces \<Rightarrow> (c # piece) # pieces))"

section \<open>A frame\<close>

text \<open>What follows a label: \<open>line.replace(/^label:\s*/, '')\<close>.\<close>

definition after_label :: "string \<Rightarrow> string \<Rightarrow> string" where
  "after_label label line = strip white (drop (length label) line)"

text \<open>\<open>Number.parseInt(text, 10)\<close>, \<open>None\<close> for \<open>NaN\<close>.\<close>

definition parse_int :: "string \<Rightarrow> int option" where
  "parse_int text_read =
     (let trimmed = strip white text_read;
          negative = (trimmed \<noteq> [] \<and> hd trimmed = CHR ''-'');
          unsigned = (if trimmed \<noteq> [] \<and> hd trimmed \<in> {CHR ''-'', CHR ''+''} then tl trimmed else trimmed);
          digits = takeWhile is_digit unsigned
      in if digits = [] then None else Some ((if negative then -1 else 1) * int (digits_val digits)))"

record frame_lines =
  fl_data :: "string list"
  fl_event :: "string option"
  fl_id :: "string option"
  fl_delay :: int

definition read_line :: "string \<Rightarrow> frame_lines \<Rightarrow> frame_lines" where
  "read_line line l =
     (if prefix ''data:'' line then l\<lparr>fl_data := fl_data l @ [after_label ''data:'' line]\<rparr>
      else if prefix ''event:'' line then l\<lparr>fl_event := Some (after_label ''event:'' line)\<rparr>
      else if prefix ''id:'' line then l\<lparr>fl_id := Some (after_label ''id:'' line)\<rparr>
      else if prefix ''retry:'' line then
        (case parse_int (after_label ''retry:'' line) of None \<Rightarrow> l | Some delay \<Rightarrow> l\<lparr>fl_delay := delay\<rparr>)
      else l)"

text \<open>What a stream keeps: the text that is not yet a frame, the id of the last event and the delay before a new attempt.\<close>

record sse =
  sq_buffer :: string
  sq_id :: "string option"
  sq_delay :: int

record frame =
  fr_data :: js
  fr_event :: "string option"
  fr_id :: "string option"
  fr_retry :: int

definition read_frame :: "(string \<Rightarrow> js option) \<Rightarrow> string \<Rightarrow> sse \<Rightarrow> sse \<times> frame" where
  "read_frame json chunk s =
     (let l = fold read_line (split_on LF chunk) \<lparr>fl_data = [], fl_event = None, fl_id = sq_id s, fl_delay = sq_delay s\<rparr>;
          raw = join [LF] (fl_data l)
      in (s\<lparr>sq_id := fl_id l, sq_delay := fl_delay l\<rparr>,
          \<lparr>fr_data = (if fl_data l = [] then Undefined else case json raw of Some v \<Rightarrow> v | None \<Rightarrow> Str raw),
           fr_event = fl_event l, fr_id = fl_id l, fr_retry = fl_delay l\<rparr>))"

fun read_frames :: "(string \<Rightarrow> js option) \<Rightarrow> string list \<Rightarrow> sse \<Rightarrow> sse \<times> frame list" where
  "read_frames json [] s = (s, [])"
| "read_frames json (chunk # chunks) s =
     (let (s', frame) = read_frame json chunk s; (s'', frames) = read_frames json chunks s' in (s'', frame # frames))"

section \<open>A stream\<close>

text \<open>What is read of the connection at once, and one such text after another.\<close>

definition read_chunk :: "(string \<Rightarrow> js option) \<Rightarrow> string \<Rightarrow> sse \<Rightarrow> sse \<times> frame list" where
  "read_chunk json received s =
     (let pieces = split_blank (newlines (sq_buffer s @ received))
      in read_frames json (butlast pieces) (s\<lparr>sq_buffer := last pieces\<rparr>))"

fun read_chunks :: "(string \<Rightarrow> js option) \<Rightarrow> string list \<Rightarrow> sse \<Rightarrow> sse \<times> frame list" where
  "read_chunks json [] s = (s, [])"
| "read_chunks json (received # later) s =
     (let (s', frames) = read_chunk json received s; (s'', frames') = read_chunks json later s' in (s'', frames @ frames'))"

definition fresh_stream :: "int option \<Rightarrow> sse" where
  "fresh_stream delay = \<lparr>sq_buffer = [], sq_id = None, sq_delay = orelse delay 3000\<rparr>"

text \<open>
  The attempts: what each receives and whether it fails in the end. A refused connection fails without having
  received anything.
\<close>

datatype sse_effect = Connects "string option" | Tells frame | Sleeps int

fun attempts ::
    "(string \<Rightarrow> js option) \<Rightarrow> int option \<Rightarrow> int option \<Rightarrow> nat \<Rightarrow> sse \<Rightarrow> (string list \<times> bool) list \<Rightarrow> sse_effect list" where
  "attempts json most longest n s [] = []"
| "attempts json most longest n s ((received, fails) # later) =
     (let (s', frames) = read_chunks json received (s\<lparr>sq_buffer := []\<rparr>)
      in Connects (sq_id s) # map Tells frames @
        (if \<not> fails then []
         else if most \<noteq> None \<and> the most \<le> int (n + 1) then []
         else Sleeps (min (sq_delay s' * 2 ^ n) (orelse longest 30000)) # attempts json most longest (n + 1) s' later))"

section \<open>What the pages hear\<close>

text \<open>The data of an event: an object, or an array by its indices, is handed on as it is.\<close>

fun data_fields :: "js \<Rightarrow> fields" where
  "data_fields (Obj fs) = fs"
| "data_fields (Arr vs) = zip (map show_nat [0..<length vs]) vs"
| "data_fields _ = []"

definition heard_frame :: "frame \<Rightarrow> (string \<times> fields) option" where
  "heard_frame frame = map_option (\<lambda>type. (type, data_fields (fr_data frame))) (fr_event frame)"

definition heard_frames :: "frame list \<Rightarrow> (string \<times> fields) list" where
  "heard_frames frames = List.map_filter heard_frame frames"

definition run_events_heard :: "(string \<Rightarrow> js option) \<Rightarrow> string list \<Rightarrow> run_event list" where
  "run_events_heard json received =
     map (\<lambda>(type, data). \<lparr>re_type = type, re_data = data\<rparr>) (heard_frames (snd (read_chunks json received (fresh_stream None))))"

definition batch_events_heard :: "(string \<Rightarrow> js option) \<Rightarrow> string list \<Rightarrow> batch_event list" where
  "batch_events_heard json received =
     map (\<lambda>(type, data). \<lparr>be_type = type, be_data = data\<rparr>) (heard_frames (snd (read_chunks json received (fresh_stream None))))"

section \<open>What the API writes\<close>

datatype sent = Sent string string | Kept_alive

fun written :: "sent \<Rightarrow> string" where
  "written (Sent type body) = ''event: '' @ type @ [LF] @ ''data: '' @ body @ [LF, LF]"
| "written Kept_alive = '':'' @ [LF, LF]"

fun told :: "(string \<Rightarrow> js option) \<Rightarrow> sent \<Rightarrow> (string \<times> fields) list" where
  "told json (Sent type body) = [(type, data_fields (case json body of Some v \<Rightarrow> v | None \<Rightarrow> Str body))]"
| "told json Kept_alive = []"

text \<open>Text on one line that begins with no white space: the name of an event, a value written by \<open>json.dumps\<close>.\<close>

definition one_line :: "string \<Rightarrow> bool" where
  "one_line t \<longleftrightarrow> LF \<notin> set t \<and> CR \<notin> set t \<and> lead white t = 0"

fun plain_sent :: "sent \<Rightarrow> bool" where
  "plain_sent (Sent type body) \<longleftrightarrow> one_line type \<and> one_line body"
| "plain_sent Kept_alive \<longleftrightarrow> True"

section \<open>Chunks\<close>

lemma newlines_plain: "CR \<notin> set s \<Longrightarrow> newlines s = s"
  by (induction s rule: newlines.induct) auto

lemma newlines_no_cr: "CR \<notin> set (newlines s)"
  by (induction s rule: newlines.induct) auto

lemma newlines_append: "(u \<noteq> [] \<Longrightarrow> last u \<noteq> CR) \<Longrightarrow> newlines (u @ v) = newlines u @ newlines v"
proof (induction u rule: newlines.induct)
  case (2 c)
  then show ?case by (cases v) auto
next
  case (3 c d s)
  then show ?case by (cases s) (auto split: if_splits)
qed simp

lemma split_blank_nonempty [simp]: "split_blank s \<noteq> []"
  by (induction s rule: split_blank.induct) (auto split: list.splits)

lemma split_blank_Cons:
  "\<not> (c = LF \<and> s \<noteq> [] \<and> hd s = LF) \<Longrightarrow> split_blank (c # s) = (c # hd (split_blank s)) # tl (split_blank s)"
  by (cases s) (auto split: list.splits)

lemma split_blank_single: "split_blank s = [w] \<Longrightarrow> w = s"
proof (induction s arbitrary: w rule: split_blank.induct)
  case (3 c d s)
  then show ?case by (auto split: if_splits list.splits)
qed simp_all

text \<open>What is left after the last frame is cut on with what comes next, as if both had come at once.\<close>

lemma split_blank_append:
  "split_blank (s @ t) = butlast (split_blank s) @ split_blank (last (split_blank s) @ t)"
proof (induction s rule: split_blank.induct)
  case (3 c d s)
  show ?case
  proof (cases "c = LF \<and> d = LF")
    case True
    then show ?thesis using 3(1) by simp
  next
    case False
    let ?p = "split_blank (d # s)"
    have IH: "split_blank ((d # s) @ t) = butlast ?p @ split_blank (last ?p @ t)" using 3(2) False by simp
    have whole: "split_blank (c # d # s @ t) = (c # hd (split_blank ((d # s) @ t))) # tl (split_blank ((d # s) @ t))"
      using False split_blank_Cons [of c "(d # s) @ t"] by auto
    have part: "split_blank (c # d # s) = (c # hd ?p) # tl ?p"
      using False split_blank_Cons [of c "d # s"] by auto
    show ?thesis
    proof (cases "tl ?p = []")
      case True
      then have "split_blank (c # d # s) = [c # d # s]"
        using split_blank_single [of "c # d # s"] part by simp
      then show ?thesis by (simp del: split_blank.simps)
    next
      case rest: False
      then obtain p q ps where "?p = p # q # ps" by (cases ?p; cases "tl ?p") auto
      then show ?thesis using IH whole part by (simp del: split_blank.simps)
    qed
  qed
qed simp_all

lemma last_split_blank: "split_blank (last (split_blank s)) = [last (split_blank s)]"
proof -
  have "split_blank s = butlast (split_blank s) @ split_blank (last (split_blank s))"
    using split_blank_append [of s "[]"] by simp
  then show ?thesis
    by (metis append_butlast_last_id append_same_eq same_append_eq split_blank_nonempty)
qed

lemma read_frames_append:
  "read_frames json (xs @ ys) s =
     (let (s', fs) = read_frames json xs s; (s'', gs) = read_frames json ys s' in (s'', fs @ gs))"
  by (induction xs arbitrary: s) (auto split: prod.splits)

lemma read_frame_buffer:
  "read_frame json x (s\<lparr>sq_buffer := b\<rparr>) = ((fst (read_frame json x s))\<lparr>sq_buffer := b\<rparr>, snd (read_frame json x s))"
  by (simp add: read_frame_def Let_def)

lemma read_frames_buffer:
  "read_frames json xs (s\<lparr>sq_buffer := b\<rparr>) = ((fst (read_frames json xs s))\<lparr>sq_buffer := b\<rparr>, snd (read_frames json xs s))"
  by (induction xs arbitrary: s) (simp_all add: case_prod_beta Let_def read_frame_buffer)

lemma read_frames_keeps_buffer: "sq_buffer (fst (read_frames json xs s)) = sq_buffer s"
proof -
  have "fst (read_frames json xs s) = (fst (read_frames json xs s))\<lparr>sq_buffer := sq_buffer s\<rparr>"
    using read_frames_buffer [where b = "sq_buffer s" and s = s and xs = xs and json = json] by (metis fst_conv sse.surjective sse.update_convs(1))
  then show ?thesis by (metis sse.select_convs(1) sse.surjective sse.update_convs(1))
qed

text \<open>The text that is kept has no carriage return and no frame.\<close>

definition kept_ok :: "sse \<Rightarrow> bool" where
  "kept_ok s \<longleftrightarrow> CR \<notin> set (sq_buffer s) \<and> split_blank (sq_buffer s) = [sq_buffer s]"

lemma set_split_blank: "piece \<in> set (split_blank s) \<Longrightarrow> set piece \<subseteq> set s"
proof (induction s arbitrary: piece rule: split_blank.induct)
  case (3 c d s)
  show ?case
  proof (cases "c = LF \<and> d = LF")
    case True
    then show ?thesis using 3 by auto
  next
    case False
    then have "split_blank (c # d # s) = (c # hd (split_blank (d # s))) # tl (split_blank (d # s))"
      using split_blank_Cons [of c "d # s"] by auto
    moreover have "hd (split_blank (d # s)) \<in> set (split_blank (d # s))" by simp
    moreover have "x \<in> set (tl (split_blank (d # s))) \<Longrightarrow> x \<in> set (split_blank (d # s))" for x
      by (simp add: list.set_sel(2))
    ultimately show ?thesis using 3(2) [OF False] 3(3) by fastforce
  qed
qed auto

lemma read_chunk_kept: "kept_ok (fst (read_chunk json received s))"
proof -
  let ?p = "split_blank (newlines (sq_buffer s @ received))"
  have "set (last ?p) \<subseteq> set (newlines (sq_buffer s @ received))" by (rule set_split_blank) simp
  then show ?thesis
    using newlines_no_cr last_split_blank
    by (auto simp: kept_ok_def read_chunk_def Let_def read_frames_keeps_buffer)
qed

lemma read_chunk_empty: "kept_ok s \<Longrightarrow> read_chunk json [] s = (s, [])"
  by (simp add: read_chunk_def Let_def kept_ok_def newlines_plain)

lemma read_chunk_append:
  assumes "kept_ok s" and "u \<noteq> [] \<Longrightarrow> last u \<noteq> CR"
  shows "read_chunk json (u @ v) s =
    (let (s', fs) = read_chunk json u s; (s'', gs) = read_chunk json v s' in (s'', fs @ gs))"
proof -
  have buffer: "newlines (sq_buffer s @ x) = sq_buffer s @ newlines x" for x
    using assms(1) newlines_append [of "sq_buffer s" x] newlines_plain [of "sq_buffer s"]
    by (metis kept_ok_def last_in_set)
  let ?p = "split_blank (sq_buffer s @ newlines u)"
  let ?q = "split_blank (last ?p @ newlines v)"
  have whole: "split_blank (newlines (sq_buffer s @ u @ v)) = butlast ?p @ ?q"
    using split_blank_append [of "sq_buffer s @ newlines u" "newlines v"] newlines_append [OF assms(2), of v] by (simp add: buffer)
  have first: "read_chunk json u s = read_frames json (butlast ?p) (s\<lparr>sq_buffer := last ?p\<rparr>)"
    by (simp add: read_chunk_def Let_def buffer)
  have "kept_ok (fst (read_chunk json u s))" by (rule read_chunk_kept)
  moreover have left: "sq_buffer (fst (read_chunk json u s)) = last ?p" by (simp add: first read_frames_keeps_buffer)
  ultimately have "newlines (last ?p @ v) = last ?p @ newlines v"
    using newlines_append [of "last ?p" v] newlines_plain [of "last ?p"] by (metis kept_ok_def last_in_set)
  then have second: "read_chunk json v (fst (read_chunk json u s)) =
      read_frames json (butlast ?q) ((fst (read_chunk json u s))\<lparr>sq_buffer := last ?q\<rparr>)"
    by (simp add: read_chunk_def [of json v] Let_def left)
  show ?thesis
    unfolding read_chunk_def [of json "u @ v"] Let_def whole
    by (simp add: butlast_append read_frames_append second case_prod_beta Let_def) (simp add: first read_frames_buffer)
qed

lemma read_chunks_append:
  "read_chunks json (xs @ ys) s =
     (let (s', fs) = read_chunks json xs s; (s'', gs) = read_chunks json ys s' in (s'', fs @ gs))"
  by (induction xs arbitrary: s) (auto split: prod.splits)

lemma read_chunks_concat:
  assumes "kept_ok s" and "\<forall>received \<in> set chunks. received \<noteq> [] \<longrightarrow> last received \<noteq> CR"
  shows "read_chunks json chunks s = read_chunk json (concat chunks) s"
  using assms
proof (induction chunks arbitrary: s)
  case Nil
  then show ?case by (simp add: read_chunk_empty)
next
  case (Cons received chunks)
  then have "read_chunks json chunks (fst (read_chunk json received s)) =
      read_chunk json (concat chunks) (fst (read_chunk json received s))"
    by (simp add: read_chunk_kept)
  then show ?case
    using Cons.prems by (simp add: read_chunk_append case_prod_beta Let_def)
qed

lemma fresh_kept [simp]: "kept_ok (fresh_stream delay)"
  by (simp add: kept_ok_def fresh_stream_def)

lemma read_chunks_one: "read_chunks json [received] s = read_chunk json received s"
  by (simp add: case_prod_beta)

section \<open>Frames that the API writes\<close>

fun frame_text :: "sent \<Rightarrow> string" where
  "frame_text (Sent type body) = ''event: '' @ type @ LF # ''data: '' @ body"
| "frame_text Kept_alive = '':''"

lemma written_frame: "written item = frame_text item @ [LF, LF]"
  by (cases item) simp_all

lemma split_blank_line: "LF \<notin> set w \<Longrightarrow> split_blank (w @ LF # LF # s) = w # split_blank s"
proof (induction w)
  case (Cons c w)
  then show ?case using split_blank_Cons [of c "w @ LF # LF # s"] by auto
qed simp

lemma split_blank_lines:
  assumes "LF \<notin> set a" and "LF \<notin> set b" and "b \<noteq> []"
  shows "split_blank (a @ LF # b @ LF # LF # s) = (a @ LF # b) # split_blank s"
  using assms(1)
proof (induction a)
  case Nil
  then show ?case
    using split_blank_Cons [of LF "b @ LF # LF # s"] split_blank_line [OF assms(2)] assms(2,3)
    by (cases b) auto
next
  case (Cons c a)
  then show ?case using split_blank_Cons [of c "a @ LF # b @ LF # LF # s"] by auto
qed

lemma split_written:
  assumes "plain_sent item"
  shows "split_blank (written item @ s) = frame_text item # split_blank s"
proof (cases item)
  case (Sent type body)
  then show ?thesis
    using assms split_blank_lines [of "''event: '' @ type" "''data: '' @ body" s] by (simp add: one_line_def)
next
  case Kept_alive
  then show ?thesis using split_blank_line [of "'':''" s] by simp
qed

lemma split_all_written:
  "\<forall>item \<in> set items. plain_sent item \<Longrightarrow> split_blank (concat (map written items)) = map frame_text items @ [[]]"
  by (induction items) (simp_all add: split_written)

lemma after_label_space: "lead white t = 0 \<Longrightarrow> after_label label (label @ CHR '' '' # t) = t"
  by (simp add: after_label_def strip_id strip.simps [of white "CHR '' '' # t"] lead_space)

lemma read_sent_line:
  "one_line t \<Longrightarrow> read_line (''event: '' @ t) l = l\<lparr>fl_event := Some t\<rparr>"
  "one_line t \<Longrightarrow> read_line (''data: '' @ t) l = l\<lparr>fl_data := fl_data l @ [t]\<rparr>"
  using after_label_space [of t "''event:''"] after_label_space [of t "''data:''"]
  by (simp_all add: read_line_def one_line_def)

lemma split_frame_text:
  "one_line type \<Longrightarrow> one_line body \<Longrightarrow>
     split_on LF (''event: '' @ type @ LF # ''data: '' @ body) = [''event: '' @ type, ''data: '' @ body]"
  using split_on_append [of LF "''event: '' @ type" "''data: '' @ body"] split_on_plain [of LF "''data: '' @ body"]
  by (simp add: one_line_def)

lemma heard_frame_text:
  assumes "plain_sent item"
  shows "heard_frames (snd (read_frame json (frame_text item) s) # frames) = told json item @ heard_frames frames"
proof (cases item)
  case (Sent type body)
  then have "one_line type" "one_line body" using assms by simp_all
  then show ?thesis
    unfolding Sent frame_text.simps read_frame_def split_frame_text [OF \<open>one_line type\<close> \<open>one_line body\<close>]
    by (cases "json body") (simp_all add: read_sent_line heard_frames_def heard_frame_def List.map_filter_def Let_def del: append_Cons)
next
  case Kept_alive
  then show ?thesis
    by (simp add: read_frame_def Let_def read_line_def heard_frames_def heard_frame_def List.map_filter_def)
qed

lemma heard_all_written:
  "\<forall>item \<in> set items. plain_sent item \<Longrightarrow>
     heard_frames (snd (read_frames json (map frame_text items) s)) = concat (map (told json) items)"
proof (induction items arbitrary: s)
  case Nil
  then show ?case by (simp add: heard_frames_def List.map_filter_def)
next
  case (Cons item items)
  then show ?case by (simp add: case_prod_beta heard_frame_text)
qed

lemma written_no_cr: "plain_sent item \<Longrightarrow> CR \<notin> set (written item)"
  by (cases item) (simp_all add: one_line_def)

lemma heard_written:
  assumes "concat chunks = concat (map written items)" and "\<forall>item \<in> set items. plain_sent item"
  shows "heard_frames (snd (read_chunks json chunks (fresh_stream delay))) = concat (map (told json) items)"
proof -
  have no_cr: "CR \<notin> set (concat chunks)"
    using assms written_no_cr by auto
  then have "\<forall>received \<in> set chunks. received \<noteq> [] \<longrightarrow> last received \<noteq> CR"
    using last_in_set by fastforce
  then have "read_chunks json chunks (fresh_stream delay) = read_chunk json (concat chunks) (fresh_stream delay)"
    by (simp add: read_chunks_concat)
  also have "snd \<dots> = snd (read_frames json (map frame_text items) (fresh_stream delay))"
    using no_cr by (simp add: read_chunk_def Let_def newlines_plain assms(1) split_all_written [OF assms(2)] fresh_stream_def)
  finally show ?thesis using heard_all_written [OF assms(2)] by metis
qed

section \<open>Properties\<close>

text \<open>How the connection cuts a stream does not matter: two sequences of pieces of the same text give the same frames, and
  leave the same state, as long as no piece ends between a carriage return and what follows it.\<close>

theorem pieces_do_not_matter:
  assumes "concat chunks = concat chunks'"
    and "\<forall>received \<in> set chunks \<union> set chunks'. received \<noteq> [] \<longrightarrow> last received \<noteq> CR"
  shows "read_chunks json chunks (fresh_stream delay) = read_chunks json chunks' (fresh_stream delay)"
  using assms by (simp add: read_chunks_concat)

theorem pieces_do_not_matter_witness:
  "read_chunks json [''event: con'', ''trol'', [LF], [LF] @ '':''] (fresh_stream None) =
     read_chunks json [''event: control'' @ [LF, LF] @ '':''] (fresh_stream None)"
  by (rule pieces_do_not_matter) simp_all

lemma newlines_line: "CR \<notin> set w \<Longrightarrow> newlines (w @ CR # LF # s) = w @ LF # newlines s"
  using newlines_append [of w "CR # LF # s"] newlines_plain [of w] last_in_set [of w] by fastforce

lemma newlines_cut: "CR \<notin> set w \<Longrightarrow> newlines (w @ [CR]) = w @ [LF]"
  using newlines_append [of w "[CR]"] newlines_plain [of w] last_in_set [of w] by fastforce

lemma split_blank_cut: "LF \<notin> set w \<Longrightarrow> split_blank (w @ [LF]) = [w @ [LF]]"
proof (induction w)
  case (Cons c w)
  then show ?case using split_blank_Cons [of c "w @ [LF]"] by auto
qed simp

lemma read_cut_line:
  assumes "CR \<notin> set e" "LF \<notin> set e" "CR \<notin> set d" "LF \<notin> set d" "d \<noteq> []"
  shows "snd (read_chunks json [e @ CR # LF # d @ [CR, LF, CR, LF]] (fresh_stream delay)) =
      snd (read_frames json [e @ LF # d] (fresh_stream delay))"
    and "snd (read_chunks json [e @ [CR], LF # d @ [CR, LF, CR, LF]] (fresh_stream delay)) =
      snd (read_frames json [e, d] (fresh_stream delay))"
proof -
  have ends: "newlines (d @ [CR, LF, CR, LF]) = d @ [LF, LF]" by (simp add: newlines_line [OF assms(3)])
  then have "newlines (e @ CR # LF # d @ [CR, LF, CR, LF]) = e @ LF # d @ [LF, LF]" by (simp add: newlines_line [OF assms(1)])
  then show "snd (read_chunks json [e @ CR # LF # d @ [CR, LF, CR, LF]] (fresh_stream delay)) =
      snd (read_frames json [e @ LF # d] (fresh_stream delay))"
    using split_blank_lines [OF assms(2,4,5), of "[]"]
    by (simp add: read_chunk_def Let_def fresh_stream_def case_prod_beta)
  have first: "read_chunk json (e @ [CR]) (fresh_stream delay) = ((fresh_stream delay)\<lparr>sq_buffer := e @ [LF]\<rparr>, [])"
    by (simp add: read_chunk_def fresh_stream_def newlines_cut [OF assms(1)] split_blank_cut [OF assms(2)] Let_def)
  have "newlines (LF # d @ [CR, LF, CR, LF]) = LF # d @ [LF, LF]"
    using ends assms(5) by (cases d) simp_all
  then have "newlines ((e @ [LF]) @ LF # d @ [CR, LF, CR, LF]) = e @ LF # LF # d @ [LF, LF]"
    using newlines_append [of "e @ [LF]" "LF # d @ [CR, LF, CR, LF]"] newlines_plain [of "e @ [LF]"] assms(1) by simp
  then show "snd (read_chunks json [e @ [CR], LF # d @ [CR, LF, CR, LF]] (fresh_stream delay)) =
      snd (read_frames json [e, d] (fresh_stream delay))"
    using split_blank_line [OF assms(2), of "d @ [LF, LF]"] split_blank_line [OF assms(4), of "[]"]
    by (simp add: first) (simp add: read_chunk_def Let_def fresh_stream_def case_prod_beta)
qed

text \<open>A piece that ends with a carriage return, whose line feed comes with the next piece, ends a frame that goes on: the
  name of an event is then told without its data, and the data without a name, which the hooks of the pages do not hear.\<close>

theorem cut_line_end_loses_data:
  assumes "one_line type" and "one_line body"
  shows "run_events_heard json [''event: '' @ type @ [CR, LF] @ ''data: '' @ body @ [CR, LF, CR, LF]] =
      [\<lparr>re_type = type, re_data = data_fields (case json body of Some v \<Rightarrow> v | None \<Rightarrow> Str body)\<rparr>]
    \<and> run_events_heard json [''event: '' @ type @ [CR], [LF] @ ''data: '' @ body @ [CR, LF, CR, LF]] =
      [\<lparr>re_type = type, re_data = []\<rparr>]"
proof -
  let ?e = "''event: '' @ type" and ?d = "''data: '' @ body"
  note cut = read_cut_line [of ?e ?d, unfolded append_assoc]
  have plain: "CR \<notin> set ?e" "LF \<notin> set ?e" "CR \<notin> set ?d" "LF \<notin> set ?d" "?d \<noteq> []" using assms by (simp_all add: one_line_def)
  have alone: "split_on LF ?e = [?e]" "split_on LF ?d = [?d]" by (rule split_on_plain, rule plain)+
  have "heard_frames (snd (read_frames json [frame_text (Sent type body)] (fresh_stream None))) = told json (Sent type body)"
    using heard_all_written [of "[Sent type body]" json "fresh_stream None"] assms by simp
  moreover have "heard_frames (snd (read_frames json [?e, ?d] (fresh_stream None))) = [(type, [])]"
    using assms
    by (simp add: read_frame_def alone read_sent_line heard_frames_def heard_frame_def List.map_filter_def Let_def del: append_Cons)
  ultimately show ?thesis
    using cut [OF plain, of json None] by (simp add: run_events_heard_def)
qed

theorem cut_line_end_loses_data_witness:
  "run_events_heard (\<lambda>body. Some (Obj [(''status'', Str body)])) [''event: run.status'' @ [CR], [LF] @ ''data: 1'' @ [CR, LF, CR, LF]] =
     [\<lparr>re_type = ''run.status'', re_data = []\<rparr>]"
  using cut_line_end_loses_data [of "''run.status''" "''1''" "\<lambda>body. Some (Obj [(''status'', Str body)])"]
  by (simp add: one_line_def lead_solid solid_def code_def)

text \<open>C5. What the API sends is what the pages hear: each event once, in order, with its type and its data, however the
  connection cuts the text, and nothing of what only keeps the connection alive. So the state of a page is that of
  its reducer over the events that were sent.\<close>

theorem sent_events_are_heard:
  assumes "concat chunks = concat (map written items)" and "\<forall>item \<in> set items. plain_sent item"
  shows "run_events_heard json chunks = map (\<lambda>(type, data). \<lparr>re_type = type, re_data = data\<rparr>) (concat (map (told json) items))
    \<and> batch_events_heard json chunks = map (\<lambda>(type, data). \<lparr>be_type = type, be_data = data\<rparr>) (concat (map (told json) items))"
  using heard_written [OF assms] by (simp add: run_events_heard_def batch_events_heard_def)

theorem sent_events_are_heard_witness:
  "run_events_heard (\<lambda>body. if body = ''{}'' then Some (Obj []) else None)
     [''event: run.sta'', ''tus'' @ [LF] @ ''data: {}'' @ [LF], [LF] @ '':'', [LF, LF]] =
   [\<lparr>re_type = ''run.status'', re_data = []\<rparr>]"
proof -
  have "\<forall>item \<in> set [Sent ''run.status'' ''{}'', Kept_alive]. plain_sent item"
    by (simp add: one_line_def lead_solid solid_def code_def)
  then show ?thesis
    using sent_events_are_heard
      [of "[''event: run.sta'', ''tus'' @ [LF] @ ''data: {}'' @ [LF], [LF] @ '':'', [LF, LF]]" "[Sent ''run.status'' ''{}'', Kept_alive]"]
    by simp
qed

text \<open>A stream of a page, which allows no further attempt, connects once, whatever happens to it; and a stream that tries
  again never waits longer than its limit, of thirty seconds where none is given.\<close>

theorem attempts_are_bounded:
  "(\<exists>frames. attempts json (Some 0) longest 0 s ((received, fails) # later) = Connects (sq_id s) # map Tells frames)
   \<and> (\<forall>ms. Sleeps ms \<in> set (attempts json most longest n s' outcomes) \<longrightarrow> ms \<le> orelse longest 30000)"
proof
  show "\<exists>frames. attempts json (Some 0) longest 0 s ((received, fails) # later) = Connects (sq_id s) # map Tells frames"
    by (auto simp: case_prod_beta Let_def)
  show "\<forall>ms. Sleeps ms \<in> set (attempts json most longest n s' outcomes) \<longrightarrow> ms \<le> orelse longest 30000"
  proof (induction outcomes arbitrary: n s')
    case (Cons outcome outcomes)
    obtain received fails where "outcome = (received, fails)" by (cases outcome)
    then show ?case using Cons.IH by (auto simp: case_prod_beta Let_def simp del: split_paired_All)
  qed simp
qed

end
