(* ===== verification/Lists.thy ===== *)
theory Lists
  imports Preferences BatchPresentation Schedules WorkflowPages
begin

text \<open>
  The lists of Runs, Schedules and Batches (\<open>runs/runs-list.tsx\<close>, \<open>schedules/schedules-list.tsx\<close>,
  \<open>workflows/[id]/batches/batches-list.tsx\<close>, with their \<open>queries.ts\<close>) over the hook that loads a list page by page
  (\<open>hooks/use-cursor-list.ts\<close>), and what is done in a row of the list of Schedules. The answers of the API are inputs; how
  a time reads in a zone and relative to now are arguments.
\<close>

section \<open>What is asked of the API\<close>

definition sent_filter :: "params \<Rightarrow> string \<Rightarrow> params" where
  "sent_filter filters key =
     (case map_of filters key of None \<Rightarrow> [] | Some v \<Rightarrow> if v = [] then [] else [(key, v)])"

definition sent_cursor :: "string option \<Rightarrow> params" where
  "sent_cursor cursor = (case cursor of None \<Rightarrow> [] | Some c \<Rightarrow> [(''cursor'', c)])"

definition run_page_query :: "params \<Rightarrow> string option \<Rightarrow> int \<Rightarrow> params" where
  "run_page_query filters cursor limit =
     [(''limit'', show_int limit)] @ sent_cursor cursor @ sent_filter filters ''workflow_id'' @ sent_filter filters ''status'' @
     sent_filter filters ''trigger''"

definition schedule_page_query :: "params \<Rightarrow> string option \<Rightarrow> int \<Rightarrow> params" where
  "schedule_page_query filters cursor limit =
     [(''limit'', show_int limit)] @ sent_cursor cursor @ sent_filter filters ''workflow_id''"

definition batch_page_query :: "string \<Rightarrow> string option \<Rightarrow> int \<Rightarrow> params" where
  "batch_page_query workflow_id cursor limit =
     [(''workflow_id'', workflow_id), (''limit'', show_int limit)] @ sent_cursor cursor"

section \<open>A list loaded page by page\<close>

text \<open>The pages there are, the request that is out with its cursor, and the error of the last one.\<close>

record 'a cursor_list =
  cu_pages :: "'a cursor_page list option"
  cu_asked :: "string option option"
  cu_error :: "js option"

definition opened_list :: "'a cursor_list" where
  "opened_list = \<lparr>cu_pages = None, cu_asked = Some None, cu_error = None\<rparr>"

datatype 'a list_event = Page_arrived "js + 'a cursor_page" | More_asked

definition list_items :: "'a cursor_list \<Rightarrow> 'a list" where
  "list_items s = rows_of (cu_pages s)"

definition list_loading :: "'a cursor_list \<Rightarrow> bool" where
  "list_loading s \<longleftrightarrow> cu_pages s = None \<and> cu_error s = None"

definition next_cursor :: "'a cursor_list \<Rightarrow> string option" where
  "next_cursor s = (case orelse (cu_pages s) [] of [] \<Rightarrow> None | pages \<Rightarrow> next_page_param (last pages))"

definition has_more :: "'a cursor_list \<Rightarrow> bool" where
  "has_more s \<longleftrightarrow> next_cursor s \<noteq> None"

fun list_step :: "'a cursor_list \<Rightarrow> 'a list_event \<Rightarrow> 'a cursor_list" where
  "list_step s (Page_arrived answer) =
     (if cu_asked s = None then s
      else (case answer of
          Inl error \<Rightarrow> s\<lparr>cu_asked := None, cu_error := Some error\<rparr>
        | Inr page \<Rightarrow> \<lparr>cu_pages = Some (orelse (cu_pages s) [] @ [page]), cu_asked = None, cu_error = None\<rparr>))"
| "list_step s More_asked =
     (if has_more s \<and> cu_asked s = None then s\<lparr>cu_asked := Some (next_cursor s)\<rparr> else s)"

section \<open>What a list shows\<close>

record list_view =
  lv_kind :: list_kind
  lv_filters :: bool
  lv_refusal :: "string option"
  lv_action :: bool
  lv_more :: bool

text \<open>The filters of a list in a Workflow: those of the URL and the Workflow.\<close>

definition shown_filters :: "params \<Rightarrow> string option \<Rightarrow> params" where
  "shown_filters search workflow_id =
     (case workflow_id of
        None \<Rightarrow> filters_from_search search url_filter_keys
      | Some i \<Rightarrow> with_key ''workflow_id'' i (filters_from_search search url_filter_keys))"

text \<open>The button of an empty list: in a Workflow it waits for the Workflow and needs a published Version.\<close>

definition empty_action_offered :: "workflow_action \<Rightarrow> string option \<Rightarrow> workflow_summary option \<Rightarrow> bool" where
  "empty_action_offered action workflow_id workflow =
     (workflow_id = None \<or> (\<exists>w. workflow = Some w \<and> disabled_reason action (ws_draft_state w) = None))"

definition runs_view :: "params \<Rightarrow> string option \<Rightarrow> workflow_summary option \<Rightarrow> js start_state \<Rightarrow> 'a cursor_list \<Rightarrow> list_view" where
  "runs_view search workflow_id workflow start s =
     (let filters = shown_filters search workflow_id;
          kind = RunPresentation.list_kind_of (\<not> list_loading s) (length (list_items s)) (map_of filters)
      in \<lparr>lv_kind = kind, lv_filters = (kind = Rows \<or> kind = Filtered),
          lv_refusal = map_option workflow_refusal (first_some [cu_error s, shown_refusal start]),
          lv_action = (kind = Empty_list \<and> empty_action_offered run_action workflow_id workflow),
          lv_more = (has_more s \<and> cu_asked s = None)\<rparr>)"

fun as_list_kind :: "schedule_list_kind \<Rightarrow> list_kind" where
  "as_list_kind List_loading = Loading"
| "as_list_kind List_empty = Empty_list"
| "as_list_kind List_filtered = Filtered"
| "as_list_kind List_rows = Rows"

definition schedules_view :: "params \<Rightarrow> string option \<Rightarrow> workflow_summary option \<Rightarrow> 'a cursor_list \<Rightarrow> list_view" where
  "schedules_view search workflow_id workflow s =
     (let kind = as_list_kind (schedule_list_kind_of (\<not> list_loading s) (length (list_items s)) (shown_filters search workflow_id))
      in \<lparr>lv_kind = kind, lv_filters = False, lv_refusal = map_option workflow_refusal (cu_error s),
          lv_action = (kind = Empty_list \<and> empty_action_offered new_schedule_action workflow_id workflow),
          lv_more = (has_more s \<and> cu_asked s = None)\<rparr>)"

definition batches_view :: "string \<Rightarrow> workflow_summary option \<Rightarrow> 'a cursor_list \<Rightarrow> list_view" where
  "batches_view workflow_id workflow s =
     (let kind = batch_list_kind (\<not> list_loading s) (length (list_items s))
      in \<lparr>lv_kind = kind, lv_filters = False, lv_refusal = map_option workflow_refusal (cu_error s),
          lv_action = (kind = Empty_list \<and> empty_action_offered new_batch_action (Some workflow_id) workflow),
          lv_more = (has_more s \<and> cu_asked s = None)\<rparr>)"

section \<open>A row of the list of Runs\<close>

record run_summary =
  rm_id :: string
  rm_workflow_name :: string
  rm_trigger :: run_trigger
  rm_status :: run_status
  rm_queued_at :: string
  rm_started_at :: "string option"
  rm_ended_at :: "string option"

definition column_header :: "string \<Rightarrow> string" where
  "column_header column =
     (if column = ''id'' then ''Run'' else if column = ''action'' then [] else column)"

text \<open>The texts of the cells of a row, by column; the last is the button that a waiting Run has.\<close>

definition run_cell :: "(string \<Rightarrow> string) \<Rightarrow> jsnum \<Rightarrow> run_summary \<Rightarrow> string \<Rightarrow> string" where
  "run_cell relative now run column =
     (if column = ''status'' then lifecycle_label (Run_state (rm_status run))
      else if column = ''workflow'' then rm_workflow_name run
      else if column = ''trigger'' then trigger_label (rm_trigger run)
      else if column = ''started'' then relative (orelse (rm_started_at run) (rm_queued_at run))
      else if column = ''duration'' then
        (case run_duration_ms (rm_started_at run) (rm_ended_at run) now of
           None \<Rightarrow> [CHR 0xE2, CHR 0x80, CHR 0x93]
         | Some ms \<Rightarrow> duration ms)
      else if column = ''id'' then short_run_id (rm_id run)
      else if row_action_of (rm_status run) = Take_control then ''Take control'' else [])"

section \<open>A row of the list of Schedules\<close>

record occurrence = occurrence_record +
  oc_occurrence_at :: string

record schedule_summary =
  sy_id :: string
  sy_workflow_id :: string
  sy_workflow_name :: string
  sy_cron :: string
  sy_timezone :: string
  sy_enabled :: bool
  sy_variables :: fields
  sy_state :: schedule_state
  sy_missing :: "string list"
  sy_next_due_at :: "string option"
  sy_last_run :: "run_status option"
  sy_latest :: "occurrence option"

definition latest_record :: "schedule_summary \<Rightarrow> occurrence_record option" where
  "latest_record schedule = map_option occurrence_record.truncate (sy_latest schedule)"

text \<open>The cells after the box: headline, line below, due, status and note.\<close>

definition schedule_cells :: "(string \<Rightarrow> string \<Rightarrow> string) \<Rightarrow> string \<Rightarrow> schedule_summary \<Rightarrow>
    (range_error + string) \<times> (string \<times> string) \<times> (string \<times> string option) option \<times> string \<times> string" where
  "schedule_cells format_in_zone viewer_tz schedule =
     (recurrence_headline (sy_cron schedule),
      (sy_cron schedule, sy_timezone schedule),
      map_option (\<lambda>due. occurrence_label format_in_zone due (sy_timezone schedule) viewer_tz) (sy_next_due_at schedule),
      (case sy_last_run schedule of None \<Rightarrow> [] | Some status \<Rightarrow> lifecycle_label (Run_state status)),
      note_of (latest_record schedule) (sy_missing schedule))"

text \<open>The box of a row shows what the list says of the Schedule, whatever is being asked.\<close>

record schedule_row =
  sr_schedule :: schedule_summary
  sr_toggle :: "bool mutation"
  sr_fire :: "unit mutation"

datatype schedule_row_effect = Patch_enabled string bool | Reload_schedules | Run_schedule_now string | Reload_after_run

datatype schedule_row_event =
    Box_clicked
  | Toggle_answered "js option"
  | Toggle_reloaded
  | Run_now_pressed
  | Run_now_answered "js option"
  | Run_now_reloaded
  | Schedule_loaded schedule_summary
  | Row_closed

definition overlap_shown :: "schedule_summary \<Rightarrow> overlap_banner option" where
  "overlap_shown schedule = Option.bind (latest_record schedule) overlap_banner_of"

fun schedule_row_step :: "schedule_row \<Rightarrow> schedule_row_event \<Rightarrow> schedule_row \<times> schedule_row_effect list" where
  "schedule_row_step s Box_clicked =
     (s\<lparr>sr_toggle := Asked (\<not> sy_enabled (sr_schedule s))\<rparr>,
      [Patch_enabled (sy_id (sr_schedule s)) (\<not> sy_enabled (sr_schedule s))])"
| "schedule_row_step s (Toggle_answered answer) =
     (case (sr_toggle s, answer) of
        (Asked _, Some error) \<Rightarrow> (s\<lparr>sr_toggle := Refused error\<rparr>, [])
      | (Asked _, None) \<Rightarrow> (s\<lparr>sr_toggle := Settling\<rparr>, [Reload_schedules])
      | _ \<Rightarrow> (s, []))"
| "schedule_row_step s Toggle_reloaded = (s\<lparr>sr_toggle := settled (sr_toggle s)\<rparr>, [])"
| "schedule_row_step s Run_now_pressed =
     (if overlap_shown (sr_schedule s) = None \<or> pending (sr_fire s) then (s, [])
      else (s\<lparr>sr_fire := Asked ()\<rparr>, [Run_schedule_now (sy_id (sr_schedule s))]))"
| "schedule_row_step s (Run_now_answered answer) =
     (case (sr_fire s, answer) of
        (Asked _, Some error) \<Rightarrow> (s\<lparr>sr_fire := Refused error\<rparr>, [])
      | (Asked _, None) \<Rightarrow> (s\<lparr>sr_fire := Settling\<rparr>, [Reload_after_run])
      | _ \<Rightarrow> (s, []))"
| "schedule_row_step s Run_now_reloaded = (s\<lparr>sr_fire := settled (sr_fire s)\<rparr>, [])"
| "schedule_row_step s (Schedule_loaded schedule) =
     (if sy_id schedule = sy_id (sr_schedule s) then (s\<lparr>sr_schedule := schedule\<rparr>, []) else (s, []))"
| "schedule_row_step s Row_closed = (s\<lparr>sr_fire := Idle\<rparr>, [])"

fun schedule_row_asks :: "schedule_row \<Rightarrow> schedule_row_event list \<Rightarrow> schedule_row_effect list" where
  "schedule_row_asks s [] = []"
| "schedule_row_asks s (e # es) = snd (schedule_row_step s e) @ schedule_row_asks (fst (schedule_row_step s e)) es"

section \<open>A row that is open\<close>

definition run_now_refusal :: "js option \<Rightarrow> string option" where
  "run_now_refusal error =
     map_option (refusal_from
         [(Str ''schedule_run_active'', ''A Run of this Schedule is still going.''),
          (Str ''needs_values'', ''This Schedule is missing values.'')]
         ''Something went wrong. Try again in a moment.'') error"

datatype callout =
    Cannot_fire string string
  | Overlapped string string string
  | Not_run string string bool
  | Run_refused string

text \<open>
  What is called out over the history: that values are missing, with the page that sets them; that an Occurrence was
  passed over, with the Run that was still running, or else why (\<open>True\<close> where it is bad); why it could not be run now.
\<close>

definition callouts :: "(string \<Rightarrow> string \<Rightarrow> string) \<Rightarrow> string \<Rightarrow> schedule_row \<Rightarrow> callout list" where
  "callouts format_in_zone viewer_tz s =
     (let schedule = sr_schedule s;
          missing = needs_values_banner_of (sy_state schedule) (sy_missing schedule) (sy_workflow_id schedule) (sy_id schedule);
          at_of = (\<lambda>latest. fst (occurrence_label format_in_zone (oc_occurrence_at latest) (sy_timezone schedule) viewer_tz))
      in (case missing of
            None \<Rightarrow> []
          | Some banner \<Rightarrow> [Cannot_fire (hole_story Missing_values (nv_names banner)) (nv_set_values_href banner)]) @
         (case sy_latest schedule of
            None \<Rightarrow> []
          | Some latest \<Rightarrow>
              (case overlap_shown schedule of
                 Some banner \<Rightarrow> [Overlapped (at_of latest) (ob_story banner) (ob_open_href banner)]
               | None \<Rightarrow>
                   if oc_reason latest = Overlap \<or> missing \<noteq> None then []
                   else [Not_run (at_of latest) (hole_story (oc_reason latest) (sy_missing schedule)) (oc_reason latest = Missing_values)])) @
         (case run_now_refusal (refused_with (sr_fire s)) of None \<Rightarrow> [] | Some text_shown \<Rightarrow> [Run_refused text_shown]))"

text \<open>The strip of an open row and the Occurrences that are to come.\<close>

definition strip_shown :: "schedule_row \<Rightarrow> history_entry list \<Rightarrow> string list \<Rightarrow> strip_mark list" where
  "strip_shown s history next_occurrences = strip_marks history next_occurrences (\<not> sy_enabled (sr_schedule s))"

definition slot_label :: "(string \<Rightarrow> string \<Rightarrow> string) \<Rightarrow> string \<Rightarrow> string \<Rightarrow> strip_mark \<Rightarrow> string" where
  "slot_label format_in_zone timezone viewer_tz mark =
     (case mark of
        Mark_paused \<Rightarrow> ''paused interval''
      | Mark_due moment \<Rightarrow> ''due '' @ fst (occurrence_label format_in_zone moment timezone viewer_tz)
      | Mark_run _ _ status \<Rightarrow> lifecycle_label (Run_state status)
      | Mark_hole reason moment _ \<Rightarrow>
          fst (occurrence_label format_in_zone moment timezone viewer_tz) @ '' '' @ middle_dot @ '' '' @ hole_story reason [])"

definition coming_shown :: "(string \<Rightarrow> string \<Rightarrow> string) \<Rightarrow> string \<Rightarrow> schedule_row \<Rightarrow> string list \<Rightarrow> (string \<times> string option) list" where
  "coming_shown format_in_zone viewer_tz s next_occurrences =
     (if \<not> sy_enabled (sr_schedule s) then []
      else map (\<lambda>iso_text. occurrence_label format_in_zone iso_text (sy_timezone (sr_schedule s)) viewer_tz) next_occurrences)"

section \<open>Pages\<close>

text \<open>
  An API that serves a list of rows in pages of the size that is asked for: each page but the last names the cursor of the
  next.
\<close>

definition serves :: "(string option \<Rightarrow> 'a cursor_page) \<Rightarrow> 'a list \<Rightarrow> bool" where
  "serves fetch rows \<longleftrightarrow>
     (\<exists>cursor :: nat \<Rightarrow> string. \<forall>k.
        fetch (if k = 0 then None else Some (cursor k)) =
          \<lparr>cp_items = take (nat page_size) (drop (nat page_size * k) rows),
           cp_next_cursor = (if nat page_size * Suc k < length rows then Some (cursor (Suc k)) else None)\<rparr>)"

text \<open>The states of a list whose requests are answered by the API, or refused, in whatever order things are done.\<close>

inductive list_reached :: "(string option \<Rightarrow> 'a cursor_page) \<Rightarrow> 'a cursor_list \<Rightarrow> bool" for fetch where
  opened: "list_reached fetch opened_list"
| refused: "list_reached fetch s \<Longrightarrow> list_reached fetch (list_step s (Page_arrived (Inl error)))"
| answered: "list_reached fetch s \<Longrightarrow> cu_asked s = Some c \<Longrightarrow> list_reached fetch (list_step s (Page_arrived (Inr (fetch c))))"
| more: "list_reached fetch s \<Longrightarrow> list_reached fetch (list_step s More_asked)"

definition pages_ok :: "(nat \<Rightarrow> string) \<Rightarrow> 'a list \<Rightarrow> 'a cursor_list \<Rightarrow> bool" where
  "pages_ok cursor rows s \<longleftrightarrow>
     (case cu_pages s of
        None \<Rightarrow> cu_asked s = Some None \<or> cu_asked s = None
      | Some pages \<Rightarrow>
          pages \<noteq> [] \<and> list_items s = take (nat page_size * length pages) rows
          \<and> next_cursor s = (if nat page_size * length pages < length rows then Some (cursor (length pages)) else None)
          \<and> (cu_asked s = None \<or> (next_cursor s \<noteq> None \<and> cu_asked s = Some (next_cursor s))))"

lemma pages_ok_opened: "pages_ok cursor rows opened_list"
  by (simp add: pages_ok_def opened_list_def)

lemma pages_ok_refused: "pages_ok cursor rows s \<Longrightarrow> pages_ok cursor rows (list_step s (Page_arrived (Inl error)))"
  by (auto simp: pages_ok_def list_items_def next_cursor_def split: option.splits)

lemma pages_ok_more: "pages_ok cursor rows s \<Longrightarrow> pages_ok cursor rows (list_step s More_asked)"
  by (auto simp: pages_ok_def list_items_def next_cursor_def has_more_def split: option.splits)

lemma pages_ok_answered:
  assumes "pages_ok cursor rows s" and "cu_asked s = Some c"
    and fetched: "\<And>k. fetch (if k = 0 then None else Some (cursor k)) =
      \<lparr>cp_items = take (nat page_size) (drop (nat page_size * k) rows),
       cp_next_cursor = (if nat page_size * Suc k < length rows then Some (cursor (Suc k)) else None)\<rparr>"
  shows "pages_ok cursor rows (list_step s (Page_arrived (Inr (fetch c))))"
proof -
  let ?k = "length (orelse (cu_pages s) [])"
  have "c = (if ?k = 0 then None else Some (cursor ?k))"
    using assms(1,2) by (auto simp: pages_ok_def split: option.splits if_splits)
  then have page: "fetch c =
      \<lparr>cp_items = take (nat page_size) (drop (nat page_size * ?k) rows),
       cp_next_cursor = (if nat page_size * Suc ?k < length rows then Some (cursor (Suc ?k)) else None)\<rparr>"
    using fetched [of ?k] by (simp only:)
  have "list_items s = take (nat page_size * ?k) rows"
    using assms(1) by (auto simp: pages_ok_def list_items_def rows_of_def split: option.splits)
  then have "list_items (list_step s (Page_arrived (Inr (fetch c)))) = take (nat page_size * Suc ?k) rows"
    using assms(2) page by (simp add: list_items_def rows_of_def take_add add.commute [of "nat page_size"])
  moreover have "next_cursor (list_step s (Page_arrived (Inr (fetch c)))) = cp_next_cursor (fetch c)"
    using assms(2) by (cases "orelse (cu_pages s) []") (simp_all add: next_cursor_def next_page_param_def)
  ultimately show ?thesis
    using assms(2) page by (simp add: pages_ok_def)
qed

lemma list_reached_ok:
  assumes "list_reached fetch s"
    and "\<And>k. fetch (if k = 0 then None else Some (cursor k)) =
      \<lparr>cp_items = take (nat page_size) (drop (nat page_size * k) rows),
       cp_next_cursor = (if nat page_size * Suc k < length rows then Some (cursor (Suc k)) else None)\<rparr>"
  shows "pages_ok cursor rows s"
  using assms(1)
proof induction
  case (answered s c)
  show ?case by (rule pages_ok_answered [OF answered.IH answered.hyps(2) assms(2)])
qed (simp_all only: pages_ok_opened pages_ok_refused pages_ok_more)


definition numbers_api :: "string option \<Rightarrow> nat cursor_page" where
  "numbers_api c =
     (let k = (case c of None \<Rightarrow> 0 | Some t \<Rightarrow> digits_val t)
      in \<lparr>cp_items = take (nat page_size) (drop (nat page_size * k) [0..<30]),
          cp_next_cursor = (if nat page_size * Suc k < length [0..<30] then Some (show_nat (Suc k)) else None)\<rparr>)"

lemma numbers_served: "serves numbers_api [0..<30]"
  unfolding serves_def by (rule exI [of _ show_nat]) (simp add: numbers_api_def)


section \<open>Filters of a list\<close>

lemma url_filters:
  "map_of (filters_from_search search url_filter_keys) k = Some v \<Longrightarrow> v \<noteq> [] \<and> k \<in> set url_filter_keys"
  by (auto simp: map_of_filters_from_search split: if_splits option.splits)

lemma workflow_is_no_url_filter: "''workflow_id'' \<notin> set url_filter_keys"
  by (simp add: url_filter_keys_def)

lemma shown_filters_in_url:
  "map_of (shown_filters search workflow_id) |` set url_filter_keys = map_of (filters_from_search search url_filter_keys)"
proof
  fix k
  show "(map_of (shown_filters search workflow_id) |` set url_filter_keys) k = map_of (filters_from_search search url_filter_keys) k"
    using url_filters [of search k] workflow_is_no_url_filter
    by (cases "map_of (filters_from_search search url_filter_keys) k")
      (auto simp: shown_filters_def restrict_map_def split: option.splits)
qed

lemma shown_filters_map:
  "map_of (shown_filters search workflow_id) =
     (case workflow_id of None \<Rightarrow> map_of (filters_from_search search url_filter_keys)
      | Some i \<Rightarrow> (map_of (filters_from_search search url_filter_keys))(''workflow_id'' \<mapsto> i))"
  by (simp add: shown_filters_def split: option.splits)

text \<open>Setting a filter of a list, of a Workflow or of all, changes that filter alone: the page that follows shows the list
  with the filters there were and that one, and keeps the Workflow.\<close>

theorem filter_changes_alone:
  assumes "CHR ''?'' \<notin> set pathname" and "CHR ''#'' \<notin> set pathname" and "key \<in> set url_filter_keys" and "workflow_id \<noteq> Some []"
  shows "map_of (shown_filters
      (parse_params (query_of (set_filter pathname search (shown_filters search workflow_id) url_filter_keys key v))) workflow_id) =
    (map_of (shown_filters search workflow_id))(key := if v = [] then None else Some v)"
proof -
  have filled: "w \<noteq> []" if "map_of (shown_filters search workflow_id) k = Some w" for k w
    using that url_filters [of search k w] assms(4) by (auto simp: shown_filters_map split: option.splits if_splits)
  have "map_of (filters_from_search (parse_params (query_of
        (set_filter pathname search (shown_filters search workflow_id) url_filter_keys key v))) url_filter_keys) =
      (map_of (filters_from_search search url_filter_keys))(key := if v = [] then None else Some v)"
    by (simp only: filters_after_set_filter [OF assms(1-3) filled] shown_filters_in_url)
  moreover have "key \<noteq> ''workflow_id''" using assms(3) workflow_is_no_url_filter by metis
  ultimately show ?thesis
    unfolding shown_filters_map [of _ workflow_id]
    by (cases workflow_id) (simp_all only: option.case fun_upd_twist simp_thms)
qed

theorem filter_changes_alone_witness:
  "map_of (shown_filters (parse_params (query_of
      (set_filter ''/workflows/w1/runs'' [] (shown_filters [] (Some ''w1'')) url_filter_keys ''status'' ''failed''))) (Some ''w1'')) =
    (map_of (shown_filters [] (Some ''w1'')))(''status'' \<mapsto> ''failed'')"
  using filter_changes_alone [of "''/workflows/w1/runs''" "''status''" "Some ''w1''" "[]" "''failed''"]
  by (simp add: url_filter_keys_def)

section \<open>What a list tells\<close>

text \<open>A list that could not be loaded is told as one that is empty, beside the refusal: without a filter as if nothing had
  run, been scheduled or been batched yet, with one as if nothing matched it.\<close>

theorem failed_list_is_told_empty:
  fixes s :: "'a cursor_list"
  assumes "cu_pages s = None" and "cu_error s = Some error"
  shows "lv_kind (runs_view search workflow_id workflow start s) =
      (if RunPresentation.has_list_filter (map_of (shown_filters search workflow_id)) then Filtered else Empty_list)
    \<and> lv_kind (schedules_view search workflow_id workflow s) =
      (if Schedules.has_list_filter (shown_filters search workflow_id) then Filtered else Empty_list)
    \<and> lv_kind (batches_view i workflow s) = Empty_list
    \<and> lv_refusal (batches_view i workflow s) = Some (workflow_refusal error)"
  using assms
  by (simp add: runs_view_def schedules_view_def batches_view_def Let_def list_loading_def list_items_def rows_of_def
      RunPresentation.list_kind_of_def schedule_list_kind_of_def batch_list_kind_def)

theorem failed_list_is_told_empty_witness:
  "lv_kind (batches_view ''w1'' None (list_step opened_list (Page_arrived (Inl Null)) :: nat cursor_list)) = Empty_list"
  using failed_list_is_told_empty [of "list_step opened_list (Page_arrived (Inl Null)) :: nat cursor_list" Null]
  by (simp add: opened_list_def)

section \<open>A Schedule in its row\<close>

lemma row_asks_append:
  "schedule_row_asks s (es @ es') = schedule_row_asks s es @ schedule_row_asks (foldl (\<lambda>s e. fst (schedule_row_step s e)) s es) es'"
  by (induction es arbitrary: s) auto

lemma row_keeps_schedule:
  "(\<forall>schedule. e \<noteq> Schedule_loaded schedule) \<Longrightarrow> sr_schedule (fst (schedule_row_step s e)) = sr_schedule s"
  by (cases "(s, e)" rule: schedule_row_step.cases) (auto split: mutation.splits option.splits)

lemma row_patches:
  "Patch_enabled i on \<in> set (snd (schedule_row_step s e)) \<longleftrightarrow>
     e = Box_clicked \<and> i = sy_id (sr_schedule s) \<and> on = (\<not> sy_enabled (sr_schedule s))"
  by (cases "(s, e)" rule: schedule_row_step.cases) (auto split: mutation.splits option.splits)

text \<open>The box of a Schedule asks for the opposite of what the list says, however often it is clicked before the list is loaded
  again: a second click does not take the first one back.\<close>

theorem clicks_ask_the_same:
  assumes "\<forall>e \<in> set es. \<forall>schedule. e \<noteq> Schedule_loaded schedule" and "Patch_enabled i on \<in> set (schedule_row_asks s es)"
  shows "i = sy_id (sr_schedule s) \<and> on = (\<not> sy_enabled (sr_schedule s))"
  using assms
proof (induction es arbitrary: s)
  case (Cons e es)
  then have kept: "sr_schedule (fst (schedule_row_step s e)) = sr_schedule s" using row_keeps_schedule by simp
  consider "Patch_enabled i on \<in> set (snd (schedule_row_step s e))"
    | "Patch_enabled i on \<in> set (schedule_row_asks (fst (schedule_row_step s e)) es)"
    using Cons.prems(2) by auto
  then show ?case
  proof cases
    case 1
    then show ?thesis by (simp add: row_patches)
  next
    case 2
    then show ?thesis using Cons.IH Cons.prems(1) kept by (metis list.set_intros(2))
  qed
qed simp

definition sample_schedule :: schedule_summary where
  "sample_schedule =
     \<lparr>sy_id = ''s1'', sy_workflow_id = ''w1'', sy_workflow_name = ''Invoices'', sy_cron = ''0 9 * * *'', sy_timezone = ''UTC'',
      sy_enabled = True, sy_variables = [], sy_state = State_active, sy_missing = [], sy_next_due_at = None, sy_last_run = None,
      sy_latest = Some \<lparr>oc_reason = Missed, oc_blocking_run_id = None, oc_occurrence_at = ''2026-01-05T09:00:00Z''\<rparr>\<rparr>"

definition sample_row :: schedule_row where
  "sample_row = \<lparr>sr_schedule = sample_schedule, sr_toggle = Idle, sr_fire = Idle\<rparr>"

theorem clicks_ask_the_same_witness:
  "schedule_row_asks sample_row [Box_clicked, Box_clicked] = [Patch_enabled ''s1'' False, Patch_enabled ''s1'' False]
   \<and> \<not> sy_enabled sample_schedule = False"
  using clicks_ask_the_same [of "[Box_clicked, Box_clicked]" "''s1''" False sample_row]
  by (simp add: sample_row_def sample_schedule_def)

text \<open>An open row says what became of the latest Occurrence that did not run, with its time; save one that was passed over for a
  Run that is no longer known. What it offers to run now is one that was passed over for a Run, once at a time.\<close>

theorem latest_gap_is_told:
  assumes "sy_latest (sr_schedule s) = Some latest" and "sy_state (sr_schedule s) \<noteq> State_needs_values"
  shows "(\<exists>moment story. moment = format_in_zone (oc_occurrence_at latest) (sy_timezone (sr_schedule s)) \<and>
      story = hole_story (oc_reason latest) (sy_missing (sr_schedule s)) \<and>
      ((\<exists>href. Overlapped moment story href \<in> set (callouts format_in_zone viewer_tz s)) \<or>
       (\<exists>bad. Not_run moment story bad \<in> set (callouts format_in_zone viewer_tz s)))) \<longleftrightarrow>
    \<not> (oc_reason latest = Overlap \<and> oc_blocking_run_id latest = None)"
  using assms
  by (cases "oc_reason latest"; cases "oc_blocking_run_id latest")
    (auto simp: callouts_def Let_def needs_values_banner_of_def overlap_shown_def latest_record_def overlap_banner_of_def
      occurrence_record.truncate_def occurrence_label_def hole_story_def)

theorem latest_gap_is_told_witness:
  "Not_run ''Mon 9:00'' ''The instance was not running. Missed Occurrences are never run late.'' False
     \<in> set (callouts (\<lambda>_ _. ''Mon 9:00'') ''UTC'' sample_row)"
  using latest_gap_is_told [of sample_row "\<lparr>oc_reason = Missed, oc_blocking_run_id = None, oc_occurrence_at = ''2026-01-05T09:00:00Z''\<rparr>"
      "\<lambda>_ _. ''Mon 9:00''" "''UTC''"]
  by (auto simp: sample_row_def sample_schedule_def callouts_def Let_def needs_values_banner_of_def overlap_shown_def latest_record_def
      overlap_banner_of_def occurrence_record.truncate_def occurrence_label_def hole_story_def)

text \<open>A paused Schedule has nothing ahead: neither in its strip nor in what is listed as coming.\<close>

lemma paused_has_nothing_ahead:
  assumes "\<not> sy_enabled (sr_schedule s)"
  shows "coming_shown format_in_zone viewer_tz s ahead = []" and "Mark_due moment \<notin> set (strip_shown s history ahead)"
proof -
  have "to_strip_mark entry \<noteq> Mark_due moment" for entry by (cases entry) simp_all
  then show "Mark_due moment \<notin> set (strip_shown s history ahead)"
    using assms by (auto simp: strip_shown_def strip_marks_def Let_def) metis
qed (use assms in \<open>simp add: coming_shown_def\<close>)

end
