(* ===== verification/SignIn.thy ===== *)
theory SignIn
  imports Gate Mutations
begin

text \<open>
  The page that signs a person in (\<open>app/signin/sign-in-screen.tsx\<close>, \<open>messages.ts\<close>): an address is typed, a code is asked for and
  typed, and who has signed in goes where the gate was carrying them. Requests are numbered: one that was set
  aside by a later one, or by a reset, is still answered.
\<close>

section \<open>Texts\<close>

definition sign_in_refusals :: "(js \<times> string) list" where
  "sign_in_refusals =
     [(Str ''bad_code'', ''That code is wrong or has expired. Check the code in the email, or send yourself a new one.''),
      (Str ''code_exhausted'', ''That code has had too many wrong tries and no longer works. Send yourself a new Sign-in Code.''),
      (Str ''rate_limited'', ''Too many codes have been asked for. Wait a few minutes, then try again.''),
      (Str ''signup_closed'', ''This instance does not create accounts on its own. New accounts join by Invitation. '' @
        ''Ask an owner or admin of an Organization to invite this address.'')]"

definition sign_in_refusal :: "js \<Rightarrow> string" where
  "sign_in_refusal = refusal_from sign_in_refusals ''Something went wrong. Try again in a moment.''"

datatype signup_mode = Open_signup | Invite_only

definition email_step_note :: "signup_mode option \<Rightarrow> string" where
  "email_step_note mode =
     (case mode of
        None \<Rightarrow> []
      | Some Open_signup \<Rightarrow> ''Don't have an account? Signing in creates one.''
      | Some Invite_only \<Rightarrow> ''Sign-in only. New accounts join this instance by Invitation.'')"

section \<open>The page\<close>

record sign_in =
  si_next :: "string option"
  si_email :: string
  si_code :: string
  si_sent :: bool
  si_identity :: "account option option"
  si_ask :: "nat mutation"
  si_verify :: "nat mutation"
  si_asks :: "(nat \<times> string) list"
  si_verifies :: "nat list"
  si_number :: nat

definition opened_sign_in :: "string option \<Rightarrow> sign_in" where
  "opened_sign_in carried =
     \<lparr>si_next = carried, si_email = [], si_code = [], si_sent = False, si_identity = None, si_ask = Idle, si_verify = Idle,
      si_asks = [], si_verifies = [], si_number = 0\<rparr>"

definition arrived :: "sign_in \<Rightarrow> bool" where
  "arrived s \<longleftrightarrow> (case resolve_gate (orelse (si_identity s) None) None sign_in_path of Redirect _ \<Rightarrow> True | Render \<Rightarrow> False)"

definition forms_shown :: "sign_in \<Rightarrow> bool" where
  "forms_shown s \<longleftrightarrow> si_identity s \<noteq> None \<and> \<not> arrived s"

definition shown_sign_in_refusal :: "sign_in \<Rightarrow> string option" where
  "shown_sign_in_refusal s =
     (if si_sent s
      then map_option sign_in_refusal (case refused_with (si_verify s) of Some e \<Rightarrow> Some e | None \<Rightarrow> refused_with (si_ask s))
      else map_option sign_in_refusal (refused_with (si_ask s)))"

datatype sign_in_effect = Request_code string | Verify_code string string | Reload_identity | Replace_with string

datatype sign_in_event =
    Identity_loaded "account option"
  | Email_typed string
  | Continue_pressed
  | Code_asked nat "js option"
  | Code_typed string
  | Sign_in_pressed
  | Code_verified nat "js option"
  | Identity_reloaded nat "account option"
  | New_code_pressed
  | Different_email_pressed

definition ask_for_code :: "sign_in \<Rightarrow> sign_in \<times> sign_in_effect list" where
  "ask_for_code s =
     (s\<lparr>si_ask := Asked (si_number s), si_asks := (si_number s, si_email s) # si_asks s, si_number := Suc (si_number s)\<rparr>,
      [Request_code (si_email s)])"

text \<open>The effect that leaves the page runs when somebody turns out to be signed in.\<close>

definition with_identity :: "account option \<Rightarrow> sign_in \<Rightarrow> sign_in \<times> sign_in_effect list" where
  "with_identity me s =
     (let s' = s\<lparr>si_identity := Some me\<rparr>
      in (s', if arrived s' \<and> \<not> arrived s then [Replace_with (landing_after_sign_in (si_next s))] else []))"

fun sign_in_step :: "sign_in \<Rightarrow> sign_in_event \<Rightarrow> sign_in \<times> sign_in_effect list" where
  "sign_in_step s (Identity_loaded me) = with_identity me s"
| "sign_in_step s (Email_typed typed) =
     (if forms_shown s \<and> \<not> si_sent s then s\<lparr>si_email := trim typed\<rparr> else s, [])"
| "sign_in_step s Continue_pressed =
     (if \<not> forms_shown s \<or> si_sent s \<or> pending (si_ask s) \<or> si_email s = [] then (s, []) else ask_for_code s)"
| "sign_in_step s (Code_asked n answer) =
     (if n \<notin> fst ` set (si_asks s) then (s, [])
      else
        (let s' = s\<lparr>si_asks := filter (\<lambda>(m, _). m \<noteq> n) (si_asks s), si_ask := (if si_ask s = Asked n then answered answer else si_ask s)\<rparr>
         in (if answer = None then s'\<lparr>si_code := [], si_sent := True\<rparr> else s', [])))"
| "sign_in_step s (Code_typed typed) =
     (if forms_shown s \<and> si_sent s \<and> \<not> pending (si_verify s) \<and> length typed \<le> 6 \<and> list_all is_digit typed
      then s\<lparr>si_code := typed\<rparr> else s, [])"
| "sign_in_step s Sign_in_pressed =
     (if \<not> forms_shown s \<or> \<not> si_sent s \<or> pending (si_verify s) \<or> length (si_code s) \<noteq> 6 then (s, [])
      else (s\<lparr>si_verify := Asked (si_number s), si_verifies := si_number s # si_verifies s, si_number := Suc (si_number s)\<rparr>,
        [Verify_code (si_email s) (si_code s)]))"
| "sign_in_step s (Code_verified n answer) =
     (if n \<notin> set (si_verifies s) then (s, [])
      else (case answer of
          Some error \<Rightarrow>
            (s\<lparr>si_verifies := removeAll n (si_verifies s), si_verify := (if si_verify s = Asked n then Refused error else si_verify s)\<rparr>, [])
        | None \<Rightarrow> (s, [Reload_identity])))"
| "sign_in_step s (Identity_reloaded n me) =
     (if n \<notin> set (si_verifies s) then (s, [])
      else with_identity me
        (s\<lparr>si_verifies := removeAll n (si_verifies s), si_verify := (if si_verify s = Asked n then Idle else si_verify s)\<rparr>))"
| "sign_in_step s New_code_pressed =
     (if \<not> forms_shown s \<or> \<not> si_sent s \<or> pending (si_ask s) then (s, []) else ask_for_code (s\<lparr>si_verify := Idle\<rparr>))"
| "sign_in_step s Different_email_pressed =
     (if \<not> forms_shown s \<or> \<not> si_sent s then (s, [])
      else (s\<lparr>si_verify := Idle, si_ask := Idle, si_code := [], si_sent := False\<rparr>, []))"

definition signed_in_after :: "string option \<Rightarrow> sign_in_event list \<Rightarrow> sign_in" where
  "signed_in_after carried = foldl (\<lambda>s e. fst (sign_in_step s e)) (opened_sign_in carried)"

fun sign_in_asks :: "sign_in \<Rightarrow> sign_in_event list \<Rightarrow> sign_in_effect list" where
  "sign_in_asks s [] = []"
| "sign_in_asks s (e # es) = snd (sign_in_step s e) @ sign_in_asks (fst (sign_in_step s e)) es"

lemmas sign_in_defs = ask_for_code_def with_identity_def Let_def

lemma arrived_iff: "arrived s \<longleftrightarrow> (\<exists>me. si_identity s = Some (Some me))"
  by (cases "si_identity s"; cases "the (si_identity s)")
    (auto simp: arrived_def resolve_gate_def is_auth_route_def path_of_def sign_in_path_def)

section \<open>What the page asks\<close>

definition code_ok :: "sign_in \<Rightarrow> bool" where
  "code_ok s \<longleftrightarrow> length (si_code s) \<le> 6 \<and> list_all is_digit (si_code s)"

lemma code_ok_step: "code_ok s \<Longrightarrow> code_ok (fst (sign_in_step s e))"
  by (cases "(s, e)" rule: sign_in_step.cases) (auto simp: code_ok_def sign_in_defs split: option.splits)

lemma code_ok_run: "code_ok (signed_in_after carried es)"
proof (induction es rule: rev_induct)
  case Nil
  show ?case by (simp add: signed_in_after_def opened_sign_in_def code_ok_def)
next
  case (snoc e es)
  then show ?case using code_ok_step by (simp add: signed_in_after_def)
qed

lemma sign_in_effects:
  assumes "x \<in> set (snd (sign_in_step s e))"
  shows "(e = Sign_in_pressed \<and> x = Verify_code (si_email s) (si_code s) \<and> si_sent s \<and> \<not> pending (si_verify s) \<and> length (si_code s) = 6)
    \<or> ((e = Continue_pressed \<or> e = New_code_pressed) \<and> x = Request_code (si_email s) \<and> \<not> pending (si_ask s))
    \<or> (x = Reload_identity \<and> (\<exists>n. e = Code_verified n None))
    \<or> (\<exists>me. x = Replace_with (landing_after_sign_in (si_next s)) \<and> (e = Identity_loaded (Some me) \<or> (\<exists>n. e = Identity_reloaded n (Some me))))"
  using assms
  by (cases "(s, e)" rule: sign_in_step.cases) (auto simp: sign_in_defs arrived_iff split: if_splits option.splits)

text \<open>A code is tried only when Sign in is pressed, with the address on the page, after a code was sent, while no other try is
  pending, and only if it has six digits.\<close>

theorem six_digits_are_tried:
  assumes "Verify_code email code_tried \<in> set (snd (sign_in_step (signed_in_after carried es) e))"
  shows "e = Sign_in_pressed \<and> email = si_email (signed_in_after carried es) \<and> si_sent (signed_in_after carried es)
    \<and> \<not> pending (si_verify (signed_in_after carried es)) \<and> length code_tried = 6 \<and> list_all is_digit code_tried"
  using sign_in_effects [OF assms] code_ok_run [of carried es] by (auto simp: code_ok_def)

definition ready_to_try :: "sign_in_event list" where
  "ready_to_try = [Identity_loaded None, Email_typed ''ada@example.com'', Continue_pressed, Code_asked 0 None, Code_typed ''123456'']"

lemma tried: "Verify_code ''ada@example.com'' ''123456'' \<in> set (snd (sign_in_step (signed_in_after None ready_to_try) Sign_in_pressed))"
  by code_simp

theorem six_digits_are_tried_witness: "si_sent (signed_in_after None ready_to_try) \<and> list_all is_digit ''123456''"
  using six_digits_are_tried [OF tried] by blast

section \<open>The address a code was sent to\<close>

text \<open>The address is not typed over while a request for a code is out.\<close>

fun waits_for_answers :: "sign_in \<Rightarrow> sign_in_event list \<Rightarrow> bool" where
  "waits_for_answers s [] \<longleftrightarrow> True"
| "waits_for_answers s (e # es) \<longleftrightarrow>
     (case e of Email_typed _ \<Rightarrow> si_asks s = [] | _ \<Rightarrow> True) \<and> waits_for_answers (fst (sign_in_step s e)) es"

definition email_asked :: "sign_in_effect list \<Rightarrow> sign_in \<Rightarrow> bool" where
  "email_asked asked s \<longleftrightarrow>
     (si_sent s \<longrightarrow> Request_code (si_email s) \<in> set asked) \<and> (\<forall>(n, email) \<in> set (si_asks s). email = si_email s \<and> Request_code email \<in> set asked)"

lemma email_asked_step:
  assumes "email_asked asked s" and "(\<exists>typed. e = Email_typed typed) \<longrightarrow> si_asks s = []"
  shows "email_asked (asked @ snd (sign_in_step s e)) (fst (sign_in_step s e))"
  using assms
  by (cases "(s, e)" rule: sign_in_step.cases) (auto simp: email_asked_def sign_in_defs split: option.splits)

lemma email_asked_run:
  "email_asked asked s \<Longrightarrow> waits_for_answers s es \<Longrightarrow>
     email_asked (asked @ sign_in_asks s es) (foldl (\<lambda>s e. fst (sign_in_step s e)) s es)"
proof (induction es arbitrary: asked s)
  case (Cons e es)
  then show ?case using email_asked_step [of asked s e] Cons.IH [of "asked @ snd (sign_in_step s e)"] by (auto split: sign_in_event.splits)
qed simp

text \<open>When the page says that a code was sent, it names an address that a code was asked for, as long as the address is not typed
  over while such a request is out.\<close>

theorem named_address_was_asked:
  assumes "waits_for_answers (opened_sign_in carried) es" and "si_sent (signed_in_after carried es)"
  shows "Request_code (si_email (signed_in_after carried es)) \<in> set (sign_in_asks (opened_sign_in carried) es)"
proof -
  have "email_asked [] (opened_sign_in carried)" by (simp add: email_asked_def opened_sign_in_def)
  from email_asked_run [OF this assms(1)] assms(2) show ?thesis by (simp add: email_asked_def signed_in_after_def)
qed

theorem named_address_was_asked_witness:
  "Request_code ''ada@example.com'' \<in> set (sign_in_asks (opened_sign_in None) ready_to_try)"
proof -
  have "waits_for_answers (opened_sign_in None) ready_to_try" "si_sent (signed_in_after None ready_to_try)"
    "si_email (signed_in_after None ready_to_try) = ''ada@example.com''" by code_simp+
  then show ?thesis using named_address_was_asked [of None ready_to_try] by simp
qed

text \<open>The field for the address stays open while the code is asked for: what is typed then is named as the address the code was
  sent to, and the code is tried with it, though it was sent to another.\<close>

theorem typed_over_address_is_named:
  assumes "trim mine = mine" and "trim other = other" and "mine \<noteq> []" and "other \<noteq> mine" and "length typed = 6" and "list_all is_digit typed"
  shows "let es = [Identity_loaded None, Email_typed mine, Continue_pressed, Email_typed other, Code_asked 0 None, Code_typed typed, Sign_in_pressed]
         in si_sent (signed_in_after carried es) \<and> si_email (signed_in_after carried es) = other
           \<and> sign_in_asks (opened_sign_in carried) es = [Request_code mine, Verify_code other typed]"
  using assms
  by (simp add: Let_def signed_in_after_def opened_sign_in_def sign_in_defs forms_shown_def arrived_iff)

theorem typed_over_address_is_named_witness:
  "sign_in_asks (opened_sign_in None) [Identity_loaded None, Email_typed ''ada@example.com'', Continue_pressed, Email_typed ''eve@example.com'',
     Code_asked 0 None, Code_typed ''123456'', Sign_in_pressed] =
   [Request_code ''ada@example.com'', Verify_code ''eve@example.com'' ''123456'']"
proof -
  have "trim ''ada@example.com'' = ''ada@example.com''" "trim ''eve@example.com'' = ''eve@example.com''" "list_all is_digit ''123456''"
    by code_simp+
  then show ?thesis
    using typed_over_address_is_named [of "''ada@example.com''" "''eve@example.com''" "''123456''" None] by (simp add: Let_def del: sign_in_asks.simps)
qed

section \<open>Signing in\<close>

text \<open>C27. Whoever the gate sent here gets back to where they were going: from the address that the gate wrote, with an address typed, the
  code sent, typed and accepted, the page is left once, for the path that was wanted.\<close>

theorem signing_in_returns:
  assumes "resolve_gate None role wanted = Redirect to" and "is_own_path wanted"
    and "trim mine = mine" and "mine \<noteq> []" and "length typed = 6" and "list_all is_digit typed"
  shows "sign_in_asks (opened_sign_in (params_get (parse_params (query_of to)) ''next''))
      [Identity_loaded None, Email_typed mine, Continue_pressed, Code_asked 0 None, Code_typed typed, Sign_in_pressed,
       Code_verified 1 None, Identity_reloaded 1 (Some me)] =
    [Request_code mine, Verify_code mine typed, Reload_identity, Replace_with wanted]"
proof -
  have elsewhere: "\<not> is_auth_route (path_of wanted)" "to = sign_in_path_for wanted"
    using assms(1) by (auto simp: resolve_gate_def Let_def split: if_splits)
  then have "landing_after_sign_in (params_get (parse_params (query_of to)) ''next'') = wanted"
    using assms(2) by (auto simp: next_of_sign_in_path landing_after_sign_in_def is_own_path_def)
  then show ?thesis
    using assms(3-6) by (simp add: opened_sign_in_def sign_in_defs forms_shown_def arrived_iff)
qed

theorem signing_in_returns_witness:
  "\<exists>to. resolve_gate None None ''/runs?status=failed'' = Redirect to \<and>
     sign_in_asks (opened_sign_in (params_get (parse_params (query_of to)) ''next''))
       [Identity_loaded None, Email_typed ''ada@example.com'', Continue_pressed, Code_asked 0 None, Code_typed ''123456'', Sign_in_pressed,
        Code_verified 1 None, Identity_reloaded 1 (Some sample_account)] =
     [Request_code ''ada@example.com'', Verify_code ''ada@example.com'' ''123456'', Reload_identity, Replace_with ''/runs?status=failed'']"
proof -
  have gate: "resolve_gate None None ''/runs?status=failed'' = Redirect (sign_in_path_for ''/runs?status=failed'')"
    and own: "is_own_path ''/runs?status=failed''"
    by (simp_all add: resolve_gate_def is_auth_route_def path_of_def sign_in_path_def is_own_path_def)
  have "trim ''ada@example.com'' = ''ada@example.com''" "list_all is_digit ''123456''" by code_simp+
  then show ?thesis
    using signing_in_returns [OF gate own, of "''ada@example.com''" "''123456''" sample_account] gate
    by (simp del: sign_in_asks.simps)
qed

end
