(* ===== verification/ApiClient.thy ===== *)
theory ApiClient
  imports Urls Gate
begin

text \<open>
  The client of the API (\<open>packages/api-client/src/generated/client\<close> and \<open>core\<close>): how a call becomes a URL, headers and a body,
  which interceptors it passes, and what its answer becomes. \<open>JSON.parse\<close> and the value it throws are arguments, as are what
  the network answers. Dates, which no call of the application passes, are left out of the serializers.
\<close>

section \<open>Serializing a parameter\<close>

datatype param_style = Form | Space_delimited | Pipe_delimited | Deep_object | Label | Matrix | Simple

fun separator_explode :: "param_style \<Rightarrow> string" where
  "separator_explode Label = ''.''"
| "separator_explode Matrix = '';''"
| "separator_explode Simple = '',''"
| "separator_explode _ = ''&''"

fun separator_no_explode :: "param_style \<Rightarrow> string" where
  "separator_no_explode Pipe_delimited = ''|''"
| "separator_no_explode Space_delimited = ''%20''"
| "separator_no_explode _ = '',''"

definition encode_js :: "bool \<Rightarrow> js \<Rightarrow> string" where
  "encode_js allow_reserved v = (if allow_reserved then string_of_js v else encode_uri_component (string_of_js v))"

text \<open>\<open>None\<close> where the code throws: an object or an array inside another one.\<close>

fun serialize_primitive :: "bool \<Rightarrow> string \<Rightarrow> js \<Rightarrow> string option" where
  "serialize_primitive allow_reserved name Undefined = Some []"
| "serialize_primitive allow_reserved name Null = Some []"
| "serialize_primitive allow_reserved name (Arr _) = None"
| "serialize_primitive allow_reserved name (Obj _) = None"
| "serialize_primitive allow_reserved name v = Some (name @ ''='' @ encode_js allow_reserved v)"

text \<open>The pieces of a \<open>map\<close> that may throw, the first that throws first.\<close>

fun all_some :: "'a option list \<Rightarrow> 'a list option" where
  "all_some [] = Some []"
| "all_some (None # _) = None"
| "all_some (Some x # rest) = map_option (Cons x) (all_some rest)"

definition with_prefix :: "param_style \<Rightarrow> string \<Rightarrow> string \<Rightarrow> string" where
  "with_prefix style sep joined = (if style = Label \<or> style = Matrix then sep @ joined else joined)"

definition serialize_array :: "bool \<Rightarrow> bool \<Rightarrow> string \<Rightarrow> param_style \<Rightarrow> js list \<Rightarrow> string option" where
  "serialize_array allow_reserved explode name style vs =
     (let raw = (\<lambda>sep vs. join sep (if allow_reserved then item_strings vs else map (encode_js False) vs))
      in if \<not> explode then
           (let joined = raw (separator_no_explode style) vs
            in Some (case style of
                 Label \<Rightarrow> ''.'' @ joined
               | Matrix \<Rightarrow> '';'' @ name @ ''='' @ joined
               | Simple \<Rightarrow> joined
               | _ \<Rightarrow> name @ ''='' @ joined))
         else
           map_option (with_prefix style (separator_explode style))
             (if style = Label \<or> style = Simple then Some (raw (separator_explode style) vs)
              else map_option (join (separator_explode style)) (all_some (map (serialize_primitive allow_reserved name) vs))))"

definition serialize_object :: "bool \<Rightarrow> bool \<Rightarrow> string \<Rightarrow> param_style \<Rightarrow> fields \<Rightarrow> string option" where
  "serialize_object allow_reserved explode name style fs =
     (if style \<noteq> Deep_object \<and> \<not> explode then
        (let joined = join '','' (concat (map (\<lambda>(key, v). [key, encode_js allow_reserved v]) fs))
         in Some (case style of
              Form \<Rightarrow> name @ ''='' @ joined
            | Label \<Rightarrow> ''.'' @ joined
            | Matrix \<Rightarrow> '';'' @ name @ ''='' @ joined
            | _ \<Rightarrow> joined))
      else
        map_option (with_prefix style (separator_explode style) \<circ> join (separator_explode style))
          (all_some (map (\<lambda>(key, v).
              serialize_primitive allow_reserved (if style = Deep_object then name @ ''['' @ key @ '']'' else key) v) fs)))"

section \<open>The path\<close>

text \<open>The matches of \<open>/\{[^{}]+\}/g\<close>; the first argument is what follows an open brace, in reverse.\<close>

fun path_matches :: "string option \<Rightarrow> string \<Rightarrow> string list" where
  "path_matches opened [] = []"
| "path_matches opened (c # s) =
     (if c = CHR ''{'' then path_matches (Some []) s
      else if c = CHR ''}'' then
        (case opened of
           None \<Rightarrow> path_matches None s
         | Some w \<Rightarrow> (if w = [] then [] else [''{'' @ rev w @ ''}'']) @ path_matches None s)
      else path_matches (map_option (Cons c) opened) s)"

text \<open>\<open>url.replace(match, value)\<close>; no value has the dollar sign that is special in it.\<close>

fun replace_first :: "string \<Rightarrow> string \<Rightarrow> string \<Rightarrow> string" where
  "replace_first pat rep [] = (if pat = [] then rep else [])"
| "replace_first pat rep (c # s) =
     (if prefix pat (c # s) then rep @ drop (length pat) (c # s) else c # replace_first pat rep s)"

text \<open>The name in a match, whether it is exploded, and its style.\<close>

definition read_match :: "string \<Rightarrow> string \<times> bool \<times> param_style" where
  "read_match match =
     (let name = butlast (tl match);
          explode = (name \<noteq> [] \<and> last name = CHR ''*'');
          starless = (if explode then butlast name else name)
      in if prefix ''.'' starless then (tl starless, explode, Label)
         else if prefix '';'' starless then (tl starless, explode, Matrix)
         else (starless, explode, Simple))"

definition path_value :: "fields \<Rightarrow> string \<Rightarrow> string option option" where
  "path_value path match =
     (let (name, explode, style) = read_match match
      in case field path name of
           Undefined \<Rightarrow> None
         | Null \<Rightarrow> None
         | Arr vs \<Rightarrow> Some (serialize_array False explode name style vs)
         | Obj fs \<Rightarrow> Some (serialize_object False explode name style fs)
         | v \<Rightarrow>
             if style = Matrix then Some (map_option ((@) '';'') (serialize_primitive False name v))
             else Some (Some (encode_uri_component ((if style = Label then ''.'' else []) @ string_of_js v))))"

definition fill_match :: "fields \<Rightarrow> string option \<Rightarrow> string \<Rightarrow> string option" where
  "fill_match path url match =
     Option.bind url (\<lambda>u. case path_value path match of
         None \<Rightarrow> Some u
       | Some filled \<Rightarrow> map_option (\<lambda>rep. replace_first match rep u) filled)"

definition path_serializer :: "fields \<Rightarrow> string \<Rightarrow> string option" where
  "path_serializer path url = foldl (fill_match path) (Some url) (path_matches None url)"

section \<open>The query and the URL\<close>

text \<open>The serializer of the client: reserved characters are escaped, arrays and objects are exploded.\<close>

definition query_piece :: "string \<times> js \<Rightarrow> string option" where
  "query_piece p =
     (case snd p of
        Arr vs \<Rightarrow> serialize_array False True (fst p) Form vs
      | Obj fs \<Rightarrow> serialize_object False True (fst p) Deep_object fs
      | v \<Rightarrow> serialize_primitive False (fst p) v)"

definition query_serializer :: "fields \<Rightarrow> string option" where
  "query_serializer query =
     map_option (\<lambda>pieces. join ''&'' (filter (\<lambda>piece. piece \<noteq> []) pieces))
       (all_some (map query_piece (filter (\<lambda>(name, v). v \<noteq> Undefined \<and> v \<noteq> Null) query)))"

definition get_url :: "string option \<Rightarrow> fields option \<Rightarrow> fields option \<Rightarrow> string \<Rightarrow> string option" where
  "get_url base path query url =
     (let whole = orelse base [] @ (if prefix ''/'' url then url else CHR ''/'' # url)
      in Option.bind (case path of None \<Rightarrow> Some whole | Some p \<Rightarrow> path_serializer p whole)
           (\<lambda>filled. map_option
              (\<lambda>search. let s = (if prefix ''?'' search then tl search else search) in if s = [] then filled else filled @ ''?'' @ s)
              (case query of None \<Rightarrow> Some [] | Some q \<Rightarrow> query_serializer q)))"

section \<open>Headers and configuration\<close>

text \<open>Headers by their names in small letters. A header given as \<open>null\<close> is deleted, as an array appended, else set.\<close>

type_synonym headers = "(string \<times> string) list"

definition header_append :: "string \<Rightarrow> string \<Rightarrow> headers \<Rightarrow> headers" where
  "header_append name v headers =
     (case map_of headers (to_lower name) of
        None \<Rightarrow> headers @ [(to_lower name, v)]
      | Some w \<Rightarrow> with_key (to_lower name) (w @ '', '' @ v) headers)"

definition merge_header :: "string \<times> js \<Rightarrow> headers \<Rightarrow> headers" where
  "merge_header p headers =
     (case snd p of
        Null \<Rightarrow> filter (\<lambda>h. fst h \<noteq> to_lower (fst p)) headers
      | Arr vs \<Rightarrow> fold (\<lambda>v. header_append (fst p) (string_of_js v)) vs headers
      | Undefined \<Rightarrow> headers
      | Obj fs \<Rightarrow> with_key (to_lower (fst p)) (orelse (stringify (Obj fs)) ''undefined'') headers
      | v \<Rightarrow> with_key (to_lower (fst p)) (string_of_js v) headers)"

definition merge_headers :: "fields list \<Rightarrow> headers" where
  "merge_headers hs = fold merge_header (concat hs) []"

definition without_last_slash :: "string \<Rightarrow> string" where
  "without_last_slash base = (if base \<noteq> [] \<and> last base = CHR ''/'' then butlast base else base)"

text \<open>The body of a call, \<open>None\<close> without one, and its headers: without a body there is no type of its content.\<close>

definition request_body :: "js option \<Rightarrow> string option" where
  "request_body body = Option.bind body stringify"

definition request_headers :: "fields list \<Rightarrow> js option \<Rightarrow> headers" where
  "request_headers hs body =
     (if body = None then filter (\<lambda>h. fst h \<noteq> ''content-type'') (merge_headers hs) else merge_headers hs)"

section \<open>Interceptors\<close>

text \<open>\<open>use\<close> gives the place of a function as its id; \<open>eject\<close> empties the place.\<close>

datatype 'f interceptor_op = Use 'f | Eject nat

fun interceptor_step :: "'f option list \<Rightarrow> 'f interceptor_op \<Rightarrow> 'f option list" where
  "interceptor_step fns (Use f) = fns @ [Some f]"
| "interceptor_step fns (Eject i) = (if i < length fns \<and> fns ! i \<noteq> None then fns[i := None] else fns)"

definition running :: "'f option list \<Rightarrow> 'f list" where
  "running fns = List.map_filter id fns"

text \<open>The header of the Organization, and what a response causes besides its answer.\<close>

definition organization_header :: "string option \<Rightarrow> headers \<Rightarrow> headers" where
  "organization_header active headers =
     (case active of None \<Rightarrow> headers | Some i \<Rightarrow> with_key ''x-organization'' i headers)"

section \<open>Answers\<close>

record response =
  rp_status :: int
  rp_content_type :: "string option"
  rp_content_length :: "string option"
  rp_body :: string

definition response_ok :: "response \<Rightarrow> bool" where
  "response_ok r \<longleftrightarrow> 200 \<le> rp_status r \<and> rp_status r \<le> 299"

datatype parse_as = As_json | As_form_data | As_blob | As_text | As_stream

definition get_parse_as :: "string option \<Rightarrow> parse_as option" where
  "get_parse_as content_type =
     (if orelse content_type [] = [] then Some As_stream
      else
        (let clean = trim (hd (split_on (CHR '';'') (orelse content_type [])))
         in if clean = [] then None
            else if prefix ''application/json'' clean \<or> suffix ''+json'' clean then Some As_json
            else if clean = ''multipart/form-data'' then Some As_form_data
            else if list_ex (\<lambda>t. prefix t clean) [''application/'', ''audio/'', ''image/'', ''video/''] then Some As_blob
            else if prefix ''text/'' clean then Some As_text
            else None))"

datatype reply_data = Json_data js | Text_data string | Blob_data string | Form_data string | Stream_data string

datatype reply = Data reply_data | Refusal js

fun truthy :: "js \<Rightarrow> bool" where
  "truthy Undefined \<longleftrightarrow> False"
| "truthy Null \<longleftrightarrow> False"
| "truthy (Bool b) \<longleftrightarrow> b"
| "truthy (Number n) \<longleftrightarrow> n \<noteq> NaN \<and> n \<noteq> Num 0"
| "truthy (Str s) \<longleftrightarrow> s \<noteq> []"
| "truthy _ \<longleftrightarrow> True"

definition final_error :: "js \<Rightarrow> js" where
  "final_error e = (if truthy e then e else Obj [])"

text \<open>What is thrown for a response that is not ok: its body as JSON, or as text where it is none or \<open>null\<close>.\<close>

definition thrown_for :: "(string \<Rightarrow> js option) \<Rightarrow> response \<Rightarrow> js" where
  "thrown_for json r =
     (case json (rp_body r) of
        None \<Rightarrow> Str (rp_body r)
      | Some Null \<Rightarrow> Str (rp_body r)
      | Some Undefined \<Rightarrow> Str (rp_body r)
      | Some e \<Rightarrow> e)"

definition answer_of :: "(string \<Rightarrow> js option) \<Rightarrow> js \<Rightarrow> js + response \<Rightarrow> reply" where
  "answer_of json syntax_error received =
     (case received of
        Inl error \<Rightarrow> Refusal (final_error error)
      | Inr r \<Rightarrow>
          if \<not> response_ok r then Refusal (final_error (thrown_for json r))
          else
            (let empty_answer = (rp_status r = 204 \<or> rp_content_length r = Some ''0'')
             in case orelse (get_parse_as (rp_content_type r)) As_json of
                  As_json \<Rightarrow>
                    if empty_answer \<or> rp_body r = [] then Data (Json_data (Obj []))
                    else (case json (rp_body r) of Some v \<Rightarrow> Data (Json_data v) | None \<Rightarrow> Refusal (final_error syntax_error))
                | As_text \<Rightarrow> Data (Text_data (rp_body r))
                | As_blob \<Rightarrow> Data (Blob_data (rp_body r))
                | As_form_data \<Rightarrow> Data (Form_data (if empty_answer then [] else rp_body r))
                | As_stream \<Rightarrow> Data (Stream_data (rp_body r))))"

text \<open>What the response interceptors of the application cause: going to sign in, or letting go of the Organization.\<close>

definition caused_by :: "(string \<Rightarrow> js option) \<Rightarrow> string \<Rightarrow> response \<Rightarrow> string option \<times> bool" where
  "caused_by json here r = (unauthorized_redirect (rp_status r) here, membership_lapsed (rp_status r) (json (rp_body r)))"

text \<open>A call: one whose parameters cannot be serialized is refused before anything is sent.\<close>

definition client_call :: "(string \<Rightarrow> js option) \<Rightarrow> js \<Rightarrow> js \<Rightarrow> string option \<Rightarrow> (string \<Rightarrow> js + response) \<Rightarrow> reply" where
  "client_call json syntax_error nesting_error url fetch =
     (case url of None \<Rightarrow> Refusal (final_error nesting_error) | Some u \<Rightarrow> answer_of json syntax_error (fetch u))"

section \<open>Refusals\<close>

lemma truthy_final_error [simp]: "truthy (final_error e)"
  by (simp add: final_error_def)

lemma accepted_answer:
  assumes "\<And>body. json body \<noteq> Some Undefined" and "response_ok r"
  shows "(\<exists>e. answer_of json syntax_error (Inr r) = Refusal (final_error e))
    \<or> (\<exists>d. answer_of json syntax_error (Inr r) = Data d \<and> d \<noteq> Json_data Undefined)"
  using assms(2) assms(1) [of "rp_body r"]
  by (cases "orelse (get_parse_as (rp_content_type r)) As_json"; cases "json (rp_body r)")
    (auto simp: answer_of_def Let_def)

text \<open>C6. Whatever becomes of a call, what it refuses with is a value that tests as true, so a caller that looks for an error finds
  it: a response that is not ok is always refused, with the object of its body where it is one. Only a response that is
  ok gives data, and never \<open>undefined\<close>.\<close>

theorem refusals_are_seen:
  assumes "\<And>body. json body \<noteq> Some Undefined"
  shows "(client_call json syntax_error nesting_error url fetch = Refusal e \<longrightarrow> truthy e)
    \<and> (client_call json syntax_error nesting_error url fetch = Data d \<longrightarrow>
         (\<exists>u r. url = Some u \<and> fetch u = Inr r \<and> response_ok r) \<and> d \<noteq> Json_data Undefined)
    \<and> (url = Some u \<and> fetch u = Inr r \<and> \<not> response_ok r \<and> json (rp_body r) = Some (Obj fs) \<longrightarrow>
         client_call json syntax_error nesting_error url fetch = Refusal (Obj fs))"
proof (cases "\<exists>u r. url = Some u \<and> fetch u = Inr r \<and> response_ok r")
  case True
  then obtain u' r' where "url = Some u'" "fetch u' = Inr r'" "response_ok r'" by blast
  then show ?thesis
    using accepted_answer [of json r' syntax_error, OF assms] truthy_final_error by (auto simp: client_call_def)
next
  case False
  have "\<exists>e. client_call json syntax_error nesting_error url fetch = Refusal (final_error e)"
  proof (cases url)
    case (Some u')
    then show ?thesis using False by (cases "fetch u'") (auto simp: client_call_def answer_of_def)
  qed (auto simp: client_call_def)
  moreover have "client_call json syntax_error nesting_error url fetch = Refusal (Obj fs)"
    if "url = Some u \<and> fetch u = Inr r \<and> \<not> response_ok r \<and> json (rp_body r) = Some (Obj fs)"
    using that by (simp add: client_call_def answer_of_def thrown_for_def final_error_def)
  ultimately show ?thesis using False by auto
qed

definition refused_response :: response where
  "refused_response = \<lparr>rp_status = 409, rp_content_type = Some ''application/json'', rp_content_length = None, rp_body = ''{..}''\<rparr>"

theorem refusals_are_seen_witness:
  "client_call (\<lambda>_. Some (Obj [(''code'', Str ''run_active'')])) Null Null (Some ''/api'') (\<lambda>_. Inr refused_response) =
     Refusal (Obj [(''code'', Str ''run_active'')])"
  using refusals_are_seen
      [of "\<lambda>_. Some (Obj [(''code'', Str ''run_active'')])" Null Null "Some ''/api''" "\<lambda>_. Inr refused_response" _ _ "''/api''" refused_response
        "[(''code'', Str ''run_active'')]"]
  by (simp add: response_ok_def refused_response_def)

section \<open>Interceptors\<close>

text \<open>As they are meant: each function that is in use with its id, in the order of their installation.\<close>

fun intended_step :: "nat \<times> (nat \<times> 'f) list \<Rightarrow> 'f interceptor_op \<Rightarrow> nat \<times> (nat \<times> 'f) list" where
  "intended_step (n, fs) (Use f) = (Suc n, fs @ [(n, f)])"
| "intended_step (n, fs) (Eject i) = (n, filter (\<lambda>p. fst p \<noteq> i) fs)"

definition installed :: "'f option list \<Rightarrow> (nat \<times> 'f) list" where
  "installed fns = map (\<lambda>p. (fst p, the (snd p))) (filter (\<lambda>p. snd p \<noteq> None) (enumerate 0 fns))"

lemma filter_enumerate_update:
  "filter (\<lambda>p. snd p \<noteq> None) (enumerate k (fns[i := None])) =
     filter (\<lambda>p. fst p \<noteq> k + i) (filter (\<lambda>p. snd p \<noteq> None) (enumerate k fns))"
proof (induction fns arbitrary: i k)
  case (Cons f fns)
  show ?case
  proof (cases i)
    case 0
    have "filter (\<lambda>p. fst p \<noteq> k) (filter (\<lambda>p. snd p \<noteq> None) (enumerate (Suc k) fns)) = filter (\<lambda>p. snd p \<noteq> None) (enumerate (Suc k) fns)"
      by (rule filter_True) (auto simp: in_set_enumerate_eq)
    then show ?thesis using 0 by (simp only: list_update.simps nat.case enumerate_simps filter.simps fst_conv snd_conv add_0_right) simp
  next
    case (Suc j)
    then show ?thesis
      using Cons.IH [where k = "Suc k" and i = j] by (simp del: filter_filter)
  qed
qed simp

lemma installed_eject: "installed (interceptor_step fns (Eject i)) = filter (\<lambda>p. fst p \<noteq> i) (installed fns)"
proof (cases "i < length fns \<and> fns ! i \<noteq> None")
  case True
  then show ?thesis
    by (simp add: installed_def filter_enumerate_update [of 0, simplified add_0] filter_map comp_def del: filter_filter not_None_eq)
next
  case False
  then have "\<forall>p \<in> set (installed fns). fst p \<noteq> i"
    by (auto simp: installed_def in_set_enumerate_eq)
  then have "filter (\<lambda>p. fst p \<noteq> i) (installed fns) = installed fns" by (simp add: filter_True)
  then show ?thesis using False by (simp only: interceptor_step.simps if_False)
qed

lemma running_installed: "running fns = map snd (installed fns)"
proof -
  have "List.map_filter id fns = map (\<lambda>p. the (snd p)) (filter (\<lambda>p. snd p \<noteq> None) (enumerate k fns))" for k
    by (induction fns arbitrary: k) (auto simp: map_filter_simps)
  from this [of 0] show ?thesis by (simp add: running_def installed_def comp_def)
qed

text \<open>The interceptors are those that were installed and not ejected, in the order of their installation, each under the id that its
  installation gave: ejecting one leaves the others and their ids as they are, and ejecting it twice is ejecting it once.\<close>

theorem interceptors_are_intended:
  "installed (foldl interceptor_step [] ops) = snd (foldl intended_step (0, []) ops)
    \<and> running (foldl interceptor_step [] ops) = map snd (snd (foldl intended_step (0, []) ops))"
proof -
  have "installed (foldl interceptor_step [] ops) = snd (foldl intended_step (0, []) ops)
      \<and> length (foldl interceptor_step [] ops) = fst (foldl intended_step (0, []) ops)"
  proof (induction ops rule: rev_induct)
    case Nil
    then show ?case by (simp add: installed_def)
  next
    case (snoc opn ops)
    obtain n fs where spec: "foldl intended_step (0, []) ops = (n, fs)" by force
    show ?case
    proof (cases opn)
      case (Use f)
      then show ?thesis using snoc spec by (simp add: installed_def enumerate_append_eq)
    next
      case (Eject i)
      then show ?thesis using snoc spec installed_eject [of "foldl interceptor_step [] ops" i] by simp
    qed
  qed
  then show ?thesis by (simp add: running_installed)
qed

section \<open>Paths read back\<close>

datatype path_segment = Literal string | Parameter string

fun segment_template :: "path_segment \<Rightarrow> string" where
  "segment_template (Literal t) = t"
| "segment_template (Parameter n) = ''{'' @ n @ ''}''"

definition template :: "path_segment list \<Rightarrow> string" where
  "template segments = concat (map (\<lambda>s. CHR ''/'' # segment_template s) segments)"

text \<open>What a segment says: itself, or the value of its parameter.\<close>

fun segment_value :: "fields \<Rightarrow> path_segment \<Rightarrow> string" where
  "segment_value path (Literal t) = t"
| "segment_value path (Parameter n) = string_of_js (field path n)"

fun scalar :: "js \<Rightarrow> bool" where
  "scalar (Str _) \<longleftrightarrow> True"
| "scalar (Number _) \<longleftrightarrow> True"
| "scalar (Bool _) \<longleftrightarrow> True"
| "scalar _ \<longleftrightarrow> False"

fun plain_segment :: "fields \<Rightarrow> path_segment \<Rightarrow> bool" where
  "plain_segment path (Literal t) \<longleftrightarrow> list_all (\<lambda>c. c \<notin> set ''/{}%'') t"
| "plain_segment path (Parameter n) \<longleftrightarrow>
     n \<noteq> [] \<and> list_all (\<lambda>c. c \<notin> set ''/{}*.;'') n \<and> scalar (field path n)"

fun segment_encoded :: "fields \<Rightarrow> path_segment \<Rightarrow> string" where
  "segment_encoded path (Literal t) = t"
| "segment_encoded path (Parameter n) = encode_uri_component (string_of_js (field path n))"

lemma braces_are_escaped: "uri_safe c \<Longrightarrow> c \<noteq> CHR ''{'' \<and> c \<noteq> CHR ''}''"
  by (auto simp: uri_safe_def is_digit_def is_upper_def is_lower_def code_def)

lemma percent_no_brace: "x \<in> set (percent c) \<Longrightarrow> x \<noteq> CHR ''{'' \<and> x \<noteq> CHR ''}''"
proof -
  assume "x \<in> set (percent c)"
  then have "x = CHR ''%'' \<or> code x \<le> 70" using hex_upper_range by (auto simp: percent_def)
  then show ?thesis by (auto simp: code_def)
qed

lemma uri_encoded_chars:
  assumes "x \<in> set (encode_uri_component s)"
  shows "x \<noteq> CHR ''{'' \<and> x \<noteq> CHR ''}'' \<and> x \<notin> set ''&=?#/''"
proof -
  obtain c where x: "x \<in> set (uri_char c)" using assms by (auto simp: encode_uri_component_def)
  show ?thesis
  proof (cases "uri_safe c")
    case True
    then have "x = c" using x by (simp add: uri_char_def)
    then show ?thesis using braces_are_escaped [OF True] uri_safe_plain [OF True] by simp
  next
    case False
    then have "x \<in> set (percent c)" using x by (simp add: uri_char_def)
    then show ?thesis using percent_no_brace [of x c] percent_chars [of x c] by simp
  qed
qed

lemma percent_decode_uri: "percent_decode (encode_uri_component s) = s"
proof (induction s)
  case (Cons c s)
  then show ?case
    using uri_safe_plain [of c] percent_decode_percent percent_decode_plain [of c]
    by (auto simp: encode_uri_component_def uri_char_def)
qed (simp add: encode_uri_component_def)

lemma percent_decode_literal: "CHR ''%'' \<notin> set t \<Longrightarrow> percent_decode t = t"
  by (induction t) (auto simp: percent_decode_plain)

lemma path_matches_plain: "list_all (\<lambda>c. c \<notin> set ''{}'') t \<Longrightarrow> path_matches None (t @ s) = path_matches None s"
  by (induction t) auto

lemma path_matches_name:
  "list_all (\<lambda>c. c \<notin> set ''{}'') n \<Longrightarrow> path_matches (Some w) (n @ s) = path_matches (Some (rev n @ w)) s"
  by (induction n arbitrary: w) auto

fun parameter_match :: "path_segment \<Rightarrow> string list" where
  "parameter_match (Literal _) = []"
| "parameter_match (Parameter n) = [''{'' @ n @ ''}'']"

lemma path_matches_template:
  "list_all (plain_segment path) segments \<Longrightarrow> path_matches None (template segments) = concat (map parameter_match segments)"
proof (induction segments)
  case (Cons s segments)
  show ?case
  proof (cases s)
    case (Literal t)
    then have "list_all (\<lambda>c. c \<notin> set ''{}'') t" using Cons.prems by (auto simp: list_all_iff)
    then show ?thesis using Cons Literal path_matches_plain by (simp add: template_def)
  next
    case (Parameter n)
    then have "list_all (\<lambda>c. c \<notin> set ''{}'') n" "n \<noteq> []" using Cons.prems by (auto simp: list_all_iff)
    then show ?thesis using Cons Parameter path_matches_name [of n "[]"] by (simp add: template_def)
  qed
qed (simp add: template_def)

lemma replace_first_hit:
  "CHR ''{'' \<notin> set pre \<Longrightarrow> replace_first (CHR ''{'' # pat) rep (pre @ CHR ''{'' # pat @ post) = pre @ rep @ post"
  by (induction pre) auto

lemma read_plain_match:
  assumes "n \<noteq> []" and "list_all (\<lambda>c. c \<notin> set ''{}/*.;'') n"
  shows "read_match (''{'' @ n @ ''}'') = (n, False, Simple)"
proof -
  have "hd n \<in> set n" "last n \<in> set n" using assms(1) by simp_all
  then have "last n \<noteq> CHR ''*''" "hd n \<noteq> CHR ''.''" "hd n \<noteq> CHR '';''" using assms(2) by (auto simp: list_all_iff)
  moreover have "butlast (tl (''{'' @ n @ ''}'')) = n" by (simp add: butlast_append)
  ultimately show ?thesis using assms(1) by (cases n) (simp_all add: read_match_def Let_def)
qed

lemma path_value_plain:
  assumes "plain_segment path (Parameter n)"
  shows "path_value path (''{'' @ n @ ''}'') = Some (Some (segment_encoded path (Parameter n)))"
proof -
  have "read_match (''{'' @ n @ ''}'') = (n, False, Simple)"
    by (rule read_plain_match) (use assms in \<open>auto simp: list_all_iff\<close>)
  then show ?thesis unfolding path_value_def using assms by (cases "field path n") (simp_all del: append_Cons)
qed

lemma fill_template:
  assumes "list_all (plain_segment path) segments" and "CHR ''{'' \<notin> set pre"
  shows "foldl (fill_match path) (Some (pre @ template segments)) (concat (map parameter_match segments)) =
    Some (pre @ concat (map (\<lambda>s. CHR ''/'' # segment_encoded path s) segments))"
  using assms
proof (induction segments arbitrary: pre)
  case Nil
  then show ?case by (simp add: template_def)
next
  case (Cons s segments)
  show ?case
  proof (cases s)
    case (Literal t)
    then have "CHR ''{'' \<notin> set (pre @ CHR ''/'' # t)" using Cons.prems by (auto simp: list_all_iff)
    from Cons.IH [OF _ this] show ?thesis using Cons.prems Literal by (simp add: template_def)
  next
    case (Parameter n)
    let ?v = "segment_encoded path (Parameter n)"
    have plain: "plain_segment path (Parameter n)" using Cons.prems Parameter by simp
    have "fill_match path (Some (pre @ template (s # segments))) (''{'' @ n @ ''}'') = Some ((pre @ CHR ''/'' # ?v) @ template segments)"
      using path_value_plain [OF plain] replace_first_hit [of "pre @ ''/''" "n @ ''}''" ?v "template segments"] Cons.prems(2) Parameter
      by (simp add: fill_match_def template_def)
    moreover have "CHR ''{'' \<notin> set (pre @ CHR ''/'' # ?v)" using Cons.prems(2) uri_encoded_chars by force
    ultimately show ?thesis using Cons.IH [of "pre @ CHR ''/'' # ?v"] Cons.prems Parameter by simp
  qed
qed

lemma split_on_prepend: "d \<notin> set w \<Longrightarrow> split_on d (w @ s) = (w @ hd (split_on d s)) # tl (split_on d s)"
proof (induction w)
  case Nil
  then show ?case by (cases "split_on d s") auto
qed (auto split: list.splits)

lemma split_segments:
  assumes "\<forall>w \<in> set ws. d \<notin> set w"
  shows "split_on d (concat (map (Cons d) ws)) = [] # ws"
  using assms by (induction ws) (simp_all add: split_on_prepend)

lemma url_segment_plain:
  assumes "plain_segment path s"
  shows "CHR ''/'' \<notin> set (segment_encoded path s)" and "percent_decode (segment_encoded path s) = segment_value path s"
proof -
  show "CHR ''/'' \<notin> set (segment_encoded path s)"
    using assms uri_encoded_chars [of "CHR ''/''"] by (cases s) (auto simp: list_all_iff)
  show "percent_decode (segment_encoded path s) = segment_value path s"
    using assms by (cases s) (auto simp: list_all_iff percent_decode_uri intro!: percent_decode_literal)
qed

definition filled_path :: "fields \<Rightarrow> path_segment list \<Rightarrow> string" where
  "filled_path path segments = concat (map (\<lambda>s. CHR ''/'' # segment_encoded path s) segments)"

lemma filled_path_url:
  assumes "segments \<noteq> []" and "list_all (plain_segment path) segments"
  shows "get_url None (Some path) None (template segments) = Some (filled_path path segments)"
proof -
  have "prefix ''/'' (template segments)" using assms(1) by (cases segments) (simp_all add: template_def)
  moreover have "path_serializer path (template segments) = Some (filled_path path segments)"
    using fill_template [OF assms(2), of "[]"] path_matches_template [OF assms(2)] by (simp add: path_serializer_def filled_path_def)
  ultimately show ?thesis by (simp add: get_url_def)
qed

lemma filled_path_reads:
  assumes "list_all (plain_segment path) segments"
  shows "map percent_decode (split_on (CHR ''/'') (filled_path path segments)) = [] # map (segment_value path) segments"
proof -
  have "\<forall>w \<in> set (map (segment_encoded path) segments). CHR ''/'' \<notin> set w"
    using assms url_segment_plain(1) by (auto simp: list_all_iff)
  from split_segments [OF this] have cut: "split_on (CHR ''/'') (filled_path path segments) = [] # map (segment_encoded path) segments"
    unfolding filled_path_def by (simp only: map_map comp_def)
  have "map percent_decode (map (segment_encoded path) segments) = map (segment_value path) segments"
    using assms url_segment_plain(2) by (simp add: list_all_iff)
  then show ?thesis by (simp only: cut list.map percent_decode.simps)
qed

text \<open>A value in the path of a call stays one segment of it: cut at its slashes and decoded, the path reads back as its literal
  parts and the values of its parameters, whatever characters they have.\<close>

theorem path_reads_back:
  assumes "segments \<noteq> []" and "list_all (plain_segment path) segments"
  shows "\<exists>url. get_url None (Some path) None (template segments) = Some url
    \<and> map percent_decode (split_on (CHR ''/'') url) = [] # map (segment_value path) segments"
  by (intro exI conjI, rule filled_path_url [OF assms], rule filled_path_reads [OF assms(2)])

theorem path_reads_back_witness:
  "\<exists>url. get_url None (Some [(''workflow_id'', Str ''a/b?c'')]) None ''/api/workflows/{workflow_id}/draft'' = Some url
    \<and> map percent_decode (split_on (CHR ''/'') url) = [[], ''api'', ''workflows'', ''a/b?c'', ''draft'']"
  using path_reads_back [of "[Literal ''api'', Literal ''workflows'', Parameter ''workflow_id'', Literal ''draft'']" "[(''workflow_id'', Str ''a/b?c'')]"]
  by (simp add: template_def field_def)

section \<open>Queries read back\<close>

definition query_pair :: "string \<times> string \<Rightarrow> string" where
  "query_pair p = fst p @ ''='' @ encode_uri_component (snd p)"

lemma safe_name:
  assumes "list_all uri_safe name"
  shows "form_decode name = name" and "x \<in> set name \<Longrightarrow> x \<notin> set ''%+&=?#/''"
proof -
  have "encode_uri_component name = name"
    using assms by (induction name) (simp_all add: encode_uri_component_def uri_char_def)
  then show "form_decode name = name" using uri.dec_enc [of name] by simp
  show "x \<in> set name \<Longrightarrow> x \<notin> set ''%+&=?#/''" using assms uri_safe_plain by (simp add: list_all_iff)
qed

lemma parse_query_pair:
  assumes "list_all uri_safe (fst p)"
  shows "parse_pair (query_pair p) = p"
proof -
  have "CHR ''='' \<notin> set (fst p)" using safe_name(2) [OF assms, of "CHR ''=''"] by auto
  then show ?thesis using safe_name(1) [OF assms] uri.dec_enc by (simp add: parse_pair_def query_pair_def)
qed

lemma query_pair_chars:
  assumes "list_all uri_safe (fst p)" and "x \<in> set (query_pair p)"
  shows "x \<noteq> CHR ''&'' \<and> x \<noteq> CHR ''?'' \<and> x \<noteq> CHR ''#''"
  using assms(2) safe_name(2) [OF assms(1), of x] uri_encoded_chars [of x "snd p"] by (auto simp: query_pair_def)

lemma all_some_map: "all_some (map (Some \<circ> f) xs) = Some (map f xs)"
  by (induction xs) auto

lemma serialize_query:
  "query_serializer (map (\<lambda>(name, v). (name, Str v)) q) = Some (join ''&'' (map query_pair q))"
proof -
  have "filter (\<lambda>(name, v). v \<noteq> Undefined \<and> v \<noteq> Null) (map (\<lambda>(name, v). (name, Str v)) q) = map (\<lambda>(name, v). (name, Str v)) q"
    by (rule filter_True) auto
  moreover have "map query_piece (map (\<lambda>(name, v). (name, Str v)) q) = map (Some \<circ> query_pair) q"
    by (auto simp: query_piece_def encode_js_def query_pair_def)
  moreover have "filter (\<lambda>piece. piece \<noteq> []) (map query_pair q) = map query_pair q"
    by (rule filter_True) (auto simp: query_pair_def)
  ultimately show ?thesis by (simp only: query_serializer_def all_some_map option.map)
qed

lemma join_chars: "x \<in> set (join sep ws) \<Longrightarrow> x \<in> set sep \<or> (\<exists>w \<in> set ws. x \<in> set w)"
  by (induction sep ws rule: join.induct) auto

text \<open>What a list asks the API for arrives as it was asked: the query of the URL, read as a form, has the names and the values, in their
  order, whatever characters the values have.\<close>

theorem query_reads_back:
  assumes "q \<noteq> []" and "\<forall>p \<in> set q. list_all uri_safe (fst p)" and "CHR ''?'' \<notin> set address" "CHR ''#'' \<notin> set address" and "prefix ''/'' address"
  shows "\<exists>url. get_url None None (Some (map (\<lambda>(name, v). (name, Str v)) q)) address = Some url \<and> parse_params (query_of url) = q"
proof -
  let ?search = "join ''&'' (map query_pair q)"
  have chars: "CHR ''?'' \<notin> set ?search" "CHR ''#'' \<notin> set ?search"
    using join_chars [of _ "''&''" "map query_pair q"] query_pair_chars assms(2) by (fastforce simp del: join.simps)+
  have "split_on (CHR ''&'') ?search = map query_pair q"
    using assms(1,2) query_pair_chars by (intro split_on_join) auto
  moreover have "filter (\<lambda>piece. piece \<noteq> []) (map query_pair q) = map query_pair q"
    by (rule filter_True) (auto simp: query_pair_def)
  moreover have "map parse_pair (map query_pair q) = q"
    using assms(2) by (simp add: parse_query_pair map_idI)
  ultimately have parsed: "parse_params ?search = q" by (simp only: parse_params_def)
  obtain p ps where "q = p # ps" using assms(1) by (cases q) auto
  then have "?search \<noteq> []" by (simp add: query_pair_def)
  moreover have "\<not> prefix ''?'' ?search" using chars(1) by (auto simp: prefix_def)
  ultimately have "get_url None None (Some (map (\<lambda>(name, v). (name, Str v)) q)) address = Some (address @ ''?'' @ ?search)"
    using assms(5) by (simp add: get_url_def serialize_query Let_def)
  moreover have "query_of (address @ ''?'' @ ?search) = ?search"
    using assms(3,4) chars by (simp add: query_of_def)
  ultimately show ?thesis using parsed by auto
qed

theorem query_reads_back_witness:
  "\<exists>url. get_url None None (Some [(''q'', Str ''a&b=c d''), (''limit'', Str ''40'')]) ''/api/workflows'' = Some url
     \<and> parse_params (query_of url) = [(''q'', ''a&b=c d''), (''limit'', ''40'')]"
  using query_reads_back [of "[(''q'', ''a&b=c d''), (''limit'', ''40'')]" "''/api/workflows''"]
  by (simp add: uri_safe_def is_lower_def is_digit_def is_upper_def code_def)

end
