(* ===== verification/Shell.thy ===== *)
theory Shell
  imports Connection Durations SignIn
begin

text \<open>
  What every page but the one of sign-in stands in (\<open>app/(shell)/shell.tsx\<close>): who sees it, what leaves it, the menu of the user, the
  invitations, the band and the badge of the Runs that wait, the connection to the extension
  (\<open>lib/extension-connection-context.tsx\<close>) and what the responses of the API do to it (\<open>app/providers.tsx\<close>). Probes are numbered
  under the mount that asked for them, calls that accept an invitation among themselves: either may be answered after the shell was
  mounted anew.
\<close>

section \<open>Who sees it\<close>

text \<open>An identity that is still loading is nobody's.\<close>

definition visitor :: "account option option \<Rightarrow> account option" where
  "visitor identity = orelse identity None"

definition active_for :: "account option option \<Rightarrow> string option \<Rightarrow> organization_membership option" where
  "active_for identity choice = active_organization (visitor identity) choice"

definition shell_gate :: "account option option \<Rightarrow> string option \<Rightarrow> string \<Rightarrow> gate" where
  "shell_gate identity choice here = resolve_gate (visitor identity) (map_option om_role (active_for identity choice)) here"

datatype shell_view = Leaves string | Nothing_shown | Shows account "organization_membership option"

text \<open>The page of sign-in does not stand in the shell.\<close>

definition shell_view_of :: "account option option \<Rightarrow> string option \<Rightarrow> string \<Rightarrow> shell_view" where
  "shell_view_of identity choice here =
     (if is_auth_route (path_of here) then Nothing_shown
      else (case (shell_gate identity choice here, visitor identity) of
          (Redirect to, _) \<Rightarrow> Leaves to
        | (Render, None) \<Rightarrow> Nothing_shown
        | (Render, Some me) \<Rightarrow> Shows me (active_for identity choice)))"

text \<open>The Organization that the requests name: by the cache and the storage as they are then.\<close>

definition named_organization :: "account option option \<Rightarrow> storage \<Rightarrow> string option" where
  "named_organization cached st = map_option om_id (active_for cached (organization_choice (Some st)))"

section \<open>What it shows\<close>

fun role_word :: "role \<Rightarrow> string" where
  "role_word Owner = ''owner''"
| "role_word Admin = ''admin''"
| "role_word Member_role = ''member''"

definition offer_sentence :: "offered_membership \<Rightarrow> string" where
  "offer_sentence offer =
     of_org_name offer @ '' invited you to join as '' @ (if of_role offer = Admin then ''an'' else ''a'') @ '' '' @
       role_word (of_role offer) @ ''.''"

definition accept_refusals :: "(js \<times> string) list" where
  "accept_refusals =
     [(Str ''invitation_not_found'', ''That Invitation is no longer standing. It was revoked, taken, or it expired.''),
      (Str ''already_member'', ''You are already in that Organization.'')]"

definition accept_refusal :: "js \<Rightarrow> string" where
  "accept_refusal = refusal_from accept_refusals ''Something went wrong. Try again in a moment.''"

record waiting_attention =
  wa_run_id :: string
  wa_workflow_id :: string
  wa_workflow_name :: string
  wa_deadline_at :: string

record attention = attention_counts +
  at_waiting :: "waiting_attention list"

definition soonest :: "attention option \<Rightarrow> waiting_attention option" where
  "soonest known = Option.bind known (\<lambda>a. Prelude.at (at_waiting a) 0)"

text \<open>The band: what waits, the time that is left and where its button leads.\<close>

record attention_band =
  ab_message :: string
  ab_countdown :: string
  ab_leads_to :: string

definition attention_slot :: "attention option \<Rightarrow> int \<Rightarrow> attention_band option" where
  "attention_slot known now =
     (case (known, soonest known) of
        (Some a, Some w) \<Rightarrow>
          if at_waiting_count a \<le> 0 then None
          else Some \<lparr>ab_message = attention_message (at_waiting_count a) (wa_workflow_name w),
            ab_countdown = format_deadline (wa_deadline_at w) (Num now), ab_leads_to = ''/runs/'' @ wa_run_id w\<rparr>
      | _ \<Rightarrow> None)"

definition runs_count_slot :: "attention option \<Rightarrow> (int \<times> count_tone) option" where
  "runs_count_slot known =
     (case known of
        None \<Rightarrow> None
      | Some a \<Rightarrow> let badge = runs_badge (attention_counts.truncate a) in if fst badge \<le> 0 then None else Some badge)"

record extension_version =
  ev_current :: string
  ev_minimum_supported :: string

definition shown_connection :: "string option option \<Rightarrow> extension_version option \<Rightarrow> connection_state option" where
  "shown_connection answer versions =
     (case (answer, versions) of
        (Some version, Some v) \<Rightarrow> Some (connection_state_of version (ev_minimum_supported v))
      | _ \<Rightarrow> None)"

text \<open>The pill: its label and the version beside it.\<close>

definition pill_of :: "string option option \<Rightarrow> extension_version option \<Rightarrow> (string \<times> string option) option" where
  "pill_of answer versions =
     map_option (\<lambda>state. (connection_label state, case orelse answer None of Some v \<Rightarrow> if v = [] then None else Some v | None \<Rightarrow> None))
       (shown_connection answer versions)"

definition nav_destinations :: "(string \<times> string) list" where
  "nav_destinations = [(''Workflows'', ''/workflows''), (''Runs'', ''/runs''), (''Schedules'', ''/schedules'')]"

text \<open>The items of the sidebar: the label, whether it is the section of the page, and the badge.\<close>

definition nav_items :: "string \<Rightarrow> attention option \<Rightarrow> (string \<times> bool \<times> (int \<times> count_tone) option) list" where
  "nav_items here known =
     map (\<lambda>(label, path). (label, is_current_section here path, if path = ''/runs'' then runs_count_slot known else None))
       nav_destinations"

section \<open>The state\<close>

text \<open>
  The cache and the storage may be ahead of what the shell was rendered from: the cache as it is cleared when the visitor leaves,
  the storage as another tab writes to it. Rendering reads both.
\<close>

record shell =
  sh_here :: string
  sh_cached :: "account option option"
  sh_seen :: "account option option"
  sh_storage :: storage
  sh_choice :: "string option"
  sh_mount :: nat
  sh_latest :: nat
  sh_probes :: "(nat \<times> nat) list"
  sh_version :: "string option option"
  sh_versions :: "extension_version option"
  sh_attention :: "attention option"
  sh_clock :: int
  sh_now :: int
  sh_accept :: "nat mutation"
  sh_accepts :: "nat list"
  sh_number :: nat

definition view :: "shell \<Rightarrow> shell_view" where
  "view s = shell_view_of (sh_seen s) (sh_choice s) (sh_here s)"

definition shown :: "shell \<Rightarrow> bool" where
  "shown s = (case view s of Shows _ _ \<Rightarrow> True | _ \<Rightarrow> False)"

definition rendered :: "shell \<Rightarrow> shell" where
  "rendered s = s\<lparr>sh_seen := sh_cached s, sh_choice := organization_choice (Some (sh_storage s))\<rparr>"

datatype shell_effect =
    Goes_to string | Opens string | Probes "nat \<times> nat" | Asks_accept string | Asks_sign_out | Reloads_identity | Reloads_all | Clears

datatype shell_event =
    Navigated string
  | Identity_arrived "account option"
  | Organization_chosen string
  | Stored_elsewhere "string option"
  | Theme_chosen string
  | Sign_out_pressed
  | Signed_out
  | Response_heard int "js option"
  | Offer_pressed string
  | Offer_answered nat "js option"
  | Window_focused
  | Message_heard bool bool js
  | Probe_timed_out "nat \<times> nat"
  | Versions_loaded extension_version
  | Attention_loaded attention
  | Clock_reads int
  | Ticked
  | Control_pressed

text \<open>A probe is numbered, and only the answer of the latest one is kept.\<close>

definition probe :: "shell \<Rightarrow> shell \<times> shell_effect list" where
  "probe s =
     (let p = (sh_mount s, Suc (sh_latest s))
      in (s\<lparr>sh_latest := Suc (sh_latest s), sh_probes := p # sh_probes s\<rparr>, [Probes p]))"

definition probe_answered :: "string option \<Rightarrow> nat \<times> nat \<Rightarrow> shell \<Rightarrow> shell" where
  "probe_answered answer p s =
     (if p = (sh_mount s, sh_latest s) \<and> shown s then s\<lparr>sh_version := Some answer\<rparr> else s)"

text \<open>The shell mounts: its state is fresh, and it probes at once.\<close>

definition mounted :: "shell \<Rightarrow> shell \<times> shell_effect list" where
  "mounted s = probe (s\<lparr>sh_mount := Suc (sh_mount s), sh_latest := 0, sh_version := None, sh_now := sh_clock s, sh_accept := Idle\<rparr>)"

text \<open>What the effects of the shell do after a change: it leaves for where the gate sends, or mounts.\<close>

definition followed :: "shell \<Rightarrow> shell \<times> shell_effect list \<Rightarrow> shell \<times> shell_effect list" where
  "followed s p =
     (let (s', effects) = p
      in (case view s' of
          Leaves to \<Rightarrow> (s', effects @ (if view s = Leaves to then [] else [Goes_to to]))
        | Nothing_shown \<Rightarrow> p
        | Shows _ _ \<Rightarrow> if shown s then p else (let (s'', probes) = mounted s' in (s'', effects @ probes))))"

text \<open>The menu of the user.\<close>

definition switch_organization :: "string \<Rightarrow> shell \<Rightarrow> shell \<times> shell_effect list" where
  "switch_organization chosen s =
     (case view s of
        Shows me _ \<Rightarrow>
          if offers_a_switcher (Some me) \<and> chosen \<in> set (map om_id (acc_orgs me))
          then (rendered (s\<lparr>sh_storage := store_organization (Some chosen) (sh_storage s)\<rparr>), [Reloads_all]) else (s, [])
      | _ \<Rightarrow> (s, []))"

definition choose_appearance :: "string \<Rightarrow> shell \<Rightarrow> shell" where
  "choose_appearance chosen s =
     (case as_theme_choice (Some chosen) of
        Some choice \<Rightarrow> if shown s then s\<lparr>sh_storage := store_theme choice (sh_storage s)\<rparr> else s
      | None \<Rightarrow> s)"

definition signed_out :: "shell \<Rightarrow> shell \<times> shell_effect list" where
  "signed_out s = (s\<lparr>sh_cached := None\<rparr>, [Clears, Goes_to sign_in_path])"

text \<open>What every response of the API does.\<close>

definition response_heard :: "int \<Rightarrow> js option \<Rightarrow> shell \<Rightarrow> shell \<times> shell_effect list" where
  "response_heard status body s =
     (let s1 = (if unauthorized_redirect status (sh_here s) = None then s else s\<lparr>sh_cached := None\<rparr>);
          left = (case unauthorized_redirect status (sh_here s) of None \<Rightarrow> [] | Some to \<Rightarrow> [Clears, Goes_to to])
      in if membership_lapsed status body
         then (rendered (s1\<lparr>sh_storage := store_organization None (sh_storage s1)\<rparr>), left @ [Reloads_all]) else (s1, left))"

text \<open>An invitation is accepted, one at a time.\<close>

definition press_accept :: "string \<Rightarrow> shell \<Rightarrow> shell \<times> shell_effect list" where
  "press_accept invitation s =
     (case view s of
        Shows me _ \<Rightarrow>
          if invitation \<in> set (map of_id (acc_invitations me)) \<and> \<not> pending (sh_accept s)
          then (s\<lparr>sh_accept := Asked (sh_number s), sh_accepts := sh_number s # sh_accepts s, sh_number := Suc (sh_number s)\<rparr>,
            [Asks_accept invitation])
          else (s, [])
      | _ \<Rightarrow> (s, []))"

definition accept_answered :: "nat \<Rightarrow> js option \<Rightarrow> shell \<Rightarrow> shell \<times> shell_effect list" where
  "accept_answered n answer s =
     (if n \<notin> set (sh_accepts s) then (s, [])
      else
        (let s' = s\<lparr>sh_accepts := removeAll n (sh_accepts s)\<rparr>
         in (case answer of
             None \<Rightarrow> (if sh_accept s = Asked n then s'\<lparr>sh_accept := Settling\<rparr> else s', [Reloads_identity])
           | Some error \<Rightarrow> (if sh_accept s = Asked n then s'\<lparr>sh_accept := Refused error\<rparr> else s', []))))"

text \<open>A message is heard by every probe that waits.\<close>

definition message_heard :: "bool \<Rightarrow> bool \<Rightarrow> js \<Rightarrow> shell \<Rightarrow> shell" where
  "message_heard own_window own_origin data s =
     (case answer_of (Heard own_window own_origin data) of
        None \<Rightarrow> s
      | Some v \<Rightarrow> (fold (probe_answered (Some v)) (sh_probes s) s)\<lparr>sh_probes := []\<rparr>)"

definition probe_timed_out :: "nat \<times> nat \<Rightarrow> shell \<Rightarrow> shell" where
  "probe_timed_out p s =
     (if p \<in> set (sh_probes s) then (probe_answered None p s)\<lparr>sh_probes := removeAll p (sh_probes s)\<rparr> else s)"

text \<open>The clock of the band, which ticks while something waits, and its button.\<close>

definition tick :: "shell \<Rightarrow> shell" where
  "tick s = (if shown s \<and> soonest (sh_attention s) \<noteq> None then s\<lparr>sh_now := sh_clock s\<rparr> else s)"

definition press_control :: "shell \<Rightarrow> shell_effect list" where
  "press_control s =
     (case attention_slot (sh_attention s) (sh_now s) of Some band \<Rightarrow> if shown s then [Opens (ab_leads_to band)] else [] | None \<Rightarrow> [])"

fun shell_act :: "shell \<Rightarrow> shell_event \<Rightarrow> shell \<times> shell_effect list" where
  "shell_act s (Navigated to) = (rendered (s\<lparr>sh_here := to\<rparr>), [])"
| "shell_act s (Identity_arrived me) = (rendered (s\<lparr>sh_cached := Some me, sh_accept := settled (sh_accept s)\<rparr>), [])"
| "shell_act s (Organization_chosen chosen) = switch_organization chosen s"
| "shell_act s (Stored_elsewhere chosen) = (s\<lparr>sh_storage := store_organization chosen (sh_storage s)\<rparr>, [])"
| "shell_act s (Theme_chosen chosen) = (choose_appearance chosen s, [])"
| "shell_act s Sign_out_pressed = (s, if shown s then [Asks_sign_out] else [])"
| "shell_act s Signed_out = signed_out s"
| "shell_act s (Response_heard status body) = response_heard status body s"
| "shell_act s (Offer_pressed invitation) = press_accept invitation s"
| "shell_act s (Offer_answered n answer) = accept_answered n answer s"
| "shell_act s Window_focused = (if shown s then probe s else (s, []))"
| "shell_act s (Message_heard own_window own_origin data) = (message_heard own_window own_origin data s, [])"
| "shell_act s (Probe_timed_out p) = (probe_timed_out p s, [])"
| "shell_act s (Versions_loaded versions) = (s\<lparr>sh_versions := Some versions\<rparr>, [])"
| "shell_act s (Attention_loaded known) = (s\<lparr>sh_attention := Some known\<rparr>, [])"
| "shell_act s (Clock_reads t) = (s\<lparr>sh_clock := t\<rparr>, [])"
| "shell_act s Ticked = (tick s, [])"
| "shell_act s Control_pressed = (s, press_control s)"

lemmas act_defs = switch_organization_def choose_appearance_def signed_out_def response_heard_def press_accept_def
  accept_answered_def message_heard_def probe_timed_out_def tick_def press_control_def

definition shell_step :: "shell \<Rightarrow> shell_event \<Rightarrow> shell \<times> shell_effect list" where
  "shell_step s e = followed s (shell_act s e)"

text \<open>A page that has just loaded, before its identity is known.\<close>

definition loaded_shell :: "string \<Rightarrow> storage \<Rightarrow> int \<Rightarrow> shell" where
  "loaded_shell here st t =
     \<lparr>sh_here = here, sh_cached = None, sh_seen = None, sh_storage = st, sh_choice = organization_choice (Some st), sh_mount = 0, sh_latest = 0, sh_probes = [], sh_version = None,
      sh_versions = None, sh_attention = None, sh_clock = t, sh_now = t, sh_accept = Idle, sh_accepts = [], sh_number = 0\<rparr>"

definition shell_after :: "shell \<Rightarrow> shell_event list \<Rightarrow> shell" where
  "shell_after s es = foldl (\<lambda>s e. fst (shell_step s e)) s es"

fun shell_asks :: "shell \<Rightarrow> shell_event list \<Rightarrow> shell_effect list" where
  "shell_asks s [] = []"
| "shell_asks s (e # es) = snd (shell_step s e) @ shell_asks (fst (shell_step s e)) es"

section \<open>Rendering\<close>

lemma view_shows_iff:
  "view s = Shows me act \<longleftrightarrow> \<not> is_auth_route (path_of (sh_here s)) \<and> visitor (sh_seen s) = Some me
     \<and> shell_gate (sh_seen s) (sh_choice s) (sh_here s) = Render \<and> act = active_for (sh_seen s) (sh_choice s)"
  by (auto simp: view_def shell_view_of_def split: gate.splits option.splits)

lemma shown_iff: "shown s \<longleftrightarrow> (\<exists>me act. view s = Shows me act)"
  by (auto simp: shown_def split: shell_view.splits)

lemma rendered_fields [simp]:
  "sh_cached (rendered s) = sh_cached s" "sh_storage (rendered s) = sh_storage s" "sh_seen (rendered s) = sh_cached s"
  "sh_choice (rendered s) = organization_choice (Some (sh_storage s))" "sh_mount (rendered s) = sh_mount s"
  "sh_latest (rendered s) = sh_latest s" "sh_probes (rendered s) = sh_probes s" "sh_version (rendered s) = sh_version s"
  by (simp_all add: rendered_def)

lemma mounted_fields [simp]:
  "sh_cached (fst (mounted s)) = sh_cached s" "sh_storage (fst (mounted s)) = sh_storage s" "sh_seen (fst (mounted s)) = sh_seen s"
  "sh_choice (fst (mounted s)) = sh_choice s" "sh_here (fst (mounted s)) = sh_here s" "sh_attention (fst (mounted s)) = sh_attention s"
  by (simp_all add: mounted_def probe_def Let_def)

lemma followed_cases: "fst (followed s p) = fst p \<or> \<not> shown s \<and> fst (followed s p) = fst (mounted (fst p))"
  by (auto simp: followed_def Let_def split: prod.splits shell_view.splits)

lemma followed_fields [simp]:
  "sh_cached (fst (followed s p)) = sh_cached (fst p)" "sh_storage (fst (followed s p)) = sh_storage (fst p)"
  "sh_seen (fst (followed s p)) = sh_seen (fst p)" "sh_choice (fst (followed s p)) = sh_choice (fst p)"
  "sh_here (fst (followed s p)) = sh_here (fst p)" "sh_attention (fst (followed s p)) = sh_attention (fst p)"
  using followed_cases [of s p] by auto

lemma view_mounted [simp]: "view (fst (mounted s)) = view s"
  by (simp add: view_def)

lemma probe_answered_fields [simp]:
  "sh_cached (probe_answered a p s) = sh_cached s" "sh_storage (probe_answered a p s) = sh_storage s"
  "sh_seen (probe_answered a p s) = sh_seen s" "sh_choice (probe_answered a p s) = sh_choice s" "sh_here (probe_answered a p s) = sh_here s"
  "sh_mount (probe_answered a p s) = sh_mount s" "sh_latest (probe_answered a p s) = sh_latest s"
  "sh_probes (probe_answered a p s) = sh_probes s"
  by (simp_all add: probe_answered_def)

lemma probes_answered_fields [simp]:
  "sh_cached (fold (probe_answered a) ps s) = sh_cached s" "sh_storage (fold (probe_answered a) ps s) = sh_storage s"
  "sh_seen (fold (probe_answered a) ps s) = sh_seen s" "sh_choice (fold (probe_answered a) ps s) = sh_choice s"
  "sh_here (fold (probe_answered a) ps s) = sh_here s" "sh_mount (fold (probe_answered a) ps s) = sh_mount s"
  "sh_latest (fold (probe_answered a) ps s) = sh_latest s" "sh_probes (fold (probe_answered a) ps s) = sh_probes s"
  by (induction ps arbitrary: s) simp_all

section \<open>The Organization of the requests\<close>

definition in_step :: "shell \<Rightarrow> bool" where
  "in_step s \<longleftrightarrow> (sh_cached s = None \<or> sh_cached s = sh_seen s) \<and> sh_choice s = organization_choice (Some (sh_storage s))"

definition elsewhere :: "shell_event \<Rightarrow> bool" where
  "elsewhere e = (case e of Stored_elsewhere _ \<Rightarrow> True | _ \<Rightarrow> False)"

lemma theme_keeps_choice: "organization_choice (Some (store_theme c st)) = organization_choice (Some st)"
  using theme.store_other [of active_organization_key c st]
  by (simp add: organization_choice_def remembered_organization_def active_organization_key_def theme_key_def)

lemma in_step_act: "in_step s \<Longrightarrow> \<not> elsewhere e \<Longrightarrow> in_step (fst (shell_act s e))"
  by (cases e)
    (auto simp: act_defs in_step_def elsewhere_def probe_def Let_def theme_keeps_choice split: shell_view.splits option.splits)

lemma in_step_step: "in_step s \<Longrightarrow> \<not> elsewhere e \<Longrightarrow> in_step (fst (shell_step s e))"
  using in_step_act [of s e] by (simp add: in_step_def shell_step_def)

lemma in_step_after: "in_step s \<Longrightarrow> \<not> list_ex elsewhere es \<Longrightarrow> in_step (shell_after s es)"
  by (induction es arbitrary: s) (simp_all add: shell_after_def in_step_step)

lemma active_is_one:
  "active_organization (Some me) choice = Some a \<Longrightarrow> a \<in> set (acc_orgs me)"
  "active_organization (Some me) choice = None \<longleftrightarrow> acc_orgs me = []"
  by (auto simp: active_organization_def orgs_of_def Let_def Prelude.at_def find_Some_iff find_None_iff split: option.splits if_splits)

text \<open>A request names the Organization that the shell shows, which is one of the visitor's, and none only if the visitor has none or is
  leaving: as long as no other tab writes to the storage.\<close>

theorem requests_name_what_is_shown:
  assumes "\<not> list_ex elsewhere es" and "s = shell_after (loaded_shell here st t) es" and "view s = Shows me act"
  shows "(named_organization (sh_cached s) (sh_storage s) = map_option om_id act \<or>
      sh_cached s = None \<and> named_organization (sh_cached s) (sh_storage s) = None)
    \<and> (case act of Some a \<Rightarrow> a \<in> set (acc_orgs me) | None \<Rightarrow> acc_orgs me = [])"
proof -
  have "in_step s" unfolding assms(2)
    by (rule in_step_after) (use assms(1) in \<open>simp_all add: in_step_def loaded_shell_def\<close>)
  moreover have "active_organization None c = None" for c
    by (simp add: active_organization_def orgs_of_def Prelude.at_def)
  ultimately show ?thesis
    using assms(3) active_is_one [of me]
    by (auto simp: view_shows_iff in_step_def named_organization_def active_for_def visitor_def split: option.splits)
qed

definition two_memberships :: account where
  "two_memberships = sample_account\<lparr>acc_orgs := [\<lparr>om_id = ''o1'', om_name = ''Acme'', om_role = Owner\<rparr>,
     \<lparr>om_id = ''o2'', om_name = ''Globex'', om_role = Member_role\<rparr>]\<rparr>"

abbreviation shell_on_runs :: "shell_event list \<Rightarrow> shell" where
  "shell_on_runs es \<equiv> shell_after (loaded_shell ''/runs'' (\<lambda>_. None) 0) es"

theorem requests_name_what_is_shown_witness:
  "named_organization (sh_cached (shell_on_runs [Identity_arrived (Some two_memberships), Organization_chosen ''o2'']))
     (sh_storage (shell_on_runs [Identity_arrived (Some two_memberships), Organization_chosen ''o2''])) = Some ''o2''"
proof -
  let ?es = "[Identity_arrived (Some two_memberships), Organization_chosen ''o2'']"
  have alone: "\<not> list_ex elsewhere ?es" by (simp add: elsewhere_def)
  have shown_as: "view (shell_on_runs ?es) = Shows two_memberships (Some \<lparr>om_id = ''o2'', om_name = ''Globex'', om_role = Member_role\<rparr>)"
    and "sh_cached (shell_on_runs ?es) \<noteq> None"
    by code_simp+
  then show ?thesis
    using requests_name_what_is_shown [OF alone refl shown_as] by auto
qed

text \<open>Another tab chooses for this one too: the requests name what was chosen there, while the shell goes on showing what it showed.\<close>

theorem another_tab_changes_requests:
  assumes "in_step s" and "view s = Shows me (Some a)" and "sh_cached s = sh_seen s" and "b \<in> set (acc_orgs me)" and "om_id b \<noteq> om_id a"
  shows "let s' = fst (shell_step s (Stored_elsewhere (Some (om_id b))))
     in view s' = Shows me (Some a) \<and> snd (shell_step s (Stored_elsewhere (Some (om_id b)))) = []
       \<and> named_organization (sh_cached s') (sh_storage s') = Some (om_id b)"
proof -
  have chosen: "organization_choice (Some (store_organization (Some i) st)) = Some i" for i st
    by (simp add: organization_choice_def organization.recall_store)
  have same: "view (s\<lparr>sh_storage := st\<rparr>) = view s" for st by (simp add: view_def)
  have "shown s" using assms(2) by (simp add: shown_def)
  with assms(2) have step: "shell_step s (Stored_elsewhere c) = (s\<lparr>sh_storage := store_organization c (sh_storage s)\<rparr>, [])" for c
    by (simp add: shell_step_def followed_def same)
  have "\<exists>x. find (\<lambda>org. Some (om_id org) = Some (om_id b)) (acc_orgs me) = Some x \<and> om_id x = om_id b"
    using assms(4) by (cases "find (\<lambda>org. Some (om_id org) = Some (om_id b)) (acc_orgs me)") (auto simp: find_Some_iff find_None_iff)
  then have "map_option om_id (active_organization (Some me) (Some (om_id b))) = Some (om_id b)"
    by (auto simp: active_organization_def orgs_of_def Let_def)
  then show ?thesis
    using assms(2,3) by (simp add: step same named_organization_def active_for_def chosen view_shows_iff)
qed

theorem another_tab_changes_requests_witness:
  "let s' = fst (shell_step (shell_on_runs [Identity_arrived (Some two_memberships)]) (Stored_elsewhere (Some ''o2'')))
   in view s' = Shows two_memberships (Some \<lparr>om_id = ''o1'', om_name = ''Acme'', om_role = Owner\<rparr>)
     \<and> named_organization (sh_cached s') (sh_storage s') = Some ''o2''"
proof -
  let ?s = "shell_on_runs [Identity_arrived (Some two_memberships)]"
  have "in_step ?s"
    by (rule in_step_after) (simp_all add: in_step_def loaded_shell_def elsewhere_def)
  moreover have "view ?s = Shows two_memberships (Some \<lparr>om_id = ''o1'', om_name = ''Acme'', om_role = Owner\<rparr>)" by code_simp
  moreover have "sh_cached ?s = sh_seen ?s" by code_simp
  ultimately show ?thesis
    using another_tab_changes_requests [where s = ?s and b = "\<lparr>om_id = ''o2'', om_name = ''Globex'', om_role = Member_role\<rparr>"]
    by (simp add: Let_def two_memberships_def)
qed

section \<open>Where a visit leads\<close>

text \<open>Where a page sends its visitor: the shell by its gate, the page of sign-in to what the address carries.\<close>

definition leads_to :: "account option option \<Rightarrow> string option \<Rightarrow> string \<Rightarrow> string option" where
  "leads_to identity choice here =
     (if is_auth_route (path_of here)
      then (case identity of
          None \<Rightarrow> None
        | Some me \<Rightarrow>
            (case snd (with_identity me (opened_sign_in (params_get (parse_params (query_of here)) ''next''))) of
               [Replace_with to] \<Rightarrow> Some to
             | _ \<Rightarrow> None))
      else (case shell_view_of identity choice here of Leaves to \<Rightarrow> Some to | _ \<Rightarrow> None))"

lemma leads_from_sign_in:
  assumes "is_auth_route (path_of here)"
  shows "leads_to (Some me) choice here =
    (if me = None then None else Some (landing_after_sign_in (params_get (parse_params (query_of here)) ''next'')))"
  using assms by (simp add: leads_to_def with_identity_def arrived_iff opened_sign_in_def Let_def)

lemma leads_from_shell:
  assumes "\<not> is_auth_route (path_of here)"
  shows "leads_to identity choice here =
    (case visitor identity of
       None \<Rightarrow> Some (sign_in_path_for here)
     | Some me \<Rightarrow>
         if path_of here = invitations_path \<and> map_option om_role (active_organization (Some me) choice) = Some Member_role
         then Some account_path else None)"
  using assms by (auto simp: leads_to_def shell_view_of_def shell_gate_def active_for_def resolve_gate_def Let_def split: option.splits)

lemma landing_not_sign_in: "\<not> is_auth_route (path_of (landing_after_sign_in carried))"
  by (auto simp: landing_after_sign_in_def is_auth_route_def path_of_def gate_paths split: option.splits)

lemma account_page: "path_of account_path = account_path" "\<not> is_auth_route account_path" "account_path \<noteq> invitations_path"
  "account_path \<noteq> sign_in_path"
  by (simp_all add: path_of_def is_auth_route_def gate_paths)

text \<open>How far a page is from the one where its visitor stays.\<close>

definition distance :: "account option \<Rightarrow> string \<Rightarrow> nat" where
  "distance me here =
     (if me = None then (if is_auth_route (path_of here) then 0 else 1)
      else if is_auth_route (path_of here) then 2
      else if path_of here = invitations_path then 1 else 0)"

lemma leads_nearer: "leads_to (Some me) choice here = Some to \<Longrightarrow> distance me to < distance me here"
  using landing_not_sign_in path_of_sign_in_path_for [of here]
  by (cases "is_auth_route (path_of here)"; cases me)
    (auto simp: leads_from_sign_in leads_from_shell distance_def visitor_def account_page is_auth_route_def split: if_splits)

text \<open>The pages that a visit goes through.\<close>

function trail :: "account option \<Rightarrow> string option \<Rightarrow> string \<Rightarrow> string list" where
  "trail me choice here =
     here # (case leads_to (Some me) choice here of None \<Rightarrow> [] | Some to \<Rightarrow> trail me choice to)"
  by pat_completeness auto

termination
  by (relation "measure (\<lambda>(me, _, here). distance me here)") (auto dest: leads_nearer)

declare trail.simps [simp del]

text \<open>A page that is loaded goes by its gate before the identity has arrived, and by the identity from then on.\<close>

definition trail_of_load :: "account option \<Rightarrow> string option \<Rightarrow> string \<Rightarrow> string list" where
  "trail_of_load me choice here =
     (case leads_to None choice here of None \<Rightarrow> trail me choice here | Some to \<Rightarrow> here # trail me choice to)"



section \<open>The connection to the extension\<close>

definition quiet :: "shell_event \<Rightarrow> bool" where
  "quiet e = (case e of Window_focused \<Rightarrow> False | _ \<Rightarrow> True)"

text \<open>The shell stays, and nothing asks anew.\<close>

fun stays :: "shell \<Rightarrow> shell_event list \<Rightarrow> bool" where
  "stays s [] = shown s"
| "stays s (e # es) = (shown s \<and> quiet e \<and> stays (fst (shell_step s e)) es)"

text \<open>What one probe hears of it.\<close>

fun heard_by :: "nat \<times> nat \<Rightarrow> shell_event \<Rightarrow> heard list" where
  "heard_by p (Message_heard own_window own_origin data) = [Heard own_window own_origin data]"
| "heard_by p (Probe_timed_out q) = (if q = p then [Timed_out] else [])"
| "heard_by p _ = []"

definition current_probe :: "shell \<Rightarrow> nat \<times> nat" where
  "current_probe s = (sh_mount s, sh_latest s)"

lemma shown_answered [simp]: "shown (probe_answered a p s) = shown s"
  by (simp add: shown_def view_def)

lemma version_answered:
  "sh_version (fold (probe_answered a) ps s) = (if current_probe s \<in> set ps \<and> shown s then Some a else sh_version s)"
  by (induction ps arbitrary: s) (auto simp: probe_answered_def current_probe_def shown_def view_def)

lemma step_stays: "shown s \<Longrightarrow> shown (fst (shell_step s e)) \<Longrightarrow> fst (shell_step s e) = fst (shell_act s e)"
  using followed_cases [of s "shell_act s e"] by (simp add: shell_step_def)

lemma act_keeps_probe:
  assumes "quiet e"
  shows "current_probe (fst (shell_act s e)) = current_probe s"
    and "set (sh_probes (fst (shell_act s e))) \<subseteq> set (sh_probes s)"
  using assms by (cases e; auto simp: act_defs quiet_def current_probe_def Let_def split: shell_view.splits option.splits)+

text \<open>One event, as the current probe hears it.\<close>

lemma act_answers:
  assumes "quiet e" and "shown s"
  shows "current_probe s \<notin> set (sh_probes s) \<Longrightarrow> sh_version (fst (shell_act s e)) = sh_version s"
    and "current_probe s \<in> set (sh_probes s) \<Longrightarrow>
      (case foldl probe_step Pending (heard_by (current_probe s) e) of
         Pending \<Rightarrow> sh_version (fst (shell_act s e)) = sh_version s \<and> current_probe s \<in> set (sh_probes (fst (shell_act s e)))
       | Settled v \<Rightarrow> sh_version (fst (shell_act s e)) = Some v \<and> current_probe s \<notin> set (sh_probes (fst (shell_act s e))))"
  using assms
  by (cases e; auto simp: act_defs quiet_def version_answered probe_answered_def current_probe_def Let_def
      split: shell_view.splits option.splits)+

lemma answered_probe_is_done:
  "stays s es \<Longrightarrow> current_probe s \<notin> set (sh_probes s) \<Longrightarrow> sh_version (shell_after s es) = sh_version s"
proof (induction es arbitrary: s)
  case (Cons e es)
  let ?s' = "fst (shell_step s e)"
  have step: "?s' = fst (shell_act s e)" using Cons.prems(1) by (cases es) (auto intro: step_stays)
  have "current_probe ?s' = current_probe s" "set (sh_probes ?s') \<subseteq> set (sh_probes s)"
    using act_keeps_probe [of e s] Cons.prems(1) by (simp_all add: step)
  then have "sh_version (shell_after ?s' es) = sh_version ?s'"
    using Cons.IH [of ?s'] Cons.prems by auto
  moreover have "sh_version ?s' = sh_version s"
    using act_answers(1) [of e s] Cons.prems by (simp add: step)
  ultimately show ?case by (simp add: shell_after_def)
qed (simp add: shell_after_def)

lemma open_probe_decides:
  "stays s es \<Longrightarrow> current_probe s \<in> set (sh_probes s) \<Longrightarrow>
     sh_version (shell_after s es) =
       (case probe_extension (concat (map (heard_by (current_probe s)) es)) of Pending \<Rightarrow> sh_version s | Settled v \<Rightarrow> Some v)"
proof (induction es arbitrary: s)
  case (Cons e es)
  let ?s' = "fst (shell_step s e)"
  have step: "?s' = fst (shell_act s e)" using Cons.prems(1) by (cases es) (auto intro: step_stays)
  have same: "current_probe ?s' = current_probe s" using act_keeps_probe [of e s] Cons.prems(1) by (simp add: step)
  show ?case
  proof (cases "foldl probe_step Pending (heard_by (current_probe s) e)")
    case Pending
    then have "sh_version ?s' = sh_version s" "current_probe s \<in> set (sh_probes ?s')"
      using act_answers(2) [of e s] Cons.prems by (simp_all add: step)
    then show ?thesis
      using Cons.IH [of ?s'] Cons.prems(1) Pending same
      by (simp add: shell_after_def probe_extension_def split: probe.splits)
  next
    case (Settled v)
    then have "sh_version ?s' = Some v" "current_probe s \<notin> set (sh_probes ?s')"
      using act_answers(2) [of e s] Cons.prems by (simp_all add: step)
    then show ?thesis
      using answered_probe_is_done [of ?s' es] Cons.prems(1) Settled same
      by (simp add: shell_after_def probe_extension_def settled_stays)
  qed
qed (simp add: shell_after_def probe_extension_def)

text \<open>The connection that is shown is the one that the latest probe found: from the moment the window is focused, whatever older probes
  hear or fail to hear, the version is the answer to the probe that was asked then, and until it has one, the version that was known.\<close>

theorem latest_probe_decides:
  assumes "shown s" and "s' = fst (shell_step s Window_focused)" and "stays s' es"
  shows "sh_version (shell_after s' es) =
    (case probe_extension (concat (map (heard_by (sh_mount s, Suc (sh_latest s))) es)) of
       Pending \<Rightarrow> sh_version s
     | Settled answer \<Rightarrow> Some answer)"
proof -
  have "shown s'" using assms(3) by (cases es) auto
  then have "s' = fst (probe s)" using step_stays [of s Window_focused] assms(1,2) by simp
  then have "current_probe s' = (sh_mount s, Suc (sh_latest s))" "current_probe s' \<in> set (sh_probes s')" "sh_version s' = sh_version s"
    by (simp_all add: probe_def current_probe_def Let_def)
  then show ?thesis using open_probe_decides [OF assms(3)] by (simp split: probe.splits)
qed

definition extension_says :: "string \<Rightarrow> shell_event" where
  "extension_says version = Message_heard True True (Obj [(''channel'', Str extension_channel), (''type'', Str ''extension-ready''),
     (''version'', Str version)])"

text \<open>The extension was installed after the page had loaded: the first probe times out last and changes nothing.\<close>

theorem latest_probe_decides_witness:
  "let s = shell_on_runs [Identity_arrived (Some two_memberships)]; s' = fst (shell_step s Window_focused)
   in sh_version (shell_after s' [Probe_timed_out (1, 1), extension_says ''1.4.0'', Probe_timed_out (1, 1)]) = Some (Some ''1.4.0'')"
proof -
  let ?s = "shell_on_runs [Identity_arrived (Some two_memberships)]"
  let ?es = "[Probe_timed_out (1, 1), extension_says ''1.4.0'', Probe_timed_out (1, 1)]"
  have "shown ?s" "stays (fst (shell_step ?s Window_focused)) ?es"
    "probe_extension (concat (map (heard_by (sh_mount ?s, Suc (sh_latest ?s))) ?es)) = Settled (Some ''1.4.0'')"
    by code_simp+
  then show ?thesis using latest_probe_decides [OF _ refl, of ?s ?es] by (simp add: Let_def)
qed

section \<open>The band\<close>

text \<open>The clock of the band stands still while nothing waits: the first countdown after that is counted from the moment it stopped at,
  until the clock ticks.\<close>

theorem first_countdown_is_late:
  assumes "shown s" and "soonest (sh_attention s) = None" and "at_waiting a = w # ws" and "0 < at_waiting_count a"
  shows "let s' = shell_after s [Clock_reads t, Attention_loaded a]
     in map_option ab_countdown (attention_slot (sh_attention s') (sh_now s')) = Some (format_deadline (wa_deadline_at w) (Num (sh_now s)))
       \<and> (let s'' = shell_after s [Clock_reads t, Attention_loaded a, Ticked]
          in map_option ab_countdown (attention_slot (sh_attention s'') (sh_now s'')) = Some (format_deadline (wa_deadline_at w) (Num t)))"
proof -
  have same: "view (s\<lparr>sh_clock := t\<rparr>) = view s" "view (s\<lparr>sh_attention := x\<rparr>) = view s" "view (s\<lparr>sh_now := t\<rparr>) = view s" for s t x
    by (simp_all add: view_def)
  have quiet_step: "shell_step s e = (s', [])" if "shell_act s e = (s', [])" "view s' = view s" "shown s" for s s' e
    using that by (auto simp: shell_step_def followed_def shown_def split: shell_view.splits)
  let ?s1 = "s\<lparr>sh_clock := t\<rparr>"
  let ?s2 = "?s1\<lparr>sh_attention := Some a\<rparr>"
  have shown: "shown ?s1" "shown ?s2" using assms(1) by (simp_all add: shown_def same)
  have first: "soonest (Some a) = Some w" using assms(3) by (simp add: soonest_def Prelude.at_def)
  have "shell_step s (Clock_reads t) = (?s1, [])" "shell_step ?s1 (Attention_loaded a) = (?s2, [])"
    using assms(1) shown by (auto intro!: quiet_step simp: same)
  moreover have "shell_step ?s2 Ticked = (?s2\<lparr>sh_now := t\<rparr>, [])"
    using shown first by (auto intro!: quiet_step simp: same tick_def)
  ultimately show ?thesis
    using assms(4) first by (simp add: shell_after_def Let_def attention_slot_def)
qed

definition one_waits :: attention where
  "one_waits = \<lparr>at_waiting_count = 1, at_running_count = 0, at_queued_count = 0,
     at_waiting = [\<lparr>wa_run_id = ''r1'', wa_workflow_id = ''w1'', wa_workflow_name = ''Orders'', wa_deadline_at = ''1970-01-01T01:00:00Z''\<rparr>]\<rparr>"

theorem first_countdown_is_late_witness:
  "let s = shell_after (shell_on_runs [Identity_arrived (Some two_memberships)]) [Clock_reads 3540000, Attention_loaded one_waits]
   in map_option ab_countdown (attention_slot (sh_attention s) (sh_now s)) = Some ''01:00:00''"
proof -
  let ?s = "shell_on_runs [Identity_arrived (Some two_memberships)]"
  have "shown ?s" "soonest (sh_attention ?s) = None" "at_waiting one_waits = hd (at_waiting one_waits) # tl (at_waiting one_waits)"
    "0 < at_waiting_count one_waits" "format_deadline (wa_deadline_at (hd (at_waiting one_waits))) (Num (sh_now ?s)) = ''01:00:00''"
    by code_simp+
  then show ?thesis using first_countdown_is_late [of ?s one_waits "hd (at_waiting one_waits)" "tl (at_waiting one_waits)" 3540000] by (simp add: Let_def)
qed

end
