(* ===== verification/Dialogs.thy ===== *)
theory Dialogs
  imports NewBatch StepForm Workflows Mutations
begin

text \<open>
  The dialogs that start a Run, and the panel of a CSV import: the test of a Draft (\<open>editor/test-run-dialog.tsx\<close>), the Run of a
  published Version (\<open>workflows/start-run-dialog.tsx\<close>) and the matching of columns
  (\<open>components/value-grid/csv-import-panel.tsx\<close>). An effect of React runs when one of its dependencies is another value than at the
  rendering before: an array that is made anew by each rendering always is.
\<close>

section \<open>Testing a Draft\<close>

record test_dialog =
  te_open :: bool
  te_columns :: "test_run_field list"
  te_values :: "(string \<times> string) list"
  te_start :: "(string \<times> string) list mutation"
  te_created :: "string option"

definition closed_test :: test_dialog where
  "closed_test = \<lparr>te_open = False, te_columns = [], te_values = [], te_start = Idle, te_created = None\<rparr>"

definition blank_values :: "test_run_field list \<Rightarrow> (string \<times> string) list" where
  "blank_values columns = foldl (\<lambda>values fld. with_key (tf_name fld) [] values) [] columns"

datatype test_effect = Start_test "(string \<times> string) list" | Close_test | Refresh_run_state | Go_to_run string

datatype test_event =
    Page_rendered bool "variable list"
  | Value_typed string string
  | Cancel_pressed
  | Test_submitted
  | Test_answered "js + string"
  | Run_state_refreshed

text \<open>The page makes the fields anew at each rendering, so that the effect that empties the values runs after each while it is open.\<close>

fun test_step :: "test_dialog \<Rightarrow> test_event \<Rightarrow> test_dialog \<times> test_effect list" where
  "test_step s (Page_rendered b variables) =
     (let columns = test_run_fields variables; s' = s\<lparr>te_open := b, te_columns := columns\<rparr>
      in (if b then s'\<lparr>te_values := blank_values columns\<rparr> else s', []))"
| "test_step s (Value_typed name typed) =
     (if te_open s \<and> name \<in> set (map tf_name (te_columns s)) then s\<lparr>te_values := with_key name typed (te_values s)\<rparr> else s, [])"
| "test_step s Cancel_pressed = (s, if te_open s then [Close_test] else [])"
| "test_step s Test_submitted =
     (if \<not> te_open s \<or> pending (te_start s) then (s, [])
      else (let body = test_run_body (te_values s) (te_columns s) in (s\<lparr>te_start := Asked body\<rparr>, [Start_test body])))"
| "test_step s (Test_answered answer) =
     (case te_start s of
        Asked _ \<Rightarrow>
          (case answer of
             Inl error \<Rightarrow> (s\<lparr>te_start := Refused error\<rparr>, [])
           | Inr run_id \<Rightarrow> (s\<lparr>te_start := Settling, te_created := Some run_id\<rparr>, [Close_test, Refresh_run_state]))
      | _ \<Rightarrow> (s, []))"
| "test_step s Run_state_refreshed =
     (case (te_start s, te_created s) of
        (Settling, Some run_id) \<Rightarrow> (s\<lparr>te_start := Idle, te_created := None\<rparr>, [Go_to_run (''/runs/'' @ run_id)])
      | _ \<Rightarrow> (s, []))"

definition shown_test_error :: "test_dialog \<Rightarrow> js option" where
  "shown_test_error s = (if te_open s then refused_with (te_start s) else None)"

definition test_after :: "test_dialog \<Rightarrow> test_event list \<Rightarrow> test_dialog" where
  "test_after s es = foldl (\<lambda>s e. fst (test_step s e)) s es"

fun test_asks :: "test_dialog \<Rightarrow> test_event list \<Rightarrow> test_effect list" where
  "test_asks s [] = []"
| "test_asks s (e # es) = snd (test_step s e) @ test_asks (fst (test_step s e)) es"

section \<open>Running a published Version\<close>

record run_dialog =
  rd_open :: bool
  rd_variables :: "variable list"
  rd_rows :: "grid_row list"

text \<open>The grid of one row: a cell that is typed in, and a paste from a cell on.\<close>

datatype grid_edit = Cell_typed nat string string | Pasted nat nat string

definition holds_cells :: "string \<Rightarrow> bool" where
  "holds_cells txt \<longleftrightarrow> CHR 0x09 \<in> set txt \<or> CHR 0x0A \<in> set txt \<or> CHR 0x0D \<in> set txt"

fun edit_grid :: "grid_column list \<Rightarrow> nat option \<Rightarrow> grid_edit \<Rightarrow> grid_row list \<Rightarrow> grid_row list" where
  "edit_grid columns fixed (Cell_typed i name typed) rows =
     (if i < length rows then rows[i := set_cell (rows ! i) columns name typed] else rows)"
| "edit_grid columns fixed (Pasted i j txt) rows =
     (if holds_cells txt then apply_paste rows columns i j (parse_spreadsheet txt) fixed else rows)"

datatype run_dialog_event = Dialog_rendered bool "variable list" | Grid_edited grid_edit

fun run_dialog_step :: "run_dialog \<Rightarrow> run_dialog_event \<Rightarrow> run_dialog" where
  "run_dialog_step s (Dialog_rendered b variables) =
     (let s' = s\<lparr>rd_open := b, rd_variables := variables\<rparr>
      in if b \<and> (\<not> rd_open s \<or> variables \<noteq> rd_variables s) then s'\<lparr>rd_rows := initial_rows variables 1\<rparr> else s')"
| "run_dialog_step s (Grid_edited e) =
     (if rd_open s then s\<lparr>rd_rows := edit_grid (columns_of (rd_variables s)) (Some 1) e (rd_rows s)\<rparr> else s)"

definition run_row :: "run_dialog \<Rightarrow> grid_row" where
  "run_row s = orelse (Prelude.at (rd_rows s) 0) (orelse (Prelude.at (initial_rows (rd_variables s) 1) 0) Map.empty)"

text \<open>\<open>onSubmit(row)\<close>, which the pages hand to the hook.\<close>

definition submit_run_dialog :: "string \<Rightarrow> run_dialog \<Rightarrow> js start_state \<Rightarrow> start_effect \<times> js start_state" where
  "submit_run_dialog workflow_id s state = start_from_grid workflow_id (rd_variables s) (run_row s) state"

section \<open>Matching columns\<close>

text \<open>The panel: the choices of a Variable are its column and the headers that can be mapped, and an empty choice is no column.\<close>

record column_choice =
  cc_variable :: string
  cc_chosen :: string
  cc_options :: "string list"
  cc_suggested :: bool

datatype import_view =
    No_panel
  | Matching "column_choice list" "string list"
  | Imported "(string \<times> string) list" "string list" "string list"

fun import_view_of :: "import_panel \<Rightarrow> import_view" where
  "import_view_of import_panel.Idle = No_panel"
| "import_view_of (Strip panel) =
     Matching (map (\<lambda>entry. \<lparr>cc_variable = me_variable_name entry, cc_chosen = orelse (me_header entry) [],
         cc_options = [] # mappable_headers panel, cc_suggested = me_suggested entry\<rparr>) (st_assignment panel))
       (map (\<lambda>header. header @ '' was ignored and unstored'') (st_dropped_secret_headers panel))"
| "import_view_of (Summary panel) =
     (if su_dismissed panel then No_panel
      else Imported (map (\<lambda>entry. (mh_variable_name entry, mh_header entry)) (su_matched panel)) (su_ignored_headers panel)
        (map (\<lambda>header. header @ '' was ignored and unstored'') (su_dropped_secret_headers panel)))"

definition choose_column :: "string \<Rightarrow> string \<Rightarrow> import_panel \<Rightarrow> import_panel" where
  "choose_column name chosen = assign_in_panel name (if chosen = [] then None else Some chosen)"

section \<open>What a test is started with\<close>

lemma blank_values_map: "map_of (blank_values columns) = (\<lambda>n. if n \<in> tf_name ` set columns then Some [] else None)"
proof -
  have "map_of (foldl (\<lambda>vs fld. with_key (tf_name fld) [] vs) vs columns) n =
      (if n \<in> tf_name ` set columns then Some [] else map_of vs n)" for vs :: "(string \<times> string) list" and n
    by (induction columns arbitrary: vs) auto
  then show ?thesis by (intro ext) (simp add: blank_values_def)
qed

lemma test_run_body_map:
  "map_of (test_run_body values columns) n =
     (if \<exists>c \<in> set columns. tf_name c = n \<and> \<not> tf_secret c then Some (orelse (map_of values n) []) else None)"
proof -
  have "map_of (foldl (\<lambda>body fld. if tf_secret fld then body
        else with_key (tf_name fld) (orelse (map_of values (tf_name fld)) []) body) body columns) n =
      (if \<exists>c \<in> set columns. tf_name c = n \<and> \<not> tf_secret c then Some (orelse (map_of values n) []) else map_of body n)" for body
    by (induction columns arbitrary: body) auto
  then show ?thesis by (simp add: test_run_body_def)
qed

abbreviation typing :: "(string \<times> string) list \<Rightarrow> test_event list" where
  "typing typed \<equiv> map (\<lambda>(name, val). Value_typed name val) typed"

lemma typing_keeps:
  "te_open (test_after s (typing typed)) = te_open s" "te_columns (test_after s (typing typed)) = te_columns s"
  "te_start (test_after s (typing typed)) = te_start s"
  by (induction typed arbitrary: s) (auto simp: test_after_def split: if_splits)

lemma typing_types:
  assumes "te_open s" and "name \<in> tf_name ` set (te_columns s)"
  shows "map_of (te_values (test_after s (typing typed))) name =
    (case map_of (rev typed) name of Some val \<Rightarrow> Some val | None \<Rightarrow> map_of (te_values s) name)"
  using assms
proof (induction typed arbitrary: s)
  case (Cons p typed)
  let ?s' = "fst (test_step s (Value_typed (fst p) (snd p)))"
  have "te_open ?s'" "te_columns ?s' = te_columns s" using Cons.prems by auto
  then have "map_of (te_values (test_after ?s' (typing typed))) name =
      (case map_of (rev typed) name of Some val \<Rightarrow> Some val | None \<Rightarrow> map_of (te_values ?s') name)"
    using Cons.IH [of ?s'] Cons.prems by simp
  moreover have "map_of (te_values ?s') name = (if fst p = name then Some (snd p) else map_of (te_values s) name)"
    using Cons.prems by auto
  ultimately show ?case
    by (cases p) (auto simp: test_after_def map_add_def split: option.splits)
qed (simp add: test_after_def)

text \<open>A test is started with the last value that was typed for each plain Variable of the Draft, or none, and with nothing else: what
  is typed for a Secret, for which there is a field too, is not sent.\<close>

theorem test_sends_typed_values:
  assumes "s = test_after closed_test (Page_rendered True variables # typing typed)"
  shows "\<exists>body. test_step s Test_submitted = (s\<lparr>te_start := Asked body\<rparr>, [Start_test body]) \<and>
     map_of body = (\<lambda>name. if \<exists>v \<in> set variables. va_name v = name \<and> va_secret v \<noteq> Some True
       then Some (orelse (map_of (rev typed) name) []) else None)"
proof -
  let ?columns = "test_run_fields variables"
  let ?s0 = "closed_test\<lparr>te_open := True, te_columns := ?columns, te_values := blank_values ?columns\<rparr>"
  have s: "s = test_after ?s0 (typing typed)" by (simp add: assms test_after_def Let_def)
  have fields: "te_open s" "te_columns s = ?columns" "te_start s = Idle"
    by (simp_all add: s typing_keeps closed_test_def)
  have field_of: "(\<exists>c \<in> set ?columns. tf_name c = name \<and> \<not> tf_secret c) \<longleftrightarrow>
      (\<exists>v \<in> set variables. va_name v = name \<and> va_secret v \<noteq> Some True)" for name
    by (auto simp: test_run_fields_def)
  have typed_for: "orelse (map_of (te_values s) name) [] = orelse (map_of (rev typed) name) []" if "name \<in> tf_name ` set ?columns" for name
    using typing_types [of ?s0 name typed] that by (cases "map_of (rev typed) name") (simp_all add: s blank_values_map)
  have "map_of (test_run_body (te_values s) ?columns) name = (if \<exists>v \<in> set variables. va_name v = name \<and> va_secret v \<noteq> Some True
       then Some (orelse (map_of (rev typed) name) []) else None)" for name
  proof (cases "\<exists>c \<in> set ?columns. tf_name c = name \<and> \<not> tf_secret c")
    case True
    then have "name \<in> tf_name ` set ?columns" by auto
    then show ?thesis using True field_of [of name] typed_for [of name] by (simp add: test_run_body_map del: image_iff)
  next
    case False
    then show ?thesis using field_of [of name] by (auto simp: test_run_body_map)
  qed
  then have "map_of (test_run_body (te_values s) ?columns) = (\<lambda>name. if \<exists>v \<in> set variables. va_name v = name \<and> va_secret v \<noteq> Some True
       then Some (orelse (map_of (rev typed) name) []) else None)"
    by (rule ext)
  then show ?thesis using fields by (simp add: Let_def)
qed

definition city_and_pin :: "variable list" where
  "city_and_pin = [\<lparr>va_name = ''city'', va_secret = None, va_secret_id = None, va_secret_name = None\<rparr>,
     \<lparr>va_name = ''pin'', va_secret = Some True, va_secret_id = None, va_secret_name = None\<rparr>]"

abbreviation test_of_two :: "(string \<times> string) list \<Rightarrow> test_dialog" where
  "test_of_two typed \<equiv> test_after closed_test (Page_rendered True city_and_pin # typing typed)"

theorem test_sends_typed_values_witness:
  "\<exists>body. snd (test_step (test_of_two [(''city'', ''Lille''), (''pin'', ''1234'')]) Test_submitted) = [Start_test body] \<and>
     map_of body ''city'' = Some ''Lille'' \<and> map_of body ''pin'' = None"
proof -
  let ?s = "test_of_two [(''city'', ''Lille''), (''pin'', ''1234'')]"
  obtain body where "test_step ?s Test_submitted = (?s\<lparr>te_start := Asked body\<rparr>, [Start_test body])"
    "map_of body = (\<lambda>name. if \<exists>v \<in> set city_and_pin. va_name v = name \<and> va_secret v \<noteq> Some True
       then Some (orelse (map_of (rev [(''city'', ''Lille''), (''pin'', ''1234'')]) name) []) else None)"
    using test_sends_typed_values [OF refl, of city_and_pin "[(''city'', ''Lille''), (''pin'', ''1234'')]"] by (elim exE conjE)
  then show ?thesis by (intro exI [of _ body]) (simp add: city_and_pin_def del: test_step.simps)
qed

text \<open>Whenever the page is rendered while the dialog is open, what was typed is gone: a test that is submitted then is sent blanks.\<close>

theorem rendering_empties_the_test:
  assumes "te_open s" and "\<not> pending (te_start s)"
    and "s' = test_after s (typing typed @ [Page_rendered True variables])"
  shows "te_values s' = blank_values (test_run_fields variables)
    \<and> (\<exists>body. snd (test_step s' Test_submitted) = [Start_test body] \<and> ran (map_of body) \<subseteq> {[]})"
proof -
  have s': "s' = fst (test_step (test_after s (typing typed)) (Page_rendered True variables))"
    by (simp add: assms(3) test_after_def)
  then have "te_values s' = blank_values (test_run_fields variables)" "te_open s'" "\<not> pending (te_start s')"
    using assms(2) by (simp_all add: Let_def typing_keeps)
  then show ?thesis
    by (auto simp: Let_def test_run_body_map blank_values_map ran_def split: if_splits)
qed

theorem rendering_empties_the_test_witness:
  "map_of (te_values (test_after (test_of_two []) (typing [(''city'', ''Lille'')] @ [Page_rendered True city_and_pin]))) ''city'' = Some []"
proof -
  have "te_open (test_of_two [])" "\<not> pending (te_start (test_of_two []))" "''city'' \<in> tf_name ` set (test_run_fields city_and_pin)"
    by code_simp+
  then show ?thesis
    using rendering_empties_the_test [of "test_of_two []" _ "[(''city'', ''Lille'')]" city_and_pin] by (simp add: blank_values_map)
qed

text \<open>The refusal of a test outlives its dialog: closed and opened again, it shows the refusal of the try before.\<close>

theorem refusal_outlives_the_dialog:
  assumes "te_open s" and "te_start s = Asked body"
  shows "shown_test_error (test_after s [Test_answered (Inl error), Cancel_pressed, Page_rendered False variables, Page_rendered True variables]) =
    Some error"
  using assms by (simp add: test_after_def shown_test_error_def Let_def)

theorem refusal_outlives_the_dialog_witness:
  "shown_test_error (test_after (fst (test_step (test_of_two []) Test_submitted))
     [Test_answered (Inl Null), Cancel_pressed, Page_rendered False city_and_pin, Page_rendered True city_and_pin]) = Some Null"
proof -
  let ?s = "fst (test_step (test_of_two []) Test_submitted)"
  have "te_open ?s" "te_start ?s = Asked [(''city'', [])]" by code_simp+
  then show ?thesis by (rule refusal_outlives_the_dialog)
qed

section \<open>What a Run is started with\<close>

lemma edit_grid_keeps_length:
  "length rows = 1 \<Longrightarrow> length (edit_grid columns (Some 1) e rows) = 1"
  by (cases e) (auto simp: apply_paste_def paste_rows_length Let_def)

definition run_dialog_after :: "run_dialog \<Rightarrow> run_dialog_event list \<Rightarrow> run_dialog" where
  "run_dialog_after = foldl run_dialog_step"

text \<open>An open dialog has one row.\<close>

definition one_row :: "run_dialog \<Rightarrow> bool" where
  "one_row s \<longleftrightarrow> rd_open s \<longrightarrow> length (rd_rows s) = 1"

lemma one_row_step: "one_row s \<Longrightarrow> one_row (run_dialog_step s e)"
  by (cases e) (auto simp: one_row_def Let_def initial_rows_def blank_rows_def edit_grid_keeps_length [simplified])

lemma one_row_after: "one_row s \<Longrightarrow> one_row (run_dialog_after s es)"
  unfolding run_dialog_after_def by (induction es arbitrary: s) (simp_all add: one_row_step)

text \<open>Whatever is typed and pasted, the Run of a dialog is asked for with a value for each plain Variable and nothing for a Secret,
  those of the one row that the dialog shows.\<close>

theorem run_dialog_sends_its_row:
  assumes "one_row s0" and "s = run_dialog_after s0 es" and "rd_open s"
  shows "\<exists>row. rd_rows s = [row] \<and>
     (\<exists>vs. fst (submit_run_dialog workflow_id s state) = Start_run workflow_id vs \<and>
        vs = (\<lambda>n. if n \<in> plain_names (columns_of (rd_variables s)) then Some (orelse (row n) []) else None))"
proof -
  obtain row where "rd_rows s = [row]"
    using one_row_after [OF assms(1), of es] assms(2,3) by (auto simp: one_row_def length_Suc_conv)
  then show ?thesis
    by (auto simp: submit_run_dialog_def start_from_grid_def ask_for_run_def run_row_def start_body_def Prelude.at_def submitted_variables_eq)
qed

definition no_run_dialog :: run_dialog where
  "no_run_dialog = \<lparr>rd_open = False, rd_variables = [], rd_rows = []\<rparr>"

theorem run_dialog_sends_its_row_witness:
  "\<exists>vs. fst (submit_run_dialog ''w1'' (run_dialog_after no_run_dialog [Dialog_rendered True city_and_pin,
      Grid_edited (Cell_typed 0 ''city'' ''Lille''), Grid_edited (Cell_typed 0 ''pin'' ''1234'')])
      \<lparr>sx_dialog = None, sx_refusal = None, sx_error = None\<rparr>) = Start_run ''w1'' vs
    \<and> vs ''city'' = Some ''Lille'' \<and> vs ''pin'' = None"
proof -
  let ?s = "run_dialog_after no_run_dialog [Dialog_rendered True city_and_pin,
      Grid_edited (Cell_typed 0 ''city'' ''Lille''), Grid_edited (Cell_typed 0 ''pin'' ''1234'')]"
  have "one_row no_run_dialog" by (simp add: one_row_def no_run_dialog_def)
  moreover have "rd_open ?s" "map (\<lambda>row. row ''city'') (rd_rows ?s) = [Some ''Lille'']" by code_simp+
  moreover have "plain_names (columns_of (rd_variables ?s)) = {''city''}"
    by (auto simp: run_dialog_after_def no_run_dialog_def city_and_pin_def plain_names_def columns_of_def Let_def image_iff conj_disj_distribR ex_disj_distrib)
  ultimately show ?thesis
    using run_dialog_sends_its_row [OF _ refl, of no_run_dialog _ "''w1''"] by force
qed

section \<open>What can be matched\<close>

text \<open>The choice that is shown is the one that was made, and the only header that cannot be chosen is the blank one: the choice of no
  column stands in its place.\<close>

theorem blank_header_cannot_be_chosen:
  assumes "import_view_of (Strip panel) = Matching choices dropped" and "c \<in> set choices" and "chosen \<in> set (cc_options c)"
  shows "\<exists>panel' choices'. choose_column (cc_variable c) chosen (Strip panel) = Strip panel'
      \<and> import_view_of (Strip panel') = Matching choices' dropped
      \<and> (\<forall>c' \<in> set choices'. cc_variable c' = cc_variable c \<longrightarrow> cc_chosen c' = chosen \<and> \<not> cc_suggested c')
      \<and> (\<forall>entry \<in> set (st_assignment panel'). me_variable_name entry = cc_variable c \<longrightarrow> me_header entry \<noteq> Some [])"
  using assms
  by (auto simp: choose_column_def assign_header_def mappable_headers_def image_iff Ball_def split: if_splits)

theorem blank_header_cannot_be_chosen_witness:
  "let panel = \<lparr>st_headers = [[]], st_assignment = [\<lparr>me_variable_name = ''city'', me_header = None, me_suggested = False\<rparr>],
       st_dropped_secret_headers = [], st_parsed = \<lparr>pc_headers = [[]], pc_rows = []\<rparr>\<rparr>
   in [] \<in> set (mappable_headers panel) \<and> (\<exists>panel'. choose_column ''city'' [] (Strip panel) = Strip panel' \<and>
     (\<forall>entry \<in> set (st_assignment panel'). me_variable_name entry = ''city'' \<longrightarrow> me_header entry \<noteq> Some []))"
proof -
  let ?panel = "\<lparr>st_headers = [[]], st_assignment = [\<lparr>me_variable_name = ''city'', me_header = None, me_suggested = False\<rparr>],
       st_dropped_secret_headers = [], st_parsed = \<lparr>pc_headers = [[]], pc_rows = []\<rparr>\<rparr>"
  let ?c = "\<lparr>cc_variable = ''city'', cc_chosen = [], cc_options = [] # mappable_headers ?panel, cc_suggested = False\<rparr>"
  have "import_view_of (Strip ?panel) = Matching [?c] []" by simp
  then show ?thesis
    using blank_header_cannot_be_chosen [of ?panel "[?c]" "[]" ?c "[]"] by (auto simp: Let_def mappable_headers_def)
qed

end
