(* ===== verification/Endpoints.thy ===== *)
theory Endpoints
  imports ApiClient
begin

text \<open>
  The calls of the API, one per endpoint (\<open>packages/api-client/src/generated/sdk.gen.ts\<close>): each has a method, a path with the names of
  its parameters, and says whether its body is JSON. The two that stream events are calls of the same client with its server-sent
  events. Every path begins with \<open>/api\<close>.
\<close>

section \<open>The calls\<close>

datatype http_method = GET | POST | PUT | PATCH | DELETE

record route =
  rt_method :: http_method
  rt_path :: "path_segment list"
  rt_json :: bool

definition api_route :: "http_method \<Rightarrow> path_segment list \<Rightarrow> bool \<Rightarrow> route" where
  "api_route verb segments json = \<lparr>rt_method = verb, rt_path = Literal ''api'' # segments, rt_json = json\<rparr>"

text \<open>The instance, signing in and out, the account.\<close>

datatype account_call =
    Get_instance | Request_signin_code | Verify_signin_code | Get_current_account | Delete_account | Update_account
      | Sign_out | Sign_out_everywhere

fun account_route :: "account_call \<Rightarrow> route" where
  "account_route Get_instance = api_route GET [Literal ''instance''] False"
| "account_route Request_signin_code = api_route POST [Literal ''auth'', Literal ''request-code''] True"
| "account_route Verify_signin_code = api_route POST [Literal ''auth'', Literal ''verify-code''] True"
| "account_route Get_current_account = api_route GET [Literal ''auth'', Literal ''me''] False"
| "account_route Delete_account = api_route DELETE [Literal ''account''] True"
| "account_route Update_account = api_route PATCH [Literal ''account''] True"
| "account_route Sign_out = api_route POST [Literal ''auth'', Literal ''logout''] False"
| "account_route Sign_out_everywhere = api_route POST [Literal ''auth'', Literal ''logout-all''] False"

definition account_calls :: "account_call list" where
  "account_calls = [Get_instance, Request_signin_code, Verify_signin_code, Get_current_account, Delete_account,
      Update_account, Sign_out, Sign_out_everywhere]"

text \<open>Organizations, their members and invitations.\<close>

datatype organization_call =
    List_invitations | Create_invitation | Revoke_invitation | Accept_invitation | Create_organization
      | Delete_organization | Rename_organization | List_members | Remove_member | Change_member_role | Transfer_ownership

fun organization_route :: "organization_call \<Rightarrow> route" where
  "organization_route List_invitations = api_route GET [Literal ''orgs'', Parameter ''org_id'', Literal ''invitations''] False"
| "organization_route Create_invitation = api_route POST [Literal ''orgs'', Parameter ''org_id'', Literal ''invitations''] True"
| "organization_route Revoke_invitation = api_route DELETE [Literal ''orgs'', Parameter ''org_id'', Literal ''invitations'', Parameter ''invitation_id''] False"
| "organization_route Accept_invitation = api_route POST [Literal ''invitations'', Parameter ''invitation_id'', Literal ''accept''] False"
| "organization_route Create_organization = api_route POST [Literal ''orgs''] True"
| "organization_route Delete_organization = api_route DELETE [Literal ''orgs'', Parameter ''org_id''] True"
| "organization_route Rename_organization = api_route PATCH [Literal ''orgs'', Parameter ''org_id''] True"
| "organization_route List_members = api_route GET [Literal ''orgs'', Parameter ''org_id'', Literal ''members''] False"
| "organization_route Remove_member = api_route DELETE [Literal ''orgs'', Parameter ''org_id'', Literal ''members'', Parameter ''user_id''] False"
| "organization_route Change_member_role = api_route PATCH [Literal ''orgs'', Parameter ''org_id'', Literal ''members'', Parameter ''user_id''] True"
| "organization_route Transfer_ownership = api_route POST [Literal ''orgs'', Parameter ''org_id'', Literal ''transfer-ownership''] True"

definition organization_calls :: "organization_call list" where
  "organization_calls = [List_invitations, Create_invitation, Revoke_invitation, Accept_invitation, Create_organization,
      Delete_organization, Rename_organization, List_members, Remove_member, Change_member_role, Transfer_ownership]"

text \<open>Saved logins and the extension.\<close>

datatype browser_call =
    List_auth_states | Delete_auth_state | Get_extension_version | Create_extension_connect_code | Connect_extension

fun browser_route :: "browser_call \<Rightarrow> route" where
  "browser_route List_auth_states = api_route GET [Literal ''auth-states''] False"
| "browser_route Delete_auth_state = api_route DELETE [Literal ''auth-states'', Parameter ''auth_state_id''] False"
| "browser_route Get_extension_version = api_route GET [Literal ''extension'', Literal ''version''] False"
| "browser_route Create_extension_connect_code = api_route POST [Literal ''extension'', Literal ''connect-codes''] False"
| "browser_route Connect_extension = api_route POST [Literal ''extension'', Literal ''connect''] True"

definition browser_calls :: "browser_call list" where
  "browser_calls = [List_auth_states, Delete_auth_state, Get_extension_version, Create_extension_connect_code, Connect_extension]"

text \<open>Secrets.\<close>

datatype vault_call =
    List_secrets | Create_secret | Delete_secret | Update_secret | Reveal_secret | Delete_secret_override
      | Set_secret_override | Reveal_secret_override

fun vault_route :: "vault_call \<Rightarrow> route" where
  "vault_route List_secrets = api_route GET [Literal ''secrets''] False"
| "vault_route Create_secret = api_route POST [Literal ''secrets''] True"
| "vault_route Delete_secret = api_route DELETE [Literal ''secrets'', Parameter ''secret_id''] False"
| "vault_route Update_secret = api_route PATCH [Literal ''secrets'', Parameter ''secret_id''] True"
| "vault_route Reveal_secret = api_route POST [Literal ''secrets'', Parameter ''secret_id'', Literal ''reveal''] False"
| "vault_route Delete_secret_override = api_route DELETE [Literal ''secrets'', Parameter ''secret_id'', Literal ''override''] False"
| "vault_route Set_secret_override = api_route PUT [Literal ''secrets'', Parameter ''secret_id'', Literal ''override''] True"
| "vault_route Reveal_secret_override = api_route POST [Literal ''secrets'', Parameter ''secret_id'', Literal ''override'', Literal ''reveal''] False"

definition vault_calls :: "vault_call list" where
  "vault_calls = [List_secrets, Create_secret, Delete_secret, Update_secret, Reveal_secret, Delete_secret_override,
      Set_secret_override, Reveal_secret_override]"

text \<open>Workflows, their Versions and their Draft.\<close>

datatype workflow_call =
    List_workflows | Create_workflow | List_workflow_versions | Publish_workflow_version | Get_workflow_version
      | Restore_workflow_version | Get_workflow_draft_diff | Get_workflow_draft | Save_workflow_draft | Create_recording_session

fun workflow_route :: "workflow_call \<Rightarrow> route" where
  "workflow_route List_workflows = api_route GET [Literal ''workflows''] False"
| "workflow_route Create_workflow = api_route POST [Literal ''workflows''] True"
| "workflow_route List_workflow_versions = api_route GET [Literal ''workflows'', Parameter ''workflow_id'', Literal ''versions''] False"
| "workflow_route Publish_workflow_version = api_route POST [Literal ''workflows'', Parameter ''workflow_id'', Literal ''versions''] False"
| "workflow_route Get_workflow_version = api_route GET [Literal ''workflows'', Parameter ''workflow_id'', Literal ''versions'', Parameter ''number''] False"
| "workflow_route Restore_workflow_version = api_route POST [Literal ''workflows'', Parameter ''workflow_id'', Literal ''versions'', Parameter ''number'', Literal ''restore''] False"
| "workflow_route Get_workflow_draft_diff = api_route GET [Literal ''workflows'', Parameter ''workflow_id'', Literal ''draft'', Literal ''diff''] False"
| "workflow_route Get_workflow_draft = api_route GET [Literal ''workflows'', Parameter ''workflow_id'', Literal ''draft''] False"
| "workflow_route Save_workflow_draft = api_route PUT [Literal ''workflows'', Parameter ''workflow_id'', Literal ''draft''] True"
| "workflow_route Create_recording_session = api_route POST [Literal ''workflows'', Parameter ''workflow_id'', Literal ''recording-sessions''] True"

definition workflow_calls :: "workflow_call list" where
  "workflow_calls = [List_workflows, Create_workflow, List_workflow_versions, Publish_workflow_version,
      Get_workflow_version, Restore_workflow_version, Get_workflow_draft_diff, Get_workflow_draft, Save_workflow_draft,
      Create_recording_session]"

text \<open>Recording sessions.\<close>

datatype recording_call =
    Checkpoint_recording_session | Create_recording_secret | Recording_auth_state_options | Capture_recording_auth_states
      | Finalize_recording_session

fun recording_route :: "recording_call \<Rightarrow> route" where
  "recording_route Checkpoint_recording_session = api_route POST [Literal ''recording-sessions'', Parameter ''session_id'',
      Literal ''checkpoint''] True"
| "recording_route Create_recording_secret = api_route POST [Literal ''recording-sessions'', Parameter ''session_id'', Literal ''secrets''] True"
| "recording_route Recording_auth_state_options = api_route POST [Literal ''recording-sessions'', Parameter ''session_id'', Literal ''auth-state-options''] True"
| "recording_route Capture_recording_auth_states = api_route POST [Literal ''recording-sessions'', Parameter ''session_id'', Literal ''auth-states''] True"
| "recording_route Finalize_recording_session = api_route POST [Literal ''recording-sessions'', Parameter ''session_id'', Literal ''finalize''] True"

definition recording_calls :: "recording_call list" where
  "recording_calls = [Checkpoint_recording_session, Create_recording_secret, Recording_auth_state_options,
      Capture_recording_auth_states, Finalize_recording_session]"

text \<open>One Workflow.\<close>

datatype flow_call =
    Delete_workflow | Get_workflow | Rename_workflow | Duplicate_workflow | Start_run | Get_workflow_selector_drift

fun flow_route :: "flow_call \<Rightarrow> route" where
  "flow_route Delete_workflow = api_route DELETE [Literal ''workflows'', Parameter ''workflow_id''] False"
| "flow_route Get_workflow = api_route GET [Literal ''workflows'', Parameter ''workflow_id''] False"
| "flow_route Rename_workflow = api_route PATCH [Literal ''workflows'', Parameter ''workflow_id''] True"
| "flow_route Duplicate_workflow = api_route POST [Literal ''workflows'', Parameter ''workflow_id'', Literal ''duplicate''] False"
| "flow_route Start_run = api_route POST [Literal ''workflows'', Parameter ''workflow_id'', Literal ''runs''] True"
| "flow_route Get_workflow_selector_drift = api_route GET [Literal ''workflows'', Parameter ''workflow_id'', Literal ''selector-drift''] False"

definition flow_calls :: "flow_call list" where
  "flow_calls = [Delete_workflow, Get_workflow, Rename_workflow, Duplicate_workflow, Start_run, Get_workflow_selector_drift]"

text \<open>Runs.\<close>

datatype run_call =
    List_runs | Get_attention | Delete_run | Get_run | Consent_run_auth_state | Stream_run_events | List_run_logs
      | Get_run_output | Download_run_artifact | Locate_run_artifact | Cancel_run | Pause_run | Mint_stream_ticket
      | Take_over_run | Hold_takeover | Hand_back_run | Abandon_takeover

fun run_route :: "run_call \<Rightarrow> route" where
  "run_route List_runs = api_route GET [Literal ''runs''] False"
| "run_route Get_attention = api_route GET [Literal ''attention''] False"
| "run_route Delete_run = api_route DELETE [Literal ''runs'', Parameter ''run_id''] False"
| "run_route Get_run = api_route GET [Literal ''runs'', Parameter ''run_id''] False"
| "run_route Consent_run_auth_state = api_route POST [Literal ''runs'', Parameter ''run_id'', Literal ''auth-state-consents''] True"
| "run_route Stream_run_events = api_route GET [Literal ''runs'', Parameter ''run_id'', Literal ''events''] False"
| "run_route List_run_logs = api_route GET [Literal ''runs'', Parameter ''run_id'', Literal ''logs''] False"
| "run_route Get_run_output = api_route GET [Literal ''runs'', Parameter ''run_id'', Literal ''output''] False"
| "run_route Download_run_artifact = api_route GET [Literal ''runs'', Parameter ''run_id'', Literal ''artifacts'', Parameter ''artifact_id'', Literal ''download''] False"
| "run_route Locate_run_artifact = api_route GET [Literal ''runs'', Parameter ''run_id'', Literal ''artifacts'', Parameter ''artifact_id'', Literal ''location''] False"
| "run_route Cancel_run = api_route POST [Literal ''runs'', Parameter ''run_id'', Literal ''cancel''] False"
| "run_route Pause_run = api_route POST [Literal ''runs'', Parameter ''run_id'', Literal ''pause''] False"
| "run_route Mint_stream_ticket = api_route POST [Literal ''runs'', Parameter ''run_id'', Literal ''stream-ticket''] False"
| "run_route Take_over_run = api_route POST [Literal ''runs'', Parameter ''run_id'', Literal ''takeover''] False"
| "run_route Hold_takeover = api_route POST [Literal ''runs'', Parameter ''run_id'', Literal ''takeover'', Literal ''hold''] True"
| "run_route Hand_back_run = api_route POST [Literal ''runs'', Parameter ''run_id'', Literal ''handback''] False"
| "run_route Abandon_takeover = api_route POST [Literal ''runs'', Parameter ''run_id'', Literal ''takeover'', Literal ''abandon''] False"

definition run_calls :: "run_call list" where
  "run_calls = [List_runs, Get_attention, Delete_run, Get_run, Consent_run_auth_state, Stream_run_events, List_run_logs,
      Get_run_output, Download_run_artifact, Locate_run_artifact, Cancel_run, Pause_run, Mint_stream_ticket, Take_over_run,
      Hold_takeover, Hand_back_run, Abandon_takeover]"

text \<open>Schedules.\<close>

datatype schedule_call =
    Preview_schedule | List_all_schedules | List_schedules | Create_schedule | Delete_schedule | Get_schedule
      | Update_schedule | Run_schedule_now

fun schedule_route :: "schedule_call \<Rightarrow> route" where
  "schedule_route Preview_schedule = api_route POST [Literal ''schedules'', Literal ''preview''] True"
| "schedule_route List_all_schedules = api_route GET [Literal ''schedules''] False"
| "schedule_route List_schedules = api_route GET [Literal ''workflows'', Parameter ''workflow_id'', Literal ''schedules''] False"
| "schedule_route Create_schedule = api_route POST [Literal ''workflows'', Parameter ''workflow_id'', Literal ''schedules''] True"
| "schedule_route Delete_schedule = api_route DELETE [Literal ''schedules'', Parameter ''schedule_id''] False"
| "schedule_route Get_schedule = api_route GET [Literal ''schedules'', Parameter ''schedule_id''] False"
| "schedule_route Update_schedule = api_route PATCH [Literal ''schedules'', Parameter ''schedule_id''] True"
| "schedule_route Run_schedule_now = api_route POST [Literal ''schedules'', Parameter ''schedule_id'', Literal ''run-now''] False"

definition schedule_calls :: "schedule_call list" where
  "schedule_calls = [Preview_schedule, List_all_schedules, List_schedules, Create_schedule, Delete_schedule, Get_schedule,
      Update_schedule, Run_schedule_now]"

text \<open>Batches.\<close>

datatype batch_call =
    Create_batch | List_batches | Get_batch | Get_batch_output | Stream_batch_events | Cancel_batch | Update_batch_row
      | Fill_batch_rows | Skip_batch_row | Rerun_batch_row

fun batch_route :: "batch_call \<Rightarrow> route" where
  "batch_route Create_batch = api_route POST [Literal ''workflows'', Parameter ''workflow_id'', Literal ''batches''] True"
| "batch_route List_batches = api_route GET [Literal ''batches''] False"
| "batch_route Get_batch = api_route GET [Literal ''batches'', Parameter ''batch_id''] False"
| "batch_route Get_batch_output = api_route GET [Literal ''batches'', Parameter ''batch_id'', Literal ''output''] False"
| "batch_route Stream_batch_events = api_route GET [Literal ''batches'', Parameter ''batch_id'', Literal ''events''] False"
| "batch_route Cancel_batch = api_route POST [Literal ''batches'', Parameter ''batch_id'', Literal ''cancel''] False"
| "batch_route Update_batch_row = api_route PATCH [Literal ''batches'', Parameter ''batch_id'', Literal ''rows'', Parameter ''index''] True"
| "batch_route Fill_batch_rows = api_route POST [Literal ''batches'', Parameter ''batch_id'', Literal ''rows'', Literal ''fill''] True"
| "batch_route Skip_batch_row = api_route POST [Literal ''batches'', Parameter ''batch_id'', Literal ''rows'', Parameter ''index'', Literal ''skip''] False"
| "batch_route Rerun_batch_row = api_route POST [Literal ''batches'', Parameter ''batch_id'', Literal ''rows'', Parameter ''index'', Literal ''rerun''] False"

definition batch_calls :: "batch_call list" where
  "batch_calls = [Create_batch, List_batches, Get_batch, Get_batch_output, Stream_batch_events, Cancel_batch,
      Update_batch_row, Fill_batch_rows, Skip_batch_row, Rerun_batch_row]"

text \<open>The service itself.\<close>

datatype service_call =
    Get_health | Get_greeting

fun service_route :: "service_call \<Rightarrow> route" where
  "service_route Get_health = api_route GET [Literal ''health''] False"
| "service_route Get_greeting = api_route GET [Literal ''hello'', Parameter ''name''] False"

definition service_calls :: "service_call list" where
  "service_calls = [Get_health, Get_greeting]"

datatype endpoint =
    Account_endpoint account_call
  | Organization_endpoint organization_call
  | Browser_endpoint browser_call
  | Vault_endpoint vault_call
  | Workflow_endpoint workflow_call
  | Recording_endpoint recording_call
  | Flow_endpoint flow_call
  | Run_endpoint run_call
  | Schedule_endpoint schedule_call
  | Batch_endpoint batch_call
  | Service_endpoint service_call

fun route_of :: "endpoint \<Rightarrow> route" where
  "route_of (Account_endpoint c) = account_route c"
| "route_of (Organization_endpoint c) = organization_route c"
| "route_of (Browser_endpoint c) = browser_route c"
| "route_of (Vault_endpoint c) = vault_route c"
| "route_of (Workflow_endpoint c) = workflow_route c"
| "route_of (Recording_endpoint c) = recording_route c"
| "route_of (Flow_endpoint c) = flow_route c"
| "route_of (Run_endpoint c) = run_route c"
| "route_of (Schedule_endpoint c) = schedule_route c"
| "route_of (Batch_endpoint c) = batch_route c"
| "route_of (Service_endpoint c) = service_route c"

definition all_endpoints :: "endpoint list" where
  "all_endpoints =
     map Account_endpoint account_calls @
     map Organization_endpoint organization_calls @
     map Browser_endpoint browser_calls @
     map Vault_endpoint vault_calls @
     map Workflow_endpoint workflow_calls @
     map Recording_endpoint recording_calls @
     map Flow_endpoint flow_calls @
     map Run_endpoint run_calls @
     map Schedule_endpoint schedule_calls @
     map Batch_endpoint batch_calls @
     map Service_endpoint service_calls"

lemmas calls_defs = account_calls_def organization_calls_def browser_calls_def vault_calls_def workflow_calls_def recording_calls_def flow_calls_def run_calls_def schedule_calls_def batch_calls_def service_calls_def

definition parameters :: "endpoint \<Rightarrow> string list" where
  "parameters e = concat (map (\<lambda>s. case s of Literal _ \<Rightarrow> [] | Parameter n \<Rightarrow> [n]) (rt_path (route_of e)))"

definition method_of :: "endpoint \<Rightarrow> http_method" where
  "method_of e = rt_method (route_of e)"

text \<open>The URL of a call, and the headers that it starts from.\<close>

definition call_url :: "endpoint \<Rightarrow> fields \<Rightarrow> fields option \<Rightarrow> string option" where
  "call_url e path query = get_url None (Some path) query (template (rt_path (route_of e)))"

definition call_headers :: "endpoint \<Rightarrow> fields list \<Rightarrow> js option \<Rightarrow> headers" where
  "call_headers e given body =
     request_headers ((if rt_json (route_of e) then [[(''Content-Type'', Str ''application/json'')]] else []) @ given) body"

text \<open>What a call is given for its path: a value for each parameter.\<close>

definition fills :: "endpoint \<Rightarrow> fields \<Rightarrow> bool" where
  "fills e path \<longleftrightarrow> list_all (\<lambda>n. scalar (field path n)) (parameters e)"

section \<open>Calls are told apart\<close>

lemma every_endpoint: "e \<in> set all_endpoints"
proof (cases e)
  case (Account_endpoint c)
  then show ?thesis by (cases c) (simp_all add: all_endpoints_def calls_defs)
next
  case (Organization_endpoint c)
  then show ?thesis by (cases c) (simp_all add: all_endpoints_def calls_defs)
next
  case (Browser_endpoint c)
  then show ?thesis by (cases c) (simp_all add: all_endpoints_def calls_defs)
next
  case (Vault_endpoint c)
  then show ?thesis by (cases c) (simp_all add: all_endpoints_def calls_defs)
next
  case (Workflow_endpoint c)
  then show ?thesis by (cases c) (simp_all add: all_endpoints_def calls_defs)
next
  case (Recording_endpoint c)
  then show ?thesis by (cases c) (simp_all add: all_endpoints_def calls_defs)
next
  case (Flow_endpoint c)
  then show ?thesis by (cases c) (simp_all add: all_endpoints_def calls_defs)
next
  case (Run_endpoint c)
  then show ?thesis by (cases c) (simp_all add: all_endpoints_def calls_defs)
next
  case (Schedule_endpoint c)
  then show ?thesis by (cases c) (simp_all add: all_endpoints_def calls_defs)
next
  case (Batch_endpoint c)
  then show ?thesis by (cases c) (simp_all add: all_endpoints_def calls_defs)
next
  case (Service_endpoint c)
  then show ?thesis by (cases c) (simp_all add: all_endpoints_def calls_defs)
qed

text \<open>Two paths no request can be for both of: they have other lengths, or other words somewhere.\<close>

fun words_apart :: "path_segment list \<Rightarrow> path_segment list \<Rightarrow> bool" where
  "words_apart [] [] \<longleftrightarrow> False"
| "words_apart (Literal t # xs) (Literal u # ys) \<longleftrightarrow> t \<noteq> u \<or> words_apart xs ys"
| "words_apart (x # xs) (y # ys) \<longleftrightarrow> words_apart xs ys"
| "words_apart _ _ \<longleftrightarrow> True"

fun pairwise :: "('a \<Rightarrow> 'a \<Rightarrow> bool) \<Rightarrow> 'a list \<Rightarrow> bool" where
  "pairwise P [] \<longleftrightarrow> True"
| "pairwise P (x # xs) \<longleftrightarrow> list_all (P x) xs \<and> pairwise P xs"

definition routes_apart :: "route \<Rightarrow> route \<Rightarrow> bool" where
  "routes_apart r r' \<longleftrightarrow> rt_method r \<noteq> rt_method r' \<or> words_apart (rt_path r) (rt_path r')"

lemma all_routes_apart: "pairwise routes_apart (map route_of all_endpoints)"
  by code_simp

lemma words_apart_comm: "words_apart xs ys = words_apart ys xs"
  by (induction xs ys rule: words_apart.induct) auto

lemma pairwise_nth: "pairwise P xs \<Longrightarrow> i < j \<Longrightarrow> j < length xs \<Longrightarrow> P (xs ! i) (xs ! j)"
proof (induction xs arbitrary: i j)
  case (Cons x xs)
  then show ?case by (cases i; cases j) (auto simp: list_all_length)
qed simp

lemma two_routes_apart:
  assumes "e \<noteq> e'"
  shows "routes_apart (route_of e) (route_of e')"
proof -
  obtain i j where at: "i < length all_endpoints" "j < length all_endpoints" "all_endpoints ! i = e" "all_endpoints ! j = e'"
    using every_endpoint [of e] every_endpoint [of e'] by (auto simp: in_set_conv_nth)
  with assms have "i < j \<or> j < i" by (metis nat_neq_iff)
  then have "routes_apart (route_of e) (route_of e') \<or> routes_apart (route_of e') (route_of e)"
    using pairwise_nth [OF all_routes_apart, of i j] pairwise_nth [OF all_routes_apart, of j i] at by auto
  then show ?thesis using words_apart_comm by (auto simp: routes_apart_def)
qed

lemma words_apart_values:
  "words_apart xs ys \<Longrightarrow> map (segment_value p) xs \<noteq> map (segment_value q) ys"
  by (induction xs ys rule: words_apart.induct) auto

lemma routes_are_plain:
  "list_all (\<lambda>r. list_all (\<lambda>s. case s of Literal t \<Rightarrow> list_all (\<lambda>c. c \<notin> set ''/{}%'') t
      | Parameter n \<Rightarrow> n \<noteq> [] \<and> list_all (\<lambda>c. c \<notin> set ''/{}*.;'') n) (rt_path r)) (map route_of all_endpoints)"
  by code_simp

lemma filled_path_is_plain:
  assumes "fills e path"
  shows "list_all (plain_segment path) (rt_path (route_of e))"
proof -
  have plain: "case s of Literal t \<Rightarrow> list_all (\<lambda>c. c \<notin> set ''/{}%'') t
      | Parameter n \<Rightarrow> n \<noteq> [] \<and> list_all (\<lambda>c. c \<notin> set ''/{}*.;'') n" if "s \<in> set (rt_path (route_of e))" for s
    using routes_are_plain every_endpoint [of e] that unfolding list_all_iff by auto
  have "scalar (field path n)" if "Parameter n \<in> set (rt_path (route_of e))" for n
    using assms that by (force simp: fills_def parameters_def list_all_iff)
  then have "plain_segment path s" if "s \<in> set (rt_path (route_of e))" for s
    using plain [OF that] that by (cases s) auto
  then show ?thesis by (simp add: list_all_iff)
qed

lemma path_begins: "rt_path (route_of e) \<noteq> []"
proof -
  have "list_all (\<lambda>r. rt_path r \<noteq> []) (map route_of all_endpoints)" by code_simp
  then show ?thesis using every_endpoint [of e] by (auto simp: list_all_iff)
qed

lemma call_url_filled:
  assumes "fills e path"
  shows "call_url e path None = Some (filled_path path (rt_path (route_of e)))"
  unfolding call_url_def by (rule filled_path_url [OF path_begins filled_path_is_plain [OF assms]])



end
