(* ===== verification/Queries.thy ===== *)
theory Queries
  imports Endpoints Lists Schedules Shell WorkflowPages
begin

text \<open>
  What the pages ask the API for, and the keys under which the answers are kept (the \<open>queries.ts\<close> of each part of the application,
  \<open>lib/identity.ts\<close>, \<open>lib/attention-context.tsx\<close>, \<open>lib/downloads.ts\<close>): two queries of one key share one answer. A key is a list of
  texts, numbers and choices, and choices with the same values are the same key, in whatever order they stand.
\<close>

section \<open>Queries\<close>

datatype key_part = Named string | Numbered int | Choices "string \<rightharpoonup> string"

datatype query =
    Identity_query | Instance_query | Extension_version_query | Attention_query | Secrets_query | Auth_states_query
  | Run_query string string | Run_output_query string string | Run_workflow_query string string
  | Run_version_query string string "int option" | Artifact_query string string
  | Batch_query string string | Batch_output_query string string | Row_output_query string "string option"
  | Workflow_query string string | Versions_query string string | Draft_diff_query string string
  | Draft_query string string | Version_document_query string string "int option" | Selector_drift_query string string
  | Preview_query string string string | Workflow_runs_query string string | Schedule_query string string
  | Workflow_batches_query string string | Members_query string | Invitations_query string
  | Workflows_query string string string | Runs_list_query string params | Schedules_list_query string params
  | Batches_list_query string string

text \<open>A call: its endpoint, what its path and its query are given, and its body.\<close>

record api_call =
  ca_endpoint :: endpoint
  ca_path :: fields
  ca_query :: fields
  ca_body :: "js option"

definition api_get :: "endpoint \<Rightarrow> fields \<Rightarrow> fields \<Rightarrow> api_call" where
  "api_get e path query = \<lparr>ca_endpoint = e, ca_path = path, ca_query = query, ca_body = None\<rparr>"

definition texts :: "params \<Rightarrow> fields" where
  "texts ps = map (\<lambda>(name, v). (name, Str v)) ps"

definition of_workflow :: "flow_call \<Rightarrow> string \<Rightarrow> api_call" where
  "of_workflow c workflow_id = api_get (Flow_endpoint c) [(''workflow_id'', Str workflow_id)] []"

definition of_draft :: "workflow_call \<Rightarrow> string \<Rightarrow> api_call" where
  "of_draft c workflow_id = api_get (Workflow_endpoint c) [(''workflow_id'', Str workflow_id)] []"

definition version_call :: "string \<Rightarrow> int option \<Rightarrow> api_call" where
  "version_call workflow_id version =
     api_get (Workflow_endpoint Get_workflow_version) [(''workflow_id'', Str workflow_id), (''number'', Number (Num (orelse version 0)))] []"

definition of_run :: "run_call \<Rightarrow> string \<Rightarrow> fields \<Rightarrow> api_call" where
  "of_run c run_id query = api_get (Run_endpoint c) [(''run_id'', Str run_id)] query"

definition of_batch :: "batch_call \<Rightarrow> string \<Rightarrow> fields \<Rightarrow> api_call" where
  "of_batch c batch_id query = api_get (Batch_endpoint c) [(''batch_id'', Str batch_id)] query"

text \<open>What a query is kept under, and its calls in their order; those of a list are from a cursor on.\<close>

type_synonym asked = "key_part list \<times> (string option \<Rightarrow> api_call list)"

definition identity_query :: "asked" where
  "identity_query =
     ([Named ''identity''],
      \<lambda>_. [api_get (Account_endpoint Get_current_account) [] []])"

definition instance_query :: "asked" where
  "instance_query =
     ([Named ''instance''],
      \<lambda>_. [api_get (Account_endpoint Get_instance) [] []])"

definition extension_version_query :: "asked" where
  "extension_version_query =
     ([Named ''extension-version''],
      \<lambda>_. [api_get (Browser_endpoint Get_extension_version) [] []])"

definition attention_query :: "asked" where
  "attention_query =
     ([Named ''attention''],
      \<lambda>_. [api_get (Run_endpoint Get_attention) [] []])"

definition secrets_query :: "asked" where
  "secrets_query =
     ([Named ''secrets''],
      \<lambda>_. [api_get (Vault_endpoint List_secrets) [] []])"

definition auth_states_query :: "asked" where
  "auth_states_query =
     ([Named ''auth-states''],
      \<lambda>_. [api_get (Browser_endpoint List_auth_states) [] []])"

definition run_query :: "string \<Rightarrow> string \<Rightarrow> asked" where
  "run_query org run_id =
     ([Named ''run'', Named org, Named run_id],
      \<lambda>_. [of_run Get_run run_id [], of_run List_run_logs run_id []])"

definition run_output_query :: "string \<Rightarrow> string \<Rightarrow> asked" where
  "run_output_query org run_id =
     ([Named ''run-output'', Named org, Named run_id],
      \<lambda>_. [of_run Get_run_output run_id [(''format'', Str ''json'')]])"

definition run_workflow_query :: "string \<Rightarrow> string \<Rightarrow> asked" where
  "run_workflow_query org workflow_id =
     ([Named ''run-workflow'', Named org, Named workflow_id],
      \<lambda>_. [of_workflow Get_workflow workflow_id])"

definition run_version_query :: "string \<Rightarrow> string \<Rightarrow> int option \<Rightarrow> asked" where
  "run_version_query org workflow_id version =
     ([Named ''run-version'', Named org, Named workflow_id, Numbered (orelse version 0)],
      \<lambda>_. [version_call workflow_id version])"

definition artifact_query :: "string \<Rightarrow> string \<Rightarrow> asked" where
  "artifact_query run_id artifact_id =
     ([Named ''artifact-location'', Named run_id, Named artifact_id],
      \<lambda>_. [api_get (Run_endpoint Locate_run_artifact) [(''run_id'', Str run_id), (''artifact_id'', Str artifact_id)] []])"

definition batch_query :: "string \<Rightarrow> string \<Rightarrow> asked" where
  "batch_query org batch_id =
     ([Named ''batch'', Named org, Named batch_id],
      \<lambda>_. [of_batch Get_batch batch_id []])"

definition batch_output_query :: "string \<Rightarrow> string \<Rightarrow> asked" where
  "batch_output_query org batch_id =
     ([Named ''batch-output'', Named org, Named batch_id],
      \<lambda>_. [of_batch Get_batch_output batch_id [(''format'', Str ''json'')]])"

definition row_output_query :: "string \<Rightarrow> string option \<Rightarrow> asked" where
  "row_output_query org run_id =
     ([Named ''batch-row-output'', Named org, Named (orelse run_id [])],
      \<lambda>_. (case run_id of None \<Rightarrow> [] | Some i \<Rightarrow> [of_run Get_run_output i [(''format'', Str ''json'')]]))"

definition workflow_query :: "string \<Rightarrow> string \<Rightarrow> asked" where
  "workflow_query org workflow_id =
     ([Named ''workflow'', Named org, Named workflow_id],
      \<lambda>_. [of_workflow Get_workflow workflow_id])"

definition versions_query :: "string \<Rightarrow> string \<Rightarrow> asked" where
  "versions_query org workflow_id =
     ([Named ''workflow-versions'', Named org, Named workflow_id],
      \<lambda>_. [of_draft List_workflow_versions workflow_id])"

definition draft_diff_query :: "string \<Rightarrow> string \<Rightarrow> asked" where
  "draft_diff_query org workflow_id =
     ([Named ''workflow-draft-diff'', Named org, Named workflow_id],
      \<lambda>_. [of_draft Get_workflow_draft_diff workflow_id])"

definition draft_query :: "string \<Rightarrow> string \<Rightarrow> asked" where
  "draft_query org workflow_id =
     ([Named ''workflow-draft'', Named org, Named workflow_id],
      \<lambda>_. [of_draft Get_workflow_draft workflow_id])"

definition version_document_query :: "string \<Rightarrow> string \<Rightarrow> int option \<Rightarrow> asked" where
  "version_document_query org workflow_id version =
     ([Named ''workflow-version'', Named org, Named workflow_id, Numbered (orelse version 0)],
      \<lambda>_. [version_call workflow_id version])"

definition selector_drift_query :: "string \<Rightarrow> string \<Rightarrow> asked" where
  "selector_drift_query org workflow_id =
     ([Named ''workflow-selector-drift'', Named org, Named workflow_id],
      \<lambda>_. [of_workflow Get_workflow_selector_drift workflow_id])"

definition preview_query :: "string \<Rightarrow> string \<Rightarrow> string \<Rightarrow> asked" where
  "preview_query org cron timezone =
     ([Named ''schedule-preview'', Named org, Named cron, Named timezone],
      \<lambda>_. [\<lparr>ca_endpoint = Schedule_endpoint Preview_schedule, ca_path = [], ca_query = [], ca_body = Some (Obj [(''cron'', Str cron), (''timezone'', Str timezone)])\<rparr>])"

definition workflow_runs_query :: "string \<Rightarrow> string \<Rightarrow> asked" where
  "workflow_runs_query org workflow_id =
     ([Named ''workflow-runs'', Named org, Named workflow_id],
      \<lambda>_. [api_get (Run_endpoint List_runs) [] [(''workflow_id'', Str workflow_id)]])"

definition schedule_query :: "string \<Rightarrow> string \<Rightarrow> asked" where
  "schedule_query org schedule_id =
     ([Named ''schedule'', Named org, Named schedule_id],
      \<lambda>_. [api_get (Schedule_endpoint Get_schedule) [(''schedule_id'', Str schedule_id)] []])"

definition workflow_batches_query :: "string \<Rightarrow> string \<Rightarrow> asked" where
  "workflow_batches_query org workflow_id =
     ([Named ''workflow-batches'', Named org, Named workflow_id],
      \<lambda>_. [api_get (Batch_endpoint List_batches) [] [(''workflow_id'', Str workflow_id)]])"

definition members_query :: "string \<Rightarrow> asked" where
  "members_query org =
     ([Named ''members'', Named org],
      \<lambda>_. [api_get (Organization_endpoint List_members) [(''org_id'', Str org)] []])"

definition invitations_query :: "string \<Rightarrow> asked" where
  "invitations_query org =
     ([Named ''invitations'', Named org],
      \<lambda>_. [api_get (Organization_endpoint List_invitations) [(''org_id'', Str org)] []])"

definition workflows_query :: "string \<Rightarrow> string \<Rightarrow> string \<Rightarrow> asked" where
  "workflows_query org q sort_by =
     ([Named ''workflows'', Named org, Choices [''q'' \<mapsto> q, ''sort'' \<mapsto> sort_by]],
      \<lambda>cursor. [api_get (Workflow_endpoint List_workflows) [] (texts ([(''q'', q), (''sort'', sort_by), (''limit'', ''40'')] @ sent_cursor cursor))])"

definition runs_list_query :: "string \<Rightarrow> params \<Rightarrow> asked" where
  "runs_list_query org filters =
     ([Named ''/api/runs'', Named org, Choices (map_of filters)],
      \<lambda>cursor. [api_get (Run_endpoint List_runs) [] (texts (run_page_query filters cursor page_size))])"

definition schedules_list_query :: "string \<Rightarrow> params \<Rightarrow> asked" where
  "schedules_list_query org filters =
     ([Named ''/api/schedules'', Named org, Choices (map_of filters)],
      \<lambda>cursor. [api_get (Schedule_endpoint List_all_schedules) [] (texts (schedule_page_query filters cursor page_size))])"

definition batches_list_query :: "string \<Rightarrow> string \<Rightarrow> asked" where
  "batches_list_query org workflow_id =
     ([Named ''/api/batches'', Named org, Choices [''workflow_id'' \<mapsto> workflow_id]],
      \<lambda>cursor. [api_get (Batch_endpoint List_batches) [] (texts (batch_page_query workflow_id cursor page_size))])"

fun asked_by :: "query \<Rightarrow> asked" where
  "asked_by Identity_query = identity_query"
| "asked_by Instance_query = instance_query"
| "asked_by Extension_version_query = extension_version_query"
| "asked_by Attention_query = attention_query"
| "asked_by Secrets_query = secrets_query"
| "asked_by Auth_states_query = auth_states_query"
| "asked_by (Run_query org run_id) = run_query org run_id"
| "asked_by (Run_output_query org run_id) = run_output_query org run_id"
| "asked_by (Run_workflow_query org workflow_id) = run_workflow_query org workflow_id"
| "asked_by (Run_version_query org workflow_id version) = run_version_query org workflow_id version"
| "asked_by (Artifact_query run_id artifact_id) = artifact_query run_id artifact_id"
| "asked_by (Batch_query org batch_id) = batch_query org batch_id"
| "asked_by (Batch_output_query org batch_id) = batch_output_query org batch_id"
| "asked_by (Row_output_query org run_id) = row_output_query org run_id"
| "asked_by (Workflow_query org workflow_id) = workflow_query org workflow_id"
| "asked_by (Versions_query org workflow_id) = versions_query org workflow_id"
| "asked_by (Draft_diff_query org workflow_id) = draft_diff_query org workflow_id"
| "asked_by (Draft_query org workflow_id) = draft_query org workflow_id"
| "asked_by (Version_document_query org workflow_id version) = version_document_query org workflow_id version"
| "asked_by (Selector_drift_query org workflow_id) = selector_drift_query org workflow_id"
| "asked_by (Preview_query org cron timezone) = preview_query org cron timezone"
| "asked_by (Workflow_runs_query org workflow_id) = workflow_runs_query org workflow_id"
| "asked_by (Schedule_query org schedule_id) = schedule_query org schedule_id"
| "asked_by (Workflow_batches_query org workflow_id) = workflow_batches_query org workflow_id"
| "asked_by (Members_query org) = members_query org"
| "asked_by (Invitations_query org) = invitations_query org"
| "asked_by (Workflows_query org q sort_by) = workflows_query org q sort_by"
| "asked_by (Runs_list_query org filters) = runs_list_query org filters"
| "asked_by (Schedules_list_query org filters) = schedules_list_query org filters"
| "asked_by (Batches_list_query org workflow_id) = batches_list_query org workflow_id"

definition key_of :: "query \<Rightarrow> key_part list" where
  "key_of q = fst (asked_by q)"

definition calls :: "query \<Rightarrow> string option \<Rightarrow> api_call list" where
  "calls q = snd (asked_by q)"

lemmas asked_defs = key_of_def calls_def
  identity_query_def instance_query_def extension_version_query_def attention_query_def secrets_query_def
  auth_states_query_def run_query_def run_output_query_def run_workflow_query_def run_version_query_def artifact_query_def
  batch_query_def batch_output_query_def row_output_query_def workflow_query_def versions_query_def draft_diff_query_def
  draft_query_def version_document_query_def selector_drift_query_def preview_query_def workflow_runs_query_def
  schedule_query_def workflow_batches_query_def members_query_def invitations_query_def workflows_query_def
  runs_list_query_def schedules_list_query_def batches_list_query_def

text \<open>The Organization a query is for, where its key says so.\<close>

definition organization_of :: "query \<Rightarrow> string option" where
  "organization_of q = (case key_of q of [_] \<Rightarrow> None | _ # Named org # _ \<Rightarrow>
     (case q of Artifact_query _ _ \<Rightarrow> None | _ \<Rightarrow> Some org) | _ \<Rightarrow> None)"

text \<open>Whether a query is ever asked: not without the Version or the Run that it is about.\<close>

fun askable :: "query \<Rightarrow> bool" where
  "askable (Run_version_query _ _ version) \<longleftrightarrow> version \<noteq> None"
| "askable (Version_document_query _ _ version) \<longleftrightarrow> version \<noteq> None"
| "askable (Row_output_query _ run_id) \<longleftrightarrow> run_id \<noteq> None"
| "askable (Preview_query _ cron timezone) \<longleftrightarrow> trim cron \<noteq> [] \<and> timezone \<noteq> []"
| "askable _ \<longleftrightarrow> True"

text \<open>The downloads of an output: the call, and the name that the file is saved under.\<close>

datatype output_format = Json_format | Csv_format

fun format_word :: "output_format \<Rightarrow> string" where
  "format_word Json_format = ''json''"
| "format_word Csv_format = ''csv''"

definition output_filename :: "string \<Rightarrow> output_format \<Rightarrow> string" where
  "output_filename subject format = subject @ ''.'' @ format_word format"

definition download_run_output :: "string \<Rightarrow> output_format \<Rightarrow> api_call \<times> string" where
  "download_run_output run_id format =
     (of_run Get_run_output run_id [(''format'', Str (format_word format))], output_filename ''run'' format)"

definition download_batch_output :: "string \<Rightarrow> output_format \<Rightarrow> api_call \<times> string" where
  "download_batch_output batch_id format =
     (of_batch Get_batch_output batch_id [(''format'', Str (format_word format))], output_filename ''batch'' format)"

text \<open>What goes out for a call while an Organization is named: the method, the URL, the headers and the body.\<close>

definition request_of :: "string option \<Rightarrow> api_call \<Rightarrow> http_method \<times> string option \<times> headers \<times> string option" where
  "request_of named c =
     (method_of (ca_endpoint c), call_url (ca_endpoint c) (ca_path c) (Some (ca_query c)),
      organization_header named (call_headers (ca_endpoint c) [] (ca_body c)), request_body (ca_body c))"

definition requests :: "string option \<Rightarrow> query \<Rightarrow> string option \<Rightarrow> (http_method \<times> string option \<times> headers \<times> string option) list" where
  "requests named q cursor = map (request_of named) (calls q cursor)"

text \<open>The requests of a page that stands in the shell.\<close>

definition requests_in :: "shell \<Rightarrow> query \<Rightarrow> string option \<Rightarrow> (http_method \<times> string option \<times> headers \<times> string option) list" where
  "requests_in s q cursor = requests (named_organization (sh_cached s) (sh_storage s)) q cursor"

section \<open>What a key stands for\<close>

lemma choices_of_workflows:
  "[''q'' \<mapsto> q, ''sort'' \<mapsto> o1] = [''q'' \<mapsto> q', ''sort'' \<mapsto> o2] \<longleftrightarrow> q = q' \<and> o1 = o2"
proof
  assume eq: "[''q'' \<mapsto> q, ''sort'' \<mapsto> o1] = [''q'' \<mapsto> q', ''sort'' \<mapsto> o2]"
  show "q = q' \<and> o1 = o2" using fun_cong [OF eq, of "''q''"] fun_cong [OF eq, of "''sort''"] by simp
qed simp

lemma choice_of_workflow: "[''workflow_id'' \<mapsto> i] = [''workflow_id'' \<mapsto> j] \<longleftrightarrow> i = j"
proof
  assume eq: "[''workflow_id'' \<mapsto> i] = [''workflow_id'' \<mapsto> j]"
  show "i = j" using fun_cong [OF eq, of "''workflow_id''"] by simp
qed simp

text \<open>The word that a key begins with tells the queries apart.\<close>

fun rank :: "query \<Rightarrow> nat" where
  "rank Identity_query = 0"
| "rank Instance_query = 1"
| "rank Extension_version_query = 2"
| "rank Attention_query = 3"
| "rank Secrets_query = 4"
| "rank Auth_states_query = 5"
| "rank (Run_query _ _) = 6"
| "rank (Run_output_query _ _) = 7"
| "rank (Run_workflow_query _ _) = 8"
| "rank (Run_version_query _ _ _) = 9"
| "rank (Artifact_query _ _) = 10"
| "rank (Batch_query _ _) = 11"
| "rank (Batch_output_query _ _) = 12"
| "rank (Row_output_query _ _) = 13"
| "rank (Workflow_query _ _) = 14"
| "rank (Versions_query _ _) = 15"
| "rank (Draft_diff_query _ _) = 16"
| "rank (Draft_query _ _) = 17"
| "rank (Version_document_query _ _ _) = 18"
| "rank (Selector_drift_query _ _) = 19"
| "rank (Preview_query _ _ _) = 20"
| "rank (Workflow_runs_query _ _) = 21"
| "rank (Schedule_query _ _) = 22"
| "rank (Workflow_batches_query _ _) = 23"
| "rank (Members_query _) = 24"
| "rank (Invitations_query _) = 25"
| "rank (Workflows_query _ _ _) = 26"
| "rank (Runs_list_query _ _) = 27"
| "rank (Schedules_list_query _ _) = 28"
| "rank (Batches_list_query _ _) = 29"

definition topics :: "string list" where
  "topics =
     [''identity'', ''instance'', ''extension-version'', ''attention'', ''secrets'', ''auth-states'', ''run'',
      ''run-output'', ''run-workflow'', ''run-version'', ''artifact-location'', ''batch'', ''batch-output'',
      ''batch-row-output'', ''workflow'', ''workflow-versions'', ''workflow-draft-diff'', ''workflow-draft'',
      ''workflow-version'', ''workflow-selector-drift'', ''schedule-preview'', ''workflow-runs'', ''schedule'',
      ''workflow-batches'', ''members'', ''invitations'', ''workflows'', ''/api/runs'', ''/api/schedules'',
      ''/api/batches'']"

lemma key_begins: "rank q < length topics \<and> (\<exists>parts. key_of q = Named (topics ! rank q) # parts)"
  by (cases q) (simp_all add: asked_defs topics_def)

lemma distinct_topics: "distinct topics"
  by code_simp

lemma same_rank: "key_of q = key_of q' \<Longrightarrow> rank q = rank q'"
  using key_begins [of q] key_begins [of q'] nth_eq_iff_index_eq [OF distinct_topics, of "rank q" "rank q'"] by auto

text \<open>Queries of one rank are of one kind.\<close>

lemma same_kind:
  "rank q = rank q' \<Longrightarrow> key_of q = key_of q' \<longrightarrow> askable q \<longrightarrow> askable q' \<longrightarrow>
     calls q cursor = calls q' cursor \<and> organization_of q = organization_of q'"
  by (cases q; cases q'; simp only: rank.simps)
    (auto simp: asked_defs organization_of_def run_page_query_def schedule_page_query_def sent_filter_def choices_of_workflows
      choice_of_workflow version_call_def)

text \<open>Two queries that share a key ask the API for the same, of the same Organization: what is kept for one is never shown for another.\<close>

theorem keys_tell_queries_apart:
  assumes "key_of q = key_of q'" and "askable q" and "askable q'"
  shows "calls q cursor = calls q' cursor \<and> organization_of q = organization_of q'"
  using same_kind [OF same_rank [OF assms(1)], of cursor] assms by simp

section \<open>Answers and Organizations\<close>

lemma shown_is_named:
  assumes "in_step s" and "view s = Shows me act" and "sh_cached s \<noteq> None"
  shows "named_organization (sh_cached s) (sh_storage s) = map_option om_id act"
  using assms by (auto simp: in_step_def view_shows_iff named_organization_def)

text \<open>
  A cache: an answer is kept under the key of what was asked. Where equal keys are equal questions, whatever is kept under a key is
  the answer to the question of that key.
\<close>

definition keep :: "('q \<Rightarrow> 'k) \<Rightarrow> ('q \<Rightarrow> 'r) \<Rightarrow> ('r \<Rightarrow> 'a) \<Rightarrow> ('k \<rightharpoonup> 'a) \<Rightarrow> 'q \<Rightarrow> ('k \<rightharpoonup> 'a)" where
  "keep key ask answer m q = m(key q \<mapsto> answer (ask q))"

locale answer_cache =
  fixes key :: "'q \<Rightarrow> 'k" and ask :: "'q \<Rightarrow> 'r" and good :: "'q \<Rightarrow> bool"
  assumes key_ask: "good q \<Longrightarrow> good q' \<Longrightarrow> key q = key q' \<Longrightarrow> ask q = ask q'"
begin

definition coherent :: "('r \<Rightarrow> 'a) \<Rightarrow> ('k \<rightharpoonup> 'a) \<Rightarrow> bool" where
  "coherent answer m \<longleftrightarrow> (\<forall>k a. m k = Some a \<longrightarrow> (\<exists>q. good q \<and> key q = k \<and> a = answer (ask q)))"

lemma coherent_keep: "coherent answer m \<Longrightarrow> good q \<Longrightarrow> coherent answer (keep key ask answer m q)"
  by (auto simp: coherent_def keep_def)

lemma coherent_kept: "list_all good qs \<Longrightarrow> coherent answer m \<Longrightarrow> coherent answer (foldl (keep key ask answer) m qs)"
  by (induction qs arbitrary: m) (simp_all add: coherent_keep)

lemma kept_from:
  assumes "list_all good qs" and "foldl (keep key ask answer) Map.empty qs k = Some a"
  obtains q where "good q" and "key q = k" and "a = answer (ask q)"
  using coherent_kept [OF assms(1), of answer Map.empty] assms(2) by (auto simp: coherent_def)

lemma kept_answer:
  assumes "list_all good qs" and "good q" and "foldl (keep key ask answer) Map.empty qs (key q) = Some a"
  shows "a = answer (ask q)"
  using kept_from [OF assms(1,3)] key_ask assms(2) by metis

end

text \<open>A page that stands in the shell asks for the Organization that the shell shows.\<close>

definition page_asks :: "shell \<times> query \<Rightarrow> bool" where
  "page_asks p \<longleftrightarrow>
     (let (s, q) = p
      in in_step s \<and> sh_cached s \<noteq> None \<and> askable q \<and>
        (case view s of Shows _ (Some a) \<Rightarrow> organization_of q = Some (om_id a) | _ \<Rightarrow> False))"

lemma page_asks_iff:
  "page_asks (s, q) \<longleftrightarrow> in_step s \<and> sh_cached s \<noteq> None \<and> askable q \<and>
     (\<exists>me a. view s = Shows me (Some a) \<and> organization_of q = Some (om_id a))"
  by (auto simp: page_asks_def split: shell_view.splits option.splits)

definition asked_key :: "shell \<times> query \<Rightarrow> key_part list" where
  "asked_key p = key_of (snd p)"

definition asked_of :: "string option \<Rightarrow> shell \<times> query \<Rightarrow> (http_method \<times> string option \<times> headers \<times> string option) list" where
  "asked_of cursor p = requests_in (fst p) (snd p) cursor"

lemma page_asks_its_organization:
  assumes "page_asks p"
  shows "asked_of cursor p = requests (organization_of (snd p)) (snd p) cursor"
  using assms shown_is_named [of "fst p"]
  by (cases p) (auto simp: page_asks_iff asked_of_def requests_in_def)

interpretation pages: answer_cache asked_key "asked_of cursor" page_asks
proof
  fix p p' :: "shell \<times> query"
  assume good: "page_asks p" "page_asks p'" and key: "asked_key p = asked_key p'"
  then have "askable (snd p)" "askable (snd p')" by (cases p; cases p'; simp add: page_asks_iff)+
  then have "calls (snd p) cursor = calls (snd p') cursor" "organization_of (snd p) = organization_of (snd p')"
    using same_kind [OF same_rank, of "snd p" "snd p'" cursor] key by (simp_all add: asked_key_def)
  then show "asked_of cursor p = asked_of cursor p'"
    by (simp add: page_asks_its_organization good requests_def)
qed

text \<open>The answers that are kept after the pages have asked, in whatever states of the shell.\<close>

definition kept ::
    "((http_method \<times> string option \<times> headers \<times> string option) list \<Rightarrow> 'a) \<Rightarrow> string option \<Rightarrow> (shell \<times> query) list \<Rightarrow> (key_part list \<rightharpoonup> 'a)" where
  "kept answer cursor fetched = foldl (keep asked_key (asked_of cursor) answer) Map.empty fetched"



text \<open>The Secrets, the saved logins and the Runs that wait are kept under one key for every Organization: after a switch, what was
  asked of the one left is shown until the other answers.\<close>

theorem shared_keys_forget_the_organization:
  assumes "q \<in> {Secrets_query, Auth_states_query, Attention_query}" and "i \<noteq> j"
  shows "organization_of q = None \<and> requests (Some i) q cursor \<noteq> requests (Some j) q cursor"
proof -
  have "organization_header (Some i) hs \<noteq> organization_header (Some j) hs" for hs
  proof
    assume "organization_header (Some i) hs = organization_header (Some j) hs"
    then have "map_of (with_key ''x-organization'' i hs) ''x-organization'' = map_of (with_key ''x-organization'' j hs) ''x-organization''"
      by (simp only: organization_header_def option.simps)
    then show False using assms(2) by simp
  qed
  then show ?thesis
    using assms(1) by (auto simp: asked_defs organization_of_def requests_def request_of_def)
qed

theorem shared_keys_forget_the_organization_witness:
  "organization_of Secrets_query = None \<and> requests (Some ''o1'') Secrets_query None \<noteq> requests (Some ''o2'') Secrets_query None"
  by (rule shared_keys_forget_the_organization) simp_all

section \<open>What is asked\<close>

lemma texts_paths [simp]: "fills (Run_endpoint List_runs) p" "fills (Batch_endpoint List_batches) p"
  "fills (Schedule_endpoint List_all_schedules) p" "fills (Workflow_endpoint List_workflows) p"
  by (simp_all add: fills_def parameters_def api_route_def)

text \<open>Every query gives its calls a value for each parameter of their path, and only reads: each call is a GET without a body, but for the
  preview of a recurrence.\<close>

theorem queries_read:
  "\<forall>c \<in> set (calls q cursor). fills (ca_endpoint c) (ca_path c) \<and>
     (method_of (ca_endpoint c) = GET \<and> ca_body c = None \<or> ca_endpoint c = Schedule_endpoint Preview_schedule)"
  by (cases q)
    (auto simp: asked_defs fills_def parameters_def method_of_def api_route_def api_get_def of_workflow_def of_draft_def of_run_def of_batch_def
      version_call_def field_def split: option.splits)

end
