(* ===== verification/ApiShapes.thy ===== *)
theory ApiShapes
  imports ApiTypes
begin

text \<open>
  The types of the generated client (\<open>packages/api-client/src/generated/types.gen.ts\<close>) as values, and when a JSON value has such a
  type: what the API says that it takes and gives. A name of another type is that type's definition. As in TypeScript an
  object may have more fields than its type names.
\<close>

section \<open>Types\<close>

datatype ts_type =
    Ts_string
  | Ts_number
  | Ts_boolean
  | Ts_null
  | Ts_unknown
  | Ts_nothing
  | Ts_literal string
  | Ts_array ts_type
  | Ts_object "(string \<times> bool \<times> ts_type) list"
  | Ts_map ts_type
  | Ts_union "ts_type list"
  | Ts_both "ts_type list"

abbreviation needs :: "string \<Rightarrow> ts_type \<Rightarrow> string \<times> bool \<times> ts_type" where
  "needs k t \<equiv> (k, True, t)"

abbreviation may :: "string \<Rightarrow> ts_type \<Rightarrow> string \<times> bool \<times> ts_type" where
  "may k t \<equiv> (k, False, t)"

definition or_null :: "ts_type \<Rightarrow> ts_type" where
  "or_null t = Ts_union [t, Ts_null]"

definition one_of :: "string list \<Rightarrow> ts_type" where
  "one_of texts = Ts_union (map Ts_literal texts)"

text \<open>Whether a value has a type. A field that is absent reads as \<open>undefined\<close>; a number of JSON is no \<open>NaN\<close>.\<close>

fun conforms :: "ts_type \<Rightarrow> js \<Rightarrow> bool" where
  "conforms Ts_string v \<longleftrightarrow> (case v of Str _ \<Rightarrow> True | _ \<Rightarrow> False)"
| "conforms Ts_number v \<longleftrightarrow> (case v of Number (Num _) \<Rightarrow> True | _ \<Rightarrow> False)"
| "conforms Ts_boolean v \<longleftrightarrow> (case v of Bool _ \<Rightarrow> True | _ \<Rightarrow> False)"
| "conforms Ts_null v \<longleftrightarrow> v = Null"
| "conforms Ts_unknown v \<longleftrightarrow> True"
| "conforms Ts_nothing v \<longleftrightarrow> v = Undefined"
| "conforms (Ts_literal t) v \<longleftrightarrow> v = Str t"
| "conforms (Ts_array t) v \<longleftrightarrow> (case v of Arr xs \<Rightarrow> list_all (conforms t) xs | _ \<Rightarrow> False)"
| "conforms (Ts_object fs) v \<longleftrightarrow>
     (case v of
        Obj ob \<Rightarrow> list_all (\<lambda>(k, needed, t). \<not> needed \<and> field ob k = Undefined \<or> conforms t (field ob k)) fs
      | _ \<Rightarrow> False)"
| "conforms (Ts_map t) v \<longleftrightarrow> (case v of Obj ob \<Rightarrow> list_all (\<lambda>(_, x). conforms t x) ob | _ \<Rightarrow> False)"
| "conforms (Ts_union ts) v \<longleftrightarrow> list_ex (\<lambda>t. conforms t v) ts"
| "conforms (Ts_both ts) v \<longleftrightarrow> list_all (\<lambda>t. conforms t v) ts"

section \<open>The types of the API\<close>

definition role_shape :: "ts_type" where
  "role_shape = one_of [''owner'', ''admin'', ''member'']"

definition organization_membership_shape :: "ts_type" where
  "organization_membership_shape =
     Ts_object [needs ''id'' Ts_string, needs ''name'' Ts_string, needs ''role'' role_shape]"

definition offered_membership_shape :: "ts_type" where
  "offered_membership_shape =
     Ts_object [needs ''id'' Ts_string, needs ''org_name'' Ts_string, needs ''role'' role_shape]"

definition account_shape :: "ts_type" where
  "account_shape =
     Ts_object [needs ''id'' Ts_string, needs ''email'' Ts_string, needs ''display_name'' (or_null Ts_string),
       needs ''orgs'' (Ts_array organization_membership_shape),
       needs ''invitations'' (Ts_array offered_membership_shape)]"

definition account_deletion_shape :: "ts_type" where
  "account_deletion_shape = Ts_object [needs ''email_confirmation'' Ts_string]"

definition account_update_shape :: "ts_type" where
  "account_update_shape = Ts_object [may ''display_name'' (or_null Ts_string)]"

definition artifact_kind_shape :: "ts_type" where
  "artifact_kind_shape = one_of [''screenshot'', ''trace'', ''download'']"

definition artifact_location_shape :: "ts_type" where
  "artifact_location_shape = Ts_object [needs ''url'' Ts_string, needs ''expires_in_seconds'' Ts_number]"

definition artifact_record_shape :: "ts_type" where
  "artifact_record_shape =
     Ts_object [needs ''id'' Ts_string, needs ''step_id'' (or_null Ts_string), needs ''kind'' artifact_kind_shape,
       needs ''content_type'' Ts_string, needs ''size_bytes'' Ts_number, needs ''index'' Ts_number,
       needs ''created_at'' Ts_string, needs ''filename'' Ts_string]"

definition assignable_role_shape :: "ts_type" where
  "assignable_role_shape = one_of [''admin'', ''member'']"

definition run_status_shape :: "ts_type" where
  "run_status_shape =
     one_of [''queued'', ''running'', ''waiting_for_human'', ''succeeded'', ''failed'', ''cancelled'']"

definition attempt_record_shape :: "ts_type" where
  "attempt_record_shape =
     Ts_object [needs ''id'' Ts_string, needs ''status'' run_status_shape,
       needs ''failure_reason'' (or_null Ts_string), needs ''queued_at'' Ts_string,
       needs ''started_at'' (or_null Ts_string), needs ''ended_at'' (or_null Ts_string)]"

definition waiting_attention_shape :: "ts_type" where
  "waiting_attention_shape =
     Ts_object [needs ''run_id'' Ts_string, needs ''workflow_id'' Ts_string, needs ''workflow_name'' Ts_string,
       needs ''deadline_at'' Ts_string]"

definition attention_shape :: "ts_type" where
  "attention_shape =
     Ts_object [needs ''waiting'' (Ts_array waiting_attention_shape), needs ''waiting_count'' Ts_number,
       needs ''running_count'' Ts_number, needs ''queued_count'' Ts_number]"

definition auth_state_consent_scope_shape :: "ts_type" where
  "auth_state_consent_scope_shape = one_of [''organization'', ''personal'']"

definition auth_state_candidate_consent_shape :: "ts_type" where
  "auth_state_candidate_consent_shape = Ts_object [needs ''scope'' auth_state_consent_scope_shape]"

definition auth_state_candidate_record_shape :: "ts_type" where
  "auth_state_candidate_record_shape =
     Ts_object [needs ''domain'' Ts_string, needs ''consent'' (or_null auth_state_candidate_consent_shape)]"

definition cookie_shape :: "ts_type" where
  "cookie_shape =
     Ts_both [Ts_object [needs ''name'' Ts_string, needs ''value'' Ts_string, needs ''domain'' Ts_string,
       may ''path'' Ts_string, may ''expires'' (or_null Ts_number), may ''httpOnly'' Ts_boolean,
       may ''secure'' Ts_boolean, may ''sameSite'' (or_null Ts_string), may ''partitionKey'' (or_null Ts_unknown)],
       Ts_map Ts_unknown]"

definition storage_item_shape :: "ts_type" where
  "storage_item_shape = Ts_object [needs ''name'' Ts_string, needs ''value'' Ts_string]"

definition origin_storage_shape :: "ts_type" where
  "origin_storage_shape =
     Ts_object [needs ''origin'' Ts_string, needs ''local_storage'' (Ts_array storage_item_shape)]"

definition session_storage_shape :: "ts_type" where
  "session_storage_shape = Ts_object [needs ''origin'' Ts_string, needs ''items'' (Ts_array storage_item_shape)]"

definition auth_state_scope_shape :: "ts_type" where
  "auth_state_scope_shape = one_of [''organization'', ''personal'']"

definition auth_state_capture_shape :: "ts_type" where
  "auth_state_capture_shape =
     Ts_object [needs ''domain'' Ts_string, needs ''cookies'' (Ts_array cookie_shape),
       needs ''origins'' (Ts_array origin_storage_shape), needs ''session_storage'' (Ts_array session_storage_shape),
       needs ''scope'' auth_state_scope_shape]"

definition auth_state_captures_shape :: "ts_type" where
  "auth_state_captures_shape = Ts_object [needs ''captures'' (Ts_array auth_state_capture_shape)]"

definition auth_state_consent_request_shape :: "ts_type" where
  "auth_state_consent_request_shape =
     Ts_object [needs ''domain'' Ts_string, needs ''scope'' auth_state_consent_scope_shape]"

definition auth_state_hosts_shape :: "ts_type" where
  "auth_state_hosts_shape = Ts_object [needs ''hosts'' (Ts_array Ts_string)]"

definition auth_state_option_shape :: "ts_type" where
  "auth_state_option_shape =
     Ts_object [needs ''domain'' Ts_string, needs ''organization_saved_at'' (or_null Ts_string),
       needs ''personal_saved_at'' (or_null Ts_string)]"

definition auth_state_summary_shape :: "ts_type" where
  "auth_state_summary_shape =
     Ts_object [needs ''id'' Ts_string, needs ''domain'' Ts_string, needs ''scope'' auth_state_scope_shape,
       needs ''created_at'' Ts_string, needs ''updated_at'' Ts_string]"

definition batch_created_shape :: "ts_type" where
  "batch_created_shape = Ts_object [needs ''batch_id'' Ts_string]"

definition batch_record_shape :: "ts_type" where
  "batch_record_shape =
     Ts_object [needs ''id'' Ts_string, needs ''name'' Ts_string, needs ''workflow_id'' Ts_string,
       needs ''created_at'' Ts_string, needs ''cancelled_at'' (or_null Ts_string)]"

definition batch_row_status_shape :: "ts_type" where
  "batch_row_status_shape = one_of [''queued'', ''running'', ''succeeded'', ''failed'', ''skipped'', ''cancelled'']"

definition batch_row_record_shape :: "ts_type" where
  "batch_row_record_shape =
     Ts_object [needs ''index'' Ts_number, needs ''variables'' (Ts_map Ts_unknown),
       needs ''status'' batch_row_status_shape, needs ''latest_run_id'' (or_null Ts_string),
       needs ''runs'' (Ts_array attempt_record_shape)]"

definition batch_stats_shape :: "ts_type" where
  "batch_stats_shape =
     Ts_object [needs ''queued'' Ts_number, needs ''running'' Ts_number, needs ''succeeded'' Ts_number,
       needs ''failed'' Ts_number, needs ''skipped'' Ts_number, needs ''cancelled'' Ts_number]"

definition batch_detail_shape :: "ts_type" where
  "batch_detail_shape =
     Ts_object [needs ''batch'' batch_record_shape, needs ''rows'' (Ts_array batch_row_record_shape),
       needs ''stats'' batch_stats_shape, may ''eta_seconds'' (or_null Ts_number)]"

definition batch_summary_shape :: "ts_type" where
  "batch_summary_shape =
     Ts_object [needs ''id'' Ts_string, needs ''name'' Ts_string, needs ''workflow_id'' Ts_string,
       needs ''created_at'' Ts_string, needs ''cancelled_at'' (or_null Ts_string), needs ''row_count'' Ts_number,
       needs ''stats'' batch_stats_shape]"

definition batch_page_shape :: "ts_type" where
  "batch_page_shape =
     Ts_object [needs ''items'' (Ts_array batch_summary_shape), may ''next_cursor'' (or_null Ts_string)]"

definition batch_row_input_shape :: "ts_type" where
  "batch_row_input_shape = Ts_object [may ''variables'' (Ts_map Ts_unknown)]"

definition candidate_kind_shape :: "ts_type" where
  "candidate_kind_shape =
     one_of [''testid'', ''role'', ''placeholder'', ''label'', ''alt'', ''text'', ''title'', ''css'']"

definition change_schedule_shape :: "ts_type" where
  "change_schedule_shape =
     Ts_object [may ''cron'' (or_null Ts_string), may ''timezone'' (or_null Ts_string),
       may ''enabled'' (or_null Ts_boolean), may ''variables'' (or_null (Ts_map Ts_unknown)),
       may ''name'' (or_null Ts_string)]"

definition change_secret_shape :: "ts_type" where
  "change_secret_shape = Ts_object [may ''name'' (or_null Ts_string), may ''value'' (or_null Ts_string)]"

definition checkpoint_shape :: "ts_type" where
  "checkpoint_shape = Ts_object [needs ''seq'' Ts_number, needs ''steps'' (Ts_array (Ts_map Ts_unknown))]"

definition selector_candidate_shape :: "ts_type" where
  "selector_candidate_shape =
     Ts_object [needs ''kind'' candidate_kind_shape, needs ''value'' Ts_string,
       may ''shadowPath'' (or_null (Ts_array Ts_string))]"

definition frame_hop_shape :: "ts_type" where
  "frame_hop_shape =
     Ts_object [needs ''index'' Ts_number, may ''name'' (or_null Ts_string), may ''url'' (or_null Ts_string)]"

definition unsupported_reason_shape :: "ts_type" where
  "unsupported_reason_shape = one_of [''closed-shadow-root'', ''cross-origin-frame'']"

definition unsupported_shape :: "ts_type" where
  "unsupported_shape = Ts_object [needs ''reason'' unsupported_reason_shape, needs ''warning'' Ts_string]"

definition target_shape :: "ts_type" where
  "target_shape =
     Ts_object [needs ''candidates'' (Ts_array selector_candidate_shape),
       may ''frame'' (or_null (Ts_array frame_hop_shape)), may ''unsupported'' (or_null unsupported_shape)]"

definition click_payload_shape :: "ts_type" where
  "click_payload_shape = Ts_object [needs ''target'' target_shape, may ''assertedNavigation'' Ts_boolean]"

definition click_step_shape :: "ts_type" where
  "click_step_shape =
     Ts_object [needs ''id'' Ts_string, needs ''label'' Ts_string, may ''optional'' Ts_boolean,
       may ''disabled'' Ts_boolean, may ''screenshot'' Ts_boolean, may ''timeoutMs'' (or_null Ts_number),
       needs ''type'' (Ts_literal ''click''), needs ''payload'' click_payload_shape]"

definition code_request_shape :: "ts_type" where
  "code_request_shape = Ts_object [needs ''email'' Ts_string]"

definition connect_code_shape :: "ts_type" where
  "connect_code_shape = Ts_object [needs ''code'' Ts_string, needs ''expires_at'' Ts_string]"

definition connect_request_shape :: "ts_type" where
  "connect_request_shape = Ts_object [needs ''code'' Ts_string]"

definition connected_shape :: "ts_type" where
  "connected_shape = Ts_map Ts_unknown"

definition run_control_kind_shape :: "ts_type" where
  "run_control_kind_shape = one_of [''automation'', ''waiting'', ''human'', ''verifying'']"

definition control_interval_record_shape :: "ts_type" where
  "control_interval_record_shape =
     Ts_object [needs ''id'' Ts_string, needs ''kind'' run_control_kind_shape, needs ''started_at'' Ts_string,
       needs ''ended_at'' (or_null Ts_string)]"

definition create_batch_shape :: "ts_type" where
  "create_batch_shape =
     Ts_object [needs ''name'' Ts_string, may ''rows'' (Ts_array batch_row_input_shape),
       may ''run_incomplete_rows'' Ts_boolean]"

definition create_schedule_shape :: "ts_type" where
  "create_schedule_shape =
     Ts_object [needs ''cron'' Ts_string, needs ''timezone'' Ts_string, needs ''enabled'' Ts_boolean,
       may ''variables'' (Ts_map Ts_unknown), may ''name'' (or_null Ts_string)]"

definition create_secret_shape :: "ts_type" where
  "create_secret_shape = Ts_object [needs ''name'' Ts_string, needs ''value'' Ts_string]"

definition download_payload_shape :: "ts_type" where
  "download_payload_shape = Ts_object [needs ''target'' target_shape]"

definition download_step_shape :: "ts_type" where
  "download_step_shape =
     Ts_object [needs ''id'' Ts_string, needs ''label'' Ts_string, may ''optional'' Ts_boolean,
       may ''disabled'' Ts_boolean, may ''screenshot'' Ts_boolean, may ''timeoutMs'' (or_null Ts_number),
       needs ''type'' (Ts_literal ''download''), needs ''payload'' download_payload_shape]"

definition step_ref_shape :: "ts_type" where
  "step_ref_shape = Ts_object [needs ''id'' Ts_string, needs ''label'' Ts_string]"

definition draft_state_shape :: "ts_type" where
  "draft_state_shape = one_of [''never-published'', ''unpublished-changes'', ''in-sync'']"

definition stranded_schedule_ref_shape :: "ts_type" where
  "stranded_schedule_ref_shape =
     Ts_object [needs ''id'' Ts_string, needs ''name'' (or_null Ts_string), needs ''cron'' Ts_string]"

definition draft_comparison_shape :: "ts_type" where
  "draft_comparison_shape =
     Ts_object [needs ''added'' (Ts_array step_ref_shape), needs ''changed'' (Ts_array step_ref_shape),
       needs ''removed'' (Ts_array step_ref_shape), needs ''state'' draft_state_shape,
       needs ''latest_version'' (or_null Ts_number),
       needs ''stranded_schedules'' (Ts_array stranded_schedule_ref_shape)]"

definition duration_wait_payload_shape :: "ts_type" where
  "duration_wait_payload_shape = Ts_object [needs ''mode'' (Ts_literal ''duration''), needs ''durationMs'' Ts_number]"

definition element_wait_payload_shape :: "ts_type" where
  "element_wait_payload_shape = Ts_object [needs ''mode'' (Ts_literal ''element''), needs ''target'' target_shape]"

definition error_body_shape :: "ts_type" where
  "error_body_shape = Ts_object [needs ''code'' Ts_string, needs ''message'' Ts_string]"

definition extension_version_shape :: "ts_type" where
  "extension_version_shape = Ts_object [needs ''current'' Ts_string, needs ''minimum_supported'' Ts_string]"

definition extract_field_shape :: "ts_type" where
  "extract_field_shape =
     Ts_object [needs ''name'' Ts_string, needs ''subSelector'' Ts_string, may ''attribute'' (or_null Ts_string)]"

definition scalar_extract_payload_shape :: "ts_type" where
  "scalar_extract_payload_shape =
     Ts_object [needs ''target'' target_shape, needs ''outputName'' Ts_string,
       needs ''mode'' (Ts_literal ''scalar''), may ''attribute'' (or_null Ts_string)]"

definition list_extract_payload_shape :: "ts_type" where
  "list_extract_payload_shape =
     Ts_object [needs ''target'' target_shape, needs ''outputName'' Ts_string, needs ''mode'' (Ts_literal ''list''),
       needs ''fields'' (Ts_array extract_field_shape)]"

definition extract_step_shape :: "ts_type" where
  "extract_step_shape =
     Ts_object [needs ''id'' Ts_string, needs ''label'' Ts_string, may ''optional'' Ts_boolean,
       may ''disabled'' Ts_boolean, may ''screenshot'' Ts_boolean, may ''timeoutMs'' (or_null Ts_number),
       needs ''type'' (Ts_literal ''extract''),
       needs ''payload'' (Ts_union [Ts_both [Ts_object [needs ''mode'' (Ts_literal ''scalar'')],
       scalar_extract_payload_shape], Ts_both [Ts_object [needs ''mode'' (Ts_literal ''list'')],
       list_extract_payload_shape]])]"

definition failure_reason_shape :: "ts_type" where
  "failure_reason_shape =
     one_of [''step_failed'', ''auth_challenge'', ''takeover_timeout'', ''takeover_abandoned'', ''run_timeout'',
       ''worker_lost'', ''missing_secret'', ''startup_failed'']"

definition fill_result_shape :: "ts_type" where
  "fill_result_shape = Ts_object [needs ''updated_count'' Ts_number]"

definition fill_rows_shape :: "ts_type" where
  "fill_rows_shape = Ts_object [needs ''name'' Ts_string, needs ''value'' Ts_unknown]"

definition finalize_request_shape :: "ts_type" where
  "finalize_request_shape =
     Ts_object [may ''steps'' (or_null (Ts_array (Ts_map Ts_unknown))),
       may ''variables'' (or_null (Ts_array (Ts_map Ts_unknown))),
       may ''candidates'' (or_null (Ts_array selector_candidate_shape))]"

definition greeting_shape :: "ts_type" where
  "greeting_shape = Ts_object [needs ''message'' Ts_string]"

definition validation_error_shape :: "ts_type" where
  "validation_error_shape =
     Ts_object [needs ''loc'' (Ts_array (Ts_union [Ts_string, Ts_number])), needs ''msg'' Ts_string,
       needs ''type'' Ts_string, may ''input'' Ts_unknown, may ''ctx'' (Ts_map Ts_unknown)]"

definition http_validation_error_shape :: "ts_type" where
  "http_validation_error_shape = Ts_object [may ''detail'' (Ts_array validation_error_shape)]"

definition health_shape :: "ts_type" where
  "health_shape = Ts_object [needs ''status'' Ts_string]"

definition signup_mode_shape :: "ts_type" where
  "signup_mode_shape = one_of [''open'', ''invite_only'']"

definition instance_shape :: "ts_type" where
  "instance_shape = Ts_object [needs ''signup_mode'' signup_mode_shape, needs ''default_timezone'' Ts_string]"

definition invitation_request_shape :: "ts_type" where
  "invitation_request_shape = Ts_object [needs ''email'' Ts_string, needs ''role'' assignable_role_shape]"

definition last_run_shape :: "ts_type" where
  "last_run_shape =
     Ts_object [needs ''id'' Ts_string, needs ''status'' run_status_shape, needs ''finished_at'' (or_null Ts_string)]"

definition last_run_record_shape :: "ts_type" where
  "last_run_record_shape =
     Ts_object [needs ''id'' Ts_string, needs ''status'' run_status_shape,
       may ''failure_reason'' (or_null failure_reason_shape), may ''ended_at'' (or_null Ts_string)]"

definition log_level_shape :: "ts_type" where
  "log_level_shape = one_of [''debug'', ''info'', ''warning'', ''error'']"

definition log_line_shape :: "ts_type" where
  "log_line_shape =
     Ts_object [needs ''seq'' Ts_number, needs ''step_id'' (or_null Ts_string), needs ''level'' log_level_shape,
       needs ''text'' Ts_string, needs ''at'' Ts_string]"

definition member_shape :: "ts_type" where
  "member_shape =
     Ts_object [needs ''user_id'' Ts_string, needs ''email'' Ts_string, needs ''display_name'' (or_null Ts_string),
       needs ''role'' role_shape, needs ''joined_at'' Ts_string]"

definition recording_mode_shape :: "ts_type" where
  "recording_mode_shape = one_of [''record'', ''repick'']"

definition mint_request_shape :: "ts_type" where
  "mint_request_shape =
     Ts_object [may ''session_id'' (or_null Ts_string), may ''mode'' recording_mode_shape,
       may ''step_id'' (or_null Ts_string)]"

definition minted_session_shape :: "ts_type" where
  "minted_session_shape = Ts_object [needs ''session_id'' Ts_string, needs ''token'' Ts_string]"

definition navigate_payload_shape :: "ts_type" where
  "navigate_payload_shape = Ts_object [needs ''url'' Ts_string]"

definition navigate_step_shape :: "ts_type" where
  "navigate_step_shape =
     Ts_object [needs ''id'' Ts_string, needs ''label'' Ts_string, may ''optional'' Ts_boolean,
       may ''disabled'' Ts_boolean, may ''screenshot'' Ts_boolean, may ''timeoutMs'' (or_null Ts_number),
       needs ''type'' (Ts_literal ''navigate''), needs ''payload'' navigate_payload_shape]"

definition occurrence_history_entry_shape :: "ts_type" where
  "occurrence_history_entry_shape =
     Ts_object [may ''kind'' (Ts_literal ''occurrence''), needs ''at'' Ts_string,
       needs ''reason'' (one_of [''overlap'', ''missed'', ''missing_values'']),
       may ''blocking_run_id'' (or_null Ts_string)]"

definition occurrence_record_shape :: "ts_type" where
  "occurrence_record_shape =
     Ts_object [needs ''occurrence_at'' Ts_string, needs ''reason'' (one_of [''overlap'', ''missed'',
       ''missing_values'']), may ''blocking_run_id'' (or_null Ts_string)]"

definition organization_deletion_shape :: "ts_type" where
  "organization_deletion_shape = Ts_object [needs ''name_confirmation'' Ts_string]"

definition organization_request_shape :: "ts_type" where
  "organization_request_shape = Ts_object [needs ''name'' Ts_string]"

definition override_summary_shape :: "ts_type" where
  "override_summary_shape = Ts_object [needs ''updated_at'' Ts_string]"

definition override_value_shape :: "ts_type" where
  "override_value_shape = Ts_object [needs ''value'' Ts_string]"

definition ownership_transfer_shape :: "ts_type" where
  "ownership_transfer_shape = Ts_object [needs ''user_id'' Ts_string]"

definition pending_invitation_shape :: "ts_type" where
  "pending_invitation_shape =
     Ts_object [needs ''id'' Ts_string, needs ''email'' Ts_string, needs ''role'' role_shape,
       needs ''created_at'' Ts_string, needs ''expires_at'' Ts_string]"

definition preview_request_shape :: "ts_type" where
  "preview_request_shape =
     Ts_object [needs ''cron'' Ts_string, needs ''timezone'' Ts_string, may ''from'' (or_null Ts_string)]"

definition preview_result_shape :: "ts_type" where
  "preview_result_shape = Ts_object [needs ''next_occurrences'' (Ts_array Ts_string)]"

definition rerun_created_shape :: "ts_type" where
  "rerun_created_shape = Ts_object [needs ''run_id'' Ts_string]"

definition revealed_value_shape :: "ts_type" where
  "revealed_value_shape = Ts_object [needs ''value'' Ts_string]"

definition role_change_shape :: "ts_type" where
  "role_change_shape = Ts_object [needs ''role'' assignable_role_shape]"

definition run_created_shape :: "ts_type" where
  "run_created_shape = Ts_object [needs ''run_id'' Ts_string]"

definition run_trigger_shape :: "ts_type" where
  "run_trigger_shape = one_of [''manual'', ''schedule'', ''batch'', ''test'']"

definition run_record_shape :: "ts_type" where
  "run_record_shape =
     Ts_object [needs ''id'' Ts_string, needs ''workflow_id'' Ts_string,
       needs ''version_number'' (or_null Ts_number), needs ''draft_snapshot'' (or_null (Ts_map Ts_unknown)),
       needs ''is_test'' Ts_boolean, needs ''trigger'' run_trigger_shape, needs ''status'' run_status_shape,
       needs ''failure_reason'' (or_null failure_reason_shape), needs ''failure_detail'' (or_null Ts_string),
       needs ''variables'' (Ts_map Ts_unknown), needs ''timeout_ms'' Ts_number,
       needs ''worker_id'' (or_null Ts_string), needs ''worker_vnc_endpoint'' (or_null Ts_string),
       needs ''heartbeat_at'' (or_null Ts_string), needs ''cancel_requested_at'' (or_null Ts_string),
       needs ''pause_requested_at'' (or_null Ts_string), needs ''takeover_deadline_at'' (or_null Ts_string),
       needs ''auto_handback_disabled'' Ts_boolean, needs ''queued_at'' Ts_string,
       needs ''started_at'' (or_null Ts_string), needs ''ended_at'' (or_null Ts_string),
       needs ''automation_ms'' Ts_number]"

definition step_result_status_shape :: "ts_type" where
  "step_result_status_shape = one_of [''passed'', ''failed'', ''skipped'']"

definition step_result_record_shape :: "ts_type" where
  "step_result_record_shape =
     Ts_object [needs ''id'' Ts_string, needs ''step_id'' Ts_string, needs ''position'' Ts_number,
       needs ''status'' step_result_status_shape, needs ''started_at'' (or_null Ts_string),
       needs ''ended_at'' (or_null Ts_string), needs ''matched_candidate_rank'' (or_null Ts_number),
       needs ''candidate_count'' (or_null Ts_number), needs ''completed_by_human'' Ts_boolean,
       needs ''error_code'' (or_null Ts_string), needs ''error_message'' (or_null Ts_string),
       needs ''diagnostics'' (or_null (Ts_map Ts_unknown)), needs ''extracted_value'' (or_null Ts_unknown)]"

definition run_detail_shape :: "ts_type" where
  "run_detail_shape =
     Ts_object [needs ''run'' run_record_shape, needs ''step_results'' (Ts_array step_result_record_shape),
       needs ''control_intervals'' (Ts_array control_interval_record_shape),
       needs ''artifacts'' (Ts_array artifact_record_shape), needs ''batch_row'' (or_null (Ts_map Ts_unknown)),
       needs ''auth_state_candidates'' (Ts_array auth_state_candidate_record_shape)]"

definition run_history_entry_shape :: "ts_type" where
  "run_history_entry_shape =
     Ts_object [may ''kind'' (Ts_literal ''run''), needs ''at'' Ts_string, needs ''run_id'' Ts_string,
       needs ''status'' run_status_shape, may ''failure_reason'' (or_null failure_reason_shape)]"

definition run_now_result_shape :: "ts_type" where
  "run_now_result_shape = Ts_object [needs ''run_id'' Ts_string]"

definition run_summary_shape :: "ts_type" where
  "run_summary_shape =
     Ts_object [needs ''id'' Ts_string, needs ''workflow_id'' Ts_string, needs ''workflow_name'' Ts_string,
       needs ''version_number'' (or_null Ts_number), needs ''trigger'' run_trigger_shape,
       needs ''status'' run_status_shape, needs ''failure_reason'' (or_null failure_reason_shape),
       needs ''variables'' (Ts_map Ts_unknown), needs ''queued_at'' Ts_string,
       needs ''started_at'' (or_null Ts_string), needs ''ended_at'' (or_null Ts_string)]"

definition run_page_shape :: "ts_type" where
  "run_page_shape = Ts_object [needs ''items'' (Ts_array run_summary_shape), may ''next_cursor'' (or_null Ts_string)]"

definition schedule_summary_shape :: "ts_type" where
  "schedule_summary_shape =
     Ts_object [needs ''id'' Ts_string, needs ''workflow_id'' Ts_string, needs ''workflow_name'' Ts_string,
       needs ''name'' (or_null Ts_string), needs ''cron'' Ts_string, needs ''timezone'' Ts_string,
       needs ''enabled'' Ts_boolean, needs ''variables'' (Ts_map Ts_unknown), needs ''state'' (one_of [''active'',
       ''paused'', ''needs_values'']), needs ''missing_variable_names'' (Ts_array Ts_string),
       needs ''last_fired_at'' (or_null Ts_string), needs ''next_due_at'' (or_null Ts_string),
       needs ''last_run'' (or_null last_run_record_shape),
       needs ''latest_occurrence'' (or_null occurrence_record_shape)]"

definition schedule_detail_shape :: "ts_type" where
  "schedule_detail_shape =
     Ts_object [needs ''schedule'' schedule_summary_shape, needs ''next_occurrences'' (Ts_array Ts_string),
       needs ''history'' (Ts_array (Ts_union [run_history_entry_shape, occurrence_history_entry_shape])),
       needs ''last_run'' (or_null last_run_record_shape)]"

definition schedule_page_shape :: "ts_type" where
  "schedule_page_shape =
     Ts_object [needs ''items'' (Ts_array schedule_summary_shape), may ''next_cursor'' (or_null Ts_string)]"

definition secret_identity_shape :: "ts_type" where
  "secret_identity_shape = Ts_object [needs ''id'' Ts_string, needs ''name'' Ts_string]"

definition secret_usage_shape :: "ts_type" where
  "secret_usage_shape = Ts_object [needs ''workflow_id'' Ts_string, needs ''workflow_name'' Ts_string]"

definition secret_summary_shape :: "ts_type" where
  "secret_summary_shape =
     Ts_object [needs ''id'' Ts_string, needs ''name'' Ts_string, needs ''updated_at'' Ts_string,
       needs ''used_by'' (Ts_array secret_usage_shape), needs ''my_override'' (or_null override_summary_shape)]"

definition select_payload_shape :: "ts_type" where
  "select_payload_shape = Ts_object [needs ''target'' target_shape, needs ''value'' Ts_string]"

definition select_step_shape :: "ts_type" where
  "select_step_shape =
     Ts_object [needs ''id'' Ts_string, needs ''label'' Ts_string, may ''optional'' Ts_boolean,
       may ''disabled'' Ts_boolean, may ''screenshot'' Ts_boolean, may ''timeoutMs'' (or_null Ts_number),
       needs ''type'' (Ts_literal ''select''), needs ''payload'' select_payload_shape]"

definition selector_drift_shape :: "ts_type" where
  "selector_drift_shape = Ts_object [needs ''drifted_step_ids'' (Ts_array Ts_string)]"

definition signed_in_shape :: "ts_type" where
  "signed_in_shape = Ts_object [needs ''created'' Ts_boolean]"

definition start_run_shape :: "ts_type" where
  "start_run_shape = Ts_object [may ''variables'' (Ts_map Ts_unknown), may ''test'' Ts_boolean]"

definition stream_ticket_shape :: "ts_type" where
  "stream_ticket_shape =
     Ts_object [needs ''ticket'' Ts_string, needs ''ws_url'' Ts_string, needs ''expires_at'' Ts_string]"

definition takeover_hold_shape :: "ts_type" where
  "takeover_hold_shape = Ts_object [needs ''auto_handback'' Ts_boolean]"

definition takeover_payload_shape :: "ts_type" where
  "takeover_payload_shape =
     Ts_object [may ''message'' (or_null Ts_string), may ''timeoutMs'' (or_null Ts_number),
       may ''successCheck'' (or_null target_shape)]"

definition takeover_step_shape :: "ts_type" where
  "takeover_step_shape =
     Ts_object [needs ''id'' Ts_string, needs ''label'' Ts_string, may ''optional'' Ts_boolean,
       may ''disabled'' Ts_boolean, may ''screenshot'' Ts_boolean, may ''timeoutMs'' (or_null Ts_number),
       needs ''type'' (Ts_literal ''pause-for-takeover''), needs ''payload'' takeover_payload_shape]"

definition takeover_ticket_shape :: "ts_type" where
  "takeover_ticket_shape =
     Ts_object [needs ''ticket'' Ts_string, needs ''ws_url'' Ts_string, needs ''expires_at'' Ts_string,
       needs ''deadline_at'' (or_null Ts_string)]"

definition type_payload_shape :: "ts_type" where
  "type_payload_shape = Ts_object [needs ''target'' target_shape, needs ''value'' Ts_string]"

definition type_step_shape :: "ts_type" where
  "type_step_shape =
     Ts_object [needs ''id'' Ts_string, needs ''label'' Ts_string, may ''optional'' Ts_boolean,
       may ''disabled'' Ts_boolean, may ''screenshot'' Ts_boolean, may ''timeoutMs'' (or_null Ts_number),
       needs ''type'' (Ts_literal ''type''), needs ''payload'' type_payload_shape]"

definition variable_shape :: "ts_type" where
  "variable_shape =
     Ts_object [needs ''name'' Ts_string, may ''secret'' Ts_boolean, may ''secretId'' (or_null Ts_string),
       may ''secretName'' (or_null Ts_string)]"

definition verification_request_shape :: "ts_type" where
  "verification_request_shape = Ts_object [needs ''email'' Ts_string, needs ''code'' Ts_string]"

definition version_summary_shape :: "ts_type" where
  "version_summary_shape = Ts_object [needs ''number'' Ts_number, needs ''created_at'' Ts_string]"

definition wait_step_shape :: "ts_type" where
  "wait_step_shape =
     Ts_object [needs ''id'' Ts_string, needs ''label'' Ts_string, may ''optional'' Ts_boolean,
       may ''disabled'' Ts_boolean, may ''screenshot'' Ts_boolean, may ''timeoutMs'' (or_null Ts_number),
       needs ''type'' (Ts_literal ''wait''),
       needs ''payload'' (Ts_union [Ts_both [Ts_object [needs ''mode'' (Ts_literal ''duration'')],
       duration_wait_payload_shape], Ts_both [Ts_object [needs ''mode'' (Ts_literal ''element'')],
       element_wait_payload_shape]])]"

definition workflow_creation_shape :: "ts_type" where
  "workflow_creation_shape = Ts_object [needs ''name'' Ts_string]"

definition workflow_document_shape :: "ts_type" where
  "workflow_document_shape =
     Ts_object [may ''steps'' (Ts_array (Ts_union [navigate_step_shape, click_step_shape, type_step_shape,
       select_step_shape, download_step_shape, extract_step_shape, wait_step_shape, takeover_step_shape])),
       may ''variables'' (Ts_array variable_shape)]"

definition workflow_named_shape :: "ts_type" where
  "workflow_named_shape = Ts_object [needs ''id'' Ts_string, needs ''name'' Ts_string]"

definition workflow_summary_shape :: "ts_type" where
  "workflow_summary_shape =
     Ts_object [needs ''id'' Ts_string, needs ''name'' Ts_string, needs ''created_at'' Ts_string,
       needs ''last_activity_at'' Ts_string, needs ''draft_state'' draft_state_shape,
       may ''published_version'' (or_null Ts_number), needs ''default_step_timeout_ms'' Ts_number,
       may ''last_run'' (or_null last_run_shape), needs ''schedule_count'' Ts_number,
       may ''schedule_label'' (or_null Ts_string), may ''recent_run_median_ms'' (or_null Ts_number),
       needs ''run_count'' Ts_number]"

definition workflow_page_shape :: "ts_type" where
  "workflow_page_shape =
     Ts_object [needs ''items'' (Ts_array workflow_summary_shape), may ''next_cursor'' (or_null Ts_string)]"

definition workflow_record_shape :: "ts_type" where
  "workflow_record_shape =
     Ts_object [needs ''id'' Ts_string, needs ''name'' Ts_string, needs ''default_step_timeout_ms'' Ts_number,
       needs ''takeover_timeout_ms'' Ts_number, needs ''created_at'' Ts_string]"

definition workflow_rename_shape :: "ts_type" where
  "workflow_rename_shape = Ts_object [needs ''name'' Ts_string]"

definition workflow_sort_shape :: "ts_type" where
  "workflow_sort_shape = one_of [''activity'', ''name'', ''created'']"


section \<open>The model's documents as JSON\<close>

text \<open>
  A document of a Workflow, as theory ApiTypes has it, is the value that goes over the wire: a field that may be
  absent is left out.
\<close>

definition given :: "string \<Rightarrow> ('a \<Rightarrow> js) \<Rightarrow> 'a option \<Rightarrow> fields" where
  "given k f x = (case x of None \<Rightarrow> [] | Some v \<Rightarrow> [(k, f v)])"

definition given_or_null :: "string \<Rightarrow> ('a \<Rightarrow> js) \<Rightarrow> 'a opt_field \<Rightarrow> fields" where
  "given_or_null k f x = (case x of Absent \<Rightarrow> [] | Nulled \<Rightarrow> [(k, Null)] | Given v \<Rightarrow> [(k, f v)])"

abbreviation (input) whole :: "int \<Rightarrow> js" where
  "whole n \<equiv> Number (Num n)"

fun kind_word :: "candidate_kind \<Rightarrow> string" where
  "kind_word Kind_testid = ''testid''"
| "kind_word Kind_role = ''role''"
| "kind_word Kind_placeholder = ''placeholder''"
| "kind_word Kind_label = ''label''"
| "kind_word Kind_alt = ''alt''"
| "kind_word Kind_text = ''text''"
| "kind_word Kind_title = ''title''"
| "kind_word Kind_css = ''css''"

fun reason_word :: "unsupported_reason \<Rightarrow> string" where
  "reason_word Closed_shadow_root = ''closed-shadow-root''"
| "reason_word Cross_origin_frame = ''cross-origin-frame''"

definition candidate_json :: "selector_candidate \<Rightarrow> js" where
  "candidate_json c =
     Obj ([(''kind'', Str (kind_word (sc_kind c))), (''value'', Str (sc_value c))] @
       given ''shadowPath'' (Arr \<circ> map Str) (sc_shadow_path c))"

definition hop_json :: "frame_hop \<Rightarrow> js" where
  "hop_json h = Obj ([(''index'', whole (fh_index h))] @ given ''name'' Str (fh_name h) @ given ''url'' Str (fh_url h))"

definition unsupported_json :: "unsupported \<Rightarrow> js" where
  "unsupported_json u = Obj [(''reason'', Str (reason_word (un_reason u))), (''warning'', Str (un_warning u))]"

definition target_json :: "target \<Rightarrow> js" where
  "target_json t =
     Obj ([(''candidates'', Arr (map candidate_json (tg_candidates t)))] @
       given ''frame'' (Arr \<circ> map hop_json) (tg_frame t) @ given ''unsupported'' unsupported_json (tg_unsupported t))"

definition extract_field_json :: "extract_field \<Rightarrow> js" where
  "extract_field_json f =
     Obj ([(''name'', Str (xf_name f)), (''subSelector'', Str (xf_sub_selector f))] @
       given ''attribute'' Str (xf_attribute f))"

fun step_type :: "step_payload \<Rightarrow> string" where
  "step_type (P_navigate _) = ''navigate''"
| "step_type (P_click _ _) = ''click''"
| "step_type (P_type _ _) = ''type''"
| "step_type (P_select _ _) = ''select''"
| "step_type (P_download _) = ''download''"
| "step_type (P_extract _) = ''extract''"
| "step_type (P_wait _) = ''wait''"
| "step_type (P_pause _) = ''pause-for-takeover''"

fun payload_json :: "step_payload \<Rightarrow> js" where
  "payload_json (P_navigate url) = Obj [(''url'', Str url)]"
| "payload_json (P_click t asserted) = Obj ([(''target'', target_json t)] @ given ''assertedNavigation'' Bool asserted)"
| "payload_json (P_type t v) = Obj [(''target'', target_json t), (''value'', Str v)]"
| "payload_json (P_select t v) = Obj [(''target'', target_json t), (''value'', Str v)]"
| "payload_json (P_download t) = Obj [(''target'', target_json t)]"
| "payload_json (P_extract (Scalar_extract t output attribute)) =
     Obj ([(''target'', target_json t), (''outputName'', Str output), (''mode'', Str ''scalar'')] @
       given_or_null ''attribute'' Str attribute)"
| "payload_json (P_extract (List_extract t output fs)) =
     Obj [(''target'', target_json t), (''outputName'', Str output), (''mode'', Str ''list''),
       (''fields'', Arr (map extract_field_json fs))]"
| "payload_json (P_wait (Duration_wait ms)) = Obj [(''mode'', Str ''duration''), (''durationMs'', whole ms)]"
| "payload_json (P_wait (Element_wait t)) = Obj [(''mode'', Str ''element''), (''target'', target_json t)]"
| "payload_json (P_pause p) =
     Obj (given_or_null ''message'' Str (tp_message p) @ given_or_null ''timeoutMs'' whole (tp_timeout_ms p) @
       given ''successCheck'' target_json (tp_success_check p))"

definition step_json :: "step \<Rightarrow> js" where
  "step_json s =
     Obj ([(''id'', Str (st_id s)), (''label'', Str (st_label s)), (''type'', Str (step_type (st_payload s))),
         (''payload'', payload_json (st_payload s))] @
       given ''optional'' Bool (st_optional s) @ given ''disabled'' Bool (st_disabled s) @
       given ''screenshot'' Bool (st_screenshot s) @ given_or_null ''timeoutMs'' whole (st_timeout_ms s))"

definition variable_json :: "variable \<Rightarrow> js" where
  "variable_json v =
     Obj ([(''name'', Str (va_name v))] @ given ''secret'' Bool (va_secret v) @ given ''secretId'' Str (va_secret_id v) @
       given ''secretName'' Str (va_secret_name v))"

definition document_json :: "workflow_document \<Rightarrow> js" where
  "document_json d =
     Obj (given ''steps'' (Arr \<circ> map step_json) (wd_steps d) @
       given ''variables'' (Arr \<circ> map variable_json) (wd_variables d))"

lemma field_given [simp]:
  "field (given k f x @ ob) j = (case x of None \<Rightarrow> field ob j | Some v \<Rightarrow> if j = k then f v else field ob j)"
  "field (given k f x) j = (case x of None \<Rightarrow> Undefined | Some v \<Rightarrow> if j = k then f v else Undefined)"
  by (simp_all add: given_def field_def split: option.split)

lemma field_given_or_null [simp]:
  "field (given_or_null k f x @ ob) j =
     (case x of Absent \<Rightarrow> field ob j | Nulled \<Rightarrow> if j = k then Null else field ob j
      | Given v \<Rightarrow> if j = k then f v else field ob j)"
  "field (given_or_null k f x) j =
     (case x of Absent \<Rightarrow> Undefined | Nulled \<Rightarrow> if j = k then Null else Undefined
      | Given v \<Rightarrow> if j = k then f v else Undefined)"
  by (simp_all add: given_or_null_def field_def split: opt_field.split)

lemma field_first [simp]: "field ((k, v) # ob) j = (if j = k then v else field ob j)" "field [] j = Undefined"
  by (simp_all add: field_def)

lemma conforms_or_null [simp]: "conforms (or_null t) v \<longleftrightarrow> conforms t v \<or> v = Null"
  by (simp add: or_null_def)

lemma conforms_one_of [simp]: "conforms (one_of texts) v \<longleftrightarrow> (\<exists>t \<in> set texts. v = Str t)"
  by (induction texts) (auto simp: one_of_def)

lemma candidate_conforms [simp]: "conforms selector_candidate_shape (candidate_json c)"
  by (cases "sc_kind c")
    (simp_all add: candidate_json_def selector_candidate_shape_def candidate_kind_shape_def list_all_iff split: option.split)

lemma hop_conforms [simp]: "conforms frame_hop_shape (hop_json h)"
  by (simp add: hop_json_def frame_hop_shape_def split: option.split)

lemma unsupported_conforms [simp]: "conforms unsupported_shape (unsupported_json u)"
  by (cases "un_reason u") (simp_all add: unsupported_json_def unsupported_shape_def unsupported_reason_shape_def)

lemma target_conforms [simp]: "conforms target_shape (target_json t)"
  by (simp add: target_json_def target_shape_def list_all_iff split: option.split)

lemma extract_field_conforms [simp]: "conforms extract_field_shape (extract_field_json f)"
  by (simp add: extract_field_json_def extract_field_shape_def split: option.split)

lemma variable_conforms [simp]: "conforms variable_shape (variable_json v)"
  by (simp add: variable_json_def variable_shape_def split: option.split)

definition step_shapes :: "ts_type list" where
  "step_shapes =
     [navigate_step_shape, click_step_shape, type_step_shape, select_step_shape, download_step_shape, extract_step_shape,
      wait_step_shape, takeover_step_shape]"

text \<open>The type of a Step says which of the eight types its value has.\<close>

fun shape_of :: "step_payload \<Rightarrow> ts_type" where
  "shape_of (P_navigate _) = navigate_step_shape"
| "shape_of (P_click _ _) = click_step_shape"
| "shape_of (P_type _ _) = type_step_shape"
| "shape_of (P_select _ _) = select_step_shape"
| "shape_of (P_download _) = download_step_shape"
| "shape_of (P_extract _) = extract_step_shape"
| "shape_of (P_wait _) = wait_step_shape"
| "shape_of (P_pause _) = takeover_step_shape"

lemma envelope_conforms:
  "conforms (Ts_object [needs ''id'' Ts_string, needs ''label'' Ts_string, may ''optional'' Ts_boolean,
       may ''disabled'' Ts_boolean, may ''screenshot'' Ts_boolean, may ''timeoutMs'' (or_null Ts_number),
       needs ''type'' (Ts_literal w), needs ''payload'' p]) (step_json s) \<longleftrightarrow>
   step_type (st_payload s) = w \<and> conforms p (payload_json (st_payload s))"
  by (auto simp: step_json_def split: option.split opt_field.split)

lemmas step_shape_defs = navigate_step_shape_def click_step_shape_def type_step_shape_def select_step_shape_def
  download_step_shape_def extract_step_shape_def wait_step_shape_def takeover_step_shape_def

lemmas payload_shape_defs = navigate_payload_shape_def click_payload_shape_def type_payload_shape_def
  select_payload_shape_def download_payload_shape_def scalar_extract_payload_shape_def list_extract_payload_shape_def
  duration_wait_payload_shape_def element_wait_payload_shape_def takeover_payload_shape_def

lemma step_conforms_iff [simp]:
  "conforms navigate_step_shape (step_json s) \<longleftrightarrow>
     step_type (st_payload s) = ''navigate'' \<and> conforms navigate_payload_shape (payload_json (st_payload s))"
  "conforms click_step_shape (step_json s) \<longleftrightarrow>
     step_type (st_payload s) = ''click'' \<and> conforms click_payload_shape (payload_json (st_payload s))"
  "conforms type_step_shape (step_json s) \<longleftrightarrow>
     step_type (st_payload s) = ''type'' \<and> conforms type_payload_shape (payload_json (st_payload s))"
  "conforms select_step_shape (step_json s) \<longleftrightarrow>
     step_type (st_payload s) = ''select'' \<and> conforms select_payload_shape (payload_json (st_payload s))"
  "conforms download_step_shape (step_json s) \<longleftrightarrow>
     step_type (st_payload s) = ''download'' \<and> conforms download_payload_shape (payload_json (st_payload s))"
  "conforms extract_step_shape (step_json s) \<longleftrightarrow>
     step_type (st_payload s) = ''extract'' \<and>
     (conforms scalar_extract_payload_shape (payload_json (st_payload s)) \<or>
      conforms list_extract_payload_shape (payload_json (st_payload s)))"
  "conforms wait_step_shape (step_json s) \<longleftrightarrow>
     step_type (st_payload s) = ''wait'' \<and>
     (conforms duration_wait_payload_shape (payload_json (st_payload s)) \<or>
      conforms element_wait_payload_shape (payload_json (st_payload s)))"
  "conforms takeover_step_shape (step_json s) \<longleftrightarrow>
     step_type (st_payload s) = ''pause-for-takeover'' \<and> conforms takeover_payload_shape (payload_json (st_payload s))"
  unfolding step_shape_defs envelope_conforms by (cases "st_payload s"; auto simp: payload_shape_defs split: js.splits)+

lemma step_conforms: "conforms (shape_of (st_payload s)) (step_json s)"
proof (cases "st_payload s")
  case (P_extract x)
  then show ?thesis
    by (cases x) (simp_all add: payload_shape_defs list_all_iff split: opt_field.split)
next
  case (P_wait x)
  then show ?thesis
    by (cases x) (simp_all add: payload_shape_defs)
qed (simp_all add: payload_shape_defs split: option.split opt_field.split)

lemma shape_of_only: "t \<in> set step_shapes \<Longrightarrow> conforms t (step_json s) \<Longrightarrow> t = shape_of (st_payload s)"
  by (cases "st_payload s") (auto simp: step_shapes_def)

section \<open>Properties\<close>


end
