(* ===== verification/ApiContract.thy ===== *)
theory ApiContract
  imports Endpoints ApiShapes Mutations
begin

text \<open>
  What each call of the API takes and gives (\<open>packages/api-client/src/generated/types.gen.ts\<close>): its URL, the values of its path, query and
  headers, its body, and the bodies of its errors and answers with their statuses. The calls themselves come from the other
  generated file (\<open>sdk.gen.ts\<close>, theory Endpoints); the two are compared here.
\<close>

section \<open>Contracts\<close>

record contract =
  ct_url :: string
  ct_path :: "(string \<times> bool \<times> ts_type) list"
  ct_query :: "(string \<times> bool \<times> ts_type) list"
  ct_headers :: "(string \<times> bool \<times> ts_type) list"
  ct_body :: "(bool \<times> ts_type) option"
  ct_errors :: "(nat \<times> ts_type) list"
  ct_answers :: "(nat \<times> ts_type) list"

definition no_headers :: "(string \<times> bool \<times> ts_type) list" where
  "no_headers = []"

definition may_name_organization :: "(string \<times> bool \<times> ts_type) list" where
  "may_name_organization = [may ''X-Organization'' (or_null Ts_string)]"

definition coded :: "nat list \<Rightarrow> (nat \<times> ts_type) list" where
  "coded statuses = map (\<lambda>s. (s, error_body_shape)) statuses"

definition invalid :: "(nat \<times> ts_type) list" where
  "invalid = [(422, http_validation_error_shape)]"

text \<open>The instance, signing in and out, the account.\<close>

definition get_instance_contract :: "contract" where
  "get_instance_contract =
     \<lparr>ct_url = ''/api/instance'', ct_path = [],
      ct_query = [],
      ct_headers = no_headers, ct_body = None,
      ct_errors = [],
      ct_answers = [(200, instance_shape)]\<rparr>"

definition request_signin_code_contract :: "contract" where
  "request_signin_code_contract =
     \<lparr>ct_url = ''/api/auth/request-code'', ct_path = [],
      ct_query = [],
      ct_headers = no_headers, ct_body = Some (True, code_request_shape),
      ct_errors = coded [429] @ invalid,
      ct_answers = [(202, Ts_unknown)]\<rparr>"

definition verify_signin_code_contract :: "contract" where
  "verify_signin_code_contract =
     \<lparr>ct_url = ''/api/auth/verify-code'', ct_path = [],
      ct_query = [],
      ct_headers = no_headers, ct_body = Some (True, verification_request_shape),
      ct_errors = coded [401, 403, 429] @ invalid,
      ct_answers = [(200, signed_in_shape)]\<rparr>"

definition get_current_account_contract :: "contract" where
  "get_current_account_contract =
     \<lparr>ct_url = ''/api/auth/me'', ct_path = [],
      ct_query = [],
      ct_headers = no_headers, ct_body = None,
      ct_errors = coded [401],
      ct_answers = [(200, account_shape)]\<rparr>"

definition delete_account_contract :: "contract" where
  "delete_account_contract =
     \<lparr>ct_url = ''/api/account'', ct_path = [],
      ct_query = [],
      ct_headers = no_headers, ct_body = Some (True, account_deletion_shape),
      ct_errors = coded [400, 401, 403] @ invalid,
      ct_answers = [(204, Ts_nothing)]\<rparr>"

definition update_account_contract :: "contract" where
  "update_account_contract =
     \<lparr>ct_url = ''/api/account'', ct_path = [],
      ct_query = [],
      ct_headers = no_headers, ct_body = Some (True, account_update_shape),
      ct_errors = coded [401] @ invalid,
      ct_answers = [(200, account_shape)]\<rparr>"

definition sign_out_contract :: "contract" where
  "sign_out_contract =
     \<lparr>ct_url = ''/api/auth/logout'', ct_path = [],
      ct_query = [],
      ct_headers = no_headers, ct_body = None,
      ct_errors = coded [401],
      ct_answers = [(204, Ts_nothing)]\<rparr>"

definition sign_out_everywhere_contract :: "contract" where
  "sign_out_everywhere_contract =
     \<lparr>ct_url = ''/api/auth/logout-all'', ct_path = [],
      ct_query = [],
      ct_headers = no_headers, ct_body = None,
      ct_errors = coded [401],
      ct_answers = [(204, Ts_nothing)]\<rparr>"

fun account_contract :: "account_call \<Rightarrow> contract" where
  "account_contract Get_instance = get_instance_contract"
| "account_contract Request_signin_code = request_signin_code_contract"
| "account_contract Verify_signin_code = verify_signin_code_contract"
| "account_contract Get_current_account = get_current_account_contract"
| "account_contract Delete_account = delete_account_contract"
| "account_contract Update_account = update_account_contract"
| "account_contract Sign_out = sign_out_contract"
| "account_contract Sign_out_everywhere = sign_out_everywhere_contract"

text \<open>Organizations, their members and invitations.\<close>

definition list_invitations_contract :: "contract" where
  "list_invitations_contract =
     \<lparr>ct_url = ''/api/orgs/{org_id}/invitations'', ct_path = [needs ''org_id'' Ts_string],
      ct_query = [],
      ct_headers = no_headers, ct_body = None,
      ct_errors = coded [401, 403] @ invalid,
      ct_answers = [(200, Ts_array pending_invitation_shape)]\<rparr>"

definition create_invitation_contract :: "contract" where
  "create_invitation_contract =
     \<lparr>ct_url = ''/api/orgs/{org_id}/invitations'', ct_path = [needs ''org_id'' Ts_string],
      ct_query = [],
      ct_headers = no_headers, ct_body = Some (True, invitation_request_shape),
      ct_errors = coded [401, 403, 409] @ invalid,
      ct_answers = [(201, pending_invitation_shape)]\<rparr>"

definition revoke_invitation_contract :: "contract" where
  "revoke_invitation_contract =
     \<lparr>ct_url = ''/api/orgs/{org_id}/invitations/{invitation_id}'', ct_path = [needs ''org_id'' Ts_string,
         needs ''invitation_id'' Ts_string],
      ct_query = [],
      ct_headers = no_headers, ct_body = None,
      ct_errors = coded [401, 403, 404] @ invalid,
      ct_answers = [(204, Ts_nothing)]\<rparr>"

definition accept_invitation_contract :: "contract" where
  "accept_invitation_contract =
     \<lparr>ct_url = ''/api/invitations/{invitation_id}/accept'', ct_path = [needs ''invitation_id'' Ts_string],
      ct_query = [],
      ct_headers = no_headers, ct_body = None,
      ct_errors = coded [401, 404] @ invalid,
      ct_answers = [(204, Ts_nothing)]\<rparr>"

definition create_organization_contract :: "contract" where
  "create_organization_contract =
     \<lparr>ct_url = ''/api/orgs'', ct_path = [],
      ct_query = [],
      ct_headers = no_headers, ct_body = Some (True, organization_request_shape),
      ct_errors = coded [401] @ invalid,
      ct_answers = [(201, organization_membership_shape)]\<rparr>"

definition delete_organization_contract :: "contract" where
  "delete_organization_contract =
     \<lparr>ct_url = ''/api/orgs/{org_id}'', ct_path = [needs ''org_id'' Ts_string],
      ct_query = [],
      ct_headers = no_headers, ct_body = Some (True, organization_deletion_shape),
      ct_errors = coded [400, 401, 403] @ invalid,
      ct_answers = [(204, Ts_nothing)]\<rparr>"

definition rename_organization_contract :: "contract" where
  "rename_organization_contract =
     \<lparr>ct_url = ''/api/orgs/{org_id}'', ct_path = [needs ''org_id'' Ts_string],
      ct_query = [],
      ct_headers = no_headers, ct_body = Some (True, organization_request_shape),
      ct_errors = coded [401, 403] @ invalid,
      ct_answers = [(200, organization_membership_shape)]\<rparr>"

definition list_members_contract :: "contract" where
  "list_members_contract =
     \<lparr>ct_url = ''/api/orgs/{org_id}/members'', ct_path = [needs ''org_id'' Ts_string],
      ct_query = [],
      ct_headers = no_headers, ct_body = None,
      ct_errors = coded [401, 403] @ invalid,
      ct_answers = [(200, Ts_array member_shape)]\<rparr>"

definition remove_member_contract :: "contract" where
  "remove_member_contract =
     \<lparr>ct_url = ''/api/orgs/{org_id}/members/{user_id}'', ct_path = [needs ''org_id'' Ts_string,
         needs ''user_id'' Ts_string],
      ct_query = [],
      ct_headers = no_headers, ct_body = None,
      ct_errors = coded [401, 403, 404] @ invalid,
      ct_answers = [(204, Ts_nothing)]\<rparr>"

definition change_member_role_contract :: "contract" where
  "change_member_role_contract =
     \<lparr>ct_url = ''/api/orgs/{org_id}/members/{user_id}'', ct_path = [needs ''org_id'' Ts_string,
         needs ''user_id'' Ts_string],
      ct_query = [],
      ct_headers = no_headers, ct_body = Some (True, role_change_shape),
      ct_errors = coded [401, 403, 404] @ invalid,
      ct_answers = [(200, member_shape)]\<rparr>"

definition transfer_ownership_contract :: "contract" where
  "transfer_ownership_contract =
     \<lparr>ct_url = ''/api/orgs/{org_id}/transfer-ownership'', ct_path = [needs ''org_id'' Ts_string],
      ct_query = [],
      ct_headers = no_headers, ct_body = Some (True, ownership_transfer_shape),
      ct_errors = coded [401, 403, 404] @ invalid,
      ct_answers = [(204, Ts_nothing)]\<rparr>"

fun organization_contract :: "organization_call \<Rightarrow> contract" where
  "organization_contract List_invitations = list_invitations_contract"
| "organization_contract Create_invitation = create_invitation_contract"
| "organization_contract Revoke_invitation = revoke_invitation_contract"
| "organization_contract Accept_invitation = accept_invitation_contract"
| "organization_contract Create_organization = create_organization_contract"
| "organization_contract Delete_organization = delete_organization_contract"
| "organization_contract Rename_organization = rename_organization_contract"
| "organization_contract List_members = list_members_contract"
| "organization_contract Remove_member = remove_member_contract"
| "organization_contract Change_member_role = change_member_role_contract"
| "organization_contract Transfer_ownership = transfer_ownership_contract"

text \<open>Saved logins and the extension.\<close>

definition list_auth_states_contract :: "contract" where
  "list_auth_states_contract =
     \<lparr>ct_url = ''/api/auth-states'', ct_path = [],
      ct_query = [],
      ct_headers = may_name_organization, ct_body = None,
      ct_errors = invalid,
      ct_answers = [(200, Ts_array auth_state_summary_shape)]\<rparr>"

definition delete_auth_state_contract :: "contract" where
  "delete_auth_state_contract =
     \<lparr>ct_url = ''/api/auth-states/{auth_state_id}'', ct_path = [needs ''auth_state_id'' Ts_string],
      ct_query = [],
      ct_headers = may_name_organization, ct_body = None,
      ct_errors = coded [404] @ invalid,
      ct_answers = [(204, Ts_nothing)]\<rparr>"

definition get_extension_version_contract :: "contract" where
  "get_extension_version_contract =
     \<lparr>ct_url = ''/api/extension/version'', ct_path = [],
      ct_query = [],
      ct_headers = no_headers, ct_body = None,
      ct_errors = coded [503],
      ct_answers = [(200, extension_version_shape)]\<rparr>"

definition create_extension_connect_code_contract :: "contract" where
  "create_extension_connect_code_contract =
     \<lparr>ct_url = ''/api/extension/connect-codes'', ct_path = [],
      ct_query = [],
      ct_headers = no_headers, ct_body = None,
      ct_errors = coded [401],
      ct_answers = [(201, connect_code_shape)]\<rparr>"

definition connect_extension_contract :: "contract" where
  "connect_extension_contract =
     \<lparr>ct_url = ''/api/extension/connect'', ct_path = [],
      ct_query = [],
      ct_headers = no_headers, ct_body = Some (True, connect_request_shape),
      ct_errors = coded [401] @ invalid,
      ct_answers = [(200, connected_shape)]\<rparr>"

fun browser_contract :: "browser_call \<Rightarrow> contract" where
  "browser_contract List_auth_states = list_auth_states_contract"
| "browser_contract Delete_auth_state = delete_auth_state_contract"
| "browser_contract Get_extension_version = get_extension_version_contract"
| "browser_contract Create_extension_connect_code = create_extension_connect_code_contract"
| "browser_contract Connect_extension = connect_extension_contract"

text \<open>Secrets.\<close>

definition list_secrets_contract :: "contract" where
  "list_secrets_contract =
     \<lparr>ct_url = ''/api/secrets'', ct_path = [],
      ct_query = [],
      ct_headers = may_name_organization, ct_body = None,
      ct_errors = invalid,
      ct_answers = [(200, Ts_array secret_summary_shape)]\<rparr>"

definition create_secret_contract :: "contract" where
  "create_secret_contract =
     \<lparr>ct_url = ''/api/secrets'', ct_path = [],
      ct_query = [],
      ct_headers = may_name_organization, ct_body = Some (True, create_secret_shape),
      ct_errors = coded [409] @ invalid,
      ct_answers = [(201, secret_identity_shape)]\<rparr>"

definition delete_secret_contract :: "contract" where
  "delete_secret_contract =
     \<lparr>ct_url = ''/api/secrets/{secret_id}'', ct_path = [needs ''secret_id'' Ts_string],
      ct_query = [],
      ct_headers = may_name_organization, ct_body = None,
      ct_errors = coded [404] @ invalid,
      ct_answers = [(204, Ts_nothing)]\<rparr>"

definition update_secret_contract :: "contract" where
  "update_secret_contract =
     \<lparr>ct_url = ''/api/secrets/{secret_id}'', ct_path = [needs ''secret_id'' Ts_string],
      ct_query = [],
      ct_headers = may_name_organization, ct_body = Some (True, change_secret_shape),
      ct_errors = coded [404, 409] @ invalid,
      ct_answers = [(200, secret_identity_shape)]\<rparr>"

definition reveal_secret_contract :: "contract" where
  "reveal_secret_contract =
     \<lparr>ct_url = ''/api/secrets/{secret_id}/reveal'', ct_path = [needs ''secret_id'' Ts_string],
      ct_query = [],
      ct_headers = may_name_organization, ct_body = None,
      ct_errors = coded [404] @ invalid,
      ct_answers = [(200, revealed_value_shape)]\<rparr>"

definition delete_secret_override_contract :: "contract" where
  "delete_secret_override_contract =
     \<lparr>ct_url = ''/api/secrets/{secret_id}/override'', ct_path = [needs ''secret_id'' Ts_string],
      ct_query = [],
      ct_headers = may_name_organization, ct_body = None,
      ct_errors = coded [404] @ invalid,
      ct_answers = [(204, Ts_nothing)]\<rparr>"

definition set_secret_override_contract :: "contract" where
  "set_secret_override_contract =
     \<lparr>ct_url = ''/api/secrets/{secret_id}/override'', ct_path = [needs ''secret_id'' Ts_string],
      ct_query = [],
      ct_headers = may_name_organization, ct_body = Some (True, override_value_shape),
      ct_errors = coded [404] @ invalid,
      ct_answers = [(204, Ts_nothing)]\<rparr>"

definition reveal_secret_override_contract :: "contract" where
  "reveal_secret_override_contract =
     \<lparr>ct_url = ''/api/secrets/{secret_id}/override/reveal'', ct_path = [needs ''secret_id'' Ts_string],
      ct_query = [],
      ct_headers = may_name_organization, ct_body = None,
      ct_errors = coded [404] @ invalid,
      ct_answers = [(200, revealed_value_shape)]\<rparr>"

fun vault_contract :: "vault_call \<Rightarrow> contract" where
  "vault_contract List_secrets = list_secrets_contract"
| "vault_contract Create_secret = create_secret_contract"
| "vault_contract Delete_secret = delete_secret_contract"
| "vault_contract Update_secret = update_secret_contract"
| "vault_contract Reveal_secret = reveal_secret_contract"
| "vault_contract Delete_secret_override = delete_secret_override_contract"
| "vault_contract Set_secret_override = set_secret_override_contract"
| "vault_contract Reveal_secret_override = reveal_secret_override_contract"

text \<open>Workflows, their Versions and their Draft.\<close>

definition list_workflows_contract :: "contract" where
  "list_workflows_contract =
     \<lparr>ct_url = ''/api/workflows'', ct_path = [],
      ct_query = [may ''q'' Ts_string, may ''sort'' workflow_sort_shape, may ''limit'' Ts_number,
         may ''cursor'' (or_null Ts_string)],
      ct_headers = may_name_organization, ct_body = None,
      ct_errors = coded [400, 401, 403] @ invalid,
      ct_answers = [(200, workflow_page_shape)]\<rparr>"

definition create_workflow_contract :: "contract" where
  "create_workflow_contract =
     \<lparr>ct_url = ''/api/workflows'', ct_path = [],
      ct_query = [],
      ct_headers = may_name_organization, ct_body = Some (True, workflow_creation_shape),
      ct_errors = coded [400, 401, 403] @ invalid,
      ct_answers = [(201, workflow_record_shape)]\<rparr>"

definition list_workflow_versions_contract :: "contract" where
  "list_workflow_versions_contract =
     \<lparr>ct_url = ''/api/workflows/{workflow_id}/versions'', ct_path = [needs ''workflow_id'' Ts_string],
      ct_query = [],
      ct_headers = may_name_organization, ct_body = None,
      ct_errors = coded [400, 401, 403, 404] @ invalid,
      ct_answers = [(200, Ts_array version_summary_shape)]\<rparr>"

definition publish_workflow_version_contract :: "contract" where
  "publish_workflow_version_contract =
     \<lparr>ct_url = ''/api/workflows/{workflow_id}/versions'', ct_path = [needs ''workflow_id'' Ts_string],
      ct_query = [],
      ct_headers = may_name_organization, ct_body = None,
      ct_errors = coded [400, 401, 403, 404] @ invalid,
      ct_answers = [(201, version_summary_shape)]\<rparr>"

definition get_workflow_version_contract :: "contract" where
  "get_workflow_version_contract =
     \<lparr>ct_url = ''/api/workflows/{workflow_id}/versions/{number}'', ct_path = [needs ''workflow_id'' Ts_string,
         needs ''number'' Ts_number],
      ct_query = [],
      ct_headers = may_name_organization, ct_body = None,
      ct_errors = coded [400, 401, 403, 404] @ invalid,
      ct_answers = [(200, workflow_document_shape)]\<rparr>"

definition restore_workflow_version_contract :: "contract" where
  "restore_workflow_version_contract =
     \<lparr>ct_url = ''/api/workflows/{workflow_id}/versions/{number}/restore'',
         ct_path = [needs ''workflow_id'' Ts_string, needs ''number'' Ts_number],
      ct_query = [],
      ct_headers = may_name_organization, ct_body = None,
      ct_errors = coded [400, 401, 403, 404] @ invalid,
      ct_answers = [(200, workflow_document_shape)]\<rparr>"

definition get_workflow_draft_diff_contract :: "contract" where
  "get_workflow_draft_diff_contract =
     \<lparr>ct_url = ''/api/workflows/{workflow_id}/draft/diff'', ct_path = [needs ''workflow_id'' Ts_string],
      ct_query = [],
      ct_headers = may_name_organization, ct_body = None,
      ct_errors = coded [400, 401, 403, 404] @ invalid,
      ct_answers = [(200, draft_comparison_shape)]\<rparr>"

definition get_workflow_draft_contract :: "contract" where
  "get_workflow_draft_contract =
     \<lparr>ct_url = ''/api/workflows/{workflow_id}/draft'', ct_path = [needs ''workflow_id'' Ts_string],
      ct_query = [],
      ct_headers = may_name_organization, ct_body = None,
      ct_errors = coded [400, 401, 403, 404] @ invalid,
      ct_answers = [(200, workflow_document_shape)]\<rparr>"

definition save_workflow_draft_contract :: "contract" where
  "save_workflow_draft_contract =
     \<lparr>ct_url = ''/api/workflows/{workflow_id}/draft'', ct_path = [needs ''workflow_id'' Ts_string],
      ct_query = [],
      ct_headers = may_name_organization, ct_body = Some (True, workflow_document_shape),
      ct_errors = coded [400, 401, 403, 404] @ invalid,
      ct_answers = [(200, workflow_document_shape)]\<rparr>"

definition create_recording_session_contract :: "contract" where
  "create_recording_session_contract =
     \<lparr>ct_url = ''/api/workflows/{workflow_id}/recording-sessions'',
         ct_path = [needs ''workflow_id'' Ts_string],
      ct_query = [],
      ct_headers = [may ''X-Extension-Version'' (or_null Ts_string), may ''X-Organization'' (or_null Ts_string)],
         ct_body = Some (True, mint_request_shape),
      ct_errors = coded [400, 401, 403, 404, 409] @ invalid,
      ct_answers = [(201, minted_session_shape)]\<rparr>"

fun workflow_contract :: "workflow_call \<Rightarrow> contract" where
  "workflow_contract List_workflows = list_workflows_contract"
| "workflow_contract Create_workflow = create_workflow_contract"
| "workflow_contract List_workflow_versions = list_workflow_versions_contract"
| "workflow_contract Publish_workflow_version = publish_workflow_version_contract"
| "workflow_contract Get_workflow_version = get_workflow_version_contract"
| "workflow_contract Restore_workflow_version = restore_workflow_version_contract"
| "workflow_contract Get_workflow_draft_diff = get_workflow_draft_diff_contract"
| "workflow_contract Get_workflow_draft = get_workflow_draft_contract"
| "workflow_contract Save_workflow_draft = save_workflow_draft_contract"
| "workflow_contract Create_recording_session = create_recording_session_contract"

text \<open>Recording sessions.\<close>

definition checkpoint_recording_session_contract :: "contract" where
  "checkpoint_recording_session_contract =
     \<lparr>ct_url = ''/api/recording-sessions/{session_id}/checkpoint'', ct_path = [needs ''session_id'' Ts_string],
      ct_query = [],
      ct_headers = [may ''authorization'' (or_null Ts_string)], ct_body = Some (True, checkpoint_shape),
      ct_errors = coded [401, 409] @ invalid,
      ct_answers = [(204, Ts_nothing)]\<rparr>"

definition create_recording_secret_contract :: "contract" where
  "create_recording_secret_contract =
     \<lparr>ct_url = ''/api/recording-sessions/{session_id}/secrets'', ct_path = [needs ''session_id'' Ts_string],
      ct_query = [],
      ct_headers = [may ''authorization'' (or_null Ts_string)], ct_body = Some (True, create_secret_shape),
      ct_errors = coded [401, 409] @ invalid,
      ct_answers = [(201, secret_identity_shape)]\<rparr>"

definition recording_auth_state_options_contract :: "contract" where
  "recording_auth_state_options_contract =
     \<lparr>ct_url = ''/api/recording-sessions/{session_id}/auth-state-options'',
         ct_path = [needs ''session_id'' Ts_string],
      ct_query = [],
      ct_headers = [may ''authorization'' (or_null Ts_string)], ct_body = Some (True, auth_state_hosts_shape),
      ct_errors = coded [401, 409] @ invalid,
      ct_answers = [(200, Ts_array auth_state_option_shape)]\<rparr>"

definition capture_recording_auth_states_contract :: "contract" where
  "capture_recording_auth_states_contract =
     \<lparr>ct_url = ''/api/recording-sessions/{session_id}/auth-states'',
         ct_path = [needs ''session_id'' Ts_string],
      ct_query = [],
      ct_headers = [may ''authorization'' (or_null Ts_string)], ct_body = Some (True, auth_state_captures_shape),
      ct_errors = coded [401, 409] @ invalid,
      ct_answers = [(204, Ts_nothing)]\<rparr>"

definition finalize_recording_session_contract :: "contract" where
  "finalize_recording_session_contract =
     \<lparr>ct_url = ''/api/recording-sessions/{session_id}/finalize'', ct_path = [needs ''session_id'' Ts_string],
      ct_query = [],
      ct_headers = [may ''authorization'' (or_null Ts_string)], ct_body = Some (True, finalize_request_shape),
      ct_errors = coded [400, 401, 409] @ invalid,
      ct_answers = [(200, workflow_document_shape)]\<rparr>"

fun recording_contract :: "recording_call \<Rightarrow> contract" where
  "recording_contract Checkpoint_recording_session = checkpoint_recording_session_contract"
| "recording_contract Create_recording_secret = create_recording_secret_contract"
| "recording_contract Recording_auth_state_options = recording_auth_state_options_contract"
| "recording_contract Capture_recording_auth_states = capture_recording_auth_states_contract"
| "recording_contract Finalize_recording_session = finalize_recording_session_contract"

text \<open>One Workflow.\<close>

definition delete_workflow_contract :: "contract" where
  "delete_workflow_contract =
     \<lparr>ct_url = ''/api/workflows/{workflow_id}'', ct_path = [needs ''workflow_id'' Ts_string],
      ct_query = [],
      ct_headers = may_name_organization, ct_body = None,
      ct_errors = coded [400, 401, 403, 404, 409] @ invalid,
      ct_answers = [(204, Ts_nothing)]\<rparr>"

definition get_workflow_contract :: "contract" where
  "get_workflow_contract =
     \<lparr>ct_url = ''/api/workflows/{workflow_id}'', ct_path = [needs ''workflow_id'' Ts_string],
      ct_query = [],
      ct_headers = may_name_organization, ct_body = None,
      ct_errors = coded [400, 401, 403, 404] @ invalid,
      ct_answers = [(200, workflow_summary_shape)]\<rparr>"

definition rename_workflow_contract :: "contract" where
  "rename_workflow_contract =
     \<lparr>ct_url = ''/api/workflows/{workflow_id}'', ct_path = [needs ''workflow_id'' Ts_string],
      ct_query = [],
      ct_headers = may_name_organization, ct_body = Some (True, workflow_rename_shape),
      ct_errors = coded [400, 401, 403, 404] @ invalid,
      ct_answers = [(200, workflow_named_shape)]\<rparr>"

definition duplicate_workflow_contract :: "contract" where
  "duplicate_workflow_contract =
     \<lparr>ct_url = ''/api/workflows/{workflow_id}/duplicate'', ct_path = [needs ''workflow_id'' Ts_string],
      ct_query = [],
      ct_headers = may_name_organization, ct_body = None,
      ct_errors = coded [400, 401, 403, 404] @ invalid,
      ct_answers = [(201, workflow_named_shape)]\<rparr>"

definition start_run_contract :: "contract" where
  "start_run_contract =
     \<lparr>ct_url = ''/api/workflows/{workflow_id}/runs'', ct_path = [needs ''workflow_id'' Ts_string],
      ct_query = [],
      ct_headers = may_name_organization, ct_body = Some (True, start_run_shape),
      ct_errors = coded [400, 401, 403, 404, 409] @ invalid,
      ct_answers = [(201, run_created_shape)]\<rparr>"

definition get_workflow_selector_drift_contract :: "contract" where
  "get_workflow_selector_drift_contract =
     \<lparr>ct_url = ''/api/workflows/{workflow_id}/selector-drift'', ct_path = [needs ''workflow_id'' Ts_string],
      ct_query = [],
      ct_headers = may_name_organization, ct_body = None,
      ct_errors = coded [400, 401, 403, 404] @ invalid,
      ct_answers = [(200, selector_drift_shape)]\<rparr>"

fun flow_contract :: "flow_call \<Rightarrow> contract" where
  "flow_contract Delete_workflow = delete_workflow_contract"
| "flow_contract Get_workflow = get_workflow_contract"
| "flow_contract Rename_workflow = rename_workflow_contract"
| "flow_contract Duplicate_workflow = duplicate_workflow_contract"
| "flow_contract Start_run = start_run_contract"
| "flow_contract Get_workflow_selector_drift = get_workflow_selector_drift_contract"

text \<open>Runs.\<close>

definition list_runs_contract :: "contract" where
  "list_runs_contract =
     \<lparr>ct_url = ''/api/runs'', ct_path = [],
      ct_query = [may ''workflow_id'' (or_null Ts_string), may ''status'' (or_null run_status_shape),
         may ''trigger'' (or_null run_trigger_shape), may ''limit'' Ts_number, may ''cursor'' (or_null Ts_string)],
      ct_headers = may_name_organization, ct_body = None,
      ct_errors = coded [400, 401, 403] @ invalid,
      ct_answers = [(200, run_page_shape)]\<rparr>"

definition get_attention_contract :: "contract" where
  "get_attention_contract =
     \<lparr>ct_url = ''/api/attention'', ct_path = [],
      ct_query = [],
      ct_headers = may_name_organization, ct_body = None,
      ct_errors = coded [400, 401, 403] @ invalid,
      ct_answers = [(200, attention_shape)]\<rparr>"

definition delete_run_contract :: "contract" where
  "delete_run_contract =
     \<lparr>ct_url = ''/api/runs/{run_id}'', ct_path = [needs ''run_id'' Ts_string],
      ct_query = [],
      ct_headers = may_name_organization, ct_body = None,
      ct_errors = coded [400, 401, 403, 404, 409] @ invalid,
      ct_answers = [(204, Ts_nothing)]\<rparr>"

definition get_run_contract :: "contract" where
  "get_run_contract =
     \<lparr>ct_url = ''/api/runs/{run_id}'', ct_path = [needs ''run_id'' Ts_string],
      ct_query = [],
      ct_headers = may_name_organization, ct_body = None,
      ct_errors = coded [400, 401, 403, 404] @ invalid,
      ct_answers = [(200, run_detail_shape)]\<rparr>"

definition consent_run_auth_state_contract :: "contract" where
  "consent_run_auth_state_contract =
     \<lparr>ct_url = ''/api/runs/{run_id}/auth-state-consents'', ct_path = [needs ''run_id'' Ts_string],
      ct_query = [],
      ct_headers = may_name_organization, ct_body = Some (True, auth_state_consent_request_shape),
      ct_errors = coded [400, 401, 403, 404, 422],
      ct_answers = [(204, Ts_nothing)]\<rparr>"

definition stream_run_events_contract :: "contract" where
  "stream_run_events_contract =
     \<lparr>ct_url = ''/api/runs/{run_id}/events'', ct_path = [needs ''run_id'' Ts_string],
      ct_query = [],
      ct_headers = may_name_organization, ct_body = None,
      ct_errors = coded [400, 401, 403, 404] @ invalid,
      ct_answers = [(200, Ts_string)]\<rparr>"

definition list_run_logs_contract :: "contract" where
  "list_run_logs_contract =
     \<lparr>ct_url = ''/api/runs/{run_id}/logs'', ct_path = [needs ''run_id'' Ts_string],
      ct_query = [may ''after_seq'' (or_null Ts_number), may ''step_id'' (or_null Ts_string)],
      ct_headers = may_name_organization, ct_body = None,
      ct_errors = coded [400, 401, 403, 404] @ invalid,
      ct_answers = [(200, Ts_array log_line_shape)]\<rparr>"

definition get_run_output_contract :: "contract" where
  "get_run_output_contract =
     \<lparr>ct_url = ''/api/runs/{run_id}/output'', ct_path = [needs ''run_id'' Ts_string],
      ct_query = [may ''format'' (one_of [''json'', ''csv''])],
      ct_headers = may_name_organization, ct_body = None,
      ct_errors = coded [400, 401, 403, 404] @ invalid,
      ct_answers = [(200, Ts_unknown)]\<rparr>"

definition download_run_artifact_contract :: "contract" where
  "download_run_artifact_contract =
     \<lparr>ct_url = ''/api/runs/{run_id}/artifacts/{artifact_id}/download'', ct_path = [needs ''run_id'' Ts_string,
         needs ''artifact_id'' Ts_string],
      ct_query = [],
      ct_headers = may_name_organization, ct_body = None,
      ct_errors = coded [400, 401, 403, 404] @ invalid,
      ct_answers = []\<rparr>"

definition locate_run_artifact_contract :: "contract" where
  "locate_run_artifact_contract =
     \<lparr>ct_url = ''/api/runs/{run_id}/artifacts/{artifact_id}/location'', ct_path = [needs ''run_id'' Ts_string,
         needs ''artifact_id'' Ts_string],
      ct_query = [],
      ct_headers = may_name_organization, ct_body = None,
      ct_errors = coded [400, 401, 403, 404] @ invalid,
      ct_answers = [(200, artifact_location_shape)]\<rparr>"

definition cancel_run_contract :: "contract" where
  "cancel_run_contract =
     \<lparr>ct_url = ''/api/runs/{run_id}/cancel'', ct_path = [needs ''run_id'' Ts_string],
      ct_query = [],
      ct_headers = may_name_organization, ct_body = None,
      ct_errors = coded [400, 401, 403, 404, 409] @ invalid,
      ct_answers = [(202, Ts_unknown)]\<rparr>"

definition pause_run_contract :: "contract" where
  "pause_run_contract =
     \<lparr>ct_url = ''/api/runs/{run_id}/pause'', ct_path = [needs ''run_id'' Ts_string],
      ct_query = [],
      ct_headers = may_name_organization, ct_body = None,
      ct_errors = coded [400, 401, 403, 404, 409] @ invalid,
      ct_answers = [(202, Ts_unknown)]\<rparr>"

definition mint_stream_ticket_contract :: "contract" where
  "mint_stream_ticket_contract =
     \<lparr>ct_url = ''/api/runs/{run_id}/stream-ticket'', ct_path = [needs ''run_id'' Ts_string],
      ct_query = [],
      ct_headers = may_name_organization, ct_body = None,
      ct_errors = coded [400, 401, 403, 404, 409] @ invalid,
      ct_answers = [(200, stream_ticket_shape)]\<rparr>"

definition take_over_run_contract :: "contract" where
  "take_over_run_contract =
     \<lparr>ct_url = ''/api/runs/{run_id}/takeover'', ct_path = [needs ''run_id'' Ts_string],
      ct_query = [],
      ct_headers = may_name_organization, ct_body = None,
      ct_errors = coded [400, 401, 403, 404, 409] @ invalid,
      ct_answers = [(200, takeover_ticket_shape)]\<rparr>"

definition hold_takeover_contract :: "contract" where
  "hold_takeover_contract =
     \<lparr>ct_url = ''/api/runs/{run_id}/takeover/hold'', ct_path = [needs ''run_id'' Ts_string],
      ct_query = [],
      ct_headers = may_name_organization, ct_body = Some (True, takeover_hold_shape),
      ct_errors = coded [400, 401, 403, 404, 409] @ invalid,
      ct_answers = [(204, Ts_nothing)]\<rparr>"

definition hand_back_run_contract :: "contract" where
  "hand_back_run_contract =
     \<lparr>ct_url = ''/api/runs/{run_id}/handback'', ct_path = [needs ''run_id'' Ts_string],
      ct_query = [],
      ct_headers = may_name_organization, ct_body = None,
      ct_errors = coded [400, 401, 403, 404, 409] @ invalid,
      ct_answers = [(202, Ts_unknown)]\<rparr>"

definition abandon_takeover_contract :: "contract" where
  "abandon_takeover_contract =
     \<lparr>ct_url = ''/api/runs/{run_id}/takeover/abandon'', ct_path = [needs ''run_id'' Ts_string],
      ct_query = [],
      ct_headers = may_name_organization, ct_body = None,
      ct_errors = coded [400, 401, 403, 404, 409] @ invalid,
      ct_answers = [(202, Ts_unknown)]\<rparr>"

fun run_contract :: "run_call \<Rightarrow> contract" where
  "run_contract List_runs = list_runs_contract"
| "run_contract Get_attention = get_attention_contract"
| "run_contract Delete_run = delete_run_contract"
| "run_contract Get_run = get_run_contract"
| "run_contract Consent_run_auth_state = consent_run_auth_state_contract"
| "run_contract Stream_run_events = stream_run_events_contract"
| "run_contract List_run_logs = list_run_logs_contract"
| "run_contract Get_run_output = get_run_output_contract"
| "run_contract Download_run_artifact = download_run_artifact_contract"
| "run_contract Locate_run_artifact = locate_run_artifact_contract"
| "run_contract Cancel_run = cancel_run_contract"
| "run_contract Pause_run = pause_run_contract"
| "run_contract Mint_stream_ticket = mint_stream_ticket_contract"
| "run_contract Take_over_run = take_over_run_contract"
| "run_contract Hold_takeover = hold_takeover_contract"
| "run_contract Hand_back_run = hand_back_run_contract"
| "run_contract Abandon_takeover = abandon_takeover_contract"

text \<open>Schedules.\<close>

definition preview_schedule_contract :: "contract" where
  "preview_schedule_contract =
     \<lparr>ct_url = ''/api/schedules/preview'', ct_path = [],
      ct_query = [],
      ct_headers = may_name_organization, ct_body = Some (True, preview_request_shape),
      ct_errors = coded [400, 401, 403] @ invalid,
      ct_answers = [(200, preview_result_shape)]\<rparr>"

definition list_all_schedules_contract :: "contract" where
  "list_all_schedules_contract =
     \<lparr>ct_url = ''/api/schedules'', ct_path = [],
      ct_query = [may ''workflow_id'' (or_null Ts_string), may ''limit'' Ts_number,
         may ''cursor'' (or_null Ts_string)],
      ct_headers = may_name_organization, ct_body = None,
      ct_errors = coded [400, 401, 403, 404] @ invalid,
      ct_answers = [(200, schedule_page_shape)]\<rparr>"

definition list_schedules_contract :: "contract" where
  "list_schedules_contract =
     \<lparr>ct_url = ''/api/workflows/{workflow_id}/schedules'', ct_path = [needs ''workflow_id'' Ts_string],
      ct_query = [],
      ct_headers = may_name_organization, ct_body = None,
      ct_errors = coded [400, 401, 403, 404] @ invalid,
      ct_answers = [(200, Ts_array schedule_summary_shape)]\<rparr>"

definition create_schedule_contract :: "contract" where
  "create_schedule_contract =
     \<lparr>ct_url = ''/api/workflows/{workflow_id}/schedules'', ct_path = [needs ''workflow_id'' Ts_string],
      ct_query = [],
      ct_headers = may_name_organization, ct_body = Some (True, create_schedule_shape),
      ct_errors = coded [400, 401, 403, 404, 409] @ invalid,
      ct_answers = [(201, schedule_summary_shape)]\<rparr>"

definition delete_schedule_contract :: "contract" where
  "delete_schedule_contract =
     \<lparr>ct_url = ''/api/schedules/{schedule_id}'', ct_path = [needs ''schedule_id'' Ts_string],
      ct_query = [],
      ct_headers = may_name_organization, ct_body = None,
      ct_errors = coded [400, 401, 403, 404] @ invalid,
      ct_answers = [(204, Ts_nothing)]\<rparr>"

definition get_schedule_contract :: "contract" where
  "get_schedule_contract =
     \<lparr>ct_url = ''/api/schedules/{schedule_id}'', ct_path = [needs ''schedule_id'' Ts_string],
      ct_query = [],
      ct_headers = may_name_organization, ct_body = None,
      ct_errors = coded [400, 401, 403, 404] @ invalid,
      ct_answers = [(200, schedule_detail_shape)]\<rparr>"

definition update_schedule_contract :: "contract" where
  "update_schedule_contract =
     \<lparr>ct_url = ''/api/schedules/{schedule_id}'', ct_path = [needs ''schedule_id'' Ts_string],
      ct_query = [],
      ct_headers = may_name_organization, ct_body = Some (True, change_schedule_shape),
      ct_errors = coded [400, 401, 403, 404] @ invalid,
      ct_answers = [(200, schedule_summary_shape)]\<rparr>"

definition run_schedule_now_contract :: "contract" where
  "run_schedule_now_contract =
     \<lparr>ct_url = ''/api/schedules/{schedule_id}/run-now'', ct_path = [needs ''schedule_id'' Ts_string],
      ct_query = [],
      ct_headers = may_name_organization, ct_body = None,
      ct_errors = coded [400, 401, 403, 404, 409] @ invalid,
      ct_answers = [(201, run_now_result_shape)]\<rparr>"

fun schedule_contract :: "schedule_call \<Rightarrow> contract" where
  "schedule_contract Preview_schedule = preview_schedule_contract"
| "schedule_contract List_all_schedules = list_all_schedules_contract"
| "schedule_contract List_schedules = list_schedules_contract"
| "schedule_contract Create_schedule = create_schedule_contract"
| "schedule_contract Delete_schedule = delete_schedule_contract"
| "schedule_contract Get_schedule = get_schedule_contract"
| "schedule_contract Update_schedule = update_schedule_contract"
| "schedule_contract Run_schedule_now = run_schedule_now_contract"

text \<open>Batches.\<close>

definition create_batch_contract :: "contract" where
  "create_batch_contract =
     \<lparr>ct_url = ''/api/workflows/{workflow_id}/batches'', ct_path = [needs ''workflow_id'' Ts_string],
      ct_query = [],
      ct_headers = may_name_organization, ct_body = Some (True, create_batch_shape),
      ct_errors = coded [400, 401, 403, 404, 409, 413] @ invalid,
      ct_answers = [(201, batch_created_shape)]\<rparr>"

definition list_batches_contract :: "contract" where
  "list_batches_contract =
     \<lparr>ct_url = ''/api/batches'', ct_path = [],
      ct_query = [needs ''workflow_id'' Ts_string, may ''limit'' Ts_number, may ''cursor'' (or_null Ts_string)],
      ct_headers = may_name_organization, ct_body = None,
      ct_errors = coded [400, 401, 403, 404] @ invalid,
      ct_answers = [(200, batch_page_shape)]\<rparr>"

definition get_batch_contract :: "contract" where
  "get_batch_contract =
     \<lparr>ct_url = ''/api/batches/{batch_id}'', ct_path = [needs ''batch_id'' Ts_string],
      ct_query = [],
      ct_headers = may_name_organization, ct_body = None,
      ct_errors = coded [400, 401, 403, 404] @ invalid,
      ct_answers = [(200, batch_detail_shape)]\<rparr>"

definition get_batch_output_contract :: "contract" where
  "get_batch_output_contract =
     \<lparr>ct_url = ''/api/batches/{batch_id}/output'', ct_path = [needs ''batch_id'' Ts_string],
      ct_query = [may ''format'' (one_of [''json'', ''csv''])],
      ct_headers = may_name_organization, ct_body = None,
      ct_errors = coded [400, 401, 403, 404] @ invalid,
      ct_answers = [(200, Ts_unknown)]\<rparr>"

definition stream_batch_events_contract :: "contract" where
  "stream_batch_events_contract =
     \<lparr>ct_url = ''/api/batches/{batch_id}/events'', ct_path = [needs ''batch_id'' Ts_string],
      ct_query = [],
      ct_headers = may_name_organization, ct_body = None,
      ct_errors = coded [400, 401, 403, 404] @ invalid,
      ct_answers = [(200, Ts_string)]\<rparr>"

definition cancel_batch_contract :: "contract" where
  "cancel_batch_contract =
     \<lparr>ct_url = ''/api/batches/{batch_id}/cancel'', ct_path = [needs ''batch_id'' Ts_string],
      ct_query = [],
      ct_headers = may_name_organization, ct_body = None,
      ct_errors = coded [400, 401, 403, 404] @ invalid,
      ct_answers = [(202, Ts_unknown)]\<rparr>"

definition update_batch_row_contract :: "contract" where
  "update_batch_row_contract =
     \<lparr>ct_url = ''/api/batches/{batch_id}/rows/{index}'', ct_path = [needs ''batch_id'' Ts_string,
         needs ''index'' Ts_number],
      ct_query = [],
      ct_headers = may_name_organization, ct_body = Some (True, batch_row_input_shape),
      ct_errors = coded [400, 401, 403, 404, 409] @ invalid,
      ct_answers = [(200, batch_row_record_shape)]\<rparr>"

definition fill_batch_rows_contract :: "contract" where
  "fill_batch_rows_contract =
     \<lparr>ct_url = ''/api/batches/{batch_id}/rows/fill'', ct_path = [needs ''batch_id'' Ts_string],
      ct_query = [],
      ct_headers = may_name_organization, ct_body = Some (True, fill_rows_shape),
      ct_errors = coded [400, 401, 403, 404] @ invalid,
      ct_answers = [(200, fill_result_shape)]\<rparr>"

definition skip_batch_row_contract :: "contract" where
  "skip_batch_row_contract =
     \<lparr>ct_url = ''/api/batches/{batch_id}/rows/{index}/skip'', ct_path = [needs ''batch_id'' Ts_string,
         needs ''index'' Ts_number],
      ct_query = [],
      ct_headers = may_name_organization, ct_body = None,
      ct_errors = coded [400, 401, 403, 404, 409] @ invalid,
      ct_answers = [(202, Ts_unknown)]\<rparr>"

definition rerun_batch_row_contract :: "contract" where
  "rerun_batch_row_contract =
     \<lparr>ct_url = ''/api/batches/{batch_id}/rows/{index}/rerun'', ct_path = [needs ''batch_id'' Ts_string,
         needs ''index'' Ts_number],
      ct_query = [],
      ct_headers = may_name_organization, ct_body = None,
      ct_errors = coded [400, 401, 403, 404, 409] @ invalid,
      ct_answers = [(201, rerun_created_shape)]\<rparr>"

fun batch_contract :: "batch_call \<Rightarrow> contract" where
  "batch_contract Create_batch = create_batch_contract"
| "batch_contract List_batches = list_batches_contract"
| "batch_contract Get_batch = get_batch_contract"
| "batch_contract Get_batch_output = get_batch_output_contract"
| "batch_contract Stream_batch_events = stream_batch_events_contract"
| "batch_contract Cancel_batch = cancel_batch_contract"
| "batch_contract Update_batch_row = update_batch_row_contract"
| "batch_contract Fill_batch_rows = fill_batch_rows_contract"
| "batch_contract Skip_batch_row = skip_batch_row_contract"
| "batch_contract Rerun_batch_row = rerun_batch_row_contract"

text \<open>The service itself.\<close>

definition get_health_contract :: "contract" where
  "get_health_contract =
     \<lparr>ct_url = ''/api/health'', ct_path = [],
      ct_query = [],
      ct_headers = no_headers, ct_body = None,
      ct_errors = [],
      ct_answers = [(200, health_shape)]\<rparr>"

definition get_greeting_contract :: "contract" where
  "get_greeting_contract =
     \<lparr>ct_url = ''/api/hello/{name}'', ct_path = [needs ''name'' Ts_string],
      ct_query = [],
      ct_headers = no_headers, ct_body = None,
      ct_errors = invalid,
      ct_answers = [(200, greeting_shape)]\<rparr>"

fun service_contract :: "service_call \<Rightarrow> contract" where
  "service_contract Get_health = get_health_contract"
| "service_contract Get_greeting = get_greeting_contract"

fun contract_of :: "endpoint \<Rightarrow> contract" where
  "contract_of (Account_endpoint c) = account_contract c"
| "contract_of (Organization_endpoint c) = organization_contract c"
| "contract_of (Browser_endpoint c) = browser_contract c"
| "contract_of (Vault_endpoint c) = vault_contract c"
| "contract_of (Workflow_endpoint c) = workflow_contract c"
| "contract_of (Recording_endpoint c) = recording_contract c"
| "contract_of (Flow_endpoint c) = flow_contract c"
| "contract_of (Run_endpoint c) = run_contract c"
| "contract_of (Schedule_endpoint c) = schedule_contract c"
| "contract_of (Batch_endpoint c) = batch_contract c"
| "contract_of (Service_endpoint c) = service_contract c"

lemmas contract_defs = get_instance_contract_def request_signin_code_contract_def
  verify_signin_code_contract_def get_current_account_contract_def delete_account_contract_def
  update_account_contract_def sign_out_contract_def sign_out_everywhere_contract_def
  list_invitations_contract_def create_invitation_contract_def revoke_invitation_contract_def
  accept_invitation_contract_def create_organization_contract_def delete_organization_contract_def
  rename_organization_contract_def list_members_contract_def remove_member_contract_def
  change_member_role_contract_def transfer_ownership_contract_def list_auth_states_contract_def
  delete_auth_state_contract_def get_extension_version_contract_def create_extension_connect_code_contract_def
  connect_extension_contract_def list_secrets_contract_def create_secret_contract_def
  delete_secret_contract_def update_secret_contract_def reveal_secret_contract_def
  delete_secret_override_contract_def set_secret_override_contract_def reveal_secret_override_contract_def
  list_workflows_contract_def create_workflow_contract_def list_workflow_versions_contract_def
  publish_workflow_version_contract_def get_workflow_version_contract_def
  restore_workflow_version_contract_def get_workflow_draft_diff_contract_def get_workflow_draft_contract_def
  save_workflow_draft_contract_def create_recording_session_contract_def
  checkpoint_recording_session_contract_def create_recording_secret_contract_def
  recording_auth_state_options_contract_def capture_recording_auth_states_contract_def
  finalize_recording_session_contract_def delete_workflow_contract_def get_workflow_contract_def
  rename_workflow_contract_def duplicate_workflow_contract_def start_run_contract_def
  get_workflow_selector_drift_contract_def list_runs_contract_def get_attention_contract_def
  delete_run_contract_def get_run_contract_def consent_run_auth_state_contract_def
  stream_run_events_contract_def list_run_logs_contract_def get_run_output_contract_def
  download_run_artifact_contract_def locate_run_artifact_contract_def cancel_run_contract_def
  pause_run_contract_def mint_stream_ticket_contract_def take_over_run_contract_def hold_takeover_contract_def
  hand_back_run_contract_def abandon_takeover_contract_def preview_schedule_contract_def
  list_all_schedules_contract_def list_schedules_contract_def create_schedule_contract_def
  delete_schedule_contract_def get_schedule_contract_def update_schedule_contract_def
  run_schedule_now_contract_def create_batch_contract_def list_batches_contract_def get_batch_contract_def
  get_batch_output_contract_def stream_batch_events_contract_def cancel_batch_contract_def
  update_batch_row_contract_def fill_batch_rows_contract_def skip_batch_row_contract_def
  rerun_batch_row_contract_def get_health_contract_def get_greeting_contract_def

section \<open>The two files agree\<close>

text \<open>What is declared for a call is about the same URL with the same parameters, and has a body when the call sends JSON.\<close>

definition declares :: "endpoint \<Rightarrow> bool" where
  "declares e \<longleftrightarrow>
     ct_url (contract_of e) = template (rt_path (route_of e)) \<and>
     map fst (ct_path (contract_of e)) = parameters e \<and>
     (rt_json (route_of e) \<longleftrightarrow> ct_body (contract_of e) \<noteq> None)"

lemma every_call_declared: "list_all declares all_endpoints"
  by code_simp

text \<open>The bodies of the errors of a call: with a code, or, for the requests that are not understood, without.
  One call has its own refusal for these.\<close>

definition errors_readable :: "endpoint \<Rightarrow> bool" where
  "errors_readable e \<longleftrightarrow>
     distinct (map fst (ct_errors (contract_of e))) \<and>
     list_all (\<lambda>(status, t).
         t = (if status = 422 \<and> e \<noteq> Run_endpoint Consent_run_auth_state then http_validation_error_shape else error_body_shape))
       (ct_errors (contract_of e))"

lemma every_error_readable: "list_all errors_readable all_endpoints"
  by code_simp

section \<open>Properties\<close>


text \<open>Every refusal that is declared for a call can be told: its body has a code and a message, which are
  texts. The exception is status 422, a request that was not understood, of every call but the consent to
  keep a login. No status is declared twice.\<close>

theorem refusals_have_codes:
  assumes "(status, t) \<in> set (ct_errors (contract_of e))" and "status = 422 \<Longrightarrow> e = Run_endpoint Consent_run_auth_state"
    and "conforms t v"
  shows "(\<exists>code message. said v ''code'' = Str code \<and> said v ''message'' = Str message) \<and>
    (\<forall>t'. (status, t') \<in> set (ct_errors (contract_of e)) \<longrightarrow> t' = t)"
proof -
  have readable: "errors_readable e" using every_error_readable every_endpoint [of e] by (simp add: list_all_iff)
  have only: "t' = error_body_shape" if declared: "(status, t') \<in> set (ct_errors (contract_of e))" for t'
  proof -
    have "t' = (if status = 422 \<and> e \<noteq> Run_endpoint Consent_run_auth_state then http_validation_error_shape else error_body_shape)"
      using readable declared unfolding errors_readable_def list_all_iff by fast
    then show ?thesis using assms(2) by auto
  qed
  then have t: "t = error_body_shape" using assms(1) by simp
  then have "\<exists>code message. said v ''code'' = Str code \<and> said v ''message'' = Str message"
    using assms(3) by (auto simp: error_body_shape_def split: js.splits)
  then show ?thesis using only t by blast
qed

theorem refusals_have_codes_witness:
  "(\<exists>code message. said (Obj [(''code'', Str ''run_not_found''), (''message'', Str ''No such Run.'')]) ''code'' = Str code \<and>
      said (Obj [(''code'', Str ''run_not_found''), (''message'', Str ''No such Run.'')]) ''message'' = Str message) \<and>
   (404, error_body_shape) \<in> set (ct_errors (contract_of (Run_endpoint Get_run)))"
proof -
  have declared: "(404, error_body_shape) \<in> set (ct_errors (contract_of (Run_endpoint Get_run)))"
    by (simp add: get_run_contract_def coded_def)
  have conforms: "conforms error_body_shape (Obj [(''code'', Str ''run_not_found''), (''message'', Str ''No such Run.'')])"
    by code_simp
  have "(404 :: nat) = 422 \<Longrightarrow> Run_endpoint Get_run = Run_endpoint Consent_run_auth_state" by simp
  from refusals_have_codes [OF declared this conforms] declared show ?thesis by blast
qed

end
