(* ===== verification/ApiUse.thy ===== *)
theory ApiUse
  imports ApiContract Queries
begin

text \<open>
  What the pages ask of the API, compared with what the API declares: the queries of theory Queries
  (\<open>queries.ts\<close> of the pages) against the contracts of theory ApiContract.
\<close>

section \<open>Asking as declared\<close>

text \<open>A call asks as declared when it fills the path, sends the required values of the query and no others
  than the declared, and has the declared body, or none where none is declared.\<close>

definition names_of :: "(string \<times> bool \<times> ts_type) list \<Rightarrow> string set" where
  "names_of declared = set (map fst declared)"

definition required_of :: "(string \<times> bool \<times> ts_type) list \<Rightarrow> string set" where
  "required_of declared = set (map fst (filter (\<lambda>(_, needed, _). needed) declared))"

definition body_declared :: "contract \<Rightarrow> js option \<Rightarrow> bool" where
  "body_declared k body \<longleftrightarrow>
     (case (ct_body k, body) of
        (None, None) \<Rightarrow> True
      | (Some (_, t), Some v) \<Rightarrow> conforms t v
      | (Some (needed, _), None) \<Rightarrow> \<not> needed
      | (None, Some _) \<Rightarrow> False)"

definition asks_as_declared :: "api_call \<Rightarrow> bool" where
  "asks_as_declared c \<longleftrightarrow>
     (let k = contract_of (ca_endpoint c) in
      names_of (ct_path k) = set (map fst (ca_path c)) \<and>
      required_of (ct_query k) \<subseteq> set (map fst (ca_query c)) \<and>
      set (map fst (ca_query c)) \<subseteq> names_of (ct_query k) \<and>
      body_declared k (ca_body c))"

lemmas asking_defs = asks_as_declared_def names_of_def required_of_def body_declared_def Let_def

lemma sent_filter_names: "fst ` set (sent_filter filters key) \<subseteq> {key}"
  by (auto simp: sent_filter_def split: option.splits if_splits)

lemma sent_cursor_names: "fst ` set (sent_cursor cursor) \<subseteq> {''cursor''}"
  by (auto simp: sent_cursor_def split: option.splits)

lemma texts_names [simp]: "fst ` set (texts ps) = fst ` set ps"
  by (force simp: texts_def)

lemma filters_ask_as_declared:
  "asks_as_declared (api_get (Run_endpoint List_runs) [] (texts (run_page_query filters cursor limit)))"
  "asks_as_declared (api_get (Schedule_endpoint List_all_schedules) [] (texts (schedule_page_query filters cursor limit)))"
  "asks_as_declared (api_get (Batch_endpoint List_batches) [] (texts (batch_page_query workflow_id cursor limit)))"
  "asks_as_declared (api_get (Workflow_endpoint List_workflows) []
     (texts ([(''q'', typed), (''sort'', sort_by), (''limit'', ''40'')] @ sent_cursor cursor)))"
  using sent_filter_names [of filters] sent_cursor_names [of cursor]
  by (auto simp: asking_defs api_get_def run_page_query_def schedule_page_query_def batch_page_query_def
      list_runs_contract_def list_all_schedules_contract_def list_batches_contract_def list_workflows_contract_def image_Un)

text \<open>C17. Everything that the pages read, they ask for as the API declares it: each call of each query fills the path, sends every
  value of the query string that is required and none that is not declared, whatever filters stand in the address of the
  page, and has a body, of the declared type, exactly where one is declared.\<close>

theorem queries_ask_as_declared:
  "\<forall>c \<in> set (calls q cursor). asks_as_declared c"
  by (cases q)
    (simp_all add: asked_defs filters_ask_as_declared del: append.simps texts_def,
     auto simp: asking_defs api_get_def of_workflow_def of_draft_def of_run_def of_batch_def version_call_def contract_defs
       preview_request_shape_def split: option.splits)

definition failed_runs :: api_call where
  "failed_runs =
     \<lparr>ca_endpoint = Run_endpoint List_runs, ca_path = [],
      ca_query = [(''limit'', Str (show_int page_size)), (''status'', Str ''failed'')], ca_body = None\<rparr>"

theorem queries_ask_as_declared_witness:
  "failed_runs \<in> set (calls (Runs_list_query ''o1'' [(''status'', ''failed''), (''theme'', ''dark'')]) None) \<and>
   asks_as_declared failed_runs"
proof -
  have "failed_runs \<in> set (calls (Runs_list_query ''o1'' [(''status'', ''failed''), (''theme'', ''dark'')]) None)"
    by (simp add: failed_runs_def asked_defs api_get_def run_page_query_def sent_filter_def sent_cursor_def texts_def)
  with queries_ask_as_declared show ?thesis by blast
qed

end
