(* ===== verification/WorkerEvents.thy ===== *)
theory WorkerEvents
  imports ConnectWorker
begin

text \<open>
  The events of the browser that wake the extension's worker
  (\<open>apps/extension/src/service-worker.js\<close>): which tabs the bridge is put into, the attempt that
  the permission event and the popup share, and the queue that the events of a recording go
  through, one piece of work after the other, with the work that fails. What the browser and the
  API answer is an input of the step that waits for it.
\<close>

section \<open>The bridge\<close>

text \<open>The tabs the bridge is put into: the tab of the attempt that is pending.\<close>

definition inject_into_the_connect_page :: "int \<Rightarrow> int \<Rightarrow> connect_state \<Rightarrow> int list \<times> connect_state" where
  "inject_into_the_connect_page now tab c =
     (case read_attempt now c of
        (None, c') \<Rightarrow> ([], c')
      | (Some a, c') \<Rightarrow> (if at_tab a = tab then [tab] else [], c'))"

definition inject_if_loaded :: "int \<Rightarrow> int \<Rightarrow> bool \<Rightarrow> connect_state \<Rightarrow> int list \<times> connect_state" where
  "inject_if_loaded now tab loaded c = (if loaded then inject_into_the_connect_page now tab c else ([], c))"

text \<open>The tabs the browser finds for the pattern of the connected origin; one may have no id.\<close>

definition inject_into_connected_tabs :: "(string \<Rightarrow> int option list) \<Rightarrow> string \<Rightarrow> int list" where
  "inject_into_connected_tabs queried origin = List.map_filter id (queried (origin_pattern origin))"

text \<open>\<open>tab_url\<close> is the address the browser gives for the tab, if it may tell it.\<close>

definition inject_into_connected_page :: "url_parser \<Rightarrow> int \<Rightarrow> string option \<Rightarrow> connect_state \<Rightarrow> int list" where
  "inject_into_connected_page parse tab tab_url c =
     (case cn_connection c of
        None \<Rightarrow> []
      | Some held \<Rightarrow>
          (case Option.bind tab_url parse of
             None \<Rightarrow> []
           | Some u \<Rightarrow> if ur_origin u = held then [tab] else []))"

definition tab_updated ::
    "url_parser \<Rightarrow> int \<Rightarrow> int \<Rightarrow> bool \<Rightarrow> string option \<Rightarrow> connect_state \<Rightarrow> int list \<times> connect_state" where
  "tab_updated parse now tab loaded tab_url c =
     (if \<not> loaded then ([], c)
      else (let (opened, c') = inject_into_the_connect_page now tab c
            in (opened @ inject_into_connected_page parse tab tab_url c', c')))"

text \<open>The site access that is given back when the extension disconnects, after it has answered.\<close>

definition access_given_back :: "connect_state \<Rightarrow> string option" where
  "access_given_back c = map_option origin_pattern (cn_connection c)"

section \<open>An attempt that is shared\<close>

text \<open>What becomes of an intent that is read: it stays, it is thrown away, or it is taken.\<close>

datatype 'i taking = Leave | Throw_away | Take 'i

definition connect_taking :: "int \<Rightarrow> string list option \<Rightarrow> connect_intent option \<Rightarrow> connect_intent taking" where
  "connect_taking now origins stored =
     (case stored of
        None \<Rightarrow> Leave
      | Some i \<Rightarrow>
          if intent_lifetime_ms < now - in_announced i then Throw_away
          else if (case origins of None \<Rightarrow> False
              | Some granted \<Rightarrow> origin_pattern (string_of_js (in_origin i)) \<notin> set granted) then Leave
          else Take i)"

definition start_taking ::
    "url_parser \<Rightarrow> int \<Rightarrow> string list option \<Rightarrow> start_intent option \<Rightarrow> start_intent taking" where
  "start_taking parse now origins stored =
     (case stored of
        None \<Rightarrow> Throw_away
      | Some i \<Rightarrow>
          if intent_lifetime_ms < now - si_announced i then Throw_away
          else (case parse (si_url i) of
            None \<Rightarrow> Leave
          | Some u \<Rightarrow>
              if (case origins of None \<Rightarrow> False | Some granted \<Rightarrow> origin_pattern (ur_origin u) \<notin> set granted)
              then Leave else Take i))"

text \<open>
  The stages of an attempt: it waits for the stored intent, for its removal, for the work. An
  announcement is known by its number, an attempt by its place among all that were made;
  \<open>sh_finishing\<close> is the one that a call joins, \<open>fl_joined\<close> the callers it answers.
\<close>

datatype 'i stage =
    Reading_intent "string list option"
  | Removing_intent "(nat \<times> 'i) option"
  | Performing "(nat \<times> 'i) option"
  | Attempt_settled

record 'i flight =
  fl_stage :: "'i stage"
  fl_joined :: nat

record 'i shared =
  sh_stored :: "(nat \<times> 'i) option"
  sh_flights :: "'i flight list"
  sh_finishing :: "nat option"
  sh_next :: nat
  sh_performed :: "nat list"
  sh_answered :: "nat option list"

datatype 'i shared_event = Announce 'i | Forget | Call "string list option" | Proceed nat int

definition nothing_shared :: "'i shared" where
  "nothing_shared =
     \<lparr>sh_stored = None, sh_flights = [], sh_finishing = None, sh_next = 0, sh_performed = [], sh_answered = []\<rparr>"

text \<open>\<open>finishConnect\<close> and \<open>finishRecordingStart\<close>: a call joins the attempt that runs, or starts one.\<close>

definition join :: "string list option \<Rightarrow> 'i shared \<Rightarrow> 'i shared" where
  "join origins s =
     (case sh_finishing s of
        None \<Rightarrow>
          s\<lparr>sh_flights := sh_flights s @ [\<lparr>fl_stage = Reading_intent origins, fl_joined = 1\<rparr>],
            sh_finishing := Some (length (sh_flights s))\<rparr>
      | Some k \<Rightarrow>
          s\<lparr>sh_flights := (sh_flights s)[k := (sh_flights s ! k)\<lparr>fl_joined := Suc (fl_joined (sh_flights s ! k))\<rparr>]\<rparr>)"

definition to_stage :: "nat \<Rightarrow> 'i stage \<Rightarrow> 'i shared \<Rightarrow> 'i shared" where
  "to_stage k stage s = s\<lparr>sh_flights := (sh_flights s)[k := (sh_flights s ! k)\<lparr>fl_stage := stage\<rparr>]\<rparr>"

text \<open>An attempt goes on: when its work is done every caller that joined has its answer, and the next
  call starts another.\<close>

definition proceed :: "(string list option \<Rightarrow> 'i option \<Rightarrow> 'i taking) \<Rightarrow> nat \<Rightarrow> 'i shared \<Rightarrow> 'i shared" where
  "proceed judge k s =
     (if length (sh_flights s) \<le> k then s
      else case fl_stage (sh_flights s ! k) of
        Reading_intent origins \<Rightarrow>
          to_stage k (case judge origins (map_option snd (sh_stored s)) of
             Leave \<Rightarrow> Performing None
           | Throw_away \<Rightarrow> Removing_intent None
           | Take _ \<Rightarrow> Removing_intent (sh_stored s)) s
      | Removing_intent taken \<Rightarrow>
          (to_stage k (Performing taken) s)
            \<lparr>sh_stored := None,
             sh_performed := sh_performed s @ (case taken of None \<Rightarrow> [] | Some (n, _) \<Rightarrow> [n])\<rparr>
      | Performing taken \<Rightarrow>
          (to_stage k Attempt_settled s)
            \<lparr>sh_finishing := (if sh_finishing s = Some k then None else sh_finishing s),
             sh_answered := sh_answered s @ replicate (fl_joined (sh_flights s ! k)) (map_option fst taken)\<rparr>
      | Attempt_settled \<Rightarrow> s)"

fun shared_step ::
    "(int \<Rightarrow> string list option \<Rightarrow> 'i option \<Rightarrow> 'i taking) \<Rightarrow> 'i shared \<Rightarrow> 'i shared_event \<Rightarrow> 'i shared" where
  "shared_step judge s (Announce i) = s\<lparr>sh_stored := Some (sh_next s, i), sh_next := Suc (sh_next s)\<rparr>"
| "shared_step judge s Forget = s\<lparr>sh_stored := None\<rparr>"
| "shared_step judge s (Call origins) = join origins s"
| "shared_step judge s (Proceed k now) = proceed (judge now) k s"

section \<open>The queue\<close>

record navigation =
  nv_tab :: int
  nv_frame :: int
  nv_url :: string
  nv_transition :: string

datatype queued_work =
    Read_frames
  | Remember_host navigation
  | Record_page navigation bool
  | Assemble int js
  | Mark_download

datatype browser_event =
    Before_navigate int
  | Committed navigation
  | Routed navigation
  | Download_created
  | Interaction int js

text \<open>The work an event puts in the queue. A frame within the page is no page the Workflow moved to.\<close>

fun works_of :: "browser_event \<Rightarrow> queued_work list" where
  "works_of (Before_navigate frame) = (if frame = 0 then [Read_frames] else [])"
| "works_of (Committed n) = Remember_host n # (if nv_frame n = 0 then [Record_page n False] else [])"
| "works_of (Routed n) = Remember_host n # (if nv_frame n = 0 then [Record_page n True] else [])"
| "works_of Download_created = [Mark_download]"
| "works_of (Interaction tab message) = [Assemble tab message]"

text \<open>What a piece of work meets: the clock, a fresh id, the storage of the frames, the role that was
  fetched, and the API's answer to a checkpoint.\<close>

record surroundings =
  su_now :: int
  su_fresh :: string
  su_frames :: "(string \<times> js \<times> js) list"
  su_found :: "prefetched option"
  su_checkpoint :: "unit api_answer"

text \<open>\<open>sendCheckpoint\<close>: a refusal other than that of the token is thrown.\<close>

definition send_checkpoint ::
    "unit api_answer \<Rightarrow> active_recording \<Rightarrow> active_recording \<times> recorder_effect list \<times> bool" where
  "send_checkpoint answer a =
     (case answer of
        Answered _ \<Rightarrow> (a, [], True)
      | Unauthorized \<Rightarrow> (let (a', sent) = mark_token_expired a in (a', sent, True))
      | _ \<Rightarrow> (a, [], False))"

text \<open>The effects of a handler in their order, up to a checkpoint that fails. The failures of the
  others are caught where they arise.\<close>

fun perform_effects ::
    "unit api_answer \<Rightarrow> active_recording \<Rightarrow> recorder_effect list \<Rightarrow>
     active_recording \<times> recorder_effect list \<times> bool" where
  "perform_effects answer a [] = (a, [], True)"
| "perform_effects answer a (Send_checkpoint n steps # rest) =
     (case send_checkpoint answer a of
        (a', marked, True) \<Rightarrow>
          (let (a'', later, ok) = perform_effects answer a' rest
           in (a'', Send_checkpoint n steps # marked @ later, ok))
      | (a', marked, False) \<Rightarrow> (a', Send_checkpoint n steps # marked, False))"
| "perform_effects answer a (e # rest) =
     (let (a', later, ok) = perform_effects answer a rest in (a', e # later, ok))"

text \<open>The handler of a piece of work, on the recording it reads.\<close>

fun work_body ::
    "url_parser \<Rightarrow> surroundings \<Rightarrow> queued_work \<Rightarrow> active_recording \<Rightarrow>
     active_recording option \<times> recorder_effect list" where
  "work_body parse su Read_frames a = (Some (capture_open_frame_storage parse (su_frames su) a), [])"
| "work_body parse su (Remember_host n) a = (Some (remember_visited_host parse (nv_tab n) (nv_url n) a), [])"
| "work_body parse su (Record_page n routed) a =
     (let (a', sent) = record_navigation parse (su_fresh su) (su_now su) (nv_tab n) (nv_url n) (nv_transition n) routed a
      in (Some a', sent))"
| "work_body parse su (Assemble tab message) a =
     assemble_interaction tab (su_fresh su) (su_now su) message (su_found su) a"
| "work_body parse su Mark_download a =
     (let (a', sent) = record_recent_click_as_download (su_now su) a in (Some a', sent))"

text \<open>A piece of work, whole: what is stored after it, what it did, and whether it came to its end.
  What it stored before a failure stays.\<close>

definition run_work ::
    "url_parser \<Rightarrow> queued_work \<times> surroundings \<Rightarrow> active_recording option \<Rightarrow>
     active_recording option \<times> recorder_effect list \<times> bool" where
  "run_work parse job stored =
     (case stored of
        None \<Rightarrow> (None, [], True)
      | Some a \<Rightarrow>
          (case work_body parse (snd job) (fst job) a of
             (None, sent) \<Rightarrow> (None, sent, True)
           | (Some a', sent) \<Rightarrow>
               (let (a'', performed, ok) = perform_effects (su_checkpoint (snd job)) a' sent
                in (Some a'', performed, ok))))"

text \<open>Work after work, whatever became of the one before.\<close>

definition run_works ::
    "url_parser \<Rightarrow> (queued_work \<times> surroundings) list \<Rightarrow> active_recording option \<Rightarrow> active_recording option" where
  "run_works parse jobs stored = foldl (\<lambda>s job. fst (run_work parse job s)) stored jobs"

text \<open>\<open>enqueueRecording\<close>: work is put behind the work that waits, and the first in the queue is what
  runs next. Its step is where all it waits for has been answered.\<close>

record recording_queue =
  rq_stored :: "active_recording option"
  rq_waiting :: "queued_work list"
  rq_done :: "(queued_work \<times> surroundings) list"

datatype queue_event = Happened browser_event | Worked surroundings

fun queue_step :: "url_parser \<Rightarrow> recording_queue \<Rightarrow> queue_event \<Rightarrow> recording_queue" where
  "queue_step parse q (Happened e) = q\<lparr>rq_waiting := rq_waiting q @ works_of e\<rparr>"
| "queue_step parse q (Worked su) =
     (case rq_waiting q of
        [] \<Rightarrow> q
      | w # rest \<Rightarrow>
          q\<lparr>rq_stored := fst (run_work parse (w, su) (rq_stored q)), rq_waiting := rest, rq_done := rq_done q @ [(w, su)]\<rparr>)"

definition queue_of :: "active_recording option \<Rightarrow> recording_queue" where
  "queue_of stored = \<lparr>rq_stored = stored, rq_waiting = [], rq_done = []\<rparr>"

definition happened :: "queue_event list \<Rightarrow> browser_event list" where
  "happened es = List.map_filter (\<lambda>e. case e of Happened b \<Rightarrow> Some b | Worked _ \<Rightarrow> None) es"

section \<open>Lemmas\<close>

lemma take_intent_taking:
  "take_intent now origins c =
     (case connect_taking now origins (cn_intent c) of
        Leave \<Rightarrow> (None, c)
      | Throw_away \<Rightarrow> (None, c\<lparr>cn_intent := None\<rparr>)
      | Take i \<Rightarrow> (Some i, c\<lparr>cn_intent := None\<rparr>))"
  by (auto simp: take_intent_def connect_taking_def split: option.split)

lemma take_recording_intent_taking:
  "take_recording_intent parse now origins stored =
     (case start_taking parse now origins stored of
        Leave \<Rightarrow> (None, stored)
      | Throw_away \<Rightarrow> (None, None)
      | Take i \<Rightarrow> (Some i, None))"
  by (auto simp: take_recording_intent_def start_taking_def split: option.split)

text \<open>
  What holds of a shared attempt: only the one that calls join is under way; no intent was done twice, and
  the one that is stored or being removed was not done yet; and the callers are those
  of the attempts that settled, with their answers, or of the one that runs.
\<close>

definition shared_ok :: "'i shared \<Rightarrow> bool" where
  "shared_ok s \<longleftrightarrow>
     (\<forall>k < length (sh_flights s). fl_stage (sh_flights s ! k) \<noteq> Attempt_settled \<longleftrightarrow> sh_finishing s = Some k) \<and>
     (\<forall>k. sh_finishing s = Some k \<longrightarrow> k < length (sh_flights s)) \<and>
     distinct (sh_performed s) \<and> set (sh_performed s) \<subseteq> {..<sh_next s} \<and>
     (\<forall>n i. sh_stored s = Some (n, i) \<longrightarrow> n < sh_next s \<and> n \<notin> set (sh_performed s)) \<and>
     (\<forall>k < length (sh_flights s). \<forall>n i. fl_stage (sh_flights s ! k) = Removing_intent (Some (n, i)) \<longrightarrow>
        n < sh_next s \<and> n \<notin> set (sh_performed s))"

definition calls_made :: "'i shared_event list \<Rightarrow> nat" where
  "calls_made es = length (filter (\<lambda>e. case e of Call _ \<Rightarrow> True | _ \<Rightarrow> False) es)"

definition still_joined :: "'i shared \<Rightarrow> nat" where
  "still_joined s = (case sh_finishing s of None \<Rightarrow> 0 | Some k \<Rightarrow> fl_joined (sh_flights s ! k))"

text \<open>The contract of what decides on an intent: it takes only the one that is stored.\<close>

locale intent_judge =
  fixes judge :: "int \<Rightarrow> string list option \<Rightarrow> 'i option \<Rightarrow> 'i taking"
  assumes takes_stored: "judge now origins stored = Take i \<Longrightarrow> stored = Some i"
begin

lemma shared_ok_proceed: "shared_ok s \<Longrightarrow> shared_ok (proceed (judge now) k s)"
proof (cases "k < length (sh_flights s)")
  case True
  assume ok: "shared_ok s"
  show ?thesis
  proof (cases "fl_stage (sh_flights s ! k)")
    case (Reading_intent origins)
    with ok True show ?thesis
      by (auto simp: shared_ok_def proceed_def to_stage_def nth_list_update split: taking.split)
  next
    case (Removing_intent taken)
    have alone: "fl_stage (sh_flights s ! j) = Attempt_settled" if "j < length (sh_flights s)" "j \<noteq> k" for j
    proof -
      have "sh_finishing s = Some k" using ok True Removing_intent by (auto simp: shared_ok_def)
      with ok that show ?thesis unfolding shared_ok_def by (metis option.inject)
    qed
    have "taken = Some (n, i) \<Longrightarrow> n < sh_next s \<and> n \<notin> set (sh_performed s)" for n i
      using ok True Removing_intent by (auto simp: shared_ok_def)
    with ok True Removing_intent alone show ?thesis
      by (cases taken) (auto simp: shared_ok_def proceed_def to_stage_def nth_list_update)
  next
    case (Performing taken)
    with ok True show ?thesis
      by (auto simp: shared_ok_def proceed_def to_stage_def nth_list_update)
  next
    case Attempt_settled
    with ok True show ?thesis by (simp add: proceed_def)
  qed
qed (simp add: proceed_def)

lemma shared_ok_join: "shared_ok s \<Longrightarrow> shared_ok (join origins s)"
  by (cases "sh_finishing s") (auto simp: shared_ok_def join_def nth_append nth_list_update less_Suc_eq)

lemma shared_ok_step: "shared_ok s \<Longrightarrow> shared_ok (shared_step judge s e)"
  by (cases e) (auto simp: shared_ok_proceed shared_ok_join, auto simp: shared_ok_def less_Suc_eq)

sublocale reducer "shared_step judge" shared_ok
  by unfold_locales (rule shared_ok_step)

lemma run_ok: "shared_ok (foldl (shared_step judge) nothing_shared es)"
  by (rule run_inv) (simp add: shared_ok_def nothing_shared_def)

lemma performed_once: "distinct (sh_performed (foldl (shared_step judge) nothing_shared es))"
  using run_ok [of es] by (simp add: shared_ok_def)

lemma answered_step:
  assumes "shared_ok s"
  shows "length (sh_answered (shared_step judge s e)) + still_joined (shared_step judge s e) =
    length (sh_answered s) + still_joined s + calls_made [e]"
proof (cases e)
  case (Call origins)
  with assms show ?thesis
    by (auto simp: join_def still_joined_def calls_made_def shared_ok_def split: option.split)
next
  case (Proceed k now)
  show ?thesis
  proof (cases "k < length (sh_flights s) \<and> fl_stage (sh_flights s ! k) \<noteq> Attempt_settled")
    case True
    then have "sh_finishing s = Some k" using assms by (auto simp: shared_ok_def)
    with Proceed True show ?thesis
      by (cases "fl_stage (sh_flights s ! k)") (simp_all add: proceed_def to_stage_def still_joined_def calls_made_def)
  next
    case False
    then have "proceed (judge now) k s = s" by (auto simp: proceed_def)
    with Proceed show ?thesis by (simp add: still_joined_def calls_made_def)
  qed
qed (simp_all add: still_joined_def calls_made_def split: option.split)

lemma every_call_counted:
  "length (sh_answered (foldl (shared_step judge) nothing_shared es)) +
     still_joined (foldl (shared_step judge) nothing_shared es) = calls_made es"
proof (induction es rule: rev_induct)
  case Nil
  show ?case by (simp add: nothing_shared_def still_joined_def calls_made_def)
next
  case (snoc e es)
  then show ?case using answered_step [OF run_ok, of es e] by (simp add: calls_made_def)
qed

lemma settles:
  assumes "shared_ok s" and "sh_finishing s = Some k"
  shows "sh_finishing (foldl (shared_step judge) s (map (Proceed k) [t, t', t''])) = None"
proof -
  have "k < length (sh_flights s)" "fl_stage (sh_flights s ! k) \<noteq> Attempt_settled"
    using assms by (auto simp: shared_ok_def)
  with assms(2) show ?thesis
    by (cases "fl_stage (sh_flights s ! k)") (auto simp: proceed_def to_stage_def split: taking.split)
qed

end

interpretation connecting_once: intent_judge connect_taking
  by unfold_locales (auto simp: connect_taking_def split: option.splits if_splits)

interpretation starting_once: intent_judge "start_taking parse" for parse
  by unfold_locales (auto simp: start_taking_def split: option.splits if_splits)

lemma run_works_snoc [simp]:
  "run_works parse (jobs @ [job]) stored = fst (run_work parse job (run_works parse jobs stored))"
  by (simp add: run_works_def)

lemma run_works_Nil [simp]: "run_works parse [] stored = stored"
  by (simp add: run_works_def)

lemma happened_snoc [simp]:
  "happened (es @ [Happened b]) = happened es @ [b]" "happened (es @ [Worked su]) = happened es" "happened [] = []"
  by (simp_all add: happened_def List.map_filter_def)

lemma queue_is_in_order:
  "rq_stored (foldl (queue_step parse) (queue_of stored) es) =
     run_works parse (rq_done (foldl (queue_step parse) (queue_of stored) es)) stored \<and>
   map fst (rq_done (foldl (queue_step parse) (queue_of stored) es)) @
     rq_waiting (foldl (queue_step parse) (queue_of stored) es) = concat (map works_of (happened es))"
proof (induction es rule: rev_induct)
  case Nil
  show ?case by (simp add: queue_of_def)
next
  case (snoc e es)
  show ?case
  proof (cases e)
    case (Happened b)
    with snoc show ?thesis by (simp add: append_assoc [symmetric] del: append_assoc)
  next
    case (Worked su)
    with snoc show ?thesis
      by (auto split: list.split)
  qed
qed

text \<open>A failing checkpoint ends its handler: what comes behind it is not done.\<close>

definition thrown :: "unit api_answer \<Rightarrow> bool" where
  "thrown answer \<longleftrightarrow> (case answer of Unreachable \<Rightarrow> True | Refused _ _ \<Rightarrow> True | _ \<Rightarrow> False)"

lemma perform_effects_frame:
  "fst (perform_effects answer a sent) = a \<or> fst (perform_effects answer a sent) = a\<lparr>ac_expired := True\<rparr>"
proof (induction sent arbitrary: a)
  case (Cons e sent)
  show ?case
  proof (cases "\<exists>n steps. e = Send_checkpoint n steps")
    case True
    then show ?thesis
      using Cons [of a] Cons [of "a\<lparr>ac_expired := True\<rparr>"]
      by (cases answer) (auto simp: send_checkpoint_def mark_token_expired_def Let_def case_prod_beta simp del: ex_simps)
  next
    case False
    then show ?thesis using Cons [of a] by (cases e) (simp_all add: Let_def case_prod_beta)
  qed
qed simp

lemma perform_checkpoint:
  "perform_effects answer a (Send_checkpoint n steps # rest) =
     (if thrown answer then (a, [Send_checkpoint n steps], False)
      else (let (a', marked, _) = send_checkpoint answer a; (a'', later, ok) = perform_effects answer a' rest
            in (a'', Send_checkpoint n steps # marked @ later, ok)))"
  by (cases answer) (simp_all add: thrown_def send_checkpoint_def mark_token_expired_def)

lemma work_body_ok:
  assumes "recording_ok a" and "su_fresh su \<notin> rd_id ` set (ac_steps a)"
  shows "pred_option recording_ok (fst (work_body parse su w a))"
proof (rule body_ok [OF _ assms(1)])
  show "body a (fst (work_body parse su w a))"
    using assms(2) by (cases w) (auto simp: split_beta intro: body.intros)
qed

lemma run_work_ok:
  assumes "pred_option recording_ok stored"
    and "\<And>a. stored = Some a \<Longrightarrow> su_fresh (snd job) \<notin> rd_id ` set (ac_steps a)"
  shows "pred_option recording_ok (fst (run_work parse job stored))"
proof (cases stored)
  case None
  then show ?thesis by (simp add: run_work_def)
next
  case (Some a)
  obtain kept sent where body: "work_body parse (snd job) (fst job) a = (kept, sent)" by fastforce
  have ok: "pred_option recording_ok kept"
    using work_body_ok [of a "snd job" parse "fst job"] assms Some body by simp
  show ?thesis
  proof (cases kept)
    case None
    with Some body show ?thesis by (simp add: run_work_def)
  next
    case (Some b)
    then have "recording_ok (b\<lparr>ac_expired := True\<rparr>)"
      using ok by (auto intro: recording_ok_frame)
    then have "recording_ok (fst (perform_effects (su_checkpoint (snd job)) b sent))"
      using ok Some perform_effects_frame [of "su_checkpoint (snd job)" b sent] by auto
    with Some body \<open>stored = Some a\<close> show ?thesis by (simp add: run_work_def split_beta)
  qed
qed

text \<open>The ids that the works are given are those of no Step that is there when they run.\<close>

fun fresh_works :: "url_parser \<Rightarrow> (queued_work \<times> surroundings) list \<Rightarrow> active_recording option \<Rightarrow> bool" where
  "fresh_works parse [] stored = True"
| "fresh_works parse (job # jobs) stored =
     ((case stored of None \<Rightarrow> True | Some a \<Rightarrow> su_fresh (snd job) \<notin> rd_id ` set (ac_steps a)) \<and>
      fresh_works parse jobs (fst (run_work parse job stored)))"

lemma run_works_ok:
  "pred_option recording_ok stored \<Longrightarrow> fresh_works parse jobs stored \<Longrightarrow>
   pred_option recording_ok (run_works parse jobs stored)"
proof (induction jobs arbitrary: stored)
  case (Cons job jobs)
  then have "pred_option recording_ok (fst (run_work parse job stored))"
    by (intro run_work_ok) auto
  with Cons show ?case by (simp add: run_works_def)
qed simp

section \<open>Properties\<close>

text \<open>C4. However often the popup and the permission event ask for it, and however their asking, new
  announcements and the waiting of the worker interleave: an announced intent, to connect or
  to start a recording, is done at most once. Every caller is answered when the attempt it joined settles, and
  an attempt settles once its three waits are over; the next call starts a new one.\<close>

theorem intents_are_done_once:
  "(let connects = foldl (shared_step connect_taking) nothing_shared connect_events;
        starts = foldl (shared_step (start_taking parse)) nothing_shared start_events in
    distinct (sh_performed connects) \<and> distinct (sh_performed starts) \<and>
    length (sh_answered connects) + still_joined connects = calls_made connect_events \<and>
    length (sh_answered starts) + still_joined starts = calls_made start_events \<and>
    (\<forall>k t t' t''. sh_finishing connects = Some k \<longrightarrow>
       sh_finishing (foldl (shared_step connect_taking) connects (map (Proceed k) [t, t', t''])) = None) \<and>
    (\<forall>k t t' t''. sh_finishing starts = Some k \<longrightarrow>
       sh_finishing (foldl (shared_step (start_taking parse)) starts (map (Proceed k) [t, t', t''])) = None))"
  unfolding Let_def
  using connecting_once.performed_once starting_once.performed_once
    connecting_once.every_call_counted starting_once.every_call_counted
    connecting_once.settles [OF connecting_once.run_ok] starting_once.settles [OF starting_once.run_ok]
  by blast

definition sample_connects :: "connect_intent shared_event list" where
  "sample_connects =
     [Announce \<lparr>in_origin = Str ''https://sbs.test'', in_how = By_page, in_code = [], in_announced = 0\<rparr>,
      Call (Some [''https://sbs.test/*'']), Call None]"

theorem intents_are_done_once_witness:
  "let s = foldl (shared_step connect_taking) nothing_shared sample_connects in
   sh_finishing s = Some 0 \<and>
   sh_finishing (foldl (shared_step connect_taking) s (map (Proceed 0) [5, 6, 7])) = None \<and>
   sh_answered (foldl (shared_step connect_taking) s (map (Proceed 0) [5, 6, 7])) = [Some 0, Some 0]"
proof -
  let ?s = "foldl (shared_step connect_taking) nothing_shared sample_connects"
  have "sh_finishing ?s = Some 0" by code_simp
  moreover have "sh_answered (foldl (shared_step connect_taking) ?s (map (Proceed 0) [5, 6, 7])) = [Some 0, Some 0]"
    by code_simp
  ultimately show ?thesis
    using intents_are_done_once [where connect_events = sample_connects and start_events = "[]"]
    unfolding Let_def by blast
qed


text \<open>
  A page the recorded tab has loaded is given the recorder behind the checkpoint of its navigation.
  When the API cannot be reached, or refuses for another reason than the token, the checkpoint throws, the
  queue reports the failure and goes on: the recorder is not put into the page, and nothing that is done on
  it is recorded. The Step of the navigation is kept.
\<close>

theorem page_is_recorded_if_the_api_answers:
  assumes "ac_tab a = Some (nv_tab n)" and "ac_mode a = Record_mode"
  shows "(let (kept, performed, ok) = run_work parse (Record_page n routed, su) (Some a) in
    (Inject_recorder (nv_tab n) \<in> set performed \<longleftrightarrow> \<not> thrown (su_checkpoint su)) \<and>
    (ok \<longleftrightarrow> \<not> thrown (su_checkpoint su)) \<and>
    (\<exists>b. kept = Some b \<and> ac_seq b = Suc (ac_seq a) \<and> ac_steps b \<noteq> []))"
proof -
  obtain b where b: "record_navigation parse (su_fresh su) (su_now su) (nv_tab n) (nv_url n) (nv_transition n) routed a =
      (b, [Send_checkpoint (ac_seq b) (ac_steps b), Inject_recorder (nv_tab n)])"
    and kept: "ac_seq b = Suc (ac_seq a)" "ac_steps b \<noteq> []"
    using assms by (auto simp: record_navigation_def checkpoint_def Let_def)
  have run: "run_work parse (Record_page n routed, su) (Some a) =
      (let (b', performed, ok) = perform_effects (su_checkpoint su) b
         [Send_checkpoint (ac_seq b) (ac_steps b), Inject_recorder (nv_tab n)] in (Some b', performed, ok))"
    by (simp add: run_work_def b)
  show ?thesis
    using kept unfolding run perform_checkpoint
    by (cases "su_checkpoint su") (auto simp: thrown_def send_checkpoint_def mark_token_expired_def)
qed

text \<open>The queue keeps a recording well-formed, and a frame within the page adds no Step to it.\<close>

theorem queue_keeps_recordings_well_formed:
  assumes "pred_option recording_ok stored"
    and "fresh_works parse (rq_done (foldl (queue_step parse) (queue_of stored) es)) stored"
  shows "pred_option recording_ok (rq_stored (foldl (queue_step parse) (queue_of stored) es))"
  using assms queue_is_in_order [of parse stored es] run_works_ok by metis

theorem frames_within_add_no_step:
  assumes "nv_frame n \<noteq> 0" and "w \<in> set (works_of (Committed n)) \<union> set (works_of (Routed n))"
  shows "\<exists>b. run_work parse (w, su) (Some a) = (Some b, [], True) \<and> ac_steps b = ac_steps a \<and> ac_seq b = ac_seq a"
  using assms by (auto simp: run_work_def remember_visited_host_def split: option.split)

text \<open>The bridge is put into a tab that has loaded if the tab is that of the attempt that is pending, whatever
  address it shows, or if it shows the connected origin; and into no other tab.\<close>

theorem bridge_goes_where_it_belongs:
  "set (fst (tab_updated parse now tab loaded tab_url c)) \<subseteq> {tab} \<and>
   (tab \<in> set (fst (tab_updated parse now tab loaded tab_url c)) \<longleftrightarrow>
      loaded \<and>
      ((\<exists>a. fst (read_attempt now c) = Some a \<and> at_tab a = tab) \<or>
       (\<exists>held u. cn_connection c = Some held \<and> Option.bind tab_url parse = Some u \<and> ur_origin u = held)))"
proof -
  have kept: "cn_connection (snd (read_attempt now c)) = cn_connection c"
    by (simp add: read_attempt_def split: option.split)
  show ?thesis
    by (cases "read_attempt now c"; cases "fst (read_attempt now c)"; cases "cn_connection c"; cases "Option.bind tab_url parse")
      (use kept in \<open>auto simp: tab_updated_def inject_into_the_connect_page_def inject_into_connected_page_def\<close>)
qed

text \<open>
  A permission that was given for another site, while the popup asks, starts the attempt that the popup then
  joins: it finds that its grant is not the intent's and leaves it, and the popup is told that
  it is late, too. The intent is still stored and not done.
\<close>

theorem other_grant_answers_the_popup:
  fixes other :: "string list"
  defines "s \<equiv> \<lambda>i. (nothing_shared :: connect_intent shared)\<lparr>sh_stored := Some (0, i), sh_next := 1\<rparr>"
  assumes "origin_pattern (string_of_js (in_origin i)) \<notin> set other" and "now - in_announced i \<le> intent_lifetime_ms"
  shows "sh_answered (foldl (shared_step connect_taking) (s i) [Call (Some other), Call None, Proceed 0 now, Proceed 0 now]) =
      [None, None] \<and>
    sh_stored (foldl (shared_step connect_taking) (s i) [Call (Some other), Call None, Proceed 0 now, Proceed 0 now]) =
      Some (0, i) \<and>
    connect_taking now None (Some i) = Take i"
  using assms(2,3)
  by (simp add: s_def nothing_shared_def join_def proceed_def to_stage_def connect_taking_def numeral_2_eq_2)

end
