(* ===== verification/RunView.thy ===== *)
theory RunView
  imports Cockpit Durations Variables
begin

text \<open>
  What the page of a Run shows (\<open>app/(shell)/runs/[id]/page.tsx\<close>): the header, the timeline, the rail of Steps,
  the banner, and the drawer with the log, the output and the Artifacts, from the state of theory Cockpit. The
  output is a query of its own, which this theory adds to that state.
\<close>

section \<open>The header\<close>

datatype header_button = Run_again_button | Cancel_button

record run_header =
  rh_title :: string
  rh_short_id :: string
  rh_version :: string
  rh_trigger :: string
  rh_chip :: lifecycle_state
  rh_drift :: "string option"
  rh_button :: "header_button option"
  rh_facts :: "(string \<times> string) list"

definition en_dash :: string where
  "en_dash = [char_of (0xE2 :: nat), char_of (0x80 :: nat), char_of (0x93 :: nat)]"

definition button_of :: "cockpit \<Rightarrow> cockpit_snapshot \<Rightarrow> header_button option" where
  "button_of s snapshot =
     (if is_terminal (rr_status (cs_run snapshot)) then Some Run_again_button
      else if cg_confirming s then None else Some Cancel_button)"

text \<open>\<open>automation\<close> and \<open>timeout\<close> are the times that the Run says; an exception is \<open>Inl\<close>.\<close>

definition facts_of ::
    "jsnum \<Rightarrow> jsnum \<Rightarrow> step list \<Rightarrow> jsnum \<Rightarrow> cockpit_snapshot \<Rightarrow> date_error + (string \<times> string) list" where
  "facts_of automation timeout steps now snapshot =
     (let run = cs_run snapshot in
      case elapsed_ms run now of
        Inl e \<Rightarrow> Inl e
      | Inr elapsed \<Rightarrow>
          Inr ([(''elapsed'', clock elapsed), (''automation'', clock automation),
             (''time with you'', clock (time_with_you_ms (cs_intervals snapshot) now)),
             (''steps done'', steps_done_label (cs_step_results snapshot) (length steps)),
             (''worker'', orelse (rr_worker_id run) en_dash), (''timeout'', duration timeout)] @
            (case rr_failure_reason run of
               None \<Rightarrow> []
             | Some reason \<Rightarrow> if is_terminal (rr_status run) then [(''failure reason'', failure_reason_name reason)] else [])))"

definition header_of ::
    "string option \<Rightarrow> jsnum \<Rightarrow> jsnum \<Rightarrow> step list \<Rightarrow> jsnum \<Rightarrow> cockpit \<Rightarrow> cockpit_snapshot \<Rightarrow> date_error + run_header" where
  "header_of workflow_name automation timeout steps now s snapshot =
     (let run = cs_run snapshot in
      map_sum id (\<lambda>facts.
        \<lparr>rh_title = orelse workflow_name ''Run'', rh_short_id = short_run_id (rr_id run), rh_version = version_label run,
         rh_trigger = trigger_label (rr_trigger run), rh_chip = chip_state run,
         rh_drift = drift_chip_label (int (drifted_count (cs_step_results snapshot))),
         rh_button = button_of s snapshot, rh_facts = facts\<rparr>)
        (facts_of automation timeout steps now snapshot))"

text \<open>The clock of the page goes on each second, but not while there is no Run nor once it has ended.\<close>

definition clock_ticks :: "cockpit \<Rightarrow> bool" where
  "clock_ticks s \<longleftrightarrow> (case status_of s of None \<Rightarrow> False | Some status \<Rightarrow> \<not> is_terminal status)"

definition confirm_shown :: "cockpit \<Rightarrow> cockpit_snapshot \<Rightarrow> string option \<Rightarrow> bool" where
  "confirm_shown s snapshot banner \<longleftrightarrow> cg_confirming s \<and> \<not> cancelling_now snapshot \<and> banner = None"

section \<open>The timeline\<close>

datatype marker_side = Before_it | Around_it | Behind_it

text \<open>Where the text of a marker stands: it would else leave the bar at its ends. A comparison with \<open>NaN\<close> fails.\<close>

definition side_of :: "timeline_marker \<Rightarrow> marker_side" where
  "side_of marker =
     (case tm_at marker of
        None \<Rightarrow> Behind_it
      | Some place \<Rightarrow> if 92 / 100 < place then Before_it else if 8 / 100 < place then Around_it else Behind_it)"

definition strip_of ::
    "jsnum \<Rightarrow> cockpit_snapshot \<Rightarrow> ((timeline_segment \<times> string) list \<times> (timeline_marker \<times> marker_side) list) option" where
  "strip_of now snapshot =
     (let (segments, markers) = timeline (cs_intervals snapshot) now in
      if segments = [] then None
      else Some (map (\<lambda>segment. (segment, clock (ts_duration_ms segment))) segments, map (\<lambda>m. (m, side_of m)) markers))"

section \<open>The rail\<close>

datatype band_tone = Wait_band | Human_band | Accent_band

fun tone_of_phase :: "run_control_kind \<Rightarrow> band_tone" where
  "tone_of_phase Waiting = Wait_band"
| "tone_of_phase Human = Human_band"
| "tone_of_phase _ = Accent_band"

record step_line =
  sl_number :: nat
  sl_label :: string
  sl_sentence :: "segment list"
  sl_time :: string
  sl_badges :: "rail_badge list"
  sl_open :: bool
  sl_expansion :: step_expansion

datatype rail_line = Step_line step_line | Band_line band_tone string

definition ellipsis_sign :: string where
  "ellipsis_sign = [char_of (0xE2 :: nat), char_of (0x80 :: nat), char_of (0xA6 :: nat)]"

fun fate_word :: "candidate_fate \<Rightarrow> string" where
  "fate_word Matched = ''matched''"
| "fate_word Died = ''died''"
| "fate_word Untried = ''not tried''"

definition time_shown :: "jsnum option \<Rightarrow> bool \<Rightarrow> string" where
  "time_shown ms in_flight = (case ms of None \<Rightarrow> if in_flight then ellipsis_sign else [] | Some t \<Rightarrow> clock t)"

definition step_line_of :: "cockpit \<Rightarrow> cockpit_snapshot \<Rightarrow> rail_item \<Rightarrow> step_line" where
  "step_line_of s snapshot item =
     \<lparr>sl_number = ri_position item + 1, sl_label = st_label (ri_step item), sl_sentence = summarize (ri_step item),
      sl_time = time_shown (ri_duration_ms item) (ri_in_flight item), sl_badges = ri_badges item,
      sl_open = (cg_expanded s = Some (st_id (ri_step item))),
      sl_expansion = step_expansion_of (rr_workflow_id (cs_run snapshot)) (ri_step item) (ri_result item)
        (cs_artifacts snapshot) (cs_logs snapshot)\<rparr>"

fun rail_line_of :: "cockpit \<Rightarrow> cockpit_snapshot \<Rightarrow> rail_item \<Rightarrow> rail_line" where
  "rail_line_of s snapshot (Control_item phase ms text) = Band_line (tone_of_phase phase) text"
| "rail_line_of s snapshot item = Step_line (step_line_of s snapshot item)"

definition flight_of :: "cockpit_snapshot \<Rightarrow> (string \<times> string) option" where
  "flight_of snapshot = map_option (\<lambda>f. (if_step_id f, if_started_at f)) (cs_in_flight snapshot)"

definition rail_of :: "step list \<Rightarrow> jsnum \<Rightarrow> cockpit \<Rightarrow> cockpit_snapshot \<Rightarrow> rail_line list" where
  "rail_of steps now s snapshot =
     map (rail_line_of s snapshot)
       (rail_items steps (cs_step_results snapshot) (cs_artifacts snapshot) (cs_intervals snapshot) (flight_of snapshot) now)"

section \<open>The banner\<close>

datatype banner_tone = Ok_banner | Bad_banner | Info_banner

record run_banner =
  rn_text :: string
  rn_tone :: banner_tone
  rn_repick :: "string option"

text \<open>The link goes to the Step of the first result that failed, if it is still a Step of the document.\<close>

definition banner_of :: "step list \<Rightarrow> cockpit_snapshot \<Rightarrow> date_error + run_banner option" where
  "banner_of steps snapshot =
     (let run = cs_run snapshot;
          failed = find (\<lambda>r. sr_status r = Step_Failed) (cs_step_results snapshot);
          failed_step = find (\<lambda>step. Some (st_id step) = map_option sr_step_id failed) steps
      in map_sum id (map_option (\<lambda>text.
        \<lparr>rn_text = text,
         rn_tone = (case rr_status run of Succeeded \<Rightarrow> Ok_banner | Failed \<Rightarrow> Bad_banner | _ \<Rightarrow> Info_banner),
         rn_repick = (if rr_status run = Failed \<and> offers_repick run (cs_step_results snapshot)
           then map_option (\<lambda>step. repick_href (rr_workflow_id run) (st_id step)) failed_step else None)\<rparr>))
        (terminal_banner run (cs_step_results snapshot) (cs_artifacts snapshot) (length steps)))"

definition cancelling_note :: "cockpit_snapshot \<Rightarrow> string option" where
  "cancelling_note snapshot =
     (if cancelling_now snapshot
      then Some (cancelling_band (current_step_number (map_option if_position (cs_in_flight snapshot)) (cs_step_results snapshot)))
      else None)"

section \<open>The drawer\<close>

record log_row =
  lw_stamp :: string
  lw_error :: bool
  lw_text :: string

definition log_rows :: "string \<Rightarrow> log_line list \<Rightarrow> log_row list" where
  "log_rows origin logs =
     map (\<lambda>line. \<lparr>lw_stamp = (case date_parse origin of
           NaN \<Rightarrow> [] | Num start \<Rightarrow> clock (num_sub (date_parse (ll_at line)) (Num start))),
         lw_error = (ll_level line = Error_level), lw_text = ll_text line\<rparr>) logs"

text \<open>The output: what the query holds, with its error, which goes before.\<close>

datatype output_shown = Output_refused string | Output_awaited | Output_empty | Output_rows output_table

definition output_shown_of :: "js option \<Rightarrow> js option \<Rightarrow> output_shown" where
  "output_shown_of assembled error =
     (case error of
        Some e \<Rightarrow> Output_refused (run_refusal e)
      | None \<Rightarrow>
          (case assembled of
             None \<Rightarrow> Output_awaited
           | Some v \<Rightarrow> (case output_table_of v of None \<Rightarrow> Output_empty | Some table \<Rightarrow> Output_rows table)))"

datatype drawer_shown =
    Drawer_logs "log_row list"
  | Drawer_output output_shown
  | Drawer_artifacts "(artifact_kind \<times> string) list"

definition drawer_of :: "js option \<Rightarrow> js option \<Rightarrow> cockpit \<Rightarrow> cockpit_snapshot \<Rightarrow> drawer_shown" where
  "drawer_of assembled error s snapshot =
     (case cg_drawer s of
        Logs_drawer \<Rightarrow>
          Drawer_logs (log_rows (orelse (rr_started_at (cs_run snapshot)) (rr_queued_at (cs_run snapshot))) (cs_logs snapshot))
      | Output_drawer \<Rightarrow> Drawer_output (output_shown_of assembled error)
      | Artifacts_drawer \<Rightarrow> Drawer_artifacts (map (\<lambda>a. (ar_kind a, ar_filename a)) (cs_artifacts snapshot)))"

section \<open>The page with its output\<close>

text \<open>
  The output is asked for when the page is opened. Nothing in the page asks for it again: the query is not kept
  fresh by the stream, by the end of the Run, or by coming back to the window.
\<close>

record run_page =
  rp_cockpit :: cockpit
  rp_output :: "js option"
  rp_output_error :: "js option"
  rp_output_asked :: bool

definition opened_run_page :: run_page where
  "opened_run_page = \<lparr>rp_cockpit = opened_cockpit, rp_output = None, rp_output_error = None, rp_output_asked = True\<rparr>"

datatype run_page_event = In_cockpit jsnum cockpit_event | Output_answered "js + js"

fun run_page_step :: "step list \<Rightarrow> run_page \<Rightarrow> run_page_event \<Rightarrow> run_page" where
  "run_page_step steps p (In_cockpit now e) = p\<lparr>rp_cockpit := next_cockpit steps now (rp_cockpit p) e\<rparr>"
| "run_page_step steps p (Output_answered answer) =
     (if \<not> rp_output_asked p then p
      else (case answer of
        Inl error \<Rightarrow> p\<lparr>rp_output_error := Some error, rp_output_asked := False\<rparr>
      | Inr v \<Rightarrow> p\<lparr>rp_output := Some v, rp_output_asked := False\<rparr>))"

definition run_page_output :: "run_page \<Rightarrow> output_shown" where
  "run_page_output p = output_shown_of (rp_output p) (rp_output_error p)"

text \<open>The whole page: a refusal, nothing yet, or its parts.\<close>

record run_page_view =
  rv_header :: run_header
  rv_strip :: "((timeline_segment \<times> string) list \<times> (timeline_marker \<times> marker_side) list) option"
  rv_confirm :: bool
  rv_cancel_refusal :: "string option"
  rv_rail :: "rail_line list"
  rv_cancelling :: "string option"
  rv_banner :: "run_banner option"
  rv_pane :: pane_view
  rv_drawer :: drawer_shown

datatype page_shown = Page_refused string | Page_awaited | Page_broken | Page_shown run_page_view

definition view_of ::
    "string option \<Rightarrow> jsnum \<Rightarrow> jsnum \<Rightarrow> step list \<Rightarrow> jsnum \<Rightarrow> run_page \<Rightarrow> page_shown" where
  "view_of workflow_name automation timeout steps now p =
     (let s = rp_cockpit p in
      case cg_load_error s of
        Some error \<Rightarrow> Page_refused (run_refusal error)
      | None \<Rightarrow>
          (case cg_live s of
             None \<Rightarrow> Page_awaited
           | Some snapshot \<Rightarrow>
               (case (header_of workflow_name automation timeout steps now s snapshot, banner_of steps snapshot) of
                  (Inr header, Inr banner) \<Rightarrow>
                    Page_shown \<lparr>rv_header = header, rv_strip = strip_of now snapshot,
                      rv_confirm = confirm_shown s snapshot (map_option rn_text banner),
                      rv_cancel_refusal = map_option run_refusal (refused_with (cg_cancel s)),
                      rv_rail = rail_of steps now s snapshot, rv_cancelling = cancelling_note snapshot, rv_banner = banner,
                      rv_pane = pane_view_of (pane_input_of s snapshot),
                      rv_drawer = drawer_of (rp_output p) (rp_output_error p) s snapshot\<rparr>
                | _ \<Rightarrow> Page_broken)))"

section \<open>Lemmas\<close>

lemma elapsed_of_number: "\<exists>ms. elapsed_ms run (Num t) = Inr ms"
  by (simp add: elapsed_ms_def Let_def split: option.split)

lemma terminal_banner_iff:
  assumes "terminal_banner run results artifacts n = Inr banner"
  shows "banner \<noteq> None \<longleftrightarrow> is_terminal (rr_status run)"
  using assms by (cases "rr_status run") (auto simp: terminal_banner_def Let_def split: sum.splits)

text \<open>The times a Run says are dates: then its banner can be written.\<close>

definition dated :: "run_record \<Rightarrow> bool" where
  "dated run \<longleftrightarrow>
     date_parse (orelse (rr_started_at run) (rr_queued_at run)) \<noteq> NaN \<and> date_parse (rr_queued_at run) \<noteq> NaN"

lemma terminal_banner_total: "dated run \<Longrightarrow> \<exists>banner. terminal_banner run results artifacts n = Inr banner"
  by (cases "rr_status run"; cases "rr_ended_at run"; cases "rr_started_at run";
      cases "date_parse (rr_queued_at run)"; cases "date_parse (orelse (rr_started_at run) (rr_queued_at run))")
    (auto simp: terminal_banner_def dated_def elapsed_ms_def Let_def)

fun lines_of :: "rail_line list \<Rightarrow> step_line list" where
  "lines_of [] = []"
| "lines_of (Step_line l # rest) = l # lines_of rest"
| "lines_of (Band_line _ _ # rest) = lines_of rest"

lemma lines_of_rail: "lines_of (map (rail_line_of s snapshot) items) = map (step_line_of s snapshot) (filter is_step_item items)"
proof (induction items)
  case (Cons item items)
  then show ?case by (cases item) simp_all
qed simp

lemma rail_lines:
  "map sl_number (lines_of (rail_of steps now s snapshot)) = [1 ..< Suc (length steps)] \<and>
   map sl_label (lines_of (rail_of steps now s snapshot)) = map st_label steps \<and>
   map sl_open (lines_of (rail_of steps now s snapshot)) = map (\<lambda>step. cg_expanded s = Some (st_id step)) steps"
proof -
  let ?items = "filter is_step_item (rail_items steps (cs_step_results snapshot) (cs_artifacts snapshot)
    (cs_intervals snapshot) (flight_of snapshot) now)"
  have shown: "map (\<lambda>item. (ri_position item, ri_step item)) ?items = enumerate 0 steps"
    by (rule rail_steps)
  have places: "map ri_position ?items = [0 ..< length steps]"
    using arg_cong [OF shown, of "map fst"] by (simp add: o_def)
  have steps: "map ri_step ?items = steps"
    using arg_cong [OF shown, of "map snd"] by (simp add: o_def)
  have "map (\<lambda>item. Suc (ri_position item)) ?items = map Suc (map ri_position ?items)" by (simp add: o_def)
  then have "map (\<lambda>item. Suc (ri_position item)) ?items = [1 ..< Suc (length steps)]"
    by (simp only: places map_Suc_upt) simp
  moreover have "map (\<lambda>item. st_label (ri_step item)) ?items = map st_label (map ri_step ?items)" by (simp add: o_def)
  moreover have "map (\<lambda>item. cg_expanded s = Some (st_id (ri_step item))) ?items =
      map (\<lambda>step. cg_expanded s = Some (st_id step)) (map ri_step ?items)" by (simp add: o_def)
  ultimately show ?thesis
    unfolding steps by (simp add: rail_of_def lines_of_rail o_def step_line_of_def)
qed

section \<open>Properties\<close>

text \<open>The page of a Run that is loaded and says its times as dates is always drawn, and its parts agree: the banner is
  there exactly once the Run has ended; then it can be run again, and before it can be cancelled, either by the button or
  by the confirmation, which are never offered together; and the rail numbers the Steps of the
  document from one, in their order, with at most the one that was opened last standing open.\<close>

theorem run_page_is_drawn:
  assumes "cg_load_error (rp_cockpit p) = None" and "cg_live (rp_cockpit p) = Some snapshot" and "dated (cs_run snapshot)"
  shows "\<exists>view. view_of name automation timeout steps (Num now) p = Page_shown view \<and>
    (rv_banner view \<noteq> None \<longleftrightarrow> is_terminal (rr_status (cs_run snapshot))) \<and>
    (rh_button (rv_header view) = Some Run_again_button \<longleftrightarrow> is_terminal (rr_status (cs_run snapshot))) \<and>
    \<not> (rv_confirm view \<and> rh_button (rv_header view) \<noteq> None) \<and>
    (rv_confirm view \<longrightarrow> rv_banner view = None \<and> rv_cancelling view = None) \<and>
    map sl_number (lines_of (rv_rail view)) = [1 ..< Suc (length steps)] \<and>
    map sl_open (lines_of (rv_rail view)) = map (\<lambda>step. cg_expanded (rp_cockpit p) = Some (st_id step)) steps"
proof -
  let ?run = "cs_run snapshot"
  obtain facts where facts: "facts_of automation timeout steps (Num now) snapshot = Inr facts"
    using elapsed_of_number [of ?run now] by (auto simp: facts_of_def Let_def)
  obtain banner where banner: "terminal_banner ?run (cs_step_results snapshot) (cs_artifacts snapshot) (length steps) = Inr banner"
    using terminal_banner_total [OF assms(3)] by blast
  from terminal_banner_iff [OF banner] show ?thesis
    using rail_lines [of steps "Num now" "rp_cockpit p" snapshot] assms(1,2) facts banner
    by (cases banner)
      (auto simp: view_of_def header_of_def banner_of_def Let_def button_of_def confirm_shown_def cancelling_note_def)
qed

definition failed_run :: run_record where
  "failed_run = (sample_run Failed)\<lparr>rr_queued_at := ''2026-08-25T12:00:00Z'', rr_ended_at := Some ''2026-08-25T12:01:00Z''\<rparr>"

definition failed_page :: run_page where
  "failed_page = opened_run_page\<lparr>rp_cockpit := opened_cockpit\<lparr>cg_live := Some (empty_snapshot failed_run)\<rparr>\<rparr>"

theorem run_page_is_drawn_witness:
  "\<exists>view. view_of None (Num 0) (Num 0) [] (Num 0) failed_page = Page_shown view \<and> rv_banner view \<noteq> None"
proof -
  have "cg_load_error (rp_cockpit failed_page) = None"
    by (simp add: failed_page_def opened_cockpit_def)
  moreover have "cg_live (rp_cockpit failed_page) = Some (empty_snapshot failed_run)"
    by (simp add: failed_page_def)
  moreover have "dated (cs_run (empty_snapshot failed_run))" by code_simp
  moreover have "is_terminal (rr_status (cs_run (empty_snapshot failed_run)))" by code_simp
  ultimately show ?thesis
    using run_page_is_drawn [of failed_page "empty_snapshot failed_run" None "Num 0" "Num 0" "[]" 0] by blast
qed

text \<open>
  The drawer shows the output as it was when the page was opened. Whatever happens then (the events of the stream, the end
  of the Run, what is done in the page) does not ask for it again: the page that is opened when a Run
  starts, as it is after starting it, says to its end that no data was extracted.
\<close>

lemma output_stays:
  "\<not> rp_output_asked p \<Longrightarrow> run_page_output (foldl (run_page_step steps) p es) = run_page_output p"
proof (induction es arbitrary: p)
  case (Cons e es)
  then show ?case by (cases e) (simp_all add: run_page_output_def)
qed simp

theorem output_is_as_it_was:
  "run_page_output (foldl (run_page_step steps) opened_run_page (Output_answered (Inr (Obj [])) # es)) = Output_empty"
proof -
  let ?p = "run_page_step steps opened_run_page (Output_answered (Inr (Obj [])))"
  have "\<not> rp_output_asked ?p" by (simp add: opened_run_page_def)
  from output_stays [OF this, of steps es] show ?thesis
    by (simp add: run_page_output_def opened_run_page_def output_shown_of_def output_table_of_def)
qed

end
