(* ===== verification/BatchView.thy ===== *)
theory BatchView
  imports BatchPage RunView
begin

text \<open>
  What the page of a Batch shows (\<open>app/(shell)/batches/[id]/page.tsx\<close>): its counts and its bar, a line for each row
  with what it opens to, the Run that is going on, and the output, from the state of theory BatchPage.
\<close>

section \<open>The counts\<close>

record bar_piece =
  pc_key :: string
  pc_count :: nat
  pc_share :: rat
  pc_tone :: progress_tone

text \<open>A share of nothing is a share of one, so that nothing is divided by zero; what counts nothing is left out.\<close>

definition bar_of :: "batch_stats \<Rightarrow> bar_piece list" where
  "bar_of stats =
     (let segments = progress_segments stats;
          whole = max 1 (sum_list (map ps_count segments))
      in map (\<lambda>s. \<lparr>pc_key = ps_key s, pc_count = ps_count s, pc_share = of_nat (ps_count s) / of_nat whole, pc_tone = ps_tone s\<rparr>)
           (filter (\<lambda>s. ps_count s \<noteq> 0) segments))"

definition stats_texts :: "stats_view \<Rightarrow> (string \<times> string) list" where
  "stats_texts v =
     [(''done'', show_nat (sv_done v) @ ''/'' @ show_nat (sv_total v)), (''succeeded'', show_nat (sv_succeeded v)),
      (''failed'', show_nat (sv_failed v)), (''queued'', show_nat (sv_queued v)), (''skipped'', show_nat (sv_skipped v))]"

section \<open>A row\<close>

record row_cells =
  rc_number :: string
  rc_values :: "string list"
  rc_chip :: lifecycle_state
  rc_time :: string
  rc_live :: bool
  rc_opened :: bool

definition row_cells_of :: "string list \<Rightarrow> int \<Rightarrow> bool \<Rightarrow> run_status option \<Rightarrow> batch_row \<Rightarrow> row_cells" where
  "row_cells_of columns now live live_status row =
     \<lparr>rc_number = show_int (br_index row + 1), rc_values = map (\<lambda>column. variable_cell (field (br_variables row) column)) columns,
      rc_chip = row_chip_state row live_status,
      rc_time = (case row_duration_ms row now of None \<Rightarrow> [] | Some ms \<Rightarrow> duration ms),
      rc_live = live, rc_opened = (live \<or> br_status row = Row_failed)\<rparr>"

text \<open>The output of a row that succeeded: what the query holds, which is nothing before its answer and when it is refused.\<close>

datatype grid_shown = No_data | Grid output_table

definition row_output_shown :: "js option \<Rightarrow> grid_shown" where
  "row_output_shown held =
     (case Option.bind held (\<lambda>v. batch_output_table (coerce_run_output v)) of None \<Rightarrow> No_data | Some table \<Rightarrow> Grid table)"

section \<open>The Run that is going on\<close>

datatype live_line = Live_step string string string | Live_band string

fun live_line_of :: "rail_item \<Rightarrow> live_line" where
  "live_line_of (Control_item phase ms text) = Live_band text"
| "live_line_of (Step_item place step result in_flight ms badges) =
     Live_step (show_nat (place + 1)) (st_label step) (time_shown ms in_flight)"

record live_view =
  lv_chip :: lifecycle_state
  lv_lines :: "live_line list"
  lv_tail :: "(string \<times> string) list"

definition live_view_of :: "workflow_document option \<Rightarrow> jsnum \<Rightarrow> cockpit_snapshot \<Rightarrow> live_view" where
  "live_view_of document now snapshot =
     (let steps = (case document of None \<Rightarrow> [] | Some d \<Rightarrow> orelse (wd_steps d) []) in
      \<lparr>lv_chip = chip_state (cs_run snapshot),
       lv_lines = map live_line_of (rail_items steps (cs_step_results snapshot) (cs_artifacts snapshot) (cs_intervals snapshot)
         (flight_of snapshot) now),
       lv_tail = log_tail (cs_run snapshot) (cs_logs snapshot)\<rparr>)"

section \<open>The output\<close>

datatype batch_output_shown = Batch_output_refused string | Batch_output_awaited | No_output_yet | Batch_grid output_table

definition batch_output_shown_of :: "js option \<Rightarrow> js option \<Rightarrow> batch_output_shown" where
  "batch_output_shown_of assembled error =
     (case error of
        Some e \<Rightarrow> Batch_output_refused (batch_refusal e)
      | None \<Rightarrow>
          (case assembled of
             None \<Rightarrow> Batch_output_awaited
           | Some v \<Rightarrow> (case batch_output_table v of None \<Rightarrow> No_output_yet | Some table \<Rightarrow> Batch_grid table)))"

section \<open>The page\<close>

record batch_rows_view =
  bv_stats :: "(string \<times> string) list"
  bv_bar :: "bar_piece list"
  bv_eta :: "string option"
  bv_columns :: "string list"
  bv_rows :: "row_cells list"

definition live_status_of :: "batch_page \<Rightarrow> batch_row list \<Rightarrow> run_status option" where
  "live_status_of s rows = (case live_row rows \<bind> br_latest_run_id of None \<Rightarrow> None | Some run_id \<Rightarrow> bp_runs s run_id)"

definition batch_rows_view_of :: "int \<Rightarrow> batch_page \<Rightarrow> batch_snapshot \<Rightarrow> batch_rows_view" where
  "batch_rows_view_of now s snapshot =
     (let rows = bs_rows snapshot;
          columns = variable_columns rows;
          live = (\<lambda>row. live_row_index rows = Some (br_index row)) in
      \<lparr>bv_stats = stats_texts (stats_view_of rows), bv_bar = bar_of (bs_stats snapshot), bv_eta = eta_label (bs_eta_seconds snapshot),
       bv_columns = columns,
       bv_rows = map (\<lambda>row. row_cells_of columns now (live row) (if live row then live_status_of s rows else None) row) rows\<rparr>)"

datatype batch_shown =
    Batch_refused string
  | Batch_awaited
  | Batch_rows string string "string option" batch_rows_view
  | Batch_output string string "string option" batch_output_shown

definition batch_view_of :: "int \<Rightarrow> js option \<Rightarrow> js option \<Rightarrow> batch_page \<Rightarrow> batch_shown" where
  "batch_view_of now assembled error s =
     (case bp_load_error s of
        Some e \<Rightarrow> Batch_refused (batch_refusal e)
      | None \<Rightarrow>
          (case bp_live s of
             None \<Rightarrow> Batch_awaited
           | Some snapshot \<Rightarrow>
               (let name = bt_name (bs_batch snapshot); ident = short_run_id (bt_id (bs_batch snapshot)) in
                case bp_tab s of
                  Output_tab \<Rightarrow> Batch_output name ident (bp_action_error s) (batch_output_shown_of assembled error)
                | Rows_tab \<Rightarrow> Batch_rows name ident (bp_action_error s) (batch_rows_view_of now s snapshot))))"

section \<open>Lemmas\<close>

lemma shares_of:
  "sum_list (map (\<lambda>s. of_nat (ps_count s) / (w :: rat)) (filter (\<lambda>s. ps_count s \<noteq> 0) segments)) =
   of_nat (sum_list (map ps_count segments)) / w"
  by (induction segments) (simp_all add: add_divide_distrib)

lemma bar_counts: "sum_list (map pc_count (bar_of stats)) = sum_list (map ps_count (progress_segments stats))"
proof -
  have "sum_list (map ps_count (filter (\<lambda>s. ps_count s \<noteq> 0) segments)) = sum_list (map ps_count segments)" for segments
    by (induction segments) simp_all
  then show ?thesis by (simp add: bar_of_def Let_def o_def)
qed

lemma bar_shares:
  assumes "0 < sum_list (map ps_count (progress_segments stats))"
  shows "sum_list (map pc_share (bar_of stats)) = 1"
proof -
  let ?n = "sum_list (map ps_count (progress_segments stats))"
  have "sum_list (map pc_share (bar_of stats)) = of_nat ?n / of_nat (max 1 ?n)"
    using shares_of [of "of_nat (max 1 ?n)" "progress_segments stats"] by (simp add: bar_of_def Let_def o_def)
  moreover have "max 1 ?n = ?n" using assms by linarith
  moreover have "(of_nat ?n :: rat) \<noteq> 0" using assms by (simp only: of_nat_eq_0_iff)
  ultimately show ?thesis by (metis divide_self_if)
qed

lemma bar_pieces: "piece \<in> set (bar_of stats) \<Longrightarrow> 0 < pc_count piece"
  by (auto simp: bar_of_def Let_def)

lemma at_most_one_place: "distinct (map f xs) \<Longrightarrow> length (filter (\<lambda>x. k = Some (f x)) xs) \<le> 1"
proof (induction xs)
  case (Cons x xs)
  show ?case
  proof (cases "k = Some (f x)")
    case True
    with Cons.prems have "filter (\<lambda>y. k = Some (f y)) xs = []" by (auto simp: filter_empty_conv)
    with True show ?thesis by simp
  next
    case False
    then show ?thesis using Cons by simp
  qed
qed simp

section \<open>Properties\<close>

text \<open>The table of the rows is one: a line for each row, each with a cell for each column.\<close>

theorem rows_make_a_table:
  "length (bv_rows (batch_rows_view_of now s snapshot)) = length (bs_rows snapshot) \<and>
   list_all (\<lambda>cells. length (rc_values cells) = length (bv_columns (batch_rows_view_of now s snapshot)))
     (bv_rows (batch_rows_view_of now s snapshot))"
  by (simp add: batch_rows_view_of_def row_cells_of_def Let_def list_all_iff)

text \<open>
  What the page shows of a sound snapshot agrees with itself. The bar has no empty piece, its pieces count
  every row once, and they fill it; the counts above it are of the same rows, and of rows with distinct numbers at most one is marked live.
\<close>

theorem counts_agree_with_rows:
  assumes "batch_ok snapshot" and "distinct (map br_index (bs_rows snapshot))" and "bs_rows snapshot \<noteq> []"
  shows "sum_list (map pc_count (bv_bar (batch_rows_view_of now s snapshot))) = length (bv_rows (batch_rows_view_of now s snapshot)) \<and>
    sum_list (map pc_share (bv_bar (batch_rows_view_of now s snapshot))) = 1 \<and>
    list_all (\<lambda>piece. 0 < pc_count piece) (bv_bar (batch_rows_view_of now s snapshot)) \<and>
    length (filter rc_live (bv_rows (batch_rows_view_of now s snapshot))) \<le> 1"
proof -
  let ?rows = "bs_rows snapshot"
  have stats: "bs_stats snapshot = stats_from_rows ?rows" using assms(1) by (simp add: batch_ok_def)
  have all: "sum_list (map ps_count (progress_segments (bs_stats snapshot))) = length ?rows"
    unfolding stats using progress_adds_up [of ?rows] by (rule conjunct1)
  then have "0 < sum_list (map ps_count (progress_segments (bs_stats snapshot)))" using assms(3) by simp
  note shares = bar_shares [OF this]
  have "length (filter rc_live (bv_rows (batch_rows_view_of now s snapshot))) \<le> 1"
    using at_most_one_place [OF assms(2), of "live_row_index ?rows"]
    by (simp add: batch_rows_view_of_def row_cells_of_def Let_def filter_map o_def)
  then show ?thesis
    using bar_counts [of "bs_stats snapshot"] all shares
    by (auto simp: batch_rows_view_of_def Let_def list_all_iff bar_pieces)
qed

theorem counts_agree_with_rows_witness:
  "sum_list (map pc_share (bv_bar (batch_rows_view_of 0 opened_batch (batch_snapshot_from_detail queued_detail)))) = 1"
proof -
  let ?snapshot = "batch_snapshot_from_detail queued_detail"
  have "distinct (map br_index (bs_rows ?snapshot))" and "bs_rows ?snapshot \<noteq> []"
    by (simp_all add: batch_snapshot_from_detail_def queued_detail_def)
  then show ?thesis using counts_agree_with_rows [OF queued_detail_ok, of 0 opened_batch] by blast
qed

text \<open>
  A row that succeeded says that it extracted no data before its output is there, and still when it was refused: the query holds
  nothing in both cases, and its error is not looked at.
\<close>

lemma row_says_no_data_before_its_answer: "row_output_shown None = No_data"
  by (simp add: row_output_shown_def)

end
