(* ===== verification/Spec2Isabelle.thy ===== *)
theory Spec2Isabelle
  imports Recurrence Grid Reconcile Csv RunEvents BatchEvents Durations Steps References Variables
    RunPresentation Pane Urls Gate Preferences Connection BatchPresentation NewBatch Workflows Schedules
    Recording RecordingWorker ConnectWorker Bridge RecorderContent StepForm Editor
    Mutations Streams Cockpit BatchPage WorkflowPages Organization SecretsPage Popup Sse Lists
    SignIn ApiClient Shell Dialogs Endpoints Queries ApiShapes ApiContract ApiUse WorkerEvents
    RunView BatchView
begin

text \<open>
  A verification library of Step by Step, a service that records what a person does in a browser
  as a Workflow and runs it again: its web application (\<open>src/apps/web\<close>), in
  TypeScript, and the browser extension that records (\<open>src/apps/extension\<close>), in JavaScript.

  \<^bold>\<open>How the program is put together.\<close> The pages under \<open>app/(shell)\<close> hold their state in
  React and in a cache of queries of the API. What decides something is in plain modules
  beside the pages and in \<open>lib\<close>: reducers of server-sent events, edits of a document,
  parsers and printers, state that tabs share, and what a page shows of all that. This library
  models those modules function by function, and the handlers of the pages that hold a state
  machine (the editor, the page of a Run, the page of a Batch and its creation, the form of a Schedule). What comes
  from outside (the answers of the API, the events of a stream, what a person types) is an
  input of the models: a theorem holds for whatever arrives.

  \<^bold>\<open>Base.\<close>
  \<^item> \<open>Prelude\<close>: list and option operations of ECMAScript, and the interfaces the
    components share as locales: \<open>reducer\<close> and \<open>framed_reducer\<close> (a state, its events, an
    invariant each keeps), \<open>codec\<close> and \<open>sound_codec\<close> (what is encoded is decoded).
  \<^item> \<open>JsText\<close>, \<open>JsValue\<close>: strings as bytes, numerals, \<open>trim\<close>, \<open>split\<close>; numbers with
    \<open>NaN\<close>, values of unknown type, \<open>JSON.stringify\<close>, \<open>Date.parse\<close>, \<open>Number\<close> of a text.
  \<^item> \<open>ApiTypes\<close>: the records of \<open>packages/api-client/src/generated/types.gen.ts\<close> that the code reads.
  \<^item> \<open>Urls\<close>: percent encoding, \<open>URLSearchParams\<close>, the parts of a path.

  \<^bold>\<open>Values and their grid.\<close> \<open>Grid\<close> (\<open>components/value-grid/grid.ts\<close>), \<open>Csv\<close>
  (\<open>csv-import.ts\<close>), \<open>Reconcile\<close> (\<open>lib/reconcile.ts\<close>, with the Levenshtein distance against
  the least number of edits), \<open>NewBatch\<close> (the page that creates a Batch, which uses all three).
  Shown: no write reaches the cell of a secret Variable, what is written as a spreadsheet or
  as CSV is read back, an import fills the cells it says, a Batch is sent with plain values only.

  \<^bold>\<open>Runs and Batches.\<close> \<open>RunEvents\<close> and \<open>BatchEvents\<close> (the two \<open>events.ts\<close>) are reducers over any
  sequence of events, with an invariant; \<open>RunPresentation\<close>, \<open>BatchPresentation\<close>, \<open>Durations\<close> say
  what is shown; \<open>Pane\<close> is the view of a live browser and the lock that at most one tab holds.

  \<^bold>\<open>Workflows.\<close> \<open>Steps\<close> (Steps, edits, selectors, badges), \<open>References\<close> and \<open>Variables\<close> (the scanner of
  \<open>{{name}}\<close>, the Variables of a document, the sentence of a Step), \<open>Workflows\<close> (tabs, Versions, leaving
  the editor, publishing, starting a Run). Shown: edits keep ids and names distinct and leave no
  reference dangling, renaming renames exactly the references, paths are read back.

  \<^bold>\<open>Schedules.\<close> \<open>Recurrence\<close> (\<open>lib/recurrence.ts\<close>) reads and writes cron expressions, with an
  independent reading of cron as sets of moments; \<open>Schedules\<close> is the form of a Schedule as a state
  machine and what the list shows. Shown: the form never raises, opening and saving a Schedule
  keeps the moments it fires at, and what is sent is complete.

  \<^bold>\<open>The pages.\<close> A page is a record of what it keeps, a datatype of what is done to it or arrives, and a total
  step function that also returns what it asks for. \<open>Mutations\<close> (a request that is asked, settled or refused, and the
  texts of refusals) and \<open>Streams\<close> (\<open>use-run-stream.ts\<close>, \<open>use-batch-stream.ts\<close>: a stream that is
  opened while the Run or the Batch goes on, fetched after it ended, opened again after a second) are
  shared. \<open>StepForm\<close> (\<open>step-form.tsx\<close>, \<open>value-field.tsx\<close>) and \<open>Editor\<close> (the page of
  \<open>workflows/[id]/editor\<close>), \<open>Cockpit\<close> (the page of \<open>runs/[id]\<close>, with \<open>pane-panel.tsx\<close> and the dialog that runs again),
  \<open>BatchPage\<close> (the page of \<open>batches/[id]\<close>), \<open>RunView\<close> and \<open>BatchView\<close> (what these two show), \<open>WorkflowPages\<close> (the list of Workflows and the frame around the
  pages of one: searching, naming, deleting, publishing), \<open>Dialogs\<close> (the test of a Draft, the Run of a Version, the matching of columns of
  a CSV import). Shown: what the editor saves is the loaded Draft with edits of the library made
  to it, a Version is only read, work starts from what is saved; the snapshots that the pages show stay
  well-formed; control of a browser comes only by the answer to a take-over that the pane offered; a Workflow is
  deleted only by confirming the dialog that names it. Where
  an order of messages loses something, the theorem says so.

  \<^bold>\<open>Lists.\<close> \<open>Lists\<close> (\<open>hooks/use-cursor-list.ts\<close>, \<open>runs-list.tsx\<close>, \<open>schedules-list.tsx\<close>, \<open>batches-list.tsx\<close>): a list
  loaded page by page, its filters in the URL, and a row of a Schedule. Shown: for an API that serves a list in
  pages, what is shown is always its beginning, and all of it when no more is offered.

  \<^bold>\<open>The client of the API.\<close> \<open>ApiClient\<close> (\<open>generated/client\<close>, \<open>generated/core\<close>): the URL of a call, its headers and body, the
  interceptors, and what an answer becomes; \<open>Sse\<close> (\<open>serverSentEvents.gen.ts\<close>): the text of a stream cut into
  frames, composed with the hooks and the reducers of the pages; \<open>Endpoints\<close> (\<open>generated/sdk.gen.ts\<close>): each call with its
  method and path; \<open>Queries\<close> (every \<open>queries.ts\<close>): what the pages ask for and the keys it is kept under; \<open>ApiShapes\<close> and \<open>ApiContract\<close> (\<open>generated/types.gen.ts\<close>): the
  declared types as values with the JSON that conforms to them, and what each call takes and gives; \<open>ApiUse\<close> compares the queries with them.
  Shown: the two generated files agree call by call, the pages ask as declared, the documents of the model are the declared ones, values stay in their segment of the path and
  queries read back, a request says which call it is and with which values, what is kept under the key of an Organization was asked of that
  Organization, every refusal reaches its caller as one, interceptors are those in use, and the events that the API sends are the
  events that are heard, however the connection cuts the text.

  \<^bold>\<open>Settings.\<close> \<open>Organization\<close> (\<open>settings/organization\<close> and \<open>settings/account\<close>: members, invitations, names, handing on,
  deleting) has beside the screens the rules of the API about members, from the Python modules
  \<open>accounts/members.py\<close>, \<open>orgs.py\<close>, \<open>invitations.py\<close> and \<open>deletion.py\<close>: shown is that the offered controls are exactly those the API
  accepts, and that under its rules an Organization always has one owner. \<open>SecretsPage\<close> (\<open>settings/secrets\<close>):
  a value stays readable for at most thirty seconds after its answer.

  \<^bold>\<open>The shell.\<close> \<open>Gate\<close> (sign-in and its carried path, \<open>lib/gate.ts\<close>, \<open>api.ts\<close>, \<open>identity.ts\<close>),
  \<open>Preferences\<close> (the remembered Organization, theme, labels, filters in the URL), \<open>Connection\<close> (the
  messages of the browser extension and the version it must have), \<open>SignIn\<close> (\<open>app/signin\<close>: the page that signs in, composed
  with the gate: who was sent to sign in gets back), \<open>Shell\<close> (\<open>shell.tsx\<close>, the menu of the user, the invitations, the band, the
  provider of the connection, \<open>app/providers.tsx\<close>): every visit settles on the page that was wanted, requests name the
  Organization that is shown, the connection shown is what the latest probe found.

  \<^bold>\<open>The browser extension.\<close> \<open>Recording\<close> (\<open>extension/src/lib\<close>: handshakes, addresses, what a recording
  is saved as), \<open>RecordingWorker\<close>, \<open>ConnectWorker\<close> and \<open>WorkerEvents\<close> (\<open>service-worker.js\<close>: the recording that is kept, the
  connection to an instance, the events of the browser with the queue and the shared attempts), \<open>Bridge\<close> (\<open>page-bridge.js\<close> and the page \<open>app/connect\<close>), \<open>RecorderContent\<close>
  (\<open>recorder-content.js\<close>, in the recorded page), \<open>Popup\<close> (\<open>popup.js\<close>, composed with the saving of the service worker). The handlers of the service worker read the stored recording,
  wait and write their copy back; a relation interleaves them. Shown: an announced intent is done at most once, events are worked through in order, an origin is connected only by
  the tab that was opened for it or by a code, whatever handlers interleave a recording stays
  well-formed, a failed save keeps it, every Step reaches the API, what the web application asks for
  crosses the bridge as it was asked, what the page sends does not depend on its passwords, and
  the candidates of an element name that element alone, a form the popup shows as filled is saved.

  \<^bold>\<open>Conventions.\<close> A record or union of the source is a \<open>record\<close> or \<open>datatype\<close>; \<open>null\<close> and
  \<open>undefined\<close> are \<open>None\<close> (kept apart where the code tells them apart); an exception is \<open>Inl\<close>. A string is a list of bytes
  of UTF-8, so a length or a position agrees with the source inside ASCII text. Numbers are whole
  and unbounded, or \<open>NaN\<close>: the rounding of large doubles is not modelled. A loop is a structural
  recursion, so every function of the models is total, and no fuel is used. State machines are
  total step functions with the events the page offers as a predicate, and reachability as an
  inductive predicate.

  \<^bold>\<open>Not modelled.\<close> Markup and the components that only render; the
  query cache itself and the DOM; \<open>Intl\<close> (an argument where a text
  depends on it); the API server, the worker and the core
  package, which are Python (but for the rules about members).
\<close>

end
